(* ===== verification/Js_Number.thy ===== *)
theory Js_Number
  imports Complex_Main "HOL-Library.Log_Nat"
begin

text \<open>
  The numbers of the program. Every amount, fee, rate and limit of the TypeScript sources is an
  ECMAScript \<^verbatim>\<open>number\<close>: an IEEE 754 binary64 value. This theory models them exactly. A finite
  value is the rational number it denotes, and every arithmetic operation computes the exact
  rational result and rounds it once, to nearest with ties to even (\<open>dround\<close>); overflow gives an
  infinity, and the invalid operations give \<open>NaN\<close>. The two zeros are one value here: of the
  operations of the sources only a division by zero could tell them apart, and \<open>js_div\<close> treats a
  zero divisor as \<open>+0\<close>.

  The lemmas show that \<open>dround\<close> is monotone, odd, idempotent and exact on the integers up to
  \<open>2\<^sup>5\<^sup>3\<close>. The clients use these laws through the locale \<open>rounding\<close>, which \<open>dround\<close> interprets.
\<close>

section \<open>Rounding to binary64\<close>

definition rne :: "rat \<Rightarrow> int" where
  \<comment> \<open>round to the nearest integer, ties to even\<close>
  "rne x = (let f = \<lfloor>x\<rfloor>; d = x - of_int f in
     if d < 1/2 then f else if 1/2 < d then f + 1 else if even f then f else f + 1)"

definition pow2 :: "int \<Rightarrow> rat" where
  "pow2 e = (if 0 \<le> e then 2 ^ nat e else 1 / 2 ^ nat (- e))"

definition binade :: "rat \<Rightarrow> int" where
  \<comment> \<open>the exponent \<open>e\<close> of a positive \<open>x\<close> with \<open>2\<^sup>e \<le> x < 2\<^sup>e\<^sup>+\<^sup>1\<close>\<close>
  "binade x = (case quotient_of x of (p, q) \<Rightarrow>
     let k = bitlen p - bitlen q in if pow2 k \<le> x then k else k - 1)"

definition ulp :: "rat \<Rightarrow> rat" where
  \<comment> \<open>the distance of neighbouring doubles in the binade of \<open>x\<close>, subnormals included\<close>
  "ulp x = pow2 (max (binade x - 52) (-1074))"

definition dround :: "rat \<Rightarrow> rat" where
  "dround x =
     (if x = 0 then 0
      else if 0 < x then of_int (rne (x / ulp x)) * ulp x
      else - (of_int (rne ((- x) / ulp (- x))) * ulp (- x)))"

definition representable :: "rat \<Rightarrow> bool" where
  "representable x \<longleftrightarrow> (\<exists>m k. x = of_int m * pow2 k \<and> \<bar>m\<bar> \<le> 2 ^ 53 \<and> -1074 \<le> k)"

section \<open>The values and operations of the language\<close>

datatype jsnum = NaN | PInf | NInf | Fin rat

definition num :: "rat \<Rightarrow> jsnum" where
  "num x = (let r = dround x in
     if pow2 1024 \<le> r then PInf else if r \<le> - pow2 1024 then NInf else Fin r)"

definition signed_inf :: "rat \<Rightarrow> jsnum" where
  "signed_inf s = (if s = 0 then NaN else if 0 < s then PInf else NInf)"

fun js_neg :: "jsnum \<Rightarrow> jsnum" where
  "js_neg NaN = NaN"
| "js_neg PInf = NInf"
| "js_neg NInf = PInf"
| "js_neg (Fin a) = Fin (- a)"

fun js_add :: "jsnum \<Rightarrow> jsnum \<Rightarrow> jsnum" where
  "js_add (Fin a) (Fin b) = num (a + b)"
| "js_add NaN y = NaN"
| "js_add x NaN = NaN"
| "js_add PInf NInf = NaN"
| "js_add NInf PInf = NaN"
| "js_add PInf y = PInf"
| "js_add NInf y = NInf"
| "js_add x PInf = PInf"
| "js_add x NInf = NInf"

definition js_sub :: "jsnum \<Rightarrow> jsnum \<Rightarrow> jsnum" where
  "js_sub x y = js_add x (js_neg y)"

fun js_mul :: "jsnum \<Rightarrow> jsnum \<Rightarrow> jsnum" where
  "js_mul (Fin a) (Fin b) = num (a * b)"
| "js_mul NaN y = NaN"
| "js_mul x NaN = NaN"
| "js_mul PInf PInf = PInf"
| "js_mul PInf NInf = NInf"
| "js_mul NInf PInf = NInf"
| "js_mul NInf NInf = PInf"
| "js_mul PInf (Fin b) = signed_inf b"
| "js_mul NInf (Fin b) = signed_inf (- b)"
| "js_mul (Fin a) PInf = signed_inf a"
| "js_mul (Fin a) NInf = signed_inf (- a)"

fun js_div :: "jsnum \<Rightarrow> jsnum \<Rightarrow> jsnum" where
  "js_div (Fin a) (Fin b) = (if b = 0 then signed_inf a else num (a / b))"
| "js_div NaN y = NaN"
| "js_div x NaN = NaN"
| "js_div (Fin a) y = Fin 0"
| "js_div PInf (Fin b) = (if 0 \<le> b then PInf else NInf)"
| "js_div NInf (Fin b) = (if 0 \<le> b then NInf else PInf)"
| "js_div x y = NaN"

fun js_lt :: "jsnum \<Rightarrow> jsnum \<Rightarrow> bool" where
  "js_lt (Fin a) (Fin b) = (a < b)"
| "js_lt NaN y = False"
| "js_lt x NaN = False"
| "js_lt PInf y = False"
| "js_lt x NInf = False"
| "js_lt NInf y = True"
| "js_lt x PInf = True"

fun js_le :: "jsnum \<Rightarrow> jsnum \<Rightarrow> bool" where
  "js_le (Fin a) (Fin b) = (a \<le> b)"
| "js_le NaN y = False"
| "js_le x NaN = False"
| "js_le NInf y = True"
| "js_le x PInf = True"
| "js_le PInf y = False"
| "js_le x NInf = False"

definition js_eq :: "jsnum \<Rightarrow> jsnum \<Rightarrow> bool" where
  \<comment> \<open>the operator \<^verbatim>\<open>===\<close> on numbers\<close>
  "js_eq x y \<longleftrightarrow> x = y \<and> x \<noteq> NaN"

fun js_truthy :: "jsnum \<Rightarrow> bool" where
  "js_truthy NaN = False"
| "js_truthy (Fin a) = (a \<noteq> 0)"
| "js_truthy _ = True"

fun js_isFinite :: "jsnum \<Rightarrow> bool" where
  "js_isFinite (Fin a) = True"
| "js_isFinite _ = False"

fun js_isNaN :: "jsnum \<Rightarrow> bool" where
  "js_isNaN NaN = True"
| "js_isNaN _ = False"

fun js_abs :: "jsnum \<Rightarrow> jsnum" where
  "js_abs NaN = NaN"
| "js_abs (Fin a) = Fin \<bar>a\<bar>"
| "js_abs _ = PInf"

text \<open>\<^verbatim>\<open>Math.floor\<close>, \<^verbatim>\<open>Math.round\<close> (ties up), \<^verbatim>\<open>Math.ceil\<close> and \<^verbatim>\<open>Math.trunc\<close> are exact.\<close>

fun js_map_int :: "(rat \<Rightarrow> int) \<Rightarrow> jsnum \<Rightarrow> jsnum" where
  "js_map_int f (Fin a) = num (of_int (f a))"
| "js_map_int f x = x"

definition js_floor :: "jsnum \<Rightarrow> jsnum" where "js_floor = js_map_int floor"
definition js_ceil :: "jsnum \<Rightarrow> jsnum" where "js_ceil = js_map_int ceiling"
definition js_round :: "jsnum \<Rightarrow> jsnum" where "js_round = js_map_int (\<lambda>a. \<lfloor>a + 1/2\<rfloor>)"
definition js_trunc :: "jsnum \<Rightarrow> jsnum" where
  "js_trunc = js_map_int (\<lambda>a. if 0 \<le> a then \<lfloor>a\<rfloor> else \<lceil>a\<rceil>)"

definition js_max :: "jsnum \<Rightarrow> jsnum \<Rightarrow> jsnum" where
  "js_max x y = (if x = NaN \<or> y = NaN then NaN else if js_lt x y then y else x)"
definition js_min :: "jsnum \<Rightarrow> jsnum \<Rightarrow> jsnum" where
  "js_min x y = (if x = NaN \<or> y = NaN then NaN else if js_lt y x then y else x)"

text \<open>
  \<open>js_toFixed f x\<close> is \<^verbatim>\<open>parseFloat(x.toFixed(f))\<close>: the decimal with \<open>f\<close> digits nearest to the
  exact value of \<open>x\<close> (of two, the larger in magnitude), read back as a number. From \<open>10\<^sup>2\<^sup>1\<close> on
  \<^verbatim>\<open>toFixed\<close> prints the number itself, and \<^verbatim>\<open>parseFloat\<close> reads the same number back.
\<close>

definition fixed_digits :: "nat \<Rightarrow> rat \<Rightarrow> rat" where
  "fixed_digits f a =
     (if a < 0 then - (of_int \<lfloor>(- a) * 10 ^ f + 1/2\<rfloor> / 10 ^ f)
      else of_int \<lfloor>a * 10 ^ f + 1/2\<rfloor> / 10 ^ f)"

fun js_toFixed :: "nat \<Rightarrow> jsnum \<Rightarrow> jsnum" where
  "js_toFixed f (Fin a) = (if 10 ^ 21 \<le> \<bar>a\<bar> then Fin a else num (fixed_digits f a))"
| "js_toFixed f x = x"

definition js_int :: "int \<Rightarrow> jsnum" where
  \<comment> \<open>an integer literal or an integer read from elsewhere\<close>
  "js_int n = num (of_int n)"

fun wf_num :: "jsnum \<Rightarrow> bool" where
  \<comment> \<open>the values that exist: a finite one is a binary64 number\<close>
  "wf_num (Fin a) = (dround a = a \<and> \<bar>a\<bar> < pow2 1024)"
| "wf_num _ = True"

section \<open>The laws of rounding\<close>

lemma rne_int [simp]: "rne (of_int n) = n"
  by (simp add: rne_def)

lemma rne_mono:
  assumes "x \<le> y"
  shows "rne x \<le> rne y"
proof -
  have fl: "\<lfloor>x\<rfloor> \<le> \<lfloor>y\<rfloor>" using assms by (rule floor_mono)
  have up: "rne x \<le> \<lfloor>x\<rfloor> + 1" and lo: "\<lfloor>y\<rfloor> \<le> rne y"
    by (auto simp: rne_def Let_def)
  show ?thesis
  proof (cases "\<lfloor>x\<rfloor> = \<lfloor>y\<rfloor>")
    case True
    then show ?thesis using assms by (auto simp: rne_def Let_def)
  next
    case False
    then show ?thesis using fl up lo by linarith
  qed
qed

lemma pow2_code [code]: "pow2 e = (if 0 \<le> e then of_int (2 ^ nat e) else Fract 1 (2 ^ nat (- e)))"
  by (simp add: pow2_def Fract_of_int_quotient)

lemma pow2_pos [simp]: "0 < pow2 e"
  by (simp add: pow2_def)

lemma pow2_powi: "pow2 e = 2 powi e"
  by (auto simp: pow2_def power_int_def field_simps power_one_over)

lemma pow2_add: "pow2 (a + b) = pow2 a * pow2 b"
  by (simp add: pow2_powi power_int_add)

lemma pow2_strict_mono: "a < b \<Longrightarrow> pow2 a < pow2 b"
  by (simp add: pow2_powi power_int_strict_increasing)

lemma pow2_less_iff [simp]: "pow2 a < pow2 b \<longleftrightarrow> a < b"
proof
  assume "pow2 a < pow2 b"
  then show "a < b"
    using pow2_strict_mono [of b a] by (cases a b rule: linorder_cases) auto
qed (rule pow2_strict_mono)

lemma pow2_le_iff [simp]: "pow2 a \<le> pow2 b \<longleftrightarrow> a \<le> b"
  by (simp flip: not_less)

lemma pow2_53: "pow2 53 = of_int (2 ^ 53)"
  by (simp add: pow2_def)

lemma pow2_multiple:
  assumes "a \<le> b"
  obtains n :: int where "pow2 b = of_int n * pow2 a"
proof -
  have "pow2 b = pow2 (b - a) * pow2 a" by (simp flip: pow2_add)
  moreover have "pow2 (b - a) = of_int (2 ^ nat (b - a))" using assms by (simp add: pow2_def)
  ultimately have "pow2 b = of_int (2 ^ nat (b - a)) * pow2 a" by simp
  then show ?thesis by (rule that)
qed

lemma bitlen_pow2_bounds:
  assumes "0 < p"
  shows "pow2 (bitlen p - 1) \<le> of_int p" "of_int p < pow2 (bitlen p)"
proof -
  have b: "2 ^ nat (bitlen p - 1) \<le> p \<and> p < 2 ^ nat (bitlen p)"
    using bitlen_bounds [OF assms] .
  have pos: "0 < bitlen p"
    using assms by (simp add: bitlen_eq_zero_iff bitlen_nonneg less_le)
  have "of_int (2 ^ nat (bitlen p - 1)) \<le> (of_int p :: rat)"
    using b by (simp only: of_int_le_iff)
  then show "pow2 (bitlen p - 1) \<le> of_int p" using pos by (simp add: pow2_def)
  have "(of_int p :: rat) < of_int (2 ^ nat (bitlen p))"
    using b by (simp only: of_int_less_iff)
  then show "of_int p < pow2 (bitlen p)" using pos by (simp add: pow2_def)
qed

lemma binade_bounds:
  assumes "0 < x"
  shows "pow2 (binade x) \<le> x" "x < pow2 (binade x + 1)"
proof -
  obtain p q where pq: "quotient_of x = (p, q)" by fastforce
  have q: "0 < q" using quotient_of_denom_pos [OF pq] .
  have x: "x = of_int p / of_int q" using quotient_of_div [OF pq] .
  have p: "0 < p" using assms x q by (simp add: zero_less_divide_iff)
  let ?k = "bitlen p - bitlen q"
  note bp = bitlen_pow2_bounds [OF p] and bq = bitlen_pow2_bounds [OF q]
  have "pow2 (?k - 1) * of_int q \<le> pow2 (?k - 1) * pow2 (bitlen q)"
    using bq by (simp add: less_imp_le)
  also have "\<dots> = pow2 (bitlen p - 1)" by (simp flip: pow2_add)
  finally have lo: "pow2 (?k - 1) \<le> x" using bp q by (simp add: x field_simps)
  have "pow2 (bitlen p) = pow2 (?k + 1) * pow2 (bitlen q - 1)" by (simp flip: pow2_add)
  also have "\<dots> \<le> pow2 (?k + 1) * of_int q" using bq by simp
  finally have hi: "x < pow2 (?k + 1)" using bp q by (simp add: x field_simps)
  show "pow2 (binade x) \<le> x" "x < pow2 (binade x + 1)"
    using lo hi by (auto simp: binade_def pq Let_def)
qed

lemma binade_mono:
  assumes "0 < x" "x \<le> y"
  shows "binade x \<le> binade y"
proof -
  have "pow2 (binade x) < pow2 (binade y + 1)"
    using binade_bounds [of x] binade_bounds [of y] assms by linarith
  then show ?thesis by simp
qed

lemma ulp_pos [simp]: "0 < ulp x"
  by (simp add: ulp_def)

lemma dround_zero [simp]: "dround 0 = 0"
  by (simp add: dround_def)

lemma dround_minus: "dround (- x) = - dround x"
  by (simp add: dround_def)

lemma dround_pos_le:
  assumes "0 < x" "x \<le> of_int n * ulp x"
  shows "dround x \<le> of_int n * ulp x"
proof -
  have "x / ulp x \<le> of_int n" using assms by (simp add: field_simps)
  then have "rne (x / ulp x) \<le> n" using rne_mono by fastforce
  then show ?thesis using assms by (simp add: dround_def)
qed

lemma dround_pos_ge:
  assumes "0 < x" "of_int n * ulp x \<le> x"
  shows "of_int n * ulp x \<le> dround x"
proof -
  have "of_int n \<le> x / ulp x" using assms by (simp add: field_simps)
  then have "n \<le> rne (x / ulp x)" using rne_mono by fastforce
  then show ?thesis using assms by (simp add: dround_def)
qed

lemma dround_eq_multiple:
  assumes "0 < x" "x = of_int n * ulp x"
  shows "dround x = x"
  using dround_pos_le [of x n] dround_pos_ge [of x n] assms by simp

lemma dround_nonneg:
  assumes "0 \<le> x"
  shows "0 \<le> dround x"
proof (cases "x = 0")
  case False
  with assms have "0 < x" by simp
  from dround_pos_ge [OF this, of 0] this show ?thesis by simp
qed simp

lemma dround_mono_pos:
  assumes "0 < x" "x \<le> y"
  shows "dround x \<le> dround y"
proof (cases "ulp x = ulp y")
  case True
  have "x / ulp x \<le> y / ulp y" using assms True by (simp add: divide_right_mono less_imp_le)
  then show ?thesis using assms True rne_mono by (simp add: dround_def)
next
  case False
  let ?e = "binade y"
  have "binade x \<le> ?e" using assms by (rule binade_mono)
  with False have lt: "binade x < ?e" and e: "max (binade x - 52) (-1074) \<le> ?e"
    and u: "ulp y = pow2 (?e - 52)"
    unfolding ulp_def by (auto simp: max_def order_le_less split: if_splits)
  obtain n where n: "pow2 ?e = of_int n * ulp x"
    using pow2_multiple [OF e] unfolding ulp_def by blast
  have "x < pow2 (binade x + 1)" using binade_bounds assms by auto
  also have "\<dots> \<le> pow2 ?e" using lt by simp
  finally have "dround x \<le> pow2 ?e" using dround_pos_le [OF assms(1), of n] n by simp
  also obtain m where m: "pow2 ?e = of_int m * ulp y"
    using pow2_multiple [of "?e - 52" ?e] u by auto
  have "pow2 ?e \<le> dround y" using dround_pos_ge [of y m] m binade_bounds [of y] assms by auto
  finally show ?thesis .
qed

lemma dround_mono:
  assumes "x \<le> y"
  shows "dround x \<le> dround y"
proof -
  consider "0 < x" | "y < 0" | "x \<le> 0" "0 \<le> y" by linarith
  then show ?thesis
  proof cases
    case 1
    then show ?thesis using dround_mono_pos assms by blast
  next
    case 2
    then show ?thesis using dround_mono_pos [of "- y" "- x"] assms by (simp add: dround_minus)
  next
    case 3
    then have "0 \<le> dround (- x)" "0 \<le> dround y" by (auto intro: dround_nonneg)
    then show ?thesis by (simp add: dround_minus)
  qed
qed

lemma representable_minus:
  assumes "representable x"
  shows "representable (- x)"
proof -
  obtain m k where "x = of_int m * pow2 k" and m: "\<bar>m\<bar> \<le> 2 ^ 53" and k: "-1074 \<le> k"
    using assms unfolding representable_def by blast
  then have "- x = of_int (- m) * pow2 k" by simp
  moreover have "\<bar>- m\<bar> \<le> 2 ^ 53" using m by (simp only: abs_minus_cancel)
  ultimately show ?thesis using k unfolding representable_def by blast
qed

lemma representable_int: "\<bar>n\<bar> \<le> 2 ^ 53 \<Longrightarrow> representable (of_int n)"
  unfolding representable_def
  by (rule exI [of _ n], rule exI [of _ 0]) (simp add: pow2_def)

lemma mantissa_le:
  assumes "\<bar>m\<bar> \<le> 2 ^ 53"
  shows "of_int m * pow2 k \<le> pow2 (53 + k)"
proof -
  have "m \<le> 2 ^ 53" using assms by linarith
  then have "of_int m \<le> (of_int (2 ^ 53) :: rat)" by (rule of_int_le_iff [THEN iffD2])
  then have "of_int m * pow2 k \<le> of_int (2 ^ 53) * pow2 k"
    by (rule mult_right_mono) (simp add: less_imp_le)
  then show ?thesis by (simp only: pow2_add pow2_53)
qed

lemma dround_representable_pos:
  assumes "representable x" "0 < x"
  shows "dround x = x"
proof -
  obtain m k where x: "x = of_int m * pow2 k" and m: "\<bar>m\<bar> \<le> 2 ^ 53" and k: "-1074 \<le> k"
    using assms(1) unfolding representable_def by blast
  let ?b = "binade x" and ?u = "max (binade x - 52) (-1074)"
  have hi: "x \<le> pow2 (53 + k)" using mantissa_le [OF m] x by simp
  then have "pow2 ?b \<le> pow2 (53 + k)" using binade_bounds(1) [OF assms(2)] by (rule order_trans [rotated])
  then have b: "?b \<le> 53 + k" by simp
  show ?thesis
  proof (cases "?b = 53 + k")
    case True
    then have x': "x = pow2 ?b" using binade_bounds(1) [OF assms(2)] hi by simp
    have "?u \<le> ?b" using True k by simp
    then obtain n where n: "pow2 ?b = of_int n * ulp x" unfolding ulp_def by (rule pow2_multiple)
    then show ?thesis using dround_eq_multiple [OF assms(2)] x' by simp
  next
    case False
    then have "?u \<le> k" using b k by simp
    then obtain n where "pow2 k = of_int n * ulp x" unfolding ulp_def by (rule pow2_multiple)
    then have "x = of_int (m * n) * ulp x" using x by simp
    then show ?thesis by (rule dround_eq_multiple [OF assms(2)])
  qed
qed

lemma dround_representable:
  assumes "representable x"
  shows "dround x = x"
proof -
  consider "0 < x" | "x = 0" | "0 < - x" by linarith
  then show ?thesis
  proof cases
    case 3
    then have "dround (- x) = - x"
      using dround_representable_pos representable_minus assms by blast
    then show ?thesis by (simp add: dround_minus)
  qed (use dround_representable_pos assms in auto)
qed

lemma representable_dround_pos:
  assumes "0 < x"
  shows "representable (dround x)"
proof -
  let ?u = "max (binade x - 52) (-1074)" and ?n = "rne (x / ulp x)"
  have "x < pow2 (binade x + 1)" using binade_bounds assms by blast
  also have "\<dots> \<le> pow2 (53 + ?u)" by simp
  also have "\<dots> = of_int (2 ^ 53) * ulp x" by (simp only: pow2_add pow2_53 ulp_def)
  finally have "x / ulp x \<le> of_int (2 ^ 53)" by (simp add: field_simps)
  then have "?n \<le> rne (of_int (2 ^ 53))" by (rule rne_mono)
  then have "?n \<le> 2 ^ 53" by (simp only: rne_int)
  moreover have "0 \<le> ?n"
    using rne_mono [of 0 "x / ulp x"] rne_int [of 0] assms by (simp add: less_imp_le)
  ultimately have "\<bar>?n\<bar> \<le> 2 ^ 53" by simp
  moreover have "dround x = of_int ?n * pow2 ?u" using assms by (simp add: dround_def ulp_def)
  ultimately show ?thesis unfolding representable_def by (metis max.cobounded2)
qed

lemma representable_dround: "representable (dround x)"
proof -
  consider "0 < x" | "x = 0" | "0 < - x" by linarith
  then show ?thesis
  proof cases
    case 3
    then have "representable (- dround x)" using representable_dround_pos dround_minus by metis
    then show ?thesis using representable_minus by fastforce
  qed (use representable_dround_pos representable_int [of 0] in auto)
qed

lemma dround_idem: "dround (dround x) = dround x"
  by (rule dround_representable [OF representable_dround])

lemma dround_int: "\<bar>n\<bar> \<le> 2 ^ 53 \<Longrightarrow> dround (of_int n) = of_int n"
  by (rule dround_representable [OF representable_int])

section \<open>The interface of rounding\<close>

text \<open>
  What the clients rely on: a rounding is monotone, keeps zero, and its results are fixed points.
\<close>

locale rounding =
  fixes rnd :: "rat \<Rightarrow> rat"
  assumes rnd_mono: "x \<le> y \<Longrightarrow> rnd x \<le> rnd y"
    and rnd_zero: "rnd 0 = 0"
    and rnd_idem: "rnd (rnd x) = rnd x"
begin

lemma rnd_nonneg: "0 \<le> x \<Longrightarrow> 0 \<le> rnd x"
  using rnd_mono [of 0 x] by (simp add: rnd_zero)

lemma rnd_le_fixed: "x \<le> b \<Longrightarrow> rnd b = b \<Longrightarrow> rnd x \<le> b"
  using rnd_mono [of x b] by simp

lemma rnd_ge_fixed: "b \<le> x \<Longrightarrow> rnd b = b \<Longrightarrow> b \<le> rnd x"
  using rnd_mono [of b x] by simp

lemma rnd_diff_nonneg: "b \<le> a \<Longrightarrow> 0 \<le> rnd (a - b)"
  by (rule rnd_nonneg) simp

lemma rnd_scale_le: "0 \<le> x \<Longrightarrow> p \<le> 1 \<Longrightarrow> rnd x = x \<Longrightarrow> rnd (x * p) \<le> x"
  by (rule rnd_le_fixed) (simp_all add: mult_left_le)

lemma rnd_add_ge: "0 \<le> b \<Longrightarrow> rnd a = a \<Longrightarrow> a \<le> rnd (a + b)"
  by (rule rnd_ge_fixed) simp_all

end

interpretation dbl: rounding dround
  by unfold_locales (auto intro: dround_mono simp: dround_idem)

section \<open>Comparison and the operations on values\<close>

lemma js_le_refl: "x \<noteq> NaN \<Longrightarrow> js_le x x"
  by (cases x) auto

lemma js_le_trans: "js_le x y \<Longrightarrow> js_le y z \<Longrightarrow> js_le x z"
  by (cases x; cases y; cases z) auto

lemma js_not_lt: "x \<noteq> NaN \<Longrightarrow> y \<noteq> NaN \<Longrightarrow> \<not> js_lt x y \<longleftrightarrow> js_le y x"
  by (cases x; cases y) auto

lemma js_lt_imp_le: "js_lt x y \<Longrightarrow> js_le x y"
  by (cases x; cases y) auto

lemma js_lt_le_trans: "js_lt x y \<Longrightarrow> js_le y z \<Longrightarrow> js_lt x z"
  by (cases x; cases y; cases z) auto

lemma js_le_lt_trans: "js_le x y \<Longrightarrow> js_lt y z \<Longrightarrow> js_lt x z"
  by (cases x; cases y; cases z) auto

lemma js_le_not_NaN: "js_le x y \<Longrightarrow> x \<noteq> NaN \<and> y \<noteq> NaN"
  by (cases x; cases y) auto

lemma js_le_PInf [simp]: "js_le x PInf \<longleftrightarrow> x \<noteq> NaN"
  by (cases x) auto

lemma js_le_NInf [simp]: "js_le NInf x \<longleftrightarrow> x \<noteq> NaN"
  by (cases x) auto

lemma js_lt_irrefl [simp]: "\<not> js_lt x x"
  by (cases x) auto

lemma num_not_NaN [simp]: "num x \<noteq> NaN"
  by (simp add: num_def Let_def)

lemma num_mono: "x \<le> y \<Longrightarrow> js_le (num x) (num y)"
  using dround_mono [of x y] by (auto simp: num_def Let_def)

lemma num_zero [simp]: "num 0 = Fin 0"
  by (simp add: num_def not_le)

lemma wf_num_num [simp]: "wf_num (num x)"
  by (auto simp: num_def Let_def dround_idem abs_if)

lemma num_wf: "wf_num (Fin a) \<Longrightarrow> num a = Fin a"
  by (auto simp: num_def Let_def abs_if split: if_splits)

lemma num_int: "\<bar>k\<bar> \<le> 2 ^ 53 \<Longrightarrow> num (of_int k) = Fin (of_int k)"
proof (rule num_wf)
  assume k: "\<bar>k\<bar> \<le> 2 ^ 53"
  have "(2 :: rat) ^ 53 < pow2 1024" by (simp add: pow2_def)
  moreover have "\<bar>of_int k\<bar> \<le> (2 :: rat) ^ 53" using k by (metis of_int_abs of_int_le_iff of_int_numeral of_int_power)
  ultimately show "wf_num (Fin (of_int k))" using k by (simp add: dround_int)
qed

lemma num_code [code]:
  \<comment> \<open>integers need no search for their binade\<close>
  "num x = (if snd (quotient_of x) = 1 \<and> \<bar>fst (quotient_of x)\<bar> \<le> 9007199254740992 then Fin x
     else let r = dround x in if pow2 1024 \<le> r then PInf else if r \<le> - pow2 1024 then NInf else Fin r)"
proof (cases "snd (quotient_of x) = 1 \<and> \<bar>fst (quotient_of x)\<bar> \<le> 9007199254740992")
  case True
  have "x = of_int (fst (quotient_of x)) / of_int (snd (quotient_of x))" by (rule quotient_of_div) simp
  then have "x = of_int (fst (quotient_of x))" using True by simp
  then show ?thesis using True num_int [of "fst (quotient_of x)"] by simp
next
  case False
  then show ?thesis unfolding num_def by (simp only: if_False)
qed

lemma num_nonneg: "0 \<le> x \<Longrightarrow> js_le (Fin 0) (num x)"
  using num_mono [of 0 x] by simp

lemma num_le_fin: "x \<le> b \<Longrightarrow> wf_num (Fin b) \<Longrightarrow> js_le (num x) (Fin b)"
  using num_mono [of x b] by (simp add: num_wf)

lemma num_ge_fin: "b \<le> x \<Longrightarrow> wf_num (Fin b) \<Longrightarrow> js_le (Fin b) (num x)"
  using num_mono [of b x] by (simp add: num_wf)

lemma fixed_digits_mono: "a \<le> b \<Longrightarrow> fixed_digits f a \<le> fixed_digits f b"
proof -
  assume ab: "a \<le> b"
  have neg: "0 \<le> \<lfloor>c * 10 ^ f + 1/2\<rfloor>" if "0 \<le> c" for c :: rat
    using that by (simp add: add_nonneg_nonneg)
  have up: "\<lfloor>c * 10 ^ f + 1/2\<rfloor> \<le> \<lfloor>d * 10 ^ f + 1/2\<rfloor>" if "c \<le> d" for c d :: rat
    using that by (intro floor_mono) (simp add: mult_right_mono)
  consider "b < 0" | "a < 0" "0 \<le> b" | "0 \<le> a" using ab by linarith
  then show ?thesis
  proof cases
    case 1
    then show ?thesis using ab up [of "- b" "- a"]
      by (simp add: fixed_digits_def divide_right_mono)
  next
    case 2
    then have "0 \<le> - fixed_digits f a" and "0 \<le> fixed_digits f b"
      using neg [of "- a"] neg [of b] by (simp_all add: fixed_digits_def)
    then show ?thesis by linarith
  next
    case 3
    then show ?thesis using ab up [of a b] by (simp add: fixed_digits_def divide_right_mono)
  qed
qed

lemma fixed_digits_minus: "fixed_digits f (- a) = - fixed_digits f a"
  by (auto simp: fixed_digits_def floor_eq_iff)

lemma fixed_digits_of_int [simp]: "fixed_digits f (of_int n) = of_int n"
proof -
  have "\<lfloor>of_int m * 10 ^ f + 1/2 :: rat\<rfloor> = m * 10 ^ f" for m
    by (rule floor_unique) simp_all
  from this [of n] this [of "- n"] show ?thesis by (simp add: fixed_digits_def)
qed

lemma fixed_digits_zero [simp]: "fixed_digits f 0 = 0"
  using fixed_digits_of_int [of f 0] by simp

lemma fixed_digits_numeral [simp]: "fixed_digits f (numeral n) = numeral n"
  using fixed_digits_of_int [of f "numeral n"] by simp

lemma js_toFixed_mono_fin:
  assumes "a \<le> b" "wf_num (Fin a)" "wf_num (Fin b)"
  shows "js_le (js_toFixed f (Fin a)) (js_toFixed f (Fin b))"
proof -
  have pos: "js_le (num (fixed_digits f c)) (Fin d)"
    if "c \<le> 10 ^ 21" "10 ^ 21 \<le> d" "wf_num (Fin d)" for c d
  proof (rule num_le_fin [OF _ that(3)])
    show "fixed_digits f c \<le> d" using fixed_digits_mono [OF that(1), of f] that(2) by simp
  qed
  have neg: "js_le (Fin d) (num (fixed_digits f c))"
    if "- (10 ^ 21) \<le> c" "d \<le> - (10 ^ 21)" "wf_num (Fin d)" for c d
  proof (rule num_ge_fin [OF _ that(3)])
    show "d \<le> fixed_digits f c"
      using fixed_digits_mono [OF that(1), of f] that(2) by (simp add: fixed_digits_minus)
  qed
  show ?thesis
    using assms pos [of a b] neg [of b a] num_mono [OF fixed_digits_mono [OF assms(1), of f]]
    by (auto simp: abs_if split: if_splits)
qed

lemma js_toFixed_not_NaN: "x \<noteq> NaN \<Longrightarrow> js_toFixed f x \<noteq> NaN"
  by (cases x) auto

lemma js_toFixed_mono:
  assumes "js_le x y" "wf_num x" "wf_num y"
  shows "js_le (js_toFixed f x) (js_toFixed f y)"
proof (cases x)
  case (Fin a)
  show ?thesis
  proof (cases y)
    case (Fin b)
    then show ?thesis using assms \<open>x = Fin a\<close> js_toFixed_mono_fin by simp
  next
    case PInf
    then show ?thesis using Fin js_le_PInf js_toFixed_not_NaN [of x f] by simp
  qed (use assms Fin in auto)
next
  case NInf
  then show ?thesis using assms by (cases y) auto
qed (use assms in \<open>cases y; auto\<close>)+

lemma js_toFixed_wf [simp]: "wf_num x \<Longrightarrow> wf_num (js_toFixed f x)"
  by (cases x) auto

lemma js_toFixed_zero [simp]: "js_toFixed f (Fin 0) = Fin 0"
  by simp

lemma js_add_wf [simp]: "wf_num (js_add x y)"
  by (cases "(x, y)" rule: js_add.cases) auto

lemma signed_inf_wf [simp]: "wf_num (signed_inf s)"
  by (simp add: signed_inf_def)

lemma js_mul_wf [simp]: "wf_num (js_mul x y)"
  by (cases "(x, y)" rule: js_mul.cases) auto

lemma js_div_wf [simp]: "wf_num (js_div x y)"
  by (cases "(x, y)" rule: js_div.cases) auto

lemma js_sub_wf [simp]: "wf_num (js_sub x y)"
  by (simp add: js_sub_def)

lemma js_mul_nonneg:
  assumes "js_le (Fin 0) x" "js_le (Fin 0) y" "js_isFinite x \<or> js_lt (Fin 0) y" "js_isFinite y \<or> js_lt (Fin 0) x"
  shows "js_le (Fin 0) (js_mul x y)"
  using assms by (cases x; cases y) (auto simp: num_nonneg signed_inf_def)

lemma js_div_nonneg: "js_le (Fin 0) x \<Longrightarrow> 0 < b \<Longrightarrow> js_le (Fin 0) (js_div x (Fin b))"
  by (cases x) (auto simp: num_nonneg)

lemma js_add_nonneg_le:
  assumes "js_le (Fin 0) y" "wf_num x" "x \<noteq> NaN" "x \<noteq> NInf"
  shows "js_le x (js_add x y)"
  using assms by (cases x; cases y) (auto intro!: num_ge_fin simp del: wf_num.simps)

end
