(* ===== verification/Prelude.thy ===== *)
theory Prelude
  imports Js_Number "HOL-Library.Sublist"
begin

text \<open>
  What the components share: the ECMAScript strings and values they read, the SQL statements they
  issue against tables, and the collections of rewrite rules their proofs use.

  A string is a list of code units below 256. A value that a caller passes without a static type
  (\<^verbatim>\<open>any\<close>, a field of a \<^verbatim>\<open>Record<string, any>\<close>) is a \<open>jsval\<close>. A table of the database is the
  list of its rows; \<open>sql_update p f t\<close> is \<^verbatim>\<open>UPDATE t SET f WHERE p\<close>, and \<^verbatim>\<open>SELECT ... WHERE p\<close> is
  \<open>filter p t\<close>. Times are integers: milliseconds since the epoch.
\<close>

named_theorems dispute_defs \<open>definitions of the dispute state machine\<close>
named_theorems fee_defs \<open>definitions of the fee calculators\<close>
named_theorems ledger_defs \<open>definitions of the double-entry ledger\<close>
named_theorems ssrf_defs \<open>definitions of the webhook destination guard\<close>

type_synonym millis = int
type_synonym id = string

section \<open>Strings\<close>

definition js_space :: "char \<Rightarrow> bool" where
  \<comment> \<open>WhiteSpace and LineTerminator of ECMAScript below 256\<close>
  "js_space c \<longleftrightarrow> of_char c \<in> {9, 10, 11, 12, 13, 32, 160 :: nat}"

definition js_trim :: "string \<Rightarrow> string" where
  "js_trim s = rev (dropWhile js_space (rev (dropWhile js_space s)))"

fun js_split :: "char \<Rightarrow> string \<Rightarrow> string list" where
  \<comment> \<open>\<^verbatim>\<open>s.split(c)\<close> for a separator of one character: never empty\<close>
  "js_split c [] = [[]]"
| "js_split c (x # xs) =
     (if x = c then [] # js_split c xs
      else case js_split c xs of [] \<Rightarrow> [[x]] | p # ps \<Rightarrow> (x # p) # ps)"

fun js_join :: "string \<Rightarrow> string list \<Rightarrow> string" where
  "js_join sep [] = []"
| "js_join sep [x] = x"
| "js_join sep (x # xs) = x @ sep @ js_join sep xs"

definition js_digit :: "char \<Rightarrow> bool" where
  "js_digit c \<longleftrightarrow> 48 \<le> (of_char c :: nat) \<and> (of_char c :: nat) \<le> 57"

definition word_char :: "char \<Rightarrow> bool" where
  \<comment> \<open>the class \<^verbatim>\<open>\w\<close>\<close>
  "word_char c \<longleftrightarrow> (let n = (of_char c :: nat) in
     48 \<le> n \<and> n \<le> 57 \<or> 65 \<le> n \<and> n \<le> 90 \<or> 97 \<le> n \<and> n \<le> 122 \<or> n = 95)"

definition digit_val :: "char \<Rightarrow> nat" where
  "digit_val c = of_char c - 48"

fun dec_val :: "string \<Rightarrow> nat" where
  \<comment> \<open>the number a string of decimal digits denotes\<close>
  "dec_val s = foldl (\<lambda>n c. 10 * n + digit_val c) 0 s"

fun nat_str :: "nat \<Rightarrow> string" where
  \<comment> \<open>\<^verbatim>\<open>String(n)\<close>\<close>
  "nat_str n = (if n < 10 then [char_of (48 + n)] else nat_str (n div 10) @ [char_of (48 + n mod 10)])"

declare nat_str.simps [simp del]

lemma nat_str_length: "10 ^ k \<le> n \<Longrightarrow> k < length (nat_str n)"
proof (induction k arbitrary: n)
  case 0
  show ?case by (subst nat_str.simps) simp
next
  case (Suc k)
  have "(1 :: nat) \<le> 10 ^ k" by simp
  then have "\<not> n < 10" using Suc.prems unfolding power_Suc by linarith
  moreover have "10 ^ k \<le> n div 10" using Suc.prems by (simp add: less_eq_div_iff_mult_less_eq)
  ultimately show ?case using Suc.IH [of "n div 10"] nat_str.simps [of n] by simp
qed

text \<open>Decimal text denotes the number it was made from.\<close>

lemma of_char_char_of_digit: "n < 10 \<Longrightarrow> (of_char (char_of (48 + n) :: char) :: nat) = 48 + n"
  by (simp add: of_char_of)

lemma digit_char: "n < 10 \<Longrightarrow> js_digit (char_of (48 + n))" "n < 10 \<Longrightarrow> digit_val (char_of (48 + n)) = n"
  by (simp_all add: js_digit_def digit_val_def of_char_char_of_digit)

lemma dec_val_snoc: "dec_val (s @ [c]) = 10 * dec_val s + digit_val c"
  by simp

lemma dec_val_nat_str: "dec_val (nat_str n) = n"
proof (induction n rule: nat_str.induct)
  case (1 n)
  then show ?case
    by (subst nat_str.simps) (auto simp: dec_val_snoc digit_char simp del: dec_val.simps, simp add: digit_char)
qed

lemma nat_str_digits: "list_all js_digit (nat_str n) \<and> nat_str n \<noteq> []"
proof (induction n rule: nat_str.induct)
  case (1 n)
  then show ?case by (subst (1 2) nat_str.simps) (simp add: digit_char)
qed

definition to_lower :: "char \<Rightarrow> char" where
  "to_lower c = (let n = (of_char c :: nat) in if 65 \<le> n \<and> n \<le> 90 then char_of (n + 32) else c)"

definition to_upper :: "char \<Rightarrow> char" where
  "to_upper c = (let n = (of_char c :: nat) in if 97 \<le> n \<and> n \<le> 122 then char_of (n - 32) else c)"

lemma js_split_not_Nil [simp]: "js_split c s \<noteq> []"
  by (induction s) (auto split: list.splits)

lemma js_split_no_sep: "p \<in> set (js_split c s) \<Longrightarrow> c \<notin> set p"
  by (induction s arbitrary: p) (auto split: if_splits list.splits)

lemma js_join_split: "js_join [c] (js_split c s) = s"
proof (induction s)
  case (Cons x s)
  show ?case
  proof (cases "x = c")
    case True
    obtain p ps where "js_split c s = p # ps" by (cases "js_split c s") auto
    with Cons True show ?thesis by simp
  next
    case False
    obtain p ps where "js_split c s = p # ps" by (cases "js_split c s") auto
    with Cons False show ?thesis by (cases ps) auto
  qed
qed simp

lemma length_js_trim: "length (js_trim s) \<le> length s"
  by (simp add: js_trim_def)
     (metis length_dropWhile_le length_rev order_trans)

section \<open>Dynamic values\<close>

datatype jsval =
    JUndefined
  | JNull
  | JBool bool
  | JNumber jsnum
  | JString string
  | JObject

fun truthy :: "jsval \<Rightarrow> bool" where
  "truthy JUndefined = False"
| "truthy JNull = False"
| "truthy (JBool b) = b"
| "truthy (JNumber n) = js_truthy n"
| "truthy (JString s) = (s \<noteq> [])"
| "truthy JObject = True"

section \<open>Entries with a lifetime\<close>

definition live :: "millis \<Rightarrow> ('a \<times> millis) option \<Rightarrow> 'a option" where
  "live now x = (case x of Some (v, e) \<Rightarrow> if now \<le> e then Some v else None | None \<Rightarrow> None)"

section \<open>Tables\<close>

definition sql_update :: "('r \<Rightarrow> bool) \<Rightarrow> ('r \<Rightarrow> 'r) \<Rightarrow> 'r list \<Rightarrow> 'r list" where
  "sql_update p f t = map (\<lambda>r. if p r then f r else r) t"

lemma length_sql_update [simp]: "length (sql_update p f t) = length t"
  by (simp add: sql_update_def)

lemma map_sql_update: "(\<And>r. p r \<Longrightarrow> k (f r) = k r) \<Longrightarrow> map k (sql_update p f t) = map k t"
  by (simp add: sql_update_def)

lemma set_sql_update: "set (sql_update p f t) = (\<lambda>r. if p r then f r else r) ` set t"
  by (simp add: sql_update_def)

lemma sql_update_id: "(\<And>r. r \<in> set t \<Longrightarrow> \<not> p r) \<Longrightarrow> sql_update p f t = t"
  by (simp add: sql_update_def map_idI)

lemma filter_ConsD: "filter p xs = y # ys \<Longrightarrow> y \<in> set xs \<and> p y"
  by (drule arg_cong [of _ _ set]) auto

lemma find_SomeD: "find p xs = Some x \<Longrightarrow> x \<in> set xs \<and> p x"
  by (auto simp: find_Some_iff)

text \<open>Rows by key: what a lookup finds after an insert, an update or a delete.\<close>

lemma find_map: "find p (map f xs) = map_option f (find (\<lambda>x. p (f x)) xs)"
  by (induction xs) simp_all

lemma find_snoc: "find p (xs @ [x]) = (case find p xs of Some y \<Rightarrow> Some y | None \<Rightarrow> if p x then Some x else None)"
  by (induction xs) auto

lemma find_conj: "find p xs = Some x \<Longrightarrow> q x \<Longrightarrow> find (\<lambda>y. p y \<and> q y) xs = Some x"
  by (induction xs) (auto split: if_splits)

lemma find_key_update:
  assumes "\<And>r. k r = i \<Longrightarrow> k (f r) = i"
  shows "find (\<lambda>r. k r = j) (sql_update (\<lambda>r. k r = i) f t) =
    (if j = i then map_option f (find (\<lambda>r. k r = i) t) else find (\<lambda>r. k r = j) t)"
  using assms by (induction t) (auto simp: sql_update_def)

lemma find_key_delete: "find (\<lambda>r. k r = j) (filter (\<lambda>r. k r \<noteq> i) t) = (if j = i then None else find (\<lambda>r. k r = j) t)"
  by (induction t) auto

lemma find_key_unique: "distinct (map k t) \<Longrightarrow> r \<in> set t \<Longrightarrow> find (\<lambda>x. k x = k r) t = Some r"
  by (induction t) auto

lemma filter_key_delete: "filter (\<lambda>r. k r = j) (filter (\<lambda>r. k r \<noteq> i) t) = (if j = i then [] else filter (\<lambda>r. k r = j) t)"
  by (induction t) auto

lemma filter_sql_update:
  "(\<And>r. r \<in> set t \<Longrightarrow> p r \<Longrightarrow> \<not> q r \<and> \<not> q (f r)) \<Longrightarrow> filter q (sql_update p f t) = filter q t"
  by (induction t) (auto simp: sql_update_def)

lemma filter_drop_unseen: "(\<And>r. r \<in> set t \<Longrightarrow> q r \<Longrightarrow> p r) \<Longrightarrow> filter q (filter p t) = filter q t"
  by (induction t) auto

lemma distinct_map_update:
  assumes "distinct (map k t)" "r \<in> set t" "\<And>x. x \<in> set t \<Longrightarrow> p x \<longleftrightarrow> x = r" "\<And>x. x \<in> set t \<Longrightarrow> x \<noteq> r \<Longrightarrow> k x \<noteq> k r'"
  shows "distinct (map k (sql_update p (\<lambda>_. r') t))"
  using assms
proof (induction t)
  case (Cons x t)
  show ?case
  proof (cases "x = r")
    case True
    then have "r \<notin> set t" using Cons.prems(1) by auto
    then have "sql_update p (\<lambda>_. r') t = t" "k r' \<notin> k ` set t"
      using Cons.prems(3,4) by (fastforce intro!: sql_update_id)+
    then show ?thesis using Cons.prems(1,3) True by (auto simp: sql_update_def)
  next
    case False
    with Cons show ?thesis by (auto simp: sql_update_def image_iff)
  qed
qed simp

lemma sum_sql_update:
  fixes g :: "'r \<Rightarrow> int"
  assumes "distinct (map k t)" "r \<in> set t"
  shows "sum_list (map g (sql_update (\<lambda>x. k x = k r) f t)) = sum_list (map g t) - g r + g (f r)"
  using assms
proof (induction t)
  case (Cons x t)
  show ?case
  proof (cases "x = r")
    case True
    then have "sql_update (\<lambda>x. k x = k r) f t = t" using Cons.prems(1) by (intro sql_update_id) (auto simp: image_iff)
    then show ?thesis using True by (simp add: sql_update_def)
  next
    case False
    then have "k x \<noteq> k r" "r \<in> set t" "distinct (map k t)" using Cons.prems by auto
    with Cons.IH show ?thesis by (simp add: sql_update_def)
  qed
qed simp

end
