(* ===== verification/Transaction_Status.thy ===== *)
theory Transaction_Status
  imports Prelude
begin

text \<open>
  The life cycle of a transaction (\<^verbatim>\<open>src/models/transaction.ts\<close>): the statuses, the table of
  allowed transitions and \<^verbatim>\<open>TransactionModel.updateStatus\<close>, the guarded write every other part of
  the program uses to move a transaction. The state is the table of transactions and the trace of
  the messages the write publishes; cache invalidation and publishing never fail the write.
\<close>

section \<open>Statuses and transitions\<close>

datatype TransactionStatus =
    Pending | Processing | Completed | Failed | Cancelled | Review | PendingReview
  | Dispute | Reversed | ClawedBack | Expired

fun ALLOWED_STATUS_TRANSITIONS :: "TransactionStatus \<Rightarrow> TransactionStatus list" where
  "ALLOWED_STATUS_TRANSITIONS Pending =
     [Pending, Processing, Completed, Failed, Cancelled, Review, PendingReview, Expired]"
| "ALLOWED_STATUS_TRANSITIONS PendingReview = [PendingReview, Pending, Cancelled, Failed]"
| "ALLOWED_STATUS_TRANSITIONS Processing =
     [Processing, Completed, Failed, Cancelled, Review, Pending, Expired]"
| "ALLOWED_STATUS_TRANSITIONS Review = [Review, Processing, Completed, Failed, Cancelled]"
| "ALLOWED_STATUS_TRANSITIONS Completed = [Completed, Dispute, Reversed, ClawedBack]"
| "ALLOWED_STATUS_TRANSITIONS Failed = [Failed, Review]"
| "ALLOWED_STATUS_TRANSITIONS Cancelled = [Cancelled]"
| "ALLOWED_STATUS_TRANSITIONS Dispute = [Dispute, Completed, Reversed, ClawedBack, Failed]"
| "ALLOWED_STATUS_TRANSITIONS Reversed = [Reversed]"
| "ALLOWED_STATUS_TRANSITIONS ClawedBack = [ClawedBack]"
| "ALLOWED_STATUS_TRANSITIONS Expired = [Expired, Failed]"

definition status_keys :: "TransactionStatus list" where
  \<comment> \<open>\<^verbatim>\<open>Object.keys(ALLOWED_STATUS_TRANSITIONS)\<close>, in the order of the table\<close>
  "status_keys = [Pending, PendingReview, Processing, Review, Completed, Failed, Cancelled,
     Dispute, Reversed, ClawedBack, Expired]"

record transaction =
  tx_id :: id
  tx_reference :: string
  tx_amount :: string
  tx_phone :: string
  tx_provider :: string
  tx_status :: TransactionStatus
  tx_user :: "id option"
  tx_created :: millis
  tx_updated :: millis

datatype tx_effect =
    InvalidateUserCaches id
  | InvalidateProviderStats string
  | InvalidateGeneralStats
  | PublishTransactionEvent id "id option" TransactionStatus millis
  | PublishTransactionUpdated id string TransactionStatus millis
  | BroadcastTransactionUpdate id TransactionStatus "id option"

section \<open>The guarded write\<close>

definition validPreviousStatuses ::
  "TransactionStatus \<Rightarrow> TransactionStatus list option \<Rightarrow> TransactionStatus list" where
  "validPreviousStatuses s expected = (case expected of
     Some ss \<Rightarrow> ss
   | None \<Rightarrow> filter (\<lambda>prev. s \<in> set (ALLOWED_STATUS_TRANSITIONS prev)) status_keys)"

definition status_where ::
  "id \<Rightarrow> TransactionStatus \<Rightarrow> id option \<Rightarrow> TransactionStatus list option \<Rightarrow> transaction \<Rightarrow> bool" where
  \<comment> \<open>the \<^verbatim>\<open>WHERE\<close> clause; an empty user id is falsy and adds no condition\<close>
  "status_where i s user expected t \<longleftrightarrow> tx_id t = i \<and>
     (tx_status t = s \<or> tx_status t \<in> set (validPreviousStatuses s expected)) \<and>
     (case user of Some u \<Rightarrow> u = [] \<or> tx_user t = Some u | None \<Rightarrow> True)"

definition status_effects :: "id \<Rightarrow> TransactionStatus \<Rightarrow> transaction \<Rightarrow> tx_effect list" where
  "status_effects i s row =
     (case tx_user row of Some u \<Rightarrow> if u = [] then [] else [InvalidateUserCaches u] | None \<Rightarrow> []) @
     (if tx_provider row = [] then [InvalidateGeneralStats]
      else [InvalidateProviderStats (tx_provider row)]) @
     [PublishTransactionEvent i (tx_user row) s (tx_updated row),
      PublishTransactionUpdated i (tx_reference row) s (tx_updated row),
      BroadcastTransactionUpdate i s (tx_user row)]"

definition updateStatus ::
  "millis \<Rightarrow> id \<Rightarrow> TransactionStatus \<Rightarrow> id option \<Rightarrow> TransactionStatus list option \<Rightarrow>
   transaction list \<Rightarrow> bool \<times> transaction list \<times> tx_effect list" where
  "updateStatus now i s user expected txs =
     (let p = status_where i s user expected;
          set_status = (\<lambda>t. t\<lparr>tx_status := s, tx_updated := now\<rparr>);
          returned = map set_status (filter p txs)
      in case returned of
           [] \<Rightarrow> (False, txs, [])
         | row # _ \<Rightarrow> (True, sql_update p set_status txs, status_effects i s row))"

section \<open>Transitions over time\<close>

inductive status_step :: "TransactionStatus \<Rightarrow> TransactionStatus \<Rightarrow> bool" where
  allowed: "t \<in> set (ALLOWED_STATUS_TRANSITIONS s) \<Longrightarrow> status_step s t"

code_pred status_step .

inductive_simps status_step_iff: "status_step s t"

definition settled :: "TransactionStatus \<Rightarrow> bool" where
  "settled s \<longleftrightarrow> s \<in> {Cancelled, Reversed, ClawedBack}"

lemma status_keys_UNIV: "set status_keys = UNIV"
proof -
  have "s \<in> set status_keys" for s by (cases s) (simp_all add: status_keys_def)
  then show ?thesis by blast
qed

lemma validPreviousStatuses_None:
  "prev \<in> set (validPreviousStatuses s None) \<longleftrightarrow> status_step prev s"
  using status_keys_UNIV by (auto simp: validPreviousStatuses_def status_step_iff)

lemma status_step_refl [simp, intro]: "status_step s s"
  by (cases s) (simp_all add: status_step_iff)

lemma settled_step: "settled s \<Longrightarrow> status_step s t \<Longrightarrow> t = s"
  by (cases s) (auto simp: settled_def status_step_iff)

lemma updateStatus_table:
  "fst (snd (updateStatus now i s user expected txs)) =
     sql_update (status_where i s user expected) (\<lambda>t. t\<lparr>tx_status := s, tx_updated := now\<rparr>) txs"
  by (auto simp: updateStatus_def Let_def filter_empty_conv sql_update_id split: list.splits)

lemma updateStatus_ids:
  "map tx_id (fst (snd (updateStatus now i s user expected txs))) = map tx_id txs"
  by (simp add: updateStatus_table map_sql_update)

lemma updateStatus_result:
  "fst (updateStatus now i s user expected txs) \<longleftrightarrow>
     (\<exists>t\<in>set txs. status_where i s user expected t)"
  by (auto simp: updateStatus_def Let_def filter_empty_conv split: list.splits dest: filter_ConsD)

lemma updateStatus_refused:
  assumes "\<not> fst (updateStatus now i s user expected txs)"
  shows "updateStatus now i s user expected txs = (False, txs, [])"
  using assms by (auto simp: updateStatus_def Let_def split: list.splits)

definition status_of :: "transaction list \<Rightarrow> id \<Rightarrow> TransactionStatus option" where
  "status_of txs i = map_option tx_status (find (\<lambda>t. tx_id t = i) txs)"

lemma status_of_update:
  "status_of (sql_update p f txs) i =
     map_option (\<lambda>t. tx_status (if p t then f t else t)) (find (\<lambda>t. tx_id t = i) txs)"
  if "\<And>t. tx_id (f t) = tx_id t"
  using that by (induction txs) (auto simp: status_of_def sql_update_def)

fun run_updates :: "(millis \<times> id \<times> TransactionStatus \<times> id option) list \<Rightarrow>
    transaction list \<Rightarrow> transaction list" where
  \<comment> \<open>any sequence of writes with the default guard\<close>
  "run_updates [] txs = txs"
| "run_updates ((now, i, s, user) # us) txs =
     run_updates us (fst (snd (updateStatus now i s user None txs)))"

lemma updateStatus_nth:
  assumes "j < length txs"
  shows "status_step (tx_status (txs ! j))
    (tx_status (fst (snd (updateStatus now i s user None txs)) ! j))"
  using assms
  by (auto simp: updateStatus_table sql_update_def status_where_def validPreviousStatuses_None)

lemma length_run_updates [simp]: "length (run_updates us txs) = length txs"
  by (induction us txs rule: run_updates.induct) (simp_all add: updateStatus_table)

section \<open>Properties\<close>

text \<open>
  C13. A status write moves a transaction only where it may: a transaction with another id, or of another user than
  the one that is given, does not change at all, and one whose status changes gets the status that was asked for, along a
  transition of the table if the caller names no previous statuses, and from one of those that it names
  otherwise (then the table is not consulted).
\<close>

theorem updateStatus_respects_table:
  fixes now i s user expected txs j
  assumes "j < length txs"
  defines "t \<equiv> txs ! j" and "t' \<equiv> fst (snd (updateStatus now i s user expected txs)) ! j"
  shows "(tx_id t \<noteq> i \<or> (\<exists>u. user = Some u \<and> u \<noteq> [] \<and> tx_user t \<noteq> Some u) \<longrightarrow> t' = t) \<and>
    (tx_status t' \<noteq> tx_status t \<longrightarrow> tx_status t' = s \<and>
      (case expected of None \<Rightarrow> status_step (tx_status t) s | Some previous \<Rightarrow> tx_status t \<in> set previous))"
  using assms(1) unfolding t_def t'_def
  by (auto simp: updateStatus_table sql_update_def status_where_def validPreviousStatuses_def status_step_iff split: option.splits)

definition status_row :: "TransactionStatus \<Rightarrow> transaction" where
  "status_row s = \<lparr>tx_id = ''t1'', tx_reference = ''R'', tx_amount = ''5'', tx_phone = ''1'',
     tx_provider = ''mtn'', tx_status = s, tx_user = None, tx_created = 0, tx_updated = 0\<rparr>"

theorem updateStatus_respects_table_witness:
  "tx_status (fst (snd (updateStatus 7 ''t1'' Processing None None [status_row Pending])) ! 0) = Processing \<and>
   status_step Pending Processing"
proof -
  have new: "tx_status (fst (snd (updateStatus 7 ''t1'' Processing None None [status_row Pending])) ! 0) = Processing" by code_simp
  with updateStatus_respects_table [where j = 0 and txs = "[status_row Pending]" and now = 7 and i = "''t1''" and
      s = Processing and user = None and expected = None]
  show ?thesis by (simp add: status_row_def)
qed

text \<open>
  Cancelled, reversed and clawed-back transactions are final: no sequence of status writes
  without lists of previous statuses, for any ids, statuses and users, ever changes the status of one.
\<close>

theorem settled_forever:
  assumes "j < length txs" "settled (tx_status (txs ! j))"
  shows "tx_status (run_updates us txs ! j) = tx_status (txs ! j)"
  using assms
proof (induction us txs rule: run_updates.induct)
  case (2 now i s user us txs)
  let ?txs = "fst (snd (updateStatus now i s user None txs))"
  have same: "tx_status (?txs ! j) = tx_status (txs ! j)"
    using settled_step [OF "2.prems"(2)] updateStatus_nth [OF "2.prems"(1)] by blast
  have "j < length ?txs" using "2.prems"(1) by (simp add: updateStatus_table)
  then show ?case using "2.IH" "2.prems"(2) same by simp
qed simp

theorem settled_forever_witness:
  "tx_status (run_updates [(1, ''t1'', Completed, None), (2, ''t1'', Dispute, None)]
     [\<lparr>tx_id = ''t1'', tx_reference = ''R'', tx_amount = ''5'', tx_phone = ''1'',
       tx_provider = ''mtn'', tx_status = Reversed, tx_user = None, tx_created = 0,
       tx_updated = 0\<rparr>] ! 0) = Reversed"
  using settled_forever [of 0 "[\<lparr>tx_id = ''t1'', tx_reference = ''R'', tx_amount = ''5'',
    tx_phone = ''1'', tx_provider = ''mtn'', tx_status = Reversed, tx_user = None, tx_created = 0,
    tx_updated = 0\<rparr>]" "[(1, ''t1'', Completed, None), (2, ''t1'', Dispute, None)]"]
  by (simp add: settled_def)

end
