(* ===== verification/Dispute.thy ===== *)
theory Dispute
  imports Transaction_Status
begin

text \<open>
  Disputes: the state machine with its business rules (\<^verbatim>\<open>src/services/disputeStateMachine.ts\<close>), the
  SLA engine of the same file, which resolves overdue disputes and pays the customer out, and the
  service that drives the workflow (\<^verbatim>\<open>src/services/dispute.ts\<close>) over the tables of
  \<^verbatim>\<open>src/models/dispute.ts\<close>.

  The state \<open>world\<close> holds the tables of disputes, notes, evidence and transactions, and the traces
  of the notifications sent, the transaction messages published and the payouts requested.
  Encryption of stored text and the payout call to the telecom provider are parameters. Read
  replicas are taken to be up to date, and the bookkeeping column \<^verbatim>\<open>updated_at\<close> is left out.
\<close>

section \<open>Statuses and priorities\<close>

datatype DisputeStatus = D_open | D_investigating | D_resolved | D_rejected | D_reversed | D_upheld

datatype DisputePriority = P_low | P_medium | P_high | P_critical

fun status_name :: "DisputeStatus \<Rightarrow> string" where
  "status_name D_open = ''open''"
| "status_name D_investigating = ''investigating''"
| "status_name D_resolved = ''resolved''"
| "status_name D_rejected = ''rejected''"
| "status_name D_reversed = ''reversed''"
| "status_name D_upheld = ''upheld''"

section \<open>The state machine\<close>

record StateTransition =
  st_from :: DisputeStatus
  st_to :: DisputeStatus
  st_conditions :: "string list option"
  st_requiredFields :: "string list option"

record StateMachineConfig =
  transitions :: "StateTransition list"
  terminalStates :: "DisputeStatus list"
  initialState :: DisputeStatus

definition needs_resolution :: "DisputeStatus \<Rightarrow> DisputeStatus \<Rightarrow> string \<Rightarrow> StateTransition" where
  "needs_resolution f t c =
     \<lparr>st_from = f, st_to = t, st_conditions = Some [c], st_requiredFields = Some [''resolution'']\<rparr>"

definition DISPUTE_TRANSITIONS :: "StateTransition list" where
  "DISPUTE_TRANSITIONS =
     [\<lparr>st_from = D_open, st_to = D_investigating,
       st_conditions = Some [''Must be assigned to an agent''], st_requiredFields = None\<rparr>,
      needs_resolution D_open D_resolved ''Resolution text is required'',
      needs_resolution D_open D_rejected ''Resolution text is required'',
      needs_resolution D_open D_reversed ''Admin reversal requires resolution text'',
      needs_resolution D_open D_upheld ''Admin uphold decision requires resolution text'',
      needs_resolution D_investigating D_resolved ''Resolution text is required'',
      needs_resolution D_investigating D_rejected ''Resolution text is required'',
      needs_resolution D_investigating D_reversed ''Admin reversal requires resolution text'',
      needs_resolution D_investigating D_upheld ''Admin uphold decision requires resolution text'']"

definition DISPUTE_STATE_MACHINE :: StateMachineConfig where
  "DISPUTE_STATE_MACHINE =
     \<lparr>transitions = DISPUTE_TRANSITIONS,
      terminalStates = [D_resolved, D_rejected, D_reversed, D_upheld],
      initialState = D_open\<rparr>"

definition isValidTransition :: "StateMachineConfig \<Rightarrow> DisputeStatus \<Rightarrow> DisputeStatus \<Rightarrow> bool" where
  "isValidTransition cfg f t \<longleftrightarrow> list_ex (\<lambda>tr. st_from tr = f \<and> st_to tr = t) (transitions cfg)"

definition getAllowedTransitions :: "StateMachineConfig \<Rightarrow> DisputeStatus \<Rightarrow> DisputeStatus list" where
  "getAllowedTransitions cfg f = map st_to (filter (\<lambda>tr. st_from tr = f) (transitions cfg))"

definition isTerminalState :: "StateMachineConfig \<Rightarrow> DisputeStatus \<Rightarrow> bool" where
  "isTerminalState cfg s \<longleftrightarrow> s \<in> set (terminalStates cfg)"

definition getRequiredFields :: "StateMachineConfig \<Rightarrow> DisputeStatus \<Rightarrow> DisputeStatus \<Rightarrow> string list" where
  "getRequiredFields cfg f t =
     (case find (\<lambda>tr. st_from tr = f \<and> st_to tr = t) (transitions cfg) of
        None \<Rightarrow> [] | Some tr \<Rightarrow> (case st_requiredFields tr of None \<Rightarrow> [] | Some fs \<Rightarrow> fs))"

definition getTransitionConditions :: "StateMachineConfig \<Rightarrow> DisputeStatus \<Rightarrow> DisputeStatus \<Rightarrow> string list" where
  "getTransitionConditions cfg f t =
     (case find (\<lambda>tr. st_from tr = f \<and> st_to tr = t) (transitions cfg) of
        None \<Rightarrow> [] | Some tr \<Rightarrow> (case st_conditions tr of None \<Rightarrow> [] | Some cs \<Rightarrow> cs))"

definition quoted :: "string \<Rightarrow> string" where
  "quoted s = [CHR 0x22] @ s @ [CHR 0x22]"

definition field_missing :: "jsval \<Rightarrow> bool" where
  "field_missing v \<longleftrightarrow> \<not> truthy v \<or> (case v of JString s \<Rightarrow> js_trim s = [] | _ \<Rightarrow> False)"

definition validateTransition ::
  "StateMachineConfig \<Rightarrow> DisputeStatus \<Rightarrow> DisputeStatus \<Rightarrow> (string \<Rightarrow> jsval) \<Rightarrow> bool \<times> string list" where
  "validateTransition cfg f t dat =
     (let allowed = getAllowedTransitions cfg f;
          e1 = (if isValidTransition cfg f t then []
                else [''Cannot transition from '' @ quoted (status_name f) @ '' to '' @
                      quoted (status_name t) @ ''. '' @
                      (if allowed \<noteq> []
                       then ''Allowed transitions: '' @ js_join '', '' (map status_name allowed)
                       else quoted (status_name f) @ '' is a terminal state.'')]);
          e2 = map (\<lambda>fld. ''Field '' @ quoted fld @ '' is required for transition to '' @
                      quoted (status_name t))
                 (filter (\<lambda>fld. field_missing (dat fld)) (getRequiredFields cfg f t));
          e3 = (if t = D_investigating \<and> \<not> truthy (dat ''assignedTo'')
                then [''Dispute must be assigned to an agent when moving to investigating status'']
                else []);
          errors = e1 @ e2 @ e3
      in (errors = [], errors))"

record next_context =
  hasAssignee :: "bool option"
  hasEvidence :: "bool option"
  ctx_priority :: "DisputePriority option"
  daysSinceCreated :: "jsnum option"

definition days_more_than :: "jsnum option \<Rightarrow> int \<Rightarrow> bool" where
  "days_more_than d n \<longleftrightarrow> (case d of None \<Rightarrow> False | Some x \<Rightarrow> js_truthy x \<and> js_lt (js_int n) x)"

definition getRecommendedNextState :: "DisputeStatus \<Rightarrow> next_context \<Rightarrow> DisputeStatus option" where
  "getRecommendedNextState s c =
     (let assigned = (hasAssignee c = Some True) in
      case s of
        D_open \<Rightarrow>
          if assigned \<and> (ctx_priority c = Some P_high \<or> ctx_priority c = Some P_critical)
          then Some D_investigating
          else if \<not> assigned \<and> days_more_than (daysSinceCreated c) 7 then Some D_investigating
          else if assigned then Some D_investigating else None
      | D_investigating \<Rightarrow>
          if hasEvidence c = Some True \<and> days_more_than (daysSinceCreated c) 1
          then Some D_resolved else None
      | _ \<Rightarrow> None)"

fun getSlaHours :: "DisputePriority \<Rightarrow> int" where
  "getSlaHours P_critical = 4"
| "getSlaHours P_high = 24"
| "getSlaHours P_medium = 72"
| "getSlaHours P_low = 168"

fun getSlaHoursHelper :: "DisputePriority \<Rightarrow> int" where
  "getSlaHoursHelper P_critical = 4"
| "getSlaHoursHelper P_high = 24"
| "getSlaHoursHelper P_medium = 72"
| "getSlaHoursHelper P_low = 168"

definition isOverdue :: "millis \<Rightarrow> millis \<Rightarrow> DisputePriority \<Rightarrow> bool" where
  "isOverdue now created p \<longleftrightarrow> created + getSlaHours p * 60 * 60 * 1000 < now"

definition getTimeUntilSlaDeadline :: "millis \<Rightarrow> millis \<Rightarrow> DisputePriority \<Rightarrow> jsnum \<times> bool" where
  "getTimeUntilSlaDeadline now created p =
     (let slaDeadline = created + getSlaHours p * 60 * 60 * 1000;
          diffMs = js_int (slaDeadline - now);
          diffHours = js_div diffMs (js_int (1000 * 60 * 60))
      in (js_div (js_round (js_mul diffHours (js_int 100))) (js_int 100),
          js_lt diffHours (js_int 0)))"

section \<open>Tables and traces\<close>

record dispute =
  d_id :: id
  d_transaction :: id
  d_reason :: string
  d_status :: DisputeStatus
  d_assignedTo :: "string option"
  d_resolution :: "string option"
  d_reportedBy :: "string option"
  d_priority :: DisputePriority
  d_category :: "string option"
  d_slaDueDate :: "millis option"
  d_slaWarningSent :: bool
  d_internalNotes :: "string option"
  d_createdAt :: millis

record dispute_note =
  n_dispute :: id
  n_author :: string
  n_note :: string
  n_createdAt :: millis

record dispute_evidence =
  e_dispute :: id
  e_fileName :: string
  e_fileType :: string
  e_fileSize :: int
  e_s3Key :: string
  e_s3Url :: string
  e_uploadedBy :: string
  e_description :: "string option"
  e_createdAt :: millis

record notification =
  nt_event :: string
  nt_dispute :: id
  nt_transaction :: id
  nt_status :: DisputeStatus
  nt_message :: string

record payout_request =
  po_dispute :: id
  po_transaction :: id
  po_provider :: string
  po_phone :: string
  po_amount :: string

record world =
  w_disputes :: "dispute list"
  w_notes :: "dispute_note list"
  w_evidence :: "dispute_evidence list"
  w_transactions :: "transaction list"
  w_effects :: "tx_effect list"
  w_notifications :: "notification list"
  w_payouts :: "payout_request list"

text \<open>
  The parameters: the stored form of a text, its reading back, and the telecom call
  \<^verbatim>\<open>MobileMoneyService.sendPayout\<close>, whose outcome may depend on everything that happened before.
\<close>

datatype payout_result = PayoutOk "string option" | PayoutError string | PayoutThrows string

record environment =
  encrypt :: "string \<Rightarrow> string"
  decrypt :: "string \<Rightarrow> string"
  sendPayout :: "payout_request list \<Rightarrow> string \<Rightarrow> string \<Rightarrow> string \<Rightarrow> payout_result"

section \<open>The SLA engine\<close>

definition auto_resolution :: string where
  "auto_resolution = ''Auto-resolved in favor of user: Provider response SLA deadline expired.''"

definition add_note_row :: "environment \<Rightarrow> millis \<Rightarrow> id \<Rightarrow> string \<Rightarrow> string \<Rightarrow> world \<Rightarrow> world" where
  "add_note_row env now i author txt w =
     w\<lparr>w_notes := w_notes w @
         [\<lparr>n_dispute = i, n_author = author, n_note = encrypt env txt, n_createdAt = now\<rparr>]\<rparr>"

definition set_sla_deadlines :: "dispute list \<Rightarrow> dispute list" where
  "set_sla_deadlines ds =
     fold (\<lambda>row. sql_update (\<lambda>d. d_id d = d_id row)
             (\<lambda>d. d\<lparr>d_slaDueDate :=
                Some (d_createdAt row + getSlaHoursHelper (d_priority row) * 60 * 60 * 1000)\<rparr>))
       (filter (\<lambda>d. d_slaDueDate d = None) ds) ds"

definition active :: "DisputeStatus \<Rightarrow> bool" where
  "active s \<longleftrightarrow> s = D_open \<or> s = D_investigating"

definition sla_expired :: "millis \<Rightarrow> dispute \<Rightarrow> bool" where
  "sla_expired now d \<longleftrightarrow> active (d_status d) \<and>
     (case d_slaDueDate d of None \<Rightarrow> False | Some t \<Rightarrow> t < now)"

definition payout_note :: "payout_result \<Rightarrow> string" where
  "payout_note r = (case r of
     PayoutOk ref \<Rightarrow> ''Auto-payout executed successfully. Ref: '' @
       (case ref of None \<Rightarrow> ''N/A'' | Some s \<Rightarrow> if s = [] then ''N/A'' else s)
   | PayoutError e \<Rightarrow> ''Auto-payout execution failed. Error: '' @ e
   | PayoutThrows m \<Rightarrow> ''Auto-payout failed with exception: '' @ m)"

definition auto_resolve :: "environment \<Rightarrow> millis \<Rightarrow> dispute \<Rightarrow> world \<Rightarrow> world" where
  "auto_resolve env now dis w =
     (let i = d_id dis;
          w1 = w\<lparr>w_disputes := sql_update (\<lambda>d. d_id d = i)
                 (\<lambda>d. d\<lparr>d_status := D_resolved, d_resolution := Some auto_resolution\<rparr>) (w_disputes w)\<rparr>;
          w2 = add_note_row env now i ''system''
                 ''Dispute auto-resolved by SLA Engine because provider response wasn't logged within the 72-hour SLA window.'' w1
      in case find (\<lambda>t. tx_id t = d_transaction dis) (w_transactions w2) of
           None \<Rightarrow> w2
         | Some tx \<Rightarrow>
             let r = sendPayout env (w_payouts w2) (tx_provider tx) (tx_phone tx) (tx_amount tx);
                 w3 = w2\<lparr>w_payouts := w_payouts w2 @
                        [\<lparr>po_dispute = i, po_transaction = tx_id tx, po_provider = tx_provider tx,
                          po_phone = tx_phone tx, po_amount = tx_amount tx\<rparr>]\<rparr>
             in add_note_row env now i ''system'' (payout_note r) w3)"

definition checkSlaDeadlines :: "environment \<Rightarrow> millis \<Rightarrow> world \<Rightarrow> world" where
  "checkSlaDeadlines env now w =
     (let w1 = w\<lparr>w_disputes := set_sla_deadlines (w_disputes w)\<rparr>
      in fold (auto_resolve env now) (filter (sla_expired now) (w_disputes w1)) w1)"

section \<open>The model layer\<close>

definition findDispute :: "id \<Rightarrow> dispute list \<Rightarrow> dispute option" where
  "findDispute i ds = find (\<lambda>d. d_id d = i) ds"

definition findActiveByTransactionId :: "id \<Rightarrow> dispute list \<Rightarrow> dispute option" where
  "findActiveByTransactionId t ds = find (\<lambda>d. d_transaction d = t \<and> active (d_status d)) ds"

definition decrypted :: "environment \<Rightarrow> dispute \<Rightarrow> dispute" where
  \<comment> \<open>the row as the model returns it\<close>
  "decrypted env d = d\<lparr>d_reason := (if d_reason d = [] then [] else decrypt env (d_reason d)),
     d_resolution := map_option (\<lambda>s. if s = [] then [] else decrypt env s) (d_resolution d)\<rparr>"

record UpdateDisputeInput =
  u_status :: "DisputeStatus option"
  u_resolution :: "string option"
  u_assignedTo :: "string option"
  u_priority :: "DisputePriority option"
  u_category :: "string option"
  u_internalNotes :: "string option"

definition no_update :: UpdateDisputeInput where
  "no_update = \<lparr>u_status = None, u_resolution = None, u_assignedTo = None, u_priority = None,
     u_category = None, u_internalNotes = None\<rparr>"

definition set_fields :: "UpdateDisputeInput \<Rightarrow> dispute \<Rightarrow> dispute" where
  "set_fields u d = d\<lparr>
     d_status := (case u_status u of None \<Rightarrow> d_status d | Some s \<Rightarrow> s),
     d_resolution := (case u_resolution u of None \<Rightarrow> d_resolution d | Some r \<Rightarrow> Some r),
     d_assignedTo := (case u_assignedTo u of None \<Rightarrow> d_assignedTo d | Some a \<Rightarrow> Some a),
     d_priority := (case u_priority u of None \<Rightarrow> d_priority d | Some p \<Rightarrow> p),
     d_category := (case u_category u of None \<Rightarrow> d_category d | Some c \<Rightarrow> Some c),
     d_internalNotes := (case u_internalNotes u of None \<Rightarrow> d_internalNotes d | Some n \<Rightarrow> Some n)\<rparr>"

datatype dispute_error =
    TransactionNotFound id
  | OnlyCompletedOrFailed TransactionStatus
  | ActiveDisputeExists id id
  | DisputeNotFound id
  | CannotTransition DisputeStatus DisputeStatus "DisputeStatus list"
  | ResolutionRequired DisputeStatus
  | ResolutionTextRequired
  | CannotResolve DisputeStatus
  | CannotAssign DisputeStatus
  | NoFieldsToUpdate
  | NoRowReturned

definition update_dispute_row ::
  "id \<Rightarrow> UpdateDisputeInput \<Rightarrow> dispute list \<Rightarrow> dispute_error + (dispute \<times> dispute list)" where
  "update_dispute_row i u ds =
     (if u = no_update then Inl NoFieldsToUpdate
      else let ds' = sql_update (\<lambda>d. d_id d = i) (set_fields u) ds
           in case findDispute i ds' of None \<Rightarrow> Inl NoRowReturned | Some row \<Rightarrow> Inr (row, ds'))"

definition new_dispute ::
  "millis \<Rightarrow> id \<Rightarrow> id \<Rightarrow> string \<Rightarrow> string option \<Rightarrow> DisputePriority option \<Rightarrow> string option \<Rightarrow> dispute" where
  "new_dispute now i t reason reportedBy priority category =
     \<lparr>d_id = i, d_transaction = t, d_reason = reason, d_status = D_open, d_assignedTo = None,
      d_resolution = None, d_reportedBy = reportedBy,
      d_priority = (case priority of None \<Rightarrow> P_medium | Some p \<Rightarrow> p), d_category = category,
      d_slaDueDate = None, d_slaWarningSent = False, d_internalNotes = None, d_createdAt = now\<rparr>"

section \<open>The service\<close>

fun TRANSITIONS :: "DisputeStatus \<Rightarrow> DisputeStatus list" where
  "TRANSITIONS D_open = [D_investigating, D_resolved, D_rejected, D_reversed, D_upheld]"
| "TRANSITIONS D_investigating = [D_resolved, D_rejected, D_reversed, D_upheld]"
| "TRANSITIONS D_resolved = []"
| "TRANSITIONS D_rejected = []"
| "TRANSITIONS D_reversed = []"
| "TRANSITIONS D_upheld = []"

definition TERMINAL_STATUSES :: "DisputeStatus list" where
  "TERMINAL_STATUSES = [D_resolved, D_rejected, D_reversed, D_upheld]"

definition notify :: "string \<Rightarrow> dispute \<Rightarrow> string \<Rightarrow> world \<Rightarrow> world" where
  "notify ev d msg w = w\<lparr>w_notifications := w_notifications w @
     [\<lparr>nt_event = ev, nt_dispute = d_id d, nt_transaction = d_transaction d,
       nt_status = d_status d, nt_message = msg\<rparr>]\<rparr>"

definition set_tx_status :: "millis \<Rightarrow> id \<Rightarrow> TransactionStatus \<Rightarrow> world \<Rightarrow> world" where
  \<comment> \<open>the call of \<open>updateStatus\<close> with its result dropped, as the service does\<close>
  "set_tx_status now t s w =
     (case updateStatus now t s None None (w_transactions w) of
        (_, txs, effs) \<Rightarrow> w\<lparr>w_transactions := txs, w_effects := w_effects w @ effs\<rparr>)"

definition openDispute ::
  "environment \<Rightarrow> millis \<Rightarrow> id \<Rightarrow> id \<Rightarrow> string \<Rightarrow> string option \<Rightarrow> DisputePriority option \<Rightarrow>
   string option \<Rightarrow> world \<Rightarrow> dispute_error + (dispute \<times> world)" where
  "openDispute env now new t reason reportedBy priority category w =
     (case find (\<lambda>x. tx_id x = t) (w_transactions w) of
        None \<Rightarrow> Inl (TransactionNotFound t)
      | Some tx \<Rightarrow>
          if tx_status tx \<noteq> Completed \<and> tx_status tx \<noteq> Failed
          then Inl (OnlyCompletedOrFailed (tx_status tx))
          else case findActiveByTransactionId t (w_disputes w) of
                 Some e \<Rightarrow> Inl (ActiveDisputeExists (d_id e) t)
               | None \<Rightarrow>
                   let d = new_dispute now new t reason reportedBy priority category;
                       w1 = w\<lparr>w_disputes := w_disputes w @ [d]\<rparr>;
                       w2 = set_tx_status now t Dispute w1
                   in Inr (decrypted env d,
                           notify ''dispute.opened'' d
                             (''Dispute opened for transaction '' @ t) w2))"

definition updateDisputeStatus ::
  "environment \<Rightarrow> id \<Rightarrow> DisputeStatus \<Rightarrow> string option \<Rightarrow> string option \<Rightarrow> world \<Rightarrow>
   dispute_error + (dispute \<times> world)" where
  "updateDisputeStatus env i s resolution assignedTo w =
     (case findDispute i (w_disputes w) of
        None \<Rightarrow> Inl (DisputeNotFound i)
      | Some d \<Rightarrow>
          let allowed = TRANSITIONS (d_status d) in
          if s \<notin> set allowed then Inl (CannotTransition (d_status d) s allowed)
          else if s \<in> set TERMINAL_STATUSES \<and> (resolution = None \<or> resolution = Some [])
          then Inl (ResolutionRequired s)
          else case update_dispute_row i
                 (no_update\<lparr>u_status := Some s, u_resolution := resolution, u_assignedTo := assignedTo\<rparr>)
                 (w_disputes w) of
                 Inl e \<Rightarrow> Inl e
               | Inr (row, ds) \<Rightarrow>
                   Inr (decrypted env row,
                        notify (''dispute.'' @ status_name s) row
                          (''Dispute '' @ i @ '' status changed to '' @ quoted (status_name s))
                          (w\<lparr>w_disputes := ds\<rparr>)))"

datatype DisputeResolutionAction = ReverseAction | UpholdAction

definition resolvePayment ::
  "environment \<Rightarrow> millis \<Rightarrow> id \<Rightarrow> DisputeResolutionAction \<Rightarrow> string \<Rightarrow> string option \<Rightarrow> world \<Rightarrow>
   dispute_error + (dispute \<times> world)" where
  "resolvePayment env now i action resolution adminId w =
     (if js_trim resolution = [] then Inl ResolutionTextRequired
      else case findDispute i (w_disputes w) of
        None \<Rightarrow> Inl (DisputeNotFound i)
      | Some d \<Rightarrow>
          if d_status d \<in> set TERMINAL_STATUSES then Inl (CannotResolve (d_status d))
          else
            let nextDisputeStatus = (if action = ReverseAction then D_reversed else D_upheld);
                nextTransactionStatus = (if action = ReverseAction then Reversed else Completed);
                trimmed = js_trim resolution;
                verb = (if action = ReverseAction then ''reversed'' else ''upheld'')
            in case update_dispute_row i
                 (no_update\<lparr>u_status := Some nextDisputeStatus, u_resolution := Some trimmed,
                    u_assignedTo := adminId\<rparr>) (w_disputes w) of
                 Inl e \<Rightarrow> Inl e
               | Inr (row, ds) \<Rightarrow>
                   let w1 = w\<lparr>w_disputes := ds\<rparr>;
                       w2 = set_tx_status now (d_transaction d) nextTransactionStatus w1;
                       w3 = add_note_row env now i (case adminId of None \<Rightarrow> ''admin'' | Some a \<Rightarrow> a)
                              (''Admin '' @ verb @ '' payment: '' @ trimmed) w2
                   in Inr (decrypted env row,
                           notify (''dispute.payment_'' @ verb) row
                             (''Payment dispute '' @ i @ '' was '' @ status_name nextDisputeStatus) w3))"

definition updateDispute ::
  "environment \<Rightarrow> id \<Rightarrow> DisputePriority option \<Rightarrow> string option \<Rightarrow> string option \<Rightarrow> world \<Rightarrow>
   dispute_error + (dispute \<times> world)" where
  "updateDispute env i priority category internalNotes w =
     (case findDispute i (w_disputes w) of
        None \<Rightarrow> Inl (DisputeNotFound i)
      | Some d \<Rightarrow>
          case update_dispute_row i
            (no_update\<lparr>u_priority := priority, u_category := category,
               u_internalNotes := internalNotes\<rparr>) (w_disputes w) of
            Inl e \<Rightarrow> Inl e
          | Inr (row, ds) \<Rightarrow>
              Inr (decrypted env row,
                   notify ''dispute.updated'' row (''Dispute '' @ i @ '' updated'')
                     (w\<lparr>w_disputes := ds\<rparr>)))"

definition addEvidence ::
  "millis \<Rightarrow> id \<Rightarrow> string \<Rightarrow> string \<Rightarrow> int \<Rightarrow> string \<Rightarrow> string \<Rightarrow> string \<Rightarrow> string option \<Rightarrow> world \<Rightarrow>
   dispute_error + (dispute_evidence \<times> world)" where
  "addEvidence now i fileName fileType fileSize s3Key s3Url uploadedBy description w =
     (case findDispute i (w_disputes w) of
        None \<Rightarrow> Inl (DisputeNotFound i)
      | Some d \<Rightarrow>
          let e = \<lparr>e_dispute = i, e_fileName = fileName, e_fileType = fileType,
                e_fileSize = fileSize, e_s3Key = s3Key, e_s3Url = s3Url,
                e_uploadedBy = uploadedBy, e_description = description, e_createdAt = now\<rparr>
          in Inr (e, notify ''dispute.evidence_added'' d
                  (''Evidence '' @ quoted fileName @ '' added to dispute '' @ i)
                  (w\<lparr>w_evidence := w_evidence w @ [e]\<rparr>)))"

definition assignToAgent ::
  "environment \<Rightarrow> id \<Rightarrow> string \<Rightarrow> world \<Rightarrow> dispute_error + (dispute \<times> world)" where
  "assignToAgent env i agent w =
     (case findDispute i (w_disputes w) of
        None \<Rightarrow> Inl (DisputeNotFound i)
      | Some d \<Rightarrow>
          if d_status d \<in> set TERMINAL_STATUSES then Inl (CannotAssign (d_status d))
          else
            let ds1 = sql_update (\<lambda>x. d_id x = i) (\<lambda>x. x\<lparr>d_assignedTo := Some agent\<rparr>) (w_disputes w)
            in case findDispute i ds1 of
                 None \<Rightarrow> Inl NoRowReturned
               | Some row1 \<Rightarrow>
                   case (if d_status row1 = D_open
                         then update_dispute_row i (no_update\<lparr>u_status := Some D_investigating,
                                u_assignedTo := Some agent\<rparr>) ds1
                         else Inr (row1, ds1)) of
                     Inl e \<Rightarrow> Inl e
                   | Inr (row, ds) \<Rightarrow>
                       Inr (decrypted env row,
                            notify ''dispute.assigned'' row
                              (''Dispute '' @ i @ '' assigned to '' @ agent) (w\<lparr>w_disputes := ds\<rparr>)))"

definition addNote :: "environment \<Rightarrow> millis \<Rightarrow> id \<Rightarrow> string \<Rightarrow> string \<Rightarrow> world \<Rightarrow> dispute_error + world" where
  "addNote env now i author txt w =
     (case findDispute i (w_disputes w) of
        None \<Rightarrow> Inl (DisputeNotFound i)
      | Some d \<Rightarrow> Inr (add_note_row env now i author txt w))"

definition sla_warning_candidate :: "millis \<Rightarrow> dispute \<Rightarrow> bool" where
  "sla_warning_candidate now d \<longleftrightarrow> active (d_status d) \<and>
     (case d_slaDueDate d of None \<Rightarrow> False | Some t \<Rightarrow> t \<le> now + 2 * 60 * 60 * 1000) \<and>
     \<not> d_slaWarningSent d"

definition warn_dispute :: "dispute \<Rightarrow> world \<Rightarrow> world" where
  "warn_dispute d w =
     (let w1 = notify ''dispute.sla_warning'' d
                 (''Dispute '' @ d_id d @ '' is approaching SLA deadline'') w
      in w1\<lparr>w_disputes := sql_update (\<lambda>x. d_id x = d_id d)
               (\<lambda>x. x\<lparr>d_slaWarningSent := True\<rparr>) (w_disputes w1)\<rparr>)"

definition processSlaWarnings :: "millis \<Rightarrow> world \<Rightarrow> nat \<times> world" where
  "processSlaWarnings now w =
     (let cs = filter (sla_warning_candidate now) (w_disputes w)
      in (length cs, fold warn_dispute cs w))"

end
