(* ===== verification/Dispute_Workflow.thy ===== *)
theory Dispute_Workflow
  imports Dispute
begin

text \<open>
  The dispute workflow over time. A step of the workflow is any operation of the service or of the
  SLA engine (\<open>dispute_op\<close>, \<open>exec_op\<close>), and the properties are invariants of all runs: the table of
  disputes stays well formed, a closed dispute stays closed, and no dispute is paid out twice. The
  SLA engine's two loops of row updates are first brought into closed form (\<open>sla_final\<close>).
\<close>

section \<open>The state machine and the service agree\<close>

lemmas machine_defs = isValidTransition_def getAllowedTransitions_def isTerminalState_def
  getRequiredFields_def DISPUTE_STATE_MACHINE_def DISPUTE_TRANSITIONS_def needs_resolution_def

lemma terminal_iff: "s \<in> set TERMINAL_STATUSES \<longleftrightarrow> \<not> active s"
  by (cases s) (auto simp: TERMINAL_STATUSES_def active_def)

lemma transitions_active: "t \<in> set (TRANSITIONS s) \<Longrightarrow> active s \<and> (active t \<longrightarrow> s = D_open \<and> t = D_investigating)"
  by (cases s; cases t) (auto simp: active_def)

lemma getAllowedTransitions_TRANSITIONS:
  "getAllowedTransitions DISPUTE_STATE_MACHINE s = TRANSITIONS s"
  by (cases s) (simp_all add: machine_defs)

lemma getRequiredFields_machine:
  "getRequiredFields DISPUTE_STATE_MACHINE f t =
     (if t \<in> set (TRANSITIONS f) \<and> t \<noteq> D_investigating then [''resolution''] else [])"
  by (cases f; cases t) (simp_all add: machine_defs)

section \<open>The table of disputes\<close>

definition resolution_given :: "dispute \<Rightarrow> bool" where
  "resolution_given d \<longleftrightarrow> (case d_resolution d of None \<Rightarrow> False | Some r \<Rightarrow> r \<noteq> [])"

definition disputes_inv :: "dispute list \<Rightarrow> bool" where
  "disputes_inv ds \<longleftrightarrow> distinct (map d_id ds) \<and>
     (\<forall>d\<in>set ds. \<forall>e\<in>set ds. active (d_status d) \<and> active (d_status e) \<and>
        d_transaction d = d_transaction e \<longrightarrow> d_id d = d_id e) \<and>
     (\<forall>d\<in>set ds. active (d_status d) \<or> resolution_given d)"

text \<open>The changes a write may make to a row: it keeps the key, does not reopen, and resolves with a text.\<close>

definition row_change :: "dispute \<Rightarrow> dispute \<Rightarrow> bool" where
  "row_change d e \<longleftrightarrow> d_id e = d_id d \<and> d_transaction e = d_transaction d \<and>
     (if active (d_status d) then active (d_status e) \<or> resolution_given e
      else d_status e = d_status d \<and> d_resolution e = d_resolution d)"

lemma row_change_refl [simp]: "row_change d d"
  by (auto simp: row_change_def)

lemma disputes_inv_map:
  assumes inv: "disputes_inv ds" and g: "\<And>d. d \<in> set ds \<Longrightarrow> row_change d (g d)"
  shows "disputes_inv (map g ds)"
  unfolding disputes_inv_def
proof (intro conjI ballI impI)
  have "map d_id (map g ds) = map d_id ds" using g by (simp add: row_change_def)
  then show "distinct (map d_id (map g ds))" using inv by (simp only: disputes_inv_def)
next
  fix x y
  assume "x \<in> set (map g ds)" "y \<in> set (map g ds)"
    and act: "active (d_status x) \<and> active (d_status y) \<and> d_transaction x = d_transaction y"
  then obtain d e where de: "d \<in> set ds" "e \<in> set ds" "x = g d" "y = g e" by auto
  with act g [of d] g [of e] have "active (d_status d)" "active (d_status e)"
    "d_transaction d = d_transaction e" by (auto simp: row_change_def split: if_splits)
  then have "d_id d = d_id e" using inv de unfolding disputes_inv_def by blast
  then show "d_id x = d_id y" using de g [of d] g [of e] by (simp add: row_change_def)
next
  fix x
  assume "x \<in> set (map g ds)"
  then obtain d where d: "d \<in> set ds" "x = g d" by auto
  then have "active (d_status d) \<or> resolution_given d" using inv unfolding disputes_inv_def by blast
  then show "active (d_status x) \<or> resolution_given x"
    using g [OF d(1)] d(2) by (auto simp: row_change_def resolution_given_def split: if_splits)
qed

lemma disputes_inv_update:
  assumes "disputes_inv ds" "\<And>d. d \<in> set ds \<Longrightarrow> p d \<Longrightarrow> row_change d (f d)"
  shows "disputes_inv (sql_update p f ds)"
  unfolding sql_update_def by (rule disputes_inv_map [OF assms(1)]) (simp add: assms(2))

lemma disputes_inv_distinct: "disputes_inv ds \<Longrightarrow> distinct (map d_id ds)"
  by (simp add: disputes_inv_def)

lemma findDispute_unique:
  assumes "disputes_inv ds" "findDispute i ds = Some d" "e \<in> set ds" "d_id e = i"
  shows "e = d"
  using find_key_unique [OF disputes_inv_distinct [OF assms(1)] assms(3)] assms(2,4) by (simp add: findDispute_def)

lemma find_sql_update_key:
  assumes "\<And>d. d_id (f d) = d_id d"
  shows "findDispute i (sql_update p f ds) = map_option (\<lambda>d. if p d then f d else d) (findDispute i ds)"
  using assms by (induction ds) (auto simp: findDispute_def sql_update_def)

lemma set_fields_simps [simp]:
  "d_id (set_fields u d) = d_id d" "d_transaction (set_fields u d) = d_transaction d"
  "d_status (set_fields u d) = (case u_status u of None \<Rightarrow> d_status d | Some s \<Rightarrow> s)"
  "d_resolution (set_fields u d) = (case u_resolution u of None \<Rightarrow> d_resolution d | Some r \<Rightarrow> Some r)"
  by (simp_all add: set_fields_def)

lemma findDispute_SomeD: "findDispute i ds = Some d \<Longrightarrow> d \<in> set ds \<and> d_id d = i"
  unfolding findDispute_def by (drule find_SomeD) simp

lemma update_dispute_row_Inr:
  assumes "update_dispute_row i u ds = Inr (row, ds')"
  shows "ds' = sql_update (\<lambda>d. d_id d = i) (set_fields u) ds \<and>
    (\<exists>d. findDispute i ds = Some d \<and> row = set_fields u d)"
  using assms by (auto simp: update_dispute_row_def Let_def find_sql_update_key
      split: if_splits option.splits dest: findDispute_SomeD)

section \<open>The SLA engine in closed form\<close>

lemma fold_sql_update_key:
  "fold (\<lambda>x. sql_update (\<lambda>r. k r = h x) f) xs t =
     sql_update (\<lambda>r. k r \<in> h ` set xs) f t"
  if "\<And>r. k (f r) = k r" "\<And>r. f (f r) = f r"
  using that by (induction xs arbitrary: t) (auto simp: sql_update_def)

definition resolved_row :: "dispute \<Rightarrow> dispute" where
  "resolved_row d = d\<lparr>d_status := D_resolved, d_resolution := Some auto_resolution\<rparr>"

lemma auto_resolve_world:
  "w_disputes (auto_resolve env now d w) = sql_update (\<lambda>x. d_id x = d_id d) resolved_row (w_disputes w)"
  "w_transactions (auto_resolve env now d w) = w_transactions w"
  "w_evidence (auto_resolve env now d w) = w_evidence w"
  "w_effects (auto_resolve env now d w) = w_effects w"
  "w_notifications (auto_resolve env now d w) = w_notifications w"
  by (simp_all add: auto_resolve_def Let_def add_note_row_def resolved_row_def[abs_def] split: option.splits)

definition payout_for :: "transaction list \<Rightarrow> dispute \<Rightarrow> payout_request list" where
  "payout_for txs d = (case find (\<lambda>t. tx_id t = d_transaction d) txs of
     None \<Rightarrow> []
   | Some tx \<Rightarrow> [\<lparr>po_dispute = d_id d, po_transaction = tx_id tx, po_provider = tx_provider tx,
       po_phone = tx_phone tx, po_amount = tx_amount tx\<rparr>])"

lemma auto_resolve_payouts:
  "w_payouts (auto_resolve env now d w) = w_payouts w @ payout_for (w_transactions w) d"
  by (simp add: auto_resolve_def Let_def add_note_row_def payout_for_def split: option.splits)

lemma fold_auto_resolve:
  "w_disputes (fold (auto_resolve env now) xs w) =
     sql_update (\<lambda>x. d_id x \<in> d_id ` set xs) resolved_row (w_disputes w)"
  "w_transactions (fold (auto_resolve env now) xs w) = w_transactions w"
  "w_payouts (fold (auto_resolve env now) xs w) =
     w_payouts w @ concat (map (payout_for (w_transactions w)) xs)"
proof (induction xs arbitrary: w)
  case (Cons x xs)
  {
    case 1
    then show ?case using Cons(1) [of "auto_resolve env now x w"]
      by (auto simp: auto_resolve_world sql_update_def resolved_row_def)
  next
    case 2
    then show ?case using Cons(2) by (simp add: auto_resolve_world)
  next
    case 3
    then show ?case using Cons(3) by (simp add: auto_resolve_world auto_resolve_payouts)
  }
qed (simp_all add: sql_update_id)

lemma fold_row_updates:
  "fold (\<lambda>row. sql_update (\<lambda>d. k d = k row) (U row)) xs t =
     map (\<lambda>d. fold (\<lambda>row x. if k x = k row then U row x else x) xs d) t"
  by (induction xs arbitrary: t) (simp_all add: sql_update_def)

lemma fold_own_row:
  assumes "\<forall>r\<in>set xs. k r = k d \<longrightarrow> r = d" "\<And>r x. k (U r x) = k x" "U d (U d d) = U d d"
  shows "fold (\<lambda>row x. if k x = k row then U row x else x) xs d = (if d \<in> set xs then U d d else d)"
proof -
  have "fold (\<lambda>row x. if k x = k row then U row x else x) xs (U d d) = U d d"
    using assms by (induction xs) auto
  moreover have "k d \<noteq> k x" if "d \<noteq> x" "x \<in> set xs" for x using assms(1) that by auto
  ultimately show ?thesis using assms by (induction xs) auto
qed

definition sla_due :: "dispute \<Rightarrow> millis" where
  "sla_due d = d_createdAt d + getSlaHoursHelper (d_priority d) * 60 * 60 * 1000"

lemma set_sla_deadlines_closed:
  assumes "distinct (map d_id ds)"
  shows "set_sla_deadlines ds =
    sql_update (\<lambda>d. d_slaDueDate d = None) (\<lambda>d. d\<lparr>d_slaDueDate := Some (sla_due d)\<rparr>) ds"
proof -
  let ?U = "\<lambda>row d. d\<lparr>d_slaDueDate := Some (sla_due row)\<rparr>" and ?xs = "filter (\<lambda>d. d_slaDueDate d = None) ds"
  have "set_sla_deadlines ds = fold (\<lambda>row. sql_update (\<lambda>d. d_id d = d_id row) (?U row)) ?xs ds"
    by (simp add: set_sla_deadlines_def sla_due_def)
  also have "\<dots> = map (\<lambda>d. if d \<in> set ?xs then ?U d d else d) ds"
    unfolding fold_row_updates
  proof (rule map_cong [OF refl])
    fix d assume "d \<in> set ds"
    then have "\<forall>r\<in>set ?xs. d_id r = d_id d \<longrightarrow> r = d"
      using assms by (auto simp: distinct_map dest: inj_onD)
    then show "fold (\<lambda>row x. if d_id x = d_id row then ?U row x else x) ?xs d =
      (if d \<in> set ?xs then ?U d d else d)"
      by (rule fold_own_row) simp_all
  qed
  also have "\<dots> = sql_update (\<lambda>d. d_slaDueDate d = None) (\<lambda>d. ?U d d) ds"
    by (simp add: sql_update_def)
  finally show ?thesis .
qed

lemma set_sla_deadlines_ids: "map d_id (set_sla_deadlines ds) = map d_id ds"
proof -
  have "map d_id (fold (\<lambda>row. sql_update (\<lambda>d. d_id d = d_id row)
     (\<lambda>d. d\<lparr>d_slaDueDate := f row\<rparr>)) xs t) = map d_id t" for f xs t
    by (induction xs arbitrary: t) (simp_all add: map_sql_update)
  then show ?thesis unfolding set_sla_deadlines_def .
qed

lemma disputes_inv_set_sla: "disputes_inv ds \<Longrightarrow> disputes_inv (set_sla_deadlines ds)"
  by (simp add: set_sla_deadlines_closed disputes_inv_distinct)
     (rule disputes_inv_update, auto simp: row_change_def)

lemma auto_resolution_given [simp]: "resolution_given (resolved_row d)"
  by (simp add: resolution_given_def resolved_row_def auto_resolution_def)

text \<open>The SLA engine as one update of the table.\<close>

definition sla_final :: "millis \<Rightarrow> dispute \<Rightarrow> dispute" where
  "sla_final now d =
     (let d1 = (if d_slaDueDate d = None then d\<lparr>d_slaDueDate := Some (sla_due d)\<rparr> else d)
      in if sla_expired now d1 then resolved_row d1 else d1)"

lemma checkSla_disputes:
  assumes "distinct (map d_id (w_disputes w))"
  shows "w_disputes (checkSlaDeadlines env now w) = map (sla_final now) (w_disputes w)"
proof -
  let ?ds = "set_sla_deadlines (w_disputes w)"
  have "distinct (map d_id ?ds)" using assms by (simp add: set_sla_deadlines_ids)
  then have "d_id d \<in> d_id ` set (filter (sla_expired now) ?ds) \<longleftrightarrow> sla_expired now d" if "d \<in> set ?ds" for d
    using that by (auto simp: distinct_map dest: inj_onD)
  then have "sql_update (\<lambda>d. d_id d \<in> d_id ` set (filter (sla_expired now) ?ds)) resolved_row ?ds =
      sql_update (sla_expired now) resolved_row ?ds"
    unfolding sql_update_def by (intro map_cong) auto
  then show ?thesis
    by (simp add: checkSlaDeadlines_def Let_def fold_auto_resolve)
       (simp add: set_sla_deadlines_closed assms sql_update_def sla_final_def Let_def)
qed

lemma sla_final_change: "row_change d (sla_final now d)"
  by (auto simp: row_change_def sla_final_def Let_def sla_expired_def resolved_row_def active_def
    resolution_given_def auto_resolution_def)

lemma sla_final_due: "d_slaDueDate (sla_final now d) \<noteq> None"
  by (auto simp: sla_final_def Let_def resolved_row_def)

lemma sla_final_not_expired: "\<not> sla_expired now (sla_final now d)"
  by (auto simp: sla_final_def Let_def sla_expired_def resolved_row_def active_def)

lemma sla_final_idem: "sla_final now (sla_final now d) = sla_final now d"
  using sla_final_not_expired [of now d]
  by (auto simp: sla_final_def Let_def sla_expired_def resolved_row_def active_def split: if_splits option.splits)


section \<open>Runs of the workflow\<close>

datatype dispute_op =
    OpenDispute id id string "string option" "DisputePriority option" "string option"
  | UpdateDisputeStatus id DisputeStatus "string option" "string option"
  | ResolvePayment id DisputeResolutionAction string "string option"
  | UpdateDispute id "DisputePriority option" "string option" "string option"
  | AddEvidence id string string int string string string "string option"
  | AssignToAgent id string
  | AddNote id string string
  | ProcessSlaWarnings
  | CheckSlaDeadlines

definition world_after :: "world \<Rightarrow> 'e + ('a \<times> world) \<Rightarrow> world" where
  \<comment> \<open>an operation that throws has written nothing\<close>
  "world_after w r = (case r of Inl _ \<Rightarrow> w | Inr (_, w') \<Rightarrow> w')"

fun exec_op :: "environment \<Rightarrow> millis \<Rightarrow> dispute_op \<Rightarrow> world \<Rightarrow> world" where
  "exec_op env now (OpenDispute new t reason rep prio cat) w =
     world_after w (openDispute env now new t reason rep prio cat w)"
| "exec_op env now (UpdateDisputeStatus i s res asg) w =
     world_after w (updateDisputeStatus env i s res asg w)"
| "exec_op env now (ResolvePayment i act res adm) w =
     world_after w (resolvePayment env now i act res adm w)"
| "exec_op env now (UpdateDispute i prio cat notes) w =
     world_after w (updateDispute env i prio cat notes w)"
| "exec_op env now (AddEvidence i fn ft fs key url by descr) w =
     world_after w (addEvidence now i fn ft fs key url by descr w)"
| "exec_op env now (AssignToAgent i agent) w = world_after w (assignToAgent env i agent w)"
| "exec_op env now (AddNote i author txt) w =
     (case addNote env now i author txt w of Inl _ \<Rightarrow> w | Inr w' \<Rightarrow> w')"
| "exec_op env now ProcessSlaWarnings w = snd (processSlaWarnings now w)"
| "exec_op env now CheckSlaDeadlines w = checkSlaDeadlines env now w"

fun fresh_op :: "dispute_op \<Rightarrow> world \<Rightarrow> bool" where
  \<comment> \<open>the database draws the key of a new row, and it is the primary key\<close>
  "fresh_op (OpenDispute new t reason rep prio cat) w = (new \<notin> d_id ` set (w_disputes w))"
| "fresh_op _ w = True"

inductive dispute_step :: "environment \<Rightarrow> world \<Rightarrow> world \<Rightarrow> bool" for env where
  op: "fresh_op x w \<Longrightarrow> dispute_step env w (exec_op env now x w)"

inductive_cases dispute_stepE: "dispute_step env w w'"

definition table_change :: "dispute list \<Rightarrow> dispute list \<Rightarrow> bool" where
  "table_change ds ds' \<longleftrightarrow> (\<exists>g. (\<forall>d\<in>set ds. row_change d (g d)) \<and> ds' = map g ds)"

lemma table_change_refl [simp]: "table_change ds ds"
  unfolding table_change_def by (rule exI [of _ "\<lambda>d. d"]) simp

lemma table_change_update:
  "(\<And>d. d \<in> set ds \<Longrightarrow> p d \<Longrightarrow> row_change d (f d)) \<Longrightarrow> table_change ds (sql_update p f ds)"
  unfolding table_change_def sql_update_def
  by (rule exI [of _ "\<lambda>d. if p d then f d else d"]) simp

lemma row_change_trans: "row_change a b \<Longrightarrow> row_change b c \<Longrightarrow> row_change a c"
  by (auto simp: row_change_def resolution_given_def split: if_splits)

lemma table_change_trans:
  assumes "table_change a b" "table_change b c"
  shows "table_change a c"
proof -
  obtain g where g: "\<forall>d\<in>set a. row_change d (g d)" "b = map g a" using assms(1) by (auto simp: table_change_def)
  obtain h where h: "\<forall>d\<in>set b. row_change d (h d)" "c = map h b" using assms(2) by (auto simp: table_change_def)
  show ?thesis unfolding table_change_def
    by (rule exI [of _ "h \<circ> g"]) (use g h row_change_trans in auto)
qed

lemma table_change_inv: "table_change ds ds' \<Longrightarrow> disputes_inv ds \<Longrightarrow> disputes_inv ds'"
  using disputes_inv_map by (auto simp: table_change_def)

lemma table_change_final:
  assumes "table_change ds ds'" "d \<in> set ds" "\<not> active (d_status d)"
  shows "\<exists>e\<in>set ds'. d_id e = d_id d \<and> d_status e = d_status d \<and> d_resolution e = d_resolution d"
proof -
  obtain g where "\<forall>d\<in>set ds. row_change d (g d)" "ds' = map g ds"
    using assms(1) unfolding table_change_def by blast
  then show ?thesis using assms(2,3) by (auto simp: row_change_def)
qed

lemmas world_simps = notify_def add_note_row_def set_tx_status_def world_after_def

lemma update_status_change:
  assumes inv: "disputes_inv ds" and d: "findDispute i ds = Some d" "active (d_status d)"
    and u: "u_status u = Some s" "active s \<or> (\<exists>r. u_resolution u = Some r \<and> r \<noteq> [])"
  shows "table_change ds (sql_update (\<lambda>d. d_id d = i) (set_fields u) ds)"
proof (rule table_change_update)
  fix e assume "e \<in> set ds" "d_id e = i"
  then have "e = d" using findDispute_unique inv d(1) by blast
  then show "row_change e (set_fields u e)"
    using d u by (auto simp: row_change_def resolution_given_def)
qed

lemma updateDisputeStatus_change:
  assumes "disputes_inv (w_disputes w)" "updateDisputeStatus env i s res asg w = Inr (row, w')"
  shows "table_change (w_disputes w) (w_disputes w')" "w_payouts w' = w_payouts w"
    "w_transactions w' = w_transactions w"
proof -
  obtain d where d: "findDispute i (w_disputes w) = Some d" "s \<in> set (TRANSITIONS (d_status d))"
      "\<not> (s \<in> set TERMINAL_STATUSES \<and> (res = None \<or> res = Some []))"
    and w': "w_disputes w' = sql_update (\<lambda>d. d_id d = i) (set_fields (no_update\<lparr>u_status := Some s,
        u_resolution := res, u_assignedTo := asg\<rparr>)) (w_disputes w)"
      "w_payouts w' = w_payouts w" "w_transactions w' = w_transactions w"
    using assms(2)
    by (auto simp: updateDisputeStatus_def Let_def notify_def split: option.splits if_splits sum.splits
        dest!: update_dispute_row_Inr)
  show "table_change (w_disputes w) (w_disputes w')" unfolding w'(1)
    by (rule update_status_change [OF assms(1) d(1), where s = s])
       (use d transitions_active in \<open>auto simp: terminal_iff\<close>)
  show "w_payouts w' = w_payouts w" "w_transactions w' = w_transactions w" by (fact w')+
qed


lemma resolvePayment_change:
  assumes "disputes_inv (w_disputes w)" "resolvePayment env now i act res adm w = Inr (row, w')"
  shows "table_change (w_disputes w) (w_disputes w')" "w_payouts w' = w_payouts w"
proof -
  let ?s = "if act = ReverseAction then D_reversed else D_upheld"
  obtain d where d: "findDispute i (w_disputes w) = Some d" "active (d_status d)" "js_trim res \<noteq> []"
    and w': "w_disputes w' = sql_update (\<lambda>d. d_id d = i) (set_fields (no_update\<lparr>u_status := Some ?s,
        u_resolution := Some (js_trim res), u_assignedTo := adm\<rparr>)) (w_disputes w)"
      "w_payouts w' = w_payouts w"
    using assms(2)
    by (auto simp: resolvePayment_def Let_def world_simps terminal_iff
        split: option.splits if_splits sum.splits prod.splits dest!: update_dispute_row_Inr)
  show "table_change (w_disputes w) (w_disputes w')" unfolding w'(1)
    by (rule update_status_change [OF assms(1) d(1,2), where s = ?s]) (use d(3) in auto)
  show "w_payouts w' = w_payouts w" by (fact w'(2))
qed

lemma set_fields_change:
  "u_status u = None \<Longrightarrow> u_resolution u = None \<Longrightarrow> row_change d (set_fields u d)"
  by (auto simp: row_change_def)

lemma updateDispute_change:
  assumes "updateDispute env i prio cat notes w = Inr (row, w')"
  shows "table_change (w_disputes w) (w_disputes w')" "w_payouts w' = w_payouts w"
  using assms
  by (auto simp: updateDispute_def notify_def no_update_def split: option.splits sum.splits
      dest!: update_dispute_row_Inr intro!: table_change_update set_fields_change)

lemma addEvidence_change:
  assumes "addEvidence now i fn ft fs key url by descr w = Inr (e, w')"
  shows "w_disputes w' = w_disputes w" "w_payouts w' = w_payouts w"
  using assms by (auto simp: addEvidence_def notify_def Let_def split: option.splits)

lemma addNote_change:
  assumes "addNote env now i author txt w = Inr w'"
  shows "w_disputes w' = w_disputes w" "w_payouts w' = w_payouts w"
  using assms by (auto simp: addNote_def add_note_row_def split: option.splits)

lemma assign_row_change:
  assumes "disputes_inv ds"
  shows "table_change ds (sql_update (\<lambda>x. d_id x = i) (\<lambda>x. x\<lparr>d_assignedTo := a\<rparr>) ds)"
  by (rule table_change_update) (auto simp: row_change_def resolution_given_def)

lemma assignToAgent_change:
  assumes inv: "disputes_inv (w_disputes w)" and "assignToAgent env i agent w = Inr (row, w')"
  shows "table_change (w_disputes w) (w_disputes w')" "w_payouts w' = w_payouts w"
proof -
  let ?ds1 = "sql_update (\<lambda>x. d_id x = i) (\<lambda>x. x\<lparr>d_assignedTo := Some agent\<rparr>) (w_disputes w)"
  let ?u = "no_update\<lparr>u_status := Some D_investigating, u_assignedTo := Some agent\<rparr>"
  obtain row1 where r: "findDispute i ?ds1 = Some row1"
    and w': "w_payouts w' = w_payouts w" "w_disputes w' =
       (if d_status row1 = D_open then sql_update (\<lambda>d. d_id d = i) (set_fields ?u) ?ds1 else ?ds1)"
    using assms(2)
    by (auto simp: assignToAgent_def Let_def notify_def
        split: option.splits if_splits sum.splits dest!: update_dispute_row_Inr)
  have c1: "table_change (w_disputes w) ?ds1" by (rule assign_row_change [OF inv])
  have "table_change ?ds1 (sql_update (\<lambda>d. d_id d = i) (set_fields ?u) ?ds1)" if "d_status row1 = D_open"
    by (rule update_status_change [OF table_change_inv [OF c1 inv] r, where s = D_investigating])
       (use that in \<open>auto simp: active_def\<close>)
  then show "table_change (w_disputes w) (w_disputes w')" using w'(2) c1 table_change_trans by auto
  show "w_payouts w' = w_payouts w" by (fact w'(1))
qed

lemma fold_warn_change:
  "table_change (w_disputes w) (w_disputes (fold warn_dispute cs w)) \<and>
   w_payouts (fold warn_dispute cs w) = w_payouts w"
proof (induction cs arbitrary: w)
  case (Cons c cs)
  have "table_change (w_disputes w) (w_disputes (warn_dispute c w))"
    by (auto simp: warn_dispute_def Let_def notify_def row_change_def resolution_given_def
        intro!: table_change_update)
  moreover have "w_payouts (warn_dispute c w) = w_payouts w"
    by (simp add: warn_dispute_def Let_def notify_def)
  ultimately show ?case using Cons [of "warn_dispute c w"] table_change_trans by auto
qed simp

lemma checkSla_change:
  assumes "disputes_inv (w_disputes w)"
  shows "table_change (w_disputes w) (w_disputes (checkSlaDeadlines env now w))"
  unfolding table_change_def checkSla_disputes [OF disputes_inv_distinct [OF assms]]
  using sla_final_change by blast

lemma openDispute_Inr:
  assumes "openDispute env now new t reason rep prio cat w = Inr (row, w')"
  shows "findActiveByTransactionId t (w_disputes w) = None"
    and "\<exists>msg. w' = notify ''dispute.opened'' (new_dispute now new t reason rep prio cat) msg
      (set_tx_status now t Dispute (w\<lparr>w_disputes := w_disputes w @ [new_dispute now new t reason rep prio cat]\<rparr>))"
  using assms unfolding openDispute_def Let_def
  by (auto split: option.splits if_splits)

lemma set_tx_status_world [simp]:
  "w_disputes (set_tx_status now t s w) = w_disputes w" "w_payouts (set_tx_status now t s w) = w_payouts w"
  by (auto simp: set_tx_status_def split: prod.splits)

lemma set_tx_status_transactions:
  "w_transactions (set_tx_status now t s w) = fst (snd (updateStatus now t s None None (w_transactions w)))"
  by (auto simp: set_tx_status_def split: prod.splits)

lemma add_note_row_world [simp]:
  "w_disputes (add_note_row env now i a txt w) = w_disputes w"
  "w_transactions (add_note_row env now i a txt w) = w_transactions w"
  by (simp_all add: add_note_row_def)

lemma status_of_updateStatus:
  "status_of (fst (snd (updateStatus now t s None None txs))) t =
     map_option (\<lambda>x. if status_step (tx_status x) s then s else tx_status x) (find (\<lambda>x. tx_id x = t) txs)"
  unfolding updateStatus_table
  by (subst status_of_update)
     (auto simp: status_where_def validPreviousStatuses_None intro!: option.map_cong dest: find_SomeD)

lemma notify_world [simp]:
  "w_disputes (notify ev d msg w) = w_disputes w" "w_payouts (notify ev d msg w) = w_payouts w"
  "w_transactions (notify ev d msg w) = w_transactions w"
  by (simp_all add: notify_def)

lemma openDispute_change:
  assumes "openDispute env now new t reason rep prio cat w = Inr (row, w')"
  shows "w_disputes w' = w_disputes w @ [new_dispute now new t reason rep prio cat]"
    "w_payouts w' = w_payouts w" "\<forall>d\<in>set (w_disputes w). d_transaction d = t \<longrightarrow> \<not> active (d_status d)"
  using openDispute_Inr [OF assms] by (auto simp: findActiveByTransactionId_def find_None_iff)

lemma disputes_inv_open:
  assumes "disputes_inv ds" "new \<notin> d_id ` set ds"
    "\<forall>d\<in>set ds. d_transaction d = t \<longrightarrow> \<not> active (d_status d)"
  shows "disputes_inv (ds @ [new_dispute now new t reason rep prio cat])"
proof -
  let ?n = "new_dispute now new t reason rep prio cat"
  have n: "d_id ?n = new" "d_transaction ?n = t" "active (d_status ?n)"
    by (simp_all add: new_dispute_def active_def)
  show ?thesis unfolding disputes_inv_def
  proof (intro conjI ballI impI)
    show "distinct (map d_id (ds @ [?n]))" using assms(1,2) n(1) by (simp add: disputes_inv_def)
  next
    fix d e assume "d \<in> set (ds @ [?n])" "e \<in> set (ds @ [?n])" and
      a: "active (d_status d) \<and> active (d_status e) \<and> d_transaction d = d_transaction e"
    then consider "d \<in> set ds" "e \<in> set ds" | "d = ?n" "e = ?n" | "d = ?n" "e \<in> set ds"
      | "d \<in> set ds" "e = ?n" by auto
    then show "d_id d = d_id e"
    proof cases
      case 1 then show ?thesis using assms(1) a unfolding disputes_inv_def by blast
    qed (use a n assms(3) in auto)
  next
    fix d assume "d \<in> set (ds @ [?n])"
    then show "active (d_status d) \<or> resolution_given d"
      using assms(1) n(3) unfolding disputes_inv_def by auto
  qed
qed


section \<open>The invariant of the workflow\<close>

definition world_inv :: "world \<Rightarrow> bool" where
  "world_inv w \<longleftrightarrow> disputes_inv (w_disputes w) \<and> distinct (map po_dispute (w_payouts w)) \<and>
     (\<forall>p\<in>set (w_payouts w). \<exists>d\<in>set (w_disputes w). d_id d = po_dispute p \<and> \<not> active (d_status d))"

lemma world_inv_change:
  assumes inv: "world_inv w" and c: "table_change (w_disputes w) (w_disputes w')"
    and p: "w_payouts w' = w_payouts w"
  shows "world_inv w'"
  unfolding world_inv_def
proof (intro conjI ballI)
  show "disputes_inv (w_disputes w')" using table_change_inv [OF c] inv by (simp add: world_inv_def)
  show "distinct (map po_dispute (w_payouts w'))" using inv p by (simp add: world_inv_def)
  fix q assume "q \<in> set (w_payouts w')"
  then obtain d where d: "d \<in> set (w_disputes w)" "d_id d = po_dispute q" "\<not> active (d_status d)"
    using inv p unfolding world_inv_def by auto
  then show "\<exists>d\<in>set (w_disputes w'). d_id d = po_dispute q \<and> \<not> active (d_status d)"
    using table_change_final [OF c d(1,3)] by auto
qed

lemma map_payout_for:
  "map po_dispute (concat (map (payout_for txs) ds)) =
   map d_id (filter (\<lambda>d. payout_for txs d \<noteq> []) ds)"
  by (induction ds) (auto simp: payout_for_def split: option.splits)

lemma checkSla_payouts:
  "w_payouts (checkSlaDeadlines env now w) = w_payouts w @ concat (map (payout_for (w_transactions w))
     (filter (sla_expired now) (set_sla_deadlines (w_disputes w))))"
  by (simp add: checkSlaDeadlines_def Let_def fold_auto_resolve)

lemma checkSla_paid:
  "po_dispute ` set (w_payouts (checkSlaDeadlines env now w)) \<subseteq>
   po_dispute ` set (w_payouts w) \<union> d_id ` {d \<in> set (set_sla_deadlines (w_disputes w)). sla_expired now d}"
  by (auto simp: checkSla_payouts payout_for_def split: option.splits)

lemma set_sla_status:
  assumes "disputes_inv ds" "d \<in> set (set_sla_deadlines ds)"
  shows "\<exists>e\<in>set ds. d_id e = d_id d \<and> d_status e = d_status d"
  using assms by (auto simp: set_sla_deadlines_closed disputes_inv_distinct sql_update_def)

lemma sla_expired_paid_once:
  assumes inv: "world_inv w"
  shows "distinct (map po_dispute (w_payouts (checkSlaDeadlines env now w)))"
proof -
  let ?ds = "set_sla_deadlines (w_disputes w)"
  let ?xs = "filter (sla_expired now) ?ds"
  have dinv: "disputes_inv (w_disputes w)" using inv by (simp add: world_inv_def)
  have ids: "distinct (map d_id ?ds)"
    using disputes_inv_distinct [OF dinv] by (simp add: set_sla_deadlines_ids)
  have "d_id d \<noteq> po_dispute q" if d: "d \<in> set ?xs" and q: "q \<in> set (w_payouts w)" for d q
  proof
    assume eq: "d_id d = po_dispute q"
    obtain e where e: "e \<in> set (w_disputes w)" "d_id e = po_dispute q" "\<not> active (d_status e)"
      using inv q unfolding world_inv_def by blast
    obtain e' where "e' \<in> set (w_disputes w)" "d_id e' = d_id d" "d_status e' = d_status d"
      using set_sla_status [OF dinv] d by auto
    then have "e' = e" using e eq disputes_inv_distinct [OF dinv] by (simp add: distinct_map inj_on_def)
    then show False using d e \<open>d_status e' = d_status d\<close> by (simp add: sla_expired_def)
  qed
  then have "set (map po_dispute (w_payouts w)) \<inter> set (map d_id (filter P ?xs)) = {}" for P
    by force
  moreover have "distinct (map d_id (filter P ?xs))" for P
    using ids by (simp add: distinct_map_filter)
  ultimately show ?thesis using inv
    by (simp only: checkSla_payouts map_append map_payout_for distinct_append world_inv_def)
qed

lemma world_inv_checkSla:
  assumes inv: "world_inv w"
  shows "world_inv (checkSlaDeadlines env now w)"
  unfolding world_inv_def
proof (intro conjI ballI)
  let ?w = "checkSlaDeadlines env now w" and ?ds = "set_sla_deadlines (w_disputes w)"
  have dinv: "disputes_inv (w_disputes w)" using inv by (simp add: world_inv_def)
  note c = checkSla_change [OF dinv, of env now]
  show "disputes_inv (w_disputes ?w)" by (rule table_change_inv [OF c dinv])
  show "distinct (map po_dispute (w_payouts ?w))" by (rule sla_expired_paid_once [OF inv])
  fix q assume "q \<in> set (w_payouts ?w)"
  then consider (old) "po_dispute q \<in> po_dispute ` set (w_payouts w)"
    | (new) d where "d \<in> set ?ds" "sla_expired now d" "d_id d = po_dispute q"
    using checkSla_paid [of env now w] by auto
  then show "\<exists>d\<in>set (w_disputes ?w). d_id d = po_dispute q \<and> \<not> active (d_status d)"
  proof cases
    case old
    then obtain d where d: "d \<in> set (w_disputes w)" "d_id d = po_dispute q" "\<not> active (d_status d)"
      using inv unfolding world_inv_def by auto
    then show ?thesis using table_change_final [OF c d(1,3)] by auto
  next
    case new
    then have "resolved_row d \<in> set (w_disputes ?w)"
      by (simp add: checkSlaDeadlines_def Let_def fold_auto_resolve set_sql_update)
        (blast intro: imageI)
    moreover have "d_id (resolved_row d) = po_dispute q" "\<not> active (d_status (resolved_row d))"
      using new(3) by (simp_all add: resolved_row_def active_def)
    ultimately show ?thesis by blast
  qed
qed


lemma world_inv_open:
  assumes "world_inv w" "new \<notin> d_id ` set (w_disputes w)"
    "openDispute env now new t reason rep prio cat w = Inr (row, w')"
  shows "world_inv w'"
proof -
  note c = openDispute_change [OF assms(3)]
  have "disputes_inv (w_disputes w')" unfolding c(1)
    using assms(1,2) c(3) by (intro disputes_inv_open) (simp_all add: world_inv_def)
  then show ?thesis using assms(1) c(1,2) unfolding world_inv_def by auto
qed

text \<open>An operation other than opening a dispute changes rows in place; only the SLA engine pays.\<close>

definition quiet_change :: "world \<Rightarrow> world \<Rightarrow> bool" where
  "quiet_change w w' \<longleftrightarrow> table_change (w_disputes w) (w_disputes w') \<and> w_payouts w' = w_payouts w"

lemma quiet_world_after:
  "(\<And>x w'. r = Inr (x, w') \<Longrightarrow> quiet_change w w') \<Longrightarrow> quiet_change w (world_after w r)"
  by (auto simp: world_after_def quiet_change_def split: sum.splits)

lemma exec_op_quiet:
  assumes inv: "disputes_inv (w_disputes w)" and not_open: "\<nexists>new t r p q c. x = OpenDispute new t r p q c"
    and "x \<noteq> CheckSlaDeadlines"
  shows "quiet_change w (exec_op env now x w)"
proof (cases x)
  case (OpenDispute new t r p q c) then show ?thesis using not_open by blast
next
  case (UpdateDisputeStatus i s res asg) show ?thesis
    unfolding exec_op.simps UpdateDisputeStatus by (rule quiet_world_after)
      (auto simp: quiet_change_def dest: updateDisputeStatus_change [OF inv])
next
  case (ResolvePayment i act res adm) show ?thesis
    unfolding exec_op.simps ResolvePayment by (rule quiet_world_after)
      (auto simp: quiet_change_def dest: resolvePayment_change [OF inv])
next
  case (UpdateDispute i prio cat nts) show ?thesis
    unfolding exec_op.simps UpdateDispute by (rule quiet_world_after)
      (auto simp: quiet_change_def dest: updateDispute_change)
next
  case (AddEvidence i fn ft fs key url up descr) show ?thesis
    unfolding exec_op.simps AddEvidence by (rule quiet_world_after)
      (auto simp: quiet_change_def dest: addEvidence_change)
next
  case (AssignToAgent i agent) show ?thesis
    unfolding exec_op.simps AssignToAgent by (rule quiet_world_after)
      (auto simp: quiet_change_def dest: assignToAgent_change [OF inv])
next
  case (AddNote i author tx)
  then show ?thesis using addNote_change
    by (cases "addNote env now i author tx w") (auto simp: quiet_change_def)
next
  case ProcessSlaWarnings then show ?thesis
    using fold_warn_change by (simp add: processSlaWarnings_def Let_def quiet_change_def)
qed (use assms(3) in simp)

lemma dispute_step_table:
  assumes "dispute_step env w w'" "disputes_inv (w_disputes w)"
  shows "table_change (w_disputes w) (w_disputes w') \<or> (\<exists>d. w_disputes w' = w_disputes w @ [d])"
  using assms(1)
proof (rule dispute_stepE)
  fix x now assume w': "w' = exec_op env now x w" "fresh_op x w"
  consider (op) new t r p q c where "x = OpenDispute new t r p q c" | (sla) "x = CheckSlaDeadlines"
    | (quiet) "quiet_change w w'"
    using exec_op_quiet [OF assms(2), of x env now] w'(1) by blast
  then show ?thesis
  proof cases
    case op
    then show ?thesis using w' openDispute_change(1)
      by (cases "openDispute env now new t r p q c w") (auto simp: world_after_def)
  next
    case sla
    then show ?thesis using w' checkSla_change [OF assms(2)] by simp
  qed (simp add: quiet_change_def)
qed

lemma dispute_step_inv:
  assumes "dispute_step env w w'" "world_inv w"
  shows "world_inv w'"
  using assms(1)
proof (rule dispute_stepE)
  fix x now assume w': "w' = exec_op env now x w" and fr: "fresh_op x w"
  have dinv: "disputes_inv (w_disputes w)" using assms(2) by (simp add: world_inv_def)
  show ?thesis
  proof (cases "x = CheckSlaDeadlines \<or> (\<exists>new t r p q c. x = OpenDispute new t r p q c)")
    case True
    then show ?thesis using w' fr assms(2) world_inv_checkSla
      by (auto simp: world_after_def split: sum.splits dest: world_inv_open [OF assms(2)])
  next
    case False
    then show ?thesis
      using exec_op_quiet [OF dinv, of x env now] world_inv_change [OF assms(2)] w'
      unfolding quiet_change_def by blast
  qed
qed

text \<open>Reachability: the operations in any order, at any times, over any answers of the provider.\<close>

definition dispute_runs :: "environment \<Rightarrow> world \<Rightarrow> world \<Rightarrow> bool" where
  "dispute_runs env = (dispute_step env)\<^sup>*\<^sup>*"

lemma dispute_runs_inv: "dispute_runs env w w' \<Longrightarrow> world_inv w \<Longrightarrow> world_inv w'"
  unfolding dispute_runs_def by (induction rule: rtranclp_induct) (auto intro: dispute_step_inv)

lemma dispute_step_final:
  assumes "dispute_step env w w'" "disputes_inv (w_disputes w)" "d \<in> set (w_disputes w)" "\<not> active (d_status d)"
  shows "\<exists>e\<in>set (w_disputes w'). d_id e = d_id d \<and> d_status e = d_status d \<and> d_resolution e = d_resolution d"
  using dispute_step_table [OF assms(1,2)] table_change_final assms(3,4) by fastforce

lemma dispute_runs_final:
  assumes "dispute_runs env w w'" "world_inv w" "d \<in> set (w_disputes w)" "\<not> active (d_status d)"
  shows "\<exists>e\<in>set (w_disputes w'). d_id e = d_id d \<and> d_status e = d_status d \<and> d_resolution e = d_resolution d"
  using assms(1) unfolding dispute_runs_def
proof (induction rule: rtranclp_induct)
  case base
  then show ?case using assms(3) by blast
next
  case (step v v')
  obtain e where e: "e \<in> set (w_disputes v)" "d_id e = d_id d" "d_status e = d_status d"
    "d_resolution e = d_resolution d" using step.IH by blast
  have "disputes_inv (w_disputes v)"
    using dispute_runs_inv [of env w v] step.hyps(1) assms(2) by (simp add: dispute_runs_def world_inv_def)
  then show ?case using dispute_step_final [OF step.hyps(2) _ e(1)] e(2-4) assms(4) by auto
qed


section \<open>Properties\<close>

definition start_world :: "transaction list \<Rightarrow> world" where
  "start_world txs = \<lparr>w_disputes = [], w_notes = [], w_evidence = [], w_transactions = txs,
     w_effects = [], w_notifications = [], w_payouts = []\<rparr>"

definition demo_env :: environment where
  "demo_env = \<lparr>encrypt = (\<lambda>s. CHR ''e'' # s), decrypt = tl,
     sendPayout = (\<lambda>h p n a. if h = [] then PayoutOk (Some ''R1'') else PayoutError ''down'')\<rparr>"

definition demo_tx :: "TransactionStatus \<Rightarrow> transaction" where
  "demo_tx s = \<lparr>tx_id = ''t1'', tx_reference = ''R'', tx_amount = ''5'', tx_phone = ''677'',
     tx_provider = ''mtn'', tx_status = s, tx_user = None, tx_created = 0, tx_updated = 0\<rparr>"

lemma world_inv_start: "world_inv (start_world txs)"
  by (simp add: world_inv_def start_world_def disputes_inv_def)

definition demo_world :: world where
  \<comment> \<open>a completed transaction is disputed with critical priority and the deadline of four hours passes\<close>
  "demo_world = exec_op demo_env 20000000 CheckSlaDeadlines
     (exec_op demo_env 0 (OpenDispute ''d1'' ''t1'' ''not received'' None (Some P_critical) None)
        (start_world [demo_tx Completed]))"

lemma demo_run: "dispute_runs demo_env (start_world [demo_tx Completed]) demo_world"
  unfolding dispute_runs_def demo_world_def
  by (rule rtranclp.rtrancl_into_rtrancl [OF r_into_rtranclp]; rule dispute_step.op)
     (simp_all add: start_world_def)

lemma demo_world_simps:
  "map d_status (w_disputes demo_world) = [D_resolved]" "map po_dispute (w_payouts demo_world) = [''d1'']"
  by code_simp+

text \<open>
  The two tables of the dispute workflow agree. The configurable state machine allows a
  transition exactly when the service's own table does, its terminal states are the statuses with
  no transition out, and \<open>validateTransition\<close> accepts a transition exactly when the table allows it
  and its data is there: an agent for \<^verbatim>\<open>investigating\<close>, a resolution that is not blank otherwise.
\<close>

theorem state_machine_agrees:
  "(isValidTransition DISPUTE_STATE_MACHINE f t \<longleftrightarrow> t \<in> set (TRANSITIONS f)) \<and>
   (isTerminalState DISPUTE_STATE_MACHINE f \<longleftrightarrow> TRANSITIONS f = []) \<and>
   (fst (validateTransition DISPUTE_STATE_MACHINE f t dat) \<longleftrightarrow>
      t \<in> set (TRANSITIONS f) \<and>
      (if t = D_investigating then truthy (dat ''assignedTo'')
       else \<not> field_missing (dat ''resolution'')))"
proof (intro conjI)
  show v: "isValidTransition DISPUTE_STATE_MACHINE f t \<longleftrightarrow> t \<in> set (TRANSITIONS f)"
    by (cases f; cases t) (simp_all add: machine_defs)
  show "isTerminalState DISPUTE_STATE_MACHINE f \<longleftrightarrow> TRANSITIONS f = []"
    by (cases f) (simp_all add: machine_defs)
  show "fst (validateTransition DISPUTE_STATE_MACHINE f t dat) \<longleftrightarrow>
      t \<in> set (TRANSITIONS f) \<and>
      (if t = D_investigating then truthy (dat ''assignedTo'') else \<not> field_missing (dat ''resolution''))"
    by (auto simp: validateTransition_def Let_def v getRequiredFields_machine)
qed

text \<open>
  C14. Whatever sequence of operations runs, at whatever times, and whatever the payout provider
  answers, the table of disputes stays well formed: ids are unique, a transaction has at most one
  open or investigated dispute, and every closed dispute carries a resolution text.
\<close>

theorem dispute_table_invariant:
  assumes "dispute_runs env (start_world txs) w"
  shows "disputes_inv (w_disputes w)"
  using dispute_runs_inv [OF assms world_inv_start] by (simp add: world_inv_def)

theorem dispute_table_invariant_witness: "disputes_inv (w_disputes demo_world)"
  by (rule dispute_table_invariant [OF demo_run])

text \<open>
  A closed dispute is final: once resolved, rejected, reversed or upheld it keeps its status
  and its resolution through every later run.
\<close>

theorem closed_dispute_final:
  assumes "dispute_runs env (start_world txs) w" "dispute_runs env w w'"
    "d \<in> set (w_disputes w)" "\<not> active (d_status d)"
  shows "\<exists>e\<in>set (w_disputes w'). d_id e = d_id d \<and> d_status e = d_status d \<and> d_resolution e = d_resolution d"
  using dispute_runs_final [OF assms(2) dispute_runs_inv [OF assms(1) world_inv_start]] assms(3,4) .

theorem closed_dispute_final_witness:
  "\<exists>e\<in>set (w_disputes (exec_op demo_env 30000000 (UpdateDisputeStatus ''d1'' D_rejected (Some ''x'') None) demo_world)).
     d_id e = d_id (hd (w_disputes demo_world)) \<and> d_status e = d_status (hd (w_disputes demo_world)) \<and>
     d_resolution e = d_resolution (hd (w_disputes demo_world))"
proof (rule closed_dispute_final [OF demo_run])
  show "dispute_runs demo_env demo_world
    (exec_op demo_env 30000000 (UpdateDisputeStatus ''d1'' D_rejected (Some ''x'') None) demo_world)"
    unfolding dispute_runs_def by (rule r_into_rtranclp [of "dispute_step demo_env"]) (rule dispute_step.op, simp)
  show "hd (w_disputes demo_world) \<in> set (w_disputes demo_world)"
    "\<not> active (d_status (hd (w_disputes demo_world)))"
    using demo_world_simps(1) by (auto simp: active_def)
qed

text \<open>
  The SLA engine pays a dispute at most once: in every reachable state the payouts requested
  are for different disputes, each of them closed, even when the provider failed or threw.
\<close>

theorem sla_payout_once:
  assumes "dispute_runs env (start_world txs) w"
  shows "distinct (map po_dispute (w_payouts w)) \<and>
    (\<forall>p\<in>set (w_payouts w). \<exists>d\<in>set (w_disputes w). d_id d = po_dispute p \<and> \<not> active (d_status d))"
  using dispute_runs_inv [OF assms world_inv_start] by (simp add: world_inv_def)

theorem sla_payout_once_witness:
  "w_payouts demo_world \<noteq> [] \<and> distinct (map po_dispute (w_payouts demo_world))"
  using sla_payout_once [OF demo_run] demo_world_simps(2) by auto

definition overdue :: "millis \<Rightarrow> dispute \<Rightarrow> bool" where
  "overdue now d \<longleftrightarrow> active (d_status d) \<and> (case d_slaDueDate d of Some t \<Rightarrow> t | None \<Rightarrow> sla_due d) < now"

lemma overdue_ids:
  assumes "distinct (map d_id ds)"
  shows "map d_id (filter P (filter (sla_expired now) (set_sla_deadlines ds))) =
    map d_id (filter (\<lambda>d. overdue now d \<and> P (if d_slaDueDate d = None then d\<lparr>d_slaDueDate := Some (sla_due d)\<rparr> else d)) ds)"
  by (simp add: set_sla_deadlines_closed [OF assms] sql_update_def filter_map comp_def)
    (auto intro!: arg_cong2 [of _ _ _ _ map] filter_cong simp: overdue_def sla_expired_def split: option.splits)

lemma payout_for_some:
  "payout_for txs d \<noteq> [] \<longleftrightarrow> d_transaction d \<in> tx_id ` set txs"
proof (cases "find (\<lambda>t. tx_id t = d_transaction d) txs")
  case None
  then have "d_transaction d \<notin> tx_id ` set txs" by (auto simp: find_None_iff)
  then show ?thesis by (simp add: payout_for_def None)
next
  case (Some t)
  then have "d_transaction d \<in> tx_id ` set txs" using find_SomeD [OF Some] by (metis imageI)
  then show ?thesis by (simp add: payout_for_def Some)
qed

text \<open>
  C18. A run of the SLA engine leaves no overdue dispute: every dispute has a deadline afterwards,
  none that is open or investigated is past it, the table is the old one with the overdue disputes
  resolved in the user's favour, exactly one payout is requested for each of these whose transaction exists and none
  for any other dispute, and a second run at the same time changes nothing at all.
\<close>

theorem sla_engine_complete:
  assumes "distinct (map d_id (w_disputes w))"
  shows "w_disputes (checkSlaDeadlines env now w) = map (sla_final now) (w_disputes w) \<and>
    (\<forall>d\<in>set (w_disputes (checkSlaDeadlines env now w)). d_slaDueDate d \<noteq> None \<and> \<not> sla_expired now d) \<and>
    (\<exists>new. w_payouts (checkSlaDeadlines env now w) = w_payouts w @ new \<and>
      map po_dispute new = map d_id (filter (\<lambda>d. overdue now d \<and> d_transaction d \<in> tx_id ` set (w_transactions w)) (w_disputes w))) \<and>
    checkSlaDeadlines env now (checkSlaDeadlines env now w) = checkSlaDeadlines env now w"
proof -
  let ?w = "checkSlaDeadlines env now w"
  have paid: "map po_dispute (concat (map (payout_for (w_transactions w)) (filter (sla_expired now) (set_sla_deadlines (w_disputes w))))) =
      map d_id (filter (\<lambda>d. overdue now d \<and> d_transaction d \<in> tx_id ` set (w_transactions w)) (w_disputes w))"
    unfolding map_payout_for overdue_ids [OF assms] payout_for_some
    by (auto intro!: arg_cong2 [of _ _ _ _ map] filter_cong)
  note t = checkSla_disputes [OF assms, of env now]
  have due: "d_slaDueDate d \<noteq> None \<and> \<not> sla_expired now d" if "d \<in> set (w_disputes ?w)" for d
    using that sla_final_not_expired sla_final_due by (auto simp: t)
  then have no: "filter (\<lambda>d. d_slaDueDate d = None) (w_disputes ?w) = []"
      "filter (sla_expired now) (w_disputes ?w) = []" by (auto simp: filter_empty_conv)
  then have "set_sla_deadlines (w_disputes ?w) = w_disputes ?w" by (simp add: set_sla_deadlines_def)
  then have "checkSlaDeadlines env now ?w = ?w" unfolding checkSlaDeadlines_def [of env now ?w]
    by (simp add: no(2))
  then show ?thesis using t due paid checkSla_payouts [of env now w] by blast
qed

theorem sla_engine_complete_witness:
  "checkSlaDeadlines demo_env 20000000 (checkSlaDeadlines demo_env 20000000 demo_world) =
   checkSlaDeadlines demo_env 20000000 demo_world"
  using sla_engine_complete [of demo_world demo_env 20000000]
  by (simp add: distinct_map) (insert demo_world_simps(1), auto simp: distinct_map)

text \<open>
  An administrator's decision settles the disputed payment: it closes the dispute with the
  trimmed text and, when the payment is in dispute, makes the transaction reversed or completed;
  a dispute that is closed already is refused and nothing is written.
\<close>

theorem resolvePayment_settles:
  assumes "disputes_inv (w_disputes w)" "findDispute i (w_disputes w) = Some d" "js_trim res \<noteq> []"
    "status_of (w_transactions w) (d_transaction d) = Some Dispute"
  shows "if active (d_status d)
    then \<exists>row w'. resolvePayment env now i act res adm w = Inr (row, w') \<and>
        status_of (w_transactions w') (d_transaction d) =
          Some (if act = ReverseAction then Reversed else Completed) \<and>
        map_option d_status (findDispute i (w_disputes w')) =
          Some (if act = ReverseAction then D_reversed else D_upheld) \<and>
        map_option d_resolution (findDispute i (w_disputes w')) = Some (Some (js_trim res))
    else resolvePayment env now i act res adm w = Inl (CannotResolve (d_status d))"
proof (cases "active (d_status d)")
  case False
  then show ?thesis using assms by (simp add: resolvePayment_def terminal_iff)
next
  case True
  let ?u = "no_update\<lparr>u_status := Some (if act = ReverseAction then D_reversed else D_upheld),
    u_resolution := Some (js_trim res), u_assignedTo := adm\<rparr>"
  let ?t = "if act = ReverseAction then Reversed else Completed"
  let ?ds = "sql_update (\<lambda>d. d_id d = i) (set_fields ?u) (w_disputes w)"
  have id: "d_id d = i" using findDispute_SomeD assms(2) by blast
  then have f: "findDispute i ?ds = Some (set_fields ?u d)" by (simp add: find_sql_update_key assms(2))
  then have "update_dispute_row i ?u (w_disputes w) = Inr (set_fields ?u d, ?ds)"
    by (simp add: update_dispute_row_def no_update_def Let_def)
  then obtain row w' where r: "resolvePayment env now i act res adm w = Inr (row, w')" "w_disputes w' = ?ds"
    "w_transactions w' = fst (snd (updateStatus now (d_transaction d) ?t None None (w_transactions w)))"
    using True assms(2,3)
    by (simp add: resolvePayment_def terminal_iff set_tx_status_transactions Let_def)
  obtain x where "find (\<lambda>x. tx_id x = d_transaction d) (w_transactions w) = Some x" "tx_status x = Dispute"
    using assms(4) by (auto simp: status_of_def)
  then have "status_of (w_transactions w') (d_transaction d) = Some ?t"
    unfolding r(3) status_of_updateStatus by (simp add: status_step_iff)
  then show ?thesis using True r f by simp
qed

theorem resolvePayment_settles_witness:
  "let w = exec_op demo_env 0 (OpenDispute ''d1'' ''t1'' ''not received'' None None None)
             (start_world [demo_tx Completed])
   in \<exists>row w'. resolvePayment demo_env 5 ''d1'' ReverseAction ''ok'' None w = Inr (row, w') \<and>
        status_of (w_transactions w') ''t1'' = Some Reversed"
proof -
  let ?w = "exec_op demo_env 0 (OpenDispute ''d1'' ''t1'' ''not received'' None None None)
             (start_world [demo_tx Completed])"
  have d: "w_disputes ?w = [new_dispute 0 ''d1'' ''t1'' ''not received'' None None None]" by code_simp
  have "js_trim ''ok'' \<noteq> []" "status_of (w_transactions ?w) ''t1'' = Some Dispute" by code_simp+
  then show ?thesis
    using resolvePayment_settles [of ?w "''d1''" "new_dispute 0 ''d1'' ''t1'' ''not received'' None None None"
      "''ok''" demo_env 5 ReverseAction None]
    by (simp del: exec_op.simps add: d findDispute_def new_dispute_def disputes_inv_def active_def) blast
qed

text \<open>
  A failed transaction can be refunded twice. The service opens a dispute on a failed
  transaction, but its status table does not lead from failed to disputed and the refusal is
  ignored, so the transaction stays failed: once the SLA engine has paid the first dispute out, a
  second dispute can be opened and is paid out as well.
\<close>

theorem failed_transaction_paid_twice:
  "\<exists>w. dispute_runs demo_env (start_world [demo_tx Failed]) w \<and>
     map po_transaction (w_payouts w) = [''t1'', ''t1''] \<and>
     status_of (w_transactions w) ''t1'' = Some Failed"
proof -
  let ?open = "\<lambda>i. OpenDispute i ''t1'' ''not received'' None (Some P_critical) None"
  let ?w1 = "exec_op demo_env 0 (?open ''d1'') (start_world [demo_tx Failed])"
  let ?w2 = "exec_op demo_env 20000000 CheckSlaDeadlines ?w1"
  let ?w3 = "exec_op demo_env 20000000 (?open ''d2'') ?w2"
  let ?w4 = "exec_op demo_env 40000000 CheckSlaDeadlines ?w3"
  have "fresh_op (?open ''d1'') (start_world [demo_tx Failed])" "fresh_op (?open ''d2'') ?w2" by code_simp+
  then have "dispute_step demo_env (start_world [demo_tx Failed]) ?w1" "dispute_step demo_env ?w1 ?w2"
    "dispute_step demo_env ?w2 ?w3" "dispute_step demo_env ?w3 ?w4"
    by (intro dispute_step.op; simp only: fresh_op.simps)+
  then have run: "dispute_runs demo_env (start_world [demo_tx Failed]) ?w4"
    unfolding dispute_runs_def by (meson rtranclp.rtrancl_refl rtranclp.rtrancl_into_rtrancl)
  have end_state: "map po_transaction (w_payouts ?w4) = [''t1'', ''t1'']"
    "status_of (w_transactions ?w4) ''t1'' = Some Failed" by code_simp+
  show ?thesis by (rule exI [of _ ?w4]) (intro conjI run end_state)
qed

end
