(* ===== verification/Decimal.thy ===== *)
theory Decimal
  imports Prelude
begin

text \<open>
  How a number leaves the program. \<^verbatim>\<open>JSON.stringify\<close> prints a number with the fewest digits that read
  back as the same number (\<open>decimal_value\<close> is the value of that text), and the database rounds the
  text to its column's \<^verbatim>\<open>DECIMAL(20,7)\<close>, half away from zero (\<open>sql_units\<close>, in units of the seventh
  place). The lemmas bound what the two steps can change.
\<close>

section \<open>Numbers as decimal text\<close>

definition pow10 :: "int \<Rightarrow> rat" where
  "pow10 e = (if 0 \<le> e then 10 ^ nat e else 1 / 10 ^ nat (- e))"

definition exponent_of :: "string \<Rightarrow> int" where
  "exponent_of s = (case s of
     c # t \<Rightarrow> if c \<in> {CHR ''e'', CHR ''E''} then
         (case t of [] \<Rightarrow> 0 | d # u \<Rightarrow>
            if d = CHR ''-'' then - int (dec_val (takeWhile js_digit u))
            else if d = CHR ''+'' then int (dec_val (takeWhile js_digit u))
            else int (dec_val (takeWhile js_digit t)))
       else 0
   | [] \<Rightarrow> 0)"

fun dec_exp_up :: "nat \<Rightarrow> int \<Rightarrow> rat \<Rightarrow> int" where
  "dec_exp_up 0 e x = e"
| "dec_exp_up (Suc k) e x = (if x < pow10 e then e else dec_exp_up k (e + 1) x)"

fun dec_exp_down :: "nat \<Rightarrow> int \<Rightarrow> rat \<Rightarrow> int" where
  "dec_exp_down 0 e x = e"
| "dec_exp_down (Suc k) e x = (if pow10 (e - 1) \<le> x then e else dec_exp_down k (e - 1) x)"

definition dec_exp :: "rat \<Rightarrow> int" where
  \<comment> \<open>the \<open>e\<close> with \<open>10\<^sup>e\<^sup>-\<^sup>1 \<le> x < 10\<^sup>e\<close> of a positive double, which lies between \<open>10\<^sup>-\<^sup>3\<^sup>2\<^sup>4\<close> and \<open>10\<^sup>3\<^sup>0\<^sup>9\<close>\<close>
  "dec_exp x = (if 1 \<le> x then dec_exp_up 310 1 x else dec_exp_down 325 0 x)"

definition digits_candidate :: "rat \<Rightarrow> int \<Rightarrow> nat \<Rightarrow> rat option" where
  \<comment> \<open>the decimal of \<open>k\<close> digits that reads back as \<open>x\<close>; of two, the nearer\<close>
  "digits_candidate x e k =
     (let s = pow10 (e - int k);
          lo = of_int \<lfloor>x / s\<rfloor> * s; hi = of_int \<lceil>x / s\<rceil> * s
      in if dround lo = x then Some (if x - lo \<le> hi - x \<or> dround hi \<noteq> x then lo else hi)
         else if dround hi = x then Some hi else None)"

fun first_some :: "('a \<Rightarrow> 'b option) \<Rightarrow> 'a list \<Rightarrow> 'b option" where
  "first_some f [] = None"
| "first_some f (x # xs) = (case f x of Some y \<Rightarrow> Some y | None \<Rightarrow> first_some f xs)"

definition decimal_value :: "rat \<Rightarrow> rat" where
  \<comment> \<open>seventeen digits always suffice; the number itself would be the text otherwise\<close>
  "decimal_value x =
     (if x = 0 then 0
      else let a = \<bar>x\<bar>; e = dec_exp a;
               d = (case first_some (digits_candidate a e) [1..<18] of None \<Rightarrow> a | Some d \<Rightarrow> d)
           in if x < 0 then - d else d)"

section \<open>The numerics of the database\<close>

definition sql_units :: "rat \<Rightarrow> int" where
  \<comment> \<open>\<^verbatim>\<open>numeric\<close> rounded to seven places, half away from zero, in units of the seventh place\<close>
  "sql_units d = (if d < 0 then - \<lfloor>(- d) * 10 ^ 7 + 1/2\<rfloor> else \<lfloor>d * 10 ^ 7 + 1/2\<rfloor>)"

definition sql_fits :: "int \<Rightarrow> bool" where
  \<comment> \<open>\<^verbatim>\<open>DECIMAL(20, 7)\<close>: thirteen digits before the point\<close>
  "sql_fits n \<longleftrightarrow> \<bar>n\<bar> < 10 ^ 20"

section \<open>Amounts as text and as numbers\<close>

fun digits_between :: "nat \<Rightarrow> nat \<Rightarrow> string \<Rightarrow> bool" where
  "digits_between lo hi s \<longleftrightarrow> lo \<le> length s \<and> length s \<le> hi \<and> list_all js_digit s"

definition amount_units :: "string \<Rightarrow> int" where
  \<comment> \<open>\<^verbatim>\<open>value::numeric\<close>, exact: at most seven places\<close>
  "amount_units s = (case js_split CHR ''.'' s of
     [i] \<Rightarrow> int (dec_val i) * 10 ^ 7
   | [i, f] \<Rightarrow> int (dec_val i) * 10 ^ 7 + int (dec_val f) * 10 ^ (7 - length f)
   | _ \<Rightarrow> 0)"

definition decimal_number :: "int \<Rightarrow> jsnum" where
  \<comment> \<open>the number nearest to a decimal given in units of the seventh place\<close>
  "decimal_number n = num (of_int n / 10 ^ 7)"

definition in_range :: "int \<Rightarrow> bool" where
  "in_range n \<longleftrightarrow> 0 \<le> n \<and> n < 10 ^ 15"

definition sql_decimal :: "jsnum \<Rightarrow> int option" where
  \<comment> \<open>the text of a number assigned to a \<^verbatim>\<open>DECIMAL(20, 7)\<close> column; None is the overflow error\<close>
  "sql_decimal x = (case x of
     Fin a \<Rightarrow> (let u = sql_units (decimal_value a) in if sql_fits u then Some u else None)
   | _ \<Rightarrow> None)"

section \<open>What the text can differ from the number\<close>

lemma first_some_SomeD: "first_some f xs = Some y \<Longrightarrow> \<exists>x\<in>set xs. f x = Some y"
  by (induction xs) (auto split: option.splits)

lemma digits_candidate_reads_back: "digits_candidate x e k = Some d \<Longrightarrow> dround d = x"
  by (auto simp: digits_candidate_def Let_def split: if_splits)

lemma decimal_value_reads_back:
  assumes "dround x = x"
  shows "dround (decimal_value x) = x"
proof -
  let ?d = "case first_some (digits_candidate \<bar>x\<bar> (dec_exp \<bar>x\<bar>)) [1..<18] of None \<Rightarrow> \<bar>x\<bar> | Some d \<Rightarrow> d"
  have "dround \<bar>x\<bar> = \<bar>x\<bar>" using assms dround_minus [of x] by (simp add: abs_if)
  then have "dround ?d = \<bar>x\<bar>"
    by (auto split: option.split dest!: first_some_SomeD digits_candidate_reads_back)
  then show ?thesis using dround_minus [of ?d] by (auto simp: decimal_value_def Let_def)
qed

lemma rne_error: "\<bar>of_int (rne x) - x\<bar> \<le> 1/2"
proof -
  have "of_int \<lfloor>x\<rfloor> \<le> x" "x < of_int \<lfloor>x\<rfloor> + 1" by linarith+
  then show ?thesis by (auto simp: rne_def Let_def abs_le_iff)
qed

lemma dround_error_pos:
  assumes "0 < x" "x < pow2 k" "-1074 \<le> k - 53"
  shows "\<bar>dround x - x\<bar> \<le> pow2 (k - 53) / 2"
proof -
  have "binade x + 1 \<le> k"
    using binade_bounds(1) [OF assms(1)] assms(2) by (metis le_less_trans not_le pow2_less_iff zless_imp_add1_zle)
  then have u: "ulp x \<le> pow2 (k - 53)" using assms(3) by (simp add: ulp_def)
  have "dround x - x = (of_int (rne (x / ulp x)) - x / ulp x) * ulp x"
    using assms(1) by (simp add: dround_def field_simps less_imp_neq [OF ulp_pos, symmetric])
  then have "\<bar>dround x - x\<bar> = \<bar>of_int (rne (x / ulp x)) - x / ulp x\<bar> * ulp x" by (simp add: abs_mult less_imp_le)
  also have "\<dots> \<le> 1/2 * ulp x" by (rule mult_right_mono [OF rne_error]) (simp add: less_imp_le)
  finally show ?thesis using u by simp
qed

lemma dround_error:
  assumes "\<bar>x\<bar> < pow2 k" "-1074 \<le> k - 53"
  shows "\<bar>dround x - x\<bar> \<le> pow2 (k - 53) / 2"
proof -
  consider "0 < x" | "x = 0" | "0 < - x" by linarith
  then show ?thesis
  proof cases
    case 3
    then show ?thesis using dround_error_pos [of "- x" k] assms by (simp add: dround_minus abs_minus_commute)
  qed (use dround_error_pos assms in \<open>auto simp: less_imp_le\<close>)
qed

lemma dround_pow2: "-1074 \<le> k \<Longrightarrow> dround (pow2 k) = pow2 k"
  by (rule dround_representable, unfold representable_def, rule exI [of _ 1], rule exI [of _ k]) simp

lemma decimal_value_error:
  assumes "dround x = x" "\<bar>x\<bar> < pow2 k" "-1074 \<le> k - 53"
  shows "\<bar>decimal_value x - x\<bar> \<le> pow2 (k - 53) / 2"
proof -
  let ?d = "decimal_value x"
  note r = decimal_value_reads_back [OF assms(1)]
  have p: "dround (pow2 k) = pow2 k" using assms(3) by (intro dround_pow2) simp
  have "?d < pow2 k"
    using dround_mono [of "pow2 k" ?d] r p assms(2) by (cases "pow2 k \<le> ?d") auto
  moreover have "- pow2 k < ?d"
    using dround_mono [of ?d "- pow2 k"] r p assms(2) by (cases "?d \<le> - pow2 k") (auto simp: dround_minus)
  ultimately have "\<bar>?d\<bar> < pow2 k" by (simp add: abs_less_iff)
  then show ?thesis using dround_error [of ?d k] assms(3) r by (simp add: abs_minus_commute)
qed

lemma sql_units_near:
  assumes "\<bar>d * 10 ^ 7 - of_int n\<bar> < 1/2"
  shows "sql_units d = n"
proof -
  have b: "d * 10 ^ 7 < of_int n + 1/2" "of_int n < d * 10 ^ 7 + 1/2" using assms by linarith+
  show ?thesis
  proof (cases "d < 0")
    case True
    have "\<lfloor>(- d) * 10 ^ 7 + 1/2\<rfloor> = - n"
      by (rule floor_unique) (use b in simp_all)
    then show ?thesis using True by (simp add: sql_units_def)
  next
    case False
    have "\<lfloor>d * 10 ^ 7 + 1/2\<rfloor> = n"
      by (rule floor_unique) (use b in simp_all)
    then show ?thesis using False by (simp add: sql_units_def)
  qed
qed

text \<open>
  Below two to the 27th a double carries a decimal of seven places through both steps, with room
  for two further roundings.
\<close>

lemma sql_units_decimal:
  assumes "dround x = x" "\<bar>x\<bar> < pow2 27" "\<bar>x - of_int n / 10 ^ 7\<bar> \<le> 3 * pow2 (-27)"
  shows "sql_units (decimal_value x) = n"
proof (rule sql_units_near)
  have "\<bar>decimal_value x - x\<bar> \<le> pow2 (-27)"
    using decimal_value_error [OF assms(1,2)] by (simp add: pow2_def)
  then have "\<bar>decimal_value x - of_int n / 10 ^ 7\<bar> \<le> 4 * pow2 (-27)" using assms(3) by linarith
  then have "\<bar>decimal_value x * 10 ^ 7 - of_int n\<bar> \<le> 4 * pow2 (-27) * 10 ^ 7" by (simp add: abs_le_iff)
  also have "\<dots> < 1/2" by (simp add: pow2_def)
  finally show "\<bar>decimal_value x * 10 ^ 7 - of_int n\<bar> < 1/2" .
qed

section \<open>Arithmetic on amounts of seven decimals\<close>

text \<open>
  For amounts below a hundred million (\<open>in_range\<close>) a number stands for one decimal only, and a sum
  or a difference of two such numbers is still written to the column as the exact decimal.
\<close>

lemma pow2_27 [simp]: "pow2 27 = 134217728" "pow2 (-27) = 1 / 134217728" "pow2 (-26) = 1 / 67108864"
  by (simp_all add: pow2_def)

lemma pow2_1024_large: "1073741824 \<le> pow2 1024"
proof -
  have "pow2 30 \<le> pow2 1024" by simp
  then show ?thesis by (simp add: pow2_def)
qed

lemma small_error: "\<bar>x\<bar> < 134217728 \<Longrightarrow> \<bar>dround x - x\<bar> \<le> 1 / 134217728"
  using dround_error [of x 27] by simp

lemma num_small:
  assumes "\<bar>x\<bar> < 134217727"
  shows "num x = Fin (dround x)"
proof -
  have "\<bar>dround x - x\<bar> \<le> 1 / 134217728" by (rule small_error) (use assms in linarith)
  then have "\<bar>dround x\<bar> < 1073741824" using assms by linarith
  then show ?thesis using pow2_1024_large by (auto simp: num_def Let_def)
qed

lemma decimal_number_fin:
  assumes "in_range n"
  obtains x where "decimal_number n = Fin x" "dround x = x" "\<bar>x - of_int n / 10 ^ 7\<bar> \<le> 1 / 134217728"
    "0 \<le> x" "x < 100000001"
proof
  let ?x = "dround (of_int n / 10 ^ 7)"
  have b: "0 \<le> of_int n / (10 ^ 7 :: rat)" "of_int n / (10 ^ 7 :: rat) < 100000000"
    using assms by (simp_all add: in_range_def)
  show "decimal_number n = Fin ?x" unfolding decimal_number_def by (rule num_small) (use b in auto)
  show "dround ?x = ?x" by (rule dround_idem)
  show e: "\<bar>?x - of_int n / 10 ^ 7\<bar> \<le> 1 / 134217728" by (rule small_error) (use b in auto)
  show "0 \<le> ?x" by (rule dround_nonneg) (rule b)
  show "?x < 100000001" using e b by linarith
qed

lemma difference_fin:
  assumes "dround a = a" "\<bar>a - of_int A / 10 ^ 7\<bar> \<le> 1 / 134217728" "0 \<le> a" "a < 100000001"
    "dround f = f" "\<bar>f - of_int F / 10 ^ 7\<bar> \<le> 1 / 134217728" "0 \<le> f" "f < 100000001" "F < A" "0 \<le> F"
  obtains c where "js_sub (Fin a) (Fin f) = Fin c" "dround c = c" "0 < c" "c < 100000002"
    "\<bar>c - (a - f)\<bar> \<le> 1 / 134217728" "\<bar>c - of_int (A - F) / 10 ^ 7\<bar> \<le> 3 / 134217728"
proof
  let ?c = "dround (a - f)"
  have s: "\<bar>a - f\<bar> < 134217727" using assms by linarith
  show "js_sub (Fin a) (Fin f) = Fin ?c" using num_small [OF s] by (simp add: js_sub_def)
  show "dround ?c = ?c" by (rule dround_idem)
  show e: "\<bar>?c - (a - f)\<bar> \<le> 1 / 134217728" by (rule small_error) (use s in linarith)
  have d: "of_int (A - F) / 10 ^ 7 = of_int A / 10 ^ 7 - (of_int F / 10 ^ 7 :: rat)" by (simp add: diff_divide_distrib)
  show e3: "\<bar>?c - of_int (A - F) / 10 ^ 7\<bar> \<le> 3 / 134217728" unfolding d using e assms(2,6) by linarith
  have "1 \<le> A - F" using assms(9) by simp
  then have "(1 :: rat) / 10 ^ 7 \<le> of_int (A - F) / 10 ^ 7" by (intro divide_right_mono) simp_all
  then have "1 / 10000000 \<le> of_int (A - F) / (10 ^ 7 :: rat)" by simp
  then show "0 < ?c" using e3 by linarith
  show "?c < 100000002" using e assms(3,4,7,8) by linarith
qed

lemma sum_fin:
  assumes "\<bar>a - of_int A / 10 ^ 7\<bar> \<le> 1 / 134217728" "0 < a" "dround a = a"
    "\<bar>f - of_int F / 10 ^ 7\<bar> \<le> 1 / 134217728" "0 \<le> f" "A + F < 10 ^ 15"
  obtains t where "js_add (Fin a) (Fin f) = Fin t" "dround t = t" "0 < t" "t < 100000002"
    "\<bar>t - (a + f)\<bar> \<le> 1 / 134217728" "\<bar>t - of_int (A + F) / 10 ^ 7\<bar> \<le> 3 / 134217728"
proof
  let ?t = "dround (a + f)"
  have d: "of_int (A + F) / 10 ^ 7 = of_int A / 10 ^ 7 + (of_int F / 10 ^ 7 :: rat)" by (simp add: add_divide_distrib)
  have "rat_of_int (A + F) < of_int (10 ^ 15)" using assms(6) by (simp only: of_int_less_iff)
  then have "of_int A / 10 ^ 7 + of_int F / 10 ^ 7 < (100000000 :: rat)" unfolding d [symmetric] by simp
  then have lt: "a + f < 100000001" using assms(1,4) by linarith
  then have s: "\<bar>a + f\<bar> < 134217727" using assms(2,5) by linarith
  show "js_add (Fin a) (Fin f) = Fin ?t" using num_small [OF s] by simp
  show "dround ?t = ?t" by (rule dround_idem)
  show e: "\<bar>?t - (a + f)\<bar> \<le> 1 / 134217728" by (rule small_error) (use s in linarith)
  show "\<bar>?t - of_int (A + F) / 10 ^ 7\<bar> \<le> 3 / 134217728" unfolding d using e assms(1,4) by linarith
  have "a \<le> ?t" using dround_mono [of a "a + f"] assms(3,5) by simp
  then show "0 < ?t" using assms(2) by linarith
  show "?t < 100000002" using e lt by linarith
qed

lemma sub_zero_fin: "dround a = a \<Longrightarrow> \<bar>a\<bar> < 134217727 \<Longrightarrow> js_sub (Fin a) (Fin 0) = Fin a"
  by (simp add: js_sub_def num_small)

lemma decimal_number_pos:
  assumes "\<bar>(x :: rat) - of_int n / 10 ^ 7\<bar> \<le> 1 / 134217728" "0 < n"
  shows "0 < x"
proof -
  have "(1 :: rat) / 10000000 \<le> of_int n / 10 ^ 7" using assms(2) by simp
  then show ?thesis using assms(1) by linarith
qed

lemma decimal_number_zero [simp]: "decimal_number 0 = Fin 0"
  by (simp add: decimal_number_def)

lemma sql_decimal_near:
  assumes "dround x = x" "\<bar>x\<bar> < 134217728" "\<bar>x - of_int n / 10 ^ 7\<bar> \<le> 3 / 134217728" "\<bar>n\<bar> < 10 ^ 20"
  shows "sql_decimal (Fin x) = Some n"
  using sql_units_decimal [of x n] assms by (simp add: sql_decimal_def sql_fits_def)

lemma decimal_number_step:
  assumes "in_range A" "0 < A"
  shows "js_lt (decimal_number (A - 1)) (decimal_number A)"
proof -
  have r: "in_range (A - 1)" using assms by (simp add: in_range_def)
  obtain x where x: "decimal_number (A - 1) = Fin x" "\<bar>x - of_int (A - 1) / 10 ^ 7\<bar> \<le> 1 / 134217728"
    using decimal_number_fin [OF r] by metis
  obtain y where y: "decimal_number A = Fin y" "\<bar>y - of_int A / 10 ^ 7\<bar> \<le> 1 / 134217728"
    using decimal_number_fin [OF assms(1)] by metis
  have d: "of_int (A - 1) / 10 ^ 7 = of_int A / 10 ^ 7 - (1 / 10000000 :: rat)" by (simp add: diff_divide_distrib)
  have "x < y" using x(2) y(2) unfolding d by linarith
  then show ?thesis using x(1) y(1) by simp
qed

lemma decimal_number_less:
  assumes "in_range A" "0 < A"
  shows "js_lt (decimal_number M) (decimal_number A) \<longleftrightarrow> M < A"
proof
  show "M < A" if "js_lt (decimal_number M) (decimal_number A)"
  proof (rule ccontr)
    assume "\<not> M < A"
    then have "js_le (decimal_number A) (decimal_number M)"
      unfolding decimal_number_def by (intro num_mono divide_right_mono) simp_all
    then show False using that js_lt_irrefl js_le_lt_trans by blast
  qed
  assume "M < A"
  then have "js_le (decimal_number M) (decimal_number (A - 1))"
    unfolding decimal_number_def by (intro num_mono divide_right_mono) simp_all
  then show "js_lt (decimal_number M) (decimal_number A)"
    using decimal_number_step [OF assms] js_le_lt_trans by blast
qed

lemma sql_decimal_add:
  assumes "0 \<le> B" "0 < A" "B + A < 10 ^ 15"
  shows "sql_decimal (js_add (decimal_number B) (decimal_number A)) = Some (B + A)"
proof -
  have r: "in_range A" "in_range B" using assms by (simp_all add: in_range_def)
  obtain a where a: "decimal_number A = Fin a" "dround a = a" "\<bar>a - of_int A / 10 ^ 7\<bar> \<le> 1 / 134217728"
    using decimal_number_fin [OF r(1)] by metis
  obtain b where b: "decimal_number B = Fin b" "\<bar>b - of_int B / 10 ^ 7\<bar> \<le> 1 / 134217728" "0 \<le> b"
    using decimal_number_fin [OF r(2)] by metis
  have AB: "A + B < 10 ^ 15" using assms by simp
  obtain t where "js_add (Fin a) (Fin b) = Fin t" "dround t = t" "0 < t" "t < 100000002"
    "\<bar>t - of_int (A + B) / 10 ^ 7\<bar> \<le> 3 / 134217728"
    using sum_fin [OF a(3) decimal_number_pos [OF a(3) assms(2)] a(2) b(2,3) AB] by metis
  then show ?thesis using sql_decimal_near [of t "A + B"] AB assms a(1) b(1) by (simp add: add.commute)
qed

lemma sql_decimal_sub:
  assumes "0 < A" "A \<le> B" "B < 10 ^ 15"
  shows "sql_decimal (js_sub (decimal_number B) (decimal_number A)) = Some (B - A)"
proof (cases "A = B")
  case True
  have "in_range B" using assms by (simp add: in_range_def)
  then obtain b where "decimal_number B = Fin b" using decimal_number_fin by metis
  then show ?thesis using True sql_decimal_near [of 0 0] by (simp add: js_sub_def)
next
  case False
  have r: "in_range A" "in_range B" using assms by (simp_all add: in_range_def)
  obtain a where a: "decimal_number A = Fin a" "dround a = a" "\<bar>a - of_int A / 10 ^ 7\<bar> \<le> 1 / 134217728" "0 \<le> a" "a < 100000001"
    using decimal_number_fin [OF r(1)] by metis
  obtain b where b: "decimal_number B = Fin b" "dround b = b" "\<bar>b - of_int B / 10 ^ 7\<bar> \<le> 1 / 134217728" "0 \<le> b" "b < 100000001"
    using decimal_number_fin [OF r(2)] by metis
  obtain c where "js_sub (Fin b) (Fin a) = Fin c" "dround c = c" "0 < c" "c < 100000002"
    "\<bar>c - of_int (B - A) / 10 ^ 7\<bar> \<le> 3 / 134217728"
    using difference_fin [OF b(2-5) a(2-5), of thesis] False assms by auto
  then show ?thesis using sql_decimal_near [of c "B - A"] assms a(1) b(1) by simp
qed

section \<open>Whole amounts\<close>

definition whole :: "string \<Rightarrow> bool" where
  \<comment> \<open>an amount of \<^verbatim>\<open>DECIMAL(20, 7)\<close> without decimals, as the currency has none\<close>
  "whole s \<longleftrightarrow> 0 \<le> amount_units s \<and> amount_units s < 10 ^ 20 \<and> amount_units s mod 10 ^ 7 = 0"

lemma decimal_number_whole: "decimal_number (10 ^ 7 * k) = num (of_int k)"
  by (simp add: decimal_number_def)

end
