(* ===== verification/Vault.thy ===== *)
theory Vault
  imports Decimal Transaction_Status
begin

text \<open>
  Savings vaults (\<^verbatim>\<open>src/models/vault.ts\<close> and the route handlers of
  \<^verbatim>\<open>src/controllers/vaultController.ts\<close>). The state is the tables \<^verbatim>\<open>vaults\<close>, \<^verbatim>\<open>vault_transactions\<close>
  and \<^verbatim>\<open>transactions\<close> with the constraints of their migrations
  (\<^verbatim>\<open>20260327_add_vaults_support.sql\<close>, \<^verbatim>\<open>009_partition_transactions.sql\<close>); requests run one after
  the other. Balances and amounts are integers in units of the seventh decimal. An amount reaches
  the model as text that the schemas of the controller accepted. The random part of a reference
  number, the generated ids and the clock are in \<open>call_env\<close>, as are the answers of the lock service.
\<close>

section \<open>Rows\<close>

datatype transfer_type = Deposit | Withdraw

record Vault =
  vlt_id :: id
  vlt_user :: id
  vlt_name :: string
  vlt_description :: "string option"
  vlt_balance :: int
  vlt_target :: "int option"
  vlt_active :: bool
  vlt_created :: millis
  vlt_updated :: millis

record VaultTransaction =
  vt_id :: id
  vt_vault :: id
  vt_user :: id
  vt_type :: transfer_type
  vt_amount :: int
  vt_description :: "string option"
  vt_reference :: "id option"
  vt_created :: millis

record CreateVaultInput =
  cvi_user :: id
  cvi_name :: string
  cvi_description :: "string option"
  cvi_target :: "string option"

record VaultTransferInput =
  vti_vault :: id
  vti_user :: id
  vti_type :: transfer_type
  vti_amount :: string
  vti_description :: "string option"
  vti_reference :: "id option"

record UserBalanceSummary =
  mainBalance :: int
  vaultBalances :: "(id \<times> string \<times> int) list"
  totalBalance :: jsnum

record main_row =
  \<comment> \<open>a row of \<^verbatim>\<open>transactions\<close>\<close>
  mr_reference :: string
  mr_type :: transfer_type
  mr_amount :: int
  mr_phone :: string
  mr_provider :: string
  mr_stellar :: string
  mr_status :: TransactionStatus
  mr_user :: "id option"
  mr_vault :: "id option"
  mr_notes :: "string option"

record vault_db =
  db_vaults :: "Vault list"
  db_vault_transactions :: "VaultTransaction list"
  db_transactions :: "main_row list"

datatype lock_outcome = LockAcquired | LockContended | LockUnavailable

record call_env =
  ce_uuid :: id
  ce_now :: millis
  ce_random :: string
  ce_lock :: lock_outcome
  ce_release_ok :: bool

datatype vault_error =
    NameRequired | NameTooLong | DescriptionTooLong
  | UniqueViolation | NumericOverflow | CheckViolation | ValueTooLong
  | VaultNotFound | VaultInactive | InsufficientVaultBalance | InsufficientMainBalance
  | NonZeroBalance

section \<open>The model\<close>

definition parse_amount :: "string \<Rightarrow> jsnum" where
  \<comment> \<open>\<^verbatim>\<open>parseFloat\<close> of an amount the schemas accept\<close>
  "parse_amount s = decimal_number (amount_units s)"

definition or_null :: "string option \<Rightarrow> string option" where
  \<comment> \<open>\<^verbatim>\<open>s || null\<close>\<close>
  "or_null s = (if s = Some [] then None else s)"

definition target_column :: "string option \<Rightarrow> vault_error + int option" where
  \<comment> \<open>\<^verbatim>\<open>targetAmount || null\<close> assigned to a \<^verbatim>\<open>DECIMAL(20, 7)\<close> column\<close>
  "target_column t = (case or_null t of
     None \<Rightarrow> Inr None
   | Some s \<Rightarrow> if sql_fits (amount_units s) then Inr (Some (amount_units s)) else Inl NumericOverflow)"

definition vault_keys_free :: "Vault \<Rightarrow> Vault list \<Rightarrow> bool" where
  \<comment> \<open>the primary key and \<^verbatim>\<open>UNIQUE (user_id, name)\<close> against the other rows\<close>
  "vault_keys_free v vs \<longleftrightarrow>
     list_all (\<lambda>w. vlt_id w \<noteq> vlt_id v \<and> (vlt_user w, vlt_name w) \<noteq> (vlt_user v, vlt_name v)) vs"

definition create_vault :: "call_env \<Rightarrow> CreateVaultInput \<Rightarrow> vault_db \<Rightarrow> vault_error + Vault \<times> vault_db" where
  "create_vault env data db =
     (if js_trim (cvi_name data) = [] then Inl NameRequired
      else if 100 < length (cvi_name data) then Inl NameTooLong
      else if (case cvi_description data of Some d \<Rightarrow> 1000 < length d | None \<Rightarrow> False) then Inl DescriptionTooLong
      else case target_column (cvi_target data) of
        Inl e \<Rightarrow> Inl e
      | Inr target \<Rightarrow>
          let v = \<lparr>vlt_id = ce_uuid env, vlt_user = cvi_user data, vlt_name = js_trim (cvi_name data),
                vlt_description = or_null (map_option js_trim (cvi_description data)), vlt_balance = 0,
                vlt_target = target, vlt_active = True, vlt_created = ce_now env, vlt_updated = ce_now env\<rparr>
          in if vault_keys_free v (db_vaults db) then Inr (v, db\<lparr>db_vaults := db_vaults db @ [v]\<rparr>)
             else Inl UniqueViolation)"

definition findById :: "id \<Rightarrow> vault_db \<Rightarrow> Vault option" where
  "findById i db = find (\<lambda>v. vlt_id v = i) (db_vaults db)"

definition findByUserId :: "id \<Rightarrow> bool \<Rightarrow> vault_db \<Rightarrow> Vault list" where
  "findByUserId u activeOnly db =
     sort_key vlt_created (filter (\<lambda>v. vlt_user v = u \<and> (activeOnly \<longrightarrow> vlt_active v)) (db_vaults db))"

definition findByUserAndName :: "id \<Rightarrow> string \<Rightarrow> vault_db \<Rightarrow> Vault option" where
  "findByUserAndName u n db = find (\<lambda>v. vlt_user v = u \<and> vlt_name v = js_trim n) (db_vaults db)"

definition updateBalance :: "id \<Rightarrow> jsnum \<Rightarrow> millis \<Rightarrow> vault_db \<Rightarrow> vault_error + vault_db" where
  "updateBalance i newBalance now db = (case sql_decimal newBalance of
     None \<Rightarrow> Inl NumericOverflow
   | Some b \<Rightarrow> if b < 0 then Inl CheckViolation
       else Inr (db\<lparr>db_vaults := sql_update (\<lambda>v. vlt_id v = i)
              (\<lambda>v. v\<lparr>vlt_balance := b, vlt_updated := now\<rparr>) (db_vaults db)\<rparr>))"

record vault_updates =
  upd_name :: "string option"
  upd_description :: "string option"
  upd_target :: "string option"
  upd_active :: "bool option"

definition set_vault_fields :: "vault_updates \<Rightarrow> int option \<Rightarrow> millis \<Rightarrow> Vault \<Rightarrow> Vault" where
  \<comment> \<open>the \<^verbatim>\<open>SET\<close> clause that \<^verbatim>\<open>updateVault\<close> builds, with the target already a decimal\<close>
  "set_vault_fields u target now v =
     v\<lparr>vlt_name := (case upd_name u of Some n \<Rightarrow> js_trim n | None \<Rightarrow> vlt_name v),
       vlt_description := (case upd_description u of Some d \<Rightarrow> or_null (Some (js_trim d)) | None \<Rightarrow> vlt_description v),
       vlt_target := (case upd_target u of Some _ \<Rightarrow> target | None \<Rightarrow> vlt_target v),
       vlt_active := (case upd_active u of Some b \<Rightarrow> b | None \<Rightarrow> vlt_active v),
       vlt_updated := now\<rparr>"

definition update_vault ::
  "call_env \<Rightarrow> id \<Rightarrow> vault_updates \<Rightarrow> vault_db \<Rightarrow> vault_error + Vault option \<times> vault_db" where
  "update_vault env i u db =
     (if (case upd_name u of Some n \<Rightarrow> js_trim n = [] | None \<Rightarrow> False) then Inl NameRequired
      else if (case upd_name u of Some n \<Rightarrow> 100 < length n | None \<Rightarrow> False) then Inl NameTooLong
      else if (case upd_description u of Some d \<Rightarrow> 1000 < length d | None \<Rightarrow> False) then Inl DescriptionTooLong
      else if upd_name u = None \<and> upd_description u = None \<and> upd_target u = None \<and> upd_active u = None
      then Inr (findById i db, db)
      else case target_column (upd_target u) of
        Inl e \<Rightarrow> Inl e
      | Inr target \<Rightarrow>
          (case findById i db of
             None \<Rightarrow> Inr (None, db)
           | Some v \<Rightarrow>
               let v' = set_vault_fields u target (ce_now env) v
               in if vault_keys_free v' (filter (\<lambda>w. vlt_id w \<noteq> i) (db_vaults db))
                  then Inr (Some v', db\<lparr>db_vaults := sql_update (\<lambda>w. vlt_id w = i) (\<lambda>_. v') (db_vaults db)\<rparr>)
                  else Inl UniqueViolation))"

definition delete_vault :: "id \<Rightarrow> vault_db \<Rightarrow> vault_error + bool \<times> vault_db" where
  \<comment> \<open>the rows of \<^verbatim>\<open>vault_transactions\<close> go with the vault (\<^verbatim>\<open>ON DELETE CASCADE\<close>)\<close>
  "delete_vault i db = (case findById i db of
     None \<Rightarrow> Inr (False, db)
   | Some v \<Rightarrow>
       if js_lt (Fin 0) (decimal_number (vlt_balance v)) then Inl NonZeroBalance
       else Inr (True, db\<lparr>db_vaults := filter (\<lambda>w. vlt_id w \<noteq> i) (db_vaults db),
              db_vault_transactions := filter (\<lambda>t. vt_vault t \<noteq> i) (db_vault_transactions db)\<rparr>))"

definition createVaultTransaction ::
  "call_env \<Rightarrow> VaultTransferInput \<Rightarrow> vault_db \<Rightarrow> vault_error + VaultTransaction \<times> vault_db" where
  "createVaultTransaction env data db =
     (let a = amount_units (vti_amount data);
          t = \<lparr>vt_id = ce_uuid env, vt_vault = vti_vault data, vt_user = vti_user data, vt_type = vti_type data,
            vt_amount = a, vt_description = or_null (vti_description data),
            vt_reference = or_null (vti_reference data), vt_created = ce_now env\<rparr>
      in if \<not> sql_fits a then Inl NumericOverflow
         else if a \<le> 0 then Inl CheckViolation
         else if list_ex (\<lambda>t. vt_id t = ce_uuid env) (db_vault_transactions db) then Inl UniqueViolation
         else Inr (t, db\<lparr>db_vault_transactions := db_vault_transactions db @ [t]\<rparr>))"

definition page_window :: "int \<Rightarrow> int \<Rightarrow> 'a list \<Rightarrow> 'a list" where
  \<comment> \<open>\<^verbatim>\<open>LIMIT lmt OFFSET off\<close>\<close>
  "page_window lmt off xs = take (nat lmt) (drop (nat off) xs)"

definition list_vault_transactions :: "id \<Rightarrow> int \<Rightarrow> int \<Rightarrow> vault_db \<Rightarrow> VaultTransaction list" where
  "list_vault_transactions i lmt off db =
     (let capped = min (max lmt 1) 100; off' = max off 0
      in page_window capped off'
           (sort_key (\<lambda>t. - vt_created t) (filter (\<lambda>t. vt_vault t = i) (db_vault_transactions db))))"

definition main_effect :: "main_row \<Rightarrow> int" where
  "main_effect t = (case mr_type t of Deposit \<Rightarrow> mr_amount t | Withdraw \<Rightarrow> - mr_amount t)"

definition main_balance :: "id \<Rightarrow> vault_db \<Rightarrow> int" where
  \<comment> \<open>the \<^verbatim>\<open>SUM\<close> over completed transactions without a vault\<close>
  "main_balance u db = sum_list (map main_effect
     (filter (\<lambda>t. mr_user t = Some u \<and> mr_status t = Completed \<and> mr_vault t = None) (db_transactions db)))"

definition balance_summary :: "id \<Rightarrow> vault_db \<Rightarrow> UserBalanceSummary" where
  "balance_summary u db =
     (let main = main_balance u db;
          vs = findByUserId u True db
      in \<lparr>mainBalance = main,
          vaultBalances = map (\<lambda>v. (vlt_id v, vlt_name v, vlt_balance v)) vs,
          totalBalance = js_add (decimal_number main)
            (foldl (\<lambda>sum v. js_add sum (decimal_number (vlt_balance v))) (Fin 0) vs)\<rparr>)"

fun opposite :: "transfer_type \<Rightarrow> transfer_type" where
  "opposite Deposit = Withdraw"
| "opposite Withdraw = Deposit"

fun type_text :: "transfer_type \<Rightarrow> string" where
  "type_text Deposit = ''deposit''"
| "type_text Withdraw = ''withdraw''"

definition vault_reference :: "call_env \<Rightarrow> string" where
  "vault_reference env = ''VAULT-'' @ nat_str (nat (ce_now env)) @ ''-'' @ ce_random env"

definition insert_main_row :: "main_row \<Rightarrow> vault_db \<Rightarrow> vault_error + vault_db" where
  \<comment> \<open>\<^verbatim>\<open>reference_number VARCHAR(25)\<close>, \<^verbatim>\<open>amount DECIMAL(20, 7)\<close>\<close>
  "insert_main_row t db =
     (if 25 < length (mr_reference t) then Inl ValueTooLong
      else if \<not> sql_fits (mr_amount t) then Inl NumericOverflow
      else Inr (db\<lparr>db_transactions := db_transactions db @ [t]\<rparr>))"

definition transfer_row :: "call_env \<Rightarrow> Vault \<Rightarrow> VaultTransferInput \<Rightarrow> main_row" where
  "transfer_row env v data =
     \<lparr>mr_reference = vault_reference env, mr_type = opposite (vti_type data), mr_amount = amount_units (vti_amount data),
      mr_phone = ''vault-transfer'', mr_provider = ''internal'', mr_stellar = ''vault-system'',
      mr_status = Completed, mr_user = Some (vti_user data), mr_vault = Some (vti_vault data),
      mr_notes = Some (''Vault '' @ type_text (vti_type data) @ '': '' @ vlt_name v @
        (case or_null (vti_description data) of Some d \<Rightarrow> '' - '' @ d | None \<Rightarrow> []))\<rparr>"

definition transfer_statements ::
  "call_env \<Rightarrow> VaultTransferInput \<Rightarrow> vault_db \<Rightarrow> vault_error + VaultTransaction \<times> vault_db" where
  \<comment> \<open>the statements between \<^verbatim>\<open>BEGIN\<close> and \<^verbatim>\<open>COMMIT\<close>\<close>
  "transfer_statements env data db =
     (case find (\<lambda>v. vlt_id v = vti_vault data \<and> vlt_user v = vti_user data) (db_vaults db) of
        None \<Rightarrow> Inl VaultNotFound
      | Some v \<Rightarrow>
          if \<not> vlt_active v then Inl VaultInactive
          else let amountNum = parse_amount (vti_amount data);
                   currentBalance = decimal_number (vlt_balance v)
               in if vti_type data = Withdraw \<and> js_lt currentBalance amountNum then Inl InsufficientVaultBalance
                  else if vti_type data = Deposit \<and>
                    js_lt (decimal_number (main_balance (vti_user data) db)) amountNum then Inl InsufficientMainBalance
                  else let newBalance = (if vti_type data = Deposit then js_add currentBalance amountNum
                                         else js_sub currentBalance amountNum)
                       in case updateBalance (vti_vault data) newBalance (ce_now env) db of
                            Inl e \<Rightarrow> Inl e
                          | Inr db1 \<Rightarrow>
                              (case createVaultTransaction env data db1 of
                                 Inl e \<Rightarrow> Inl e
                               | Inr (t, db2) \<Rightarrow>
                                   (case insert_main_row (transfer_row env v data) db2 of
                                      Inl e \<Rightarrow> Inl e
                                    | Inr db3 \<Rightarrow> Inr (t, db3))))"

definition transfer_funds ::
  "call_env \<Rightarrow> VaultTransferInput \<Rightarrow> vault_db \<Rightarrow> (vault_error + Vault option \<times> VaultTransaction) \<times> vault_db" where
  \<comment> \<open>\<^verbatim>\<open>COMMIT\<close>, or \<^verbatim>\<open>ROLLBACK\<close> and rethrow\<close>
  "transfer_funds env data db = (case transfer_statements env data db of
     Inl e \<Rightarrow> (Inl e, db)
   | Inr (t, db') \<Rightarrow> (Inr (findById (vti_vault data) db', t), db'))"

section \<open>The route handlers\<close>

datatype error_code =
    INVALID_INPUT | UNAUTHORIZED | INVALID_CREDENTIALS | FORBIDDEN | INSUFFICIENT_PERMISSIONS
  | NOT_FOUND | RESOURCE_NOT_FOUND | CONFLICT | INSUFFICIENT_BALANCE | INSUFFICIENT_FUNDS
  | INTERNAL_ERROR | SERVICE_UNAVAILABLE

fun getHttpStatus :: "error_code \<Rightarrow> int" where
  "getHttpStatus INVALID_INPUT = 400"
| "getHttpStatus UNAUTHORIZED = 401"
| "getHttpStatus INVALID_CREDENTIALS = 401"
| "getHttpStatus FORBIDDEN = 403"
| "getHttpStatus INSUFFICIENT_PERMISSIONS = 403"
| "getHttpStatus NOT_FOUND = 404"
| "getHttpStatus RESOURCE_NOT_FOUND = 404"
| "getHttpStatus CONFLICT = 409"
| "getHttpStatus INSUFFICIENT_BALANCE = 400"
| "getHttpStatus INSUFFICIENT_FUNDS = 400"
| "getHttpStatus SERVICE_UNAVAILABLE = 503"
| "getHttpStatus INTERNAL_ERROR = 500"

datatype thrown =
    ZodError
  | AppError error_code
  | ModelError vault_error
  | LockError bool
  | ReleaseError

datatype vault_response =
    VaultCreated Vault
  | VaultList "Vault list"
  | VaultDetails Vault
  | VaultUpdated "Vault option"
  | VaultDeleted
  | TransferDone "Vault option" VaultTransaction
  | TransactionPage "VaultTransaction list" int int bool
  | BalanceSummary UserBalanceSummary

type_synonym 'a answer = "(thrown + 'a) \<times> vault_db"
type_synonym vault_reply = "((error_code \<times> thrown) + vault_response) \<times> vault_db"

definition reply :: "(thrown \<Rightarrow> error_code) \<Rightarrow> vault_response answer \<Rightarrow> vault_reply" where
  \<comment> \<open>the \<^verbatim>\<open>catch\<close> block of a handler: the code of the new error, with the error that caused it\<close>
  "reply code a = (case a of (Inl e, db) \<Rightarrow> (Inl (code e, e), db) | (Inr r, db) \<Rightarrow> (Inr r, db))"

definition catch_zod :: "thrown \<Rightarrow> error_code" where
  "catch_zod e = (if e = ZodError then INVALID_INPUT else INTERNAL_ERROR)"

definition catch_transfer :: "thrown \<Rightarrow> error_code" where
  "catch_transfer e = (case e of
     ZodError \<Rightarrow> INVALID_INPUT
   | LockError isContention \<Rightarrow> if isContention then CONFLICT else SERVICE_UNAVAILABLE
   | ModelError InsufficientVaultBalance \<Rightarrow> INSUFFICIENT_FUNDS
   | ModelError InsufficientMainBalance \<Rightarrow> INSUFFICIENT_FUNDS
   | _ \<Rightarrow> INTERNAL_ERROR)"

definition AMOUNT_FORMAT :: "string \<Rightarrow> bool" where
  \<comment> \<open>\<^verbatim>\<open>^\d+(\.\d{1,7})?$\<close>\<close>
  "AMOUNT_FORMAT s = (case js_split CHR ''.'' s of
     [i] \<Rightarrow> i \<noteq> [] \<and> list_all js_digit i
   | [i, f] \<Rightarrow> i \<noteq> [] \<and> list_all js_digit i \<and> digits_between 1 7 f
   | _ \<Rightarrow> False)"

definition zod_optional :: "(string \<Rightarrow> bool) \<Rightarrow> jsval \<Rightarrow> string option option" where
  \<comment> \<open>\<^verbatim>\<open>z.string()...optional()\<close>\<close>
  "zod_optional ok v = (case v of
     JUndefined \<Rightarrow> Some None
   | JString s \<Rightarrow> if ok s then Some (Some s) else None
   | _ \<Rightarrow> None)"

record vault_body =
  body_name :: jsval
  body_description :: jsval
  body_target :: jsval
  body_active :: jsval
  body_amount :: jsval
  body_type :: jsval

definition vault_name_ok :: "string \<Rightarrow> bool" where
  "vault_name_ok s \<longleftrightarrow> 1 \<le> length s \<and> length s \<le> 100"

definition createVaultSchema :: "id \<Rightarrow> vault_body \<Rightarrow> CreateVaultInput option" where
  "createVaultSchema u b = (case (zod_optional vault_name_ok (body_name b),
      zod_optional (\<lambda>s. length s \<le> 1000) (body_description b), zod_optional AMOUNT_FORMAT (body_target b)) of
     (Some (Some n), Some d, Some t) \<Rightarrow>
       Some \<lparr>cvi_user = u, cvi_name = n, cvi_description = d, cvi_target = t\<rparr>
   | _ \<Rightarrow> None)"

definition updateVaultSchema :: "vault_body \<Rightarrow> vault_updates option" where
  "updateVaultSchema b = (case (zod_optional vault_name_ok (body_name b),
      zod_optional (\<lambda>s. length s \<le> 1000) (body_description b), zod_optional AMOUNT_FORMAT (body_target b)) of
     (Some n, Some d, Some t) \<Rightarrow>
       (case body_active b of
          JUndefined \<Rightarrow> Some \<lparr>upd_name = n, upd_description = d, upd_target = t, upd_active = None\<rparr>
        | JBool a \<Rightarrow> Some \<lparr>upd_name = n, upd_description = d, upd_target = t, upd_active = Some a\<rparr>
        | _ \<Rightarrow> None)
   | _ \<Rightarrow> None)"

definition transferFundsSchema :: "id \<Rightarrow> id \<Rightarrow> vault_body \<Rightarrow> VaultTransferInput option" where
  "transferFundsSchema u i b =
     (let ty = (if body_type b = JString ''deposit'' then Some Deposit
                else if body_type b = JString ''withdraw'' then Some Withdraw else None)
      in case (zod_optional AMOUNT_FORMAT (body_amount b), ty, zod_optional (\<lambda>s. length s \<le> 500) (body_description b)) of
           (Some (Some a), Some t, Some d) \<Rightarrow>
             Some \<lparr>vti_vault = i, vti_user = u, vti_type = t, vti_amount = a, vti_description = d, vti_reference = None\<rparr>
         | _ \<Rightarrow> None)"

definition owned_vault :: "error_code \<Rightarrow> error_code \<Rightarrow> id \<Rightarrow> id \<Rightarrow> vault_db \<Rightarrow> thrown + Vault" where
  \<comment> \<open>the handlers' check that the vault exists and belongs to the caller, with the codes they throw\<close>
  "owned_vault missing denied u i db = (case findById i db of
     None \<Rightarrow> Inl (AppError missing)
   | Some v \<Rightarrow> if vlt_user v \<noteq> u then Inl (AppError denied) else Inr v)"

definition createVault :: "call_env \<Rightarrow> id option \<Rightarrow> vault_body \<Rightarrow> vault_db \<Rightarrow> vault_reply" where
  "createVault env user b db = reply catch_zod
     (case user of None \<Rightarrow> (Inl (AppError INVALID_CREDENTIALS), db) | Some u \<Rightarrow>
      (case createVaultSchema u b of None \<Rightarrow> (Inl ZodError, db) | Some data \<Rightarrow>
       if findByUserAndName u (cvi_name data) db \<noteq> None then (Inl (AppError CONFLICT), db)
       else case create_vault env data db of
          Inl e \<Rightarrow> (Inl (ModelError e), db)
        | Inr (v, db') \<Rightarrow> (Inr (VaultCreated v), db')))"

definition getUserVaults :: "id option \<Rightarrow> string \<Rightarrow> vault_db \<Rightarrow> vault_reply" where
  "getUserVaults user includeInactive db = reply (\<lambda>_. INTERNAL_ERROR)
     (case user of None \<Rightarrow> (Inl (AppError INVALID_CREDENTIALS), db) | Some u \<Rightarrow>
      (Inr (VaultList (findByUserId u (includeInactive \<noteq> ''true'') db)), db))"

definition getVaultById :: "id option \<Rightarrow> id \<Rightarrow> vault_db \<Rightarrow> vault_reply" where
  "getVaultById user i db = reply (\<lambda>_. INTERNAL_ERROR)
     (case user of None \<Rightarrow> (Inl (AppError INVALID_CREDENTIALS), db) | Some u \<Rightarrow>
      (case owned_vault NOT_FOUND INSUFFICIENT_PERMISSIONS u i db of
         Inl e \<Rightarrow> (Inl e, db)
       | Inr v \<Rightarrow> (Inr (VaultDetails v), db)))"

definition updateVault :: "call_env \<Rightarrow> id option \<Rightarrow> id \<Rightarrow> vault_body \<Rightarrow> vault_db \<Rightarrow> vault_reply" where
  "updateVault env user i b db = reply catch_zod
     (case user of None \<Rightarrow> (Inl (AppError INVALID_CREDENTIALS), db) | Some u \<Rightarrow>
      (case updateVaultSchema b of None \<Rightarrow> (Inl ZodError, db) | Some data \<Rightarrow>
       (case owned_vault RESOURCE_NOT_FOUND INSUFFICIENT_PERMISSIONS u i db of
          Inl e \<Rightarrow> (Inl e, db)
        | Inr v \<Rightarrow>
            if (case upd_name data of
                  Some n \<Rightarrow> n \<noteq> [] \<and> n \<noteq> vlt_name v \<and> findByUserAndName u n db \<noteq> None
                | None \<Rightarrow> False)
            then (Inl (AppError CONFLICT), db)
            else (case update_vault env i data db of
               Inl e \<Rightarrow> (Inl (ModelError e), db)
             | Inr (r, db') \<Rightarrow> (Inr (VaultUpdated r), db')))))"

definition deleteVault :: "id option \<Rightarrow> id \<Rightarrow> vault_db \<Rightarrow> vault_reply" where
  "deleteVault user i db = reply (\<lambda>_. INTERNAL_ERROR)
     (case user of None \<Rightarrow> (Inl (AppError UNAUTHORIZED), db) | Some u \<Rightarrow>
      (case owned_vault NOT_FOUND FORBIDDEN u i db of
         Inl e \<Rightarrow> (Inl e, db)
       | Inr v \<Rightarrow>
           (case delete_vault i db of
              Inl e \<Rightarrow> (Inl (ModelError e), db)
            | Inr (deleted, db') \<Rightarrow>
                if deleted then (Inr VaultDeleted, db') else (Inl (AppError INSUFFICIENT_BALANCE), db'))))"

definition withLock :: "call_env \<Rightarrow> (vault_db \<Rightarrow> 'a answer) \<Rightarrow> vault_db \<Rightarrow> 'a answer" where
  \<comment> \<open>\<^verbatim>\<open>lockManager.withLock\<close>: the release stands in a \<^verbatim>\<open>finally\<close> block, so that its error replaces the result\<close>
  "withLock env fn db = (case ce_lock env of
     LockContended \<Rightarrow> (Inl (LockError True), db)
   | LockUnavailable \<Rightarrow> (Inl (LockError False), db)
   | LockAcquired \<Rightarrow>
       (let (r, db') = fn db in if ce_release_ok env then (r, db') else (Inl ReleaseError, db')))"

definition transferFunds :: "call_env \<Rightarrow> id option \<Rightarrow> id \<Rightarrow> vault_body \<Rightarrow> vault_db \<Rightarrow> vault_reply" where
  "transferFunds env user i b db = reply catch_transfer
     (case user of None \<Rightarrow> (Inl (AppError INTERNAL_ERROR), db) | Some u \<Rightarrow>
      (case transferFundsSchema u i b of None \<Rightarrow> (Inl ZodError, db) | Some data \<Rightarrow>
       if js_le (parse_amount (vti_amount data)) (Fin 0) then (Inl (AppError INSUFFICIENT_FUNDS), db)
       else case owned_vault NOT_FOUND FORBIDDEN u i db of
          Inl e \<Rightarrow> (Inl e, db)
        | Inr v \<Rightarrow> withLock env
            (\<lambda>db. case transfer_funds env data db of
               (Inl e, db') \<Rightarrow> (Inl (ModelError e), db')
             | (Inr (w, t), db') \<Rightarrow> (Inr (TransferDone w t), db')) db))"

definition getVaultTransactions :: "id option \<Rightarrow> id \<Rightarrow> int option \<Rightarrow> int option \<Rightarrow> vault_db \<Rightarrow> vault_reply" where
  \<comment> \<open>\<^verbatim>\<open>parseInt\<close> of the query parameters is an argument, None where it is not a number\<close>
  "getVaultTransactions user i lmt off db = reply (\<lambda>_. INTERNAL_ERROR)
     (case user of None \<Rightarrow> (Inl (AppError INVALID_CREDENTIALS), db) | Some u \<Rightarrow>
      (let l = min (case lmt of Some n \<Rightarrow> if n = 0 then 50 else n | None \<Rightarrow> 50) 100;
           k = max (case off of Some n \<Rightarrow> n | None \<Rightarrow> 0) 0
       in case owned_vault RESOURCE_NOT_FOUND FORBIDDEN u i db of
            Inl e \<Rightarrow> (Inl e, db)
          | Inr v \<Rightarrow>
              let ts = list_vault_transactions i l k db
              in (Inr (TransactionPage ts l k (int (length ts) = l)), db)))"

definition getUserBalanceSummary :: "id option \<Rightarrow> vault_db \<Rightarrow> vault_reply" where
  "getUserBalanceSummary user db = reply (\<lambda>_. INTERNAL_ERROR)
     (case user of None \<Rightarrow> (Inl (AppError INVALID_CREDENTIALS), db) | Some u \<Rightarrow>
      (Inr (BalanceSummary (balance_summary u db)), db))"

end
