(* ===== verification/Vault_Books.thy ===== *)
theory Vault_Books
  imports Vault
begin

text \<open>
  What the vaults promise. For amounts below a hundred million a transfer does exactly what its
  specification \<open>transfer_spec\<close> on integers says (\<open>transfer_exactly\<close>), so that every run of requests
  keeps the books balanced; requests are isolated by owner. Three theorems state where the code
  departs from its intention: the main balance ignores transfers, the reference number of a transfer
  does not fit its column, and the handlers turn their own errors into status 500.
\<close>

section \<open>Transfers\<close>

definition moved :: "transfer_type \<Rightarrow> int \<Rightarrow> int" where
  \<comment> \<open>what a transfer adds to the vault\<close>
  "moved ty a = (case ty of Deposit \<Rightarrow> a | Withdraw \<Rightarrow> - a)"

definition after_transfer :: "call_env \<Rightarrow> Vault \<Rightarrow> VaultTransferInput \<Rightarrow> vault_db \<Rightarrow> vault_db" where
  \<comment> \<open>the specification of a transfer: the balance moves by the amount and both records are written\<close>
  "after_transfer env v data db =
     \<lparr>db_vaults = sql_update (\<lambda>w. vlt_id w = vti_vault data)
        (\<lambda>w. w\<lparr>vlt_balance := vlt_balance v + moved (vti_type data) (amount_units (vti_amount data)), vlt_updated := ce_now env\<rparr>)
        (db_vaults db),
      db_vault_transactions = db_vault_transactions db @
        [\<lparr>vt_id = ce_uuid env, vt_vault = vti_vault data, vt_user = vti_user data, vt_type = vti_type data,
          vt_amount = amount_units (vti_amount data), vt_description = or_null (vti_description data),
          vt_reference = or_null (vti_reference data), vt_created = ce_now env\<rparr>],
      db_transactions = db_transactions db @ [transfer_row env v data]\<rparr>"

definition transfer_spec :: "call_env \<Rightarrow> Vault \<Rightarrow> VaultTransferInput \<Rightarrow> vault_db \<Rightarrow> vault_error + vault_db" where
  "transfer_spec env v data db =
     (let a = amount_units (vti_amount data) in
      if \<not> vlt_active v then Inl VaultInactive
      else if vti_type data = Withdraw \<and> vlt_balance v < a then Inl InsufficientVaultBalance
      else if vti_type data = Deposit \<and> main_balance (vti_user data) db < a then Inl InsufficientMainBalance
      else if list_ex (\<lambda>t. vt_id t = ce_uuid env) (db_vault_transactions db) then Inl UniqueViolation
      else if 25 < length (vault_reference env) then Inl ValueTooLong
      else Inr (after_transfer env v data db))"

lemma find_owned:
  "findById i db = Some v \<Longrightarrow> vlt_user v = u \<Longrightarrow>
   find (\<lambda>w. vlt_id w = i \<and> vlt_user w = u) (db_vaults db) = Some v"
  unfolding findById_def by (rule find_conj)

lemma transfer_exactly:
  assumes v: "findById (vti_vault data) db = Some v" "vlt_user v = vti_user data" "0 \<le> vlt_balance v"
    and a: "0 < amount_units (vti_amount data)" "vlt_balance v + amount_units (vti_amount data) < 10 ^ 15"
  shows "map_sum id snd (transfer_statements env data db) = transfer_spec env v data db"
proof -
  let ?a = "amount_units (vti_amount data)"
  have r: "in_range ?a" using v(3) a by (simp add: in_range_def)
  have fits: "sql_fits ?a" using v(3) a by (simp add: sql_fits_def)
  show ?thesis
  proof (cases "vti_type data")
    case Deposit
    show ?thesis using find_owned [OF v(1,2)] Deposit sql_decimal_add [OF v(3) a] v(3) a(1) fits
      by (simp add: transfer_statements_def transfer_spec_def parse_amount_def decimal_number_less [OF r a(1)]
        updateBalance_def createVaultTransaction_def insert_main_row_def after_transfer_def transfer_row_def moved_def Let_def)
  next
    case Withdraw
    show ?thesis
    proof (cases "vlt_balance v < ?a")
      case False
      then have "sql_decimal (js_sub (decimal_number (vlt_balance v)) (decimal_number ?a)) = Some (vlt_balance v - ?a)"
        using a by (intro sql_decimal_sub) simp_all
      then show ?thesis using find_owned [OF v(1,2)] Withdraw False a(1) fits
        by (simp add: transfer_statements_def transfer_spec_def parse_amount_def decimal_number_less [OF r a(1)]
        updateBalance_def createVaultTransaction_def insert_main_row_def after_transfer_def transfer_row_def moved_def Let_def)
    qed (use find_owned [OF v(1,2)] Withdraw in \<open>simp add: transfer_statements_def transfer_spec_def parse_amount_def decimal_number_less [OF r a(1)]\<close>)
  qed
qed

section \<open>The books\<close>

definition net_records :: "id \<Rightarrow> vault_db \<Rightarrow> int" where
  "net_records i db = sum_list (map (\<lambda>t. moved (vt_type t) (vt_amount t))
     (filter (\<lambda>t. vt_vault t = i) (db_vault_transactions db)))"

definition net_main :: "id \<Rightarrow> vault_db \<Rightarrow> int" where
  "net_main i db = sum_list (map main_effect (filter (\<lambda>t. mr_vault t = Some i) (db_transactions db)))"

definition balance_of :: "id \<Rightarrow> vault_db \<Rightarrow> int" where
  "balance_of i db = (case findById i db of Some v \<Rightarrow> vlt_balance v | None \<Rightarrow> 0)"

definition vault_books :: "vault_db \<Rightarrow> bool" where
  "vault_books db \<longleftrightarrow>
     distinct (map vlt_id (db_vaults db)) \<and>
     distinct (map (\<lambda>v. (vlt_user v, vlt_name v)) (db_vaults db)) \<and>
     (\<forall>v\<in>set (db_vaults db). 0 \<le> vlt_balance v) \<and>
     (\<forall>t\<in>set (db_vault_transactions db). \<exists>v\<in>set (db_vaults db). vlt_id v = vt_vault t \<and> vlt_user v = vt_user t) \<and>
     (\<forall>i. net_records i db = balance_of i db \<and> net_main i db = - balance_of i db)"

lemma findById_SomeD: "findById i db = Some v \<Longrightarrow> v \<in> set (db_vaults db) \<and> vlt_id v = i"
  unfolding findById_def by (auto dest: find_SomeD)

lemma findById_None: "findById i db = None \<longleftrightarrow> i \<notin> vlt_id ` set (db_vaults db)"
  by (auto simp: findById_def find_None_iff)

lemma findById_unique:
  assumes "distinct (map vlt_id (db_vaults db))" "v \<in> set (db_vaults db)"
  shows "findById (vlt_id v) db = Some v"
  unfolding findById_def using assms by (rule find_key_unique)

lemma vault_booksD:
  assumes "vault_books db"
  shows "distinct (map vlt_id (db_vaults db))" "distinct (map (\<lambda>v. (vlt_user v, vlt_name v)) (db_vaults db))"
    "\<And>v. v \<in> set (db_vaults db) \<Longrightarrow> 0 \<le> vlt_balance v"
    "\<And>t. t \<in> set (db_vault_transactions db) \<Longrightarrow> \<exists>v\<in>set (db_vaults db). vlt_id v = vt_vault t \<and> vlt_user v = vt_user t"
    "net_records i db = balance_of i db" "net_main i db = - balance_of i db"
  using assms by (simp_all add: vault_books_def)

lemma findById_append: "findById i (db\<lparr>db_vaults := db_vaults db @ [v]\<rparr>) =
    (case findById i db of Some w \<Rightarrow> Some w | None \<Rightarrow> if vlt_id v = i then Some v else None)"
  by (simp add: findById_def find_snoc)

lemma net_same [simp]:
  "net_records i (db\<lparr>db_vaults := vs\<rparr>) = net_records i db" "net_main i (db\<lparr>db_vaults := vs\<rparr>) = net_main i db"
  "net_main i (db\<lparr>db_vault_transactions := ts\<rparr>) = net_main i db"
  by (simp_all add: net_records_def net_main_def)

lemma create_books:
  assumes "vault_books db" "create_vault env data db = Inr (v, db')"
  shows "vault_books db'"
proof -
  have db': "db' = db\<lparr>db_vaults := db_vaults db @ [v]\<rparr>" and free: "vault_keys_free v (db_vaults db)" and b: "vlt_balance v = 0"
    using assms(2) by (auto simp: create_vault_def Let_def split: if_splits sum.splits)
  have "balance_of i db' = balance_of i db" for i
    unfolding db' balance_of_def findById_append by (simp add: b split: option.splits)
  with assms(1) free b show ?thesis unfolding vault_books_def
    by (auto simp: db' vault_keys_free_def list_all_iff)
qed

lemma set_vault_fields_simps [simp]:
  "vlt_id (set_vault_fields u t n v) = vlt_id v" "vlt_user (set_vault_fields u t n v) = vlt_user v"
  "vlt_balance (set_vault_fields u t n v) = vlt_balance v"
  by (simp_all add: set_vault_fields_def)

lemma update_books:
  assumes "vault_books db" "update_vault env i u db = Inr (r, db')"
  shows "vault_books db'"
proof (cases "db' = db")
  case False
  then obtain v t where v: "findById i db = Some v"
    and db': "db' = db\<lparr>db_vaults := sql_update (\<lambda>w. vlt_id w = i) (\<lambda>_. set_vault_fields u t (ce_now env) v) (db_vaults db)\<rparr>"
    and free: "vault_keys_free (set_vault_fields u t (ce_now env) v) (filter (\<lambda>w. vlt_id w \<noteq> i) (db_vaults db))"
    using assms(2) by (auto simp: update_vault_def Let_def split: if_splits sum.splits option.splits)
  note D = vault_booksD [OF assms(1)]
  note vi = findById_SomeD [OF v]
  have p: "vlt_id w = i \<longleftrightarrow> w = v" if "w \<in> set (db_vaults db)" for w
    using findById_unique [OF D(1) that] v vi by (metis option.inject)
  have "findById j db' = (if j = i then Some (set_vault_fields u t (ce_now env) v) else findById j db)" for j
    using v vi unfolding db' findById_def by (simp add: find_key_update)
  then have "balance_of j db' = balance_of j db" for j by (simp add: balance_of_def v)
  moreover have "map vlt_id (db_vaults db') = map vlt_id (db_vaults db)"
    unfolding db' by (simp add: map_sql_update vi)
  moreover have "distinct (map (\<lambda>v. (vlt_user v, vlt_name v))
      (sql_update (\<lambda>w. vlt_id w = i) (\<lambda>_. set_vault_fields u t (ce_now env) v) (db_vaults db)))"
  proof (rule distinct_map_update [OF D(2)])
    show "v \<in> set (db_vaults db)" using vi by simp
    show "vlt_id w = i \<longleftrightarrow> w = v" if "w \<in> set (db_vaults db)" for w using p [OF that] .
    show "(vlt_user w, vlt_name w) \<noteq> (\<lambda>v. (vlt_user v, vlt_name v)) (set_vault_fields u t (ce_now env) v)"
      if "w \<in> set (db_vaults db)" "w \<noteq> v" for w
      using free that p [OF that(1)] by (simp add: vault_keys_free_def list_all_iff)
  qed
  moreover have "\<exists>v\<in>set (db_vaults db'). vlt_id v = vt_vault t \<and> vlt_user v = vt_user t" if "t \<in> set (db_vault_transactions db)" for t
    using D(4) [OF that] p unfolding db' by (fastforce simp: set_sql_update)
  ultimately show ?thesis using D unfolding vault_books_def by (auto simp: db' set_sql_update p)
qed (use assms in simp)

lemma decimal_number_positive: "js_lt (Fin 0) (decimal_number n) \<longleftrightarrow> 0 < n"
proof
  assume "0 < n"
  then have "js_le (decimal_number 1) (decimal_number n)"
    unfolding decimal_number_def by (intro num_mono divide_right_mono) simp_all
  moreover have "js_lt (decimal_number 0) (decimal_number 1)" by (simp add: decimal_number_less in_range_def del: decimal_number_zero)
  ultimately show "js_lt (Fin 0) (decimal_number n)" using js_lt_le_trans by simp
next
  assume a: "js_lt (Fin 0) (decimal_number n)"
  show "0 < n"
  proof (rule ccontr)
    assume "\<not> 0 < n"
    then have "js_le (decimal_number n) (decimal_number 0)"
      unfolding decimal_number_def by (intro num_mono divide_right_mono) simp_all
    then show False using a js_le_lt_trans js_lt_irrefl by fastforce
  qed
qed

lemma delete_books:
  assumes "vault_books db" "delete_vault i db = Inr (b, db')"
  shows "vault_books db'"
proof (cases "findById i db")
  case (Some v)
  note D = vault_booksD [OF assms(1)]
  have "vlt_balance v = 0"
    using assms(2) Some D(3) findById_SomeD [OF Some] by (force simp: delete_vault_def decimal_number_positive split: if_splits)
  moreover have db': "db' = db\<lparr>db_vaults := filter (\<lambda>w. vlt_id w \<noteq> i) (db_vaults db),
      db_vault_transactions := filter (\<lambda>t. vt_vault t \<noteq> i) (db_vault_transactions db)\<rparr>"
    using assms(2) Some by (auto simp: delete_vault_def split: if_splits)
  moreover have "findById j db' = (if j = i then None else findById j db)" for j
    unfolding db' findById_def by (simp add: find_key_delete)
  ultimately have "balance_of j db' = balance_of j db" "net_records j db' = (if j = i then 0 else net_records j db)" for j
    using Some by (simp_all add: balance_of_def net_records_def filter_key_delete del: filter_filter)
  moreover have "balance_of i db = 0" using Some \<open>vlt_balance v = 0\<close> by (simp add: balance_of_def)
  moreover have "\<exists>v\<in>set (db_vaults db'). vlt_id v = vt_vault t \<and> vlt_user v = vt_user t" if "t \<in> set (db_vault_transactions db')" for t
    using D(4) [of t] that by (fastforce simp: db')
  ultimately show ?thesis using D unfolding vault_books_def by (auto simp: db' distinct_map_filter)
qed (use assms in \<open>simp add: delete_vault_def\<close>)

lemma after_transfer_nets:
  "net_records i (after_transfer env v data db) = net_records i db +
     (if i = vti_vault data then moved (vti_type data) (amount_units (vti_amount data)) else 0)"
  "net_main i (after_transfer env v data db) = net_main i db -
     (if i = vti_vault data then moved (vti_type data) (amount_units (vti_amount data)) else 0)"
  "main_balance u (after_transfer env v data db) = main_balance u db"
  by (auto simp: net_records_def net_main_def main_balance_def after_transfer_def transfer_row_def main_effect_def moved_def
      split: transfer_type.splits)

lemma findById_after_transfer:
  assumes "findById (vti_vault data) db = Some v"
  shows "findById i (after_transfer env v data db) =
    (if i = vti_vault data
     then Some (v\<lparr>vlt_balance := vlt_balance v + moved (vti_type data) (amount_units (vti_amount data)), vlt_updated := ce_now env\<rparr>)
     else findById i db)"
  using assms by (simp add: findById_def after_transfer_def find_key_update)

lemma after_transfer_books:
  assumes "vault_books db" "findById (vti_vault data) db = Some v" "vlt_user v = vti_user data"
    "0 \<le> vlt_balance v + moved (vti_type data) (amount_units (vti_amount data))"
  shows "vault_books (after_transfer env v data db)"
proof -
  note D = vault_booksD [OF assms(1)]
  let ?db = "after_transfer env v data db"
  have "balance_of i ?db = balance_of i db + (if i = vti_vault data then moved (vti_type data) (amount_units (vti_amount data)) else 0)" for i
    by (simp add: balance_of_def findById_after_transfer [OF assms(2)] assms(2))
  moreover have "map vlt_id (db_vaults ?db) = map vlt_id (db_vaults db)"
    "map (\<lambda>v. (vlt_user v, vlt_name v)) (db_vaults ?db) = map (\<lambda>v. (vlt_user v, vlt_name v)) (db_vaults db)"
    by (simp_all add: after_transfer_def map_sql_update)
  moreover have "\<exists>v\<in>set (db_vaults ?db). vlt_id v = vt_vault t \<and> vlt_user v = vt_user t" if t: "t \<in> set (db_vault_transactions ?db)" for t
  proof -
    have m: "map (\<lambda>v. (vlt_id v, vlt_user v)) (db_vaults ?db) = map (\<lambda>v. (vlt_id v, vlt_user v)) (db_vaults db)"
      by (simp add: after_transfer_def map_sql_update)
    have "(vt_vault t, vt_user t) \<in> set (map (\<lambda>v. (vlt_id v, vlt_user v)) (db_vaults ?db))"
      unfolding m using t D(4) [of t] findById_SomeD [OF assms(2)] assms(3) by (force simp: after_transfer_def)
    then show ?thesis by auto
  qed
  ultimately show ?thesis using D assms(4) unfolding vault_books_def after_transfer_nets
    by (auto simp: after_transfer_def set_sql_update)
qed

lemma transfer_outcome:
  assumes "vault_books db" "transfer_statements env data db = Inr (t, db')" "0 < amount_units (vti_amount data)"
    "balance_of (vti_vault data) db + amount_units (vti_amount data) < 10 ^ 15"
  obtains v where "findById (vti_vault data) db = Some v" "vlt_user v = vti_user data" "db' = after_transfer env v data db"
    "0 \<le> vlt_balance v + moved (vti_type data) (amount_units (vti_amount data))"
proof -
  note D = vault_booksD [OF assms(1)]
  obtain v where v: "find (\<lambda>v. vlt_id v = vti_vault data \<and> vlt_user v = vti_user data) (db_vaults db) = Some v"
    using assms(2) by (auto simp: transfer_statements_def split: option.splits)
  then have vi: "v \<in> set (db_vaults db)" "vlt_id v = vti_vault data" "vlt_user v = vti_user data" by (auto dest: find_SomeD)
  have f: "findById (vti_vault data) db = Some v" using findById_unique [OF D(1) vi(1)] vi(2) by simp
  have "vlt_balance v + amount_units (vti_amount data) < 10 ^ 15" using assms(4) f by (simp add: balance_of_def)
  then have "transfer_spec env v data db = Inr db'"
    using transfer_exactly [OF f vi(3) D(3) [OF vi(1)] assms(3), of env, symmetric] assms(2) by simp
  then show thesis using that [OF f vi(3)] D(3) [OF vi(1)] assms(3)
    by (auto simp: transfer_spec_def moved_def Let_def split: if_splits transfer_type.splits)
qed

lemma transfer_books:
  assumes "vault_books db" "transfer_statements env data db = Inr (t, db')" "0 < amount_units (vti_amount data)"
    "balance_of (vti_vault data) db + amount_units (vti_amount data) < 10 ^ 15"
  shows "vault_books db'"
  using transfer_outcome [OF assms] after_transfer_books [OF assms(1)] by metis

section \<open>Requests\<close>

datatype vault_request =
    CreateReq vault_body
  | ListReq string
  | SummaryReq
  | GetReq id
  | UpdateReq id vault_body
  | DeleteReq id
  | TransferReq id vault_body
  | PageReq id "int option" "int option"

fun handle :: "call_env \<Rightarrow> id option \<Rightarrow> vault_request \<Rightarrow> vault_db \<Rightarrow> vault_reply" where
  "handle env user (CreateReq b) db = createVault env user b db"
| "handle env user (ListReq s) db = getUserVaults user s db"
| "handle env user SummaryReq db = getUserBalanceSummary user db"
| "handle env user (GetReq i) db = getVaultById user i db"
| "handle env user (UpdateReq i b) db = updateVault env user i b db"
| "handle env user (DeleteReq i) db = deleteVault user i db"
| "handle env user (TransferReq i b) db = transferFunds env user i b db"
| "handle env user (PageReq i l k) db = getVaultTransactions user i l k db"

fun request_in_range :: "vault_request \<Rightarrow> vault_db \<Rightarrow> bool" where
  \<comment> \<open>a transfer whose amount and balance together stay below a hundred million; the columns hold more, but there
    binary fractions no longer tell neighbouring amounts apart\<close>
  "request_in_range (TransferReq i b) db = (case body_amount b of
     JString s \<Rightarrow> balance_of i db + amount_units s < 10 ^ 15
   | _ \<Rightarrow> True)"
| "request_in_range _ db = True"

text \<open>What a request does to the tables: nothing, or one operation of the model.\<close>

inductive model_op :: "call_env \<Rightarrow> id \<Rightarrow> vault_request \<Rightarrow> vault_db \<Rightarrow> vault_db \<Rightarrow> bool" for env u where
  op_create: "createVaultSchema u b = Some data \<Longrightarrow> create_vault env data db = Inr (v, db') \<Longrightarrow>
    model_op env u (CreateReq b) db db'"
| op_update: "findById i db = Some v \<Longrightarrow> vlt_user v = u \<Longrightarrow> update_vault env i data db = Inr (r, db') \<Longrightarrow>
    model_op env u (UpdateReq i b) db db'"
| op_delete: "findById i db = Some v \<Longrightarrow> vlt_user v = u \<Longrightarrow> delete_vault i db = Inr (d, db') \<Longrightarrow>
    model_op env u (DeleteReq i) db db'"
| op_transfer: "transferFundsSchema u i b = Some data \<Longrightarrow> \<not> js_le (parse_amount (vti_amount data)) (Fin 0) \<Longrightarrow>
    findById i db = Some v \<Longrightarrow> vlt_user v = u \<Longrightarrow> transfer_statements env data db = Inr (t, db') \<Longrightarrow>
    model_op env u (TransferReq i b) db db'"

lemma snd_reply [simp]: "snd (reply c a) = snd a"
  by (auto simp: reply_def split: prod.splits sum.splits)

lemma owned_vault_Inr: "owned_vault m d u i db = Inr v \<longleftrightarrow> findById i db = Some v \<and> vlt_user v = u"
  by (auto simp: owned_vault_def split: option.splits)

lemma handle_effect:
  assumes "snd (handle env user r db) \<noteq> db"
  shows "\<exists>u. user = Some u \<and> model_op env u r db (snd (handle env user r db))"
proof (cases r)
  case (CreateReq b)
  with assms show ?thesis
    by (auto simp: createVault_def split: option.splits if_splits sum.splits intro: op_create)
next
  case (UpdateReq i b)
  let ?db = "snd (handle env user r db)"
  obtain u data v res where "user = Some u" "owned_vault RESOURCE_NOT_FOUND INSUFFICIENT_PERMISSIONS u i db = Inr v"
    "update_vault env i data db = Inr (res, ?db)"
    using assms unfolding UpdateReq handle.simps updateVault_def snd_reply
    by (force split: option.splits if_split_asm sum.splits prod.splits)
  then show ?thesis using UpdateReq owned_vault_Inr op_update by metis
next
  case (DeleteReq i)
  with assms show ?thesis
    by (auto simp: deleteVault_def owned_vault_def split: option.splits if_splits sum.splits intro: op_delete)
next
  case (TransferReq i b)
  with assms show ?thesis
    by (auto simp: transferFunds_def owned_vault_def withLock_def transfer_funds_def Let_def
        split: option.splits if_splits sum.splits lock_outcome.splits intro: op_transfer)
qed (use assms in \<open>auto simp: getUserVaults_def getUserBalanceSummary_def getVaultById_def getVaultTransactions_def Let_def
    split: option.splits sum.splits\<close>)

section \<open>Runs\<close>

inductive vault_step :: "vault_db \<Rightarrow> vault_db \<Rightarrow> bool" where
  request: "request_in_range r db \<Longrightarrow> vault_step db (snd (handle env user r db))"
| elsewhere: \<comment> \<open>the rest of the program writes transactions that belong to no vault\<close>
  "filter (\<lambda>t. mr_vault t \<noteq> None) ts = filter (\<lambda>t. mr_vault t \<noteq> None) (db_transactions db) \<Longrightarrow>
   vault_step db (db\<lparr>db_transactions := ts\<rparr>)"

definition empty_vault_db :: vault_db where
  "empty_vault_db = \<lparr>db_vaults = [], db_vault_transactions = [], db_transactions = []\<rparr>"

lemma schema_fields:
  assumes "transferFundsSchema u i b = Some data"
  shows "vti_vault data = i" "vti_user data = u" "\<exists>s. body_amount b = JString s \<and> vti_amount data = s \<and> AMOUNT_FORMAT s"
  using assms by (auto simp: transferFundsSchema_def zod_optional_def Let_def split: option.splits jsval.splits if_splits)

lemma parse_amount_positive: "\<not> js_le (parse_amount s) (Fin 0) \<longleftrightarrow> 0 < amount_units s"
proof -
  have "\<not> js_le (parse_amount s) (Fin 0) \<longleftrightarrow> js_lt (Fin 0) (parse_amount s)"
    by (simp add: parse_amount_def decimal_number_def js_not_lt [symmetric])
  then show ?thesis by (simp add: parse_amount_def decimal_number_positive)
qed

lemma model_op_books:
  assumes "model_op env u r db db'" "vault_books db" "request_in_range r db"
  shows "vault_books db'"
  using assms
proof (cases rule: model_op.cases)
  case (op_transfer i b data v t)
  then show ?thesis using transfer_books [OF assms(2)] assms(3) schema_fields [OF op_transfer(2)]
    by (auto simp: parse_amount_positive)
qed (auto intro: create_books update_books delete_books)

lemma net_main_elsewhere:
  assumes "filter (\<lambda>t. mr_vault t \<noteq> None) ts = filter (\<lambda>t. mr_vault t \<noteq> None) (db_transactions db)"
  shows "net_main i (db\<lparr>db_transactions := ts\<rparr>) = net_main i db"
proof -
  have "filter (\<lambda>t. mr_vault t = Some i) ts = filter (\<lambda>t. mr_vault t = Some i) (filter (\<lambda>t. mr_vault t \<noteq> None) ts)" for ts
    by (auto intro: filter_cong)
  then have "filter (\<lambda>t. mr_vault t = Some i) ts = filter (\<lambda>t. mr_vault t = Some i) (db_transactions db)" using assms by metis
  then show ?thesis by (simp add: net_main_def)
qed

lemma vault_step_books: "vault_step db db' \<Longrightarrow> vault_books db \<Longrightarrow> vault_books db'"
proof (induction rule: vault_step.induct)
  case (request r db env user)
  then show ?case using handle_effect [of env user r db] model_op_books by (cases "snd (handle env user r db) = db") auto
next
  case (elsewhere ts db)
  then show ?case using net_main_elsewhere [OF elsewhere(1)]
    by (simp add: vault_books_def net_records_def balance_of_def findById_def)
qed

lemma vault_runs_books: "vault_step\<^sup>*\<^sup>* db db' \<Longrightarrow> vault_books db \<Longrightarrow> vault_books db'"
  by (induction rule: rtranclp_induct) (auto intro: vault_step_books)

lemma empty_vault_books: "vault_books empty_vault_db"
  by (simp add: vault_books_def empty_vault_db_def net_records_def net_main_def balance_of_def findById_def)

section \<open>Isolation\<close>

definition others :: "id \<Rightarrow> vault_db \<Rightarrow> Vault list \<times> VaultTransaction list \<times> main_row list" where
  "others u db = (filter (\<lambda>v. vlt_user v \<noteq> u) (db_vaults db), filter (\<lambda>t. vt_user t \<noteq> u) (db_vault_transactions db),
     filter (\<lambda>t. mr_user t \<noteq> Some u) (db_transactions db))"

fun shown_owners :: "vault_response \<Rightarrow> id list" where
  \<comment> \<open>whose rows a response shows\<close>
  "shown_owners (VaultCreated v) = [vlt_user v]"
| "shown_owners (VaultList vs) = map vlt_user vs"
| "shown_owners (VaultDetails v) = [vlt_user v]"
| "shown_owners (VaultUpdated r) = (case r of Some v \<Rightarrow> [vlt_user v] | None \<Rightarrow> [])"
| "shown_owners VaultDeleted = []"
| "shown_owners (TransferDone r t) = (case r of Some v \<Rightarrow> [vlt_user v] | None \<Rightarrow> []) @ [vt_user t]"
| "shown_owners (TransactionPage ts _ _ _) = map vt_user ts"
| "shown_owners (BalanceSummary s) = []"

lemma transfer_row_simps [simp]:
  "mr_reference (transfer_row env v data) = vault_reference env" "mr_user (transfer_row env v data) = Some (vti_user data)"
  "mr_vault (transfer_row env v data) = Some (vti_vault data)" "mr_amount (transfer_row env v data) = amount_units (vti_amount data)"
  "mr_status (transfer_row env v data) = Completed"
  by (simp_all add: transfer_row_def)

lemma transfer_statements_Inr:
  assumes "transfer_statements env data db = Inr (t, db')"
  shows "\<exists>v b. find (\<lambda>v. vlt_id v = vti_vault data \<and> vlt_user v = vti_user data) (db_vaults db) = Some v \<and>
    db' = db\<lparr>db_vaults := sql_update (\<lambda>w. vlt_id w = vti_vault data) (\<lambda>w. w\<lparr>vlt_balance := b, vlt_updated := ce_now env\<rparr>) (db_vaults db),
      db_vault_transactions := db_vault_transactions db @ [t], db_transactions := db_transactions db @ [transfer_row env v data]\<rparr> \<and>
    vt_user t = vti_user data \<and> vt_vault t = vti_vault data \<and> length (vault_reference env) \<le> 25"
  using assms by (auto simp: transfer_statements_def updateBalance_def createVaultTransaction_def insert_main_row_def Let_def
      split: option.splits if_splits sum.splits)

lemma same_owner:
  assumes "vault_books db" "findById i db = Some v" "w \<in> set (db_vaults db)" "vlt_id w = i"
  shows "w = v"
  using findById_unique [OF vault_booksD(1) [OF assms(1)] assms(3)] assms(2,4) by simp

lemma record_owner:
  assumes "vault_books db" "findById i db = Some v" "t \<in> set (db_vault_transactions db)" "vt_vault t = i"
  shows "vt_user t = vlt_user v"
  using vault_booksD(4) [OF assms(1,3)] same_owner [OF assms(1,2)] assms(4) by metis

lemma model_op_others:
  assumes "model_op env u r db db'" "vault_books db"
  shows "others u db' = others u db"
  using assms
proof (cases rule: model_op.cases)
  case (op_create b data v)
  then have "vlt_user v = u" "db' = db\<lparr>db_vaults := db_vaults db @ [v]\<rparr>"
    by (auto simp: create_vault_def createVaultSchema_def Let_def split: if_splits sum.splits option.splits)
  then show ?thesis by (simp add: others_def)
next
  case (op_update i v data res b)
  show ?thesis
  proof (cases "db' = db")
    case False
    then obtain t where "db' = db\<lparr>db_vaults := sql_update (\<lambda>w. vlt_id w = i) (\<lambda>_. set_vault_fields data t (ce_now env) v) (db_vaults db)\<rparr>"
      using op_update by (auto simp: update_vault_def Let_def split: if_splits sum.splits)
    then show ?thesis using op_update same_owner [OF assms(2)] by (auto simp: others_def intro!: filter_sql_update)
  qed simp
next
  case (op_delete i v d)
  then have db': "db' = db\<lparr>db_vaults := filter (\<lambda>w. vlt_id w \<noteq> i) (db_vaults db),
      db_vault_transactions := filter (\<lambda>t. vt_vault t \<noteq> i) (db_vault_transactions db)\<rparr>"
    by (auto simp: delete_vault_def split: if_splits)
  have "vlt_id w \<noteq> i" if "w \<in> set (db_vaults db)" "vlt_user w \<noteq> u" for w
    using same_owner [OF assms(2) op_delete(2) that(1)] that(2) op_delete(3) by auto
  moreover have "vt_vault t \<noteq> i" if "t \<in> set (db_vault_transactions db)" "vt_user t \<noteq> u" for t
    using record_owner [OF assms(2) op_delete(2) that(1)] that(2) op_delete(3) by auto
  ultimately show ?thesis unfolding db' by (simp add: others_def filter_drop_unseen del: filter_filter)
next
  case (op_transfer i b data v t)
  then show ?thesis using transfer_statements_Inr [OF op_transfer(6)] schema_fields [OF op_transfer(2)] same_owner [OF assms(2) op_transfer(4)]
    by (fastforce simp: others_def intro!: filter_sql_update)
qed

lemma reply_Inr: "fst (reply c a) = Inr x \<longleftrightarrow> fst a = Inr x"
  by (auto simp: reply_def split: prod.splits sum.splits)

lemma transferFunds_Inr:
  assumes "fst (transferFunds env (Some u) i b db) = Inr resp"
  shows "\<exists>data v t db'. transferFundsSchema u i b = Some data \<and> findById i db = Some v \<and> vlt_user v = u \<and>
    transfer_statements env data db = Inr (t, db') \<and> resp = TransferDone (findById (vti_vault data) db') t"
  using assms by (auto simp: transferFunds_def reply_Inr owned_vault_def withLock_def transfer_funds_def Let_def
      split: if_splits sum.splits option.splits prod.splits lock_outcome.splits)

lemma handle_shows_own:
  assumes "vault_books db" "fst (handle env (Some u) r db) = Inr resp"
  shows "set (shown_owners resp) \<subseteq> {u}"
proof (cases r)
  case (CreateReq b)
  then show ?thesis using assms(2)
    by (auto simp: createVault_def reply_Inr create_vault_def createVaultSchema_def Let_def split: if_splits sum.splits option.splits)
next
  case (UpdateReq i b)
  then show ?thesis using assms(2)
    by (auto simp: updateVault_def reply_Inr update_vault_def owned_vault_def Let_def split: if_splits sum.splits option.splits)
next
  case (TransferReq i b)
  then obtain data v t db' where d: "transferFundsSchema u i b = Some data" "findById i db = Some v" "vlt_user v = u"
    "transfer_statements env data db = Inr (t, db')" "resp = TransferDone (findById (vti_vault data) db') t"
    using assms(2) transferFunds_Inr [of env u i b db resp] by force
  from transfer_statements_Inr [OF d(4)] schema_fields [OF d(1)] d(2,3,5) show ?thesis
    by (auto simp: findById_def find_key_update)
next
  case (PageReq i l k)
  then obtain v ts l' k' h where "findById i db = Some v" "vlt_user v = u" "resp = TransactionPage (list_vault_transactions i l' k' db) l' k' h"
    using assms(2) by (auto simp: getVaultTransactions_def reply_Inr owned_vault_def Let_def split: if_splits sum.splits option.splits)
  moreover have "set (list_vault_transactions i l' k' db) \<subseteq> {t \<in> set (db_vault_transactions db). vt_vault t = i}"
    by (auto simp: list_vault_transactions_def page_window_def Let_def dest!: in_set_takeD in_set_dropD)
  ultimately show ?thesis using record_owner [OF assms(1)] by auto
qed (use assms(2) in \<open>auto simp: getUserVaults_def getUserBalanceSummary_def getVaultById_def deleteVault_def findByUserId_def
    reply_Inr owned_vault_def split: if_splits sum.splits option.splits\<close>)

section \<open>What a customer owns\<close>

definition user_total :: "id \<Rightarrow> vault_db \<Rightarrow> int" where
  "user_total u db = main_balance u db + sum_list (map vlt_balance (filter (\<lambda>v. vlt_user v = u) (db_vaults db)))"

lemma user_total_after_transfer:
  assumes "vault_books db" "findById (vti_vault data) db = Some v" "vlt_user v = vti_user data"
  shows "user_total (vti_user data) (after_transfer env v data db) =
    user_total (vti_user data) db + moved (vti_type data) (amount_units (vti_amount data))"
proof -
  have "v \<in> set (db_vaults db)" "vlt_id v = vti_vault data" using findById_SomeD [OF assms(2)] by simp_all
  with sum_sql_update [OF vault_booksD(1) [OF assms(1)], of v] assms(3) show ?thesis
    unfolding user_total_def after_transfer_nets by (simp add: after_transfer_def sum_list_map_filter')
qed

lemma vault_reference_length:
  assumes "10 ^ 12 \<le> ce_now env"
  shows "20 + length (ce_random env) \<le> length (vault_reference env)"
proof -
  have "10 ^ 12 \<le> nat (ce_now env)" using assms by (simp add: le_nat_iff)
  from nat_str_length [OF this] show ?thesis by (simp add: vault_reference_def)
qed

section \<open>A customer with one vault\<close>

definition demo_env :: "id \<Rightarrow> call_env" where
  "demo_env i = \<lparr>ce_uuid = i, ce_now = 1000, ce_random = ''k3f'', ce_lock = LockAcquired, ce_release_ok = True\<rparr>"

definition demo_body :: vault_body where
  "demo_body = \<lparr>body_name = JString ''Trip'', body_description = JUndefined, body_target = JUndefined, body_active = JUndefined,
     body_amount = JString ''100'', body_type = JString ''deposit''\<rparr>"

definition demo_income :: main_row where
  "demo_income = \<lparr>mr_reference = ''TXN-1'', mr_type = Deposit, mr_amount = 10 ^ 9, mr_phone = ''237'', mr_provider = ''mtn'',
     mr_stellar = ''G'', mr_status = Completed, mr_user = Some ''u'', mr_vault = None, mr_notes = None\<rparr>"

definition demo_vault_db :: vault_db where
  \<comment> \<open>a completed deposit of 100 and an empty vault\<close>
  "demo_vault_db = (snd (handle (demo_env ''v'') (Some ''u'') (CreateReq demo_body) empty_vault_db))\<lparr>db_transactions := [demo_income]\<rparr>"

definition demo_transfer :: VaultTransferInput where
  "demo_transfer = \<lparr>vti_vault = ''v'', vti_user = ''u'', vti_type = Deposit, vti_amount = ''100'', vti_description = None, vti_reference = None\<rparr>"

definition demo_deposit :: "id \<Rightarrow> vault_db \<Rightarrow> vault_db" where
  "demo_deposit i db = snd (transfer_funds (demo_env i) demo_transfer db)"

lemma demo_vault_db_runs: "vault_step\<^sup>*\<^sup>* empty_vault_db demo_vault_db"
proof -
  let ?db = "snd (handle (demo_env ''v'') (Some ''u'') (CreateReq demo_body) empty_vault_db)"
  have "vault_step empty_vault_db ?db" by (rule vault_step.request) simp
  moreover have "db_transactions ?db = []" by code_simp
  then have "vault_step ?db demo_vault_db" unfolding demo_vault_db_def by (intro vault_step.elsewhere) (simp add: demo_income_def)
  ultimately show ?thesis by (meson converse_rtranclp_into_rtranclp rtranclp.rtrancl_refl)
qed

section \<open>Theorems\<close>



text \<open>
  A request of one user neither changes nor shows the rows of another.
\<close>

theorem vault_isolation:
  assumes "vault_step\<^sup>*\<^sup>* empty_vault_db db"
  shows "others u (snd (handle env (Some u) r db)) = others u db \<and>
    (\<forall>resp. fst (handle env (Some u) r db) = Inr resp \<longrightarrow> set (shown_owners resp) \<subseteq> {u})"
proof -
  note b = vault_runs_books [OF assms empty_vault_books]
  have "others u (snd (handle env (Some u) r db)) = others u db"
    using handle_effect [of env "Some u" r db] model_op_others [OF _ b] by (cases "snd (handle env (Some u) r db) = db") auto
  then show ?thesis using handle_shows_own [OF b] by blast
qed

theorem vault_isolation_witness:
  "others ''w'' (snd (handle (demo_env ''t'') (Some ''w'') (DeleteReq ''v'') demo_vault_db)) = others ''w'' demo_vault_db \<and>
   findById ''v'' (snd (handle (demo_env ''t'') (Some ''w'') (DeleteReq ''v'') demo_vault_db)) \<noteq> None"
  using vault_isolation [OF demo_vault_db_runs, of "''w''" "demo_env ''t''" "DeleteReq ''v''"] by (rule conjI [OF conjunct1]) code_simp

text \<open>
  A transfer creates or destroys money. The main balance is the sum over the transactions without a
  vault, while the entry that a transfer writes to offset the vault carries the vault: a transfer
  into a vault raises what the customer owns by its amount and leaves the main balance as it was,
  so that it can be repeated, and a transfer back only lowers it.
\<close>

theorem vault_transfer_creates_money:
  assumes "vault_step\<^sup>*\<^sup>* empty_vault_db db" "transfer_funds env data db = (Inr r, db')"
    "0 < amount_units (vti_amount data)" "balance_of (vti_vault data) db + amount_units (vti_amount data) < 10 ^ 15"
  shows "main_balance (vti_user data) db' = main_balance (vti_user data) db \<and>
    user_total (vti_user data) db' = user_total (vti_user data) db + moved (vti_type data) (amount_units (vti_amount data))"
proof -
  note b = vault_runs_books [OF assms(1) empty_vault_books]
  obtain t where "transfer_statements env data db = Inr (t, db')"
    using assms(2) by (auto simp: transfer_funds_def split: sum.splits)
  from transfer_outcome [OF b this assms(3,4)] obtain v where v: "findById (vti_vault data) db = Some v" "vlt_user v = vti_user data"
    and db': "db' = after_transfer env v data db" by metis
  show ?thesis unfolding db' using user_total_after_transfer [OF b v] by (simp add: after_transfer_nets)
qed

theorem vault_transfer_creates_money_witness:
  "main_balance ''u'' (demo_deposit ''t1'' demo_vault_db) = main_balance ''u'' demo_vault_db \<and>
   user_total ''u'' (demo_deposit ''t1'' demo_vault_db) = user_total ''u'' demo_vault_db + 10 ^ 9 \<and>
   user_total ''u'' (demo_deposit ''t2'' (demo_deposit ''t1'' demo_vault_db)) = 3 * 10 ^ 9"
proof -
  have "\<not> isl (fst (transfer_funds (demo_env ''t1'') demo_transfer demo_vault_db))" by code_simp
  then obtain r where r: "transfer_funds (demo_env ''t1'') demo_transfer demo_vault_db = (Inr r, demo_deposit ''t1'' demo_vault_db)"
    unfolding demo_deposit_def by (metis prod.collapse sum.collapse(2))
  have d: "amount_units (vti_amount demo_transfer) = 10 ^ 9" "vti_user demo_transfer = ''u''" "vti_type demo_transfer = Deposit"
    "balance_of (vti_vault demo_transfer) demo_vault_db = 0" by code_simp+
  have "user_total ''u'' (demo_deposit ''t2'' (demo_deposit ''t1'' demo_vault_db)) = 3 * 10 ^ 9" by code_simp
  with vault_transfer_creates_money [OF demo_vault_db_runs r] show ?thesis unfolding d by (simp add: moved_def)
qed

text \<open>
  As the tables are declared, a transfer cannot be recorded: its reference number has twenty characters
  before the random part, and the column holds twenty-five. Every transfer whose random part has
  six characters or more is rolled back, whatever the request.
\<close>

theorem vault_transfer_rolled_back:
  assumes "10 ^ 12 \<le> ce_now env" "6 \<le> length (ce_random env)"
  shows "snd (transferFunds env user i b db) = db \<and> isl (fst (transferFunds env user i b db))"
proof -
  have long: "transfer_statements env data db \<noteq> Inr x" for data x
    using transfer_statements_Inr [of env data db "fst x" "snd x"] vault_reference_length [OF assms(1)] assms(2) by auto
  have "snd (transferFunds env user i b db) = db"
    using handle_effect [of env user "TransferReq i b" db] long by (auto elim: model_op.cases)
  moreover have "isl (fst (transferFunds env user i b db))"
  proof (cases user)
    case (Some u)
    then show ?thesis using long transferFunds_Inr [of env u i b db "projr (fst (transferFunds env user i b db))"]
      by (cases "fst (transferFunds env user i b db)") auto
  qed (simp add: transferFunds_def reply_def)
  ultimately show ?thesis ..
qed

theorem vault_transfer_rolled_back_witness:
  "snd (transferFunds ((demo_env ''t1'')\<lparr>ce_now := 1760000000000, ce_random := ''x7k2m9q4a''\<rparr>) (Some ''u'') ''v'' demo_body demo_vault_db) =
   demo_vault_db"
  using vault_transfer_rolled_back [of "(demo_env ''t1'')\<lparr>ce_now := 1760000000000, ce_random := ''x7k2m9q4a''\<rparr>" "Some ''u''" "''v''"
    demo_body demo_vault_db] by simp

text \<open>
  Errors of the handlers lose their meaning: a missing vault, one of another user and a
  missing login are answered with status 500, because the handlers catch the errors they throw.
\<close>

theorem vault_errors_masked:
  assumes "fst (handle env user r db) = Inl (code, AppError cause)"
  shows "getHttpStatus code = 500"
  using assms by (cases r) (auto simp: createVault_def updateVault_def deleteVault_def transferFunds_def getUserVaults_def
    getUserBalanceSummary_def getVaultById_def getVaultTransactions_def reply_def catch_zod_def catch_transfer_def owned_vault_def Let_def
    split: prod.splits sum.splits option.splits if_splits)

theorem vault_errors_masked_witness:
  "fst (handle (demo_env ''t'') (Some ''u'') (GetReq ''x'') demo_vault_db) = Inl (INTERNAL_ERROR, AppError NOT_FOUND) \<and>
   getHttpStatus INTERNAL_ERROR = 500 \<and> getHttpStatus NOT_FOUND = 404"
proof -
  have "fst (handle (demo_env ''t'') (Some ''u'') (GetReq ''x'') demo_vault_db) = Inl (INTERNAL_ERROR, AppError NOT_FOUND)" by code_simp
  from this vault_errors_masked [OF this] show ?thesis by simp
qed

end
