(* ===== verification/Redis_Client.thy ===== *)
theory Redis_Client
  imports Prelude
begin

text \<open>
  The counters the program keeps in Redis. The server is not part of the program: its commands are
  a parameter \<open>redis_ops\<close> of every definition that uses it, each executed at a time, and the locale
  \<open>redis_client\<close> states what the documentation of the commands promises about the entries, which
  \<open>view\<close> reads. A value is an integer; an entry may expire. \<open>memory_redis\<close> keeps the entries in a
  map; it satisfies the laws.
\<close>

type_synonym redis_entry = "int \<times> millis option"

record 's redis_ops =
  r_get :: "millis \<Rightarrow> string \<Rightarrow> 's \<Rightarrow> int option"
  r_incr :: "millis \<Rightarrow> string \<Rightarrow> 's \<Rightarrow> int \<times> 's"
  r_expire :: "millis \<Rightarrow> string \<Rightarrow> int \<Rightarrow> 's \<Rightarrow> 's"
  r_set_nx :: "millis \<Rightarrow> string \<Rightarrow> int \<Rightarrow> 's \<Rightarrow> 's" \<comment> \<open>\<^verbatim>\<open>SET key 1 EX seconds NX\<close>\<close>
  r_del :: "millis \<Rightarrow> string list \<Rightarrow> 's \<Rightarrow> nat \<times> 's"
  r_ttl :: "millis \<Rightarrow> string \<Rightarrow> 's \<Rightarrow> int"

record link =
  \<comment> \<open>the connection during one call: whether it is open, and which of its commands throw\<close>
  ln_open :: bool
  ln_throws :: "nat \<Rightarrow> bool"

definition link_up :: link where
  "link_up = \<lparr>ln_open = True, ln_throws = (\<lambda>_. False)\<rparr>"

fun alive :: "millis \<Rightarrow> redis_entry option \<Rightarrow> bool" where
  "alive now None \<longleftrightarrow> False"
| "alive now (Some (v, None)) \<longleftrightarrow> True"
| "alive now (Some (v, Some e)) \<longleftrightarrow> now \<le> e"

definition live_value :: "millis \<Rightarrow> redis_entry option \<Rightarrow> int option" where
  "live_value now x = (if alive now x then map_option fst x else None)"

definition after_incr :: "millis \<Rightarrow> redis_entry option \<Rightarrow> redis_entry" where
  "after_incr now x = (if alive now x then (fst (the x) + 1, snd (the x)) else (1, None))"

lemma alive_later: "\<not> alive t x \<Longrightarrow> t \<le> t' \<Longrightarrow> \<not> alive t' x"
  by (cases "(t, x)" rule: alive.cases) auto

section \<open>The documented commands\<close>

locale redis_client =
  fixes R :: "'s redis_ops" and view :: "'s \<Rightarrow> string \<Rightarrow> redis_entry option"
  assumes get_law: "r_get R now k s = live_value now (view s k)"
    and incr_result: "fst (r_incr R now k s) = fst (after_incr now (view s k))"
    and incr_entries: "view (snd (r_incr R now k s)) = (view s)(k \<mapsto> after_incr now (view s k))"
    and expire_entries: "view (r_expire R now k secs s) =
      (if alive now (view s k) then (view s)(k \<mapsto> (fst (the (view s k)), Some (now + secs * 1000))) else view s)"
    and set_entries: "view (r_set_nx R now k secs s) =
      (if alive now (view s k) then view s else (view s)(k \<mapsto> (1, Some (now + secs * 1000))))"
    and del_result: "fst (r_del R now ks s) = length (filter (\<lambda>k. alive now (view s k)) (remdups ks))"
    and del_entries: "view (snd (r_del R now ks s)) = (\<lambda>k. if k \<in> set ks then None else view s k)"
    and ttl_entry: "view s k = view s' k \<Longrightarrow> r_ttl R now k s = r_ttl R now k s'"
    and ttl_none: "\<not> alive now (view s k) \<Longrightarrow> r_ttl R now k s = -2"
    and ttl_forever: "view s k = Some (v, None) \<Longrightarrow> r_ttl R now k s = -1"
    and ttl_seconds: "view s k = Some (v, Some e) \<Longrightarrow> now \<le> e \<Longrightarrow> \<bar>1000 * r_ttl R now k s - (e - now)\<bar> < 1000"
begin

lemmas entries = incr_entries expire_entries set_entries del_entries

lemma ttl_nonneg: "view s k = Some (v, Some e) \<Longrightarrow> now \<le> e \<Longrightarrow> 0 \<le> r_ttl R now k s"
  using ttl_seconds [of s k v e now] by linarith

end

section \<open>A server in memory\<close>

type_synonym memory = "(string \<times> redis_entry) list"

definition put :: "string \<Rightarrow> redis_entry \<Rightarrow> memory \<Rightarrow> memory" where
  "put k x s = (k, x) # filter (\<lambda>p. fst p \<noteq> k) s"

definition memory_redis :: "memory redis_ops" where
  "memory_redis = \<lparr>
     r_get = (\<lambda>now k s. live_value now (map_of s k)),
     r_incr = (\<lambda>now k s. let x = after_incr now (map_of s k) in (fst x, put k x s)),
     r_expire = (\<lambda>now k secs s. if alive now (map_of s k) then put k (fst (the (map_of s k)), Some (now + secs * 1000)) s else s),
     r_set_nx = (\<lambda>now k secs s. if alive now (map_of s k) then s else put k (1, Some (now + secs * 1000)) s),
     r_del = (\<lambda>now ks s. (length (filter (\<lambda>k. alive now (map_of s k)) (remdups ks)), filter (\<lambda>p. fst p \<notin> set ks) s)),
     r_ttl = (\<lambda>now k s. if \<not> alive now (map_of s k) then -2
        else case snd (the (map_of s k)) of None \<Rightarrow> -1 | Some e \<Rightarrow> (e - now + 500) div 1000)\<rparr>"

lemma map_of_filter_key: "map_of (filter (\<lambda>p. P (fst p)) s) k = (if P k then map_of s k else None)"
  by (induction s) auto

lemma map_of_put [simp]: "map_of (put k x s) = (map_of s)(k \<mapsto> x)"
  using map_of_filter_key [of "\<lambda>j. j \<noteq> k" s] by (auto simp: put_def fun_eq_iff)

interpretation memory: redis_client memory_redis map_of
proof unfold_locales
  fix s :: memory and k v e and now :: millis
  assume "map_of s k = Some (v, Some e)" "now \<le> e"
  then have "r_ttl memory_redis now k s = (e - now + 500) div 1000" by (simp add: memory_redis_def)
  moreover have "\<bar>1000 * ((e - now + 500) div 1000) - (e - now)\<bar> < 1000"
    using div_mult_mod_eq [of "e - now + 500" 1000] pos_mod_bound [of 1000 "e - now + 500"] pos_mod_sign [of 1000 "e - now + 500"] by linarith
  ultimately show "\<bar>1000 * r_ttl memory_redis now k s - (e - now)\<bar> < 1000" by simp
qed (auto simp: memory_redis_def Let_def map_of_filter_key [of "\<lambda>k. k \<notin> set ks" for ks])

end
