(* ===== verification/Attempt_Limiter.thy ===== *)
theory Attempt_Limiter
  imports Prelude
begin

text \<open>
  What a lockout promises. Failed attempts are counted in a window that opens with the first of
  them; the attempt that fills the window locks the account for a while. \<open>guard_state\<close> is that
  automaton, and the locale \<open>attempt_limiter\<close> states that an implementation simulates it; its
  theorem bounds the attempts an attacker gets in any stretch of time as long as the window.
\<close>

datatype guard_state = Unguarded | Counting nat millis | LockedSince millis

definition g_blocked :: "int \<Rightarrow> millis \<Rightarrow> guard_state \<Rightarrow> bool" where
  "g_blocked D t g = (case g of LockedSince l \<Rightarrow> t \<le> l + D | _ \<Rightarrow> False)"

definition g_count :: "int \<Rightarrow> millis \<Rightarrow> guard_state \<Rightarrow> nat" where
  "g_count W t g = (case g of Counting n x \<Rightarrow> if t \<le> x + W then n else 0 | _ \<Rightarrow> 0)"

definition g_start :: "int \<Rightarrow> millis \<Rightarrow> guard_state \<Rightarrow> millis" where
  "g_start W t g = (case g of Counting n x \<Rightarrow> if t \<le> x + W then x else t | _ \<Rightarrow> t)"

definition g_fail :: "nat \<Rightarrow> int \<Rightarrow> millis \<Rightarrow> guard_state \<Rightarrow> guard_state" where
  "g_fail M W t g = (if M \<le> g_count W t g + 1 then LockedSince t else Counting (g_count W t g + 1) (g_start W t g))"

section \<open>The automaton\<close>

definition spaced :: "nat \<Rightarrow> int \<Rightarrow> millis list \<Rightarrow> bool" where
  \<comment> \<open>newest first: no window of length \<open>W\<close> holds \<open>2 * M\<close> of the times\<close>
  "spaced M W ts \<longleftrightarrow> (\<forall>i. i + (2 * M - 1) < length ts \<longrightarrow> ts ! (i + (2 * M - 1)) + W < ts ! i)"

definition g_inv :: "nat \<Rightarrow> int \<Rightarrow> millis \<Rightarrow> guard_state \<Rightarrow> millis list \<Rightarrow> bool" where
  "g_inv M W T g adm \<longleftrightarrow> (\<forall>x\<in>set adm. x \<le> T) \<and> (case g of
     Unguarded \<Rightarrow> adm = []
   | Counting n x \<Rightarrow> 1 \<le> n \<and> n < M \<and> x \<le> T \<and> (\<forall>j<length adm. n \<le> j \<longrightarrow> adm ! j \<le> x) \<and>
       (\<forall>j<length adm. n + M - 1 \<le> j \<longrightarrow> adm ! j + W < x)
   | LockedSince l \<Rightarrow> \<forall>x\<in>set adm. x \<le> l)"

lemma g_inv_later: "g_inv M W T g adm \<Longrightarrow> T \<le> T' \<Longrightarrow> g_inv M W T' g adm"
  by (auto simp: g_inv_def split: guard_state.splits)

lemma g_inv_old:
  assumes "g_inv M W T g adm" "T \<le> t" "\<not> g_blocked D t g" "W < D" "1 \<le> M"
    "g_count W t g + M - 1 \<le> j" "j < length adm"
  shows "adm ! j + W < g_start W t g"
proof (cases g)
  case (Counting n x)
  then show ?thesis using assms by (cases "t \<le> x + W") (auto simp: g_inv_def g_count_def g_start_def)
next
  case (LockedSince l)
  then have "adm ! j \<le> l" using assms(1,7) by (simp add: g_inv_def)
  then show ?thesis using LockedSince assms(3,4) by (simp add: g_blocked_def g_start_def)
qed (use assms in \<open>simp add: g_inv_def\<close>)

lemma g_start_le: "g_inv M W T g adm \<Longrightarrow> T \<le> t \<Longrightarrow> g_start W t g \<le> t"
  by (auto simp: g_start_def g_inv_def split: guard_state.splits)

lemma g_count_less: "g_inv M W T g adm \<Longrightarrow> 1 \<le> M \<Longrightarrow> g_count W t g < M"
  by (auto simp: g_count_def g_inv_def split: guard_state.splits)

lemma g_inv_fail:
  assumes "g_inv M W T g adm" "T \<le> t" "\<not> g_blocked D t g" "W < D" "1 \<le> M"
  shows "g_inv M W t (g_fail M W t g) (t # adm)"
proof -
  let ?n = "g_count W t g" and ?x = "g_start W t g"
  note old = g_inv_old [OF assms]
  have le: "x \<le> t" if "x \<in> set adm" for x using assms(1,2) that by (fastforce simp: g_inv_def)
  show ?thesis
  proof (cases "M \<le> ?n + 1")
    case True
    then show ?thesis using le by (auto simp: g_inv_def g_fail_def)
  next
    case False
    have "adm ! j \<le> ?x" if "?n \<le> j" "j < length adm" for j
      using that assms(1) le by (auto simp: g_inv_def g_count_def g_start_def split: guard_state.splits if_splits)
    then show ?thesis using False le old g_start_le [OF assms(1,2)]
      by (auto simp: g_inv_def g_fail_def nth_Cons split: nat.splits)
  qed
qed

lemma spaced_Cons:
  assumes "spaced M W adm" "g_inv M W T g adm" "T \<le> t" "\<not> g_blocked D t g" "W < D" "1 \<le> M"
  shows "spaced M W (t # adm)"
  unfolding spaced_def
proof (intro allI impI)
  fix i assume i: "i + (2 * M - 1) < length (t # adm)"
  show "(t # adm) ! (i + (2 * M - 1)) + W < (t # adm) ! i"
  proof (cases i)
    case 0
    have "g_count W t g + M - 1 \<le> 2 * M - 2" "2 * M - 2 < length adm"
      using g_count_less [OF assms(2,6), of t] i 0 by auto
    from g_inv_old [OF assms(2-6) this] g_start_le [OF assms(2,3)] have "adm ! (2 * M - 2) + W < t" by simp
    moreover have "2 * M - 1 = Suc (2 * M - 2)" using assms(6) by simp
    ultimately show ?thesis using 0 by simp
  next
    case (Suc k)
    then show ?thesis using assms(1) i by (simp add: spaced_def)
  qed
qed

section \<open>The contract\<close>

fun admitted :: "(millis \<Rightarrow> 's \<Rightarrow> bool) \<Rightarrow> (millis \<Rightarrow> 's \<Rightarrow> 's) \<Rightarrow> 's \<Rightarrow> millis list \<Rightarrow> millis list" where
  \<comment> \<open>of attempts that would all fail, those that are not turned away\<close>
  "admitted blocked fail s [] = []"
| "admitted blocked fail s (t # ts) =
     (if blocked t s then admitted blocked fail s ts else t # admitted blocked fail (fail t s) ts)"

fun proper_run ::
  "(millis \<Rightarrow> 's \<Rightarrow> bool) \<Rightarrow> (millis \<Rightarrow> 's \<Rightarrow> bool) \<Rightarrow> (millis \<Rightarrow> 's \<Rightarrow> 's) \<Rightarrow> 's \<Rightarrow> millis list \<Rightarrow> bool" where
  "proper_run proper blocked fail s [] \<longleftrightarrow> True"
| "proper_run proper blocked fail s (t # ts) \<longleftrightarrow>
     proper t s \<and> proper_run proper blocked fail (if blocked t s then s else fail t s) ts"

locale attempt_limiter =
  fixes blocked :: "millis \<Rightarrow> 's \<Rightarrow> bool" and fail :: "millis \<Rightarrow> 's \<Rightarrow> 's"
    and proper :: "millis \<Rightarrow> 's \<Rightarrow> bool" and sim :: "millis \<Rightarrow> 's \<Rightarrow> guard_state \<Rightarrow> bool"
    and M :: nat and W D :: int
  assumes sim_blocked: "sim t s g \<Longrightarrow> proper t s \<Longrightarrow> blocked t s \<longleftrightarrow> g_blocked D t g"
    and sim_fail: "sim t s g \<Longrightarrow> proper t s \<Longrightarrow> \<not> blocked t s \<Longrightarrow> sim t (fail t s) (g_fail M W t g)"
    and sim_later: "sim t s g \<Longrightarrow> t \<le> t' \<Longrightarrow> sim t' s g"
    and window: "1 \<le> M" "0 < W" "W < D"
begin

lemma admitted_spaced:
  assumes "sim T s g" "g_inv M W T g adm" "spaced M W adm" "sorted (T # ts)" "proper_run proper blocked fail s ts"
  shows "spaced M W (rev (admitted blocked fail s ts) @ adm)"
  using assms
proof (induction ts arbitrary: T s g adm)
  case (Cons t ts)
  then have t: "sim t s g" "T \<le> t" using sim_later by auto
  show ?case
  proof (cases "blocked t s")
    case True
    with Cons.IH [OF t(1) g_inv_later [OF Cons.prems(2) t(2)] Cons.prems(3)] Cons.prems(4,5) show ?thesis by simp
  next
    case False
    then have nb: "\<not> g_blocked D t g" using sim_blocked t(1) Cons.prems(5) by simp
    have "sim t (fail t s) (g_fail M W t g)" using sim_fail t(1) Cons.prems(5) False by simp
    from Cons.IH [OF this g_inv_fail [OF Cons.prems(2) t(2) nb window(3,1)] spaced_Cons [OF Cons.prems(3,2) t(2) nb window(3,1)]]
      Cons.prems(4,5) False show ?thesis by simp
  qed
qed simp

theorem admitted_bound:
  assumes "sim T s Unguarded" "sorted (T # ts)" "proper_run proper blocked fail s ts" "i + (2 * M - 1) < length (admitted blocked fail s ts)"
  shows "admitted blocked fail s ts ! i + W < admitted blocked fail s ts ! (i + (2 * M - 1))"
proof -
  let ?a = "admitted blocked fail s ts" and ?k = "2 * M - 1"
  have "spaced M W (rev ?a)"
    using admitted_spaced [OF assms(1), of "[]"] assms(2,3) by (simp add: g_inv_def spaced_def)
  moreover have "(length ?a - 1 - (i + ?k)) + ?k < length (rev ?a)" using assms(4) by simp
  ultimately have "rev ?a ! ((length ?a - 1 - (i + ?k)) + ?k) + W < rev ?a ! (length ?a - 1 - (i + ?k))"
    unfolding spaced_def by blast
  moreover have "length ?a - 1 - ((length ?a - 1 - (i + ?k)) + ?k) = i" "length ?a - 1 - (length ?a - 1 - (i + ?k)) = i + ?k"
    using assms(4) by simp_all
  ultimately show ?thesis using assms(4) by (simp add: rev_nth)
qed

end

end
