(* ===== verification/Lockout.thy ===== *)
theory Lockout
  imports Redis_Client Attempt_Limiter
begin

text \<open>
  The lockout of logins (\<^verbatim>\<open>src/auth/lockout.ts\<close>): a counter of failed attempts and a lock per
  identifier, both Redis entries with a lifetime. A call runs at one time; the link says whether the
  connection is open and which of the call's commands throw, counted from the first. Events are
  returned, and messages are values instead of text. The limits come from the environment.
\<close>

section \<open>Configuration and results\<close>

record lockout_config =
  MAX_LOGIN_ATTEMPTS :: int
  LOCKOUT_WINDOW_SECONDS :: int
  LOCKOUT_DURATION_SECONDS :: int

definition default_lockout :: lockout_config where
  "default_lockout = \<lparr>MAX_LOGIN_ATTEMPTS = 5, LOCKOUT_WINDOW_SECONDS = 10 * 60, LOCKOUT_DURATION_SECONDS = 30 * 60\<rparr>"

definition attemptsKey :: "string \<Rightarrow> string" where
  "attemptsKey identifier = ''lockout:attempts:'' @ identifier"

definition lockedKey :: "string \<Rightarrow> string" where
  "lockedKey identifier = ''lockout:locked:'' @ identifier"

record LockoutStatus =
  isLocked :: bool
  attemptsRemaining :: int
  lockedAt :: "millis option"
  unlocksAt :: "millis option"
  minutesRemaining :: "int option"

datatype lockout_message =
    LockedMessage "int option"
  | AttemptsMessage int
  | LastAttemptMessage
  | InvalidCredentials

record LockoutResult =
  lr_success :: bool
  lr_message :: lockout_message
  lr_status :: LockoutStatus
  lr_justLocked :: bool

datatype lockout_event =
    LockedEvent string int millis millis
  | FailedAttemptEvent string int int
  | ResetEvent string
  | UnlockedEvent string "string option"

definition ceil_minutes :: "int \<Rightarrow> int" where
  \<comment> \<open>\<^verbatim>\<open>Math.ceil(seconds / 60)\<close>\<close>
  "ceil_minutes seconds = - ((- seconds) div 60)"

definition open_status :: "int \<Rightarrow> LockoutStatus" where
  "open_status n = \<lparr>isLocked = False, attemptsRemaining = n, lockedAt = None, unlocksAt = None, minutesRemaining = None\<rparr>"

definition buildLockedMessage :: "LockoutStatus \<Rightarrow> lockout_message" where
  "buildLockedMessage status = LockedMessage (minutesRemaining status)"

section \<open>Operations\<close>

definition getLockoutStatus ::
  "lockout_config \<Rightarrow> 's redis_ops \<Rightarrow> link \<Rightarrow> millis \<Rightarrow> string \<Rightarrow> 's \<Rightarrow> LockoutStatus" where
  "getLockoutStatus cfg R lnk now identifier s =
     (if \<not> ln_open lnk then open_status (MAX_LOGIN_ATTEMPTS cfg)
      else if ln_throws lnk 0 then open_status (MAX_LOGIN_ATTEMPTS cfg)
      else let ttl = r_ttl R now (lockedKey identifier) s
           in if 0 < ttl
              then \<lparr>isLocked = True, attemptsRemaining = 0,
                lockedAt = Some (now - (LOCKOUT_DURATION_SECONDS cfg - ttl) * 1000),
                unlocksAt = Some (now + ttl * 1000), minutesRemaining = Some (ceil_minutes ttl)\<rparr>
              else if ln_throws lnk 1 then open_status (MAX_LOGIN_ATTEMPTS cfg)
              else let attempts = (case r_get R now (attemptsKey identifier) s of Some n \<Rightarrow> n | None \<Rightarrow> 0)
                   in open_status (max 0 (MAX_LOGIN_ATTEMPTS cfg - attempts)))"

definition refused :: "lockout_message \<Rightarrow> LockoutStatus \<Rightarrow> bool \<Rightarrow> LockoutResult" where
  "refused m st just = \<lparr>lr_success = False, lr_message = m, lr_status = st, lr_justLocked = just\<rparr>"

definition recordFailedAttempt ::
  "lockout_config \<Rightarrow> 's redis_ops \<Rightarrow> link \<Rightarrow> millis \<Rightarrow> string \<Rightarrow> 's \<Rightarrow> (LockoutResult \<times> lockout_event list) \<times> 's" where
  "recordFailedAttempt cfg R lnk now identifier s =
     (let currentStatus = getLockoutStatus cfg R lnk now identifier s;
          key = attemptsKey identifier;
          fallback = open_status (MAX_LOGIN_ATTEMPTS cfg - 1);
          failure = (refused InvalidCredentials fallback False, [])
      in if isLocked currentStatus then ((refused (buildLockedMessage currentStatus) currentStatus False, []), s)
         else if \<not> ln_open lnk then ((refused (AttemptsMessage (attemptsRemaining fallback)) fallback False, []), s)
         else if ln_throws lnk 2 then (failure, s)
         else let (attempts, s1) = r_incr R now key s
              in if attempts = 1 \<and> ln_throws lnk 3 then (failure, s1)
                 else let s2 = (if attempts = 1 then r_expire R now key (LOCKOUT_WINDOW_SECONDS cfg) s1 else s1)
                      in if MAX_LOGIN_ATTEMPTS cfg \<le> attempts
                         then if ln_throws lnk 4 then (failure, s2)
                              else let s3 = r_set_nx R now (lockedKey identifier) (LOCKOUT_DURATION_SECONDS cfg) s2
                                   in if ln_throws lnk 5 then (failure, s3)
                                      else let s4 = snd (r_del R now [key] s3);
                                               unlocks = now + LOCKOUT_DURATION_SECONDS cfg * 1000;
                                               status = \<lparr>isLocked = True, attemptsRemaining = 0, lockedAt = Some now,
                                                 unlocksAt = Some unlocks,
                                                 minutesRemaining = Some (ceil_minutes (LOCKOUT_DURATION_SECONDS cfg))\<rparr>
                                           in ((refused (buildLockedMessage status) status True,
                                                [LockedEvent identifier attempts now unlocks]), s4)
                         else let remaining = MAX_LOGIN_ATTEMPTS cfg - attempts
                              in ((refused (if remaining = 1 then LastAttemptMessage else AttemptsMessage remaining)
                                     (open_status remaining) False,
                                   [FailedAttemptEvent identifier attempts remaining]), s2))"

definition recordSuccessfulLogin ::
  "'s redis_ops \<Rightarrow> link \<Rightarrow> millis \<Rightarrow> string \<Rightarrow> 's \<Rightarrow> lockout_event list \<times> 's" where
  "recordSuccessfulLogin R lnk now identifier s =
     (if \<not> ln_open lnk \<or> ln_throws lnk 0 then ([], s)
      else let (deleted, s') = r_del R now [lockedKey identifier, attemptsKey identifier] s
           in (if 0 < deleted then [ResetEvent identifier] else [], s'))"

definition adminUnlock ::
  "'s redis_ops \<Rightarrow> link \<Rightarrow> millis \<Rightarrow> string \<Rightarrow> string option \<Rightarrow> 's \<Rightarrow> (bool \<times> lockout_event list) \<times> 's" where
  "adminUnlock R lnk now identifier adminId s =
     (if \<not> ln_open lnk \<or> ln_throws lnk 0 then ((False, []), s)
      else let (deleted, s') = r_del R now [lockedKey identifier, attemptsKey identifier] s
           in ((0 < deleted, if 0 < deleted then [UnlockedEvent identifier adminId] else []), s'))"

definition isAccountLocked ::
  "lockout_config \<Rightarrow> 's redis_ops \<Rightarrow> link \<Rightarrow> millis \<Rightarrow> string \<Rightarrow> 's \<Rightarrow> bool" where
  "isAccountLocked cfg R lnk now identifier s = isLocked (getLockoutStatus cfg R lnk now identifier s)"

section \<open>The contract of the lockout\<close>

definition lockout_ok :: "lockout_config \<Rightarrow> bool" where
  "lockout_ok cfg \<longleftrightarrow> 1 \<le> MAX_LOGIN_ATTEMPTS cfg \<and> 0 < LOCKOUT_WINDOW_SECONDS cfg \<and>
     LOCKOUT_WINDOW_SECONDS cfg < LOCKOUT_DURATION_SECONDS cfg"

definition fail_login :: "lockout_config \<Rightarrow> 's redis_ops \<Rightarrow> string \<Rightarrow> millis \<Rightarrow> 's \<Rightarrow> 's" where
  "fail_login cfg R identifier now s = snd (recordFailedAttempt cfg R link_up now identifier s)"

definition lock_readable :: "'s redis_ops \<Rightarrow> string \<Rightarrow> millis \<Rightarrow> 's \<Rightarrow> bool" where
  \<comment> \<open>not in the last moments of a lock, when its lifetime is reported as zero seconds\<close>
  "lock_readable R identifier now s \<longleftrightarrow> r_ttl R now (lockedKey identifier) s \<noteq> 0"

lemma keys_differ [simp]: "attemptsKey i \<noteq> lockedKey j" "lockedKey j \<noteq> attemptsKey i"
  by (simp_all add: attemptsKey_def lockedKey_def)

locale login_lockout = redis_client R view for R :: "'s redis_ops" and view +
  fixes cfg :: lockout_config and who :: string
  assumes config: "lockout_ok cfg"
begin

definition lsim :: "millis \<Rightarrow> 's \<Rightarrow> guard_state \<Rightarrow> bool" where
  "lsim t s g \<longleftrightarrow> (case g of
     Unguarded \<Rightarrow> \<not> alive t (view s (lockedKey who)) \<and> \<not> alive t (view s (attemptsKey who))
   | Counting n x \<Rightarrow> \<not> alive t (view s (lockedKey who)) \<and> 1 \<le> n \<and>
       view s (attemptsKey who) = Some (int n, Some (x + LOCKOUT_WINDOW_SECONDS cfg * 1000))
   | LockedSince l \<Rightarrow> \<not> alive t (view s (attemptsKey who)) \<and>
       (\<exists>v. view s (lockedKey who) = Some (v, Some (l + LOCKOUT_DURATION_SECONDS cfg * 1000))))"

lemma blocked_iff:
  assumes "lock_readable R who t s" "\<And>v. view s (lockedKey who) \<noteq> Some (v, None)"
  shows "isAccountLocked cfg R link_up t who s \<longleftrightarrow> alive t (view s (lockedKey who))"
proof -
  have "0 < r_ttl R t (lockedKey who) s \<longleftrightarrow> alive t (view s (lockedKey who))"
  proof (cases "alive t (view s (lockedKey who))")
    case True
    then obtain v e where "view s (lockedKey who) = Some (v, Some e)" "t \<le> e"
      using assms(2) by (cases "(t, view s (lockedKey who))" rule: alive.cases) auto
    from ttl_nonneg [OF this] show ?thesis using assms(1) True by (simp add: lock_readable_def)
  qed (simp add: ttl_none)
  then show ?thesis by (auto simp: isAccountLocked_def getLockoutStatus_def link_up_def open_status_def Let_def)
qed

lemma fail_entries:
  assumes "\<not> isAccountLocked cfg R link_up t who s" "\<not> alive t (view s (lockedKey who))"
  shows "view (fail_login cfg R who t s) =
    (let a = after_incr t (view s (attemptsKey who));
         a' = (if fst a = 1 then (1, Some (t + LOCKOUT_WINDOW_SECONDS cfg * 1000)) else a)
     in if MAX_LOGIN_ATTEMPTS cfg \<le> fst a
        then (view s)(attemptsKey who := None, lockedKey who \<mapsto> (1, Some (t + LOCKOUT_DURATION_SECONDS cfg * 1000)))
        else (view s)(attemptsKey who \<mapsto> a'))"
proof -
  have "alive t (Some (after_incr t (view s (attemptsKey who))))"
    by (cases "(t, view s (attemptsKey who))" rule: alive.cases) (auto simp: after_incr_def)
  then show ?thesis using assms
    by (auto simp: fail_login_def recordFailedAttempt_def isAccountLocked_def link_up_def incr_result entries Let_def split_beta fun_eq_iff)
qed

sublocale attempt_limiter "\<lambda>t. isAccountLocked cfg R link_up t who" "fail_login cfg R who"
  "lock_readable R who" lsim "nat (MAX_LOGIN_ATTEMPTS cfg)" "LOCKOUT_WINDOW_SECONDS cfg * 1000" "LOCKOUT_DURATION_SECONDS cfg * 1000"
proof unfold_locales
  fix t s g
  assume sim: "lsim t s g" and ok: "lock_readable R who t s"
  have lock: "isAccountLocked cfg R link_up t who s \<longleftrightarrow> alive t (view s (lockedKey who))"
    by (rule blocked_iff [OF ok]) (use sim in \<open>auto simp: lsim_def split: guard_state.splits\<close>)
  then show blocked: "isAccountLocked cfg R link_up t who s \<longleftrightarrow> g_blocked (LOCKOUT_DURATION_SECONDS cfg * 1000) t g"
    using sim by (auto simp: lsim_def g_blocked_def split: guard_state.splits)
  assume nb: "\<not> isAccountLocked cfg R link_up t who s"
  with lock have dead: "\<not> alive t (view s (lockedKey who))" by simp
  show "lsim t (fail_login cfg R who t s) (g_fail (nat (MAX_LOGIN_ATTEMPTS cfg)) (LOCKOUT_WINDOW_SECONDS cfg * 1000) t g)"
    using sim dead nb config
    by (auto simp: lsim_def fail_entries g_fail_def g_count_def g_start_def after_incr_def lockout_ok_def Let_def
        split: guard_state.splits)
next
  show "lsim t' s g" if "lsim t s g" "t \<le> t'" for t t' s g
    using that alive_later by (auto simp: lsim_def split: guard_state.splits)
qed (use config in \<open>auto simp: lockout_ok_def\<close>)

lemmas logins_bounded = admitted_bound

end

context redis_client
begin

lemma just_locked_entry:
  assumes "recordFailedAttempt cfg R link_up t who s = ((res, evs), s')" "lr_justLocked res" "\<not> alive t (view s (lockedKey who))"
  shows "view s' (lockedKey who) = Some (1, Some (t + LOCKOUT_DURATION_SECONDS cfg * 1000))"
  using assms by (auto simp: recordFailedAttempt_def entries link_up_def refused_def Let_def split_beta split: if_splits)

lemma just_locked_counter:
  assumes "recordFailedAttempt cfg R link_up t who s = ((res, evs), s')" "lr_justLocked res"
  shows "view s' (attemptsKey who) = None"
  using assms by (auto simp: recordFailedAttempt_def entries link_up_def refused_def Let_def split_beta split: if_splits)

lemma unlocked_after:
  assumes "view s (lockedKey who) = Some (v, Some e)" "view s (attemptsKey who) = None" "e < t" "0 \<le> MAX_LOGIN_ATTEMPTS cfg"
  shows "getLockoutStatus cfg R link_up t who s = open_status (MAX_LOGIN_ATTEMPTS cfg)"
  using assms ttl_none [of t s "lockedKey who"] by (simp add: getLockoutStatus_def link_up_def get_law live_value_def)

lemma locked_entry_blocks:
  assumes "view s (lockedKey who) = Some (v, Some e)" "t + 1000 \<le> e"
  shows "isAccountLocked cfg R link_up t who s" "fail_login cfg R who t s = s"
proof -
  have "0 < r_ttl R t (lockedKey who) s" using ttl_seconds [OF assms(1), of t] assms(2) by linarith
  then show "isAccountLocked cfg R link_up t who s" "fail_login cfg R who t s = s"
    by (simp_all add: isAccountLocked_def getLockoutStatus_def fail_login_def recordFailedAttempt_def link_up_def Let_def)
qed

lemma unreadable_lock_kept:
  assumes "view s (lockedKey who) = Some (v, Some e)" "t \<le> e"
  shows "view (fail_login cfg R who t s) (lockedKey who) = Some (v, Some e)"
  using assms by (auto simp: fail_login_def recordFailedAttempt_def entries link_up_def Let_def split_beta)

lemma unreadable_lock_open:
  assumes "view s (lockedKey who) = Some (v, Some e)" "t \<le> e" "r_ttl R t (lockedKey who) s = 0"
  shows "\<not> isAccountLocked cfg R link_up t who ((fail_login cfg R who t ^^ k) s)"
proof -
  have "view ((fail_login cfg R who t ^^ k) s) (lockedKey who) = Some (v, Some e)"
    by (induction k) (simp_all add: assms(1,2) unreadable_lock_kept)
  then have "r_ttl R t (lockedKey who) ((fail_login cfg R who t ^^ k) s) = 0"
    using ttl_entry [of "(fail_login cfg R who t ^^ k) s" "lockedKey who" s t] assms(1,3) by simp
  then show ?thesis by (simp add: isAccountLocked_def getLockoutStatus_def link_up_def open_status_def Let_def)
qed

end

interpretation memory_lockout: login_lockout memory_redis map_of default_lockout "''237''"
  by unfold_locales (simp add: lockout_ok_def default_lockout_def)

lemma admitted_all:
  assumes "\<And>j. \<not> blocked t ((fail t ^^ j) s)"
  shows "admitted blocked fail ((fail t ^^ j) s) (replicate k t) = replicate k t"
proof (induction k arbitrary: j)
  case (Suc k)
  then show ?case using Suc.IH [of "Suc j"] assms [of j] by simp
qed simp

lemma login_lockoutI: "redis_client R view \<Longrightarrow> lockout_ok cfg \<Longrightarrow> login_lockout R view cfg"
  by (simp add: login_lockout_def login_lockout_axioms_def)

definition two_windows :: "millis list" where
  "two_windows = [0, 590000, 591000, 592000] @ [601000, 602000, 603000, 604000, 605000, 606000]"

definition demo_locked :: "millis \<Rightarrow> memory \<Rightarrow> bool" where
  "demo_locked t = isAccountLocked default_lockout memory_redis link_up t ''237''"

definition demo_fail :: "millis \<Rightarrow> memory \<Rightarrow> memory" where
  "demo_fail = fail_login default_lockout memory_redis ''237''"

section \<open>Theorems\<close>

text \<open>
  C28. Guessing is slow, between the leaks. With Redis always answering, and from a state without a lock or a count for the
  user, of a sequence of failing logins none of which falls into the last half
  second of a lock, those that are let through never number twice the limit within one window: between an attempt and the
  one \<open>2 * MAX - 1\<close> places later more than the window passes. The window must be shorter than a lock, as it
  is by default. (In the last half second of a lock its lifetime is reported as zero, and every attempt passes:
  \<open>lock_leaks\<close>.)
\<close>

theorem login_attempts_bounded:
  assumes "redis_client R view" "lockout_ok cfg"
    and "\<not> alive T (view s (lockedKey who))" "\<not> alive T (view s (attemptsKey who))" "sorted (T # ts)"
    and "proper_run (lock_readable R who) (\<lambda>t. isAccountLocked cfg R link_up t who) (fail_login cfg R who) s ts"
    and "i + (2 * nat (MAX_LOGIN_ATTEMPTS cfg) - 1) < length (admitted (\<lambda>t. isAccountLocked cfg R link_up t who) (fail_login cfg R who) s ts)"
  shows "admitted (\<lambda>t. isAccountLocked cfg R link_up t who) (fail_login cfg R who) s ts ! i + LOCKOUT_WINDOW_SECONDS cfg * 1000 <
    admitted (\<lambda>t. isAccountLocked cfg R link_up t who) (fail_login cfg R who) s ts ! (i + (2 * nat (MAX_LOGIN_ATTEMPTS cfg) - 1))"
proof -
  note L = login_lockoutI [OF assms(1,2)]
  have "login_lockout.lsim view cfg who T s Unguarded" using assms(3,4) by (simp add: login_lockout.lsim_def [OF L])
  from login_lockout.logins_bounded [OF L this assms(5-7)] show ?thesis .
qed

theorem login_attempts_bounded_witness:
  "admitted demo_locked demo_fail [] (two_windows @ [2406000]) ! 0 + 600000 <
   admitted demo_locked demo_fail [] (two_windows @ [2406000]) ! 9"
proof -
  have "proper_run (lock_readable memory_redis ''237'') demo_locked demo_fail [] (two_windows @ [2406000])"
    "length (admitted demo_locked demo_fail [] (two_windows @ [2406000])) = 10"
    "sorted (0 # two_windows @ [2406000])" by code_simp+
  then show ?thesis
    using login_attempts_bounded [OF memory.redis_client_axioms memory_lockout.config, of 0 "[]" "''237''" "two_windows @ [2406000]" 0]
    by (simp add: demo_locked_def [abs_def] demo_fail_def default_lockout_def)
qed

text \<open>
  A lock holds. The failed login that fills the window locks the account: whatever happens with this
  identifier until a second before the lock's end, the account is reported locked, and further
  failures change nothing.
\<close>

theorem lock_holds:
  assumes "redis_client R view" "recordFailedAttempt cfg R link_up t who s = ((res, evs), s')" "lr_justLocked res"
    and "\<not> alive t (view s (lockedKey who))" "t \<le> t'" "t' + 1000 \<le> t + LOCKOUT_DURATION_SECONDS cfg * 1000"
  shows "isAccountLocked cfg R link_up t' who s' \<and> fail_login cfg R who t' s' = s'"
  using redis_client.locked_entry_blocks [OF assms(1) redis_client.just_locked_entry [OF assms(1-4)], of t'] assms(6) by simp

theorem lock_holds_witness:
  "demo_locked 1700000 (demo_fail 1000 [(attemptsKey ''237'', (4, Some 600000))]) \<and>
   demo_fail 1700000 (demo_fail 1000 [(attemptsKey ''237'', (4, Some 600000))]) = demo_fail 1000 [(attemptsKey ''237'', (4, Some 600000))]"
proof -
  let ?r = "recordFailedAttempt default_lockout memory_redis link_up 1000 ''237'' [(attemptsKey ''237'', (4, Some 600000))]"
  have "lr_justLocked (fst (fst ?r))" by code_simp
  moreover have "?r = ((fst (fst ?r), snd (fst ?r)), snd ?r)" by simp
  ultimately show ?thesis
    using lock_holds [OF memory.redis_client_axioms, of default_lockout 1000 "''237''" _ "fst (fst ?r)" "snd (fst ?r)" "snd ?r" 1700000]
    by (simp add: demo_locked_def demo_fail_def fail_login_def default_lockout_def)
qed

text \<open>
  A lock ends by itself: once its duration is over, the account is unlocked and has all its attempts
  again, without any action.
\<close>

theorem lock_ends:
  assumes "redis_client R view" "recordFailedAttempt cfg R link_up t who s = ((res, evs), s')" "lr_justLocked res"
    and "\<not> alive t (view s (lockedKey who))" "t + LOCKOUT_DURATION_SECONDS cfg * 1000 < t'" "0 \<le> MAX_LOGIN_ATTEMPTS cfg"
  shows "getLockoutStatus cfg R link_up t' who s' = open_status (MAX_LOGIN_ATTEMPTS cfg)"
  using redis_client.unlocked_after [OF assms(1) redis_client.just_locked_entry [OF assms(1-4)]
    redis_client.just_locked_counter [OF assms(1-3)] assms(5,6)] .

theorem lock_ends_witness:
  "getLockoutStatus default_lockout memory_redis link_up 1802000 ''237'' (demo_fail 1000 [(attemptsKey ''237'', (4, Some 600000))]) =
   open_status 5"
proof -
  let ?r = "recordFailedAttempt default_lockout memory_redis link_up 1000 ''237'' [(attemptsKey ''237'', (4, Some 600000))]"
  have "lr_justLocked (fst (fst ?r))" by code_simp
  moreover have "?r = ((fst (fst ?r), snd (fst ?r)), snd ?r)" by simp
  ultimately show ?thesis
    using lock_ends [OF memory.redis_client_axioms, of default_lockout 1000 "''237''" _ "fst (fst ?r)" "snd (fst ?r)" "snd ?r" 1802000]
    by (simp add: demo_fail_def fail_login_def default_lockout_def)
qed

text \<open>
  A lock leaks before it ends. The lock is read through its remaining lifetime in whole seconds;
  while that is reported as zero the account counts as unlocked, but the lock still exists, so that
  the attempt that fills the window cannot renew it. Any number of failed logins passes at such a
  moment, and the account is still not locked.
\<close>

theorem lock_leaks:
  assumes "redis_client R view" "view s (lockedKey who) = Some (v, Some e)" "t \<le> e" "r_ttl R t (lockedKey who) s = 0"
  shows "\<not> isAccountLocked cfg R link_up t who ((fail_login cfg R who t ^^ k) s) \<and>
    admitted (\<lambda>t. isAccountLocked cfg R link_up t who) (fail_login cfg R who) s (replicate k t) = replicate k t"
  using redis_client.unreadable_lock_open [OF assms]
    admitted_all [of "\<lambda>t. isAccountLocked cfg R link_up t who" t "fail_login cfg R who" s 0 k] by simp

theorem lock_leaks_witness:
  "\<not> demo_locked 1799600 ((demo_fail 1799600 ^^ 1000) [(lockedKey ''237'', (1, Some 1800000))])"
proof -
  have "r_ttl memory_redis 1799600 (lockedKey ''237'') [(lockedKey ''237'', (1, Some 1800000))] = 0" by code_simp
  then show ?thesis
    using lock_leaks [OF memory.redis_client_axioms, of "[(lockedKey ''237'', (1, Some 1800000))]" "''237''" 1 1800000 1799600 default_lockout 1000]
    by (simp add: demo_locked_def demo_fail_def)
qed

text \<open>
  The window does not slide. The route promises a lock after five failures within ten minutes;
  four failures at the end of one window and five in the next are nine within two minutes.
\<close>

theorem window_does_not_slide:
  "admitted (\<lambda>t. isAccountLocked default_lockout memory_redis link_up t ''237'') (fail_login default_lockout memory_redis ''237'')
     [] two_windows = [0, 590000, 591000, 592000, 601000, 602000, 603000, 604000, 605000]"
  by code_simp

end
