(* ===== verification/Two_Factor.thy ===== *)
theory Two_Factor
  imports Redis_Client Attempt_Limiter
begin

text \<open>
  Two-factor authentication: the attempt limiter (\<^verbatim>\<open>src/services/twoFactorRateLimiter.ts\<close>), the checks of
  codes (\<^verbatim>\<open>src/auth/2fa.ts\<close>), the middleware (\<^verbatim>\<open>src/middleware/twoFactor.ts\<close>) and the service that guards
  withdrawals (\<^verbatim>\<open>src/services/twoFactorWithdrawalService.ts\<close>). Time-based codes and the comparison of a
  code with its hash are functions of third-party packages and appear as the parameters \<open>totp\<close> and
  \<open>compare\<close>. Writes to the users table and mails are effects; both are best effort. A Redis command
  that throws ends the call with an error; commands are counted from the first of the handler.
\<close>

section \<open>The attempt limiter\<close>

definition MAX_ATTEMPTS :: int where "MAX_ATTEMPTS = 5"
definition LOCKOUT_SECONDS :: int where "LOCKOUT_SECONDS = 30 * 60"
definition FAILURE_WINDOW_SECONDS :: int where "FAILURE_WINDOW_SECONDS = 15 * 60"

record TwoFactorRateLimitHeaders =
  rh_limit :: int
  rh_remaining :: int
  rh_resetAt :: millis
  rh_retryAfter :: int

datatype tf_effect =
    PersistLock id millis
  | ClearLock id
  | LockoutMail string int millis

record tf_call =
  tf_link :: link
  tf_now :: millis
  tf_db_ok :: bool
  tf_mail_ok :: bool

definition getKey :: "id \<Rightarrow> string" where
  "getKey userId = ''2fa:lockout:'' @ userId"

definition limiter_isLocked :: "'s redis_ops \<Rightarrow> tf_call \<Rightarrow> nat \<Rightarrow> id \<Rightarrow> 's \<Rightarrow> bool option" where
  \<comment> \<open>None: the command throws; with the connection closed nobody counts as locked\<close>
  "limiter_isLocked R c b userId s =
     (if \<not> ln_open (tf_link c) then Some False
      else if ln_throws (tf_link c) b then None
      else Some (case r_get R (tf_now c) (getKey userId) s of None \<Rightarrow> False | Some n \<Rightarrow> MAX_ATTEMPTS \<le> n))"

definition applyLockoutSideEffects :: "tf_call \<Rightarrow> id \<Rightarrow> string option \<Rightarrow> tf_effect list" where
  "applyLockoutSideEffects c userId email =
     (let unlocks = tf_now c + LOCKOUT_SECONDS * 1000
      in (if tf_db_ok c then [PersistLock userId unlocks] else []) @
         (case email of
            Some e \<Rightarrow> if e \<noteq> [] \<and> tf_mail_ok c then [LockoutMail e (LOCKOUT_SECONDS div 60) unlocks] else []
          | None \<Rightarrow> []))"

definition incrementFailures ::
  "'s redis_ops \<Rightarrow> tf_call \<Rightarrow> nat \<Rightarrow> id \<Rightarrow> string option \<Rightarrow> 's \<Rightarrow> int option \<times> tf_effect list \<times> 's" where
  "incrementFailures R c b userId email s =
     (if \<not> ln_open (tf_link c) then (Some 0, [], s)
      else if ln_throws (tf_link c) b then (None, [], s)
      else let (count, s1) = r_incr R (tf_now c) (getKey userId) s
           in if count = 1 \<and> ln_throws (tf_link c) (b + 1) then (None, [], s1)
              else let s2 = (if count = 1 then r_expire R (tf_now c) (getKey userId) FAILURE_WINDOW_SECONDS s1 else s1)
                   in if count = MAX_ATTEMPTS
                      then if ln_throws (tf_link c) (b + 2) then (None, [], s2)
                           else (Some count, applyLockoutSideEffects c userId email,
                                 r_expire R (tf_now c) (getKey userId) LOCKOUT_SECONDS s2)
                      else (Some count, [], s2))"

definition resetFailures :: "'s redis_ops \<Rightarrow> tf_call \<Rightarrow> nat \<Rightarrow> id \<Rightarrow> 's \<Rightarrow> unit option \<times> tf_effect list \<times> 's" where
  "resetFailures R c b userId s =
     (if \<not> ln_open (tf_link c) then (Some (), [], s)
      else if ln_throws (tf_link c) b then (None, [], s)
      else (Some (), if tf_db_ok c then [ClearLock userId] else [], snd (r_del R (tf_now c) [getKey userId] s)))"

definition getRemainingTries :: "'s redis_ops \<Rightarrow> tf_call \<Rightarrow> nat \<Rightarrow> id \<Rightarrow> 's \<Rightarrow> int option" where
  "getRemainingTries R c b userId s =
     (if \<not> ln_open (tf_link c) then Some MAX_ATTEMPTS
      else if ln_throws (tf_link c) b then None
      else Some (max 0 (MAX_ATTEMPTS - (case r_get R (tf_now c) (getKey userId) s of Some n \<Rightarrow> n | None \<Rightarrow> 0))))"

definition getLockoutTimeRemaining :: "'s redis_ops \<Rightarrow> tf_call \<Rightarrow> nat \<Rightarrow> id \<Rightarrow> 's \<Rightarrow> int option" where
  "getLockoutTimeRemaining R c b userId s =
     (if \<not> ln_open (tf_link c) then Some 0
      else if ln_throws (tf_link c) b then None
      else Some (max 0 (r_ttl R (tf_now c) (getKey userId) s)))"

definition getRateLimitHeaders :: "'s redis_ops \<Rightarrow> tf_call \<Rightarrow> nat \<Rightarrow> id \<Rightarrow> 's \<Rightarrow> TwoFactorRateLimitHeaders option" where
  "getRateLimitHeaders R c b userId s =
     (if \<not> ln_open (tf_link c)
      then Some \<lparr>rh_limit = MAX_ATTEMPTS, rh_remaining = MAX_ATTEMPTS,
             rh_resetAt = tf_now c + LOCKOUT_SECONDS * 1000, rh_retryAfter = LOCKOUT_SECONDS\<rparr>
      else case getRemainingTries R c b userId s of None \<Rightarrow> None
      | Some remaining \<Rightarrow>
          (case getLockoutTimeRemaining R c (b + 1) userId s of None \<Rightarrow> None
           | Some retryAfter \<Rightarrow> Some \<lparr>rh_limit = MAX_ATTEMPTS, rh_remaining = remaining,
               rh_resetAt = tf_now c + retryAfter * 1000, rh_retryAfter = retryAfter\<rparr>))"

section \<open>Codes\<close>

record BackupCode =
  bk_id :: id
  bk_user :: id
  bk_hash :: string
  bk_used :: bool
  bk_created :: millis

record tf_user =
  us_id :: id
  us_email :: "string option"
  us_secret :: "string option"
  us_enabled :: bool
  us_verified :: bool
  us_backup_codes :: "BackupCode list option"
  us_mandatory :: bool
  us_deleted :: bool \<comment> \<open>\<^verbatim>\<open>deleted_at IS NOT NULL\<close>\<close>

definition verifyTOTPToken :: "(string \<Rightarrow> string \<Rightarrow> bool) \<Rightarrow> string \<Rightarrow> string \<Rightarrow> bool" where
  \<comment> \<open>\<^verbatim>\<open>totpService.verifyTOTP\<close> with the default drift; \<open>totp\<close> is the package's check, false where it throws\<close>
  "verifyTOTPToken totp secret token \<longleftrightarrow> secret \<noteq> [] \<and> token \<noteq> [] \<and> totp secret (js_trim token)"

fun verifyBackupCode :: "(string \<Rightarrow> string \<Rightarrow> bool) \<Rightarrow> string \<Rightarrow> BackupCode list \<Rightarrow> id option" where
  \<comment> \<open>the id of the first unused code that matches\<close>
  "verifyBackupCode compare code [] = None"
| "verifyBackupCode compare code (h # hs) =
     (if bk_used h then verifyBackupCode compare code hs
      else if compare code (bk_hash h) then Some (bk_id h)
      else verifyBackupCode compare code hs)"

definition is2FAEnabled :: "tf_user \<Rightarrow> bool" where
  "is2FAEnabled u \<longleftrightarrow> (case us_secret u of Some x \<Rightarrow> x \<noteq> [] | None \<Rightarrow> False) \<and> us_enabled u \<and> us_verified u"

section \<open>The middleware\<close>

record tf_request =
  rq_jwt :: bool
  rq_user :: "tf_user option"
  rq_totp :: "string option"
  rq_backup :: "string option"

datatype tf_outcome =
    NextHandler bool \<comment> \<open>\<^verbatim>\<open>next()\<close>, with \<^verbatim>\<open>twoFactorVerified\<close>\<close>
  | Rejected int int \<comment> \<open>status and tries remaining\<close>
  | Status int
  | Throws \<comment> \<open>the handler rejects\<close>

definition given :: "string option \<Rightarrow> bool" where
  "given x \<longleftrightarrow> (case x of Some t \<Rightarrow> t \<noteq> [] | None \<Rightarrow> False)"

definition code_accepted ::
  "(string \<Rightarrow> string \<Rightarrow> bool) \<Rightarrow> (string \<Rightarrow> string \<Rightarrow> bool) \<Rightarrow> tf_user \<Rightarrow> tf_request \<Rightarrow> bool" where
  \<comment> \<open>the token, then the backup code\<close>
  "code_accepted totp compare u rq \<longleftrightarrow>
     (given (rq_totp rq) \<and> verifyTOTPToken totp (the (us_secret u)) (the (rq_totp rq))) \<or>
     (given (rq_backup rq) \<and>
      (case us_backup_codes u of Some cs \<Rightarrow> verifyBackupCode compare (the (rq_backup rq)) cs \<noteq> None | None \<Rightarrow> False))"

definition requireTwoFactor ::
  "(string \<Rightarrow> string \<Rightarrow> bool) \<Rightarrow> (string \<Rightarrow> string \<Rightarrow> bool) \<Rightarrow> 's redis_ops \<Rightarrow> tf_call \<Rightarrow> tf_request \<Rightarrow> 's \<Rightarrow>
   tf_outcome \<times> tf_effect list \<times> 's" where
  "requireTwoFactor totp compare R c rq s =
     (if \<not> rq_jwt rq then (Status 401, [], s)
      else case rq_user rq of None \<Rightarrow> (Status 404, [], s) | Some u \<Rightarrow>
      if \<not> is2FAEnabled u then (NextHandler True, [], s)
      else if given (rq_totp rq) \<or> (given (rq_backup rq) \<and> us_backup_codes u \<noteq> None)
      then (case limiter_isLocked R c 0 (us_id u) s of
          None \<Rightarrow> (Status 500, [], s)
        | Some True \<Rightarrow> (case getRateLimitHeaders R c 1 (us_id u) s of None \<Rightarrow> (Status 500, [], s) | Some h \<Rightarrow> (Status 429, [], s))
        | Some False \<Rightarrow>
            if code_accepted totp compare u rq
            then (case resetFailures R c 1 (us_id u) s of
                (None, es, s') \<Rightarrow> (Status 500, es, s')
              | (Some _, es, s') \<Rightarrow> (NextHandler True, es, s'))
            else (case incrementFailures R c 1 (us_id u) (us_email u) s of
                (None, es, s') \<Rightarrow> (Status 500, es, s')
              | (Some newCount, es, s') \<Rightarrow>
                  (case getRateLimitHeaders R c 4 (us_id u) s' of
                     None \<Rightarrow> (Status 500, es, s')
                   | Some h \<Rightarrow> (Rejected 403 (max 0 (MAX_ATTEMPTS - newCount)), es, s'))))
      else (case getRateLimitHeaders R c 0 (us_id u) s of None \<Rightarrow> (Status 500, [], s) | Some h \<Rightarrow> (Status 403, [], s)))"

definition optionalTwoFactor ::
  "(string \<Rightarrow> string \<Rightarrow> bool) \<Rightarrow> (string \<Rightarrow> string \<Rightarrow> bool) \<Rightarrow> 's redis_ops \<Rightarrow> tf_call \<Rightarrow> tf_request \<Rightarrow> 's \<Rightarrow>
   tf_outcome \<times> tf_effect list \<times> 's" where
  "optionalTwoFactor totp compare R c rq s =
     (if \<not> rq_jwt rq then (Status 401, [], s)
      else case rq_user rq of None \<Rightarrow> (Status 404, [], s) | Some u \<Rightarrow>
      if \<not> is2FAEnabled u then (NextHandler True, [], s)
      else if given (rq_totp rq) \<or> (given (rq_backup rq) \<and> us_backup_codes u \<noteq> None)
      then (case limiter_isLocked R c 0 (us_id u) s of
          None \<Rightarrow> (Status 500, [], s)
        | Some True \<Rightarrow> (NextHandler False, [], s)
        | Some False \<Rightarrow>
            if code_accepted totp compare u rq
            then (case resetFailures R c 1 (us_id u) s of
                (None, es, s') \<Rightarrow> (Status 500, es, s')
              | (Some _, es, s') \<Rightarrow> (NextHandler True, es, s'))
            else (case incrementFailures R c 1 (us_id u) (us_email u) s of
                (None, es, s') \<Rightarrow> (Status 500, es, s')
              | (Some _, es, s') \<Rightarrow> (NextHandler False, es, s')))
      else (NextHandler False, [], s))"

definition ensureTwoFactorVerified :: "bool \<Rightarrow> tf_outcome" where
  "ensureTwoFactorVerified verified = (if verified then NextHandler True else Status 403)"

section \<open>Withdrawals\<close>

record withdrawal_db =
  wd_users :: "tf_user list"
  wd_codes :: "BackupCode list"

datatype db_link =
    DbUp
  | DbReplica "tf_user list" \<comment> \<open>the read is answered by a replica, which holds these rows\<close>
  | DbDown

definition returned_user :: "tf_user \<Rightarrow> tf_user" where
  \<comment> \<open>the object that \<^verbatim>\<open>findById\<close> builds has the secret, but neither \<^verbatim>\<open>two_factor_enabled\<close> nor \<^verbatim>\<open>two_factor_verified\<close>\<close>
  "returned_user row = row\<lparr>us_enabled := False, us_verified := False\<rparr>"

definition find_user :: "db_link \<Rightarrow> id \<Rightarrow> withdrawal_db \<Rightarrow> tf_user option option" where
  \<comment> \<open>\<^verbatim>\<open>userModel.findById\<close>; None where the query throws\<close>
  "find_user d userId db =
     (let result = (\<lambda>rows. Some (map_option returned_user (find (\<lambda>u. us_id u = userId \<and> \<not> us_deleted u) rows)))
      in case d of DbDown \<Rightarrow> None | DbUp \<Rightarrow> result (wd_users db) | DbReplica rows \<Rightarrow> result rows)"

definition requires2FAForWithdrawal :: "db_link \<Rightarrow> id \<Rightarrow> withdrawal_db \<Rightarrow> bool option" where
  "requires2FAForWithdrawal d userId db = (case find_user d userId db of
     Some (Some u) \<Rightarrow> Some (us_mandatory u)
   | _ \<Rightarrow> None)"

datatype spend_phase =
    SpendRead id string
  | SpendUpdate id
  | SpendDone "id option"

fun spend_step :: "(string \<Rightarrow> string \<Rightarrow> bool) \<Rightarrow> spend_phase \<Rightarrow> BackupCode list \<Rightarrow> spend_phase \<times> BackupCode list" where
  \<comment> \<open>the two statements of the private \<^verbatim>\<open>verifyBackupCode\<close>: read the unused codes, spend the match\<close>
  "spend_step compare (SpendRead userId code) t =
     (case find (\<lambda>r. compare code (bk_hash r)) (sort_key bk_created (filter (\<lambda>r. bk_user r = userId \<and> \<not> bk_used r) t)) of
        Some r \<Rightarrow> (SpendUpdate (bk_id r), t)
      | None \<Rightarrow> (SpendDone None, t))"
| "spend_step compare (SpendUpdate i) t =
     (if list_ex (\<lambda>r. bk_id r = i \<and> \<not> bk_used r) t
      then (SpendDone (Some i), sql_update (\<lambda>r. bk_id r = i \<and> \<not> bk_used r) (\<lambda>r. r\<lparr>bk_used := True\<rparr>) t)
      else (SpendDone None, t))"
| "spend_step compare (SpendDone r) t = (SpendDone r, t)"

definition spendBackupCode :: "(string \<Rightarrow> string \<Rightarrow> bool) \<Rightarrow> id \<Rightarrow> string \<Rightarrow> BackupCode list \<Rightarrow> id option \<times> BackupCode list" where
  \<comment> \<open>the call on its own\<close>
  "spendBackupCode compare userId code t =
     (let (p, t1) = spend_step compare (SpendRead userId code) t; (p', t2) = spend_step compare p t1
      in (case p' of SpendDone r \<Rightarrow> r | _ \<Rightarrow> None, t2))"

datatype withdrawal_message =
    UserNotFound | NotEnabled | NotOptedIn
  | LockedFor int
  | InvalidCode int
  | NowLocked

datatype withdrawal_result =
    VerifiedTotp
  | VerifiedBackup
  | NotVerified withdrawal_message
  | VerificationThrows

definition verifyWithdrawal2FA ::
  "(string \<Rightarrow> string \<Rightarrow> bool) \<Rightarrow> (string \<Rightarrow> string \<Rightarrow> bool) \<Rightarrow> 's redis_ops \<Rightarrow> tf_call \<Rightarrow> db_link \<Rightarrow>
   id \<Rightarrow> string option \<Rightarrow> string option \<Rightarrow> withdrawal_db \<Rightarrow> 's \<Rightarrow> withdrawal_result \<times> withdrawal_db \<times> 's" where
  "verifyWithdrawal2FA totp compare R c d userId token backupCode db s =
     (case find_user d userId db of
        None \<Rightarrow> (VerificationThrows, db, s)
      | Some None \<Rightarrow> (NotVerified UserNotFound, db, s)
      | Some (Some u) \<Rightarrow>
      if \<not> is2FAEnabled u then (NotVerified NotEnabled, db, s)
      else if \<not> us_mandatory u then (NotVerified NotOptedIn, db, s)
      else case limiter_isLocked R c 0 userId s of
          None \<Rightarrow> (VerificationThrows, db, s)
        | Some True \<Rightarrow>
            (case getLockoutTimeRemaining R c 1 userId s of
               None \<Rightarrow> (VerificationThrows, db, s)
             | Some timeLeft \<Rightarrow> (NotVerified (LockedFor (- ((- timeLeft) div 60))), db, s))
        | Some False \<Rightarrow>
            if given token \<and> verifyTOTPToken totp (the (us_secret u)) (the token)
            then (case resetFailures R c 1 userId s of
                (None, es, s') \<Rightarrow> (VerificationThrows, db, s')
              | (Some _, es, s') \<Rightarrow> (VerifiedTotp, db, s'))
            else let (spent, codes) = (if given backupCode then spendBackupCode compare userId (the backupCode) (wd_codes db)
                                       else (None, wd_codes db));
                     db' = db\<lparr>wd_codes := codes\<rparr>
                 in if spent \<noteq> None
                    then (case resetFailures R c 1 userId s of
                        (None, es, s') \<Rightarrow> (VerificationThrows, db', s')
                      | (Some _, es, s') \<Rightarrow> (VerifiedBackup, db', s'))
                    else (case incrementFailures R c 1 userId None s of
                        (None, es, s') \<Rightarrow> (VerificationThrows, db', s')
                      | (Some newCount, es, s') \<Rightarrow>
                          let triesLeft = max 0 (3 - newCount)
                          in (NotVerified (if 0 < triesLeft then InvalidCode triesLeft else NowLocked), db', s')))"

definition updateMandatory2FAWithdrawals :: "db_link \<Rightarrow> id \<Rightarrow> bool \<Rightarrow> withdrawal_db \<Rightarrow> bool \<times> withdrawal_db" where
  \<comment> \<open>False: an error is thrown\<close>
  "updateMandatory2FAWithdrawals d userId enabled db = (case find_user d userId db of
     Some (Some u) \<Rightarrow>
       if enabled \<and> \<not> is2FAEnabled u then (False, db)
       else (True, db\<lparr>wd_users := sql_update (\<lambda>u. us_id u = userId) (\<lambda>u. u\<lparr>us_mandatory := enabled\<rparr>) (wd_users db)\<rparr>)
   | _ \<Rightarrow> (False, db))"

definition generateAndStoreBackupCodes ::
  "db_link \<Rightarrow> id \<Rightarrow> (id \<times> string) list \<Rightarrow> millis \<Rightarrow> withdrawal_db \<Rightarrow> bool \<times> withdrawal_db" where
  \<comment> \<open>the ids and hashes of the ten codes are given; False: an error is thrown\<close>
  "generateAndStoreBackupCodes d userId fresh now db = (case find_user d userId db of
     Some (Some u) \<Rightarrow>
       if \<not> given (us_secret u) then (False, db)
       else (True, db\<lparr>wd_codes := filter (\<lambda>r. bk_user r \<noteq> userId) (wd_codes db) @
              map (\<lambda>(i, h). \<lparr>bk_id = i, bk_user = userId, bk_hash = h, bk_used = False, bk_created = now\<rparr>) fresh\<rparr>)
   | _ \<Rightarrow> (False, db))"

definition getRemainingBackupCodeCount :: "id \<Rightarrow> withdrawal_db \<Rightarrow> nat" where
  "getRemainingBackupCodeCount userId db = length (filter (\<lambda>r. bk_user r = userId \<and> \<not> bk_used r) (wd_codes db))"

definition validate2FAForWithdrawal ::
  "(string \<Rightarrow> string \<Rightarrow> bool) \<Rightarrow> (string \<Rightarrow> string \<Rightarrow> bool) \<Rightarrow> 's redis_ops \<Rightarrow> tf_call \<Rightarrow> db_link \<Rightarrow> db_link \<Rightarrow>
   id option \<Rightarrow> string option \<Rightarrow> string option \<Rightarrow> withdrawal_db \<Rightarrow> 's \<Rightarrow> tf_outcome \<times> withdrawal_db \<times> 's" where
  \<comment> \<open>\<open>d1\<close> is the database at the first look at the user, \<open>d2\<close> at the second\<close>
  "validate2FAForWithdrawal totp compare R c d1 d2 user otpToken backupCode db s =
     (case user of None \<Rightarrow> (Status 401, db, s)
      | Some userId \<Rightarrow>
          let requires = (case requires2FAForWithdrawal d1 userId db of Some r \<Rightarrow> r | None \<Rightarrow> False)
          in if \<not> requires then (NextHandler False, db, s)
             else (case verifyWithdrawal2FA totp compare R c d2 userId otpToken backupCode db s of
                 (VerifiedTotp, db', s') \<Rightarrow> (NextHandler True, db', s')
               | (VerifiedBackup, db', s') \<Rightarrow> (NextHandler True, db', s')
               | (NotVerified m, db', s') \<Rightarrow> (Status 401, db', s')
               | (VerificationThrows, db', s') \<Rightarrow> (Throws, db', s')))"

end
