(* ===== verification/Two_Factor_Safety.thy ===== *)
theory Two_Factor_Safety
  imports Two_Factor "HOL-Library.Multiset"
begin

text \<open>
  What two-factor authentication promises: the limiter satisfies the contract of
  \<^verbatim>\<open>Attempt_Limiter\<close>, and a backup code is spent once however requests interleave. The guard of withdrawals, though, never
  gets as far as a code: two theorems state this and that it fails open, and a third that the middleware accepts a backup
  code again.
\<close>

section \<open>The limiter\<close>

definition calm :: "millis \<Rightarrow> tf_call" where
  \<comment> \<open>a call in which nothing fails\<close>
  "calm t = \<lparr>tf_link = link_up, tf_now = t, tf_db_ok = True, tf_mail_ok = True\<rparr>"

definition tf_locked :: "'s redis_ops \<Rightarrow> id \<Rightarrow> millis \<Rightarrow> 's \<Rightarrow> bool" where
  "tf_locked R userId t s \<longleftrightarrow> limiter_isLocked R (calm t) 0 userId s = Some True"

definition tf_fail :: "'s redis_ops \<Rightarrow> id \<Rightarrow> millis \<Rightarrow> 's \<Rightarrow> 's" where
  "tf_fail R userId t s = snd (snd (incrementFailures R (calm t) 1 userId None s))"

lemmas limits = MAX_ATTEMPTS_def FAILURE_WINDOW_SECONDS_def LOCKOUT_SECONDS_def

locale two_factor_limiter = redis_client R view for R :: "'s redis_ops" and view +
  fixes userId :: id
begin

definition tsim :: "millis \<Rightarrow> 's \<Rightarrow> guard_state \<Rightarrow> bool" where
  "tsim t s g \<longleftrightarrow> (case g of
     Unguarded \<Rightarrow> \<not> alive t (view s (getKey userId))
   | Counting n x \<Rightarrow> 1 \<le> n \<and> n < 5 \<and> view s (getKey userId) = Some (int n, Some (x + 900000))
   | LockedSince l \<Rightarrow> \<exists>n\<ge>5. view s (getKey userId) = Some (n, Some (l + 1800000)))"

lemma locked_entry: "tf_locked R userId t s \<longleftrightarrow> (\<exists>n\<ge>5. live_value t (view s (getKey userId)) = Some n)"
  by (auto simp: tf_locked_def limiter_isLocked_def calm_def link_up_def get_law limits split: option.splits)

lemma fail_entry:
  "view (tf_fail R userId t s) (getKey userId) =
    (let a = after_incr t (view s (getKey userId))
     in Some (if fst a = 5 then (5, Some (t + 1800000)) else if fst a = 1 then (1, Some (t + 900000)) else a))"
proof -
  have "alive t (Some (after_incr t (view s (getKey userId))))"
    by (cases "(t, view s (getKey userId))" rule: alive.cases) (auto simp: after_incr_def)
  then show ?thesis
    by (auto simp: tf_fail_def incrementFailures_def calm_def link_up_def incr_result entries limits Let_def split_beta)
qed

sublocale attempt_limiter "tf_locked R userId" "tf_fail R userId" "\<lambda>_ _. True" tsim 5 900000 1800000
proof unfold_locales
  fix t s g
  assume sim: "tsim t s g"
  then show "tf_locked R userId t s \<longleftrightarrow> g_blocked 1800000 t g"
    by (auto simp: tsim_def locked_entry g_blocked_def live_value_def split: guard_state.splits)
  assume "\<not> tf_locked R userId t s"
  with sim show "tsim t (tf_fail R userId t s) (g_fail 5 900000 t g)"
    by (auto simp: tsim_def fail_entry locked_entry live_value_def g_fail_def g_count_def g_start_def after_incr_def Let_def
        split: guard_state.splits if_splits)
next
  show "tsim t' s g" if "tsim t s g" "t \<le> t'" for t t' s g
    using that alive_later by (auto simp: tsim_def split: guard_state.splits)
qed auto

lemmas codes_bounded = admitted_bound

lemma proper_always: "proper_run (\<lambda>_ _. True) (tf_locked R userId) (tf_fail R userId) s ts"
  by (induction ts arbitrary: s) auto

end

interpretation memory_2fa: two_factor_limiter memory_redis map_of "''u''"
  by unfold_locales

section \<open>Backup codes\<close>

type_synonym spend_system = "BackupCode list \<times> spend_phase list"

inductive spend_sys :: "(string \<Rightarrow> string \<Rightarrow> bool) \<Rightarrow> spend_system \<Rightarrow> spend_system \<Rightarrow> bool" for compare where
  arrive: "spend_sys compare (t, ps) (t, ps @ [SpendRead userId code])"
| statement: "i < length ps \<Longrightarrow> spend_step compare (ps ! i) t = (p, t') \<Longrightarrow> spend_sys compare (t, ps) (t', ps[i := p])"
| renew: "generateAndStoreBackupCodes d userId fresh now \<lparr>wd_users = us, wd_codes = t\<rparr> = (ok, db) \<Longrightarrow>
    distinct (map fst fresh) \<Longrightarrow> set (map fst fresh) \<inter> set (map bk_id t) = {} \<Longrightarrow>
    (\<And>i. i \<in> set (map fst fresh) \<Longrightarrow> SpendDone (Some i) \<notin> set ps) \<Longrightarrow> spend_sys compare (t, ps) (wd_codes db, ps)"

definition spend_inv :: "spend_system \<Rightarrow> bool" where
  "spend_inv x \<longleftrightarrow> (case x of (t, ps) \<Rightarrow> distinct (map bk_id t) \<and>
     (\<forall>i. count (mset ps) (SpendDone (Some i)) \<le> 1 \<and>
        (SpendDone (Some i) \<in> set ps \<longrightarrow> (\<forall>r\<in>set t. bk_id r = i \<longrightarrow> bk_used r))))"

lemma spend_invD:
  assumes "spend_inv (t, ps)"
  shows "distinct (map bk_id t)" "count (mset ps) (SpendDone (Some i)) \<le> 1"
    "SpendDone (Some i) \<in> set ps \<Longrightarrow> r \<in> set t \<Longrightarrow> bk_id r = i \<Longrightarrow> bk_used r"
  using assms by (auto simp: spend_inv_def)

lemma count_update:
  "i < length ps \<Longrightarrow> count (mset (ps[i := p])) x = count (mset ps) x - (if ps ! i = x then 1 else 0) + (if p = x then 1 else 0)"
  by (simp add: mset_update)

lemma in_update: "x \<in> set (ps[i := p]) \<Longrightarrow> x = p \<or> x \<in> set ps"
  using set_update_subset_insert [of ps i p] by auto

lemma spend_inv_quiet:
  assumes "spend_inv (t, ps)" "i < length ps" "\<And>j. p \<noteq> SpendDone (Some j)"
  shows "spend_inv (t, ps[i := p])"
  unfolding spend_inv_def prod.case
proof (intro conjI allI impI ballI)
  note D = spend_invD [OF assms(1)]
  show "distinct (map bk_id t)" by (rule D)
  show "count (mset (ps[i := p])) (SpendDone (Some j)) \<le> 1" for j
    using D(2) [of j] assms(3) [of j] by (simp add: count_update [OF assms(2)])
  show "bk_used r" if "SpendDone (Some j) \<in> set (ps[i := p])" "r \<in> set t" "bk_id r = j" for j r
    using in_update [OF that(1)] assms(3) [of j] D(3) that(2,3) by blast
qed

lemma spend_inv_spent:
  assumes "spend_inv (t, ps)" "i < length ps" "list_ex (\<lambda>r. bk_id r = j \<and> \<not> bk_used r) t"
  shows "spend_inv (sql_update (\<lambda>r. bk_id r = j \<and> \<not> bk_used r) (\<lambda>r. r\<lparr>bk_used := True\<rparr>) t, ps[i := SpendDone (Some j)])"
  unfolding spend_inv_def prod.case
proof (intro conjI allI impI ballI)
  note D = spend_invD [OF assms(1)]
  let ?t = "sql_update (\<lambda>r. bk_id r = j \<and> \<not> bk_used r) (\<lambda>r. r\<lparr>bk_used := True\<rparr>) t"
  have new: "SpendDone (Some j) \<notin> set ps" using D(3) [of j] assms(3) by (auto simp: list_ex_iff)
  show "distinct (map bk_id ?t)" using D(1) by (simp add: map_sql_update)
  show "count (mset (ps[i := SpendDone (Some j)])) (SpendDone (Some k)) \<le> 1" for k
    using D(2) [of k] new by (auto simp: count_update [OF assms(2)] count_eq_zero_iff simp flip: set_mset_mset)
  show "bk_used r" if k: "SpendDone (Some k) \<in> set (ps[i := SpendDone (Some j)])" "r \<in> set ?t" "bk_id r = k" for k r
  proof -
    obtain r0 where r0: "r0 \<in> set t" "r = (if bk_id r0 = j \<and> \<not> bk_used r0 then r0\<lparr>bk_used := True\<rparr> else r0)"
      using k(2) by (auto simp: set_sql_update)
    then show ?thesis using in_update [OF k(1)] D(3) [of k r0] k(3) by (auto split: if_splits)
  qed
qed

lemma spend_inv_step:
  assumes "spend_sys compare x y" "spend_inv x"
  shows "spend_inv y"
  using assms
proof (induction rule: spend_sys.induct)
  case (arrive t ps userId code)
  then show ?case by (simp add: spend_inv_def)
next
  case (statement i ps t p t')
  then show ?case
    by (cases "ps ! i") (auto intro: spend_inv_quiet spend_inv_spent split: option.splits if_splits)
next
  case (renew d userId fresh now us t ok db ps)
  note D = spend_invD [OF renew.prems]
  show ?case
  proof (cases "wd_codes db = t")
    case False
    then have c: "wd_codes db = filter (\<lambda>r. bk_user r \<noteq> userId) t @
        map (\<lambda>(i, h). \<lparr>bk_id = i, bk_user = userId, bk_hash = h, bk_used = False, bk_created = now\<rparr>) fresh"
      using renew.hyps(1) by (auto simp: generateAndStoreBackupCodes_def split: option.splits if_splits)
    show ?thesis unfolding c spend_inv_def prod.case
    proof (intro conjI allI impI ballI)
      have ids: "map (bk_id \<circ> (\<lambda>(i, h). \<lparr>bk_id = i, bk_user = userId, bk_hash = h, bk_used = False, bk_created = now\<rparr>)) fresh = map fst fresh"
        by (simp add: case_prod_beta)
      show "distinct (map bk_id (filter (\<lambda>r. bk_user r \<noteq> userId) t @
          map (\<lambda>(i, h). \<lparr>bk_id = i, bk_user = userId, bk_hash = h, bk_used = False, bk_created = now\<rparr>) fresh))"
        using D(1) renew.hyps(2,3) unfolding map_append map_map ids by (auto simp: distinct_map_filter)
      show "count (mset ps) (SpendDone (Some i)) \<le> 1" for i by (rule D)
      show "bk_used r" if "SpendDone (Some i) \<in> set ps" "r \<in> set (filter (\<lambda>r. bk_user r \<noteq> userId) t @
          map (\<lambda>(i, h). \<lparr>bk_id = i, bk_user = userId, bk_hash = h, bk_used = False, bk_created = now\<rparr>) fresh)" "bk_id r = i" for i r
        using that D(3) [of i r] renew.hyps(4) by force
    qed
  qed (use renew in simp)
qed

lemma spend_runs_inv: "(spend_sys compare)\<^sup>*\<^sup>* x y \<Longrightarrow> spend_inv x \<Longrightarrow> spend_inv y"
  by (induction rule: rtranclp_induct) (auto intro: spend_inv_step)

section \<open>Documentation and behaviour\<close>

context redis_client
begin

lemma accepted_again:
  assumes "rq_user rq = Some u" "is2FAEnabled u" "requireTwoFactor totp compare R (calm t) rq s = (NextHandler True, es, s')"
  shows "fst (requireTwoFactor totp compare R (calm t') rq s') = NextHandler True"
proof -
  have a: "rq_jwt rq" "given (rq_totp rq) \<or> (given (rq_backup rq) \<and> us_backup_codes u \<noteq> None)" "code_accepted totp compare u rq"
    and s': "s' = snd (r_del R t [getKey (us_id u)] s)"
    using assms by (auto simp: requireTwoFactor_def resetFailures_def calm_def link_up_def split: if_splits option.splits bool.splits prod.splits)
  have "r_get R t' (getKey (us_id u)) s' = None" by (simp add: s' get_law del_entries live_value_def)
  then show ?thesis using a assms(1,2)
    by (simp add: requireTwoFactor_def limiter_isLocked_def resetFailures_def calm_def link_up_def)
qed

end

section \<open>A customer with one backup code\<close>

definition demo_code :: BackupCode where
  "demo_code = \<lparr>bk_id = ''c1'', bk_user = ''u'', bk_hash = ''h'', bk_used = False, bk_created = 0\<rparr>"

definition demo_customer :: tf_user where
  "demo_customer = \<lparr>us_id = ''u'', us_email = Some ''mail'', us_secret = Some ''sec'', us_enabled = True, us_verified = True,
     us_backup_codes = Some [demo_code], us_mandatory = True, us_deleted = False\<rparr>"

definition demo_compare :: "string \<Rightarrow> string \<Rightarrow> bool" where
  "demo_compare code hash \<longleftrightarrow> code = ''code'' \<and> hash = ''h''"

definition demo_2fa_request :: tf_request where
  "demo_2fa_request = \<lparr>rq_jwt = True, rq_user = Some demo_customer, rq_totp = None, rq_backup = Some ''code''\<rparr>"

fun spend_exec :: "(string \<Rightarrow> string \<Rightarrow> bool) \<Rightarrow> (id \<times> string + nat) list \<Rightarrow> spend_system \<Rightarrow> spend_system" where
  "spend_exec compare [] x = x"
| "spend_exec compare (Inl (u, c) # as) (t, ps) = spend_exec compare as (t, ps @ [SpendRead u c])"
| "spend_exec compare (Inr i # as) (t, ps) =
     (if i < length ps then (case spend_step compare (ps ! i) t of (p, t') \<Rightarrow> spend_exec compare as (t', ps[i := p]))
      else spend_exec compare as (t, ps))"

lemma spend_exec_runs: "(spend_sys compare)\<^sup>*\<^sup>* x (spend_exec compare as x)"
proof (induction compare as x rule: spend_exec.induct)
  case (2 compare u c as t ps)
  have "(spend_sys compare)\<^sup>*\<^sup>* (t, ps @ [SpendRead u c]) (spend_exec compare as (t, ps @ [SpendRead u c]))" by (rule 2)
  from converse_rtranclp_into_rtranclp [of "spend_sys compare", OF spend_sys.arrive this] show ?case by simp
next
  case (3 compare i as t ps)
  then show ?case using converse_rtranclp_into_rtranclp [of "spend_sys compare" "(t, ps)"] spend_sys.statement [of i ps compare t]
    by (auto split: prod.split)
qed simp

section \<open>Theorems\<close>

text \<open>
  Guessing codes is slow: of any sequence of wrong codes for one user, those that are not turned away
  never number ten within fifteen minutes.
\<close>

theorem two_factor_attempts_bounded:
  assumes "redis_client R view" "\<not> alive T (view s (getKey userId))" "sorted (T # ts)"
    "i + 9 < length (admitted (tf_locked R userId) (tf_fail R userId) s ts)"
  shows "admitted (tf_locked R userId) (tf_fail R userId) s ts ! i + FAILURE_WINDOW_SECONDS * 1000 <
    admitted (tf_locked R userId) (tf_fail R userId) s ts ! (i + 9)"
proof -
  have L: "two_factor_limiter R view" using assms(1) by (simp add: two_factor_limiter_def)
  have "two_factor_limiter.tsim view userId T s Unguarded" using assms(2) by (simp add: two_factor_limiter.tsim_def [OF L])
  from two_factor_limiter.codes_bounded [OF L this assms(3) two_factor_limiter.proper_always [OF L]] assms(4)
  show ?thesis by (simp add: limits)
qed

theorem two_factor_attempts_bounded_witness:
  "admitted (tf_locked memory_redis ''u'') (tf_fail memory_redis ''u'') []
     [0, 890000, 891000, 892000, 901000, 902000, 903000, 904000, 905000, 906000, 2706000] =
     [0, 890000, 891000, 892000, 901000, 902000, 903000, 904000, 905000, 2706000] \<and> (0 :: int) + 900000 < 2706000"
proof -
  let ?ts = "[0, 890000, 891000, 892000, 901000, 902000, 903000, 904000, 905000, 906000, 2706000] :: int list"
  have a: "admitted (tf_locked memory_redis ''u'') (tf_fail memory_redis ''u'') [] ?ts =
     [0, 890000, 891000, 892000, 901000, 902000, 903000, 904000, 905000, 2706000]" by code_simp
  with two_factor_attempts_bounded [OF memory.redis_client_axioms, of 0 "[]" "''u''" ?ts 0] show ?thesis by (simp add: limits)
qed

lemma never_enabled: "find_user d userId db = Some (Some u) \<Longrightarrow> \<not> is2FAEnabled u"
  by (auto simp: find_user_def returned_user_def is2FAEnabled_def Let_def split: db_link.splits)

text \<open>
  C29. The guard of withdrawals never looks at a code. The user object it gets lacks the two flags without which
  two-factor authentication counts as not enabled, so a customer whose row demands a second factor is refused every
  withdrawal (or gets no answer, if the second lookup throws), whatever codes the request carries; no code is spent and no failed
  attempt is counted. Every other signed-in customer passes, also one whose row is not found or cannot be read. Nobody can
  switch the demand on: only the job that rates risks sets it.
\<close>

theorem second_factor_never_checked:
  "validate2FAForWithdrawal totp compare R c d1 d2 (Some userId) otpToken backupCode db s =
    (case find_user d1 userId db of
       Some (Some u) \<Rightarrow> if us_mandatory u then if find_user d2 userId db = None then Throws else Status 401 else NextHandler False
     | _ \<Rightarrow> NextHandler False, db, s) \<and>
   updateMandatory2FAWithdrawals d userId True db = (False, db)"
proof
  have "verifyWithdrawal2FA totp compare R c d2 userId otpToken backupCode db s =
      (case find_user d2 userId db of None \<Rightarrow> VerificationThrows | Some None \<Rightarrow> NotVerified UserNotFound
       | Some (Some u) \<Rightarrow> NotVerified NotEnabled, db, s)"
    using never_enabled [of d2 userId db] by (auto simp: verifyWithdrawal2FA_def split: option.splits)
  then show "validate2FAForWithdrawal totp compare R c d1 d2 (Some userId) otpToken backupCode db s =
    (case find_user d1 userId db of
       Some (Some u) \<Rightarrow> if us_mandatory u then if find_user d2 userId db = None then Throws else Status 401 else NextHandler False
     | _ \<Rightarrow> NextHandler False, db, s)"
    by (auto simp: validate2FAForWithdrawal_def requires2FAForWithdrawal_def Let_def split: option.splits)
  show "updateMandatory2FAWithdrawals d userId True db = (False, db)"
    using never_enabled [of d userId db] by (auto simp: updateMandatory2FAWithdrawals_def split: option.splits)
qed

text \<open>
  A backup code is spent once: however the statements of concurrent requests and renewals
  interleave, at most one request succeeds with a given code.
\<close>

theorem backup_code_spent_once:
  assumes "(spend_sys compare)\<^sup>*\<^sup>* (t, []) (t', ps)" "distinct (map bk_id t)"
  shows "count (mset ps) (SpendDone (Some i)) \<le> 1"
  using spend_runs_inv [OF assms(1)] assms(2) by (simp add: spend_inv_def)

theorem backup_code_spent_once_witness:
  "spend_exec demo_compare [Inl (''u'', ''code''), Inl (''u'', ''code''), Inr 0, Inr 1, Inr 1, Inr 0] ([demo_code], []) =
     ([demo_code\<lparr>bk_used := True\<rparr>], [SpendDone None, SpendDone (Some ''c1'')]) \<and>
   count (mset [SpendDone None, SpendDone (Some ''c1'')]) (SpendDone (Some ''c1'')) \<le> 1"
proof -
  let ?as = "[Inl (''u'', ''code''), Inl (''u'', ''code''), Inr 0, Inr 1, Inr 1, Inr 0]"
  have e: "spend_exec demo_compare ?as ([demo_code], []) = ([demo_code\<lparr>bk_used := True\<rparr>], [SpendDone None, SpendDone (Some ''c1'')])"
    by code_simp
  from backup_code_spent_once [OF spend_exec_runs [of demo_compare "([demo_code], [])" ?as, unfolded e]] e show ?thesis by simp
qed

text \<open>
  The middleware does not spend backup codes: a request it accepted is accepted again at any
  later time, with the same single-use code.
\<close>

theorem backup_code_replay:
  assumes "redis_client R view" "rq_user rq = Some u" "is2FAEnabled u" "given (rq_backup rq)" "\<not> given (rq_totp rq)"
    "requireTwoFactor totp compare R (calm t) rq s = (NextHandler True, es, s')"
  shows "fst (requireTwoFactor totp compare R (calm t') rq s') = NextHandler True"
  by (rule redis_client.accepted_again [OF assms(1-3,6)])

theorem backup_code_replay_witness:
  "fst (requireTwoFactor (\<lambda>_ _. False) demo_compare memory_redis (calm 86400000) demo_2fa_request
     (snd (snd (requireTwoFactor (\<lambda>_ _. False) demo_compare memory_redis (calm 0) demo_2fa_request [])))) = NextHandler True"
proof -
  let ?v = "requireTwoFactor (\<lambda>_ _. False) demo_compare memory_redis (calm 0) demo_2fa_request []"
  have "fst ?v = NextHandler True" by code_simp
  then have v: "?v = (NextHandler True, fst (snd ?v), snd (snd ?v))" by (metis prod.collapse)
  have "rq_user demo_2fa_request = Some demo_customer" "is2FAEnabled demo_customer" "given (rq_backup demo_2fa_request)"
    "\<not> given (rq_totp demo_2fa_request)" by code_simp+
  from backup_code_replay [OF memory.redis_client_axioms this v] show ?thesis .
qed

text \<open>
  The guard of withdrawals fails open: if the query for the user throws, the withdrawal proceeds
  without a second factor, whatever the customer demanded and the request carries.
\<close>

theorem withdrawal_guard_fails_open:
  "validate2FAForWithdrawal totp compare R c DbDown d (Some userId) otpToken backupCode db s = (NextHandler False, db, s)"
  by (simp add: validate2FAForWithdrawal_def requires2FAForWithdrawal_def find_user_def)

end
