(* ===== verification/Idempotency.thy ===== *)
theory Idempotency
  imports Prelude
begin

text \<open>
  Idempotency of payment requests (\<^verbatim>\<open>src/middleware/idempotency.ts\<close>): \<open>strictIdempotency\<close> with its
  response cache and lock in Redis, and the older \<open>idempotency\<close> over PostgreSQL. Requests interleave
  between awaited calls; an exchange is a small machine, and a run follows an arbitrary schedule of
  arrivals, steps, answers of the handlers, closing connections and time. Redis with its lock library,
  the hash function and the JSON text of a request are parameters.
\<close>

section \<open>Requests and keys\<close>

datatype header_value = Absent | Single string | Several "string list"

fun header_key :: "header_value \<Rightarrow> string option" where
  "header_key Absent = None"
| "header_key (Single k) = Some k"
| "header_key (Several ks) = (case ks of [] \<Rightarrow> None | k # _ \<Rightarrow> Some k)"

record request =
  rq_header :: header_value
  rq_jwt_user :: "string option" \<comment> \<open>\<^verbatim>\<open>req.jwtUser?.userId\<close>\<close>
  rq_user :: "string option" \<comment> \<open>\<^verbatim>\<open>req.user?.id\<close>\<close>
  rq_method :: string
  rq_base :: string
  rq_route :: "string option"
  rq_path :: string
  rq_payload :: "string \<Rightarrow> string" \<comment> \<open>the JSON text that is hashed, for a key\<close>

definition given_key :: "request \<Rightarrow> string option" where
  \<comment> \<open>the key, unless it is missing or blank\<close>
  "given_key r = (case header_key (rq_header r) of
     None \<Rightarrow> None | Some k \<Rightarrow> if js_trim k = [] then None else Some k)"

definition request_identity :: "request \<Rightarrow> string" where
  "request_identity r = (case rq_jwt_user r of Some u \<Rightarrow> u
     | None \<Rightarrow> (case rq_user r of Some u \<Rightarrow> u | None \<Rightarrow> ''anonymous''))"

definition buildCacheKey :: "request \<Rightarrow> string \<Rightarrow> string" where
  "buildCacheKey r key = ''idempotency:'' @ request_identity r @ '':'' @ rq_method r @ '':'' @ rq_base r @
     (case rq_route r of Some p \<Rightarrow> if p = [] then rq_path r else p | None \<Rightarrow> rq_path r) @ '':'' @ key"

definition fingerprintRequest :: "(string \<Rightarrow> string) \<Rightarrow> request \<Rightarrow> string \<Rightarrow> string" where
  "fingerprintRequest sha r key = sha (rq_payload r key)"

definition lockResource :: "(string \<Rightarrow> string) \<Rightarrow> string \<Rightarrow> string" where
  "lockResource sha cacheKey = ''idempotency:'' @ sha cacheKey"

section \<open>Answers\<close>

datatype json_value = JsonText string | JsonString string

datatype response_body = AsJson json_value | AsText string

record response =
  rs_status :: int
  rs_body :: response_body

record CachedIdempotentResponse =
  ci_status :: int
  ci_body :: json_value
  ci_fingerprint :: string

datatype cached_text = Entry CachedIdempotentResponse | NotJson

datatype idem_answer = KeyRequired | KeyReuse | InProgress | Replayed int json_value | Handled response

fun captured :: "response_body \<Rightarrow> json_value" where
  \<comment> \<open>what \<^verbatim>\<open>persist\<close> is given by \<^verbatim>\<open>res.json\<close> and \<^verbatim>\<open>res.send\<close>\<close>
  "captured (AsJson v) = v"
| "captured (AsText s) = JsonString s"

definition answer_from :: "cached_text \<Rightarrow> string \<Rightarrow> idem_answer" where
  \<comment> \<open>the body of \<^verbatim>\<open>replayIfCached\<close> once the cache had something\<close>
  "answer_from c fingerprint =
     (let cached = (case c of Entry x \<Rightarrow> x
        | NotJson \<Rightarrow> \<lparr>ci_status = 500, ci_body = JsonText ''{\"error\":\"Corrupt idempotency cache entry\"}'', ci_fingerprint = []\<rparr>)
      in if ci_fingerprint cached \<noteq> [] \<and> ci_fingerprint cached \<noteq> fingerprint then KeyReuse
         else Replayed (ci_status cached) (ci_body cached))"

section \<open>The services\<close>

record ('t, 's) shared_store =
  ss_get :: "millis \<Rightarrow> string \<Rightarrow> 's \<Rightarrow> cached_text option"
  ss_set_ex :: "millis \<Rightarrow> string \<Rightarrow> cached_text \<Rightarrow> int \<Rightarrow> 's \<Rightarrow> 's"
  ss_acquire :: "millis \<Rightarrow> string \<Rightarrow> int \<Rightarrow> 's \<Rightarrow> ('t \<times> 's) option"
  ss_release :: "'t \<Rightarrow> 's \<Rightarrow> 's"

definition IDEMPOTENCY_TTL_SECONDS :: int where
  "IDEMPOTENCY_TTL_SECONDS = 24 * 60 * 60"

definition LOCK_TTL_SECONDS :: int where
  "LOCK_TTL_SECONDS = 60"

section \<open>One exchange\<close>

datatype 't exchange_phase =
    LookUp \<comment> \<open>before the first lookup\<close>
  | TakeLock
  | Recheck 't
  | GiveUp 't \<comment> \<open>the second lookup threw: release the lock, then go on unsafely\<close>
  | Handler "'t option" \<comment> \<open>after \<^verbatim>\<open>next()\<close>, with the lock if there is one\<close>
  | Over

datatype 't background = Quiet | Save 't CachedIdempotentResponse | Release 't

record 't exchange =
  ex_request :: request
  ex_phase :: "'t exchange_phase"
  ex_finished :: bool
  ex_background :: "'t background"
  ex_since :: millis \<comment> \<open>when the lock was taken\<close>
  ex_answer :: "idem_answer option"

datatype outcome = Works | Throws

datatype exchange_act =
    Proceed outcome \<comment> \<open>the next awaited call returns or throws\<close>
  | Respond response \<comment> \<open>the handler calls \<^verbatim>\<open>res.json\<close> or \<^verbatim>\<open>res.send\<close>\<close>
  | Close \<comment> \<open>the events \<^verbatim>\<open>finish\<close> and \<^verbatim>\<open>close\<close> of the response\<close>
  | Continue outcome \<comment> \<open>the promise chain behind \<^verbatim>\<open>persist\<close> and \<^verbatim>\<open>releaseLock\<close>\<close>

definition new_exchange :: "request \<Rightarrow> 't exchange" where
  "new_exchange r = \<lparr>ex_request = r, ex_phase = (if given_key r = None then Over else LookUp), ex_finished = False,
     ex_background = Quiet, ex_since = 0, ex_answer = (if given_key r = None then Some KeyRequired else None)\<rparr>"

definition request_cache_key :: "request \<Rightarrow> string" where
  "request_cache_key r = buildCacheKey r (the (given_key r))"

definition fingerprint_of :: "(string \<Rightarrow> string) \<Rightarrow> request \<Rightarrow> string" where
  "fingerprint_of sha r = fingerprintRequest sha r (the (given_key r))"

definition proceed ::
  "(string \<Rightarrow> string) \<Rightarrow> ('t, 's) shared_store \<Rightarrow> millis \<Rightarrow> outcome \<Rightarrow> 't exchange \<Rightarrow> 's \<Rightarrow> 't exchange \<times> 's" where
  "proceed sha R now out x s =
     (let key = request_cache_key (ex_request x); fingerprint = fingerprint_of sha (ex_request x)
      in case ex_phase x of
        LookUp \<Rightarrow> (case out of
            Throws \<Rightarrow> (x\<lparr>ex_phase := Handler None\<rparr>, s)
          | Works \<Rightarrow> (case ss_get R now key s of
              Some c \<Rightarrow> (x\<lparr>ex_phase := Over, ex_answer := Some (answer_from c fingerprint)\<rparr>, s)
            | None \<Rightarrow> (x\<lparr>ex_phase := TakeLock\<rparr>, s)))
      | TakeLock \<Rightarrow> (case out of
            Throws \<Rightarrow> (x\<lparr>ex_phase := Handler None\<rparr>, s)
          | Works \<Rightarrow> (case ss_acquire R now (lockResource sha key) (LOCK_TTL_SECONDS * 1000) s of
              None \<Rightarrow> (x\<lparr>ex_phase := Over, ex_answer := Some InProgress\<rparr>, s)
            | Some (t, s') \<Rightarrow> (x\<lparr>ex_phase := Recheck t, ex_since := now\<rparr>, s')))
      | Recheck t \<Rightarrow> (case out of
            Throws \<Rightarrow> (x\<lparr>ex_phase := GiveUp t\<rparr>, s)
          | Works \<Rightarrow> (case ss_get R now key s of
              Some c \<Rightarrow> (x\<lparr>ex_phase := Over, ex_background := Release t,
                  ex_answer := Some (answer_from c fingerprint)\<rparr>, s)
            | None \<Rightarrow> (x\<lparr>ex_phase := Handler (Some t)\<rparr>, s)))
      | GiveUp t \<Rightarrow> (x\<lparr>ex_phase := Handler None\<rparr>, case out of Works \<Rightarrow> ss_release R t s | Throws \<Rightarrow> s)
      | _ \<Rightarrow> (x, s))"

definition persist :: "(string \<Rightarrow> string) \<Rightarrow> 't \<Rightarrow> response \<Rightarrow> 't exchange \<Rightarrow> 't exchange" where
  "persist sha t r x = (if ex_finished x then x
     else x\<lparr>ex_finished := True, ex_background := Save t \<lparr>ci_status = rs_status r, ci_body = captured (rs_body r),
       ci_fingerprint = fingerprint_of sha (ex_request x)\<rparr>\<rparr>)"

definition releaseLock :: "'t \<Rightarrow> 't exchange \<Rightarrow> 't exchange" where
  "releaseLock t x = (if ex_finished x then x else x\<lparr>ex_finished := True, ex_background := Release t\<rparr>)"

definition respond :: "(string \<Rightarrow> string) \<Rightarrow> response \<Rightarrow> 't exchange \<Rightarrow> 't exchange" where
  "respond sha r x = (case ex_phase x of
     Handler (Some t) \<Rightarrow> (persist sha t r x)\<lparr>ex_phase := Over, ex_answer := Some (Handled r)\<rparr>
   | Handler None \<Rightarrow> x\<lparr>ex_phase := Over, ex_answer := Some (Handled r)\<rparr>
   | _ \<Rightarrow> x)"

definition close_response :: "'t exchange \<Rightarrow> 't exchange" where
  \<comment> \<open>after an answer the listeners find \<^verbatim>\<open>finished\<close> set\<close>
  "close_response x = (case ex_phase x of Handler (Some t) \<Rightarrow> releaseLock t x | _ \<Rightarrow> x)"

definition continue ::
  "('t, 's) shared_store \<Rightarrow> millis \<Rightarrow> outcome \<Rightarrow> 't exchange \<Rightarrow> 's \<Rightarrow> 't exchange \<times> 's" where
  "continue R now out x s = (case ex_background x of
     Quiet \<Rightarrow> (x, s)
   | Save t c \<Rightarrow> (x\<lparr>ex_background := Release t\<rparr>, case out of
        Works \<Rightarrow> ss_set_ex R now (request_cache_key (ex_request x)) (Entry c) IDEMPOTENCY_TTL_SECONDS s | Throws \<Rightarrow> s)
   | Release t \<Rightarrow> (x\<lparr>ex_background := Quiet\<rparr>, case out of Works \<Rightarrow> ss_release R t s | Throws \<Rightarrow> s))"

fun exchange_step ::
  "(string \<Rightarrow> string) \<Rightarrow> ('t, 's) shared_store \<Rightarrow> millis \<Rightarrow> exchange_act \<Rightarrow> 't exchange \<Rightarrow> 's \<Rightarrow> 't exchange \<times> 's" where
  "exchange_step sha R now (Proceed out) x s = proceed sha R now out x s"
| "exchange_step sha R now (Respond r) x s = (respond sha r x, s)"
| "exchange_step sha R now Close x s = (close_response x, s)"
| "exchange_step sha R now (Continue out) x s = continue R now out x s"

section \<open>Interleaved exchanges\<close>

record execution =
  xc_key :: string
  xc_time :: millis
  xc_exchange :: nat

record ('t, 's) idem_world =
  iw_now :: millis
  iw_store :: 's
  iw_exchanges :: "'t exchange list"
  iw_log :: "execution list" \<comment> \<open>the calls of \<^verbatim>\<open>next()\<close>\<close>

datatype idem_act = Wait int | Arrive request | Act nat exchange_act

fun in_handler :: "'t exchange_phase \<Rightarrow> bool" where
  "in_handler (Handler l) \<longleftrightarrow> True"
| "in_handler _ \<longleftrightarrow> False"

fun idem_step ::
  "(string \<Rightarrow> string) \<Rightarrow> ('t, 's) shared_store \<Rightarrow> idem_act \<Rightarrow> ('t, 's) idem_world \<Rightarrow> ('t, 's) idem_world" where
  "idem_step sha R (Wait d) w = w\<lparr>iw_now := iw_now w + max 0 d\<rparr>"
| "idem_step sha R (Arrive r) w = w\<lparr>iw_exchanges := iw_exchanges w @ [new_exchange r]\<rparr>"
| "idem_step sha R (Act i a) w =
     (if i < length (iw_exchanges w) then
        (case exchange_step sha R (iw_now w) a (iw_exchanges w ! i) (iw_store w) of (x, s) \<Rightarrow>
           w\<lparr>iw_store := s, iw_exchanges := (iw_exchanges w)[i := x],
             iw_log := (if in_handler (ex_phase x) \<and> \<not> in_handler (ex_phase (iw_exchanges w ! i))
               then iw_log w @ [\<lparr>xc_key = request_cache_key (ex_request x), xc_time = iw_now w, xc_exchange = i\<rparr>] else iw_log w)\<rparr>)
      else w)"

definition idem_run ::
  "(string \<Rightarrow> string) \<Rightarrow> ('t, 's) shared_store \<Rightarrow> idem_act list \<Rightarrow> ('t, 's) idem_world \<Rightarrow> ('t, 's) idem_world" where
  "idem_run sha R acts w = fold (idem_step sha R) acts w"

definition idem_start :: "millis \<Rightarrow> 's \<Rightarrow> ('t, 's) idem_world" where
  "idem_start now s = \<lparr>iw_now = now, iw_store = s, iw_exchanges = [], iw_log = []\<rparr>"

section \<open>The middleware over PostgreSQL\<close>

datatype key_status = Processing | Finished response

record pg_idempotency =
  pg_free :: nat \<comment> \<open>idle clients of the pool\<close>
  pg_locks :: "int list" \<comment> \<open>advisory locks, each held by a client of its own\<close>
  pg_keys :: "(string \<times> key_status) list"
  pg_executed :: "string list" \<comment> \<open>the calls of \<^verbatim>\<open>next()\<close> with a key\<close>

datatype pg_answer =
    PassThrough
  | NoClient \<comment> \<open>\<^verbatim>\<open>getPoolClient\<close> does not return\<close>
  | Concurrent
  | StillProcessing
  | Original response
  | Execute \<comment> \<open>the handler runs; \<open>finalize\<close> follows when it sends\<close>

definition idempotency ::
  "(string \<Rightarrow> int) \<Rightarrow> string option \<Rightarrow> pg_idempotency \<Rightarrow> pg_answer \<times> pg_idempotency" where
  "idempotency lockId header db = (case header of
     None \<Rightarrow> (PassThrough, db)
   | Some key \<Rightarrow>
       if key = [] then (PassThrough, db)
       else if pg_free db = 0 then (NoClient, db)
       else let taken = db\<lparr>pg_free := pg_free db - 1\<rparr>
            in if lockId key \<in> set (pg_locks db) then (Concurrent, taken)
               else (case map_of (pg_keys db) key of
                   Some (Finished r) \<Rightarrow> (Original r, db)
                 | Some Processing \<Rightarrow> (StillProcessing, db)
                 | None \<Rightarrow> (Execute, taken\<lparr>pg_locks := lockId key # pg_locks db,
                     pg_keys := (key, Processing) # pg_keys db, pg_executed := key # pg_executed db\<rparr>)))"

definition finalize :: "(string \<Rightarrow> int) \<Rightarrow> string \<Rightarrow> response \<Rightarrow> pg_idempotency \<Rightarrow> pg_idempotency" where
  \<comment> \<open>the wrapped \<^verbatim>\<open>res.send\<close> of the request that executes\<close>
  "finalize lockId key r db = db\<lparr>pg_free := pg_free db + 1, pg_locks := remove1 (lockId key) (pg_locks db),
     pg_keys := map (\<lambda>(k, st). (k, if k = key then Finished r else st)) (pg_keys db)\<rparr>"

datatype pg_act = Request "string option" | Send string response

fun pg_step :: "(string \<Rightarrow> int) \<Rightarrow> pg_act \<Rightarrow> pg_idempotency \<Rightarrow> pg_idempotency" where
  "pg_step lockId (Request header) db = snd (idempotency lockId header db)"
| "pg_step lockId (Send key r) db =
     (if map_of (pg_keys db) key = Some Processing then finalize lockId key r db else db)"

end
