(* ===== verification/Idempotency_Safety.thy ===== *)
theory Idempotency_Safety
  imports Idempotency "HOL-Library.AList"
begin

text \<open>
  What the idempotency of payments rests on. The locale \<open>idem_store\<close> states what the documentation of
  Redis and of its lock library promises. On orderly schedules the handlers of one key start more than
  a day apart, and whatever is replayed was the answer of a handler to the same request; a closing
  connection breaks the first of these.
\<close>

section \<open>The documented services\<close>

definition day :: int where
  "day = IDEMPOTENCY_TTL_SECONDS * 1000"

definition lease :: int where
  "lease = LOCK_TTL_SECONDS * 1000"

locale idem_store =
  fixes R :: "('t, 's) shared_store"
    and cached :: "'s \<Rightarrow> string \<Rightarrow> (cached_text \<times> millis) option"
    and held :: "'s \<Rightarrow> string \<Rightarrow> ('t \<times> millis) option"
    and issued :: "'s \<Rightarrow> 't set"
  assumes get_law: "ss_get R now k s = live now (cached s k)"
    and set_law: "cached (ss_set_ex R now k c secs s) = (cached s)(k \<mapsto> (c, now + secs * 1000))"
      "held (ss_set_ex R now k c secs s) = held s" "issued (ss_set_ex R now k c secs s) = issued s"
    and acquire_none: "ss_acquire R now r ttl s = None \<longleftrightarrow> live now (held s r) \<noteq> None"
    and acquire_law: "ss_acquire R now r ttl s = Some (t, s') \<Longrightarrow>
      cached s' = cached s \<and> held s' = (held s)(r \<mapsto> (t, now + ttl)) \<and> t \<notin> issued s \<and> issued s' = insert t (issued s)"
    and release_law: "held (ss_release R t s) = (\<lambda>r. case held s r of
        Some (t', e) \<Rightarrow> if t' = t then None else Some (t', e) | None \<Rightarrow> None)"
      "cached (ss_release R t s) = cached s" "issued (ss_release R t s) = issued s"

section \<open>Exchanges that hold a lock\<close>

fun phase_tokens :: "'t exchange_phase \<Rightarrow> 't set" where
  "phase_tokens (Recheck t) = {t}"
| "phase_tokens (GiveUp t) = {t}"
| "phase_tokens (Handler (Some t)) = {t}"
| "phase_tokens _ = {}"

fun background_tokens :: "'t background \<Rightarrow> 't set" where
  "background_tokens Quiet = {}"
| "background_tokens (Save t c) = {t}"
| "background_tokens (Release t) = {t}"

definition tokens :: "'t exchange \<Rightarrow> 't set" where
  "tokens x = phase_tokens (ex_phase x) \<union> background_tokens (ex_background x)"

definition holding :: "'t exchange \<Rightarrow> 't option" where
  \<comment> \<open>the lock on which the exchange relies\<close>
  "holding x = (case ex_phase x of
     Recheck t \<Rightarrow> Some t
   | Handler (Some t) \<Rightarrow> if ex_finished x then None else Some t
   | _ \<Rightarrow> (case ex_background x of Save t c \<Rightarrow> Some t | _ \<Rightarrow> None))"

definition working :: "'t exchange \<Rightarrow> bool" where
  "working x \<longleftrightarrow> holding x \<noteq> None \<and> (case ex_phase x of Recheck t \<Rightarrow> False | _ \<Rightarrow> True)"

definition shape :: "'t exchange \<Rightarrow> bool" where
  "shape x \<longleftrightarrow>
     (case ex_phase x of
        Over \<Rightarrow> True
      | GiveUp t \<Rightarrow> False
      | Handler None \<Rightarrow> False
      | _ \<Rightarrow> ex_background x = Quiet \<and> \<not> ex_finished x)"

fun benign :: "exchange_act \<Rightarrow> 't exchange \<Rightarrow> bool" where
  \<comment> \<open>no call throws, and the connection closes only after an answer\<close>
  "benign (Proceed out) x \<longleftrightarrow> out = Works"
| "benign (Respond r) x \<longleftrightarrow> True"
| "benign Close x \<longleftrightarrow> \<not> in_handler (ex_phase x)"
| "benign (Continue out) x \<longleftrightarrow> out = Works"

definition timely :: "millis \<Rightarrow> 't exchange \<Rightarrow> bool" where
  \<comment> \<open>the work under a lock is done before the lock expires\<close>
  "timely now x \<longleftrightarrow> (holding x = None \<or> now \<le> ex_since x + lease)"

definition lock_of :: "(string \<Rightarrow> string) \<Rightarrow> 't exchange \<Rightarrow> string" where
  "lock_of sha x = lockResource sha (request_cache_key (ex_request x))"

fun orderly :: "(string \<Rightarrow> string) \<Rightarrow> ('t, 's) shared_store \<Rightarrow> idem_act list \<Rightarrow> ('t, 's) idem_world \<Rightarrow> bool" where
  "orderly sha R [] w \<longleftrightarrow> list_all (timely (iw_now w)) (iw_exchanges w)"
| "orderly sha R (a # as) w \<longleftrightarrow> list_all (timely (iw_now w)) (iw_exchanges w) \<and>
     (case a of Act i b \<Rightarrow> i < length (iw_exchanges w) \<longrightarrow> benign b (iw_exchanges w ! i) | _ \<Rightarrow> True) \<and>
     orderly sha R as (idem_step sha R a w)"

lemmas exchange_defs = tokens_def holding_def working_def shape_def proceed_def continue_def respond_def
  close_response_def persist_def releaseLock_def Let_def

lemma exchange_request: "ex_request (fst (exchange_step sha R now a x s)) = ex_request x"
  by (cases a) (auto simp: exchange_defs split: exchange_phase.splits background.splits option.splits outcome.splits)

lemma holding_token: "holding x = Some t \<Longrightarrow> t \<in> tokens x"
  by (auto simp: holding_def tokens_def split: exchange_phase.splits background.splits option.splits if_splits)

lemma working_holding: "working x \<Longrightarrow> \<exists>t. holding x = Some t"
  by (auto simp: working_def)

text \<open>The steps from the arrival of a request to its handler.\<close>

definition executes :: "nat \<Rightarrow> idem_act list" where
  "executes i = replicate 3 (Act i (Proceed Works))"

section \<open>The effect of a step\<close>

lemma store_effect:
  assumes "shape x" "exchange_step sha R now a x s = (x', s')"
  obtains (same) "s' = s" "tokens x' \<subseteq> tokens x"
  | (acquire) t where "ex_phase x = TakeLock" "ss_acquire R now (lock_of sha x) lease s = Some (t, s')"
      "x' = x\<lparr>ex_phase := Recheck t, ex_since := now\<rparr>"
  | (save) t c where "ex_background x = Save t c" "x' = x\<lparr>ex_background := Release t\<rparr>"
      "s' = ss_set_ex R now (request_cache_key (ex_request x)) (Entry c) IDEMPOTENCY_TTL_SECONDS s"
  | (release) t where "ex_background x = Release t" "x' = x\<lparr>ex_background := Quiet\<rparr>" "s' = ss_release R t s"
proof (cases a)
  case (Proceed out)
  then show ?thesis using assms
    by (cases "ex_phase x"; cases out; auto simp: exchange_defs lock_of_def lease_def split: option.splits intro: that)
next
  case (Respond r)
  then show ?thesis using assms by (auto simp: exchange_defs split: exchange_phase.splits option.splits if_splits intro: that)
next
  case Close
  then show ?thesis using assms by (auto simp: exchange_defs split: exchange_phase.splits option.splits if_splits intro: that)
next
  case (Continue out)
  then show ?thesis using assms
    by (cases "ex_background x"; cases out; auto simp: exchange_defs split: exchange_phase.splits option.splits intro: that)
qed

lemma step_shape: "shape x \<Longrightarrow> benign a x \<Longrightarrow> shape (fst (exchange_step sha R now a x s))"
  by (cases a) (auto simp: exchange_defs split: exchange_phase.splits background.splits option.splits if_splits outcome.splits)


lemma holding_effect:
  assumes "shape x" "benign a x" "exchange_step sha R now a x s = (x', s')" "holding x' = Some t"
  shows "(holding x = Some t \<and> ex_since x' = ex_since x) \<or> (ex_phase x = TakeLock \<and> ex_phase x' = Recheck t \<and> ex_since x' = now)"
  using assms by (cases a) (auto simp: exchange_defs split: exchange_phase.splits background.splits option.splits if_splits outcome.splits)

lemma starts_handler:
  assumes "shape x" "benign a x" "exchange_step sha R now a x s = (x', s')"
    "in_handler (ex_phase x')" "\<not> in_handler (ex_phase x)"
  shows "(\<exists>t. ex_phase x = Recheck t) \<and> ss_get R now (request_cache_key (ex_request x)) s = None \<and> working x'"
  using assms by (cases a) (auto simp: exchange_defs split: exchange_phase.splits background.splits option.splits if_splits outcome.splits)

lemma stops_working:
  assumes "shape x" "benign a x" "exchange_step sha R now a x s = (x', s')" "working x" "\<not> working x'"
  shows "\<exists>t c. ex_background x = Save t c \<and> s' = ss_set_ex R now (request_cache_key (ex_request x)) (Entry c) IDEMPOTENCY_TTL_SECONDS s"
  using assms by (cases a) (auto simp: exchange_defs split: exchange_phase.splits background.splits option.splits if_splits outcome.splits)

context idem_store
begin

lemma effect_issued:
  assumes "shape x" "exchange_step sha R now a x s = (x', s')"
  shows "issued s \<subseteq> issued s'" "tokens x' \<subseteq> tokens x \<union> (issued s' - issued s)"
proof -
  have "issued s \<subseteq> issued s' \<and> tokens x' \<subseteq> tokens x \<union> (issued s' - issued s)"
    using assms
  proof (cases rule: store_effect)
    case (acquire t)
    then show ?thesis using assms(1) acquire_law [of now _ _ s t s'] by (auto simp: tokens_def shape_def)
  next
    case (save t c)
    then show ?thesis by (auto simp: set_law tokens_def)
  qed (auto simp: release_law tokens_def)
  then show "issued s \<subseteq> issued s'" "tokens x' \<subseteq> tokens x \<union> (issued s' - issued s)" by blast+
qed

lemma effect_held:
  assumes "shape x" "exchange_step sha R now a x s = (x', s')" "held s r = Some (t, e)" "now \<le> e" "t \<notin> tokens x"
  shows "held s' r = Some (t, e)"
  using assms(1,2)
proof (cases rule: store_effect)
  case (acquire u)
  then have "live now (held s (lock_of sha x)) = None" using acquire_none [of now "lock_of sha x" lease s] by auto
  then have "r \<noteq> lock_of sha x" using assms(3,4) by (auto simp: live_def)
  then show ?thesis using assms(3) acquire_law [OF acquire(2)] by simp
next
  case (save u c)
  then show ?thesis using assms(3) by (simp add: set_law)
next
  case (release u)
  then show ?thesis using assms(3,5) by (auto simp: release_law tokens_def)
qed (use assms in simp)

lemma effect_cached:
  assumes "shape x" "exchange_step sha R now a x s = (x', s')"
  shows "cached s' = cached s \<or> (\<exists>c. cached s' = (cached s)(request_cache_key (ex_request x) \<mapsto> (c, now + day)))"
  using assms
proof (cases rule: store_effect)
  case (acquire u)
  then show ?thesis using acquire_law [OF acquire(2)] by simp
qed (auto simp: release_law set_law day_def)

lemma effect_own:
  assumes "shape x" "benign a x" "exchange_step sha R now a x s = (x', s')"
    "\<And>t. holding x = Some t \<Longrightarrow> held s (lock_of sha x) = Some (t, ex_since x + lease)" "holding x' = Some t"
  shows "held s' (lock_of sha x) = Some (t, ex_since x' + lease)"
  using assms(1,3)
proof (cases rule: store_effect)
  case (acquire u)
  then show ?thesis using assms(1,5) acquire_law [OF acquire(2)] by (auto simp: holding_def shape_def)
next
  case (save u c)
  then show ?thesis using assms by (auto simp: holding_def set_law shape_def split: exchange_phase.splits option.splits)
next
  case (release u)
  then show ?thesis using assms(1,5) by (auto simp: holding_def shape_def split: exchange_phase.splits option.splits)
next
  case same
  show ?thesis using holding_effect [OF assms(1-3,5)]
  proof
    assume "ex_phase x = TakeLock \<and> ex_phase x' = Recheck t \<and> ex_since x' = now"
    then show ?thesis using same(2) assms(1) by (auto simp: tokens_def shape_def)
  qed (use assms(4) same(1) in auto)
qed

section \<open>Worlds\<close>

definition x_ok :: "(string \<Rightarrow> string) \<Rightarrow> 's \<Rightarrow> 't exchange \<Rightarrow> bool" where
  "x_ok sha s x \<longleftrightarrow> shape x \<and> tokens x \<subseteq> issued s \<and>
     (\<forall>t. holding x = Some t \<longrightarrow> held s (lock_of sha x) = Some (t, ex_since x + lease))"

definition settled_log :: "('t, 's) idem_world \<Rightarrow> execution \<Rightarrow> bool" where
  \<comment> \<open>a handler that was started is still at work, or its day has passed, or its answer is cached\<close>
  "settled_log w l \<longleftrightarrow> xc_time l \<le> iw_now w \<and> xc_exchange l < length (iw_exchanges w) \<and>
     request_cache_key (ex_request (iw_exchanges w ! xc_exchange l)) = xc_key l \<and>
     (working (iw_exchanges w ! xc_exchange l) \<or> xc_time l + day < iw_now w \<or>
      (\<exists>c e. cached (iw_store w) (xc_key l) = Some (c, e) \<and> xc_time l + day \<le> e))"

definition w_ok :: "(string \<Rightarrow> string) \<Rightarrow> ('t, 's) idem_world \<Rightarrow> bool" where
  "w_ok sha w \<longleftrightarrow> (\<forall>x\<in>set (iw_exchanges w). x_ok sha (iw_store w) x) \<and>
     (\<forall>i j. i < length (iw_exchanges w) \<longrightarrow> j < length (iw_exchanges w) \<longrightarrow> i \<noteq> j \<longrightarrow>
        tokens (iw_exchanges w ! i) \<inter> tokens (iw_exchanges w ! j) = {}) \<and>
     (\<forall>l\<in>set (iw_log w). settled_log w l) \<and>
     sorted_wrt (\<lambda>a b. xc_key a = xc_key b \<longrightarrow> xc_time a + day < xc_time b) (iw_log w)"

lemma x_ok_other:
  assumes "x_ok sha s y" "timely now y" "shape x" "exchange_step sha R now a x s = (x', s')" "tokens x \<inter> tokens y = {}"
  shows "x_ok sha s' y"
proof -
  have "held s' (lock_of sha y) = Some (t, ex_since y + lease)" if "holding y = Some t" for t
    using assms that holding_token [OF that]
    by (intro effect_held [OF assms(3,4)]) (auto simp: x_ok_def timely_def)
  then show ?thesis using assms(1) effect_issued(1) [OF assms(3,4)] by (auto simp: x_ok_def)
qed

lemma x_ok_own:
  assumes "x_ok sha s x" "benign a x" "exchange_step sha R now a x s = (x', s')"
  shows "x_ok sha s' x'"
proof -
  have *: "shape x" "\<And>t. holding x = Some t \<Longrightarrow> held s (lock_of sha x) = Some (t, ex_since x + lease)" "tokens x \<subseteq> issued s"
    using assms(1) by (auto simp: x_ok_def)
  have r: "ex_request x' = ex_request x" using exchange_request [of sha R now a x s] assms(3) by simp
  show ?thesis
    using effect_own [OF *(1) assms(2,3) *(2)] step_shape [OF *(1) assms(2), of sha R now s] effect_issued [OF *(1) assms(3)] *(3) r assms(3)
    by (auto simp: x_ok_def lock_of_def)
qed

lemma new_exchange_ok: "x_ok sha s (new_exchange r)" "tokens (new_exchange r) = {}"
  by (auto simp: x_ok_def new_exchange_def shape_def tokens_def holding_def)

lemma w_ok_start: "w_ok sha (idem_start now s)"
  by (simp add: w_ok_def idem_start_def)

lemma w_ok_wait: "w_ok sha w \<Longrightarrow> w_ok sha (idem_step sha R (Wait d) w)"
  by (auto simp: w_ok_def settled_log_def)

lemma w_ok_arrive: "w_ok sha w \<Longrightarrow> w_ok sha (idem_step sha R (Arrive r) w)"
  using new_exchange_ok(1) [of sha "iw_store w" r] new_exchange_ok(2) [of r]
  by (auto simp: w_ok_def settled_log_def nth_append less_Suc_eq)

lemma not_both_holding:
  assumes "w_ok sha w" "list_all (timely (iw_now w)) (iw_exchanges w)"
    "i < length (iw_exchanges w)" "j < length (iw_exchanges w)" "i \<noteq> j"
    "holding (iw_exchanges w ! i) = Some t" "holding (iw_exchanges w ! j) = Some u"
  shows "lock_of sha (iw_exchanges w ! i) \<noteq> lock_of sha (iw_exchanges w ! j)"
proof
  assume "lock_of sha (iw_exchanges w ! i) = lock_of sha (iw_exchanges w ! j)"
  moreover have "x_ok sha (iw_store w) (iw_exchanges w ! i)" "x_ok sha (iw_store w) (iw_exchanges w ! j)"
    using assms by (simp_all add: w_ok_def)
  ultimately have "t = u" using assms(6,7) by (auto simp: x_ok_def)
  then show False using holding_token [OF assms(6)] holding_token [OF assms(7)] assms by (auto simp: w_ok_def)
qed

lemma settled_act:
  assumes ok: "w_ok sha w" and i: "i < length (iw_exchanges w)" and b: "benign a (iw_exchanges w ! i)"
    and step: "exchange_step sha R (iw_now w) a (iw_exchanges w ! i) (iw_store w) = (x', s')"
    and l: "settled_log w l" and w': "iw_now w' = iw_now w" "iw_store w' = s'" "iw_exchanges w' = (iw_exchanges w)[i := x']"
  shows "settled_log w' l"
proof -
  let ?x = "iw_exchanges w ! i"
  have sh: "shape ?x" using ok i by (simp add: w_ok_def x_ok_def)
  have r: "ex_request x' = ex_request ?x" using exchange_request [of sha R "iw_now w" a ?x "iw_store w"] step by simp
  have same: "request_cache_key (ex_request ((iw_exchanges w)[i := x'] ! xc_exchange l)) = xc_key l"
    using l r by (cases "xc_exchange l = i") (auto simp: settled_log_def)
  have kept: "\<exists>c e. cached s' (xc_key l) = Some (c, e) \<and> xc_time l + day \<le> e"
    if "cached (iw_store w) (xc_key l) = Some (c, e)" "xc_time l + day \<le> e" for c e
    using effect_cached [OF sh step] that l by (auto simp: settled_log_def)
  have saved: "\<exists>c e. cached s' (xc_key l) = Some (c, e) \<and> xc_time l + day \<le> e"
    if "xc_exchange l = i" "working ?x" "\<not> working x'"
    using stops_working [OF sh b step that(2,3)] that(1) l by (auto simp: settled_log_def set_law day_def)
  show ?thesis using l kept saved same unfolding settled_log_def w'
    by (cases "xc_exchange l = i") (auto simp: nth_list_update)
qed

lemma log_act:
  assumes ok: "w_ok sha w" and t: "list_all (timely (iw_now w)) (iw_exchanges w)"
    and i: "i < length (iw_exchanges w)" and b: "benign a (iw_exchanges w ! i)"
    and step: "exchange_step sha R (iw_now w) a (iw_exchanges w ! i) (iw_store w) = (x', s')"
    and h: "in_handler (ex_phase x')" "\<not> in_handler (ex_phase (iw_exchanges w ! i))"
    and l: "l \<in> set (iw_log w)" "xc_key l = request_cache_key (ex_request (iw_exchanges w ! i))"
  shows "xc_time l + day < iw_now w"
proof -
  let ?x = "iw_exchanges w ! i"
  have sh: "shape ?x" using ok i by (simp add: w_ok_def x_ok_def)
  obtain t where re: "ex_phase ?x = Recheck t" and miss: "live (iw_now w) (cached (iw_store w) (xc_key l)) = None"
    using starts_handler [OF sh b step h] l(2) by (auto simp: get_law)
  have s: "settled_log w l" using ok l(1) by (simp add: w_ok_def)
  have "\<not> working (iw_exchanges w ! xc_exchange l)"
  proof
    assume wk: "working (iw_exchanges w ! xc_exchange l)"
    then have ne: "xc_exchange l \<noteq> i" using re by (auto simp: working_def)
    obtain u where "holding (iw_exchanges w ! xc_exchange l) = Some u" using working_holding [OF wk] by blast
    moreover have "holding ?x = Some t" using re by (simp add: holding_def)
    ultimately have "lock_of sha (iw_exchanges w ! xc_exchange l) \<noteq> lock_of sha ?x"
      using not_both_holding [OF ok t _ i ne] s by (simp add: settled_log_def)
    then show False using s l(2) by (simp add: settled_log_def lock_of_def)
  qed
  then show ?thesis using s miss by (auto simp: settled_log_def live_def split: if_splits)
qed

lemma tokens_act:
  assumes ok: "w_ok sha w" and i: "i < length (iw_exchanges w)"
    and step: "exchange_step sha R (iw_now w) a (iw_exchanges w ! i) (iw_store w) = (x', s')"
    and j: "j < length (iw_exchanges w)" "j \<noteq> i"
  shows "tokens x' \<inter> tokens (iw_exchanges w ! j) = {}"
proof -
  have "shape (iw_exchanges w ! i)" "tokens (iw_exchanges w ! j) \<subseteq> issued (iw_store w)"
    using ok i j by (simp_all add: w_ok_def x_ok_def)
  moreover have "tokens (iw_exchanges w ! i) \<inter> tokens (iw_exchanges w ! j) = {}" using ok i j by (auto simp: w_ok_def)
  ultimately show ?thesis using effect_issued(2) [OF _ step] by blast
qed

lemma w_ok_act:
  assumes ok: "w_ok sha w" and t: "list_all (timely (iw_now w)) (iw_exchanges w)"
    and i: "i < length (iw_exchanges w)" and b: "benign a (iw_exchanges w ! i)"
  shows "w_ok sha (idem_step sha R (Act i a) w)"
proof -
  let ?x = "iw_exchanges w ! i"
  obtain x' s' where step: "exchange_step sha R (iw_now w) a ?x (iw_store w) = (x', s')" by fastforce
  define w' where "w' = idem_step sha R (Act i a) w"
  have w': "iw_now w' = iw_now w" "iw_store w' = s'" "iw_exchanges w' = (iw_exchanges w)[i := x']"
    and log: "iw_log w' = (if in_handler (ex_phase x') \<and> \<not> in_handler (ex_phase ?x)
      then iw_log w @ [\<lparr>xc_key = request_cache_key (ex_request x'), xc_time = iw_now w, xc_exchange = i\<rparr>] else iw_log w)"
    using i step by (simp_all add: w'_def)
  have sh: "shape ?x" and okx: "x_ok sha (iw_store w) ?x" using ok i by (simp_all add: w_ok_def x_ok_def)
  have req: "ex_request x' = ex_request ?x" using exchange_request [of sha R "iw_now w" a ?x "iw_store w"] step by simp
  have own: "x_ok sha s' x'" by (rule x_ok_own [OF okx b step])
  have others: "x_ok sha s' (iw_exchanges w ! j)" if "j < length (iw_exchanges w)" "j \<noteq> i" for j
    using ok t that i by (intro x_ok_other [OF _ _ sh step]) (auto simp: w_ok_def list_all_length)
  have xs: "\<forall>x\<in>set (iw_exchanges w'). x_ok sha s' x"
    unfolding w' using own others i by (auto simp: all_set_conv_all_nth nth_list_update)
  have toks: "\<forall>j k. j < length (iw_exchanges w') \<longrightarrow> k < length (iw_exchanges w') \<longrightarrow> j \<noteq> k \<longrightarrow>
      tokens (iw_exchanges w' ! j) \<inter> tokens (iw_exchanges w' ! k) = {}"
    unfolding w' using tokens_act [OF ok i step] ok i by (auto simp: w_ok_def nth_list_update)
  have old: "settled_log w' l" if "l \<in> set (iw_log w)" for l
    using settled_act [OF ok i b step _ w'] that ok by (simp add: w_ok_def)
  have new: "settled_log w' \<lparr>xc_key = request_cache_key (ex_request x'), xc_time = iw_now w, xc_exchange = i\<rparr>"
    if "in_handler (ex_phase x')" "\<not> in_handler (ex_phase ?x)"
    using starts_handler [OF sh b step that] i by (simp add: settled_log_def w')
  have sorted: "sorted_wrt (\<lambda>a b. xc_key a = xc_key b \<longrightarrow> xc_time a + day < xc_time b) (iw_log w')"
    using log_act [OF ok t i b step] ok unfolding log by (auto simp: w_ok_def sorted_wrt_append req)
  show ?thesis using xs toks old new sorted unfolding w'_def [symmetric] w_ok_def w'(2) log by (auto split: if_splits)
qed

lemma w_ok_run: "w_ok sha w \<Longrightarrow> orderly sha R acts w \<Longrightarrow> w_ok sha (idem_run sha R acts w)"
proof (induction acts arbitrary: w)
  case (Cons a acts)
  have "w_ok sha (idem_step sha R a w)"
  proof (cases a)
    case (Act i b)
    then show ?thesis using Cons.prems w_ok_act [of sha w i b] by (cases "i < length (iw_exchanges w)") auto
  qed (use Cons.prems w_ok_wait w_ok_arrive in \<open>simp_all del: idem_step.simps\<close>)
  then show ?case using Cons.IH Cons.prems(2) by (simp add: idem_run_def)
qed (simp add: idem_run_def)

lemma executions_a_day_apart:
  assumes "orderly sha R acts (idem_start now s)" "xs = iw_log (idem_run sha R acts (idem_start now s))"
    "i < j" "j < length xs" "xc_key (xs ! i) = xc_key (xs ! j)"
  shows "xc_time (xs ! i) + day < xc_time (xs ! j)"
  using w_ok_run [OF w_ok_start assms(1)] assms by (simp add: w_ok_def sorted_wrt_iff_nth_less)

end

section \<open>Replies\<close>

definition recorded :: "(string \<Rightarrow> string) \<Rightarrow> 't exchange \<Rightarrow> CachedIdempotentResponse \<Rightarrow> bool" where
  "recorded sha x c \<longleftrightarrow> (\<exists>r. ex_answer x = Some (Handled r) \<and>
     c = \<lparr>ci_status = rs_status r, ci_body = captured (rs_body r), ci_fingerprint = fingerprint_of sha (ex_request x)\<rparr>)"

definition answered_last :: "(string \<Rightarrow> string) \<Rightarrow> 't exchange \<Rightarrow> bool" where
  "answered_last sha x \<longleftrightarrow> (ex_answer x \<noteq> None \<longrightarrow> ex_phase x = Over) \<and> (\<forall>t c. ex_background x = Save t c \<longrightarrow> recorded sha x c)"

lemma answered_step:
  assumes "answered_last sha x"
  shows "answered_last sha (fst (exchange_step sha R now a x s))"
    "ex_answer x \<noteq> None \<Longrightarrow> ex_answer (fst (exchange_step sha R now a x s)) = ex_answer x"
proof -
  have "answered_last sha (fst (exchange_step sha R now a x s)) \<and>
      (ex_answer x \<noteq> None \<longrightarrow> ex_answer (fst (exchange_step sha R now a x s)) = ex_answer x)"
    using assms
    by (cases a) (auto simp: answered_last_def recorded_def exchange_defs
      split: exchange_phase.splits background.splits option.splits if_splits outcome.splits)
  then show "answered_last sha (fst (exchange_step sha R now a x s))"
    "ex_answer x \<noteq> None \<Longrightarrow> ex_answer (fst (exchange_step sha R now a x s)) = ex_answer x" by blast+
qed

lemma new_answers:
  assumes "ex_answer (fst (exchange_step sha R now a x s)) = Some (Replayed st b)" "ex_answer x \<noteq> Some (Replayed st b)"
  shows "\<exists>v. ss_get R now (request_cache_key (ex_request x)) s = Some v \<and> answer_from v (fingerprint_of sha (ex_request x)) = Replayed st b"
  using assms by (cases a) (auto simp: exchange_defs
    split: exchange_phase.splits background.splits option.splits if_splits outcome.splits)

context idem_store
begin

lemma cached_step:
  "cached (snd (exchange_step sha R now a x s)) = cached s \<or>
   (\<exists>t c. ex_background x = Save t c \<and>
     cached (snd (exchange_step sha R now a x s)) = (cached s)(request_cache_key (ex_request x) \<mapsto> (Entry c, now + day)))"
proof (cases a)
  case (Proceed out)
  then show ?thesis
    by (cases "ex_phase x"; cases out) (auto simp: proceed_def Let_def release_law split: option.splits dest!: acquire_law)
next
  case (Continue out)
  then show ?thesis by (cases "ex_background x"; cases out) (auto simp: continue_def set_law release_law day_def)
qed simp_all

definition genuine :: "(string \<Rightarrow> string) \<Rightarrow> ('t, 's) idem_world \<Rightarrow> bool" where
  "genuine sha w \<longleftrightarrow> (\<forall>x\<in>set (iw_exchanges w). answered_last sha x) \<and>
     (\<forall>k v e. cached (iw_store w) k = Some (v, e) \<longrightarrow>
        (\<exists>c. v = Entry c \<and> (\<exists>y\<in>set (iw_exchanges w). request_cache_key (ex_request y) = k \<and> recorded sha y c))) \<and>
     (\<forall>x\<in>set (iw_exchanges w). \<forall>st b. ex_answer x = Some (Replayed st b) \<longrightarrow>
        (\<exists>y\<in>set (iw_exchanges w). \<exists>c. request_cache_key (ex_request y) = request_cache_key (ex_request x) \<and> recorded sha y c \<and>
           ci_fingerprint c = fingerprint_of sha (ex_request x) \<and> ci_status c = st \<and> ci_body c = b))"

lemma genuine_act:
  assumes g: "genuine sha w" and sha: "\<And>p. sha p \<noteq> []" and i: "i < length (iw_exchanges w)"
  shows "genuine sha (idem_step sha R (Act i a) w)"
proof -
  let ?xs = "iw_exchanges w" and ?s = "iw_store w"
  obtain x' s' where step: "exchange_step sha R (iw_now w) a (?xs ! i) ?s = (x', s')" by fastforce
  define w' where "w' = idem_step sha R (Act i a) w"
  have w': "iw_store w' = s'" "iw_exchanges w' = ?xs[i := x']" using i step by (simp_all add: w'_def)
  have al: "answered_last sha (?xs ! i)" using g i by (simp add: genuine_def)
  have x': "answered_last sha x'" "ex_request x' = ex_request (?xs ! i)"
    "ex_answer (?xs ! i) \<noteq> None \<Longrightarrow> ex_answer x' = ex_answer (?xs ! i)"
    using answered_step [OF al, of R "iw_now w" a ?s] exchange_request [of sha R "iw_now w" a "?xs ! i" ?s] step by simp_all
  have keep: "\<exists>z\<in>set (?xs[i := x']). ex_request z = ex_request y \<and> (\<forall>c. recorded sha y c \<longrightarrow> recorded sha z c)"
    if "y \<in> set ?xs" for y
  proof -
    obtain j where j: "j < length ?xs" "y = ?xs ! j" using \<open>y \<in> set ?xs\<close> by (metis in_set_conv_nth)
    show ?thesis
    proof (cases "j = i")
      case True
      then show ?thesis using j i x' set_update_memI [OF i, of x'] by (auto simp: recorded_def intro!: bexI [of _ x'])
    next
      case False
      then show ?thesis using j nth_mem [of j "?xs[i := x']"] by (auto intro!: bexI [of _ y])
    qed
  qed
  have all: "\<forall>x\<in>set (?xs[i := x']). answered_last sha x"
    using g x'(1) set_update_subset_insert [of ?xs i x'] by (auto simp: genuine_def)
  have cache: "\<exists>c. v = Entry c \<and> (\<exists>y\<in>set (?xs[i := x']). request_cache_key (ex_request y) = k \<and> recorded sha y c)"
    if "cached s' k = Some (v, e)" for k v e
  proof (cases "cached ?s k = Some (v, e)")
    case True
    then show ?thesis using g keep unfolding genuine_def by metis
  next
    case False
    then obtain t c where "ex_background (?xs ! i) = Save t c" "k = request_cache_key (ex_request (?xs ! i))" "v = Entry c"
      using cached_step [of sha "iw_now w" a "?xs ! i" ?s] \<open>cached s' k = Some (v, e)\<close> step
      by (auto split: if_splits)
    moreover have "recorded sha (?xs ! i) c" using al calculation(1) by (auto simp: answered_last_def)
    ultimately show ?thesis using keep [OF nth_mem [OF i]] by metis
  qed
  have replies: "\<exists>y\<in>set (?xs[i := x']). \<exists>c. request_cache_key (ex_request y) = request_cache_key (ex_request x) \<and> recorded sha y c \<and>
      ci_fingerprint c = fingerprint_of sha (ex_request x) \<and> ci_status c = st \<and> ci_body c = b"
    if x: "x \<in> set (?xs[i := x'])" and r: "ex_answer x = Some (Replayed st b)" for x st b
  proof (cases "\<exists>x0\<in>set ?xs. ex_request x0 = ex_request x \<and> ex_answer x0 = Some (Replayed st b)")
    case True
    then show ?thesis using g keep unfolding genuine_def by metis
  next
    case False
    then have "x = x'" "ex_answer (?xs ! i) \<noteq> Some (Replayed st b)"
      using x r i x'(2) set_update_subset_insert [of ?xs i x'] nth_mem [OF i] by auto
    then obtain v where v: "live (iw_now w) (cached ?s (request_cache_key (ex_request x))) = Some v"
      "answer_from v (fingerprint_of sha (ex_request x)) = Replayed st b"
      using new_answers [of sha R "iw_now w" a "?xs ! i" ?s st b] r step x'(2) by (auto simp: get_law)
    then obtain e where "cached ?s (request_cache_key (ex_request x)) = Some (v, e)" by (auto simp: live_def split: option.splits if_splits)
    then obtain c y where c: "v = Entry c" "y \<in> set ?xs" "request_cache_key (ex_request y) = request_cache_key (ex_request x)" "recorded sha y c"
      using g unfolding genuine_def by metis
    moreover have "ci_fingerprint c \<noteq> []" using c(4) sha by (auto simp: recorded_def fingerprint_of_def fingerprintRequest_def)
    ultimately have "ci_fingerprint c = fingerprint_of sha (ex_request x)" "ci_status c = st" "ci_body c = b"
      using v(2) by (auto simp: answer_from_def split: if_splits)
    then show ?thesis using keep [OF c(2)] c by metis
  qed
  show ?thesis unfolding w'_def [symmetric] genuine_def w' using all cache replies by blast
qed

lemma genuine_run: "genuine sha w \<Longrightarrow> (\<And>p. sha p \<noteq> []) \<Longrightarrow> genuine sha (idem_run sha R acts w)"
proof (induction acts arbitrary: w)
  case (Cons a acts)
  have "genuine sha (idem_step sha R a w)"
  proof (cases a)
    case (Arrive r)
    then show ?thesis using Cons.prems(1)
      by (auto simp: genuine_def new_exchange_def answered_last_def) blast+
  next
    case (Act i b)
    then show ?thesis using Cons.prems genuine_act [of sha w i b] by (cases "i < length (iw_exchanges w)") auto
  qed (use Cons.prems(1) in \<open>simp add: genuine_def\<close>)
  then show ?case using Cons.IH Cons.prems(2) by (simp add: idem_run_def)
qed (simp add: idem_run_def)

lemma executes_fresh:
  assumes "iw_exchanges w = xs @ [new_exchange r]" "given_key r \<noteq> None"
    "live (iw_now w) (cached (iw_store w) (request_cache_key r)) = None"
    "live (iw_now w) (held (iw_store w) (lockResource sha (request_cache_key r))) = None"
  shows "\<exists>t s'. idem_run sha R (executes (length xs)) w = w\<lparr>iw_store := s',
      iw_exchanges := xs @ [(new_exchange r)\<lparr>ex_phase := Handler (Some t), ex_since := iw_now w\<rparr>],
      iw_log := iw_log w @ [\<lparr>xc_key = request_cache_key r, xc_time = iw_now w, xc_exchange = length xs\<rparr>]\<rparr> \<and>
    cached s' = cached (iw_store w) \<and>
    held s' = (held (iw_store w))(lockResource sha (request_cache_key r) \<mapsto> (t, iw_now w + LOCK_TTL_SECONDS * 1000))"
proof -
  obtain t s' where a: "ss_acquire R (iw_now w) (lockResource sha (request_cache_key r)) (LOCK_TTL_SECONDS * 1000) (iw_store w) = Some (t, s')"
    using acquire_none [of "iw_now w" "lockResource sha (request_cache_key r)" "LOCK_TTL_SECONDS * 1000" "iw_store w"] assms(4) by fastforce
  then show ?thesis using assms acquire_law [OF a]
    by (auto simp: idem_run_def executes_def numeral_3_eq_3 proceed_def new_exchange_def Let_def get_law)
qed

end

section \<open>Services in memory\<close>

record memory_store =
  me_cache :: "(string \<times> cached_text \<times> millis) list"
  me_locks :: "(string \<times> (nat \<times> millis) option) list"
  me_next :: nat

definition locks_of :: "memory_store \<Rightarrow> string \<Rightarrow> (nat \<times> millis) option" where
  "locks_of s r = Option.bind (map_of (me_locks s) r) id"

definition drop_lock :: "nat \<Rightarrow> (nat \<times> millis) option \<Rightarrow> (nat \<times> millis) option" where
  "drop_lock t l = (case l of Some (t', e) \<Rightarrow> if t' = t then None else Some (t', e) | None \<Rightarrow> None)"

definition memory_services :: "(nat, memory_store) shared_store" where
  "memory_services = \<lparr>
     ss_get = (\<lambda>now k s. live now (map_of (me_cache s) k)),
     ss_set_ex = (\<lambda>now k c secs s. s\<lparr>me_cache := AList.update k (c, now + secs * 1000) (me_cache s)\<rparr>),
     ss_acquire = (\<lambda>now r ttl s. if live now (locks_of s r) \<noteq> None then None
        else Some (me_next s, s\<lparr>me_locks := AList.update r (Some (me_next s, now + ttl)) (me_locks s), me_next := me_next s + 1\<rparr>)),
     ss_release = (\<lambda>t s. s\<lparr>me_locks := map (\<lambda>(r, l). (r, drop_lock t l)) (me_locks s)\<rparr>)\<rparr>"

definition empty_memory :: memory_store where
  "empty_memory = \<lparr>me_cache = [], me_locks = [], me_next = 0\<rparr>"

interpretation memory_idem: idem_store memory_services "\<lambda>s. map_of (me_cache s)" locks_of "\<lambda>s. {..<me_next s}"
  by unfold_locales
    (auto simp: memory_services_def update_conv' locks_of_def fun_eq_iff map_of_map drop_lock_def comp_def
      split: option.splits if_splits bind_split)

lemma idem_run_append: "idem_run sha R (as @ bs) w = idem_run sha R bs (idem_run sha R as w)"
  by (simp add: idem_run_def)

definition demo_request :: request where
  "demo_request = \<lparr>rq_header = Single ''k1'', rq_jwt_user = Some ''u'', rq_user = None, rq_method = ''POST'',
     rq_base = ''/api/transactions'', rq_route = Some ''/deposit'', rq_path = ''/deposit'', rq_payload = (\<lambda>k. k)\<rparr>"

definition demo_sha :: "string \<Rightarrow> string" where
  "demo_sha s = ''h'' @ s"

definition demo_reply :: response where
  "demo_reply = \<lparr>rs_status = 503, rs_body = AsJson (JsonText ''{}'')\<rparr>"

definition demo_exchanges :: "idem_act list" where
  "demo_exchanges = [Arrive demo_request, Act 0 (Proceed Works), Act 0 (Proceed Works), Act 0 (Proceed Works),
     Act 0 (Respond demo_reply), Act 0 Close, Act 0 (Continue Works), Act 0 (Continue Works),
     Wait 1000, Arrive demo_request, Act 1 (Proceed Works), Wait 86399001, Arrive demo_request,
     Act 2 (Proceed Works), Act 2 (Proceed Works), Act 2 (Proceed Works)]"

lemma demo_orderly: "orderly demo_sha memory_services demo_exchanges (idem_start 0 empty_memory)"
  by code_simp

lemma demo_log: "map xc_key (iw_log (idem_run demo_sha memory_services demo_exchanges (idem_start 0 empty_memory))) =
    [request_cache_key demo_request, request_cache_key demo_request]"
  by code_simp

section \<open>Properties\<close>

text \<open>
  C30. Payments are executed once: whatever the requests and however they interleave, as long as no
  call to Redis throws, connections close after the answer and the work under a lock ends before the
  lock does, two handlers of one idempotency key start more than twenty-four hours apart.
\<close>

theorem payment_executed_once:
  assumes "idem_store R cached held issued" "orderly sha R acts (idem_start now s)"
    "xs = iw_log (idem_run sha R acts (idem_start now s))" "i < j" "j < length xs" "xc_key (xs ! i) = xc_key (xs ! j)"
  shows "xc_time (xs ! i) + 24 * 60 * 60 * 1000 < xc_time (xs ! j)"
  using idem_store.executions_a_day_apart [OF assms] by (simp add: day_def IDEMPOTENCY_TTL_SECONDS_def)

theorem payment_executed_once_witness:
  "let xs = iw_log (idem_run demo_sha memory_services demo_exchanges (idem_start 0 empty_memory))
   in length xs = 2 \<and> xc_time (xs ! 0) + 24 * 60 * 60 * 1000 < xc_time (xs ! 1)"
proof -
  have l: "length (iw_log (idem_run demo_sha memory_services demo_exchanges (idem_start 0 empty_memory))) = 2"
    using arg_cong [OF demo_log, of length] by simp
  then show ?thesis
    using payment_executed_once [OF memory_idem.idem_store_axioms demo_orderly refl, of 0 1]
      arg_cong [OF demo_log, of "\<lambda>xs. xs ! 0"] arg_cong [OF demo_log, of "\<lambda>xs. xs ! 1"] by simp
qed

text \<open>
  Nobody is answered with a made-up or foreign response: whatever fails and in whatever order,
  every replayed answer is the answer of a handler to an earlier request with the same identity,
  endpoint and key and the same fingerprint.
\<close>

theorem replay_is_genuine:
  assumes "idem_store R cached held issued" "\<And>k. cached s k = None" "\<And>p. sha p \<noteq> []"
    "xs = iw_exchanges (idem_run sha R acts (idem_start now s))" "i < length xs" "ex_answer (xs ! i) = Some (Replayed st b)"
  shows "\<exists>j r. j < length xs \<and> ex_answer (xs ! j) = Some (Handled r) \<and> rs_status r = st \<and> captured (rs_body r) = b \<and>
    request_cache_key (ex_request (xs ! j)) = request_cache_key (ex_request (xs ! i)) \<and>
    fingerprint_of sha (ex_request (xs ! j)) = fingerprint_of sha (ex_request (xs ! i))"
proof -
  have "idem_store.genuine cached sha (idem_start now s :: ('a, 'b) idem_world)"
    using assms(2) by (simp add: idem_store.genuine_def [OF assms(1)] idem_start_def)
  then have "idem_store.genuine cached sha (idem_run sha R acts (idem_start now s))"
    by (rule idem_store.genuine_run [OF assms(1)]) (rule assms(3))
  then obtain y c where "y \<in> set xs" "request_cache_key (ex_request y) = request_cache_key (ex_request (xs ! i))" "recorded sha y c"
    "ci_fingerprint c = fingerprint_of sha (ex_request (xs ! i))" "ci_status c = st" "ci_body c = b"
    using assms(4-6) nth_mem [OF assms(5)] unfolding idem_store.genuine_def [OF assms(1)] by blast
  then show ?thesis by (auto simp: recorded_def in_set_conv_nth)
qed

theorem replay_is_genuine_witness:
  "let xs = iw_exchanges (idem_run demo_sha memory_services demo_exchanges (idem_start 0 empty_memory))
   in \<exists>j r. j < length xs \<and> ex_answer (xs ! j) = Some (Handled r) \<and> rs_status r = 503 \<and>
     captured (rs_body r) = JsonText ''{}'' \<and> request_cache_key (ex_request (xs ! j)) = request_cache_key (ex_request (xs ! 1)) \<and>
     fingerprint_of demo_sha (ex_request (xs ! j)) = fingerprint_of demo_sha (ex_request (xs ! 1))"
  unfolding Let_def
  by (rule replay_is_genuine [OF memory_idem.idem_store_axioms _ _ refl])
    (simp add: empty_memory_def, simp add: demo_sha_def, code_simp, code_simp)

text \<open>
  A client that loses its connection while its payment is being made, and tries again with the
  same key, is served a second execution: the closing connection releases the lock although the
  handler still runs, and keeps its answer from being cached.
\<close>

theorem disconnect_executes_twice:
  assumes "idem_store R cached held issued" "given_key r \<noteq> None"
    "live now (cached s (request_cache_key r)) = None" "live now (held s (lockResource sha (request_cache_key r))) = None"
  shows "let w = idem_run sha R (Arrive r # executes 0 @ [Act 0 Close, Act 0 (Continue Works), Arrive r] @ executes 1) (idem_start now s)
    in map xc_key (iw_log w) = [request_cache_key r, request_cache_key r] \<and> map xc_time (iw_log w) = [now, now] \<and>
       map xc_exchange (iw_log w) = [0, 1]"
proof -
  let ?x = "new_exchange r :: 'a exchange"
  let ?w1 = "idem_step sha R (Arrive r) (idem_start now s)"
  have "iw_exchanges ?w1 = [] @ [?x]" by (simp add: idem_start_def)
  then obtain t s1 where e1: "idem_run sha R (executes 0) ?w1 = ?w1\<lparr>iw_store := s1,
      iw_exchanges := [?x\<lparr>ex_phase := Handler (Some t), ex_since := now\<rparr>],
      iw_log := [\<lparr>xc_key = request_cache_key r, xc_time = now, xc_exchange = 0\<rparr>]\<rparr>"
    "cached s1 = cached s" "held s1 = (held s)(lockResource sha (request_cache_key r) \<mapsto> (t, now + LOCK_TTL_SECONDS * 1000))"
    using idem_store.executes_fresh [OF assms(1), of ?w1 "[]" r sha] assms(2-4) by (auto simp: idem_start_def)
  let ?y = "?x\<lparr>ex_phase := Handler (Some t), ex_since := now, ex_finished := True\<rparr>"
  let ?w2 = "idem_run sha R [Act 0 Close, Act 0 (Continue Works), Arrive r] (idem_run sha R (executes 0) ?w1)"
  have w2: "?w2 = ?w1\<lparr>iw_store := ss_release R t s1, iw_exchanges := [?y] @ [?x],
      iw_log := [\<lparr>xc_key = request_cache_key r, xc_time = now, xc_exchange = 0\<rparr>]\<rparr>"
    unfolding e1(1) using assms(2)
    by (simp add: idem_run_def idem_start_def close_response_def releaseLock_def continue_def new_exchange_def)
  have "live now (cached (ss_release R t s1) (request_cache_key r)) = None"
    "live now (held (ss_release R t s1) (lockResource sha (request_cache_key r))) = None"
    using assms(3) e1(2,3) idem_store.release_law [OF assms(1)] by (simp_all add: live_def)
  then have "\<exists>u s'. idem_run sha R (executes 1) ?w2 = ?w2\<lparr>iw_store := s',
      iw_exchanges := [?y] @ [?x\<lparr>ex_phase := Handler (Some u), ex_since := now\<rparr>],
      iw_log := iw_log ?w2 @ [\<lparr>xc_key = request_cache_key r, xc_time = now, xc_exchange = 1\<rparr>]\<rparr>"
    using idem_store.executes_fresh [OF assms(1), of ?w2 "[?y]" r sha] assms(2) unfolding w2 by (auto simp: idem_start_def)
  then have "iw_log (idem_run sha R (executes 1) ?w2) =
      [\<lparr>xc_key = request_cache_key r, xc_time = now, xc_exchange = 0\<rparr>, \<lparr>xc_key = request_cache_key r, xc_time = now, xc_exchange = 1\<rparr>]"
    unfolding w2 by auto
  moreover have "idem_run sha R (Arrive r # executes 0 @ [Act 0 Close, Act 0 (Continue Works), Arrive r] @ executes 1)
      (idem_start now s) = idem_run sha R (executes 1) ?w2"
    by (simp add: idem_run_def del: idem_step.simps)
  ultimately show ?thesis unfolding Let_def by simp
qed

theorem disconnect_executes_twice_witness:
  "let w = idem_run demo_sha memory_services (Arrive demo_request # executes 0 @
      [Act 0 Close, Act 0 (Continue Works), Arrive demo_request] @ executes 1) (idem_start 5 empty_memory)
   in map xc_key (iw_log w) = [request_cache_key demo_request, request_cache_key demo_request] \<and> map xc_time (iw_log w) = [5, 5] \<and>
     map xc_exchange (iw_log w) = [0, 1]"
  by (rule disconnect_executes_twice [OF memory_idem.idem_store_axioms]) code_simp+

text \<open>
  Refusals stick: whatever a handler answers, a failure that a retry would overcome included, is
  the answer to every repetition within a day, and the handler is not asked again.
\<close>

theorem refusals_are_replayed:
  assumes "idem_store R cached held issued" "given_key r \<noteq> None" "0 \<le> d" "d \<le> day"
    "live now (cached s (request_cache_key r)) = None" "live now (held s (lockResource sha (request_cache_key r))) = None"
  shows "let w = idem_run sha R (Arrive r # executes 0 @ [Act 0 (Respond p), Act 0 (Continue Works), Act 0 (Continue Works),
      Wait d, Arrive r, Act 1 (Proceed Works)]) (idem_start now s)
    in ex_answer (iw_exchanges w ! 1) = Some (Replayed (rs_status p) (captured (rs_body p))) \<and> length (iw_log w) = 1"
proof -
  let ?x = "new_exchange r :: 'a exchange"
  let ?w1 = "idem_step sha R (Arrive r) (idem_start now s)"
  have "iw_exchanges ?w1 = [] @ [?x]" by (simp add: idem_start_def)
  then obtain t s1 where e1: "idem_run sha R (executes 0) ?w1 = ?w1\<lparr>iw_store := s1,
      iw_exchanges := [?x\<lparr>ex_phase := Handler (Some t), ex_since := now\<rparr>],
      iw_log := [\<lparr>xc_key = request_cache_key r, xc_time = now, xc_exchange = 0\<rparr>]\<rparr>"
    using idem_store.executes_fresh [OF assms(1), of ?w1 "[]" r sha] assms(2,5,6) by (auto simp: idem_start_def)
  let ?c = "\<lparr>ci_status = rs_status p, ci_body = captured (rs_body p), ci_fingerprint = fingerprint_of sha r\<rparr>"
  let ?s2 = "ss_release R t (ss_set_ex R now (request_cache_key r) (Entry ?c) IDEMPOTENCY_TTL_SECONDS s1)"
  have hit: "ss_get R (now + d) (request_cache_key r) ?s2 = Some (Entry ?c)"
    using assms(4) idem_store.get_law [OF assms(1)] idem_store.release_law [OF assms(1)] idem_store.set_law [OF assms(1)]
    by (simp add: live_def day_def)
  have run: "idem_run sha R (Arrive r # executes 0 @ [Act 0 (Respond p), Act 0 (Continue Works), Act 0 (Continue Works),
      Wait d, Arrive r, Act 1 (Proceed Works)]) (idem_start now s) =
    idem_run sha R [Act 0 (Respond p), Act 0 (Continue Works), Act 0 (Continue Works), Wait d, Arrive r, Act 1 (Proceed Works)]
      (idem_run sha R (executes 0) ?w1)"
    by (simp add: idem_run_def del: idem_step.simps)
  show ?thesis unfolding run e1 Let_def using assms(2,3) hit
    by (auto simp: idem_run_def idem_start_def respond_def persist_def continue_def new_exchange_def proceed_def Let_def
      answer_from_def)
qed

theorem refusals_are_replayed_witness:
  "let w = idem_run demo_sha memory_services (Arrive demo_request # executes 0 @ [Act 0 (Respond demo_reply), Act 0 (Continue Works),
      Act 0 (Continue Works), Wait 60000, Arrive demo_request, Act 1 (Proceed Works)]) (idem_start 5 empty_memory)
   in ex_answer (iw_exchanges w ! 1) = Some (Replayed (rs_status demo_reply) (captured (rs_body demo_reply))) \<and> length (iw_log w) = 1"
  by (rule refusals_are_replayed [OF memory_idem.idem_store_axioms]) code_simp+

section \<open>The middleware over PostgreSQL\<close>

lemma duplicates_leak:
  assumes "key \<noteq> []" "lockId key \<in> set (pg_locks db)" "n \<le> pg_free db"
  shows "fold (pg_step lockId) (replicate n (Request (Some key))) db = db\<lparr>pg_free := pg_free db - n\<rparr>"
  using assms(2,3)
proof (induction n arbitrary: db)
  case (Suc n)
  have "pg_step lockId (Request (Some key)) db = db\<lparr>pg_free := pg_free db - 1\<rparr>"
    using Suc.prems assms(1) by (simp add: idempotency_def)
  then show ?case using Suc by simp
qed simp

lemma pg_keys_step:
  assumes "set (pg_executed db) \<subseteq> fst ` set (pg_keys db)" "distinct (pg_executed db)"
  shows "set (pg_executed (pg_step lockId a db)) \<subseteq> fst ` set (pg_keys (pg_step lockId a db)) \<and>
    distinct (pg_executed (pg_step lockId a db))"
proof (cases a)
  case (Request h)
  then show ?thesis using assms by (auto simp: idempotency_def Let_def map_of_eq_None_iff split: option.splits key_status.splits)
next
  case (Send k r)
  have "fst ` set (pg_keys (finalize lockId k r db)) = fst ` set (pg_keys db)"
    by (simp add: finalize_def image_image case_prod_beta)
  then show ?thesis using Send assms by (simp add: finalize_def)
qed

definition idle_pool :: "nat \<Rightarrow> pg_idempotency" where
  "idle_pool n = \<lparr>pg_free = n, pg_locks = [], pg_keys = [], pg_executed = []\<rparr>"

text \<open>
  The middleware over PostgreSQL executes a key at most once, for ever, whatever requests and
  answers follow.
\<close>

theorem pg_key_executed_once:
  "distinct (pg_executed (fold (pg_step lockId) acts (idle_pool n)))"
proof -
  have "set (pg_executed db) \<subseteq> fst ` set (pg_keys db) \<Longrightarrow> distinct (pg_executed db) \<Longrightarrow>
      distinct (pg_executed (fold (pg_step lockId) acts db))" for db
    by (induction acts arbitrary: db) (use pg_keys_step in auto)
  then show ?thesis by (simp add: idle_pool_def)
qed

text \<open>
  Every duplicate that arrives while a payment of the middleware over PostgreSQL is in progress
  takes a database client out of the pool for good: it is refused without its client being released,
  and the end of the payment returns only the client of the payment.
\<close>

theorem duplicates_drain_pool:
  assumes "key \<noteq> []" "n < m"
  shows "pg_free (fold (pg_step lockId) ([Request (Some key)] @ replicate n (Request (Some key)) @ [Send key r]) (idle_pool m)) = m - n"
proof -
  let ?db = "pg_step lockId (Request (Some key)) (idle_pool m)"
  have "?db = \<lparr>pg_free = m - 1, pg_locks = [lockId key], pg_keys = [(key, Processing)], pg_executed = [key]\<rparr>"
    using assms by (simp add: idempotency_def idle_pool_def)
  then have "fold (pg_step lockId) (replicate n (Request (Some key))) ?db =
      \<lparr>pg_free = m - 1 - n, pg_locks = [lockId key], pg_keys = [(key, Processing)], pg_executed = [key]\<rparr>"
    using duplicates_leak [of key lockId ?db n] assms by simp
  then show ?thesis using assms by (simp add: finalize_def)
qed

theorem duplicates_drain_pool_witness:
  "pg_free (fold (pg_step (\<lambda>_. 7)) ([Request (Some ''k'')] @ replicate 9 (Request (Some ''k'')) @
     [Send ''k'' demo_reply]) (idle_pool 10)) = 1"
  using duplicates_drain_pool [of "''k''" 9 10 "\<lambda>_. 7" demo_reply] by simp

end
