(* ===== verification/Queue_Backpressure.thy ===== *)
theory Queue_Backpressure
  imports Prelude
begin

text \<open>
  Priorities and backpressure of the transaction queue (\<^verbatim>\<open>src/queue/priority.ts\<close>,
  \<^verbatim>\<open>src/queue/redisBackpressure.ts\<close>): non-critical work is refused while the memory of Redis is short,
  with two watermarks. The text of Redis \<open>INFO\<close> is parsed here; \<^verbatim>\<open>Number\<close> of a text is a parameter.
\<close>

section \<open>Priorities\<close>

definition tier_priority :: "string \<Rightarrow> jsnum option" where
  "tier_priority tier =
     map_of [(''DIAMOND'', Fin 1), (''PLATINUM'', Fin 2), (''GOLD'', Fin 4), (''SILVER'', Fin 6)] (map to_upper tier)"

definition amount_priority :: "jsnum \<Rightarrow> jsnum" where
  "amount_priority a =
     (if js_isFinite a \<and> js_lt (Fin 0) a then
        (if js_le (Fin 50000) a then Fin 1
         else if js_le (Fin 20000) a then Fin 2
         else if js_le (Fin 5000) a then Fin 4
         else if js_le (Fin 1000) a then Fin 6
         else Fin 10)
      else Fin 10)"

definition calculateTransactionPriority :: "jsnum option \<Rightarrow> string option \<Rightarrow> jsnum option \<Rightarrow> jsnum" where
  \<comment> \<open>\<^verbatim>\<open>Number(priority)\<close>, the tier and \<^verbatim>\<open>Number(amount)\<close>, each if present\<close>
  "calculateTransactionPriority priority tier amount =
     (case priority of
        Some p \<Rightarrow> if js_isFinite p then js_max (Fin 1) (js_min (Fin 10) (js_round p))
          else (case Option.bind tier tier_priority of Some q \<Rightarrow> q
            | None \<Rightarrow> amount_priority (case amount of Some a \<Rightarrow> a | None \<Rightarrow> Fin 0))
      | None \<Rightarrow> (case Option.bind tier tier_priority of Some q \<Rightarrow> q
            | None \<Rightarrow> amount_priority (case amount of Some a \<Rightarrow> a | None \<Rightarrow> Fin 0)))"

section \<open>The state\<close>

record watermarks =
  HIGH_WATERMARK :: jsnum
  LOW_WATERMARK :: jsnum
  CRITICAL_PRIORITY :: jsnum
  MAX_MEMORY_OVERRIDE :: jsnum
  CHECK_INTERVAL_MS :: jsnum

definition parseNumber :: "(string \<Rightarrow> jsnum) \<Rightarrow> string option \<Rightarrow> jsnum \<Rightarrow> jsnum" where
  "parseNumber number val fallback = (let n = (case val of None \<Rightarrow> NaN | Some s \<Rightarrow> if s = [] then NaN else number s)
     in if js_isFinite n \<and> js_lt (Fin 0) n then n else fallback)"

definition configured_watermarks ::
  "(string \<Rightarrow> jsnum) \<Rightarrow> string option \<Rightarrow> string option \<Rightarrow> string option \<Rightarrow> string option \<Rightarrow> string option \<Rightarrow> watermarks" where
  "configured_watermarks number high low critical override interval =
     (let h = parseNumber number high (num (4/5)) in
      \<lparr>HIGH_WATERMARK = h, LOW_WATERMARK = js_min (parseNumber number low (num (7/10))) h,
       CRITICAL_PRIORITY = parseNumber number critical (Fin 2), MAX_MEMORY_OVERRIDE = parseNumber number override (Fin 0),
       CHECK_INTERVAL_MS = parseNumber number interval (Fin 5000)\<rparr>)"

record BackpressureState =
  bp_active :: bool
  bp_usageRatio :: "jsnum option"
  bp_usedMemory :: "jsnum option"
  bp_maxMemory :: "jsnum option"
  bp_lastCheckedAt :: "millis option"
  bp_pausedAt :: "millis option"

definition initial_backpressure :: BackpressureState where
  "initial_backpressure = \<lparr>bp_active = False, bp_usageRatio = None, bp_usedMemory = None, bp_maxMemory = None,
     bp_lastCheckedAt = None, bp_pausedAt = None\<rparr>"

section \<open>Reading the memory of Redis\<close>

fun info_lines :: "string list \<Rightarrow> string list" where
  \<comment> \<open>\<^verbatim>\<open>info.split(/\r?\n/)\<close> from the pieces between the line feeds\<close>
  "info_lines [] = []"
| "info_lines [l] = [l]"
| "info_lines (l # ls) = (if l \<noteq> [] \<and> last l = char_of (13 :: nat) then butlast l else l) # info_lines ls"

definition info_field :: "string \<Rightarrow> (string \<times> string) option" where
  "info_field line = (let key = takeWhile (\<lambda>c. c \<noteq> CHR '':'') line
     in if line = [] \<or> hd line = CHR 0x23 \<or> length key = length line \<or> key = [] then None
        else Some (key, js_trim (drop (Suc (length key)) line)))"

definition parseRedisInfo :: "string \<Rightarrow> string \<Rightarrow> string option" where
  "parseRedisInfo info = (\<lambda>k. map_of (rev (List.map_filter info_field (info_lines (js_split (char_of (10 :: nat)) info)))) k)"

definition computeMemoryUsage :: "(string \<Rightarrow> jsnum) \<Rightarrow> watermarks \<Rightarrow> string \<Rightarrow> (jsnum \<times> jsnum \<times> jsnum) option" where
  "computeMemoryUsage number cfg info =
     (let field = (\<lambda>k. case parseRedisInfo info k of Some s \<Rightarrow> number s | None \<Rightarrow> NaN); used = field ''used_memory''
      in if \<not> js_isFinite used then None
         else case find (\<lambda>v. js_isFinite v \<and> js_lt (Fin 0) v)
             [field ''maxmemory'', MAX_MEMORY_OVERRIDE cfg, field ''total_system_memory''] of
           None \<Rightarrow> None | Some m \<Rightarrow> Some (used, m, js_div used m))"

section \<open>The flag\<close>

definition evaluateBackpressure :: "watermarks \<Rightarrow> millis \<Rightarrow> jsnum \<Rightarrow> BackpressureState \<Rightarrow> BackpressureState" where
  "evaluateBackpressure cfg now ratio s =
     (if \<not> bp_active s \<and> js_lt (HIGH_WATERMARK cfg) ratio then s\<lparr>bp_active := True, bp_pausedAt := Some now\<rparr>
      else if bp_active s \<and> js_lt ratio (LOW_WATERMARK cfg) then s\<lparr>bp_active := False, bp_pausedAt := None\<rparr>
      else s)"

definition checkRedisMemory ::
  "(string \<Rightarrow> jsnum) \<Rightarrow> watermarks \<Rightarrow> millis \<Rightarrow> string option \<Rightarrow> BackpressureState \<Rightarrow> BackpressureState" where
  \<comment> \<open>\<open>None\<close>: the command throws\<close>
  "checkRedisMemory number cfg now info s = (case info of
     None \<Rightarrow> s
   | Some text \<Rightarrow> (let s' = s\<lparr>bp_lastCheckedAt := Some now\<rparr>
       in case computeMemoryUsage number cfg text of
            None \<Rightarrow> s'
          | Some (used, m, ratio) \<Rightarrow> evaluateBackpressure cfg now ratio
              (s'\<lparr>bp_usedMemory := Some used, bp_maxMemory := Some m, bp_usageRatio := Some ratio\<rparr>)))"

definition isCriticalPriority :: "watermarks \<Rightarrow> jsnum \<Rightarrow> bool" where
  "isCriticalPriority cfg p \<longleftrightarrow> js_le p (CRITICAL_PRIORITY cfg)"

definition getRetryAfterSeconds :: "watermarks \<Rightarrow> jsnum" where
  "getRetryAfterSeconds cfg = js_max (Fin 5) (js_ceil (js_div (js_mul (CHECK_INTERVAL_MS cfg) (Fin 3)) (Fin 1000)))"

definition redisBackpressureGuard :: "watermarks \<Rightarrow> BackpressureState \<Rightarrow> jsnum option \<Rightarrow> jsnum option" where
  \<comment> \<open>\<open>Some n\<close>: refused, to be retried after \<open>n\<close> seconds\<close>
  "redisBackpressureGuard cfg s amount =
     (if \<not> bp_active s then None
      else if isCriticalPriority cfg (calculateTransactionPriority None None amount) then None
      else Some (getRetryAfterSeconds cfg))"

section \<open>Lemmas\<close>

definition decisive :: "watermarks \<Rightarrow> jsnum \<Rightarrow> bool option" where
  \<comment> \<open>what a ratio alone says\<close>
  "decisive cfg ratio = (if js_lt (HIGH_WATERMARK cfg) ratio then Some True
     else if js_lt ratio (LOW_WATERMARK cfg) then Some False else None)"

fun last_some :: "'a option list \<Rightarrow> 'a option" where
  "last_some [] = None"
| "last_some (x # xs) = (case last_some xs of Some y \<Rightarrow> Some y | None \<Rightarrow> x)"

lemma js_lt_trans: "js_lt x y \<Longrightarrow> js_lt y z \<Longrightarrow> js_lt x z"
  using js_lt_le_trans js_lt_imp_le by blast

lemma evaluate_flag:
  assumes "js_le (LOW_WATERMARK cfg) (HIGH_WATERMARK cfg)"
  shows "bp_active (evaluateBackpressure cfg now r s) = (case decisive cfg r of Some b \<Rightarrow> b | None \<Rightarrow> bp_active s)"
proof -
  have "\<not> (js_lt (HIGH_WATERMARK cfg) r \<and> js_lt r (LOW_WATERMARK cfg))"
    using assms js_le_lt_trans js_lt_trans js_lt_irrefl by blast
  then show ?thesis by (auto simp: evaluateBackpressure_def decisive_def)
qed

lemma evaluate_flags:
  assumes "js_le (LOW_WATERMARK cfg) (HIGH_WATERMARK cfg)"
  shows "bp_active (fold (\<lambda>(now, r). evaluateBackpressure cfg now r) rs s) =
    (case last_some (map (\<lambda>(now, r). decisive cfg r) rs) of Some b \<Rightarrow> b | None \<Rightarrow> bp_active s)"
proof (induction rs arbitrary: s)
  case (Cons x rs)
  then show ?case using evaluate_flag [OF assms, of "fst x" "snd x" s]
    by (cases x) (auto split: option.splits)
qed simp

lemma parseNumber_not_NaN: "fallback \<noteq> NaN \<Longrightarrow> parseNumber number val fallback \<noteq> NaN"
  by (auto simp: parseNumber_def Let_def)

lemma configured_ordered:
  "js_le (LOW_WATERMARK (configured_watermarks number h l c m i)) (HIGH_WATERMARK (configured_watermarks number h l c m i))"
proof -
  have "parseNumber number l (num (7/10)) \<noteq> NaN" "parseNumber number h (num (4/5)) \<noteq> NaN"
    by (simp_all add: parseNumber_not_NaN)
  then show ?thesis using js_le_refl js_not_lt by (simp add: configured_watermarks_def Let_def js_min_def)
qed

lemma round_not_NaN: "js_isFinite p \<Longrightarrow> js_round p \<noteq> NaN"
  by (cases p) (simp_all add: js_round_def)

lemma clamped_priority: "x \<noteq> NaN \<Longrightarrow> js_le (Fin 1) (js_max (Fin 1) (js_min (Fin 10) x)) \<and> js_le (js_max (Fin 1) (js_min (Fin 10) x)) (Fin 10)"
  by (cases x) (auto simp: js_max_def js_min_def)

lemma tier_priority_range: "tier_priority t = Some q \<Longrightarrow> js_le (Fin 1) q \<and> js_le q (Fin 10)"
  by (auto simp: tier_priority_def split: if_splits)

lemma amount_priority_range: "js_le (Fin 1) (amount_priority a) \<and> js_le (amount_priority a) (Fin 10)"
  by (simp add: amount_priority_def)

section \<open>Properties\<close>

text \<open>
  Backpressure has hysteresis: for every configuration and every sequence of memory ratios the flag
  is set exactly if, of the ratios outside the two watermarks, the last one was above the high one.
\<close>

theorem backpressure_hysteresis:
  "bp_active (fold (\<lambda>(now, r). evaluateBackpressure (configured_watermarks number h l c m i) now r) rs initial_backpressure) \<longleftrightarrow>
   last_some (map (\<lambda>(now, r). decisive (configured_watermarks number h l c m i) r) rs) = Some True"
  unfolding evaluate_flags [OF configured_ordered] by (simp add: initial_backpressure_def split: option.splits)

text \<open>
  Whatever priority, tier and amount are given, the priority of a job is between 1 and 10; among
  finite amounts alone, a larger one never has a lower rank.
\<close>

theorem priority_in_range:
  "js_le (Fin 1) (calculateTransactionPriority p t a) \<and> js_le (calculateTransactionPriority p t a) (Fin 10) \<and>
   (x \<le> y \<longrightarrow> js_le (calculateTransactionPriority None None (Some (Fin y))) (calculateTransactionPriority None None (Some (Fin x))))"
proof -
  have "js_le (Fin 1) (calculateTransactionPriority p t a) \<and> js_le (calculateTransactionPriority p t a) (Fin 10)"
    using round_not_NaN clamped_priority tier_priority_range amount_priority_range
    by (auto simp: calculateTransactionPriority_def split: option.splits bind_splits)
  moreover have "x \<le> y \<longrightarrow> js_le (calculateTransactionPriority None None (Some (Fin y))) (calculateTransactionPriority None None (Some (Fin x)))"
    by (auto simp: calculateTransactionPriority_def amount_priority_def)
  ultimately show ?thesis by blast
qed

theorem priority_in_range_witness:
  "js_le (Fin 1) (calculateTransactionPriority (Some (Fin 99)) None None) \<and>
   js_le (calculateTransactionPriority None None (Some (Fin 60000))) (calculateTransactionPriority None None (Some (Fin 10)))"
  using priority_in_range [of "Some (Fin 99)" None None 10 60000] by simp

end
