(* ===== verification/Queue_Control.thy ===== *)
theory Queue_Control
  imports Prelude
begin

text \<open>
  Pausing the queue of one provider (\<^verbatim>\<open>src/queue/providerQueueControl.ts\<close>). A paused provider's jobs
  are parked in a hold queue; resuming moves them back. Calls in several processes interleave between
  their awaited operations: a call is a machine, and the job queues (BullMQ) and the pause state
  (Redis) are parameters. Moving one job is a single step, and only it may throw.
\<close>

section \<open>Jobs, queues and the pause state\<close>

datatype job_state = Waiting | Prioritized | Delayed | WaitingChildren | ActiveJob | DoneJob | FailedJob

record job =
  jb_id :: id
  jb_tx :: id
  jb_priority :: "int option"
  jb_held :: "int option" \<comment> \<open>\<^verbatim>\<open>_heldPriority\<close>\<close>

record 'q queue_ops =
  jq_add :: "job \<Rightarrow> 'q \<Rightarrow> 'q"
  jq_state :: "id \<Rightarrow> 'q \<Rightarrow> job_state option" \<comment> \<open>\<^verbatim>\<open>getJob\<close> and \<^verbatim>\<open>getState\<close>\<close>
  jq_remove :: "id \<Rightarrow> 'q \<Rightarrow> 'q option" \<comment> \<open>\<open>None\<close>: it throws\<close>
  jq_waiting :: "'q \<Rightarrow> job list"

record 's pause_store =
  ps_has :: "string \<Rightarrow> 's \<Rightarrow> bool"
  ps_add :: "string \<Rightarrow> 's \<Rightarrow> 's"
  ps_remove :: "string \<Rightarrow> 's \<Rightarrow> 's"
  ps_acquire :: "millis \<Rightarrow> string \<Rightarrow> string \<Rightarrow> int \<Rightarrow> 's \<Rightarrow> 's option"
  ps_release :: "string \<Rightarrow> string \<Rightarrow> 's \<Rightarrow> 's"

definition PENDING_STATES :: "job_state set" where
  "PENDING_STATES = {Waiting, Prioritized, Delayed, WaitingChildren}"

definition RELEASE_LOCK_TTL_MS :: int where "RELEASE_LOCK_TTL_MS = 30000"

definition RELEASE_PAGE_SIZE :: nat where "RELEASE_PAGE_SIZE = 100"

definition slug_char :: "char \<Rightarrow> bool" where
  "slug_char c \<longleftrightarrow> (let n = of_char c :: nat in (97 \<le> n \<and> n \<le> 122) \<or> (48 \<le> n \<and> n \<le> 57) \<or> n = 95 \<or> n = 45)"

definition normalizeProviderKey :: "string \<Rightarrow> string option" where
  \<comment> \<open>\<open>None\<close>: it throws\<close>
  "normalizeProviderKey provider = (let key = map to_lower (js_trim provider)
     in if key \<noteq> [] \<and> length key \<le> 32 \<and> list_all slug_char key then Some key else None)"

definition releaseLockKey :: "string \<Rightarrow> string" where
  "releaseLockKey key = ''queue:transactions:release-lock:'' @ key"

section \<open>Moving one job\<close>

definition held_job :: "id option \<Rightarrow> job \<Rightarrow> job" where
  \<comment> \<open>what \<^verbatim>\<open>hold\<close> adds to the hold queue\<close>
  "held_job jobId data = \<lparr>jb_id = (case jobId of Some i \<Rightarrow> i | None \<Rightarrow> jb_tx data), jb_tx = jb_tx data,
     jb_priority = None, jb_held = (case jb_priority data of Some p \<Rightarrow> Some p | None \<Rightarrow> jb_held data)\<rparr>"

definition main_job :: "id \<Rightarrow> job \<Rightarrow> job" where
  "main_job target j = \<lparr>jb_id = target, jb_tx = jb_tx j, jb_priority = jb_held j, jb_held = None\<rparr>"

definition resumed_id :: "millis \<Rightarrow> id \<Rightarrow> id" where
  "resumed_id now i = i @ ''-resumed-'' @ nat_str (nat now)"

definition moveToMain :: "'q queue_ops \<Rightarrow> millis \<Rightarrow> job \<Rightarrow> 'q \<Rightarrow> 'q" where
  "moveToMain Q now j main = (case jq_state Q (jb_id j) main of
     None \<Rightarrow> jq_add Q (main_job (jb_id j) j) main
   | Some st \<Rightarrow>
       if st \<in> PENDING_STATES then main
       else if st \<noteq> ActiveJob then
         (case jq_remove Q (jb_id j) main of
            Some main' \<Rightarrow> jq_add Q (main_job (jb_id j) j) main'
          | None \<Rightarrow> jq_add Q (main_job (resumed_id now (jb_id j)) j) main)
       else jq_add Q (main_job (resumed_id now (jb_id j)) j) main)"

section \<open>Calls\<close>

datatype call =
    Diverting job \<comment> \<open>\<^verbatim>\<open>divertIfPaused\<close>, before it looks at the flag\<close>
  | Holding "id option" job \<comment> \<open>\<^verbatim>\<open>hold\<close>, before it adds the job\<close>
  | Parked \<comment> \<open>\<^verbatim>\<open>hold\<close>, before it looks at the flag again\<close>
  | Pausing
  | Resuming
  | Entering \<comment> \<open>\<^verbatim>\<open>releaseHeldJobs\<close>, at the head of its loop\<close>
  | Locking
  | Draining string \<comment> \<open>\<^verbatim>\<open>drainHoldQueue\<close> with its lock token, at the head of its loop\<close>
  | Paging string
  | Moving string "job list"
  | Removing string job "job list"
  | Unlocking string
  | Rechecking
  | Counting
  | Returned

record ('q, 's) control_world =
  cw_now :: millis
  cw_store :: 's
  cw_hold :: 'q
  cw_main :: 'q
  cw_calls :: "call list"
  cw_tokens :: nat \<comment> \<open>the tokens handed out by \<^verbatim>\<open>randomUUID\<close>\<close>

definition token_text :: "nat \<Rightarrow> string" where
  "token_text n = nat_str n"

datatype move_outcome = MoveWorks | MoveThrows

definition call_step ::
  "'q queue_ops \<Rightarrow> 's pause_store \<Rightarrow> string \<Rightarrow> move_outcome \<Rightarrow> call \<Rightarrow> ('q, 's) control_world \<Rightarrow> call \<times> ('q, 's) control_world" where
  "call_step Q S key out c w = (case c of
     Diverting j \<Rightarrow> (if ps_has S key (cw_store w) then Holding (Some (jb_id j)) j else Returned, w)
   | Holding i j \<Rightarrow> (Parked, w\<lparr>cw_hold := jq_add Q (held_job i j) (cw_hold w)\<rparr>)
   | Parked \<Rightarrow> (if ps_has S key (cw_store w) then Returned else Entering, w)
   | Pausing \<Rightarrow> (Returned, w\<lparr>cw_store := ps_add S key (cw_store w)\<rparr>)
   | Resuming \<Rightarrow> (Entering, w\<lparr>cw_store := ps_remove S key (cw_store w)\<rparr>)
   | Entering \<Rightarrow> (if ps_has S key (cw_store w) then Returned else Locking, w)
   | Locking \<Rightarrow>
       (case ps_acquire S (cw_now w) (releaseLockKey key) (token_text (cw_tokens w)) RELEASE_LOCK_TTL_MS (cw_store w) of
          None \<Rightarrow> (Returned, w\<lparr>cw_tokens := Suc (cw_tokens w)\<rparr>)
        | Some s' \<Rightarrow> (Draining (token_text (cw_tokens w)), w\<lparr>cw_store := s', cw_tokens := Suc (cw_tokens w)\<rparr>))
   | Draining t \<Rightarrow> (if ps_has S key (cw_store w) then Unlocking t else Paging t, w)
   | Paging t \<Rightarrow> (case take RELEASE_PAGE_SIZE (jq_waiting Q (cw_hold w)) of
          [] \<Rightarrow> (Unlocking t, w) | js \<Rightarrow> (Moving t js, w))
   | Moving t js \<Rightarrow> (case js of
          [] \<Rightarrow> (Draining t, w)
        | j # js' \<Rightarrow> (case out of
            MoveThrows \<Rightarrow> (Unlocking t, w)
          | MoveWorks \<Rightarrow> (Removing t j js', w\<lparr>cw_main := moveToMain Q (cw_now w) j (cw_main w)\<rparr>)))
   | Removing t j js \<Rightarrow> (case jq_remove Q (jb_id j) (cw_hold w) of
          None \<Rightarrow> (Unlocking t, w) | Some h \<Rightarrow> (Moving t js, w\<lparr>cw_hold := h\<rparr>))
   | Unlocking t \<Rightarrow> (Rechecking, w\<lparr>cw_store := ps_release S (releaseLockKey key) t (cw_store w)\<rparr>)
   | Rechecking \<Rightarrow> (if ps_has S key (cw_store w) then Returned else Counting, w)
   | Counting \<Rightarrow> (if jq_waiting Q (cw_hold w) = [] then Returned else Entering, w)
   | Returned \<Rightarrow> (Returned, w))"

datatype 'q control_act =
    Elapse int
  | Begin call
  | Run nat move_outcome
  | Workers 'q \<comment> \<open>the workers leave the main queue in this state\<close>

fun begins :: "call \<Rightarrow> bool" where
  \<comment> \<open>the entry points\<close>
  "begins (Diverting j) \<longleftrightarrow> True"
| "begins (Holding i j) \<longleftrightarrow> True"
| "begins Pausing \<longleftrightarrow> True"
| "begins Resuming \<longleftrightarrow> True"
| "begins Entering \<longleftrightarrow> True"
| "begins _ \<longleftrightarrow> False"

fun control_step ::
  "'q queue_ops \<Rightarrow> 's pause_store \<Rightarrow> string \<Rightarrow> 'q control_act \<Rightarrow> ('q, 's) control_world \<Rightarrow> ('q, 's) control_world" where
  "control_step Q S key (Elapse d) w = w\<lparr>cw_now := cw_now w + max 0 d\<rparr>"
| "control_step Q S key (Begin c) w = (if begins c then w\<lparr>cw_calls := cw_calls w @ [c]\<rparr> else w)"
| "control_step Q S key (Run i out) w =
     (if i < length (cw_calls w) then
        (case call_step Q S key out (cw_calls w ! i) w of (c, w') \<Rightarrow> w'\<lparr>cw_calls := (cw_calls w)[i := c]\<rparr>)
      else w)"
| "control_step Q S key (Workers q) w = w\<lparr>cw_main := q\<rparr>"

definition control_run ::
  "'q queue_ops \<Rightarrow> 's pause_store \<Rightarrow> string \<Rightarrow> 'q control_act list \<Rightarrow> ('q, 's) control_world \<Rightarrow> ('q, 's) control_world" where
  "control_run Q S key acts w = fold (control_step Q S key) acts w"

end
