(* ===== verification/Outbox.thy ===== *)
theory Outbox
  imports Queue_Backpressure Queue_Control
begin

text \<open>
  The outbox of transaction jobs (\<^verbatim>\<open>src/queue/transactionOutbox.ts\<close>, \<^verbatim>\<open>src/queue/transactionQueue.ts\<close>):
  jobs that Redis does not take are written to \<^verbatim>\<open>outbox_events\<close> and replayed by a relay in every
  process. A dispatch parks the jobs of a paused provider in its hold queue and, if so configured, sends the others
  to a queue of the provider (\<^verbatim>\<open>src/queue/providerRateLimitedQueues.ts\<close>), not the shared one. The table is a list of rows
  with the trigger on \<^verbatim>\<open>updated_at\<close>; the job queues are a parameter. A relay performs one statement or dispatch per step,
  and may die at any of them.
\<close>

section \<open>Jobs and rows\<close>

record OutboxJobOptions =
  op_priority :: "jsnum option"
  op_delay :: "int option"
  op_jobId :: "id option"

record TransactionJobData =
  \<comment> \<open>the fields that the queue reads or sets\<close>
  td_transactionId :: id
  td_provider :: string
  td_amount :: "jsnum option"
  td_tier :: "string option"
  td_priority :: "jsnum option"
  td_heldPriority :: "jsnum option" \<comment> \<open>\<^verbatim>\<open>_heldPriority\<close>\<close>

datatype outbox_status = OutboxPending | OutboxProcessing | OutboxPublished | OutboxFailed

record outbox_row =
  or_id :: nat
  or_aggregate :: id
  or_payload :: "TransactionJobData \<times> OutboxJobOptions option"
  or_status :: outbox_status
  or_attempts :: nat
  or_max_attempts :: nat
  or_next_attempt :: "millis option"
  or_created :: millis
  or_updated :: millis
  or_error :: "string option"

record outbox_table =
  ot_rows :: "outbox_row list"
  ot_next_id :: nat \<comment> \<open>\<^verbatim>\<open>gen_random_uuid()\<close>\<close>

definition STALE_PROCESSING_SECONDS :: int where "STALE_PROCESSING_SECONDS = 120"

definition RETRY_BACKOFF_SECONDS :: int where "RETRY_BACKOFF_SECONDS = 5"

definition outstanding :: "id \<Rightarrow> outbox_row \<Rightarrow> bool" where
  "outstanding tx r \<longleftrightarrow> or_aggregate r = tx \<and> or_status r \<noteq> OutboxPublished \<and> or_next_attempt r \<noteq> None"

definition outbox_insert ::
  "millis \<Rightarrow> id \<Rightarrow> TransactionJobData \<times> OutboxJobOptions option \<Rightarrow> outbox_table \<Rightarrow> outbox_table" where
  "outbox_insert now tx payload t =
     (if list_ex (outstanding tx) (ot_rows t) then t
      else \<lparr>ot_rows = ot_rows t @ [\<lparr>or_id = ot_next_id t, or_aggregate = tx, or_payload = payload, or_status = OutboxPending,
          or_attempts = 0, or_max_attempts = 5, or_next_attempt = Some now, or_created = now, or_updated = now, or_error = None\<rparr>],
        ot_next_id = Suc (ot_next_id t)\<rparr>)"

definition claimable :: "millis \<Rightarrow> outbox_row \<Rightarrow> bool" where
  "claimable now r \<longleftrightarrow>
     (or_status r \<in> {OutboxPending, OutboxFailed} \<and> (case or_next_attempt r of Some n \<Rightarrow> n \<le> now | None \<Rightarrow> False)) \<or>
     (or_status r = OutboxProcessing \<and> or_updated r < now - STALE_PROCESSING_SECONDS * 1000)"

definition outbox_update :: "millis \<Rightarrow> (outbox_row \<Rightarrow> bool) \<Rightarrow> (outbox_row \<Rightarrow> outbox_row) \<Rightarrow> outbox_table \<Rightarrow> outbox_table" where
  \<comment> \<open>\<^verbatim>\<open>UPDATE\<close> with the trigger\<close>
  "outbox_update now p f t = t\<lparr>ot_rows := sql_update p (\<lambda>r. (f r)\<lparr>or_updated := now\<rparr>) (ot_rows t)\<rparr>"

definition claim :: "millis \<Rightarrow> nat \<Rightarrow> outbox_table \<Rightarrow> outbox_row list \<times> outbox_table" where
  "claim now limit t =
     (let ids = map or_id (take limit (sort_key or_created (filter (claimable now) (ot_rows t))));
          taken = (\<lambda>r. or_id r \<in> set ids);
          t' = outbox_update now taken (\<lambda>r. r\<lparr>or_status := OutboxProcessing\<rparr>) t
      in (filter taken (ot_rows t'), t'))"

definition markPublished :: "millis \<Rightarrow> nat \<Rightarrow> outbox_table \<Rightarrow> outbox_table" where
  "markPublished now i = outbox_update now (\<lambda>r. or_id r = i)
     (\<lambda>r. r\<lparr>or_status := OutboxPublished, or_next_attempt := None, or_error := None\<rparr>)"

definition outbox_release :: "millis \<Rightarrow> nat \<Rightarrow> int \<Rightarrow> outbox_table \<Rightarrow> outbox_table" where
  "outbox_release now i delaySeconds = outbox_update now (\<lambda>r. or_id r = i)
     (\<lambda>r. r\<lparr>or_status := OutboxPending, or_next_attempt := Some (now + delaySeconds * 1000)\<rparr>)"

definition markFailed :: "millis \<Rightarrow> nat \<Rightarrow> string \<Rightarrow> outbox_table \<Rightarrow> outbox_table" where
  "markFailed now i err = outbox_update now (\<lambda>r. or_id r = i)
     (\<lambda>r. r\<lparr>or_status := OutboxFailed, or_attempts := or_attempts r + 1, or_error := Some (take 2000 err),
        or_next_attempt := (if or_max_attempts r \<le> or_attempts r + 1 then None
          else Some (now + RETRY_BACKOFF_SECONDS * 2 ^ or_attempts r * 1000))\<rparr>)"

section \<open>Dispatch\<close>

record thrown_error =
  er_code :: "string option"
  er_name :: string
  er_message :: "string option"

definition REDIS_ERROR_CODES :: "string list" where
  "REDIS_ERROR_CODES = [''ECONNREFUSED'', ''ECONNRESET'', ''ETIMEDOUT'', ''EPIPE'', ''ENOTFOUND'', ''EAI_AGAIN'', ''NR_CLOSED'', ''ENQUEUE_TIMEOUT'']"

definition REDIS_ERROR_MESSAGE :: "string list" where
  \<comment> \<open>the strings that the regular expression looks for, in lower case\<close>
  "REDIS_ERROR_MESSAGE = [''connection is closed'', ''stream isn'' @ [CHR 0x27] @ ''t writeable'', ''socket closed'',
     ''socket already closed'', ''the client is closed'', ''client closed'', ''econnrefused'', ''econnreset'', ''etimedout'',
     ''max retries per request'', ''maximum retries per request'', ''connection timeout'', ''redis unavailable'',
     ''redis is unavailable'', ''redis down'', ''redis is down'']"

definition isRedisUnavailableError :: "thrown_error \<Rightarrow> bool" where
  "isRedisUnavailableError e \<longleftrightarrow>
     (case er_code e of Some c \<Rightarrow> c \<in> set REDIS_ERROR_CODES | None \<Rightarrow> False) \<or>
     er_name e \<in> {''ClientClosedError'', ''ConnectionTimeoutError''} \<or>
     (case er_message e of Some m \<Rightarrow> list_ex (\<lambda>p. sublist p (map to_lower m)) REDIS_ERROR_MESSAGE | None \<Rightarrow> False)"

definition EnqueueTimeoutError :: thrown_error where
  "EnqueueTimeoutError = \<lparr>er_code = Some ''ENQUEUE_TIMEOUT'', er_name = ''EnqueueTimeoutError'',
     er_message = Some ''Queue did not accept the job within 3000ms''\<rparr>"

definition backpressure_error :: thrown_error where
  "backpressure_error = \<lparr>er_code = Some ''SERVICE_UNAVAILABLE'', er_name = ''Error'',
     er_message = Some ''Transaction ingestion is temporarily paused due to high system load. Please retry shortly.''\<rparr>"

datatype queue_name = MainQueue | HoldQueue string | ProviderQueue string

record job_options =
  ao_jobId :: id
  ao_priority :: "jsnum option"
  ao_delay :: "int option"
  ao_repeat :: "int option"

record 'q job_queue_ops =
  jo_add :: "queue_name \<Rightarrow> TransactionJobData \<Rightarrow> job_options \<Rightarrow> 'q \<Rightarrow> 'q"
  jo_id :: "job_options \<Rightarrow> id" \<comment> \<open>of the job that is returned\<close>

datatype link_outcome =
    Accepted
  | Unsent thrown_error \<comment> \<open>the job did not reach the queue\<close>
  | Unacknowledged thrown_error \<comment> \<open>it did, but the caller sees an error\<close>

record queue_env =
  qe_watermarks :: watermarks
  qe_backpressure :: BackpressureState
  qe_paused :: "string \<Rightarrow> bool" \<comment> \<open>the flags in Redis\<close>
  qe_rateLimited :: bool \<comment> \<open>\<^verbatim>\<open>isProviderRateLimitedQueuesEnabled()\<close>\<close>

definition send_job ::
  "'q job_queue_ops \<Rightarrow> link_outcome \<Rightarrow> queue_name \<Rightarrow> TransactionJobData \<Rightarrow> job_options \<Rightarrow> 'q \<Rightarrow> (thrown_error + id) \<times> 'q" where
  "send_job Q out queue data x q =
     (case out of
        Accepted \<Rightarrow> (Inr (jo_id Q x), jo_add Q queue data x q)
      | Unsent e \<Rightarrow> (Inl e, q)
      | Unacknowledged e \<Rightarrow> (Inl e, jo_add Q queue data x q))"

definition isPaused :: "(string \<Rightarrow> bool) \<Rightarrow> string \<Rightarrow> bool" where
  "isPaused paused provider = (case normalizeProviderKey provider of None \<Rightarrow> False | Some key \<Rightarrow> paused key)"

definition provider_error :: "string \<Rightarrow> string \<Rightarrow> string \<Rightarrow> thrown_error" where
  "provider_error name txt provider = \<lparr>er_code = None, er_name = name, er_message = Some (txt @ '': '' @ provider)\<rparr>"

definition hold ::
  "'q job_queue_ops \<Rightarrow> link_outcome \<Rightarrow> TransactionJobData \<Rightarrow> id option \<Rightarrow> jsnum \<Rightarrow> 'q \<Rightarrow> (thrown_error + id) \<times> 'q" where
  \<comment> \<open>up to the second look at the flag, which \<^verbatim>\<open>Queue_Control\<close> has\<close>
  "hold Q out data jobId priority q =
     (case normalizeProviderKey (td_provider data) of
        None \<Rightarrow> (Inl (provider_error ''InvalidProviderError'' ''Invalid provider identifier'' (td_provider data)), q)
      | Some key \<Rightarrow> send_job Q out (HoldQueue key) (data\<lparr>td_heldPriority := Some priority\<rparr>)
          \<lparr>ao_jobId = (case jobId of Some i \<Rightarrow> i | None \<Rightarrow> td_transactionId data), ao_priority = None, ao_delay = None,
            ao_repeat = None\<rparr> q)"

definition normalizeProviderQueueKey :: "string \<Rightarrow> string option" where
  \<comment> \<open>\<open>None\<close>: it throws\<close>
  "normalizeProviderQueueKey provider = (let key = map to_lower (js_trim provider)
     in if key \<noteq> [] \<and> length key \<le> 32 \<and> list_all slug_char key then Some key else None)"

definition addProviderRateLimitedJob ::
  "'q job_queue_ops \<Rightarrow> link_outcome \<Rightarrow> TransactionJobData \<Rightarrow> id option \<Rightarrow> jsnum \<Rightarrow> int option \<Rightarrow> 'q \<Rightarrow> (thrown_error + id) \<times> 'q" where
  "addProviderRateLimitedJob Q out data jobId priority delay q =
     (case normalizeProviderQueueKey (td_provider data) of
        None \<Rightarrow> (Inl (provider_error ''InvalidProviderQueueKeyError'' ''Invalid provider identifier for a rate-limited queue''
            (td_provider data)), q)
      | Some key \<Rightarrow> send_job Q out (ProviderQueue key) data
          \<lparr>ao_jobId = (case jobId of Some i \<Rightarrow> i | None \<Rightarrow> td_transactionId data), ao_priority = Some priority, ao_delay = delay,
            ao_repeat = None\<rparr> q)"

definition dispatchTransactionJob ::
  "'q job_queue_ops \<Rightarrow> queue_env \<Rightarrow> link_outcome \<Rightarrow> int option \<Rightarrow> TransactionJobData \<Rightarrow> OutboxJobOptions option \<Rightarrow> 'q \<Rightarrow>
   (thrown_error + id) \<times> 'q" where
  \<comment> \<open>the repeat interval, if any, before the data\<close>
  "dispatchTransactionJob Q env out every data options q =
     (let opts = (case options of Some x \<Rightarrow> x | None \<Rightarrow> \<lparr>op_priority = None, op_delay = None, op_jobId = None\<rparr>);
          resolvedPriority = calculateTransactionPriority
            (case op_priority opts of Some p \<Rightarrow> Some p | None \<Rightarrow> td_priority data) (td_tier data) (td_amount data);
          jobData = data\<lparr>td_priority := Some resolvedPriority\<rparr>
      in if bp_active (qe_backpressure env) \<and> \<not> isCriticalPriority (qe_watermarks env) resolvedPriority
         then (Inl backpressure_error, q)
         else if every = None \<and> isPaused (qe_paused env) (td_provider data)
         then hold Q out jobData (op_jobId opts) resolvedPriority q
         else if every = None \<and> qe_rateLimited env
         then addProviderRateLimitedJob Q out jobData (op_jobId opts) resolvedPriority (op_delay opts) q
         else send_job Q out MainQueue jobData
           \<lparr>ao_jobId = (case op_jobId opts of Some i \<Rightarrow> i | None \<Rightarrow> td_transactionId data), ao_priority = Some resolvedPriority,
             ao_delay = op_delay opts, ao_repeat = every\<rparr> q)"

section \<open>Enqueueing\<close>

record EnqueueResult =
  eq_id :: id
  eq_outboxed :: bool

definition enqueueWithOutboxFallback ::
  "'q job_queue_ops \<Rightarrow> queue_env \<Rightarrow> link_outcome \<Rightarrow> link_outcome \<Rightarrow> millis \<Rightarrow> TransactionJobData \<Rightarrow> OutboxJobOptions option \<Rightarrow>
   outbox_table \<times> 'q \<Rightarrow> (thrown_error + EnqueueResult) \<times> outbox_table \<times> 'q" where
  \<comment> \<open>the outcomes of the dispatch and of the insert\<close>
  "enqueueWithOutboxFallback Q env out ins now data options s = (case s of (t, q) \<Rightarrow>
     (case dispatchTransactionJob Q env out None data options q of
        (Inr i, q') \<Rightarrow> (Inr \<lparr>eq_id = i, eq_outboxed = False\<rparr>, t, q')
      | (Inl e, q') \<Rightarrow>
          if \<not> isRedisUnavailableError e then (Inl e, t, q')
          else let t' = outbox_insert now (td_transactionId data) (data, options) t
               in (case ins of
                   Accepted \<Rightarrow> (Inr \<lparr>eq_id = td_transactionId data, eq_outboxed = True\<rparr>, t', q')
                 | Unsent e' \<Rightarrow> (Inl e', t, q')
                 | Unacknowledged e' \<Rightarrow> (Inl e', t', q'))))"

definition addTransactionJob ::
  "'q job_queue_ops \<Rightarrow> queue_env \<Rightarrow> link_outcome \<Rightarrow> link_outcome \<Rightarrow> millis \<Rightarrow> int option \<Rightarrow> TransactionJobData \<Rightarrow>
   OutboxJobOptions option \<Rightarrow> outbox_table \<times> 'q \<Rightarrow> (thrown_error + EnqueueResult) \<times> outbox_table \<times> 'q" where
  "addTransactionJob Q env out ins now every data options s =
     (if every \<noteq> None then
        (case dispatchTransactionJob Q env out every data options (snd s) of
           (Inl e, q) \<Rightarrow> (Inl e, fst s, q)
         | (Inr i, q) \<Rightarrow> (Inr \<lparr>eq_id = i, eq_outboxed = False\<rparr>, fst s, q))
      else enqueueWithOutboxFallback Q env out ins now data options s)"

section \<open>Relays\<close>

datatype relay =
    Idle
  | Replaying "outbox_row list"
  | Publishing outbox_row "outbox_row list"
  | Failing outbox_row string "outbox_row list"
  | Deferring "outbox_row list"

definition replay_options :: "outbox_row \<Rightarrow> OutboxJobOptions option" where
  \<comment> \<open>\<^verbatim>\<open>{...row.payload.options, jobId: row.aggregate_id}\<close>\<close>
  "replay_options r = Some (case snd (or_payload r) of
      Some x \<Rightarrow> x\<lparr>op_jobId := Some (or_aggregate r)\<rparr>
    | None \<Rightarrow> \<lparr>op_priority = None, op_delay = None, op_jobId = Some (or_aggregate r)\<rparr>)"

definition error_text :: "thrown_error \<Rightarrow> string" where
  "error_text e = (case er_message e of Some m \<Rightarrow> m | None \<Rightarrow> [])"

definition after_error :: "thrown_error \<Rightarrow> outbox_row \<Rightarrow> outbox_row list \<Rightarrow> relay" where
  \<comment> \<open>the catch block of the loop\<close>
  "after_error e row rows = (if isRedisUnavailableError e then Deferring (row # rows) else Failing row (error_text e) rows)"

definition statement ::
  "link_outcome \<Rightarrow> relay \<Rightarrow> (thrown_error \<Rightarrow> relay) \<Rightarrow> (outbox_table \<Rightarrow> outbox_table) \<Rightarrow> outbox_table \<times> 'q \<Rightarrow> relay \<times> outbox_table \<times> 'q" where
  \<comment> \<open>a statement of the store that returns, or throws before or after it took effect\<close>
  "statement out ok err f s = (case s of (t, q) \<Rightarrow> (case out of
     Accepted \<Rightarrow> (ok, f t, q) | Unsent e \<Rightarrow> (err e, t, q) | Unacknowledged e \<Rightarrow> (err e, f t, q)))"

definition relay_step ::
  "'q job_queue_ops \<Rightarrow> queue_env \<Rightarrow> nat \<Rightarrow> link_outcome \<Rightarrow> millis \<Rightarrow> relay \<Rightarrow> outbox_table \<times> 'q \<Rightarrow> relay \<times> outbox_table \<times> 'q" where
  \<comment> \<open>the next statement or dispatch of \<^verbatim>\<open>drainTransactionOutbox\<close>; an error outside the loop's try ends the drain\<close>
  "relay_step Q env batchSize out now r s = (case r of
     Idle \<Rightarrow> statement out (Replaying (fst (claim now batchSize (fst s)))) (\<lambda>_. Idle) (\<lambda>t. snd (claim now batchSize t)) s
   | Replaying [] \<Rightarrow> (Idle, s)
   | Replaying (row # rows) \<Rightarrow>
       (case dispatchTransactionJob Q env out None (fst (or_payload row)) (replay_options row) (snd s) of
          (Inr _, q') \<Rightarrow> (Publishing row rows, fst s, q')
        | (Inl e, q') \<Rightarrow> (after_error e row rows, fst s, q'))
   | Publishing row rows \<Rightarrow> statement out (Replaying rows) (\<lambda>e. after_error e row rows) (markPublished now (or_id row)) s
   | Failing row err rows \<Rightarrow> statement out (Replaying rows) (\<lambda>_. Idle) (markFailed now (or_id row) err) s
   | Deferring [] \<Rightarrow> (Idle, s)
   | Deferring (row # rows) \<Rightarrow> statement out (Deferring rows) (\<lambda>_. Idle) (outbox_release now (or_id row) RETRY_BACKOFF_SECONDS) s)"

record DrainSummary =
  ds_published :: nat
  ds_failed :: nat
  ds_deferred :: nat
  ds_redisDown :: bool

fun drain_rows ::
  "'q job_queue_ops \<Rightarrow> queue_env \<Rightarrow> (nat \<Rightarrow> link_outcome) \<Rightarrow> millis \<Rightarrow> outbox_row list \<Rightarrow> DrainSummary \<Rightarrow>
   outbox_table \<times> 'q \<Rightarrow> DrainSummary \<times> outbox_table \<times> 'q" where
  "drain_rows Q env outs now [] sm s = (sm, s)"
| "drain_rows Q env outs now (row # rows) sm (t, q) =
     (case dispatchTransactionJob Q env (outs 0) None (fst (or_payload row)) (replay_options row) q of
        (Inr _, q') \<Rightarrow> drain_rows Q env (\<lambda>n. outs (Suc n)) now rows (sm\<lparr>ds_published := ds_published sm + 1\<rparr>)
            (markPublished now (or_id row) t, q')
      | (Inl e, q') \<Rightarrow>
          if isRedisUnavailableError e then
            (sm\<lparr>ds_redisDown := True, ds_deferred := ds_deferred sm + length (row # rows)\<rparr>,
             fold (\<lambda>r. outbox_release now (or_id r) RETRY_BACKOFF_SECONDS) (row # rows) t, q')
          else drain_rows Q env (\<lambda>n. outs (Suc n)) now rows (sm\<lparr>ds_failed := ds_failed sm + 1\<rparr>)
            (markFailed now (or_id row) (error_text e) t, q'))"

definition drainTransactionOutbox ::
  "'q job_queue_ops \<Rightarrow> queue_env \<Rightarrow> (nat \<Rightarrow> link_outcome) \<Rightarrow> millis \<Rightarrow> nat \<Rightarrow> outbox_table \<times> 'q \<Rightarrow> DrainSummary \<times> outbox_table \<times> 'q" where
  \<comment> \<open>a drain without interference: the dispatches answer as in \<open>outs\<close>\<close>
  "drainTransactionOutbox Q env outs now batchSize s = (case s of (t, q) \<Rightarrow> (case claim now batchSize t of (rows, t') \<Rightarrow>
     drain_rows Q env outs now rows \<lparr>ds_published = 0, ds_failed = 0, ds_deferred = 0, ds_redisDown = False\<rparr> (t', q)))"

section \<open>Processes\<close>

record 'q outbox_world =
  ow_now :: millis
  ow_table :: outbox_table
  ow_queue :: 'q
  ow_relays :: "relay list" \<comment> \<open>one in each process\<close>
  ow_accepted :: "id list" \<comment> \<open>the transactions for which an enqueue returned, schedules apart\<close>

datatype outbox_act =
    OutboxWait int
  | Enqueue queue_env link_outcome link_outcome TransactionJobData "OutboxJobOptions option"
  | Schedule queue_env link_outcome link_outcome int TransactionJobData "OutboxJobOptions option"
  | Others queue_name TransactionJobData job_options
    \<comment> \<open>jobs released from hold queues, and those that arrive after the caller has given up waiting\<close>
  | Relay nat queue_env link_outcome
  | Crash nat

fun outbox_step :: "'q job_queue_ops \<Rightarrow> nat \<Rightarrow> outbox_act \<Rightarrow> 'q outbox_world \<Rightarrow> 'q outbox_world" where
  "outbox_step Q batch (OutboxWait d) w = w\<lparr>ow_now := ow_now w + max 0 d\<rparr>"
| "outbox_step Q batch (Enqueue env out ins data options) w =
     (case addTransactionJob Q env out ins (ow_now w) None data options (ow_table w, ow_queue w) of (res, t, q) \<Rightarrow>
        w\<lparr>ow_table := t, ow_queue := q,
          ow_accepted := (case res of Inr _ \<Rightarrow> td_transactionId data # ow_accepted w | Inl _ \<Rightarrow> ow_accepted w)\<rparr>)"
| "outbox_step Q batch (Schedule env out ins every data options) w =
     (case addTransactionJob Q env out ins (ow_now w) (Some every) data options (ow_table w, ow_queue w) of (res, t, q) \<Rightarrow>
        w\<lparr>ow_table := t, ow_queue := q\<rparr>)"
| "outbox_step Q batch (Others queue data x) w = w\<lparr>ow_queue := jo_add Q queue data x (ow_queue w)\<rparr>"
| "outbox_step Q batch (Relay i env out) w =
     (if i < length (ow_relays w) then
        (case relay_step Q env batch out (ow_now w) (ow_relays w ! i) (ow_table w, ow_queue w) of (r, t, q) \<Rightarrow>
           w\<lparr>ow_table := t, ow_queue := q, ow_relays := (ow_relays w)[i := r]\<rparr>)
      else w)"
| "outbox_step Q batch (Crash i) w = w\<lparr>ow_relays := (ow_relays w)[i := Idle]\<rparr>"

definition outbox_run :: "'q job_queue_ops \<Rightarrow> nat \<Rightarrow> outbox_act list \<Rightarrow> 'q outbox_world \<Rightarrow> 'q outbox_world" where
  "outbox_run Q batch acts w = fold (outbox_step Q batch) acts w"

definition outbox_start :: "nat \<Rightarrow> 'q \<Rightarrow> 'q outbox_world" where
  "outbox_start n q = \<lparr>ow_now = 0, ow_table = \<lparr>ot_rows = [], ot_next_id = 0\<rparr>, ow_queue = q,
     ow_relays = replicate n Idle, ow_accepted = []\<rparr>"

end
