(* ===== verification/Outbox_Delivery.thy ===== *)
theory Outbox_Delivery
  imports Outbox
begin

text \<open>
  What the outbox promises. In the locale \<open>job_queue\<close>, which states that a queue keeps the ids it was given, no accepted
  transaction is lost without trace, whatever crashes; once Redis takes jobs again a single drain hands everything
  outstanding to a queue. Under backpressure, though, jobs are given up.
\<close>

definition job_id :: "TransactionJobData \<Rightarrow> OutboxJobOptions option \<Rightarrow> id" where
  "job_id data options = (case Option.bind options op_jobId of Some i \<Rightarrow> i | None \<Rightarrow> td_transactionId data)"

definition sends :: "'q job_queue_ops \<Rightarrow> link_outcome \<Rightarrow> int option \<Rightarrow> id \<Rightarrow> 'q \<Rightarrow> (thrown_error + id) \<times> 'q \<Rightarrow> bool" where
  "sends Q out every i q r \<longleftrightarrow> (snd r = q \<and> (\<exists>e. fst r = Inl e)) \<or>
     (\<exists>n d x. send_job Q out n d x q = r \<and> ao_repeat x = every \<and> ao_jobId x = i)"

lemma sendsI: "send_job Q out n d x q = r \<Longrightarrow> ao_repeat x = every \<Longrightarrow> ao_jobId x = i \<Longrightarrow> sends Q out every i q r"
  "sends Q out every i q (Inl e, q)"
  by (auto simp: sends_def)

lemma hold_sends: "sends Q out None (case i of Some k \<Rightarrow> k | None \<Rightarrow> td_transactionId d) q (hold Q out d i p q)"
  unfolding hold_def by (auto intro: sendsI split: option.split)

lemma provider_sends:
  "sends Q out None (case i of Some k \<Rightarrow> k | None \<Rightarrow> td_transactionId d) q (addProviderRateLimitedJob Q out d i p delay q)"
  unfolding addProviderRateLimitedJob_def by (auto intro: sendsI split: option.split)

lemma dispatch_sends: "sends Q out every (job_id data options) q (dispatchTransactionJob Q env out every data options q)"
proof -
  let ?o = "case options of Some x \<Rightarrow> x | None \<Rightarrow> \<lparr>op_priority = None, op_delay = None, op_jobId = None\<rparr>"
  have i: "job_id data options = (case op_jobId ?o of Some k \<Rightarrow> k | None \<Rightarrow> td_transactionId (data\<lparr>td_priority := p\<rparr>))" for p
    by (simp add: job_id_def split: option.split)
  have a: "sends Q out None (job_id data options) q (hold Q out (data\<lparr>td_priority := p\<rparr>) (op_jobId ?o) r q)" for p r
    unfolding i [of p] by (rule hold_sends)
  have b: "sends Q out None (job_id data options) q (addProviderRateLimitedJob Q out (data\<lparr>td_priority := p\<rparr>) (op_jobId ?o) r d q)" for p r d
    unfolding i [of p] by (rule provider_sends)
  have c: "sends Q out every (job_id data options) q (send_job Q out n d \<lparr>ao_jobId = (case op_jobId ?o of Some k \<Rightarrow> k | None \<Rightarrow> td_transactionId data),
      ao_priority = p, ao_delay = dl, ao_repeat = every\<rparr> q)" for n d p dl
    by (rule sendsI(1) [OF refl]) (simp_all add: job_id_def split: option.split)
  show ?thesis unfolding dispatchTransactionJob_def Let_def
    by (simp only: a b c sendsI(2) simp_thms split: if_split) (use a b in blast)
qed

locale job_queue =
  fixes Q :: "'q job_queue_ops" and known :: "queue_name \<Rightarrow> 'q \<Rightarrow> id set" \<comment> \<open>the job ids that a queue was given so far\<close>
  assumes added: "ao_repeat x = None \<Longrightarrow> ao_jobId x \<in> known n (jo_add Q n d x q)"
    and kept: "known m q \<subseteq> known m (jo_add Q n d x q)"
begin

definition queued :: "id \<Rightarrow> 'q \<Rightarrow> bool" where
  "queued i q \<longleftrightarrow> (\<exists>n. i \<in> known n q)"

lemma queued_kept: "queued i q \<Longrightarrow> queued i (jo_add Q n d x q)"
  using kept by (fastforce simp: queued_def)

lemma queued_added: "ao_repeat x = None \<Longrightarrow> queued (ao_jobId x) (jo_add Q n d x q)"
  unfolding queued_def using added by blast

lemma queued_send:
  assumes "send_job Q out n d x q = (res, q')"
  shows "queued i q \<Longrightarrow> queued i q'" "res = Inr j \<Longrightarrow> ao_repeat x = None \<Longrightarrow> queued (ao_jobId x) q'"
  using assms by (auto simp: send_job_def queued_kept queued_added split: link_outcome.splits)

lemma queued_dispatch:
  assumes "dispatchTransactionJob Q env out every data options q = (res, q')"
  shows "queued i q \<Longrightarrow> queued i q'"
    "res = Inr j \<Longrightarrow> every = None \<Longrightarrow> queued (job_id data options) q'"
proof -
  have "(q' = q \<and> (\<exists>e. res = Inl e)) \<or> (\<exists>n d x. send_job Q out n d x q = (res, q') \<and> ao_repeat x = every \<and> ao_jobId x = job_id data options)"
    using dispatch_sends [of Q out every data options q env] assms by (simp add: sends_def)
  then show "queued i q \<Longrightarrow> queued i q'" "res = Inr j \<Longrightarrow> every = None \<Longrightarrow> queued (job_id data options) q'"
    using queued_send by auto metis
qed

end

section \<open>The invariant of the table\<close>

definition dead :: "outbox_row \<Rightarrow> bool" where
  "dead r \<longleftrightarrow> or_status r = OutboxFailed \<and> or_next_attempt r = None"

definition row_ok :: "millis \<Rightarrow> outbox_row \<Rightarrow> bool" where
  "row_ok now r \<longleftrightarrow> (or_status r \<in> {OutboxPending, OutboxProcessing} \<longrightarrow> or_next_attempt r \<noteq> None) \<and>
     or_updated r \<le> now \<and> or_max_attempts r = 5 \<and>
     (case or_next_attempt r of Some n \<Rightarrow> n \<le> now + 40000 | None \<Rightarrow> True)"

fun rows_of :: "relay \<Rightarrow> outbox_row list" where
  "rows_of Idle = []"
| "rows_of (Replaying rows) = rows"
| "rows_of (Publishing row rows) = row # rows"
| "rows_of (Failing row err rows) = row # rows"
| "rows_of (Deferring rows) = rows"

definition keys :: "outbox_table \<Rightarrow> (nat \<times> id) list" where
  "keys t = map (\<lambda>x. (or_id x, or_aggregate x)) (ot_rows t)"

definition outbox_table_ok :: "millis \<Rightarrow> outbox_table \<Rightarrow> bool" where
  "outbox_table_ok now t \<longleftrightarrow> (\<forall>r\<in>set (ot_rows t). row_ok now r \<and> or_id r < ot_next_id t) \<and> distinct (map fst (keys t))"

lemma update_keys: "(\<And>r. or_id (f r) = or_id r \<and> or_aggregate (f r) = or_aggregate r) \<Longrightarrow>
    keys (outbox_update now p f t) = keys t \<and> ot_next_id (outbox_update now p f t) = ot_next_id t"
  by (simp add: keys_def outbox_update_def map_sql_update)

lemmas relay_defs = relay_step_def statement_def after_error_def

lemmas outbox_ops = markPublished_def outbox_release_def markFailed_def claim_def Let_def

lemma ops_keys:
  "keys (markPublished now i t) = keys t" "keys (outbox_release now i d t) = keys t" "keys (markFailed now i e t) = keys t"
  "keys (snd (claim now n t)) = keys t"
  by (simp_all add: outbox_ops update_keys)

lemma ops_next_id:
  "ot_next_id (markPublished now i t) = ot_next_id t" "ot_next_id (outbox_release now i d t) = ot_next_id t"
  "ot_next_id (markFailed now i e t) = ot_next_id t" "ot_next_id (snd (claim now n t)) = ot_next_id t"
  by (simp_all add: outbox_ops outbox_update_def)

lemma outbox_table_ok_update:
  assumes "outbox_table_ok now t" "\<And>r. or_id (f r) = or_id r \<and> or_aggregate (f r) = or_aggregate r"
    "\<And>r. r \<in> set (ot_rows t) \<Longrightarrow> p r \<Longrightarrow> row_ok now r \<Longrightarrow> row_ok now ((f r)\<lparr>or_updated := now\<rparr>)"
  shows "outbox_table_ok now (outbox_update now p f t)"
  using assms update_keys [of f now p t]
  by (auto simp: outbox_table_ok_def outbox_update_def sql_update_def)

lemma claimed_ids: "i \<in> set (map or_id (take n (sort_key or_created (filter p xs)))) \<Longrightarrow> \<exists>r\<in>set xs. or_id r = i \<and> p r"
  by (auto dest!: in_set_takeD)

lemma row_by_id: "outbox_table_ok now t \<Longrightarrow> r \<in> set (ot_rows t) \<Longrightarrow> r' \<in> set (ot_rows t) \<Longrightarrow> or_id r = or_id r' \<Longrightarrow> r = r'"
  by (auto simp: outbox_table_ok_def keys_def comp_def distinct_map dest: inj_onD)

lemma power_backoff: "a \<le> 3 \<Longrightarrow> (5 :: int) * 2 ^ a * 1000 \<le> 40000"
  using power_increasing [of a 3 "2 :: int"] by simp

lemma outbox_table_ok_ops:
  assumes "outbox_table_ok now t"
  shows "outbox_table_ok now (markPublished now i t)" "outbox_table_ok now (outbox_release now i RETRY_BACKOFF_SECONDS t)"
    "outbox_table_ok now (markFailed now i e t)" "outbox_table_ok now (snd (claim now n t))"
proof -
  show "outbox_table_ok now (markPublished now i t)"
    unfolding markPublished_def by (rule outbox_table_ok_update [OF assms]) (auto simp: row_ok_def)
  show "outbox_table_ok now (outbox_release now i RETRY_BACKOFF_SECONDS t)"
    unfolding outbox_release_def by (rule outbox_table_ok_update [OF assms]) (auto simp: row_ok_def RETRY_BACKOFF_SECONDS_def)
  show "outbox_table_ok now (markFailed now i e t)"
    unfolding markFailed_def using power_backoff
    by (intro outbox_table_ok_update [OF assms]) (auto simp: row_ok_def RETRY_BACKOFF_SECONDS_def)
  have "or_next_attempt r \<noteq> None"
    if r: "r \<in> set (ot_rows t)" and ids: "or_id r \<in> set (map or_id (take n (sort_key or_created (filter (claimable now) (ot_rows t)))))" for r
  proof -
    obtain r' where r': "r' \<in> set (ot_rows t)" "or_id r' = or_id r" "claimable now r'" using claimed_ids [OF ids] by blast
    then have "claimable now r" using row_by_id [OF assms r'(1) r] r'(2,3) by simp
    moreover have "row_ok now r" using assms r by (simp add: outbox_table_ok_def)
    ultimately show ?thesis by (auto simp: claimable_def row_ok_def split: option.splits)
  qed
  then show "outbox_table_ok now (snd (claim now n t))"
    unfolding claim_def Let_def by (auto intro!: outbox_table_ok_update [OF assms] simp: row_ok_def)
qed

lemma outbox_table_ok_insert: "outbox_table_ok now t \<Longrightarrow> outbox_table_ok now (outbox_insert now tx p t)"
  by (auto simp: outbox_table_ok_def outbox_insert_def row_ok_def keys_def)

lemma outbox_table_ok_later: "outbox_table_ok now t \<Longrightarrow> now \<le> now' \<Longrightarrow> outbox_table_ok now' t"
  by (fastforce simp: outbox_table_ok_def row_ok_def split: option.splits)

lemma insert_keys: "set (keys t) \<subseteq> set (keys (outbox_insert now tx p t)) \<and> tx \<in> snd ` set (keys (outbox_insert now tx p t))"
  by (auto simp: outbox_insert_def keys_def list_ex_iff outstanding_def image_iff)

section \<open>Published rows\<close>

definition published :: "outbox_table \<Rightarrow> id set" where
  "published t = or_aggregate ` {r \<in> set (ot_rows t). or_status r = OutboxPublished}"

lemma published_ops:
  "published (outbox_release now i d t) \<subseteq> published t" "published (markFailed now i e t) \<subseteq> published t"
  "published (snd (claim now n t)) \<subseteq> published t" "published (outbox_insert now tx p t) = published t"
  by (auto simp: published_def outbox_ops outbox_update_def sql_update_def outbox_insert_def split: if_splits)

lemma published_mark:
  assumes "outbox_table_ok now t" "(i, a) \<in> set (keys t)"
  shows "published (markPublished now i t) \<subseteq> insert a (published t)"
proof
  fix x assume "x \<in> published (markPublished now i t)"
  then obtain r where r: "r \<in> set (ot_rows t)" "x = or_aggregate r" "or_id r = i \<or> or_status r = OutboxPublished"
    by (auto simp: published_def markPublished_def outbox_update_def sql_update_def split: if_splits)
  moreover have "or_aggregate r = a" if "or_id r = i"
    using assms r(1) that row_by_id [OF assms(1)] by (auto simp: keys_def)
  ultimately show "x \<in> insert a (published t)" by (auto simp: published_def)
qed


section \<open>Nothing is lost\<close>

definition plain_options :: "TransactionJobData \<Rightarrow> OutboxJobOptions option \<Rightarrow> bool" where
  \<comment> \<open>all callers pass the transaction id as job id, or none\<close>
  "plain_options data options \<longleftrightarrow> (case options of None \<Rightarrow> True
     | Some x \<Rightarrow> op_jobId x \<in> {None, Some (td_transactionId data)})"

fun plain :: "outbox_act \<Rightarrow> bool" where
  "plain (Enqueue env out ins data options) \<longleftrightarrow> plain_options data options"
| "plain _ \<longleftrightarrow> True"

context job_queue
begin

fun relay_ok :: "outbox_table \<Rightarrow> 'q \<Rightarrow> relay \<Rightarrow> bool" where
  "relay_ok t q (Publishing row rows) \<longleftrightarrow> queued (or_aggregate row) q \<and>
     (\<forall>r\<in>set (row # rows). (or_id r, or_aggregate r) \<in> set (keys t))"
| "relay_ok t q r \<longleftrightarrow> (\<forall>r\<in>set (rows_of r). (or_id r, or_aggregate r) \<in> set (keys t))"

definition outbox_ok :: "'q outbox_world \<Rightarrow> bool" where
  "outbox_ok w \<longleftrightarrow> outbox_table_ok (ow_now w) (ow_table w) \<and>
     (\<forall>a\<in>published (ow_table w). queued a (ow_queue w)) \<and>
     (\<forall>r\<in>set (ow_relays w). relay_ok (ow_table w) (ow_queue w) r) \<and>
     (\<forall>tx\<in>set (ow_accepted w). queued tx (ow_queue w) \<or> tx \<in> snd ` set (keys (ow_table w)))"

lemma relay_ok_mono:
  assumes "relay_ok t q r" "set (keys t) \<subseteq> set (keys t')" "\<And>i. queued i q \<Longrightarrow> queued i q'"
  shows "relay_ok t' q' r"
  using assms by (cases r) auto

lemma replay_id: "dispatchTransactionJob Q env out None d (replay_options row) q = (Inr j, q') \<Longrightarrow> queued (or_aggregate row) q'"
  using queued_dispatch(2) [of env out None d "replay_options row" q "Inr j" q' j]
  by (auto simp: replay_options_def job_id_def split: option.splits)

lemma relay_step_ok:
  assumes "outbox_table_ok now t" "\<forall>a\<in>published t. queued a q" "relay_ok t q r"
    "relay_step Q env n out now r (t, q) = (r', t', q')"
  shows "outbox_table_ok now t' \<and> (\<forall>a\<in>published t'. queued a q') \<and> keys t' = keys t \<and> (\<forall>i. queued i q \<longrightarrow> queued i q') \<and>
    relay_ok t' q' r'"
proof (cases r)
  case Idle
  obtain rows t1 where c: "claim now n t = (rows, t1)" by fastforce
  have "set rows \<subseteq> set (ot_rows t1)" using c by (auto simp: claim_def Let_def)
  then have "\<forall>r\<in>set rows. (or_id r, or_aggregate r) \<in> set (keys t)"
    unfolding ops_keys(4) [of now n t, symmetric] using c by (auto simp: keys_def)
  then show ?thesis using Idle assms c outbox_table_ok_ops(4) [OF assms(1), of n] published_ops(3) [of now n t] ops_keys(4) [of now n t]
    by (auto simp: relay_defs split: link_outcome.splits)
next
  case (Replaying rows)
  show ?thesis
  proof (cases rows)
    case Nil
    then show ?thesis using Replaying assms by (simp add: relay_defs)
  next
    case (Cons row rest)
    obtain res q1 where d: "dispatchTransactionJob Q env out None (fst (or_payload row)) (replay_options row) q = (res, q1)" by fastforce
    show ?thesis using assms Replaying Cons d queued_dispatch(1) [OF d] replay_id [of env out _ row q _ q1]
      by (cases res) (auto simp: relay_defs split: if_splits)
  qed
next
  case (Publishing row rows)
  then show ?thesis using assms published_mark [OF assms(1), of "or_id row" "or_aggregate row"]
    by (auto simp: relay_defs outbox_table_ok_ops ops_keys split: link_outcome.splits if_splits)
next
  case (Failing row err rows)
  then show ?thesis using assms published_ops(2) [of now "or_id row" err t]
    by (auto simp: relay_defs outbox_table_ok_ops ops_keys split: link_outcome.splits if_splits)
next
  case (Deferring rows)
  then show ?thesis using assms published_ops(1) [of now _ RETRY_BACKOFF_SECONDS t]
    by (cases rows) (auto simp: relay_defs outbox_table_ok_ops ops_keys split: link_outcome.splits)
qed

lemma outbox_ok_relay:
  assumes ok: "outbox_ok w" and i: "i < length (ow_relays w)"
  shows "outbox_ok (outbox_step Q n (Relay i env out) w)"
proof -
  obtain r' t' q' where step: "relay_step Q env n out (ow_now w) (ow_relays w ! i) (ow_table w, ow_queue w) = (r', t', q')"
    by (metis prod_cases3)
  have s: "outbox_table_ok (ow_now w) t' \<and> (\<forall>a\<in>published t'. queued a q') \<and> keys t' = keys (ow_table w) \<and>
      (\<forall>i. queued i (ow_queue w) \<longrightarrow> queued i q') \<and> relay_ok t' q' r'"
    using ok i by (intro relay_step_ok [OF _ _ _ step]) (auto simp: outbox_ok_def)
  have "relay_ok t' q' r" if "r \<in> set ((ow_relays w)[i := r'])" for r
  proof -
    have "relay_ok t' q' r0" if "r0 \<in> set (ow_relays w)" for r0
      using that ok s relay_ok_mono [of "ow_table w" "ow_queue w" r0 t' q'] by (auto simp: outbox_ok_def)
    then show ?thesis using that set_update_subset_insert [of "ow_relays w" i r'] s by auto
  qed
  then show ?thesis using ok i s step by (auto simp: outbox_ok_def)
qed

lemma enqueue_effect:
  assumes "enqueueWithOutboxFallback Q env out ins now data options (t, q) = (res, t', q')" "plain_options data options"
  shows "t' = t \<or> t' = outbox_insert now (td_transactionId data) (data, options) t"
    "queued i q \<Longrightarrow> queued i q'" "res = Inr x \<Longrightarrow> queued (td_transactionId data) q' \<or> td_transactionId data \<in> snd ` set (keys t')"
proof -
  obtain r q1 where d: "dispatchTransactionJob Q env out None data options q = (r, q1)" by fastforce
  have "(t' = t \<or> t' = outbox_insert now (td_transactionId data) (data, options) t) \<and> (queued i q \<longrightarrow> queued i q') \<and>
      (res = Inr x \<longrightarrow> queued (td_transactionId data) q' \<or> td_transactionId data \<in> snd ` set (keys t'))"
    using assms d queued_dispatch(1) [OF d, of i] queued_dispatch(2) [OF d _ refl] insert_keys [of t now "td_transactionId data" "(data, options)"]
    by (cases r) (auto simp: enqueueWithOutboxFallback_def plain_options_def job_id_def Let_def split: if_splits option.splits link_outcome.splits)
  then show "t' = t \<or> t' = outbox_insert now (td_transactionId data) (data, options) t"
    "queued i q \<Longrightarrow> queued i q'" "res = Inr x \<Longrightarrow> queued (td_transactionId data) q' \<or> td_transactionId data \<in> snd ` set (keys t')"
    by blast+
qed

lemma unrepeated: "addTransactionJob Q env out ins now None data options s = enqueueWithOutboxFallback Q env out ins now data options s"
  by (simp add: addTransactionJob_def)

lemma outbox_ok_more:
  assumes "outbox_ok w" "\<And>i. queued i (ow_queue w) \<Longrightarrow> queued i q"
  shows "outbox_ok (w\<lparr>ow_queue := q\<rparr>)"
  using assms relay_ok_mono [of "ow_table w" "ow_queue w" _ "ow_table w" q] by (auto simp: outbox_ok_def)

lemma outbox_ok_enqueue:
  assumes ok: "outbox_ok w" and p: "plain_options data options"
  shows "outbox_ok (outbox_step Q n (Enqueue env out ins data options) w)"
proof -
  obtain res t' q' where e: "addTransactionJob Q env out ins (ow_now w) None data options (ow_table w, ow_queue w) = (res, t', q')"
    by (metis prod_cases3)
  note eff = enqueue_effect [OF e [unfolded unrepeated] p]
  have sub: "set (keys (ow_table w)) \<subseteq> set (keys t')" and tok: "outbox_table_ok (ow_now w) t'" and pub: "published t' = published (ow_table w)"
    using eff(1) insert_keys [of "ow_table w" "ow_now w" "td_transactionId data" "(data, options)"] ok outbox_table_ok_insert published_ops(4)
    by (auto simp: outbox_ok_def)
  have acc: "queued tx q' \<or> tx \<in> snd ` set (keys t')"
    if "tx \<in> set (ow_accepted w)" for tx
    using that ok eff(2) sub unfolding outbox_ok_def by blast
  have rel: "relay_ok t' q' r" if "r \<in> set (ow_relays w)" for r
    using that ok relay_ok_mono [OF _ sub, of "ow_queue w" r q'] eff(2) by (simp add: outbox_ok_def)
  have q: "\<forall>a\<in>published t'. queued a q'" using ok pub eff(2) by (auto simp: outbox_ok_def)
  show ?thesis
  proof (cases res)
    case (Inl err)
    then show ?thesis using ok tok q rel acc e by (simp add: outbox_ok_def)
  next
    case (Inr x)
    then show ?thesis using ok tok q rel acc eff(3) [OF Inr] e by (simp add: outbox_ok_def)
  qed
qed

lemma outbox_ok_run: "outbox_ok w \<Longrightarrow> list_all plain acts \<Longrightarrow> outbox_ok (outbox_run Q n acts w)"
proof (induction acts arbitrary: w)
  case (Cons a acts)
  have "outbox_ok (outbox_step Q n a w)"
  proof (cases a)
    case (OutboxWait d)
    then show ?thesis using Cons.prems(1) outbox_table_ok_later [of "ow_now w" "ow_table w" "ow_now w + max 0 d"]
      by (simp add: outbox_ok_def)
  next
    case (Enqueue env out ins data options)
    then show ?thesis using Cons.prems outbox_ok_enqueue by simp
  next
    case (Schedule env out ins every data options)
    obtain r q1 where d: "dispatchTransactionJob Q env out (Some every) data options (ow_queue w) = (r, q1)" by fastforce
    have "outbox_step Q n a w = w\<lparr>ow_queue := q1\<rparr>"
      using Schedule d by (cases r) (simp_all add: addTransactionJob_def)
    then show ?thesis using Cons.prems(1) queued_dispatch(1) [OF d] by (simp add: outbox_ok_more)
  next
    case (Others queue data x)
    then show ?thesis using Cons.prems(1) queued_kept by (simp add: outbox_ok_more)
  next
    case (Relay i env out)
    then show ?thesis using Cons.prems(1) outbox_ok_relay by (cases "i < length (ow_relays w)") auto
  next
    case (Crash i)
    have "relay_ok (ow_table w) (ow_queue w) r" if "r \<in> set ((ow_relays w)[i := Idle])" for r
      using that set_update_subset_insert [of "ow_relays w" i Idle] Cons.prems(1) by (auto simp: outbox_ok_def)
    then show ?thesis using Crash Cons.prems(1) by (simp add: outbox_ok_def)
  qed
  then show ?case using Cons by (simp add: outbox_run_def)
qed (simp add: outbox_run_def)

lemma outbox_ok_start: "outbox_ok (outbox_start k q)"
  by (auto simp: outbox_ok_def outbox_start_def outbox_table_ok_def keys_def published_def)

lemma accounted_for:
  assumes "list_all plain acts" "w = outbox_run Q n acts (outbox_start k q)" "tx \<in> set (ow_accepted w)"
  shows "queued tx (ow_queue w) \<or> (\<exists>r\<in>set (ot_rows (ow_table w)). or_aggregate r = tx \<and> (outstanding tx r \<or> dead r))"
proof -
  have ok: "outbox_ok w" unfolding assms(2) by (rule outbox_ok_run [OF outbox_ok_start assms(1)])
  show ?thesis
  proof (cases "queued tx (ow_queue w)")
    case False
    then obtain r where r: "r \<in> set (ot_rows (ow_table w))" "or_aggregate r = tx"
      using ok assms(3) by (fastforce simp: outbox_ok_def keys_def)
    moreover have "or_status r \<noteq> OutboxPublished" using ok False r by (auto simp: outbox_ok_def published_def)
    moreover have "row_ok (ow_now w) r" using ok r by (simp add: outbox_ok_def outbox_table_ok_def)
    ultimately have "outstanding tx r \<or> dead r" by (cases "or_status r") (auto simp: outstanding_def dead_def row_ok_def)
    then show ?thesis using r by blast
  qed simp
qed

end

section \<open>Recovery\<close>

definition outage :: "link_outcome \<Rightarrow> bool" where
  "outage out \<longleftrightarrow> (case out of Accepted \<Rightarrow> True | Unsent e \<Rightarrow> isRedisUnavailableError e | Unacknowledged e \<Rightarrow> isRedisUnavailableError e)"

definition named :: "TransactionJobData \<Rightarrow> bool" where
  \<comment> \<open>there may be a queue of the provider\<close>
  "named data \<longleftrightarrow> normalizeProviderQueueKey (td_provider data) \<noteq> None"

fun outages_only :: "outbox_act \<Rightarrow> bool" where
  \<comment> \<open>no dispatch fails but for Redis being unreachable\<close>
  "outages_only (Enqueue env out ins data options) \<longleftrightarrow> outage out \<and> \<not> bp_active (qe_backpressure env) \<and> named data"
| "outages_only (Relay i env out) \<longleftrightarrow> outage out \<and> \<not> bp_active (qe_backpressure env)"
| "outages_only _ \<longleftrightarrow> True"

fun is_failing :: "relay \<Rightarrow> bool" where
  "is_failing (Failing row err rows) \<longleftrightarrow> True"
| "is_failing _ \<longleftrightarrow> False"

definition good_row :: "outbox_row \<Rightarrow> bool" where
  "good_row r \<longleftrightarrow> or_status r \<noteq> OutboxFailed \<and> named (fst (or_payload r))"

definition unfailed :: "'q outbox_world \<Rightarrow> bool" where
  "unfailed w \<longleftrightarrow> (\<forall>r\<in>set (ot_rows (ow_table w)). good_row r) \<and>
     (\<forall>x\<in>set (ow_relays w). \<not> is_failing x \<and> (\<forall>r\<in>set (rows_of x). good_row r))"

lemma send_error: "send_job Q out n d x q = (Inl e, q') \<Longrightarrow> outage out \<Longrightarrow> isRedisUnavailableError e"
  by (auto simp: send_job_def outage_def split: link_outcome.splits)

lemma paused_named: "isPaused paused p \<Longrightarrow> normalizeProviderKey p \<noteq> None"
  by (auto simp: isPaused_def split: option.splits)

lemma outage_dispatch:
  assumes "outage out" "\<not> bp_active (qe_backpressure env)" "named d" "dispatchTransactionJob Q env out None d opts q = (Inl e, q')"
  shows "isRedisUnavailableError e"
  using assms paused_named [of "qe_paused env" "td_provider d"]
  by (auto simp: dispatchTransactionJob_def hold_def addProviderRateLimitedJob_def named_def Let_def
      split: if_splits option.splits dest: send_error)

lemma unfailed_ops:
  assumes "\<forall>r\<in>set (ot_rows t). good_row r"
  shows "\<forall>r\<in>set (ot_rows (markPublished now i t)). good_row r"
    "\<forall>r\<in>set (ot_rows (outbox_release now i d t)). good_row r"
    "\<forall>r\<in>set (ot_rows (snd (claim now n t))). good_row r" "\<forall>r\<in>set (fst (claim now n t)). good_row r"
    "named (fst p) \<Longrightarrow> \<forall>r\<in>set (ot_rows (outbox_insert now tx p t)). good_row r"
  using assms by (auto simp: outbox_ops outbox_update_def sql_update_def outbox_insert_def good_row_def)

lemma relay_unfailed:
  assumes "relay_step Q env n out now r (t, q) = (r', t', q')" "outage out" "\<not> bp_active (qe_backpressure env)" "\<not> is_failing r"
    "\<forall>r\<in>set (ot_rows t). good_row r" "\<forall>x\<in>set (rows_of r). good_row x"
  shows "\<not> is_failing r' \<and> (\<forall>x\<in>set (rows_of r'). good_row x) \<and> (\<forall>r\<in>set (ot_rows t'). good_row r)"
proof (cases r)
  case Idle
  then show ?thesis using assms(1,5) unfailed_ops(3,4) [OF assms(5), of now n]
    by (auto simp: relay_defs split: link_outcome.splits)
next
  case (Replaying rows)
  show ?thesis
  proof (cases rows)
    case (Cons row rest)
    obtain res q1 where d: "dispatchTransactionJob Q env out None (fst (or_payload row)) (replay_options row) q = (res, q1)" by fastforce
    have named: "named (fst (or_payload row))" using assms(6) Replaying Cons by (simp add: good_row_def)
    show ?thesis
    proof (cases res)
      case (Inl e)
      then have "isRedisUnavailableError e" using outage_dispatch [OF assms(2,3) named] d by simp
      then show ?thesis using assms(1,5,6) Replaying Cons d Inl by (auto simp: relay_defs)
    qed (use assms(1,5,6) Replaying Cons d in \<open>auto simp: relay_defs\<close>)
  qed (use Replaying assms in \<open>auto simp: relay_defs\<close>)
next
  case (Publishing row rows)
  then show ?thesis using assms(1,2,5,6) unfailed_ops(1) [OF assms(5)]
    by (auto simp: relay_defs outage_def split: link_outcome.splits)
next
  case (Deferring rows)
  then show ?thesis using assms(1,5,6) unfailed_ops(2) [OF assms(5)] by (cases rows) (auto simp: relay_defs split: link_outcome.splits)
qed (use assms(4) in simp)

lemma unfailed_step:
  assumes "unfailed w" "outages_only a"
  shows "unfailed (outbox_step Q n a w)"
proof (cases a)
  case (Enqueue env out ins data options)
  obtain r q1 where d: "dispatchTransactionJob Q env out None data options (ow_queue w) = (r, q1)" by fastforce
  then show ?thesis using assms Enqueue unfailed_ops(5) [of "ow_table w" "(data, options)"]
    by (cases r) (auto simp: unfailed_def addTransactionJob_def enqueueWithOutboxFallback_def Let_def split: link_outcome.splits)
next
  case (Schedule env out ins every data options)
  obtain r q1 where "dispatchTransactionJob Q env out (Some every) data options (ow_queue w) = (r, q1)" by fastforce
  then show ?thesis using assms(1) Schedule by (cases r) (simp_all add: unfailed_def addTransactionJob_def)
next
  case (Relay i env out)
  show ?thesis
  proof (cases "i < length (ow_relays w)")
    case True
    obtain r' t' q' where step: "relay_step Q env n out (ow_now w) (ow_relays w ! i) (ow_table w, ow_queue w) = (r', t', q')"
      by (metis prod_cases3)
    have "\<not> is_failing r' \<and> (\<forall>x\<in>set (rows_of r'). good_row x) \<and> (\<forall>r\<in>set (ot_rows t'). good_row r)"
      using assms Relay True by (intro relay_unfailed [OF step]) (auto simp: unfailed_def)
    then show ?thesis using assms(1) Relay True step set_update_subset_insert [of "ow_relays w" i r']
      by (auto simp: unfailed_def)
  qed (use assms Relay in simp)
next
  case (Crash i)
  then show ?thesis using assms(1) set_update_subset_insert [of "ow_relays w" i Idle] by (auto simp: unfailed_def)
qed (use assms in \<open>simp_all add: unfailed_def\<close>)

lemma unfailed_run: "unfailed w \<Longrightarrow> list_all outages_only acts \<Longrightarrow> unfailed (outbox_run Q n acts w)"
  unfolding outbox_run_def by (induction acts arbitrary: w) (simp_all add: unfailed_step)

lemma claims_outstanding:
  assumes "outbox_table_ok now0 t" "now0 + 120000 < now" "length (ot_rows t) \<le> n" "r \<in> set (ot_rows t)" "outstanding tx r"
  shows "\<exists>r'\<in>set (fst (claim now n t)). or_aggregate r' = tx"
proof -
  have "row_ok now0 r" using assms(1,4) by (simp add: outbox_table_ok_def)
  then have "claimable now r" using assms(2,5)
    by (cases "or_status r") (auto simp: row_ok_def claimable_def outstanding_def STALE_PROCESSING_SECONDS_def)
  moreover have "length (filter (claimable now) (ot_rows t)) \<le> n"
    using assms(3) length_filter_le [of "claimable now" "ot_rows t"] by linarith
  ultimately have "or_id r \<in> set (map or_id (take n (sort_key or_created (filter (claimable now) (ot_rows t)))))"
    using assms(4) by simp
  then have "r\<lparr>or_status := OutboxProcessing, or_updated := now\<rparr> \<in> set (fst (claim now n t))"
    using assms(4) unfolding claim_def Let_def outbox_update_def sql_update_def by (force simp: image_iff)
  then show ?thesis using assms(5) by (intro bexI) (simp_all add: outstanding_def)
qed

context job_queue
begin

lemma accepted_dispatch:
  assumes "\<not> bp_active (qe_backpressure env)" "named d" "dispatchTransactionJob Q env Accepted None d opts q = (res, q')"
  shows "\<exists>j. res = Inr j"
  using assms paused_named [of "qe_paused env" "td_provider d"]
  by (auto simp: dispatchTransactionJob_def hold_def addProviderRateLimitedJob_def send_job_def named_def Let_def
      split: if_splits option.splits)

lemma drain_queues:
  assumes "\<not> bp_active (qe_backpressure env)" "\<forall>r\<in>set rows. good_row r"
    "drain_rows Q env (\<lambda>_. Accepted) now rows sm (t, q) = (sm', t', q')"
  shows "(\<forall>r\<in>set rows. queued (or_aggregate r) q') \<and> (\<forall>i. queued i q \<longrightarrow> queued i q')"
  using assms(2,3)
proof (induction rows arbitrary: sm t q)
  case (Cons row rows)
  obtain res q1 where d: "dispatchTransactionJob Q env Accepted None (fst (or_payload row)) (replay_options row) q = (res, q1)" by fastforce
  have "named (fst (or_payload row))" using Cons.prems(1) by (simp add: good_row_def)
  then obtain j where "res = Inr j" using accepted_dispatch [OF assms(1) _ d] by blast
  then have "drain_rows Q env (\<lambda>_. Accepted) now rows (sm\<lparr>ds_published := ds_published sm + 1\<rparr>) (markPublished now (or_id row) t, q1) = (sm', t', q')"
    and row: "queued (or_aggregate row) q1"
    using Cons.prems(2) d replay_id [of env Accepted _ row q j q1] by simp_all
  then have "(\<forall>r\<in>set rows. queued (or_aggregate r) q') \<and> (\<forall>i. queued i q1 \<longrightarrow> queued i q')"
    using Cons.prems(1) by (intro Cons.IH) simp_all
  then show ?case using row queued_dispatch(1) [OF d] by auto
qed simp

lemma recovers:
  assumes "list_all plain acts" "list_all outages_only acts" "w = outbox_run Q n acts (outbox_start k q)" "tx \<in> set (ow_accepted w)"
    "ow_now w + 120000 < now" "length (ot_rows (ow_table w)) \<le> batch" "\<not> bp_active (qe_backpressure env)"
    "drainTransactionOutbox Q env (\<lambda>_. Accepted) now batch (ow_table w, ow_queue w) = (sm, t', q')"
  shows "queued tx q'"
proof -
  obtain rows t1 where c: "claim now batch (ow_table w) = (rows, t1)" by fastforce
  have u: "unfailed w" unfolding assms(3)
    by (rule unfailed_run [OF _ assms(2)]) (auto simp: unfailed_def outbox_start_def)
  then have rows: "\<forall>r\<in>set rows. good_row r"
    using unfailed_ops(4) [of "ow_table w" now batch] c by (simp add: unfailed_def)
  have d: "(\<forall>r\<in>set rows. queued (or_aggregate r) q') \<and> (\<forall>i. queued i (ow_queue w) \<longrightarrow> queued i q')"
    using assms(8) c by (intro drain_queues [OF assms(7) rows]) (auto simp: drainTransactionOutbox_def)
  have t: "outbox_table_ok (ow_now w) (ow_table w)"
    using outbox_ok_run [OF outbox_ok_start assms(1), of n k q] by (simp add: assms(3) outbox_ok_def)
  from accounted_for [OF assms(1,3,4)] show ?thesis
  proof
    assume "\<exists>r\<in>set (ot_rows (ow_table w)). or_aggregate r = tx \<and> (outstanding tx r \<or> dead r)"
    then obtain r where r: "r \<in> set (ot_rows (ow_table w))" "outstanding tx r" using u by (auto simp: unfailed_def good_row_def dead_def)
    then obtain r' where "r' \<in> set rows" "or_aggregate r' = tx"
      using claims_outstanding [OF t assms(5,6) r] c by auto
    then show ?thesis using d by blast
  qed (use d in blast)
qed

end

section \<open>A drain is a run of its relay\<close>

definition relay_runs ::
  "'q job_queue_ops \<Rightarrow> queue_env \<Rightarrow> nat \<Rightarrow> millis \<Rightarrow> link_outcome list \<Rightarrow> relay \<times> outbox_table \<times> 'q \<Rightarrow> relay \<times> outbox_table \<times> 'q" where
  "relay_runs Q env n now os s = fold (\<lambda>out (r, s). relay_step Q env n out now r s) os s"

lemma relay_runs_Cons: "relay_runs Q env n now (out # os) (r, s) = relay_runs Q env n now os (relay_step Q env n out now r s)"
  by (simp add: relay_runs_def)

lemma deferring_runs:
  "relay_runs Q env n now (replicate (Suc (length rows)) Accepted) (Deferring rows, t, q) =
   (Idle, fold (\<lambda>r. outbox_release now (or_id r) RETRY_BACKOFF_SECONDS) rows t, q)"
  by (induction rows arbitrary: t) (simp_all add: relay_runs_def relay_defs)

lemma drain_rows_runs:
  "drain_rows Q env outs now rows sm (t, q) = (sm', t', q') \<Longrightarrow>
   \<exists>os. relay_runs Q env n now os (Replaying rows, t, q) = (Idle, t', q')"
proof (induction rows arbitrary: outs sm t q)
  case Nil
  then show ?case by (intro exI [of _ "[Accepted]"]) (simp add: relay_runs_def relay_defs)
next
  case (Cons row rows)
  obtain res q1 where d: "dispatchTransactionJob Q env (outs 0) None (fst (or_payload row)) (replay_options row) q = (res, q1)" by fastforce
  show ?case
  proof (cases res)
    case (Inr j)
    then obtain os where "relay_runs Q env n now os (Replaying rows, markPublished now (or_id row) t, q1) = (Idle, t', q')"
      using Cons d by fastforce
    then show ?thesis using Inr d
      by (intro exI [of _ "outs 0 # Accepted # os"]) (simp add: relay_runs_Cons relay_defs)
  next
    case (Inl e)
    show ?thesis
    proof (cases "isRedisUnavailableError e")
      case True
      then show ?thesis using Inl d Cons.prems deferring_runs [of Q env n now "row # rows" t q1]
        by (intro exI [of _ "outs 0 # replicate (Suc (length (row # rows))) Accepted"])
          (simp add: relay_runs_Cons relay_defs del: replicate_Suc)
    next
      case False
      let ?m = "error_text e"
      obtain os where "relay_runs Q env n now os (Replaying rows, markFailed now (or_id row) ?m t, q1) = (Idle, t', q')"
        using Cons Inl d False by fastforce
      then show ?thesis using Inl d False
        by (intro exI [of _ "outs 0 # Accepted # os"]) (simp add: relay_runs_Cons relay_defs)
    qed
  qed
qed

lemma drain_is_run:
  assumes "drainTransactionOutbox Q env outs now n (t, q) = (sm, t', q')"
  shows "\<exists>os. relay_runs Q env n now os (Idle, t, q) = (Idle, t', q')"
proof -
  obtain rows t1 where c: "claim now n t = (rows, t1)" by fastforce
  then obtain os where "relay_runs Q env n now os (Replaying rows, t1, q) = (Idle, t', q')"
    using assms drain_rows_runs by (fastforce simp: drainTransactionOutbox_def)
  then show ?thesis using c by (intro exI [of _ "Accepted # os"]) (simp add: relay_runs_Cons relay_defs)
qed


section \<open>Refusals\<close>

definition noncritical :: "queue_env \<Rightarrow> TransactionJobData \<Rightarrow> OutboxJobOptions option \<Rightarrow> bool" where
  "noncritical env data options \<longleftrightarrow> \<not> isCriticalPriority (qe_watermarks env) (calculateTransactionPriority
     (case Option.bind options op_priority of Some p \<Rightarrow> Some p | None \<Rightarrow> td_priority data) (td_tier data) (td_amount data))"

definition refused_times :: "TransactionJobData \<Rightarrow> OutboxJobOptions option \<Rightarrow> 'q \<Rightarrow> nat \<Rightarrow> millis option \<Rightarrow> 'q outbox_world \<Rightarrow> bool" where
  \<comment> \<open>after \<open>k\<close> refusals, with the next attempt at \<open>x\<close>\<close>
  "refused_times data options q k x w \<longleftrightarrow> (\<exists>r. ot_rows (ow_table w) = [r] \<and> or_payload r = (data, options) \<and>
     or_status r \<in> {OutboxPending, OutboxFailed} \<and> or_attempts r = k \<and> or_max_attempts r = 5 \<and> or_next_attempt r = x \<and>
     (0 < k \<longrightarrow> or_status r = OutboxFailed)) \<and>
     ow_relays w = [Idle] \<and> ow_queue w = q \<and> ow_accepted w = [td_transactionId data]"

definition tick :: "queue_env \<Rightarrow> int \<Rightarrow> outbox_act list" where
  \<comment> \<open>a pause, then one drain of a single row\<close>
  "tick env d = OutboxWait d # replicate 4 (Relay 0 env Accepted)"

lemma backpressure_is_no_outage: "\<not> isRedisUnavailableError backpressure_error"
  by code_simp

lemma refused_dispatch:
  assumes "bp_active (qe_backpressure env)" "noncritical env data options" "or_payload r = (data, options)"
  shows "dispatchTransactionJob Q env out None (fst (or_payload r)) (replay_options r) q = (Inl backpressure_error, q)"
  using assms by (cases options) (auto simp: dispatchTransactionJob_def noncritical_def replay_options_def Let_def)

lemma replicate_four: "replicate 4 x = [x, x, x, x]"
  by (simp add: numeral_eq_Suc)

lemma refused_tick:
  assumes "refused_times data options q k (Some x) w" "x \<le> ow_now w + d" "0 \<le> d" "0 < n"
    "bp_active (qe_backpressure env)" "noncritical env data options"
  shows "refused_times data options q (Suc k) (if 5 \<le> Suc k then None else Some (ow_now w + d + 5 * 2 ^ k * 1000))
      (outbox_run Q n (tick env d) w) \<and> ow_now (outbox_run Q n (tick env d) w) = ow_now w + d"
proof -
  obtain r where r: "ot_rows (ow_table w) = [r]" "or_payload r = (data, options)" "or_status r \<in> {OutboxPending, OutboxFailed}"
    "or_attempts r = k" "or_max_attempts r = 5" "or_next_attempt r = Some x"
    and w: "ow_relays w = [Idle]" "ow_queue w = q" "ow_accepted w = [td_transactionId data]"
    using assms(1) by (auto simp: refused_times_def)
  let ?now = "ow_now w + d" and ?r = "r\<lparr>or_status := OutboxProcessing, or_updated := ow_now w + d\<rparr>"
  have "claimable ?now r" using r(3,6) assms(2) by (simp add: claimable_def)
  then have c: "claim ?now n (ow_table w) = ([?r], (ow_table w)\<lparr>ot_rows := [?r]\<rparr>)"
    using assms(4) r(1) by (simp add: claim_def Let_def outbox_update_def sql_update_def)
  have d: "dispatchTransactionJob Q env Accepted None (fst (or_payload ?r)) (replay_options ?r) q = (Inl backpressure_error, q)"
    using r(2) by (intro refused_dispatch [OF assms(5,6)]) simp
  let ?t = "(ow_table w)\<lparr>ot_rows := [?r]\<rparr>"
  let ?w = "\<lambda>t x. w\<lparr>ow_now := ?now, ow_table := t, ow_relays := [x]\<rparr>"
  have step: "outbox_step Q n (Relay 0 env Accepted) (?w t x) =
      (case relay_step Q env n Accepted ?now x (t, q) of (x', t', q') \<Rightarrow> (?w t' x')\<lparr>ow_queue := q'\<rparr>)" for t x
    using w by (simp split: prod.splits)
  have 1: "relay_step Q env n Accepted ?now Idle (ow_table w, q) = (Replaying [?r], ?t, q)"
    using c by (simp add: relay_defs)
  have 2: "relay_step Q env n Accepted ?now (Replaying [?r]) (?t, q) = (Failing ?r (error_text backpressure_error) [], ?t, q)"
    using d backpressure_is_no_outage by (simp add: relay_defs)
  have 3: "relay_step Q env n Accepted ?now (Failing ?r (error_text backpressure_error) []) (?t, q) =
      (Replaying [], markFailed ?now (or_id r) (error_text backpressure_error) ?t, q)"
    by (simp add: relay_defs)
  have 4: "relay_step Q env n Accepted ?now (Replaying []) (t, q) = (Idle, t, q)" for t
    by (simp add: relay_defs)
  have same: "(?w t x)\<lparr>ow_queue := q\<rparr> = ?w t x" for t x using w(2) by simp
  have a: "outbox_step Q n (OutboxWait d) w = ?w (ow_table w) Idle" using assms(3) w by simp
  have b: "outbox_step Q n (Relay 0 env Accepted) (?w (ow_table w) Idle) = ?w ?t (Replaying [?r])"
    "outbox_step Q n (Relay 0 env Accepted) (?w ?t (Replaying [?r])) = ?w ?t (Failing ?r (error_text backpressure_error) [])"
    "outbox_step Q n (Relay 0 env Accepted) (?w ?t (Failing ?r (error_text backpressure_error) [])) =
       ?w (markFailed ?now (or_id r) (error_text backpressure_error) ?t) (Replaying [])"
    "outbox_step Q n (Relay 0 env Accepted) (?w t (Replaying [])) = ?w t Idle" for t
    unfolding step 1 2 3 4 prod.case same by (rule refl)+
  have "outbox_run Q n (tick env d) w = ?w (markFailed ?now (or_id r) (error_text backpressure_error) ?t) Idle"
    by (simp only: outbox_run_def tick_def replicate_four fold.simps comp_apply id_apply a b)
  then show ?thesis using r w
    by (simp add: refused_times_def markFailed_def outbox_update_def sql_update_def RETRY_BACKOFF_SECONDS_def)
qed

definition list_jobs :: "(queue_name \<times> id) list job_queue_ops" where
  "list_jobs = \<lparr>jo_add = (\<lambda>n d x q. if (n, ao_jobId x) \<in> set q then q else q @ [(n, ao_jobId x)]), jo_id = ao_jobId\<rparr>"

definition known_ids :: "queue_name \<Rightarrow> (queue_name \<times> id) list \<Rightarrow> id set" where
  "known_ids n q = {i. (n, i) \<in> set q}"

interpretation list_job: job_queue list_jobs known_ids
  by unfold_locales (auto simp: list_jobs_def known_ids_def)

definition demo_levels :: watermarks where
  "demo_levels = \<lparr>HIGH_WATERMARK = Fin (4/5), LOW_WATERMARK = Fin (7/10), CRITICAL_PRIORITY = Fin 2,
     MAX_MEMORY_OVERRIDE = Fin 0, CHECK_INTERVAL_MS = Fin 5000\<rparr>"

definition calm_env :: queue_env where
  "calm_env = \<lparr>qe_watermarks = demo_levels, qe_backpressure = initial_backpressure, qe_paused = (\<lambda>_. False), qe_rateLimited = False\<rparr>"

definition under_pressure :: queue_env where
  "under_pressure = calm_env\<lparr>qe_backpressure := initial_backpressure\<lparr>bp_active := True\<rparr>\<rparr>"


definition demo_data :: TransactionJobData where
  "demo_data = \<lparr>td_transactionId = ''t1'', td_provider = ''MTN'', td_amount = Some (Fin 50), td_tier = None, td_priority = None,
     td_heldPriority = None\<rparr>"

definition closed_connection :: thrown_error where
  "closed_connection = \<lparr>er_code = None, er_name = ''Error'', er_message = Some ''Connection is closed.''\<rparr>"

lemma closed_connection_outage: "isRedisUnavailableError closed_connection"
  by code_simp

lemma demo_named: "named demo_data"
  by code_simp

definition demo_outage :: "outbox_act list" where
  "demo_outage = [Enqueue calm_env (Unsent closed_connection) Accepted demo_data None, OutboxWait 5, Relay 0 calm_env Accepted, Crash 0]"

lemma demo_outage_ok:
  "list_all plain demo_outage" "list_all outages_only demo_outage"
  "''t1'' \<in> set (ow_accepted (outbox_run list_jobs 50 demo_outage (outbox_start 1 [])))"
  "ow_now (outbox_run list_jobs 50 demo_outage (outbox_start 1 [])) = 5"
  "length (ot_rows (ow_table (outbox_run list_jobs 50 demo_outage (outbox_start 1 [])))) = 1"
  "\<not> bp_active (qe_backpressure calm_env)"
  by code_simp+

section \<open>Properties\<close>

text \<open>
  C31. No accepted transaction is lost without trace: however enqueues, relays of several processes, their crashes and the
  release of held jobs interleave, whichever providers are paused, and whatever fails, a transaction for which an enqueue
  returned was given to a queue (the shared one, the hold queue of its paused provider or the queue of the provider),
  or has a row that relays will claim, or a row marked as given up. Callers give the transaction id as job id, or none; a
  queue keeps the job ids it was given; repeatable schedules, which have no outbox, are not counted.
\<close>

theorem outbox_never_loses:
  assumes "job_queue Q known" "list_all plain acts" "w = outbox_run Q n acts (outbox_start k q)" "tx \<in> set (ow_accepted w)"
  shows "(\<exists>queue. tx \<in> known queue (ow_queue w)) \<or>
    (\<exists>r\<in>set (ot_rows (ow_table w)). or_aggregate r = tx \<and> (outstanding tx r \<or> dead r))"
  using job_queue.accounted_for [OF assms] by (simp add: job_queue.queued_def [OF assms(1)])

theorem outbox_never_loses_witness:
  "let w = outbox_run list_jobs 50 demo_outage (outbox_start 1 [])
   in (\<exists>queue. ''t1'' \<in> known_ids queue (ow_queue w)) \<or>
     (\<exists>r\<in>set (ot_rows (ow_table w)). or_aggregate r = ''t1'' \<and> (outstanding ''t1'' r \<or> dead r))"
  unfolding Let_def by (rule outbox_never_loses [OF list_job.job_queue_axioms demo_outage_ok(1) refl demo_outage_ok(3)])



text \<open>Where a dispatch puts a job.\<close>

theorem dispatch_routes:
  assumes "\<not> bp_active (qe_backpressure env)" "normalizeProviderKey (td_provider data) = Some key"
  shows "dispatchTransactionJob list_jobs env Accepted None data None [] =
    (Inr (td_transactionId data), [(if qe_paused env key then HoldQueue key else if qe_rateLimited env then ProviderQueue key else MainQueue,
      td_transactionId data)])"
  using assms by (simp add: dispatchTransactionJob_def hold_def addProviderRateLimitedJob_def send_job_def isPaused_def list_jobs_def
      normalizeProviderQueueKey_def normalizeProviderKey_def Let_def split: if_splits)

text \<open>
  A drain is what its relay does alone: the loop over the claimed rows and the single statements of
  the relay lead to the same table and queue, whatever the dispatches answer.
\<close>

theorem drain_is_relay_run:
  assumes "drainTransactionOutbox Q env outs now n (t, q) = (sm, t', q')"
  shows "\<exists>os. relay_runs Q env n now os (Idle, t, q) = (Idle, t', q')"
  using assms by (rule drain_is_run)

theorem drain_is_relay_run_witness:
  "let t = outbox_insert 0 ''t1'' (demo_data, None) \<lparr>ot_rows = [], ot_next_id = 0\<rparr>
   in \<exists>os. relay_runs list_jobs calm_env 50 5 os (Idle, t, []) =
     (Idle, snd (drainTransactionOutbox list_jobs calm_env (\<lambda>_. Unsent closed_connection) 5 50 (t, [])))"
  unfolding Let_def
  using drain_is_relay_run [of list_jobs calm_env "\<lambda>_. Unsent closed_connection" 5 50 _ "[]"] by (metis prod.collapse)

text \<open>
  Backpressure makes the outbox give up: if Redis is back but short of memory, a transaction that is
  not critical, and for which the client has an answer, is refused five times within eighty seconds;
  its row is then given up, no relay ever claims it again, and the queue never got the job.
\<close>

theorem backpressure_gives_up:
  assumes "isRedisUnavailableError e" "\<not> bp_active (qe_backpressure env0)" "0 < n"
    "bp_active (qe_backpressure env)" "noncritical env data options"
    "named data"
    "w = outbox_run Q n (Enqueue env0 (Unsent e) Accepted data options # tick env 0 @ tick env 5000 @ tick env 10000 @
        tick env 20000 @ tick env 40000) (outbox_start 1 q)"
  shows "ow_accepted w = [td_transactionId data] \<and> ow_queue w = q \<and> ow_now w = 75000 \<and>
    list_all dead (ot_rows (ow_table w)) \<and> fst (claim t m (ow_table w)) = []"
proof -
  let ?w = "outbox_step Q n (Enqueue env0 (Unsent e) Accepted data options) (outbox_start 1 q)"
  have "dispatchTransactionJob Q env0 (Unsent e) None data options q = (Inl e, q)"
    using assms(2,6) paused_named [of "qe_paused env0" "td_provider data"]
    by (auto simp: dispatchTransactionJob_def hold_def addProviderRateLimitedJob_def send_job_def named_def Let_def split: option.splits)
  then have w0: "refused_times data options q 0 (Some 0) ?w \<and> ow_now ?w = 0"
    using assms(1) by (simp add: addTransactionJob_def enqueueWithOutboxFallback_def outbox_start_def outbox_insert_def refused_times_def)
  note t = refused_tick [OF _ _ _ assms(3-5)]
  obtain w1 where w1: "w1 = outbox_run Q n (tick env 0) ?w" "refused_times data options q 1 (Some 5000) w1" "ow_now w1 = 0"
    using t [of q 0 0 ?w 0] w0 by auto
  obtain w2 where w2: "w2 = outbox_run Q n (tick env 5000) w1" "refused_times data options q 2 (Some 15000) w2" "ow_now w2 = 5000"
    using t [of q 1 5000 w1 5000] w1 by (auto simp: numeral_2_eq_2)
  obtain w3 where w3: "w3 = outbox_run Q n (tick env 10000) w2" "refused_times data options q 3 (Some 35000) w3" "ow_now w3 = 15000"
    using t [of q 2 15000 w2 10000] w2 by (auto simp: numeral_3_eq_3)
  obtain w4 where w4: "w4 = outbox_run Q n (tick env 20000) w3" "refused_times data options q 4 (Some 75000) w4" "ow_now w4 = 35000"
    using t [of q 3 35000 w3 20000] w3 by (auto simp: eval_nat_numeral)
  obtain w5 where w5: "w5 = outbox_run Q n (tick env 40000) w4" "refused_times data options q 5 None w5" "ow_now w5 = 75000"
    using t [of q 4 75000 w4 40000] w4 by (auto simp: eval_nat_numeral)
  have "w = w5" unfolding assms(7) w5(1) w4(1) w3(1) w2(1) w1(1) by (simp add: outbox_run_def del: outbox_step.simps)
  then show ?thesis using w5(2,3)
    by (auto simp: refused_times_def dead_def claim_def Let_def claimable_def outbox_update_def sql_update_def)
qed

theorem backpressure_gives_up_witness:
  "let w = outbox_run list_jobs 50 (Enqueue calm_env (Unsent closed_connection) Accepted demo_data None # tick under_pressure 0 @
       tick under_pressure 5000 @ tick under_pressure 10000 @ tick under_pressure 20000 @
       tick under_pressure 40000) (outbox_start 1 [])
   in ow_accepted w = [''t1''] \<and> ow_queue w = [] \<and> ow_now w = 75000 \<and> list_all dead (ot_rows (ow_table w)) \<and>
     fst (claim 1000000 50 (ow_table w)) = []"
  using backpressure_gives_up [of closed_connection calm_env 50 under_pressure demo_data None _ list_jobs "[]" 1000000 50]
    closed_connection_outage demo_named
  by (simp add: calm_env_def under_pressure_def initial_backpressure_def noncritical_def demo_data_def demo_levels_def
      calculateTransactionPriority_def amount_priority_def isCriticalPriority_def Let_def)

end
