(* ===== verification/Queue_Control_Safety.thy ===== *)
theory Queue_Control_Safety
  imports Queue_Control
begin

text \<open>
  Why no held job is forgotten. The locale \<open>control_services\<close> states what BullMQ and Redis document; in
  it, whenever a provider is not paused and its hold queue is not empty, some call is still on its way
  to look at the queue. A move that keeps failing, however, keeps its call busy for ever.
\<close>

locale control_services =
  fixes Q :: "'q queue_ops" and S :: "'s pause_store"
    and jobs :: "'q \<Rightarrow> (job \<times> job_state) list"
    and paused :: "'s \<Rightarrow> string set"
    and lock :: "'s \<Rightarrow> string \<Rightarrow> (string \<times> millis) option"
  assumes add_law: "jobs (jq_add Q j q) = (if jb_id j \<in> (\<lambda>x. jb_id (fst x)) ` set (jobs q) then jobs q
      else jobs q @ [(j, if jb_priority j = None then Waiting else Prioritized)])"
    and state_law: "jq_state Q i q = map_option snd (find (\<lambda>x. jb_id (fst x) = i) (jobs q))"
    and remove_throws: "jq_remove Q i q = None \<longleftrightarrow> jq_state Q i q = Some ActiveJob"
    and remove_law: "jq_remove Q i q = Some q' \<Longrightarrow> jobs q' = filter (\<lambda>x. jb_id (fst x) \<noteq> i) (jobs q)"
    and waiting_law: "jq_waiting Q q = map fst (filter (\<lambda>x. snd x = Waiting) (jobs q))"
    and has_law: "ps_has S k s \<longleftrightarrow> k \<in> paused s"
    and flag_law: "paused (ps_add S k s) = insert k (paused s)" "lock (ps_add S k s) = lock s"
      "paused (ps_remove S k s) = paused s - {k}" "lock (ps_remove S k s) = lock s"
    and acquire_fails: "ps_acquire S now k t ttl s = None \<longleftrightarrow> live now (lock s k) \<noteq> None"
    and acquire_law: "ps_acquire S now k t ttl s = Some s' \<Longrightarrow> paused s' = paused s \<and> lock s' = (lock s)(k \<mapsto> (t, now + ttl))"
    and release_law: "paused (ps_release S k t s) = paused s"
      "lock (ps_release S k t s) = (if map_option fst (lock s k) = Some t then (lock s)(k := None) else lock s)"

section \<open>Who looks after the hold queue\<close>

fun token_of :: "call \<Rightarrow> string option" where
  "token_of (Draining t) = Some t"
| "token_of (Paging t) = Some t"
| "token_of (Moving t js) = Some t"
| "token_of (Removing t j js) = Some t"
| "token_of (Unlocking t) = Some t"
| "token_of _ = None"

fun on_duty :: "call \<Rightarrow> bool" where
  "on_duty Parked \<longleftrightarrow> True"
| "on_duty Entering \<longleftrightarrow> True"
| "on_duty Locking \<longleftrightarrow> True"
| "on_duty Rechecking \<longleftrightarrow> True"
| "on_duty Counting \<longleftrightarrow> True"
| "on_duty c \<longleftrightarrow> token_of c \<noteq> None"

lemma token_on_duty: "token_of c = Some t \<Longrightarrow> on_duty c"
  by (cases c) auto

context control_services
begin

definition control_ok :: "string \<Rightarrow> ('q, 's) control_world \<Rightarrow> bool" where
  "control_ok key w \<longleftrightarrow>
     (\<forall>x\<in>set (jobs (cw_hold w)). snd x = Waiting) \<and>
     (\<forall>t e. lock (cw_store w) (releaseLockKey key) = Some (t, e) \<longrightarrow> (\<exists>c\<in>set (cw_calls w). token_of c = Some t)) \<and>
     (key \<notin> paused (cw_store w) \<and> jobs (cw_hold w) \<noteq> [] \<longrightarrow> (\<exists>c\<in>set (cw_calls w). on_duty c))"

lemma hold_waiting: "control_ok key w \<Longrightarrow> jq_waiting Q (cw_hold w) = map fst (jobs (cw_hold w))"
  by (simp add: control_ok_def waiting_law)

lemma call_step_hold:
  assumes "control_ok key w" "call_step Q S key out c w = (c', w')"
  shows "\<forall>x\<in>set (jobs (cw_hold w')). snd x = Waiting" "jobs (cw_hold w') \<noteq> [] \<Longrightarrow> jobs (cw_hold w) \<noteq> [] \<or> c' = Parked"
    "c = Counting \<Longrightarrow> c' = Returned \<Longrightarrow> jobs (cw_hold w') = []" "cw_calls w' = cw_calls w"
proof -
  have "(\<forall>x\<in>set (jobs (cw_hold w')). snd x = Waiting) \<and> (jobs (cw_hold w') \<noteq> [] \<longrightarrow> jobs (cw_hold w) \<noteq> [] \<or> c' = Parked) \<and>
      (c = Counting \<longrightarrow> c' = Returned \<longrightarrow> jobs (cw_hold w') = []) \<and> cw_calls w' = cw_calls w"
    using assms hold_waiting [OF assms(1)]
    by (cases c) (auto simp: call_step_def control_ok_def add_law held_job_def dest!: remove_law
      split: if_splits option.splits list.splits move_outcome.splits)
  then show "\<forall>x\<in>set (jobs (cw_hold w')). snd x = Waiting" "jobs (cw_hold w') \<noteq> [] \<Longrightarrow> jobs (cw_hold w) \<noteq> [] \<or> c' = Parked"
    "c = Counting \<Longrightarrow> c' = Returned \<Longrightarrow> jobs (cw_hold w') = []" "cw_calls w' = cw_calls w" by blast+
qed

lemma call_step_lock:
  assumes "call_step Q S key out c w = (c', w')" "lock (cw_store w') (releaseLockKey key) = Some (t, e)"
  shows "token_of c' = Some t \<or> (lock (cw_store w) (releaseLockKey key) = Some (t, e) \<and> token_of c \<noteq> Some t)"
  using assms by (cases c) (auto simp: call_step_def flag_law release_law dest!: acquire_law
      split: if_splits option.splits list.splits move_outcome.splits)

lemma call_step_duty:
  assumes "call_step Q S key out c w = (c', w')" "key \<notin> paused (cw_store w')" "\<not> on_duty c'"
  shows "\<not> on_duty c \<and> key \<notin> paused (cw_store w) \<or> c = Counting \<or>
    (c = Locking \<and> live (cw_now w) (lock (cw_store w) (releaseLockKey key)) \<noteq> None \<and> cw_store w' = cw_store w)"
  using assms by (cases c) (auto simp: call_step_def flag_law release_law has_law acquire_fails dest!: acquire_law
      split: if_splits option.splits list.splits move_outcome.splits)

lemma others_remain:
  assumes "c0 \<in> set xs" "i < length xs" "c0 \<noteq> xs ! i"
  shows "c0 \<in> set (xs[i := c])"
  using assms by (auto simp: in_set_conv_nth nth_list_update)

lemma control_ok_run_call:
  assumes ok: "control_ok key w" and i: "i < length (cw_calls w)"
  shows "control_ok key (control_step Q S key (Run i out) w)"
proof -
  let ?c = "cw_calls w ! i"
  obtain c' v where step: "call_step Q S key out ?c w = (c', v)" by fastforce
  define w' where "w' = v\<lparr>cw_calls := (cw_calls w)[i := c']\<rparr>"
  have w': "control_step Q S key (Run i out) w = w'" using i step by (simp add: w'_def)
  have own: "c' \<in> set (cw_calls w')" using i by (simp add: w'_def set_update_memI)
  have other: "c \<in> set (cw_calls w')" if "c \<in> set (cw_calls w)" "c \<noteq> ?c" for c
    using others_remain [OF that(1) i that(2)] by (simp add: w'_def)
  note hold = call_step_hold [OF ok step]
  have locked: "\<exists>c\<in>set (cw_calls w'). token_of c = Some t"
    if "lock (cw_store w') (releaseLockKey key) = Some (t, e)" for t e
  proof -
    consider "token_of c' = Some t" | "lock (cw_store w) (releaseLockKey key) = Some (t, e)" "token_of ?c \<noteq> Some t"
      using call_step_lock [OF step, of t e] \<open>lock (cw_store w') (releaseLockKey key) = Some (t, e)\<close>
      unfolding w'_def by auto
    then show ?thesis
    proof cases
      case 2
      then obtain c where "c \<in> set (cw_calls w)" "token_of c = Some t" using ok unfolding control_ok_def by blast
      then show ?thesis using other [of c] 2 by metis
    qed (use own in blast)
  qed
  have duty: "\<exists>c\<in>set (cw_calls w'). on_duty c" if free: "key \<notin> paused (cw_store w')" and ne: "jobs (cw_hold w') \<noteq> []"
  proof (cases "on_duty c'")
    case False
    then have ne': "jobs (cw_hold w) \<noteq> []" using hold(2) ne by (auto simp: w'_def)
    have free': "key \<notin> paused (cw_store v)" using free by (simp add: w'_def)
    consider "\<not> on_duty ?c" "key \<notin> paused (cw_store w)" | "?c = Counting"
      | "?c = Locking" "live (cw_now w) (lock (cw_store w) (releaseLockKey key)) \<noteq> None"
      using call_step_duty [OF step free' False] by blast
    then show ?thesis
    proof cases
      case 1
      then obtain c where "c \<in> set (cw_calls w)" "on_duty c" using ok ne' unfolding control_ok_def by blast
      then show ?thesis using other [of c] 1 by metis
    next
      case 2
      then have "c' = Returned" using step False by (auto simp: call_step_def split: if_splits)
      then show ?thesis using hold(3) [OF 2] ne by (simp add: w'_def)
    next
      case 3
      then obtain t e where "lock (cw_store w) (releaseLockKey key) = Some (t, e)" by (auto simp: live_def split: option.splits)
      then obtain c where c: "c \<in> set (cw_calls w)" "token_of c = Some t" using ok unfolding control_ok_def by blast
      then have "c \<noteq> ?c" using 3 by auto
      then show ?thesis using other [OF c(1)] token_on_duty [OF c(2)] by blast
    qed
  qed (use own in blast)
  show ?thesis unfolding w' control_ok_def using hold(1) locked duty by (auto simp: w'_def)
qed

lemma control_ok_step: "control_ok key w \<Longrightarrow> control_ok key (control_step Q S key a w)"
proof (cases a)
  case (Run i out)
  then show "control_ok key w \<Longrightarrow> ?thesis"
    using control_ok_run_call by (cases "i < length (cw_calls w)") auto
qed (auto simp: control_ok_def)

lemma control_ok_run: "control_ok key w \<Longrightarrow> control_ok key (control_run Q S key acts w)"
  unfolding control_run_def by (induction acts arbitrary: w) (simp_all add: control_ok_step)

lemma nothing_stranded:
  assumes "jobs (cw_hold w) = []" "lock (cw_store w) (releaseLockKey key) = None" "w' = control_run Q S key acts w"
    "\<forall>c\<in>set (cw_calls w'). c = Returned" "key \<notin> paused (cw_store w')"
  shows "jobs (cw_hold w') = []"
proof -
  have "control_ok key w" using assms by (simp add: control_ok_def)
  then have "control_ok key w'" unfolding assms(3) by (rule control_ok_run)
  then show ?thesis using assms(4,5) by (fastforce simp: control_ok_def)
qed

section \<open>Moving a job\<close>

lemma find_added: "find (\<lambda>x. jb_id (fst x) = i) xs = None \<Longrightarrow> find (\<lambda>x. jb_id (fst x) = i) (xs @ ys) = find (\<lambda>x. jb_id (fst x) = i) ys"
  by (induction xs) auto

lemma added_is_queued:
  assumes "jq_state Q (jb_id j) q = None"
  shows "(j, if jb_priority j = None then Waiting else Prioritized) \<in> set (jobs (jq_add Q j q))"
  using assms by (auto simp: add_law state_law find_None_iff image_iff)

lemma removed_is_gone: "jq_remove Q i q = Some q' \<Longrightarrow> jq_state Q i q' = None"
  by (drule remove_law) (auto simp: state_law find_None_iff)

lemma moved_is_queued:
  assumes "jq_state Q (resumed_id now (jb_id j)) main = None"
    "\<And>x. x \<in> set (jobs main) \<Longrightarrow> jb_id (fst x) = jb_id j \<Longrightarrow> jb_tx (fst x) = jb_tx j"
  shows "\<exists>x\<in>set (jobs (moveToMain Q now j main)). jb_tx (fst x) = jb_tx j \<and> snd x \<in> PENDING_STATES"
proof -
  have fresh: "\<exists>x\<in>set (jobs (jq_add Q (main_job i j) q)). jb_tx (fst x) = jb_tx j \<and> snd x \<in> PENDING_STATES"
    if "jq_state Q i q = None" for i q
    using added_is_queued [of "main_job i j" q] that
    by (intro bexI [of _ "(main_job i j, if jb_priority (main_job i j) = None then Waiting else Prioritized)"])
      (auto simp: main_job_def PENDING_STATES_def)
  show ?thesis
  proof (cases "jq_state Q (jb_id j) main")
    case None
    then show ?thesis using fresh by (simp add: moveToMain_def)
  next
    case (Some st)
    then obtain x where x: "x \<in> set (jobs main)" "jb_id (fst x) = jb_id j" "snd x = st"
      by (auto simp: state_law dest!: find_SomeD)
    show ?thesis
    proof (cases "st \<in> PENDING_STATES")
      case True
      then show ?thesis using Some x assms(2) [OF x(1,2)] by (auto simp: moveToMain_def intro!: bexI [of _ x])
    next
      case False
      then show ?thesis using Some fresh [OF assms(1)] fresh [OF removed_is_gone]
        by (auto simp: moveToMain_def split: option.splits)
    qed
  qed
qed

section \<open>A move that keeps failing\<close>

definition busy :: "string \<Rightarrow> call \<Rightarrow> ('q, 's) control_world \<Rightarrow> bool" where
  "busy key c w \<longleftrightarrow> key \<notin> paused (cw_store w) \<and> jq_waiting Q (cw_hold w) \<noteq> [] \<and>
     (case token_of c of
        Some t \<Rightarrow> (\<exists>e. lock (cw_store w) (releaseLockKey key) = Some (t, e)) \<and>
          (case c of Removing _ _ _ \<Rightarrow> False | Moving _ js \<Rightarrow> js \<noteq> [] | _ \<Rightarrow> True)
      | None \<Rightarrow> c \<in> {Entering, Locking, Rechecking, Counting} \<and> lock (cw_store w) (releaseLockKey key) = None)"

lemma busy_step:
  assumes "busy key c w" "call_step Q S key MoveThrows c w = (c', w')"
  shows "busy key c' w' \<and> cw_calls w' = cw_calls w"
proof (cases "c = Locking")
  case True
  then obtain s' where "ps_acquire S (cw_now w) (releaseLockKey key) (token_text (cw_tokens w)) RELEASE_LOCK_TTL_MS (cw_store w) = Some s'"
    using assms(1) acquire_fails [of "cw_now w" "releaseLockKey key" "token_text (cw_tokens w)" RELEASE_LOCK_TTL_MS "cw_store w"]
    by (auto simp: busy_def live_def)
  then show ?thesis using True assms acquire_law by (auto simp: busy_def call_step_def)
next
  case False
  then show ?thesis using assms
    by (cases c) (simp_all add: busy_def call_step_def has_law release_law RELEASE_PAGE_SIZE_def split: list.splits if_splits, auto simp: release_law)
qed

lemma busy_run:
  assumes "i < length (cw_calls w)" "busy key (cw_calls w ! i) w"
  shows "busy key (cw_calls (control_run Q S key (replicate n (Run i MoveThrows)) w) ! i)
      (control_run Q S key (replicate n (Run i MoveThrows)) w)"
  using assms
proof (induction n arbitrary: w)
  case (Suc n)
  obtain c' v where step: "call_step Q S key MoveThrows (cw_calls w ! i) w = (c', v)" by fastforce
  have b: "busy key c' v" "cw_calls v = cw_calls w" using busy_step [OF Suc.prems(2) step] by simp_all
  let ?w = "v\<lparr>cw_calls := (cw_calls w)[i := c']\<rparr>"
  have "busy key (cw_calls ?w ! i) ?w" using b Suc.prems(1) by (simp add: busy_def cong: call.case_cong option.case_cong)
  then show ?case using Suc.IH [of ?w] Suc.prems(1) step by (simp add: control_run_def)
qed (simp add: control_run_def)

end

section \<open>Queues and flags in memory\<close>

definition list_queue :: "(job \<times> job_state) list queue_ops" where
  "list_queue = \<lparr>
     jq_add = (\<lambda>j q. if jb_id j \<in> (\<lambda>x. jb_id (fst x)) ` set q then q
        else q @ [(j, if jb_priority j = None then Waiting else Prioritized)]),
     jq_state = (\<lambda>i q. map_option snd (find (\<lambda>x. jb_id (fst x) = i) q)),
     jq_remove = (\<lambda>i q. if map_option snd (find (\<lambda>x. jb_id (fst x) = i) q) = Some ActiveJob then None
        else Some (filter (\<lambda>x. jb_id (fst x) \<noteq> i) q)),
     jq_waiting = (\<lambda>q. map fst (filter (\<lambda>x. snd x = Waiting) q))\<rparr>"

type_synonym flag_memory = "string list \<times> (string \<times> string \<times> millis) list"

definition memory_flags :: "flag_memory pause_store" where
  "memory_flags = \<lparr>
     ps_has = (\<lambda>k s. k \<in> set (fst s)),
     ps_add = (\<lambda>k s. (k # fst s, snd s)),
     ps_remove = (\<lambda>k s. (filter (\<lambda>j. j \<noteq> k) (fst s), snd s)),
     ps_acquire = (\<lambda>now k t ttl s. if live now (map_of (snd s) k) \<noteq> None then None else Some (fst s, (k, t, now + ttl) # snd s)),
     ps_release = (\<lambda>k t s. if map_option fst (map_of (snd s) k) = Some t then (fst s, filter (\<lambda>x. fst x \<noteq> k) (snd s)) else s)\<rparr>"

lemma map_of_drop: "map_of (filter (\<lambda>x. fst x \<noteq> k) xs) = (map_of xs)(k := None)"
  by (induction xs) (auto simp: fun_eq_iff)

interpretation memory_control: control_services list_queue memory_flags "\<lambda>q. q" "\<lambda>s. set (fst s)" "\<lambda>s. map_of (snd s)"
  by unfold_locales (auto simp: list_queue_def memory_flags_def map_of_drop split: if_splits)

section \<open>Properties\<close>

text \<open>
  C33. No held job is forgotten: however jobs are parked, providers paused and resumed and releases
  interleaved, when every call has returned and the provider is not paused its hold queue is empty.
\<close>

theorem no_held_job_stranded:
  assumes "control_services Q S jobs paused lock" "jobs (cw_hold w) = []" "lock (cw_store w) (releaseLockKey key) = None"
    "w' = control_run Q S key acts w" "\<forall>c\<in>set (cw_calls w'). c = Returned" "key \<notin> paused (cw_store w')"
  shows "jobs (cw_hold w') = []"
  using control_services.nothing_stranded [OF assms] .

definition demo_control :: "((job \<times> job_state) list, flag_memory) control_world" where
  "demo_control = \<lparr>cw_now = 0, cw_store = ([], []), cw_hold = [], cw_main = [], cw_calls = [], cw_tokens = 0\<rparr>"

definition demo_job :: job where
  "demo_job = \<lparr>jb_id = ''t1'', jb_tx = ''t1'', jb_priority = Some 4, jb_held = None\<rparr>"

definition demo_control_acts :: "(job \<times> job_state) list control_act list" where
  "demo_control_acts = [Begin Pausing, Run 0 MoveWorks, Begin (Holding None demo_job), Begin Resuming, Run 1 MoveWorks,
     Run 2 MoveWorks, Run 1 MoveWorks] @ replicate 9 (Run 2 MoveWorks) @ replicate 4 (Run 1 MoveWorks) @ replicate 9 (Run 2 MoveWorks)"

lemma demo_control_end:
  "map (\<lambda>c. c = Returned) (cw_calls (control_run list_queue memory_flags ''mtn'' demo_control_acts demo_control)) = [True, True, True]"
  "fst (cw_store (control_run list_queue memory_flags ''mtn'' demo_control_acts demo_control)) = []"
  by code_simp+

theorem no_held_job_stranded_witness:
  "cw_hold (control_run list_queue memory_flags ''mtn'' demo_control_acts demo_control) = []"
  by (rule no_held_job_stranded [OF memory_control.control_services_axioms _ _ refl])
    (use demo_control_end in \<open>auto simp: demo_control_def\<close>)

text \<open>
  Moving a held job to the main queue leaves a job of its transaction there that workers will
  take, whatever the main queue held under its id: nothing, a job still queued, the finished or still
  active placeholder of a diverted job.
\<close>

theorem moved_job_is_queued:
  assumes "control_services Q S jobs paused lock" "jq_state Q (resumed_id now (jb_id j)) main = None"
    "\<And>x. x \<in> set (jobs main) \<Longrightarrow> jb_id (fst x) = jb_id j \<Longrightarrow> jb_tx (fst x) = jb_tx j"
  shows "\<exists>x\<in>set (jobs (moveToMain Q now j main)). jb_tx (fst x) = jb_tx j \<and> snd x \<in> PENDING_STATES"
  using control_services.moved_is_queued [OF assms(1)] assms(2,3) by blast

theorem moved_job_is_queued_witness:
  "\<exists>x\<in>set (moveToMain list_queue 5 demo_job [(demo_job, ActiveJob)]). jb_tx (fst x) = jb_tx demo_job \<and> snd x \<in> PENDING_STATES"
proof (rule moved_job_is_queued [OF memory_control.control_services_axioms])
  show "jq_state list_queue (resumed_id 5 (jb_id demo_job)) [(demo_job, ActiveJob)] = None" by code_simp
qed simp

text \<open>
  A release whose moves keep failing never returns: alone in a world where the provider is not
  paused, a job is held and the lock is free, \<open>releaseHeldJobs\<close> goes round its loop for ever.
\<close>

theorem failing_release_never_returns:
  assumes "control_services Q S jobs paused lock" "i < length (cw_calls w)" "cw_calls w ! i = Entering"
    "key \<notin> paused (cw_store w)" "jq_waiting Q (cw_hold w) \<noteq> []" "lock (cw_store w) (releaseLockKey key) = None"
  shows "cw_calls (control_run Q S key (replicate n (Run i MoveThrows)) w) ! i \<noteq> Returned"
proof -
  have "control_services.busy Q paused lock key (cw_calls w ! i) w"
    using assms by (simp add: control_services.busy_def [OF assms(1)])
  from control_services.busy_run [OF assms(1,2) this, of n] show ?thesis
    by (auto simp: control_services.busy_def [OF assms(1)])
qed

theorem failing_release_never_returns_witness:
  "\<forall>n. cw_calls (control_run list_queue memory_flags ''mtn'' (replicate n (Run 0 MoveThrows))
     \<lparr>cw_now = 0, cw_store = ([], []), cw_hold = [(demo_job, Waiting)], cw_main = [], cw_calls = [Entering], cw_tokens = 0\<rparr>) ! 0
   \<noteq> Returned"
  by (rule allI, rule failing_release_never_returns [OF memory_control.control_services_axioms]) (simp_all add: list_queue_def)

end
