(* ===== verification/Orange_Qr.thy ===== *)
theory Orange_Qr
  imports Transaction_Status "HOL-Library.Word"
begin

text \<open>
  Orange Money QR codes (\<^verbatim>\<open>src/providers/orange/qrCode.ts\<close>): the EMVCo payload with its tag-length-value
  fields and checksum, and the webhook that confirms payments, which writes through
  \<^verbatim>\<open>Transaction_Status\<close>. The image and the HTML around it are left out. \<^verbatim>\<open>Number(amount)\<close> and the text
  of numbers that \<^verbatim>\<open>toFixed\<close> prints like \<^verbatim>\<open>String\<close> are arguments.
\<close>

unbundle bit_operations_syntax

section \<open>Fields and checksum\<close>

datatype qr_error =
    TlvTooLong string
  | MissingMerchant
  | UnsupportedCurrency string

definition padStart :: "nat \<Rightarrow> char \<Rightarrow> string \<Rightarrow> string" where
  "padStart n c s = replicate (n - length s) c @ s"

definition encodeTlv :: "string \<Rightarrow> string \<Rightarrow> qr_error + string" where
  "encodeTlv tag val = (if 99 < length val then Inl (TlvTooLong tag)
     else Inr (tag @ padStart 2 CHR ''0'' (nat_str (length val)) @ val))"

definition crc_bit :: "16 word \<Rightarrow> 16 word" where
  "crc_bit crc = (if crc AND 0x8000 \<noteq> 0 then push_bit 1 crc XOR 0x1021 else push_bit 1 crc)"

definition crc_char :: "char \<Rightarrow> 16 word \<Rightarrow> 16 word" where
  "crc_char c crc = (crc_bit ^^ 8) (crc XOR push_bit 8 (of_char c))"

definition crc_of :: "string \<Rightarrow> 16 word" where
  "crc_of s = fold crc_char s 0xffff"

definition hex_char :: "nat \<Rightarrow> char" where
  "hex_char n = (if n < 10 then char_of (48 + n) else char_of (55 + n))"

fun nat_hex :: "nat \<Rightarrow> string" where
  \<comment> \<open>\<^verbatim>\<open>n.toString(16).toUpperCase()\<close>\<close>
  "nat_hex n = (if n < 16 then [hex_char n] else nat_hex (n div 16) @ [hex_char (n mod 16)])"

declare nat_hex.simps [simp del]

definition crc16 :: "string \<Rightarrow> string" where
  "crc16 payload = padStart 4 CHR ''0'' (nat_hex (unat (crc_of payload)))"

definition appendCrc :: "string \<Rightarrow> string" where
  "appendCrc payloadWithoutCrc = (let withTag = payloadWithoutCrc @ ''6304'' in withTag @ crc16 withTag)"

section \<open>The payload\<close>

definition ORANGE_CURRENCY_CODES :: "(string \<times> string) list" where
  "ORANGE_CURRENCY_CODES =
     [(''KES'', ''404''), (''NGN'', ''566''), (''GHS'', ''936''), (''UGX'', ''800''), (''RWF'', ''646''), (''TZS'', ''834''),
      (''ZMW'', ''967''), (''MZN'', ''943''), (''XAF'', ''950''), (''XOF'', ''952''), (''MAD'', ''504''), (''TND'', ''788''),
      (''EGP'', ''818''), (''ZAR'', ''710''), (''USD'', ''840''), (''EUR'', ''978'')]"

definition CURRENCY_COUNTRY :: "(string \<times> string) list" where
  "CURRENCY_COUNTRY =
     [(''KES'', ''KE''), (''NGN'', ''NG''), (''GHS'', ''GH''), (''UGX'', ''UG''), (''RWF'', ''RW''), (''TZS'', ''TZ''),
      (''ZMW'', ''ZM''), (''MZN'', ''MZ''), (''XAF'', ''CM''), (''XOF'', ''SN''), (''MAD'', ''MA''), (''TND'', ''TN''),
      (''EGP'', ''EG''), (''ZAR'', ''ZA''), (''USD'', ''US''), (''EUR'', ''FR'')]"

definition ORANGE_MERCHANT_ACCOUNT_GUID :: string where
  "ORANGE_MERCHANT_ACCOUNT_GUID = ''orange.om''"

record OrangeQrPayloadOptions =
  qr_merchantId :: string
  qr_amount :: jsnum \<comment> \<open>\<^verbatim>\<open>Number(options.amount)\<close>\<close>
  qr_currency :: "string option"
  qr_countryCode :: "string option"
  qr_merchantName :: "string option"
  qr_merchantCity :: "string option"
  qr_categoryCode :: "string option"
  qr_reference :: "string option"
  qr_storeLabel :: "string option"
  qr_terminalLabel :: "string option"
  qr_static :: bool \<comment> \<open>\<^verbatim>\<open>pointOfInitiation === "static"\<close>\<close>

definition toFixed2 :: "(jsnum \<Rightarrow> string) \<Rightarrow> jsnum \<Rightarrow> string" where
  \<comment> \<open>\<^verbatim>\<open>x.toFixed(2)\<close> of a positive number\<close>
  "toFixed2 js_string x = (case x of
     Fin a \<Rightarrow> if 10 ^ 21 \<le> a then js_string x
       else let u = nat \<lfloor>a * 100 + 1/2\<rfloor> in nat_str (u div 100) @ ''.'' @ padStart 2 CHR ''0'' (nat_str (u mod 100))
   | _ \<Rightarrow> js_string x)"

definition optional_field :: "string \<Rightarrow> string option \<Rightarrow> (string \<times> string) list" where
  \<comment> \<open>\<^verbatim>\<open>if (value) ... encodeTlv(tag, value)\<close>\<close>
  "optional_field tag v = (case v of Some s \<Rightarrow> if s = [] then [] else [(tag, s)] | None \<Rightarrow> [])"

fun encode_fields :: "(string \<times> string) list \<Rightarrow> qr_error + string" where
  \<comment> \<open>encode the fields in order and join them; the first that is too long throws\<close>
  "encode_fields [] = Inr []"
| "encode_fields ((tag, v) # fs) = (case encodeTlv tag v of
     Inl e \<Rightarrow> Inl e
   | Inr s \<Rightarrow> (case encode_fields fs of Inl e \<Rightarrow> Inl e | Inr r \<Rightarrow> Inr (s @ r)))"

definition currency_of :: "OrangeQrPayloadOptions \<Rightarrow> string" where
  "currency_of opts = map to_upper (case qr_currency opts of Some c \<Rightarrow> c | None \<Rightarrow> ''XOF'')"

definition isStatic :: "OrangeQrPayloadOptions \<Rightarrow> bool" where
  "isStatic opts \<longleftrightarrow> qr_static opts \<or> \<not> js_lt (Fin 0) (qr_amount opts)"

definition account_fields :: "OrangeQrPayloadOptions \<Rightarrow> (string \<times> string) list" where
  "account_fields opts = [(''00'', ORANGE_MERCHANT_ACCOUNT_GUID), (''01'', qr_merchantId opts)] @
     optional_field ''02'' (qr_reference opts) @ optional_field ''03'' (qr_storeLabel opts) @
     optional_field ''04'' (qr_terminalLabel opts)"

definition header_fields :: "OrangeQrPayloadOptions \<Rightarrow> (string \<times> string) list" where
  "header_fields opts = [(''00'', ''01''), (''01'', if isStatic opts then ''11'' else ''12'')]"

definition detail_fields :: "(jsnum \<Rightarrow> string) \<Rightarrow> string \<Rightarrow> OrangeQrPayloadOptions \<Rightarrow> (string \<times> string) list" where
  "detail_fields js_string numericCurrency opts =
     [(''52'', case qr_categoryCode opts of Some c \<Rightarrow> c | None \<Rightarrow> ''0000''), (''53'', numericCurrency)] @
     (if isStatic opts then [] else [(''54'', toFixed2 js_string (qr_amount opts))]) @
     [(''58'', case qr_countryCode opts of Some c \<Rightarrow> c
         | None \<Rightarrow> (case map_of CURRENCY_COUNTRY (currency_of opts) of Some c \<Rightarrow> c | None \<Rightarrow> ''SN'')),
      (''59'', take 25 (case qr_merchantName opts of Some n \<Rightarrow> n | None \<Rightarrow> ''Orange Money'')),
      (''60'', take 15 (case qr_merchantCity opts of Some n \<Rightarrow> n | None \<Rightarrow> ''Nairobi''))]"

definition reference_fields :: "OrangeQrPayloadOptions \<Rightarrow> (string \<times> string) list" where
  "reference_fields opts = optional_field ''05'' (map_option (take 25) (qr_reference opts))"

definition buildOrangeMoneyQrPayload :: "(jsnum \<Rightarrow> string) \<Rightarrow> OrangeQrPayloadOptions \<Rightarrow> qr_error + string" where
  "buildOrangeMoneyQrPayload js_string opts =
     (if qr_merchantId opts = [] then Inl MissingMerchant
      else case map_of ORANGE_CURRENCY_CODES (currency_of opts) of
        None \<Rightarrow> Inl (UnsupportedCurrency (currency_of opts))
      | Some numericCurrency \<Rightarrow>
        (case encode_fields (header_fields opts) of Inl e \<Rightarrow> Inl e | Inr header \<Rightarrow>
        (case encode_fields (account_fields opts) of Inl e \<Rightarrow> Inl e | Inr account \<Rightarrow>
        (case encodeTlv ''26'' account of Inl e \<Rightarrow> Inl e | Inr merchant \<Rightarrow>
        (case encode_fields (detail_fields js_string numericCurrency opts) of Inl e \<Rightarrow> Inl e | Inr details \<Rightarrow>
        (case encode_fields (reference_fields opts) of Inl e \<Rightarrow> Inl e | Inr additional \<Rightarrow>
        (case encode_fields (optional_field ''62'' (Some additional)) of Inl e \<Rightarrow> Inl e | Inr data \<Rightarrow>
           Inr (appendCrc (header @ merchant @ details @ data)))))))))"

section \<open>Confirmations\<close>

datatype confirmation_status = PaySuccess | PayFailed | PayPending | PayCompleted | PayOther string

record OrangePaymentConfirmationPayload =
  pc_reference :: "string option"
  pc_transactionId :: "string option"
  pc_merchantId :: string
  pc_amount :: jsnum \<comment> \<open>\<^verbatim>\<open>Number(payload.amount)\<close>\<close>
  pc_status :: confirmation_status

datatype confirmation_message =
    MissingMerchantId | InvalidAmount | MissingReference | UnknownTransaction
  | Confirmed
  | Reported confirmation_status

record OrangePaymentConfirmationResult =
  cr_accepted :: bool
  cr_transaction :: "string option"
  cr_message :: confirmation_message

fun normalizedStatus :: "confirmation_status \<Rightarrow> confirmation_status" where
  "normalizedStatus PayCompleted = PaySuccess"
| "normalizedStatus s = s"

fun confirmed_status :: "confirmation_status \<Rightarrow> TransactionStatus option" where
  "confirmed_status PaySuccess = Some Completed"
| "confirmed_status PayFailed = Some Failed"
| "confirmed_status _ = None"

definition handleConfirmation ::
  "millis \<Rightarrow> OrangePaymentConfirmationPayload \<Rightarrow> transaction list \<Rightarrow>
   OrangePaymentConfirmationResult \<times> transaction list \<times> tx_effect list" where
  "handleConfirmation now p txs =
     (let reject = (\<lambda>i m. (\<lparr>cr_accepted = False, cr_transaction = i, cr_message = m\<rparr>, txs, []))
      in if pc_merchantId p = [] then reject None MissingMerchantId
         else if \<not> js_isFinite (pc_amount p) \<or> js_le (pc_amount p) (Fin 0) then reject None InvalidAmount
         else let transactionId = (case pc_transactionId p of Some i \<Rightarrow> Some i | None \<Rightarrow> pc_reference p)
              in case transactionId of
                   None \<Rightarrow> reject None MissingReference
                 | Some i \<Rightarrow>
                     if i = [] then reject None MissingReference
                     else case find (\<lambda>t. tx_id t = i) txs of
                       None \<Rightarrow> reject (Some i) UnknownTransaction
                     | Some t \<Rightarrow>
                         let st = normalizedStatus (pc_status p);
                             (txs', es) = (case confirmed_status st of
                                Some s \<Rightarrow> (case updateStatus now i s (tx_user t) None txs of (_, txs', es) \<Rightarrow> (txs', es))
                              | None \<Rightarrow> (txs, []))
                         in (\<lparr>cr_accepted = True, cr_transaction = Some i,
                              cr_message = (if st = PaySuccess then Confirmed else Reported st)\<rparr>, txs', es))"

definition webhook_status :: "OrangePaymentConfirmationResult \<Rightarrow> int" where
  "webhook_status r = (if cr_accepted r then 200 else 400)"

end
