(* ===== verification/Orange_Qr_Codes.thy ===== *)
theory Orange_Qr_Codes
  imports Orange_Qr
begin

text \<open>
  What a payload and a confirmation are worth: a reader of EMVCo fields recovers everything that went
  into a payload, the checksum notices every single misread character, and the webhook moves a
  transaction along the allowed transitions only, but on the word of its caller.
\<close>

unbundle bit_operations_syntax

section \<open>Reading fields\<close>

function parse_tlv :: "string \<Rightarrow> (string \<times> string) list option" where
  \<comment> \<open>a reader of tag-length-value fields, as EMVCo defines them\<close>
  "parse_tlv s = (if s = [] then Some []
     else if length s < 4 \<or> \<not> list_all js_digit (take 2 (drop 2 s)) then None
     else let n = dec_val (take 2 (drop 2 s)); rest = drop 4 s
          in if length rest < n then None
             else map_option (Cons (take 2 s, take n rest)) (parse_tlv (drop n rest)))"
  by auto
termination by (relation "measure length") auto

declare parse_tlv.simps [simp del]

definition two_digits :: "nat \<Rightarrow> string" where
  "two_digits n = [char_of (48 + n div 10), char_of (48 + n mod 10)]"

lemma zero_char: "char_of (48 :: nat) = CHR ''0''"
  by code_simp

lemma padStart_two: "n \<le> 99 \<Longrightarrow> padStart 2 CHR ''0'' (nat_str n) = two_digits n"
proof (cases "n < 10")
  case True
  then show ?thesis by (subst nat_str.simps) (simp add: padStart_def two_digits_def zero_char)
next
  case False
  assume "n \<le> 99"
  then have "n div 10 < 10" by simp
  then have "nat_str (n div 10) = [char_of (48 + n div 10)]" by (subst nat_str.simps) simp
  then show ?thesis using False by (subst nat_str.simps) (simp add: padStart_def two_digits_def)
qed

lemma two_digits_value:
  assumes "n \<le> 99"
  shows "list_all js_digit (two_digits n)" "dec_val (two_digits n) = n" "length (two_digits n) = 2"
proof -
  have "n div 10 < 10" "n mod 10 < 10" using assms by simp_all
  then show "list_all js_digit (two_digits n)" "dec_val (two_digits n) = n" "length (two_digits n) = 2"
    by (simp_all add: two_digits_def js_digit_def digit_val_def of_char_of)
qed

lemma parse_tlv_Nil [simp]: "parse_tlv [] = Some []"
  by (simp add: parse_tlv.simps)

lemma parse_tlv_field:
  assumes "encodeTlv tag v = Inr s" "length tag = 2"
  shows "parse_tlv (s @ r) = map_option (Cons (tag, v)) (parse_tlv r)"
proof -
  obtain a b where tag: "tag = [a, b]" using assms(2) by (auto simp: length_Suc_conv numeral_2_eq_2)
  have n: "length v \<le> 99" using assms(1) by (auto simp: encodeTlv_def split: if_splits)
  obtain x y where xy: "two_digits (length v) = [x, y]" by (simp add: two_digits_def)
  have "s = a # b # x # y # v" using assms(1) padStart_two [OF n] xy tag by (auto simp: encodeTlv_def split: if_splits)
  then show ?thesis using two_digits_value [OF n] xy tag by (subst parse_tlv.simps) simp
qed

definition good_tags :: "(string \<times> string) list \<Rightarrow> bool" where
  "good_tags fs \<longleftrightarrow> list_all (\<lambda>f. length (fst f) = 2) fs"

lemma append_Nil_fun: "(@) [] = (\<lambda>xs. xs)"
  by auto

lemma parse_fields:
  assumes "encode_fields fs = Inr s" "good_tags fs"
  shows "parse_tlv (s @ r) = map_option ((@) fs) (parse_tlv r)"
  using assms
proof (induction fs arbitrary: s)
  case (Cons f fs)
  obtain tag v where f: "f = (tag, v)" by (cases f)
  obtain s1 s2 where "encodeTlv tag v = Inr s1" "encode_fields fs = Inr s2" "s = s1 @ s2"
    using Cons.prems(1) by (auto simp: f split: sum.splits)
  then show ?case using Cons f parse_tlv_field [of tag v s1 "s2 @ r"]
    by (simp add: good_tags_def option.map_comp comp_def)
qed (simp add: option.map_id0 [unfolded id_def] append_Nil_fun)

section \<open>The checksum\<close>

definition crc_ok :: "string \<Rightarrow> bool" where
  \<comment> \<open>the last four characters are the checksum of what precedes them\<close>
  "crc_ok s \<longleftrightarrow> 4 \<le> length s \<and> drop (length s - 4) s = crc16 (take (length s - 4) s)"

lemma top_bit: "w AND 0x8000 \<noteq> 0 \<longleftrightarrow> bit w 15" for w :: "16 word"
  using and_exp_eq_0_iff_not_bit [of w 15] by simp

lemma crc_bit_zero: "bit (crc_bit w) 0 \<longleftrightarrow> bit w 15"
proof -
  have "bit (0x1021 :: 16 word) 0" by simp
  then show ?thesis unfolding crc_bit_def top_bit by (simp only: bit_xor_iff bit_push_bit_iff split: if_splits) auto
qed

lemma crc_bit_Suc: "n < 15 \<Longrightarrow> bit (crc_bit w) (Suc n) \<longleftrightarrow> bit w n \<noteq> (bit w 15 \<and> bit (0x1021 :: 16 word) (Suc n))"
  unfolding crc_bit_def top_bit by (simp only: bit_xor_iff bit_push_bit_iff split: if_splits) auto

lemma inj_crc_bit: "inj crc_bit"
proof (rule injI)
  fix a b assume e: "crc_bit a = crc_bit b"
  have top: "bit a 15 = bit b 15" using crc_bit_zero [of a] crc_bit_zero [of b] e by simp
  have "bit a n = bit b n" if "n < 16" for n
  proof (cases "n = 15")
    case False
    then have "n < 15" using that by simp
    then show ?thesis using crc_bit_Suc [of n a] crc_bit_Suc [of n b] e top by auto
  qed (simp add: top)
  then show "a = b" by (auto intro: bit_word_eqI)
qed

lemma inj_crc_byte: "inj (crc_bit ^^ 8)"
  using inj_crc_bit by (rule inj_fn)

lemma xor_cancel: "a XOR b = a XOR c \<longleftrightarrow> b = c" for a :: "'a::len word"
  by (metis xor.left_neutral xor.assoc xor_self_eq)

lemma crc_char_inj: "crc_char c a = crc_char c b \<Longrightarrow> a = b"
  using xor_cancel [of "push_bit 8 (of_char c)" a b] injD [OF inj_crc_byte]
  by (auto simp: crc_char_def xor.commute)

lemma byte_inj:
  assumes "push_bit 8 (of_char c :: 16 word) = push_bit 8 (of_char d)"
  shows "c = d"
proof -
  have u: "unat (push_bit 8 (of_char x :: 16 word)) = of_char x * 256" for x
  proof -
    have "push_bit 8 (of_char x :: 16 word) = of_nat (of_char x * 256)"
      by (simp add: push_bit_eq_mult of_nat_of_char)
    moreover have "(of_char x :: nat) * 256 < 2 ^ 16" using nat_of_char_less_256 [of x] by simp
    ultimately show ?thesis by (simp only: unat_of_nat take_bit_nat_eq_self len_num1 len_bit0) (simp add: take_bit_nat_eq_self)
  qed
  show ?thesis using arg_cong [OF assms, of unat] by (simp add: u)
qed

lemma crc_char_misread: "crc_char c a = crc_char d a \<Longrightarrow> c = d"
  unfolding crc_char_def by (drule injD [OF inj_crc_byte]) (simp only: xor_cancel byte_inj)

lemma fold_crc_inj: "fold crc_char s a = fold crc_char s b \<Longrightarrow> a = b"
  by (induction s arbitrary: a b) (auto dest: crc_char_inj)

lemma crc_of_misread:
  assumes "i < length s" "crc_of (s[i := c]) = crc_of s"
  shows "s ! i = c"
proof -
  let ?a = "fold crc_char (take i s) 0xffff"
  have "s = take i s @ s ! i # drop (Suc i) s" using assms(1) by (rule id_take_nth_drop)
  then have "crc_of s = fold crc_char (drop (Suc i) s) (crc_char (s ! i) ?a)"
    by (metis crc_of_def fold_append comp_apply fold_simps(2))
  moreover have "crc_of (s[i := c]) = fold crc_char (drop (Suc i) s) (crc_char c ?a)"
    using upd_conv_take_nth_drop [OF assms(1), of c] by (simp add: crc_of_def)
  ultimately have "crc_char (s ! i) ?a = crc_char c ?a" using assms(2) fold_crc_inj by metis
  then show ?thesis by (rule crc_char_misread)
qed

definition hex_digit_val :: "char \<Rightarrow> nat" where
  "hex_digit_val c = (let n = of_char c in if n < 58 then n - 48 else n - 55)"

definition code_val :: "string \<Rightarrow> nat" where
  "code_val = foldl (\<lambda>n c. 16 * n + hex_digit_val c) 0"

lemma hex_digit_val_char: "n < 16 \<Longrightarrow> hex_digit_val (hex_char n) = n"
  by (simp add: hex_digit_val_def hex_char_def of_char_of)

lemma code_val_nat_hex: "code_val (nat_hex n) = n"
proof (induction n rule: nat_hex.induct)
  case (1 n)
  show ?case
  proof (cases "n < 16")
    case True
    then show ?thesis by (subst nat_hex.simps) (simp add: code_val_def hex_digit_val_char)
  next
    case False
    then show ?thesis using 1 [OF False] by (subst nat_hex.simps) (simp add: code_val_def hex_digit_val_char)
  qed
qed

lemma foldl_zeros: "foldl (\<lambda>n c. 16 * n + hex_digit_val c) 0 (replicate k CHR ''0'') = 0"
  by (induction k) (simp_all add: hex_digit_val_def)

lemma code_val_crc16: "code_val (crc16 s) = unat (crc_of s)"
  using code_val_nat_hex [of "unat (crc_of s)"] by (simp add: crc16_def padStart_def code_val_def foldl_zeros)

lemma crc16_inj: "crc16 s = crc16 t \<Longrightarrow> crc_of s = crc_of t"
  using code_val_crc16 [of s] code_val_crc16 [of t] by (simp add: word_unat_eq_iff)

lemma length_nat_hex: "n < 16 ^ k \<Longrightarrow> 0 < k \<Longrightarrow> length (nat_hex n) \<le> k"
proof (induction k arbitrary: n)
  case (Suc k)
  show ?case
  proof (cases "n < 16")
    case False
    then have "0 < k" using Suc.prems by (cases k) auto
    then have "length (nat_hex (n div 16)) \<le> k" using Suc.prems by (intro Suc.IH) (simp_all add: div_less_iff_less_mult)
    then show ?thesis using False by (subst nat_hex.simps) simp
  qed (subst nat_hex.simps, simp)
qed simp

lemma unat_crc: "unat (crc_of s) < 16 ^ 4"
proof -
  have "unat (crc_of s) < 2 ^ LENGTH(16)" by (rule unsigned_less)
  then show ?thesis by simp
qed

lemma length_crc16 [simp]: "length (crc16 s) = 4"
  using length_nat_hex [of "unat (crc_of s)" 4] unat_crc [of s]
  by (simp add: crc16_def padStart_def)

lemma crc_ok_append: "crc_ok (p @ crc16 p)"
  by (simp add: crc_ok_def)

section \<open>Payloads\<close>

lemma good_tags_payload:
  "good_tags (header_fields opts)" "good_tags (account_fields opts)"
  "good_tags (detail_fields js code opts)" "good_tags (optional_field [x, y] v)"
  by (simp_all add: good_tags_def header_fields_def account_fields_def detail_fields_def optional_field_def
      split: option.splits)

lemma payload_parts:
  assumes "buildOrangeMoneyQrPayload js opts = Inr p"
  obtains code header account merchant details additional data where
    "qr_merchantId opts \<noteq> []" "map_of ORANGE_CURRENCY_CODES (currency_of opts) = Some code"
    "encode_fields (header_fields opts) = Inr header" "encode_fields (account_fields opts) = Inr account"
    "encodeTlv ''26'' account = Inr merchant" "encode_fields (detail_fields js code opts) = Inr details"
    "encode_fields (reference_fields opts) = Inr additional"
    "encode_fields (optional_field ''62'' (Some additional)) = Inr data"
    "p = appendCrc (header @ merchant @ details @ data)"
  using assms by (auto simp: buildOrangeMoneyQrPayload_def split: if_splits option.splits sum.splits)

lemma parse_all: "encode_fields fs = Inr s \<Longrightarrow> good_tags fs \<Longrightarrow> parse_tlv s = Some fs"
  using parse_fields [of fs s "[]"] by simp

lemma payload_crc_ok: "buildOrangeMoneyQrPayload js opts = Inr p \<Longrightarrow> crc_ok p"
  by (erule payload_parts) (simp only: appendCrc_def Let_def crc_ok_append)

lemma crc_ok_misread:
  assumes "crc_ok p" "i < length p" "p ! i \<noteq> c"
  shows "\<not> crc_ok (p[i := c])"
proof
  assume ok: "crc_ok (p[i := c])"
  let ?n = "length p - 4"
  show False
  proof (cases "i < ?n")
    case True
    then have "crc16 ((take ?n p)[i := c]) = crc16 (take ?n p)"
      using assms(1) ok by (simp add: crc_ok_def take_update_swap)
    then have "take ?n p ! i = c" using True by (intro crc_of_misread crc16_inj) simp_all
    then show False using assms(3) True by simp
  next
    case False
    then have "(drop ?n p)[i - ?n := c] = drop ?n p"
      using assms(1) ok by (simp add: crc_ok_def drop_update_swap)
    moreover have "i - ?n < length (drop ?n p)" using assms(1,2) False by (auto simp: crc_ok_def)
    ultimately have "drop ?n p ! (i - ?n) = c" by (metis nth_list_update_eq)
    then show False using assms False by simp
  qed
qed

section \<open>Confirmations\<close>

lemma confirmation_writes:
  "fst (snd (handleConfirmation now p txs)) = txs \<or>
   (\<exists>i s user. fst (snd (handleConfirmation now p txs)) = fst (snd (updateStatus now i s user None txs)))"
  unfolding handleConfirmation_def Let_def by (auto simp: case_prod_beta split: option.splits)

definition demo_qr :: OrangeQrPayloadOptions where
  "demo_qr = \<lparr>qr_merchantId = ''M1'', qr_amount = Fin (5/2), qr_currency = Some ''kes'', qr_countryCode = None,
     qr_merchantName = Some ''Shop'', qr_merchantCity = None, qr_categoryCode = None, qr_reference = Some ''R7'',
     qr_storeLabel = None, qr_terminalLabel = Some [], qr_static = False\<rparr>"

definition demo_payload :: string where
  "demo_payload = appendCrc (''0002010102122625'' @ ''0009orange.om0102M10202R7'' @
     ''520400005303404'' @ ''54042.50'' @ ''5802KE5904Shop6007Nairobi'' @ ''62060502R7'')"

lemma demo_qr_parts:
  "encode_fields (header_fields demo_qr) = Inr ''000201010212''"
  "encode_fields (account_fields demo_qr) = Inr ''0009orange.om0102M10202R7''"
  "encodeTlv ''26'' ''0009orange.om0102M10202R7'' = Inr ''26250009orange.om0102M10202R7''"
  "encode_fields (detail_fields (\<lambda>_. []) ''404'' demo_qr) = Inr ''52040000530340454042.505802KE5904Shop6007Nairobi''"
  "encode_fields (reference_fields demo_qr) = Inr ''0502R7''"
  "encode_fields (optional_field ''62'' (Some ''0502R7'')) = Inr ''62060502R7''"
  "map_of ORANGE_CURRENCY_CODES (currency_of demo_qr) = Some ''404''"
  by code_simp+

lemma demo_qr_built: "buildOrangeMoneyQrPayload (\<lambda>_. []) demo_qr = Inr demo_payload"
  unfolding buildOrangeMoneyQrPayload_def by (simp add: demo_qr_parts demo_payload_def) (simp add: demo_qr_def)

definition demo_paid :: transaction where
  "demo_paid = \<lparr>tx_id = ''t1'', tx_reference = ''R'', tx_amount = ''5'', tx_phone = ''1'', tx_provider = ''orange'',
     tx_status = Reversed, tx_user = Some ''u'', tx_created = 0, tx_updated = 0\<rparr>"

section \<open>Properties\<close>

text \<open>
  C40. What a payload says is what went into it: a reader of EMVCo fields finds in every payload that
  is built the header, the merchant account, the details and the optional reference, field by field
  and in order, and then the checksum field; the account field holds the merchant, the reference and
  the labels; and the checksum is right. The currency is supported and the merchant is not empty.
\<close>

theorem qr_roundtrip:
  assumes "buildOrangeMoneyQrPayload js opts = Inr p"
  shows "\<exists>code account additional crc.
    map_of ORANGE_CURRENCY_CODES (currency_of opts) = Some code \<and> qr_merchantId opts \<noteq> [] \<and>
    parse_tlv account = Some (account_fields opts) \<and> parse_tlv additional = Some (reference_fields opts) \<and>
    parse_tlv p = Some (header_fields opts @ [(''26'', account)] @ detail_fields js code opts @
      optional_field ''62'' (Some additional) @ [(''63'', crc)]) \<and>
    crc_ok p"
proof -
  obtain code header account merchant details additional data where *:
    "qr_merchantId opts \<noteq> []" "map_of ORANGE_CURRENCY_CODES (currency_of opts) = Some code"
    "encode_fields (header_fields opts) = Inr header" "encode_fields (account_fields opts) = Inr account"
    "encodeTlv ''26'' account = Inr merchant" "encode_fields (detail_fields js code opts) = Inr details"
    "encode_fields (reference_fields opts) = Inr additional"
    "encode_fields (optional_field ''62'' (Some additional)) = Inr data"
    "p = appendCrc (header @ merchant @ details @ data)"
    using assms by (rule payload_parts)
  let ?crc = "crc16 (header @ merchant @ details @ data @ ''6304'')"
  have "encodeTlv ''63'' ?crc = Inr (''6304'' @ ?crc)"
    using padStart_two [of 4] by (simp add: encodeTlv_def two_digits_def) code_simp
  then have crc: "parse_tlv (''6304'' @ ?crc) = Some [(''63'', ?crc)]"
    using parse_tlv_field [of "''63''" ?crc "''6304'' @ ?crc" "[]"] by simp
  have p: "p = header @ merchant @ details @ data @ ''6304'' @ ?crc"
    using *(9) by (simp add: appendCrc_def Let_def)
  have "parse_tlv p = Some (header_fields opts @ [(''26'', account)] @ detail_fields js code opts @
      optional_field ''62'' (Some additional) @ [(''63'', ?crc)])"
    unfolding p parse_fields [OF *(3) good_tags_payload(1)] parse_tlv_field [OF *(5), simplified]
      parse_fields [OF *(6) good_tags_payload(3)] parse_fields [OF *(8) good_tags_payload(4)] crc by simp
  moreover have "parse_tlv account = Some (account_fields opts)" "parse_tlv additional = Some (reference_fields opts)"
    using parse_all [OF *(4) good_tags_payload(2)] parse_all [OF *(7)] good_tags_payload(4)
    by (simp_all add: reference_fields_def)
  ultimately show ?thesis using *(1,2) payload_crc_ok [OF assms] by blast
qed

theorem qr_roundtrip_witness:
  "\<exists>p. buildOrangeMoneyQrPayload (\<lambda>_. []) demo_qr = Inr p \<and>
     (\<exists>code account additional crc.
    map_of ORANGE_CURRENCY_CODES (currency_of demo_qr) = Some code \<and> qr_merchantId demo_qr \<noteq> [] \<and>
    parse_tlv account = Some (account_fields demo_qr) \<and> parse_tlv additional = Some (reference_fields demo_qr) \<and>
    parse_tlv p = Some (header_fields demo_qr @ [(''26'', account)] @ detail_fields (\<lambda>_. []) code demo_qr @
      optional_field ''62'' (Some additional) @ [(''63'', crc)]) \<and> crc_ok p)"
  using qr_roundtrip [OF demo_qr_built] demo_qr_built by blast

text \<open>
  The checksum of a payload notices every single misread character, the characters of the
  checksum included.
\<close>

theorem qr_single_error:
  assumes "buildOrangeMoneyQrPayload js opts = Inr p" "i < length p" "c \<noteq> p ! i"
  shows "crc_ok p \<and> \<not> crc_ok (p[i := c])"
  using crc_ok_misread [OF payload_crc_ok [OF assms(1)] assms(2)] payload_crc_ok [OF assms(1)] assms(3) by metis

theorem qr_single_error_witness:
  "crc_ok demo_payload \<and> \<not> crc_ok (demo_payload[2 := CHR ''9''])"
  by (rule qr_single_error [OF demo_qr_built]) (simp_all add: demo_payload_def appendCrc_def Let_def)

text \<open>
  A confirmation moves every transaction along an allowed transition or not at all.
\<close>

theorem confirmation_respects_table:
  assumes "j < length txs"
  shows "status_step (tx_status (txs ! j)) (tx_status (fst (snd (handleConfirmation now p txs)) ! j))"
  using confirmation_writes [of now p txs] updateStatus_nth [OF assms] by (metis status_step_refl)

theorem confirmation_respects_table_witness:
  "status_step (tx_status ([demo_paid] ! 0)) (tx_status (fst (snd (handleConfirmation 7
     \<lparr>pc_reference = Some ''t1'', pc_transactionId = None, pc_merchantId = ''m'', pc_amount = Fin 1, pc_status = PayFailed\<rparr>
     [demo_paid])) ! 0))"
  by (rule confirmation_respects_table) simp

text \<open>
  The webhook trusts its caller: anyone who names a pending transaction and any merchant and any
  positive amount completes it.
\<close>

theorem confirmation_trusts_caller:
  assumes "m \<noteq> []" "0 < a" "i \<noteq> []"
    "find (\<lambda>t. tx_id t = i) txs = Some t" "tx_status t = Pending"
  shows "let (r, txs', _) = handleConfirmation now
             \<lparr>pc_reference = None, pc_transactionId = Some i, pc_merchantId = m, pc_amount = Fin a, pc_status = PaySuccess\<rparr> txs
         in webhook_status r = 200 \<and> status_of txs' i = Some Completed"
proof -
  let ?p = "\<lparr>pc_reference = None, pc_transactionId = Some i, pc_merchantId = m, pc_amount = Fin a, pc_status = PaySuccess\<rparr>"
  obtain b txs' es where u: "updateStatus now i Completed (tx_user t) None txs = (b, txs', es)" by (metis prod_cases3)
  have h: "handleConfirmation now ?p txs =
      (\<lparr>cr_accepted = True, cr_transaction = Some i, cr_message = Confirmed\<rparr>, txs', es)"
    using assms u by (simp add: handleConfirmation_def )
  have "status_step Pending Completed" by (simp add: status_step_iff)
  then have "status_where i Completed (tx_user t) None t"
    using assms by (auto simp: status_where_def validPreviousStatuses_None find_Some_iff split: option.splits)
  then have "status_of txs' i = Some Completed"
    using assms(4) u updateStatus_table [of now i Completed "tx_user t" None txs] by (simp add: status_of_update)
  then show ?thesis unfolding h by (simp add: webhook_status_def)
qed

theorem confirmation_trusts_caller_witness:
  "let (r, txs', _) = handleConfirmation 7 \<lparr>pc_reference = None, pc_transactionId = Some ''t1'', pc_merchantId = ''x'',
       pc_amount = Fin (1/100), pc_status = PaySuccess\<rparr> [demo_paid\<lparr>tx_status := Pending\<rparr>]
   in webhook_status r = 200 \<and> status_of txs' ''t1'' = Some Completed"
  by (rule confirmation_trusts_caller [where t = "demo_paid\<lparr>tx_status := Pending\<rparr>"]) (simp_all add: demo_paid_def)

text \<open>
  A confirmation is reported as accepted although the status write was refused: for a transaction
  in a settled status the answer is 200 and "confirmed", and no transaction changes.
\<close>

theorem confirmed_though_refused:
  assumes "m \<noteq> []" "0 < a" "i \<noteq> []" "distinct (map tx_id txs)"
    "find (\<lambda>t. tx_id t = i) txs = Some t" "settled (tx_status t)"
  shows "let (r, txs', es) = handleConfirmation now
             \<lparr>pc_reference = None, pc_transactionId = Some i, pc_merchantId = m, pc_amount = Fin a, pc_status = PaySuccess\<rparr> txs
         in webhook_status r = 200 \<and> cr_message r = Confirmed \<and> txs' = txs \<and> es = []"
proof -
  have "t' = t" if "t' \<in> set txs" "tx_id t' = i" for t'
    using find_key_unique [OF assms(4) that(1)] that(2) assms(5) by simp
  moreover have "\<not> status_where i Completed (tx_user t) None t"
    using assms(6) settled_step [OF assms(6), of Completed]
    by (auto simp: status_where_def validPreviousStatuses_None settled_def)
  ultimately have "\<not> fst (updateStatus now i Completed (tx_user t) None txs)"
    by (auto simp: updateStatus_result status_where_def)
  then have "updateStatus now i Completed (tx_user t) None txs = (False, txs, [])" by (rule updateStatus_refused)
  then show ?thesis using assms by (simp add: handleConfirmation_def webhook_status_def)
qed

theorem confirmed_though_refused_witness:
  "let (r, txs', es) = handleConfirmation 7 \<lparr>pc_reference = None, pc_transactionId = Some ''t1'', pc_merchantId = ''x'',
       pc_amount = Fin 5, pc_status = PaySuccess\<rparr> [demo_paid]
   in webhook_status r = 200 \<and> cr_message r = Confirmed \<and> txs' = [demo_paid] \<and> es = []"
  by (rule confirmed_though_refused [where t = demo_paid]) (simp_all add: demo_paid_def settled_def)

end
