(* ===== verification/Ssrf.thy ===== *)
theory Ssrf
  imports Prelude "HOL-Library.Word"
begin

text \<open>
  The guard on outgoing webhook destinations (\<^verbatim>\<open>src/security/ssrf.ts\<close>): the classification of IPv4
  and IPv6 literals, the checks on the shape of a URL, and the check of every address a host name
  resolves to. \<^verbatim>\<open>net.isIP\<close> of Node is modelled (\<open>isIP\<close>); the URL parser and the DNS resolver are
  arguments, and every property holds for all of them.

  The properties compare the chain of tests of the code with the CIDR blocks its comments name, and
  show what an accepted URL can reach.
\<close>

unbundle bit_operations_syntax

section \<open>Address literals\<close>

definition hex_digit :: "char \<Rightarrow> bool" where
  \<comment> \<open>\<^verbatim>\<open>[0-9a-f]\<close>\<close>
  "hex_digit c \<longleftrightarrow> js_digit c \<or> (97 \<le> (of_char c :: nat) \<and> (of_char c :: nat) \<le> 102)"

definition hex_val :: "string \<Rightarrow> int" where
  "hex_val s = foldl (\<lambda>n c. 16 * n + int (if js_digit c then digit_val c else of_char c - 87)) 0 s"

definition v4_segment :: "string \<Rightarrow> bool" where
  \<comment> \<open>the segments of Node's IPv4 pattern: 0 to 255, no leading zero\<close>
  "v4_segment s \<longleftrightarrow> s \<noteq> [] \<and> length s \<le> 3 \<and> list_all js_digit s \<and> dec_val s \<le> 255 \<and>
     (length s = 1 \<or> hd s \<noteq> CHR ''0'')"

definition isIPv4 :: "string \<Rightarrow> bool" where
  "isIPv4 s \<longleftrightarrow> (let ps = js_split CHR ''.'' s in length ps = 4 \<and> list_all v4_segment ps)"

definition v6_segment :: "string \<Rightarrow> bool" where
  \<comment> \<open>\<^verbatim>\<open>[0-9a-fA-F]{1,4}\<close>\<close>
  "v6_segment s \<longleftrightarrow> s \<noteq> [] \<and> length s \<le> 4 \<and>
     list_all (\<lambda>c. hex_digit c \<or> (65 \<le> (of_char c :: nat) \<and> (of_char c :: nat) \<le> 70)) s"

fun cut_double_colon :: "string \<Rightarrow> (string \<times> string) option" where
  \<comment> \<open>\<^verbatim>\<open>indexOf("::")\<close> and the slices before and after it\<close>
  "cut_double_colon (x # y # s) =
     (if x = CHR '':'' \<and> y = CHR '':'' then Some ([], s)
      else map_option (\<lambda>(h, t). (x # h, t)) (cut_double_colon (y # s)))"
| "cut_double_colon _ = None"

fun v6_part_groups :: "bool \<Rightarrow> string list \<Rightarrow> nat option" where
  \<comment> \<open>the number of 16-bit groups of a part; a dotted tail may only be the last piece\<close>
  "v6_part_groups may_end [] = Some 0"
| "v6_part_groups may_end [p] =
     (if v6_segment p then Some 1 else if may_end \<and> isIPv4 p then Some 2 else None)"
| "v6_part_groups may_end (p # ps) =
     (if v6_segment p then map_option Suc (v6_part_groups may_end ps) else None)"

definition v6_pieces :: "string \<Rightarrow> string list" where
  "v6_pieces s = (if s = [] then [] else js_split CHR '':'' s)"

definition zone_ok :: "string \<Rightarrow> bool" where
  \<comment> \<open>an optional zone: \<^verbatim>\<open>%\<close> and one or more of \<^verbatim>\<open>[0-9a-zA-Z-.:]\<close>\<close>
  "zone_ok z \<longleftrightarrow> z = [] \<or> (length z \<ge> 2 \<and>
     list_all (\<lambda>c. js_digit c \<or> (97 \<le> (of_char c :: nat) \<and> (of_char c :: nat) \<le> 122) \<or>
        (65 \<le> (of_char c :: nat) \<and> (of_char c :: nat) \<le> 90) \<or>
        c \<in> {CHR ''-'', CHR ''.'', CHR '':''}) (tl z))"

definition isIPv6 :: "string \<Rightarrow> bool" where
  "isIPv6 s \<longleftrightarrow>
     (let addr = takeWhile (\<lambda>c. c \<noteq> CHR ''%'') s; zone = dropWhile (\<lambda>c. c \<noteq> CHR ''%'') s
      in zone_ok zone \<and>
         (case cut_double_colon addr of
            None \<Rightarrow> v6_part_groups True (v6_pieces addr) = Some 8
          | Some (h, t) \<Rightarrow>
              (case (v6_part_groups False (v6_pieces h), v6_part_groups True (v6_pieces t)) of
                 (Some m, Some n) \<Rightarrow> m + n \<le> 7 | _ \<Rightarrow> False)))"

definition isIP :: "string \<Rightarrow> nat" where
  "isIP s = (if isIPv4 s then 4 else if isIPv6 s then 6 else 0)"

fun parseGroups :: "string list \<Rightarrow> int list option" where
  "parseGroups [] = Some []"
| "parseGroups (piece # ps) =
     (if CHR ''.'' \<in> set piece then
        (if isIP piece \<noteq> 4 then None
         else case map (\<lambda>p. int (dec_val p)) (js_split CHR ''.'' piece) of
                [a, b, c, d] \<Rightarrow>
                  map_option (\<lambda>gs. (push_bit 8 a OR b) # (push_bit 8 c OR d) # gs) (parseGroups ps)
              | _ \<Rightarrow> None)
      else if piece \<noteq> [] \<and> length piece \<le> 4 \<and> list_all hex_digit piece
      then map_option (\<lambda>gs. hex_val piece # gs) (parseGroups ps)
      else None)"

definition expandIpv6 :: "string \<Rightarrow> int list option" where
  "expandIpv6 address =
     (let cleaned = map to_lower (takeWhile (\<lambda>c. c \<noteq> CHR ''%'') address) in
      if CHR '':'' \<notin> set cleaned then None
      else case cut_double_colon cleaned of
        None \<Rightarrow>
          (case parseGroups (v6_pieces cleaned) of
             None \<Rightarrow> None | Some gs \<Rightarrow> if length gs = 8 then Some gs else None)
      | Some (head, tail) \<Rightarrow>
          (case (parseGroups (v6_pieces head), parseGroups (v6_pieces tail)) of
             (Some hg, Some tg) \<Rightarrow>
               (let missing = 8 - int (length hg) - int (length tg) in
                if missing < 1 then None else Some (hg @ replicate (nat missing) 0 @ tg))
           | _ \<Rightarrow> None))"

definition groupsToIpv4 :: "int \<Rightarrow> int \<Rightarrow> string" where
  "groupsToIpv4 high low = js_join ''.'' (map (\<lambda>n. nat_str (nat n))
     [drop_bit 8 high AND 0xff, high AND 0xff, drop_bit 8 low AND 0xff, low AND 0xff])"

section \<open>Classification of addresses\<close>

definition blocked_octets :: "int \<Rightarrow> int \<Rightarrow> int \<Rightarrow> bool" where
  "blocked_octets a b c \<longleftrightarrow>
     a = 0 \<or> a = 10 \<or> a = 127 \<or>
     (a = 169 \<and> b = 254) \<or>
     (a = 172 \<and> b \<ge> 16 \<and> b \<le> 31) \<or>
     (a = 192 \<and> b = 168) \<or>
     (a = 100 \<and> b \<ge> 64 \<and> b \<le> 127) \<or>
     (a = 192 \<and> b = 0 \<and> c = 0) \<or>
     (a = 192 \<and> b = 0 \<and> c = 2) \<or>
     (a = 198 \<and> (b = 18 \<or> b = 19)) \<or>
     (a = 198 \<and> b = 51 \<and> c = 100) \<or>
     (a = 203 \<and> b = 0 \<and> c = 113) \<or>
     a \<ge> 224"

definition isBlockedIpv4 :: "string \<Rightarrow> bool" where
  "isBlockedIpv4 address =
     (let octets = js_split CHR ''.'' address in
      if length octets \<noteq> 4 then True
      else if \<not> list_all (\<lambda>p. p \<noteq> [] \<and> length p \<le> 3 \<and> list_all js_digit p) octets then True
      else if list_ex (\<lambda>p. dec_val p > 255) octets then True
      else blocked_octets (int (dec_val (octets ! 0))) (int (dec_val (octets ! 1)))
             (int (dec_val (octets ! 2))))"

definition blocked_groups :: "int list \<Rightarrow> bool" where
  "blocked_groups groups =
     (let g0 = groups ! 0; g1 = groups ! 1; g2 = groups ! 2; g3 = groups ! 3;
          g4 = groups ! 4; g5 = groups ! 5; g6 = groups ! 6; g7 = groups ! 7 in
      if list_all (\<lambda>g. g = 0) groups then True
      else if g0 = 0 \<and> g1 = 0 \<and> g2 = 0 \<and> g3 = 0 \<and> g4 = 0 \<and> g5 = 0 then True
      else if g5 = 0xffff then isBlockedIpv4 (groupsToIpv4 g6 g7)
      else if g0 = 0x64 \<and> g1 = 0xff9b \<and> g2 = 0 \<and> g3 = 0 \<and> g4 = 0 \<and> g5 = 0
      then isBlockedIpv4 (groupsToIpv4 g6 g7)
      else if g0 = 0x2002 then isBlockedIpv4 (groupsToIpv4 g1 g2)
      else if g0 = 0x2001 \<and> g1 = 0 then True
      else if g0 AND 0xffc0 = 0xfe80 then True
      else if g0 AND 0xffc0 = 0xfec0 then True
      else if g0 AND 0xfe00 = 0xfc00 then True
      else if g0 AND 0xff00 = 0xff00 then True
      else if g0 = 0x2001 \<and> g1 = 0x0db8 then True
      else if g0 = 0x100 \<and> g1 = 0 \<and> g2 = 0 \<and> g3 = 0 then True
      else False)"

definition isBlockedIpv6 :: "string \<Rightarrow> bool" where
  "isBlockedIpv6 address = (case expandIpv6 address of None \<Rightarrow> True | Some groups \<Rightarrow> blocked_groups groups)"

definition isBlockedIpAddress :: "string \<Rightarrow> bool" where
  "isBlockedIpAddress ip =
     (if isIP ip = 4 then isBlockedIpv4 ip else if isIP ip = 6 then isBlockedIpv6 ip else True)"

section \<open>Host names\<close>

definition BLOCKED_HOSTNAMES :: "string list" where
  "BLOCKED_HOSTNAMES = [''localhost'', ''metadata'', ''metadata.google.internal'', ''instance-data'']"

definition BLOCKED_HOSTNAME_SUFFIXES :: "string list" where
  "BLOCKED_HOSTNAME_SUFFIXES = [''.localhost'', ''.local'', ''.localdomain'', ''.internal'',
     ''.intranet'', ''.lan'', ''.corp'', ''.private'', ''.home.arpa'']"

definition normalizeHostname :: "string \<Rightarrow> string" where
  "normalizeHostname hostname =
     (let h0 = map to_lower hostname;
          h1 = (if prefix ''['' h0 \<and> suffix '']'' h0 then butlast (tl h0) else h0);
          h2 = takeWhile (\<lambda>c. c \<noteq> CHR ''%'') h1
      in if suffix ''.'' h2 then butlast h2 else h2)"

definition ipLiteralOf :: "string \<Rightarrow> string option" where
  "ipLiteralOf hostname =
     (let host = normalizeHostname hostname in if isIP host = 0 then None else Some host)"

definition isBlockedHostname :: "string \<Rightarrow> bool" where
  "isBlockedHostname host \<longleftrightarrow> host \<in> set BLOCKED_HOSTNAMES \<or>
     list_ex (\<lambda>s. suffix s host) BLOCKED_HOSTNAME_SUFFIXES \<or> CHR ''.'' \<notin> set host"

section \<open>The guard\<close>

record url =
  protocol :: string
  username :: string
  password :: string
  port :: string
  hostname :: string

datatype block_reason =
    NotAbsoluteUrl
  | SchemeNotAllowed string
  | EmbeddedCredentials
  | PortZero
  | NoHost
  | PrivateLiteral string
  | HostNotAllowed string
  | NotResolved string
  | ResolvesToPrivate string string

definition ALLOWED_PROTOCOLS :: "string list" where
  "ALLOWED_PROTOCOLS = [''http:'', ''https:'']"

definition assertSafeWebhookUrl :: "(string \<Rightarrow> url option) \<Rightarrow> string \<Rightarrow> block_reason + url" where
  "assertSafeWebhookUrl parse rawUrl =
     (case parse rawUrl of
        None \<Rightarrow> Inl NotAbsoluteUrl
      | Some url \<Rightarrow>
          if protocol url \<notin> set ALLOWED_PROTOCOLS then Inl (SchemeNotAllowed (protocol url))
          else if username url \<noteq> [] \<or> password url \<noteq> [] then Inl EmbeddedCredentials
          else if port url = ''0'' then Inl PortZero
          else
            let host = normalizeHostname (hostname url) in
            if host = [] then Inl NoHost
            else case ipLiteralOf host of
                Some literal \<Rightarrow>
                  if isBlockedIpAddress literal then Inl (PrivateLiteral literal) else Inr url
              | None \<Rightarrow> if isBlockedHostname host then Inl (HostNotAllowed host) else Inr url)"

definition dnsCheckEnabled :: "string option \<Rightarrow> bool" where
  "dnsCheckEnabled env_var =
     (let raw = map to_lower (case env_var of None \<Rightarrow> [] | Some s \<Rightarrow> s)
      in raw \<noteq> ''false'' \<and> raw \<noteq> ''0'' \<and> raw \<noteq> ''off'')"

definition validateWebhookUrl ::
  "(string \<Rightarrow> url option) \<Rightarrow> string option \<Rightarrow> (string \<Rightarrow> string list option) \<Rightarrow>
   (string \<Rightarrow> string list option) option \<Rightarrow> string \<Rightarrow> block_reason + url" where
  \<comment> \<open>\<open>dns\<close> is \<^verbatim>\<open>resolveWithDns\<close> and \<open>resolve\<close> the injected resolver; \<open>None\<close> is a rejected promise\<close>
  "validateWebhookUrl parse env_var dns resolve rawUrl =
     (case assertSafeWebhookUrl parse rawUrl of
        Inl e \<Rightarrow> Inl e
      | Inr url \<Rightarrow>
          let host = normalizeHostname (hostname url) in
          if ipLiteralOf host \<noteq> None then Inr url
          else if resolve = None \<and> \<not> dnsCheckEnabled env_var then Inr url
          else case (case resolve of Some r \<Rightarrow> r host | None \<Rightarrow> dns host) of
              None \<Rightarrow> Inl (NotResolved host)
            | Some addresses \<Rightarrow>
                if addresses = [] then Inl (NotResolved host)
                else case find isBlockedIpAddress addresses of
                    Some address \<Rightarrow> Inl (ResolvesToPrivate host address)
                  | None \<Rightarrow> Inr url)"

section \<open>Decimal and hexadecimal text\<close>

declare digit_char [simp]
declare dec_val.simps [simp del]

lemma js_digit_not_sep: "list_all js_digit s \<Longrightarrow> CHR ''.'' \<notin> set s"
  by (auto simp: list_all_iff js_digit_def)

lemma js_split_append: "c \<notin> set p \<Longrightarrow> js_split c (p @ c # s) = p # js_split c s"
  by (induction p) auto

lemma js_split_single: "c \<notin> set p \<Longrightarrow> js_split c p = [p]"
  by (induction p) auto

lemma js_split_join:
  "ps \<noteq> [] \<Longrightarrow> \<forall>p\<in>set ps. c \<notin> set p \<Longrightarrow> js_split c (js_join [c] ps) = ps"
proof (induction ps)
  case (Cons p ps)
  then show ?case by (cases ps) (auto simp: js_split_append js_split_single)
qed simp

lemma dec_val_bound: "list_all js_digit s \<Longrightarrow> dec_val s < 10 ^ length s"
proof (induction s rule: rev_induct)
  case (snoc c s)
  then have "dec_val s < 10 ^ length s" "digit_val c < 10" by (auto simp: js_digit_def digit_val_def)
  then have "10 * dec_val s + digit_val c < 10 * 10 ^ length s" by linarith
  then show ?case by (simp add: dec_val_snoc)
qed (simp add: dec_val.simps)

lemma char_of_digit_val: "js_digit c \<Longrightarrow> char_of (48 + digit_val c) = c"
  by (simp add: js_digit_def digit_val_def)

lemma dec_val_foldl_ge: "m \<le> foldl (\<lambda>n c. 10 * n + digit_val c) m s"
proof (induction s arbitrary: m)
  case (Cons c s)
  show ?case using Cons [of "10 * m + digit_val c"] by simp
qed simp

lemma char_of_48 [simp]: "char_of (48 :: nat) = CHR ''0''"
  by code_simp

lemma digit_val_pos: "js_digit c \<Longrightarrow> c \<noteq> CHR ''0'' \<Longrightarrow> 0 < digit_val c"
  using char_of_digit_val [of c] by (cases "digit_val c") auto

lemma dec_val_pos:
  assumes "s \<noteq> []" "hd s \<noteq> CHR ''0''" "js_digit (hd s)"
  shows "0 < dec_val s"
proof -
  obtain x xs where s: "s = x # xs" using assms(1) by (cases s) auto
  have "0 < digit_val x" using assms(2,3) digit_val_pos s by simp
  then show ?thesis using dec_val_foldl_ge [of "digit_val x" xs] s by (simp add: dec_val.simps)
qed

lemma nat_str_dec_val:
  "list_all js_digit s \<Longrightarrow> s \<noteq> [] \<Longrightarrow> length s = 1 \<or> hd s \<noteq> CHR ''0'' \<Longrightarrow> nat_str (dec_val s) = s"
proof (induction s rule: rev_induct)
  case (snoc c s)
  have c: "digit_val c < 10" "char_of (48 + digit_val c) = c" using snoc.prems(1)
    by (auto simp: js_digit_def digit_val_def)
  show ?case
  proof (cases "s = []")
    case True
    then show ?thesis using c by (simp add: dec_val.simps nat_str.simps)
  next
    case False
    then have hd: "hd s \<noteq> CHR ''0''" "js_digit (hd s)" using snoc.prems by (cases s; auto)+
    then have "0 < dec_val s" using dec_val_pos False by blast
    then have "nat_str (dec_val (s @ [c])) = nat_str (dec_val s) @ [c]"
      using c by (subst nat_str.simps) (simp add: dec_val_snoc)
    then show ?thesis using snoc False hd by simp
  qed
qed simp


section \<open>IPv4 addresses\<close>

definition dotted :: "8 word \<Rightarrow> 8 word \<Rightarrow> 8 word \<Rightarrow> 8 word \<Rightarrow> string" where
  \<comment> \<open>the canonical text of an address\<close>
  "dotted a b c d = js_join ''.'' (map (\<lambda>w. nat_str (unat w)) [a, b, c, d])"

definition ipv4_number :: "8 word \<Rightarrow> 8 word \<Rightarrow> 8 word \<Rightarrow> 8 word \<Rightarrow> int" where
  "ipv4_number a b c d = ((uint a * 256 + uint b) * 256 + uint c) * 256 + uint d"

definition in_cidr :: "int \<Rightarrow> int \<times> nat \<Rightarrow> bool" where
  \<comment> \<open>\<open>(network, length)\<close> of a 32-bit address\<close>
  "in_cidr n net = (drop_bit (32 - snd net) n = drop_bit (32 - snd net) (fst net))"

definition BLOCKED_V4 :: "(int \<times> nat) list" where
  "BLOCKED_V4 = [(0x00000000, 8), (0x0a000000, 8), (0x7f000000, 8), (0xa9fe0000, 16),
     (0xac100000, 12), (0xc0a80000, 16), (0x64400000, 10), (0xc0000000, 24), (0xc0000200, 24),
     (0xc6120000, 15), (0xc6336400, 24), (0xcb007100, 24), (0xe0000000, 3)]"

lemma unat_octet: "unat (w :: 8 word) < 256"
  using unsigned_less [of w, where 'a = nat] by simp

lemma uint_octet: "0 \<le> uint (w :: 8 word)" "uint (w :: 8 word) < 256"
  using unsigned_less [of w, where 'a = int] by simp_all

lemma nat_str_segment: "n < 256 \<Longrightarrow> v4_segment (nat_str n)"
proof -
  assume n: "n < 256"
  consider "n < 10" | "10 \<le> n" "n < 100" | "100 \<le> n" by linarith
  then have "length (nat_str n) \<le> 3 \<and> (length (nat_str n) = 1 \<or> hd (nat_str n) \<noteq> CHR ''0'')"
  proof cases
    case 1 then show ?thesis by (simp add: nat_str.simps)
  next
    case 2
    then have "nat_str n = [char_of (48 + n div 10), char_of (48 + n mod 10)]"
      by (simp add: nat_str.simps)
    moreover have "char_of (48 + n div 10) \<noteq> CHR ''0''"
      using 2 digit_char(2) [of "n div 10"] digit_char(2) [of 0] by fastforce
    ultimately show ?thesis by simp
  next
    case 3
    then have lt: "n div 10 div 10 < 10" "\<not> n div 10 < 10" "\<not> n < 10" using n by auto
    then have "nat_str n = [char_of (48 + n div 10 div 10), char_of (48 + n div 10 mod 10), char_of (48 + n mod 10)]"
      using lt by (simp add: nat_str.simps)
    moreover have "char_of (48 + n div 10 div 10) \<noteq> CHR ''0''"
      using 3 n digit_char(2) [of "n div 10 div 10"] digit_char(2) [of 0] by fastforce
    ultimately show ?thesis by simp
  qed
  then show ?thesis using n nat_str_digits [of n] by (simp add: v4_segment_def dec_val_nat_str)
qed

lemma js_split_dotted:
  "js_split CHR ''.'' (dotted a b c d) = map (\<lambda>w. nat_str (unat w)) [a, b, c, d]"
  unfolding dotted_def
  by (rule js_split_join) (use nat_str_digits js_digit_not_sep in auto)

lemma isIP_dotted: "isIP (dotted a b c d) = 4"
  by (simp add: isIP_def isIPv4_def js_split_dotted nat_str_segment unat_octet)

lemma isBlockedIpv4_dotted:
  "isBlockedIpv4 (dotted a b c d) = blocked_octets (uint a) (uint b) (uint c)"
proof -
  have len: "length (nat_str (unat w)) \<le> 3" for w :: "8 word"
    using nat_str_segment [OF unat_octet] by (simp add: v4_segment_def)
  have le: "\<not> 255 < unat w" for w :: "8 word" using unat_octet [of w] by simp
  have digits: "list_all js_digit (nat_str (unat w))" "nat_str (unat w) \<noteq> []" for w :: "8 word"
    using nat_str_digits by auto
  show ?thesis
    unfolding isBlockedIpv4_def js_split_dotted Let_def
    by (simp add: len digits dec_val_nat_str le)
qed

lemma segment_octet:
  assumes "v4_segment p"
  shows "\<exists>w :: 8 word. p = nat_str (unat w)"
proof -
  have "dec_val p < 256" "nat_str (dec_val p) = p" using assms nat_str_dec_val by (auto simp: v4_segment_def)
  then have "unat (of_nat (dec_val p) :: 8 word) = dec_val p" by (simp add: unat_of_nat)
  then show ?thesis using \<open>nat_str (dec_val p) = p\<close> by metis
qed

lemma isIPv4_dotted:
  assumes "isIPv4 s"
  shows "\<exists>a b c d. s = dotted a b c d"
proof -
  obtain p q r t where sp: "js_split CHR ''.'' s = [p, q, r, t]"
    and seg: "v4_segment p" "v4_segment q" "v4_segment r" "v4_segment t"
    using assms by (auto simp: isIPv4_def Let_def length_Suc_conv numeral_eq_Suc)
  have "s = js_join ''.'' [p, q, r, t]" using js_join_split [of "CHR ''.''" s] sp by simp
  moreover obtain a b c d :: "8 word" where "p = nat_str (unat a)" "q = nat_str (unat b)"
    "r = nat_str (unat c)" "t = nat_str (unat d)" using seg segment_octet by metis
  ultimately show ?thesis unfolding dotted_def by auto
qed

text \<open>A prefix test of an address reads its leading octets.\<close>

lemma number_drop:
  fixes a b c d :: int
  assumes "0 \<le> a" "0 \<le> b" "0 \<le> c" "0 \<le> d" "a < 256" "b < 256" "c < 256" "d < 256"
  defines "n \<equiv> ((a * 256 + b) * 256 + c) * 256 + d"
  shows "drop_bit 24 n = a" "drop_bit 16 n = a * 256 + b" "drop_bit 8 n = (a * 256 + b) * 256 + c"
    "drop_bit 20 n = a * 16 + b div 16" "drop_bit 22 n = a * 4 + b div 64"
    "drop_bit 17 n = a * 128 + b div 2" "drop_bit 29 n = a div 32"
proof -
  show d8: "drop_bit 8 n = (a * 256 + b) * 256 + c" using assms by (simp add: n_def drop_bit_eq_div)
  have "drop_bit 8 (drop_bit 8 n) = a * 256 + b" unfolding d8 using assms by (simp add: drop_bit_eq_div)
  then show d16: "drop_bit 16 n = a * 256 + b" by simp
  have "drop_bit 8 (drop_bit 16 n) = a" unfolding d16 using assms by (simp add: drop_bit_eq_div)
  then show d24: "drop_bit 24 n = a" by simp
  have "drop_bit 4 (drop_bit 16 n) = a * 16 + b div 16" unfolding d16 by (simp add: drop_bit_eq_div)
  then show "drop_bit 20 n = a * 16 + b div 16" by simp
  have "drop_bit 6 (drop_bit 16 n) = a * 4 + b div 64" unfolding d16 by (simp add: drop_bit_eq_div)
  then show "drop_bit 22 n = a * 4 + b div 64" by simp
  have "drop_bit 1 (drop_bit 16 n) = a * 128 + b div 2" unfolding d16 by (simp add: drop_bit_eq_div)
  then show "drop_bit 17 n = a * 128 + b div 2" by simp
  have "drop_bit 5 (drop_bit 24 n) = a div 32" unfolding d24 by (simp add: drop_bit_eq_div)
  then show "drop_bit 29 n = a div 32" by simp
qed

lemma digit_pair_eq:
  fixes x c y e m :: int
  assumes "0 \<le> c" "c < m" "0 \<le> e" "e < m"
  shows "x * m + c = y * m + e \<longleftrightarrow> x = y \<and> c = e"
proof
  assume eq: "x * m + c = y * m + e"
  have "(x * m + c) div m = x" "(y * m + e) div m = y" using assms by simp_all
  then show "x = y \<and> c = e" using eq by simp
qed simp

lemma cidr_octets:
  assumes "0 \<le> a" "0 \<le> b" "0 \<le> c" "0 \<le> d" "a < 256" "b < 256" "c < 256" "d < 256"
  shows "list_ex (in_cidr (((a * 256 + b) * 256 + c) * 256 + d)) BLOCKED_V4 = blocked_octets a b c"
proof -
  have two: "a * 256 + b = k * 256 + l \<longleftrightarrow> a = k \<and> b = l" if "0 \<le> l" "l < 256" for k l
    by (rule digit_pair_eq) (use assms that in auto)
  have three: "(a * 256 + b) * 256 + c = (k * 256 + l) * 256 + m \<longleftrightarrow> a = k \<and> b = l \<and> c = m"
    if "0 \<le> l" "l < 256" "0 \<le> m" "m < 256" for k l m
    by (simp only: digit_pair_eq [OF assms(3,7) that(3,4)] two [OF that(1,2)] conj_assoc)
  have "a * 16 + b div 16 = 172 * 16 + 1 \<longleftrightarrow> a = 172 \<and> b div 16 = 1"
    "a * 4 + b div 64 = 100 * 4 + 1 \<longleftrightarrow> a = 100 \<and> b div 64 = 1"
    "a * 128 + b div 2 = 198 * 128 + 9 \<longleftrightarrow> a = 198 \<and> b div 2 = 9"
    by (rule digit_pair_eq; use assms in auto)+
  moreover have "b div 16 = 1 \<longleftrightarrow> b \<ge> 16 \<and> b \<le> 31" "b div 64 = 1 \<longleftrightarrow> b \<ge> 64 \<and> b \<le> 127"
    "b div 2 = 9 \<longleftrightarrow> b = 18 \<or> b = 19" "a div 32 = 7 \<longleftrightarrow> a \<ge> 224"
    using assms(2,5,6) by auto
  moreover define n where "n = ((a * 256 + b) * 256 + c) * 256 + d"
  note dr = number_drop [OF assms, folded n_def]
  ultimately have "list_ex (in_cidr n) BLOCKED_V4 = blocked_octets a b c"
    using two [of 254 169] two [of 168 192] three [of 0 0 192] three [of 0 2 192] three [of 51 100 198]
      three [of 0 113 203]
    by (simp add: BLOCKED_V4_def in_cidr_def dr blocked_octets_def)
  then show ?thesis unfolding n_def .
qed


lemma isBlockedIpAddress_dotted:
  "isBlockedIpAddress (dotted a b c d) = list_ex (in_cidr (ipv4_number a b c d)) BLOCKED_V4"
  by (simp only: isBlockedIpAddress_def isIP_dotted isBlockedIpv4_dotted ipv4_number_def simp_thms if_True
      cidr_octets [OF uint_octet(1) uint_octet(1) uint_octet(1) uint_octet(1)
        uint_octet(2) uint_octet(2) uint_octet(2) uint_octet(2)])

section \<open>IPv6 addresses\<close>

definition in_cidr6 :: "int list \<Rightarrow> int list \<times> nat \<Rightarrow> bool" where
  \<comment> \<open>the leading bits of the eight groups of an address\<close>
  "in_cidr6 gs net =
     (drop_bit (128 - snd net) (horner_sum (\<lambda>g. g) (2 ^ 16) (rev gs)) =
      drop_bit (128 - snd net) (horner_sum (\<lambda>g. g) (2 ^ 16) (rev (fst net))))"

definition BLOCKED_V6 :: "(int list \<times> nat) list" where
  "BLOCKED_V6 = [([0x2001,0,0,0,0,0,0,0], 32), ([0xfe80,0,0,0,0,0,0,0], 10),
     ([0xfec0,0,0,0,0,0,0,0], 10), ([0xfc00,0,0,0,0,0,0,0], 7), ([0xff00,0,0,0,0,0,0,0], 8),
     ([0x2001,0xdb8,0,0,0,0,0,0], 32), ([0x100,0,0,0,0,0,0,0], 64)]"

definition group_octets :: "int \<Rightarrow> int \<Rightarrow> bool" where
  \<comment> \<open>the policy for an IPv4 address embedded in two groups\<close>
  "group_octets high low = list_ex (in_cidr (high * 65536 + low)) BLOCKED_V4"

definition ipv6_policy :: "int list \<Rightarrow> bool" where
  "ipv6_policy gs =
     (if in_cidr6 gs ([0,0,0,0,0,0,0,0], 96) then True
      else if in_cidr6 gs ([0,0,0,0,0,0xffff,0,0], 96) \<or> in_cidr6 gs ([0x64,0xff9b,0,0,0,0,0,0], 96)
      then group_octets (gs ! 6) (gs ! 7)
      else if in_cidr6 gs ([0x2002,0,0,0,0,0,0,0], 16) then group_octets (gs ! 1) (gs ! 2)
      else list_ex (in_cidr6 gs) BLOCKED_V6)"

definition groups_ok :: "int list \<Rightarrow> bool" where
  "groups_ok gs \<longleftrightarrow> length gs = 8 \<and> list_all (\<lambda>g. 0 \<le> g \<and> g < 65536) gs"

lemma hex_val_bound:
  "list_all hex_digit s \<Longrightarrow> 0 \<le> hex_val s \<and> hex_val s < 16 ^ length s"
proof (induction s rule: rev_induct)
  case (snoc c s)
  let ?d = "int (if js_digit c then digit_val c else of_char c - 87)"
  have "?d < 16" "0 \<le> ?d" using snoc.prems by (auto simp: hex_digit_def js_digit_def digit_val_def)
  then have "16 * hex_val s + ?d < 16 * 16 ^ length s \<and> 0 \<le> 16 * hex_val s + ?d" using snoc by auto
  then show ?case by (simp add: hex_val_def)
qed (simp add: hex_val_def)

lemma hex_group_bound:
  assumes "list_all hex_digit s" "length s \<le> 4"
  shows "0 \<le> hex_val s \<and> hex_val s < 65536"
proof -
  have "(16 :: int) ^ length s \<le> 16 ^ 4" by (rule power_increasing) (use assms in auto)
  then show ?thesis using hex_val_bound [OF assms(1)] by simp
qed

lemma octets_group: "0 \<le> b \<Longrightarrow> b < 256 \<Longrightarrow> push_bit 8 a OR b = a * 256 + (b :: int)"
  using concat_bit_eq [of 8 b a] concat_bit_def [of 8 b a]
  by (simp add: take_bit_int_eq_self or.commute push_bit_eq_mult)

lemma parseGroups_bounds:
  "parseGroups ps = Some gs \<Longrightarrow> list_all (\<lambda>g. 0 \<le> g \<and> g < 65536) gs"
proof (induction ps arbitrary: gs)
  case (Cons p ps)
  show ?case
  proof (cases "CHR ''.'' \<in> set p")
    case True
    then have v4: "isIP p = 4" using Cons.prems by (auto split: if_splits)
    then obtain a b c d where p: "p = dotted a b c d"
      using isIPv4_dotted [of p] by (auto simp: isIP_def split: if_splits)
    have small: "0 \<le> uint x * 256 + uint y \<and> uint x * 256 + uint y < 65536" for x y :: "8 word"
      using uint_octet [of x] uint_octet [of y] by simp
    show ?thesis using Cons True v4
      by (auto simp: p js_split_dotted dec_val_nat_str octets_group uint_octet small)
  next
    case False
    then show ?thesis using Cons hex_group_bound by (auto split: if_splits)
  qed
qed simp


lemma v6_mask:
  fixes g :: int
  assumes "0 \<le> g" "g < 65536"
  shows "g AND 0xffc0 = push_bit 6 (drop_bit 6 g)" "g AND 0xfe00 = push_bit 9 (drop_bit 9 g)"
    "g AND 0xff00 = push_bit 8 (drop_bit 8 g)"
proof -
  have g: "take_bit 16 g = g" using assms by (simp add: take_bit_int_eq_self)
  have "g AND push_bit k (mask (16 - k)) = push_bit k (drop_bit k g)" if "k \<le> 16" for k
  proof (rule bit_eqI)
    fix n
    have "bit g n \<Longrightarrow> n < 16" using g by (metis bit_take_bit_iff)
    then show "bit (g AND push_bit k (mask (16 - k))) n = bit (push_bit k (drop_bit k g)) n"
      using that by (auto simp: bit_simps)
  qed
  from this [of 6] this [of 9] this [of 8]
  show "g AND 0xffc0 = push_bit 6 (drop_bit 6 g)" "g AND 0xfe00 = push_bit 9 (drop_bit 9 g)"
    "g AND 0xff00 = push_bit 8 (drop_bit 8 g)"
    by (simp_all add: push_bit_eq_mult mask_eq_exp_minus_1)
qed

lemma push_bit_inj_int: "push_bit k x = push_bit k y \<longleftrightarrow> x = (y :: int)"
  by (simp add: push_bit_eq_mult)

lemma drop_horner:
  assumes "list_all (\<lambda>g. 0 \<le> g \<and> g < 65536) xs" "k \<le> length xs"
  shows "drop_bit (k * 16) (horner_sum (\<lambda>g. g) (2 ^ 16) xs) = horner_sum (\<lambda>g. g) (2 ^ 16) (drop k (xs :: int list))"
  using assms
proof (induction xs arbitrary: k)
  case (Cons x xs)
  show ?case
  proof (cases k)
    case (Suc j)
    have "drop_bit 16 (x + 65536 * horner_sum (\<lambda>g. g) 65536 xs) = horner_sum (\<lambda>g. g) (65536 :: int) xs"
      using Cons.prems(1) by (simp add: drop_bit_eq_div)
    then have "drop_bit (j * 16) (drop_bit 16 (horner_sum (\<lambda>g. g) (2 ^ 16) (x # xs))) = drop_bit (j * 16) (horner_sum (\<lambda>g. g) (2 ^ 16) xs)"
      by simp
    then show ?thesis using Cons Suc by (simp add: add.commute)
  qed simp
qed simp


lemma horner_inj:
  assumes "length xs = length ys" "list_all (\<lambda>g. 0 \<le> g \<and> g < 65536) xs" "list_all (\<lambda>g. 0 \<le> g \<and> g < 65536) ys"
  shows "horner_sum (\<lambda>g. g) (2 ^ 16) xs = horner_sum (\<lambda>g. g) (2 ^ 16) ys \<longleftrightarrow> xs = (ys :: int list)"
  using assms
proof (induction xs ys rule: list_induct2)
  case (Cons x xs y ys)
  have "horner_sum (\<lambda>g. g) 65536 xs * 65536 + x = horner_sum (\<lambda>g. g) 65536 ys * 65536 + y \<longleftrightarrow>
      horner_sum (\<lambda>g. g) 65536 xs = horner_sum (\<lambda>g. g) 65536 ys \<and> x = y"
    by (rule digit_pair_eq) (use Cons.prems in auto)
  then show ?case using Cons by (auto simp: algebra_simps)
qed simp

lemma cidr6_groups:
  assumes "groups_ok gs" "groups_ok ns" "k \<le> 8"
  shows "in_cidr6 gs (ns, k * 16) \<longleftrightarrow> take k gs = take k ns"
proof -
  have e: "128 - k * 16 = (8 - k) * 16" using assms(3) by simp
  have "list_all P (rev xs) = list_all P xs" for P and xs :: "int list" by (simp add: list_all_iff)
  then have d: "drop_bit ((8 - k) * 16) (horner_sum (\<lambda>g. g) (2 ^ 16) (rev xs)) =
      horner_sum (\<lambda>g. g) (2 ^ 16) (rev (take k xs))" if "groups_ok xs" for xs
    using drop_horner [of "rev xs" "8 - k"] that assms(3) by (simp add: groups_ok_def rev_take)
  have "list_all P (rev (take k xs))" if "list_all P xs" for P and xs :: "int list"
    using that by (auto simp: list_all_iff dest: in_set_takeD)
  then have "horner_sum (\<lambda>g. g) (2 ^ 16) (rev (take k gs)) = horner_sum (\<lambda>g. g) (2 ^ 16) (rev (take k ns)) \<longleftrightarrow>
      rev (take k gs) = rev (take k ns)"
    using assms by (intro horner_inj) (auto simp: groups_ok_def)
  then show ?thesis unfolding in_cidr6_def snd_conv fst_conv e d [OF assms(1)] d [OF assms(2)]
    by (simp only: rev_is_rev_conv)
qed

lemma cidr6_bits:
  assumes "groups_ok gs" "groups_ok ns" "k \<le> 16"
  shows "in_cidr6 gs (ns, k) \<longleftrightarrow> drop_bit (16 - k) (gs ! 0) = drop_bit (16 - k) (ns ! 0)"
proof -
  have "list_all P (rev xs) = list_all P xs" for P and xs :: "int list" by (simp add: list_all_iff)
  then have d: "drop_bit (7 * 16) (horner_sum (\<lambda>g. g) (2 ^ 16) (rev xs)) = xs ! 0" if "groups_ok xs" for xs
    using drop_horner [of "rev xs" 7] that
    by (cases xs) (auto simp: groups_ok_def drop_rev)
  have e: "128 - k = (16 - k) + 7 * 16" using assms(3) by simp
  show ?thesis unfolding in_cidr6_def snd_conv fst_conv e
    by (simp only: drop_bit_drop_bit [symmetric] d assms)
qed

lemma cidr6_lengths:
  assumes "groups_ok gs" "groups_ok ns"
  shows "in_cidr6 gs (ns, 96) \<longleftrightarrow> take 6 gs = take 6 ns"
    "in_cidr6 gs (ns, 64) \<longleftrightarrow> take 4 gs = take 4 ns"
    "in_cidr6 gs (ns, 32) \<longleftrightarrow> take 2 gs = take 2 ns"
    "in_cidr6 gs (ns, 16) \<longleftrightarrow> gs ! 0 = ns ! 0"
    "in_cidr6 gs (ns, 10) \<longleftrightarrow> drop_bit 6 (gs ! 0) = drop_bit 6 (ns ! 0)"
    "in_cidr6 gs (ns, 8) \<longleftrightarrow> drop_bit 8 (gs ! 0) = drop_bit 8 (ns ! 0)"
    "in_cidr6 gs (ns, 7) \<longleftrightarrow> drop_bit 9 (gs ! 0) = drop_bit 9 (ns ! 0)"
  using cidr6_groups [OF assms, of 6] cidr6_groups [OF assms, of 4] cidr6_groups [OF assms, of 2]
    cidr6_bits [OF assms, of 16] cidr6_bits [OF assms, of 10] cidr6_bits [OF assms, of 8]
    cidr6_bits [OF assms, of 7] by simp_all

lemma v6_mask_blocks:
  assumes "0 \<le> g0" "g0 < 65536"
  shows "g0 AND 0xffc0 = 0xfe80 \<longleftrightarrow> drop_bit 6 g0 = (0x3fa :: int)"
    "g0 AND 0xffc0 = 0xfec0 \<longleftrightarrow> drop_bit 6 g0 = 0x3fb"
    "g0 AND 0xfe00 = 0xfc00 \<longleftrightarrow> drop_bit 9 g0 = 0x7e"
    "g0 AND 0xff00 = 0xff00 \<longleftrightarrow> drop_bit 8 g0 = 0xff"
  using push_bit_inj_int [of 6 "drop_bit 6 g0" "0x3fa"] push_bit_inj_int [of 6 "drop_bit 6 g0" "0x3fb"]
    push_bit_inj_int [of 9 "drop_bit 9 g0" "0x7e"] push_bit_inj_int [of 8 "drop_bit 8 g0" "0xff"]
  by (simp_all add: v6_mask [OF assms])

lemma groupsToIpv4_dotted:
  assumes "0 \<le> h" "h < 65536" "0 \<le> l" "l < 65536"
  shows "isBlockedIpv4 (groupsToIpv4 h l) = group_octets h l"
proof -
  let ?a = "word_of_int (drop_bit 8 h) :: 8 word" and ?b = "word_of_int (take_bit 8 h) :: 8 word"
  let ?c = "word_of_int (drop_bit 8 l) :: 8 word" and ?d = "word_of_int (take_bit 8 l) :: 8 word"
  have m: "x AND 0xff = take_bit 8 x" for x :: int by (simp add: take_bit_eq_mask mask_eq_exp_minus_1)
  have t: "take_bit 8 (drop_bit 8 x) = drop_bit 8 x" if "0 \<le> x" "x < 65536" for x :: int
    using that by (auto simp: take_bit_int_eq_self_iff drop_bit_eq_div)
  have u: "uint (word_of_int (drop_bit 8 x) :: 8 word) = drop_bit 8 x"
      "uint (word_of_int (take_bit 8 x) :: 8 word) = take_bit 8 x" if "0 \<le> x" "x < 65536" for x
    using t that by (simp_all add: uint_word_of_int_eq)
  have v: "unat (word_of_int (drop_bit 8 x) :: 8 word) = nat (drop_bit 8 x)"
      "unat (word_of_int (take_bit 8 x) :: 8 word) = nat (take_bit 8 x)" if "0 \<le> x" "x < 65536" for x
    using u [OF that] nat_uint_eq by metis+
  have s: "drop_bit 8 x * 256 + take_bit 8 x = x" for x :: int
    by (simp add: drop_bit_eq_div take_bit_eq_mod)
  have "groupsToIpv4 h l = dotted ?a ?b ?c ?d"
    using v assms by (simp only: groupsToIpv4_def dotted_def m t list.map)
  moreover have "ipv4_number ?a ?b ?c ?d = h * 65536 + l"
    using u assms s [of h] s [of l] by (simp add: ipv4_number_def)
  ultimately show ?thesis
    using isBlockedIpAddress_dotted [of ?a ?b ?c ?d] isIP_dotted [of ?a ?b ?c ?d]
    by (simp add: group_octets_def isBlockedIpAddress_def)
qed


lemma expandIpv6_groups_ok:
  assumes "expandIpv6 s = Some gs"
  shows "groups_ok gs"
  using assms parseGroups_bounds
  by (auto simp: expandIpv6_def groups_ok_def Let_def list_all_iff split: if_splits option.splits prod.splits)

text \<open>The chain of tests of the code against the policy, for the groups the parser produces.\<close>

lemma blocked_groups_chain:
  assumes "groups_ok [g0, g1, g2, g3, g4, g5, g6, g7]"
  shows "blocked_groups [g0, g1, g2, g3, g4, g5, g6, g7] =
    (if g0 = 0 \<and> g1 = 0 \<and> g2 = 0 \<and> g3 = 0 \<and> g4 = 0 \<and> g5 = 0 then True
     else if g5 = 0xffff then group_octets g6 g7
     else if g0 = 0x64 \<and> g1 = 0xff9b \<and> g2 = 0 \<and> g3 = 0 \<and> g4 = 0 \<and> g5 = 0 then group_octets g6 g7
     else if g0 = 0x2002 then group_octets g1 g2
     else list_ex (in_cidr6 [g0, g1, g2, g3, g4, g5, g6, g7]) BLOCKED_V6)" (is "_ = ?rhs")
proof -
  let ?gs = "[g0, g1, g2, g3, g4, g5, g6, g7]"
  have b: "0 \<le> g0" "g0 < 65536" "0 \<le> g1" "g1 < 65536" "0 \<le> g2" "g2 < 65536" "0 \<le> g6" "g6 < 65536"
    "0 \<le> g7" "g7 < 65536" using assms by (simp_all add: groups_ok_def)
  have emb: "isBlockedIpv4 (groupsToIpv4 g6 g7) = group_octets g6 g7"
     "isBlockedIpv4 (groupsToIpv4 g1 g2) = group_octets g1 g2"
    using groupsToIpv4_dotted b by blast+
  have ch: "(if p then True else q) = (p \<or> q)" for p q by simp
  have blocks: "list_ex (in_cidr6 ?gs) BLOCKED_V6 \<longleftrightarrow> g0 = 0x2001 \<and> g1 = 0 \<or> g0 AND 0xffc0 = 0xfe80 \<or>
      g0 AND 0xffc0 = 0xfec0 \<or> g0 AND 0xfe00 = 0xfc00 \<or> g0 AND 0xff00 = 0xff00 \<or> g0 = 0x2001 \<and> g1 = 0xdb8 \<or>
      g0 = 0x100 \<and> g1 = 0 \<and> g2 = 0 \<and> g3 = 0"
    by (simp add: BLOCKED_V6_def cidr6_lengths [OF assms] groups_ok_def v6_mask_blocks [OF b(1,2)])
  have "blocked_groups ?gs = (if list_all (\<lambda>g. g = 0) ?gs then True else ?rhs)"
    unfolding blocked_groups_def Let_def blocks
    by (simp only: emb nth_Cons_0 nth_Cons_numeral One_nat_def nth_Cons_Suc ch simp_thms
        diff_numeral_special pred_numeral_simps BitM.simps numeral_3_eq_3)
       (simp add: emb ch del: if_split)
  then show ?thesis by auto
qed

lemma blocked_groups_policy:
  assumes ok: "groups_ok gs" and mapped: "gs ! 5 = 0xffff \<longrightarrow> take 5 gs = [0, 0, 0, 0, 0]"
  shows "blocked_groups gs = ipv6_policy gs"
proof -
  obtain g0 g1 g2 g3 g4 g5 g6 g7 where gs: "gs = [g0, g1, g2, g3, g4, g5, g6, g7]"
    using ok by (auto simp: groups_ok_def length_Suc_conv numeral_eq_Suc)
  have pol: "ipv6_policy gs = (if g0 = 0 \<and> g1 = 0 \<and> g2 = 0 \<and> g3 = 0 \<and> g4 = 0 \<and> g5 = 0 then True
      else if (g0 = 0 \<and> g1 = 0 \<and> g2 = 0 \<and> g3 = 0 \<and> g4 = 0 \<and> g5 = 0xffff) \<or>
        (g0 = 0x64 \<and> g1 = 0xff9b \<and> g2 = 0 \<and> g3 = 0 \<and> g4 = 0 \<and> g5 = 0) then group_octets g6 g7
      else if g0 = 0x2002 then group_octets g1 g2 else list_ex (in_cidr6 gs) BLOCKED_V6)"
    unfolding ipv6_policy_def by (simp add: cidr6_lengths [OF ok] groups_ok_def) (auto simp: gs)
  have m: "g5 = 0xffff \<Longrightarrow> g0 = 0 \<and> g1 = 0 \<and> g2 = 0 \<and> g3 = 0 \<and> g4 = 0" using mapped by (simp add: gs)
  show ?thesis unfolding pol unfolding gs using m blocked_groups_chain [OF ok [unfolded gs]] by auto
qed


section \<open>Properties\<close>

definition reachable_hosts ::
  "string option \<Rightarrow> (string \<Rightarrow> string list option) \<Rightarrow> (string \<Rightarrow> string list option) option \<Rightarrow> string \<Rightarrow> string set" where
  \<comment> \<open>the addresses a request to a host may go to: the host itself when it is a literal, what the
     resolver in force answered otherwise\<close>
  "reachable_hosts env_var dns resolve host =
     (case ipLiteralOf host of
        Some literal \<Rightarrow> {literal}
      | None \<Rightarrow> (case (case resolve of Some r \<Rightarrow> r host | None \<Rightarrow> dns host) of
          None \<Rightarrow> {} | Some addresses \<Rightarrow> set addresses))"

lemma assertSafe_Inr:
  assumes "assertSafeWebhookUrl parse raw = Inr u"
  shows "parse raw = Some u \<and> protocol u \<in> set ALLOWED_PROTOCOLS \<and> username u = [] \<and> password u = [] \<and>
    port u \<noteq> ''0'' \<and> normalizeHostname (hostname u) \<noteq> [] \<and>
    (case ipLiteralOf (normalizeHostname (hostname u)) of
       Some l \<Rightarrow> \<not> isBlockedIpAddress l | None \<Rightarrow> \<not> isBlockedHostname (normalizeHostname (hostname u)))"
  using assms by (auto simp: assertSafeWebhookUrl_def Let_def split: option.splits if_splits)

lemma validate_Inr:
  assumes "validateWebhookUrl parse env_var dns resolve raw = Inr u"
  shows "assertSafeWebhookUrl parse raw = Inr u \<and>
    (ipLiteralOf (normalizeHostname (hostname u)) \<noteq> None \<or> (resolve = None \<and> \<not> dnsCheckEnabled env_var) \<or>
     (\<exists>as. (case resolve of Some r \<Rightarrow> r (normalizeHostname (hostname u)) | None \<Rightarrow> dns (normalizeHostname (hostname u))) = Some as \<and>
        as \<noteq> [] \<and> (\<forall>a\<in>set as. \<not> isBlockedIpAddress a)))"
  using assms
  by (auto simp: validateWebhookUrl_def Let_def find_None_iff split: sum.splits option.splits if_splits)

text \<open>
  C37. An IPv4 literal is refused exactly when it lies in one of the thirteen networks the guard
  names (this network, private, loopback, link-local with the metadata service, shared, IETF,
  documentation, benchmarking, multicast and reserved): the octet comparisons of the code are the
  CIDR test, for every address.
\<close>

theorem ipv4_guard_is_cidr:
  "isBlockedIpAddress (dotted a b c d) \<longleftrightarrow> list_ex (in_cidr (ipv4_number a b c d)) BLOCKED_V4"
  by (rule isBlockedIpAddress_dotted)

text \<open>
  An IPv6 literal, however it is abbreviated, is refused exactly when the policy refuses its
  eight groups: reserved networks always, IPv4-mapped, NAT64 and 6to4 addresses by the IPv4 address
  they embed. The condition excludes only the addresses whose sixth group is ffff without being
  IPv4-mapped, which the code takes for IPv4-mapped.
\<close>

theorem ipv6_guard_is_policy:
  assumes "isIP s = 6" "expandIpv6 s = Some gs" "gs ! 5 = 0xffff \<longrightarrow> take 5 gs = [0, 0, 0, 0, 0]"
  shows "isBlockedIpAddress s \<longleftrightarrow> ipv6_policy gs"
  using assms blocked_groups_policy [OF expandIpv6_groups_ok]
  by (simp add: isBlockedIpAddress_def isBlockedIpv6_def)

theorem ipv6_guard_is_policy_witness:
  "isBlockedIpAddress ''2002:7f00:1::'' \<longleftrightarrow> ipv6_policy [0x2002, 0x7f00, 1, 0, 0, 0, 0, 0]"
proof -
  have "isIP ''2002:7f00:1::'' = 6"
    "expandIpv6 ''2002:7f00:1::'' = Some [0x2002, 0x7f00, 1, 0, 0, 0, 0, 0]" by code_simp+
  then show ?thesis using ipv6_guard_is_policy [of "''2002:7f00:1::''" "[0x2002, 0x7f00, 1, 0, 0, 0, 0, 0]"]
    by simp
qed

text \<open>
  The guard can be passed with a link-local address: \<^verbatim>\<open>fe80::ffff:808:808\<close> lies in fe80::/10,
  which the policy refuses, but its sixth group is ffff and the code judges it as the IPv4 address
  8.8.8.8 without looking at the five groups before.
\<close>

theorem link_local_accepted:
  "\<not> isBlockedIpAddress ''fe80::ffff:808:808'' \<and>
   expandIpv6 ''fe80::ffff:808:808'' = Some [0xfe80, 0, 0, 0, 0, 0xffff, 0x808, 0x808] \<and>
   ipv6_policy [0xfe80, 0, 0, 0, 0, 0xffff, 0x808, 0x808]"
proof (intro conjI)
  show "\<not> isBlockedIpAddress ''fe80::ffff:808:808''"
    "expandIpv6 ''fe80::ffff:808:808'' = Some [0xfe80, 0, 0, 0, 0, 0xffff, 0x808, 0x808]" by code_simp+
  have "groups_ok [0xfe80, 0, 0, 0, 0, 0xffff, 0x808, 0x808]" by (simp add: groups_ok_def)
  then show "ipv6_policy [0xfe80, 0, 0, 0, 0, 0xffff, 0x808, 0x808]"
    by (simp add: ipv6_policy_def cidr6_lengths BLOCKED_V6_def groups_ok_def)
qed

text \<open>What the two parts of the guard accept.\<close>

lemma accepted_address:
  assumes "\<not> isBlockedIpAddress x"
  shows "(\<exists>a b c d. x = dotted a b c d \<and> \<not> list_ex (in_cidr (ipv4_number a b c d)) BLOCKED_V4) \<or>
    (\<exists>gs. isIP x = 6 \<and> expandIpv6 x = Some gs \<and>
       (\<not> ipv6_policy gs \<or> gs ! 5 = 0xffff \<and> take 5 gs \<noteq> [0, 0, 0, 0, 0]))"
proof (cases "isIP x = 4")
  case True
  then obtain a b c d where x: "x = dotted a b c d" using isIPv4_dotted [of x] by (auto simp: isIP_def split: if_splits)
  then show ?thesis using assms isBlockedIpAddress_dotted by blast
next
  case False
  then have six: "isIP x = 6" "\<not> isBlockedIpv6 x" using assms by (auto simp: isBlockedIpAddress_def split: if_splits)
  then obtain gs where gs: "expandIpv6 x = Some gs" "\<not> blocked_groups gs" by (auto simp: isBlockedIpv6_def split: option.splits)
  then show ?thesis using six blocked_groups_policy [OF expandIpv6_groups_ok [OF gs(1)]] by blast
qed

text \<open>
  C38. With the DNS check switched on, or a resolver injected, a webhook URL that the full guard accepts uses http or
  https and no port 0, carries no credentials, and names its host by an address or by a name with a dot that is none of
  the blocked names and ends in none of the blocked suffixes. It can reach some address (the literal in the URL, or
  those that the resolver gives for the name when the guard asks), and each of them is an IPv4 address outside of the refused
  networks or an IPv6 address that the policy does not refuse, except for the IPv6 addresses whose sixth group is ffff
  without being IPv4-mapped. This holds for every URL parser and every resolver.
\<close>

theorem accepted_webhook_is_public:
  assumes "validateWebhookUrl parse env_var dns resolve raw = Inr u"
    "resolve \<noteq> None \<or> dnsCheckEnabled env_var"
  defines "host \<equiv> normalizeHostname (hostname u)"
  shows "protocol u \<in> {''http:'', ''https:''} \<and> username u = [] \<and> password u = [] \<and> port u \<noteq> ''0'' \<and>
    (ipLiteralOf host \<noteq> None \<or> host \<notin> set BLOCKED_HOSTNAMES \<and>
       (\<forall>s\<in>set BLOCKED_HOSTNAME_SUFFIXES. \<not> suffix s host) \<and> CHR ''.'' \<in> set host) \<and>
    reachable_hosts env_var dns resolve host \<noteq> {} \<and>
    (\<forall>x\<in>reachable_hosts env_var dns resolve host.
       (\<exists>a b c d. x = dotted a b c d \<and> \<not> list_ex (in_cidr (ipv4_number a b c d)) BLOCKED_V4) \<or>
       (\<exists>gs. isIP x = 6 \<and> expandIpv6 x = Some gs \<and>
          (\<not> ipv6_policy gs \<or> gs ! 5 = 0xffff \<and> take 5 gs \<noteq> [0, 0, 0, 0, 0])))"
proof -
  let ?R = "reachable_hosts env_var dns resolve host"
  note v = validate_Inr [OF assms(1), folded host_def]
    and s = assertSafe_Inr [OF conjunct1 [OF validate_Inr [OF assms(1)]], folded host_def]
  have reach: "?R \<noteq> {} \<and> (\<forall>x\<in>?R. \<not> isBlockedIpAddress x)"
    using v s assms(2) by (auto simp: reachable_hosts_def split: option.splits)
  have name: "ipLiteralOf host \<noteq> None \<or> \<not> isBlockedHostname host" using s by (auto split: option.splits)
  show ?thesis using s reach accepted_address name
    by (auto simp: ALLOWED_PROTOCOLS_def isBlockedHostname_def list_ex_iff)
qed

theorem accepted_webhook_is_public_witness:
  "let u = \<lparr>protocol = ''https:'', username = [], password = [], port = [], hostname = ''a.com''\<rparr>;
       dns = (\<lambda>h. if h = ''a.com'' then Some [''8.8.8.8'', ''2600::1''] else None)
   in reachable_hosts None dns None (normalizeHostname (hostname u)) \<noteq> {}"
proof -
  let ?u = "\<lparr>protocol = ''https:'', username = [], password = [], port = [], hostname = ''a.com''\<rparr>"
  let ?dns = "\<lambda>h. if h = ''a.com'' then Some [''8.8.8.8'', ''2600::1''] else None"
  have "validateWebhookUrl (\<lambda>_. Some ?u) None ?dns None ''https://a.com'' = Inr ?u"
    "dnsCheckEnabled None" by code_simp+
  from accepted_webhook_is_public [OF this(1)] this(2) show ?thesis by (simp add: Let_def)
qed

end
