(* ===== verification/Currency.thy ===== *)
theory Currency
  imports Prelude "HOL-Library.AList"
begin

text \<open>
  Currency conversion (\<^verbatim>\<open>src/services/currency.ts\<close>): the table of fallback rates, the cache of rates
  with its age limit, the refresh from a rate source, and the conversion over units per US dollar.
  The rate source is an argument: \<open>None\<close> is a source that threw. Rates are association lists, as the
  code asks both for a key and for the number of keys.
\<close>

section \<open>The service\<close>

type_synonym exchange_rates = "(string \<times> jsnum) list"

definition SUPPORTED_CURRENCIES :: "string list" where
  "SUPPORTED_CURRENCIES = [''USD'', ''XAF'', ''NGN'', ''KES'', ''GHS'', ''TZS'', ''ZMW'', ''RWF'', ''GNF'', ''MGA'']"

definition BASE_CURRENCY :: string where
  "BASE_CURRENCY = ''USD''"

definition FALLBACK_RATES :: exchange_rates where
  "FALLBACK_RATES = [(''USD'', Fin 1), (''XAF'', Fin 600), (''NGN'', Fin 1550), (''KES'', Fin 130),
     (''GHS'', Fin 15), (''TZS'', Fin 2600), (''ZMW'', Fin 27), (''RWF'', Fin 1320), (''GNF'', Fin 8500),
     (''MGA'', Fin 4500)]"

record ConversionResult =
  originalAmount :: jsnum
  originalCurrency :: string
  convertedAmount :: jsnum
  baseCurrency :: string
  rate :: jsnum

type_synonym rate_source = "string list \<Rightarrow> exchange_rates option"

record currency_state =
  cs_cache :: "(exchange_rates \<times> millis) option"
  cs_usingFallback :: bool
  cs_rateSource :: "rate_source option"

datatype currency_error = NegativeAmount | NoSourceRate string | NoDestinationRate string

definition cacheTtlMs :: millis where
  "cacheTtlMs = 60 * 60 * 1000"

definition setRateSource :: "rate_source option \<Rightarrow> currency_state \<Rightarrow> currency_state" where
  "setRateSource source s = s\<lparr>cs_rateSource := source\<rparr>"

definition isSupportedCurrency :: "string \<Rightarrow> bool" where
  "isSupportedCurrency c \<longleftrightarrow> c \<in> set SUPPORTED_CURRENCIES"

definition isStale :: "millis \<Rightarrow> currency_state \<Rightarrow> bool" where
  "isStale now s = (case cs_cache s of None \<Rightarrow> True | Some (_, fetchedAt) \<Rightarrow> cacheTtlMs < now - fetchedAt)"

definition getRates :: "millis \<Rightarrow> currency_state \<Rightarrow> exchange_rates" where
  "getRates now s = (case cs_cache s of
     Some (rates, _) \<Rightarrow> if \<not> isStale now s then rates else FALLBACK_RATES
   | None \<Rightarrow> FALLBACK_RATES)"

definition convert :: "exchange_rates \<Rightarrow> jsnum \<Rightarrow> string \<Rightarrow> string \<Rightarrow> currency_error + ConversionResult" where
  "convert rates amount from to =
     (if js_lt amount (Fin 0) then Inl NegativeAmount
      else case map_of rates from of
        None \<Rightarrow> Inl (NoSourceRate from)
      | Some rateInUsd \<Rightarrow>
          (case map_of rates to of
             None \<Rightarrow> Inl (NoDestinationRate to)
           | Some rateOutUsd \<Rightarrow>
               let effectiveRate = js_div rateOutUsd rateInUsd
               in Inr \<lparr>originalAmount = amount, originalCurrency = from,
                       convertedAmount = js_mul amount effectiveRate,
                       baseCurrency = BASE_CURRENCY, rate = effectiveRate\<rparr>))"

definition convertToBase :: "exchange_rates \<Rightarrow> jsnum \<Rightarrow> string \<Rightarrow> currency_error + ConversionResult" where
  "convertToBase rates amount from = convert rates amount from BASE_CURRENCY"

definition fetchSourceRates :: "currency_state \<Rightarrow> exchange_rates" where
  "fetchSourceRates s = (case cs_rateSource s of
     None \<Rightarrow> []
   | Some source \<Rightarrow> (case source SUPPORTED_CURRENCIES of Some rates \<Rightarrow> rates | None \<Rightarrow> []))"

definition fetchRates :: "millis \<Rightarrow> currency_state \<Rightarrow> currency_state" where
  "fetchRates now s =
     (let sourceRates = fetchSourceRates s
      in s\<lparr>cs_usingFallback := (sourceRates = []),
           cs_cache := Some (AList.merge FALLBACK_RATES sourceRates, now)\<rparr>)"

definition initial_currency_state :: currency_state where
  "initial_currency_state = \<lparr>cs_cache = None, cs_usingFallback = False, cs_rateSource = None\<rparr>"

section \<open>Histories of the cache\<close>

datatype currency_op = SetSource "rate_source option" | Refresh millis

primrec currency_op_step :: "currency_op \<Rightarrow> currency_state \<Rightarrow> currency_state" where
  "currency_op_step (SetSource r) s = setRateSource r s"
| "currency_op_step (Refresh now) s = fetchRates now s"

definition rates_complete :: "exchange_rates \<Rightarrow> bool" where
  "rates_complete rates \<longleftrightarrow> (\<forall>c\<in>set SUPPORTED_CURRENCIES. map_of rates c \<noteq> None)"

lemma fallback_complete [simp]: "rates_complete FALLBACK_RATES"
  by (simp add: rates_complete_def SUPPORTED_CURRENCIES_def FALLBACK_RATES_def)

lemma merge_complete: "rates_complete FALLBACK_RATES \<Longrightarrow> rates_complete (AList.merge FALLBACK_RATES r)"
  by (auto simp: rates_complete_def merge_conv')

lemma cache_complete:
  "cs_cache (fold currency_op_step ops initial_currency_state) = Some (rates, t) \<Longrightarrow> rates_complete rates"
proof (induction ops arbitrary: rates t rule: rev_induct)
  case (snoc x xs)
  then show ?case
    by (cases x) (auto simp: setRateSource_def fetchRates_def Let_def merge_complete)
qed (simp add: initial_currency_state_def)

section \<open>Properties\<close>

lemma rates_in_force_complete: "rates_complete (getRates now (fold currency_op_step ops initial_currency_state))"
  using cache_complete by (auto simp: getRates_def split: option.split)

text \<open>
  A conversion between supported currencies never fails for want of a rate, whatever the rate
  sources answered and whenever the cache was refreshed: it fails only for a negative amount, and
  otherwise multiplies by the quotient of the two rates in force.
\<close>

theorem convert_total:
  assumes "isSupportedCurrency from" "isSupportedCurrency to"
  shows "let rates = getRates now (fold currency_op_step ops initial_currency_state) in
    convert rates amount from to =
      (if js_lt amount (Fin 0) then Inl NegativeAmount
       else let q = js_div (the (map_of rates to)) (the (map_of rates from)) in
         Inr \<lparr>originalAmount = amount, originalCurrency = from, convertedAmount = js_mul amount q,
              baseCurrency = ''USD'', rate = q\<rparr>)"
  using rates_in_force_complete [of now ops] assms
  by (auto simp: convert_def rates_complete_def isSupportedCurrency_def Let_def BASE_CURRENCY_def
      split: option.split)

theorem convert_total_witness:
  "convert (getRates 5 (fold currency_op_step [Refresh 1] initial_currency_state)) (Fin 600) ''XAF'' ''USD'' =
     Inr \<lparr>originalAmount = Fin 600, originalCurrency = ''XAF'',
       convertedAmount = js_mul (Fin 600) (js_div (Fin 1) (Fin 600)), baseCurrency = ''USD'',
       rate = js_div (Fin 1) (Fin 600)\<rparr>"
proof -
  have r: "map_of (getRates 5 (fold currency_op_step [Refresh 1] initial_currency_state)) ''USD'' = Some (Fin 1)"
    "map_of (getRates 5 (fold currency_op_step [Refresh 1] initial_currency_state)) ''XAF'' = Some (Fin 600)"
    by code_simp+
  have "isSupportedCurrency ''XAF''" "isSupportedCurrency ''USD''" by code_simp+
  from convert_total [OF this, of 5 "[Refresh 1]" "Fin 600"] show ?thesis
    by (simp only: Let_def r option.sel js_lt.simps) simp
qed

text \<open>
  Rates older than an hour are never used: when the cache is empty or past its age limit the
  fallback table is in force, and within the hour after a refresh a currency has the source's rate
  if the source gave one and its fallback rate otherwise.
\<close>

theorem rates_fresh_or_fallback:
  "(isStale now s \<longrightarrow> getRates now s = FALLBACK_RATES) \<and>
   (0 \<le> d \<and> d \<le> 60 * 60 * 1000 \<longrightarrow>
      map_of (getRates (t + d) (fetchRates t s)) = map_of FALLBACK_RATES ++ map_of (fetchSourceRates s))"
  by (auto simp: getRates_def isStale_def fetchRates_def Let_def cacheTtlMs_def merge_conv' split: option.split)

theorem rates_fresh_or_fallback_witness:
  "map_of (getRates 3600001 (fetchRates 1 initial_currency_state)) ''XAF'' = Some (Fin 600)"
proof -
  have "map_of (getRates (1 + 3600000) (fetchRates 1 initial_currency_state)) =
      map_of FALLBACK_RATES ++ map_of (fetchSourceRates initial_currency_state)"
    using rates_fresh_or_fallback [of 0 initial_currency_state 3600000 1] by simp
  then show ?thesis
    by (simp add: fetchSourceRates_def initial_currency_state_def FALLBACK_RATES_def)
qed

end
