(* ===== verification/Ledger.thy ===== *)
theory Ledger
  imports Currency Decimal "HOL-Library.Product_Lexorder" "HOL-Library.List_Lexorder" "HOL-Library.Char_ord"
begin

text \<open>
  The double-entry ledger (\<^verbatim>\<open>src/services/ledgerService.ts\<close>): validation of entries, posting through the
  database function \<^verbatim>\<open>post_transaction\<close>, the postings of deposits, withdrawals, refunds, clawbacks and
  provider fees, and keyset pagination of an account's entries. The database function and the
  constraints of its table are those of \<^verbatim>\<open>migrations/20260423_create_double_entry_ledger.sql\<close> as
  replaced by \<^verbatim>\<open>migrations/20260529_add_settlement_delay.sql\<close>.

  Amounts are JavaScript numbers until they reach the database and integers in units of the seventh
  decimal place there (\<^verbatim>\<open>DECIMAL(20, 7)\<close>). The identifiers the database draws and the settlement delay
  of a user are arguments. A calendar day is an integer and a timestamp is in microseconds.
\<close>

section \<open>Entries and tables\<close>

type_synonym metadata = "(string \<times> jsval) list"

record LedgerEntry =
  account_code :: string
  debit_amount :: "jsnum option"
  credit_amount :: "jsnum option"
  entry_description :: "string option"
  entry_metadata :: "metadata option"
  settlement_date :: "int option"

datatype posting_description =
    DepositOf jsnum string jsnum
  | WithdrawalOf jsnum string jsnum
  | RefundOf jsnum string
  | ClawbackOf jsnum string
  | ProviderFeeOf jsnum
  | OtherPosting string

record account =
  acc_code :: string
  acc_debit_normal :: bool
  acc_active :: bool

record ledger_row =
  lr_id :: id
  lr_account :: string
  lr_debit :: int
  lr_credit :: int
  lr_transaction :: "id option"
  lr_reference :: string
  lr_description :: posting_description
  lr_posted_by :: "id option"
  lr_metadata :: metadata
  lr_settlement :: int
  lr_entry_date :: int
  lr_created_at :: int

record ledger =
  l_accounts :: "account list"
  l_rows :: "ledger_row list"

record PostedEntry =
  pe_entry_id :: id
  pe_account_code :: string
  pe_debit :: int
  pe_credit :: int

record clock =
  today :: int
  micros :: int

datatype sql_error =
    EntriesRequired
  | TwoEntriesRequired
  | AccountNotFound string
  | SqlNotBalanced int int
  | SqlZeroAmounts
  | NumericOverflow
  | CheckViolation
  | ReferenceTooLong

datatype ledger_error =
    TooFewEntries
  | NotOneSided nat
  | NotBalanced jsnum jsnum
  | ZeroAmounts
  | ConversionFailed currency_error
  | SqlFailed sql_error

section \<open>Validation\<close>

definition LEDGER_BALANCE_TOLERANCE :: jsnum where
  "LEDGER_BALANCE_TOLERANCE = num (1 / 10 ^ 7)"

definition or_zero :: "jsnum option \<Rightarrow> jsnum" where
  \<comment> \<open>\<^verbatim>\<open>x || 0\<close>\<close>
  "or_zero x = (case x of None \<Rightarrow> Fin 0 | Some n \<Rightarrow> if js_truthy n then n else Fin 0)"

fun entry_totals :: "nat \<Rightarrow> jsnum \<times> jsnum \<Rightarrow> LedgerEntry list \<Rightarrow> ledger_error + (jsnum \<times> jsnum)" where
  "entry_totals i t [] = Inr t"
| "entry_totals i (td, tc) (e # es) =
     (let debitAmount = or_zero (debit_amount e);
          creditAmount = or_zero (credit_amount e);
          hasDebit = js_lt (Fin 0) debitAmount;
          hasCredit = js_lt (Fin 0) creditAmount
      in if hasDebit = hasCredit then Inl (NotOneSided (i + 1))
         else entry_totals (i + 1) (js_add td debitAmount, js_add tc creditAmount) es)"

definition validateLedgerEntries :: "LedgerEntry list \<Rightarrow> ledger_error + unit" where
  "validateLedgerEntries entries =
     (if length entries < 2 then Inl TooFewEntries
      else case entry_totals 0 (Fin 0, Fin 0) entries of
        Inl e \<Rightarrow> Inl e
      | Inr (totalDebits, totalCredits) \<Rightarrow>
          if js_lt LEDGER_BALANCE_TOLERANCE (js_abs (js_sub totalDebits totalCredits))
          then Inl (NotBalanced totalDebits totalCredits)
          else if js_le totalDebits LEDGER_BALANCE_TOLERANCE then Inl ZeroAmounts
          else Inr ())"

section \<open>The database function\<close>

definition decimal_cast :: "jsnum option \<Rightarrow> sql_error + int" where
  \<comment> \<open>\<^verbatim>\<open>COALESCE((v_entry->>'debit_amount')::DECIMAL(20, 7), 0)\<close>; a missing field is not printed, and
     \<^verbatim>\<open>JSON.stringify\<close> prints a number that is not finite as null\<close>
  "decimal_cast x = (case x of
     Some (Fin a) \<Rightarrow> (let u = sql_units (decimal_value a) in if sql_fits u then Inr u else Inl NumericOverflow)
   | _ \<Rightarrow> Inr 0)"

definition active_account :: "account list \<Rightarrow> string \<Rightarrow> bool" where
  "active_account accs c \<longleftrightarrow> list_ex (\<lambda>a. acc_code a = c \<and> acc_active a) accs"

fun sql_totals :: "account list \<Rightarrow> int \<times> int \<Rightarrow> LedgerEntry list \<Rightarrow> sql_error + (int \<times> int)" where
  "sql_totals accs t [] = Inr t"
| "sql_totals accs (td, tc) (e # es) =
     (if \<not> active_account accs (account_code e) then Inl (AccountNotFound (account_code e))
      else case decimal_cast (debit_amount e) of
        Inl err \<Rightarrow> Inl err
      | Inr d \<Rightarrow>
          if \<not> sql_fits (td + d) then Inl NumericOverflow
          else (case decimal_cast (credit_amount e) of
            Inl err \<Rightarrow> Inl err
          | Inr c \<Rightarrow>
              if \<not> sql_fits (tc + c) then Inl NumericOverflow
              else sql_totals accs (td + d, tc + c) es))"

definition row_check :: "ledger_row \<Rightarrow> bool" where
  \<comment> \<open>the constraints of the table\<close>
  "row_check r \<longleftrightarrow> 0 \<le> lr_debit r \<and> 0 \<le> lr_credit r \<and>
     ((0 < lr_debit r \<and> lr_credit r = 0) \<or> (0 < lr_credit r \<and> lr_debit r = 0))"

definition new_row ::
  "(nat \<Rightarrow> id) \<Rightarrow> clock \<Rightarrow> string \<Rightarrow> posting_description \<Rightarrow> id option \<Rightarrow> id option \<Rightarrow> nat \<Rightarrow> LedgerEntry \<Rightarrow>
   int \<Rightarrow> int \<Rightarrow> ledger_row" where
  "new_row gen clk ref descr txid by n e d c =
     \<lparr>lr_id = gen n, lr_account = account_code e, lr_debit = d, lr_credit = c, lr_transaction = txid,
      lr_reference = ref,
      lr_description = (case entry_description e of None \<Rightarrow> descr | Some s \<Rightarrow> OtherPosting s),
      lr_posted_by = by,
      lr_metadata = (case entry_metadata e of None \<Rightarrow> [] | Some m \<Rightarrow> m),
      lr_settlement = (case settlement_date e of None \<Rightarrow> today clk | Some day \<Rightarrow> day),
      lr_entry_date = today clk, lr_created_at = micros clk\<rparr>"

fun insert_rows ::
  "(nat \<Rightarrow> id) \<Rightarrow> clock \<Rightarrow> string \<Rightarrow> posting_description \<Rightarrow> id option \<Rightarrow> id option \<Rightarrow> LedgerEntry list \<Rightarrow> ledger_row list \<Rightarrow>
   sql_error + (PostedEntry list \<times> ledger_row list)" where
  "insert_rows gen clk ref descr txid by [] rows = Inr ([], rows)"
| "insert_rows gen clk ref descr txid by (e # es) rows =
     (case (decimal_cast (debit_amount e), decimal_cast (credit_amount e)) of
        (Inr d, Inr c) \<Rightarrow>
          let r = new_row gen clk ref descr txid by (length rows) e d c in
          if 50 < length ref then Inl ReferenceTooLong
          else if \<not> row_check r then Inl CheckViolation
          else (case insert_rows gen clk ref descr txid by es (rows @ [r]) of
                  Inl err \<Rightarrow> Inl err
                | Inr (ps, rows') \<Rightarrow>
                    Inr (\<lparr>pe_entry_id = lr_id r, pe_account_code = account_code e, pe_debit = d,
                           pe_credit = c\<rparr> # ps, rows'))
      | _ \<Rightarrow> Inl NumericOverflow)"

definition sql_post_transaction ::
  "(nat \<Rightarrow> id) \<Rightarrow> clock \<Rightarrow> string \<Rightarrow> posting_description \<Rightarrow> id option \<Rightarrow> id option \<Rightarrow> LedgerEntry list \<Rightarrow> ledger \<Rightarrow>
   sql_error + (PostedEntry list \<times> ledger)" where
  "sql_post_transaction gen clk ref descr txid by entries l =
     (if entries = [] then Inl EntriesRequired
      else if length entries < 2 then Inl TwoEntriesRequired
      else case sql_totals (l_accounts l) (0, 0) entries of
        Inl err \<Rightarrow> Inl err
      | Inr (td, tc) \<Rightarrow>
          if td \<noteq> tc then Inl (SqlNotBalanced td tc)
          else if td = 0 then Inl SqlZeroAmounts
          else (case insert_rows gen clk ref descr txid by entries (l_rows l) of
                  Inl err \<Rightarrow> Inl err
                | Inr (ps, rows) \<Rightarrow> Inr (ps, l\<lparr>l_rows := rows\<rparr>)))"

section \<open>Posting\<close>

definition enrich :: "string option \<Rightarrow> jsnum option \<Rightarrow> LedgerEntry list \<Rightarrow> LedgerEntry list" where
  "enrich cur crate entries = (case (cur, crate) of
     (Some c, Some r) \<Rightarrow>
       if c \<noteq> [] \<and> js_truthy r
       then map (\<lambda>e. e\<lparr>entry_metadata := Some (AList.merge
              (case entry_metadata e of None \<Rightarrow> [] | Some m \<Rightarrow> m)
              [(''currency'', JString c), (''conversionRate'', JNumber r)])\<rparr>) entries
       else entries
   | _ \<Rightarrow> entries)"

definition non_empty :: "id option \<Rightarrow> id option" where
  \<comment> \<open>\<^verbatim>\<open>x || null\<close>\<close>
  "non_empty x = (case x of Some s \<Rightarrow> if s = [] then None else Some s | None \<Rightarrow> None)"

definition postTransaction ::
  "(nat \<Rightarrow> id) \<Rightarrow> clock \<Rightarrow> string \<Rightarrow> posting_description \<Rightarrow> LedgerEntry list \<Rightarrow> id option \<Rightarrow> id option \<Rightarrow>
   string option \<Rightarrow> jsnum option \<Rightarrow> ledger \<Rightarrow> ledger_error + (PostedEntry list \<times> ledger)" where
  \<comment> \<open>an error rolls the database transaction back: the caller keeps the old ledger\<close>
  "postTransaction gen clk ref descr entries txid by cur crate l =
     (case validateLedgerEntries entries of
        Inl e \<Rightarrow> Inl e
      | Inr _ \<Rightarrow>
          (case sql_post_transaction gen clk ref descr (non_empty txid) (non_empty by)
                  (enrich cur crate entries) l of
             Inl e \<Rightarrow> Inl (SqlFailed e)
           | Inr r \<Rightarrow> Inr r))"

definition plain_entry :: "string \<Rightarrow> jsnum option \<Rightarrow> jsnum option \<Rightarrow> string \<Rightarrow> metadata option \<Rightarrow> int option \<Rightarrow> LedgerEntry" where
  "plain_entry code d c descr md sd =
     \<lparr>account_code = code, debit_amount = d, credit_amount = c, entry_description = Some descr,
      entry_metadata = md, settlement_date = sd\<rparr>"

definition conversion_metadata :: "jsnum \<Rightarrow> string \<Rightarrow> jsnum \<Rightarrow> metadata option" where
  "conversion_metadata a cur r = Some [(''originalAmount'', JNumber a), (''originalCurrency'', JString cur),
     (''conversionRate'', JNumber r)]"

definition deposit_entries ::
  "jsnum \<Rightarrow> jsnum \<Rightarrow> string \<Rightarrow> ConversionResult \<Rightarrow> ConversionResult \<Rightarrow> int \<Rightarrow> LedgerEntry list" where
  "deposit_entries amount fee cur ac fc settlementDate =
     [plain_entry ''1100'' (Some (convertedAmount ac)) None ''Customer deposit received''
        (conversion_metadata amount cur (rate ac)) None,
      plain_entry ''2000'' None (Some (js_sub (convertedAmount ac) (convertedAmount fc)))
        ''Customer balance credited'' (conversion_metadata (js_sub amount fee) cur (rate ac))
        (Some settlementDate)] @
     (if js_lt (Fin 0) fee
      then [plain_entry ''4100'' None (Some (convertedAmount fc)) ''Deposit fee earned''
              (conversion_metadata fee cur (rate fc)) None]
      else [])"

definition postDepositWithCurrency ::
  "exchange_rates \<Rightarrow> (id \<Rightarrow> int option) \<Rightarrow> (nat \<Rightarrow> id) \<Rightarrow> clock \<Rightarrow> jsnum \<Rightarrow> jsnum \<Rightarrow> string \<Rightarrow> string \<Rightarrow> id \<Rightarrow>
   id \<Rightarrow> ledger \<Rightarrow> ledger_error + (PostedEntry list \<times> ledger)" where
  "postDepositWithCurrency rates settlementDelayDays gen clk amount fee cur ref txid userId l =
     (let delayDays = (case settlementDelayDays userId of None \<Rightarrow> 0 | Some d \<Rightarrow> d);
          settlementDate = today clk + delayDays
      in case convertToBase rates amount cur of
           Inl e \<Rightarrow> Inl (ConversionFailed e)
         | Inr ac \<Rightarrow>
             (case convertToBase rates fee cur of
                Inl e \<Rightarrow> Inl (ConversionFailed e)
              | Inr fc \<Rightarrow>
                  postTransaction gen clk ref (DepositOf amount cur fee)
                    (deposit_entries amount fee cur ac fc settlementDate) (Some txid) (Some userId)
                    (Some cur) (Some (rate ac)) l))"

definition postDeposit ::
  "exchange_rates \<Rightarrow> (id \<Rightarrow> int option) \<Rightarrow> (nat \<Rightarrow> id) \<Rightarrow> clock \<Rightarrow> jsnum \<Rightarrow> jsnum \<Rightarrow> string \<Rightarrow> id \<Rightarrow> id \<Rightarrow>
   ledger \<Rightarrow> ledger_error + (PostedEntry list \<times> ledger)" where
  "postDeposit rates settlementDelayDays gen clk amount fee ref txid userId =
     postDepositWithCurrency rates settlementDelayDays gen clk amount fee BASE_CURRENCY ref txid userId"

definition withdrawal_entries ::
  "jsnum \<Rightarrow> jsnum \<Rightarrow> string \<Rightarrow> ConversionResult \<Rightarrow> ConversionResult \<Rightarrow> LedgerEntry list" where
  "withdrawal_entries amount fee cur ac fc =
     [plain_entry ''2000'' (Some (js_add (convertedAmount ac) (convertedAmount fc))) None
        ''Customer balance debited'' (conversion_metadata (js_add amount fee) cur (rate ac)) None,
      plain_entry ''1100'' None (Some (convertedAmount ac)) ''Withdrawal paid out''
        (conversion_metadata amount cur (rate ac)) None] @
     (if js_lt (Fin 0) fee
      then [plain_entry ''4200'' None (Some (convertedAmount fc)) ''Withdrawal fee earned''
              (conversion_metadata fee cur (rate fc)) None]
      else [])"

definition postWithdrawalWithCurrency ::
  "exchange_rates \<Rightarrow> (nat \<Rightarrow> id) \<Rightarrow> clock \<Rightarrow> jsnum \<Rightarrow> jsnum \<Rightarrow> string \<Rightarrow> string \<Rightarrow> id \<Rightarrow> id \<Rightarrow> ledger \<Rightarrow>
   ledger_error + (PostedEntry list \<times> ledger)" where
  "postWithdrawalWithCurrency rates gen clk amount fee cur ref txid userId l =
     (case convertToBase rates amount cur of
        Inl e \<Rightarrow> Inl (ConversionFailed e)
      | Inr ac \<Rightarrow>
          (case convertToBase rates fee cur of
             Inl e \<Rightarrow> Inl (ConversionFailed e)
           | Inr fc \<Rightarrow>
               postTransaction gen clk ref (WithdrawalOf amount cur fee)
                 (withdrawal_entries amount fee cur ac fc) (Some txid) (Some userId)
                 (Some cur) (Some (rate ac)) l))"

definition postWithdrawal ::
  "exchange_rates \<Rightarrow> (nat \<Rightarrow> id) \<Rightarrow> clock \<Rightarrow> jsnum \<Rightarrow> jsnum \<Rightarrow> string \<Rightarrow> id \<Rightarrow> id \<Rightarrow> ledger \<Rightarrow>
   ledger_error + (PostedEntry list \<times> ledger)" where
  "postWithdrawal rates gen clk amount fee ref txid userId =
     postWithdrawalWithCurrency rates gen clk amount fee BASE_CURRENCY ref txid userId"

definition postWithdrawalRefund ::
  "(nat \<Rightarrow> id) \<Rightarrow> clock \<Rightarrow> jsnum \<Rightarrow> string \<Rightarrow> id \<Rightarrow> id \<Rightarrow> string \<Rightarrow> string option \<Rightarrow> ledger \<Rightarrow>
   ledger_error + (PostedEntry list \<times> ledger)" where
  "postWithdrawalRefund gen clk amount ref txid userId reason refundHash l =
     (let md = Some ([(''originalReferenceNumber'', JString ref), (''reason'', JString reason)] @
                 (case refundHash of None \<Rightarrow> [] | Some h \<Rightarrow> [(''refundHash'', JString h)]))
      in postTransaction gen clk (''REFUND-'' @ ref) (RefundOf amount reason)
           [plain_entry ''1100'' (Some amount) None ''Failed payout funds returned'' md None,
            plain_entry ''2000'' None (Some amount) ''Customer wallet refund credited'' md None]
           (Some txid) (Some userId) None None l)"

definition postClawback ::
  "(nat \<Rightarrow> id) \<Rightarrow> clock \<Rightarrow> jsnum \<Rightarrow> string \<Rightarrow> id \<Rightarrow> id \<Rightarrow> string \<Rightarrow> ledger \<Rightarrow>
   ledger_error + (PostedEntry list \<times> ledger)" where
  "postClawback gen clk amount ref txid userId reason l =
     postTransaction gen clk ref (ClawbackOf amount reason)
       [plain_entry ''2000'' (Some amount) None (''Clawback: '' @ reason) None None,
        plain_entry ''1100'' None (Some amount) (''Clawback reversal: '' @ ref) None None]
       (Some txid) (Some userId) None None l"

definition postProviderFee ::
  "(nat \<Rightarrow> id) \<Rightarrow> clock \<Rightarrow> jsnum \<Rightarrow> string \<Rightarrow> id \<Rightarrow> ledger \<Rightarrow> ledger_error + (PostedEntry list \<times> ledger)" where
  "postProviderFee gen clk amount ref txid l =
     postTransaction gen clk ref (ProviderFeeOf amount)
       [plain_entry ''5000'' (Some amount) None ''Provider fee expense'' None None,
        plain_entry ''1100'' None (Some amount) ''Provider fee paid'' None None]
       (Some txid) None None None l"

section \<open>Queries\<close>

definition normalizeLimit :: "jsnum \<Rightarrow> jsnum" where
  "normalizeLimit limit =
     (if \<not> js_isFinite limit then js_int 100
      else js_min (js_max (js_trunc limit) (js_int 1)) (js_int 500))"

definition getAccountBalance :: "string \<Rightarrow> int \<Rightarrow> ledger \<Rightarrow> sql_error + int" where
  "getAccountBalance code day l =
     (case find (\<lambda>a. acc_code a = code \<and> acc_active a) (l_accounts l) of
        None \<Rightarrow> Inl (AccountNotFound code)
      | Some a \<Rightarrow>
          let rs = filter (\<lambda>r. lr_account r = code \<and> lr_entry_date r \<le> day) (l_rows l);
              d = sum_list (map lr_debit rs); c = sum_list (map lr_credit rs)
          in Inr (if acc_debit_normal a then d - c else c - d))"

record LedgerBalanceCheck =
  total_debits :: int
  total_credits :: int
  difference :: int
  is_balanced :: bool

definition checkLedgerBalance :: "ledger \<Rightarrow> LedgerBalanceCheck" where
  "checkLedgerBalance l =
     (let d = sum_list (map lr_debit (l_rows l)); c = sum_list (map lr_credit (l_rows l))
      in \<lparr>total_debits = d, total_credits = c, difference = d - c, is_balanced = (d = c)\<rparr>)"

definition getEntriesByTransaction :: "id \<Rightarrow> ledger \<Rightarrow> ledger_row list" where
  "getEntriesByTransaction txid l =
     sort_key lr_created_at (filter (\<lambda>r. lr_transaction r = Some txid) (l_rows l))"

type_synonym entry_key = "int \<times> int \<times> string"

definition row_key :: "ledger_row \<Rightarrow> entry_key" where
  "row_key r = (lr_entry_date r, lr_created_at r, lr_id r)"

definition cursor_of :: "ledger_row \<Rightarrow> entry_key" where
  \<comment> \<open>\<^verbatim>\<open>encodeLedgerEntryCursor\<close>: a \<^verbatim>\<open>Date\<close> holds milliseconds; server and database are taken to run in UTC, where
    its conversion of the entry date is the identity\<close>
  "cursor_of r = (lr_entry_date r, lr_created_at r div 1000 * 1000, lr_id r)"

record LedgerEntryPage =
  pg_entries :: "ledger_row list"
  pg_nextCursor :: "entry_key option"
  pg_hasMore :: bool
  pg_limit :: nat

definition page_rows ::
  "string \<Rightarrow> int option \<Rightarrow> int option \<Rightarrow> entry_key option \<Rightarrow> ledger_row list \<Rightarrow> ledger_row list" where
  \<comment> \<open>the \<^verbatim>\<open>WHERE\<close> and \<^verbatim>\<open>ORDER BY ... DESC\<close> of the query\<close>
  "page_rows code startDate endDate cursor rows =
     rev (sort_key row_key (filter (\<lambda>r. lr_account r = code \<and>
       (case startDate of None \<Rightarrow> True | Some d \<Rightarrow> d \<le> lr_entry_date r) \<and>
       (case endDate of None \<Rightarrow> True | Some d \<Rightarrow> lr_entry_date r \<le> d) \<and>
       (case cursor of None \<Rightarrow> True | Some k \<Rightarrow> row_key r < k)) rows))"

definition getEntriesByAccountPage ::
  "string \<Rightarrow> int option \<Rightarrow> int option \<Rightarrow> nat \<Rightarrow> entry_key option \<Rightarrow> ledger \<Rightarrow> LedgerEntryPage" where
  "getEntriesByAccountPage code startDate endDate pageLimit cursor l =
     (let rows = take (pageLimit + 1) (page_rows code startDate endDate cursor (l_rows l));
          hasMore = (pageLimit < length rows);
          entries = (if hasMore then take pageLimit rows else rows)
      in \<lparr>pg_entries = entries,
          pg_nextCursor = (if hasMore then Some (cursor_of (last entries)) else None),
          pg_hasMore = hasMore, pg_limit = pageLimit\<rparr>)"

record liquidity_alert =
  al_provider :: string
  al_required :: jsnum
  al_balance :: jsnum
  al_ratio :: jsnum
  al_shortfall :: jsnum

definition provider_alert ::
  "jsnum \<Rightarrow> jsnum \<Rightarrow> (string \<Rightarrow> jsnum option) \<Rightarrow> string \<times> jsnum \<Rightarrow> liquidity_alert option" where
  "provider_alert threshold seasonal velocity = (\<lambda>(provider, balance).
     let rawVolume = (case velocity provider of None \<Rightarrow> Fin 0 | Some v \<Rightarrow> v) in
     if js_eq rawVolume (Fin 0) then None
     else let expectedVolume = js_mul rawVolume seasonal;
              ratio = js_div balance expectedVolume
          in if js_lt ratio threshold
             then Some \<lparr>al_provider = provider, al_required = js_mul expectedVolume threshold,
                        al_balance = balance, al_ratio = ratio,
                        al_shortfall = js_sub (js_mul expectedVolume threshold) balance\<rparr>
             else None)"

definition checkReserveLiquidity ::
  "jsnum \<Rightarrow> jsnum \<Rightarrow> (string \<Rightarrow> jsnum option) \<Rightarrow> (string \<times> jsnum) list \<Rightarrow> liquidity_alert list" where
  "checkReserveLiquidity threshold seasonal velocity walletBalances =
     List.map_filter (provider_alert threshold seasonal velocity) walletBalances"

end
