(* ===== verification/Ledger_Postings.thy ===== *)
theory Ledger_Postings
  imports Ledger
begin

text \<open>
  The ledger over time. A posting appends balanced rows or fails, which gives the invariant of the
  ledger for every sequence of requests (\<open>posting_service\<close>); and, since the amounts are binary
  fractions until the database rounds them to seven decimal places, deposits and withdrawals of
  decimal amounts in the base currency are shown to post exactly, by bounding every rounding on the
  way.
\<close>

section \<open>What a posting appends\<close>

definition entry_units :: "jsnum option \<Rightarrow> int" where
  "entry_units x = (case decimal_cast x of Inr u \<Rightarrow> u | Inl _ \<Rightarrow> 0)"

lemma sql_totals_spec:
  "sql_totals accs (a, b) es = Inr (td, tc) \<Longrightarrow>
     td = a + sum_list (map (\<lambda>e. entry_units (debit_amount e)) es) \<and>
     tc = b + sum_list (map (\<lambda>e. entry_units (credit_amount e)) es)"
proof (induction es arbitrary: a b)
  case (Cons e es)
  obtain d c where "decimal_cast (debit_amount e) = Inr d" "decimal_cast (credit_amount e) = Inr c"
    and rest: "sql_totals accs (a + d, b + c) es = Inr (td, tc)"
    using Cons.prems by (auto split: if_splits sum.splits)
  then show ?case using Cons.IH [OF rest] by (simp add: entry_units_def)
qed simp

lemma insert_rows_spec:
  "insert_rows gen clk ref descr txid by es rows = Inr (ps, rows') \<Longrightarrow>
     \<exists>new. rows' = rows @ new \<and> list_all row_check new \<and>
       map lr_debit new = map (\<lambda>e. entry_units (debit_amount e)) es \<and>
       map lr_credit new = map (\<lambda>e. entry_units (credit_amount e)) es \<and>
       map lr_account new = map account_code es"
proof (induction es arbitrary: rows ps rows')
  case (Cons e es)
  obtain d c ps' where d: "decimal_cast (debit_amount e) = Inr d" "decimal_cast (credit_amount e) = Inr c"
    and ok: "row_check (new_row gen clk ref descr txid by (length rows) e d c)"
    and rest: "insert_rows gen clk ref descr txid by es
       (rows @ [new_row gen clk ref descr txid by (length rows) e d c]) = Inr (ps', rows')"
    using Cons.prems by (auto simp: Let_def split: sum.splits if_splits prod.splits)
  obtain new where "rows' = (rows @ [new_row gen clk ref descr txid by (length rows) e d c]) @ new"
    "list_all row_check new" "map lr_debit new = map (\<lambda>e. entry_units (debit_amount e)) es"
    "map lr_credit new = map (\<lambda>e. entry_units (credit_amount e)) es" "map lr_account new = map account_code es"
    using Cons.IH [OF rest] by blast
  then show ?case using d ok
    by (intro exI [of _ "new_row gen clk ref descr txid by (length rows) e d c # new"])
       (simp add: entry_units_def new_row_def)
qed simp

definition balanced_append :: "ledger \<Rightarrow> ledger \<Rightarrow> bool" where
  \<comment> \<open>the rows stay, and the new ones are balanced and satisfy the constraints of the table\<close>
  "balanced_append l l' \<longleftrightarrow> l_accounts l' = l_accounts l \<and>
     (\<exists>new. l_rows l' = l_rows l @ new \<and> new \<noteq> [] \<and> list_all row_check new \<and>
        sum_list (map lr_debit new) = sum_list (map lr_credit new))"

lemma sql_post_appends:
  assumes "sql_post_transaction gen clk ref descr txid by es l = Inr (ps, l')"
  shows "balanced_append l l'"
proof -
  obtain td rows where t: "sql_totals (l_accounts l) (0, 0) es = Inr (td, td)" "es \<noteq> []"
    and i: "insert_rows gen clk ref descr txid by es (l_rows l) = Inr (ps, rows)" "l' = l\<lparr>l_rows := rows\<rparr>"
    using assms by (auto simp: sql_post_transaction_def split: if_splits sum.splits)
  obtain new where "rows = l_rows l @ new" "list_all row_check new"
    "map lr_debit new = map (\<lambda>e. entry_units (debit_amount e)) es"
    "map lr_credit new = map (\<lambda>e. entry_units (credit_amount e)) es"
    using insert_rows_spec [OF i(1)] by blast
  then show ?thesis using sql_totals_spec [OF t(1)] t(2) i(2) unfolding balanced_append_def
    by (intro conjI exI [of _ new]) auto
qed

lemma postTransaction_appends:
  "postTransaction gen clk ref descr es txid by cur crate l = Inr (ps, l') \<Longrightarrow> balanced_append l l'"
  by (auto simp: postTransaction_def split: sum.splits intro: sql_post_appends)

section \<open>The interface of posting\<close>

text \<open>
  A posting service over a ledger: whatever a request does, it either fails and leaves the ledger or
  appends balanced rows. The invariant of the ledger and the immutability of its history follow for
  every sequence of requests.
\<close>

definition ledger_inv :: "ledger \<Rightarrow> bool" where
  "ledger_inv l \<longleftrightarrow> is_balanced (checkLedgerBalance l) \<and> list_all row_check (l_rows l)"

lemma balanced_append_inv: "balanced_append l l' \<Longrightarrow> ledger_inv l \<Longrightarrow> ledger_inv l'"
  by (auto simp: balanced_append_def ledger_inv_def checkLedgerBalance_def Let_def)

locale posting_service =
  fixes post :: "'req \<Rightarrow> ledger \<Rightarrow> 'err + (PostedEntry list \<times> ledger)"
  assumes post_appends: "post r l = Inr (ps, l') \<Longrightarrow> balanced_append l l'"
begin

definition after :: "'req \<Rightarrow> ledger \<Rightarrow> ledger" where
  "after r l = (case post r l of Inl _ \<Rightarrow> l | Inr (_, l') \<Rightarrow> l')"

lemma after_cases: "after r l = l \<or> balanced_append l (after r l)"
  using post_appends by (auto simp: after_def split: sum.split)

lemma run_inv: "ledger_inv l \<Longrightarrow> ledger_inv (fold after rs l)"
proof (induction rs arbitrary: l)
  case (Cons r rs)
  then show ?case using after_cases [of r l] balanced_append_inv by fastforce
qed simp

lemma run_append_only: "\<exists>new. l_rows (fold after rs l) = l_rows l @ new"
proof (induction rs arbitrary: l)
  case (Cons r rs)
  obtain new where "l_rows (fold after (r # rs) l) = l_rows (after r l) @ new" using Cons by auto
  then show ?case using after_cases [of r l] by (auto simp: balanced_append_def)
qed simp

end

section \<open>The requests of the service\<close>

datatype posting =
    Deposit clock jsnum jsnum string string id id
  | Withdrawal clock jsnum jsnum string string id id
  | WithdrawalRefund clock jsnum string id id string "string option"
  | Clawback clock jsnum string id id string
  | ProviderFee clock jsnum string id
  | Direct clock string posting_description "LedgerEntry list" "id option" "id option"

fun exec_posting ::
  "exchange_rates \<Rightarrow> (id \<Rightarrow> int option) \<Rightarrow> (nat \<Rightarrow> id) \<Rightarrow> posting \<Rightarrow> ledger \<Rightarrow> ledger_error + (PostedEntry list \<times> ledger)" where
  "exec_posting rates delay gen (Deposit clk amount fee cur ref txid userId) l =
     postDepositWithCurrency rates delay gen clk amount fee cur ref txid userId l"
| "exec_posting rates delay gen (Withdrawal clk amount fee cur ref txid userId) l =
     postWithdrawalWithCurrency rates gen clk amount fee cur ref txid userId l"
| "exec_posting rates delay gen (WithdrawalRefund clk amount ref txid userId reason h) l =
     postWithdrawalRefund gen clk amount ref txid userId reason h l"
| "exec_posting rates delay gen (Clawback clk amount ref txid userId reason) l =
     postClawback gen clk amount ref txid userId reason l"
| "exec_posting rates delay gen (ProviderFee clk amount ref txid) l = postProviderFee gen clk amount ref txid l"
| "exec_posting rates delay gen (Direct clk ref descr es txid by) l =
     postTransaction gen clk ref descr es txid by None None l"

interpretation ls: posting_service "exec_posting rates delay gen" for rates delay gen
proof unfold_locales
  fix r l ps l' assume "exec_posting rates delay gen r l = Inr (ps, l')"
  then show "balanced_append l l'"
    by (cases r) (auto simp: postDepositWithCurrency_def postWithdrawalWithCurrency_def
        postWithdrawalRefund_def postClawback_def postProviderFee_def Let_def
        dest: postTransaction_appends split: sum.splits)
qed

definition run_postings :: "exchange_rates \<Rightarrow> (id \<Rightarrow> int option) \<Rightarrow> (nat \<Rightarrow> id) \<Rightarrow> posting list \<Rightarrow> ledger \<Rightarrow> ledger" where
  \<comment> \<open>each request in turn; one that throws leaves the ledger as it was\<close>
  "run_postings rates delay gen ps l =
     fold (\<lambda>p l. case exec_posting rates delay gen p l of Inl _ \<Rightarrow> l | Inr (_, l') \<Rightarrow> l') ps l"

lemma run_postings_after: "run_postings rates delay gen ps l = fold (ls.after rates delay gen) ps l"
  by (simp add: run_postings_def ls.after_def [abs_def])


section \<open>Deposits and withdrawals in the base currency\<close>

definition standard_accounts :: "ledger \<Rightarrow> bool" where
  "standard_accounts l \<longleftrightarrow> (\<forall>c\<in>{''1100'', ''2000'', ''4100'', ''4200''}. active_account (l_accounts l) c)"

lemma decimal_cast_near:
  assumes "dround x = x" "\<bar>x\<bar> < 134217728" "\<bar>x - of_int n / 10 ^ 7\<bar> \<le> 3 / 134217728" "\<bar>n\<bar> < 10 ^ 20"
  shows "decimal_cast (Some (Fin x)) = Inr n"
  using sql_units_decimal [of x n] assms by (simp add: decimal_cast_def sql_fits_def)

lemma cast_close:
  assumes "dround x = x" "0 \<le> x" "x < 100000001" "\<bar>x - of_int n / 10 ^ 7\<bar> \<le> 1 / 134217728" "\<bar>n\<bar> < 10 ^ 20"
  shows "decimal_cast (Some (Fin x)) = Inr n"
  using decimal_cast_near [OF assms(1) _ _ assms(5)] assms(2,3) order_trans [OF assms(4), of "3 / 134217728"] by simp

lemma base_conversion:
  assumes "map_of rates ''USD'' = Some (Fin 1)" "dround x = x" "0 \<le> x" "x < 100000001"
  shows "convertToBase rates (Fin x) BASE_CURRENCY =
    Inr \<lparr>originalAmount = Fin x, originalCurrency = ''USD'', convertedAmount = Fin x, baseCurrency = ''USD'', rate = Fin 1\<rparr>"
proof -
  have "num x = Fin x" "num 1 = Fin 1" using num_small [of x] num_small [of 1] assms dround_int [of 1] by simp_all
  then show ?thesis using assms by (simp add: convertToBase_def convert_def BASE_CURRENCY_def Let_def)
qed

lemma totals_within_tolerance:
  assumes "dround x = x" "dround y = y" "\<bar>x - y\<bar> \<le> 3 / 134217728" "\<bar>x\<bar> < 134217727"
  shows "\<not> js_lt LEDGER_BALANCE_TOLERANCE (js_abs (js_sub (Fin x) (Fin y)))"
proof -
  have d: "x - y \<le> 1 / 10 ^ 7" "- (x - y) \<le> 1 / 10 ^ 7" using assms(3)
    unfolding abs_le_iff by simp_all
  have "\<bar>dround (x - y)\<bar> \<le> dround (1 / 10 ^ 7)"
  proof (rule abs_leI)
    show "dround (x - y) \<le> dround (1 / 10 ^ 7)" by (rule dround_mono [OF d(1)])
    have "dround (- (x - y)) \<le> dround (1 / 10 ^ 7)" by (rule dround_mono [OF d(2)])
    then show "- dround (x - y) \<le> dround (1 / 10 ^ 7)" by (simp only: dround_minus)
  qed
  moreover have "num (x - y) = Fin (dround (x - y))" "num (1 / 10 ^ 7) = Fin (dround (1 / 10 ^ 7))"
    by (rule num_small, use assms(3) in linarith, rule num_small, simp)
  ultimately show ?thesis by (simp add: LEDGER_BALANCE_TOLERANCE_def js_sub_def)
qed


lemma tolerance_small:
  assumes "\<bar>x - of_int n / 10 ^ 7\<bar> \<le> 3 / 134217728" "2 \<le> n"
  shows "\<not> js_le (Fin x) LEDGER_BALANCE_TOLERANCE"
proof -
  have "(2 :: rat) / 10000000 \<le> of_int n / 10 ^ 7" using assms(2) by simp
  moreover have "\<bar>dround (1 / 10000000) - 1 / 10000000\<bar> \<le> 1 / 134217728" by (rule small_error) simp
  ultimately have "dround (1 / 10000000) < x" using assms(1) by linarith
  moreover have "num (1 / 10 ^ 7) = Fin (dround (1 / 10 ^ 7))" by (rule num_small) simp
  ultimately show ?thesis by (simp add: LEDGER_BALANCE_TOLERANCE_def)
qed

lemma tolerance_large: "1 \<le> x \<Longrightarrow> \<not> js_le (Fin x) LEDGER_BALANCE_TOLERANCE"
  using tolerance_small [of 1 "10 ^ 7"] by (cases "num (1 / 10 ^ 7)") (auto simp: LEDGER_BALANCE_TOLERANCE_def)

lemma one_sided_simps:
  "0 < x \<Longrightarrow> or_zero (Some (Fin x)) = Fin x" "or_zero None = Fin 0"
  by (simp_all add: or_zero_def)

lemma add_zero_fin: "dround x = x \<Longrightarrow> \<bar>x\<bar> < 134217727 \<Longrightarrow> js_add (Fin 0) (Fin x) = Fin x"
  by (simp add: num_small)

text \<open>Three entries that split one amount, as a deposit and a withdrawal make them.\<close>

lemma validate_split:
  assumes e: "debit_amount e1 = Some (Fin t)" "credit_amount e1 = None" "debit_amount e2 = None"
      "credit_amount e2 = Some (Fin x)" "debit_amount e3 = None" "credit_amount e3 = Some (Fin y)"
    and pos: "0 < t" "0 < x" "0 < y" "dround t = t" "dround x = x" "dround y = y"
      "t < 100000003" "x < 100000003" "y < 100000001" "\<bar>t - (x + y)\<bar> \<le> 1 / 134217728"
    and big: "\<not> js_le (Fin t) LEDGER_BALANCE_TOLERANCE"
  shows "validateLedgerEntries [e1, e2, e3] = Inr ()"
proof -
  have xy: "x + y < 134217727" using pos by linarith
  have z: "js_add (Fin x) (Fin y) = Fin (dround (x + y))" using num_small [of "x + y"] xy pos by simp
  have a: "js_add (Fin 0) (Fin t) = Fin t" "js_add (Fin 0) (Fin x) = Fin x" "js_add (Fin t) (Fin 0) = Fin t"
    using pos by (simp_all add: num_small)
  have "\<bar>dround (x + y) - (x + y)\<bar> \<le> 1 / 134217728" by (rule small_error) (use pos xy in linarith)
  then have "\<bar>t - dround (x + y)\<bar> \<le> 3 / 134217728" using pos by linarith
  then have tol: "\<not> js_lt LEDGER_BALANCE_TOLERANCE (js_abs (js_sub (Fin t) (Fin (dround (x + y)))))"
    by (intro totals_within_tolerance) (use pos in \<open>auto simp: dround_idem\<close>)
  have "entry_totals 0 (Fin 0, Fin 0) [e1, e2, e3] = Inr (Fin t, Fin (dround (x + y)))"
    using pos a z by (simp add: e one_sided_simps Let_def)
  then show ?thesis using tol big by (simp add: validateLedgerEntries_def)
qed

lemma validate_pair:
  assumes e: "debit_amount e1 = Some (Fin t)" "credit_amount e1 = None" "debit_amount e2 = None"
      "credit_amount e2 = Some (Fin t)"
    and pos: "0 < t" "dround t = t" "t < 100000003"
    and big: "\<not> js_le (Fin t) LEDGER_BALANCE_TOLERANCE"
  shows "validateLedgerEntries [e1, e2] = Inr ()"
proof -
  have a: "js_add (Fin 0) (Fin t) = Fin t" "js_add (Fin t) (Fin 0) = Fin t"
    using pos by (simp_all add: num_small)
  have tol: "\<not> js_lt LEDGER_BALANCE_TOLERANCE (js_abs (js_sub (Fin t) (Fin t)))"
    by (intro totals_within_tolerance) (use pos in auto)
  have "entry_totals 0 (Fin 0, Fin 0) [e1, e2] = Inr (Fin t, Fin t)"
    using pos a by (simp add: e one_sided_simps Let_def)
  then show ?thesis using tol big by (simp add: validateLedgerEntries_def)
qed

definition row_amounts :: "ledger_row \<Rightarrow> string \<times> int \<times> int" where
  "row_amounts r = (lr_account r, lr_debit r, lr_credit r)"

definition posts :: "ledger_error + (PostedEntry list \<times> ledger) \<Rightarrow> ledger \<Rightarrow> (string \<times> int \<times> int) list \<Rightarrow> bool" where
  \<comment> \<open>the call succeeds and appends rows with these accounts, debits and credits\<close>
  "posts r l amounts \<longleftrightarrow> (\<exists>ps new l'. r = Inr (ps, l') \<and> l_rows l' = l_rows l @ new \<and>
     l_accounts l' = l_accounts l \<and> map row_amounts new = amounts)"

definition entry_posts :: "account list \<Rightarrow> LedgerEntry \<Rightarrow> string \<times> int \<times> int \<Rightarrow> bool" where
  "entry_posts accs e t \<longleftrightarrow> (case t of (code, d, c) \<Rightarrow>
     account_code e = code \<and> active_account accs code \<and>
     decimal_cast (debit_amount e) = Inr d \<and> decimal_cast (credit_amount e) = Inr c \<and>
     0 \<le> d \<and> 0 \<le> c \<and> d < 10 ^ 16 \<and> c < 10 ^ 16 \<and> (0 < d \<and> c = 0 \<or> 0 < c \<and> d = 0))"

lemma insert_rows_posts:
  assumes "list_all2 (entry_posts accs) es ts" "length ref \<le> 50"
  shows "\<exists>ps new. insert_rows gen clk ref descr txid by es rows = Inr (ps, rows @ new) \<and> map row_amounts new = ts"
  using assms(1)
proof (induction es ts arbitrary: rows rule: list_all2_induct)
  case (Cons e es t ts)
  obtain code d c where t: "t = (code, d, c)" by (cases t) auto
  let ?r = "new_row gen clk ref descr txid by (length rows) e d c"
  have c: "decimal_cast (debit_amount e) = Inr d" "decimal_cast (credit_amount e) = Inr c" "row_check ?r"
    "row_amounts ?r = t"
    using Cons.hyps(1) by (auto simp: t entry_posts_def row_check_def new_row_def row_amounts_def)
  obtain ps new where "insert_rows gen clk ref descr txid by es (rows @ [?r]) = Inr (ps, (rows @ [?r]) @ new)"
    "map row_amounts new = ts" using Cons.IH [of "rows @ [?r]"] by blast
  then show ?case using c assms(2) by (intro exI conjI) (auto simp: Let_def intro!: exI [of _ "?r # new"])
qed simp


lemma sql_totals_posts:
  assumes "list_all2 (entry_posts accs) es ts" "0 \<le> a" "0 \<le> b"
    "a + sum_list (map (\<lambda>t. fst (snd t)) ts) < 10 ^ 20" "b + sum_list (map (\<lambda>t. snd (snd t)) ts) < 10 ^ 20"
  shows "sql_totals accs (a, b) es =
    Inr (a + sum_list (map (\<lambda>t. fst (snd t)) ts), b + sum_list (map (\<lambda>t. snd (snd t)) ts))"
  using assms
proof (induction es ts arbitrary: a b rule: list_all2_induct)
  case (Cons e es t ts)
  have nn: "0 \<le> sum_list (map (\<lambda>t. fst (snd t)) ts)" "0 \<le> sum_list (map (\<lambda>t. snd (snd t)) ts)"
    using Cons.hyps(2) by (auto intro!: sum_list_nonneg simp: list_all2_conv_all_nth entry_posts_def in_set_conv_nth split: prod.splits)
  obtain code d c where t: "t = (code, d, c)" by (cases t) auto
  have p: "decimal_cast (debit_amount e) = Inr d" "decimal_cast (credit_amount e) = Inr c" "0 \<le> d" "0 \<le> c"
    "active_account accs (account_code e)"
    using Cons.hyps(1) by (auto simp: t entry_posts_def)
  have "sql_fits (a + d)" "sql_fits (b + c)" using Cons.prems p nn by (auto simp: sql_fits_def t)
  then show ?case using Cons.IH [of "a + d" "b + c"] Cons.prems p nn by (simp add: t)
qed simp

lemma enrich_posts: "list_all2 (entry_posts accs) es ts \<Longrightarrow> list_all2 (entry_posts accs) (enrich cur crate es) ts"
  by (auto simp: enrich_def list_all2_map1 entry_posts_def split: option.splits elim!: list_all2_mono)

lemma postTransaction_posts:
  assumes "validateLedgerEntries es = Inr ()" "list_all2 (entry_posts (l_accounts l)) es ts"
    "sum_list (map (\<lambda>t. fst (snd t)) ts) = sum_list (map (\<lambda>t. snd (snd t)) ts)"
    "0 < sum_list (map (\<lambda>t. fst (snd t)) ts)" "sum_list (map (\<lambda>t. fst (snd t)) ts) < 10 ^ 20"
    "2 \<le> length ts" "length ref \<le> 50"
  shows "posts (postTransaction gen clk ref descr es txid by cur crate l) l ts"
proof -
  let ?es = "enrich cur crate es"
  have p: "list_all2 (entry_posts (l_accounts l)) ?es ts" by (rule enrich_posts [OF assms(2)])
  then have len: "length ?es = length ts" by (rule list_all2_lengthD)
  obtain ps new where i: "insert_rows gen clk ref descr (non_empty txid) (non_empty by) ?es (l_rows l) =
      Inr (ps, l_rows l @ new)" "map row_amounts new = ts" using insert_rows_posts [OF p assms(7)] by blast
  have "sql_post_transaction gen clk ref descr (non_empty txid) (non_empty by) ?es l =
      Inr (ps, l\<lparr>l_rows := l_rows l @ new\<rparr>)"
    using sql_totals_posts [OF p, of 0 0] assms(3-6) len i(1)
    by (auto simp: sql_post_transaction_def)
  then show ?thesis using assms(1) i(2) by (simp add: postTransaction_def posts_def)
qed


lemma postTransaction_unbalanced:
  assumes "validateLedgerEntries es = Inr ()" "list_all2 (entry_posts (l_accounts l)) es ts"
    "sum_list (map (\<lambda>t. fst (snd t)) ts) = d" "sum_list (map (\<lambda>t. snd (snd t)) ts) = c" "d \<noteq> c"
    "d < 10 ^ 20" "c < 10 ^ 20" "2 \<le> length ts"
  shows "postTransaction gen clk ref descr es txid by cur crate l = Inl (SqlFailed (SqlNotBalanced d c))"
proof -
  have p: "list_all2 (entry_posts (l_accounts l)) (enrich cur crate es) ts" by (rule enrich_posts [OF assms(2)])
  then have len: "length (enrich cur crate es) = length ts" by (rule list_all2_lengthD)
  then have "sql_post_transaction gen clk ref descr (non_empty txid) (non_empty by) (enrich cur crate es) l =
      Inl (SqlNotBalanced d c)"
    using sql_totals_posts [OF p, of 0 0] assms(3-8) by (auto simp: sql_post_transaction_def)
  then show ?thesis using assms(1) by (simp add: postTransaction_def)
qed

lemma decimal_cast_None [simp]: "decimal_cast None = Inr 0"
  by (simp add: decimal_cast_def)

lemma deposit_posts_fee:
  assumes A: "in_range A" "2 \<le> A" and F: "0 < F" "F < A" and acc: "standard_accounts l"
    and usd: "map_of rates ''USD'' = Some (Fin 1)" and ref: "length ref \<le> 50"
  shows "posts (postDeposit rates delay gen clk (decimal_number A) (decimal_number F) ref txid userId l) l
    [(''1100'', A, 0), (''2000'', 0, A - F), (''4100'', 0, F)]"
proof -
  have rF: "in_range F" using A F by (auto simp: in_range_def)
  obtain a where a: "decimal_number A = Fin a" "dround a = a" "\<bar>a - of_int A / 10 ^ 7\<bar> \<le> 1 / 134217728"
    "0 \<le> a" "a < 100000001" using decimal_number_fin [OF A(1)] .
  obtain f where f: "decimal_number F = Fin f" "dround f = f" "\<bar>f - of_int F / 10 ^ 7\<bar> \<le> 1 / 134217728"
    "0 \<le> f" "f < 100000001" using decimal_number_fin [OF rF] .
  obtain c where c: "js_sub (Fin a) (Fin f) = Fin c" "dround c = c" "0 < c" "c < 100000002"
    "\<bar>c - (a - f)\<bar> \<le> 1 / 134217728" "\<bar>c - of_int (A - F) / 10 ^ 7\<bar> \<le> 3 / 134217728"
    using difference_fin [OF a(2-5) f(2-5) F(2)] F(1) by (metis less_imp_le)
  have pos: "0 < a" "0 < f" using decimal_number_pos a(3) f(3) A(2) F(1) by fastforce+
  have big: "\<not> js_le (Fin a) LEDGER_BALANCE_TOLERANCE"
    by (rule tolerance_small [OF _ A(2)]) (use a(3) in linarith)
  have split: "\<bar>a - (c + f)\<bar> \<le> 1 / 134217728" using c(5) by linarith
  have bounds: "a < 100000003" "c < 100000003" using a(5) c(4) by linarith+
  have rA: "\<bar>A\<bar> < 10 ^ 20" "\<bar>F\<bar> < 10 ^ 20" "\<bar>A - F\<bar> < 10 ^ 20" "A < 10 ^ 16" using A F by (auto simp: in_range_def)
  have casts: "decimal_cast (Some (Fin a)) = Inr A" "decimal_cast (Some (Fin f)) = Inr F"
    "decimal_cast (Some (Fin c)) = Inr (A - F)"
    using cast_close [OF a(2,4,5,3) rA(1)] cast_close [OF f(2,4,5,3) rA(2)] decimal_cast_near [OF c(2) _ c(6) rA(3)] c(3,4)
    by simp_all
  show ?thesis
    unfolding postDeposit_def postDepositWithCurrency_def a(1) f(1) base_conversion [OF usd a(2,4,5)]
      base_conversion [OF usd f(2,4,5)] Let_def sum.case
    by (rule postTransaction_posts, simp add: deposit_entries_def plain_entry_def c(1) pos,
        (rule validate_split [where t = a and x = c and y = f]; (simp; fail)?; (rule big)?; (insert a(2) f(2,5) c(2,3) pos split bounds, assumption)?),
        insert A F acc ref casts c(1) rA pos,
        auto simp: deposit_entries_def plain_entry_def entry_posts_def standard_accounts_def)
qed


lemma deposit_posts_free:
  assumes A: "in_range A" "2 \<le> A" and acc: "standard_accounts l"
    and usd: "map_of rates ''USD'' = Some (Fin 1)" and ref: "length ref \<le> 50"
  shows "posts (postDeposit rates delay gen clk (decimal_number A) (Fin 0) ref txid userId l) l
    [(''1100'', A, 0), (''2000'', 0, A)]"
proof -
  obtain a where a: "decimal_number A = Fin a" "dround a = a" "\<bar>a - of_int A / 10 ^ 7\<bar> \<le> 1 / 134217728"
    "0 \<le> a" "a < 100000001" using decimal_number_fin [OF A(1)] .
  have pos: "0 < a" using decimal_number_pos a(3) A(2) by fastforce
  have rA: "\<bar>A\<bar> < 10 ^ 20" "A < 10 ^ 16" using A by (auto simp: in_range_def)
  have casts: "decimal_cast (Some (Fin a)) = Inr A" by (rule cast_close [OF a(2,4,5,3) rA(1)])
  have big: "\<not> js_le (Fin a) LEDGER_BALANCE_TOLERANCE"
    by (rule tolerance_small [OF _ A(2)]) (use a(3) in linarith)
  have z: "dround 0 = 0" "(0 :: rat) \<le> 0" "(0 :: rat) < 100000001" by simp_all
  have sub: "js_sub (Fin a) (Fin 0) = Fin a" using a pos by (intro sub_zero_fin) auto
  show ?thesis
    unfolding postDeposit_def postDepositWithCurrency_def a(1) base_conversion [OF usd a(2,4,5)]
      base_conversion [OF usd z] Let_def sum.case
    by (rule postTransaction_posts, simp add: deposit_entries_def plain_entry_def sub,
        rule validate_pair [where t = a], insert big a pos A acc ref casts rA sub,
        auto simp: deposit_entries_def plain_entry_def entry_posts_def standard_accounts_def)
qed

lemma withdrawal_posts_fee:
  assumes A: "0 < A" and F: "0 < F" and AF: "A + F < 10 ^ 15" and acc: "standard_accounts l"
    and usd: "map_of rates ''USD'' = Some (Fin 1)" and ref: "length ref \<le> 50"
  shows "posts (postWithdrawal rates gen clk (decimal_number A) (decimal_number F) ref txid userId l) l
    [(''2000'', A + F, 0), (''1100'', 0, A), (''4200'', 0, F)]"
proof -
  have r: "in_range A" "in_range F" using A F AF by (auto simp: in_range_def)
  obtain a where a: "decimal_number A = Fin a" "dround a = a" "\<bar>a - of_int A / 10 ^ 7\<bar> \<le> 1 / 134217728"
    "0 \<le> a" "a < 100000001" using decimal_number_fin [OF r(1)] .
  obtain f where f: "decimal_number F = Fin f" "dround f = f" "\<bar>f - of_int F / 10 ^ 7\<bar> \<le> 1 / 134217728"
    "0 \<le> f" "f < 100000001" using decimal_number_fin [OF r(2)] .
  have pos: "0 < a" "0 < f" using decimal_number_pos a(3) f(3) A F by blast+
  obtain t where t: "js_add (Fin a) (Fin f) = Fin t" "dround t = t" "0 < t" "t < 100000002"
    "\<bar>t - (a + f)\<bar> \<le> 1 / 134217728" "\<bar>t - of_int (A + F) / 10 ^ 7\<bar> \<le> 3 / 134217728"
    using sum_fin [OF a(3) pos(1) a(2) f(3,4) AF] .
  have big: "\<not> js_le (Fin t) LEDGER_BALANCE_TOLERANCE"
    by (rule tolerance_small [OF t(6)]) (use A F in linarith)
  have rA: "\<bar>A\<bar> < 10 ^ 20" "\<bar>F\<bar> < 10 ^ 20" "\<bar>A + F\<bar> < 10 ^ 20" "A + F < 10 ^ 16" using A F AF by auto
  have casts: "decimal_cast (Some (Fin a)) = Inr A" "decimal_cast (Some (Fin f)) = Inr F"
    "decimal_cast (Some (Fin t)) = Inr (A + F)"
    using cast_close [OF a(2,4,5,3)] cast_close [OF f(2,4,5,3)] decimal_cast_near [OF t(2) _ t(6)] rA t(3,4)
    by simp_all
  show ?thesis
    unfolding postWithdrawal_def postWithdrawalWithCurrency_def a(1) f(1) base_conversion [OF usd a(2,4,5)]
      base_conversion [OF usd f(2,4,5)] Let_def sum.case
    by (rule postTransaction_posts, simp add: withdrawal_entries_def plain_entry_def t(1) pos,
        rule validate_split [where t = t and x = a and y = f],
        insert big a f t pos A F acc ref casts rA t(1),
        auto simp: withdrawal_entries_def plain_entry_def entry_posts_def standard_accounts_def)
qed

section \<open>A deposit in a foreign currency\<close>

lemma decimal_cast_bounds:
  assumes "dround x = x" "\<bar>x\<bar> < 134217728" "\<bar>x * 10000000 - of_int n\<bar> < 2 / 5" "\<bar>n\<bar> < 10 ^ 20"
  shows "decimal_cast (Some (Fin x)) = Inr n"
proof -
  have "\<bar>decimal_value x - x\<bar> \<le> 1 / 134217728" using decimal_value_error [of x 27] assms by simp
  then have "\<bar>decimal_value x * 10000000 - of_int n\<bar> < 1 / 2" using assms(3) by linarith
  then have "sql_units (decimal_value x) = n" by (intro sql_units_near) simp
  then show ?thesis using assms(4) by (simp add: decimal_cast_def sql_fits_def)
qed

lemma xaf_amounts:
  fixes x :: rat
  assumes "0 < x" "x \<le> 1000"
  obtains y where "js_mul (Fin x) (js_div (Fin 1) (Fin 600)) = Fin y" "dround y = y"
    "\<bar>y - x / 600\<bar> \<le> 1 / 1000000000000"
proof
  let ?r = "dround (1 / 600)"
  have r: "\<bar>?r - 1 / 600\<bar> \<le> pow2 (-61) / 2" using dround_error [of "1 / 600" "-8"] by (simp add: pow2_def)
  then have r1: "\<bar>?r - 1 / 600\<bar> \<le> 1 / 4000000000000000" by (simp add: pow2_def)
  have m: "\<bar>x * ?r - x / 600\<bar> \<le> 1 / 4000000000000"
  proof -
    have "x * ?r - x / 600 = x * (?r - 1 / 600)" by (simp add: right_diff_distrib)
    then have "\<bar>x * ?r - x / 600\<bar> = x * \<bar>?r - 1 / 600\<bar>" using assms(1) by (simp only: abs_mult abs_of_pos)
    also have "\<dots> \<le> 1000 * (1 / 4000000000000000)" by (rule mult_mono) (use assms r1 in auto)
    finally show ?thesis by simp
  qed
  then have lt: "\<bar>x * ?r\<bar> < 2" using assms by linarith
  have "js_div (Fin 1) (Fin 600) = Fin ?r" using num_small [of "1 / 600"] by simp
  then show "js_mul (Fin x) (js_div (Fin 1) (Fin 600)) = Fin (dround (x * ?r))" using num_small [of "x * ?r"] lt by simp
  show "dround (dround (x * ?r)) = dround (x * ?r)" by (rule dround_idem)
  have "\<bar>dround (x * ?r) - x * ?r\<bar> \<le> 1 / 4503599627370496" using dround_error [of "x * ?r" 1] lt by (simp add: pow2_def)
  then show "\<bar>dround (x * ?r) - x / 600\<bar> \<le> 1 / 1000000000000" using m by linarith
qed

section \<open>Properties\<close>

definition chart :: "account list" where
  "chart = map (\<lambda>(c, n). \<lparr>acc_code = c, acc_debit_normal = n, acc_active = True\<rparr>)
     [(''1100'', True), (''2000'', False), (''4100'', False), (''4200'', False), (''5000'', True)]"

definition empty_ledger :: ledger where
  "empty_ledger = \<lparr>l_accounts = chart, l_rows = []\<rparr>"

definition demo_clock :: clock where
  "demo_clock = \<lparr>today = 20000, micros = 1728000000000000\<rparr>"

lemma empty_ledger_inv: "ledger_inv empty_ledger"
  by (simp add: ledger_inv_def empty_ledger_def checkLedgerBalance_def)

lemma empty_ledger_accounts: "standard_accounts empty_ledger"
  by (simp add: standard_accounts_def empty_ledger_def chart_def active_account_def)

text \<open>
  C1. The books always balance. After any sequence of deposits, withdrawals, refunds, clawbacks,
  provider fees and direct postings, in any currency and with any amounts, infinite, negative or not
  a number included, the sum of all debits is exactly the sum of all credits, every entry has exactly
  one positive side, and what was posted before is still there unchanged.
\<close>

theorem ledger_always_balanced:
  assumes "ledger_inv l"
  shows "is_balanced (checkLedgerBalance (run_postings rates delay gen ps l)) \<and>
    list_all row_check (l_rows (run_postings rates delay gen ps l)) \<and>
    (\<exists>new. l_rows (run_postings rates delay gen ps l) = l_rows l @ new)"
  using ls.run_inv [OF assms, of rates delay gen ps] ls.run_append_only [of rates delay gen ps l]
  by (simp add: run_postings_after ledger_inv_def)

theorem ledger_always_balanced_witness:
  "is_balanced (checkLedgerBalance (run_postings FALLBACK_RATES (\<lambda>_. None) (\<lambda>n. [])
     [Deposit demo_clock (Fin 100) (Fin 2) ''USD'' ''R1'' ''t1'' ''u1'', ProviderFee demo_clock PInf ''R2'' ''t1'']
     empty_ledger))"
  using ledger_always_balanced [OF empty_ledger_inv] by blast

text \<open>
  C35. A deposit of a decimal amount posts exactly. For an amount of up to seven decimal places below
  a hundred million and of at least two units of the last place, a smaller fee that is not negative, a reference of at most
  fifty characters, the standard accounts active and the rate of USD at one, the deposit in USD succeeds, although the
  program computes with binary fractions: the float is debited by the amount, the customer credited
  with the amount less the fee and the revenue account with the fee, to the last decimal place.
\<close>

theorem deposit_posts_exactly:
  assumes "0 \<le> F" "F < A" "2 \<le> A" "A < 10 ^ 15" "standard_accounts l"
    "map_of rates ''USD'' = Some (Fin 1)" "length ref \<le> 50"
  shows "posts (postDeposit rates delay gen clk (decimal_number A) (decimal_number F) ref txid userId l) l
    ([(''1100'', A, 0), (''2000'', 0, A - F)] @ (if 0 < F then [(''4100'', 0, F)] else []))"
  using deposit_posts_fee [of A F l rates ref delay gen clk txid userId]
    deposit_posts_free [of A l rates ref delay gen clk txid userId] assms
  by (cases "F = 0") (auto simp: in_range_def)

theorem deposit_posts_exactly_witness:
  "posts (postDeposit FALLBACK_RATES (\<lambda>_. None) (\<lambda>n. []) demo_clock
     (decimal_number 3000000) (decimal_number 1000000) ''R1'' ''t1'' ''u1'' empty_ledger) empty_ledger
     [(''1100'', 3000000, 0), (''2000'', 0, 2000000), (''4100'', 0, 1000000)]"
  using deposit_posts_exactly [of 1000000 3000000 empty_ledger FALLBACK_RATES "''R1''" "\<lambda>_. None" "\<lambda>n. []"
      demo_clock "''t1''" "''u1''"] empty_ledger_accounts
  by (simp add: FALLBACK_RATES_def)

text \<open>
  A withdrawal of a decimal amount with a fee posts exactly: the customer is debited by the
  amount and the fee, the float credited with the amount and the revenue account with the fee.
\<close>

theorem withdrawal_posts_exactly:
  assumes "0 < A" "0 < F" "A + F < 10 ^ 15" "standard_accounts l"
    "map_of rates ''USD'' = Some (Fin 1)" "length ref \<le> 50"
  shows "posts (postWithdrawal rates gen clk (decimal_number A) (decimal_number F) ref txid userId l) l
    [(''2000'', A + F, 0), (''1100'', 0, A), (''4200'', 0, F)]"
  using withdrawal_posts_fee assms by blast

theorem withdrawal_posts_exactly_witness:
  "posts (postWithdrawal FALLBACK_RATES (\<lambda>n. []) demo_clock
     (decimal_number 2000000) (decimal_number 1000000) ''R1'' ''t1'' ''u1'' empty_ledger) empty_ledger
     [(''2000'', 3000000, 0), (''1100'', 0, 2000000), (''4200'', 0, 1000000)]"
  using withdrawal_posts_exactly [of 2000000 1000000 empty_ledger FALLBACK_RATES "''R1''" "\<lambda>n. []"
      demo_clock "''t1''" "''u1''"] empty_ledger_accounts
  by (simp add: FALLBACK_RATES_def)

text \<open>
  A deposit in another currency can be refused although it balances. The service allows the
  sides to differ by a ten-millionth, but the database rounds the three amounts to seven places
  separately and compares exactly: 1000 francs with a fee of 50 at 600 to the dollar are debited
  as 1.6666667 and credited as 1.5833333 and 0.0833333, and the posting is rolled back.
\<close>

theorem foreign_deposit_refused:
  "postDepositWithCurrency FALLBACK_RATES delay gen clk (Fin 1000) (Fin 50) ''XAF'' ref txid userId empty_ledger =
     Inl (SqlFailed (SqlNotBalanced 16666667 16666666))"
proof -
  obtain a where a: "js_mul (Fin 1000) (js_div (Fin 1) (Fin 600)) = Fin a" "dround a = a"
    "\<bar>a - 1000 / 600\<bar> \<le> 1 / 1000000000000" using xaf_amounts [of 1000] by auto
  obtain f where f: "js_mul (Fin 50) (js_div (Fin 1) (Fin 600)) = Fin f" "dround f = f"
    "\<bar>f - 50 / 600\<bar> \<le> 1 / 1000000000000" using xaf_amounts [of 50] by auto
  let ?c = "dround (a - f)"
  have lt: "\<bar>a - f\<bar> < 2" using a f by linarith
  have c: "js_sub (Fin a) (Fin f) = Fin ?c" using num_small [of "a - f"] lt by (simp add: js_sub_def)
  have ce: "\<bar>?c - (a - f)\<bar> \<le> 1 / 4503599627370496" using dround_error [of "a - f" 1] lt by (simp add: pow2_def)
  have pos: "0 < a" "0 < f" "0 < ?c" using a f ce by linarith+
  have "\<bar>a * 10000000 - 16666667\<bar> < 2 / 5" "\<bar>f * 10000000 - 833333\<bar> < 2 / 5" "\<bar>?c * 10000000 - 15833333\<bar> < 2 / 5"
    "\<bar>a\<bar> < 134217728" "\<bar>f\<bar> < 134217728" "\<bar>?c\<bar> < 134217728" using a f ce by linarith+
  then have casts: "decimal_cast (Some (Fin a)) = Inr 16666667" "decimal_cast (Some (Fin f)) = Inr 833333"
    "decimal_cast (Some (Fin ?c)) = Inr 15833333"
    using decimal_cast_bounds [of a 16666667] decimal_cast_bounds [of f 833333]
      decimal_cast_bounds [of ?c 15833333] a(2) f(2) by (simp_all add: dround_idem)
  have conv: "convertToBase FALLBACK_RATES (Fin x) ''XAF'' = Inr \<lparr>originalAmount = Fin x, originalCurrency = ''XAF'',
      convertedAmount = Fin y, baseCurrency = ''USD'', rate = js_div (Fin 1) (Fin 600)\<rparr>"
    if "0 \<le> x" "js_mul (Fin x) (js_div (Fin 1) (Fin 600)) = Fin y" for x y
    using that by (simp del: js_div.simps js_mul.simps add: convertToBase_def convert_def FALLBACK_RATES_def BASE_CURRENCY_def Let_def)
  have big: "\<not> js_le (Fin a) LEDGER_BALANCE_TOLERANCE"
    by (rule tolerance_large) (use a(3) in linarith)
  have split: "\<bar>a - (?c + f)\<bar> \<le> 1 / 134217728" "a < 100000003" "?c < 100000003" "f < 100000001"
    using a f ce by linarith+
  have v: "validateLedgerEntries [e1, e2, e3] = Inr ()"
    if "debit_amount e1 = Some (Fin a)" "credit_amount e1 = None" "debit_amount e2 = None"
      "credit_amount e2 = Some (Fin ?c)" "debit_amount e3 = None" "credit_amount e3 = Some (Fin f)" for e1 e2 e3
    by (rule validate_split [OF that pos(1,3,2) a(2) dround_idem f(2) split(2-4) split(1) big])
  have acc: "active_account chart ''1100''" "active_account chart ''2000''" "active_account chart ''4100''" by code_simp+
  show ?thesis
    unfolding postDepositWithCurrency_def Let_def conv [OF _ a(1), simplified] conv [OF _ f(1), simplified] sum.case
    by (rule postTransaction_unbalanced [where
          ts = "[(''1100'', 16666667, 0), (''2000'', 0, 15833333), (''4100'', 0, 833333)]"])
       (simp_all add: deposit_entries_def plain_entry_def c v casts entry_posts_def empty_ledger_def acc)
qed

end
