(* ===== verification/Ledger_Pages.thy ===== *)
theory Ledger_Pages
  imports Ledger_Postings
begin

text \<open>
  Keyset pagination of the entries of an account (\<open>getEntriesByAccountPage\<close>): a client that follows
  the cursors sees the whole result, as far as the precision of the cursor's timestamp allows.
\<close>

section \<open>Pages\<close>

text \<open>A client that follows the cursors, from a cursor on.\<close>

fun collect_pages :: "nat \<Rightarrow> string \<Rightarrow> int option \<Rightarrow> int option \<Rightarrow> nat \<Rightarrow> entry_key option \<Rightarrow> ledger \<Rightarrow> ledger_row list" where
  "collect_pages 0 code sd ed limit cur l = []"
| "collect_pages (Suc n) code sd ed limit cur l =
     (let p = getEntriesByAccountPage code sd ed limit cur l
      in pg_entries p @ (case pg_nextCursor p of None \<Rightarrow> [] | Some k \<Rightarrow> collect_pages n code sd ed limit (Some k) l))"

definition millisecond_stamps :: "ledger_row list \<Rightarrow> bool" where
  "millisecond_stamps rows \<longleftrightarrow> (\<forall>r\<in>set rows. lr_created_at r mod 1000 = 0)"

definition page_filter :: "string \<Rightarrow> int option \<Rightarrow> int option \<Rightarrow> entry_key option \<Rightarrow> ledger_row \<Rightarrow> bool" where
  "page_filter code sd ed cur r \<longleftrightarrow> lr_account r = code \<and>
     (case sd of None \<Rightarrow> True | Some d \<Rightarrow> d \<le> lr_entry_date r) \<and>
     (case ed of None \<Rightarrow> True | Some d \<Rightarrow> lr_entry_date r \<le> d) \<and>
     (case cur of None \<Rightarrow> True | Some k \<Rightarrow> row_key r < k)"

lemma page_rows_filter: "page_rows code sd ed cur rows = rev (sort_key row_key (filter (page_filter code sd ed cur) rows))"
  by (simp add: page_rows_def page_filter_def [abs_def])

lemma descending_split:
  assumes "sorted (map row_key (rev (xs @ y # ys)))" "distinct (map row_key (xs @ y # ys))"
  shows "filter (\<lambda>r. row_key r < row_key y) (xs @ y # ys) = ys"
proof -
  have "\<not> row_key r < row_key y" if "r \<in> set xs" for r
    using assms(1) that by (auto simp: sorted_append)
  moreover have "row_key r < row_key y" if "r \<in> set ys" for r
  proof -
    have "row_key r \<le> row_key y" using assms(1) that by (auto simp: sorted_append)
    moreover have "row_key r \<noteq> row_key y" using assms(2) that by (auto simp: image_iff)
    ultimately show ?thesis by simp
  qed
  ultimately show ?thesis by simp
qed

lemma page_rows_cursor:
  assumes "distinct (map row_key rows)" "page_rows code sd ed cur rows = xs @ y # ys"
  shows "page_rows code sd ed (Some (row_key y)) rows = ys"
proof -
  let ?S = "filter (page_filter code sd ed cur) rows"
  have D: "rev (sort_key row_key ?S) = xs @ y # ys" using assms(2) by (simp only: page_rows_filter)
  then have set: "set ?S = set (xs @ y # ys)" by (metis set_rev set_sort)
  then have y: "page_filter code sd ed cur y" by auto
  have "page_filter code sd ed (Some (row_key y)) = (\<lambda>r. page_filter code sd ed cur r \<and> row_key r < row_key y)"
    using y by (auto simp: page_filter_def fun_eq_iff split: option.splits)
  then have "page_rows code sd ed (Some (row_key y)) rows = filter (\<lambda>r. row_key r < row_key y) (xs @ y # ys)"
    by (simp add: page_rows_filter D [symmetric] filter_sort [symmetric] rev_filter [symmetric])
  also have "\<dots> = ys"
  proof (rule descending_split)
    show "sorted (map row_key (rev (xs @ y # ys)))" unfolding D [symmetric] rev_rev_ident by (rule sorted_sort_key)
    have "distinct (map row_key ?S)" using assms(1) by (simp add: distinct_map_filter)
    then show "distinct (map row_key (xs @ y # ys))" unfolding D [symmetric]
      by (simp only: rev_map [symmetric] distinct_rev) (simp add: distinct_map)
  qed
  finally show ?thesis .
qed

lemma cursor_of_exact: "millisecond_stamps rows \<Longrightarrow> r \<in> set rows \<Longrightarrow> cursor_of r = row_key r"
  by (auto simp: cursor_of_def row_key_def millisecond_stamps_def minus_mod_eq_div_mult [symmetric])

lemma set_page_rows: "set (page_rows code sd ed cur rows) \<subseteq> set rows"
  by (auto simp: page_rows_filter)

lemma collect_pages_all:
  assumes "distinct (map row_key (l_rows l))" "millisecond_stamps (l_rows l)" "0 < limit"
    "length (page_rows code sd ed cur (l_rows l)) \<le> n * limit"
  shows "collect_pages n code sd ed limit cur l = page_rows code sd ed cur (l_rows l)"
  using assms(4)
proof (induction n arbitrary: cur)
  case (Suc n)
  let ?R = "page_rows code sd ed cur (l_rows l)"
  show ?case
  proof (cases "length ?R \<le> limit")
    case True
    then show ?thesis by (simp add: getEntriesByAccountPage_def Let_def)
  next
    case False
    obtain xs y where xy: "take limit ?R = xs @ [y]"
      using False assms(3) by (metis append_butlast_last_id length_greater_0_conv length_take min.absorb4 not_le)
    then have R: "?R = xs @ y # drop limit ?R" by (metis append.assoc append_Cons append_Nil append_take_drop_id)
    have "y \<in> set (l_rows l)" using R set_page_rows by (metis in_set_conv_decomp subsetD)
    then have cy: "cursor_of y = row_key y" using cursor_of_exact assms(2) by blast
    have nxt: "page_rows code sd ed (Some (row_key y)) (l_rows l) = drop limit ?R"
      by (rule page_rows_cursor [OF assms(1) R])
    then have "collect_pages n code sd ed limit (Some (row_key y)) l = drop limit ?R"
      using Suc.IH [of "Some (row_key y)"] Suc.prems by simp
    then show ?thesis using False xy cy R
      by (simp add: getEntriesByAccountPage_def Let_def min_def)
  qed
qed simp

section \<open>Properties\<close>

text \<open>
  C36. Following the cursors of the account query from the first page visits every entry of the
  account in the date range exactly once, newest first, for every page size, provided the
  timestamps of the entries are whole milliseconds.
\<close>

theorem pagination_complete:
  assumes "distinct (map lr_id (l_rows l))" "millisecond_stamps (l_rows l)" "0 < limit"
  shows "collect_pages (length (l_rows l)) code sd ed limit None l = page_rows code sd ed None (l_rows l)"
proof (rule collect_pages_all [OF _ assms(2,3)])
  have "map lr_id (l_rows l) = map (snd \<circ> snd) (map row_key (l_rows l))" by (simp add: row_key_def)
  then show "distinct (map row_key (l_rows l))" using assms(1) by (metis distinct_map)
  have "length (page_rows code sd ed None (l_rows l)) \<le> length (l_rows l)"
    by (simp add: page_rows_filter)
  then show "length (page_rows code sd ed None (l_rows l)) \<le> length (l_rows l) * limit"
    using assms(3) by (metis One_nat_def Suc_leI le_trans mult.right_neutral mult_le_mono2)
qed

definition demo_row :: "id \<Rightarrow> int \<Rightarrow> ledger_row" where
  "demo_row i t = \<lparr>lr_id = i, lr_account = ''1100'', lr_debit = 5, lr_credit = 0, lr_transaction = None,
     lr_reference = ''R'', lr_description = OtherPosting ''x'', lr_posted_by = None, lr_metadata = [],
     lr_settlement = 1, lr_entry_date = 1, lr_created_at = t\<rparr>"

theorem pagination_complete_witness:
  "collect_pages 3 ''1100'' None None 1 None
     \<lparr>l_accounts = chart, l_rows = [demo_row ''a'' 1000, demo_row ''b'' 2000, demo_row ''c'' 2000]\<rparr> =
   page_rows ''1100'' None None None [demo_row ''a'' 1000, demo_row ''b'' 2000, demo_row ''c'' 2000]"
  using pagination_complete [of "\<lparr>l_accounts = chart,
      l_rows = [demo_row ''a'' 1000, demo_row ''b'' 2000, demo_row ''c'' 2000]\<rparr>" 1 "''1100''" None None]
  by (simp add: demo_row_def millisecond_stamps_def numeral_3_eq_3)

text \<open>
  Pagination drops entries that were posted within one millisecond. The database stamps entries
  to the microsecond, but the cursor holds a \<^verbatim>\<open>Date\<close> of milliseconds, so the query for the next page
  skips every older entry of the millisecond the page ended in.
\<close>

theorem pagination_drops_entries:
  "let rows = [demo_row ''a'' 1100, demo_row ''b'' 1200] in
   collect_pages 2 ''1100'' None None 1 None \<lparr>l_accounts = chart, l_rows = rows\<rparr> = [demo_row ''b'' 1200] \<and>
   demo_row ''a'' 1100 \<in> set (page_rows ''1100'' None None None rows)"
  by code_simp

end
