(* ===== verification/Wallet.thy ===== *)
theory Wallet
  imports Decimal
begin

text \<open>
  Customer wallets (\<^verbatim>\<open>src/services/ledgerService.ts\<close>, \<^verbatim>\<open>applyWalletDelta\<close> and its callers): balances that
  several requests change at the same time under optimistic locking. A call is a state machine whose
  steps are its database queries, and the system interleaves the steps of any number of calls over
  the table of wallets (\<^verbatim>\<open>migrations/20261020_create_customer_wallets.sql\<close> and
  \<^verbatim>\<open>20261021_add_version_to_customer_wallets.sql\<close>: \<^verbatim>\<open>balance DECIMAL(20,7) CHECK (balance >= 0)\<close>,
  \<^verbatim>\<open>version INTEGER\<close>, \<^verbatim>\<open>UNIQUE (user_id, currency)\<close>).

  A balance is an integer in units of the seventh decimal place. The text of a number
  (\<^verbatim>\<open>String(amount)\<close>) is an argument. Each query is atomic, as a single statement is under
  \<^verbatim>\<open>READ COMMITTED\<close>.
\<close>

section \<open>Amounts\<close>

datatype wallet_amount = AmountText string | AmountNumber jsnum

definition DECIMAL_AMOUNT_PATTERN :: "string \<Rightarrow> bool" where
  \<comment> \<open>\<^verbatim>\<open>^\d{1,13}(\.\d{1,7})?$\<close>\<close>
  "DECIMAL_AMOUNT_PATTERN s = (case js_split CHR ''.'' s of
     [i] \<Rightarrow> digits_between 1 13 i
   | [i, f] \<Rightarrow> digits_between 1 13 i \<and> digits_between 1 7 f
   | _ \<Rightarrow> False)"

definition zero_amount :: "string \<Rightarrow> bool" where
  \<comment> \<open>\<^verbatim>\<open>^0+(\.0+)?$\<close>\<close>
  "zero_amount s = (case js_split CHR ''.'' s of
     [i] \<Rightarrow> i \<noteq> [] \<and> list_all (\<lambda>c. c = CHR ''0'') i
   | [i, f] \<Rightarrow> i \<noteq> [] \<and> f \<noteq> [] \<and> list_all (\<lambda>c. c = CHR ''0'') i \<and> list_all (\<lambda>c. c = CHR ''0'') f
   | _ \<Rightarrow> False)"

definition toWalletAmount :: "(jsnum \<Rightarrow> string) \<Rightarrow> wallet_amount \<Rightarrow> string option" where
  "toWalletAmount js_string amount =
     (let txt = (case amount of AmountNumber n \<Rightarrow> js_string n | AmountText s \<Rightarrow> js_trim s)
      in if \<not> DECIMAL_AMOUNT_PATTERN txt \<or> zero_amount txt then None else Some txt)"

section \<open>The table\<close>

record CustomerWallet =
  cw_id :: id
  cw_user :: id
  cw_currency :: string
  cw_balance :: int
  cw_version :: int

definition getWallet :: "id \<Rightarrow> string \<Rightarrow> CustomerWallet list \<Rightarrow> CustomerWallet option" where
  "getWallet userId currency t = find (\<lambda>w. cw_user w = userId \<and> cw_currency w = currency) t"

datatype update_result = NoRow | DbError | UpdatedRow CustomerWallet "CustomerWallet list"

definition new_values :: "int \<Rightarrow> CustomerWallet \<Rightarrow> CustomerWallet" where
  "new_values delta w = w\<lparr>cw_balance := cw_balance w + delta, cw_version := cw_version w + 1\<rparr>"

definition wallet_row_ok :: "CustomerWallet \<Rightarrow> bool" where
  \<comment> \<open>\<^verbatim>\<open>CHECK (balance >= 0)\<close>, the range of \<^verbatim>\<open>DECIMAL(20,7)\<close> and of \<^verbatim>\<open>INTEGER\<close>\<close>
  "wallet_row_ok w \<longleftrightarrow> 0 \<le> cw_balance w \<and> cw_balance w < 10 ^ 20 \<and> cw_version w < 2 ^ 31"

definition update_wallet :: "id \<Rightarrow> int \<Rightarrow> int \<Rightarrow> CustomerWallet list \<Rightarrow> update_result" where
  "update_wallet i version delta t =
     (case find (\<lambda>w. cw_id w = i \<and> cw_version w = version) t of
        None \<Rightarrow> NoRow
      | Some w \<Rightarrow>
          if wallet_row_ok (new_values delta w)
          then UpdatedRow (new_values delta w)
                 (sql_update (\<lambda>x. cw_id x = i \<and> cw_version x = version) (new_values delta) t)
          else DbError)"

section \<open>A call\<close>

datatype direction = Credit | Debit

fun sign_of :: "direction \<Rightarrow> int" where
  "sign_of Credit = 1"
| "sign_of Debit = - 1"

record wallet_call =
  wc_user :: id
  wc_currency :: string
  wc_amount :: wallet_amount
  wc_direction :: direction

datatype wallet_outcome =
    WalletUpdated CustomerWallet
  | InvalidWalletAmount
  | WalletNotFound id string
  | InsufficientFunds id string int string
  | ConcurrentModification id string nat
  | WalletDbError

datatype call_phase =
    Entered
  | Reading string nat
  | Writing string nat CustomerWallet
  | Finished wallet_outcome

definition WALLET_UPDATE_MAX_RETRIES :: nat where
  "WALLET_UPDATE_MAX_RETRIES = 3"

definition call_delta :: "wallet_call \<Rightarrow> string \<Rightarrow> int" where
  "call_delta c val = amount_units val * sign_of (wc_direction c)"

fun applyWalletDelta_step ::
  "(jsnum \<Rightarrow> string) \<Rightarrow> wallet_call \<Rightarrow> call_phase \<Rightarrow> CustomerWallet list \<Rightarrow> call_phase \<times> CustomerWallet list" where
  "applyWalletDelta_step js_string c Entered t =
     (case toWalletAmount js_string (wc_amount c) of
        None \<Rightarrow> (Finished InvalidWalletAmount, t)
      | Some val \<Rightarrow> (Reading val 1, t))"
| "applyWalletDelta_step js_string c (Reading val attempt) t =
     (case getWallet (wc_user c) (wc_currency c) t of
        None \<Rightarrow> (Finished (WalletNotFound (wc_user c) (wc_currency c)), t)
      | Some w \<Rightarrow>
          if \<not> 0 \<le> cw_balance w + call_delta c val
          then (Finished (InsufficientFunds (wc_user c) (wc_currency c) (cw_balance w) val), t)
          else (Writing val attempt w, t))"
| "applyWalletDelta_step js_string c (Writing val attempt w) t =
     (case update_wallet (cw_id w) (cw_version w) (call_delta c val) t of
        UpdatedRow row t' \<Rightarrow> (Finished (WalletUpdated row), t')
      | DbError \<Rightarrow> (Finished WalletDbError, t)
      | NoRow \<Rightarrow>
          if attempt < WALLET_UPDATE_MAX_RETRIES + 1 then (Reading val (attempt + 1), t)
          else (Finished (ConcurrentModification (wc_user c) (wc_currency c)
                  (WALLET_UPDATE_MAX_RETRIES + 1)), t))"
| "applyWalletDelta_step js_string c (Finished r) t = (Finished r, t)"

fun run_call :: "(jsnum \<Rightarrow> string) \<Rightarrow> nat \<Rightarrow> wallet_call \<Rightarrow> call_phase \<Rightarrow> CustomerWallet list \<Rightarrow> call_phase \<times> CustomerWallet list" where
  \<comment> \<open>a call with nobody else at work\<close>
  "run_call js_string 0 c ph t = (ph, t)"
| "run_call js_string (Suc n) c ph t =
     (case applyWalletDelta_step js_string c ph t of (ph', t') \<Rightarrow> run_call js_string n c ph' t')"

definition applyWalletDelta :: "(jsnum \<Rightarrow> string) \<Rightarrow> wallet_call \<Rightarrow> CustomerWallet list \<Rightarrow> call_phase \<times> CustomerWallet list" where
  \<comment> \<open>one step to check the amount and two queries for each of the four attempts\<close>
  "applyWalletDelta js_string c t = run_call js_string 9 c Entered t"

definition debitWallet :: "(jsnum \<Rightarrow> string) \<Rightarrow> id \<Rightarrow> string \<Rightarrow> wallet_amount \<Rightarrow> CustomerWallet list \<Rightarrow> call_phase \<times> CustomerWallet list" where
  "debitWallet js_string userId currency amount =
     applyWalletDelta js_string \<lparr>wc_user = userId, wc_currency = currency, wc_amount = amount, wc_direction = Debit\<rparr>"

definition creditWallet :: "(jsnum \<Rightarrow> string) \<Rightarrow> id \<Rightarrow> string \<Rightarrow> wallet_amount \<Rightarrow> CustomerWallet list \<Rightarrow> call_phase \<times> CustomerWallet list" where
  "creditWallet js_string userId currency amount =
     applyWalletDelta js_string \<lparr>wc_user = userId, wc_currency = currency, wc_amount = amount, wc_direction = Credit\<rparr>"

section \<open>Calls at the same time\<close>

record wallet_system =
  ws_table :: "CustomerWallet list"
  ws_calls :: "(wallet_call \<times> call_phase) list"

inductive wallet_step :: "(jsnum \<Rightarrow> string) \<Rightarrow> wallet_system \<Rightarrow> wallet_system \<Rightarrow> bool" for js_string where
  query: "i < length (ws_calls s) \<Longrightarrow> ws_calls s ! i = (c, ph) \<Longrightarrow>
    applyWalletDelta_step js_string c ph (ws_table s) = (ph', t') \<Longrightarrow>
    wallet_step js_string s \<lparr>ws_table = t', ws_calls = (ws_calls s)[i := (c, ph')]\<rparr>"

inductive_cases wallet_stepE: "wallet_step js_string s s'"

section \<open>The interface of a versioned table\<close>

text \<open>
  What optimistic locking needs of a table: a write names the version it read, succeeds only while
  that version is current, adds to the value and moves the version on.
\<close>

locale versioned_table =
  fixes cell :: "'t \<Rightarrow> 'k \<Rightarrow> (int \<times> int) option"
    and cas :: "'k \<Rightarrow> int \<Rightarrow> int \<Rightarrow> 't \<Rightarrow> 't option"
    and inv :: "'t \<Rightarrow> bool"
  assumes cas_changes: "inv t \<Longrightarrow> cas k v d t = Some t' \<Longrightarrow>
    inv t' \<and> (\<exists>x. cell t k = Some (v, x) \<and> 0 \<le> x + d \<and> cell t' = (cell t)(k \<mapsto> (v + 1, x + d)))"
begin

definition advanced :: "'t \<Rightarrow> 't \<Rightarrow> bool" where
  \<comment> \<open>no cell goes away, versions only grow, and a cell with the same version has the same value\<close>
  "advanced t t' \<longleftrightarrow> (\<forall>k v x. cell t k = Some (v, x) \<longrightarrow>
     (\<exists>v' x'. cell t' k = Some (v', x') \<and> v \<le> v' \<and> (v' = v \<longrightarrow> x' = x)))"

lemma cas_advances: "inv t \<Longrightarrow> cas k v d t = Some t' \<Longrightarrow> advanced t t'"
  by (drule (1) cas_changes) (auto simp: advanced_def)

lemma advanced_refl [simp]: "advanced t t"
  by (auto simp: advanced_def)

lemma advanced_trans:
  assumes "advanced a b" "advanced b c"
  shows "advanced a c"
  unfolding advanced_def
proof (intro allI impI)
  fix k v x assume "cell a k = Some (v, x)"
  then obtain v1 x1 where 1: "cell b k = Some (v1, x1)" "v \<le> v1" "v1 = v \<longrightarrow> x1 = x"
    using assms(1) unfolding advanced_def by blast
  then obtain v2 x2 where "cell c k = Some (v2, x2)" "v1 \<le> v2" "v2 = v1 \<longrightarrow> x2 = x1"
    using assms(2) unfolding advanced_def by blast
  then show "\<exists>v' x'. cell c k = Some (v', x') \<and> v \<le> v' \<and> (v' = v \<longrightarrow> x' = x)" using 1 by auto
qed

lemma stale_fails: "inv t \<Longrightarrow> cell t k = Some (v', x) \<Longrightarrow> v' \<noteq> v \<Longrightarrow> cas k v d t = None"
  using cas_changes by (cases "cas k v d t") fastforce+

end

section \<open>Wallets as a versioned table\<close>

definition wallet_cell :: "CustomerWallet list \<Rightarrow> id \<Rightarrow> (int \<times> int) option" where
  "wallet_cell t i = map_option (\<lambda>w. (cw_version w, cw_balance w)) (find (\<lambda>w. cw_id w = i) t)"

definition wallet_cas :: "id \<Rightarrow> int \<Rightarrow> int \<Rightarrow> CustomerWallet list \<Rightarrow> CustomerWallet list option" where
  "wallet_cas i v d t = (case update_wallet i v d t of UpdatedRow _ t' \<Rightarrow> Some t' | _ \<Rightarrow> None)"

definition table_ok :: "CustomerWallet list \<Rightarrow> bool" where
  "table_ok t \<longleftrightarrow> distinct (map cw_id t) \<and> (\<forall>w\<in>set t. wallet_row_ok w)"

lemma find_id_version:
  assumes "distinct (map cw_id t)"
  shows "find (\<lambda>w. cw_id w = i \<and> cw_version w = v) t =
    (case find (\<lambda>w. cw_id w = i) t of None \<Rightarrow> None | Some w \<Rightarrow> if cw_version w = v then Some w else None)"
  using assms
proof (induction t)
  case (Cons w t)
  have "find (\<lambda>x. cw_id x = i \<and> cw_version x = v) t = None" if "cw_id w = i"
    using Cons.prems that by (auto simp: find_None_iff image_iff)
  then show ?case using Cons by (cases "cw_id w = i") auto
qed simp

lemma sql_update_one:
  assumes "distinct (map cw_id t)" "find (\<lambda>w. cw_id w = i) t = Some w" "cw_version w = v"
  shows "sql_update (\<lambda>x. cw_id x = i \<and> cw_version x = v) f t = sql_update (\<lambda>x. cw_id x = i) f t"
proof -
  have "cw_version x = v" if "x \<in> set t" "cw_id x = i" for x
  proof -
    have "w \<in> set t" "cw_id w = i" using find_SomeD [OF assms(2)] by auto
    then have "x = w" using that assms(1) by (simp add: distinct_map inj_on_def)
    then show ?thesis using assms(3) by simp
  qed
  then show ?thesis unfolding sql_update_def by (intro map_cong) auto
qed

lemma new_values_id [simp]: "cw_id (new_values d w) = cw_id w"
  by (simp add: new_values_def)

lemma update_wallet_Updated:
  assumes "table_ok t" "update_wallet i v d t = UpdatedRow row t'"
  shows "\<exists>w. find (\<lambda>w. cw_id w = i) t = Some w \<and> cw_version w = v \<and> row = new_values d w \<and>
    wallet_row_ok row \<and> t' = sql_update (\<lambda>x. cw_id x = i) (new_values d) t"
  using assms sql_update_one [of t i]
  by (auto simp: update_wallet_def table_ok_def find_id_version split: option.splits if_splits)

lemma update_wallet_NoRow:
  assumes "table_ok t"
  shows "update_wallet i v d t = NoRow \<longleftrightarrow> (\<forall>x. wallet_cell t i \<noteq> Some (v, x))"
  using assms by (auto simp: update_wallet_def table_ok_def find_id_version wallet_cell_def split: option.splits if_splits)

interpretation wt: versioned_table wallet_cell wallet_cas table_ok
proof unfold_locales
  fix t k v d t' assume ok: "table_ok t" and c: "wallet_cas k v d t = Some t'"
  obtain row where u: "update_wallet k v d t = UpdatedRow row t'"
    using c by (auto simp: wallet_cas_def split: update_result.splits)
  obtain w where w: "find (\<lambda>w. cw_id w = k) t = Some w" "cw_version w = v" "row = new_values d w" "wallet_row_ok row"
    "t' = sql_update (\<lambda>x. cw_id x = k) (new_values d) t" using update_wallet_Updated [OF ok u] by blast
  have ids: "map cw_id t' = map cw_id t" unfolding w(5) by (rule map_sql_update) (simp add: new_values_def)
  have "wallet_row_ok x" if x: "x \<in> set t'" for x
  proof (cases "cw_id x = k")
    case True
    then obtain y where y: "y \<in> set t" "cw_id y = k" "x = new_values d y"
      using x unfolding w(5) set_sql_update by (auto simp: new_values_def)
    then have "y = w" using ok find_SomeD [OF w(1)] by (auto simp: table_ok_def distinct_map inj_on_def)
    then show ?thesis using y(3) w(3,4) by simp
  next
    case False
    then show ?thesis using x ok unfolding w(5) set_sql_update by (auto simp: table_ok_def new_values_def)
  qed
  then have "table_ok t'" using ok ids by (simp add: table_ok_def)
  moreover have "wallet_cell t' = (wallet_cell t)(k \<mapsto> (v + 1, cw_balance w + d))"
    using w(1,2) by (auto simp: wallet_cell_def w(5) find_key_update new_values_def fun_eq_iff)
  moreover have "0 \<le> cw_balance w + d" using w(3,4) by (simp add: wallet_row_ok_def new_values_def)
  ultimately show "table_ok t' \<and> (\<exists>x. wallet_cell t k = Some (v, x) \<and> 0 \<le> x + d \<and>
      wallet_cell t' = (wallet_cell t)(k \<mapsto> (v + 1, x + d)))"
    using w(1,2) by (auto simp: wallet_cell_def)
qed


section \<open>The invariant of the system\<close>

definition committed_at :: "id \<Rightarrow> call_phase \<Rightarrow> bool" where
  "committed_at k ph = (case ph of Finished (WalletUpdated w) \<Rightarrow> cw_id w = k | _ \<Rightarrow> False)"

definition committed :: "call_phase \<Rightarrow> bool" where
  "committed ph = (case ph of Finished (WalletUpdated w) \<Rightarrow> True | _ \<Rightarrow> False)"

definition requested_units :: "(jsnum \<Rightarrow> string) \<Rightarrow> wallet_call \<Rightarrow> int" where
  \<comment> \<open>what a call asks to add to the balance\<close>
  "requested_units js_string c = (case toWalletAmount js_string (wc_amount c) of
     None \<Rightarrow> 0 | Some val \<Rightarrow> call_delta c val)"

definition net_change :: "(jsnum \<Rightarrow> string) \<Rightarrow> id \<Rightarrow> (wallet_call \<times> call_phase) list \<Rightarrow> int" where
  "net_change js_string k cs = sum_list (map (\<lambda>(c, ph). if committed_at k ph then requested_units js_string c else 0) cs)"

definition commits_at :: "id \<Rightarrow> (wallet_call \<times> call_phase) list \<Rightarrow> int" where
  "commits_at k cs = sum_list (map (\<lambda>(c, ph). if committed_at k ph then 1 else 0) cs)"

definition commits :: "(wallet_call \<times> call_phase) list \<Rightarrow> int" where
  "commits cs = sum_list (map (\<lambda>(c, ph). if committed ph then 1 else 0) cs)"

fun phase_ok :: "(jsnum \<Rightarrow> string) \<Rightarrow> CustomerWallet list \<Rightarrow> int \<Rightarrow> wallet_call \<times> call_phase \<Rightarrow> bool" where
  "phase_ok js_string t n (c, Entered) \<longleftrightarrow> True"
| "phase_ok js_string t n (c, Reading val a) \<longleftrightarrow>
     toWalletAmount js_string (wc_amount c) = Some val \<and> 1 \<le> a \<and> a \<le> 4 \<and> int a - 1 \<le> n"
| "phase_ok js_string t n (c, Writing val a w) \<longleftrightarrow>
     toWalletAmount js_string (wc_amount c) = Some val \<and> 1 \<le> a \<and> a \<le> 4 \<and> 0 \<le> cw_balance w + call_delta c val \<and>
     (\<exists>v b. wallet_cell t (cw_id w) = Some (v, b) \<and> cw_version w \<le> v \<and> (v = cw_version w \<longrightarrow> b = cw_balance w) \<and>
        int a - 1 + (v - cw_version w) \<le> n)"
| "phase_ok js_string t n (c, Finished (ConcurrentModification u q m)) \<longleftrightarrow> 4 \<le> n"
| "phase_ok js_string t n (c, Finished r) \<longleftrightarrow> True"

definition system_ok :: "(jsnum \<Rightarrow> string) \<Rightarrow> CustomerWallet list \<Rightarrow> wallet_system \<Rightarrow> bool" where
  "system_ok js_string t0 s \<longleftrightarrow> table_ok (ws_table s) \<and>
     (\<forall>k. wallet_cell (ws_table s) k = map_option
        (\<lambda>(v, b). (v + commits_at k (ws_calls s), b + net_change js_string k (ws_calls s))) (wallet_cell t0 k)) \<and>
     (\<forall>p\<in>set (ws_calls s). phase_ok js_string (ws_table s) (commits (ws_calls s)) p)"

text \<open>One call moves: nothing is written, or its update goes through.\<close>

lemma step_cases:
  assumes "table_ok t" "applyWalletDelta_step js_string c ph t = (ph', t')" "phase_ok js_string t n (c, ph)" "0 \<le> n"
  shows "(t' = t \<and> (committed ph' \<longleftrightarrow> committed ph) \<and> (\<forall>k. committed_at k ph' \<longleftrightarrow> committed_at k ph) \<and>
      phase_ok js_string t n (c, ph')) \<or>
    (\<exists>val a w row. ph = Writing val a w \<and> ph' = Finished (WalletUpdated row) \<and> cw_id row = cw_id w \<and>
      wallet_cas (cw_id w) (cw_version w) (requested_units js_string c) t = Some t')"
proof (cases ph)
  case Entered
  then show ?thesis using assms by (auto simp: committed_def committed_at_def split: option.splits)
next
  case (Reading val a)
  show ?thesis
  proof (cases "getWallet (wc_user c) (wc_currency c) t")
    case None
    then show ?thesis using assms Reading by (auto simp: committed_def committed_at_def)
  next
    case (Some w)
    obtain w' where "find (\<lambda>x. cw_id x = cw_id w) t = Some w'" "w' \<in> set t" "cw_id w' = cw_id w"
      using Some find_SomeD unfolding getWallet_def
      by (metis (mono_tags, lifting) find_None_iff option.exhaust)
    moreover have "w \<in> set t" using Some find_SomeD unfolding getWallet_def by fastforce
    ultimately have "wallet_cell t (cw_id w) = Some (cw_version w, cw_balance w)"
      using assms(1) by (auto simp: table_ok_def distinct_map inj_on_def wallet_cell_def)
    then show ?thesis using assms Reading Some by (auto simp: committed_def committed_at_def split: if_splits)
  qed
next
  case (Writing val a w)
  then have val: "requested_units js_string c = call_delta c val"
    using assms(3) by (simp add: requested_units_def)
  show ?thesis
  proof (cases "update_wallet (cw_id w) (cw_version w) (call_delta c val) t")
    case NoRow
    obtain v b where v: "wallet_cell t (cw_id w) = Some (v, b)" "cw_version w \<le> v" "int a - 1 + (v - cw_version w) \<le> n"
      using assms(3) Writing by auto
    then have "cw_version w < v" using NoRow update_wallet_NoRow [OF assms(1)] by (metis order_le_imp_less_or_eq)
    then show ?thesis using assms Writing NoRow v
      by (auto simp: committed_def committed_at_def WALLET_UPDATE_MAX_RETRIES_def split: if_splits)
  next
    case DbError
    then show ?thesis using assms Writing by (auto simp: committed_def committed_at_def)
  next
    case (UpdatedRow row t2)
    then have "cw_id row = cw_id w" using update_wallet_Updated [OF assms(1) UpdatedRow] find_SomeD by fastforce
    then show ?thesis using assms Writing UpdatedRow val by (auto simp: wallet_cas_def)
  qed
next
  case (Finished r)
  then show ?thesis using assms by auto
qed


lemma phase_ok_advance:
  assumes "phase_ok js_string t n (c, ph)" "wt.advanced t t'" "n \<le> n'"
    "\<And>k v b v' b'. wallet_cell t k = Some (v, b) \<Longrightarrow> wallet_cell t' k = Some (v', b') \<Longrightarrow> v' - v \<le> n' - n"
  shows "phase_ok js_string t' n' (c, ph)"
proof (cases ph)
  case (Writing val a w)
  then obtain v b where v: "wallet_cell t (cw_id w) = Some (v, b)" "cw_version w \<le> v"
      "v = cw_version w \<longrightarrow> b = cw_balance w" "int a - 1 + (v - cw_version w) \<le> n" using assms(1) by auto
  then obtain v' b' where v': "wallet_cell t' (cw_id w) = Some (v', b')" "v \<le> v'" "v' = v \<longrightarrow> b' = b"
    using assms(2) unfolding wt.advanced_def by blast
  then show ?thesis using v Writing assms(1) assms(4) [OF v(1) v'(1)] by auto
next
  case (Finished r)
  then show ?thesis using assms(1,3) by (cases r) auto
qed (use assms in auto)

lemma tally_update:
  fixes f :: "wallet_call \<times> call_phase \<Rightarrow> int"
  assumes "i < length cs" "cs ! i = p"
  shows "sum_list (map f (cs[i := q])) = sum_list (map f cs) + f q - f p"
  using assms
proof (induction cs arbitrary: i)
  case (Cons x cs)
  then show ?case by (cases i) auto
qed simp

lemmas tallies = net_change_def commits_at_def commits_def

lemma commits_nonneg: "0 \<le> commits cs"
  by (auto simp: commits_def intro!: sum_list_nonneg)

lemma wallet_step_ok:
  assumes "wallet_step js_string s s'" "system_ok js_string t0 s"
  shows "system_ok js_string t0 s'"
  using assms(1)
proof (rule wallet_stepE)
  fix i c ph ph' t' assume s': "s' = \<lparr>ws_table = t', ws_calls = (ws_calls s)[i := (c, ph')]\<rparr>"
    and i: "i < length (ws_calls s)" "ws_calls s ! i = (c, ph)"
    and st: "applyWalletDelta_step js_string c ph (ws_table s) = (ph', t')"
  let ?t = "ws_table s" and ?cs = "ws_calls s" and ?n = "commits (ws_calls s)"
  have ok: "table_ok ?t" "phase_ok js_string ?t ?n (c, ph)"
    using assms(2) i unfolding system_ok_def by (auto dest: nth_mem)
  consider (quiet) "t' = ?t" "committed ph' \<longleftrightarrow> committed ph" "\<forall>k. committed_at k ph' \<longleftrightarrow> committed_at k ph"
      "phase_ok js_string ?t ?n (c, ph')"
    | (commit) val a w row where "ph = Writing val a w" "ph' = Finished (WalletUpdated row)" "cw_id row = cw_id w"
      "wallet_cas (cw_id w) (cw_version w) (requested_units js_string c) ?t = Some t'"
    using step_cases [OF ok(1) st ok(2) commits_nonneg] by blast
  then show ?thesis
  proof cases
    case quiet
    have "net_change js_string k (?cs[i := (c, ph')]) = net_change js_string k ?cs"
      "commits_at k (?cs[i := (c, ph')]) = commits_at k ?cs" "commits (?cs[i := (c, ph')]) = ?n" for k
      using quiet(2,3) by (simp_all add: tallies tally_update [OF i])
    then show ?thesis using assms(2) quiet(1,4) s' set_update_subset_insert [of ?cs i "(c, ph')"]
      by (auto simp: system_ok_def)
  next
    case commit
    let ?k = "cw_id w" and ?d = "requested_units js_string c"
    obtain x where x: "table_ok t'" "wallet_cell ?t ?k = Some (cw_version w, x)"
        "wallet_cell t' = (wallet_cell ?t)(?k \<mapsto> (cw_version w + 1, x + ?d))"
      using wt.cas_changes [OF ok(1) commit(4)] by blast
    have tally: "net_change js_string k (?cs[i := (c, ph')]) = net_change js_string k ?cs + (if k = ?k then ?d else 0)"
      "commits_at k (?cs[i := (c, ph')]) = commits_at k ?cs + (if k = ?k then 1 else 0)"
      "commits (?cs[i := (c, ph')]) = ?n + 1" for k
      using commit(1-3) by (auto simp: tallies tally_update [OF i] committed_def committed_at_def)
    have "wallet_cell t' k = map_option (\<lambda>(v, b). (v + commits_at k (?cs[i := (c, ph')]),
        b + net_change js_string k (?cs[i := (c, ph')]))) (wallet_cell t0 k)" for k
      using assms(2) x(2,3) unfolding system_ok_def tally by (auto split: option.splits)
    moreover have "phase_ok js_string t' (?n + 1) p" if "p \<in> set (?cs[i := (c, ph')])" for p
    proof -
      have "p = (c, ph') \<or> phase_ok js_string ?t ?n p"
        using that assms(2) set_update_subset_insert unfolding system_ok_def by fastforce
      moreover have "v' - v \<le> ?n + 1 - ?n" if "wallet_cell ?t k = Some (v, b)" "wallet_cell t' k = Some (v', b')" for k v b v' b'
        using that x(2,3) by (auto split: if_splits)
      ultimately show ?thesis
        using commit(2) phase_ok_advance [OF _ wt.cas_advances [OF ok(1) commit(4)], of js_string ?n]
        by (cases p) auto
    qed
    ultimately show ?thesis using x(1) s' tally(3) by (simp add: system_ok_def)
  qed
qed


section \<open>Properties\<close>

definition wallet_runs :: "(jsnum \<Rightarrow> string) \<Rightarrow> wallet_system \<Rightarrow> wallet_system \<Rightarrow> bool" where
  "wallet_runs js_string = (wallet_step js_string)\<^sup>*\<^sup>*"

definition start_system :: "CustomerWallet list \<Rightarrow> wallet_call list \<Rightarrow> wallet_system" where
  "start_system t cs = \<lparr>ws_table = t, ws_calls = map (\<lambda>c. (c, Entered)) cs\<rparr>"

lemma start_system_ok: "table_ok t \<Longrightarrow> system_ok js_string t (start_system t cs)"
proof -
  have "net_change js_string k (map (\<lambda>c. (c, Entered)) cs) = 0" "commits_at k (map (\<lambda>c. (c, Entered)) cs) = 0" for k
    by (induction cs) (auto simp: net_change_def commits_at_def committed_at_def)
  moreover assume "table_ok t"
  ultimately show ?thesis by (auto simp: system_ok_def start_system_def map_option.identity [unfolded id_def] split_def
    intro: option.map_ident_strong [symmetric])
qed

lemma wallet_runs_ok: "wallet_runs js_string s s' \<Longrightarrow> system_ok js_string t0 s \<Longrightarrow> system_ok js_string t0 s'"
  unfolding wallet_runs_def by (induction rule: rtranclp_induct) (auto intro: wallet_step_ok)

definition demo_wallets :: "CustomerWallet list" where
  "demo_wallets = [\<lparr>cw_id = ''w1'', cw_user = ''u1'', cw_currency = ''XAF'', cw_balance = 100 * 10 ^ 7, cw_version = 0\<rparr>]"

definition demo_call :: "string \<Rightarrow> direction \<Rightarrow> wallet_call" where
  "demo_call a d = \<lparr>wc_user = ''u1'', wc_currency = ''XAF'', wc_amount = AmountText a, wc_direction = d\<rparr>"

fun demo_schedule :: "nat list \<Rightarrow> wallet_system \<Rightarrow> wallet_system" where
  "demo_schedule [] s = s"
| "demo_schedule (i # is) s = (case ws_calls s ! i of (c, ph) \<Rightarrow>
     (case applyWalletDelta_step (\<lambda>_. []) c ph (ws_table s) of
        (ph', t') \<Rightarrow> demo_schedule is \<lparr>ws_table = t', ws_calls = (ws_calls s)[i := (c, ph')]\<rparr>))"

lemma demo_schedule_runs:
  "\<forall>i\<in>set is. i < length (ws_calls s) \<Longrightarrow> wallet_runs (\<lambda>_. []) s (demo_schedule is s)"
proof (induction "is" arbitrary: s)
  case (Cons i "is")
  obtain c ph where cp: "ws_calls s ! i = (c, ph)" by force
  obtain ph' t' where st: "applyWalletDelta_step (\<lambda>_. []) c ph (ws_table s) = (ph', t')" by force
  let ?s = "\<lparr>ws_table = t', ws_calls = (ws_calls s)[i := (c, ph')]\<rparr>"
  have "wallet_step (\<lambda>_. []) s ?s" using Cons.prems by (intro wallet_step.query [OF _ cp st]) simp
  moreover have "wallet_runs (\<lambda>_. []) ?s (demo_schedule is ?s)" using Cons by simp
  ultimately show ?case unfolding wallet_runs_def using cp st by (simp add: converse_rtranclp_into_rtranclp)
qed (simp add: wallet_runs_def)

text \<open>
  C2. Concurrent changes are never lost and never applied twice. However the queries of any number of
  debits and credits interleave, the balance of every wallet is at every moment its old balance plus
  the amounts of exactly those calls that reported success, its version has grown by their number,
  and no balance is negative.
\<close>

theorem no_lost_update:
  assumes "table_ok t" "wallet_runs js_string (start_system t cs) s"
  shows "(\<forall>k. wallet_cell (ws_table s) k = map_option
      (\<lambda>(v, b). (v + commits_at k (ws_calls s), b + net_change js_string k (ws_calls s))) (wallet_cell t k)) \<and>
    (\<forall>w\<in>set (ws_table s). 0 \<le> cw_balance w)"
  using wallet_runs_ok [OF assms(2) start_system_ok [OF assms(1)]]
  by (auto simp: system_ok_def table_ok_def wallet_row_ok_def)

theorem no_lost_update_witness:
  "\<exists>s. wallet_runs (\<lambda>_. []) (start_system demo_wallets [demo_call ''60'' Debit, demo_call ''60'' Debit]) s \<and>
     (\<forall>w\<in>set (ws_table s). 0 \<le> cw_balance w)"
proof -
  let ?s0 = "start_system demo_wallets [demo_call ''60'' Debit, demo_call ''60'' Debit]"
  have "table_ok demo_wallets" by (simp add: table_ok_def demo_wallets_def wallet_row_ok_def)
  moreover have "wallet_runs (\<lambda>_. []) ?s0 (demo_schedule [0, 1, 0, 1, 0, 1, 1] ?s0)"
    by (rule demo_schedule_runs) (simp add: start_system_def)
  ultimately show ?thesis using no_lost_update by blast
qed

text \<open>
  A call reports a concurrent modification only under real contention: whenever one gives up
  after its four attempts, at least four other calls have committed meanwhile.
\<close>

theorem conflict_means_contention:
  assumes "table_ok t" "wallet_runs js_string (start_system t cs) s"
    "(c, Finished (ConcurrentModification u q n)) \<in> set (ws_calls s)"
  shows "4 \<le> length (filter (\<lambda>(c, ph). committed ph) (ws_calls s))"
proof -
  have "4 \<le> commits (ws_calls s)"
    using wallet_runs_ok [OF assms(2) start_system_ok [OF assms(1)]] assms(3) by (fastforce simp: system_ok_def)
  moreover have "commits xs = int (length (filter (\<lambda>(c, ph). committed ph) xs))" for xs
    by (induction xs) (auto simp: commits_def)
  ultimately show ?thesis by simp
qed


theorem conflict_means_contention_witness:
  "\<exists>s. wallet_runs (\<lambda>_. []) (start_system demo_wallets (map (\<lambda>a. demo_call a Debit) [''1'', ''2'', ''3'', ''4'', ''5''])) s \<and>
     4 \<le> length (filter (\<lambda>(c, ph). committed ph) (ws_calls s))"
proof -
  let ?start = "start_system demo_wallets (map (\<lambda>a. demo_call a Debit) [''1'', ''2'', ''3'', ''4'', ''5''])"
  let ?s = "demo_schedule [0, 0, 1, 1, 1, 0, 0, 2, 2, 2, 0, 0, 3, 3, 3, 0, 0, 4, 4, 4, 0] ?start"
  have ok: "table_ok demo_wallets" by (simp add: table_ok_def demo_wallets_def wallet_row_ok_def)
  have run: "wallet_runs (\<lambda>_. []) ?start ?s" by (rule demo_schedule_runs) (simp add: start_system_def)
  have "(demo_call ''1'' Debit, Finished (ConcurrentModification ''u1'' ''XAF'' 4)) \<in> set (ws_calls ?s)" by code_simp
  from conflict_means_contention [OF ok run this] show ?thesis by (intro exI [of _ ?s] conjI run)
qed

definition phase_rank :: "call_phase \<Rightarrow> nat" where
  "phase_rank ph = (case ph of Entered \<Rightarrow> 9 | Reading _ a \<Rightarrow> 2 * (4 - a) + 2 | Writing _ a _ \<Rightarrow> 2 * (4 - a) + 1 | Finished _ \<Rightarrow> 0)"

fun attempt_ok :: "call_phase \<Rightarrow> bool" where
  "attempt_ok (Reading _ a) \<longleftrightarrow> a \<le> 4"
| "attempt_ok (Writing _ a _) \<longleftrightarrow> a \<le> 4"
| "attempt_ok _ \<longleftrightarrow> True"

lemma step_rank:
  assumes "attempt_ok ph"
  shows "attempt_ok (fst (applyWalletDelta_step js_string c ph t)) \<and>
    phase_rank (fst (applyWalletDelta_step js_string c ph t)) \<le> phase_rank ph - 1"
  using assms
  by (cases ph) (auto simp: phase_rank_def WALLET_UPDATE_MAX_RETRIES_def split: option.splits update_result.splits)

lemma rank_after:
  "attempt_ok ph \<Longrightarrow> attempt_ok (fold (\<lambda>t ph. fst (applyWalletDelta_step js_string c ph t)) ts ph) \<and>
     phase_rank (fold (\<lambda>t ph. fst (applyWalletDelta_step js_string c ph t)) ts ph) \<le> phase_rank ph - length ts"
proof (induction ts arbitrary: ph)
  case (Cons t ts)
  then show ?case using step_rank [OF Cons.prems, of js_string c t]
    Cons.IH [of "fst (applyWalletDelta_step js_string c ph t)"] by fastforce
qed simp

text \<open>
  A call always returns. Whatever other calls do to the table between its queries, it is finished
  after the check of the amount and eight queries.
\<close>

theorem wallet_call_returns:
  assumes "length ts = 9"
  shows "\<exists>r. fold (\<lambda>t ph. fst (applyWalletDelta_step js_string c ph t)) ts Entered = Finished r"
proof -
  let ?ph = "fold (\<lambda>t ph. fst (applyWalletDelta_step js_string c ph t)) ts Entered"
  have "phase_rank ?ph = 0" "attempt_ok ?ph"
    using rank_after [of Entered js_string c ts] assms by (simp_all add: phase_rank_def)
  then show ?thesis by (cases ?ph) (auto simp: phase_rank_def)
qed

theorem wallet_call_returns_witness:
  "\<exists>r. fold (\<lambda>t ph. fst (applyWalletDelta_step (\<lambda>_. []) (demo_call ''7'' Debit) ph t))
     (replicate 9 demo_wallets) Entered = Finished r"
  by (rule wallet_call_returns) simp

text \<open>
  A debit that meets no other call does what it says: for a valid amount it either takes exactly
  the amount from the wallet and moves its version on, when the balance covers it, or changes nothing
  and reports the funds as insufficient.
\<close>

theorem debit_alone:
  assumes "table_ok t" "toWalletAmount js_string amount = Some val" "getWallet u cur t = Some w"
    "cw_version w < 2 ^ 31 - 1"
  shows "debitWallet js_string u cur amount t =
    (if amount_units val \<le> cw_balance w
     then (Finished (WalletUpdated (new_values (- amount_units val) w)),
           sql_update (\<lambda>x. cw_id x = cw_id w) (new_values (- amount_units val)) t)
     else (Finished (InsufficientFunds u cur (cw_balance w) val), t))"
proof -
  have nine: "9 = Suc (Suc (Suc 6))" by simp
  have fin: "run_call js_string n c (Finished r) t = (Finished r, t)" for n c r t by (induction n) simp_all
  have w: "w \<in> set t" using assms(3) find_SomeD unfolding getWallet_def by fastforce
  have f: "find (\<lambda>x. cw_id x = cw_id w) t = Some w"
    using w assms(1) by (induction t) (auto simp: table_ok_def image_iff)
  have nonneg: "0 \<le> amount_units val" by (auto simp: amount_units_def split: list.splits)
  have row: "wallet_row_ok (new_values (- amount_units val) w)" if "amount_units val \<le> cw_balance w"
    using that w assms(1,4) nonneg by (fastforce simp: table_ok_def wallet_row_ok_def new_values_def)
  have upd: "update_wallet (cw_id w) (cw_version w) (- amount_units val) t =
      UpdatedRow (new_values (- amount_units val) w) (sql_update (\<lambda>x. cw_id x = cw_id w) (new_values (- amount_units val)) t)"
    if "amount_units val \<le> cw_balance w"
    using row [OF that] f assms(1) sql_update_one [OF _ f refl]
    by (simp add: update_wallet_def find_id_version table_ok_def)
  show ?thesis unfolding debitWallet_def applyWalletDelta_def nine run_call.simps
    using assms(2,3) upd by (simp add: call_delta_def fin)
qed

theorem debit_alone_witness:
  "debitWallet (\<lambda>_. []) ''u1'' ''XAF'' (AmountText ''7.5'') demo_wallets =
     (Finished (WalletUpdated (new_values (- 75000000) (hd demo_wallets))),
      sql_update (\<lambda>x. cw_id x = ''w1'') (new_values (- 75000000)) demo_wallets)"
proof -
  have e: "toWalletAmount (\<lambda>_. []) (AmountText ''7.5'') = Some ''7.5''" "amount_units ''7.5'' = 75000000"
    "getWallet ''u1'' ''XAF'' demo_wallets = Some (hd demo_wallets)" by code_simp+
  have "table_ok demo_wallets" by (simp add: table_ok_def demo_wallets_def wallet_row_ok_def)
  from debit_alone [OF this e(1,3)] e(2) show ?thesis by (simp add: demo_wallets_def)
qed

end
