(* ===== verification/Fees.thy ===== *)
theory Fees
  imports Prelude
begin

text \<open>
  Fee calculation: the VIP tiers and the clamped percentage fee (\<^verbatim>\<open>src/utils/fees.ts\<close>), the itemized
  SEP-31 fee (\<^verbatim>\<open>src/services/feeCalculator.ts\<close>) and the distribution of a collected fee over its
  recipients (\<^verbatim>\<open>src/services/feeDistributionEngine.ts\<close>).

  The numbers read from the environment, the active fee configuration of the database and the
  user's thirty-day volume are arguments. All arithmetic is that of binary64 numbers
  (\<open>Js_Number\<close>); \<open>js_toFixed f x\<close> is \<^verbatim>\<open>parseFloat(x.toFixed(f))\<close>.
\<close>

section \<open>Tiers\<close>

datatype VipTier = STANDARD | SILVER | GOLD | PLATINUM | DIAMOND

record TierConfig =
  tc_tier :: VipTier
  minVolume :: int
  discountPercent :: int

definition VIP_TIERS :: "TierConfig list" where
  "VIP_TIERS =
     [\<lparr>tc_tier = DIAMOND, minVolume = 50000, discountPercent = 65\<rparr>,
      \<lparr>tc_tier = PLATINUM, minVolume = 20000, discountPercent = 50\<rparr>,
      \<lparr>tc_tier = GOLD, minVolume = 5000, discountPercent = 35\<rparr>,
      \<lparr>tc_tier = SILVER, minVolume = 1000, discountPercent = 20\<rparr>,
      \<lparr>tc_tier = STANDARD, minVolume = 0, discountPercent = 0\<rparr>]"

definition mapVolumeToTier :: "jsnum \<Rightarrow> TierConfig" where
  "mapVolumeToTier volume =
     (case find (\<lambda>t. js_le (js_int (minVolume t)) volume) VIP_TIERS of
        Some t \<Rightarrow> t | None \<Rightarrow> last VIP_TIERS)"

section \<open>The clamped percentage fee\<close>

record fee_config =
  fc_percentage :: jsnum
  fc_minimum :: jsnum
  fc_maximum :: jsnum
  fc_name :: string

record FeeResult =
  fr_fee :: jsnum
  fr_total :: jsnum
  fr_configUsed :: string

definition clamp :: "jsnum \<Rightarrow> jsnum \<Rightarrow> jsnum \<Rightarrow> jsnum" where
  \<comment> \<open>\<^verbatim>\<open>if (fee < min) fee = min; if (fee > max) fee = max;\<close>\<close>
  "clamp lo hi fee = (let f1 = (if js_lt fee lo then lo else fee) in if js_lt hi f1 then hi else f1)"

definition calculateFeeSync :: "fee_config \<Rightarrow> jsnum \<Rightarrow> FeeResult" where
  \<comment> \<open>the configuration holds the environment's numbers\<close>
  "calculateFeeSync env amount =
     (let fee = clamp (fc_minimum env) (fc_maximum env)
                  (js_mul amount (js_div (fc_percentage env) (js_int 100)))
      in \<lparr>fr_fee = js_toFixed 2 fee, fr_total = js_toFixed 2 (js_add amount fee),
          fr_configUsed = ''env_fallback''\<rparr>)"

definition serviceCalculateFee :: "fee_config \<Rightarrow> jsnum \<Rightarrow> FeeResult option" where
  \<comment> \<open>\<^verbatim>\<open>feeService.calculateFee\<close> with the active configuration. Its bounds are \<^verbatim>\<open>DECIMAL\<close> columns, which the
     driver returns as text: the comparisons convert them, but a fee that became a bound is a text,
     which has no \<^verbatim>\<open>toFixed\<close>. \<open>None\<close> is the \<^verbatim>\<open>TypeError\<close>.\<close>
  "serviceCalculateFee config amount =
     (let fee = js_mul amount (js_div (fc_percentage config) (js_int 100))
      in if js_lt fee (fc_minimum config) \<or> js_lt (fc_maximum config) fee then None
         else Some \<lparr>fr_fee = js_toFixed 2 fee, fr_total = js_toFixed 2 (js_add amount fee),
                fr_configUsed = fc_name config\<rparr>)"

definition calculateFee :: "fee_config \<Rightarrow> fee_config option \<Rightarrow> jsnum \<Rightarrow> FeeResult" where
  \<comment> \<open>no active configuration, or a failing service, falls back to the environment\<close>
  "calculateFee env active amount =
     (case Option.bind active (\<lambda>config. serviceCalculateFee config amount) of
        Some r \<Rightarrow> r | None \<Rightarrow> calculateFeeSync env amount)"

record VipFeeResult =
  vf_fee :: jsnum
  vf_total :: jsnum
  vf_tier :: VipTier
  vf_discountPercent :: int
  vf_thirtyDayVolume :: jsnum
  vf_configUsed :: string

definition tier_multiplier :: "TierConfig \<Rightarrow> jsnum" where
  "tier_multiplier t = js_sub (js_int 1) (js_div (js_int (discountPercent t)) (js_int 100))"

definition calculateFeeForUser ::
  "fee_config \<Rightarrow> fee_config option \<Rightarrow> jsnum \<Rightarrow> jsnum \<Rightarrow> VipFeeResult" where
  "calculateFeeForUser env active thirtyDayVolume amount =
     (let tierConfig = mapVolumeToTier thirtyDayVolume;
          cfg = (case active of Some c \<Rightarrow> c | None \<Rightarrow> env\<lparr>fc_name := ''env_fallback''\<rparr>);
          multiplier = tier_multiplier tierConfig;
          effectiveRate = js_mul (fc_percentage cfg) multiplier;
          discountedMin = js_mul (fc_minimum cfg) multiplier;
          discountedMax = js_mul (fc_maximum cfg) multiplier;
          fee = clamp discountedMin discountedMax (js_mul amount (js_div effectiveRate (js_int 100)))
      in \<lparr>vf_fee = js_toFixed 2 fee, vf_total = js_toFixed 2 (js_add amount fee),
          vf_tier = tc_tier tierConfig, vf_discountPercent = discountPercent tierConfig,
          vf_thirtyDayVolume = thirtyDayVolume, vf_configUsed = fc_name cfg\<rparr>)"

section \<open>The itemized fee\<close>

definition UNIT :: jsnum where
  "UNIT = js_int (10 ^ 7)"

definition toUnits :: "jsnum \<Rightarrow> jsnum" where
  "toUnits amount = js_round (js_mul amount UNIT)"

record FeeCalculation =
  fcal_fee :: jsnum
  fcal_total :: jsnum
  fcal_units :: "jsnum list"

definition sep31CalculateFee :: "jsnum \<Rightarrow> jsnum \<Rightarrow> jsnum \<Rightarrow> jsnum \<Rightarrow> FeeCalculation" where
  \<comment> \<open>base network fee, processing fee and margin percent after their defaults; the units of the
     three details are kept instead of their formatted text\<close>
  "sep31CalculateFee amount base processing marginPercent =
     (let baseNetworkFee = toUnits base;
          providerProcessingFee = toUnits processing;
          fxConversionMargin = toUnits (js_div (js_mul amount marginPercent) (js_int 100));
          feeUnits = js_add (js_add baseNetworkFee providerProcessingFee) fxConversionMargin;
          fee = js_div feeUnits UNIT
      in \<lparr>fcal_fee = fee, fcal_total = js_toFixed 7 (js_add amount fee),
          fcal_units = [baseNetworkFee, providerProcessingFee, fxConversionMargin]\<rparr>)"

section \<open>Distribution\<close>

datatype FeeDistributionRecipientType =
  Platform_treasury | Referral_program | Provider_rebate | Liquidity_pool | Charity

record FeeDistributionShare =
  sh_recipientType :: FeeDistributionRecipientType
  sh_percentage :: jsnum
  sh_recipientId :: "id option"

record FeeDistributionRule =
  ru_id :: id
  ru_name :: string
  ru_shares :: "FeeDistributionShare list"

record FeeDistributionShareResult =
  sr_recipientType :: FeeDistributionRecipientType
  sr_recipientId :: "id option"
  sr_amount :: jsnum
  sr_percentage :: jsnum

record FeeDistributionResult =
  di_ruleId :: id
  di_ruleName :: string
  di_totalFee :: jsnum
  di_shares :: "FeeDistributionShareResult list"
  di_remainderAppliedTo :: "FeeDistributionRecipientType option"

datatype share_error = NoShares | InvalidPercentage jsnum FeeDistributionRecipientType | SharesDoNotSum jsnum

datatype distribution_error = InvalidRule string "share_error list" | NegativeFee jsnum

definition PERCENTAGE_TOLERANCE :: jsnum where
  "PERCENTAGE_TOLERANCE = num (1 / 10000)"

definition validateFeeDistributionShares :: "FeeDistributionShare list \<Rightarrow> share_error list" where
  \<comment> \<open>valid when no error is reported\<close>
  "validateFeeDistributionShares shares =
     (if shares = [] then [NoShares]
      else
        map (\<lambda>s. InvalidPercentage (sh_percentage s) (sh_recipientType s))
          (filter (\<lambda>s. \<not> js_lt (Fin 0) (sh_percentage s) \<or> js_lt (js_int 100) (sh_percentage s)) shares) @
        (let total = foldl (\<lambda>sum s. js_add sum (sh_percentage s)) (Fin 0) shares
         in if js_lt PERCENTAGE_TOLERANCE (js_abs (js_sub total (js_int 100)))
            then [SharesDoNotSum total] else []))"

definition share_amount :: "jsnum \<Rightarrow> jsnum \<Rightarrow> jsnum \<Rightarrow> jsnum" where
  "share_amount factor totalFee percentage =
     js_div (js_floor (js_mul (js_div (js_mul totalFee percentage) (js_int 100)) factor)) factor"

fun largest_index :: "nat \<Rightarrow> nat \<Rightarrow> jsnum \<Rightarrow> FeeDistributionShareResult list \<Rightarrow> nat" where
  \<comment> \<open>\<^verbatim>\<open>reduce((max, s) => s.amount > max.amount ? s : max, shares[0])\<close>, as an index\<close>
  "largest_index best i m [] = best"
| "largest_index best i m (s # ss) =
     (if js_lt m (sr_amount s) then largest_index i (i + 1) (sr_amount s) ss
      else largest_index best (i + 1) m ss)"

definition distributeFee ::
  "FeeDistributionRule \<Rightarrow> jsnum \<Rightarrow> nat \<Rightarrow> distribution_error + FeeDistributionResult" where
  "distributeFee rule totalFee precision =
     (let errors = validateFeeDistributionShares (ru_shares rule) in
      if errors \<noteq> [] then Inl (InvalidRule (ru_name rule) errors)
      else if js_lt totalFee (Fin 0) then Inl (NegativeFee totalFee)
      else
        let factor = js_int (10 ^ precision);
            shares = map (\<lambda>s. \<lparr>sr_recipientType = sh_recipientType s, sr_recipientId = sh_recipientId s,
                       sr_amount = share_amount factor totalFee (sh_percentage s),
                       sr_percentage = sh_percentage s\<rparr>) (ru_shares rule);
            distributed = foldl (\<lambda>sum s. js_add sum (sr_amount s)) (Fin 0) shares;
            remainder = js_div (js_round (js_mul (js_sub totalFee distributed) factor)) factor
        in if \<not> js_eq remainder (Fin 0) \<and> shares \<noteq> [] then
             let i = largest_index 0 0 (sr_amount (hd shares)) shares;
                 largest = shares ! i;
                 amount = js_div (js_round (js_mul (js_add (sr_amount largest) remainder) factor)) factor
             in Inr \<lparr>di_ruleId = ru_id rule, di_ruleName = ru_name rule, di_totalFee = totalFee,
                     di_shares = shares[i := largest\<lparr>sr_amount := amount\<rparr>],
                     di_remainderAppliedTo = Some (sr_recipientType largest)\<rparr>
           else Inr \<lparr>di_ruleId = ru_id rule, di_ruleName = ru_name rule, di_totalFee = totalFee,
                     di_shares = shares, di_remainderAppliedTo = None\<rparr>)"

section \<open>Monotonicity\<close>

lemma num_bounded:
  assumes "0 \<le> x" "x \<le> b" "wf_num (Fin b)"
  shows "num x = Fin (dround x)" "0 \<le> dround x" "dround x \<le> b" "wf_num (Fin (dround x))"
proof -
  have b: "dround b = b" "\<bar>b\<bar> < pow2 1024" using assms(3) by auto
  show n: "0 \<le> dround x" by (rule dround_nonneg [OF assms(1)])
  show le: "dround x \<le> b" using dround_mono [OF assms(2)] b(1) by simp
  have "\<bar>dround x\<bar> < pow2 1024" using n le b(2) assms by (simp add: abs_if split: if_splits)
  then show "num x = Fin (dround x)" using n by (auto simp: num_def Let_def)
  show "wf_num (Fin (dround x))" using \<open>\<bar>dround x\<bar> < pow2 1024\<close> by (simp add: dround_idem)
qed

lemma clamp_bounds:
  assumes "f \<noteq> NaN" "js_le lo hi"
  shows "js_le lo (clamp lo hi f)" "js_le (clamp lo hi f) hi"
proof -
  have nn: "lo \<noteq> NaN" "hi \<noteq> NaN" using js_le_not_NaN [OF assms(2)] by auto
  show "js_le lo (clamp lo hi f)" "js_le (clamp lo hi f) hi"
    using assms nn js_not_lt [of f lo] js_not_lt [of hi f] js_not_lt [of hi lo] js_le_refl
    by (auto simp: clamp_def Let_def js_lt_imp_le)
qed

lemma clamp_mono:
  assumes "js_le f1 f2" "lo1 \<le> lo2" "hi1 \<le> hi2"
  shows "js_le (clamp (Fin lo1) (Fin hi1) f1) (clamp (Fin lo2) (Fin hi2) f2)"
  using assms by (cases f1; cases f2) (auto simp: clamp_def Let_def)

lemma clamp_wf: "wf_num lo \<Longrightarrow> wf_num hi \<Longrightarrow> wf_num f \<Longrightarrow> wf_num (clamp lo hi f)"
  by (simp add: clamp_def Let_def)

lemma clamp_not_NaN: "f \<noteq> NaN \<Longrightarrow> lo \<noteq> NaN \<Longrightarrow> hi \<noteq> NaN \<Longrightarrow> clamp lo hi f \<noteq> NaN"
  by (simp add: clamp_def Let_def)

lemma mul_mono:
  assumes "0 \<le> a" "a \<le> b" "0 \<le> c" "c \<le> d"
  shows "js_le (js_mul (Fin a) (Fin c)) (js_mul (Fin b) (Fin d))"
  using assms by (auto intro!: num_mono mult_mono)

section \<open>Tiers and multipliers\<close>

definition multiplier_value :: "TierConfig \<Rightarrow> rat" where
  "multiplier_value t = (case tier_multiplier t of Fin m \<Rightarrow> m | _ \<Rightarrow> 0)"

lemma tier_multiplier_values:
  "map tier_multiplier VIP_TIERS = [Fin (3152519739159347 / 9007199254740992), Fin (1 / 2),
     Fin (5854679515581645 / 9007199254740992), Fin (7205759403792794 / 9007199254740992), Fin 1]"
  by code_simp

lemma tier_multipliers:
  assumes "t \<in> set VIP_TIERS"
  shows "tier_multiplier t = Fin (multiplier_value t)" "0 < multiplier_value t" "multiplier_value t \<le> 1"
proof -
  have "tier_multiplier t \<in> set (map tier_multiplier VIP_TIERS)" using assms by simp
  then show "tier_multiplier t = Fin (multiplier_value t)" "0 < multiplier_value t" "multiplier_value t \<le> 1"
    unfolding tier_multiplier_values by (auto simp: multiplier_value_def)
qed

lemma multiplier_values:
  "map multiplier_value VIP_TIERS = [3152519739159347 / 9007199254740992, 1 / 2,
     5854679515581645 / 9007199254740992, 7205759403792794 / 9007199254740992, 1]"
  using arg_cong [OF tier_multiplier_values, of "map (\<lambda>x. case x of Fin m \<Rightarrow> m | _ \<Rightarrow> 0)"]
  by (simp add: multiplier_value_def [abs_def] comp_def)

lemma mapVolumeToTier_cases:
  "mapVolumeToTier v = (if js_le (Fin 50000) v then VIP_TIERS ! 0 else if js_le (Fin 20000) v then VIP_TIERS ! 1
     else if js_le (Fin 5000) v then VIP_TIERS ! 2 else if js_le (Fin 1000) v then VIP_TIERS ! 3 else VIP_TIERS ! 4)"
proof -
  have "js_int 50000 = Fin 50000" "js_int 20000 = Fin 20000" "js_int 5000 = Fin 5000" "js_int 1000 = Fin 1000"
    by code_simp+
  then show ?thesis by (simp add: mapVolumeToTier_def VIP_TIERS_def)
qed

lemma tier_mono:
  assumes "js_le v w"
  shows "discountPercent (mapVolumeToTier v) \<le> discountPercent (mapVolumeToTier w) \<and>
    multiplier_value (mapVolumeToTier w) \<le> multiplier_value (mapVolumeToTier v)"
proof -
  have ms: "multiplier_value (VIP_TIERS ! 0) \<le> multiplier_value (VIP_TIERS ! 1)"
    "multiplier_value (VIP_TIERS ! 1) \<le> multiplier_value (VIP_TIERS ! 2)"
    "multiplier_value (VIP_TIERS ! 2) \<le> multiplier_value (VIP_TIERS ! 3)"
    "multiplier_value (VIP_TIERS ! 3) \<le> multiplier_value (VIP_TIERS ! 4)"
    using multiplier_values by (simp_all add: VIP_TIERS_def)
  have "js_le (Fin k) v \<Longrightarrow> js_le (Fin k) w" for k using js_le_trans assms by blast
  then show ?thesis using ms unfolding mapVolumeToTier_cases by (auto simp: VIP_TIERS_def)
qed


section \<open>Fees of a configuration\<close>

definition config_ok :: "fee_config \<Rightarrow> bool" where
  \<comment> \<open>finite numbers, none negative, the minimum not above the maximum\<close>
  "config_ok c \<longleftrightarrow> (\<exists>p lo hi. fc_percentage c = Fin p \<and> fc_minimum c = Fin lo \<and> fc_maximum c = Fin hi \<and>
     wf_num (Fin p) \<and> wf_num (Fin lo) \<and> wf_num (Fin hi) \<and> 0 \<le> p \<and> 0 \<le> lo \<and> lo \<le> hi)"

definition user_fee :: "fee_config \<Rightarrow> jsnum \<Rightarrow> jsnum \<Rightarrow> jsnum" where
  \<comment> \<open>the fee before it is rounded to cents, for a tier multiplier\<close>
  "user_fee c m amount = clamp (js_mul (fc_minimum c) m) (js_mul (fc_maximum c) m)
     (js_mul amount (js_div (js_mul (fc_percentage c) m) (js_int 100)))"

lemma js_int_100: "js_int 100 = Fin 100"
  by code_simp

lemma rate_fin:
  assumes "0 \<le> r" "wf_num (Fin r)"
  shows "js_div (Fin r) (js_int 100) = Fin (dround (r / 100))" "0 \<le> dround (r / 100)"
  using num_bounded [of "r / 100" r] assms by (simp_all add: js_int_100)

lemma user_fee_mono:
  assumes c: "config_ok c" and m: "0 \<le> m1" "m1 \<le> m2" "m2 \<le> 1" and a: "0 \<le> a1" "a1 \<le> a2"
  shows "js_le (user_fee c (Fin m1) (Fin a1)) (user_fee c (Fin m2) (Fin a2))"
proof -
  obtain p lo hi where p: "fc_percentage c = Fin p" "fc_minimum c = Fin lo" "fc_maximum c = Fin hi"
    "wf_num (Fin p)" "wf_num (Fin lo)" "wf_num (Fin hi)" "0 \<le> p" "0 \<le> lo" "lo \<le> hi"
    using c unfolding config_ok_def by blast
  have scaled: "js_mul (Fin x) (Fin m) = Fin (dround (x * m))" "0 \<le> dround (x * m)" "wf_num (Fin (dround (x * m)))"
    if "0 \<le> x" "wf_num (Fin x)" "0 \<le> m" "m \<le> 1" for x m
    using num_bounded [of "x * m" x] that by (simp_all add: mult_left_le)
  have mono: "dround (x * m1) \<le> dround (x * m2)" if "0 \<le> x" for x
    by (rule dround_mono) (use that m in \<open>simp add: mult_left_mono\<close>)
  have r: "dround (dround (p * m1) / 100) \<le> dround (dround (p * m2) / 100)"
    by (rule dround_mono) (use mono [of p] p in simp)
  have m1: "m1 \<le> 1" "0 \<le> m2" using m by simp_all
  show ?thesis unfolding user_fee_def p(1-3)
    using scaled [OF p(7,4) m(1) m1(1)] scaled [OF p(7,4) m1(2) m(3)] rate_fin
      scaled [OF p(8,5) m(1) m1(1)] scaled [OF p(8,5) m1(2) m(3)]
      scaled [OF _ p(6) m(1) m1(1)] scaled [OF _ p(6) m1(2) m(3)] p(8,9) mono [of lo] mono [of hi]
    by (auto intro!: clamp_mono mul_mono a r simp del: js_mul.simps js_div.simps)
qed


lemma user_fee_wf: "wf_num (user_fee c m amount)"
  by (simp add: user_fee_def clamp_wf)

lemma mapVolumeToTier_in: "mapVolumeToTier v \<in> set VIP_TIERS"
  unfolding mapVolumeToTier_cases by (simp add: VIP_TIERS_def)

lemma calculateFeeForUser_fee:
  "vf_fee (calculateFeeForUser env (Some c) v amount) =
     js_toFixed 2 (user_fee c (Fin (multiplier_value (mapVolumeToTier v))) amount)"
  by (simp add: calculateFeeForUser_def user_fee_def Let_def tier_multipliers [OF mapVolumeToTier_in])

lemma calculateFeeSync_fee:
  assumes "config_ok c"
  shows "fr_fee (calculateFeeSync c amount) = js_toFixed 2 (user_fee c (Fin 1) amount)"
proof -
  have "js_mul (Fin x) (Fin 1) = Fin x" if "wf_num (Fin x)" for x using num_wf [OF that] by simp
  then show ?thesis using assms
    by (auto simp: config_ok_def calculateFeeSync_def user_fee_def Let_def simp del: js_mul.simps wf_num.simps)
qed

lemma user_fee_bounds:
  assumes "config_ok c" "0 \<le> m" "m \<le> 1"
  shows "js_le (js_toFixed 2 (js_mul (fc_minimum c) (Fin m))) (js_toFixed 2 (user_fee c (Fin m) (Fin a)))"
    "js_le (js_toFixed 2 (user_fee c (Fin m) (Fin a))) (js_toFixed 2 (js_mul (fc_maximum c) (Fin m)))"
proof -
  obtain p lo hi where p: "fc_percentage c = Fin p" "fc_minimum c = Fin lo" "fc_maximum c = Fin hi"
    "wf_num (Fin p)" "wf_num (Fin lo)" "wf_num (Fin hi)" "0 \<le> p" "0 \<le> lo" "lo \<le> hi"
    using assms(1) unfolding config_ok_def by blast
  have scaled: "js_mul (Fin x) (Fin m) = Fin (dround (x * m))" "wf_num (Fin (dround (x * m)))" "0 \<le> dround (x * m)"
    if "0 \<le> x" "wf_num (Fin x)" for x
    using num_bounded [of "x * m" x] that assms(2,3) by (simp_all add: mult_left_le)
  have hi: "0 \<le> hi" using p by simp
  let ?lo = "Fin (dround (lo * m))" and ?hi = "Fin (dround (hi * m))"
  let ?f = "js_mul (Fin a) (js_div (js_mul (Fin p) (Fin m)) (js_int 100))"
  have f: "?f \<noteq> NaN" "wf_num ?f"
    using rate_fin [OF scaled(3,2) [OF p(7,4)]] scaled(1) [OF p(7,4)] by (simp_all del: wf_num.simps)
  have le: "dround (lo * m) \<le> dround (hi * m)"
    by (rule dround_mono) (use p assms(2) in \<open>simp add: mult_right_mono\<close>)
  have u: "user_fee c (Fin m) (Fin a) = clamp ?lo ?hi ?f"
    unfolding user_fee_def p(1-3) using scaled(1) p(5,6,8) hi by simp
  have wf: "wf_num ?lo" "wf_num ?hi" using scaled(2) p(5,6,8) hi by simp_all
  have "js_le ?lo (clamp ?lo ?hi ?f)" "js_le (clamp ?lo ?hi ?f) ?hi"
    using clamp_bounds [OF f(1), of ?lo ?hi] le by simp_all
  then show "js_le (js_toFixed 2 (js_mul (fc_minimum c) (Fin m))) (js_toFixed 2 (user_fee c (Fin m) (Fin a)))"
    "js_le (js_toFixed 2 (user_fee c (Fin m) (Fin a))) (js_toFixed 2 (js_mul (fc_maximum c) (Fin m)))"
    unfolding u p(2,3) scaled(1) [OF p(8,5)] scaled(1) [OF hi p(6)]
    using js_toFixed_mono [OF _ wf(1) clamp_wf [OF wf f(2)]] js_toFixed_mono [OF _ clamp_wf [OF wf f(2)] wf(2)]
    by blast+
qed

lemma user_fee_fixed_mono:
  assumes "config_ok c" "0 \<le> m1" "m1 \<le> m2" "m2 \<le> 1" "0 \<le> a1" "a1 \<le> a2"
  shows "js_le (js_toFixed 2 (user_fee c (Fin m1) (Fin a1))) (js_toFixed 2 (user_fee c (Fin m2) (Fin a2)))"
  by (rule js_toFixed_mono [OF user_fee_mono [OF assms]]) (rule user_fee_wf)+

section \<open>Properties\<close>

definition demo_config :: fee_config where
  "demo_config = \<lparr>fc_percentage = Fin (3 / 2), fc_minimum = Fin 50, fc_maximum = Fin 5000, fc_name = ''default''\<rparr>"

lemma demo_config_ok: "config_ok demo_config"
proof -
  have "wf_num (Fin (3 / 2))" "wf_num (Fin 50)" "wf_num (Fin 5000)" by code_simp+
  then show ?thesis unfolding config_ok_def demo_config_def
    by (intro exI [of _ "3 / 2"] exI [of _ 50] exI [of _ 5000]) simp
qed

text \<open>
  A user's fee respects the configured bounds: for every finite amount and every volume it lies
  between the minimum and the maximum fee, each times the multiplier of the user's tier and rounded
  to cents as the fee is.
\<close>

theorem fee_within_bounds:
  assumes "config_ok c"
  shows "let fee = vf_fee (calculateFeeForUser env (Some c) v (Fin a)); m = tier_multiplier (mapVolumeToTier v) in
    js_le (js_toFixed 2 (js_mul (fc_minimum c) m)) fee \<and> js_le fee (js_toFixed 2 (js_mul (fc_maximum c) m))"
  unfolding calculateFeeForUser_fee Let_def tier_multipliers(1) [OF mapVolumeToTier_in]
  using user_fee_bounds [OF assms] tier_multipliers [OF mapVolumeToTier_in, of v] by simp

theorem fee_within_bounds_witness:
  "js_le (js_toFixed 2 (js_mul (Fin 50) (tier_multiplier (mapVolumeToTier (Fin 25000)))))
     (vf_fee (calculateFeeForUser demo_config (Some demo_config) (Fin 25000) (Fin 10)))"
  using fee_within_bounds [OF demo_config_ok, of demo_config "Fin 25000" 10] by (simp add: Let_def demo_config_def)

text \<open>
  Fees are monotone. A user with more thirty-day volume never pays more than one with less, for
  the same amount or a smaller one, and no user pays more than the fee that the same numbers give
  without a tier; all with the rounding of binary fractions and of cents taken into account.
\<close>

theorem vip_fee_monotone:
  assumes "config_ok c" "js_le v w" "0 \<le> a" "a \<le> b"
  shows "js_le (vf_fee (calculateFeeForUser env (Some c) w (Fin a))) (vf_fee (calculateFeeForUser env (Some c) v (Fin b))) \<and>
    js_le (vf_fee (calculateFeeForUser env (Some c) v (Fin b))) (fr_fee (calculateFeeSync c (Fin b)))"
  unfolding calculateFeeForUser_fee calculateFeeSync_fee [OF assms(1)]
  using tier_mono [OF assms(2)] tier_multipliers [OF mapVolumeToTier_in, of v] tier_multipliers [OF mapVolumeToTier_in, of w]
    assms by (intro conjI user_fee_fixed_mono) auto

theorem vip_fee_monotone_witness:
  "js_le (vf_fee (calculateFeeForUser demo_config (Some demo_config) (Fin 25000) (Fin 10000)))
     (vf_fee (calculateFeeForUser demo_config (Some demo_config) (Fin 100) (Fin 10000)))"
  using vip_fee_monotone [OF demo_config_ok, of "Fin 100" "Fin 25000" 10000 10000 demo_config] by simp

text \<open>
  The bounds of the active configuration are lost where they matter. With a configured fee of
  1 percent between 10 and 100, and the environment's 1.5 percent between 50 and 5000, a payment of
  100 is charged 50, by the environment, and not 10: the service fails on the configured minimum.
  For a user without a discount the same payment costs 10.
\<close>

theorem configured_bounds_lost:
  "let env = demo_config; c = \<lparr>fc_percentage = Fin 1, fc_minimum = Fin 10, fc_maximum = Fin 100, fc_name = ''low''\<rparr> in
    calculateFee env (Some c) (Fin 100) = \<lparr>fr_fee = Fin 50, fr_total = Fin 150, fr_configUsed = ''env_fallback''\<rparr> \<and>
    vf_fee (calculateFeeForUser env (Some c) (Fin 0) (Fin 100)) = Fin 10"
  by code_simp

definition demo_rule :: FeeDistributionRule where
  "demo_rule = \<lparr>ru_id = ''r'', ru_name = ''all'', ru_shares =
     [\<lparr>sh_recipientType = Platform_treasury, sh_percentage = Fin 100, sh_recipientId = None\<rparr>]\<rparr>"

text \<open>
  The parts of a distributed fee need not sum to the fee. A fee below half of the smallest unit
  is distributed as nothing: the floor of every share is zero, and so is the rounded remainder that
  should make up the difference.
\<close>

theorem distribution_loses_small_fee:
  "let fee = num (1 / 10 ^ 8) in js_lt (Fin 0) fee \<and>
     (case distributeFee demo_rule fee 7 of
        Inr r \<Rightarrow> map sr_amount (di_shares r) = [Fin 0] \<and> di_remainderAppliedTo r = None | Inl _ \<Rightarrow> False)"
  by code_simp

section \<open>Itemized fees\<close>

lemma fin_int:
  assumes "\<bar>n\<bar> \<le> 2 ^ 53"
  shows "num (of_int n) = Fin (of_int n)"
proof -
  have "\<bar>rat_of_int n\<bar> \<le> 2 ^ 53" using assms by (metis of_int_abs of_int_le_iff of_int_numeral of_int_power)
  also have "\<dots> < pow2 1024" by (simp add: pow2_def) 
  finally show ?thesis using dround_int [OF assms] by (auto simp: num_def Let_def)
qed

lemma toUnits_int:
  assumes "\<bar>x\<bar> \<le> 10 ^ 8"
  obtains u where "toUnits (Fin x) = Fin (of_int u)" "\<bar>u\<bar> \<le> 2 ^ 51"
proof -
  have unit: "UNIT = Fin (10 ^ 7)" by code_simp
  let ?y = "dround (x * 10 ^ 7)"
  have b: "x * 10 ^ 7 \<le> of_int (10 ^ 15)" "of_int (- (10 ^ 15)) \<le> x * 10 ^ 7"
    using assms by (simp_all add: abs_le_iff)
  have y: "?y \<le> 10 ^ 15" "- (10 ^ 15) \<le> ?y"
    using dround_mono [OF b(1)] dround_mono [OF b(2)] dround_int [of "10 ^ 15"] dround_int [of "- (10 ^ 15)"] by simp_all
  then have "\<bar>?y\<bar> < pow2 1024" using order_le_less_trans [of "10 ^ 15" "2 ^ 53" "pow2 1024"] by (simp add: pow2_def abs_less_iff)
  then have n: "num (x * 10 ^ 7) = Fin ?y" by (auto simp: num_def Let_def)
  let ?u = "\<lfloor>?y + 1 / 2\<rfloor>"
  have "?u \<le> 2 ^ 51" "- (2 ^ 51) \<le> ?u" using y by (simp_all add: floor_le_iff le_floor_iff)
  then have u: "\<bar>?u\<bar> \<le> 2 ^ 51" by linarith
  then have "num (of_int ?u) = Fin (of_int ?u)" by (intro fin_int) simp
  then have "toUnits (Fin x) = Fin (of_int ?u)" using n by (simp add: toUnits_def unit js_round_def)
  then show ?thesis using that u by blast
qed

text \<open>
  The itemized fee adds up exactly: each component is a whole number of stroops, and the fee is
  the number nearest to their sum, without any rounding between.
\<close>

theorem sep31_items_exact:
  assumes "\<bar>b\<bar> \<le> 10 ^ 8" "\<bar>p\<bar> \<le> 10 ^ 8" "js_div (js_mul amount m) (js_int 100) = Fin x" "\<bar>x\<bar> \<le> 10 ^ 8"
  shows "\<exists>u1 u2 u3. fcal_units (sep31CalculateFee amount (Fin b) (Fin p) m) = [Fin (of_int u1), Fin (of_int u2), Fin (of_int u3)] \<and>
    fcal_fee (sep31CalculateFee amount (Fin b) (Fin p) m) = num (of_int (u1 + u2 + u3) / 10 ^ 7)"
proof -
  obtain u1 where 1: "toUnits (Fin b) = Fin (of_int u1)" "\<bar>u1\<bar> \<le> 2 ^ 51" using toUnits_int [OF assms(1)] .
  obtain u2 where 2: "toUnits (Fin p) = Fin (of_int u2)" "\<bar>u2\<bar> \<le> 2 ^ 51" using toUnits_int [OF assms(2)] .
  obtain u3 where 3: "toUnits (Fin x) = Fin (of_int u3)" "\<bar>u3\<bar> \<le> 2 ^ 51" using toUnits_int [OF assms(4)] .
  have s: "num (of_int (u1 + u2)) = Fin (of_int (u1 + u2))" "num (of_int (u1 + u2 + u3)) = Fin (of_int (u1 + u2 + u3))"
    using 1(2) 2(2) 3(2) by (intro fin_int; simp)+
  have unit: "UNIT = Fin (10 ^ 7)" by code_simp
  show ?thesis using s
    by (intro exI [of _ u1] exI [of _ u2] exI [of _ u3])
       (simp add: sep31CalculateFee_def Let_def assms(3) 1 2 3 unit del: js_div.simps, simp add: unit)
qed

theorem sep31_items_exact_witness:
  "\<exists>u1 u2 u3. fcal_fee (sep31CalculateFee (Fin 200) (Fin 0) (Fin 1) (Fin (1 / 2))) = num (of_int (u1 + u2 + u3) / 10 ^ 7)"
proof -
  have "js_div (js_mul (Fin 200) (Fin (1 / 2))) (js_int 100) = Fin 1" by code_simp
  from sep31_items_exact [OF _ _ this, of 0 1] show ?thesis by auto
qed

end
