(* ===== verification/Fee_Engine.thy ===== *)
theory Fee_Engine
  imports Fees
begin

text \<open>
  The fee strategy engine (\<^verbatim>\<open>src/services/feeStrategyEngine.ts\<close>): five kinds of strategy, the order in
  which the strategies of a user, a provider and the system are tried, the VIP discount, and the
  administration of strategies with its cache and audit trail.

  The store holds the table, the cache and the audit trail. Redis may be unreachable: every
  operation takes a flag, and a call to Redis that fails has no effect, as the code catches it. The
  thirty-day volume of a user and the volatility of a currency pair are arguments. Times are
  milliseconds since the epoch. The database gives a \<^verbatim>\<open>TIME\<close> column back with its seconds
  (\<open>sql_time\<close>); the rounding of its \<^verbatim>\<open>DECIMAL\<close> columns is left out.
\<close>

section \<open>Strategies\<close>

datatype FeeStrategyType = T_flat | T_percentage | T_time_based | T_volume_based | T_volatility_based

datatype FeeStrategyScope = S_user | S_provider | S_global

record VolumeTier =
  vt_minAmount :: jsnum
  vt_maxAmount :: "jsnum option"
  vt_feePercentage :: "jsnum option"
  vt_flatAmount :: "jsnum option"

record FeeStrategy =
  f_id :: id
  f_name :: string
  f_description :: "string option"
  f_strategyType :: FeeStrategyType
  f_scope :: FeeStrategyScope
  f_userId :: "id option"
  f_provider :: "string option"
  f_priority :: int
  f_isActive :: bool
  f_flatAmount :: "jsnum option"
  f_feePercentage :: "jsnum option"
  f_feeMinimum :: "jsnum option"
  f_feeMaximum :: "jsnum option"
  f_daysOfWeek :: "int list option"
  f_timeStart :: "string option"
  f_timeEnd :: "string option"
  f_overridePercentage :: "jsnum option"
  f_overrideFlatAmount :: "jsnum option"
  f_volumeTiers :: "VolumeTier list option"
  f_volatilityBaseCurrency :: "string option"
  f_volatilityQuoteCurrency :: "string option"
  f_volatilityMultiplier :: "jsnum option"
  f_volatilityWindowHours :: "jsnum option"
  f_createdBy :: id
  f_updatedBy :: id

record StrategyApplyResult =
  rawFee :: jsnum
  clampedFee :: jsnum
  appliedMinimum :: "jsnum option"
  appliedMaximum :: "jsnum option"
  volatilityCoefficient :: "jsnum option"

definition or_else :: "'a option \<Rightarrow> 'a \<Rightarrow> 'a" where
  \<comment> \<open>the operator \<^verbatim>\<open>??\<close>\<close>
  "or_else x d = (case x of None \<Rightarrow> d | Some v \<Rightarrow> v)"

definition present :: "string option \<Rightarrow> bool" where
  \<comment> \<open>truthiness of an optional string\<close>
  "present s = (case s of None \<Rightarrow> False | Some t \<Rightarrow> t \<noteq> [])"

section \<open>Applying a strategy\<close>

definition clampFee :: "jsnum \<Rightarrow> jsnum option \<Rightarrow> jsnum option \<Rightarrow> jsnum \<times> jsnum option \<times> jsnum option" where
  "clampFee fee minimum maximum =
     (let (c1, appliedMin) = (case minimum of
            Some m \<Rightarrow> if js_lt fee m then (m, Some m) else (fee, None) | None \<Rightarrow> (fee, None));
          (c2, appliedMax) = (case maximum of
            Some m \<Rightarrow> if js_lt m c1 then (m, Some m) else (c1, None) | None \<Rightarrow> (c1, None))
      in (c2, appliedMin, appliedMax))"

definition apply_result :: "jsnum \<Rightarrow> jsnum option \<Rightarrow> jsnum option \<Rightarrow> jsnum option \<Rightarrow> StrategyApplyResult" where
  "apply_result raw minimum maximum vol =
     (case clampFee raw minimum maximum of (clamped, appliedMin, appliedMax) \<Rightarrow>
        \<lparr>rawFee = raw, clampedFee = clamped, appliedMinimum = appliedMin, appliedMaximum = appliedMax,
         volatilityCoefficient = vol\<rparr>)"

definition applyFlatFee :: "FeeStrategy \<Rightarrow> StrategyApplyResult" where
  "applyFlatFee s = apply_result (or_else (f_flatAmount s) (Fin 0)) (f_feeMinimum s) (f_feeMaximum s) None"

definition percent_of :: "jsnum \<Rightarrow> jsnum \<Rightarrow> jsnum" where
  "percent_of amount p = js_mul amount (js_div p (js_int 100))"

definition applyPercentageFee :: "FeeStrategy \<Rightarrow> jsnum \<Rightarrow> StrategyApplyResult" where
  "applyPercentageFee s amount =
     apply_result (percent_of amount (or_else (f_feePercentage s) (Fin 0)))
       (if f_scope s = S_user then None else f_feeMinimum s) (f_feeMaximum s) None"

fun js_str_lt :: "string \<Rightarrow> string \<Rightarrow> bool" where
  \<comment> \<open>\<^verbatim>\<open><\<close> on strings\<close>
  "js_str_lt s [] = False"
| "js_str_lt [] (y # ys) = True"
| "js_str_lt (x # xs) (y # ys) =
     ((of_char x :: nat) < of_char y \<or> (x = y \<and> js_str_lt xs ys))"

definition pad2 :: "int \<Rightarrow> string" where
  \<comment> \<open>\<^verbatim>\<open>String(n).padStart(2, "0")\<close> for \<open>n\<close> below 100\<close>
  "pad2 n = [char_of (nat (48 + n div 10)), char_of (nat (48 + n mod 10))]"

definition utc_day :: "millis \<Rightarrow> int" where
  \<comment> \<open>\<^verbatim>\<open>getUTCDay()\<close>; the epoch is a Thursday\<close>
  "utc_day t = (t div 86400000 + 4) mod 7"

definition minute_of_day :: "millis \<Rightarrow> int" where
  "minute_of_day t = t div 60000 mod 1440"

definition hhmm :: "millis \<Rightarrow> string" where
  "hhmm t = pad2 (minute_of_day t div 60) @ '':'' @ pad2 (minute_of_day t mod 60)"

definition time_condition :: "FeeStrategy \<Rightarrow> millis \<Rightarrow> bool" where
  "time_condition s t \<longleftrightarrow>
     (let jsDay = utc_day t; isoDay = (if jsDay = 0 then 7 else jsDay)
      in isoDay \<in> set (or_else (f_daysOfWeek s) []) \<and>
         (present (f_timeStart s) \<and> present (f_timeEnd s) \<longrightarrow>
            \<not> js_str_lt (hhmm t) (the (f_timeStart s)) \<and> js_str_lt (hhmm t) (the (f_timeEnd s))))"

definition applyTimeBasedFee :: "FeeStrategy \<Rightarrow> jsnum \<Rightarrow> millis \<Rightarrow> StrategyApplyResult option" where
  "applyTimeBasedFee s amount t =
     (if \<not> time_condition s t then None
      else let raw = (case f_overrideFlatAmount s of
                 Some a \<Rightarrow> a | None \<Rightarrow> percent_of amount (or_else (f_overridePercentage s) (Fin 0)))
           in Some (apply_result raw None (f_feeMaximum s) None))"

definition applyVolumeBasedFee :: "FeeStrategy \<Rightarrow> jsnum \<Rightarrow> StrategyApplyResult" where
  "applyVolumeBasedFee s amount =
     (case find (\<lambda>t. js_le (vt_minAmount t) amount \<and>
             (case vt_maxAmount t of None \<Rightarrow> True | Some m \<Rightarrow> js_lt amount m)) (or_else (f_volumeTiers s) []) of
        Some t \<Rightarrow>
          apply_result (case vt_feePercentage t of
              Some p \<Rightarrow> percent_of amount p
            | None \<Rightarrow> or_else (vt_flatAmount t) (Fin 0)) (f_feeMinimum s) (f_feeMaximum s) None
      | None \<Rightarrow> apply_result (Fin 0) None (f_feeMaximum s) None)"

type_synonym volatility_source = "string \<Rightarrow> string \<Rightarrow> jsnum \<Rightarrow> jsnum option"

definition applyVolatilityBasedFee :: "volatility_source \<Rightarrow> FeeStrategy \<Rightarrow> jsnum \<Rightarrow> StrategyApplyResult" where
  "applyVolatilityBasedFee volatility s amount =
     (let basePercentage = or_else (f_feePercentage s) (Fin 0);
          vol = (if present (f_volatilityBaseCurrency s) \<and> present (f_volatilityQuoteCurrency s)
                 then volatility (the (f_volatilityBaseCurrency s)) (the (f_volatilityQuoteCurrency s))
                        (or_else (f_volatilityWindowHours s) (Fin 24))
                 else None);
          effectivePercentage = (case vol of
              Some c \<Rightarrow> js_add basePercentage (js_mul c (or_else (f_volatilityMultiplier s) (Fin 1)))
            | None \<Rightarrow> basePercentage)
      in apply_result (percent_of amount effectivePercentage) (f_feeMinimum s) (f_feeMaximum s) vol)"

definition applyStrategy ::
  "volatility_source \<Rightarrow> FeeStrategy \<Rightarrow> jsnum \<Rightarrow> millis \<Rightarrow> StrategyApplyResult option" where
  "applyStrategy volatility s amount t = (case f_strategyType s of
     T_flat \<Rightarrow> Some (applyFlatFee s)
   | T_percentage \<Rightarrow> Some (applyPercentageFee s amount)
   | T_time_based \<Rightarrow> applyTimeBasedFee s amount t
   | T_volume_based \<Rightarrow> Some (applyVolumeBasedFee s amount)
   | T_volatility_based \<Rightarrow> Some (applyVolatilityBasedFee volatility s amount))"

section \<open>The store\<close>

datatype audit_action = A_create | A_update | A_activate | A_deactivate | A_delete

record fee_audit =
  au_strategy :: id
  au_action :: audit_action
  au_old :: "FeeStrategy option"
  au_new :: "FeeStrategy option"
  au_changedBy :: id

record fee_store =
  fs_table :: "FeeStrategy list"
  fs_cache :: "string \<rightharpoonup> FeeStrategy list \<times> millis"
  fs_audit :: "fee_audit list"

definition CACHE_TTL_SECONDS :: int where
  "CACHE_TTL_SECONDS = 60"

definition cacheGet :: "bool \<Rightarrow> millis \<Rightarrow> string \<Rightarrow> fee_store \<Rightarrow> FeeStrategy list option" where
  "cacheGet up now key st =
     (if \<not> up then None
      else case fs_cache st key of
        Some (ss, expiry) \<Rightarrow> if now < expiry then Some ss else None | None \<Rightarrow> None)"

definition cacheSet :: "bool \<Rightarrow> millis \<Rightarrow> string \<Rightarrow> FeeStrategy list \<Rightarrow> fee_store \<Rightarrow> fee_store" where
  "cacheSet up now key ss st =
     (if up then st\<lparr>fs_cache := (fs_cache st)(key \<mapsto> (ss, now + CACHE_TTL_SECONDS * 1000))\<rparr> else st)"

definition cacheInvalidateAll :: "bool \<Rightarrow> fee_store \<Rightarrow> fee_store" where
  "cacheInvalidateAll up st = (if up then st\<lparr>fs_cache := Map.empty\<rparr> else st)"

fun scope_rank :: "FeeStrategyScope \<Rightarrow> int" where
  "scope_rank S_user = 1"
| "scope_rank S_provider = 2"
| "scope_rank S_global = 3"

definition in_scope :: "id option \<Rightarrow> string option \<Rightarrow> FeeStrategy \<Rightarrow> bool" where
  "in_scope userId provider s \<longleftrightarrow> f_isActive s \<and>
     (f_scope s = S_global \<or>
      (present provider \<and> f_scope s = S_provider \<and> f_provider s = provider) \<or>
      (present userId \<and> f_scope s = S_user \<and> f_userId s = userId))"

definition before :: "FeeStrategy \<Rightarrow> FeeStrategy \<Rightarrow> bool" where
  \<comment> \<open>\<^verbatim>\<open>ORDER BY CASE scope ... END ASC, priority ASC\<close>\<close>
  "before a b \<longleftrightarrow> scope_rank (f_scope a) < scope_rank (f_scope b) \<or>
     (scope_rank (f_scope a) = scope_rank (f_scope b) \<and> f_priority a \<le> f_priority b)"

fun insert_ordered :: "FeeStrategy \<Rightarrow> FeeStrategy list \<Rightarrow> FeeStrategy list" where
  "insert_ordered s [] = [s]"
| "insert_ordered s (t # ts) = (if before s t then s # t # ts else t # insert_ordered s ts)"

definition select_strategies :: "id option \<Rightarrow> string option \<Rightarrow> FeeStrategy list \<Rightarrow> FeeStrategy list" where
  \<comment> \<open>rows with equal keys in the order of the table\<close>
  "select_strategies userId provider t = foldr insert_ordered (filter (in_scope userId provider) t) []"

definition cache_key :: "id option \<Rightarrow> string option \<Rightarrow> string" where
  "cache_key userId provider =
     ''fee_strategies:resolved:'' @ or_else userId [] @ '':'' @ or_else provider []"

definition resolveStrategies ::
  "bool \<Rightarrow> millis \<Rightarrow> id option \<Rightarrow> string option \<Rightarrow> fee_store \<Rightarrow> FeeStrategy list \<times> fee_store" where
  \<comment> \<open>lookup, query and cache write in one: no invalidation falls between them\<close>
  "resolveStrategies up now userId provider st =
     (let key = cache_key userId provider in
      case cacheGet up now key st of
        Some cached \<Rightarrow> (cached, st)
      | None \<Rightarrow>
          let strategies = select_strategies userId provider (fs_table st)
          in (strategies, cacheSet up now key strategies st))"

section \<open>Calculation\<close>

record FeeCalculationContext =
  ctx_amount :: jsnum
  ctx_userId :: "id option"
  ctx_provider :: "string option"
  ctx_evaluationTime :: "millis option"

record FeeCalculationResult =
  res_fee :: jsnum
  res_total :: jsnum
  res_strategyUsed :: string
  res_scopeUsed :: FeeStrategyScope
  res_timeOverrideActive :: bool
  res_strategyId :: id
  res_breakdown :: StrategyApplyResult

definition vip_discount :: "jsnum \<Rightarrow> StrategyApplyResult \<Rightarrow> jsnum \<times> StrategyApplyResult" where
  \<comment> \<open>the fee after the discount, and the breakdown\<close>
  "vip_discount multiplier r =
     (let discountedRaw = js_mul (rawFee r) multiplier;
          discountedMin = js_mul (or_else (appliedMinimum r) (Fin 0)) multiplier;
          discountedMax = js_mul (or_else (appliedMaximum r) PInf) multiplier;
          (f1, appliedMin) = (if js_lt discountedRaw discountedMin
                              then (discountedMin, Some discountedMin) else (discountedRaw, None));
          (f2, appliedMax) = (if js_lt discountedMax f1
                              then (discountedMax, Some discountedMax) else (f1, None))
      in (f2, r\<lparr>rawFee := js_toFixed 2 discountedRaw, clampedFee := js_toFixed 2 f2,
               appliedMinimum := (case appliedMin of Some m \<Rightarrow> Some (js_toFixed 2 m) | None \<Rightarrow> appliedMinimum r),
               appliedMaximum := (case appliedMax of Some m \<Rightarrow> Some (js_toFixed 2 m) | None \<Rightarrow> appliedMaximum r)\<rparr>))"

definition strategy_result ::
  "(id \<Rightarrow> jsnum) \<Rightarrow> FeeCalculationContext \<Rightarrow> FeeStrategy \<Rightarrow> StrategyApplyResult \<Rightarrow> FeeCalculationResult" where
  "strategy_result volume ctx s r =
     (let (fee, r') =
            (if present (ctx_userId ctx) then
               let tier = mapVolumeToTier (volume (the (ctx_userId ctx)))
               in if 0 < discountPercent tier then vip_discount (tier_multiplier tier) r
                  else (clampedFee r, r)
             else (clampedFee r, r))
      in \<lparr>res_fee = js_toFixed 2 fee, res_total = js_toFixed 2 (js_add (ctx_amount ctx) fee),
          res_strategyUsed = f_name s, res_scopeUsed = f_scope s,
          res_timeOverrideActive = (f_strategyType s = T_time_based), res_strategyId = f_id s,
          res_breakdown = r'\<lparr>rawFee := js_toFixed 2 (rawFee r'), clampedFee := js_toFixed 2 (clampedFee r')\<rparr>\<rparr>)"

definition no_strategy :: "FeeCalculationContext \<Rightarrow> FeeCalculationResult" where
  "no_strategy ctx =
     \<lparr>res_fee = Fin 0, res_total = ctx_amount ctx, res_strategyUsed = ''none'', res_scopeUsed = S_global,
      res_timeOverrideActive = False, res_strategyId = [],
      res_breakdown = \<lparr>rawFee = Fin 0, clampedFee = Fin 0, appliedMinimum = None,
        appliedMaximum = None, volatilityCoefficient = None\<rparr>\<rparr>"

fun first_applicable ::
  "volatility_source \<Rightarrow> jsnum \<Rightarrow> millis \<Rightarrow> FeeStrategy list \<Rightarrow> (FeeStrategy \<times> StrategyApplyResult) option" where
  "first_applicable volatility amount t [] = None"
| "first_applicable volatility amount t (s # ss) =
     (case applyStrategy volatility s amount t of
        Some r \<Rightarrow> Some (s, r) | None \<Rightarrow> first_applicable volatility amount t ss)"

definition engineCalculateFee ::
  "volatility_source \<Rightarrow> (id \<Rightarrow> jsnum) \<Rightarrow> bool \<Rightarrow> millis \<Rightarrow> FeeCalculationContext \<Rightarrow> fee_store \<Rightarrow>
   FeeCalculationResult \<times> fee_store" where
  "engineCalculateFee volatility volume up now ctx st =
     (let evaluationTime = or_else (ctx_evaluationTime ctx) now;
          (candidates, st') = resolveStrategies up now (ctx_userId ctx) (ctx_provider ctx) st
      in (case first_applicable volatility (ctx_amount ctx) evaluationTime candidates of
            Some (s, r) \<Rightarrow> strategy_result volume ctx s r
          | None \<Rightarrow> no_strategy ctx, st'))"

section \<open>Administration\<close>

definition sql_time :: "string option \<Rightarrow> string option" where
  \<comment> \<open>a \<^verbatim>\<open>TIME\<close> value as the driver returns it: with seconds\<close>
  "sql_time x = map_option (\<lambda>s. if length s = 5 then s @ '':00'' else s) x"

definition createStrategy :: "bool \<Rightarrow> FeeStrategy \<Rightarrow> id \<Rightarrow> fee_store \<Rightarrow> FeeStrategy \<times> fee_store" where
  \<comment> \<open>the request with the identifier the database draws, its priority defaulted to 100\<close>
  "createStrategy up req createdBy st =
     (let s = req\<lparr>f_isActive := True, f_timeStart := sql_time (f_timeStart req),
                f_timeEnd := sql_time (f_timeEnd req), f_createdBy := createdBy, f_updatedBy := createdBy\<rparr>;
          st1 = st\<lparr>fs_table := fs_table st @ [s],
                  fs_audit := fs_audit st @ [\<lparr>au_strategy = f_id s, au_action = A_create, au_old = None,
                    au_new = Some s, au_changedBy = createdBy\<rparr>]\<rparr>
      in (s, cacheInvalidateAll up st1))"

record UpdateFeeStrategyRequest =
  up_name :: "string option"
  up_description :: "string option"
  up_priority :: "int option"
  up_isActive :: "bool option"
  up_flatAmount :: "jsnum option"
  up_feePercentage :: "jsnum option"
  up_feeMinimum :: "jsnum option"
  up_feeMaximum :: "jsnum option"
  up_daysOfWeek :: "int list option"
  up_timeStart :: "string option"
  up_timeEnd :: "string option"
  up_overridePercentage :: "jsnum option"
  up_overrideFlatAmount :: "jsnum option"
  up_volumeTiers :: "VolumeTier list option"
  up_volatilityBaseCurrency :: "string option"
  up_volatilityQuoteCurrency :: "string option"
  up_volatilityMultiplier :: "jsnum option"
  up_volatilityWindowHours :: "jsnum option"

definition empty_request :: UpdateFeeStrategyRequest where
  "empty_request = \<lparr>up_name = None, up_description = None, up_priority = None, up_isActive = None,
     up_flatAmount = None, up_feePercentage = None, up_feeMinimum = None, up_feeMaximum = None,
     up_daysOfWeek = None, up_timeStart = None, up_timeEnd = None, up_overridePercentage = None,
     up_overrideFlatAmount = None, up_volumeTiers = None, up_volatilityBaseCurrency = None,
     up_volatilityQuoteCurrency = None, up_volatilityMultiplier = None, up_volatilityWindowHours = None\<rparr>"

definition orelse :: "'a option \<Rightarrow> 'a option \<Rightarrow> 'a option" where
  "orelse new old = (case new of None \<Rightarrow> old | Some v \<Rightarrow> Some v)"

definition set_strategy :: "UpdateFeeStrategyRequest \<Rightarrow> id \<Rightarrow> FeeStrategy \<Rightarrow> FeeStrategy" where
  "set_strategy d updatedBy s = s\<lparr>
     f_name := or_else (up_name d) (f_name s),
     f_description := orelse (up_description d) (f_description s),
     f_priority := or_else (up_priority d) (f_priority s),
     f_isActive := or_else (up_isActive d) (f_isActive s),
     f_flatAmount := orelse (up_flatAmount d) (f_flatAmount s),
     f_feePercentage := orelse (up_feePercentage d) (f_feePercentage s),
     f_feeMinimum := orelse (up_feeMinimum d) (f_feeMinimum s),
     f_feeMaximum := orelse (up_feeMaximum d) (f_feeMaximum s),
     f_daysOfWeek := orelse (up_daysOfWeek d) (f_daysOfWeek s),
     f_timeStart := orelse (sql_time (up_timeStart d)) (f_timeStart s),
     f_timeEnd := orelse (sql_time (up_timeEnd d)) (f_timeEnd s),
     f_overridePercentage := orelse (up_overridePercentage d) (f_overridePercentage s),
     f_overrideFlatAmount := orelse (up_overrideFlatAmount d) (f_overrideFlatAmount s),
     f_volumeTiers := orelse (up_volumeTiers d) (f_volumeTiers s),
     f_volatilityBaseCurrency := orelse (up_volatilityBaseCurrency d) (f_volatilityBaseCurrency s),
     f_volatilityQuoteCurrency := orelse (up_volatilityQuoteCurrency d) (f_volatilityQuoteCurrency s),
     f_volatilityMultiplier := orelse (up_volatilityMultiplier d) (f_volatilityMultiplier s),
     f_volatilityWindowHours := orelse (up_volatilityWindowHours d) (f_volatilityWindowHours s),
     f_updatedBy := updatedBy\<rparr>"

definition getStrategyById :: "id \<Rightarrow> fee_store \<Rightarrow> FeeStrategy option" where
  "getStrategyById i st = find (\<lambda>s. f_id s = i) (fs_table st)"

definition updateStrategy ::
  "bool \<Rightarrow> id \<Rightarrow> UpdateFeeStrategyRequest \<Rightarrow> id \<Rightarrow> fee_store \<Rightarrow> FeeStrategy option \<times> fee_store" where
  "updateStrategy up i d updatedBy st =
     (case getStrategyById i st of
        None \<Rightarrow> (None, st)
      | Some old \<Rightarrow>
          if d = empty_request then (Some old, st)
          else
            let t = sql_update (\<lambda>s. f_id s = i) (set_strategy d updatedBy) (fs_table st);
                updated = set_strategy d updatedBy old;
                action = (case up_isActive d of Some True \<Rightarrow> A_activate | Some False \<Rightarrow> A_deactivate
                          | None \<Rightarrow> A_update);
                st1 = st\<lparr>fs_table := t,
                        fs_audit := fs_audit st @ [\<lparr>au_strategy = i, au_action = action, au_old = Some old,
                          au_new = Some updated, au_changedBy = updatedBy\<rparr>]\<rparr>
            in (Some updated, cacheInvalidateAll up st1))"

definition deleteStrategy :: "bool \<Rightarrow> id \<Rightarrow> id \<Rightarrow> fee_store \<Rightarrow> bool \<times> fee_store" where
  "deleteStrategy up i deletedBy st =
     (case getStrategyById i st of
        None \<Rightarrow> (False, st)
      | Some old \<Rightarrow>
          (True, cacheInvalidateAll up (st\<lparr>fs_table := filter (\<lambda>s. f_id s \<noteq> i) (fs_table st),
             fs_audit := fs_audit st @ [\<lparr>au_strategy = i, au_action = A_delete, au_old = Some old,
               au_new = None, au_changedBy = deletedBy\<rparr>]\<rparr>)))"

definition activateStrategy :: "bool \<Rightarrow> id \<Rightarrow> id \<Rightarrow> fee_store \<Rightarrow> FeeStrategy option \<times> fee_store" where
  "activateStrategy up i who = updateStrategy up i (empty_request\<lparr>up_isActive := Some True\<rparr>) who"

definition deactivateStrategy :: "bool \<Rightarrow> id \<Rightarrow> id \<Rightarrow> fee_store \<Rightarrow> FeeStrategy option \<times> fee_store" where
  "deactivateStrategy up i who = updateStrategy up i (empty_request\<lparr>up_isActive := Some False\<rparr>) who"

section \<open>The order of strategies\<close>

lemma before_total: "before a b \<or> before b a"
  by (auto simp: before_def)

lemma before_trans: "before a b \<Longrightarrow> before b c \<Longrightarrow> before a c"
  by (auto simp: before_def)

lemma set_insert_ordered [simp]: "set (insert_ordered s ts) = insert s (set ts)"
  by (induction ts) auto

lemma sorted_insert_ordered: "sorted_wrt before ts \<Longrightarrow> sorted_wrt before (insert_ordered s ts)"
proof (induction ts)
  case (Cons t ts)
  then show ?case using before_total [of s t] by (auto intro: before_trans)
qed simp

lemma select_strategies_sorted: "sorted_wrt before (select_strategies u p t)"
proof -
  have "sorted_wrt before (foldr insert_ordered xs [])" for xs
    by (induction xs) (simp_all add: sorted_insert_ordered)
  then show ?thesis by (simp add: select_strategies_def)
qed

lemma set_select_strategies: "set (select_strategies u p t) = {s \<in> set t. in_scope u p s}"
proof -
  have "set (foldr insert_ordered xs []) = set xs" for xs by (induction xs) simp_all
  then show ?thesis by (auto simp: select_strategies_def)
qed

lemma first_applicable_Some:
  assumes "first_applicable vola amount t ss = Some (s, r)" "sorted_wrt before ss"
  shows "s \<in> set ss \<and> applyStrategy vola s amount t = Some r \<and>
    (\<forall>s'\<in>set ss. applyStrategy vola s' amount t \<noteq> None \<longrightarrow> before s s')"
  using assms
proof (induction ss)
  case (Cons x ss)
  have refl: "before a a" for a by (simp add: before_def)
  show ?case
  proof (cases "applyStrategy vola x amount t")
    case None
    then show ?thesis using Cons by auto
  next
    case (Some y)
    then show ?thesis using Cons.prems refl by auto
  qed
qed simp

lemma first_applicable_None:
  "first_applicable vola amount t ss = None \<longleftrightarrow> (\<forall>s\<in>set ss. applyStrategy vola s amount t = None)"
  by (induction ss) (auto split: option.splits)

section \<open>The cache\<close>

definition plain_id :: "id option \<Rightarrow> bool" where
  \<comment> \<open>no separator of the cache key, as in a UUID\<close>
  "plain_id u \<longleftrightarrow> CHR '':'' \<notin> set (or_else u [])"

lemma append_sep_eq:
  "c \<notin> set xs \<Longrightarrow> c \<notin> set ys \<Longrightarrow> xs @ c # zs = ys @ c # ws \<longleftrightarrow> xs = ys \<and> zs = ws"
proof (induction xs arbitrary: ys)
  case Nil
  then show ?case by (cases ys) auto
next
  case (Cons x xs)
  then show ?case by (cases ys) auto
qed

lemma cache_key_eq:
  assumes "plain_id u1" "plain_id u2" "cache_key u1 p1 = cache_key u2 p2"
  shows "select_strategies u1 p1 t = select_strategies u2 p2 t"
proof -
  have "or_else u1 [] = or_else u2 []" "or_else p1 [] = or_else p2 []"
    using assms append_sep_eq [of "CHR '':''" "or_else u1 []" "or_else u2 []"]
    by (auto simp: cache_key_def plain_id_def)
  then have "in_scope u1 p1 = in_scope u2 p2"
    by (auto simp: in_scope_def present_def or_else_def fun_eq_iff split: option.splits)
  then show ?thesis by (simp add: select_strategies_def)
qed

definition cache_coherent :: "fee_store \<Rightarrow> bool" where
  "cache_coherent st \<longleftrightarrow> (\<forall>u p ss e. plain_id u \<longrightarrow> fs_cache st (cache_key u p) = Some (ss, e) \<longrightarrow>
     ss = select_strategies u p (fs_table st))"

datatype store_op =
    Resolve millis "id option" "string option"
  | Create FeeStrategy id
  | Update id UpdateFeeStrategyRequest id
  | Delete id id
  | Activate id id
  | Deactivate id id

fun store_step :: "bool \<Rightarrow> store_op \<Rightarrow> fee_store \<Rightarrow> fee_store" where
  "store_step up (Resolve now u p) st = snd (resolveStrategies up now u p st)"
| "store_step up (Create req who) st = snd (createStrategy up req who st)"
| "store_step up (Update i d who) st = snd (updateStrategy up i d who st)"
| "store_step up (Delete i who) st = snd (deleteStrategy up i who st)"
| "store_step up (Activate i who) st = snd (activateStrategy up i who st)"
| "store_step up (Deactivate i who) st = snd (deactivateStrategy up i who st)"

fun plain_op :: "store_op \<Rightarrow> bool" where
  "plain_op (Resolve now u p) = plain_id u"
| "plain_op _ = True"

lemma resolve_coherent:
  assumes "cache_coherent st" "plain_id u"
  shows "cache_coherent (snd (resolveStrategies up now u p st)) \<and>
    fst (resolveStrategies up now u p st) = select_strategies u p (fs_table st)"
proof (cases "cacheGet up now (cache_key u p) st")
  case None
  have "cache_coherent (cacheSet up now (cache_key u p) (select_strategies u p (fs_table st)) st)"
    unfolding cache_coherent_def
  proof (intro allI impI)
    fix u2 p2 ss e assume u2: "plain_id u2"
      and c: "fs_cache (cacheSet up now (cache_key u p) (select_strategies u p (fs_table st)) st) (cache_key u2 p2) = Some (ss, e)"
    have "ss = select_strategies u2 p2 (fs_table st)"
    proof (cases "up \<and> cache_key u2 p2 = cache_key u p")
      case True
      then show ?thesis using c cache_key_eq [OF assms(2) u2, of p p2] by (simp add: cacheSet_def)
    next
      case False
      then have "fs_cache st (cache_key u2 p2) = Some (ss, e)" using c by (auto simp: cacheSet_def split: if_splits)
      then show ?thesis using assms(1) u2 unfolding cache_coherent_def by blast
    qed
    then show "ss = select_strategies u2 p2 (fs_table (cacheSet up now (cache_key u p) (select_strategies u p (fs_table st)) st))"
      by (simp add: cacheSet_def)
  qed
  then show ?thesis using None by (simp add: resolveStrategies_def Let_def)
next
  case (Some ss)
  then have "ss = select_strategies u p (fs_table st)"
    using assms by (auto simp: cacheGet_def cache_coherent_def split: if_splits option.splits)
  then show ?thesis using Some assms(1) by (simp add: resolveStrategies_def Let_def)
qed

lemma invalidate_coherent: "cache_coherent (cacheInvalidateAll True st)"
  by (simp add: cache_coherent_def cacheInvalidateAll_def)

lemma update_coherent: "cache_coherent st \<Longrightarrow> cache_coherent (snd (updateStrategy True i d who st))"
  by (auto simp: updateStrategy_def Let_def invalidate_coherent split: option.split)

lemma store_step_coherent: "cache_coherent st \<Longrightarrow> plain_op x \<Longrightarrow> cache_coherent (store_step True x st)"
  by (cases x)
     (auto simp: resolve_coherent createStrategy_def deleteStrategy_def activateStrategy_def
       deactivateStrategy_def Let_def invalidate_coherent update_coherent split: option.split)

lemma run_coherent: "cache_coherent st \<Longrightarrow> list_all plain_op xs \<Longrightarrow> cache_coherent (fold (store_step True) xs st)"
  by (induction xs arbitrary: st) (simp_all add: store_step_coherent)

section \<open>The VIP discount\<close>

lemma mul_num: "js_mul (Fin a) (Fin m) = num (a * m)"
  by simp

lemma num_le_eq: "js_le (num x) (num y) \<Longrightarrow> \<not> js_lt (num x) (num y) \<Longrightarrow> num x = num y"
  by (cases "num x"; cases "num y") auto

lemma scaled_lt: "0 \<le> m \<Longrightarrow> a \<le> b \<Longrightarrow> \<not> js_lt (num (b * m)) (num (a * m))"
  using num_mono [of "a * m" "b * m"] js_not_lt [of "num (b * m)" "num (a * m)"] by (simp add: mult_right_mono)

lemma scaled_eq: "0 \<le> m \<Longrightarrow> a \<le> b \<Longrightarrow> \<not> js_lt (num (a * m)) (num (b * m)) \<Longrightarrow> num (a * m) = num (b * m)"
  using num_mono [of "a * m" "b * m"] num_le_eq by (simp add: mult_right_mono)

lemma scaled_max:
  assumes "0 \<le> m"
  shows "(if js_lt (num (a * m)) (num (b * m)) then num (b * m) else num (a * m)) = num ((if a < b then b else a) * m)"
  using scaled_lt [OF assms, of b a] scaled_eq [OF assms, of a b] by auto

lemma scaled_min:
  assumes "0 \<le> m"
  shows "(if js_lt (num (b * m)) (num (a * m)) then num (b * m) else num (a * m)) = num ((if b < a then b else a) * m)"
  using scaled_lt [OF assms, of a b] scaled_eq [OF assms, of b a] by auto

definition finite_bound :: "jsnum option \<Rightarrow> bool" where
  "finite_bound x \<longleftrightarrow> (case x of None \<Rightarrow> True | Some n \<Rightarrow> (\<exists>l\<ge>0. n = Fin l))"

lemmas disc_defs = vip_discount_def apply_result_def clampFee_def or_else_def Let_def

lemma discount_scales:
  assumes "0 \<le> raw" "0 < m" "finite_bound lo" "finite_bound hi"
  shows "fst (vip_discount (Fin m) (apply_result (Fin raw) lo hi vol)) =
    js_mul (clampedFee (apply_result (Fin raw) lo hi vol)) (Fin m)"
proof -
  have m: "0 \<le> m" using assms(2) by simp
  have z: "signed_inf m = PInf" using assms(2) by (simp add: signed_inf_def)
  have nn: "\<not> js_lt (num (x * m)) (Fin 0)" if "0 \<le> x" for x
    using num_nonneg [of "x * m"] js_not_lt [of "num (x * m)" "Fin 0"] that m by simp
  have inf: "\<not> js_lt PInf y" for y by (cases y) auto
  note mx = scaled_max [OF m] and mn = scaled_min [OF m]
  show ?thesis
  proof (cases lo)
    case None
    show ?thesis
    proof (cases hi)
      case None
      then show ?thesis using \<open>lo = None\<close> nn [OF assms(1)] inf
        by (simp add: disc_defs z)
    next
      case (Some y)
      then obtain h where h: "y = Fin h" "0 \<le> h" using assms(4) by (auto simp: finite_bound_def)
      show ?thesis using \<open>lo = None\<close> Some h nn [OF assms(1)] inf mn [of h raw]
        by (cases "h < raw") (simp_all add: disc_defs z split: if_splits)
    qed
  next
    case (Some x)
    then obtain l where l: "x = Fin l" "0 \<le> l" using assms(3) by (auto simp: finite_bound_def)
    show ?thesis
    proof (cases hi)
      case None
      then show ?thesis using Some l nn [OF assms(1)] inf mx [of raw l]
        by (cases "raw < l") (simp_all add: disc_defs z split: if_splits)
    next
      case (Some y)
      then obtain h where h: "y = Fin h" "0 \<le> h" using assms(4) by (auto simp: finite_bound_def)
      show ?thesis using \<open>lo = Some x\<close> Some l h nn [OF assms(1)] nn [OF l(2)] inf mx [of raw l] mn [of h raw] mn [of h l]
        by (cases "raw < l"; cases "h < raw"; cases "h < l") (simp_all add: disc_defs z split: if_splits)
    qed
  qed
qed


section \<open>Time windows\<close>

definition clock_text :: "int \<Rightarrow> string" where
  \<comment> \<open>\<^verbatim>\<open>HH:MM\<close> of a minute of the day\<close>
  "clock_text m = pad2 (m div 60) @ '':'' @ pad2 (m mod 60)"

lemma of_char_digit: "0 \<le> d \<Longrightarrow> d < 10 \<Longrightarrow> (of_char (char_of (nat (48 + d)) :: char) :: nat) = nat (48 + d)"
  by (simp add: of_char_of nat_less_iff)

lemma char_digit_eq: "0 \<le> d \<Longrightarrow> d < 10 \<Longrightarrow> 0 \<le> e \<Longrightarrow> e < 10 \<Longrightarrow>
  (char_of (nat (48 + d)) :: char) = char_of (nat (48 + e)) \<longleftrightarrow> d = e"
  using of_char_digit [of d] of_char_digit [of e] by auto

lemma digit_less:
  assumes "0 \<le> d" "d < 10" "0 \<le> e" "e < 10"
  shows "js_str_lt (char_of (nat (48 + d)) # xs) (char_of (nat (48 + e)) # ys) \<longleftrightarrow> d < e \<or> (d = e \<and> js_str_lt xs ys)"
proof -
  have "nat (48 + d) < nat (48 + e) \<longleftrightarrow> d < e" using assms by auto
  then show ?thesis
    by (simp only: js_str_lt.simps of_char_digit [OF assms(1,2)] of_char_digit [OF assms(3,4)] char_digit_eq [OF assms])
qed

lemma pad2_less:
  assumes "0 \<le> a" "a < 100" "0 \<le> b" "b < 100"
  shows "js_str_lt (pad2 a @ xs) (pad2 b @ ys) \<longleftrightarrow> a < b \<or> (a = b \<and> js_str_lt xs ys)"
proof -
  have d: "0 \<le> a div 10" "a div 10 < 10" "0 \<le> a mod 10" "a mod 10 < 10" "0 \<le> b div 10" "b div 10 < 10"
    "0 \<le> b mod 10" "b mod 10 < 10" using assms by auto
  have e: "a = 10 * (a div 10) + a mod 10" "b = 10 * (b div 10) + b mod 10" by simp_all
  have "js_str_lt (pad2 a @ xs) (pad2 b @ ys) \<longleftrightarrow> a div 10 < b div 10 \<or>
      (a div 10 = b div 10 \<and> (a mod 10 < b mod 10 \<or> (a mod 10 = b mod 10 \<and> js_str_lt xs ys)))"
    by (simp only: pad2_def append_Cons append_Nil digit_less d)
  also have "\<dots> \<longleftrightarrow> a < b \<or> (a = b \<and> js_str_lt xs ys)" using d e by (smt (verit))
  finally show ?thesis .
qed

lemma clock_text_less:
  assumes "0 \<le> a" "a < 1440" "0 \<le> b" "b < 1440"
  shows "js_str_lt (clock_text a @ xs) (clock_text b @ ys) \<longleftrightarrow> a < b \<or> (a = b \<and> js_str_lt xs ys)"
proof -
  have d: "0 \<le> a div 60" "a div 60 < 100" "0 \<le> a mod 60" "a mod 60 < 100" "0 \<le> b div 60" "b div 60 < 100"
    "0 \<le> b mod 60" "b mod 60 < 100" using assms pos_mod_bound [of 60 a] pos_mod_bound [of 60 b] by auto
  have e: "a = 60 * (a div 60) + a mod 60" "b = 60 * (b div 60) + b mod 60" by simp_all
  have r: "a mod 60 < 60" "b mod 60 < 60" by simp_all
  have "js_str_lt (clock_text a @ xs) (clock_text b @ ys) \<longleftrightarrow> a div 60 < b div 60 \<or>
      (a div 60 = b div 60 \<and> (a mod 60 < b mod 60 \<or> (a mod 60 = b mod 60 \<and> js_str_lt xs ys)))"
    by (simp add: clock_text_def pad2_less d)
  also have "\<dots> \<longleftrightarrow> a < b \<or> (a = b \<and> js_str_lt xs ys)" using d e r by (smt (verit))
  finally show ?thesis .
qed

lemma minute_bounds: "0 \<le> minute_of_day t" "minute_of_day t < 1440"
  by (simp_all add: minute_of_day_def)

lemma hhmm_clock: "hhmm t = clock_text (minute_of_day t)"
  by (simp add: hhmm_def clock_text_def)

lemma clock_text_length [simp]: "length (clock_text m) = 5" "clock_text m \<noteq> []"
  by (simp_all add: clock_text_def pad2_def)

definition day_matches :: "FeeStrategy \<Rightarrow> millis \<Rightarrow> bool" where
  "day_matches s t \<longleftrightarrow> (if utc_day t = 0 then 7 else utc_day t) \<in> set (or_else (f_daysOfWeek s) [])"

lemma window_text:
  assumes "f_timeStart s = Some (clock_text a @ xs)" "f_timeEnd s = Some (clock_text b @ ys)"
    "0 \<le> a" "a < 1440" "0 \<le> b" "b < 1440"
  shows "time_condition s t \<longleftrightarrow> day_matches s t \<and>
    \<not> (minute_of_day t < a \<or> (minute_of_day t = a \<and> xs \<noteq> [])) \<and>
    (minute_of_day t < b \<or> (minute_of_day t = b \<and> ys \<noteq> []))"
proof -
  have e: "js_str_lt [] zs \<longleftrightarrow> zs \<noteq> []" for zs by (cases zs) auto
  show ?thesis
    using clock_text_less [OF minute_bounds assms(3,4), of t "[]" xs] clock_text_less [OF minute_bounds assms(5,6), of t "[]" ys]
    by (simp add: time_condition_def day_matches_def Let_def present_def assms(1,2) hhmm_clock e)
qed


section \<open>Properties\<close>

definition empty_store :: fee_store where
  "empty_store = \<lparr>fs_table = [], fs_cache = Map.empty, fs_audit = []\<rparr>"

lemma empty_store_coherent: "cache_coherent empty_store"
  by (simp add: cache_coherent_def empty_store_def)

definition demo_strategy :: "id \<Rightarrow> FeeStrategyType \<Rightarrow> FeeStrategyScope \<Rightarrow> int \<Rightarrow> FeeStrategy" where
  "demo_strategy i ty sc pr = \<lparr>f_id = i, f_name = i, f_description = None, f_strategyType = ty, f_scope = sc,
     f_userId = (if sc = S_user then Some ''u1'' else None), f_provider = None, f_priority = pr,
     f_isActive = True, f_flatAmount = Some (Fin 5), f_feePercentage = Some (Fin 2), f_feeMinimum = Some (Fin 1),
     f_feeMaximum = Some (Fin 100), f_daysOfWeek = Some [5], f_timeStart = Some (clock_text 540),
     f_timeEnd = Some (clock_text 1020), f_overridePercentage = None, f_overrideFlatAmount = None,
     f_volumeTiers = None, f_volatilityBaseCurrency = None, f_volatilityQuoteCurrency = None,
     f_volatilityMultiplier = None, f_volatilityWindowHours = None, f_createdBy = ''a'', f_updatedBy = ''a''\<rparr>"

text \<open>
  The cache is never out of date while Redis is reachable: after any sequence of lookups and of
  creations, updates, deletions, activations and deactivations, resolving the strategies of a user
  and a provider gives exactly the active strategies that concern them in the table as it is now,
  those of the user before those of the provider before the global ones, by priority within each.
\<close>

theorem strategies_up_to_date:
  assumes "list_all plain_op ops" "plain_id u"
  shows "let st = fold (store_step True) ops empty_store; ss = fst (resolveStrategies True now u p st) in
    set ss = {s \<in> set (fs_table st). in_scope u p s} \<and>
    sorted_wrt (\<lambda>a b. scope_rank (f_scope a) < scope_rank (f_scope b) \<or>
      (scope_rank (f_scope a) = scope_rank (f_scope b) \<and> f_priority a \<le> f_priority b)) ss"
  using resolve_coherent [OF run_coherent [OF empty_store_coherent assms(1)] assms(2)]
    select_strategies_sorted set_select_strategies
  by (simp add: Let_def before_def [abs_def])

theorem strategies_up_to_date_witness:
  "let st = fold (store_step True) [Create (demo_strategy ''s1'' T_flat S_global 9) ''a'', Resolve 0 None None,
       Create (demo_strategy ''s2'' T_flat S_global 1) ''a''] empty_store;
       ss = fst (resolveStrategies True 1 None None st)
   in set ss = {s \<in> set (fs_table st). in_scope None None s}"
  using strategies_up_to_date [of "[Create (demo_strategy ''s1'' T_flat S_global 9) ''a'', Resolve 0 None None,
       Create (demo_strategy ''s2'' T_flat S_global 1) ''a'']" None 1 None]
  by (simp add: Let_def plain_id_def or_else_def)

text \<open>
  C39. The engine charges by the best strategy: after any sequence of strategy writes and lookups, from an empty store, in which
  Redis answered every time, and with user ids without a colon, of the strategies that concern the user and the provider and
  whose condition holds, it applies the first by scope and priority, although the lists are cached; and it charges nothing only if no strategy applies. Each write with its
  invalidation, and each lookup with its query and cache write, is one step, they do not overlap; where an invalidation fails,
  a list may be stale for a minute.
\<close>

theorem engine_applies_best:
  assumes "list_all plain_op ops" "plain_id (ctx_userId ctx)"
  shows "let st = fold (store_step True) ops empty_store;
      t = or_else (ctx_evaluationTime ctx) now;
      applies = (\<lambda>s. s \<in> set (fs_table st) \<and> in_scope (ctx_userId ctx) (ctx_provider ctx) s \<and>
        applyStrategy vola s (ctx_amount ctx) t \<noteq> None);
      result = fst (engineCalculateFee vola volume True now ctx st) in
    if \<exists>s. applies s
    then \<exists>s r. applies s \<and> (\<forall>s'. applies s' \<longrightarrow> before s s') \<and> applyStrategy vola s (ctx_amount ctx) t = Some r \<and>
      result = strategy_result volume ctx s r
    else result = no_strategy ctx"
proof -
  let ?st = "fold (store_step True) ops empty_store" and ?t = "or_else (ctx_evaluationTime ctx) now"
  let ?ss = "select_strategies (ctx_userId ctx) (ctx_provider ctx) (fs_table ?st)"
  have ss: "fst (resolveStrategies True now (ctx_userId ctx) (ctx_provider ctx) ?st) = ?ss"
    using resolve_coherent [OF run_coherent [OF empty_store_coherent assms(1)] assms(2)] by blast
  have res: "fst (engineCalculateFee vola volume True now ctx ?st) =
      (case first_applicable vola (ctx_amount ctx) ?t ?ss of Some (s, r) \<Rightarrow> strategy_result volume ctx s r | None \<Rightarrow> no_strategy ctx)"
    using ss by (simp add: engineCalculateFee_def Let_def split_def)
  show ?thesis
  proof (cases "first_applicable vola (ctx_amount ctx) ?t ?ss")
    case None
    then show ?thesis using res first_applicable_None [of vola "ctx_amount ctx" ?t ?ss]
      by (auto simp: Let_def set_select_strategies)
  next
    case (Some sr)
    obtain s r where sr: "sr = (s, r)" by force
    note f = first_applicable_Some [OF Some [unfolded sr] select_strategies_sorted]
    then show ?thesis using res Some sr by (auto simp: Let_def set_select_strategies intro!: exI [of _ s])
  qed
qed

theorem engine_applies_best_witness:
  "let st = fold (store_step True) [Create (demo_strategy ''s1'' T_flat S_global 9) ''a''] empty_store;
       ctx = \<lparr>ctx_amount = Fin 10, ctx_userId = None, ctx_provider = None, ctx_evaluationTime = None\<rparr>
   in fst (engineCalculateFee (\<lambda>_ _ _. None) (\<lambda>_. Fin 0) True 0 ctx st) \<noteq> no_strategy ctx"
proof -
  let ?ops = "[Create (demo_strategy ''s1'' T_flat S_global 9) ''a'']"
  let ?ctx = "\<lparr>ctx_amount = Fin 10, ctx_userId = None, ctx_provider = None, ctx_evaluationTime = None\<rparr>"
  define st where "st = fold (store_step True) ?ops empty_store"
  define sa where "sa = hd (fs_table st)"
  have tab: "fs_table st = [sa]" unfolding sa_def st_def by code_simp
  have s: "in_scope None None sa" "applyStrategy (\<lambda>_ _ _. None) sa (Fin 10) 0 \<noteq> None" "f_name sa = ''s1''"
    unfolding sa_def st_def by code_simp+
  have ops: "list_all plain_op ?ops" "plain_id (ctx_userId ?ctx)" by (simp_all add: plain_id_def or_else_def)
  obtain r where "fst (engineCalculateFee (\<lambda>_ _ _. None) (\<lambda>_. Fin 0) True 0 ?ctx st) = strategy_result (\<lambda>_. Fin 0) ?ctx sa r"
    using engine_applies_best [OF ops, of 0 "\<lambda>_ _ _. None" "\<lambda>_. Fin 0", folded st_def] s tab
    by (auto simp: Let_def or_else_def split: if_splits)
  then show ?thesis using s(3)
    by (auto simp: Let_def strategy_result_def no_strategy_def st_def split: prod.splits)
qed

text \<open>
  The VIP discount scales the whole fee: for every tier, and whether or not the minimum or the
  maximum was applied, the discounted fee is the undiscounted one times the multiplier of the tier,
  rounded to cents; in particular the discounted bounds never cut in on their own.
\<close>

theorem vip_discount_scales:
  assumes "ctx_userId ctx = Some u" "u \<noteq> []" "0 \<le> raw" "finite_bound lo" "finite_bound hi"
    "r = apply_result (Fin raw) lo hi vol" "wf_num (clampedFee r)" "clampedFee r = Fin c"
  shows "res_fee (strategy_result volume ctx s r) =
    js_toFixed 2 (js_mul (clampedFee r) (tier_multiplier (mapVolumeToTier (volume u))))"
proof -
  let ?tier = "mapVolumeToTier (volume u)"
  note m = tier_multipliers [OF mapVolumeToTier_in, of "volume u"]
  have one: "tier_multiplier ?tier = Fin 1" if "\<not> 0 < discountPercent ?tier"
  proof -
    have "?tier = last VIP_TIERS" using mapVolumeToTier_in [of "volume u"] that by (auto simp: VIP_TIERS_def)
    moreover have "tier_multiplier (last VIP_TIERS) = last (map tier_multiplier VIP_TIERS)" by (simp add: VIP_TIERS_def)
    ultimately show ?thesis by (simp add: tier_multiplier_values)
  qed
  have "js_mul (clampedFee r) (Fin 1) = clampedFee r" using num_wf [of c] assms(7,8) by (simp del: wf_num.simps)
  then show ?thesis
    using discount_scales [OF assms(3) m(2) assms(4,5), of vol] m(1) one assms(1,2,6)
    by (auto simp: strategy_result_def present_def Let_def split_def)
qed

theorem vip_discount_scales_witness:
  "let ctx = \<lparr>ctx_amount = Fin 100, ctx_userId = Some ''u1'', ctx_provider = None, ctx_evaluationTime = None\<rparr>;
       s = demo_strategy ''s1'' T_percentage S_global 9
   in res_fee (strategy_result (\<lambda>_. Fin 25000) ctx s (apply_result (Fin 2) (Some (Fin 1)) (Some (Fin 100)) None)) =
      js_toFixed 2 (js_mul (Fin 2) (tier_multiplier (mapVolumeToTier (Fin 25000))))"
proof -
  let ?r = "apply_result (Fin 2) (Some (Fin 1)) (Some (Fin 100)) None"
  have r: "clampedFee ?r = Fin 2" by (simp add: apply_result_def clampFee_def)
  have "wf_num (Fin 2)" by code_simp
  then show ?thesis
    using vip_discount_scales [of "\<lparr>ctx_amount = Fin 100, ctx_userId = Some ''u1'', ctx_provider = None, ctx_evaluationTime = None\<rparr>"
        "''u1''" 2 "Some (Fin 1)" "Some (Fin 100)" ?r None 2 "\<lambda>_. Fin 25000" "demo_strategy ''s1'' T_percentage S_global 9"] r
    by (simp add: Let_def finite_bound_def del: wf_num.simps)
qed

text \<open>
  A time window runs a minute late. A strategy created with a window from minute \<open>a\<close> to minute \<open>b\<close>
  of the day should apply from \<open>a\<close> on and no longer at \<open>b\<close>; but the database returns the times with
  seconds, the current time is compared with them as text without, and the strategy applies after
  \<open>a\<close> and still at \<open>b\<close>.
\<close>

theorem time_window_late:
  assumes "0 \<le> a" "a < 1440" "0 \<le> b" "b < 1440"
    "f_timeStart req = Some (clock_text a)" "f_timeEnd req = Some (clock_text b)"
  shows "(time_condition req t \<longleftrightarrow> day_matches req t \<and> a \<le> minute_of_day t \<and> minute_of_day t < b) \<and>
    (time_condition (fst (createStrategy up req who st)) t \<longleftrightarrow>
       day_matches req t \<and> a < minute_of_day t \<and> minute_of_day t \<le> b)"
proof
  show "time_condition req t \<longleftrightarrow> day_matches req t \<and> a \<le> minute_of_day t \<and> minute_of_day t < b"
    using window_text [of req a "[]" b "[]" t] assms by auto
  let ?s = "fst (createStrategy up req who st)"
  have "f_timeStart ?s = Some (clock_text a @ '':00'')" "f_timeEnd ?s = Some (clock_text b @ '':00'')"
    "day_matches ?s t = day_matches req t"
    using assms(5,6) by (simp_all add: createStrategy_def Let_def sql_time_def day_matches_def)
  then show "time_condition ?s t \<longleftrightarrow> day_matches req t \<and> a < minute_of_day t \<and> minute_of_day t \<le> b"
    using window_text [of ?s a "'':00''" b "'':00''" t] assms(1-4) by auto
qed

theorem time_window_late_witness:
  "\<not> time_condition (fst (createStrategy True (demo_strategy ''s'' T_time_based S_global 1) ''a'' empty_store))
      (86400000 + 540 * 60000) \<and>
   time_condition (demo_strategy ''s'' T_time_based S_global 1) (86400000 + 540 * 60000)"
  using time_window_late [of 540 1020 "demo_strategy ''s'' T_time_based S_global 1" "86400000 + 540 * 60000" True "''a''" empty_store]
  by (simp add: demo_strategy_def minute_of_day_def day_matches_def utc_day_def or_else_def)

end
