(* ===== verification/Event_Stream.thy ===== *)
theory Event_Stream
  imports Prelude
begin

text \<open>
  The server-sent event stream of transaction updates (\<^verbatim>\<open>src/services/transactionEventStream.ts\<close>): a
  bounded replay buffer, connections that replay what they missed and then follow live events, and
  the bookkeeping of listeners and heartbeat timers.

  The state holds the variables of the module. A connection is known by its token, the number of
  connections opened before it, and \<open>st_conns\<close> holds what its closure keeps: the client, whether it
  was closed, and the frames written so far. A frame is kept as a value, not as text. Whether the
  response accepts a write or throws is decided by the parameter \<open>throws\<close> from the token and the
  frames already written.

  The lemmas relate the buffer to the log of all events since the start: the buffer is its last
  part, and a connection that stays open has received, in order, exactly the visible events of the
  log after the position it asked for, or was told what is missing.
\<close>

section \<open>Events and headers\<close>

record TransactionStreamEvent =
  ev_transactionId :: id
  ev_userId :: "id option"
  ev_status :: "string option"
  ev_step :: "string option"
  ev_message :: "string option"
  ev_timestamp :: "millis option"
  ev_extra :: "(string \<times> jsval) list"

record BufferedTransactionEvent =
  be_id :: nat
  be_timestamp :: millis
  be_event :: TransactionStreamEvent

datatype LastEventId = Absent | Invalid string | Valid nat

datatype header = NoHeader | OneHeader string | ManyHeaders "string list"

definition MAX_SAFE_INTEGER :: rat where
  "MAX_SAFE_INTEGER = 2 ^ 53 - 1"

definition parseLastEventId :: "header \<Rightarrow> LastEventId" where
  "parseLastEventId h = (case h of
     NoHeader \<Rightarrow> Absent
   | _ \<Rightarrow>
     let raw = (case h of OneHeader s \<Rightarrow> s | ManyHeaders ss \<Rightarrow> if ss = [] then [] else last ss | NoHeader \<Rightarrow> []);
         trimmed = js_trim raw
     in if trimmed = [] \<or> \<not> list_all js_digit trimmed then Invalid trimmed
        else (case num (of_nat (dec_val trimmed)) of
                Fin v \<Rightarrow> if v \<le> MAX_SAFE_INTEGER then Valid (nat \<lfloor>v\<rfloor>) else Invalid trimmed
              | _ \<Rightarrow> Invalid trimmed))"

fun envInt :: "jsnum \<Rightarrow> nat \<Rightarrow> nat" where
  \<comment> \<open>the environment's value as \<^verbatim>\<open>Number\<close> reads it, and the fallback; the least value is 1\<close>
  "envInt (Fin raw) fallback = (if 1 \<le> raw then nat \<lfloor>raw\<rfloor> else fallback)"
| "envInt _ fallback = fallback"

definition replayBufferSize :: "jsnum \<Rightarrow> nat" where
  "replayBufferSize env = envInt env 100"

section \<open>The module's state\<close>

datatype frame =
    ConnectedFrame
  | InvalidIdFrame string
  | GapFrame nat nat
  | EventFrame BufferedTransactionEvent
  | PingFrame

record TransactionStreamClient =
  cl_userId :: id
  cl_transactionId :: "id option"

record connection =
  cn_client :: TransactionStreamClient
  cn_closed :: bool
  cn_out :: "frame list"

record stream =
  st_buffer :: "BufferedTransactionEvent list"
  st_nextEventId :: nat
  st_active :: "nat list"
  st_listeners :: "nat list"
  st_heartbeats :: "nat list"
  st_conns :: "connection list"

definition empty_stream :: stream where
  "empty_stream = \<lparr>st_buffer = [], st_nextEventId = 1, st_active = [], st_listeners = [],
     st_heartbeats = [], st_conns = []\<rparr>"

record ReplayResult =
  rr_events :: "BufferedTransactionEvent list"
  rr_gap :: "(nat \<times> nat) option"

definition getReplayEvents :: "nat \<Rightarrow> BufferedTransactionEvent list \<Rightarrow> ReplayResult" where
  "getReplayEvents lastEventId buffer = (case buffer of
     [] \<Rightarrow> \<lparr>rr_events = [], rr_gap = None\<rparr>
   | e # _ \<Rightarrow>
     let oldestRetainedId = be_id e in
     if int lastEventId < int oldestRetainedId - 1
     then \<lparr>rr_events = buffer, rr_gap = Some (lastEventId, oldestRetainedId)\<rparr>
     else \<lparr>rr_events = filter (\<lambda>e. lastEventId < be_id e) buffer, rr_gap = None\<rparr>)"

definition truthy_id :: "id option \<Rightarrow> bool" where
  "truthy_id i = (case i of None \<Rightarrow> False | Some s \<Rightarrow> s \<noteq> [])"

definition isEventVisible :: "TransactionStreamClient \<Rightarrow> BufferedTransactionEvent \<Rightarrow> bool" where
  "isEventVisible client be =
     (let e = be_event be in
      if truthy_id (cl_transactionId client) \<and> cl_transactionId client \<noteq> Some (ev_transactionId e) then False
      else if truthy_id (ev_userId e) then ev_userId e = Some (cl_userId client)
      else truthy_id (cl_transactionId client))"

section \<open>Writing and closing\<close>

type_synonym throws = "nat \<Rightarrow> frame list \<Rightarrow> bool"

definition set_conn :: "nat \<Rightarrow> (connection \<Rightarrow> connection) \<Rightarrow> stream \<Rightarrow> stream" where
  "set_conn k f s = s\<lparr>st_conns := (st_conns s)[k := f (st_conns s ! k)]\<rparr>"

definition cleanup :: "nat \<Rightarrow> stream \<Rightarrow> stream" where
  \<comment> \<open>\<^verbatim>\<open>closed\<close> guards the rest, so a second call does nothing\<close>
  "cleanup k s =
     (if cn_closed (st_conns s ! k) then s
      else (set_conn k (\<lambda>c. c\<lparr>cn_closed := True\<rparr>) s)
        \<lparr>st_heartbeats := filter (\<lambda>t. t \<noteq> k) (st_heartbeats s),
         st_listeners := filter (\<lambda>t. t \<noteq> k) (st_listeners s),
         st_active := filter (\<lambda>t. t \<noteq> k) (st_active s)\<rparr>)"

definition write_frame :: "throws \<Rightarrow> nat \<Rightarrow> frame \<Rightarrow> stream \<Rightarrow> stream" where
  "write_frame throws k f s =
     (let c = st_conns s ! k in
      if cn_closed c then s
      else if throws k (cn_out c) then cleanup k s
      else set_conn k (\<lambda>c. c\<lparr>cn_out := cn_out c @ [f]\<rparr>) s)"

definition onEvent :: "throws \<Rightarrow> BufferedTransactionEvent \<Rightarrow> nat \<Rightarrow> stream \<Rightarrow> stream" where
  "onEvent throws e k s =
     (if isEventVisible (cn_client (st_conns s ! k)) e then write_frame throws k (EventFrame e) s else s)"

section \<open>Publishing\<close>

definition publishTransactionEvent ::
  "throws \<Rightarrow> nat \<Rightarrow> millis \<Rightarrow> TransactionStreamEvent \<Rightarrow> stream \<Rightarrow> stream" where
  \<comment> \<open>\<^verbatim>\<open>emit\<close> calls the listeners that were registered when it started\<close>
  "publishTransactionEvent throws capacity now e s =
     (let buffered = \<lparr>be_id = st_nextEventId s,
            be_timestamp = (case ev_timestamp e of Some t \<Rightarrow> t | None \<Rightarrow> now), be_event = e\<rparr>;
          pushed = st_buffer s @ [buffered];
          kept = (if capacity < length pushed then drop (length pushed - capacity) pushed else pushed)
      in fold (onEvent throws buffered) (st_listeners s)
           (s\<lparr>st_buffer := kept, st_nextEventId := st_nextEventId s + 1\<rparr>))"

section \<open>Connecting\<close>

text \<open>
  The frames written while the connection is set up. The heartbeat timer is a constant that is only
  initialised after them: if a write_frame throws, the call of \<^verbatim>\<open>cleanup\<close> marks the connection closed and
  fails on the uninitialised timer, so the handler is left by an exception (the result \<open>False\<close>).
\<close>

fun setup_writes :: "throws \<Rightarrow> nat \<Rightarrow> frame list \<Rightarrow> stream \<Rightarrow> bool \<times> stream" where
  "setup_writes throws k [] s = (True, s)"
| "setup_writes throws k (f # fs) s =
     (if throws k (cn_out (st_conns s ! k))
      then (False, set_conn k (\<lambda>c. c\<lparr>cn_closed := True\<rparr>) s)
      else setup_writes throws k fs (set_conn k (\<lambda>c. c\<lparr>cn_out := cn_out c @ [f]\<rparr>) s))"

definition setup_frames :: "LastEventId \<Rightarrow> TransactionStreamClient \<Rightarrow> BufferedTransactionEvent list \<Rightarrow> frame list" where
  "setup_frames lastEventId client buffer = ConnectedFrame # (case lastEventId of
     Absent \<Rightarrow> []
   | Invalid raw \<Rightarrow> [InvalidIdFrame raw]
   | Valid v \<Rightarrow>
     let r = getReplayEvents v buffer in
     (case rr_gap r of None \<Rightarrow> [] | Some (req, oldest) \<Rightarrow> [GapFrame req oldest]) @
     map EventFrame (filter (isEventVisible client) (rr_events r)))"

definition attachTransactionStream ::
  "throws \<Rightarrow> header \<Rightarrow> TransactionStreamClient \<Rightarrow> stream \<Rightarrow> bool \<times> stream" where
  "attachTransactionStream throws h client s =
     (let k = length (st_conns s);
          s1 = s\<lparr>st_conns := st_conns s @ [\<lparr>cn_client = client, cn_closed = False, cn_out = []\<rparr>],
                st_active := st_active s @ [k], st_listeners := st_listeners s @ [k]\<rparr>
      in case setup_writes throws k (setup_frames (parseLastEventId h) client (st_buffer s)) s1 of
           (False, s2) \<Rightarrow> (False, s2)
         | (True, s2) \<Rightarrow> (True, s2\<lparr>st_heartbeats := st_heartbeats s2 @ [k]\<rparr>))"

record TransactionStreamStats =
  ss_connections :: nat
  ss_listeners :: nat
  ss_heartbeats :: nat
  ss_bufferedEvents :: nat
  ss_nextEventId :: nat

definition getTransactionStreamStats :: "stream \<Rightarrow> TransactionStreamStats" where
  "getTransactionStreamStats s =
     \<lparr>ss_connections = length (st_active s), ss_listeners = length (st_listeners s),
      ss_heartbeats = length (st_heartbeats s), ss_bufferedEvents = length (st_buffer s),
      ss_nextEventId = st_nextEventId s\<rparr>"

definition resetTransactionEventStream :: "stream \<Rightarrow> stream" where
  "resetTransactionEventStream s =
     s\<lparr>st_heartbeats := [], st_active := [], st_listeners := [], st_buffer := [], st_nextEventId := 1\<rparr>"

section \<open>Runs\<close>

datatype stream_op =
    Publish millis TransactionStreamEvent
  | Attach header TransactionStreamClient
  | Tick nat
  | Close nat

fun stream_step :: "throws \<Rightarrow> nat \<Rightarrow> stream_op \<Rightarrow> stream \<Rightarrow> stream" where
  "stream_step throws cap (Publish now e) s = publishTransactionEvent throws cap now e s"
| "stream_step throws cap (Attach h c) s = snd (attachTransactionStream throws h c s)"
| "stream_step throws cap (Tick k) s = (if k \<in> set (st_heartbeats s) then write_frame throws k PingFrame s else s)"
| "stream_step throws cap (Close k) s = (if k \<in> set (st_heartbeats s) then cleanup k s else s)"

definition run_stream :: "throws \<Rightarrow> nat \<Rightarrow> stream_op list \<Rightarrow> stream" where
  "run_stream throws cap ops = fold (stream_step throws cap) ops empty_stream"


section \<open>One connection\<close>

definition add_frame :: "frame \<Rightarrow> connection \<Rightarrow> connection" where
  "add_frame f c = c\<lparr>cn_out := cn_out c @ [f]\<rparr>"

definition conn_write :: "throws \<Rightarrow> nat \<Rightarrow> frame \<Rightarrow> connection \<Rightarrow> connection" where
  \<comment> \<open>what a write does to its own connection\<close>
  "conn_write throws k f c =
     (if cn_closed c then c else if throws k (cn_out c) then c\<lparr>cn_closed := True\<rparr> else add_frame f c)"

definition conn_event :: "throws \<Rightarrow> BufferedTransactionEvent \<Rightarrow> nat \<Rightarrow> connection \<Rightarrow> connection" where
  "conn_event throws e k c = (if isEventVisible (cn_client c) e then conn_write throws k (EventFrame e) c else c)"

lemma length_set_conn [simp]: "length (st_conns (set_conn k f s)) = length (st_conns s)"
  by (simp add: set_conn_def)

lemma set_conn_nth [simp]:
  "k < length (st_conns s) \<Longrightarrow> j < length (st_conns s) \<Longrightarrow>
   st_conns (set_conn k f s) ! j = (if j = k then f (st_conns s ! k) else st_conns s ! j)"
  by (simp add: set_conn_def nth_list_update)

lemma set_conn_fields [simp]:
  "st_buffer (set_conn k f s) = st_buffer s" "st_nextEventId (set_conn k f s) = st_nextEventId s"
  "st_active (set_conn k f s) = st_active s" "st_listeners (set_conn k f s) = st_listeners s"
  "st_heartbeats (set_conn k f s) = st_heartbeats s"
  by (simp_all add: set_conn_def)

lemma cleanup_fields [simp]:
  "st_buffer (cleanup k s) = st_buffer s" "st_nextEventId (cleanup k s) = st_nextEventId s"
  "length (st_conns (cleanup k s)) = length (st_conns s)"
  by (simp_all add: cleanup_def)

lemma cleanup_nth:
  "k < length (st_conns s) \<Longrightarrow> j < length (st_conns s) \<Longrightarrow>
   st_conns (cleanup k s) ! j = (if j = k then (st_conns s ! k)\<lparr>cn_closed := True\<rparr> else st_conns s ! j)"
  by (simp add: cleanup_def)

lemma write_frame_fields [simp]:
  "st_buffer (write_frame throws k f s) = st_buffer s" "st_nextEventId (write_frame throws k f s) = st_nextEventId s"
  "length (st_conns (write_frame throws k f s)) = length (st_conns s)"
  by (simp_all add: write_frame_def Let_def)

lemma write_frame_nth:
  "k < length (st_conns s) \<Longrightarrow> j < length (st_conns s) \<Longrightarrow>
   st_conns (write_frame throws k f s) ! j = (if j = k then conn_write throws k f (st_conns s ! k) else st_conns s ! j)"
  by (auto simp: write_frame_def conn_write_def add_frame_def Let_def cleanup_nth)

lemma onEvent_fields [simp]:
  "st_buffer (onEvent throws e k s) = st_buffer s" "st_nextEventId (onEvent throws e k s) = st_nextEventId s"
  "length (st_conns (onEvent throws e k s)) = length (st_conns s)"
  by (simp_all add: onEvent_def)

lemma onEvent_nth:
  "k < length (st_conns s) \<Longrightarrow> j < length (st_conns s) \<Longrightarrow>
   st_conns (onEvent throws e k s) ! j = (if j = k then conn_event throws e k (st_conns s ! k) else st_conns s ! j)"
  by (auto simp: onEvent_def conn_event_def write_frame_nth)

lemma fold_onEvent_fields [simp]:
  "st_buffer (fold (onEvent throws e) ks s) = st_buffer s"
  "st_nextEventId (fold (onEvent throws e) ks s) = st_nextEventId s"
  "length (st_conns (fold (onEvent throws e) ks s)) = length (st_conns s)"
  by (induction ks arbitrary: s) simp_all

lemma fold_onEvent_nth:
  assumes "distinct ks" "\<forall>k\<in>set ks. k < length (st_conns s)" "j < length (st_conns s)"
  shows "st_conns (fold (onEvent throws e) ks s) ! j =
    (if j \<in> set ks then conn_event throws e j (st_conns s ! j) else st_conns s ! j)"
  using assms by (induction ks arbitrary: s) (auto simp: onEvent_nth)

lemma setup_writes_spec:
  assumes "k < length (st_conns s)" "setup_writes throws k fs s = (ok, s')"
  shows "\<exists>c'. s' = s\<lparr>st_conns := (st_conns s)[k := c']\<rparr> \<and> cn_client c' = cn_client (st_conns s ! k) \<and>
    cn_closed c' = (\<not> ok \<or> cn_closed (st_conns s ! k)) \<and> (ok \<longrightarrow> cn_out c' = cn_out (st_conns s ! k) @ fs)"
  using assms
proof (induction fs arbitrary: s)
  case Nil
  then show ?case by (auto intro!: exI [of _ "st_conns s ! k"])
next
  case (Cons f fs)
  show ?case
  proof (cases "throws k (cn_out (st_conns s ! k))")
    case True
    then show ?thesis using Cons.prems
      by (auto simp: set_conn_def intro!: exI [of _ "(st_conns s ! k)\<lparr>cn_closed := True\<rparr>"])
  next
    case False
    then show ?thesis using Cons.prems Cons.IH [of "set_conn k (\<lambda>c. c\<lparr>cn_out := cn_out c @ [f]\<rparr>) s"]
      by (auto simp: set_conn_def)
  qed
qed

section \<open>The buffer and the log\<close>

fun stamp :: "nat \<Rightarrow> stream_op list \<Rightarrow> BufferedTransactionEvent list" where
  \<comment> \<open>the events of a run, with the ids they get\<close>
  "stamp n [] = []"
| "stamp n (Publish now e # ops) =
     \<lparr>be_id = n, be_timestamp = (case ev_timestamp e of Some t \<Rightarrow> t | None \<Rightarrow> now), be_event = e\<rparr> # stamp (n + 1) ops"
| "stamp n (Attach h c # ops) = stamp n ops"
| "stamp n (Tick k # ops) = stamp n ops"
| "stamp n (Close k # ops) = stamp n ops"

definition stream_log :: "stream_op list \<Rightarrow> BufferedTransactionEvent list" where
  "stream_log ops = stamp 1 ops"

lemma stamp_append: "stamp n (ops @ ops') = stamp n ops @ stamp (n + length (stamp n ops)) ops'"
  by (induction n ops rule: stamp.induct) simp_all

lemma stamp_ids: "map be_id (stamp n ops) = [n..<n + length (stamp n ops)]"
  by (induction n ops rule: stamp.induct) (simp_all add: upt_rec)

lemma stamp_nth_id: "i < length (stamp n ops) \<Longrightarrow> be_id (stamp n ops ! i) = n + i"
  using arg_cong [OF stamp_ids, of "\<lambda>xs. xs ! i" n ops] by simp

definition log_suffix :: "nat \<Rightarrow> BufferedTransactionEvent list \<Rightarrow> BufferedTransactionEvent list" where
  "log_suffix cap l = drop (length l - cap) l"

lemma drop_push: "drop (length (drop (n - cap) l @ [e]) - cap) (drop (n - cap) l @ [e]) = drop (Suc n - cap) (l @ [e])"
  if "n = length l"
proof (cases "n < cap")
  case True
  then show ?thesis using that by simp
next
  case False
  then have "Suc n - cap = (n - cap) + 1" by simp
  then show ?thesis using that False by (cases "cap = 0") simp_all
qed

lemma step_buffer:
  assumes "st_buffer s = log_suffix cap l" "st_nextEventId s = length l + 1"
  shows "st_buffer (stream_step throws cap x s) = log_suffix cap (l @ stamp (length l + 1) [x])"
    "st_nextEventId (stream_step throws cap x s) = length (l @ stamp (length l + 1) [x]) + 1"
proof -
  have "st_buffer (stream_step throws cap x s) = log_suffix cap (l @ stamp (length l + 1) [x]) \<and>
    st_nextEventId (stream_step throws cap x s) = length (l @ stamp (length l + 1) [x]) + 1"
  proof (cases x)
    case (Publish now e)
    then show ?thesis using assms drop_push [OF refl, of l cap]
      by (auto simp: publishTransactionEvent_def Let_def log_suffix_def)
  next
    case (Attach h c)
    let ?s1 = "s\<lparr>st_conns := st_conns s @ [\<lparr>cn_client = c, cn_closed = False, cn_out = []\<rparr>],
      st_active := st_active s @ [length (st_conns s)], st_listeners := st_listeners s @ [length (st_conns s)]\<rparr>"
    obtain ok s2 where w: "setup_writes throws (length (st_conns s)) (setup_frames (parseLastEventId h) c (st_buffer s)) ?s1 = (ok, s2)"
      by force
    then show ?thesis using setup_writes_spec [OF _ w] Attach assms
      by (auto simp: attachTransactionStream_def Let_def split: bool.splits)
  qed (use assms in auto)
  then show "st_buffer (stream_step throws cap x s) = log_suffix cap (l @ stamp (length l + 1) [x])"
    "st_nextEventId (stream_step throws cap x s) = length (l @ stamp (length l + 1) [x]) + 1" by blast+
qed

lemma run_stream_snoc: "run_stream throws cap (ops @ [x]) = stream_step throws cap x (run_stream throws cap ops)"
  by (simp add: run_stream_def)

lemma stream_log_snoc: "stream_log (ops @ [x]) = stream_log ops @ stamp (length (stream_log ops) + 1) [x]"
  by (simp add: stream_log_def stamp_append)

lemma run_buffer:
  "st_buffer (run_stream throws cap ops) = log_suffix cap (stream_log ops) \<and>
   st_nextEventId (run_stream throws cap ops) = length (stream_log ops) + 1"
proof (induction ops rule: rev_induct)
  case Nil
  then show ?case by (simp add: run_stream_def empty_stream_def stream_log_def log_suffix_def)
next
  case (snoc x ops)
  then show ?case using step_buffer [of "run_stream throws cap ops" cap "stream_log ops" throws x]
    by (simp only: run_stream_snoc stream_log_snoc)
qed

section \<open>Listeners and timers\<close>

definition open_conn :: "stream \<Rightarrow> nat \<Rightarrow> bool" where
  "open_conn s k \<longleftrightarrow> k < length (st_conns s) \<and> \<not> cn_closed (st_conns s ! k)"

definition book :: "nat list \<Rightarrow> stream \<Rightarrow> bool" where
  \<comment> \<open>the bookkeeping, with the tokens whose set-up failed\<close>
  "book F s \<longleftrightarrow> st_active s = st_listeners s \<and> distinct (st_listeners s) \<and> distinct (st_heartbeats s) \<and> distinct F \<and>
     set (st_heartbeats s) = Collect (open_conn s) \<and> set (st_listeners s) = Collect (open_conn s) \<union> set F \<and>
     (\<forall>k\<in>set F. k < length (st_conns s) \<and> \<not> open_conn s k)"

lemma book_cleanup:
  assumes "book F s" "k < length (st_conns s)"
  shows "book F (cleanup k s)"
proof (cases "cn_closed (st_conns s ! k)")
  case True
  then show ?thesis using assms by (simp add: cleanup_def)
next
  case False
  then have k: "k \<notin> set F" using assms by (auto simp: book_def open_conn_def)
  have "open_conn (cleanup k s) j \<longleftrightarrow> open_conn s j \<and> j \<noteq> k" for j
    using assms(2) False by (auto simp: open_conn_def cleanup_nth split: if_splits)
  then show ?thesis using assms k False by (auto simp: book_def cleanup_def)
qed

lemma book_set_conn:
  assumes "book F s" "k < length (st_conns s)" "cn_closed (f (st_conns s ! k)) = cn_closed (st_conns s ! k)"
  shows "book F (set_conn k f s)"
proof -
  have "open_conn (set_conn k f s) = open_conn s" using assms by (auto simp: open_conn_def fun_eq_iff split: if_splits)
  then show ?thesis using assms(1) by (simp add: book_def)
qed

lemma book_write_frame:
  "book F s \<Longrightarrow> k < length (st_conns s) \<Longrightarrow> book F (write_frame throws k f s)"
  by (simp add: write_frame_def Let_def book_cleanup book_set_conn)

lemma book_bounds: "book F s \<Longrightarrow> k \<in> set (st_listeners s) \<Longrightarrow> k < length (st_conns s)"
  "book F s \<Longrightarrow> k \<in> set (st_heartbeats s) \<Longrightarrow> k < length (st_conns s)"
  by (auto simp: book_def open_conn_def)

lemma book_fold_onEvent:
  "book F s \<Longrightarrow> \<forall>k\<in>set ks. k < length (st_conns s) \<Longrightarrow> book F (fold (onEvent throws e) ks s)"
  by (induction ks arbitrary: s) (simp_all add: onEvent_def book_write_frame)

lemma book_buffer: "book F (s\<lparr>st_buffer := b, st_nextEventId := n\<rparr>) \<longleftrightarrow> book F s"
proof -
  have "open_conn (s\<lparr>st_buffer := b, st_nextEventId := n\<rparr>) = open_conn s" by (simp add: open_conn_def fun_eq_iff)
  then show ?thesis by (simp add: book_def)
qed

lemma book_Publish: "book F s \<Longrightarrow> book F (publishTransactionEvent throws cap now e s)"
  unfolding publishTransactionEvent_def Let_def
  by (rule book_fold_onEvent) (simp_all add: book_buffer book_bounds(1))

lemma attach_spec:
  assumes "attachTransactionStream throws h c s = (ok, s')"
  obtains cn where "cn_client cn = c" "cn_closed cn = (\<not> ok)"
    "ok \<longrightarrow> cn_out cn = setup_frames (parseLastEventId h) c (st_buffer s)"
    "s' = s\<lparr>st_conns := st_conns s @ [cn], st_active := st_active s @ [length (st_conns s)],
       st_listeners := st_listeners s @ [length (st_conns s)],
       st_heartbeats := st_heartbeats s @ (if ok then [length (st_conns s)] else [])\<rparr>"
proof -
  let ?k = "length (st_conns s)"
  let ?s1 = "s\<lparr>st_conns := st_conns s @ [\<lparr>cn_client = c, cn_closed = False, cn_out = []\<rparr>],
      st_active := st_active s @ [?k], st_listeners := st_listeners s @ [?k]\<rparr>"
  obtain ok2 s2 where w: "setup_writes throws ?k (setup_frames (parseLastEventId h) c (st_buffer s)) ?s1 = (ok2, s2)"
    by force
  from setup_writes_spec [OF _ w] obtain cn where cn: "s2 = ?s1\<lparr>st_conns := (st_conns ?s1)[?k := cn]\<rparr>"
    "cn_client cn = c" "cn_closed cn = (\<not> ok2)" "ok2 \<longrightarrow> cn_out cn = setup_frames (parseLastEventId h) c (st_buffer s)"
    by auto
  have "ok = ok2" using assms w by (auto simp: attachTransactionStream_def Let_def split: bool.splits)
  then show thesis using that [of cn] cn assms w
    by (auto simp: attachTransactionStream_def Let_def split: bool.splits)
qed

lemma book_Attach:
  assumes "book F s" "attachTransactionStream throws h c s = (ok, s')"
  shows "book (F @ (if ok then [] else [length (st_conns s)])) s'"
proof -
  let ?n = "length (st_conns s)"
  from assms(2) obtain cn where cn: "cn_closed cn = (\<not> ok)"
    "s' = s\<lparr>st_conns := st_conns s @ [cn], st_active := st_active s @ [?n],
       st_listeners := st_listeners s @ [?n], st_heartbeats := st_heartbeats s @ (if ok then [?n] else [])\<rparr>"
    by (rule attach_spec)
  have o: "open_conn s' j \<longleftrightarrow> open_conn s j \<or> (ok \<and> j = ?n)" for j
    using cn by (auto simp: open_conn_def nth_append less_Suc_eq)
  have "j \<noteq> ?n" if "open_conn s j \<or> j \<in> set F" for j using that assms(1) by (auto simp: book_def open_conn_def)
  then show ?thesis using assms(1) o cn(2) by (cases ok) (auto simp: book_def less_Suc_eq)
qed

fun failed_setups :: "throws \<Rightarrow> nat \<Rightarrow> stream_op list \<Rightarrow> stream \<Rightarrow> nat list" where
  "failed_setups throws cap [] s = []"
| "failed_setups throws cap (x # ops) s =
     (case x of Attach h c \<Rightarrow> if fst (attachTransactionStream throws h c s) then [] else [length (st_conns s)] | _ \<Rightarrow> []) @
     failed_setups throws cap ops (stream_step throws cap x s)"

lemma book_run: "book F s \<Longrightarrow> book (F @ failed_setups throws cap ops s) (fold (stream_step throws cap) ops s)"
proof (induction ops arbitrary: F s)
  case (Cons x ops)
  have "book (F @ (case x of Attach h c \<Rightarrow> if fst (attachTransactionStream throws h c s) then [] else [length (st_conns s)] | _ \<Rightarrow> []))
      (stream_step throws cap x s)"
  proof (cases x)
    case (Attach h c)
    then show ?thesis
      using book_Attach [OF Cons.prems, of throws h c "fst (attachTransactionStream throws h c s)" "snd (attachTransactionStream throws h c s)"]
      by simp
  qed (use Cons.prems in \<open>auto simp: book_Publish book_write_frame book_cleanup book_bounds\<close>)
  then show ?case using Cons.IH by fastforce
qed simp

lemma book_empty: "book [] empty_stream"
  by (simp add: book_def empty_stream_def open_conn_def)

lemma book_lengths:
  assumes "book F s"
  shows "length (st_heartbeats s) = card (Collect (open_conn s))"
    "length (st_listeners s) = length (st_heartbeats s) + length F"
proof -
  have d: "distinct (st_heartbeats s @ F)" "set (st_heartbeats s @ F) = set (st_listeners s)"
    using assms by (auto simp: book_def)
  then show "length (st_listeners s) = length (st_heartbeats s) + length F"
    using assms distinct_card [of "st_listeners s"] distinct_card [OF d(1)] by (simp add: book_def)
  show "length (st_heartbeats s) = card (Collect (open_conn s))"
    using assms distinct_card [of "st_heartbeats s"] by (simp add: book_def)
qed

section \<open>What a connection receives\<close>

fun delivered :: "frame list \<Rightarrow> BufferedTransactionEvent list" where
  "delivered [] = []"
| "delivered (EventFrame e # fs) = e # delivered fs"
| "delivered (f # fs) = delivered fs"

fun gaps :: "frame list \<Rightarrow> (nat \<times> nat) list" where
  "gaps [] = []"
| "gaps (GapFrame a b # fs) = (a, b) # gaps fs"
| "gaps (f # fs) = gaps fs"

lemma delivered_append [simp]: "delivered (fs @ gs) = delivered fs @ delivered gs"
  by (induction fs rule: delivered.induct) simp_all

lemma gaps_append [simp]: "gaps (fs @ gs) = gaps fs @ gaps gs"
  by (induction fs rule: gaps.induct) simp_all

lemma delivered_events [simp]: "delivered (map EventFrame es) = es" "gaps (map EventFrame es) = []"
  by (induction es) simp_all

definition follows :: "BufferedTransactionEvent list \<Rightarrow> connection \<Rightarrow> connection \<Rightarrow> bool" where
  \<comment> \<open>the later connection kept its client and, if it is still open, received these events\<close>
  "follows es c c' \<longleftrightarrow> cn_client c' = cn_client c \<and> (\<not> cn_closed c' \<longrightarrow> \<not> cn_closed c \<and>
     delivered (cn_out c') = delivered (cn_out c) @ filter (isEventVisible (cn_client c)) es \<and> gaps (cn_out c') = gaps (cn_out c))"

lemma follows_refl: "follows [] c c"
  by (simp add: follows_def)

lemma follows_trans: "follows es c c' \<Longrightarrow> follows es' c' c'' \<Longrightarrow> follows (es @ es') c c''"
  by (auto simp: follows_def)

lemma follows_event: "follows [e] c (conn_event throws e k c)"
  by (simp add: follows_def conn_event_def conn_write_def add_frame_def)

lemma follows_closed: "cn_closed c \<Longrightarrow> follows es c c"
  by (simp add: follows_def)

lemma follows_step:
  assumes "book F s" "k < length (st_conns s)"
  shows "k < length (st_conns (stream_step throws cap x s)) \<and>
    follows (stamp (st_nextEventId s) [x]) (st_conns s ! k) (st_conns (stream_step throws cap x s) ! k)"
proof (cases x)
  case (Publish now e)
  let ?be = "\<lparr>be_id = st_nextEventId s, be_timestamp = (case ev_timestamp e of Some t \<Rightarrow> t | None \<Rightarrow> now), be_event = e\<rparr>"
  obtain b where p: "stream_step throws cap x s =
      fold (onEvent throws ?be) (st_listeners s) (s\<lparr>st_buffer := b, st_nextEventId := st_nextEventId s + 1\<rparr>)"
    using Publish by (simp add: publishTransactionEvent_def Let_def)
  have "distinct (st_listeners s)" "\<forall>j\<in>set (st_listeners s). j < length (st_conns s)"
    using assms(1) book_bounds(1) by (auto simp: book_def)
  then have n: "st_conns (stream_step throws cap x s) ! k =
      (if k \<in> set (st_listeners s) then conn_event throws ?be k (st_conns s ! k) else st_conns s ! k)"
    unfolding p using assms(2) by (subst fold_onEvent_nth) simp_all
  have "cn_closed (st_conns s ! k)" if "k \<notin> set (st_listeners s)"
    using that assms by (auto simp: book_def open_conn_def)
  then show ?thesis using n assms(2) p Publish by (auto simp: follows_event follows_closed)
next
  case (Attach h c)
  obtain ok s' where a: "attachTransactionStream throws h c s = (ok, s')" by force
  then show ?thesis using Attach assms(2) by (auto simp: nth_append follows_refl elim!: attach_spec)
next
  case (Tick j)
  show ?thesis
  proof (cases "j \<in> set (st_heartbeats s)")
    case True
    then show ?thesis using Tick assms write_frame_nth [OF book_bounds(2) [OF assms(1)], of j k throws PingFrame]
      by (auto simp: follows_refl follows_def conn_write_def add_frame_def)
  qed (use Tick assms follows_refl in simp)
next
  case (Close j)
  show ?thesis
  proof (cases "j \<in> set (st_heartbeats s)")
    case True
    then show ?thesis using Close assms cleanup_nth [OF book_bounds(2) [OF assms(1)], of j k]
      by (auto simp: follows_refl follows_def)
  qed (use Close assms follows_refl in simp)
qed

lemma step_next: "st_nextEventId (stream_step throws cap x s) = st_nextEventId s + length (stamp (st_nextEventId s) [x])"
proof (cases x)
  case (Attach h c)
  obtain ok s' where a: "attachTransactionStream throws h c s = (ok, s')" by force
  then show ?thesis using Attach by (auto elim!: attach_spec)
qed (simp_all add: publishTransactionEvent_def Let_def)

lemma follows_run:
  assumes "book F s" "k < length (st_conns s)"
  shows "follows (stamp (st_nextEventId s) ops) (st_conns s ! k) (st_conns (fold (stream_step throws cap) ops s) ! k)"
  using assms
proof (induction ops arbitrary: F s)
  case (Cons x ops)
  let ?s = "stream_step throws cap x s"
  have "book (F @ failed_setups throws cap [x] s) ?s" using book_run [OF Cons.prems(1), of throws cap "[x]"] by simp
  note f = follows_step [OF Cons.prems, of throws cap x]
  from f Cons.IH [OF \<open>book _ ?s\<close>] have "follows (stamp (st_nextEventId ?s) ops) (st_conns ?s ! k)
      (st_conns (fold (stream_step throws cap) ops ?s) ! k)" by blast
  then show ?case using follows_trans f stamp_append [of "st_nextEventId s" "[x]" ops] by (fastforce simp: step_next)
qed (simp add: follows_refl)

lemma filter_log_ids:
  assumes "l = stamp 1 ops" "r \<le> length l"
  shows "filter (\<lambda>e. v < be_id e) (drop r l) = drop (max (min v (length l)) r) l"
proof -
  have "filter (\<lambda>e. v < be_id e) xs = drop (v - n) xs" if "map be_id xs = [Suc n..<Suc n + length xs]" for xs n
    using that
  proof (induction xs arbitrary: n)
    case (Cons x xs)
    then have "be_id x = Suc n" "map be_id xs = [Suc (Suc n)..<Suc (Suc n) + length xs]" by (simp_all add: upt_rec)
    note x = this
    show ?case
    proof (cases "v \<le> n")
      case True
      then show ?thesis using Cons.IH [of "Suc n"] x by simp
    next
      case False
      then have "v - n = Suc (v - Suc n)" by simp
      then show ?thesis using Cons.IH [of "Suc n"] x False by simp
    qed
  qed simp
  moreover have "map be_id (drop r l) = [Suc r..<Suc r + length (drop r l)]"
  proof -
    have "map be_id (drop r l) = drop r (map be_id l)" by (simp add: drop_map)
    then show ?thesis using assms by (simp add: stamp_ids drop_upt del: upt_Suc)
  qed
  ultimately have "filter (\<lambda>e. v < be_id e) (drop r l) = drop (v - r) (drop r l)" by blast
  also have "\<dots> = drop (max (min v (length l)) r) l"
    using assms(2) by (cases "v \<le> length l") (auto simp: max_def min_def)
  finally show ?thesis .
qed

lemma getReplayEvents_log:
  assumes "0 < cap" "l = stream_log ops" "b = log_suffix cap l"
  shows "rr_events (getReplayEvents v b) = drop (max (min v (length l)) (length l - cap)) l"
    "rr_gap (getReplayEvents v b) = (if v < length l - cap then Some (v, length l - cap + 1) else None)"
proof -
  let ?r = "length l - cap"
  have "rr_events (getReplayEvents v b) = drop (max (min v (length l)) ?r) l \<and>
    rr_gap (getReplayEvents v b) = (if v < ?r then Some (v, ?r + 1) else None)"
  proof (cases b)
    case Nil
    then have "length l - ?r = 0" using assms(3) length_drop [of ?r l] by (simp only: log_suffix_def list.size)
    then have "l = []" using assms(1) by (cases l) auto
    then show ?thesis using Nil by (simp add: getReplayEvents_def)
  next
    case (Cons e es)
    have "length b = length l - ?r" unfolding assms(3) log_suffix_def by (rule length_drop)
    then have r: "?r < length l" using Cons by simp
    then have "e = l ! ?r" using Cons assms(3) by (simp add: log_suffix_def Cons_nth_drop_Suc [symmetric])
    then have id: "be_id e = ?r + 1" using r assms(2) by (simp add: stream_log_def stamp_nth_id)
    have g: "getReplayEvents v b = (if v < ?r then \<lparr>rr_events = b, rr_gap = Some (v, ?r + 1)\<rparr>
        else \<lparr>rr_events = filter (\<lambda>e. v < be_id e) b, rr_gap = None\<rparr>)"
      unfolding getReplayEvents_def Cons using id by (simp add: Let_def)
    have "filter (\<lambda>e. v < be_id e) (drop ?r l) = drop (max (min v (length l)) ?r) l"
      by (rule filter_log_ids) (simp_all add: assms(2) stream_log_def)
    note fl = this
    have bd: "b = drop ?r l" by (simp add: assms(3) log_suffix_def)
    have "max (min v (length l)) ?r = ?r" if "v < ?r" using that by simp
    then show ?thesis unfolding g using fl bd by (cases "v < ?r") simp_all
  qed
  then show "rr_events (getReplayEvents v b) = drop (max (min v (length l)) ?r) l"
    "rr_gap (getReplayEvents v b) = (if v < ?r then Some (v, ?r + 1) else None)" by blast+
qed

definition start_position :: "LastEventId \<Rightarrow> nat \<Rightarrow> nat \<Rightarrow> nat" where
  \<comment> \<open>the position in the log from which a connection is served\<close>
  "start_position lastEventId n cap = (case lastEventId of Valid v \<Rightarrow> max (min v n) (n - cap) | _ \<Rightarrow> n)"

definition reported_gap :: "LastEventId \<Rightarrow> nat \<Rightarrow> nat \<Rightarrow> (nat \<times> nat) list" where
  "reported_gap lastEventId n cap =
     (case lastEventId of Valid v \<Rightarrow> if v < n - cap then [(v, n - cap + 1)] else [] | _ \<Rightarrow> [])"

lemma setup_frames_log:
  assumes "0 < cap" "l = stream_log ops" "b = log_suffix cap l"
  shows "delivered (setup_frames i c b) = filter (isEventVisible c) (drop (start_position i (length l) cap) l)"
    "gaps (setup_frames i c b) = reported_gap i (length l) cap"
  using getReplayEvents_log [OF assms]
  by (auto simp: setup_frames_def start_position_def reported_gap_def Let_def split: LastEventId.splits option.splits)

lemma replayBufferSize_pos: "0 < replayBufferSize env"
proof -
  have "1 \<le> nat \<lfloor>r\<rfloor>" if "1 \<le> r" for r :: rat using that by (simp add: le_nat_iff le_floor_iff)
  then show ?thesis by (cases env) (auto simp: replayBufferSize_def Suc_le_eq)
qed

section \<open>Properties\<close>

text \<open>
  C34. A stream delivers everything or says what is missing. Take a connection that was set up
  after the operations \<open>pre\<close> and is still open after the operations \<open>post\<close>. It has received, in order
  and each once, exactly the events visible to its client from its start position on: the position
  it asked for, or, if the buffer no longer reaches back so far, the oldest retained one, in which
  case, and only then, it was told of the gap. Without a valid position it receives the events
  published since it connected. A position beyond the end of the log, as a client has that was
  connected before a restart, counts as the end, and no gap is reported.
\<close>

theorem stream_delivers:
  assumes "cap = replayBufferSize env" "k = length (st_conns (run_stream throws cap pre))"
    "c = st_conns (run_stream throws cap (pre @ Attach h client # post)) ! k" "\<not> cn_closed c"
  shows "let n = length (stream_log pre); i = parseLastEventId h in
    delivered (cn_out c) =
      filter (isEventVisible client) (drop (start_position i n cap) (stream_log (pre @ Attach h client # post))) \<and>
    gaps (cn_out c) = reported_gap i n cap"
proof -
  let ?s = "run_stream throws cap pre"
  obtain ok s' where a: "attachTransactionStream throws h client ?s = (ok, s')" by force
  have bk: "book ([] @ failed_setups throws cap pre empty_stream) ?s"
    unfolding run_stream_def by (rule book_run [OF book_empty])
  from a obtain cn where cn: "cn_client cn = client" "cn_closed cn = (\<not> ok)"
    "ok \<longrightarrow> cn_out cn = setup_frames (parseLastEventId h) client (st_buffer ?s)" "st_conns s' = st_conns ?s @ [cn]"
    "st_nextEventId s' = st_nextEventId ?s"
    by (rule attach_spec) auto
  have f: "follows (stamp (st_nextEventId s') post) cn c"
    using follows_run [OF book_Attach [OF bk a], of k post throws cap] cn(4) a assms(2,3) by (simp add: run_stream_def)
  then have ok: ok using cn(2) assms(4) by (auto simp: follows_def)
  have l: "stream_log (pre @ Attach h client # post) = stream_log pre @ stamp (st_nextEventId s') post"
    using run_buffer [of throws cap pre] cn(5) by (simp add: stream_log_def stamp_append)
  have cap: "0 < cap" using assms(1) replayBufferSize_pos by simp
  have le: "start_position i n cap \<le> n" for i n by (auto simp: start_position_def split: LastEventId.splits)
  show ?thesis
    using f cn(1,3) ok assms(4) setup_frames_log [OF cap refl run_buffer [THEN conjunct1], of "parseLastEventId h" client throws pre] le
    by (simp add: follows_def Let_def l)
qed

definition demo_event :: "id \<Rightarrow> id \<Rightarrow> stream_op" where
  "demo_event t u = Publish 1000 \<lparr>ev_transactionId = t, ev_userId = Some u, ev_status = Some ''completed'', ev_step = None,
     ev_message = None, ev_timestamp = None, ev_extra = []\<rparr>"

definition demo_client :: TransactionStreamClient where
  "demo_client = \<lparr>cl_userId = ''u1'', cl_transactionId = None\<rparr>"

theorem stream_delivers_witness:
  "let ops = [demo_event ''t1'' ''u1'', demo_event ''t2'' ''u2'', demo_event ''t3'' ''u1'', demo_event ''t4'' ''u1''] @
       Attach (OneHeader ''1'') demo_client # [demo_event ''t5'' ''u1''];
       c = st_conns (run_stream (\<lambda>_ _. False) 2 ops) ! 0
   in map be_id (delivered (cn_out c)) = [3, 4, 5] \<and> gaps (cn_out c) = [(1, 3)]"
proof -
  let ?pre = "[demo_event ''t1'' ''u1'', demo_event ''t2'' ''u2'', demo_event ''t3'' ''u1'', demo_event ''t4'' ''u1'']"
  let ?post = "[demo_event ''t5'' ''u1'']"
  have h: "2 = replayBufferSize (Fin 2)" "0 = length (st_conns (run_stream (\<lambda>_ _. False) 2 ?pre))"
    "\<not> cn_closed (st_conns (run_stream (\<lambda>_ _. False) 2 (?pre @ Attach (OneHeader ''1'') demo_client # ?post)) ! 0)"
    by code_simp+
  have v: "map be_id (filter (isEventVisible demo_client) (drop (start_position (parseLastEventId (OneHeader ''1''))
      (length (stream_log ?pre)) 2) (stream_log (?pre @ Attach (OneHeader ''1'') demo_client # ?post)))) = [3, 4, 5]"
    "reported_gap (parseLastEventId (OneHeader ''1'')) (length (stream_log ?pre)) 2 = [(1, 3)]"
    by code_simp+
  show ?thesis using stream_delivers [OF h(1,2) refl h(3)] v by (simp add: Let_def)
qed

text \<open>
  The bookkeeping of the stream: whatever is published, connected, closed or fails, there is
  one heartbeat timer for each open connection, and as many registered connections as listeners.
  Their number exceeds that of the open connections by the connections whose set-up failed: these
  are never released.
\<close>

theorem stream_bookkeeping:
  "let s = run_stream throws cap ops; stats = getTransactionStreamStats s in
    ss_heartbeats stats = card {k. k < length (st_conns s) \<and> \<not> cn_closed (st_conns s ! k)} \<and>
    ss_connections stats = ss_listeners stats \<and>
    ss_listeners stats = ss_heartbeats stats + length (failed_setups throws cap ops empty_stream)"
proof -
  have b: "book ([] @ failed_setups throws cap ops empty_stream) (run_stream throws cap ops)"
    unfolding run_stream_def by (rule book_run [OF book_empty])
  then have "st_active (run_stream throws cap ops) = st_listeners (run_stream throws cap ops)" by (simp add: book_def)
  then show ?thesis using book_lengths [OF b]
    by (simp add: getTransactionStreamStats_def Let_def open_conn_def [abs_def])
qed

end
