(* ===== verification/Multisig.thy ===== *)
theory Multisig
  imports Decimal
begin

text \<open>
  The multi-signature custody ledger (\<^verbatim>\<open>src/services/multisigCustodyLedgerService.ts\<close>) and the two
  routers that drive it (\<^verbatim>\<open>src/routes/adminWithdrawals.ts\<close>, \<^verbatim>\<open>src/routes/multisigCallbacks.ts\<close>).

  The state \<open>custody\<close> holds the tables, the cache of configurations and the payouts requested from the
  provider. Handlers run concurrently: each is a \<open>task\<close> that advances by one database statement at a
  time, so that every interleaving of statements is a run of \<open>ms_step\<close>. Configurations and signers are
  not changed by this code, so their reads are joined to the statement before them, as are the
  writes of the audit log, which nothing reads. An amount is stored in units of the seventh decimal.

  Parameters: the verification of a signature and the outcome of a payout.
\<close>

section \<open>Tables\<close>

datatype account_type = Escrow | Issuance | Vault

record MultisigConfig =
  mc_id :: id
  mc_account_type :: account_type
  mc_account_id :: id
  mc_required_signatures :: int
  mc_total_signers :: int
  mc_daily_cap :: jsnum
  mc_per_transaction_cap :: jsnum
  mc_time_lock_minutes :: int
  mc_is_active :: bool

record MultisigSigner =
  si_config :: id
  si_signer :: id
  si_name :: string
  si_public_key :: string
  si_is_active :: bool

datatype MultisigRequestType = R_transfer | R_issuance | R_vault_operation | R_withdrawal

datatype MultisigRequestStatus = M_pending | M_approved | M_rejected | M_cancelled | M_expired | M_executed

record MultisigRequest =
  rq_id :: id
  rq_config :: id
  rq_type :: MultisigRequestType
  rq_account :: id
  rq_units :: int
  rq_destination :: string
  rq_metadata :: "(string \<times> jsval) list"
  rq_status :: MultisigRequestStatus
  rq_required :: int
  rq_collected :: int
  rq_expires_at :: millis
  rq_created_by :: id
  rq_created_at :: millis
  rq_executed_at :: "millis option"
  rq_executed_by :: "id option"

datatype signature_type = ByWebhook | ByManual | ByApi

record MultisigSignature =
  sg_request :: id
  sg_signer :: id
  sg_data :: string
  sg_type :: signature_type

record MultisigAuditLog =
  au_request :: id
  au_action :: string
  au_actor :: id

record custody_payout =
  cp_request :: id
  cp_provider :: string
  cp_destination :: string
  cp_amount :: string

record custody =
  cu_configs :: "MultisigConfig list"
  cu_signers :: "MultisigSigner list"
  cu_requests :: "MultisigRequest list"
  cu_signatures :: "MultisigSignature list"
  cu_audit :: "MultisigAuditLog list"
  cu_cache :: "((account_type \<times> id) \<times> MultisigConfig \<times> millis) list"
  cu_payouts :: "custody_payout list"

record custody_env =
  verify :: "string \<Rightarrow> string \<Rightarrow> string \<Rightarrow> bool"
  payout_succeeds :: "custody_payout list \<Rightarrow> bool"

section \<open>Reading\<close>

definition getConfigById :: "id \<Rightarrow> custody \<Rightarrow> MultisigConfig option" where
  "getConfigById i s = find (\<lambda>c. mc_id c = i) (cu_configs s)"

definition getRequestById :: "id \<Rightarrow> custody \<Rightarrow> MultisigRequest option" where
  "getRequestById i s = find (\<lambda>r. rq_id r = i) (cu_requests s)"

definition getSigners :: "id \<Rightarrow> custody \<Rightarrow> MultisigSigner list" where
  "getSigners c s = filter (\<lambda>x. si_config x = c \<and> si_is_active x) (cu_signers s)"

definition getSignature :: "id \<Rightarrow> id \<Rightarrow> custody \<Rightarrow> MultisigSignature option" where
  "getSignature i who s = find (\<lambda>g. sg_request g = i \<and> sg_signer g = who) (cu_signatures s)"

definition CONFIG_TTL :: millis where
  "CONFIG_TTL = 120 * 1000"

definition getMultisigConfig :: "millis \<Rightarrow> account_type \<Rightarrow> id \<Rightarrow> custody \<Rightarrow> MultisigConfig option \<times> custody" where
  \<comment> \<open>\<^verbatim>\<open>UNIQUE(account_type, account_id)\<close> leaves at most one row to order\<close>
  "getMultisigConfig now ty a s =
     (case map_of (filter (\<lambda>(_, _, till). now < till) (cu_cache s)) (ty, a) of
        Some (c, _) \<Rightarrow> (Some c, s)
      | None \<Rightarrow>
          (case find (\<lambda>c. mc_account_type c = ty \<and> mc_account_id c = a \<and> mc_is_active c) (cu_configs s) of
             None \<Rightarrow> (None, s)
           | Some c \<Rightarrow> (Some c, s\<lparr>cu_cache := ((ty, a), c, now + CONFIG_TTL) # cu_cache s\<rparr>)))"

definition day_start :: "millis \<Rightarrow> millis" where
  "day_start now = now - now mod 86400000"

definition getDailyTotal :: "millis \<Rightarrow> account_type \<Rightarrow> id \<Rightarrow> custody \<Rightarrow> jsnum" where
  "getDailyTotal now ty a s =
     num (of_int (sum_list (map rq_units (filter (\<lambda>r.
        (case getConfigById (rq_config r) s of
           None \<Rightarrow> False | Some c \<Rightarrow> mc_account_type c = ty \<and> mc_account_id c = a) \<and>
        (rq_status r = M_approved \<or> rq_status r = M_executed) \<and>
        day_start now \<le> rq_created_at r) (cu_requests s)))) / 10 ^ 7)"

section \<open>Requesting\<close>

datatype check_reason = ExceedsTransactionCap | ExceedsDailyCap jsnum

record MultisigCheckResult =
  requiresApproval :: bool
  ck_config :: "MultisigConfig option"
  ck_reason :: "check_reason option"

definition checkMultisigRequirement ::
  "millis \<Rightarrow> account_type \<Rightarrow> id \<Rightarrow> rat \<Rightarrow> custody \<Rightarrow> MultisigCheckResult \<times> custody" where
  "checkMultisigRequirement now ty a amount s =
     (case getMultisigConfig now ty a s of
        (None, s') \<Rightarrow> (\<lparr>requiresApproval = False, ck_config = None, ck_reason = None\<rparr>, s')
      | (Some c, s') \<Rightarrow>
          if \<not> mc_is_active c then (\<lparr>requiresApproval = False, ck_config = None, ck_reason = None\<rparr>, s')
          else if js_lt (mc_per_transaction_cap c) (Fin amount)
          then (\<lparr>requiresApproval = True, ck_config = Some c, ck_reason = Some ExceedsTransactionCap\<rparr>, s')
          else let dailyTotal = getDailyTotal now ty a s' in
               if js_lt (mc_daily_cap c) (js_add dailyTotal (Fin amount))
               then (\<lparr>requiresApproval = True, ck_config = Some c, ck_reason = Some (ExceedsDailyCap dailyTotal)\<rparr>, s')
               else (\<lparr>requiresApproval = False, ck_config = Some c, ck_reason = None\<rparr>, s'))"

datatype custody_error =
    NoActiveConfig account_type id
  | OverTransactionCap
  | OverDailyCap jsnum
  | ConfigNotFound
  | RowRefused

definition logAuditEvent :: "id \<Rightarrow> string \<Rightarrow> id \<Rightarrow> custody \<Rightarrow> custody" where
  "logAuditEvent i action actor s =
     s\<lparr>cu_audit := cu_audit s @ [\<lparr>au_request = i, au_action = action, au_actor = actor\<rparr>]\<rparr>"

definition createApprovalRequest ::
  "id \<Rightarrow> millis \<Rightarrow> id \<Rightarrow> MultisigRequestType \<Rightarrow> id \<Rightarrow> rat \<Rightarrow> string \<Rightarrow> id \<Rightarrow> (string \<times> jsval) list \<Rightarrow> custody \<Rightarrow>
   custody_error + (MultisigRequest \<times> custody)" where
  \<comment> \<open>\<open>new\<close> is the id the database generates; it refuses an amount that rounds to zero or less, or
     does not fit, and texts that are too long\<close>
  "createApprovalRequest new now configId ty account amount destination by metadata s =
     (case getConfigById configId s of
        None \<Rightarrow> Inl ConfigNotFound
      | Some config \<Rightarrow>
          let units = sql_units (decimal_value amount);
              r = \<lparr>rq_id = new, rq_config = configId, rq_type = ty, rq_account = account, rq_units = units,
                   rq_destination = destination, rq_metadata = metadata, rq_status = M_pending,
                   rq_required = mc_required_signatures config, rq_collected = 0,
                   rq_expires_at = now + mc_time_lock_minutes config * 60 * 1000, rq_created_by = by,
                   rq_created_at = now, rq_executed_at = None, rq_executed_by = None\<rparr>
          in if units \<le> 0 \<or> \<not> sql_fits units \<or> 255 < length account \<or> 255 < length destination \<or> 255 < length by
             then Inl RowRefused
             else Inr (r, logAuditEvent new ''created'' by (s\<lparr>cu_requests := cu_requests s @ [r]\<rparr>)))"

definition requestWithdrawal ::
  "id \<Rightarrow> millis \<Rightarrow> account_type \<Rightarrow> id \<Rightarrow> rat \<Rightarrow> string \<Rightarrow> id \<Rightarrow> (string \<times> jsval) list \<Rightarrow> custody \<Rightarrow>
   custody_error + (MultisigRequest \<times> custody)" where
  "requestWithdrawal new now ty a amount destination by metadata s =
     (case getMultisigConfig now ty a s of
        (None, s') \<Rightarrow> Inl (NoActiveConfig ty a)
      | (Some config, s') \<Rightarrow>
          if js_lt (mc_per_transaction_cap config) (Fin amount) then Inl OverTransactionCap
          else let dailyTotal = getDailyTotal now ty a s' in
               if js_lt (mc_daily_cap config) (js_add dailyTotal (Fin amount)) then Inl (OverDailyCap dailyTotal)
               else createApprovalRequest new now (mc_id config) R_withdrawal a amount destination by metadata s')"

section \<open>Signing\<close>

definition update_request :: "id \<Rightarrow> (MultisigRequest \<Rightarrow> MultisigRequest) \<Rightarrow> custody \<Rightarrow> custody" where
  "update_request i f s = s\<lparr>cu_requests := sql_update (\<lambda>r. rq_id r = i) f (cu_requests s)\<rparr>"

definition updateRequestStatus :: "id \<Rightarrow> MultisigRequestStatus \<Rightarrow> custody \<Rightarrow> custody" where
  "updateRequestStatus i st = update_request i (\<lambda>r. r\<lparr>rq_status := st\<rparr>)"

definition incrementSignatureCount :: "id \<Rightarrow> custody \<Rightarrow> MultisigRequest option \<times> custody" where
  "incrementSignatureCount i s =
     (let s' = update_request i (\<lambda>r. r\<lparr>rq_collected := rq_collected r + 1\<rparr>) s in (getRequestById i s', s'))"

datatype sign_outcome =
    RequestNotFound
  | AlreadyIn MultisigRequestStatus
  | RequestExpired
  | NotAuthorized
  | AlreadySigned
  | SignatureRecorded
  | FullyApproved
  | SignThrows

datatype sign_phase =
    SignRead
  | SignExpire
  | SignCheck MultisigSigner
  | SignInsert MultisigSigner
  | SignCount MultisigSigner
  | SignApprove
  | SignDone sign_outcome

fun addSignature_step ::
  "millis \<Rightarrow> id \<Rightarrow> id \<Rightarrow> string \<Rightarrow> signature_type \<Rightarrow> sign_phase \<Rightarrow> custody \<Rightarrow> sign_phase \<times> custody" where
  "addSignature_step now i who data ty SignRead s =
     (case getRequestById i s of
        None \<Rightarrow> (SignDone RequestNotFound, s)
      | Some r \<Rightarrow>
          if rq_status r \<noteq> M_pending then (SignDone (AlreadyIn (rq_status r)), s)
          else if rq_expires_at r < now then (SignExpire, s)
          else (case find (\<lambda>x. si_signer x = who \<and> si_is_active x) (getSigners (rq_config r) s) of
                  None \<Rightarrow> (SignDone NotAuthorized, s)
                | Some signer \<Rightarrow> (SignCheck signer, s)))"
| "addSignature_step now i who data ty SignExpire s = (SignDone RequestExpired, updateRequestStatus i M_expired s)"
| "addSignature_step now i who data ty (SignCheck signer) s =
     (case getSignature i who s of
        Some _ \<Rightarrow> (SignDone AlreadySigned, s)
      | None \<Rightarrow> (SignInsert signer, s))"
| "addSignature_step now i who data ty (SignInsert signer) s =
     (if getSignature i who s \<noteq> None then (SignDone SignThrows, s)
      else (SignCount signer,
            s\<lparr>cu_signatures := cu_signatures s @
                 [\<lparr>sg_request = i, sg_signer = who, sg_data = data, sg_type = ty\<rparr>]\<rparr>))"
| "addSignature_step now i who data ty (SignCount signer) s =
     (case incrementSignatureCount i s of
        (None, s') \<Rightarrow> (SignDone SignThrows, s')
      | (Some r, s') \<Rightarrow>
          (if rq_required r \<le> rq_collected r then SignApprove else SignDone SignatureRecorded,
           logAuditEvent i ''signature_added'' who s'))"
| "addSignature_step now i who data ty SignApprove s =
     (SignDone FullyApproved, logAuditEvent i ''auto_approved'' ''system'' (updateRequestStatus i M_approved s))"
| "addSignature_step now i who data ty (SignDone r) s = (SignDone r, s)"

section \<open>Executing and cancelling\<close>

datatype exec_phase = ExecRead | ExecUpdate | ExecDone bool

fun executeApprovedRequest_step :: "millis \<Rightarrow> id \<Rightarrow> id \<Rightarrow> exec_phase \<Rightarrow> custody \<Rightarrow> exec_phase \<times> custody" where
  "executeApprovedRequest_step now i by ExecRead s =
     (case getRequestById i s of
        None \<Rightarrow> (ExecDone False, s)
      | Some r \<Rightarrow> if rq_status r \<noteq> M_approved then (ExecDone False, s) else (ExecUpdate, s))"
| "executeApprovedRequest_step now i by ExecUpdate s =
     (ExecDone True, logAuditEvent i ''executed'' by
        (update_request i (\<lambda>r. r\<lparr>rq_status := M_executed, rq_executed_at := Some now, rq_executed_by := Some by\<rparr>) s))"
| "executeApprovedRequest_step now i by (ExecDone ok) s = (ExecDone ok, s)"

datatype cancel_phase = CancelRead | CancelUpdate | CancelDone bool

fun cancelRequest_step :: "millis \<Rightarrow> id \<Rightarrow> id \<Rightarrow> cancel_phase \<Rightarrow> custody \<Rightarrow> cancel_phase \<times> custody" where
  "cancelRequest_step now i by CancelRead s =
     (case getRequestById i s of
        None \<Rightarrow> (CancelDone False, s)
      | Some r \<Rightarrow>
          if rq_status r \<noteq> M_pending then (CancelDone False, s)
          else (case getConfigById (rq_config r) s of
                  None \<Rightarrow> (CancelDone False, s)
                | Some config \<Rightarrow>
                    if now - rq_created_at r < mc_time_lock_minutes config * 60 * 1000 then (CancelDone False, s)
                    else (CancelUpdate, s)))"
| "cancelRequest_step now i by CancelUpdate s =
     (CancelDone True, logAuditEvent i ''cancelled'' by (updateRequestStatus i M_cancelled s))"
| "cancelRequest_step now i by (CancelDone ok) s = (CancelDone ok, s)"

section \<open>The routes\<close>

fun pad_digits :: "nat \<Rightarrow> int \<Rightarrow> string" where
  \<comment> \<open>the last digits of a number\<close>
  "pad_digits 0 n = []"
| "pad_digits (Suc k) n = pad_digits k (n div 10) @ [char_of (48 + nat (n mod 10))]"

definition int_text :: "int \<Rightarrow> string" where
  \<comment> \<open>a number of at most thirteen digits, without leading zeros\<close>
  "int_text n = (let ds = dropWhile (\<lambda>c. c = CHR ''0'') (pad_digits 13 n) in if ds = [] then ''0'' else ds)"

definition units_text :: "int \<Rightarrow> string" where
  \<comment> \<open>a positive \<^verbatim>\<open>DECIMAL(20, 7)\<close> as the driver returns it\<close>
  "units_text u = int_text (u div 10 ^ 7) @ ''.'' @ pad_digits 7 (u mod 10 ^ 7)"

definition signingPayloadFor :: "MultisigRequest \<Rightarrow> string" where
  "signingPayloadFor r = rq_id r @ '':'' @ units_text (rq_units r) @ '':'' @ rq_destination r"

definition registered_signer :: "MultisigRequest \<Rightarrow> id \<Rightarrow> custody \<Rightarrow> MultisigSigner option" where
  "registered_signer r who s = find (\<lambda>x. si_signer x = who \<and> si_is_active x) (getSigners (rq_config r) s)"

datatype callback_phase =
    CallbackRead
  | CallbackSign MultisigRequest sign_phase
  | CallbackExec MultisigRequest exec_phase
  | CallbackPayout MultisigRequest
  | CallbackDone nat

datatype route_phase =
    RouteRead
  | RouteSign sign_phase
  | RouteDone nat

datatype task =
    CallbackTask id id string string callback_phase
  | SignTask id id string route_phase
  | ExecuteTask id id exec_phase
  | CancelTask id id string cancel_phase

fun callback_after_sign :: "MultisigRequest \<Rightarrow> sign_phase \<Rightarrow> callback_phase" where
  "callback_after_sign r (SignDone FullyApproved) = CallbackExec r ExecRead"
| "callback_after_sign r (SignDone SignatureRecorded) = CallbackDone 200"
| "callback_after_sign r (SignDone SignThrows) = CallbackDone 500"
| "callback_after_sign r (SignDone _) = CallbackDone 400"
| "callback_after_sign r p = CallbackSign r p"

fun callback_after_exec :: "MultisigRequest \<Rightarrow> exec_phase \<Rightarrow> callback_phase" where
  "callback_after_exec r (ExecDone True) = CallbackPayout r"
| "callback_after_exec r (ExecDone False) = CallbackDone 500"
| "callback_after_exec r p = CallbackExec r p"

definition payout_provider :: "MultisigRequest \<Rightarrow> string" where
  "payout_provider r = (case map_of (rq_metadata r) ''provider'' of
     Some (JString p) \<Rightarrow> if p = [] then ''mtn'' else p | _ \<Rightarrow> ''mtn'')"

fun callback_step :: "custody_env \<Rightarrow> millis \<Rightarrow> id \<Rightarrow> id \<Rightarrow> string \<Rightarrow> string \<Rightarrow> callback_phase \<Rightarrow> custody \<Rightarrow> callback_phase \<times> custody" where
  "callback_step env now i who signature payload CallbackRead s =
     (if i = [] \<or> who = [] \<or> signature = [] \<or> payload = [] then (CallbackDone 400, s)
      else case getRequestById i s of
        None \<Rightarrow> (CallbackDone 404, s)
      | Some r \<Rightarrow>
          (case registered_signer r who s of
             None \<Rightarrow> (CallbackDone 401, s)
           | Some signer \<Rightarrow>
               if \<not> verify env payload signature (si_public_key signer) then (CallbackDone 401, s)
               else (CallbackSign r SignRead, s)))"
| "callback_step env now i who signature payload (CallbackSign r p) s =
     (case addSignature_step now i who signature ByWebhook p s of (p', s') \<Rightarrow> (callback_after_sign r p', s'))"
| "callback_step env now i who signature payload (CallbackExec r p) s =
     (case executeApprovedRequest_step now i ''system'' p s of (p', s') \<Rightarrow> (callback_after_exec r p', s'))"
| "callback_step env now i who signature payload (CallbackPayout r) s =
     (let s' = s\<lparr>cu_payouts := cu_payouts s @ [\<lparr>cp_request = i, cp_provider = payout_provider r,
            cp_destination = rq_destination r, cp_amount = units_text (rq_units r)\<rparr>]\<rparr>
      in (CallbackDone (if payout_succeeds env (cu_payouts s') then 200 else 500), s'))"
| "callback_step env now i who signature payload (CallbackDone n) s = (CallbackDone n, s)"

fun route_after_sign :: "sign_phase \<Rightarrow> route_phase" where
  "route_after_sign (SignDone r) =
     RouteDone (if r = FullyApproved \<or> r = SignatureRecorded then 200 else if r = SignThrows then 500 else 400)"
| "route_after_sign p = RouteSign p"

fun sign_route_step :: "custody_env \<Rightarrow> millis \<Rightarrow> id \<Rightarrow> id \<Rightarrow> string \<Rightarrow> route_phase \<Rightarrow> custody \<Rightarrow> route_phase \<times> custody" where
  "sign_route_step env now user i signature RouteRead s =
     (if signature = [] then (RouteDone 400, s)
      else case getRequestById i s of
        None \<Rightarrow> (RouteDone 404, s)
      | Some r \<Rightarrow>
          (case registered_signer r user s of
             None \<Rightarrow> (RouteDone 403, s)
           | Some signer \<Rightarrow>
               if \<not> verify env (signingPayloadFor r) signature (si_public_key signer) then (RouteDone 400, s)
               else (RouteSign SignRead, s)))"
| "sign_route_step env now user i signature (RouteSign p) s =
     (case addSignature_step now i user signature ByApi p s of (p', s') \<Rightarrow> (route_after_sign p', s'))"
| "sign_route_step env now user i signature (RouteDone n) s = (RouteDone n, s)"

fun task_step :: "custody_env \<Rightarrow> millis \<Rightarrow> task \<Rightarrow> custody \<Rightarrow> task \<times> custody" where
  "task_step env now (CallbackTask i who sig payload p) s =
     apfst (CallbackTask i who sig payload) (callback_step env now i who sig payload p s)"
| "task_step env now (SignTask user i sig p) s = apfst (SignTask user i sig) (sign_route_step env now user i sig p s)"
| "task_step env now (ExecuteTask user i p) s = apfst (ExecuteTask user i) (executeApprovedRequest_step now i user p s)"
| "task_step env now (CancelTask user i reason p) s = apfst (CancelTask user i reason) (cancelRequest_step now i user p s)"

fun new_task :: "task \<Rightarrow> bool" where
  "new_task (CallbackTask i who sig payload p) = (p = CallbackRead)"
| "new_task (SignTask user i sig p) = (p = RouteRead)"
| "new_task (ExecuteTask user i p) = (p = ExecRead)"
| "new_task (CancelTask user i reason p) = (p = CancelRead \<and> reason \<noteq> [] \<and> length reason \<le> 500)"

inductive ms_step :: "custody_env \<Rightarrow> custody \<times> task list \<Rightarrow> custody \<times> task list \<Rightarrow> bool" for env where
  arrive: "new_task t \<Longrightarrow> ms_step env (s, ts) (s, ts @ [t])"
| advance: "k < length ts \<Longrightarrow> task_step env now (ts ! k) s = (t', s') \<Longrightarrow> ms_step env (s, ts) (s', ts[k := t'])"
| request: "getRequestById new s = None \<Longrightarrow> requestWithdrawal new now ty a amount destination by metadata s = Inr (r, s') \<Longrightarrow>
    ms_step env (s, ts) (s', ts)"
| approval: "getRequestById new s = None \<Longrightarrow> createApprovalRequest new now c rty a amount destination by metadata s = Inr (r, s') \<Longrightarrow>
    ms_step env (s, ts) (s', ts)"

definition ms_runs :: "custody_env \<Rightarrow> custody \<times> task list \<Rightarrow> custody \<times> task list \<Rightarrow> bool" where
  "ms_runs env = (ms_step env)\<^sup>*\<^sup>*"


section \<open>Requests under update\<close>

lemma getRequestById_update:
  assumes "\<And>r. rq_id (f r) = rq_id r"
  shows "getRequestById j (update_request i f s) =
    map_option (\<lambda>r. if j = i then f r else r) (getRequestById j s)"
proof -
  have "(\<lambda>r. rq_id (if rq_id r = i then f r else r) = j) = (\<lambda>r. rq_id r = j)" using assms by auto
  then have *: "getRequestById j (update_request i f s) = map_option (\<lambda>r. if rq_id r = i then f r else r) (getRequestById j s)"
    by (simp add: getRequestById_def update_request_def sql_update_def find_map)
  show ?thesis
  proof (cases "getRequestById j s")
    case (Some r)
    then have "rq_id r = j" by (auto simp: getRequestById_def dest: find_SomeD)
    then show ?thesis using * Some by auto
  qed (simp add: *)
qed

lemma getRequestById_id: "getRequestById i s = Some r \<Longrightarrow> rq_id r = i"
  by (auto simp: getRequestById_def dest: find_SomeD)

lemma update_request_fields [simp]:
  "cu_configs (update_request i f s) = cu_configs s" "cu_signers (update_request i f s) = cu_signers s"
  "cu_signatures (update_request i f s) = cu_signatures s" "cu_payouts (update_request i f s) = cu_payouts s"
  by (simp_all add: update_request_def)

lemma logAuditEvent_fields [simp]:
  "cu_configs (logAuditEvent i x y s) = cu_configs s" "cu_signers (logAuditEvent i x y s) = cu_signers s"
  "cu_signatures (logAuditEvent i x y s) = cu_signatures s" "cu_payouts (logAuditEvent i x y s) = cu_payouts s"
  "getRequestById j (logAuditEvent i x y s) = getRequestById j s"
  by (simp_all add: logAuditEvent_def getRequestById_def)

lemmas request_updates = updateRequestStatus_def getRequestById_update

section \<open>The quorum\<close>

definition same_request :: "MultisigRequest \<Rightarrow> MultisigRequest \<Rightarrow> bool" where
  \<comment> \<open>what no statement changes, and the count that only grows\<close>
  "same_request r r' \<longleftrightarrow> rq_id r' = rq_id r \<and> rq_config r' = rq_config r \<and> rq_required r' = rq_required r \<and>
     rq_collected r \<le> rq_collected r'"

definition extends :: "custody \<Rightarrow> custody \<Rightarrow> bool" where
  "extends s s' \<longleftrightarrow> cu_signers s' = cu_signers s \<and> cu_configs s' = cu_configs s \<and>
     (\<forall>i r. getRequestById i s = Some r \<longrightarrow> (\<exists>r'. getRequestById i s' = Some r' \<and> same_request r r'))"

lemma extends_refl [simp]: "extends s s"
  by (simp add: extends_def same_request_def)

lemma same_request_trans: "same_request a b \<Longrightarrow> same_request b c \<Longrightarrow> same_request a c"
  by (auto simp: same_request_def)

lemma extendsD: "extends s s' \<Longrightarrow> getRequestById i s = Some r \<Longrightarrow> \<exists>r'. getRequestById i s' = Some r' \<and> same_request r r'"
  by (simp add: extends_def)

lemma extends_trans:
  assumes "extends s s'" "extends s' s''"
  shows "extends s s''"
proof -
  have "\<exists>r''. getRequestById i s'' = Some r'' \<and> same_request r r''" if "getRequestById i s = Some r" for i r
    using extendsD [OF assms(1) that] extendsD [OF assms(2)] same_request_trans by blast
  then show ?thesis using assms by (simp add: extends_def)
qed

lemma extends_update:
  assumes "\<And>r. same_request r (f r)"
  shows "extends s (update_request i f s)"
  using assms by (auto simp: extends_def getRequestById_update same_request_def)

lemma extends_status [simp]: "extends s (updateRequestStatus i st s)"
  unfolding updateRequestStatus_def by (rule extends_update) (simp add: same_request_def)

lemma extends_same: "cu_requests s' = cu_requests s \<Longrightarrow> cu_signers s' = cu_signers s \<Longrightarrow> cu_configs s' = cu_configs s \<Longrightarrow> extends s s'"
  by (simp add: extends_def getRequestById_def same_request_def)

lemma extends_log [simp]: "extends s (logAuditEvent i x y s') \<longleftrightarrow> extends s s'"
  by (simp add: extends_def)

definition quorum :: "custody \<Rightarrow> id \<Rightarrow> bool" where
  "quorum s i \<longleftrightarrow> (\<exists>r. getRequestById i s = Some r \<and> rq_required r \<le> rq_collected r)"

definition signer_of :: "custody \<Rightarrow> id \<Rightarrow> id \<Rightarrow> bool" where
  \<comment> \<open>an active signer of the configuration the request was made under\<close>
  "signer_of s i who \<longleftrightarrow> (\<exists>r x. getRequestById i s = Some r \<and> x \<in> set (cu_signers s) \<and> si_config x = rq_config r \<and>
     si_signer x = who \<and> si_is_active x)"

lemma quorum_extends: "extends s s' \<Longrightarrow> quorum s i \<Longrightarrow> quorum s' i"
  by (auto simp: quorum_def same_request_def dest!: extendsD)

lemma signer_of_extends:
  assumes "extends s s'" "signer_of s i who"
  shows "signer_of s' i who"
proof -
  obtain r x where r: "getRequestById i s = Some r" "x \<in> set (cu_signers s)" "si_config x = rq_config r" "si_signer x = who" "si_is_active x"
    using assms(2) by (auto simp: signer_of_def)
  moreover obtain r' where "getRequestById i s' = Some r'" "same_request r r'" using extendsD [OF assms(1) r(1)] by blast
  moreover have "cu_signers s' = cu_signers s" using assms(1) by (simp add: extends_def)
  ultimately show ?thesis by (auto simp: signer_of_def same_request_def)
qed

definition sign_ok :: "custody \<Rightarrow> id \<Rightarrow> id \<Rightarrow> sign_phase \<Rightarrow> bool" where
  "sign_ok s i who p \<longleftrightarrow> (case p of
     SignCheck _ \<Rightarrow> signer_of s i who | SignInsert _ \<Rightarrow> signer_of s i who | SignCount _ \<Rightarrow> signer_of s i who
   | SignApprove \<Rightarrow> quorum s i | SignDone FullyApproved \<Rightarrow> quorum s i | _ \<Rightarrow> True)"

fun exec_ok :: "custody \<Rightarrow> id \<Rightarrow> exec_phase \<Rightarrow> bool" where
  "exec_ok s i ExecUpdate = quorum s i"
| "exec_ok s i (ExecDone ok) = (ok \<longrightarrow> quorum s i)"
| "exec_ok s i ExecRead = True"

fun task_ok :: "custody \<Rightarrow> task \<Rightarrow> bool" where
  "task_ok s (CallbackTask i who sig payload (CallbackSign r p)) = sign_ok s i who p"
| "task_ok s (CallbackTask i who sig payload (CallbackExec r p)) = exec_ok s i p"
| "task_ok s (CallbackTask i who sig payload (CallbackPayout r)) = quorum s i"
| "task_ok s (SignTask user i sig (RouteSign p)) = sign_ok s i user p"
| "task_ok s (ExecuteTask user i p) = exec_ok s i p"
| "task_ok s _ = True"

fun counting :: "id \<Rightarrow> task \<Rightarrow> bool" where
  \<comment> \<open>the signature is inserted and not yet counted\<close>
  "counting i (CallbackTask j who sig payload (CallbackSign r (SignCount x))) = (i = j)"
| "counting i (SignTask user j sig (RouteSign (SignCount x))) = (i = j)"
| "counting i _ = False"

definition sig_count :: "id \<Rightarrow> custody \<Rightarrow> nat" where
  "sig_count i s = length (filter (\<lambda>g. sg_request g = i) (cu_signatures s))"

definition custody_ok :: "custody \<Rightarrow> bool" where
  "custody_ok s \<longleftrightarrow>
     distinct (map (\<lambda>g. (sg_request g, sg_signer g)) (cu_signatures s)) \<and>
     (\<forall>g\<in>set (cu_signatures s). signer_of s (sg_request g) (sg_signer g)) \<and>
     (\<forall>i r. getRequestById i s = Some r \<and> rq_status r \<in> {M_approved, M_executed} \<longrightarrow> quorum s i) \<and>
     (\<forall>p\<in>set (cu_payouts s). quorum s (cp_request p)) \<and>
     (\<forall>i r. getRequestById i s = Some r \<longrightarrow>
        (\<exists>c\<in>set (cu_configs s). mc_id c = rq_config r \<and> rq_required r = mc_required_signatures c))"

lemma sign_ok_extends: "extends s s' \<Longrightarrow> sign_ok s i who p \<Longrightarrow> sign_ok s' i who p"
  by (auto simp: sign_ok_def quorum_extends signer_of_extends split: sign_phase.splits sign_outcome.splits)

lemma exec_ok_extends: "extends s s' \<Longrightarrow> exec_ok s i p \<Longrightarrow> exec_ok s' i p"
  by (cases p) (auto simp: quorum_extends)

lemma task_ok_extends: "extends s s' \<Longrightarrow> task_ok s t \<Longrightarrow> task_ok s' t"
  by (induction s t rule: task_ok.induct) (auto simp: quorum_extends sign_ok_extends exec_ok_extends)


section \<open>Every statement keeps the invariant\<close>

definition deficit :: "id \<Rightarrow> custody \<Rightarrow> int" where
  \<comment> \<open>the signatures that are stored and not yet counted\<close>
  "deficit i s = int (sig_count i s) - (case getRequestById i s of Some r \<Rightarrow> rq_collected r | None \<Rightarrow> 0)"

definition is_count :: "sign_phase \<Rightarrow> int" where
  "is_count p = (case p of SignCount _ \<Rightarrow> 1 | _ \<Rightarrow> 0)"

lemma log_invisible [simp]:
  "quorum (logAuditEvent i x y s) = quorum s" "signer_of (logAuditEvent i x y s) = signer_of s"
  "deficit j (logAuditEvent i x y s) = deficit j s" "sign_ok (logAuditEvent i x y s) = sign_ok s"
  "exec_ok (logAuditEvent i x y s) = exec_ok s" "custody_ok (logAuditEvent i x y s) = custody_ok s"
proof -
  show q: "quorum (logAuditEvent i x y s) = quorum s" "signer_of (logAuditEvent i x y s) = signer_of s"
    by (simp_all add: quorum_def signer_of_def fun_eq_iff)
  show "deficit j (logAuditEvent i x y s) = deficit j s" by (simp add: deficit_def sig_count_def)
  show "sign_ok (logAuditEvent i x y s) = sign_ok s" by (simp only: sign_ok_def [abs_def] q)
  have "exec_ok (logAuditEvent i x y s) j p = exec_ok s j p" for j p by (cases p) (simp_all add: q)
  then show "exec_ok (logAuditEvent i x y s) = exec_ok s" by (simp add: fun_eq_iff)
  show "custody_ok (logAuditEvent i x y s) = custody_ok s" by (simp add: custody_ok_def q)
qed

lemma getRequestById_update_None [simp]:
  "(\<And>r. rq_id (f r) = rq_id r) \<Longrightarrow> getRequestById j (update_request i f s) = None \<longleftrightarrow> getRequestById j s = None"
  by (simp add: getRequestById_update)

lemma custody_ok_update:
  assumes "custody_ok s" "\<And>r. same_request r (f r)"
    "\<And>r. getRequestById i s = Some r \<Longrightarrow> rq_status (f r) \<in> {M_approved, M_executed} \<Longrightarrow> quorum s i"
  shows "custody_ok (update_request i f s)"
proof -
  let ?s = "update_request i f s"
  have id: "rq_id (f r) = rq_id r" for r using assms(2) [of r] by (simp add: same_request_def)
  have ex: "extends s ?s" by (rule extends_update) (rule assms(2))
  have look: "\<exists>r. getRequestById j s = Some r \<and> r' = (if j = i then f r else r)" if "getRequestById j ?s = Some r'" for j r'
    using that by (auto simp: getRequestById_update [OF id])
  have 1: "quorum ?s j" if "getRequestById j ?s = Some r'" "rq_status r' \<in> {M_approved, M_executed}" for j r'
    using look [OF that(1)] that(2) assms(1,3) quorum_extends [OF ex, of j] unfolding custody_ok_def by (metis (full_types))
  have 2: "\<exists>c\<in>set (cu_configs ?s). mc_id c = rq_config r' \<and> rq_required r' = mc_required_signatures c"
    if "getRequestById j ?s = Some r'" for j r'
  proof -
    obtain r where r: "getRequestById j s = Some r" "r' = (if j = i then f r else r)" using look [OF \<open>getRequestById j ?s = Some r'\<close>] by blast
    have "same_request r r'" using r(2) assms(2) by (simp add: same_request_def)
    then show ?thesis using assms(1) r(1) by (auto simp: custody_ok_def same_request_def)
  qed
  show ?thesis using assms(1) 1 2 quorum_extends [OF ex] signer_of_extends [OF ex] unfolding custody_ok_def by auto
qed

lemma deficit_update:
  assumes "\<And>r. rq_id (f r) = rq_id r" "\<And>r. rq_collected (f r) = rq_collected r + d"
  shows "deficit j (update_request i f s) = deficit j s - (if j = i \<and> getRequestById j s \<noteq> None then d else 0)"
  by (auto simp: deficit_def sig_count_def getRequestById_update [OF assms(1)] assms(2) split: option.splits)

lemma status_update_facts:
  assumes "custody_ok s" "st \<in> {M_approved, M_executed} \<Longrightarrow> quorum s i"
    "f = (\<lambda>r. r\<lparr>rq_status := st\<rparr>) \<or> f = (\<lambda>r. r\<lparr>rq_status := st, rq_executed_at := a, rq_executed_by := b\<rparr>)"
  shows "custody_ok (update_request i f s)" "extends s (update_request i f s)"
    "deficit j (update_request i f s) = deficit j s" "getRequestById j (update_request i f s) = None \<longleftrightarrow> getRequestById j s = None"
    "quorum s j \<Longrightarrow> quorum (update_request i f s) j"
proof -
  have f: "same_request r (f r)" "rq_id (f r) = rq_id r" "rq_collected (f r) = rq_collected r + 0" "rq_status (f r) = st" for r
    using assms(3) by (auto simp: same_request_def)
  show ex: "extends s (update_request i f s)" by (rule extends_update) (rule f(1))
  show "custody_ok (update_request i f s)" using assms(2) f by (intro custody_ok_update [OF assms(1)]) simp_all
  show "deficit j (update_request i f s) = deficit j s" by (subst deficit_update [OF f(2,3)]) simp
  show "getRequestById j (update_request i f s) = None \<longleftrightarrow> getRequestById j s = None" using f(2) by simp
  show "quorum s j \<Longrightarrow> quorum (update_request i f s) j" by (rule quorum_extends [OF ex])
qed

definition keeps :: "custody \<Rightarrow> custody \<Rightarrow> (id \<Rightarrow> int) \<Rightarrow> bool" where
  \<comment> \<open>what a statement does to the tables, and by how much it changes the deficits\<close>
  "keeps s s' d \<longleftrightarrow> extends s s' \<and> custody_ok s' \<and> (\<forall>j. getRequestById j s' = None \<longleftrightarrow> getRequestById j s = None) \<and>
     (\<forall>j. getRequestById j s \<noteq> None \<longrightarrow> deficit j s' = deficit j s + d j)"

lemma keeps_refl: "custody_ok s \<Longrightarrow> keeps s s (\<lambda>_. 0)"
  by (simp add: keeps_def)

lemma keeps_log [simp]: "keeps s (logAuditEvent i x y s') d = keeps s s' d"
  by (simp add: keeps_def)

lemma keeps_status:
  "custody_ok s \<Longrightarrow> (st \<in> {M_approved, M_executed} \<Longrightarrow> quorum s i) \<Longrightarrow> keeps s (updateRequestStatus i st s) (\<lambda>_. 0)"
  unfolding keeps_def updateRequestStatus_def using status_update_facts [of s st i "\<lambda>r. r\<lparr>rq_status := st\<rparr>"] by auto

lemma keeps_insert:
  assumes "custody_ok s" "signer_of s i who" "getSignature i who s = None"
    "s' = s\<lparr>cu_signatures := cu_signatures s @ [\<lparr>sg_request = i, sg_signer = who, sg_data = d, sg_type = ty\<rparr>]\<rparr>"
  shows "keeps s s' (\<lambda>j. if j = i then 1 else 0)" "signer_of s' i who"
proof -
  have r: "getRequestById j s' = getRequestById j s" for j using assms(4) by (simp add: getRequestById_def)
  have ex: "extends s s'" using assms(4) by (intro extends_same) simp_all
  then show si: "signer_of s' i who" using signer_of_extends assms(2) by blast
  have "(i, who) \<notin> (\<lambda>g. (sg_request g, sg_signer g)) ` set (cu_signatures s)"
    using assms(3) by (auto simp: getSignature_def find_None_iff)
  then have "custody_ok s'" using assms(1,4) r si quorum_extends [OF ex] signer_of_extends [OF ex]
    unfolding custody_ok_def by auto
  moreover have "deficit j s' = deficit j s + (if j = i then 1 else 0)" for j
    using assms(4) r by (simp add: deficit_def sig_count_def)
  ultimately show "keeps s s' (\<lambda>j. if j = i then 1 else 0)" using ex r by (simp add: keeps_def)
qed

lemma keeps_count:
  assumes "custody_ok s" "incrementSignatureCount i s = (Some r, s')"
  shows "keeps s s' (\<lambda>j. if j = i then - 1 else 0)" "rq_required r \<le> rq_collected r \<Longrightarrow> quorum s' i"
proof -
  let ?f = "\<lambda>r. r\<lparr>rq_collected := rq_collected r + 1\<rparr>"
  have s': "s' = update_request i ?f s" "getRequestById i s' = Some r" using assms(2) by (auto simp: incrementSignatureCount_def Let_def)
  have f: "same_request q (?f q)" for q by (simp add: same_request_def)
  have "custody_ok s'" unfolding s'(1)
    by (rule custody_ok_update [OF assms(1) f]) (use assms(1) in \<open>auto simp: custody_ok_def\<close>)
  moreover have "deficit j s' = deficit j s + (if j = i then - 1 else 0)" if "getRequestById j s \<noteq> None" for j
    unfolding s'(1) by (subst deficit_update [of ?f 1]) (use that in simp_all)
  ultimately show "keeps s s' (\<lambda>j. if j = i then - 1 else 0)"
    using extends_update [of ?f s i, OF f] s'(1) by (simp add: keeps_def)
  show "rq_required r \<le> rq_collected r \<Longrightarrow> quorum s' i" using s'(2) by (simp add: quorum_def)
qed

lemma addSignature_keeps:
  assumes "custody_ok s" "sign_ok s i who p" "addSignature_step now i who data ty p s = (p', s')"
  shows "keeps s s' (\<lambda>j. if j = i then is_count p' - is_count p else 0) \<and> sign_ok s' i who p'"
proof (cases p)
  case SignRead
  have "signer_of s i who" if "getRequestById i s = Some r" "find (\<lambda>x. si_signer x = who \<and> si_is_active x) (getSigners (rq_config r) s) = Some x" for r x
    using that by (auto simp: signer_of_def getSigners_def dest!: find_SomeD)
  then have "s' = s \<and> is_count p' = 0 \<and> sign_ok s i who p'" using assms(3) SignRead
    by (auto simp: is_count_def sign_ok_def split: option.splits if_splits)
  then show ?thesis using keeps_refl [OF assms(1)] SignRead by (simp add: is_count_def cong: if_cong)
next
  case (SignCount x)
  obtain r sc where r: "incrementSignatureCount i s = (Some r, sc)"
    using assms(2) SignCount by (auto simp: sign_ok_def signer_of_def incrementSignatureCount_def Let_def getRequestById_update)
  have "s' = logAuditEvent i ''signature_added'' who sc" "is_count p' = 0" "rq_required r \<le> rq_collected r \<or> p' = SignDone SignatureRecorded"
    "p' = SignApprove \<or> p' = SignDone SignatureRecorded"
    using assms(3) SignCount r by (auto simp: is_count_def split: if_splits)
  then show ?thesis using keeps_count [OF assms(1) r] SignCount by (auto simp: is_count_def sign_ok_def cong: if_cong)
next
  case (SignInsert x)
  then show ?thesis using assms keeps_insert(1) [OF assms(1) _ _ refl] keeps_insert(2) [OF assms(1) _ _ refl] keeps_refl [OF assms(1)]
    by (auto simp: is_count_def sign_ok_def cong: if_cong split: if_splits)
next
  case SignApprove
  then have q: "quorum s i" using assms(2) by (simp add: sign_ok_def)
  have "keeps s (updateRequestStatus i M_approved s) (\<lambda>_. 0)" by (rule keeps_status [OF assms(1)]) (rule q)
  moreover have "quorum (updateRequestStatus i M_approved s) i" by (rule quorum_extends [OF extends_status q])
  ultimately show ?thesis using SignApprove assms(3) by (auto simp: is_count_def sign_ok_def cong: if_cong)
next
  case SignExpire
  then show ?thesis using assms keeps_status [OF assms(1), of M_expired i] by (auto simp: is_count_def sign_ok_def cong: if_cong)
qed (use assms keeps_refl in \<open>auto simp: is_count_def sign_ok_def cong: if_cong split: option.splits\<close>)


lemma execute_keeps:
  assumes "custody_ok s" "exec_ok s i p" "executeApprovedRequest_step now i by' p s = (p', s')"
  shows "keeps s s' (\<lambda>_. 0) \<and> exec_ok s' i p'"
proof (cases p)
  case ExecRead
  have "quorum s i" if "getRequestById i s = Some r" "rq_status r = M_approved" for r
    using assms(1) that by (auto simp: custody_ok_def)
  then show ?thesis using assms(3) ExecRead keeps_refl [OF assms(1)] by (auto split: option.splits if_splits)
next
  case ExecUpdate
  let ?f = "\<lambda>r. r\<lparr>rq_status := M_executed, rq_executed_at := Some now, rq_executed_by := Some by'\<rparr>"
  have "quorum s i" using assms(2) ExecUpdate by simp
  then show ?thesis
    using status_update_facts [of s M_executed i ?f "Some by'" "Some now"] assms(1,3) ExecUpdate by (auto simp: keeps_def)
next
  case (ExecDone ok)
  then show ?thesis using assms keeps_refl by auto
qed

lemma cancel_keeps:
  assumes "custody_ok s" "cancelRequest_step now i by' p s = (p', s')"
  shows "keeps s s' (\<lambda>_. 0)"
proof (cases p)
  case CancelUpdate
  then show ?thesis using assms keeps_status [OF assms(1), of M_cancelled i] by auto
qed (use assms keeps_refl [OF assms(1)] in \<open>auto split: option.splits if_splits\<close>)

lemma keeps_payout:
  assumes "custody_ok s" "quorum s (cp_request po)"
  shows "keeps s (s\<lparr>cu_payouts := cu_payouts s @ [po]\<rparr>) (\<lambda>_. 0)"
proof -
  let ?s = "s\<lparr>cu_payouts := cu_payouts s @ [po]\<rparr>"
  have r: "getRequestById j ?s = getRequestById j s" for j by (simp add: getRequestById_def)
  then have q: "quorum ?s = quorum s" "signer_of ?s = signer_of s" by (simp_all add: quorum_def signer_of_def fun_eq_iff)
  have "custody_ok ?s" using assms by (simp add: custody_ok_def r q)
  then show ?thesis by (simp add: keeps_def r deficit_def sig_count_def extends_same)
qed

definition counting_of :: "id \<Rightarrow> task \<Rightarrow> int" where
  "counting_of j t = (if counting j t then 1 else 0)"

lemma counting_callback: "counting_of j (CallbackTask i who sg payload (CallbackSign r p)) = (if j = i then is_count p else 0)"
  "counting_of j (CallbackTask i who sg payload (callback_after_sign r p)) = (if j = i then is_count p else 0)"
  "counting_of j (CallbackTask i who sg payload (callback_after_exec r q)) = 0"
proof -
  show c: "counting_of j (CallbackTask i who sg payload (CallbackSign r p)) = (if j = i then is_count p else 0)"
    by (cases p) (simp_all add: counting_of_def is_count_def)
  show "counting_of j (CallbackTask i who sg payload (callback_after_sign r p)) = (if j = i then is_count p else 0)"
  proof (cases p)
    case (SignDone x)
    then show ?thesis by (cases x) (simp_all add: counting_of_def is_count_def)
  qed (use c in simp_all)
  show "counting_of j (CallbackTask i who sg payload (callback_after_exec r q)) = 0"
    by (induction r q rule: callback_after_exec.induct) (simp_all add: counting_of_def)
qed

lemma counting_route: "counting_of j (SignTask user i sg (RouteSign p)) = (if j = i then is_count p else 0)"
  "counting_of j (SignTask user i sg (route_after_sign p)) = (if j = i then is_count p else 0)"
  by (cases p; simp add: counting_of_def is_count_def)+

lemma task_ok_after_sign:
  "sign_ok s i who p \<Longrightarrow> task_ok s (CallbackTask i who sg payload (callback_after_sign r p))"
  "sign_ok s i who p \<Longrightarrow> task_ok s (SignTask who i sg (route_after_sign p))"
proof -
  assume ok: "sign_ok s i who p"
  show "task_ok s (CallbackTask i who sg payload (callback_after_sign r p))"
  proof (cases p)
    case (SignDone x)
    then show ?thesis by (cases x) simp_all
  qed (use ok in simp_all)
  show "task_ok s (SignTask who i sg (route_after_sign p))" using ok by (cases p) simp_all
qed

lemma task_ok_after_exec: "exec_ok s i p \<Longrightarrow> task_ok s (CallbackTask i who sg payload (callback_after_exec r p))"
  by (induction r p rule: callback_after_exec.induct) simp_all

lemma callback_keeps:
  assumes "custody_ok s" "task_ok s (CallbackTask i who sg payload p)" "callback_step env now i who sg payload p s = (p', s')"
  shows "keeps s s' (\<lambda>j. counting_of j (CallbackTask i who sg payload p') - counting_of j (CallbackTask i who sg payload p)) \<and>
    task_ok s' (CallbackTask i who sg payload p')"
proof (cases p)
  case CallbackRead
  have "s' = s \<and> ((\<exists>n. p' = CallbackDone n) \<or> (\<exists>r. p' = CallbackSign r SignRead))"
    using assms(3) CallbackRead by (auto split: if_splits option.splits)
  then show ?thesis using CallbackRead keeps_refl [OF assms(1)] by (auto simp: counting_of_def sign_ok_def)
next
  case (CallbackSign r q)
  obtain q' where q': "addSignature_step now i who sg ByWebhook q s = (q', s')" "p' = callback_after_sign r q'"
    using assms(3) CallbackSign by (auto split: prod.splits)
  show ?thesis using addSignature_keeps [OF assms(1) _ q'(1)] assms(2) q'(2) CallbackSign task_ok_after_sign(1)
    by (simp add: counting_callback if_distrib cong: if_cong)
next
  case (CallbackExec r q)
  obtain q' where q': "executeApprovedRequest_step now i ''system'' q s = (q', s')" "p' = callback_after_exec r q'"
    using assms(3) CallbackExec by (auto split: prod.splits)
  show ?thesis using execute_keeps [OF assms(1) _ q'(1)] assms(2) q'(2) CallbackExec task_ok_after_exec
    by (simp add: counting_callback) (simp add: counting_of_def)
next
  case (CallbackPayout r)
  then show ?thesis using assms keeps_payout [OF assms(1)] by (auto simp: Let_def counting_of_def)
next
  case (CallbackDone n)
  then show ?thesis using assms keeps_refl by auto
qed

lemma sign_route_keeps:
  assumes "custody_ok s" "task_ok s (SignTask user i sg p)" "sign_route_step env now user i sg p s = (p', s')"
  shows "keeps s s' (\<lambda>j. counting_of j (SignTask user i sg p') - counting_of j (SignTask user i sg p)) \<and>
    task_ok s' (SignTask user i sg p')"
proof (cases p)
  case RouteRead
  have "s' = s \<and> ((\<exists>n. p' = RouteDone n) \<or> p' = RouteSign SignRead)"
    using assms(3) RouteRead by (auto split: if_splits option.splits)
  then show ?thesis using RouteRead keeps_refl [OF assms(1)] by (auto simp: counting_of_def sign_ok_def)
next
  case (RouteSign q)
  obtain q' where q': "addSignature_step now i user sg ByApi q s = (q', s')" "p' = route_after_sign q'"
    using assms(3) RouteSign by (auto split: prod.splits)
  show ?thesis using addSignature_keeps [OF assms(1) _ q'(1)] assms(2) q'(2) RouteSign task_ok_after_sign(2)
    by (simp add: counting_route if_distrib cong: if_cong)
next
  case (RouteDone n)
  then show ?thesis using assms keeps_refl by auto
qed

lemma task_keeps:
  assumes "custody_ok s" "task_ok s t" "task_step env now t s = (t', s')"
  shows "keeps s s' (\<lambda>j. counting_of j t' - counting_of j t) \<and> task_ok s' t'"
proof (cases t)
  case (CallbackTask i who sg payload p)
  then show ?thesis using callback_keeps [OF assms(1), of i who sg payload p env now] assms(2,3)
    by (auto simp: apfst_def map_prod_def split: prod.splits)
next
  case (SignTask user i sg p)
  then show ?thesis using sign_route_keeps [OF assms(1), of user i sg p env now] assms(2,3)
    by (auto simp: apfst_def map_prod_def split: prod.splits)
next
  case (ExecuteTask user i p)
  then show ?thesis using execute_keeps [OF assms(1), of i p now user] assms(2,3)
    by (auto simp: apfst_def map_prod_def counting_of_def split: prod.splits)
next
  case (CancelTask user i reason p)
  then show ?thesis using cancel_keeps [OF assms(1), of now i user p] assms(2,3)
    by (auto simp: apfst_def map_prod_def counting_of_def split: prod.splits)
qed


section \<open>Runs\<close>

definition all_ok :: "custody \<times> task list \<Rightarrow> bool" where
  "all_ok = (\<lambda>(s, ts). custody_ok s \<and> (\<forall>t\<in>set ts. task_ok s t) \<and>
     (\<forall>i. getRequestById i s \<noteq> None \<longrightarrow> deficit i s = sum_list (map (counting_of i) ts)))"

lemma sum_list_update_int: "k < length xs \<Longrightarrow> sum_list (xs[k := x]) = sum_list xs + (x - xs ! k)" for x :: int
  by (induction xs arbitrary: k) (auto split: nat.splits)

lemma counting_signer: "counting i t \<Longrightarrow> task_ok s t \<Longrightarrow> \<exists>who. signer_of s i who"
  by (induction i t rule: counting.induct) (auto simp: sign_ok_def)

lemma new_task_ok: "new_task t \<Longrightarrow> task_ok s t \<and> counting_of i t = 0"
  by (induction t rule: new_task.induct) (auto simp: counting_of_def)

lemma advance_ok:
  assumes "all_ok (s, ts)" "k < length ts" "task_step env now (ts ! k) s = (t', s')"
  shows "all_ok (s', ts[k := t']) \<and> extends s s'"
proof -
  have ok: "custody_ok s" "\<forall>t\<in>set ts. task_ok s t" "\<And>i. getRequestById i s \<noteq> None \<Longrightarrow> deficit i s = sum_list (map (counting_of i) ts)"
    using assms(1) by (auto simp: all_ok_def)
  have "task_ok s (ts ! k)" using ok(2) assms(2) by simp
  note st = task_keeps [OF ok(1) this assms(3)]
  have "task_ok s' t" if "t \<in> set (ts[k := t'])" for t
    using set_update_subset_insert [of ts k t'] that st ok(2) task_ok_extends [of s s' t] by (auto simp: keeps_def)
  moreover have "deficit i s' = sum_list (map (counting_of i) (ts[k := t']))" if "getRequestById i s' \<noteq> None" for i
  proof -
    have "getRequestById i s \<noteq> None" using that st unfolding keeps_def by metis
    then have "deficit i s' = sum_list (map (counting_of i) ts) + (counting_of i t' - counting_of i (ts ! k))"
      using st ok(3) [of i] by (simp add: keeps_def)
    also have "\<dots> = sum_list ((map (counting_of i) ts)[k := counting_of i t'])" using assms(2) by (simp add: sum_list_update_int)
    finally show ?thesis by (simp add: map_update)
  qed
  ultimately show ?thesis using st by (auto simp: all_ok_def keeps_def)
qed

lemma getMultisigConfig_cache:
  "getMultisigConfig now ty a s = (c, s') \<Longrightarrow> \<exists>ch. s' = s\<lparr>cu_cache := ch\<rparr>"
  by (auto simp: getMultisigConfig_def split: option.splits) (metis custody.surjective custody.update_convs(6))+

lemma cache_invisible:
  "getRequestById i (s\<lparr>cu_cache := ch\<rparr>) = getRequestById i s" "all_ok (s\<lparr>cu_cache := ch\<rparr>, ts) = all_ok (s, ts)"
proof -
  let ?s = "s\<lparr>cu_cache := ch\<rparr>"
  show r: "getRequestById i ?s = getRequestById i s" for i by (simp add: getRequestById_def)
  then have ex: "extends s ?s" "extends ?s s" by (simp_all add: extends_def same_request_def)
  have q: "quorum ?s = quorum s" "signer_of ?s = signer_of s" by (simp_all add: quorum_def signer_of_def fun_eq_iff r)
  have "custody_ok ?s = custody_ok s" by (simp add: custody_ok_def q r)
  moreover have "deficit i ?s = deficit i s" for i by (simp add: deficit_def sig_count_def r)
  moreover have "task_ok ?s t = task_ok s t" for t using task_ok_extends ex by blast
  ultimately show "all_ok (?s, ts) = all_ok (s, ts)" by (simp add: all_ok_def r)
qed

lemma create_ok:
  assumes "all_ok (s, ts)" "getRequestById new s = None"
    "createApprovalRequest new now c rty a amount destination by' metadata s = Inr (r, s')"
  shows "all_ok (s', ts) \<and> extends s s'"
proof -
  have ok: "custody_ok s" "\<forall>t\<in>set ts. task_ok s t" "\<And>i. getRequestById i s \<noteq> None \<Longrightarrow> deficit i s = sum_list (map (counting_of i) ts)"
    using assms(1) by (auto simp: all_ok_def)
  obtain config where config: "getConfigById c s = Some config" "rq_id r = new" "rq_config r = c" "rq_status r = M_pending"
    "rq_required r = mc_required_signatures config" "rq_collected r = 0"
    and s': "s' = logAuditEvent new ''created'' by' (s\<lparr>cu_requests := cu_requests s @ [r]\<rparr>)"
    using assms(3) by (auto simp: createApprovalRequest_def Let_def split: option.splits if_splits)
  have look: "getRequestById j s' = (if j = new then Some r else getRequestById j s)" for j
    using assms(2) config(2) by (auto simp: s' getRequestById_def logAuditEvent_def find_snoc split: option.splits)
  have same: "cu_signers s' = cu_signers s" "cu_configs s' = cu_configs s" "cu_signatures s' = cu_signatures s"
    "cu_payouts s' = cu_payouts s" using s' by simp_all
  have ex: "extends s s'" using look assms(2) by (auto simp: extends_def same same_request_def)
  have "mc_id config = c \<and> config \<in> set (cu_configs s)" using config(1) by (auto simp: getConfigById_def dest: find_SomeD)
  moreover have tab: "quorum s i" if "getRequestById i s = Some q" "rq_status q \<in> {M_approved, M_executed}" for i q
    using ok(1) that unfolding custody_ok_def by blast
  ultimately have "custody_ok s'" using ok(1) config quorum_extends [OF ex] signer_of_extends [OF ex]
    unfolding custody_ok_def same look by (auto split: if_splits)
  moreover have "task_ok s' t" if "t \<in> set ts" for t using task_ok_extends [OF ex] ok(2) that by blast
  moreover have "deficit i s' = sum_list (map (counting_of i) ts)" if "getRequestById i s' \<noteq> None" for i
  proof (cases "i = new")
    case True
    have none: "\<not> signer_of s new who" for who using assms(2) by (simp add: signer_of_def)
    then have "sig_count new s' = 0" using ok(1) by (auto simp: sig_count_def same custody_ok_def filter_empty_conv)
    moreover have "counting_of new t = 0" if "t \<in> set ts" for t
      using counting_signer [of new t s] none ok(2) that by (auto simp: counting_of_def)
    then have "sum_list (map (counting_of new) ts) = sum_list (map (\<lambda>_. 0) ts)" by (intro arg_cong [of _ _ sum_list] map_cong) auto
    ultimately show ?thesis using True config(6) by (simp add: deficit_def look)
  next
    case False
    then show ?thesis using ok(3) [of i] that by (simp add: deficit_def look sig_count_def same)
  qed
  ultimately show ?thesis using ex by (simp add: all_ok_def)
qed

lemma request_ok:
  assumes "all_ok (s, ts)" "getRequestById new s = None"
    "requestWithdrawal new now ty a amount destination by' metadata s = Inr (r, s')"
  shows "all_ok (s', ts) \<and> extends s s'"
proof -
  obtain config s1 where c: "getMultisigConfig now ty a s = (Some config, s1)"
    "createApprovalRequest new now (mc_id config) R_withdrawal a amount destination by' metadata s1 = Inr (r, s')"
    using assms(3) by (auto simp: requestWithdrawal_def Let_def split: option.splits prod.splits if_splits)
  obtain ch where "s1 = s\<lparr>cu_cache := ch\<rparr>" using getMultisigConfig_cache [OF c(1)] by blast
  then show ?thesis using create_ok [OF _ _ c(2)] assms(1,2) by (auto simp: cache_invisible extends_def)
qed

lemma ms_step_ok: "ms_step env x y \<Longrightarrow> all_ok x \<Longrightarrow> all_ok y \<and> extends (fst x) (fst y)"
proof (induction rule: ms_step.induct)
  case (arrive t s ts)
  then show ?case using new_task_ok [of t s] by (auto simp: all_ok_def)
next
  case (advance k ts now s t' s')
  then show ?case using advance_ok by fastforce
next
  case (request new s now ty a amount destination by' metadata r s' ts)
  then show ?case using request_ok by fastforce
next
  case (approval new s now c rty a amount destination by' metadata r s' ts)
  then show ?case using create_ok by fastforce
qed

lemma ms_runs_ok: "ms_runs env x y \<Longrightarrow> all_ok x \<Longrightarrow> all_ok y \<and> extends (fst x) (fst y)"
  unfolding ms_runs_def by (induction rule: rtranclp_induct) (auto dest: ms_step_ok intro: extends_trans)

definition start_custody :: "MultisigConfig list \<Rightarrow> MultisigSigner list \<Rightarrow> custody" where
  "start_custody cs xs = \<lparr>cu_configs = cs, cu_signers = xs, cu_requests = [], cu_signatures = [], cu_audit = [],
     cu_cache = [], cu_payouts = []\<rparr>"

lemma start_ok: "all_ok (start_custody cs xs, [])"
  by (simp add: all_ok_def start_custody_def custody_ok_def getRequestById_def)

definition signers_of_request :: "custody \<Rightarrow> id \<Rightarrow> id set" where
  \<comment> \<open>who signed a request\<close>
  "signers_of_request s i = sg_signer ` {g \<in> set (cu_signatures s). sg_request g = i}"

lemma card_signers:
  assumes "custody_ok s"
  shows "card (signers_of_request s i) = sig_count i s"
proof -
  let ?gs = "filter (\<lambda>g. sg_request g = i) (cu_signatures s)"
  have "distinct (map (\<lambda>g. (sg_request g, sg_signer g)) ?gs)"
    using assms by (simp add: custody_ok_def distinct_map_filter)
  then have "distinct (map sg_signer ?gs)" by (auto simp: distinct_map inj_on_def)
  then show ?thesis using distinct_card [of "map sg_signer ?gs"] by (simp add: signers_of_request_def sig_count_def)
qed

lemma quorum_signed:
  assumes "all_ok (s, ts)" "quorum s i"
  obtains r where "getRequestById i s = Some r" "rq_required r \<le> int (card (signers_of_request s i))"
proof -
  obtain r where r: "getRequestById i s = Some r" "rq_required r \<le> rq_collected r" using assms(2) by (auto simp: quorum_def)
  have "0 \<le> sum_list (map (counting_of i) ts)" by (rule sum_list_nonneg) (auto simp: counting_of_def)
  then have "rq_collected r \<le> int (sig_count i s)" using assms(1) r(1) by (auto simp: all_ok_def deficit_def)
  then show thesis using that r card_signers [of s i] assms(1) by (auto simp: all_ok_def)
qed

section \<open>Schedules\<close>

datatype act = Ask id account_type id rat string id | Arrive task | Go nat

fun act_step :: "custody_env \<Rightarrow> millis \<Rightarrow> act \<Rightarrow> custody \<times> task list \<Rightarrow> custody \<times> task list" where
  "act_step env now (Ask new ty a amount destination by) (s, ts) =
     (if getRequestById new s \<noteq> None then (s, ts)
      else case requestWithdrawal new now ty a amount destination by [] s of Inl _ \<Rightarrow> (s, ts) | Inr (r, s') \<Rightarrow> (s', ts))"
| "act_step env now (Arrive t) (s, ts) = (if new_task t then (s, ts @ [t]) else (s, ts))"
| "act_step env now (Go k) (s, ts) =
     (if k < length ts then case task_step env now (ts ! k) s of (t', s') \<Rightarrow> (s', ts[k := t']) else (s, ts))"

lemma act_step_runs: "ms_runs env x (act_step env now a x)"
proof (cases x)
  case (Pair s ts)
  have "ms_step env x (act_step env now a x) \<or> act_step env now a x = x"
  proof (cases a)
    case (Ask new ty acc amount destination by')
    then show ?thesis unfolding Pair by (auto split: sum.splits prod.splits intro: ms_step.request)
  next
    case (Arrive t)
    then show ?thesis unfolding Pair by (auto intro: ms_step.arrive)
  next
    case (Go k)
    then show ?thesis unfolding Pair by (auto split: prod.splits intro: ms_step.advance)
  qed
  then show ?thesis unfolding ms_runs_def by auto
qed

lemma acts_run: "ms_runs env x (fold (act_step env now) acts x)"
proof (induction acts arbitrary: x)
  case (Cons a acts)
  then show ?case using act_step_runs [of env x now a] unfolding ms_runs_def by (simp only: fold_simps) (rule rtranclp_trans)
qed (simp add: ms_runs_def)

definition demo_multisig :: "int \<Rightarrow> MultisigConfig" where
  "demo_multisig n = \<lparr>mc_id = ''c1'', mc_account_type = Escrow, mc_account_id = ''acc'', mc_required_signatures = n,
     mc_total_signers = 3, mc_daily_cap = Fin 1000, mc_per_transaction_cap = Fin 1000, mc_time_lock_minutes = 30,
     mc_is_active = True\<rparr>"

definition demo_signer :: "id \<Rightarrow> MultisigSigner" where
  "demo_signer i = \<lparr>si_config = ''c1'', si_signer = i, si_name = i, si_public_key = ''key-'' @ i, si_is_active = True\<rparr>"

definition demo_start :: "int \<Rightarrow> custody \<times> task list" where
  "demo_start n = (start_custody [demo_multisig n] (map demo_signer [''a'', ''b'', ''c'']), [])"

definition demo_verifier :: custody_env where
  \<comment> \<open>a signature is accepted if it is the key followed by the payload\<close>
  "demo_verifier = \<lparr>verify = (\<lambda>payload signature key. signature = key @ payload), payout_succeeds = (\<lambda>_. True)\<rparr>"

definition demo_callback :: "id \<Rightarrow> id \<Rightarrow> string \<Rightarrow> task" where
  "demo_callback i who payload = CallbackTask i who (''key-'' @ who @ payload) payload CallbackRead"

definition custody_run :: "int \<Rightarrow> act list \<Rightarrow> custody" where
  "custody_run n acts = fst (fold (act_step demo_verifier 1000) acts (demo_start n))"

lemma custody_run_runs: "\<exists>ts. ms_runs demo_verifier (demo_start n) (custody_run n acts, ts)"
  using acts_run [of demo_verifier "demo_start n" 1000 acts] unfolding custody_run_def by (metis prod.collapse)

lemma demo_existsI: "P (custody_run n acts) \<Longrightarrow> \<exists>s ts. ms_runs demo_verifier (demo_start n) (s, ts) \<and> P s"
  using custody_run_runs [of n acts] by blast

definition demo_view :: "custody \<Rightarrow> (id \<times> string) list \<times> (MultisigRequestStatus \<times> string) list \<times> (id \<times> string) list \<times> string list" where
  \<comment> \<open>what the schedules below are observed by\<close>
  "demo_view s = (map (\<lambda>p. (cp_request p, cp_amount p)) (cu_payouts s), map (\<lambda>r. (rq_status r, signingPayloadFor r)) (cu_requests s),
     map (\<lambda>g. (sg_request g, sg_data g)) (cu_signatures s), map si_public_key (cu_signers s))"

lemma demo_viewD:
  assumes "demo_view s = (ps, rs, gs, ks)"
  shows "map cp_request (cu_payouts s) = map fst ps"
    "map sg_data (filter (\<lambda>g. sg_request g = i) (cu_signatures s)) = map snd (filter (\<lambda>p. fst p = i) gs)"
    "r \<in> set (cu_requests s) \<Longrightarrow> signingPayloadFor r \<in> snd ` set rs"
    "g \<in> set (cu_signatures s) \<Longrightarrow> sg_data g \<in> snd ` set gs"
    "x \<in> set (cu_signers s) \<Longrightarrow> si_public_key x \<in> set ks"
  using assms by (auto simp: demo_view_def filter_map comp_def image_iff)

section \<open>Properties\<close>

text \<open>
  C22. No request moves without its quorum. However the statements of any number of callbacks,
  signing, execution and cancellation handlers interleave with new requests, a request that is
  approved or executed, or for which a payout was asked, carries at least as many signatures as its
  configuration requires, all of different signers, and each of them an active signer registered
  for that configuration.
\<close>

theorem quorum_safety:
  assumes "ms_runs env (start_custody cs xs, []) (s, ts)" "getRequestById i s = Some r"
    "rq_status r \<in> {M_approved, M_executed} \<or> (\<exists>p\<in>set (cu_payouts s). cp_request p = i)"
  shows "rq_required r \<le> int (card (signers_of_request s i)) \<and>
    (\<exists>c\<in>set cs. mc_id c = rq_config r \<and> rq_required r = mc_required_signatures c) \<and>
    (\<forall>who\<in>signers_of_request s i. \<exists>x\<in>set xs. si_config x = rq_config r \<and> si_signer x = who \<and> si_is_active x)"
proof -
  have ok: "all_ok (s, ts)" and ex: "extends (start_custody cs xs) s"
    using ms_runs_ok [OF assms(1) start_ok] by simp_all
  have tab: "custody_ok s" using ok by (simp add: all_ok_def)
  have fixed: "cu_signers s = xs" "cu_configs s = cs" using ex by (simp_all add: extends_def start_custody_def)
  have "quorum s i" using assms(2,3) tab unfolding custody_ok_def by blast
  then have "rq_required r \<le> int (card (signers_of_request s i))"
    using assms(2) by (auto elim: quorum_signed [OF ok])
  moreover have "\<exists>c\<in>set cs. mc_id c = rq_config r \<and> rq_required r = mc_required_signatures c"
    using tab assms(2) fixed unfolding custody_ok_def by blast
  moreover have "\<exists>x\<in>set xs. si_config x = rq_config r \<and> si_signer x = who \<and> si_is_active x"
    if "who \<in> signers_of_request s i" for who
  proof -
    have "signer_of s i who" using that tab by (auto simp: signers_of_request_def custody_ok_def)
    then show ?thesis using assms(2) fixed by (auto simp: signer_of_def)
  qed
  ultimately show ?thesis by blast
qed


theorem quorum_safety_witness:
  "let s = custody_run 2 ([Ask ''r1'' Escrow ''acc'' 500 ''dest'' ''admin'', Arrive (demo_callback ''r1'' ''a'' ''p''),
       Arrive (demo_callback ''r1'' ''b'' ''p'')] @ map Go (replicate 5 0 @ replicate 9 1))
   in map cp_request (cu_payouts s) = [''r1''] \<and> 2 \<le> card (signers_of_request s ''r1'')"
proof -
  let ?acts = "[Ask ''r1'' Escrow ''acc'' 500 ''dest'' ''admin'', Arrive (demo_callback ''r1'' ''a'' ''p''),
       Arrive (demo_callback ''r1'' ''b'' ''p'')] @ map Go (replicate 5 0 @ replicate 9 1)"
  obtain ts where run: "ms_runs demo_verifier (start_custody [demo_multisig 2] (map demo_signer [''a'', ''b'', ''c'']), []) (custody_run 2 ?acts, ts)"
    using custody_run_runs [of 2 ?acts] by (auto simp: demo_start_def)
  have paid: "map cp_request (cu_payouts (custody_run 2 ?acts)) = [''r1'']"
    "map_option (\<lambda>r. (rq_status r, rq_required r)) (getRequestById ''r1'' (custody_run 2 ?acts)) = Some (M_executed, 2)"
    by code_simp+
  then obtain r where "getRequestById ''r1'' (custody_run 2 ?acts) = Some r" "rq_status r = M_executed" "rq_required r = 2" by auto
  then show ?thesis using quorum_safety [OF run, of "''r1''" r] paid(1) by (simp add: Let_def)
qed

text \<open>
  A payout can happen twice. With two signatures required and three signers, the last two
  callbacks can both pass the test that the request is pending before either is counted; each then
  finds the threshold met, approves, executes and pays the request.
\<close>

theorem race_pays_twice:
  "\<exists>s ts. ms_runs demo_verifier (demo_start 2) (s, ts) \<and> length (cu_requests s) = 1 \<and>
    map (\<lambda>p. (cp_request p, cp_amount p)) (cu_payouts s) = [(''r1'', ''500.0000000''), (''r1'', ''500.0000000'')]"
proof -
  let ?acts = "[Ask ''r1'' Escrow ''acc'' 500 ''dest'' ''admin'', Arrive (demo_callback ''r1'' ''a'' ''p''),
       Arrive (demo_callback ''r1'' ''b'' ''p''), Arrive (demo_callback ''r1'' ''c'' ''p'')] @
       map Go (replicate 5 0 @ replicate 4 1 @ replicate 4 2 @ replicate 5 1 @ replicate 5 2)"
  have "demo_view (custody_run 2 ?acts) = ([(''r1'', ''500.0000000''), (''r1'', ''500.0000000'')], [(M_executed, ''r1:500.0000000:dest'')],
      [(''r1'', ''key-ap''), (''r1'', ''key-bp''), (''r1'', ''key-cp'')], [''key-a'', ''key-b'', ''key-c''])" by code_simp
  then show ?thesis by (intro demo_existsI [where acts = ?acts]) (auto simp: demo_view_def)
qed

text \<open>
  Signatures can be replayed through the callback. It verifies a signature over a payload that
  the caller supplies, and nothing ties the payload to the request. Signatures that two signers gave
  for one request approve another, to another destination; none of them is a signature of what was
  paid, and the signing route would have refused them.
\<close>

theorem callback_replay:
  "\<exists>s ts. ms_runs demo_verifier (demo_start 2) (s, ts) \<and>
    map cp_request (cu_payouts s) = [''r1'', ''r2''] \<and>
    map sg_data (filter (\<lambda>g. sg_request g = ''r2'') (cu_signatures s)) = map sg_data (filter (\<lambda>g. sg_request g = ''r1'') (cu_signatures s)) \<and>
    [(). r \<leftarrow> cu_requests s, rq_id r = ''r2'', g \<leftarrow> cu_signatures s, x \<leftarrow> cu_signers s,
      verify demo_verifier (signingPayloadFor r) (sg_data g) (si_public_key x)] = []"
proof -
  let ?acts = "[Ask ''r1'' Escrow ''acc'' 400 ''shop'' ''admin'', Arrive (demo_callback ''r1'' ''a'' ''r1:400.0000000:shop''),
       Arrive (demo_callback ''r1'' ''b'' ''r1:400.0000000:shop'')] @ map Go (replicate 5 0 @ replicate 9 1) @
       [Ask ''r2'' Escrow ''acc'' 600 ''thief'' ''admin'', Arrive (demo_callback ''r2'' ''a'' ''r1:400.0000000:shop''),
        Arrive (demo_callback ''r2'' ''b'' ''r1:400.0000000:shop'')] @ map Go (replicate 5 2 @ replicate 9 3)"
  let ?a = "''key-ar1:400.0000000:shop''" and ?b = "''key-br1:400.0000000:shop''"
  define s where "s = custody_run 2 ?acts"
  have "demo_view s = ([(''r1'', ''400.0000000''), (''r2'', ''600.0000000'')],
      [(M_executed, ''r1:400.0000000:shop''), (M_executed, ''r2:600.0000000:thief'')],
      [(''r1'', ?a), (''r1'', ?b), (''r2'', ?a), (''r2'', ?b)], [''key-a'', ''key-b'', ''key-c''])"
    unfolding s_def by code_simp
  note v = demo_viewD [OF this]
  have "\<not> verify demo_verifier (signingPayloadFor r) (sg_data g) (si_public_key x)"
    if "r \<in> set (cu_requests s)" "rq_id r = ''r2''" "g \<in> set (cu_signatures s)" "x \<in> set (cu_signers s)" for r g x
  proof -
    have "take 2 (signingPayloadFor r) = ''r2''" using that(2) by (simp add: signingPayloadFor_def)
    then have "signingPayloadFor r = ''r2:600.0000000:thief''" using v(3) [OF that(1)] by auto
    then show ?thesis using v(4) [OF that(3)] v(5) [OF that(4)] by (auto simp: demo_verifier_def)
  qed
  then have "[(). r \<leftarrow> cu_requests s, rq_id r = ''r2'', g \<leftarrow> cu_signatures s, x \<leftarrow> cu_signers s,
      verify demo_verifier (signingPayloadFor r) (sg_data g) (si_public_key x)] = []" by auto
  moreover obtain ts where "ms_runs demo_verifier (demo_start 2) (s, ts)" using custody_run_runs [of 2 ?acts] unfolding s_def by blast
  moreover have "map cp_request (cu_payouts s) = [''r1'', ''r2''] \<and>
      map sg_data (filter (\<lambda>g. sg_request g = ''r2'') (cu_signatures s)) = map sg_data (filter (\<lambda>g. sg_request g = ''r1'') (cu_signatures s))"
    using v(1) v(2) [of "''r1''"] v(2) [of "''r2''"] by simp
  ultimately show ?thesis by (intro exI [of _ s] exI [of _ ts] conjI) (assumption | elim conjE)+
qed

text \<open>
  The daily cap does not bound the day. It is tested when a withdrawal is requested, against the
  requests already approved; two withdrawals of 600 requested one after the other pass a cap of 1000
  and are both signed and executed.
\<close>

theorem daily_cap_exceeded:
  "\<exists>s ts. ms_runs demo_verifier (demo_start 1) (s, ts) \<and> map rq_status (cu_requests s) = [M_executed, M_executed] \<and>
    js_lt (mc_daily_cap (demo_multisig 1)) (getDailyTotal 1000 Escrow ''acc'' s)"
proof (rule demo_existsI)
  let ?acts = "[Ask ''r1'' Escrow ''acc'' 600 ''shop'' ''admin'', Ask ''r2'' Escrow ''acc'' 600 ''shop'' ''admin'',
       Arrive (SignTask ''a'' ''r1'' ''key-ar1:600.0000000:shop'' RouteRead), Arrive (SignTask ''b'' ''r2'' ''key-br2:600.0000000:shop'' RouteRead),
       Arrive (ExecuteTask ''admin'' ''r1'' ExecRead), Arrive (ExecuteTask ''admin'' ''r2'' ExecRead)] @
       map Go (replicate 6 0 @ replicate 6 1 @ replicate 2 2 @ replicate 2 3)"
  show "map rq_status (cu_requests (custody_run 1 ?acts)) = [M_executed, M_executed] \<and>
    js_lt (mc_daily_cap (demo_multisig 1)) (getDailyTotal 1000 Escrow ''acc'' (custody_run 1 ?acts))" by code_simp
qed

end
