(* ===== verification/Channel_Lease.thy ===== *)
theory Channel_Lease
  imports Prelude "HOL-Library.AList"
begin

text \<open>
  The lease stores behind the pool of Stellar channel accounts (\<^verbatim>\<open>src/services/channelPool.ts\<close>): the
  map \<^verbatim>\<open>InMemoryChannelLeaseStore\<close> of one process, and \<^verbatim>\<open>RedisChannelLeaseStore\<close>, which replicas share
  and which falls back to a map while Redis is disconnected. The locale \<open>lease_store\<close> is the interface
  \<^verbatim>\<open>ChannelLeaseStore\<close> that the pool relies on: a lease can be taken while no other is alive, it ends at
  its expiry, and only its holder can end it earlier. Both stores satisfy it.

  The text of a token, \<^verbatim>\<open>instanceId:randomUUID()\<close>, and of a sequence number, decimal digits, is an integer
  here.
\<close>

type_synonym token = int

record 's lease_ops =
  lo_tryLease :: "millis \<Rightarrow> id \<Rightarrow> token \<Rightarrow> millis \<Rightarrow> 's \<Rightarrow> bool \<times> 's"
  lo_release :: "millis \<Rightarrow> id \<Rightarrow> token \<Rightarrow> 's \<Rightarrow> 's"
  lo_getSequence :: "millis \<Rightarrow> id \<Rightarrow> 's \<Rightarrow> int option"
  lo_setSequence :: "millis \<Rightarrow> id \<Rightarrow> int \<Rightarrow> 's \<Rightarrow> 's"
  lo_clearSequence :: "millis \<Rightarrow> id \<Rightarrow> 's \<Rightarrow> 's"

section \<open>The interface\<close>

locale lease_store =
  fixes L :: "'s lease_ops"
    and held :: "millis \<Rightarrow> (token \<times> millis) option \<Rightarrow> bool"
    and lease :: "'s \<Rightarrow> id \<Rightarrow> (token \<times> millis) option"
    and seqs :: "'s \<Rightarrow> id \<Rightarrow> int option"
  assumes held_none: "\<not> held now None"
    and held_before: "now < e \<Longrightarrow> held now (Some (t, e))"
    and held_after: "e < now \<Longrightarrow> \<not> held now (Some (t, e))"
    and try_result: "fst (lo_tryLease L now k t ttl s) \<longleftrightarrow> \<not> held now (lease s k)"
    and try_lease: "lease (snd (lo_tryLease L now k t ttl s)) =
      (if held now (lease s k) then lease s else (lease s)(k \<mapsto> (t, now + ttl)))"
    and release_other: "j \<noteq> k \<or> map_option fst (lease s j) \<noteq> Some t \<Longrightarrow> lease (lo_release L now k t s) j = lease s j"
    and release_own: "lease s k = Some (t, e) \<Longrightarrow> held now (Some (t, e)) \<Longrightarrow> lease (lo_release L now k t s) k = None"
    and get_sequence: "lo_getSequence L now k s \<in> {None, seqs s k}"
    and set_sequence: "seqs (lo_setSequence L now k n s) = (seqs s)(k \<mapsto> n)" "lease (lo_setSequence L now k n s) = lease s"
    and clear_sequence: "seqs (lo_clearSequence L now k s) = (seqs s)(k := None)" "lease (lo_clearSequence L now k s) = lease s"
    and leases_keep_sequences: "seqs (snd (lo_tryLease L now k t ttl s)) = seqs s" "seqs (lo_release L now k t s) = seqs s"
begin

lemma get_cleared: "seqs s k = None \<Longrightarrow> lo_getSequence L now k s = None"
  using get_sequence [of now k s] by auto

lemma release_at: "lease (lo_release L now k t s) j = lease s j \<or> j = k \<and> map_option fst (lease s k) = Some t"
  using release_other [of j k s t now] by blast

end

section \<open>The store of one process\<close>

record mem_store =
  ms_leases :: "(id \<times> token \<times> millis) list" \<comment> \<open>\<^verbatim>\<open>leases\<close>: holder and \<^verbatim>\<open>expiresAt\<close>\<close>
  ms_sequences :: "(id \<times> int) list"

definition mem_tryLease :: "millis \<Rightarrow> id \<Rightarrow> token \<Rightarrow> millis \<Rightarrow> mem_store \<Rightarrow> bool \<times> mem_store" where
  "mem_tryLease now key holder ttlMs s =
     (let taken = (True, s\<lparr>ms_leases := AList.update key (holder, now + ttlMs) (ms_leases s)\<rparr>)
      in case map_of (ms_leases s) key of
        None \<Rightarrow> taken
      | Some (_, expiresAt) \<Rightarrow> if now < expiresAt then (False, s) else taken)"

definition mem_release :: "millis \<Rightarrow> id \<Rightarrow> token \<Rightarrow> mem_store \<Rightarrow> mem_store" where
  "mem_release now key holder s =
     (if map_option fst (map_of (ms_leases s) key) = Some holder
      then s\<lparr>ms_leases := AList.delete key (ms_leases s)\<rparr> else s)"

definition mem_lease_store :: "mem_store lease_ops" where
  "mem_lease_store = \<lparr>lo_tryLease = mem_tryLease, lo_release = mem_release,
     lo_getSequence = (\<lambda>now k s. map_of (ms_sequences s) k),
     lo_setSequence = (\<lambda>now k n s. s\<lparr>ms_sequences := AList.update k n (ms_sequences s)\<rparr>),
     lo_clearSequence = (\<lambda>now k s. s\<lparr>ms_sequences := AList.delete k (ms_sequences s)\<rparr>)\<rparr>"

definition empty_leases :: mem_store where
  "empty_leases = \<lparr>ms_leases = [], ms_sequences = []\<rparr>"

definition mem_held :: "millis \<Rightarrow> (token \<times> millis) option \<Rightarrow> bool" where
  "mem_held now x = (case x of Some (_, e) \<Rightarrow> now < e | None \<Rightarrow> False)"

interpretation mem_lease: lease_store mem_lease_store mem_held "\<lambda>s. map_of (ms_leases s)" "\<lambda>s. map_of (ms_sequences s)"
  by unfold_locales
    (auto simp: mem_lease_store_def mem_tryLease_def mem_release_def mem_held_def Let_def update_conv' delete_conv'
      split: option.splits)

section \<open>The store shared through Redis\<close>

record 'r kv_ops =
  kv_set_nx_px :: "millis \<Rightarrow> string \<Rightarrow> int \<Rightarrow> millis \<Rightarrow> 'r \<Rightarrow> bool \<times> 'r"
  kv_set_px :: "millis \<Rightarrow> string \<Rightarrow> int \<Rightarrow> millis \<Rightarrow> 'r \<Rightarrow> 'r"
  kv_get :: "millis \<Rightarrow> string \<Rightarrow> 'r \<Rightarrow> int option"
  kv_del :: "millis \<Rightarrow> string \<Rightarrow> 'r \<Rightarrow> 'r"

text \<open>What the documentation of the commands promises about the entries.\<close>

locale redis_kv =
  fixes R :: "'r kv_ops" and entries :: "'r \<Rightarrow> string \<Rightarrow> (int \<times> millis) option"
  assumes kv_get: "kv_get R now k r = live now (entries r k)"
    and kv_set_nx: "kv_set_nx_px R now k v ttl r =
      (if live now (entries r k) = None then (True, kv_set_px R now k v ttl r) else (False, r))"
    and kv_set: "entries (kv_set_px R now k v ttl r) = (entries r)(k \<mapsto> (v, now + ttl))"
    and kv_del: "entries (kv_del R now k r) = (entries r)(k := None)"

definition RELEASE_IF_OWNER :: "'r kv_ops \<Rightarrow> millis \<Rightarrow> string \<Rightarrow> int \<Rightarrow> 'r \<Rightarrow> 'r" where
  "RELEASE_IF_OWNER R now key arg r = (if kv_get R now key r = Some arg then kv_del R now key r else r)"

definition SEQUENCE_TTL_MS :: millis where
  "SEQUENCE_TTL_MS = 24 * 60 * 60 * 1000"

definition lease_key :: "string \<Rightarrow> id \<Rightarrow> string" where
  "lease_key pre key = pre @ '':lease:'' @ key"

definition seq_key :: "string \<Rightarrow> id \<Rightarrow> string" where
  "seq_key pre key = pre @ '':seq:'' @ key"

record 'r redis_lease_state =
  rl_redis :: 'r
  rl_fallback :: mem_store

definition redis_tryLease ::
  "'r kv_ops \<Rightarrow> string \<Rightarrow> bool \<Rightarrow> millis \<Rightarrow> id \<Rightarrow> token \<Rightarrow> millis \<Rightarrow> 'r redis_lease_state \<Rightarrow> bool \<times> 'r redis_lease_state" where
  "redis_tryLease R pre online now key holder ttlMs s =
     (if \<not> online then (let (ok, m) = mem_tryLease now key holder ttlMs (rl_fallback s) in (ok, s\<lparr>rl_fallback := m\<rparr>))
      else (let (reply, r) = kv_set_nx_px R now (lease_key pre key) holder ttlMs (rl_redis s)
            in (reply, s\<lparr>rl_redis := r\<rparr>)))"

definition redis_release ::
  "'r kv_ops \<Rightarrow> string \<Rightarrow> bool \<Rightarrow> millis \<Rightarrow> id \<Rightarrow> token \<Rightarrow> 'r redis_lease_state \<Rightarrow> 'r redis_lease_state" where
  "redis_release R pre online now key holder s =
     (if \<not> online then s\<lparr>rl_fallback := mem_release now key holder (rl_fallback s)\<rparr>
      else s\<lparr>rl_redis := RELEASE_IF_OWNER R now (lease_key pre key) holder (rl_redis s)\<rparr>)"

definition redis_getSequence :: "'r kv_ops \<Rightarrow> string \<Rightarrow> bool \<Rightarrow> millis \<Rightarrow> id \<Rightarrow> 'r redis_lease_state \<Rightarrow> int option" where
  "redis_getSequence R pre online now key s =
     (if \<not> online then lo_getSequence mem_lease_store now key (rl_fallback s)
      else kv_get R now (seq_key pre key) (rl_redis s))"

definition redis_setSequence ::
  "'r kv_ops \<Rightarrow> string \<Rightarrow> bool \<Rightarrow> millis \<Rightarrow> id \<Rightarrow> int \<Rightarrow> 'r redis_lease_state \<Rightarrow> 'r redis_lease_state" where
  "redis_setSequence R pre online now key n s =
     (if \<not> online then s\<lparr>rl_fallback := lo_setSequence mem_lease_store now key n (rl_fallback s)\<rparr>
      else s\<lparr>rl_redis := kv_set_px R now (seq_key pre key) n SEQUENCE_TTL_MS (rl_redis s)\<rparr>)"

definition redis_clearSequence ::
  "'r kv_ops \<Rightarrow> string \<Rightarrow> bool \<Rightarrow> millis \<Rightarrow> id \<Rightarrow> 'r redis_lease_state \<Rightarrow> 'r redis_lease_state" where
  "redis_clearSequence R pre online now key s =
     (if \<not> online then s\<lparr>rl_fallback := lo_clearSequence mem_lease_store now key (rl_fallback s)\<rparr>
      else s\<lparr>rl_redis := kv_del R now (seq_key pre key) (rl_redis s)\<rparr>)"

definition redis_lease_store :: "'r kv_ops \<Rightarrow> string \<Rightarrow> bool \<Rightarrow> 'r redis_lease_state lease_ops" where
  "redis_lease_store R pre online = \<lparr>lo_tryLease = redis_tryLease R pre online,
     lo_release = redis_release R pre online, lo_getSequence = redis_getSequence R pre online,
     lo_setSequence = redis_setSequence R pre online, lo_clearSequence = redis_clearSequence R pre online\<rparr>"

lemmas redis_lease_defs = redis_lease_store_def redis_tryLease_def redis_release_def redis_getSequence_def
  redis_setSequence_def redis_clearSequence_def RELEASE_IF_OWNER_def

lemma lease_keys [simp]:
  "lease_key p j = lease_key p k \<longleftrightarrow> j = k" "seq_key p j = seq_key p k \<longleftrightarrow> j = k"
  "lease_key p j \<noteq> seq_key p k" "seq_key p k \<noteq> lease_key p j"
  by (simp_all add: lease_key_def seq_key_def)

definition redis_held :: "millis \<Rightarrow> (token \<times> millis) option \<Rightarrow> bool" where
  "redis_held now x \<longleftrightarrow> live now x \<noteq> None"

definition redis_lease :: "('r \<Rightarrow> string \<Rightarrow> (int \<times> millis) option) \<Rightarrow> string \<Rightarrow> 'r redis_lease_state \<Rightarrow> id \<Rightarrow> (token \<times> millis) option" where
  "redis_lease entries pre s k = entries (rl_redis s) (lease_key pre k)"

definition redis_seqs :: "('r \<Rightarrow> string \<Rightarrow> (int \<times> millis) option) \<Rightarrow> string \<Rightarrow> 'r redis_lease_state \<Rightarrow> id \<Rightarrow> int option" where
  "redis_seqs entries pre s k = map_option fst (entries (rl_redis s) (seq_key pre k))"

context redis_kv
begin

lemma connected: "lease_store (redis_lease_store R pre True) redis_held (redis_lease entries pre) (redis_seqs entries pre)"
  by unfold_locales
    (auto simp: redis_lease_defs redis_held_def redis_lease_def redis_seqs_def live_def kv_get kv_set_nx kv_set kv_del fun_eq_iff
      split: option.splits prod.splits if_splits)

end

lemma disconnected: "lease_store (redis_lease_store R pre False) mem_held (\<lambda>s. map_of (ms_leases (rl_fallback s)))
    (\<lambda>s. map_of (ms_sequences (rl_fallback s)))"
  by unfold_locales
    (auto simp: redis_lease_defs mem_lease_store_def mem_tryLease_def mem_release_def mem_held_def Let_def update_conv' delete_conv'
      split: option.splits)

text \<open>A server in memory.\<close>

definition memory_kv :: "(string \<times> int \<times> millis) list kv_ops" where
  "memory_kv = \<lparr>kv_set_nx_px = (\<lambda>now k v ttl r. if live now (map_of r k) = None then (True, AList.update k (v, now + ttl) r) else (False, r)),
     kv_set_px = (\<lambda>now k v ttl r. AList.update k (v, now + ttl) r),
     kv_get = (\<lambda>now k r. live now (map_of r k)), kv_del = (\<lambda>now k r. AList.delete k r)\<rparr>"

interpretation memory_kv: redis_kv memory_kv map_of
  by unfold_locales (auto simp: memory_kv_def update_conv' delete_conv')

interpretation redis_leases: lease_store "redis_lease_store memory_kv pre True" redis_held "redis_lease map_of pre" "redis_seqs map_of pre"
  for pre by (rule memory_kv.connected)

interpretation fallback_leases: lease_store "redis_lease_store R pre False" mem_held "\<lambda>s. map_of (ms_leases (rl_fallback s))"
    "\<lambda>s. map_of (ms_sequences (rl_fallback s))"
  for R pre by (rule disconnected)

end
