(* ===== verification/Channel_Pool.thy ===== *)
theory Channel_Pool
  imports Channel_Lease "HOL-Library.Multiset"
begin

text \<open>
  The pool of Stellar channel accounts (\<^verbatim>\<open>src/services/channelPool.ts\<close>): how callers of one process share
  its channels through the list of idle ones and a queue of waiters, and how the processes share them
  through a lease store. A caller of \<^verbatim>\<open>acquire\<close> and \<^verbatim>\<open>release\<close> is a small machine that runs from one
  awaited call to the next; a run interleaves the callers of any number of processes, whatever the
  store answers or throws.
\<close>

section \<open>One process\<close>

datatype pc =
    Again \<comment> \<open>at the head of the loop of \<^verbatim>\<open>acquire\<close>\<close>
  | Trying id "nat option" token
    \<comment> \<open>awaiting \<^verbatim>\<open>tryLease\<close> in \<^verbatim>\<open>tryAcquireIdle\<close>, with the candidates left, or for a channel handed over\<close>
  | Missed \<comment> \<open>\<^verbatim>\<open>tryAcquireIdle\<close> found nothing\<close>
  | Polling
  | Waiting \<comment> \<open>in \<^verbatim>\<open>waitForLocalRelease\<close>\<close>
  | Holding id token millis \<comment> \<open>\<^verbatim>\<open>acquire\<close> has returned; since when, for the statements only\<close>
  | Releasing id "token option" \<comment> \<open>awaiting \<^verbatim>\<open>store.release\<close>\<close>
  | Exhausted \<comment> \<open>threw \<^verbatim>\<open>ChannelPoolExhaustedError\<close>\<close>
  | Returned

record caller =
  cl_pc :: pc
  cl_deadline :: millis

record channel_pool =
  cp_idle :: "id list"
  cp_waiters :: "nat list"
  cp_holders :: "(id \<times> token) list"
  cp_callers :: "caller list"

record pool_options =
  po_leaseTtlMs :: millis
  po_acquireTimeoutMs :: millis

definition default_options :: pool_options where
  "default_options = \<lparr>po_leaseTtlMs = 60000, po_acquireTimeoutMs = 15000\<rparr>"

datatype pool_error = NoAccounts | SecretKeyMismatch id | DuplicateAccount id | TargetNotAboveMinimum

fun check_accounts :: "(string \<Rightarrow> id) \<Rightarrow> id list \<Rightarrow> (id \<times> string) list \<Rightarrow> pool_error + id list" where
  \<comment> \<open>the loop of the constructor; \<open>fromSecret\<close> gives the public key of a secret key\<close>
  "check_accounts fromSecret idle [] = Inr idle"
| "check_accounts fromSecret idle ((publicKey, secretKey) # rest) =
     (if fromSecret secretKey \<noteq> publicKey then Inl (SecretKeyMismatch publicKey)
      else if publicKey \<in> set idle then Inl (DuplicateAccount publicKey)
      else check_accounts fromSecret (idle @ [publicKey]) rest)"

definition new_pool :: "id list \<Rightarrow> channel_pool" where
  "new_pool keys = \<lparr>cp_idle = keys, cp_waiters = [], cp_holders = [], cp_callers = []\<rparr>"

definition ChannelAccountPool :: "(string \<Rightarrow> id) \<Rightarrow> (id \<times> string) list \<Rightarrow> jsnum \<Rightarrow> jsnum \<Rightarrow> pool_error + channel_pool" where
  "ChannelAccountPool fromSecret accounts minBalanceXlm targetBalanceXlm =
     (if accounts = [] then Inl NoAccounts
      else case check_accounts fromSecret [] accounts of
        Inl e \<Rightarrow> Inl e
      | Inr keys \<Rightarrow> if js_le targetBalanceXlm minBalanceXlm then Inl TargetNotAboveMinimum else Inr (new_pool keys))"

definition pc_of :: "channel_pool \<Rightarrow> nat \<Rightarrow> pc" where
  "pc_of p i = cl_pc (cp_callers p ! i)"

definition goto :: "nat \<Rightarrow> pc \<Rightarrow> channel_pool \<Rightarrow> channel_pool" where
  "goto i c p = p\<lparr>cp_callers := (cp_callers p)[i := (cp_callers p ! i)\<lparr>cl_pc := c\<rparr>]\<rparr>"

definition acquire :: "pool_options \<Rightarrow> millis \<Rightarrow> channel_pool \<Rightarrow> channel_pool" where
  "acquire opts now p = p\<lparr>cp_callers := cp_callers p @ [\<lparr>cl_pc = Again, cl_deadline = now + po_acquireTimeoutMs opts\<rparr>]\<rparr>"

fun tryAcquireIdle :: "nat \<Rightarrow> token \<Rightarrow> nat \<Rightarrow> channel_pool \<Rightarrow> channel_pool" where
  \<comment> \<open>the loop over the candidates that are left, up to the next \<^verbatim>\<open>tryLease\<close>\<close>
  "tryAcquireIdle i tok 0 p = goto i Missed p"
| "tryAcquireIdle i tok (Suc n) p = (case cp_idle p of
     [] \<Rightarrow> goto i Missed p
   | k # ks \<Rightarrow> goto i (Trying k (Some n) tok) (p\<lparr>cp_idle := ks\<rparr>))"

definition claimShared :: "bool \<Rightarrow> id \<Rightarrow> token \<Rightarrow> channel_pool \<Rightarrow> channel_pool" where
  \<comment> \<open>after the reply of the store; an error counts as a refusal\<close>
  "claimShared ok k t p =
     (if ok then p\<lparr>cp_holders := AList.update k t (cp_holders p)\<rparr>
      else if k \<notin> set (cp_idle p) then p\<lparr>cp_idle := cp_idle p @ [k]\<rparr> else p)"

definition after_miss :: "nat \<Rightarrow> millis \<Rightarrow> channel_pool \<Rightarrow> channel_pool" where
  "after_miss i now p =
     (if cl_deadline (cp_callers p ! i) - now \<le> 0 then goto i Exhausted p
      else if cp_idle p = [] then goto i Waiting (p\<lparr>cp_waiters := cp_waiters p @ [i]\<rparr>)
      else goto i Polling p)"

definition start_release :: "nat \<Rightarrow> id \<Rightarrow> channel_pool \<Rightarrow> channel_pool" where
  "start_release i k p =
     goto i (Releasing k (map_of (cp_holders p) k)) (p\<lparr>cp_holders := AList.delete k (cp_holders p)\<rparr>)"

definition hand_over :: "token \<Rightarrow> id \<Rightarrow> channel_pool \<Rightarrow> channel_pool" where
  \<comment> \<open>the resolved waiter goes on with \<^verbatim>\<open>claimShared\<close>\<close>
  "hand_over tok k p = (case cp_waiters p of
     w # ws \<Rightarrow> goto w (Trying k None tok) (p\<lparr>cp_waiters := ws\<rparr>)
   | [] \<Rightarrow> p\<lparr>cp_idle := cp_idle p @ [k]\<rparr>)"

definition waiter_timeout :: "nat \<Rightarrow> millis \<Rightarrow> channel_pool \<Rightarrow> channel_pool" where
  "waiter_timeout i now p =
     (if now < cl_deadline (cp_callers p ! i) then p
      else goto i Again (p\<lparr>cp_waiters := filter (\<lambda>w. w \<noteq> i) (cp_waiters p)\<rparr>))"

definition pool_step :: "nat \<Rightarrow> millis \<Rightarrow> token \<Rightarrow> bool \<Rightarrow> channel_pool \<Rightarrow> channel_pool" where
  \<comment> \<open>caller \<open>i\<close> goes on; \<open>ok\<close> is the reply of the store, \<open>tok\<close> a fresh token\<close>
  "pool_step i now tok ok p = (case pc_of p i of
     Again \<Rightarrow> tryAcquireIdle i tok (length (cp_idle p)) p
   | Trying k rest t \<Rightarrow>
       (let p' = claimShared ok k t p
        in if ok then goto i (Holding k t now) p'
           else case rest of Some n \<Rightarrow> tryAcquireIdle i tok n p' | None \<Rightarrow> goto i Again p')
   | Missed \<Rightarrow> after_miss i now p
   | Polling \<Rightarrow> goto i Again p
   | Waiting \<Rightarrow> waiter_timeout i now p
   | Holding k t since \<Rightarrow> start_release i k p
   | Releasing k t \<Rightarrow> hand_over tok k (goto i Returned p)
   | Exhausted \<Rightarrow> p
   | Returned \<Rightarrow> p)"

record ChannelPoolStats =
  ps_total :: nat
  ps_available :: nat
  ps_leased :: nat
  ps_waiting :: nat

definition getStats :: "id list \<Rightarrow> channel_pool \<Rightarrow> ChannelPoolStats" where
  "getStats keys p = \<lparr>ps_total = length keys, ps_available = length (cp_idle p), ps_leased = length (cp_holders p),
     ps_waiting = length (cp_waiters p)\<rparr>"

section \<open>Processes that share a store\<close>

datatype fate = Works | Lost | Unseen \<comment> \<open>a call of the store works, throws, or throws although it took effect\<close>

record 's channel_world =
  cw_now :: millis
  cw_next :: token
  cw_store :: 's
  cw_pools :: "channel_pool list"

datatype pool_act = Elapse millis | Acquire nat | Step nat nat fate

fun store_call :: "'s lease_ops \<Rightarrow> millis \<Rightarrow> fate \<Rightarrow> millis \<Rightarrow> pc \<Rightarrow> 's \<Rightarrow> bool \<times> 's" where
  \<comment> \<open>what the call that a caller awaits replies, and what it does to the store\<close>
  "store_call L ttl f now (Trying k rest t) s =
     (case f of Works \<Rightarrow> lo_tryLease L now k t ttl s | Lost \<Rightarrow> (False, s)
      | Unseen \<Rightarrow> (False, snd (lo_tryLease L now k t ttl s)))"
| "store_call L ttl f now (Releasing k (Some t)) s = (True, if f = Lost then s else lo_release L now k t s)"
| "store_call L ttl f now c s = (True, s)"

fun pool_next :: "'s lease_ops \<Rightarrow> pool_options \<Rightarrow> pool_act \<Rightarrow> 's channel_world \<Rightarrow> 's channel_world" where
  "pool_next L opts (Elapse d) w = w\<lparr>cw_now := cw_now w + max 0 d\<rparr>"
| "pool_next L opts (Acquire q) w =
     (if q < length (cw_pools w) then w\<lparr>cw_pools := (cw_pools w)[q := acquire opts (cw_now w) (cw_pools w ! q)]\<rparr> else w)"
| "pool_next L opts (Step q i f) w =
     (if q < length (cw_pools w) \<and> i < length (cp_callers (cw_pools w ! q))
      then let p = cw_pools w ! q; (ok, s) = store_call L (po_leaseTtlMs opts) f (cw_now w) (pc_of p i) (cw_store w)
           in w\<lparr>cw_next := cw_next w + 1, cw_store := s,
                cw_pools := (cw_pools w)[q := pool_step i (cw_now w) (cw_next w) ok p]\<rparr>
      else w)"

definition pool_run :: "'s lease_ops \<Rightarrow> pool_options \<Rightarrow> pool_act list \<Rightarrow> 's channel_world \<Rightarrow> 's channel_world" where
  "pool_run L opts acts w = fold (pool_next L opts) acts w"

definition replicas :: "nat \<Rightarrow> id list \<Rightarrow> millis \<Rightarrow> 's \<Rightarrow> 's channel_world" where
  "replicas n keys now s = \<lparr>cw_now = now, cw_next = 0, cw_store = s, cw_pools = replicate n (new_pool keys)\<rparr>"

end
