(* ===== verification/Channel_Pool_Safety.thy ===== *)
theory Channel_Pool_Safety
  imports Channel_Pool
begin

text \<open>
  What the channel pool promises. Within a process no channel is lost or leased twice, whatever the store
  answers; across processes, in the locale \<open>lease_store\<close>, two callers hold the same channel only if the
  lease of the first has expired; and every call of \<^verbatim>\<open>acquire\<close> returns soon after its deadline. A caller
  can, however, sleep beside an idle channel.
\<close>

section \<open>No channel is lost\<close>

fun pc_keys :: "pc \<Rightarrow> id list" where
  "pc_keys (Trying k r t) = [k]"
| "pc_keys (Holding k t s) = [k]"
| "pc_keys (Releasing k t) = [k]"
| "pc_keys _ = []"

definition stock :: "channel_pool \<Rightarrow> id multiset" where
  \<comment> \<open>the channels that are idle or in the hands of a caller\<close>
  "stock p = mset (cp_idle p) + mset (concat (map (\<lambda>c. pc_keys (cl_pc c)) (cp_callers p)))"

lemma goto_fields [simp]:
  "cp_idle (goto i c p) = cp_idle p" "cp_waiters (goto i c p) = cp_waiters p" "cp_holders (goto i c p) = cp_holders p"
  "length (cp_callers (goto i c p)) = length (cp_callers p)"
  by (simp_all add: goto_def)

lemma pc_of_goto [simp]: "i < length (cp_callers p) \<Longrightarrow> pc_of (goto i c p) j = (if j = i then c else pc_of p j)"
  by (simp add: pc_of_def goto_def nth_list_update)

lemma pc_of_fields [simp]:
  "pc_of (p\<lparr>cp_idle := x\<rparr>) j = pc_of p j" "pc_of (p\<lparr>cp_waiters := y\<rparr>) j = pc_of p j" "pc_of (p\<lparr>cp_holders := z\<rparr>) j = pc_of p j"
  by (simp_all add: pc_of_def)

lemma mset_concat_update: "i < length xs \<Longrightarrow>
    mset (f (xs ! i)) + mset (concat (map f (xs[i := x]))) = mset (f x) + mset (concat (map f xs))"
proof (induction xs arbitrary: i)
  case (Cons a xs)
  then show ?case by (cases i) (auto simp: ac_simps)
qed simp

lemma stock_goto: "i < length (cp_callers p) \<Longrightarrow> mset (pc_keys (pc_of p i)) + stock (goto i c p) = mset (pc_keys c) + stock p"
  using mset_concat_update [of i "cp_callers p" "\<lambda>c. pc_keys (cl_pc c)"]
  by (simp add: stock_def goto_def pc_of_def ac_simps)

lemma stock_fields [simp]:
  "stock (p\<lparr>cp_waiters := y\<rparr>) = stock p" "stock (p\<lparr>cp_holders := z\<rparr>) = stock p"
  by (simp_all add: stock_def)

definition waiters_ok :: "channel_pool \<Rightarrow> bool" where
  "waiters_ok p \<longleftrightarrow> distinct (cp_waiters p) \<and>
     (\<forall>i. i \<in> set (cp_waiters p) \<longleftrightarrow> i < length (cp_callers p) \<and> pc_of p i = Waiting)"

lemma stock_idle: "stock (p\<lparr>cp_idle := ks\<rparr>) + mset (cp_idle p) = stock p + mset ks"
  by (simp add: stock_def ac_simps)

lemma stock_tryAcquireIdle:
  assumes i: "i < length (cp_callers p)"
  shows "mset (pc_keys (pc_of p i)) + stock (tryAcquireIdle i tok n p) = stock p"
proof (cases "n = 0 \<or> cp_idle p = []")
  case True
  then have "tryAcquireIdle i tok n p = goto i Missed p" by (cases n) auto
  then show ?thesis using stock_goto [OF i, of Missed] by simp
next
  case False
  then obtain m k ks where n: "n = Suc m" and k: "cp_idle p = k # ks" by (meson list.exhaust not0_implies_Suc)
  let ?p = "p\<lparr>cp_idle := ks\<rparr>"
  have "stock p = add_mset k (stock ?p)" by (simp add: stock_def k)
  moreover have "mset (pc_keys (pc_of p i)) + stock (goto i (Trying k (Some m) tok) ?p) = add_mset k (stock ?p)"
    using stock_goto [of i ?p "Trying k (Some m) tok"] i by simp
  ultimately show ?thesis by (simp add: n k)
qed

lemma stock_claimShared:
  assumes "i < length (cp_callers p)" "pc_of p i = Trying k r t" "\<forall>j. count (stock p) j \<le> 1"
  shows "stock (claimShared ok k t p) = (if ok then stock p else add_mset k (stock p))"
proof -
  have "k \<in># mset (concat (map (\<lambda>c. pc_keys (cl_pc c)) (cp_callers p)))"
    using assms(1,2) by (force simp: pc_of_def in_set_conv_nth)
  then have "0 < count (mset (concat (map (\<lambda>c. pc_keys (cl_pc c)) (cp_callers p)))) k" by (simp only: count_greater_zero_iff)
  moreover have "count (mset (cp_idle p)) k + count (mset (concat (map (\<lambda>c. pc_keys (cl_pc c)) (cp_callers p)))) k \<le> 1"
    using assms(3) by (simp only: stock_def count_union)
  ultimately have "count (mset (cp_idle p)) k = 0" by linarith
  then have "k \<notin> set (cp_idle p)" by (simp only: count_eq_zero_iff set_mset_mset not_False_eq_True)
  then show ?thesis by (simp add: claimShared_def stock_def)
qed

lemma claimShared_fields [simp]:
  "cp_waiters (claimShared ok k t p) = cp_waiters p" "cp_callers (claimShared ok k t p) = cp_callers p"
  "pc_of (claimShared ok k t p) j = pc_of p j"
  by (simp_all add: claimShared_def pc_of_def)

lemma stock_step:
  assumes i: "i < length (cp_callers p)" and ok: "waiters_ok p" and d: "\<forall>j. count (stock p) j \<le> 1"
  shows "stock (pool_step i now tok reply p) = stock p"
proof (cases "pc_of p i")
  case Again
  then show ?thesis using stock_tryAcquireIdle [OF i] by (simp add: pool_step_def)
next
  case (Trying k r t)
  let ?p = "claimShared reply k t p"
  have s: "stock ?p = (if reply then stock p else add_mset k (stock p))" by (rule stock_claimShared [OF i Trying d])
  have "add_mset k (stock (goto i (Holding k t now) ?p)) = add_mset k (stock ?p)"
    "add_mset k (stock (goto i Again ?p)) = stock ?p" "add_mset k (stock (tryAcquireIdle i tok n ?p)) = stock ?p" for n
    using stock_goto [of i ?p] stock_tryAcquireIdle [of i ?p tok] i Trying by auto
  then show ?thesis using s Trying by (auto simp: pool_step_def Let_def split: option.splits)
next
  case Missed
  then show ?thesis using stock_goto [of i p] stock_goto [of i "p\<lparr>cp_waiters := cp_waiters p @ [i]\<rparr>"] i
    by (simp add: pool_step_def after_miss_def)
next
  case Polling
  then show ?thesis using stock_goto [OF i, of Again] by (simp add: pool_step_def)
next
  case Waiting
  then show ?thesis using stock_goto [of i "p\<lparr>cp_waiters := filter (\<lambda>w. w \<noteq> i) (cp_waiters p)\<rparr>" Again] i
    by (simp add: pool_step_def waiter_timeout_def)
next
  case (Holding k t s)
  then show ?thesis using stock_goto [of i "p\<lparr>cp_holders := AList.delete k (cp_holders p)\<rparr>" "Releasing k (map_of (cp_holders p) k)"] i
    by (simp add: pool_step_def start_release_def)
next
  case (Releasing k t)
  let ?p = "goto i Returned p"
  have r: "add_mset k (stock ?p) = stock p" using stock_goto [OF i, of Returned] Releasing by simp
  show ?thesis
  proof (cases "cp_waiters p")
    case Nil
    then show ?thesis using r Releasing by (simp add: pool_step_def hand_over_def stock_def)
  next
    case (Cons w ws)
    then have w: "w < length (cp_callers p)" "pc_of p w = Waiting" using ok by (auto simp: waiters_ok_def)
    then have "w \<noteq> i" using Releasing by auto
    then show ?thesis using stock_goto [of w "?p\<lparr>cp_waiters := ws\<rparr>" "Trying k None tok"] w i r Releasing Cons
      by (simp add: pool_step_def hand_over_def)
  qed
qed (simp_all add: pool_step_def)

section \<open>Waiters and tokens\<close>

fun pc_token :: "pc \<Rightarrow> token option" where
  "pc_token (Trying k r t) = Some t"
| "pc_token (Holding k t s) = Some t"
| "pc_token (Releasing k t) = t"
| "pc_token _ = None"

definition holders_ok :: "channel_pool \<Rightarrow> bool" where
  "holders_ok p \<longleftrightarrow> (\<forall>i k t s. i < length (cp_callers p) \<longrightarrow> pc_of p i = Holding k t s \<longrightarrow> map_of (cp_holders p) k = Some t)"

lemma tryAcquireIdle_fields [simp]:
  "cp_waiters (tryAcquireIdle i tok n p) = cp_waiters p" "cp_holders (tryAcquireIdle i tok n p) = cp_holders p"
  "length (cp_callers (tryAcquireIdle i tok n p)) = length (cp_callers p)"
  by (cases n; auto split: list.splits)+

lemma tryAcquireIdle_self: "i < length (cp_callers p) \<Longrightarrow> pc_of (tryAcquireIdle i tok n p) i = Missed \<or>
    (\<exists>k m. pc_of (tryAcquireIdle i tok n p) i = Trying k (Some m) tok)"
  by (cases n) (auto split: list.splits)

lemma tryAcquireIdle_other:
  "i < length (cp_callers p) \<Longrightarrow> j \<noteq> i \<Longrightarrow> pc_of (tryAcquireIdle i tok n p) j = pc_of p j"
  by (cases n) (auto split: list.splits)

lemmas step_defs = pool_step_def Let_def after_miss_def start_release_def hand_over_def waiter_timeout_def

lemma step_length [simp]: "length (cp_callers (pool_step i now tok reply p)) = length (cp_callers p)"
  by (cases "pc_of p i") (auto simp: step_defs split: option.splits list.splits)

lemma step_other:
  assumes i: "i < length (cp_callers p)" and ok: "waiters_ok p" and j: "j \<noteq> i"
  shows "pc_of (pool_step i now tok reply p) j = pc_of p j \<or>
    (\<exists>k. pc_of p j = Waiting \<and> pc_of (pool_step i now tok reply p) j = Trying k None tok \<and>
      (\<exists>t. pc_of p i = Releasing k t) \<and> cp_waiters p = j # cp_waiters (pool_step i now tok reply p))"
proof (cases "pc_of p i")
  case (Trying k r t)
  then show ?thesis using i j by (simp add: step_defs tryAcquireIdle_other split: option.splits)
next
  case (Releasing k t)
  show ?thesis
  proof (cases "cp_waiters p")
    case (Cons w ws)
    then have "w < length (cp_callers p)" "pc_of p w = Waiting" using ok by (auto simp: waiters_ok_def)
    then show ?thesis using Releasing Cons i j by (simp add: step_defs)
  qed (use Releasing i j in \<open>simp add: step_defs\<close>)
qed (use i j in \<open>simp_all add: step_defs tryAcquireIdle_other\<close>)

lemma step_self:
  assumes i: "i < length (cp_callers p)" and ok: "waiters_ok p"
  shows "case pc_of p i of
      Trying k r t \<Rightarrow> if reply then pc_of (pool_step i now tok reply p) i = Holding k t now
        else pc_of (pool_step i now tok reply p) i = Again \<or> pc_of (pool_step i now tok reply p) i = Missed \<or>
          (\<exists>k m. pc_of (pool_step i now tok reply p) i = Trying k (Some m) tok)
    | Holding k t s \<Rightarrow> pc_of (pool_step i now tok reply p) i = Releasing k (map_of (cp_holders p) k)
    | Releasing k t \<Rightarrow> pc_of (pool_step i now tok reply p) i = Returned
    | Exhausted \<Rightarrow> pc_of (pool_step i now tok reply p) i = Exhausted
    | Returned \<Rightarrow> pc_of (pool_step i now tok reply p) i = Returned
    | _ \<Rightarrow> pc_of (pool_step i now tok reply p) i \<in> {Again, Missed, Polling, Waiting, Exhausted} \<or>
         (\<exists>k m. pc_of (pool_step i now tok reply p) i = Trying k (Some m) tok)"
proof (cases "pc_of p i")
  case Again
  then show ?thesis using tryAcquireIdle_self [OF i, of tok "length (cp_idle p)"] by (auto simp: step_defs)
next
  case (Trying k r t)
  then show ?thesis using tryAcquireIdle_self [of i "claimShared False k t p" tok] i
    by (cases r) (simp_all add: step_defs)
next
  case (Releasing k t)
  show ?thesis
  proof (cases "cp_waiters p")
    case (Cons w ws)
    then have "w < length (cp_callers p)" "pc_of p w = Waiting" using ok by (auto simp: waiters_ok_def)
    then show ?thesis using Releasing Cons i by (auto simp: step_defs)
  qed (use Releasing i in \<open>simp add: step_defs\<close>)
qed (use i in \<open>simp_all add: step_defs\<close>)

lemma waiters_goto: "waiters_ok p \<Longrightarrow> i < length (cp_callers p) \<Longrightarrow> pc_of p i \<noteq> Waiting \<Longrightarrow> c \<noteq> Waiting \<Longrightarrow> waiters_ok (goto i c p)"
  by (auto simp: waiters_ok_def)

lemma waiters_join: "waiters_ok p \<Longrightarrow> i < length (cp_callers p) \<Longrightarrow> pc_of p i \<noteq> Waiting \<Longrightarrow>
    waiters_ok (goto i Waiting (p\<lparr>cp_waiters := cp_waiters p @ [i]\<rparr>))"
  by (auto simp: waiters_ok_def)

lemma waiters_leave: "waiters_ok p \<Longrightarrow> i < length (cp_callers p) \<Longrightarrow> c \<noteq> Waiting \<Longrightarrow>
    waiters_ok (goto i c (p\<lparr>cp_waiters := filter (\<lambda>w. w \<noteq> i) (cp_waiters p)\<rparr>))"
  by (auto simp: waiters_ok_def)

lemma waiters_ok_fields [simp]:
  "waiters_ok (p\<lparr>cp_idle := x\<rparr>) = waiters_ok p" "waiters_ok (p\<lparr>cp_holders := y\<rparr>) = waiters_ok p"
  "waiters_ok (claimShared ok k t p) = waiters_ok p"
  by (simp_all add: waiters_ok_def claimShared_def)

lemma waiters_tryAcquireIdle: "waiters_ok p \<Longrightarrow> i < length (cp_callers p) \<Longrightarrow> pc_of p i \<noteq> Waiting \<Longrightarrow>
    waiters_ok (tryAcquireIdle i tok n p)"
  by (cases n) (auto intro!: waiters_goto split: list.splits)

lemma waiters_step:
  assumes i: "i < length (cp_callers p)" and ok: "waiters_ok p"
  shows "waiters_ok (pool_step i now tok reply p)"
proof (cases "pc_of p i")
  case (Releasing k t)
  have r: "waiters_ok (goto i Returned p)" using i ok Releasing by (simp add: waiters_goto)
  show ?thesis
  proof (cases "cp_waiters p")
    case (Cons w ws)
    then have "w < length (cp_callers p)" "filter (\<lambda>v. v \<noteq> w) (cp_waiters p) = ws"
      using ok by (auto simp: waiters_ok_def intro!: filter_True)
    then show ?thesis using waiters_leave [OF r, of w "Trying k None tok"] Releasing Cons by (simp add: step_defs)
  qed (use Releasing r in \<open>simp add: step_defs\<close>)
next
  case Missed
  then show ?thesis using waiters_goto [OF ok i] waiters_join [OF ok i] by (simp add: step_defs)
next
  case Waiting
  then show ?thesis using waiters_leave [OF ok i] ok by (simp add: step_defs)
qed (use i ok in \<open>auto simp: step_defs waiters_goto waiters_tryAcquireIdle split: option.splits\<close>)

section \<open>Holders\<close>

lemma held_twice:
  assumes "\<forall>k. count (stock p) k \<le> 1" "i < length (cp_callers p)" "j < length (cp_callers p)"
    "k \<in> set (pc_keys (pc_of p i))" "k \<in> set (pc_keys (pc_of p j))"
  shows "i = j"
proof (rule ccontr)
  assume "i \<noteq> j"
  let ?p = "goto i Returned p"
  have keys: "pc_keys (pc_of p i) = [k]" "pc_keys (pc_of p j) = [k]"
    using assms(4,5) by (cases "pc_of p i"; cases "pc_of p j"; auto)+
  have "add_mset k (stock ?p) = stock p" using stock_goto [OF assms(2), of Returned] keys by simp
  moreover have "add_mset k (stock (goto j Returned ?p)) = stock ?p"
    using stock_goto [of j ?p Returned] assms(2,3) keys \<open>i \<noteq> j\<close> by simp
  ultimately have "count (stock p) k = Suc (Suc (count (stock (goto j Returned ?p)) k))" by (metis count_add_mset)
  then show False using spec [OF assms(1), of k] by simp
qed

lemma holders_step:
  assumes i: "i < length (cp_callers p)" and ok: "waiters_ok p" and hold: "holders_ok p" and one: "\<forall>k. count (stock p) k \<le> 1"
  shows "holders_ok (pool_step i now tok reply p)"
  unfolding holders_ok_def
proof (intro allI impI)
  let ?q = "pool_step i now tok reply p"
  fix j k t s assume j: "j < length (cp_callers ?q)" and h: "pc_of ?q j = Holding k t s"
  show "map_of (cp_holders ?q) k = Some t"
  proof (cases "j = i")
    case True
    then show ?thesis using step_self [OF i ok, of now tok reply] h hold i
      by (cases "pc_of p i") (auto simp: step_defs claimShared_def update_conv' split: if_splits)
  next
    case False
    then have old: "pc_of p j = Holding k t s" using step_other [OF i ok False, of now tok reply] h by auto
    then have m: "map_of (cp_holders p) k = Some t" using hold j by (simp add: holders_ok_def)
    have "k \<notin> set (pc_keys (pc_of p i))" using held_twice [OF one i, of j k] old j False by auto
    then show ?thesis using m
      by (cases "pc_of p i") (auto simp: step_defs claimShared_def update_conv' delete_conv' split: option.splits list.splits)
  qed
qed

definition pool_ok :: "id list \<Rightarrow> channel_pool \<Rightarrow> bool" where
  "pool_ok keys p \<longleftrightarrow> stock p = mset keys \<and> waiters_ok p \<and> holders_ok p"

lemma distinct_stock: "distinct keys \<Longrightarrow> pool_ok keys p \<Longrightarrow> \<forall>k. count (stock p) k \<le> 1"
  by (auto simp: pool_ok_def distinct_count_atmost_1)

lemma pool_ok_step: "distinct keys \<Longrightarrow> i < length (cp_callers p) \<Longrightarrow> pool_ok keys p \<Longrightarrow> pool_ok keys (pool_step i now tok reply p)"
  using distinct_stock [of keys p] stock_step [of i p] waiters_step [of i p] holders_step [of i p] by (simp add: pool_ok_def)

lemma pc_of_acquire: "pc_of (acquire opts now p) i = (if i < length (cp_callers p) then pc_of p i
    else cl_pc ([\<lparr>cl_pc = Again, cl_deadline = now + po_acquireTimeoutMs opts\<rparr>] ! (i - length (cp_callers p))))"
  by (simp add: pc_of_def acquire_def nth_append)

lemma length_acquire [simp]: "length (cp_callers (acquire opts now p)) = Suc (length (cp_callers p))"
  by (simp add: acquire_def)

lemma pool_ok_acquire: "pool_ok keys p \<Longrightarrow> pool_ok keys (acquire opts now p)"
proof -
  have "stock (acquire opts now p) = stock p" "cp_waiters (acquire opts now p) = cp_waiters p" "cp_holders (acquire opts now p) = cp_holders p"
    by (simp_all add: stock_def acquire_def)
  then show "pool_ok keys p \<Longrightarrow> pool_ok keys (acquire opts now p)"
    by (auto simp: pool_ok_def waiters_ok_def holders_ok_def pc_of_acquire less_Suc_eq)
qed

lemma pool_ok_new: "pool_ok keys (new_pool keys)"
  by (simp add: pool_ok_def new_pool_def stock_def waiters_ok_def holders_ok_def)

section \<open>Runs\<close>

definition caller_in :: "'s channel_world \<Rightarrow> nat \<Rightarrow> nat \<Rightarrow> bool" where
  "caller_in w q i \<longleftrightarrow> q < length (cw_pools w) \<and> i < length (cp_callers (cw_pools w ! q))"

definition pc_at :: "'s channel_world \<Rightarrow> nat \<Rightarrow> nat \<Rightarrow> pc" where
  "pc_at w q i = pc_of (cw_pools w ! q) i"

definition conserved :: "id list \<Rightarrow> 's channel_world \<Rightarrow> bool" where
  "conserved keys w \<longleftrightarrow> (\<forall>p\<in>set (cw_pools w). pool_ok keys p)"

lemma conserved_next:
  assumes "distinct keys" "conserved keys w"
  shows "conserved keys (pool_next L opts a w)"
proof (cases a)
  case (Acquire q)
  then show ?thesis using assms(2) pool_ok_acquire
    by (auto simp: conserved_def dest!: set_update_subset_insert [THEN subsetD])
next
  case (Step q i f)
  then show ?thesis using assms pool_ok_step [OF assms(1), of i "cw_pools w ! q"]
    by (auto simp: conserved_def Let_def split: prod.splits dest!: set_update_subset_insert [THEN subsetD])
qed (use assms in \<open>simp add: conserved_def\<close>)

lemma conserved_run: "distinct keys \<Longrightarrow> conserved keys w \<Longrightarrow> conserved keys (pool_run L opts acts w)"
  unfolding pool_run_def by (induction acts arbitrary: w) (auto intro: conserved_next)

lemma conserved_replicas: "conserved keys (replicas n keys now s)"
  by (auto simp: conserved_def replicas_def pool_ok_new)

lemma step_world:
  assumes "caller_in w q i" "store_call L (po_leaseTtlMs opts) f (cw_now w) (pc_at w q i) (cw_store w) = (ok, s)"
  shows "pool_next L opts (Step q i f) w = w\<lparr>cw_next := cw_next w + 1, cw_store := s,
      cw_pools := (cw_pools w)[q := pool_step i (cw_now w) (cw_next w) ok (cw_pools w ! q)]\<rparr>"
  using assms by (simp add: caller_in_def pc_at_def)

lemma caller_in_step:
  assumes "caller_in w q i"
  shows "caller_in (pool_next L opts (Step q i f) w) q' j \<longleftrightarrow> caller_in w q' j"
  using assms by (cases "store_call L (po_leaseTtlMs opts) f (cw_now w) (pc_of (cw_pools w ! q) i) (cw_store w)")
    (auto simp: caller_in_def nth_list_update)

section \<open>A lease has one holder\<close>

definition tokens_ok :: "'s channel_world \<Rightarrow> bool" where
  "tokens_ok w \<longleftrightarrow> (\<forall>q i t. caller_in w q i \<longrightarrow> pc_token (pc_at w q i) = Some t \<longrightarrow> t < cw_next w) \<and>
     (\<forall>q i q' i' t. caller_in w q i \<longrightarrow> caller_in w q' i' \<longrightarrow> pc_token (pc_at w q i) = Some t \<longrightarrow>
        pc_token (pc_at w q' i') = Some t \<longrightarrow> q = q' \<and> i = i')"

lemma token_kept:
  assumes "i < length (cp_callers p)" "waiters_ok p" "holders_ok p" "pc_token (pc_of (pool_step i now tok ok p) j) = Some t" "t \<noteq> tok"
  shows "pc_token (pc_of p j) = Some t"
proof (cases "j = i")
  case True
  then show ?thesis using step_self [OF assms(1,2), of now tok ok] assms
    by (cases "pc_of p i") (auto simp: holders_ok_def split: if_splits)
next
  case False
  then show ?thesis using step_other [OF assms(1,2) False, of now tok ok] assms(4,5) by auto
qed

lemma token_new:
  assumes "i < length (cp_callers p)" "waiters_ok p" "\<And>l. l < length (cp_callers p) \<Longrightarrow> pc_token (pc_of p l) \<noteq> Some tok"
    "j < length (cp_callers p)" "j' < length (cp_callers p)"
    "pc_token (pc_of (pool_step i now tok ok p) j) = Some tok" "pc_token (pc_of (pool_step i now tok ok p) j') = Some tok"
  shows "j = j'"
proof -
  let ?q = "pool_step i now tok ok p"
  have other: "pc_of ?q i = Returned \<and> cp_waiters p = l # cp_waiters ?q"
    if l: "l \<noteq> i" "l < length (cp_callers p)" "pc_token (pc_of ?q l) = Some tok" for l
  proof -
    obtain k t where "pc_of p i = Releasing k t" "cp_waiters p = l # cp_waiters ?q"
      using step_other [OF assms(1,2) l(1), of now tok ok] l(3) assms(3) [OF l(2)] by fastforce
    then show ?thesis using step_self [OF assms(1,2), of now tok ok] by simp
  qed
  show ?thesis
  proof (cases "j = i")
    case True
    then show ?thesis using other [of j'] assms(5-7) by (cases "j' = i") simp_all
  next
    case False
    then have "pc_of ?q i = Returned" "cp_waiters p = j # cp_waiters ?q" using other [of j] assms(4,6) by simp_all
    then show ?thesis using other [of j'] assms(5,7) by (cases "j' = i") simp_all
  qed
qed

lemma tokens_next:
  assumes "distinct keys" "conserved keys w" "tokens_ok w"
  shows "tokens_ok (pool_next L opts a w)"
proof (cases a)
  case (Elapse d)
  then have "caller_in (pool_next L opts a w) = caller_in w" "pc_at (pool_next L opts a w) = pc_at w"
    "cw_next (pool_next L opts a w) = cw_next w" by (simp_all add: caller_in_def pc_at_def fun_eq_iff)
  then show ?thesis using assms(3) by (simp only: tokens_ok_def)
next
  case (Acquire q)
  have "pc_token (pc_at (pool_next L opts a w) q' j) = Some t \<Longrightarrow> caller_in (pool_next L opts a w) q' j \<Longrightarrow>
      pc_token (pc_at w q' j) = Some t \<and> caller_in w q' j" for q' j t
    using Acquire by (auto simp: pc_at_def caller_in_def nth_list_update pc_of_acquire less_Suc_eq split: if_splits)
  moreover have "cw_next (pool_next L opts a w) = cw_next w" using Acquire by simp
  ultimately show ?thesis using assms(3) unfolding tokens_ok_def by metis
next
  case (Step q i f)
  show ?thesis
  proof (cases "caller_in w q i")
    case False
    then show ?thesis using Step assms(3) by (auto simp: caller_in_def)
  next
    case True
    obtain ok s where call: "store_call L (po_leaseTtlMs opts) f (cw_now w) (pc_at w q i) (cw_store w) = (ok, s)" by fastforce
    let ?w = "pool_next L opts a w" and ?p = "cw_pools w ! q"
    note w = step_world [OF True call, folded Step]
    have p: "i < length (cp_callers ?p)" "waiters_ok ?p" "holders_ok ?p"
      using True assms(2) by (auto simp: caller_in_def conserved_def pool_ok_def)
    have pc: "pc_at ?w q' j = (if q' = q then pc_of (pool_step i (cw_now w) (cw_next w) ok ?p) j else pc_at w q' j)" for q' j
      using True by (simp add: w pc_at_def caller_in_def)
    have callers: "caller_in ?w q' j \<longleftrightarrow> caller_in w q' j" for q' j using caller_in_step [OF True] Step by simp
    have fresh: "pc_token (pc_at w q' j) \<noteq> Some (cw_next w)" if "caller_in w q' j" for q' j
      using assms(3) that by (fastforce simp: tokens_ok_def)
    have kept: "pc_token (pc_at w q' j) = Some t" if "pc_token (pc_at ?w q' j) = Some t" "t \<noteq> cw_next w" for q' j t
      using token_kept [OF p, of "cw_now w" "cw_next w" ok j t] that unfolding pc by (cases "q' = q") (simp_all add: pc_at_def)
    have new: "q' = q" if "pc_token (pc_at ?w q' j) = Some (cw_next w)" "caller_in w q' j" for q' j
      using fresh [OF that(2)] that(1) unfolding pc by (cases "q' = q") simp_all
    have new': "j = j'" if "pc_token (pc_at ?w q j) = Some (cw_next w)" "pc_token (pc_at ?w q j') = Some (cw_next w)"
      "caller_in w q j" "caller_in w q j'" for j j'
      using token_new [OF p(1,2), of "cw_next w" j j' "cw_now w" ok] that fresh [of q] True unfolding pc
      by (simp add: caller_in_def pc_at_def)
    show ?thesis
      unfolding tokens_ok_def callers
    proof (intro conjI allI impI)
      fix q' j t assume "caller_in w q' j" "pc_token (pc_at ?w q' j) = Some t"
      then show "t < cw_next ?w" using kept [of q' j t] assms(3) by (cases "t = cw_next w") (fastforce simp: w tokens_ok_def)+
    next
      fix q1 i1 q2 i2 t
      assume h: "caller_in w q1 i1" "caller_in w q2 i2" "pc_token (pc_at ?w q1 i1) = Some t" "pc_token (pc_at ?w q2 i2) = Some t"
      have "q1 = q2 \<and> i1 = i2"
      proof (cases "t = cw_next w")
        case True
        then show ?thesis using h new new' by blast
      next
        case False
        then show ?thesis using h kept assms(3) unfolding tokens_ok_def by metis
      qed
      then show "q1 = q2" "i1 = i2" by simp_all
    qed
  qed
qed

lemma holding_after:
  assumes i: "caller_in w q i" and p: "waiters_ok (cw_pools w ! q)"
    and call: "store_call L (po_leaseTtlMs opts) f (cw_now w) (pc_at w q i) (cw_store w) = (ok, s)"
    and h: "pc_at (pool_next L opts (Step q i f) w) q' j = Holding k t since"
  shows "pc_at w q' j = Holding k t since \<and> (q', j) \<noteq> (q, i) \<or>
    q' = q \<and> j = i \<and> since = cw_now w \<and> ok \<and> (\<exists>r. pc_at w q i = Trying k r t)"
proof (cases "q' = q")
  case False
  then show ?thesis using h step_world [OF i call] by (simp add: pc_at_def)
next
  case True
  let ?p = "cw_pools w ! q"
  have len: "i < length (cp_callers ?p)" using i by (simp add: caller_in_def)
  have new: "pc_of (pool_step i (cw_now w) (cw_next w) ok ?p) j = Holding k t since"
    using h step_world [OF i call] True i by (simp add: pc_at_def caller_in_def)
  show ?thesis
  proof (cases "j = i")
    case True
    then show ?thesis using step_self [OF len p, of "cw_now w" "cw_next w" ok] new \<open>q' = q\<close>
      by (cases "pc_of ?p i") (auto simp: pc_at_def split: if_splits)
  next
    case False
    then show ?thesis using step_other [OF len p False, of "cw_now w" "cw_next w" ok] new True by (auto simp: pc_at_def)
  qed
qed

definition exclusive :: "millis \<Rightarrow> 's channel_world \<Rightarrow> bool" where
  "exclusive ttl w \<longleftrightarrow> (\<forall>q i q' i' k t s t' s'. caller_in w q i \<longrightarrow> caller_in w q' i' \<longrightarrow> pc_at w q i = Holding k t s \<longrightarrow>
     pc_at w q' i' = Holding k t' s' \<longrightarrow> (q, i) \<noteq> (q', i') \<longrightarrow> s \<le> s' \<longrightarrow> s + ttl \<le> s')"

context lease_store
begin

definition leases_ok :: "millis \<Rightarrow> 's channel_world \<Rightarrow> bool" where
  "leases_ok ttl w \<longleftrightarrow> (\<forall>q i k t s. caller_in w q i \<longrightarrow> pc_at w q i = Holding k t s \<longrightarrow>
     s \<le> cw_now w \<and> (cw_now w < s + ttl \<longrightarrow> lease (cw_store w) k = Some (t, s + ttl)))"

lemma call_keeps:
  assumes "store_call L ttl f now c s = (ok, s')" "lease s k = Some (t, e)" "now < e" "pc_token c \<noteq> Some t"
  shows "lease s' k = Some (t, e)"
proof (cases "(L, ttl, f, now, c, s)" rule: store_call.cases)
  case (1 L' ttl' f' now' k' r t' s0)
  have "held now (lease s k)" using assms(2,3) held_before by simp
  then have "lease (snd (lo_tryLease L now k' t' ttl s)) k = Some (t, e)" using try_lease [of now k' t' ttl s] assms(2) by auto
  then show ?thesis using 1 assms(1,2) by (auto split: fate.splits)
next
  case (2 L' ttl' f' now' k' t' s0)
  then have "lease (lo_release L now k' t' s) k = Some (t, e)" using release_at [of now k' t' s k] assms(2,4) by auto
  then show ?thesis using 2 assms(1,2) by (auto split: if_splits)
qed (use assms in auto)

lemma call_grants:
  assumes "store_call L ttl f now (Trying k r t) s = (True, s')"
  shows "lease s' k = Some (t, now + ttl)" "\<not> held now (lease s k)"
  using assms try_result [of now k t ttl s] try_lease [of now k t ttl s] by (auto split: fate.splits)

lemma leases_next:
  assumes keys: "distinct keys" "conserved keys w" and tok: "tokens_ok w" and ok: "leases_ok (po_leaseTtlMs opts) w"
    "exclusive (po_leaseTtlMs opts) w" and ttl: "0 < po_leaseTtlMs opts"
  shows "leases_ok (po_leaseTtlMs opts) (pool_next L opts a w) \<and> exclusive (po_leaseTtlMs opts) (pool_next L opts a w)"
proof (cases a)
  case (Elapse d)
  then have "caller_in (pool_next L opts a w) = caller_in w" "pc_at (pool_next L opts a w) = pc_at w"
    "cw_store (pool_next L opts a w) = cw_store w" "cw_now w \<le> cw_now (pool_next L opts a w)"
    by (simp_all add: caller_in_def pc_at_def fun_eq_iff)
  note same = this
  have "exclusive (po_leaseTtlMs opts) (pool_next L opts a w)" using ok(2) by (simp only: exclusive_def same)
  moreover have "leases_ok (po_leaseTtlMs opts) (pool_next L opts a w)"
    unfolding leases_ok_def same(1-3)
  proof (intro allI impI)
    fix q i k t s assume "caller_in w q i" "pc_at w q i = Holding k t s"
    then have "s \<le> cw_now w" "cw_now w < s + po_leaseTtlMs opts \<longrightarrow> lease (cw_store w) k = Some (t, s + po_leaseTtlMs opts)"
      using ok(1) by (simp_all add: leases_ok_def)
    then show "s \<le> cw_now (pool_next L opts a w) \<and>
        (cw_now (pool_next L opts a w) < s + po_leaseTtlMs opts \<longrightarrow> lease (cw_store w) k = Some (t, s + po_leaseTtlMs opts))"
      using same(4) by linarith
  qed
  ultimately show ?thesis by blast
next
  case (Acquire q)
  have "pc_at (pool_next L opts a w) q' j = Holding k t s \<Longrightarrow> caller_in (pool_next L opts a w) q' j \<Longrightarrow>
      pc_at w q' j = Holding k t s \<and> caller_in w q' j" for q' j k t s
    using Acquire by (auto simp: pc_at_def caller_in_def nth_list_update pc_of_acquire less_Suc_eq split: if_splits)
  moreover have "cw_now (pool_next L opts a w) = cw_now w" "cw_store (pool_next L opts a w) = cw_store w" using Acquire by simp_all
  ultimately show ?thesis using ok unfolding leases_ok_def exclusive_def by metis
next
  case (Step q i f)
  show ?thesis
  proof (cases "caller_in w q i")
    case False
    then show ?thesis using Step ok by (auto simp: caller_in_def)
  next
    case True
    obtain reply s where call: "store_call L (po_leaseTtlMs opts) f (cw_now w) (pc_at w q i) (cw_store w) = (reply, s)" by fastforce
    let ?w = "pool_next L opts a w" and ?ttl = "po_leaseTtlMs opts"
    have w: "cw_now ?w = cw_now w" "cw_store ?w = s" using step_world [OF True call] Step by simp_all
    have wait: "waiters_ok (cw_pools w ! q)" using True keys(2) by (auto simp: caller_in_def conserved_def pool_ok_def)
    have callers: "caller_in ?w q' j \<longleftrightarrow> caller_in w q' j" for q' j using caller_in_step [OF True] Step by simp
    note after = holding_after [OF True wait call, folded Step]
    have old: "lease s k = Some (t, since + ?ttl)"
      if "caller_in w q' j" "pc_at w q' j = Holding k t since" "(q', j) \<noteq> (q, i)" "cw_now w < since + ?ttl" for q' j k t since
      using call_keeps [OF call, of k t "since + ?ttl"] that ok(1) tok True unfolding leases_ok_def tokens_ok_def
      by (metis pc_token.simps(2))
    have grant: "lease s k = Some (t, cw_now w + ?ttl)" "\<not> held (cw_now w) (lease (cw_store w) k)"
      if "pc_at w q i = Trying k r t" reply for k r t
      using call_grants [of ?ttl f "cw_now w" k r t "cw_store w" s] call that by simp_all
    have before: "since + ?ttl \<le> cw_now w"
      if "caller_in w q' j" "pc_at w q' j = Holding k t since" "\<not> held (cw_now w) (lease (cw_store w) k)" for q' j k t since
      using ok(1) that held_before unfolding leases_ok_def by (metis not_le)
    show ?thesis
      unfolding leases_ok_def exclusive_def callers w
    proof (intro conjI allI impI)
      fix q' j k t since assume c: "caller_in w q' j" and h: "pc_at ?w q' j = Holding k t since"
      show "since \<le> cw_now w" using after [OF h] ok(1) c unfolding leases_ok_def by auto
      show "lease s k = Some (t, since + ?ttl)" if "cw_now w < since + ?ttl"
        using after [OF h] old [OF c] grant(1) that by auto
    next
      fix q1 i1 q2 i2 k t1 s1 t2 s2
      assume c: "caller_in w q1 i1" "caller_in w q2 i2" and h1: "pc_at ?w q1 i1 = Holding k t1 s1"
        and h2: "pc_at ?w q2 i2 = Holding k t2 s2" and ne: "(q1, i1) \<noteq> (q2, i2)" and le: "s1 \<le> s2"
      show "s1 + ?ttl \<le> s2"
        using after [OF h1]
      proof
        assume a1: "pc_at w q1 i1 = Holding k t1 s1 \<and> (q1, i1) \<noteq> (q, i)"
        show ?thesis using after [OF h2] a1 ok(2) c ne le before [OF c(1)] grant(2) unfolding exclusive_def by blast
      next
        assume a1: "q1 = q \<and> i1 = i \<and> s1 = cw_now w \<and> reply \<and> (\<exists>r. pc_at w q i = Trying k r t1)"
        then have "pc_at w q2 i2 = Holding k t2 s2" using after [OF h2] ne by auto
        then show ?thesis using before [OF c(2)] grant(2) a1 ttl le by fastforce
      qed
    qed
  qed
qed

lemma run_exclusive:
  assumes "distinct keys" "conserved keys w" "tokens_ok w" "leases_ok (po_leaseTtlMs opts) w"
    "exclusive (po_leaseTtlMs opts) w" "0 < po_leaseTtlMs opts"
  shows "exclusive (po_leaseTtlMs opts) (pool_run L opts acts w)"
  using assms unfolding pool_run_def
proof (induction acts arbitrary: w)
  case (Cons a acts)
  have "leases_ok (po_leaseTtlMs opts) (pool_next L opts a w)" "exclusive (po_leaseTtlMs opts) (pool_next L opts a w)"
    using leases_next [OF Cons.prems] by blast+
  then show ?case using Cons.IH [OF Cons.prems(1) conserved_next [OF Cons.prems(1,2)] tokens_next [OF Cons.prems(1,2,3)]] Cons.prems(6)
    by simp
qed simp

end

section \<open>Every call returns\<close>

fun acquiring :: "pc \<Rightarrow> bool" where
  "acquiring Again \<longleftrightarrow> True"
| "acquiring (Trying k r t) \<longleftrightarrow> True"
| "acquiring Missed \<longleftrightarrow> True"
| "acquiring Polling \<longleftrightarrow> True"
| "acquiring Waiting \<longleftrightarrow> True"
| "acquiring _ \<longleftrightarrow> False"

fun rank :: "nat \<Rightarrow> pc \<Rightarrow> nat" where
  \<comment> \<open>the steps a caller past its deadline still takes, at most, in a pool of \<open>n\<close> channels\<close>
  "rank n Waiting = n + 5"
| "rank n Polling = n + 4"
| "rank n (Trying k None t) = n + 4"
| "rank n Again = n + 3"
| "rank n (Trying k (Some m) t) = m + 2"
| "rank n Missed = 1"
| "rank n _ = 0"

lemma rank_0: "rank n c = 0 \<longleftrightarrow> \<not> acquiring c"
  by (cases "(n, c)" rule: rank.cases) auto

definition tries_ok :: "nat \<Rightarrow> channel_pool \<Rightarrow> bool" where
  "tries_ok n p \<longleftrightarrow> (\<forall>i<length (cp_callers p). rank n (pc_of p i) \<le> n + 5)"

lemma rank_tryAcquireIdle: "i < length (cp_callers p) \<Longrightarrow> rank n (pc_of (tryAcquireIdle i tok m p) i) \<le> m + 1"
  by (cases m) (auto split: list.splits)

lemma idle_le: "pool_ok keys p \<Longrightarrow> length (cp_idle p) \<le> length keys"
  unfolding pool_ok_def stock_def by (metis le_add1 size_mset size_union)

lemma claimShared_callers [simp]: "length (cp_callers (claimShared ok k t p)) = length (cp_callers p)"
  by (simp add: claimShared_def)

lemma deadline_goto [simp]: "cl_deadline (cp_callers (goto i c p) ! j) = cl_deadline (cp_callers p ! j)"
  by (cases "i < length (cp_callers p)") (simp_all add: goto_def nth_list_update list_update_beyond not_less)

lemma deadline_step [simp]: "cl_deadline (cp_callers (pool_step i now tok ok p) ! j) = cl_deadline (cp_callers p ! j)"
proof -
  have "cl_deadline (cp_callers (tryAcquireIdle i tok n p) ! j) = cl_deadline (cp_callers p ! j)" for n p
    by (cases n) (auto split: list.splits)
  then show ?thesis by (cases "pc_of p i") (auto simp: step_defs split: option.splits list.splits)
qed

lemma rank_self:
  assumes i: "i < length (cp_callers p)" and ok: "pool_ok keys p" and late: "cl_deadline (cp_callers p ! i) \<le> now"
  shows "rank (length keys) (pc_of (pool_step i now tok reply p) i) \<le> rank (length keys) (pc_of p i) - 1"
proof (cases "pc_of p i")
  case Again
  then show ?thesis using rank_tryAcquireIdle [OF i, of "length keys" tok "length (cp_idle p)"] idle_le [OF ok] by (simp add: step_defs)
next
  case (Trying k r t)
  then show ?thesis using rank_tryAcquireIdle [of i "claimShared False k t p" "length keys" tok] i
    by (cases r) (auto simp: step_defs)
next
  case (Releasing k t)
  then show ?thesis using step_self [of i p now tok reply] i ok by (simp add: pool_ok_def)
qed (use i late in \<open>simp_all add: step_defs\<close>)

lemma rank_other: "i < length (cp_callers p) \<Longrightarrow> pool_ok keys p \<Longrightarrow> j \<noteq> i \<Longrightarrow>
    rank n (pc_of (pool_step i now tok reply p) j) \<le> rank n (pc_of p j)"
  using step_other [of i p j now tok reply] by (auto simp: pool_ok_def)

definition due :: "'s channel_world \<Rightarrow> nat \<Rightarrow> nat \<Rightarrow> bool" where
  \<comment> \<open>the deadline of a caller has passed\<close>
  "due w q i \<longleftrightarrow> caller_in w q i \<and> cl_deadline (cp_callers (cw_pools w ! q) ! i) \<le> cw_now w"

fun own_step :: "nat \<Rightarrow> nat \<Rightarrow> pool_act \<Rightarrow> bool" where
  "own_step q i (Step q' j f) \<longleftrightarrow> q' = q \<and> j = i"
| "own_step q i _ \<longleftrightarrow> False"

lemma rank_next:
  assumes keys: "distinct keys" "conserved keys w" and due: "due w q i"
  shows "due (pool_next L opts a w) q i" "rank (length keys) (pc_at (pool_next L opts a w) q i) \<le>
     rank (length keys) (pc_at w q i) - (if own_step q i a then 1 else 0)"
proof -
  let ?w = "pool_next L opts a w"
  have "due ?w q i \<and> rank (length keys) (pc_at ?w q i) \<le> rank (length keys) (pc_at w q i) - (if own_step q i a then 1 else 0)"
  proof (cases a)
    case (Elapse d)
    then show ?thesis using due by (auto simp: due_def caller_in_def pc_at_def)
  next
    case (Acquire q')
    then show ?thesis using due by (auto simp: due_def caller_in_def pc_at_def nth_list_update pc_of_acquire)
        (auto simp: acquire_def nth_append)
  next
    case (Step q' j f)
    show ?thesis
    proof (cases "caller_in w q' j")
      case False
      then have "?w = w" "\<not> own_step q i a" using Step due by (auto simp: caller_in_def due_def)
      then show ?thesis using due by simp
    next
      case True
      obtain ok s where call: "store_call L (po_leaseTtlMs opts) f (cw_now w) (pc_at w q' j) (cw_store w) = (ok, s)" by fastforce
      note w = step_world [OF True call, folded Step]
      let ?p = "cw_pools w ! q'"
      have p: "j < length (cp_callers ?p)" "pool_ok keys ?p" using True keys(2) by (auto simp: caller_in_def conserved_def)
      have own: "own_step q i a \<longleftrightarrow> q' = q \<and> j = i" using Step by simp
      have "due ?w q i" using due True by (auto simp: w due_def caller_in_def nth_list_update)
      moreover have "rank (length keys) (pc_at ?w q i) \<le> rank (length keys) (pc_at w q i) - (if own_step q i a then 1 else 0)"
      proof (cases "q' = q")
        case False
        then show ?thesis by (simp add: w pc_at_def own)
      next
        case q: True
        then show ?thesis
          using rank_self [OF p, of "cw_now w" "cw_next w" ok] rank_other [OF p, of i "length keys" "cw_now w" "cw_next w" ok] due True q
          by (cases "j = i") (auto simp: w own pc_at_def due_def caller_in_def)
      qed
      ultimately show ?thesis by blast
    qed
  qed
  then show "due ?w q i" "rank (length keys) (pc_at ?w q i) \<le> rank (length keys) (pc_at w q i) - (if own_step q i a then 1 else 0)"
    by simp_all
qed

lemma rank_run: "distinct keys \<Longrightarrow> conserved keys w \<Longrightarrow> due w q i \<Longrightarrow>
    rank (length keys) (pc_at (pool_run L opts acts w) q i) \<le> rank (length keys) (pc_at w q i) - length (filter (own_step q i) acts)"
proof (induction acts arbitrary: w)
  case (Cons a acts)
  have "rank (length keys) (pc_at (pool_run L opts (a # acts) w) q i) \<le>
      rank (length keys) (pc_at (pool_next L opts a w) q i) - length (filter (own_step q i) acts)"
    using Cons.IH [OF Cons.prems(1) conserved_next [OF Cons.prems(1,2)] rank_next(1) [OF Cons.prems]] by (simp add: pool_run_def)
  then show ?case using rank_next(2) [OF Cons.prems, of L opts a] by (cases "own_step q i a") simp_all
qed (simp add: pool_run_def)

lemma tries_step:
  assumes i: "i < length (cp_callers p)" and ok: "pool_ok keys p" and n: "tries_ok (length keys) p"
  shows "tries_ok (length keys) (pool_step i now tok reply p)"
proof -
  let ?n = "length keys"
  have bound: "rank ?n (pc_of p j) \<le> ?n + 5" if "j < length (cp_callers p)" for j using n that by (simp add: tries_ok_def)
  have self: "rank ?n (pc_of (pool_step i now tok reply p) i) \<le> ?n + 5"
  proof (cases "pc_of p i")
    case Again
    then show ?thesis using rank_tryAcquireIdle [OF i, of ?n tok "length (cp_idle p)"] idle_le [OF ok] by (simp add: step_defs)
  next
    case (Trying k r t)
    then show ?thesis using rank_tryAcquireIdle [of i "claimShared False k t p" ?n tok "the r"] i bound [OF i]
      by (cases r) (auto simp: step_defs)
  next
    case (Releasing k t)
    then show ?thesis using step_self [of i p now tok reply] i ok by (simp add: pool_ok_def)
  qed (use i in \<open>simp_all add: step_defs\<close>)
  show ?thesis
    unfolding tries_ok_def
  proof (intro allI impI)
    fix j assume "j < length (cp_callers (pool_step i now tok reply p))"
    then show "rank ?n (pc_of (pool_step i now tok reply p) j) \<le> ?n + 5"
      using self bound [of j] rank_other [OF i ok, of j ?n now tok reply] by (cases "j = i") auto
  qed
qed

lemma tries_run:
  assumes "distinct keys" "conserved keys w" "\<forall>p\<in>set (cw_pools w). tries_ok (length keys) p"
  shows "\<forall>p\<in>set (cw_pools (pool_run L opts acts w)). tries_ok (length keys) p"
  using assms unfolding pool_run_def
proof (induction acts arbitrary: w)
  case (Cons a acts)
  have "\<forall>p\<in>set (cw_pools (pool_next L opts a w)). tries_ok (length keys) p"
  proof (cases a)
    case (Acquire q)
    have "tries_ok n (acquire opts now p)" if "tries_ok n p" for n now p
      using that by (auto simp: tries_ok_def pc_of_acquire less_Suc_eq)
    then show ?thesis using Acquire Cons.prems(3) by (auto dest!: set_update_subset_insert [THEN subsetD])
  next
    case (Step q i f)
    then show ?thesis using Cons.prems(2,3) tries_step [of i "cw_pools w ! q" keys]
      by (auto simp: Let_def conserved_def split: prod.splits dest!: set_update_subset_insert [THEN subsetD])
  qed (use Cons.prems in simp)
  then show ?case using Cons.IH [OF Cons.prems(1) conserved_next [OF Cons.prems(1,2)]] by simp
qed simp

section \<open>Statements\<close>

text \<open>
  C23. However the callers of a process interleave and whatever the lease store answers or throws, each of its
  channels is either idle or in the hands of exactly one caller: none is lost and none is leased twice.
\<close>
theorem channels_conserved:
  assumes "distinct keys" "p \<in> set (cw_pools (pool_run L opts acts (replicas n keys now s)))"
  shows "mset (cp_idle p) + mset (concat (map (\<lambda>c. pc_keys (cl_pc c)) (cp_callers p))) = mset keys"
  using conserved_run [OF assms(1) conserved_replicas, of L opts acts n now s] assms(2)
  unfolding conserved_def pool_ok_def stock_def by blast

definition demo_run :: "pool_act list" where
  "demo_run = [Acquire 0, Acquire 1, Step 0 0 Works, Step 1 0 Works, Step 0 0 Works, Step 1 0 Works, Step 1 0 Works, Acquire 0,
     Step 0 1 Works, Step 0 1 Lost, Step 0 1 Works]"

theorem channels_conserved_witness:
  "let p = cw_pools (pool_run mem_lease_store default_options demo_run (replicas 2 [''A'', ''B''] 0 empty_leases)) ! 0
   in mset (cp_idle p) + mset (concat (map (\<lambda>c. pc_keys (cl_pc c)) (cp_callers p))) = mset [''A'', ''B''] \<and>
     cp_idle p = [''B''] \<and> length (cp_callers p) = 2"
proof -
  let ?w = "pool_run mem_lease_store default_options demo_run (replicas 2 [''A'', ''B''] 0 empty_leases)"
  have "cw_pools ?w ! 0 \<in> set (cw_pools ?w)" "cp_idle (cw_pools ?w ! 0) = [''B''] \<and> length (cp_callers (cw_pools ?w ! 0)) = 2"
    by code_simp+
  then show ?thesis using channels_conserved [of "[''A'', ''B'']" "cw_pools ?w ! 0" mem_lease_store default_options demo_run 2 0 empty_leases]
    by (simp add: Let_def)
qed

text \<open>
  Two callers hold the same channel only if they belong to different processes and the lease of the first had
  run out when the second took it, however the processes interleave and whatever calls of the store throw.
\<close>
theorem lease_exclusive:
  assumes "lease_store L held lease seqs" "distinct keys" "0 < po_leaseTtlMs opts"
    and "w = pool_run L opts acts (replicas n keys now s)"
    and "caller_in w q i" "caller_in w q' i'" "(q, i) \<noteq> (q', i')"
    and "pc_at w q i = Holding k t since" "pc_at w q' i' = Holding k t' since'" "since \<le> since'"
  shows "q \<noteq> q' \<and> since + po_leaseTtlMs opts \<le> since'"
proof -
  let ?w0 = "replicas n keys now s"
  have none: "\<not> caller_in ?w0 q i" for q i by (auto simp: caller_in_def replicas_def new_pool_def)
  have start: "tokens_ok ?w0" "lease_store.leases_ok lease (po_leaseTtlMs opts) ?w0" "exclusive (po_leaseTtlMs opts) ?w0"
    by (simp_all add: tokens_ok_def lease_store.leases_ok_def [OF assms(1)] exclusive_def none)
  have "exclusive (po_leaseTtlMs opts) w"
    unfolding assms(4) using lease_store.run_exclusive [OF assms(1,2) conserved_replicas start assms(3)] .
  then have "since + po_leaseTtlMs opts \<le> since'" using assms(5-10) unfolding exclusive_def by blast
  moreover have "q \<noteq> q'"
  proof
    assume q: "q = q'"
    let ?p = "cw_pools w ! q"
    have "pool_ok keys ?p" using conserved_run [OF assms(2) conserved_replicas, of L opts acts n now s] assms(4,5)
      by (simp add: conserved_def caller_in_def)
    from held_twice [OF distinct_stock [OF assms(2) this], of i i' k] assms(5-9) q show False
      by (auto simp: caller_in_def pc_at_def)
  qed
  ultimately show ?thesis by blast
qed

definition slow_holder :: "pool_act list" where
  "slow_holder = [Acquire 0, Step 0 0 Works, Step 0 0 Works, Elapse 60000, Acquire 1, Step 1 0 Works, Step 1 0 Works]"

theorem lease_exclusive_witness:
  "let w = pool_run mem_lease_store default_options slow_holder (replicas 2 [''A''] 0 empty_leases)
   in pc_at w 0 0 = Holding ''A'' 0 0 \<and> pc_at w 1 0 = Holding ''A'' 2 60000 \<and>
     (0 :: nat) \<noteq> 1 \<and> 0 + po_leaseTtlMs default_options \<le> 60000"
proof -
  let ?w = "pool_run mem_lease_store default_options slow_holder (replicas 2 [''A''] 0 empty_leases)"
  have c: "caller_in ?w 0 0" "caller_in ?w 1 0" and h: "pc_at ?w 0 0 = Holding ''A'' 0 0" "pc_at ?w 1 0 = Holding ''A'' 2 60000"
    by code_simp+
  have "(0 :: nat) \<noteq> 1 \<and> 0 + po_leaseTtlMs default_options \<le> 60000"
    by (rule lease_exclusive [OF mem_lease.lease_store_axioms _ _ refl c _ h]) (simp_all add: default_options_def)
  with h show ?thesis unfolding Let_def by blast
qed

text \<open>
  A caller of \<^verbatim>\<open>acquire\<close> whose deadline has passed leaves it, with a channel or with an error, after at most
  five steps of its own more than there are channels, whatever the others and the store do.
\<close>
theorem acquire_returns:
  assumes "distinct keys" "w = pool_run L opts acts (replicas n keys now s)"
    and "caller_in w q i" "cl_deadline (cp_callers (cw_pools w ! q) ! i) \<le> cw_now w"
    and "length keys + 5 \<le> length (filter (own_step q i) later)"
  shows "\<not> acquiring (pc_at (pool_run L opts later w) q i)"
proof -
  have w: "conserved keys w" unfolding assms(2) by (rule conserved_run [OF assms(1) conserved_replicas])
  have "\<forall>p\<in>set (cw_pools w). tries_ok (length keys) p"
    unfolding assms(2) by (rule tries_run [OF assms(1) conserved_replicas]) (auto simp: replicas_def new_pool_def tries_ok_def)
  then have "rank (length keys) (pc_at w q i) \<le> length keys + 5" using assms(3) by (simp add: tries_ok_def caller_in_def pc_at_def)
  moreover have "due w q i" using assms(3,4) by (simp add: due_def)
  ultimately have "rank (length keys) (pc_at (pool_run L opts later w) q i) = 0"
    using rank_run [OF assms(1) w, of q i L opts later] assms(5) by linarith
  then show ?thesis by (simp add: rank_0)
qed

theorem acquire_returns_witness:
  "let w = pool_run mem_lease_store default_options [Acquire 0, Acquire 0, Step 0 0 Works, Step 0 0 Works, Step 0 1 Works, Elapse 15000]
       (replicas 1 [''A''] 0 empty_leases)
   in acquiring (pc_at w 0 1) \<and> \<not> acquiring (pc_at (pool_run mem_lease_store default_options (replicate 6 (Step 0 1 Lost)) w) 0 1)"
proof -
  let ?acts = "[Acquire 0, Acquire 0, Step 0 0 Works, Step 0 0 Works, Step 0 1 Works, Elapse 15000]"
  let ?w = "pool_run mem_lease_store default_options ?acts (replicas 1 [''A''] 0 empty_leases)"
  have a: "acquiring (pc_at ?w 0 1)" and c: "caller_in ?w 0 1" "cl_deadline (cp_callers (cw_pools ?w ! 0) ! 1) \<le> cw_now ?w"
    by code_simp+
  have "\<not> acquiring (pc_at (pool_run mem_lease_store default_options (replicate 6 (Step 0 1 Lost)) ?w) 0 1)"
    by (rule acquire_returns [OF _ refl c]) simp_all
  with a show ?thesis unfolding Let_def by blast
qed

text \<open>A caller that sleeps beside an idle channel.\<close>

definition asleep_run :: "pool_act list" where
  \<comment> \<open>caller 1 of process 0 arrives while caller 0 has taken the only channel out of the idle list to try it, and
    waits; caller 0 is refused, as process 1 holds the lease, and gives up; then process 1 releases the channel\<close>
  "asleep_run = [Acquire 1, Step 1 0 Works, Step 1 0 Works,
     Acquire 0, Step 0 0 Works, Step 0 0 Works, Step 0 0 Works, Elapse 14990, Step 0 0 Works, Step 0 0 Works, Elapse 5,
     Acquire 0, Step 0 1 Works, Step 0 1 Works, Elapse 10, Step 0 0 Works, Step 0 0 Works, Step 1 0 Works, Step 1 0 Works]"

definition asleep :: "mem_store channel_world" where
  "asleep = pool_run mem_lease_store default_options asleep_run (replicas 2 [''A''] 0 empty_leases)"

definition asleep_pools :: "channel_pool list" where
  "asleep_pools =
    [\<lparr>cp_idle = [''A''], cp_waiters = [1], cp_holders = [], cp_callers = [\<lparr>cl_pc = Exhausted, cl_deadline = 15000\<rparr>, \<lparr>cl_pc = Waiting, cl_deadline = 29995\<rparr>]\<rparr>,
     \<lparr>cp_idle = [''A''], cp_waiters = [], cp_holders = [], cp_callers = [\<lparr>cl_pc = Returned, cl_deadline = 15000\<rparr>]\<rparr>]"

lemma asleep_state: "cw_now asleep = 15005" "cw_store asleep = empty_leases" "cw_pools asleep = asleep_pools"
  by code_simp+

fun no_call :: "pool_act \<Rightarrow> bool" where
  "no_call (Acquire q) \<longleftrightarrow> False"
| "no_call _ \<longleftrightarrow> True"

fun elapsed :: "pool_act list \<Rightarrow> millis" where
  "elapsed [] = 0"
| "elapsed (Elapse d # acts) = max 0 d + elapsed acts"
| "elapsed (a # acts) = elapsed acts"

lemma elapsed_nonneg: "0 \<le> elapsed acts"
  by (induction acts rule: elapsed.induct) auto

lemma asleep_step:
  assumes "cw_pools w = asleep_pools" "cw_store w = empty_leases" "cw_now w < 29995"
  shows "cw_pools (pool_next mem_lease_store default_options (Step q i f) w) = asleep_pools \<and>
    cw_store (pool_next mem_lease_store default_options (Step q i f) w) = empty_leases \<and>
    cw_now (pool_next mem_lease_store default_options (Step q i f) w) = cw_now w"
proof -
  consider "q = 0" "i = 0" | "q = 0" "i = 1" | "q = 1" "i = 0" | "\<not> caller_in w q i"
    using assms(1) by (fastforce simp: caller_in_def asleep_pools_def less_Suc_eq)
  then show ?thesis
    using assms by cases (auto simp: caller_in_def asleep_pools_def pc_of_def pool_step_def waiter_timeout_def)
qed

lemma asleep_run_on: "cw_pools w = asleep_pools \<Longrightarrow> cw_store w = empty_leases \<Longrightarrow> list_all no_call acts \<Longrightarrow> cw_now w + elapsed acts < 29995 \<Longrightarrow>
    cw_pools (pool_run mem_lease_store default_options acts w) = asleep_pools \<and>
    cw_store (pool_run mem_lease_store default_options acts w) = empty_leases"
proof (induction acts arbitrary: w)
  case (Cons a acts)
  show ?case
  proof (cases a)
    case (Elapse d)
    then show ?thesis using Cons.prems Cons.IH [of "w\<lparr>cw_now := cw_now w + max 0 d\<rparr>"] by (simp add: pool_run_def)
  next
    case (Step q i f)
    have "cw_now w < 29995" using Cons.prems(4) elapsed_nonneg [of "a # acts"] by linarith
    note s = asleep_step [OF Cons.prems(1,2) this, of q i f]
    show ?thesis using Cons.IH [of "pool_next mem_lease_store default_options (Step q i f) w"] s Cons.prems(3,4) Step
      by (simp only: pool_run_def) simp
  qed (use Cons.prems in simp)
qed (simp add: pool_run_def)

text \<open>
  A caller can sleep beside a channel that is idle and free in the store: nobody wakes it before its own timeout,
  in this state after almost fifteen seconds, unless another call comes.
\<close>
theorem waiter_sleeps_beside_idle_channel:
  assumes "list_all no_call later" "elapsed later < 14990"
  shows "let w = pool_run mem_lease_store default_options later asleep
    in pc_at w 0 1 = Waiting \<and> cp_idle (cw_pools w ! 0) = [''A''] \<and> ms_leases (cw_store w) = []"
proof -
  have "cw_pools (pool_run mem_lease_store default_options later asleep) = asleep_pools \<and>
      cw_store (pool_run mem_lease_store default_options later asleep) = empty_leases"
    by (rule asleep_run_on) (use assms in \<open>simp_all add: asleep_state\<close>)
  then show ?thesis by (simp add: Let_def pc_at_def pc_of_def asleep_pools_def empty_leases_def)
qed

theorem waiter_sleeps_beside_idle_channel_witness:
  "let w = pool_run mem_lease_store default_options [Elapse 14000, Step 0 1 Works, Step 0 0 Works, Step 1 0 Works] asleep
    in pc_at w 0 1 = Waiting \<and> cp_idle (cw_pools w ! 0) = [''A''] \<and> ms_leases (cw_store w) = []"
  by (rule waiter_sleeps_beside_idle_channel) simp_all

end
