(* ===== verification/Channel_Accounts.thy ===== *)
theory Channel_Accounts
  imports Prelude
begin

text \<open>
  The pool of channel accounts that the high-throughput service keeps in PostgreSQL: the table and its
  statements (\<^verbatim>\<open>src/models/channelAccount.ts\<close>) and the pool that takes accounts, queues callers and recovers
  stale locks (\<^verbatim>\<open>src/stellar/pool.ts\<close>). A statement is atomic; callers interleave between statements.
  Encryption of the secret keys is left out.
\<close>

section \<open>The table\<close>

datatype ChannelAccountStatus = ChIdle | ChBusy | ChDisabled | ChFunding

record channel_row =
  ca_id :: id
  ca_publicKey :: string
  ca_status :: ChannelAccountStatus
  ca_sequence :: int
  ca_errorCount :: int
  ca_lockedAt :: "millis option"
  ca_disabledAt :: "millis option"
  ca_lastUsedAt :: "millis option"
  ca_fundedAt :: "millis option"
  ca_balance :: string
  ca_createdAt :: millis
  ca_updatedAt :: millis

type_synonym channel_table = "channel_row list"

definition channel_update :: "millis \<Rightarrow> (channel_row \<Rightarrow> bool) \<Rightarrow> (channel_row \<Rightarrow> channel_row) \<Rightarrow> channel_table \<Rightarrow> channel_table" where
  \<comment> \<open>an UPDATE with the trigger that sets \<^verbatim>\<open>updated_at\<close>\<close>
  "channel_update now p f t = sql_update p (\<lambda>r. (f r)\<lparr>ca_updatedAt := now\<rparr>) t"

definition channel_create ::
  "millis \<Rightarrow> id \<Rightarrow> string \<Rightarrow> string \<Rightarrow> int \<Rightarrow> ChannelAccountStatus \<Rightarrow> channel_table \<Rightarrow> channel_table option" where
  \<comment> \<open>\<open>None\<close> if the public key is taken\<close>
  "channel_create now fresh publicKey balance sequence status t =
     (if publicKey \<in> ca_publicKey ` set t then None
      else Some (t @ [\<lparr>ca_id = fresh, ca_publicKey = publicKey, ca_status = status, ca_sequence = sequence, ca_errorCount = 0,
        ca_lockedAt = None, ca_disabledAt = None, ca_lastUsedAt = None, ca_fundedAt = None, ca_balance = balance,
        ca_createdAt = now, ca_updatedAt = now\<rparr>]))"

definition used_key :: "channel_row \<Rightarrow> int \<times> millis \<times> int" where
  \<comment> \<open>\<^verbatim>\<open>ORDER BY last_used_at ASC NULLS FIRST, error_count ASC\<close>\<close>
  "used_key r = (case ca_lastUsedAt r of None \<Rightarrow> (0, 0, ca_errorCount r) | Some u \<Rightarrow> (1, u, ca_errorCount r))"

fun key_le :: "int \<times> millis \<times> int \<Rightarrow> int \<times> millis \<times> int \<Rightarrow> bool" where
  "key_le (a, b, c) (a', b', c') \<longleftrightarrow> a < a' \<or> a = a' \<and> (b < b' \<or> b = b' \<and> c \<le> c')"

fun first_row :: "channel_row list \<Rightarrow> channel_row option" where
  "first_row [] = None"
| "first_row (r # rs) = (case first_row rs of None \<Rightarrow> Some r
     | Some r' \<Rightarrow> if key_le (used_key r) (used_key r') then Some r else Some r')"

definition acquireIdle :: "millis \<Rightarrow> (id \<Rightarrow> bool) \<Rightarrow> channel_table \<Rightarrow> channel_row option \<times> channel_table" where
  \<comment> \<open>\<open>skip\<close> are the rows that concurrent statements have locked\<close>
  "acquireIdle now skip t =
     (case first_row (filter (\<lambda>r. ca_status r = ChIdle \<and> \<not> skip (ca_id r)) t) of
        None \<Rightarrow> (None, t)
      | Some r \<Rightarrow>
          let t' = channel_update now (\<lambda>x. ca_id x = ca_id r)
            (\<lambda>x. x\<lparr>ca_status := ChBusy, ca_lockedAt := Some now, ca_lastUsedAt := Some now\<rparr>) t
          in (find (\<lambda>x. ca_id x = ca_id r) t', t'))"

definition channel_release :: "millis \<Rightarrow> id \<Rightarrow> bool \<Rightarrow> int option \<Rightarrow> int \<Rightarrow> channel_table \<Rightarrow> channel_table" where
  "channel_release now i success newSequence maxErrors t = channel_update now (\<lambda>r. ca_id r = i)
     (\<lambda>r. if success
        then r\<lparr>ca_status := ChIdle, ca_lockedAt := None, ca_errorCount := 0,
               ca_sequence := (case newSequence of Some n \<Rightarrow> n | None \<Rightarrow> ca_sequence r)\<rparr>
        else r\<lparr>ca_status := (if maxErrors \<le> ca_errorCount r + 1 then ChDisabled else ChIdle), ca_lockedAt := None,
               ca_disabledAt := (if maxErrors \<le> ca_errorCount r + 1 then Some now else ca_disabledAt r),
               ca_errorCount := ca_errorCount r + 1\<rparr>) t"

definition earlier :: "millis option \<Rightarrow> millis \<Rightarrow> bool" where
  \<comment> \<open>a comparison with NULL is not true\<close>
  "earlier x limit \<longleftrightarrow> (case x of Some a \<Rightarrow> a < limit | None \<Rightarrow> False)"

definition stale :: "millis \<Rightarrow> millis \<Rightarrow> channel_row \<Rightarrow> bool" where
  "stale now timeoutMs r \<longleftrightarrow> ca_status r = ChBusy \<and> earlier (ca_lockedAt r) (now - timeoutMs)"

definition recoverStale :: "millis \<Rightarrow> millis \<Rightarrow> channel_table \<Rightarrow> nat \<times> channel_table" where
  "recoverStale now timeoutMs t = (length (filter (stale now timeoutMs) t),
     channel_update now (stale now timeoutMs)
       (\<lambda>r. r\<lparr>ca_status := ChIdle, ca_lockedAt := None, ca_errorCount := ca_errorCount r + 1\<rparr>) t)"

definition recovered :: "millis \<Rightarrow> millis \<Rightarrow> channel_row \<Rightarrow> bool" where
  "recovered now recoveryMs r \<longleftrightarrow> ca_status r = ChDisabled \<and> earlier (ca_disabledAt r) (now - recoveryMs)"

definition recoverDisabled :: "millis \<Rightarrow> millis \<Rightarrow> channel_table \<Rightarrow> nat \<times> channel_table" where
  "recoverDisabled now recoveryMs t = (length (filter (recovered now recoveryMs) t),
     channel_update now (recovered now recoveryMs) (\<lambda>r. r\<lparr>ca_status := ChIdle, ca_disabledAt := None, ca_errorCount := 0\<rparr>) t)"

definition channel_findById :: "id \<Rightarrow> channel_table \<Rightarrow> channel_row option" where
  "channel_findById i t = find (\<lambda>r. ca_id r = i) t"

definition findByPublicKey :: "string \<Rightarrow> channel_table \<Rightarrow> channel_row option" where
  "findByPublicKey k t = find (\<lambda>r. ca_publicKey r = k) t"

definition countByStatus :: "ChannelAccountStatus \<Rightarrow> channel_table \<Rightarrow> nat" where
  "countByStatus st t = length (filter (\<lambda>r. ca_status r = st) t)"

definition countAll :: "channel_table \<Rightarrow> nat" where
  "countAll t = length t"

definition updateSequence :: "millis \<Rightarrow> id \<Rightarrow> int \<Rightarrow> channel_table \<Rightarrow> channel_table" where
  "updateSequence now i n = channel_update now (\<lambda>r. ca_id r = i) (\<lambda>r. r\<lparr>ca_sequence := n\<rparr>)"

definition channel_updateBalance :: "millis \<Rightarrow> id \<Rightarrow> string \<Rightarrow> channel_table \<Rightarrow> channel_table" where
  "channel_updateBalance now i b = channel_update now (\<lambda>r. ca_id r = i) (\<lambda>r. r\<lparr>ca_balance := b, ca_fundedAt := Some now\<rparr>)"

definition channel_disable :: "millis \<Rightarrow> id \<Rightarrow> channel_table \<Rightarrow> channel_table" where
  "channel_disable now i = channel_update now (\<lambda>r. ca_id r = i)
     (\<lambda>r. r\<lparr>ca_status := ChDisabled, ca_disabledAt := Some now, ca_lockedAt := None\<rparr>)"

definition channel_enable :: "millis \<Rightarrow> id \<Rightarrow> channel_table \<Rightarrow> channel_table" where
  "channel_enable now i = channel_update now (\<lambda>r. ca_id r = i)
     (\<lambda>r. r\<lparr>ca_status := ChIdle, ca_disabledAt := None, ca_errorCount := 0\<rparr>)"

definition channel_delete :: "id \<Rightarrow> channel_table \<Rightarrow> bool \<times> channel_table" where
  "channel_delete i t = (i \<in> ca_id ` set t, filter (\<lambda>r. ca_id r \<noteq> i) t)"

section \<open>The pool\<close>

record PoolConfig =
  pc_lockTimeoutMs :: millis
  pc_maxConsecutiveErrors :: int
  pc_disableRecoveryMs :: millis
  pc_maxQueueSize :: nat
  pc_queueTimeoutMs :: millis

definition default_pool_config :: PoolConfig where
  "default_pool_config = \<lparr>pc_lockTimeoutMs = 30000, pc_maxConsecutiveErrors = 5, pc_disableRecoveryMs = 60000,
     pc_maxQueueSize = 100, pc_queueTimeoutMs = 10000\<rparr>"

record account_lease =
  al_caller :: nat
  al_row :: id
  al_since :: millis

record accounts_world =
  aw_now :: millis
  aw_next :: nat \<comment> \<open>the next caller\<close>
  aw_table :: channel_table
  aw_leases :: "account_lease list" \<comment> \<open>accounts given to callers that have not called \<^verbatim>\<open>release\<close>\<close>
  aw_queue :: "(nat \<times> millis) list" \<comment> \<open>\<^verbatim>\<open>acquireQueue\<close>, with the timestamps\<close>
  aw_inflight :: "account_lease list" \<comment> \<open>accounts taken by \<^verbatim>\<open>processQueue\<close> and not yet handed on; the caller is void\<close>
  aw_refused :: "nat list" \<comment> \<open>callers that got an error\<close>

datatype accounts_act =
    Sleep millis
  | AcquireAccount "id \<Rightarrow> bool"
  | ReleaseAccount nat bool "int option"
  | ProcessQueue "id \<Rightarrow> bool"
  | HandOn
  | QueueTimeout nat
  | Maintain
  | ForceRelease string
  | EnableAccount string
  | Shutdown

definition take_row :: "id \<Rightarrow> nat \<Rightarrow> accounts_world \<Rightarrow> account_lease" where
  "take_row i c w = \<lparr>al_caller = c, al_row = i, al_since = aw_now w\<rparr>"

definition acquire_account :: "PoolConfig \<Rightarrow> (id \<Rightarrow> bool) \<Rightarrow> accounts_world \<Rightarrow> accounts_world" where
  "acquire_account cfg skip w =
     (let c = aw_next w; w = w\<lparr>aw_next := c + 1\<rparr>
      in case acquireIdle (aw_now w) skip (aw_table w) of
        (Some r, t) \<Rightarrow> w\<lparr>aw_table := t, aw_leases := aw_leases w @ [take_row (ca_id r) c w]\<rparr>
      | (None, t) \<Rightarrow>
          if pc_maxQueueSize cfg \<le> length (aw_queue w) then w\<lparr>aw_refused := aw_refused w @ [c]\<rparr>
          else w\<lparr>aw_queue := aw_queue w @ [(c, aw_now w)]\<rparr>)"

definition release_account :: "PoolConfig \<Rightarrow> nat \<Rightarrow> bool \<Rightarrow> int option \<Rightarrow> accounts_world \<Rightarrow> accounts_world" where
  \<comment> \<open>the closure knows the id of the row, whoever has locked it by now\<close>
  "release_account cfg c success newSequence w = (case find (\<lambda>l. al_caller l = c) (aw_leases w) of
     None \<Rightarrow> w
   | Some l \<Rightarrow> w\<lparr>aw_table := channel_release (aw_now w) (al_row l) success newSequence (pc_maxConsecutiveErrors cfg) (aw_table w),
       aw_leases := filter (\<lambda>x. al_caller x \<noteq> c) (aw_leases w)\<rparr>)"

definition process_queue :: "(id \<Rightarrow> bool) \<Rightarrow> accounts_world \<Rightarrow> accounts_world" where
  "process_queue skip w =
     (if aw_queue w = [] then w
      else case acquireIdle (aw_now w) skip (aw_table w) of
        (None, t) \<Rightarrow> w
      | (Some r, t) \<Rightarrow> w\<lparr>aw_table := t, aw_inflight := aw_inflight w @ [take_row (ca_id r) 0 w]\<rparr>)"

definition hand_on :: "PoolConfig \<Rightarrow> accounts_world \<Rightarrow> accounts_world" where
  "hand_on cfg w = (case aw_inflight w of
     [] \<Rightarrow> w
   | l # ls \<Rightarrow> (case aw_queue w of
       (c, _) # q \<Rightarrow> w\<lparr>aw_inflight := ls, aw_queue := q, aw_leases := aw_leases w @ [l\<lparr>al_caller := c\<rparr>]\<rparr>
     | [] \<Rightarrow> w\<lparr>aw_inflight := ls, aw_table := channel_release (aw_now w) (al_row l) True None 5 (aw_table w)\<rparr>))"

definition queue_timeout :: "nat \<Rightarrow> accounts_world \<Rightarrow> accounts_world" where
  "queue_timeout c w =
     (if c \<in> fst ` set (aw_queue w)
      then w\<lparr>aw_queue := filter (\<lambda>x. fst x \<noteq> c) (aw_queue w), aw_refused := aw_refused w @ [c]\<rparr> else w)"

definition expired_entry :: "PoolConfig \<Rightarrow> millis \<Rightarrow> nat \<times> millis \<Rightarrow> bool" where
  "expired_entry cfg now x \<longleftrightarrow> pc_queueTimeoutMs cfg < now - snd x"

definition performMaintenance :: "PoolConfig \<Rightarrow> accounts_world \<Rightarrow> accounts_world" where
  \<comment> \<open>the call of \<^verbatim>\<open>processQueue\<close> at the end is a step of its own\<close>
  "performMaintenance cfg w =
     (let t = snd (recoverStale (aw_now w) (pc_lockTimeoutMs cfg) (aw_table w));
          t = snd (recoverDisabled (aw_now w) (pc_disableRecoveryMs cfg) t)
      in w\<lparr>aw_table := t, aw_queue := dropWhile (expired_entry cfg (aw_now w)) (aw_queue w),
           aw_refused := aw_refused w @ map fst (takeWhile (expired_entry cfg (aw_now w)) (aw_queue w))\<rparr>)"

definition forceRelease :: "string \<Rightarrow> accounts_world \<Rightarrow> accounts_world" where
  "forceRelease k w = (case findByPublicKey k (aw_table w) of None \<Rightarrow> w
   | Some r \<Rightarrow> w\<lparr>aw_table := channel_release (aw_now w) (ca_id r) False None 5 (aw_table w)\<rparr>)"

definition enableAccount :: "string \<Rightarrow> accounts_world \<Rightarrow> accounts_world" where
  "enableAccount k w = (case findByPublicKey k (aw_table w) of None \<Rightarrow> w
   | Some r \<Rightarrow> w\<lparr>aw_table := channel_enable (aw_now w) (ca_id r) (aw_table w)\<rparr>)"

definition pool_shutdown :: "accounts_world \<Rightarrow> accounts_world" where
  "pool_shutdown w = w\<lparr>aw_refused := aw_refused w @ map fst (aw_queue w), aw_queue := []\<rparr>"

fun accounts_step :: "PoolConfig \<Rightarrow> accounts_act \<Rightarrow> accounts_world \<Rightarrow> accounts_world" where
  "accounts_step cfg (Sleep d) w = w\<lparr>aw_now := aw_now w + max 0 d\<rparr>"
| "accounts_step cfg (AcquireAccount skip) w = acquire_account cfg skip w"
| "accounts_step cfg (ReleaseAccount c success n) w = release_account cfg c success n w"
| "accounts_step cfg (ProcessQueue skip) w = process_queue skip w"
| "accounts_step cfg HandOn w = hand_on cfg w"
| "accounts_step cfg (QueueTimeout c) w = queue_timeout c w"
| "accounts_step cfg Maintain w = performMaintenance cfg w"
| "accounts_step cfg (ForceRelease k) w = forceRelease k w"
| "accounts_step cfg (EnableAccount k) w = enableAccount k w"
| "accounts_step cfg Shutdown w = pool_shutdown w"

definition accounts_run :: "PoolConfig \<Rightarrow> accounts_act list \<Rightarrow> accounts_world \<Rightarrow> accounts_world" where
  "accounts_run cfg acts w = fold (accounts_step cfg) acts w"

definition fresh_pool :: "millis \<Rightarrow> channel_table \<Rightarrow> accounts_world" where
  "fresh_pool now t = \<lparr>aw_now = now, aw_next = 0, aw_table = t, aw_leases = [], aw_queue = [], aw_inflight = [], aw_refused = []\<rparr>"

record AccountStats =
  st_totalAccounts :: nat
  st_availableAccounts :: nat
  st_lockedAccounts :: nat
  st_disabledAccounts :: nat
  st_queueLength :: nat

definition getStatsFromDb :: "accounts_world \<Rightarrow> AccountStats" where
  "getStatsFromDb w = (let t = aw_table w in
     \<lparr>st_totalAccounts = countAll t, st_availableAccounts = countByStatus ChIdle t, st_lockedAccounts = countByStatus ChBusy t,
      st_disabledAccounts = countByStatus ChDisabled t, st_queueLength = length (aw_queue w)\<rparr>)"

section \<open>Initialisation\<close>

datatype init_error = AlreadyInitialized | PublicKeyMismatch string | SeedFailed string | NoChannelAccounts

fun seed_accounts ::
  "(string \<Rightarrow> string) \<Rightarrow> (string \<Rightarrow> int option) \<Rightarrow> millis \<Rightarrow> (string \<times> string \<times> id) list \<Rightarrow> channel_table \<Rightarrow> (init_error + unit) \<times> channel_table" where
  \<comment> \<open>public key, secret key and the id the database draws; rows seeded before an error stay\<close>
  "seed_accounts fromSecret load now [] t = (Inr (), t)"
| "seed_accounts fromSecret load now ((publicKey, secretKey, fresh) # rest) t =
     (if fromSecret secretKey \<noteq> publicKey then (Inl (PublicKeyMismatch publicKey), t)
      else case load publicKey of
        None \<Rightarrow> (Inl (SeedFailed publicKey), t)
      | Some n \<Rightarrow> (case channel_create now fresh publicKey ''0'' n ChIdle t of
          None \<Rightarrow> (Inl (SeedFailed publicKey), t)
        | Some t' \<Rightarrow> seed_accounts fromSecret load now rest t'))"

definition initialize ::
  "PoolConfig \<Rightarrow> (string \<Rightarrow> string) \<Rightarrow> (string \<Rightarrow> int option) \<Rightarrow> millis \<Rightarrow> bool \<Rightarrow> (string \<times> string \<times> id) list \<Rightarrow> channel_table \<Rightarrow>
     (init_error + nat) \<times> channel_table" where
  \<comment> \<open>the number of stale accounts that were recovered\<close>
  "initialize cfg fromSecret load now isInitialized accountConfigs t =
     (if isInitialized then (Inl AlreadyInitialized, t)
      else let (seeded, t) = (if accountConfigs \<noteq> [] \<and> countAll t = 0 then seed_accounts fromSecret load now accountConfigs t else (Inr (), t))
           in case seeded of
                Inl e \<Rightarrow> (Inl e, t)
              | Inr _ \<Rightarrow> if countAll t = 0 then (Inl NoChannelAccounts, t)
                  else let (n, t) = recoverStale now (pc_lockTimeoutMs cfg) t in (Inr n, t))"

fun resync_all :: "(string \<Rightarrow> int option) \<Rightarrow> millis \<Rightarrow> channel_row list \<Rightarrow> channel_table \<Rightarrow> channel_table" where
  \<comment> \<open>\<^verbatim>\<open>resyncAllSequences\<close>: accounts that cannot be loaded are left alone\<close>
  "resync_all load now [] t = t"
| "resync_all load now (r # rs) t = resync_all load now rs
     (case load (ca_publicKey r) of Some n \<Rightarrow> updateSequence now (ca_id r) n t | None \<Rightarrow> t)"

end
