(* ===== verification/Channel_Submit.thy ===== *)
theory Channel_Submit
  imports Channel_Lease Channel_Accounts Decimal "HOL-Library.Sublist"
begin

text \<open>
  How transactions go out through a channel account: \<^verbatim>\<open>withChannel\<close> and \<^verbatim>\<open>replenish\<close> of
  \<^verbatim>\<open>src/services/channelPool.ts\<close>, and \<^verbatim>\<open>submitTransaction\<close>, \<^verbatim>\<open>withAccount\<close> and \<^verbatim>\<open>submitWithChannel\<close> of
  \<^verbatim>\<open>src/stellar/pool.ts\<close>. The network is a parameter; the locale \<open>ledger\<close> states its documented laws: it
  takes a transaction only with the successor of the sequence number of its source, and one that is
  refused for a wrong sequence number has no effect. One call is modelled at a time.
\<close>

section \<open>The network\<close>

record submit_error =
  se_code :: "string option" \<comment> \<open>\<^verbatim>\<open>response.data.extras.result_codes.transaction\<close>\<close>
  se_message :: string

definition isSequenceMismatchError :: "submit_error \<Rightarrow> bool" where
  "isSequenceMismatchError e \<longleftrightarrow> se_code e = Some ''tx_bad_seq'' \<or> sublist ''tx_bad_seq'' (se_message e)"

definition isRetryableError :: "submit_error \<Rightarrow> bool" where
  "isRetryableError e = list_ex (\<lambda>p. sublist p (map to_lower (se_message e)))
     [''timeout'', ''network'', ''econnreset'', ''tx_insufficient_fee'', ''tx_too_late'']"

record 'l ledger_ops =
  lg_sequence :: "id \<Rightarrow> 'l \<Rightarrow> int" \<comment> \<open>\<^verbatim>\<open>loadAccount(...).sequenceNumber()\<close>\<close>
  lg_submit :: "id \<Rightarrow> int \<Rightarrow> 'l \<Rightarrow> (submit_error + unit) \<times> 'l"
    \<comment> \<open>the callback signs a payment with the given sequence number and submits it once; the one that
      \<^verbatim>\<open>stellarService\<close> passes tries again by itself, with a fresh sequence number, after a sequence error\<close>

locale ledger =
  fixes G :: "'l ledger_ops" and paid :: "'l \<Rightarrow> nat"
  assumes accepted: "lg_submit G k n l = (Inr u, l') \<Longrightarrow>
      n = lg_sequence G k l + 1 \<and> paid l' = paid l + 1 \<and> lg_sequence G j l' = (if j = k then n else lg_sequence G j l)"
    and bad_sequence: "lg_submit G k n l = (Inl e, l') \<Longrightarrow> isSequenceMismatchError e \<Longrightarrow>
      n \<noteq> lg_sequence G k l + 1 \<and> paid l' = paid l \<and> lg_sequence G j l' = lg_sequence G j l"
    and failed: "lg_submit G k n l = (Inl e, l') \<Longrightarrow> \<not> isSequenceMismatchError e \<Longrightarrow>
      paid l' \<le> paid l + 1 \<and> (j \<noteq> k \<longrightarrow> lg_sequence G j l' = lg_sequence G j l)"
begin

lemma submit_pays: "lg_submit G k n l = (res, l') \<Longrightarrow> paid l' \<le> paid l + 1"
  using accepted [of k n l _ l'] bad_sequence [of k n l _ l'] failed [of k n l _ l'] by (cases res) fastforce+

end

text \<open>A ledger in memory; a script says what becomes of the transactions with the right number.\<close>

datatype verdict = Apply | ApplyAndTimeOut | TimeOut | FailOperation

record memory_ledger =
  ml_sequences :: "(id \<times> int) list"
  ml_paid :: nat
  ml_script :: "verdict list"

definition bad_seq_error :: submit_error where
  "bad_seq_error = \<lparr>se_code = Some ''tx_bad_seq'', se_message = ''Request failed with status code 400''\<rparr>"

definition timeout_error :: submit_error where
  "timeout_error = \<lparr>se_code = None, se_message = ''timeout of 30000ms exceeded''\<rparr>"

definition failed_error :: submit_error where
  "failed_error = \<lparr>se_code = Some ''tx_failed'', se_message = ''Request failed with status code 400''\<rparr>"

definition ml_sequence :: "id \<Rightarrow> memory_ledger \<Rightarrow> int" where
  "ml_sequence k l = (case map_of (ml_sequences l) k of Some n \<Rightarrow> n | None \<Rightarrow> 0)"

definition ml_submit :: "id \<Rightarrow> int \<Rightarrow> memory_ledger \<Rightarrow> (submit_error + unit) \<times> memory_ledger" where
  "ml_submit k n l =
     (if n \<noteq> ml_sequence k l + 1 then (Inl bad_seq_error, l)
      else let next = l\<lparr>ml_sequences := AList.update k n (ml_sequences l), ml_script := tl (ml_script l)\<rparr>
           in case ml_script l of
             TimeOut # _ \<Rightarrow> (Inl timeout_error, l\<lparr>ml_script := tl (ml_script l)\<rparr>)
           | ApplyAndTimeOut # _ \<Rightarrow> (Inl timeout_error, next\<lparr>ml_paid := ml_paid l + 1\<rparr>)
           | FailOperation # _ \<Rightarrow> (Inl failed_error, next)
           | _ \<Rightarrow> (Inr (), next\<lparr>ml_paid := ml_paid l + 1\<rparr>))"

definition memory_network :: "memory_ledger ledger_ops" where
  "memory_network = \<lparr>lg_sequence = ml_sequence, lg_submit = ml_submit\<rparr>"

lemma error_kinds [simp]:
  "isSequenceMismatchError bad_seq_error" "\<not> isSequenceMismatchError timeout_error" "\<not> isSequenceMismatchError failed_error"
  by code_simp+

interpretation memory_ledger: ledger memory_network ml_paid
proof unfold_locales
  fix k n l u l' j assume a: "lg_submit memory_network k n l = (Inr u, l')"
  then have "n = ml_sequence k l + 1" by (auto simp: memory_network_def ml_submit_def split: if_splits)
  with a show "n = lg_sequence memory_network k l + 1 \<and> ml_paid l' = ml_paid l + 1 \<and>
      lg_sequence memory_network j l' = (if j = k then n else lg_sequence memory_network j l)"
    by (auto simp: memory_network_def ml_submit_def ml_sequence_def update_conv' Let_def split: list.splits verdict.splits)
next
  fix k n l e l' j assume a: "lg_submit memory_network k n l = (Inl e, l')" "isSequenceMismatchError e"
  then have "n \<noteq> ml_sequence k l + 1" by (auto simp: memory_network_def ml_submit_def Let_def split: list.splits verdict.splits)
  with a show "n \<noteq> lg_sequence memory_network k l + 1 \<and> ml_paid l' = ml_paid l \<and>
      lg_sequence memory_network j l' = lg_sequence memory_network j l"
    by (auto simp: memory_network_def ml_submit_def)
next
  fix k n l e l' j assume a: "lg_submit memory_network k n l = (Inl e, l')" "\<not> isSequenceMismatchError e"
  then have "n = ml_sequence k l + 1" by (auto simp: memory_network_def ml_submit_def split: if_splits)
  with a show "ml_paid l' \<le> ml_paid l + 1 \<and> (j \<noteq> k \<longrightarrow> lg_sequence memory_network j l' = lg_sequence memory_network j l)"
    by (auto simp: memory_network_def ml_submit_def ml_sequence_def update_conv' Let_def split: list.splits verdict.splits)
qed

section \<open>A leased channel\<close>

datatype submit_failure = NoChannel | LoadFailed | CallerFailed submit_error

record attempt =
  at_channel :: "id option" \<comment> \<open>what \<^verbatim>\<open>acquire\<close> yields\<close>
  at_getThrows :: bool
  at_loadThrows :: bool
  at_buildThrows :: "submit_error option" \<comment> \<open>the callback throws before it builds a transaction\<close>
  at_setThrows :: bool
  at_clearThrows :: bool

definition loadSequence :: "'s lease_ops \<Rightarrow> 'l ledger_ops \<Rightarrow> millis \<Rightarrow> attempt \<Rightarrow> id \<Rightarrow> 's \<Rightarrow> 'l \<Rightarrow> int option" where
  "loadSequence L G now a k s l =
     (case (if at_getThrows a then None else lo_getSequence L now k s) of
        Some cached \<Rightarrow> Some cached
      | None \<Rightarrow> if at_loadThrows a then None else Some (lg_sequence G k l))"

definition recordSequence :: "'s lease_ops \<Rightarrow> millis \<Rightarrow> attempt \<Rightarrow> id \<Rightarrow> int \<Rightarrow> 's \<Rightarrow> 's" where
  "recordSequence L now a k n s = (if at_setThrows a then s else lo_setSequence L now k n s)"

definition forgetSequence :: "'s lease_ops \<Rightarrow> millis \<Rightarrow> attempt \<Rightarrow> id \<Rightarrow> 's \<Rightarrow> 's" where
  "forgetSequence L now a k s = (if at_clearThrows a then s else lo_clearSequence L now k s)"

fun withChannel ::
  "'s lease_ops \<Rightarrow> 'l ledger_ops \<Rightarrow> millis \<Rightarrow> (nat \<Rightarrow> attempt) \<Rightarrow> nat \<Rightarrow> 's \<times> 'l \<Rightarrow> (submit_failure + unit) \<times> 's \<times> 'l" where
  \<comment> \<open>with the number of further attempts; taking and releasing the lease is the matter of the pool\<close>
  "withChannel L G now env more_attempts (s, l) =
     (let a = env more_attempts in case at_channel a of
        None \<Rightarrow> (Inl NoChannel, s, l)
      | Some k \<Rightarrow> (case loadSequence L G now a k s l of
          None \<Rightarrow> (Inl LoadFailed, s, l)
        | Some start \<Rightarrow>
            let (outcome, l') = (case at_buildThrows a of Some e \<Rightarrow> (Inl e, l) | None \<Rightarrow> lg_submit G k (start + 1) l);
                s' = (if at_buildThrows a = None then forgetSequence L now a k s else s)
            in case outcome of
                 Inr _ \<Rightarrow> (Inr (), recordSequence L now a k (start + 1) s, l')
               | Inl e \<Rightarrow> if isSequenceMismatchError e
                   then (case more_attempts of 0 \<Rightarrow> (Inl (CallerFailed e), s', l') | Suc m \<Rightarrow> withChannel L G now env m (s', l'))
                   else (Inl (CallerFailed e), s', l')))"

declare withChannel.simps [simp del]

section \<open>An account of the table\<close>

definition no_skip :: "id \<Rightarrow> bool" where
  "no_skip i \<longleftrightarrow> False"

datatype account_failure = PoolExhausted | ResyncFailed | SubmitFailed submit_error

fun submitTransaction ::
  "'l ledger_ops \<Rightarrow> PoolConfig \<Rightarrow> millis \<Rightarrow> (nat \<Rightarrow> bool) \<Rightarrow> nat \<Rightarrow> account_failure \<Rightarrow> channel_table \<times> 'l \<Rightarrow> (account_failure + unit) \<times> channel_table \<times> 'l" where
  \<comment> \<open>with the number of attempts left and the last error; \<open>down n\<close>: \<^verbatim>\<open>loadAccount\<close> throws when \<open>n\<close> attempts are left after this\<close>
  "submitTransaction G cfg now down 0 lastError st = (Inl lastError, st)"
| "submitTransaction G cfg now down (Suc n) lastError (t, l) =
     (case acquireIdle now no_skip t of
        (None, t) \<Rightarrow> (Inl PoolExhausted, t, l)
      | (Some row, t) \<Rightarrow>
          let txSequence = ca_sequence row + 1; k = ca_publicKey row; maxErrors = pc_maxConsecutiveErrors cfg
          in case lg_submit G k txSequence l of
            (Inr _, l) \<Rightarrow> (Inr (), channel_release now (ca_id row) True (Some txSequence) maxErrors t, l)
          | (Inl err, l) \<Rightarrow>
              if isSequenceMismatchError err
              then (if down n then (Inl ResyncFailed, t, l)
                    else submitTransaction G cfg now down n (SubmitFailed err)
                      (channel_release now (ca_id row) False None maxErrors (updateSequence now (ca_id row) (lg_sequence G k l) t), l))
              else if isRetryableError err \<and> n \<noteq> 0
              then submitTransaction G cfg now down n (SubmitFailed err) (channel_release now (ca_id row) False None maxErrors t, l)
              else (Inl (SubmitFailed err), channel_release now (ca_id row) False None maxErrors t, l))"

fun submit_on_row ::
  "'l ledger_ops \<Rightarrow> PoolConfig \<Rightarrow> millis \<Rightarrow> (nat \<Rightarrow> bool) \<Rightarrow> nat \<Rightarrow> channel_row \<Rightarrow> int \<Rightarrow> channel_table \<times> 'l \<Rightarrow> (account_failure + unit) \<times> channel_table \<times> 'l" where
  \<comment> \<open>the loop of \<^verbatim>\<open>submitWithChannel\<close>, with the further attempts and the sequence number of the account\<close>
  "submit_on_row G cfg now down n row sequence (t, l) =
     (let i = ca_id row; maxErrors = pc_maxConsecutiveErrors cfg
      in case lg_submit G (ca_publicKey row) (sequence + 1) l of
        (Inr _, l) \<Rightarrow> (Inr (), channel_release now i True (Some (sequence + 1)) maxErrors t, l)
      | (Inl err, l) \<Rightarrow> (case (isSequenceMismatchError err, n) of
          (True, Suc m) \<Rightarrow> if down m then (Inl ResyncFailed, t, l)
            else let newSeq = lg_sequence G (ca_publicKey row) l
                 in submit_on_row G cfg now down m row newSeq (updateSequence now i newSeq t, l)
        | _ \<Rightarrow> (Inl (SubmitFailed err), channel_release now i False None maxErrors t, l)))"

declare submit_on_row.simps [simp del]

definition submitWithChannel ::
  "'l ledger_ops \<Rightarrow> PoolConfig \<Rightarrow> millis \<Rightarrow> (nat \<Rightarrow> bool) \<Rightarrow> nat \<Rightarrow> channel_table \<times> 'l \<Rightarrow> (account_failure + unit) \<times> channel_table \<times> 'l" where
  "submitWithChannel G cfg now down maxRetries st = (case st of (t, l) \<Rightarrow> case acquireIdle now no_skip t of
     (None, t) \<Rightarrow> (Inl PoolExhausted, t, l)
   | (Some row, t) \<Rightarrow> submit_on_row G cfg now down maxRetries row (ca_sequence row) (t, l))"

definition transaction_failed :: account_failure where
  "transaction_failed = SubmitFailed \<lparr>se_code = None, se_message = ''Transaction failed after all retries''\<rparr>"

section \<open>Topping up\<close>

text \<open>
  Balances are kept by the network in units of seven decimals; \<^verbatim>\<open>Number(native.balance)\<close> is
  \<open>decimal_number\<close>, and the text \<^verbatim>\<open>x.toFixed(7)\<close> denotes \<open>fixed7 x\<close> units.
\<close>

fun fixed7 :: "jsnum \<Rightarrow> int option" where
  "fixed7 (Fin a) = Some (sql_units a)"
| "fixed7 x = None"

record topup_options =
  tp_minBalanceXlm :: jsnum
  tp_targetBalanceXlm :: jsnum
  tp_leaseTtlMs :: millis

definition REPLENISH_LOCK_KEY :: id where
  "REPLENISH_LOCK_KEY = ''replenisher''"

definition toppedUp :: "topup_options \<Rightarrow> (id \<Rightarrow> int) \<Rightarrow> id list \<Rightarrow> (id \<times> int option \<times> int option) list" where
  \<comment> \<open>public key, previous balance and amount\<close>
  "toppedUp opts balance keys = map (\<lambda>k. let b = decimal_number (balance k)
       in (k, fixed7 b, fixed7 (js_sub (tp_targetBalanceXlm opts) b)))
     (filter (\<lambda>k. \<not> js_le (tp_minBalanceXlm opts) (decimal_number (balance k))) keys)"

datatype topup_result = NotDue | ToppedUp "(id \<times> int option \<times> int option) list" | TopupFailed

fun pay_all :: "(id \<times> int option \<times> int option) list \<Rightarrow> (id \<Rightarrow> int) \<Rightarrow> id \<Rightarrow> int" where
  \<comment> \<open>the payment operations of the transaction, all or nothing; a payment of no amount is refused\<close>
  "pay_all [] balance = balance"
| "pay_all ((k, _, Some n) # ps) balance = pay_all ps (balance(k := balance k + n))"
| "pay_all ((k, _, None) # ps) balance = pay_all ps balance"

definition replenish ::
  "'s lease_ops \<Rightarrow> topup_options \<Rightarrow> bool \<Rightarrow> millis \<Rightarrow> token \<Rightarrow> id list \<Rightarrow> bool \<Rightarrow> bool \<Rightarrow> 's \<times> (id \<Rightarrow> int) \<Rightarrow> topup_result \<times> 's \<times> (id \<Rightarrow> int)" where
  \<comment> \<open>\<open>loads\<close>: all calls of \<^verbatim>\<open>loadAccount\<close> succeed; \<open>submits\<close>: the transaction is accepted\<close>
  "replenish L opts has_funder now tok keys loads submits st = (case st of (s, balance) \<Rightarrow>
     if \<not> has_funder then (NotDue, s, balance)
     else let (locked, s) = lo_tryLease L now REPLENISH_LOCK_KEY tok (tp_leaseTtlMs opts) s
          in if \<not> locked then (NotDue, s, balance)
             else let s' = lo_release L now REPLENISH_LOCK_KEY tok s; due = toppedUp opts balance keys
                  in if \<not> loads then (TopupFailed, s', balance)
                     else if due = [] then (NotDue, s', balance)
                     else if \<not> submits then (TopupFailed, s', balance)
                     else (ToppedUp due, s', pay_all due balance))"

end
