(* ===== verification/Channel_Accounts_Safety.thy ===== *)
theory Channel_Accounts_Safety
  imports Channel_Accounts
begin

text \<open>
  What the pool of channel accounts in PostgreSQL promises: the rows stay well formed, so that maintenance can
  bring back every account; two callers never share an account as long as nobody keeps one longer than the
  lock timeout; and what happens if somebody does, since \<^verbatim>\<open>release\<close> does not check who holds the lock.
\<close>

section \<open>Well-formed rows\<close>

definition past :: "millis \<Rightarrow> millis option \<Rightarrow> bool" where
  "past now x \<longleftrightarrow> (case x of Some a \<Rightarrow> a \<le> now | None \<Rightarrow> False)"

definition row_shape :: "millis \<Rightarrow> channel_row \<Rightarrow> bool" where
  "row_shape now r \<longleftrightarrow> (ca_status r = ChBusy \<longrightarrow> past now (ca_lockedAt r)) \<and> (ca_status r = ChDisabled \<longrightarrow> past now (ca_disabledAt r)) \<and>
     0 \<le> ca_errorCount r"

definition table_shape :: "millis \<Rightarrow> channel_table \<Rightarrow> bool" where
  "table_shape now t \<longleftrightarrow> distinct (map ca_id t) \<and> distinct (map ca_publicKey t) \<and> (\<forall>r\<in>set t. row_shape now r)"

definition names :: "channel_table \<Rightarrow> (id \<times> string) list" where
  "names t = map (\<lambda>r. (ca_id r, ca_publicKey r)) t"

lemma channel_update_names: "(\<And>r. ca_id (f r) = ca_id r \<and> ca_publicKey (f r) = ca_publicKey r) \<Longrightarrow> names (channel_update now p f t) = names t"
  by (simp add: names_def channel_update_def map_sql_update)

lemma names_split: "names t = names t' \<Longrightarrow> map ca_id t = map ca_id t' \<and> map ca_publicKey t = map ca_publicKey t'"
  unfolding names_def by (metis (no_types, lifting) map_map comp_def fst_conv snd_conv list.map_cong0)

lemma table_shape_update:
  assumes "table_shape now t" "\<And>r. ca_id (f r) = ca_id r \<and> ca_publicKey (f r) = ca_publicKey r"
    "\<And>r. p r \<Longrightarrow> row_shape now r \<Longrightarrow> row_shape now (f r)"
  shows "table_shape now (channel_update now p f t)"
proof -
  have "row_shape now (r\<lparr>ca_updatedAt := u\<rparr>) = row_shape now r" for r u by (simp add: row_shape_def)
  then show ?thesis
    using assms names_split [OF channel_update_names [OF assms(2)], of now p t]
    by (auto simp: table_shape_def channel_update_def set_sql_update)
qed

lemma acquireIdle_cases:
  assumes "acquireIdle now skip t = (res, t')"
  obtains "res = None" "t' = t"
  | r0 r where "res = Some r" "r0 \<in> set t" "ca_status r0 = ChIdle" "\<not> skip (ca_id r0)" "ca_id r = ca_id r0"
    "t' = channel_update now (\<lambda>x. ca_id x = ca_id r0) (\<lambda>x. x\<lparr>ca_status := ChBusy, ca_lockedAt := Some now, ca_lastUsedAt := Some now\<rparr>) t"
proof (cases "first_row (filter (\<lambda>r. ca_status r = ChIdle \<and> \<not> skip (ca_id r)) t)")
  case None
  then show ?thesis using assms that(1) by (simp add: acquireIdle_def)
next
  case (Some r0)
  have "first_row rs = Some r \<Longrightarrow> r \<in> set rs" for rs r by (induction rs arbitrary: r) (auto split: option.splits if_splits)
  from this [OF Some] have r0: "r0 \<in> set t" "ca_status r0 = ChIdle" "\<not> skip (ca_id r0)" by auto
  let ?t = "channel_update now (\<lambda>x. ca_id x = ca_id r0) (\<lambda>x. x\<lparr>ca_status := ChBusy, ca_lockedAt := Some now, ca_lastUsedAt := Some now\<rparr>) t"
  have "find (\<lambda>x. ca_id x = ca_id r0) ?t \<noteq> None"
    using r0(1) by (auto simp: find_None_iff channel_update_def set_sql_update)
  then obtain r where r: "find (\<lambda>x. ca_id x = ca_id r0) ?t = Some r" by auto
  then have "ca_id r = ca_id r0" by (auto dest: find_SomeD)
  with that(2) [of r r0] r r0 show ?thesis using assms Some by (simp add: acquireIdle_def Let_def)
qed

lemma acquireIdle_shape: "acquireIdle now skip t = (res, t') \<Longrightarrow> table_shape now t \<Longrightarrow> table_shape now t'"
  by (auto elim!: acquireIdle_cases intro!: table_shape_update simp: row_shape_def past_def)

lemma statement_shapes:
  assumes "table_shape now t"
  shows "table_shape now (channel_release now i success n m t)" "table_shape now (snd (recoverStale now d t))"
    "table_shape now (snd (recoverDisabled now d t))" "table_shape now (channel_enable now i t)"
  using assms unfolding channel_release_def recoverStale_def recoverDisabled_def channel_enable_def
  by (auto intro!: table_shape_update simp: row_shape_def past_def)

lemma table_shape_later: "table_shape now t \<Longrightarrow> now \<le> now' \<Longrightarrow> table_shape now' t"
  by (fastforce simp: table_shape_def row_shape_def past_def split: option.splits)

lemmas accounts_defs = acquire_account_def release_account_def process_queue_def hand_on_def queue_timeout_def
  performMaintenance_def forceRelease_def enableAccount_def pool_shutdown_def take_row_def Let_def

lemma account_step_shape: "table_shape (aw_now w) (aw_table w) \<Longrightarrow>
    table_shape (aw_now (accounts_step cfg a w)) (aw_table (accounts_step cfg a w))"
  by (cases a) (auto simp: accounts_defs statement_shapes dest: acquireIdle_shape intro: table_shape_later
    split: option.splits prod.splits list.splits)

lemma run_shape: "table_shape (aw_now w) (aw_table w) \<Longrightarrow>
    table_shape (aw_now (accounts_run cfg acts w)) (aw_table (accounts_run cfg acts w))"
  unfolding accounts_run_def by (induction acts arbitrary: w) (auto intro: account_step_shape)

text \<open>
  C26. Whatever the callers, the queue, maintenance and operators do, ids and public keys stay unique, every busy
  account has the time of its lock, every disabled one the time since when, and no error count is negative.
\<close>
theorem channel_rows_well_formed:
  assumes "table_shape now t"
  shows "let w = accounts_run cfg acts (fresh_pool now t) in table_shape (aw_now w) (aw_table w)"
  using run_shape [of "fresh_pool now t" cfg acts] assms by (simp add: fresh_pool_def Let_def)

definition demo_channel :: "id \<Rightarrow> channel_row" where
  "demo_channel i = \<lparr>ca_id = i, ca_publicKey = ''G'' @ i, ca_status = ChIdle, ca_sequence = 7, ca_errorCount = 0, ca_lockedAt = None,
     ca_disabledAt = None, ca_lastUsedAt = None, ca_fundedAt = None, ca_balance = ''2'', ca_createdAt = 0, ca_updatedAt = 0\<rparr>"

definition demo_table :: channel_table where
  "demo_table = [demo_channel ''A'', demo_channel ''B'']"

lemma demo_table_shape: "table_shape 0 demo_table"
  by (simp add: table_shape_def row_shape_def demo_channel_def demo_table_def)

definition busy_day :: "accounts_act list" where
  "busy_day = [AcquireAccount (\<lambda>_. False), Sleep 5, AcquireAccount (\<lambda>_. False), ReleaseAccount 0 False None, ForceRelease ''GB'', Maintain]"

theorem channel_rows_well_formed_witness:
  "let w = accounts_run default_pool_config busy_day (fresh_pool 0 demo_table) in table_shape (aw_now w) (aw_table w)"
  by (rule channel_rows_well_formed [OF demo_table_shape])

section \<open>Maintenance\<close>

text \<open>
  Maintenance loses no account: after any run, one pass that comes later than the lock timeout and the recovery
  period makes every account idle again that is busy or disabled, even those whose holders have died.
\<close>
theorem maintenance_recovers_accounts:
  assumes "table_shape now t" "pc_lockTimeoutMs cfg < d" "pc_disableRecoveryMs cfg < d" "0 \<le> d"
    and "r \<in> set (aw_table (accounts_run cfg (acts @ [Sleep d, Maintain]) (fresh_pool now t)))"
  shows "ca_status r = ChIdle \<or> ca_status r = ChFunding"
proof -
  let ?w = "accounts_run cfg acts (fresh_pool now t)"
  let ?now = "aw_now ?w + d"
  have shape: "table_shape (aw_now ?w) (aw_table ?w)" using run_shape [of "fresh_pool now t" cfg acts] assms(1) by (simp add: fresh_pool_def)
  have "r \<in> set (snd (recoverDisabled ?now (pc_disableRecoveryMs cfg) (snd (recoverStale ?now (pc_lockTimeoutMs cfg) (aw_table ?w)))))"
    using assms(4,5) by (simp add: accounts_run_def performMaintenance_def Let_def)
  then obtain r0 where r0: "r0 \<in> set (aw_table ?w)"
    and r: "r = (let r1 = (if stale ?now (pc_lockTimeoutMs cfg) r0
        then r0\<lparr>ca_status := ChIdle, ca_lockedAt := None, ca_errorCount := ca_errorCount r0 + 1, ca_updatedAt := ?now\<rparr> else r0)
      in if recovered ?now (pc_disableRecoveryMs cfg) r1
         then r1\<lparr>ca_status := ChIdle, ca_disabledAt := None, ca_errorCount := 0, ca_updatedAt := ?now\<rparr> else r1)"
    by (auto simp: recoverDisabled_def recoverStale_def channel_update_def set_sql_update Let_def)
  have "row_shape (aw_now ?w) r0" using shape r0 by (simp add: table_shape_def)
  then show ?thesis unfolding r using assms(2,3)
    by (cases "ca_status r0") (auto simp: row_shape_def past_def stale_def recovered_def earlier_def Let_def split: option.splits)
qed

theorem maintenance_recovers_accounts_witness:
  "let t = aw_table (accounts_run default_pool_config (busy_day @ [Sleep 60001, Maintain]) (fresh_pool 0 demo_table))
   in ca_status (t ! 0) = ChIdle \<or> ca_status (t ! 0) = ChFunding"
proof -
  let ?t = "aw_table (accounts_run default_pool_config (busy_day @ [Sleep 60001, Maintain]) (fresh_pool 0 demo_table))"
  have "?t ! 0 \<in> set ?t" by code_simp
  from maintenance_recovers_accounts [OF demo_table_shape _ _ _ this] show ?thesis
    by (simp only: Let_def) (simp add: default_pool_config_def)
qed

text \<open>Seeding an empty table gives a well-formed one, if the ids drawn are fresh.\<close>

lemma seed_shape:
  assumes "seed_accounts fromSecret load now configs t = (res, t')" "table_shape now t"
    "distinct (map (\<lambda>c. snd (snd c)) configs)" "\<forall>c\<in>set configs. snd (snd c) \<notin> ca_id ` set t"
  shows "table_shape now t'"
  using assms
proof (induction configs arbitrary: t)
  case (Cons c configs)
  obtain k s i where c: "c = (k, s, i)" by (metis prod_cases3)
  show ?case
  proof (cases "fromSecret s = k \<and> load k \<noteq> None \<and> k \<notin> ca_publicKey ` set t")
    case False
    then show ?thesis using Cons.prems(1,2) c by (auto simp: channel_create_def split: if_splits option.splits)
  next
    case True
    then obtain n where n: "load k = Some n" by auto
    let ?r = "\<lparr>ca_id = i, ca_publicKey = k, ca_status = ChIdle, ca_sequence = n, ca_errorCount = 0, ca_lockedAt = None,
      ca_disabledAt = None, ca_lastUsedAt = None, ca_fundedAt = None, ca_balance = ''0'', ca_createdAt = now, ca_updatedAt = now\<rparr>"
    have "table_shape now (t @ [?r])" using Cons.prems(2,4) True c by (auto simp: table_shape_def row_shape_def)
    then show ?thesis using Cons.IH [of "t @ [?r]"] Cons.prems(1,3,4) True n c by (auto simp: channel_create_def)
  qed
qed simp

section \<open>Exclusion\<close>

definition all_leases :: "accounts_world \<Rightarrow> account_lease list" where
  "all_leases w = aw_leases w @ aw_inflight w"

definition lease_held :: "channel_table \<Rightarrow> account_lease \<Rightarrow> bool" where
  "lease_held t l \<longleftrightarrow> (\<exists>r. find (\<lambda>r. ca_id r = al_row l) t = Some r \<and> ca_status r = ChBusy \<and> ca_lockedAt r = Some (al_since l))"

definition leases_distinct :: "accounts_world \<Rightarrow> bool" where
  "leases_distinct w \<longleftrightarrow> distinct (map al_row (all_leases w)) \<and> (\<forall>l\<in>set (all_leases w). lease_held (aw_table w) l)"

fun in_time :: "PoolConfig \<Rightarrow> accounts_act list \<Rightarrow> accounts_world \<Rightarrow> bool" where
  \<comment> \<open>maintenance finds no lock older than the timeout, and operators do not intervene\<close>
  "in_time cfg [] w \<longleftrightarrow> True"
| "in_time cfg (a # acts) w \<longleftrightarrow> (case a of
       Maintain \<Rightarrow> list_all (\<lambda>l. aw_now w - pc_lockTimeoutMs cfg \<le> al_since l) (all_leases w)
     | ForceRelease k \<Rightarrow> False | EnableAccount k \<Rightarrow> False | _ \<Rightarrow> True) \<and> in_time cfg acts (accounts_step cfg a w)"

lemma lease_held_other: "(\<And>r. ca_id (f r) = ca_id r) \<Longrightarrow> al_row l \<noteq> i \<Longrightarrow>
    lease_held (channel_update now (\<lambda>r. ca_id r = i) f t) l = lease_held t l"
  by (simp add: lease_held_def channel_update_def find_key_update)

lemma lease_held_unless: "(\<And>r. ca_id (f r) = ca_id r) \<Longrightarrow> lease_held t l \<Longrightarrow>
    (\<And>r. ca_status r = ChBusy \<Longrightarrow> ca_lockedAt r = Some (al_since l) \<Longrightarrow> \<not> p r) \<Longrightarrow> lease_held (channel_update now p f t) l"
  by (auto simp: lease_held_def channel_update_def sql_update_def find_map)

lemma acquireIdle_leases:
  assumes "acquireIdle now skip t = (Some r, t')" "distinct (map ca_id t)"
  shows "lease_held t' \<lparr>al_caller = c, al_row = ca_id r, al_since = now\<rparr>"
    "lease_held t l \<Longrightarrow> al_row l \<noteq> ca_id r \<and> lease_held t' l"
proof -
  from assms(1) obtain r0 where r0: "r0 \<in> set t" "ca_status r0 = ChIdle" "ca_id r = ca_id r0"
    and t': "t' = channel_update now (\<lambda>x. ca_id x = ca_id r0)
      (\<lambda>x. x\<lparr>ca_status := ChBusy, ca_lockedAt := Some now, ca_lastUsedAt := Some now\<rparr>) t"
    by (auto elim: acquireIdle_cases)
  have f: "find (\<lambda>x. ca_id x = ca_id r0) t = Some r0" using find_key_unique [OF assms(2) r0(1)] .
  show "lease_held t' \<lparr>al_caller = c, al_row = ca_id r, al_since = now\<rparr>"
    using f r0(3) by (simp add: lease_held_def t' channel_update_def find_key_update)
  assume l: "lease_held t l"
  then have "al_row l \<noteq> ca_id r" using f r0 by (auto simp: lease_held_def)
  then show "al_row l \<noteq> ca_id r \<and> lease_held t' l" using l r0(3) by (simp add: t' lease_held_other)
qed

lemma leases_acquire:
  assumes "leases_distinct w" "distinct (map ca_id (aw_table w))" "acquireIdle (aw_now w) skip (aw_table w) = (Some r, t)"
    and "all_leases w' = as @ take_row (ca_id r) c w # bs" "all_leases w = as @ bs" "aw_table w' = t"
  shows "leases_distinct w'"
  using assms acquireIdle_leases [OF assms(3,2)]
  by (force simp: leases_distinct_def take_row_def)

lemma leases_release:
  assumes "leases_distinct w" "distinct (map al_row (all_leases w'))" "\<And>x. x \<in> set (all_leases w') \<Longrightarrow> x \<in> set (all_leases w) \<and> al_row x \<noteq> i"
    "aw_table w' = channel_release (aw_now w) i success n m (aw_table w)"
  shows "leases_distinct w'"
proof -
  have "lease_held (channel_release (aw_now w) i success n m t) x = lease_held t x" if "al_row x \<noteq> i" for t x
    unfolding channel_release_def by (rule lease_held_other [OF _ that]) simp
  then show ?thesis using assms by (auto simp: leases_distinct_def)
qed

lemma leases_maintain:
  assumes "leases_distinct w" "\<forall>l\<in>set (all_leases w). aw_now w - pc_lockTimeoutMs cfg \<le> al_since l"
  shows "leases_distinct (performMaintenance cfg w)"
proof -
  have "lease_held (aw_table (performMaintenance cfg w)) l" if "l \<in> set (all_leases w)" for l
    using assms that
    by (auto simp: performMaintenance_def Let_def recoverStale_def recoverDisabled_def leases_distinct_def stale_def recovered_def earlier_def
      intro!: lease_held_unless)
  moreover have "all_leases (performMaintenance cfg w) = all_leases w" by (simp add: performMaintenance_def Let_def all_leases_def)
  ultimately show ?thesis using assms(1) by (simp add: leases_distinct_def)
qed

lemma leases_release_account:
  assumes "leases_distinct w"
  shows "leases_distinct (release_account cfg c success n w)"
proof (cases "find (\<lambda>l. al_caller l = c) (aw_leases w)")
  case (Some l)
  let ?w = "release_account cfg c success n w"
  have l: "l \<in> set (aw_leases w)" "al_caller l = c" using Some by (auto dest: find_SomeD)
  have d: "distinct (map al_row (aw_leases w @ aw_inflight w))" using assms by (simp add: leases_distinct_def all_leases_def)
  have all: "all_leases ?w = filter (\<lambda>x. al_caller x \<noteq> c) (aw_leases w) @ aw_inflight w"
    using Some by (simp add: all_leases_def release_account_def)
  show ?thesis
  proof (rule leases_release [OF assms])
    have "distinct (map al_row (filter (\<lambda>x. al_caller x \<noteq> c) (aw_leases w)))" using d by (simp add: distinct_map_filter)
    then show "distinct (map al_row (all_leases ?w))" using d unfolding all map_append distinct_append by fastforce
    show "x \<in> set (all_leases w) \<and> al_row x \<noteq> al_row l" if "x \<in> set (all_leases ?w)" for x
    proof -
      have x: "x \<in> set (all_leases w)" "x \<in> set (aw_inflight w) \<or> al_caller x \<noteq> c" using that unfolding all by (auto simp: all_leases_def)
      have "x \<noteq> l"
      proof
        assume "x = l"
        then have "l \<in> set (aw_inflight w)" using x(2) l(2) by simp
        then show False using d l(1) by auto
      qed
      moreover have "inj_on al_row (set (all_leases w))" using d unfolding all_leases_def distinct_map by blast
      ultimately show ?thesis using x(1) l(1) by (auto simp: all_leases_def dest: inj_onD)
    qed
    show "aw_table ?w = channel_release (aw_now w) (al_row l) success n (pc_maxConsecutiveErrors cfg) (aw_table w)"
      using Some by (simp add: release_account_def)
  qed
qed (use assms in \<open>simp add: release_account_def\<close>)

lemma leases_hand_on:
  assumes "leases_distinct w"
  shows "leases_distinct (hand_on cfg w)"
proof (cases "aw_inflight w")
  case (Cons l ls)
  have d: "distinct (map al_row (aw_leases w @ l # ls))" using assms Cons by (simp add: leases_distinct_def all_leases_def)
  show ?thesis
  proof (cases "aw_queue w")
    case Nil
    show ?thesis
      by (rule leases_release [OF assms, where i = "al_row l"]) (use d Nil Cons in \<open>auto simp: hand_on_def all_leases_def image_iff\<close>)
  next
    case (Cons x q)
    have "lease_held t (l\<lparr>al_caller := c\<rparr>) = lease_held t l" for t c by (simp add: lease_held_def)
    then show ?thesis using assms Cons \<open>aw_inflight w = l # ls\<close>
      by (cases x) (auto simp: hand_on_def leases_distinct_def all_leases_def)
  qed
qed (use assms in \<open>simp add: hand_on_def\<close>)

lemma leases_distinct_same: "leases_distinct w \<Longrightarrow> all_leases w' = all_leases w \<Longrightarrow> aw_table w' = aw_table w \<Longrightarrow> leases_distinct w'"
  by (simp add: leases_distinct_def)

lemma leases_step:
  assumes "leases_distinct w" "distinct (map ca_id (aw_table w))" "in_time cfg (a # acts) w"
  shows "leases_distinct (accounts_step cfg a w)"
proof (cases a)
  case (AcquireAccount skip)
  show ?thesis
  proof (cases "fst (acquireIdle (aw_now w) skip (aw_table w))")
    case None
    then obtain t where q: "acquireIdle (aw_now w) skip (aw_table w) = (None, t)" by (metis prod.collapse)
    show ?thesis
      by (rule leases_distinct_same [OF assms(1)]) (use AcquireAccount q in \<open>simp_all add: acquire_account_def all_leases_def Let_def\<close>)
  next
    case (Some r)
    then obtain t where q: "acquireIdle (aw_now w) skip (aw_table w) = (Some r, t)" by (metis prod.collapse)
    show ?thesis
      by (rule leases_acquire [OF assms(1,2) q, of _ "aw_leases w" "aw_next w" "aw_inflight w"])
        (use AcquireAccount q in \<open>simp_all add: acquire_account_def all_leases_def Let_def take_row_def\<close>)
  qed
next
  case (ProcessQueue skip)
  show ?thesis
  proof (cases "aw_queue w = [] \<or> fst (acquireIdle (aw_now w) skip (aw_table w)) = None")
    case True
    then show ?thesis using ProcessQueue assms(1) by (auto simp: process_queue_def split: prod.splits)
  next
    case False
    then obtain r t where q: "acquireIdle (aw_now w) skip (aw_table w) = (Some r, t)" "aw_queue w \<noteq> []"
      by (cases "acquireIdle (aw_now w) skip (aw_table w)") auto
    show ?thesis
      by (rule leases_acquire [OF assms(1,2) q(1), of _ "all_leases w" 0 "[]"])
        (use ProcessQueue q in \<open>simp_all add: process_queue_def all_leases_def take_row_def\<close>)
  qed
next
  case Maintain
  then show ?thesis using assms leases_maintain by (simp add: list_all_iff)
qed (use assms in \<open>auto simp: leases_release_account leases_hand_on queue_timeout_def pool_shutdown_def all_leases_def intro: leases_distinct_same\<close>)

lemma leases_run:
  assumes "table_shape (aw_now w) (aw_table w)" "leases_distinct w" "in_time cfg acts w"
  shows "leases_distinct (accounts_run cfg acts w)"
  using assms unfolding accounts_run_def
proof (induction acts arbitrary: w)
  case (Cons a acts)
  have "distinct (map ca_id (aw_table w))" using Cons.prems(1) by (simp add: table_shape_def)
  then show ?case using Cons.IH [OF account_step_shape [OF Cons.prems(1)] leases_step [OF Cons.prems(2) _ Cons.prems(3)]] Cons.prems(3) by simp
qed simp

text \<open>
  C25. As long as maintenance finds no lock older than the timeout and no operator intervenes, no two callers have the
  same account at a time, those taken for the queue included, and every account that is out is busy in the table.
\<close>
theorem accounts_exclusive:
  assumes "table_shape now t" "in_time cfg acts (fresh_pool now t)"
  shows "let w = accounts_run cfg acts (fresh_pool now t)
    in distinct (map al_row (aw_leases w @ aw_inflight w)) \<and> (\<forall>l\<in>set (aw_leases w @ aw_inflight w). lease_held (aw_table w) l)"
  using leases_run [of "fresh_pool now t" cfg acts] assms
  by (simp add: fresh_pool_def leases_distinct_def all_leases_def Let_def)

definition queue_day :: "accounts_act list" where
  "queue_day = [AcquireAccount (\<lambda>_. False), AcquireAccount (\<lambda>_. False), AcquireAccount (\<lambda>_. False), Sleep 30000, Maintain,
     ReleaseAccount 0 True (Some 8), ProcessQueue (\<lambda>_. False), AcquireAccount (\<lambda>_. False), QueueTimeout 3]"

theorem accounts_exclusive_witness:
  "let w = accounts_run default_pool_config queue_day (fresh_pool 0 demo_table)
    in distinct (map al_row (aw_leases w @ aw_inflight w)) \<and> (\<forall>l\<in>set (aw_leases w @ aw_inflight w). lease_held (aw_table w) l)"
proof -
  have "in_time default_pool_config queue_day (fresh_pool 0 demo_table)" by code_simp
  from accounts_exclusive [OF demo_table_shape this] show ?thesis .
qed

text \<open>A holder that is late.\<close>

definition late_release :: "accounts_act list" where
  \<comment> \<open>caller 0 keeps the account for more than thirty seconds, maintenance frees it and caller 1 takes it; then caller 0
    releases the lock of caller 1, and caller 2 takes the account as well\<close>
  "late_release = [AcquireAccount (\<lambda>_. False), Sleep 30001, Maintain, AcquireAccount (\<lambda>_. False), Sleep 1,
     ReleaseAccount 0 True (Some 8), AcquireAccount (\<lambda>_. False)]"

text \<open>
  A caller that keeps an account longer than the lock timeout ends the lock of the caller that got it after:
  two callers then have the account at a time although both are within their thirty seconds.
\<close>
theorem late_release_frees_others_lock:
  "let w = accounts_run default_pool_config late_release (fresh_pool 0 [demo_channel ''A''])
   in map al_row (aw_leases w) = [''A'', ''A''] \<and> list_all (\<lambda>l. aw_now w - al_since l < pc_lockTimeoutMs default_pool_config) (aw_leases w)"
  by code_simp

end
