(* ===== verification/Channel_Submit_Safety.thy ===== *)
theory Channel_Submit_Safety
  imports Channel_Submit Channel_Accounts_Safety
begin

text \<open>
  What the two pools promise about the payments they submit. \<^verbatim>\<open>withChannel\<close> pays at most once and keeps its
  cached sequence numbers true; \<^verbatim>\<open>submitTransaction\<close> of the other pool repeats a payment whose answer was
  lost. Topping up brings every poor channel exactly to the target.
\<close>

section \<open>withChannel\<close>

context ledger
begin

lemma withChannel_pays:
  "withChannel L G now env n (s, l) = (res, s', l') \<Longrightarrow> paid l' \<le> paid l + 1 \<and>
    (case res of Inr _ \<Rightarrow> paid l' = paid l + 1
     | Inl (CallerFailed e) \<Rightarrow> isSequenceMismatchError e \<longrightarrow> paid l' = paid l | Inl _ \<Rightarrow> paid l' = paid l)"
proof (induction n arbitrary: s l)
  case 0
  then show ?case
    by (subst (asm) withChannel.simps)
      (auto simp: Let_def split: option.splits sum.splits if_splits prod.splits dest: accepted bad_sequence failed)
next
  case (Suc n)
  let ?a = "env (Suc n)"
  show ?case
  proof (cases "\<exists>k start e l1. at_channel ?a = Some k \<and> loadSequence L G now ?a k s l = Some start \<and>
      (case at_buildThrows ?a of Some e \<Rightarrow> (Inl e, l) | None \<Rightarrow> lg_submit G k (start + 1) l) = (Inl e, l1) \<and> isSequenceMismatchError e")
    case True
    then obtain k start e l1 where h: "at_channel ?a = Some k" "loadSequence L G now ?a k s l = Some start"
      "(case at_buildThrows ?a of Some e \<Rightarrow> (Inl e, l) | None \<Rightarrow> lg_submit G k (start + 1) l) = (Inl e, l1)" "isSequenceMismatchError e"
      by blast
    then have "paid l1 = paid l" using bad_sequence by (auto split: option.splits)
    moreover obtain s1 where "withChannel L G now env n (s1, l1) = (res, s', l')"
      using Suc.prems h by (subst (asm) withChannel.simps) (auto simp: Let_def)
    ultimately show ?thesis using Suc.IH [of s1 l1] by (auto split: sum.splits submit_failure.splits)
  next
    case False
    then show ?thesis using Suc.prems
      by (subst (asm) withChannel.simps)
        (auto simp: Let_def split: option.splits sum.splits if_splits prod.splits dest: accepted bad_sequence failed)
  qed
qed

end

text \<open>
  C24. A call of \<^verbatim>\<open>withChannel\<close> pays at most once, however often it tries and whatever the store throws; it returns
  only after exactly one payment, and if it ends with a wrong sequence number nothing was paid.
\<close>
theorem withChannel_pays_once:
  assumes "ledger G paid" "withChannel L G now env n (s, l) = (res, s', l')"
  shows "paid l' \<le> paid l + 1 \<and> (case res of Inr _ \<Rightarrow> paid l' = paid l + 1
     | Inl (CallerFailed e) \<Rightarrow> isSequenceMismatchError e \<longrightarrow> paid l' = paid l | Inl _ \<Rightarrow> paid l' = paid l)"
  by (rule ledger.withChannel_pays [OF assms])

definition plain_attempt :: "id \<Rightarrow> attempt" where
  "plain_attempt k = \<lparr>at_channel = Some k, at_getThrows = False, at_loadThrows = False, at_buildThrows = None,
     at_setThrows = False, at_clearThrows = False\<rparr>"

definition fresh_ledger :: "verdict list \<Rightarrow> memory_ledger" where
  "fresh_ledger script = \<lparr>ml_sequences = [(''GA'', 7), (''GB'', 7)], ml_paid = 0, ml_script = script\<rparr>"

theorem withChannel_pays_once_witness:
  "case withChannel mem_lease_store memory_network 0 (\<lambda>_. plain_attempt ''GA'') 2
     (empty_leases\<lparr>ms_sequences := [(''GA'', 3)]\<rparr>, fresh_ledger [ApplyAndTimeOut])
   of (res, s', l') \<Rightarrow> res = Inl (CallerFailed timeout_error) \<and> ml_paid l' \<le> 0 + 1 \<and> ml_paid l' = 1 \<and> ms_sequences s' = []"
proof -
  let ?s = "empty_leases\<lparr>ms_sequences := [(''GA'', 3)]\<rparr>" and ?l = "fresh_ledger [ApplyAndTimeOut]"
  obtain res s' l' where r: "withChannel mem_lease_store memory_network 0 (\<lambda>_. plain_attempt ''GA'') 2 (?s, ?l) = (res, s', l')"
    by (metis prod_cases3)
  have "case withChannel mem_lease_store memory_network 0 (\<lambda>_. plain_attempt ''GA'') 2 (?s, ?l)
    of (res, s', l') \<Rightarrow> res = Inl (CallerFailed timeout_error) \<and> ml_paid l' = 1 \<and> ms_sequences s' = [] \<and> ml_paid ?l = 0" by code_simp
  then show ?thesis using withChannel_pays_once [OF memory_ledger.ledger_axioms r] r by simp
qed

section \<open>Cached sequence numbers\<close>

definition cache_true :: "'l ledger_ops \<Rightarrow> (id \<Rightarrow> int option) \<Rightarrow> 'l \<Rightarrow> bool" where
  "cache_true G cache l \<longleftrightarrow> (\<forall>k n. cache k = Some n \<longrightarrow> n = lg_sequence G k l)"

lemma withChannel_true:
  assumes "ledger G paid" "lease_store L held lease seqs" "cache_true G (seqs s) l"
    and "\<And>i. \<not> at_clearThrows (env i) \<and> \<not> at_setThrows (env i) \<and> at_buildThrows (env i) = None"
    and "withChannel L G now env n (s, l) = (res, s', l')"
  shows "cache_true G (seqs s') l' \<and> (case res of Inl (CallerFailed e) \<Rightarrow> \<not> isSequenceMismatchError e | _ \<Rightarrow> True)"
proof -
  let ?a = "env n"
  note run = assms(5) [unfolded withChannel.simps [of L G now env n s l] Let_def]
  consider "at_channel ?a = None" | k where "at_channel ?a = Some k" "loadSequence L G now ?a k s l = None"
    | k start where "at_channel ?a = Some k" "loadSequence L G now ?a k s l = Some start" by blast
  then show ?thesis
  proof cases
    case (3 k start)
    have start: "start = lg_sequence G k l"
      using 3(2) lease_store.get_sequence [OF assms(2), of now k s] assms(3)
      by (auto simp: loadSequence_def cache_true_def split: if_splits option.splits)
    obtain outcome l1 where sub: "lg_submit G k (start + 1) l = (outcome, l1)" by fastforce
    show ?thesis
    proof (cases outcome)
      case (Inr u)
      then have l1: "lg_sequence G j l1 = (if j = k then start + 1 else lg_sequence G j l)" for j
        using ledger.accepted [OF assms(1), of k "start + 1" l u l1 j] sub by simp
      have "res = Inr ()" "s' = lo_setSequence L now k (start + 1) s" "l' = l1"
        using run 3 sub Inr assms(4) [of n] by (auto simp: recordSequence_def)
      then show ?thesis using assms(3) l1 by (auto simp: cache_true_def lease_store.set_sequence [OF assms(2)])
    next
      case (Inl e)
      have e: "\<not> isSequenceMismatchError e"
        using ledger.bad_sequence [OF assms(1), of k "start + 1" l e l1] sub Inl start by auto
      then have "res = Inl (CallerFailed e)" "s' = lo_clearSequence L now k s" "l' = l1"
        using run 3 sub Inl assms(4) [of n] by (auto simp: forgetSequence_def)
      then show ?thesis using assms(3) e ledger.failed [OF assms(1), of k "start + 1" l e l1] sub Inl
        by (auto simp: cache_true_def lease_store.clear_sequence [OF assms(2)])
    qed
  qed (use run assms(3) in auto)
qed

text \<open>
  As long as only the pool moves its channels and the store works, every cached sequence number is that of the
  network, before and after each call, and no transaction is refused for its sequence number.
\<close>
theorem cached_sequences_true:
  assumes "ledger G paid" "lease_store L held lease seqs" "cache_true G (seqs s) l"
    and "\<And>i. \<not> at_clearThrows (env i) \<and> \<not> at_setThrows (env i) \<and> at_buildThrows (env i) = None"
    and "withChannel L G now env n (s, l) = (res, s', l')"
  shows "cache_true G (seqs s') l' \<and> (case res of Inl (CallerFailed e) \<Rightarrow> \<not> isSequenceMismatchError e | _ \<Rightarrow> True)"
  using withChannel_true [OF assms] .

theorem cached_sequences_true_witness:
  "case withChannel mem_lease_store memory_network 0 (\<lambda>_. plain_attempt ''GA'') 2
     (empty_leases\<lparr>ms_sequences := [(''GA'', 7)]\<rparr>, fresh_ledger [FailOperation])
   of (res, s', l') \<Rightarrow> cache_true memory_network (map_of (ms_sequences s')) l' \<and> ml_sequence ''GA'' l' = 8"
proof -
  let ?s = "empty_leases\<lparr>ms_sequences := [(''GA'', 7)]\<rparr>" and ?l = "fresh_ledger [FailOperation]"
  obtain res s' l' where r: "withChannel mem_lease_store memory_network 0 (\<lambda>_. plain_attempt ''GA'') 2 (?s, ?l) = (res, s', l')"
    by (metis prod_cases3)
  have "case withChannel mem_lease_store memory_network 0 (\<lambda>_. plain_attempt ''GA'') 2 (?s, ?l)
    of (res, s', l') \<Rightarrow> ml_sequence ''GA'' l' = 8" by code_simp
  moreover have "cache_true memory_network (map_of (ms_sequences ?s)) ?l"
    by (auto simp: cache_true_def memory_network_def ml_sequence_def fresh_ledger_def)
  ultimately show ?thesis
    using cached_sequences_true [OF memory_ledger.ledger_axioms mem_lease.lease_store_axioms _ _ r] r
    by (auto simp: plain_attempt_def)
qed

section \<open>submitTransaction\<close>

text \<open>
  A payment that reached the network but whose answer was lost is submitted again through another account: one
  call of \<^verbatim>\<open>submitTransaction\<close> succeeds after two payments.
\<close>
theorem lost_answer_pays_twice:
  "case submitTransaction memory_network default_pool_config 0 (\<lambda>_. False) 3 transaction_failed
     (demo_table, fresh_ledger [ApplyAndTimeOut, Apply])
   of (res, t, l) \<Rightarrow> res = Inr () \<and> ml_paid l = 2 \<and> list_all (\<lambda>r. ca_status r = ChIdle) t"
  by code_simp

text \<open>A failing \<^verbatim>\<open>loadAccount\<close> after a wrong sequence number leaves the account locked.\<close>
theorem failed_resync_keeps_lock:
  "case submitTransaction memory_network default_pool_config 0 (\<lambda>_. True) 3 transaction_failed
     ([(demo_channel ''A'')\<lparr>ca_sequence := 3\<rparr>], fresh_ledger [])
   of (res, t, l) \<Rightarrow> res = Inl ResyncFailed \<and> map ca_status t = [ChBusy]"
  by code_simp

section \<open>Topping up\<close>

lemma fixed7_near:
  assumes "\<bar>c - of_int n / 10 ^ 7\<bar> \<le> 3 / 134217728"
  shows "fixed7 (Fin c) = Some n"
proof -
  have scale: "x * 10 ^ 7 - m = (x - m / 10 ^ 7) * 10 ^ 7" for x m :: rat by (simp add: field_simps)
  have "\<bar>c * 10 ^ 7 - of_int n\<bar> = \<bar>c - of_int n / 10 ^ 7\<bar> * 10 ^ 7" unfolding scale abs_mult by simp
  also have "\<dots> \<le> 3 / 134217728 * 10 ^ 7" using assms by (rule mult_right_mono) simp
  also have "\<dots> < 1/2" by simp
  finally have "sql_units c = n" by (rule sql_units_near)
  then show ?thesis by simp
qed

lemma fixed7_decimal: "in_range n \<Longrightarrow> fixed7 (decimal_number n) = Some n"
proof (erule decimal_number_fin)
  fix x assume x: "decimal_number n = Fin x" "\<bar>x - of_int n / 10 ^ 7\<bar> \<le> 1 / 134217728"
  have "\<bar>x - of_int n / 10 ^ 7\<bar> \<le> 3 / 134217728" using x(2) by linarith
  then show "fixed7 (decimal_number n) = Some n" unfolding x(1) by (rule fixed7_near)
qed

lemma topup_amount:
  assumes "in_range T" "0 \<le> B" "B < T"
  shows "fixed7 (js_sub (decimal_number T) (decimal_number B)) = Some (T - B)"
proof -
  have rb: "in_range B" using assms by (simp add: in_range_def)
  obtain a where a: "decimal_number T = Fin a" "dround a = a" "\<bar>a - of_int T / 10 ^ 7\<bar> \<le> 1 / 134217728" "0 \<le> a" "a < 100000001"
    using decimal_number_fin [OF assms(1)] by metis
  obtain f where f: "decimal_number B = Fin f" "dround f = f" "\<bar>f - of_int B / 10 ^ 7\<bar> \<le> 1 / 134217728" "0 \<le> f" "f < 100000001"
    using decimal_number_fin [OF rb] by metis
  obtain c where c: "js_sub (Fin a) (Fin f) = Fin c" "\<bar>c - of_int (T - B) / 10 ^ 7\<bar> \<le> 3 / 134217728"
    using difference_fin [OF a(2-5) f(2-5) assms(3,2)] by metis
  show ?thesis unfolding a(1) f(1) c(1) by (rule fixed7_near [OF c(2)])
qed

lemma below_minimum:
  assumes "in_range M" "0 < M" "in_range B"
  shows "\<not> js_le (decimal_number M) (decimal_number B) \<longleftrightarrow> B < M"
proof -
  obtain m b where "decimal_number M = Fin m" "decimal_number B = Fin b"
    using decimal_number_fin [OF assms(1)] decimal_number_fin [OF assms(3)] by metis
  then have "\<not> js_le (decimal_number M) (decimal_number B) \<longleftrightarrow> js_lt (decimal_number B) (decimal_number M)" by auto
  then show ?thesis using decimal_number_less [OF assms(1,2)] by simp
qed

lemma pay_all_once: "distinct (map fst ps) \<Longrightarrow>
    pay_all ps balance k = (case map_of ps k of Some (_, Some n) \<Rightarrow> balance k + n | _ \<Rightarrow> balance k)"
proof (induction ps arbitrary: balance)
  case (Cons p ps)
  obtain j x n where p: "p = (j, x, n)" by (metis prod_cases3)
  show ?case
  proof (cases n)
    case (Some m)
    have "map_of ps j = None" using Cons.prems p by (simp add: map_of_eq_None_iff)
    then show ?thesis using Cons p Some by (auto split: option.splits)
  next
    case None
    have "map_of ps j = None" using Cons.prems p by (simp add: map_of_eq_None_iff)
    then show ?thesis using Cons p None by (auto split: option.splits)
  qed
qed simp

lemma map_of_pairs: "map_of (map (\<lambda>k. (k, g k)) ks) k = (if k \<in> set ks then Some (g k) else None)"
  by (induction ks) auto

text \<open>
  For balances, minimum and target of seven decimals below a hundred million XLM, a successful round brings every
  channel that was below the minimum to exactly the target and changes no other balance.
\<close>
theorem replenish_fills:
  assumes "distinct keys" "tp_minBalanceXlm opts = decimal_number M" "tp_targetBalanceXlm opts = decimal_number T"
    and "0 < M" "M < T" "in_range T" "\<And>j. j \<in> set keys \<Longrightarrow> in_range (balance j)"
    and "replenish L opts has_funder now tok keys loads submits (s, balance) = (ToppedUp due, s', balance')"
  shows "balance' k = (if k \<in> set keys \<and> balance k < M then T else balance k)"
proof -
  let ?poor = "filter (\<lambda>k. balance k < M) keys"
  have M: "in_range M" using assms(4-6) by (simp add: in_range_def)
  have poor: "filter (\<lambda>k. \<not> js_le (decimal_number M) (decimal_number (balance k))) keys = ?poor"
    using below_minimum [OF M assms(4)] assms(7) by (intro filter_cong) auto
  have due: "due = map (\<lambda>k. (k, fixed7 (decimal_number (balance k)), fixed7 (js_sub (decimal_number T) (decimal_number (balance k))))) ?poor"
    and b: "balance' = pay_all due balance"
    using assms(8) poor by (auto simp: replenish_def toppedUp_def assms(2,3) Let_def split: if_splits prod.splits)
  have "distinct (map fst due)" using assms(1) by (simp add: due comp_def)
  then have k: "balance' k = (case map_of due k of Some (_, Some n) \<Rightarrow> balance k + n | _ \<Rightarrow> balance k)"
    unfolding b by (rule pay_all_once)
  have look: "map_of due k = (if k \<in> set ?poor
      then Some (fixed7 (decimal_number (balance k)), fixed7 (js_sub (decimal_number T) (decimal_number (balance k)))) else None)"
    unfolding due by (rule map_of_pairs)
  show ?thesis
  proof (cases "k \<in> set ?poor")
    case True
    then have "fixed7 (js_sub (decimal_number T) (decimal_number (balance k))) = Some (T - balance k)"
      using topup_amount [OF assms(6), of "balance k"] assms(5,7) by (simp add: in_range_def)
    then show ?thesis using k look True by simp
  next
    case False
    then have "map_of due k = None" "\<not> (k \<in> set keys \<and> balance k < M)" using look by auto
    then show ?thesis using k by auto
  qed
qed

definition demo_topup :: topup_options where
  "demo_topup = \<lparr>tp_minBalanceXlm = decimal_number (5 * 10 ^ 7), tp_targetBalanceXlm = decimal_number (20 * 10 ^ 7), tp_leaseTtlMs = 60000\<rparr>"

definition demo_balance :: "id \<Rightarrow> int" where
  "demo_balance = (\<lambda>_. 90000000)(''GA'' := 31234567)"

theorem replenish_fills_witness:
  "case replenish mem_lease_store demo_topup True 0 1 [''GA'', ''GB''] True True (empty_leases, demo_balance)
   of (res, s', balance') \<Rightarrow> res = ToppedUp [(''GA'', Some 31234567, Some 168765433)] \<and> balance' ''GA'' = 200000000"
proof -
  obtain res s' b where r: "replenish mem_lease_store demo_topup True 0 1 [''GA'', ''GB''] True True (empty_leases, demo_balance) = (res, s', b)"
    by (metis prod_cases3)
  have poor: "\<not> js_le (decimal_number 50000000) (decimal_number 31234567)" "js_le (decimal_number 50000000) (decimal_number 90000000)"
    using below_minimum [of 50000000 31234567] below_minimum [of 50000000 90000000] by (simp_all add: in_range_def)
  have "fixed7 (decimal_number 31234567) = Some 31234567" "fixed7 (js_sub (decimal_number 200000000) (decimal_number 31234567)) = Some 168765433"
    using fixed7_decimal [of 31234567] topup_amount [of 200000000 31234567] by (simp_all add: in_range_def)
  with r poor have res: "res = ToppedUp [(''GA'', Some 31234567, Some 168765433)]"
    by (auto simp: replenish_def toppedUp_def demo_topup_def demo_balance_def mem_lease_store_def mem_tryLease_def empty_leases_def Let_def)
  have "b ''GA'' = (if ''GA'' \<in> set [''GA'', ''GB''] \<and> demo_balance ''GA'' < 5 * 10 ^ 7 then 20 * 10 ^ 7 else demo_balance ''GA'')"
    by (rule replenish_fills [OF _ _ _ _ _ _ _ r [unfolded res]]) (auto simp: demo_topup_def demo_balance_def in_range_def)
  then have "b ''GA'' = 200000000" by (simp add: demo_balance_def)
  with r res show ?thesis by simp
qed

end
