(* ===== verification/Provider_Health.thy ===== *)
theory Provider_Health
  imports Prelude
begin

text \<open>
  Which mobile money provider a transaction goes to when one is out of order: the health check with its cache
  and circuits (\<^verbatim>\<open>src/services/mobilemoney/providers/healthCheck.ts\<close>), the registry of outages
  (\<^verbatim>\<open>networkOutageFallbackService.ts\<close>), and the watchdog with its incidents (\<^verbatim>\<open>src/jobs/providerHealthCheck.ts\<close>).
  What a ping answers, whether Redis works and what the alarm service does are parameters of each step.
\<close>

section \<open>The health check\<close>

datatype provider = Mtn | Airtel | Orange | Orange_Madagascar | Orange_Guinea | Wave_Senegal | Sms_Portal

datatype ProviderStatus = Up | Down

record ProviderHealth =
  ph_status :: ProviderStatus
  ph_responseTime :: "millis option"

type_synonym health_result = "(provider \<times> ProviderHealth) list"

definition DEFAULT_PROVIDERS :: "provider list" where
  "DEFAULT_PROVIDERS = [Mtn, Airtel, Orange, Orange_Madagascar, Orange_Guinea, Wave_Senegal]"

definition HEALTH_TTL_SECONDS :: int where
  "HEALTH_TTL_SECONDS = 5 * 60"

record CircuitState =
  cs_failures :: nat
  cs_openUntil :: millis

record health_state =
  hs_redis :: "(health_result \<times> millis) option"
  hs_process :: "(health_result \<times> millis) option" \<comment> \<open>\<^verbatim>\<open>_inProcessCache\<close>\<close>
  hs_circuits :: "provider \<Rightarrow> CircuitState"

record health_config =
  hc_failureThreshold :: jsnum
  hc_openDurationMs :: millis

datatype ping_answer = Http nat millis | NoAnswer millis \<comment> \<open>status and duration; an error or a timeout\<close>

definition getCached :: "millis \<Rightarrow> bool \<Rightarrow> health_state \<Rightarrow> health_result option" where
  "getCached now redis st =
     (case (if redis then live now (hs_redis st) else None) of
        Some r \<Rightarrow> Some r
      | None \<Rightarrow> (case hs_process st of Some (r, expiresAt) \<Rightarrow> if now < expiresAt then Some r else None | None \<Rightarrow> None))"

definition setCached :: "millis \<Rightarrow> bool \<Rightarrow> health_result \<Rightarrow> health_state \<Rightarrow> health_state" where
  "setCached now redis r st =
     (if redis then st\<lparr>hs_redis := Some (r, now + HEALTH_TTL_SECONDS * 1000)\<rparr>
      else st\<lparr>hs_process := Some (r, now + HEALTH_TTL_SECONDS * 1000)\<rparr>)"

definition closed_circuit :: CircuitState where
  "closed_circuit = \<lparr>cs_failures = 0, cs_openUntil = 0\<rparr>"

definition isCircuitOpen :: "millis \<Rightarrow> CircuitState \<Rightarrow> bool \<times> CircuitState" where
  "isCircuitOpen now c =
     (if now < cs_openUntil c then (True, c)
      else if cs_openUntil c \<noteq> 0 then (False, c\<lparr>cs_failures := 0, cs_openUntil := 0\<rparr>)
      else (False, c))"

definition recordSuccess :: "CircuitState \<Rightarrow> CircuitState" where
  "recordSuccess c = c\<lparr>cs_failures := 0, cs_openUntil := 0\<rparr>"

definition recordFailure :: "health_config \<Rightarrow> millis \<Rightarrow> CircuitState \<Rightarrow> CircuitState" where
  "recordFailure cfg now c =
     (let c = c\<lparr>cs_failures := cs_failures c + 1\<rparr>
      in if js_le (hc_failureThreshold cfg) (js_int (int (cs_failures c))) then c\<lparr>cs_openUntil := now + hc_openDurationMs cfg\<rparr> else c)"

definition pingProvider :: "health_config \<Rightarrow> millis \<Rightarrow> ping_answer \<Rightarrow> CircuitState \<Rightarrow> ProviderHealth \<times> CircuitState" where
  "pingProvider cfg now answer c =
     (let (is_open, c) = isCircuitOpen now c
      in if is_open then (\<lparr>ph_status = Down, ph_responseTime = None\<rparr>, c)
         else case answer of
           Http status d \<Rightarrow>
             if status < 500 then (\<lparr>ph_status = Up, ph_responseTime = Some d\<rparr>, recordSuccess c)
             else (\<lparr>ph_status = Down, ph_responseTime = Some d\<rparr>, recordFailure cfg (now + d) c)
         | NoAnswer d \<Rightarrow> (\<lparr>ph_status = Down, ph_responseTime = None\<rparr>, recordFailure cfg (now + d) c))"

definition ping_all :: "health_config \<Rightarrow> millis \<Rightarrow> (provider \<Rightarrow> ping_answer) \<Rightarrow> (provider \<Rightarrow> CircuitState) \<Rightarrow>
    health_result \<times> (provider \<Rightarrow> CircuitState)" where
  "ping_all cfg now answers circuits =
     (map (\<lambda>p. (p, fst (pingProvider cfg now (answers p) (circuits p)))) DEFAULT_PROVIDERS,
      (\<lambda>p. if p \<in> set DEFAULT_PROVIDERS then snd (pingProvider cfg now (answers p) (circuits p)) else circuits p))"

definition longest_ping :: "(provider \<Rightarrow> ping_answer) \<Rightarrow> millis" where
  "longest_ping answers = foldr max (map (\<lambda>p. case answers p of Http _ d \<Rightarrow> d | NoAnswer d \<Rightarrow> d) DEFAULT_PROVIDERS) 0"

definition checkMobileMoneyHealth ::
  "health_config \<Rightarrow> millis \<Rightarrow> bool \<Rightarrow> (provider \<Rightarrow> ping_answer) \<Rightarrow> health_state \<Rightarrow> health_result \<times> health_state" where
  "checkMobileMoneyHealth cfg now redis answers st =
     (case getCached now redis st of
        Some r \<Rightarrow> (r, st)
      | None \<Rightarrow> let (r, circuits) = ping_all cfg now answers (hs_circuits st)
          in (r, setCached (now + longest_ping answers) redis r (st\<lparr>hs_circuits := circuits\<rparr>)))"

section \<open>The registry of outages\<close>

record OutageRecord =
  out_detectedAt :: millis
  out_failureCount :: nat
  out_lastCheckedAt :: "millis option"

record outage_service =
  os_outages :: "(provider \<times> OutageRecord) list" \<comment> \<open>\<^verbatim>\<open>outageMap\<close>, in the order of insertion\<close>
  os_failures :: "provider \<Rightarrow> nat" \<comment> \<open>\<^verbatim>\<open>failureCounts\<close>, 0 where there is no entry\<close>

record FallbackDecision =
  fd_resolvedProvider :: provider
  fd_didFallback :: bool
  fd_outage :: "OutageRecord option"

fun PROVIDER_FALLBACK_MAP :: "provider \<Rightarrow> provider list" where
  "PROVIDER_FALLBACK_MAP Mtn = [Airtel, Orange, Sms_Portal]"
| "PROVIDER_FALLBACK_MAP Airtel = [Mtn, Orange, Sms_Portal]"
| "PROVIDER_FALLBACK_MAP Orange = [Mtn, Airtel, Sms_Portal]"
| "PROVIDER_FALLBACK_MAP Orange_Madagascar = [Orange, Sms_Portal]"
| "PROVIDER_FALLBACK_MAP Orange_Guinea = [Orange, Sms_Portal]"
| "PROVIDER_FALLBACK_MAP Wave_Senegal = [Orange, Sms_Portal]"
| "PROVIDER_FALLBACK_MAP Sms_Portal = []"

definition isProviderDown :: "provider \<Rightarrow> outage_service \<Rightarrow> bool" where
  "isProviderDown p s \<longleftrightarrow> map_of (os_outages s) p \<noteq> None"

definition resolveProvider :: "provider \<Rightarrow> outage_service \<Rightarrow> FallbackDecision" where
  "resolveProvider requested s = (case map_of (os_outages s) requested of
     None \<Rightarrow> \<lparr>fd_resolvedProvider = requested, fd_didFallback = False, fd_outage = None\<rparr>
   | Some outage \<Rightarrow> (case find (\<lambda>c. \<not> isProviderDown c s) (PROVIDER_FALLBACK_MAP requested) of
       Some candidate \<Rightarrow> \<lparr>fd_resolvedProvider = candidate, fd_didFallback = True, fd_outage = Some outage\<rparr>
     | None \<Rightarrow> \<lparr>fd_resolvedProvider = requested, fd_didFallback = False, fd_outage = Some outage\<rparr>))"

definition markProviderDown :: "millis \<Rightarrow> provider \<Rightarrow> nat \<Rightarrow> outage_service \<Rightarrow> outage_service" where
  "markProviderDown now p n s =
     (if isProviderDown p s then s
      else s\<lparr>os_outages := os_outages s @ [(p, \<lparr>out_detectedAt = now, out_failureCount = n, out_lastCheckedAt = None\<rparr>)]\<rparr>)"

definition markProviderUp :: "provider \<Rightarrow> outage_service \<Rightarrow> outage_service" where
  "markProviderUp p s =
     (if isProviderDown p s
      then s\<lparr>os_outages := filter (\<lambda>x. fst x \<noteq> p) (os_outages s), os_failures := (os_failures s)(p := 0)\<rparr> else s)"

definition recordProviderFailure :: "nat \<Rightarrow> millis \<Rightarrow> provider \<Rightarrow> outage_service \<Rightarrow> outage_service" where
  "recordProviderFailure threshold now p s =
     (let n = os_failures s p + 1; s = s\<lparr>os_failures := (os_failures s)(p := n)\<rparr>
      in if threshold \<le> n \<and> \<not> isProviderDown p s then markProviderDown now p n s else s)"

definition recover_one :: "millis \<Rightarrow> health_result \<Rightarrow> provider \<Rightarrow> outage_service \<Rightarrow> outage_service" where
  "recover_one now result p s = (case map_of result p of
     None \<Rightarrow> s
   | Some health \<Rightarrow>
       let s = s\<lparr>os_outages := map (\<lambda>(q, r). (q, if q = p then r\<lparr>out_lastCheckedAt := Some now\<rparr> else r)) (os_outages s)\<rparr>
       in if ph_status health = Up then markProviderUp p s else s)"

definition recover_all :: "millis \<Rightarrow> health_result \<Rightarrow> outage_service \<Rightarrow> outage_service" where
  "recover_all now result s = fold (recover_one now result) (map fst (os_outages s)) s"

definition no_outages :: outage_service where
  "no_outages = \<lparr>os_outages = [], os_failures = (\<lambda>_. 0)\<rparr>"

section \<open>The watchdog and its incidents\<close>

record watch_world =
  ww_now :: millis
  ww_health :: health_state
  ww_outages :: outage_service
  ww_incidents :: "(provider \<times> millis) list" \<comment> \<open>\<^verbatim>\<open>activeIncidents\<close>\<close>

datatype watch_act =
    Pass millis
  | Failure provider
  | MarkDown provider nat
  | MarkUp provider
  | RecoveryCheck bool "provider \<Rightarrow> ping_answer"
  | Watchdog bool "provider \<Rightarrow> ping_answer" "provider \<Rightarrow> bool" \<comment> \<open>which calls of the alarm service throw\<close>

definition runRecoveryCheck :: "health_config \<Rightarrow> bool \<Rightarrow> (provider \<Rightarrow> ping_answer) \<Rightarrow> watch_world \<Rightarrow> watch_world" where
  "runRecoveryCheck cfg redis answers w =
     (if os_outages (ww_outages w) = [] then w
      else let (result, st) = checkMobileMoneyHealth cfg (ww_now w) redis answers (ww_health w)
           in w\<lparr>ww_health := st, ww_outages := recover_all (ww_now w) result (ww_outages w)\<rparr>)"

definition incident_step :: "millis \<Rightarrow> (provider \<Rightarrow> bool) \<Rightarrow> provider \<times> ProviderHealth \<Rightarrow> (provider \<times> millis) list \<Rightarrow> (provider \<times> millis) list" where
  "incident_step now throws x inc =
     (let p = fst x in case (ph_status (snd x), map_of inc p) of
        (Down, None) \<Rightarrow> if throws p then inc else inc @ [(p, now)]
      | (Up, Some _) \<Rightarrow> if throws p then inc else filter (\<lambda>y. fst y \<noteq> p) inc
      | _ \<Rightarrow> inc)"

definition runProviderHealthCheckJob :: "health_config \<Rightarrow> bool \<Rightarrow> (provider \<Rightarrow> ping_answer) \<Rightarrow> (provider \<Rightarrow> bool) \<Rightarrow> watch_world \<Rightarrow> watch_world" where
  "runProviderHealthCheckJob cfg redis answers throws w =
     (let (result, st) = checkMobileMoneyHealth cfg (ww_now w) redis answers (ww_health w);
          downs = filter (\<lambda>x. ph_status (snd x) = Down) result; ups = filter (\<lambda>x. ph_status (snd x) \<noteq> Down) result
      in w\<lparr>ww_health := st, ww_incidents := fold (incident_step (ww_now w) throws) (downs @ ups) (ww_incidents w)\<rparr>)"

fun watch_step :: "health_config \<Rightarrow> nat \<Rightarrow> watch_act \<Rightarrow> watch_world \<Rightarrow> watch_world" where
  "watch_step cfg threshold (Pass d) w = w\<lparr>ww_now := ww_now w + max 0 d\<rparr>"
| "watch_step cfg threshold (Failure p) w = w\<lparr>ww_outages := recordProviderFailure threshold (ww_now w) p (ww_outages w)\<rparr>"
| "watch_step cfg threshold (MarkDown p n) w = w\<lparr>ww_outages := markProviderDown (ww_now w) p n (ww_outages w)\<rparr>"
| "watch_step cfg threshold (MarkUp p) w = w\<lparr>ww_outages := markProviderUp p (ww_outages w)\<rparr>"
| "watch_step cfg threshold (RecoveryCheck redis answers) w = runRecoveryCheck cfg redis answers w"
| "watch_step cfg threshold (Watchdog redis answers throws) w = runProviderHealthCheckJob cfg redis answers throws w"

definition watch_run :: "health_config \<Rightarrow> nat \<Rightarrow> watch_act list \<Rightarrow> watch_world \<Rightarrow> watch_world" where
  "watch_run cfg threshold acts w = fold (watch_step cfg threshold) acts w"

definition quiet_world :: "millis \<Rightarrow> watch_world" where
  "quiet_world now = \<lparr>ww_now = now, ww_health = \<lparr>hs_redis = None, hs_process = None, hs_circuits = (\<lambda>_. closed_circuit)\<rparr>,
     ww_outages = no_outages, ww_incidents = []\<rparr>"

end
