(* ===== verification/Provider_Health_Safety.thy ===== *)
theory Provider_Health_Safety
  imports Provider_Health
begin

text \<open>
  What the registry of outages promises: a transaction is sent to a provider that is not known to be down, if
  there is one, and a provider with enough failures is known to be down. The rest shows where it falls short of
  its description: failures never expire, a cached health check ends an outage that began after it, and an
  outage of the SMS portal never ends.
\<close>

section \<open>Resolution\<close>

text \<open>
  The provider that is chosen is not in an outage, unless the requested one and all its alternatives are; and it
  differs from the requested one exactly if the decision says so.
\<close>
theorem resolve_avoids_outages:
  "let d = resolveProvider p s; q = fd_resolvedProvider d
   in (isProviderDown q s \<longleftrightarrow> isProviderDown p s \<and> list_all (\<lambda>c. isProviderDown c s) (PROVIDER_FALLBACK_MAP p)) \<and>
      (fd_didFallback d \<longleftrightarrow> q \<noteq> p) \<and> (q = p \<or> q \<in> set (PROVIDER_FALLBACK_MAP p))"
proof (cases "map_of (os_outages s) p")
  case None
  then show ?thesis by (simp add: resolveProvider_def isProviderDown_def Let_def)
next
  case (Some r)
  have own: "p \<notin> set (PROVIDER_FALLBACK_MAP p)" by (cases p) simp_all
  show ?thesis
  proof (cases "find (\<lambda>c. \<not> isProviderDown c s) (PROVIDER_FALLBACK_MAP p)")
    case None
    then have "list_all (\<lambda>c. isProviderDown c s) (PROVIDER_FALLBACK_MAP p)" by (auto simp: find_None_iff list_all_iff)
    moreover have "isProviderDown p s" using Some by (simp add: isProviderDown_def)
    ultimately show ?thesis using Some None by (simp add: resolveProvider_def Let_def)
  next
    case (Some c)
    note c = find_SomeD [OF Some]
    have "resolveProvider p s = \<lparr>fd_resolvedProvider = c, fd_didFallback = True, fd_outage = Some r\<rparr>"
      using \<open>map_of (os_outages s) p = Some r\<close> Some by (simp add: resolveProvider_def)
    then show ?thesis using c own by (auto simp: list_all_iff Let_def)
  qed
qed

section \<open>The registry\<close>

definition registry_ok :: "nat \<Rightarrow> outage_service \<Rightarrow> bool" where
  "registry_ok threshold s \<longleftrightarrow> distinct (map fst (os_outages s)) \<and> (\<forall>p. threshold \<le> os_failures s p \<longrightarrow> isProviderDown p s)"

lemma down_iff: "isProviderDown p s \<longleftrightarrow> p \<in> fst ` set (os_outages s)"
  by (auto simp: isProviderDown_def map_of_eq_None_iff)

lemma down_mark_down: "isProviderDown q (markProviderDown now p n s) \<longleftrightarrow> isProviderDown q s \<or> q = p"
  by (auto simp: markProviderDown_def down_iff)

lemma down_mark_up: "isProviderDown q (markProviderUp p s) \<longleftrightarrow> isProviderDown q s \<and> q \<noteq> p"
proof -
  have "fst ` set (filter (\<lambda>x. fst x \<noteq> p) xs) = fst ` set xs - {p}" for xs :: "(provider \<times> OutageRecord) list" by auto
  then show ?thesis by (auto simp: markProviderUp_def down_iff)
qed

lemma down_failure: "isProviderDown q (recordProviderFailure threshold now p s) \<longleftrightarrow>
    isProviderDown q s \<or> q = p \<and> threshold \<le> os_failures s p + 1"
proof -
  have "isProviderDown q (s\<lparr>os_failures := f\<rparr>) = isProviderDown q s" for q f by (simp add: isProviderDown_def)
  then show ?thesis by (auto simp: recordProviderFailure_def Let_def down_mark_down)
qed

lemma failures_failure: "os_failures (recordProviderFailure threshold now p s) = (os_failures s)(p := os_failures s p + 1)"
  by (simp add: recordProviderFailure_def markProviderDown_def Let_def)

lemma registry_mark_up: "0 < threshold \<Longrightarrow> registry_ok threshold s \<Longrightarrow> registry_ok threshold (markProviderUp p s)"
  using down_mark_up [of _ p s] by (auto simp: registry_ok_def markProviderUp_def distinct_map_filter)

lemma registry_mark_down: "registry_ok threshold s \<Longrightarrow> registry_ok threshold (markProviderDown now p n s)"
  using down_mark_down [of _ now p n s] by (auto simp: registry_ok_def markProviderDown_def down_iff)

lemma registry_failure: "registry_ok threshold s \<Longrightarrow> registry_ok threshold (recordProviderFailure threshold now p s)"
proof -
  assume s: "registry_ok threshold s"
  have "distinct (map fst (os_outages (recordProviderFailure threshold now p s)))"
    using s by (auto simp: registry_ok_def recordProviderFailure_def markProviderDown_def Let_def down_iff)
  then show "registry_ok threshold (recordProviderFailure threshold now p s)"
    using s by (auto simp: registry_ok_def down_failure failures_failure)
qed

definition checked :: "millis \<Rightarrow> provider \<Rightarrow> outage_service \<Rightarrow> outage_service" where
  "checked now p s = s\<lparr>os_outages := map (\<lambda>(q, r). (q, if q = p then r\<lparr>out_lastCheckedAt := Some now\<rparr> else r)) (os_outages s)\<rparr>"

lemma checked_simps [simp]:
  "map fst (os_outages (checked now p s)) = map fst (os_outages s)" "os_failures (checked now p s) = os_failures s"
  "isProviderDown q (checked now p s) = isProviderDown q s"
  by (auto simp: checked_def down_iff image_iff split_beta comp_def)

lemma recover_one_eq: "recover_one now result p s = (case map_of result p of None \<Rightarrow> s
    | Some h \<Rightarrow> if ph_status h = Up then markProviderUp p (checked now p s) else checked now p s)"
  by (simp add: recover_one_def checked_def Let_def split: option.split)

definition says_up :: "health_result \<Rightarrow> provider \<Rightarrow> bool" where
  "says_up result p \<longleftrightarrow> (case map_of result p of Some h \<Rightarrow> ph_status h = Up | None \<Rightarrow> False)"

lemma down_recover_one: "isProviderDown q (recover_one now result p s) \<longleftrightarrow> isProviderDown q s \<and> \<not> (q = p \<and> says_up result p)"
  by (auto simp: recover_one_eq says_up_def down_mark_up split: option.splits)

lemma down_recover_fold: "isProviderDown q (fold (recover_one now result) ps s) \<longleftrightarrow> isProviderDown q s \<and> \<not> (q \<in> set ps \<and> says_up result q)"
  by (induction ps arbitrary: s) (auto simp: down_recover_one)

lemma down_recover_all: "isProviderDown q (recover_all now result s) \<longleftrightarrow> isProviderDown q s \<and> \<not> says_up result q"
  by (auto simp: recover_all_def down_recover_fold) (simp add: down_iff)

lemma registry_recover: "0 < threshold \<Longrightarrow> registry_ok threshold s \<Longrightarrow> registry_ok threshold (recover_all now result s)"
proof -
  assume t: "0 < threshold"
  have "registry_ok threshold (checked now p s)" if "registry_ok threshold s" for p s using that by (simp add: registry_ok_def)
  then have "registry_ok threshold (recover_one now result p s)" if "registry_ok threshold s" for p s
    using that registry_mark_up [OF t] by (auto simp: recover_one_eq split: option.splits)
  then have "registry_ok threshold s \<Longrightarrow> registry_ok threshold (fold (recover_one now result) ps s)" for ps
    by (induction ps arbitrary: s) auto
  then show "registry_ok threshold s \<Longrightarrow> registry_ok threshold (recover_all now result s)" by (simp add: recover_all_def)
qed

lemma registry_step: "0 < threshold \<Longrightarrow> registry_ok threshold (ww_outages w) \<Longrightarrow> registry_ok threshold (ww_outages (watch_step cfg threshold a w))"
  by (cases a) (auto simp: registry_failure registry_mark_down registry_mark_up registry_recover runRecoveryCheck_def
    runProviderHealthCheckJob_def Let_def split: prod.splits)

lemma registry_run: "0 < threshold \<Longrightarrow> registry_ok threshold (ww_outages w) \<Longrightarrow> registry_ok threshold (ww_outages (watch_run cfg threshold acts w))"
  unfolding watch_run_def by (induction acts arbitrary: w) (auto intro: registry_step)

text \<open>
  Whatever fails, recovers and is marked, a provider has at most one outage, and one whose counted failures have
  reached the threshold is known to be down.
\<close>
theorem failing_provider_is_down:
  assumes "0 < threshold" "threshold \<le> os_failures (ww_outages (watch_run cfg threshold acts (quiet_world now))) p"
  shows "length (filter (\<lambda>x. fst x = p) (os_outages (ww_outages (watch_run cfg threshold acts (quiet_world now))))) = 1"
proof -
  let ?s = "ww_outages (watch_run cfg threshold acts (quiet_world now))"
  have "registry_ok threshold (ww_outages (quiet_world now))" using assms(1) by (simp add: registry_ok_def quiet_world_def no_outages_def)
  then have r: "registry_ok threshold ?s" by (rule registry_run [OF assms(1)])
  have "isProviderDown p ?s" using r assms(2) by (simp add: registry_ok_def)
  then obtain x where x: "x \<in> set (os_outages ?s)" "fst x = p" by (auto simp: down_iff)
  have d: "distinct (map fst (os_outages ?s))" using r by (simp add: registry_ok_def)
  have "distinct (map fst xs) \<Longrightarrow> x \<in> set xs \<Longrightarrow> fst x = p \<Longrightarrow> length (filter (\<lambda>x. fst x = p) xs) = 1"
    for xs :: "(provider \<times> OutageRecord) list"
  proof (induction xs)
    case (Cons y ys)
    show ?case
    proof (cases "fst y = p")
      case True
      then have "filter (\<lambda>x. fst x = p) ys = []" using Cons.prems(1) by (auto simp: filter_empty_conv image_iff)
      then show ?thesis using True by simp
    next
      case False
      then show ?thesis using Cons by auto
    qed
  qed simp
  then show ?thesis using d x by blast
qed

definition demo_health :: health_config where
  "demo_health = \<lparr>hc_failureThreshold = js_int 3, hc_openDurationMs = 60000\<rparr>"

theorem failing_provider_is_down_witness:
  "length (filter (\<lambda>x. fst x = Mtn) (os_outages (ww_outages (watch_run demo_health 3
     [Failure Mtn, Pass 5, Failure Mtn, Failure Airtel, Failure Mtn, MarkDown Mtn 9, Failure Mtn] (quiet_world 0))))) = 1"
proof -
  let ?acts = "[Failure Mtn, Pass 5, Failure Mtn, Failure Airtel, Failure Mtn, MarkDown Mtn 9, Failure Mtn]"
  have "(3 :: nat) \<le> os_failures (ww_outages (watch_run demo_health 3 ?acts (quiet_world 0))) Mtn" by code_simp
  from failing_provider_is_down [OF _ this] show ?thesis by simp
qed

section \<open>Failures never expire\<close>

fun failure_of :: "provider \<Rightarrow> watch_act \<Rightarrow> bool" where
  "failure_of p (Failure q) \<longleftrightarrow> q = p"
| "failure_of p _ \<longleftrightarrow> False"

fun failure_or_pause :: "watch_act \<Rightarrow> bool" where
  "failure_or_pause (Failure q) \<longleftrightarrow> True"
| "failure_or_pause (Pass d) \<longleftrightarrow> True"
| "failure_or_pause _ \<longleftrightarrow> False"

lemma failures_count: "list_all failure_or_pause acts \<Longrightarrow> 0 < threshold \<Longrightarrow>
    isProviderDown p (ww_outages w) = (threshold \<le> os_failures (ww_outages w) p) \<Longrightarrow>
    isProviderDown p (ww_outages (watch_run cfg threshold acts w)) \<longleftrightarrow>
      threshold \<le> os_failures (ww_outages w) p + length (filter (failure_of p) acts)"
proof (induction acts arbitrary: w)
  case (Cons a acts)
  show ?case
  proof (cases a)
    case (Failure q)
    then show ?thesis using Cons.prems Cons.IH [of "watch_step cfg threshold a w"]
      by (auto simp: watch_run_def down_failure failures_failure)
  next
    case (Pass d)
    then show ?thesis using Cons.prems Cons.IH [of "watch_step cfg threshold a w"] by (simp add: watch_run_def)
  qed (use Cons.prems in simp_all)
qed (simp add: watch_run_def)

text \<open>
  Between two clearings a provider is down exactly if the failures recorded for it reach the threshold, however far
  apart they lie: nothing forgets a failure, and a payment that succeeds in between has no effect.
\<close>
theorem failures_never_expire:
  assumes "0 < threshold" "list_all failure_or_pause acts"
  shows "isProviderDown p (ww_outages (watch_run cfg threshold acts (quiet_world now))) \<longleftrightarrow>
    threshold \<le> length (filter (failure_of p) acts)"
proof -
  have "isProviderDown p (ww_outages (quiet_world now)) = (threshold \<le> os_failures (ww_outages (quiet_world now)) p)"
    using assms(1) by (simp add: quiet_world_def no_outages_def isProviderDown_def)
  then show ?thesis using failures_count [OF assms(2,1), of p "quiet_world now" cfg] by (simp add: quiet_world_def no_outages_def)
qed

theorem failures_never_expire_witness:
  "isProviderDown Orange (ww_outages (watch_run demo_health 3
     [Failure Orange, Pass (10 ^ 9), Failure Orange, Pass (10 ^ 9), Failure Orange] (quiet_world 0)))"
  using failures_never_expire [of 3 "[Failure Orange, Pass (10 ^ 9), Failure Orange, Pass (10 ^ 9), Failure Orange]" Orange demo_health 0]
  by simp

section \<open>Recovery from a cached check\<close>

text \<open>
  While a cached health check says that a provider is up, the recovery check ends any outage of it, although the
  outage began after the check was made and whatever a ping would answer now.
\<close>
theorem cached_check_ends_outage:
  assumes "getCached (ww_now w) redis (ww_health w) = Some r" "says_up r p"
  shows "fd_resolvedProvider (resolveProvider p (ww_outages (runRecoveryCheck cfg redis answers w))) = p"
proof -
  have "\<not> isProviderDown p (ww_outages (runRecoveryCheck cfg redis answers w))"
    using assms by (simp add: runRecoveryCheck_def checkMobileMoneyHealth_def down_recover_all) (simp add: down_iff)
  then show ?thesis by (simp add: resolveProvider_def isProviderDown_def)
qed

definition after_check :: watch_world where
  "after_check = watch_run demo_health 3
     [Watchdog True (\<lambda>_. Http 200 5) (\<lambda>_. False), Pass 1000, Failure Mtn, Failure Mtn, Failure Mtn, Pass 30000] (quiet_world 0)"

theorem cached_check_ends_outage_witness:
  "isProviderDown Mtn (ww_outages after_check) \<and>
   fd_resolvedProvider (resolveProvider Mtn (ww_outages (runRecoveryCheck demo_health True (\<lambda>_. NoAnswer 5000) after_check))) = Mtn"
proof -
  have "isProviderDown Mtn (ww_outages after_check) \<and> getCached (ww_now after_check) True (ww_health after_check) \<noteq> None \<and>
    says_up (the (getCached (ww_now after_check) True (ww_health after_check))) Mtn" by code_simp
  then obtain r where "isProviderDown Mtn (ww_outages after_check)"
    "getCached (ww_now after_check) True (ww_health after_check) = Some r" "says_up r Mtn" by auto
  then show ?thesis using cached_check_ends_outage by simp
qed

section \<open>The SMS portal\<close>

definition pinged_only :: "health_state \<Rightarrow> bool" where
  "pinged_only st \<longleftrightarrow> (\<forall>r e. hs_redis st = Some (r, e) \<or> hs_process st = Some (r, e) \<longrightarrow> map_of r Sms_Portal = None)"

lemma check_pinged_only:
  assumes "pinged_only st" "checkMobileMoneyHealth cfg now redis answers st = (r, st')"
  shows "pinged_only st' \<and> map_of r Sms_Portal = None"
proof (cases "getCached now redis st")
  case None
  have "ping_all cfg now answers c = (r, c') \<Longrightarrow> map_of r Sms_Portal = None" for c r c'
    by (auto simp: ping_all_def DEFAULT_PROVIDERS_def)
  then show ?thesis using assms None
    by (auto simp: checkMobileMoneyHealth_def pinged_only_def setCached_def split: prod.splits if_splits) 
next
  case (Some r0)
  then show ?thesis using assms
    by (auto simp: checkMobileMoneyHealth_def pinged_only_def getCached_def live_def split: option.splits if_splits prod.splits)
qed

definition clears_sms :: "watch_act \<Rightarrow> bool" where
  "clears_sms a \<longleftrightarrow> (case a of MarkUp p \<Rightarrow> p = Sms_Portal | _ \<Rightarrow> False)"

lemma pinged_step: "pinged_only (ww_health w) \<Longrightarrow> pinged_only (ww_health (watch_step cfg threshold a w))"
  using check_pinged_only by (cases a) (fastforce simp: runRecoveryCheck_def runProviderHealthCheckJob_def Let_def split: prod.splits)+

lemma sms_step:
  assumes "pinged_only (ww_health w)" "isProviderDown Sms_Portal (ww_outages w)" "\<not> clears_sms a"
  shows "isProviderDown Sms_Portal (ww_outages (watch_step cfg threshold a w))"
proof (cases a)
  case (RecoveryCheck redis answers)
  obtain r st where c: "checkMobileMoneyHealth cfg (ww_now w) redis answers (ww_health w) = (r, st)" by fastforce
  then have "\<not> says_up r Sms_Portal" using check_pinged_only [OF assms(1) c] by (simp add: says_up_def)
  then show ?thesis using RecoveryCheck c assms(2) by (simp add: runRecoveryCheck_def down_recover_all)
qed (use assms in \<open>auto simp: down_failure down_mark_down down_mark_up clears_sms_def runProviderHealthCheckJob_def Let_def split: prod.splits\<close>)

lemma pinged_run: "pinged_only (ww_health w) \<Longrightarrow> pinged_only (ww_health (watch_run cfg threshold acts w))"
  unfolding watch_run_def by (induction acts arbitrary: w) (auto intro: pinged_step)

lemma sms_run: "pinged_only (ww_health w) \<Longrightarrow> isProviderDown Sms_Portal (ww_outages w) \<Longrightarrow> list_all (\<lambda>a. \<not> clears_sms a) acts \<Longrightarrow>
    isProviderDown Sms_Portal (ww_outages (watch_run cfg threshold acts w))"
  unfolding watch_run_def by (induction acts arbitrary: w) (auto intro: pinged_step sms_step)

text \<open>
  The SMS portal is not pinged, so an outage of it never ends by itself: however many recovery checks run and
  whatever they find, it stays down until somebody marks it up by hand.
\<close>
theorem sms_portal_never_recovers:
  assumes "isProviderDown Sms_Portal (ww_outages (watch_run cfg threshold acts (quiet_world now)))"
    and "list_all (\<lambda>a. \<not> clears_sms a) later"
  shows "isProviderDown Sms_Portal (ww_outages (watch_run cfg threshold (acts @ later) (quiet_world now)))"
proof -
  have "pinged_only (ww_health (watch_run cfg threshold acts (quiet_world now)))"
    by (rule pinged_run) (simp add: pinged_only_def quiet_world_def)
  from sms_run [OF this assms] show ?thesis by (simp add: watch_run_def)
qed

theorem sms_portal_never_recovers_witness:
  "isProviderDown Sms_Portal (ww_outages (watch_run demo_health 3 ([Failure Sms_Portal, Failure Sms_Portal, Failure Sms_Portal] @
     [Pass 600000, RecoveryCheck True (\<lambda>_. Http 200 5), Pass 600000, RecoveryCheck False (\<lambda>_. Http 200 5)]) (quiet_world 0)))"
  by (rule sms_portal_never_recovers) (code_simp, simp add: clears_sms_def)

end
