(* ===== verification/Aml_Velocity.thy ===== *)
theory Aml_Velocity
  imports Transaction_Status Decimal
begin

text \<open>
  Velocity monitoring (\<^verbatim>\<open>src/services/amlVelocityService.ts\<close>, with its callers in
  \<^verbatim>\<open>src/controllers/transactionController.ts\<close> and \<^verbatim>\<open>src/controllers/amlAuditController.ts\<close>): the volume a
  customer moves in rolling windows, the hold of a transaction that exceeds a threshold, and its
  release by a compliance officer. The amounts of the table are exact decimals; \<^verbatim>\<open>Number\<close> of their sum
  is rounded. Requests and officers perform one awaited call per step; a step is given what the
  call answers.
\<close>

section \<open>Windows and volumes\<close>

datatype VelocityWindowName = OneHour | OneDay | ThirtyDays

record VelocityWindowConfig =
  vw_name :: VelocityWindowName
  vw_durationMs :: millis
  vw_thresholdXaf :: jsnum

definition HOUR_MS :: millis where "HOUR_MS = 60 * 60 * 1000"

definition numberFromEnv :: "jsnum \<Rightarrow> jsnum \<Rightarrow> jsnum" where
  \<comment> \<open>the first argument is \<^verbatim>\<open>Number(process.env[name])\<close>\<close>
  "numberFromEnv parsed fallback = (if js_isFinite parsed \<and> js_lt (Fin 0) parsed then parsed else fallback)"

definition getVelocityWindows :: "(VelocityWindowName \<Rightarrow> jsnum) \<Rightarrow> VelocityWindowConfig list" where
  "getVelocityWindows env =
     [\<lparr>vw_name = OneHour, vw_durationMs = HOUR_MS, vw_thresholdXaf = numberFromEnv (env OneHour) (Fin 2000000)\<rparr>,
      \<lparr>vw_name = OneDay, vw_durationMs = 24 * HOUR_MS, vw_thresholdXaf = numberFromEnv (env OneDay) (Fin 5000000)\<rparr>,
      \<lparr>vw_name = ThirtyDays, vw_durationMs = 30 * 24 * HOUR_MS, vw_thresholdXaf = numberFromEnv (env ThirtyDays) (Fin 30000000)\<rparr>]"

record VelocityWindowVolume =
  vv_volume :: jsnum
  vv_count :: jsnum

type_synonym VelocityVolumes = "VelocityWindowName \<Rightarrow> VelocityWindowVolume"

definition counted :: "transaction \<Rightarrow> bool" where
  \<comment> \<open>the rows that the query sums\<close>
  "counted t \<longleftrightarrow> tx_status t \<notin> {Failed, Cancelled, Expired}"

definition velocity_rows :: "id \<Rightarrow> millis \<Rightarrow> id option \<Rightarrow> transaction list \<Rightarrow> transaction list" where
  "velocity_rows userId since exclude txs = filter (\<lambda>t. tx_user t = Some userId \<and> since \<le> tx_created t \<and>
     (case exclude of Some i \<Rightarrow> tx_id t \<noteq> i | None \<Rightarrow> True) \<and> counted t) txs"

definition volume_units :: "transaction list \<Rightarrow> int" where
  \<comment> \<open>\<^verbatim>\<open>SUM(amount)\<close>, in units of the seventh decimal\<close>
  "volume_units ts = sum_list (map (\<lambda>t. amount_units (tx_amount t)) ts)"

definition getRollingVolumes ::
  "id \<Rightarrow> millis \<Rightarrow> id option \<Rightarrow> VelocityWindowConfig list \<Rightarrow> transaction list \<Rightarrow> VelocityVolumes" where
  "getRollingVolumes userId now exclude windows txs = (\<lambda>name.
     let widest = now - foldr max (map vw_durationMs windows) 0;
         start = (case find (\<lambda>w. vw_name w = name) windows of Some w \<Rightarrow> now - vw_durationMs w | None \<Rightarrow> widest);
         rows = velocity_rows userId widest exclude txs;
         inside = (if name = ThirtyDays then rows else filter (\<lambda>t. start \<le> tx_created t) rows)
     in \<lparr>vv_volume = decimal_number (volume_units inside), vv_count = js_int (int (length inside))\<rparr>)"

record VelocityHit =
  rh_window :: VelocityWindowName
  rh_observed :: jsnum
  rh_threshold :: jsnum
  rh_count :: jsnum \<comment> \<open>in the message\<close>

record VelocityEvaluation =
  ve_breached :: bool
  ve_ruleHits :: "VelocityHit list"
  ve_projected :: "(VelocityWindowName \<times> jsnum) list"

definition evaluateVelocity :: "jsnum \<Rightarrow> VelocityVolumes \<Rightarrow> VelocityWindowConfig list \<Rightarrow> VelocityEvaluation" where
  "evaluateVelocity amount volumes windows =
     (let total = (\<lambda>w. js_add (vv_volume (volumes (vw_name w))) amount);
          hits = map (\<lambda>w. \<lparr>rh_window = vw_name w, rh_observed = total w, rh_threshold = vw_thresholdXaf w,
                rh_count = js_add (vv_count (volumes (vw_name w))) (Fin 1)\<rparr>)
              (filter (\<lambda>w. js_lt (vw_thresholdXaf w) (total w)) windows)
      in \<lparr>ve_breached = (0 < length hits), ve_ruleHits = hits, ve_projected = map (\<lambda>w. (vw_name w, total w)) windows\<rparr>)"

section \<open>Holding and resolving\<close>

definition hold_for_review :: "millis \<Rightarrow> id \<Rightarrow> transaction list \<Rightarrow> bool \<times> transaction list \<times> tx_effect list" where
  \<comment> \<open>the status write of \<^verbatim>\<open>enforce\<close>\<close>
  "hold_for_review now i txs = updateStatus now i PendingReview None (Some [Pending]) txs"

datatype decision = Release | Reject

definition resolve_status :: "millis \<Rightarrow> id \<Rightarrow> decision \<Rightarrow> transaction list \<Rightarrow> bool \<times> transaction list \<times> tx_effect list" where
  \<comment> \<open>the status write of \<^verbatim>\<open>resolveHold\<close>\<close>
  "resolve_status now i d txs =
     updateStatus now i (case d of Release \<Rightarrow> Pending | Reject \<Rightarrow> Cancelled) None (Some [PendingReview]) txs"

datatype VelocityAlertStatus = PendingAlert | Reviewed | Dismissed

record VelocityAlert =
  al_id :: id
  al_transactionId :: id
  al_high :: bool
  al_status :: VelocityAlertStatus

section \<open>Requests and officers\<close>

datatype answer =
    Ok
  | Verdict bool \<comment> \<open>what an external check says: true refuses\<close>
  | Error bool \<comment> \<open>the call throws; whether it took effect\<close>

datatype request_pc =
    Approving id \<comment> \<open>\<^verbatim>\<open>applySEP08Verification\<close>\<close>
  | Measuring id
  | Holding id "VelocityHit list"
  | Recording id "VelocityHit list" \<comment> \<open>alert, tags, metadata and notes\<close>
  | Dispatching id
  | RequestHeld id
  | RequestQueued id
  | RequestFailed id

datatype officer_pc =
    Deciding id decision
  | Noting id decision
  | Requeueing id
  | Resolved bool
  | OfficerFailed

record intake =
  in_now :: millis
  in_txs :: "transaction list"
  in_jobs :: "id list" \<comment> \<open>transactions that \<^verbatim>\<open>addTransactionJob\<close> accepted, newest first\<close>
  in_alerts :: "VelocityAlert list"
  in_requests :: "request_pc list"
  in_officers :: "officer_pc list"

record new_transaction =
  nt_id :: id
  nt_user :: id
  nt_amount :: string
  nt_provider :: string
  nt_deposit :: bool

definition create :: "millis \<Rightarrow> new_transaction \<Rightarrow> transaction list \<Rightarrow> transaction list" where
  \<comment> \<open>the \<^verbatim>\<open>INSERT\<close>, with the status and the user of a customer's request\<close>
  "create now n txs = txs @ [\<lparr>tx_id = nt_id n, tx_reference = nt_id n, tx_amount = nt_amount n, tx_phone = [],
     tx_provider = nt_provider n, tx_status = Pending, tx_user = Some (nt_user n), tx_created = now, tx_updated = now\<rparr>]"

definition raiseVelocityAlert :: "id \<Rightarrow> VelocityHit list \<Rightarrow> VelocityAlert list \<Rightarrow> VelocityAlert list" where
  "raiseVelocityAlert i hits als = \<lparr>al_id = i, al_transactionId = i, al_high = (1 < length hits), al_status = PendingAlert\<rparr> # als"

definition measure :: "(VelocityWindowName \<Rightarrow> jsnum) \<Rightarrow> id \<Rightarrow> transaction list \<Rightarrow> request_pc" where
  \<comment> \<open>\<^verbatim>\<open>applyAMLVelocityHold\<close> and \<^verbatim>\<open>enforce\<close> up to the evaluation\<close>
  "measure env i txs = (case find (\<lambda>t. tx_id t = i) txs of
     None \<Rightarrow> Dispatching i
   | Some t \<Rightarrow> (case tx_user t of
       None \<Rightarrow> Dispatching i
     | Some u \<Rightarrow>
        let amount = decimal_number (amount_units (tx_amount t));
            windows = getVelocityWindows env;
            volumes = getRollingVolumes u (tx_created t) (Some i) windows txs;
            evaluation = evaluateVelocity amount volumes windows
        in if \<not> js_isFinite amount \<or> js_lt amount (Fin 0) then Dispatching i
           else if ve_breached evaluation then Holding i (ve_ruleHits evaluation) else Dispatching i))"

definition applySEP08Verification :: "answer \<Rightarrow> request_pc \<Rightarrow> intake \<Rightarrow> request_pc \<times> intake" where
  \<comment> \<open>an error with a code is thrown on\<close>
  "applySEP08Verification a r w = (case r of
     Approving i \<Rightarrow> (case a of
         Ok \<Rightarrow> (Measuring i, w)
       | Verdict refused \<Rightarrow>
           if refused then (RequestFailed i, w\<lparr>in_txs := fst (snd (updateStatus (in_now w) i Failed None None (in_txs w)))\<rparr>)
           else (Measuring i, w)
       | Error coded \<Rightarrow> (if coded then RequestFailed i else Measuring i, w))
   | _ \<Rightarrow> (r, w))"

definition enforce ::
  "bool \<Rightarrow> (VelocityWindowName \<Rightarrow> jsnum) \<Rightarrow> answer \<Rightarrow> request_pc \<Rightarrow> intake \<Rightarrow> request_pc \<times> intake" where
  \<comment> \<open>an error is caught by the caller, and the transaction counts as not held; an alert that the
    table does not take stays in memory\<close>
  "enforce enabled env a r w = (case r of
     Measuring i \<Rightarrow>
       (if \<not> enabled then (Dispatching i, w)
        else case a of Error _ \<Rightarrow> (Dispatching i, w) | _ \<Rightarrow> (measure env i (in_txs w), w))
   | Holding i hits \<Rightarrow>
       (case hold_for_review (in_now w) i (in_txs w) of (held, txs', _) \<Rightarrow>
          (case a of
             Error done \<Rightarrow> (Dispatching i, if done then w\<lparr>in_txs := txs'\<rparr> else w)
           | _ \<Rightarrow> if held then (Recording i hits, w\<lparr>in_txs := txs'\<rparr>) else (Dispatching i, w)))
   | Recording i hits \<Rightarrow> (case a of
         Verdict unstored \<Rightarrow> (RequestHeld i, if unstored then w else w\<lparr>in_alerts := raiseVelocityAlert i hits (in_alerts w)\<rparr>)
       | Error done \<Rightarrow> (Dispatching i, if done then w\<lparr>in_alerts := raiseVelocityAlert i hits (in_alerts w)\<rparr> else w)
       | Ok \<Rightarrow> (RequestHeld i, w\<lparr>in_alerts := raiseVelocityAlert i hits (in_alerts w)\<rparr>))
   | _ \<Rightarrow> (r, w))"

definition request_step ::
  "bool \<Rightarrow> (VelocityWindowName \<Rightarrow> jsnum) \<Rightarrow> answer \<Rightarrow> request_pc \<Rightarrow> intake \<Rightarrow> request_pc \<times> intake" where
  "request_step enabled env a r w = (case r of
     Approving _ \<Rightarrow> applySEP08Verification a r w
   | Dispatching i \<Rightarrow> (case a of
         Error done \<Rightarrow> (RequestFailed i, if done then w\<lparr>in_jobs := i # in_jobs w\<rparr> else w)
       | _ \<Rightarrow> (RequestQueued i, w\<lparr>in_jobs := i # in_jobs w\<rparr>))
   | _ \<Rightarrow> enforce enabled env a r w)"

lemmas request_defs = request_step_def applySEP08Verification_def enforce_def

definition officer_step :: "answer \<Rightarrow> officer_pc \<Rightarrow> intake \<Rightarrow> officer_pc \<times> intake" where
  \<comment> \<open>\<^verbatim>\<open>resolveHold\<close>\<close>
  "officer_step a p w = (case p of
     Deciding i d \<Rightarrow>
       (case resolve_status (in_now w) i d (in_txs w) of (done, txs', _) \<Rightarrow>
          (case a of
             Error eff \<Rightarrow> (OfficerFailed, if eff then w\<lparr>in_txs := txs'\<rparr> else w)
           | _ \<Rightarrow> if done then (Noting i d, w\<lparr>in_txs := txs'\<rparr>) else (Resolved False, w)))
   | Noting i d \<Rightarrow> (case a of
         Error _ \<Rightarrow> (OfficerFailed, w)
       | _ \<Rightarrow> (case d of Release \<Rightarrow> Requeueing i | Reject \<Rightarrow> Resolved True, w))
   | Requeueing i \<Rightarrow> (case a of
         Error done \<Rightarrow> (OfficerFailed, if done then w\<lparr>in_jobs := i # in_jobs w\<rparr> else w)
       | _ \<Rightarrow> (Resolved True,
           if list_ex (\<lambda>t. tx_id t = i) (in_txs w) then w\<lparr>in_jobs := i # in_jobs w\<rparr> else w))
   | _ \<Rightarrow> (p, w))"

definition reviewAmlAlert :: "id \<Rightarrow> VelocityAlertStatus \<Rightarrow> VelocityAlert list \<Rightarrow> (officer_pc + unit) \<times> VelocityAlert list" where
  \<comment> \<open>\<^verbatim>\<open>reviewAmlAlert\<close> up to \<^verbatim>\<open>resolveHold\<close>: the right side answers without it\<close>
  "reviewAmlAlert alertId status als =
     (case find (\<lambda>a. al_id a = alertId) als of
        None \<Rightarrow> (Inr (), als)
      | Some alert \<Rightarrow>
         let als' = sql_update (\<lambda>a. al_id a = alertId) (\<lambda>a. a\<lparr>al_status := status\<rparr>) als;
             others = list_ex (\<lambda>a. al_transactionId a = al_transactionId alert \<and> al_status a = PendingAlert \<and> al_id a \<noteq> alertId) als'
         in (if status = Dismissed \<and> \<not> others then Inl (Deciding (al_transactionId alert) Release) else Inr (), als'))"

definition resolveHeldTransaction :: "id \<Rightarrow> decision \<Rightarrow> VelocityAlert list \<Rightarrow> officer_pc option" where
  "resolveHeldTransaction alertId d als =
     map_option (\<lambda>a. Deciding (al_transactionId a) d) (find (\<lambda>a. al_id a = alertId) als)"

datatype intake_act =
    Elapse int
  | Submit new_transaction
  | Request nat answer
  | ReviewAlert id VelocityAlertStatus
  | Decide id decision
  | Officer nat answer
  | Alert VelocityAlert \<comment> \<open>another rule raises an alert\<close>
  | Elsewhere id TransactionStatus \<comment> \<open>another part of the program writes a status\<close>

definition intake_step :: "bool \<Rightarrow> (VelocityWindowName \<Rightarrow> jsnum) \<Rightarrow> intake_act \<Rightarrow> intake \<Rightarrow> intake" where
  "intake_step enabled env act w = (case act of
     Elapse d \<Rightarrow> w\<lparr>in_now := in_now w + max 0 d\<rparr>
   | Submit n \<Rightarrow>
       if list_ex (\<lambda>t. tx_id t = nt_id n) (in_txs w) then w
       else w\<lparr>in_txs := create (in_now w) n (in_txs w),
              in_requests := in_requests w @ [if nt_deposit n then Approving (nt_id n) else Measuring (nt_id n)]\<rparr>
   | Request k a \<Rightarrow>
       if k < length (in_requests w) then
         (case request_step enabled env a (in_requests w ! k) w of (r, w') \<Rightarrow> w'\<lparr>in_requests := (in_requests w)[k := r]\<rparr>)
       else w
   | ReviewAlert alertId status \<Rightarrow>
       (case reviewAmlAlert alertId status (in_alerts w) of (p, als) \<Rightarrow>
          w\<lparr>in_alerts := als, in_officers := in_officers w @ (case p of Inl p \<Rightarrow> [p] | Inr _ \<Rightarrow> [])\<rparr>)
   | Decide alertId d \<Rightarrow>
       (case resolveHeldTransaction alertId d (in_alerts w) of
          Some p \<Rightarrow> w\<lparr>in_officers := in_officers w @ [p]\<rparr> | None \<Rightarrow> w)
   | Officer k a \<Rightarrow>
       if k < length (in_officers w) then
         (case officer_step a (in_officers w ! k) w of (p, w') \<Rightarrow> w'\<lparr>in_officers := (in_officers w)[k := p]\<rparr>)
       else w
   | Alert al \<Rightarrow> w\<lparr>in_alerts := al # in_alerts w\<rparr>
   | Elsewhere i s \<Rightarrow> w\<lparr>in_txs := fst (snd (updateStatus (in_now w) i s None None (in_txs w)))\<rparr>)"

definition intake_run :: "bool \<Rightarrow> (VelocityWindowName \<Rightarrow> jsnum) \<Rightarrow> intake_act list \<Rightarrow> intake \<Rightarrow> intake" where
  "intake_run enabled env acts w = fold (intake_step enabled env) acts w"

definition intake_start :: intake where
  "intake_start = \<lparr>in_now = 0, in_txs = [], in_jobs = [], in_alerts = [], in_requests = [], in_officers = []\<rparr>"

end
