(* ===== verification/Aml_Velocity_Safety.thy ===== *)
theory Aml_Velocity_Safety
  imports Aml_Velocity
begin

text \<open>
  What velocity monitoring guarantees: however requests interleave, those that were not held stay
  below the threshold of every window, because whoever measures last sees all the others. The
  argument is an invariant of the pairs of a request and its transaction. Two runs of single calls
  show how a held transaction is queued all the same, and how a dismissed alert queues a transaction twice.
\<close>

section \<open>Whole amounts\<close>

lemma whole_sum:
  assumes "\<forall>t\<in>set ts. whole (tx_amount t)"
  shows "0 \<le> volume_units ts \<and> volume_units ts mod 10 ^ 7 = 0"
  using assms
proof (induction ts)
  case (Cons t ts)
  then have "volume_units ts mod 10 ^ 7 = 0" "amount_units (tx_amount t) mod 10 ^ 7 = 0" by (simp_all add: whole_def)
  then have "(amount_units (tx_amount t) + volume_units ts) mod 10 ^ 7 = 0"
    using mod_add_eq [of "amount_units (tx_amount t)" "10 ^ 7" "volume_units ts"] by simp
  then show ?case using Cons by (simp add: volume_units_def whole_def)
qed (simp add: volume_units_def)

lemma rounded_total_exceeds:
  assumes "0 \<le> m" "m < 2 ^ 53" "0 \<le> j" "0 \<le> k" "m < j + k"
  shows "js_lt (Fin (of_int m)) (js_add (num (of_int j)) (num (of_int k)))"
proof -
  define J where "J = min j (2 ^ 53)"
  define K where "K = min k (2 ^ 53)"
  have "\<bar>J\<bar> \<le> 2 ^ 53" "\<bar>K\<bar> \<le> 2 ^ 53" using assms by (auto simp: J_def K_def)
  note small = this [THEN num_int]
  have "m + 1 \<le> J + K" using assms by (auto simp: J_def K_def min_def)
  then have above: "js_le (num (of_int (m + 1))) (num (of_int J + of_int K))"
    by (intro num_mono) (metis of_int_add of_int_le_iff)
  have "js_le (Fin (of_int J)) (num (of_int j))" "js_le (Fin (of_int K)) (num (of_int k))"
    unfolding small [symmetric] by (auto intro!: num_mono simp: J_def K_def)
  then have "js_le (num (of_int J + of_int K)) (js_add (num (of_int j)) (num (of_int k)))"
    by (cases "num (of_int j)"; cases "num (of_int k)") (auto intro!: num_mono)
  then have "js_le (Fin (of_int (m + 1))) (js_add (num (of_int j)) (num (of_int k)))"
    using js_le_trans [OF above] num_int [of "m + 1"] assms by simp
  then show ?thesis by (rule js_lt_le_trans [rotated]) simp
qed

section \<open>Requests and their transactions\<close>

fun request_id :: "request_pc \<Rightarrow> id" where
  "request_id (Approving i) = i"
| "request_id (Measuring i) = i"
| "request_id (Holding i _) = i"
| "request_id (Recording i _) = i"
| "request_id (Dispatching i) = i"
| "request_id (RequestHeld i) = i"
| "request_id (RequestQueued i) = i"
| "request_id (RequestFailed i) = i"

fun passes :: "request_pc \<Rightarrow> bool" where
  "passes (Dispatching _) = True"
| "passes (RequestQueued _) = True"
| "passes _ = False"

definition bad_status :: "TransactionStatus \<Rightarrow> bool" where
  "bad_status s \<longleftrightarrow> s \<in> {Failed, Cancelled, Expired}"

definition unspoilt :: "intake_act list \<Rightarrow> id \<Rightarrow> bool" where
  \<comment> \<open>no other part of the program fails, cancels or expires the transaction\<close>
  "unspoilt acts i \<longleftrightarrow> list_all (\<lambda>a. case a of Elsewhere j s \<Rightarrow> j = i \<longrightarrow> \<not> bad_status s | _ \<Rightarrow> True) acts"

fun orderly_act :: "intake_act \<Rightarrow> intake \<Rightarrow> bool" where
  \<comment> \<open>requested amounts are whole, no call of a request throws, and other parts of the program only
    touch transactions that were queued\<close>
  "orderly_act (Submit n) w \<longleftrightarrow> whole (nt_amount n)"
| "orderly_act (Request _ a) w \<longleftrightarrow> (case a of Error _ \<Rightarrow> False | _ \<Rightarrow> True)"
| "orderly_act (Elsewhere i _) w \<longleftrightarrow> i \<in> set (in_jobs w)"
| "orderly_act _ w \<longleftrightarrow> True"

fun orderly :: "(VelocityWindowName \<Rightarrow> jsnum) \<Rightarrow> intake_act list \<Rightarrow> intake \<Rightarrow> bool" where
  "orderly env [] w \<longleftrightarrow> True"
| "orderly env (a # acts) w \<longleftrightarrow> orderly_act a w \<and> orderly env acts (intake_step True env a w)"

fun stage_ok :: "(id \<Rightarrow> bool) \<Rightarrow> request_pc \<Rightarrow> transaction \<Rightarrow> bool" where
  "stage_ok good (Approving _) t \<longleftrightarrow> tx_status t = Pending"
| "stage_ok good (Measuring _) t \<longleftrightarrow> tx_status t = Pending"
| "stage_ok good (Holding _ _) t \<longleftrightarrow> tx_status t = Pending"
| "stage_ok good (Dispatching _) t \<longleftrightarrow> tx_status t = Pending"
| "stage_ok good (RequestQueued i) t \<longleftrightarrow> (good i \<longrightarrow> counted t)"
| "stage_ok good _ t \<longleftrightarrow> True"

definition sound :: "(id \<Rightarrow> bool) \<Rightarrow> intake \<Rightarrow> bool" where
  "sound good w \<longleftrightarrow> distinct (map tx_id (in_txs w)) \<and> map request_id (in_requests w) = map tx_id (in_txs w) \<and>
     (\<forall>t\<in>set (in_txs w). whole (tx_amount t)) \<and>
     (\<forall>i\<in>set (in_jobs w). RequestQueued i \<in> set (in_requests w)) \<and>
     list_all2 (stage_ok good) (in_requests w) (in_txs w)"

lemma soundD:
  assumes "sound good w" "k < length (in_requests w)"
  shows "k < length (in_txs w)" "request_id (in_requests w ! k) = tx_id (in_txs w ! k)"
    "stage_ok good (in_requests w ! k) (in_txs w ! k)"
    "find (\<lambda>t. tx_id t = tx_id (in_txs w ! k)) (in_txs w) = Some (in_txs w ! k)"
proof -
  have "length (in_requests w) = length (in_txs w)" using assms unfolding sound_def by (metis length_map)
  then show k: "k < length (in_txs w)" using assms by simp
  show "request_id (in_requests w ! k) = tx_id (in_txs w ! k)" using assms k unfolding sound_def by (metis nth_map)
  show "stage_ok good (in_requests w ! k) (in_txs w ! k)" using assms unfolding sound_def by (simp add: list_all2_nthD)
  show "find (\<lambda>t. tx_id t = tx_id (in_txs w ! k)) (in_txs w) = Some (in_txs w ! k)"
    using assms k unfolding sound_def by (intro find_key_unique) auto
qed

lemma status_write_rows:
  "map tx_id (fst (snd (updateStatus now i s u e txs))) = map tx_id txs"
  "map tx_amount (fst (snd (updateStatus now i s u e txs))) = map tx_amount txs"
  "map tx_user (fst (snd (updateStatus now i s u e txs))) = map tx_user txs"
  "map tx_created (fst (snd (updateStatus now i s u e txs))) = map tx_created txs"
  "length (fst (snd (updateStatus now i s u e txs))) = length txs"
  by (simp_all add: updateStatus_table map_sql_update)

lemma status_write_nth:
  "k < length txs \<Longrightarrow> fst (snd (updateStatus now i s u e txs)) ! k =
     (if status_where i s u e (txs ! k) then (txs ! k)\<lparr>tx_status := s, tx_updated := now\<rparr> else txs ! k)"
  by (simp add: updateStatus_table sql_update_def)

lemma whole_amounts:
  "map tx_amount txs' = map tx_amount txs \<Longrightarrow> \<forall>t\<in>set txs. whole (tx_amount t) \<Longrightarrow> \<forall>t\<in>set txs'. whole (tx_amount t)"
  by (metis (mono_tags, lifting) image_iff image_set)

lemma measure_stages: "measure env i txs = Dispatching i \<or> (\<exists>hits. measure env i txs = Holding i hits)"
  by (auto simp: measure_def Let_def split: option.splits)

lemma pending_is_held:
  assumes "k < length txs" "tx_status (txs ! k) = Pending"
  shows "fst (hold_for_review now (tx_id (txs ! k)) txs)"
  using assms unfolding hold_for_review_def updateStatus_result
  by (auto simp: status_where_def validPreviousStatuses_def intro!: bexI [of _ "txs ! k"])

definition own_write :: "millis \<Rightarrow> id \<Rightarrow> transaction list \<Rightarrow> transaction list \<Rightarrow> bool" where
  \<comment> \<open>at most a status write of the transaction\<close>
  "own_write now i txs txs' \<longleftrightarrow> txs' = txs \<or> (\<exists>s e. txs' = fst (snd (updateStatus now i s None e txs)))"

lemma own_writeI [simp]: "own_write now i txs txs" "own_write now i txs (fst (snd (updateStatus now i s None e txs)))"
  by (auto simp: own_write_def)

lemma request_effect:
  assumes "sound good w" "k < length (in_requests w)" "request_step True env a (in_requests w ! k) w = (r', w')"
    and "\<And>b. a \<noteq> Error b"
  defines "i \<equiv> tx_id (in_txs w ! k)"
  shows "request_id r' = i"
    "own_write (in_now w) i (in_txs w) (in_txs w')"
    "stage_ok good r' (in_txs w' ! k)"
    "in_jobs w' = in_jobs w \<or> r' = RequestQueued i \<and> in_jobs w' = i # in_jobs w"
    "in_requests w ! k = RequestQueued j \<Longrightarrow> r' = RequestQueued j"
    "in_officers w' = in_officers w"
    "passes r' \<Longrightarrow> passes (in_requests w ! k) \<or> measure env i (in_txs w) = Dispatching i \<and> in_txs w' = in_txs w"
proof -
  note k = soundD [OF assms(1,2)]
  have held: "tx_status (in_txs w ! k) = Pending \<Longrightarrow> fst (hold_for_review (in_now w) i (in_txs w))"
    unfolding i_def using k(1) by (rule pending_is_held)
  have "request_id r' = i \<and>
     own_write (in_now w) i (in_txs w) (in_txs w') \<and>
     stage_ok good r' (in_txs w' ! k) \<and>
     (in_jobs w' = in_jobs w \<or> r' = RequestQueued i \<and> in_jobs w' = i # in_jobs w) \<and>
     (\<forall>j. in_requests w ! k = RequestQueued j \<longrightarrow> r' = RequestQueued j) \<and> in_officers w' = in_officers w \<and>
     (passes r' \<longrightarrow> passes (in_requests w ! k) \<or> measure env i (in_txs w) = Dispatching i \<and> in_txs w' = in_txs w)"
  proof (cases "in_requests w ! k")
    case (Approving x)
    then show ?thesis using assms(3,4) k by (auto simp: request_defs i_def split: answer.splits if_splits)
  next
    case (Measuring x)
    then have x: "x = i" and "(r', w') = (measure env i (in_txs w), w)"
      using assms(3,4) k by (auto simp: request_defs i_def split: answer.splits)
    then show ?thesis using measure_stages [of env i "in_txs w"] k(3) Measuring by auto
  next
    case (Holding x hits)
    then have "x = i" "(r', w') = (Recording i hits, w\<lparr>in_txs := fst (snd (hold_for_review (in_now w) i (in_txs w)))\<rparr>)"
      using assms(3,4) k held by (auto simp: request_defs i_def split: answer.splits prod.splits)
    then show ?thesis unfolding hold_for_review_def using Holding by auto
  next
    case (Dispatching x)
    then show ?thesis using assms(3,4) k
      by (auto simp: request_defs i_def counted_def split: answer.splits)
  qed (use assms(3,4) k in \<open>auto simp: request_defs i_def split: answer.splits if_splits\<close>)
  then show "request_id r' = i"
    "own_write (in_now w) i (in_txs w) (in_txs w')"
    "stage_ok good r' (in_txs w' ! k)"
    "in_jobs w' = in_jobs w \<or> r' = RequestQueued i \<and> in_jobs w' = i # in_jobs w"
    "in_requests w ! k = RequestQueued j \<Longrightarrow> r' = RequestQueued j"
    "in_officers w' = in_officers w"
    "passes r' \<Longrightarrow> passes (in_requests w ! k) \<or> measure env i (in_txs w) = Dispatching i \<and> in_txs w' = in_txs w"
    by blast+
qed

lemma other_rows_kept:
  assumes "distinct (map tx_id txs)" "k < length txs" "j < length txs" "j \<noteq> k"
  shows "fst (snd (updateStatus now (tx_id (txs ! k)) s u e txs)) ! j = txs ! j"
proof -
  have "tx_id (txs ! j) \<noteq> tx_id (txs ! k)" using assms by (metis distinct_conv_nth length_map nth_map)
  then show ?thesis using assms by (simp add: status_write_nth status_where_def)
qed

lemma request_rows:
  assumes "sound good w" "k < length (in_requests w)" "request_step True env a (in_requests w ! k) w = (r', w')"
    and "\<And>b. a \<noteq> Error b"
  shows "map tx_id (in_txs w') = map tx_id (in_txs w)" "map tx_amount (in_txs w') = map tx_amount (in_txs w)"
    "map tx_user (in_txs w') = map tx_user (in_txs w)" "map tx_created (in_txs w') = map tx_created (in_txs w)"
    "j < length (in_txs w) \<Longrightarrow> j \<noteq> k \<Longrightarrow> in_txs w' ! j = in_txs w ! j"
  using request_effect(2) [OF assms] soundD(1) [OF assms(1,2)] assms(1)
  by (auto simp: own_write_def status_write_rows other_rows_kept sound_def)

lemma sound_same:
  "sound good w \<Longrightarrow> in_txs w' = in_txs w \<Longrightarrow> in_requests w' = in_requests w \<Longrightarrow> in_jobs w' = in_jobs w \<Longrightarrow> sound good w'"
  by (simp add: sound_def)

lemma sound_request:
  assumes "sound good w" "orderly_act (Request k a) w"
  shows "sound good (intake_step True env (Request k a) w)"
proof (cases "k < length (in_requests w)")
  case k: True
  obtain r' w' where step: "request_step True env a (in_requests w ! k) w = (r', w')" by fastforce
  have "\<And>b. a \<noteq> Error b" using assms(2) by auto
  note e = request_effect [OF assms(1) k step this] and rows = request_rows [OF assms(1) k step this]
    and s = soundD [OF assms(1) k]
  let ?w = "w'\<lparr>in_requests := (in_requests w)[k := r']\<rparr>"
  have len: "length (in_txs w') = length (in_txs w)" "length (in_requests w) = length (in_txs w)"
    using rows(1) assms(1) unfolding sound_def by (metis length_map)+
  have "map request_id ((in_requests w)[k := r']) = map tx_id (in_txs w')"
    using assms(1) e(1) s(1) unfolding rows(1) sound_def map_update by (metis length_map list_update_id nth_map)
  moreover have "list_all2 (stage_ok good) ((in_requests w)[k := r']) (in_txs w')"
  proof (rule list_all2_all_nthI)
    fix j assume "j < length ((in_requests w)[k := r'])"
    then show "stage_ok good ((in_requests w)[k := r'] ! j) (in_txs w' ! j)"
      using e(3) rows(5) [of j] soundD(3) [OF assms(1), of j] len by (cases "j = k") auto
  qed (simp add: len)
  moreover have "\<forall>i\<in>set (in_jobs w'). RequestQueued i \<in> set ((in_requests w)[k := r'])"
  proof
    fix i assume "i \<in> set (in_jobs w')"
    then consider "r' = RequestQueued i" | "RequestQueued i \<in> set (in_requests w)"
      using e(4) assms(1) by (auto simp: sound_def)
    then show "RequestQueued i \<in> set ((in_requests w)[k := r'])"
    proof cases
      case 1
      then show ?thesis using k by (simp add: set_update_memI)
    next
      case 2
      then obtain j where "j < length (in_requests w)" "in_requests w ! j = RequestQueued i" by (metis in_set_conv_nth)
      then show ?thesis using e(5) k by (metis length_list_update nth_list_update nth_mem)
    qed
  qed
  ultimately have "sound good ?w"
    using assms(1) rows(1) whole_amounts [OF rows(2)] unfolding sound_def by simp
  then show ?thesis using step k by (simp add: intake_step_def)
qed (use assms in \<open>simp add: intake_step_def\<close>)

lemma sound_submit:
  assumes "sound good w" "orderly_act (Submit n) w"
  shows "sound good (intake_step True env (Submit n) w)"
  using assms by (auto simp: sound_def intake_step_def create_def list_ex_iff list_all2_appendI)

lemma sound_elsewhere:
  assumes "sound good w" "orderly_act (Elsewhere i s) w" "good i \<Longrightarrow> \<not> bad_status s"
  shows "sound good (intake_step True env (Elsewhere i s) w)"
proof -
  let ?txs = "fst (snd (updateStatus (in_now w) i s None None (in_txs w)))"
  have "RequestQueued i \<in> set (in_requests w)" using assms(1,2) by (simp add: sound_def)
  then obtain k where k: "k < length (in_requests w)" "in_requests w ! k = RequestQueued i" by (metis in_set_conv_nth)
  note s = soundD [OF assms(1) k(1)]
  have i: "i = tx_id (in_txs w ! k)" using s(2) k(2) by simp
  have len: "length (in_requests w) = length (in_txs w)" using assms(1) unfolding sound_def by (metis length_map)
  have "list_all2 (stage_ok good) (in_requests w) ?txs"
  proof (rule list_all2_all_nthI)
    fix j assume j: "j < length (in_requests w)"
    show "stage_ok good (in_requests w ! j) (?txs ! j)"
    proof (cases "j = k")
      case True
      then show ?thesis using k(2) s(1,3) assms(3) by (auto simp: status_write_nth counted_def bad_status_def)
    next
      case False
      have "distinct (map tx_id (in_txs w))" using assms(1) by (simp add: sound_def)
      then have "?txs ! j = in_txs w ! j" unfolding i using s(1) j False len by (intro other_rows_kept) auto
      then show ?thesis using soundD(3) [OF assms(1) j] by simp
    qed
  qed (simp add: status_write_rows len)
  moreover have "\<forall>t\<in>set ?txs. whole (tx_amount t)"
    using assms(1) by (intro whole_amounts [OF status_write_rows(2)]) (simp add: sound_def)
  ultimately show ?thesis using assms(1) by (simp add: sound_def intake_step_def status_write_rows)
qed

lemma officers_grow: "in_officers (intake_step True env a w) = [] \<Longrightarrow> in_officers w = []"
  by (cases a) (auto simp: intake_step_def request_defs officer_step_def create_def Let_def
      split: if_splits prod.splits option.splits sum.splits request_pc.splits answer.splits)

lemma sound_step:
  assumes "sound good w" "orderly_act a w" "in_officers (intake_step True env a w) = []"
    and "\<And>i s. a = Elsewhere i s \<Longrightarrow> good i \<Longrightarrow> \<not> bad_status s"
  shows "sound good (intake_step True env a w)"
proof (cases a)
  case (Officer k x)
  then show ?thesis using assms(1) officers_grow [OF assms(3)] by (simp add: intake_step_def)
next
  case (ReviewAlert i s)
  then show ?thesis using sound_same [OF assms(1)] by (auto simp: intake_step_def split: prod.splits)
next
  case (Decide i d)
  then show ?thesis using sound_same [OF assms(1)] by (auto simp: intake_step_def split: option.splits)
qed (use assms sound_request sound_submit sound_elsewhere in \<open>auto simp: intake_step_def intro: sound_same\<close>)

section \<open>The volume that passes\<close>

definition in_span :: "(id \<Rightarrow> bool) \<Rightarrow> id \<Rightarrow> millis \<Rightarrow> millis \<Rightarrow> transaction \<Rightarrow> bool" where
  "in_span good u a d t \<longleftrightarrow> good (tx_id t) \<and> tx_user t = Some u \<and> a \<le> tx_created t \<and> tx_created t \<le> a + d"

definition passing :: "(transaction \<Rightarrow> bool) \<Rightarrow> intake \<Rightarrow> nat set" where
  "passing P w = {k. k < length (in_txs w) \<and> passes (in_requests w ! k) \<and> P (in_txs w ! k)}"

definition passed_sum :: "(transaction \<Rightarrow> bool) \<Rightarrow> intake \<Rightarrow> int" where
  "passed_sum P w = (\<Sum>k\<in>passing P w. amount_units (tx_amount (in_txs w ! k)))"

lemma finite_passing [simp]: "finite (passing P w)"
  by (rule finite_subset [of _ "{..<length (in_txs w)}"]) (auto simp: passing_def)

lemma volume_units_filter:
  "volume_units (filter P ts) = (\<Sum>k | k < length ts \<and> P (ts ! k). amount_units (tx_amount (ts ! k)))"
proof -
  have "volume_units (filter P ts) = sum_list (map (\<lambda>t. if P t then amount_units (tx_amount t) else 0) ts)"
    unfolding volume_units_def by (induction ts) auto
  also have "\<dots> = (\<Sum>k\<in>{0..<length ts}. if P (ts ! k) then amount_units (tx_amount (ts ! k)) else 0)"
    by (simp add: sum_list_sum_nth)
  also have "\<dots> = (\<Sum>k\<in>{k\<in>{0..<length ts}. P (ts ! k)}. amount_units (tx_amount (ts ! k)))"
    by (rule sum.inter_filter [symmetric]) simp
  also have "{k\<in>{0..<length ts}. P (ts ! k)} = {k. k < length ts \<and> P (ts ! k)}" by auto
  finally show ?thesis .
qed

lemma map_nth_eq: "map f xs = map f ys \<Longrightarrow> k < length xs \<Longrightarrow> f (xs ! k) = f (ys ! k)"
  by (metis length_map nth_map)

lemma in_span_rows:
  assumes "map tx_id txs' = map tx_id txs" "map tx_user txs' = map tx_user txs" "map tx_created txs' = map tx_created txs"
    "k < length txs"
  shows "in_span good u a d (txs' ! k) = in_span good u a d (txs ! k)"
proof -
  have "k < length txs'" using assms(1,4) by (metis length_map)
  then show ?thesis unfolding in_span_def
    using map_nth_eq [OF assms(1)] map_nth_eq [OF assms(2)] map_nth_eq [OF assms(3)] by simp
qed

lemma window_rows:
  assumes "v \<in> set (getVelocityWindows env)"
  shows "vv_volume (getRollingVolumes u now (Some i) (getVelocityWindows env) txs (vw_name v)) =
    decimal_number (volume_units (filter (\<lambda>t. tx_user t = Some u \<and> now - vw_durationMs v \<le> tx_created t \<and> tx_id t \<noteq> i \<and> counted t) txs))"
proof -
  have "filter (\<lambda>t. now - vw_durationMs v \<le> tx_created t) (velocity_rows u (now - 30 * 24 * HOUR_MS) (Some i) txs) =
      filter (\<lambda>t. tx_user t = Some u \<and> now - vw_durationMs v \<le> tx_created t \<and> tx_id t \<noteq> i \<and> counted t) txs"
    unfolding velocity_rows_def filter_filter
    by (rule filter_cong) (use assms in \<open>auto simp: getVelocityWindows_def HOUR_MS_def\<close>)
  then show ?thesis using assms unfolding getRollingVolumes_def
    by (auto simp: getVelocityWindows_def HOUR_MS_def Let_def velocity_rows_def conj_commute conj_left_commute)
qed

lemma measured_below:
  assumes "measure env (tx_id t) txs = Dispatching (tx_id t)" "find (\<lambda>s. tx_id s = tx_id t) txs = Some t" "tx_user t = Some u"
    and "v \<in> set (getVelocityWindows env)" "vw_thresholdXaf v = Fin (of_int m)" "0 \<le> m" "m < 2 ^ 53"
    and "\<forall>s\<in>set txs. whole (tx_amount s)"
  shows "volume_units (filter (\<lambda>s. tx_user s = Some u \<and> tx_created t - vw_durationMs v \<le> tx_created s \<and>
      tx_id s \<noteq> tx_id t \<and> counted s) txs) + amount_units (tx_amount t) \<le> m * 10 ^ 7"
proof (rule ccontr)
  let ?ts = "filter (\<lambda>s. tx_user s = Some u \<and> tx_created t - vw_durationMs v \<le> tx_created s \<and> tx_id s \<noteq> tx_id t \<and> counted s) txs"
  assume over: "\<not> ?thesis"
  have "t \<in> set txs" using assms(2) by (auto dest: find_SomeD)
  then have t: "whole (tx_amount t)" using assms(8) by simp
  obtain j where j: "volume_units ?ts = 10 ^ 7 * j" "0 \<le> j"
    using whole_sum [of ?ts] assms(8) by (auto simp: mod_eq_0_iff_dvd dvd_def)
  obtain k where k: "amount_units (tx_amount t) = 10 ^ 7 * k" "0 \<le> k"
    using t by (auto simp: whole_def mod_eq_0_iff_dvd dvd_def)
  have "\<bar>k\<bar> \<le> 2 ^ 53" using t k by (simp add: whole_def)
  then have amount: "decimal_number (amount_units (tx_amount t)) = Fin (of_int k)"
    unfolding k(1) decimal_number_whole by (rule num_int)
  have "js_lt (vw_thresholdXaf v) (js_add (decimal_number (volume_units ?ts)) (decimal_number (amount_units (tx_amount t))))"
    using rounded_total_exceeds [OF assms(6,7) j(2) k(2)] over unfolding assms(5) j(1) k(1) decimal_number_whole by simp
  then have "ve_breached (evaluateVelocity (decimal_number (amount_units (tx_amount t)))
      (getRollingVolumes u (tx_created t) (Some (tx_id t)) (getVelocityWindows env) txs) (getVelocityWindows env))"
    using assms(4) by (auto simp: evaluateVelocity_def Let_def window_rows filter_empty_conv)
  then show False using assms(1-3) k(2) unfolding amount by (simp add: measure_def Let_def amount)
qed

lemma passing_subset:
  assumes "passing P w \<subseteq> passing P w'" "length (in_txs w) = length (in_txs w')"
    and "map tx_amount (in_txs w) = map tx_amount (in_txs w')" "\<forall>t\<in>set (in_txs w'). whole (tx_amount t)"
  shows "passed_sum P w \<le> passed_sum P w'"
proof -
  have "passed_sum P w = (\<Sum>k\<in>passing P w. amount_units (tx_amount (in_txs w' ! k)))"
    unfolding passed_sum_def
    by (rule sum.cong) (auto simp: passing_def dest: map_nth_eq [OF assms(3)])
  also have "\<dots> \<le> passed_sum P w'"
    unfolding passed_sum_def using assms(1,4)
    by (intro sum_mono2) (auto simp: passing_def whole_def)
  finally show ?thesis .
qed

lemma in_span_passing:
  assumes "map tx_id (in_txs w') = map tx_id (in_txs w)" "map tx_user (in_txs w') = map tx_user (in_txs w)"
    "map tx_created (in_txs w') = map tx_created (in_txs w)"
  shows "passing (in_span good u a d) w' =
    {k. k < length (in_txs w) \<and> passes (in_requests w' ! k) \<and> in_span good u a d (in_txs w ! k)}"
  using in_span_rows [OF assms] assms(1) unfolding passing_def by (metis (no_types, lifting) length_map)

lemma span_measured:
  assumes "sound good w" "k < length (in_requests w)" "\<not> passes (in_requests w ! k)"
    and "measure env (tx_id (in_txs w ! k)) (in_txs w) = Dispatching (tx_id (in_txs w ! k))"
    and "in_span good u a (vw_durationMs v) (in_txs w ! k)"
    and "v \<in> set (getVelocityWindows env)" "vw_thresholdXaf v = Fin (of_int m)" "0 \<le> m" "m < 2 ^ 53"
  shows "passed_sum (in_span good u a (vw_durationMs v)) w + amount_units (tx_amount (in_txs w ! k)) \<le> m * 10 ^ 7"
proof -
  let ?t = "in_txs w ! k" and ?P = "in_span good u a (vw_durationMs v)"
  let ?Q = "\<lambda>s. tx_user s = Some u \<and> tx_created ?t - vw_durationMs v \<le> tx_created s \<and> tx_id s \<noteq> tx_id ?t \<and> counted s"
  note s = soundD [OF assms(1,2)]
  have whole: "\<forall>t\<in>set (in_txs w). whole (tx_amount t)" and ids: "distinct (map tx_id (in_txs w))"
    and len: "length (in_requests w) = length (in_txs w)"
    using assms(1) unfolding sound_def by (auto dest: map_eq_imp_length_eq)
  have "?Q (in_txs w ! j)" if j: "j \<in> passing ?P w" for j
  proof -
    have "j < length (in_requests w)" "j \<noteq> k" using j assms(3) len by (auto simp: passing_def)
    then have "tx_id (in_txs w ! j) \<noteq> tx_id ?t" "stage_ok good (in_requests w ! j) (in_txs w ! j)"
      "request_id (in_requests w ! j) = tx_id (in_txs w ! j)"
      using ids s(1) len soundD [OF assms(1)] by (auto simp: distinct_conv_nth)
    moreover have "passes (in_requests w ! j)" "?P (in_txs w ! j)" using j by (auto simp: passing_def)
    ultimately show ?thesis using assms(5)
      by (cases "in_requests w ! j") (auto simp: in_span_def counted_def)
  qed
  then have "passed_sum ?P w \<le> volume_units (filter ?Q (in_txs w))"
    unfolding passed_sum_def volume_units_filter using whole
    by (intro sum_mono2) (auto simp: passing_def whole_def)
  moreover have "tx_user ?t = Some u" using assms(5) by (simp add: in_span_def)
  ultimately show ?thesis
    using measured_below [OF assms(4) s(4) _ assms(6-9) whole] by force
qed

lemma capped_step:
  assumes "sound good w" "orderly_act act w" "in_officers (intake_step True env act w) = []"
    and "v \<in> set (getVelocityWindows env)" "vw_thresholdXaf v = Fin (of_int m)" "0 \<le> m" "m < 2 ^ 53"
    and "passed_sum (in_span good u a (vw_durationMs v)) w \<le> m * 10 ^ 7"
  shows "passed_sum (in_span good u a (vw_durationMs v)) (intake_step True env act w) \<le> m * 10 ^ 7"
proof -
  let ?P = "in_span good u a (vw_durationMs v)"
  have same: ?thesis if "in_txs (intake_step True env act w) = in_txs w" "in_requests (intake_step True env act w) = in_requests w"
    using that assms(8) by (simp add: passed_sum_def passing_def)
  have len: "length (in_requests w) = length (in_txs w)" using assms(1) unfolding sound_def by (metis length_map)
  show ?thesis
  proof (cases act)
    case (Request k x)
    show ?thesis
    proof (cases "k < length (in_requests w)")
      case k: True
      obtain r' w' where step: "request_step True env x (in_requests w ! k) w = (r', w')" by fastforce
      have "\<And>b. x \<noteq> Error b" using assms(2) Request by auto
      note e = request_effect [OF assms(1) k step this] and rows = request_rows [OF assms(1) k step this]
      define z where "z = intake_step True env act w"
      have z: "in_txs z = in_txs w'" "in_requests z = (in_requests w)[k := r']"
        using step k Request by (simp_all add: z_def intake_step_def)
      have keys: "map tx_id (in_txs z) = map tx_id (in_txs w)" "map tx_user (in_txs z) = map tx_user (in_txs w)"
        "map tx_created (in_txs z) = map tx_created (in_txs w)" "map tx_amount (in_txs z) = map tx_amount (in_txs w)"
        using rows z by simp_all
      note span = in_span_passing [OF keys(1-3), of good u a "vw_durationMs v"]
      have whole: "\<forall>t\<in>set (in_txs w). whole (tx_amount t)" using assms(1) by (simp add: sound_def)
      have len': "length (in_txs z) = length (in_txs w)" using keys(1) by (metis length_map)
      show ?thesis
      proof (cases "passes r' \<and> \<not> passes (in_requests w ! k) \<and> ?P (in_txs w ! k)")
        case False
        then have "passing ?P z \<subseteq> passing ?P w"
          using k unfolding span z by (auto simp: passing_def nth_list_update split: if_splits)
        from passing_subset [OF this len' keys(4) whole] show ?thesis using assms(8) unfolding z_def by simp
      next
        case True
        then have m: "measure env (tx_id (in_txs w ! k)) (in_txs w) = Dispatching (tx_id (in_txs w ! k))" "in_txs w' = in_txs w"
          using e(7) by auto
        have "passing ?P z = insert k (passing ?P w)" "k \<notin> passing ?P w"
          using k len True unfolding span z by (auto simp: passing_def nth_list_update)
        then have "passed_sum ?P z = passed_sum ?P w + amount_units (tx_amount (in_txs w ! k))"
          unfolding passed_sum_def z m(2) by simp
        also have "\<dots> \<le> m * 10 ^ 7"
          using True by (intro span_measured [OF assms(1) k _ m(1) _ assms(4-7)]) auto
        finally show ?thesis unfolding z_def .
      qed
    qed (use Request same in \<open>simp add: intake_step_def\<close>)
  next
    case (Submit n)
    have "passed_sum ?P (intake_step True env act w) = passed_sum ?P w"
      unfolding passed_sum_def using len Submit
      by (intro sum.cong) (auto simp: passing_def intake_step_def create_def nth_append less_Suc_eq split: if_splits)
    then show ?thesis using assms(8) by simp
  next
    case (Elsewhere i s)
    then have z: "in_txs (intake_step True env act w) = fst (snd (updateStatus (in_now w) i s None None (in_txs w)))"
      "in_requests (intake_step True env act w) = in_requests w" by (simp_all add: intake_step_def)
    have "passing ?P (intake_step True env act w) \<subseteq> passing ?P w"
      using in_span_passing [of "intake_step True env act w" w] z
      by (auto simp: status_write_rows passing_def)
    from passing_subset [OF this] show ?thesis
      using assms(1,8) z by (simp add: status_write_rows sound_def)
  qed (rule same; use assms(3) officers_grow [OF assms(3)] in
      \<open>auto simp: intake_step_def split: prod.splits option.splits\<close>)+
qed

lemma officers_of_run: "in_officers (intake_run True env acts w) = [] \<Longrightarrow> in_officers w = []"
proof (induction acts arbitrary: w)
  case (Cons a acts)
  from Cons.prems have "in_officers (intake_run True env acts (intake_step True env a w)) = []" by (simp add: intake_run_def)
  from officers_grow [OF Cons.IH [OF this]] show ?case .
qed (simp add: intake_run_def)

lemma velocity_run:
  assumes "orderly env acts w" "in_officers (intake_run True env acts w) = []" "sound good w"
    and "\<And>i s. Elsewhere i s \<in> set acts \<Longrightarrow> good i \<Longrightarrow> \<not> bad_status s"
    and "v \<in> set (getVelocityWindows env)" "vw_thresholdXaf v = Fin (of_int m)" "0 \<le> m" "m < 2 ^ 53"
    and "passed_sum (in_span good u a (vw_durationMs v)) w \<le> m * 10 ^ 7"
  shows "sound good (intake_run True env acts w) \<and>
    passed_sum (in_span good u a (vw_durationMs v)) (intake_run True env acts w) \<le> m * 10 ^ 7"
  using assms
proof (induction acts arbitrary: w)
  case (Cons act acts)
  let ?w = "intake_step True env act w"
  have run: "intake_run True env (act # acts) w = intake_run True env acts ?w" by (simp add: intake_run_def)
  have off: "in_officers ?w = []" using Cons.prems(2) unfolding run by (rule officers_of_run)
  have act: "orderly_act act w" "orderly env acts ?w" using Cons.prems(1) by auto
  show ?case unfolding run
  proof (rule Cons.IH [OF act(2)])
    show "sound good ?w" by (rule sound_step [OF Cons.prems(3) act(1) off]) (use Cons.prems(4) in auto)
    show "passed_sum (in_span good u a (vw_durationMs v)) ?w \<le> m * 10 ^ 7"
      by (rule capped_step [OF Cons.prems(3) act(1) off Cons.prems(5-9)])
  qed (use Cons.prems run in auto)
qed (simp add: intake_run_def)

lemma unspoiltD: "unspoilt acts i \<Longrightarrow> Elsewhere i s \<in> set acts \<Longrightarrow> \<not> bad_status s"
  by (auto simp: unspoilt_def list_all_iff dest!: bspec)

definition queued_volume :: "intake_act list \<Rightarrow> id \<Rightarrow> millis \<Rightarrow> millis \<Rightarrow> intake \<Rightarrow> int" where
  \<comment> \<open>what a customer's queued transactions created in a span of time move, without those that other
    parts of the program fail, cancel or expire\<close>
  "queued_volume acts u a d w = volume_units (filter (\<lambda>t. tx_id t \<in> set (in_jobs w) \<and> in_span (unspoilt acts) u a d t) (in_txs w))"

lemma queued_below_passed:
  assumes "sound good w"
  shows "volume_units (filter (\<lambda>t. tx_id t \<in> set (in_jobs w) \<and> P t) (in_txs w)) \<le> passed_sum P w"
proof -
  have whole: "\<forall>t\<in>set (in_txs w). whole (tx_amount t)" and ids: "distinct (map tx_id (in_txs w))"
    and len: "length (in_requests w) = length (in_txs w)"
    using assms unfolding sound_def by (auto dest: map_eq_imp_length_eq)
  have "passes (in_requests w ! k)" if k: "k < length (in_txs w)" "tx_id (in_txs w ! k) \<in> set (in_jobs w)" for k
  proof -
    have "RequestQueued (tx_id (in_txs w ! k)) \<in> set (in_requests w)" using assms k(2) by (simp add: sound_def)
    then obtain j where j: "j < length (in_requests w)" "in_requests w ! j = RequestQueued (tx_id (in_txs w ! k))"
      by (metis in_set_conv_nth)
    then have "tx_id (in_txs w ! j) = tx_id (in_txs w ! k)" using soundD(2) [OF assms j(1)] by simp
    then have "j = k" using ids j(1) k(1) len by (metis distinct_conv_nth length_map nth_map)
    with j show ?thesis by simp
  qed
  then show ?thesis unfolding volume_units_filter passed_sum_def using whole
    by (intro sum_mono2) (auto simp: passing_def whole_def)
qed

lemma sound_start: "sound good intake_start"
  by (simp add: sound_def intake_start_def)

text \<open>Schedules without other writers and without officers are orderly whatever they do.\<close>

fun plain_act :: "intake_act \<Rightarrow> bool" where
  "plain_act (Submit n) \<longleftrightarrow> whole (nt_amount n)"
| "plain_act (Request _ a) \<longleftrightarrow> (case a of Error _ \<Rightarrow> False | _ \<Rightarrow> True)"
| "plain_act (Elapse _) \<longleftrightarrow> True"
| "plain_act _ \<longleftrightarrow> False"

lemma orderly_plain: "list_all plain_act acts \<Longrightarrow> orderly env acts w"
proof (induction acts arbitrary: w)
  case (Cons a acts)
  then show ?case by (cases a) auto
qed simp

lemma officers_plain: "list_all plain_act acts \<Longrightarrow> in_officers (intake_run True env acts w) = in_officers w"
proof (induction acts arbitrary: w)
  case (Cons a acts)
  have "in_officers (intake_step True env a w) = in_officers w" using Cons.prems
    by (cases a) (auto simp: intake_step_def request_defs split: if_splits prod.splits request_pc.splits answer.splits)
  then show ?case using Cons by (simp add: intake_run_def)
qed (simp add: intake_run_def)

section \<open>Properties\<close>

text \<open>
  C5. With monitoring switched on and from an empty table, however the requests of a customer to the REST endpoints for deposits and withdrawals interleave, those that velocity
  monitoring lets through stay within the threshold of each window: transactions created within an hour (a
  day, thirty days) of each other and queued move no more than the threshold together, as long as all amounts are whole, the
  threshold is a whole number below \<open>2\<^sup>53\<close>, no call of a request throws, no officer decides, other parts of the program
  write the status of a transaction only after it was queued, and those counted are not failed, cancelled or expired.
\<close>

theorem velocity_cap:
  assumes "orderly env acts intake_start" "in_officers (intake_run True env acts intake_start) = []"
    and "v \<in> set (getVelocityWindows env)" "vw_thresholdXaf v = Fin (of_int m)" "0 \<le> m" "m < 2 ^ 53"
  shows "queued_volume acts u a (vw_durationMs v) (intake_run True env acts intake_start) \<le> m * 10 ^ 7"
proof -
  have "passed_sum (in_span (unspoilt acts) u a (vw_durationMs v)) intake_start \<le> m * 10 ^ 7"
    using assms(5) by (simp add: passed_sum_def passing_def intake_start_def)
  note run = velocity_run [OF assms(1,2) sound_start unspoiltD assms(3-6) this]
  have "queued_volume acts u a (vw_durationMs v) (intake_run True env acts intake_start) \<le>
      passed_sum (in_span (unspoilt acts) u a (vw_durationMs v)) (intake_run True env acts intake_start)"
    unfolding queued_volume_def using conjunct1 [OF run] by (rule queued_below_passed)
  then show ?thesis using conjunct2 [OF run] by (rule order_trans)
qed

definition demo_env_velocity :: "VelocityWindowName \<Rightarrow> jsnum" where "demo_env_velocity = (\<lambda>_. Fin 20)"

definition demo_submit :: "id \<Rightarrow> string \<Rightarrow> intake_act" where
  "demo_submit i amount = Submit \<lparr>nt_id = i, nt_user = ''u'', nt_amount = amount, nt_provider = ''mtn'', nt_deposit = False\<rparr>"

definition demo_rivals :: "intake_act list" where
  \<comment> \<open>two requests that measure after both rows were written\<close>
  "demo_rivals = [demo_submit ''a'' ''15'', Elapse 1000, demo_submit ''b'' ''6'', Elapse 1000,
     demo_submit ''c'' ''4'', Request 1 Ok, Request 1 Ok, Request 1 Ok, Request 2 Ok, Request 0 Ok, Request 0 Ok, Request 0 Ok]"

theorem velocity_cap_witness:
  "queued_volume demo_rivals ''u'' 0 HOUR_MS (intake_run True demo_env_velocity demo_rivals intake_start) \<le> 20 * 10 ^ 7"
proof -
  have plain: "list_all plain_act demo_rivals" by code_simp
  have "in_officers (intake_run True demo_env_velocity demo_rivals intake_start) = []"
    unfolding officers_plain [OF plain] by (simp add: intake_start_def)
  from velocity_cap [OF orderly_plain [OF plain] this, of "\<lparr>vw_name = OneHour, vw_durationMs = HOUR_MS, vw_thresholdXaf = Fin 20\<rparr>" 20 "''u''" 0]
  show ?thesis by (simp add: getVelocityWindows_def numberFromEnv_def demo_env_velocity_def)
qed

lemma status_after_hold:
  assumes "status_of txs i = Some Pending"
  shows "fst (hold_for_review now i txs)" "status_of (fst (snd (hold_for_review now i txs))) i = Some PendingReview"
proof -
  obtain t where t: "find (\<lambda>t. tx_id t = i) txs = Some t" "tx_status t = Pending"
    using assms by (auto simp: status_of_def)
  then have "t \<in> set txs" "tx_id t = i" by (auto dest: find_SomeD)
  then show "fst (hold_for_review now i txs)" unfolding hold_for_review_def updateStatus_result
    using t(2) by (auto simp: status_where_def validPreviousStatuses_def)
  show "status_of (fst (snd (hold_for_review now i txs))) i = Some PendingReview"
    unfolding hold_for_review_def updateStatus_table using t \<open>tx_id t = i\<close>
    by (simp add: status_of_update status_where_def validPreviousStatuses_def)
qed

text \<open>
  C17. The order of the writes does not protect a held transaction: whenever a request has moved its
  transaction to review and one of the writes after that (alert, tags, metadata, notes) throws, the
  request queues the transaction all the same, in whatever state the rest of the program is.
\<close>

theorem failed_note_queues_held:
  assumes "k < length (in_requests w)" "in_requests w ! k = Holding i hits" "status_of (in_txs w) i = Some Pending"
  shows "let w' = intake_run enabled env [Request k Ok, Request k (Error written), Request k Ok] w
    in in_requests w' ! k = RequestQueued i \<and> hd (in_jobs w') = i \<and> status_of (in_txs w') i = Some PendingReview"
  using status_after_hold [OF assms(3), of "in_now w"] assms(1,2)
  by (auto simp: intake_run_def intake_step_def request_defs Let_def split: prod.splits)

definition demo_held :: intake where
  "demo_held = intake_start\<lparr>in_txs := create 0 \<lparr>nt_id = ''a'', nt_user = ''u'', nt_amount = ''25'', nt_provider = ''mtn'',
     nt_deposit = True\<rparr> [], in_requests := [Holding ''a'' []]\<rparr>"

theorem failed_note_queues_held_witness:
  "let w' = intake_run True demo_env_velocity [Request 0 Ok, Request 0 (Error True), Request 0 Ok] demo_held
    in in_requests w' ! 0 = RequestQueued ''a'' \<and> hd (in_jobs w') = ''a'' \<and> status_of (in_txs w') ''a'' = Some PendingReview"
  by (rule failed_note_queues_held) (simp_all add: demo_held_def intake_start_def create_def status_of_def)

text \<open>
  An officer who dismisses the only open alert of a transaction that was never held is told that it
  was released, and the transaction, whose status does not change, is queued once more.
\<close>

theorem dismissal_queues_again:
  assumes "find (\<lambda>a. al_id a = x) (in_alerts w) = Some alert"
    and "\<And>a. a \<in> set (in_alerts w) \<Longrightarrow> al_status a = PendingAlert \<Longrightarrow> al_id a = x"
    and "status_of (in_txs w) (al_transactionId alert) = Some Pending"
  shows "let n = length (in_officers w);
      w' = intake_run enabled env [ReviewAlert x Dismissed, Officer n Ok, Officer n Ok, Officer n Ok] w
    in in_officers w' ! n = Resolved True \<and> in_jobs w' = al_transactionId alert # in_jobs w \<and>
       status_of (in_txs w') (al_transactionId alert) = Some Pending"
proof -
  let ?i = "al_transactionId alert"
  obtain t where t: "find (\<lambda>t. tx_id t = ?i) (in_txs w) = Some t" "tx_status t = Pending"
    using assms(3) by (auto simp: status_of_def)
  then have row: "t \<in> set (in_txs w)" "tx_id t = ?i" by (auto dest: find_SomeD)
  have "\<not> list_ex (\<lambda>a. al_transactionId a = ?i \<and> al_status a = PendingAlert \<and> al_id a \<noteq> x)
      (sql_update (\<lambda>a. al_id a = x) (\<lambda>a. a\<lparr>al_status := Dismissed\<rparr>) (in_alerts w))"
    using assms(2) by (auto simp: list_ex_iff sql_update_def split: if_splits)
  then have review: "fst (reviewAmlAlert x Dismissed (in_alerts w)) = Inl (Deciding ?i Release)"
    using assms(1) by (simp add: reviewAmlAlert_def Let_def)
  have wrote: "fst (resolve_status now ?i Release (in_txs w))"
    "status_of (fst (snd (resolve_status now ?i Release (in_txs w)))) ?i = Some Pending"
    for now unfolding resolve_status_def updateStatus_result using row t
    by (auto simp: updateStatus_table status_where_def status_of_update)
  have "?i \<in> set (map tx_id (fst (snd (resolve_status now ?i Release (in_txs w)))))" for now
    unfolding resolve_status_def status_write_rows(1) using row by force
  then have found: "list_ex (\<lambda>t. tx_id t = ?i) (fst (snd (resolve_status now ?i Release (in_txs w))))" for now
    unfolding list_ex_iff by fastforce
  obtain als where "reviewAmlAlert x Dismissed (in_alerts w) = (Inl (Deciding ?i Release), als)"
    using review by (metis prod.collapse)
  moreover obtain txs' eff where "resolve_status (in_now w) ?i Release (in_txs w) = (True, txs', eff)"
    "status_of txs' ?i = Some Pending" "list_ex (\<lambda>t. tx_id t = ?i) txs'"
    using wrote found by (metis prod.collapse)
  ultimately show ?thesis
    by (simp add: intake_run_def intake_step_def officer_step_def Let_def nth_append)
qed

theorem dismissal_queues_again_witness:
  "let w = demo_held\<lparr>in_alerts := [\<lparr>al_id = ''x'', al_transactionId = ''a'', al_high = True, al_status = PendingAlert\<rparr>],
        in_jobs := [''a''], in_requests := [RequestQueued ''a'']\<rparr>;
      w' = intake_run True demo_env_velocity [ReviewAlert ''x'' Dismissed, Officer 0 Ok, Officer 0 Ok, Officer 0 Ok] w
    in in_jobs w' = [''a'', ''a'']"
  using dismissal_queues_again [of "''x''" "demo_held\<lparr>in_alerts := [\<lparr>al_id = ''x'', al_transactionId = ''a'', al_high = True,
      al_status = PendingAlert\<rparr>], in_jobs := [''a''], in_requests := [RequestQueued ''a'']\<rparr>"
    "\<lparr>al_id = ''x'', al_transactionId = ''a'', al_high = True, al_status = PendingAlert\<rparr>" True demo_env_velocity]
  by (simp add: demo_held_def intake_start_def create_def status_of_def Let_def)

end
