(* ===== verification/Transaction_Worker.thy ===== *)
theory Transaction_Worker
  imports Aml_Velocity
begin

text \<open>
  The worker of the transaction queue (\<^verbatim>\<open>src/queue/worker.ts\<close>, \<^verbatim>\<open>src/services/retry.ts\<close>,
  \<^verbatim>\<open>claimForProcessing\<close> of \<^verbatim>\<open>src/models/transaction.ts\<close>): \<^verbatim>\<open>processTransaction\<close> as a machine. A step is an
  awaited call, or a fixed sequence of them: the lookups of names and the screening of the recipient, the tags and notes after a
  sanctions hold, and the announcements after the final status are one step each. The Stellar network, the telecom provider, the screening of recipients and
  the blacklist are parameters: a step is given what the call answers, whether a call that throws took effect,
  and whether \<^verbatim>\<open>isTransientError\<close> takes its error for a transient one. Jobs are delivered any number of
  times, to any number of workers. Of the metadata column the hash of the Stellar payment and the answer of the
  provider are kept; the progress entry and the retry counter, which nothing reads, are left out (a
  retry whose counter fails ends like one after a permanent error).
\<close>

datatype job_type = Deposit | Withdraw

record TransactionJob =
  tj_transactionId :: id
  tj_type :: job_type
  tj_clientIp :: bool \<comment> \<open>whether the job names the client's address\<close>

record tx_metadata =
  md_stellar :: "string option" \<comment> \<open>\<^verbatim>\<open>metadata.stellar.transactionHash\<close>\<close>
  md_mobileMoney :: bool \<comment> \<open>\<^verbatim>\<open>metadata.mobileMoney.success\<close>\<close>

definition no_metadata :: tx_metadata where
  "no_metadata = \<lparr>md_stellar = None, md_mobileMoney = False\<rparr>"

datatype money_event =
    StellarPaid id \<comment> \<open>the customer's Stellar account receives the amount\<close>
  | Collected id \<comment> \<open>the provider debits the customer\<close>
  | PaidOut id \<comment> \<open>the provider pays the customer\<close>
  | AnnouncedCompleted id
  | AnnouncedFailed id

record pay_db =
  pd_txs :: "transaction list"
  pd_metadata :: "id \<Rightarrow> tx_metadata"
  pd_events :: "money_event list" \<comment> \<open>newest first\<close>

datatype call =
    Returns bool string \<comment> \<open>the call returns: what a check says, or the hash of a payment\<close>
  | ReadsReplica "(TransactionStatus \<times> tx_metadata) option" \<comment> \<open>a read that a replica answers, with an older row or none\<close>
  | Throws bool bool \<comment> \<open>whether it took effect, and whether the error is transient\<close>

fun threw :: "call \<Rightarrow> bool" where
  "threw (Throws _ _) = True"
| "threw _ = False"

fun took_effect :: "call \<Rightarrow> bool" where
  "took_effect (Throws e _) = e"
| "took_effect _ = True"

fun answered_hash :: "call \<Rightarrow> string" where
  "answered_hash (Returns _ h) = h"
| "answered_hash _ = []"

fun check_says :: "call \<Rightarrow> bool" where
  "check_says (Returns b _) = b"
| "check_says _ = False"

definition findTransactionById :: "call \<Rightarrow> id \<Rightarrow> pay_db \<Rightarrow> (TransactionStatus \<times> tx_metadata) option" where
  "findTransactionById c i db = (case c of
     ReadsReplica row \<Rightarrow> row
   | _ \<Rightarrow> map_option (\<lambda>s. (s, pd_metadata db i)) (status_of (pd_txs db) i))"

definition metadata_of :: "(TransactionStatus \<times> tx_metadata) option \<Rightarrow> tx_metadata" where
  \<comment> \<open>\<^verbatim>\<open>(await findById(id))?.metadata || {}\<close>\<close>
  "metadata_of row = (case row of Some (_, m) \<Rightarrow> m | None \<Rightarrow> no_metadata)"

definition claimForProcessing :: "millis \<Rightarrow> id \<Rightarrow> transaction list \<Rightarrow> bool \<times> transaction list" where
  "claimForProcessing now i txs =
     (let p = (\<lambda>t. tx_id t = i \<and> tx_status t = Pending)
      in (list_ex p txs, sql_update p (\<lambda>t. t\<lparr>tx_status := Processing, tx_updated := now\<rparr>) txs))"

definition write_status :: "call \<Rightarrow> millis \<Rightarrow> id \<Rightarrow> TransactionStatus \<Rightarrow> pay_db \<Rightarrow> pay_db" where
  "write_status c now i s db =
     (if took_effect c then db\<lparr>pd_txs := fst (snd (updateStatus now i s None None (pd_txs db)))\<rparr> else db)"

definition set_metadata :: "call \<Rightarrow> id \<Rightarrow> tx_metadata \<Rightarrow> pay_db \<Rightarrow> pay_db" where
  "set_metadata c i m db = (if took_effect c then db\<lparr>pd_metadata := (pd_metadata db)(i := m)\<rparr> else db)"

definition happen :: "call \<Rightarrow> money_event \<Rightarrow> pay_db \<Rightarrow> pay_db" where
  "happen c e db = (if took_effect c then db\<lparr>pd_events := e # pd_events db\<rparr> else db)"

section \<open>The machine\<close>

datatype worker_pc =
    CheckingIp
  | RejectingIp
  | NotifyingIp
  | Claiming
  | Rechecking
  | LoadingRow
  | Screening
  | Freezing
  | NotingFreeze
  | Paying nat \<comment> \<open>the attempt\<close>
  | ReadingMetadata string
  | StoringHash string tx_metadata
  | Starting
  | Collecting tx_metadata nat
  | NotingCollected tx_metadata
  | PayingStill nat
  | ReadingStill string
  | StoringStill string tx_metadata
  | PayingOut nat
  | Completing
  | AnnouncingSuccess
  | Failing
  | AnnouncingFailure
  | Returned bool
  | Rejected \<comment> \<open>the job throws\<close>

definition withRetry :: "nat \<Rightarrow> nat \<Rightarrow> call \<Rightarrow> worker_pc \<Rightarrow> (nat \<Rightarrow> worker_pc) \<Rightarrow> worker_pc \<Rightarrow> worker_pc" where
  \<comment> \<open>after an attempt: a transient error is followed by the next one, unless it was the last\<close>
  "withRetry maxAttempts attempt c ok again failed = (case c of
     Throws _ transient \<Rightarrow> if transient \<and> attempt < maxAttempts then again (Suc attempt) else failed
   | _ \<Rightarrow> ok)"

definition after_collecting :: "tx_metadata \<Rightarrow> worker_pc" where
  "after_collecting m = (case md_stellar m of Some h \<Rightarrow> if h = [] then PayingStill 1 else Completing | None \<Rightarrow> PayingStill 1)"

definition guard_call :: "millis \<Rightarrow> TransactionJob \<Rightarrow> call \<Rightarrow> worker_pc \<Rightarrow> pay_db \<Rightarrow> worker_pc \<times> pay_db" where
  \<comment> \<open>the blacklist and the claim\<close>
  "guard_call now job c pc db = (let i = tj_transactionId job in case pc of
     CheckingIp \<Rightarrow> (if threw c then Rejected else if check_says c then RejectingIp else Claiming, db)
   | RejectingIp \<Rightarrow> (if threw c then Rejected else NotifyingIp, write_status c now i Failed db)
   | NotifyingIp \<Rightarrow> (if threw c then Rejected else Returned False, happen c (AnnouncedFailed i) db)
   | Claiming \<Rightarrow>
       (case claimForProcessing now i (pd_txs db) of (claimed, txs') \<Rightarrow>
         (if threw c then Rejected else if claimed then LoadingRow else Rechecking,
          if took_effect c then db\<lparr>pd_txs := txs'\<rparr> else db))
   | Rechecking \<Rightarrow>
       (if threw c then Rejected
        else case findTransactionById c i db of
          Some (s, _) \<Rightarrow> if s \<noteq> Pending then Returned (s = Completed) else LoadingRow
        | None \<Rightarrow> LoadingRow, db)
   | _ \<Rightarrow> (pc, db))"

definition screening_call :: "millis \<Rightarrow> TransactionJob \<Rightarrow> call \<Rightarrow> worker_pc \<Rightarrow> pay_db \<Rightarrow> worker_pc \<times> pay_db" where
  \<comment> \<open>the row and, for withdrawals, \<^verbatim>\<open>holdWithdrawalIfSanctioned\<close>\<close>
  "screening_call now job c pc db = (let i = tj_transactionId job in case pc of
     LoadingRow \<Rightarrow> (if threw c then Rejected else case tj_type job of Withdraw \<Rightarrow> Screening | Deposit \<Rightarrow> Paying 1, db)
   | Screening \<Rightarrow> (if threw c then Rejected else if check_says c then Freezing else Paying 1, db)
   | Freezing \<Rightarrow> (if threw c then Rejected else NotingFreeze, write_status c now i Review db)
   | NotingFreeze \<Rightarrow> (if threw c then Rejected else Returned False, db)
   | _ \<Rightarrow> (pc, db))"

definition payment_call :: "nat \<Rightarrow> TransactionJob \<Rightarrow> call \<Rightarrow> worker_pc \<Rightarrow> pay_db \<Rightarrow> worker_pc \<times> pay_db" where
  \<comment> \<open>the Stellar payment, outside of any handler of errors\<close>
  "payment_call maxAttempts job c pc db = (let i = tj_transactionId job in case pc of
     Paying n \<Rightarrow>
       (withRetry maxAttempts n c (if answered_hash c = [] then Starting else ReadingMetadata (answered_hash c)) Paying Rejected,
        happen c (StellarPaid i) db)
   | ReadingMetadata h \<Rightarrow> (if threw c then Rejected else StoringHash h (metadata_of (findTransactionById c i db)), db)
   | StoringHash h m \<Rightarrow> (if threw c then Rejected else Starting, set_metadata c i (m\<lparr>md_stellar := Some h\<rparr>) db)
   | _ \<Rightarrow> (pc, db))"

definition provider_call :: "nat \<Rightarrow> TransactionJob \<Rightarrow> call \<Rightarrow> worker_pc \<Rightarrow> pay_db \<Rightarrow> worker_pc \<times> pay_db" where
  \<comment> \<open>the part of the provider, and the Stellar payment of a deposit that has none yet\<close>
  "provider_call maxAttempts job c pc db = (let i = tj_transactionId job in case pc of
     Starting \<Rightarrow>
       (if threw c then Failing
        else let m = metadata_of (findTransactionById c i db) in
          (case tj_type job of
             Deposit \<Rightarrow> if md_mobileMoney m then after_collecting m else Collecting m 1
           | Withdraw \<Rightarrow> PayingOut 1), db)
   | Collecting m n \<Rightarrow> (withRetry maxAttempts n c (NotingCollected m) (Collecting m) Failing, happen c (Collected i) db)
   | NotingCollected m \<Rightarrow> (after_collecting m, set_metadata c i ((pd_metadata db i)\<lparr>md_mobileMoney := True\<rparr>) db)
   | PayingStill n \<Rightarrow> (withRetry maxAttempts n c (ReadingStill (answered_hash c)) PayingStill Failing, happen c (StellarPaid i) db)
   | ReadingStill h \<Rightarrow> (if threw c then Failing else StoringStill h (metadata_of (findTransactionById c i db)), db)
   | StoringStill h m \<Rightarrow> (if threw c then Failing else Completing, set_metadata c i (m\<lparr>md_stellar := Some h\<rparr>) db)
   | PayingOut n \<Rightarrow> (withRetry maxAttempts n c Completing PayingOut Failing, happen c (PaidOut i) db)
   | _ \<Rightarrow> (pc, db))"

definition ending_call :: "millis \<Rightarrow> TransactionJob \<Rightarrow> call \<Rightarrow> worker_pc \<Rightarrow> pay_db \<Rightarrow> worker_pc \<times> pay_db" where
  \<comment> \<open>the final status and its announcement\<close>
  "ending_call now job c pc db = (let i = tj_transactionId job in case pc of
     Completing \<Rightarrow> (if threw c then Failing else AnnouncingSuccess, write_status c now i Completed db)
   | AnnouncingSuccess \<Rightarrow> (if threw c then Failing else Returned True, happen c (AnnouncedCompleted i) db)
   | Failing \<Rightarrow> (if threw c then Rejected else AnnouncingFailure, write_status c now i Failed db)
   | AnnouncingFailure \<Rightarrow> (if threw c then Rejected else Returned False, happen c (AnnouncedFailed i) db)
   | _ \<Rightarrow> (pc, db))"

definition processTransaction ::
  "nat \<Rightarrow> millis \<Rightarrow> TransactionJob \<Rightarrow> call \<Rightarrow> worker_pc \<Rightarrow> pay_db \<Rightarrow> worker_pc \<times> pay_db" where
  "processTransaction maxAttempts now job c pc db = (case pc of
     CheckingIp \<Rightarrow> guard_call now job c pc db
   | RejectingIp \<Rightarrow> guard_call now job c pc db
   | NotifyingIp \<Rightarrow> guard_call now job c pc db
   | Claiming \<Rightarrow> guard_call now job c pc db
   | Rechecking \<Rightarrow> guard_call now job c pc db
   | LoadingRow \<Rightarrow> screening_call now job c pc db
   | Screening \<Rightarrow> screening_call now job c pc db
   | Freezing \<Rightarrow> screening_call now job c pc db
   | NotingFreeze \<Rightarrow> screening_call now job c pc db
   | Paying _ \<Rightarrow> payment_call maxAttempts job c pc db
   | ReadingMetadata _ \<Rightarrow> payment_call maxAttempts job c pc db
   | StoringHash _ _ \<Rightarrow> payment_call maxAttempts job c pc db
   | Starting \<Rightarrow> provider_call maxAttempts job c pc db
   | Collecting _ _ \<Rightarrow> provider_call maxAttempts job c pc db
   | NotingCollected _ \<Rightarrow> provider_call maxAttempts job c pc db
   | PayingStill _ \<Rightarrow> provider_call maxAttempts job c pc db
   | ReadingStill _ \<Rightarrow> provider_call maxAttempts job c pc db
   | StoringStill _ _ \<Rightarrow> provider_call maxAttempts job c pc db
   | PayingOut _ \<Rightarrow> provider_call maxAttempts job c pc db
   | Completing \<Rightarrow> ending_call now job c pc db
   | AnnouncingSuccess \<Rightarrow> ending_call now job c pc db
   | Failing \<Rightarrow> ending_call now job c pc db
   | AnnouncingFailure \<Rightarrow> ending_call now job c pc db
   | _ \<Rightarrow> (pc, db))"

lemmas process_defs = processTransaction_def guard_call_def screening_call_def payment_call_def provider_call_def ending_call_def

definition job_start :: "TransactionJob \<Rightarrow> worker_pc" where
  "job_start job = (if tj_clientIp job then CheckingIp else Claiming)"

section \<open>Workers beside each other\<close>

record workshop =
  ws_now :: millis
  ws_db :: pay_db
  ws_workers :: "(TransactionJob \<times> worker_pc) list"

datatype work_act =
    Wait int
  | Deliver TransactionJob
  | Work nat call
  | HoldForReview id \<comment> \<open>velocity monitoring\<close>
  | ResolveHold id decision \<comment> \<open>a compliance officer\<close>

definition set_txs :: "(transaction list \<Rightarrow> transaction list) \<Rightarrow> workshop \<Rightarrow> workshop" where
  "set_txs f w = w\<lparr>ws_db := (ws_db w)\<lparr>pd_txs := f (pd_txs (ws_db w))\<rparr>\<rparr>"

definition work_step :: "nat \<Rightarrow> work_act \<Rightarrow> workshop \<Rightarrow> workshop" where
  "work_step maxAttempts act w = (case act of
     Wait d \<Rightarrow> w\<lparr>ws_now := ws_now w + max 0 d\<rparr>
   | Deliver job \<Rightarrow> w\<lparr>ws_workers := ws_workers w @ [(job, job_start job)]\<rparr>
   | Work k c \<Rightarrow>
       if k < length (ws_workers w) then
         (case ws_workers w ! k of (job, pc) \<Rightarrow>
           (case processTransaction maxAttempts (ws_now w) job c pc (ws_db w) of (pc', db') \<Rightarrow>
             w\<lparr>ws_db := db', ws_workers := (ws_workers w)[k := (job, pc')]\<rparr>))
       else w
   | HoldForReview i \<Rightarrow> set_txs (\<lambda>txs. fst (snd (hold_for_review (ws_now w) i txs))) w
   | ResolveHold i d \<Rightarrow> set_txs (\<lambda>txs. fst (snd (resolve_status (ws_now w) i d txs))) w)"

definition work_run :: "nat \<Rightarrow> work_act list \<Rightarrow> workshop \<Rightarrow> workshop" where
  "work_run maxAttempts acts w = fold (work_step maxAttempts) acts w"

definition opened :: "transaction list \<Rightarrow> workshop" where
  \<comment> \<open>a table of new transactions; no worker has started\<close>
  "opened txs = \<lparr>ws_now = 0, ws_db = \<lparr>pd_txs = txs, pd_metadata = (\<lambda>_. no_metadata), pd_events = []\<rparr>, ws_workers = []\<rparr>"

end
