(* ===== verification/Transaction_Worker_Safety.thy ===== *)
theory Transaction_Worker_Safety
  imports Transaction_Worker
begin

text \<open>
  What the queue worker guarantees. A claim hands a transaction to one worker, so that of orderly
  schedules (no job slips past a failed claim, no lost answer of a payment, the row of a claimed
  transaction read afresh) every transfer of money happens at most once, and never for a transaction
  that is held, rejected or unclaimed. A completed transaction was paid on both sides. The order of
  the calls is also shown for what it is: the Stellar account is paid first, whatever the type of the
  job and whatever the provider answers afterwards.
\<close>

section \<open>Statuses of rows\<close>

lemma status_after_write:
  "status_of (fst (snd (updateStatus now j s None e txs))) i =
     map_option (\<lambda>r. if i = j \<and> (r = s \<or> r \<in> set (validPreviousStatuses s e)) then s else r) (status_of txs i)"
proof -
  have "status_of (fst (snd (updateStatus now j s None e txs))) i =
      map_option (\<lambda>t. tx_status (if status_where j s None e t then t\<lparr>tx_status := s, tx_updated := now\<rparr> else t)) (find (\<lambda>t. tx_id t = i) txs)"
    unfolding updateStatus_table by (rule status_of_update) simp
  then show ?thesis unfolding status_of_def
    by (cases "find (\<lambda>t. tx_id t = i) txs") (auto simp: status_where_def dest: find_SomeD)
qed

lemma status_after_claim:
  "status_of (snd (claimForProcessing now j txs)) i =
     map_option (\<lambda>r. if i = j \<and> r = Pending then Processing else r) (status_of txs i)"
proof -
  have "status_of (snd (claimForProcessing now j txs)) i =
      map_option (\<lambda>t. tx_status (if tx_id t = j \<and> tx_status t = Pending then t\<lparr>tx_status := Processing, tx_updated := now\<rparr> else t)) (find (\<lambda>t. tx_id t = i) txs)"
    unfolding claimForProcessing_def Let_def snd_conv by (rule status_of_update) simp
  then show ?thesis unfolding status_of_def
    by (cases "find (\<lambda>t. tx_id t = i) txs") (auto dest: find_SomeD)
qed

lemma claim_succeeds:
  assumes "distinct (map tx_id txs)"
  shows "fst (claimForProcessing now i txs) \<longleftrightarrow> status_of txs i = Some Pending"
proof
  assume "fst (claimForProcessing now i txs)"
  then obtain t where t: "t \<in> set txs" "tx_id t = i" "tx_status t = Pending"
    by (auto simp: claimForProcessing_def Let_def list_ex_iff)
  then show "status_of txs i = Some Pending" using find_key_unique [OF assms t(1)] by (simp add: status_of_def)
next
  assume "status_of txs i = Some Pending"
  then obtain t where "find (\<lambda>t. tx_id t = i) txs = Some t" "tx_status t = Pending" by (auto simp: status_of_def)
  then show "fst (claimForProcessing now i txs)"
    by (auto simp: claimForProcessing_def Let_def list_ex_iff dest!: find_SomeD)
qed

lemma claim_ids: "map tx_id (snd (claimForProcessing now i txs)) = map tx_id txs"
  by (simp add: claimForProcessing_def Let_def map_sql_update)

lemma claim_pair: "claimForProcessing now i txs = (b, txs') \<Longrightarrow> map tx_id txs' = map tx_id txs"
  by (metis claim_ids snd_conv)

section \<open>One worker\<close>

fun executing :: "worker_pc \<Rightarrow> bool" where
  \<comment> \<open>past the guard\<close>
  "executing CheckingIp = False"
| "executing RejectingIp = False"
| "executing NotifyingIp = False"
| "executing Claiming = False"
| "executing Rechecking = False"
| "executing (Returned _) = False"
| "executing Rejected = False"
| "executing _ = True"

fun event_of :: "money_event \<Rightarrow> id" where
  "event_of (StellarPaid i) = i"
| "event_of (Collected i) = i"
| "event_of (PaidOut i) = i"
| "event_of (AnnouncedCompleted i) = i"
| "event_of (AnnouncedFailed i) = i"

fun moves_money :: "money_event \<Rightarrow> bool" where
  "moves_money (StellarPaid _) = True"
| "moves_money (Collected _) = True"
| "moves_money (PaidOut _) = True"
| "moves_money _ = False"

definition has_hash :: "tx_metadata \<Rightarrow> bool" where
  "has_hash m \<longleftrightarrow> (case md_stellar m of Some h \<Rightarrow> h \<noteq> [] | None \<Rightarrow> False)"

lemma has_hash_simps [simp]:
  "has_hash (m\<lparr>md_stellar := Some h\<rparr>) \<longleftrightarrow> h \<noteq> []" "has_hash (m\<lparr>md_mobileMoney := b\<rparr>) \<longleftrightarrow> has_hash m"
  by (simp_all add: has_hash_def)

lemma after_collecting_hash: "after_collecting m = (if has_hash m then Completing else PayingStill 1)"
  by (simp add: after_collecting_def has_hash_def split: option.splits)

text \<open>How often a worker at a point of the code may still make a transfer.\<close>

fun stellar_left :: "tx_metadata \<Rightarrow> worker_pc \<Rightarrow> nat" where
  "stellar_left m LoadingRow = 1"
| "stellar_left m Screening = 1"
| "stellar_left m (Paying _) = 1"
| "stellar_left m (ReadingMetadata h) = (if h = [] then 1 else 0)"
| "stellar_left m (StoringHash h _) = (if h = [] then 1 else 0)"
| "stellar_left m Starting = (if has_hash m then 0 else 1)"
| "stellar_left m (Collecting m' _) = (if has_hash m' then 0 else 1)"
| "stellar_left m (NotingCollected m') = (if has_hash m' then 0 else 1)"
| "stellar_left m (PayingStill _) = 1"
| "stellar_left m _ = 0"

fun provider_left :: "worker_pc \<Rightarrow> nat" where
  "provider_left LoadingRow = 1"
| "provider_left Screening = 1"
| "provider_left (Paying _) = 1"
| "provider_left (ReadingMetadata _) = 1"
| "provider_left (StoringHash _ _) = 1"
| "provider_left Starting = 1"
| "provider_left (Collecting _ _) = 1"
| "provider_left (PayingOut _) = 1"
| "provider_left _ = 0"

fun transfers_left :: "money_event \<Rightarrow> tx_metadata \<Rightarrow> worker_pc \<Rightarrow> nat" where
  "transfers_left (StellarPaid _) m pc = stellar_left m pc"
| "transfers_left _ m pc = provider_left pc"

fun orderly_call :: "TransactionJob \<Rightarrow> call \<Rightarrow> worker_pc \<Rightarrow> pay_db \<Rightarrow> bool" where
  "orderly_call job c Rechecking db \<longleftrightarrow> threw c \<or>
     (case findTransactionById c (tj_transactionId job) db of Some (s, _) \<Rightarrow> s \<noteq> Pending | None \<Rightarrow> False)"
| "orderly_call job c (Paying _) db \<longleftrightarrow> (if threw c then \<not> took_effect c else answered_hash c \<noteq> [])"
| "orderly_call job c (PayingStill _) db \<longleftrightarrow> \<not> (threw c \<and> took_effect c)"
| "orderly_call job c (Collecting _ _) db \<longleftrightarrow> \<not> (threw c \<and> took_effect c)"
| "orderly_call job c (PayingOut _) db \<longleftrightarrow> \<not> (threw c \<and> took_effect c)"
| "orderly_call job c Starting db \<longleftrightarrow> (case c of ReadsReplica _ \<Rightarrow> False | _ \<Rightarrow> True)"
| "orderly_call job c _ db \<longleftrightarrow> True"

definition busy_status :: "TransactionStatus option \<Rightarrow> bool" where
  "busy_status s \<longleftrightarrow> s \<in> {Some Processing, Some Completed, Some Failed, Some Review}"

lemma busy_after_write:
  "busy_status s \<Longrightarrow> r \<in> {Completed, Failed, Review} \<Longrightarrow>
   busy_status (map_option (\<lambda>r'. if P r' then r else r') s)"
  by (auto simp: busy_status_def)

lemma db_simps [simp]:
  "pd_events (write_status c now i s db) = pd_events db" "pd_metadata (write_status c now i s db) = pd_metadata db"
  "map tx_id (pd_txs (write_status c now i s db)) = map tx_id (pd_txs db)"
  "pd_txs (set_metadata c i m db) = pd_txs db" "pd_events (set_metadata c i m db) = pd_events db"
  "pd_metadata (set_metadata c i m db) = (if took_effect c then (pd_metadata db)(i := m) else pd_metadata db)"
  "pd_txs (happen c e db) = pd_txs db" "pd_metadata (happen c e db) = pd_metadata db"
  "pd_events (happen c e db) = (if took_effect c then e # pd_events db else pd_events db)"
  by (simp_all add: write_status_def set_metadata_def happen_def updateStatus_ids)

lemma status_after_worker_write:
  "status_of (pd_txs (write_status c now j s db)) i =
     (if took_effect c then map_option (\<lambda>r. if i = j \<and> status_step r s then s else r) (status_of (pd_txs db) i)
      else status_of (pd_txs db) i)"
  by (cases "status_of (pd_txs db) i") (auto simp: write_status_def status_after_write validPreviousStatuses_None)

lemma not_threw: "\<not> threw c \<Longrightarrow> took_effect c"
  by (cases c) auto

lemma foreign_step:
  assumes "processTransaction M now job c pc db = (pc', db')" "j \<noteq> tj_transactionId job"
  shows "status_of (pd_txs db') j = status_of (pd_txs db) j" "pd_metadata db' j = pd_metadata db j"
    "event_of e = j \<Longrightarrow> count_list (pd_events db') e = count_list (pd_events db) e"
    "event_of e = j \<Longrightarrow> e \<in> set (pd_events db') \<longleftrightarrow> e \<in> set (pd_events db)"
  using assms by (auto simp: process_defs Let_def status_after_worker_write status_after_claim map_option_case
      split: worker_pc.splits prod.splits if_splits option.splits dest!: arg_cong [of "claimForProcessing _ _ _" _ snd])

lemma step_ids:
  assumes "processTransaction M now job c pc db = (pc', db')"
  shows "map tx_id (pd_txs db') = map tx_id (pd_txs db)"
  using assms by (auto simp: process_defs Let_def split: worker_pc.splits prod.splits if_splits dest: claim_pair)

lemma idle_step:
  assumes "processTransaction M now job c pc db = (pc', db')" "\<not> executing pc" "orderly_call job c pc db"
    and "distinct (map tx_id (pd_txs db))"
  shows "pd_metadata db' = pd_metadata db" "moves_money e \<Longrightarrow> count_list (pd_events db') e = count_list (pd_events db) e"
    "executing pc' \<Longrightarrow> pc' = LoadingRow \<and> status_of (pd_txs db) (tj_transactionId job) = Some Pending \<and>
       status_of (pd_txs db') (tj_transactionId job) = Some Processing"
    "status_of (pd_txs db') i = Some s \<Longrightarrow> s \<in> {Pending, PendingReview} \<Longrightarrow> status_of (pd_txs db) i = Some s"
    "busy_status (status_of (pd_txs db) i) \<Longrightarrow> busy_status (status_of (pd_txs db') i)"
proof -
  let ?j = "tj_transactionId job"
  obtain claimed txs' where claim: "claimForProcessing now ?j (pd_txs db) = (claimed, txs')" by fastforce
  have status: "status_of txs' i = map_option (\<lambda>r. if i = ?j \<and> r = Pending then Processing else r) (status_of (pd_txs db) i)" for i
    using status_after_claim [of now ?j "pd_txs db" i] claim by simp
  have success: "claimed \<longleftrightarrow> status_of (pd_txs db) ?j = Some Pending"
    using claim_succeeds [OF assms(4), of now ?j] claim by simp
  show "pd_metadata db' = pd_metadata db" using assms(1,2)
    by (cases pc) (auto simp: process_defs Let_def claim split: if_splits)
  show "count_list (pd_events db') e = count_list (pd_events db) e" if "moves_money e" using assms(1,2) that
    by (cases pc) (auto simp: process_defs Let_def claim split: if_splits)
  show "executing pc' \<Longrightarrow> pc' = LoadingRow \<and> status_of (pd_txs db) ?j = Some Pending \<and> status_of (pd_txs db') ?j = Some Processing"
    using assms(1-3) by (cases pc) (auto simp: process_defs Let_def claim success status not_threw split: if_splits option.splits prod.splits)
  show "status_of (pd_txs db') i = Some s \<Longrightarrow> s \<in> {Pending, PendingReview} \<Longrightarrow> status_of (pd_txs db) i = Some s"
    using assms(1,2) by (cases pc) (auto simp: process_defs Let_def claim status status_after_worker_write split: if_splits)
  show "busy_status (status_of (pd_txs db) i) \<Longrightarrow> busy_status (status_of (pd_txs db') i)"
    using assms(1,2) by (cases pc) (auto simp: process_defs Let_def claim status status_after_worker_write busy_status_def split: if_splits)
qed

lemma working_step:
  assumes "processTransaction M now job c pc db = (pc', db')" "executing pc" "orderly_call job c pc db"
    and "busy_status (status_of (pd_txs db) (tj_transactionId job))"
  shows "busy_status (status_of (pd_txs db') (tj_transactionId job))"
    "moves_money e \<Longrightarrow> event_of e = tj_transactionId job \<Longrightarrow>
       count_list (pd_events db') e + transfers_left e (pd_metadata db' (tj_transactionId job)) pc' \<le>
       count_list (pd_events db) e + transfers_left e (pd_metadata db (tj_transactionId job)) pc"
proof -
  show "busy_status (status_of (pd_txs db') (tj_transactionId job))" using assms(1,2,4)
    by (cases pc) (auto simp: process_defs Let_def status_after_worker_write busy_after_write)
  have res: "pc' = fst (processTransaction M now job c pc db)" "db' = snd (processTransaction M now job c pc db)"
    using assms(1) by simp_all
  assume e: "moves_money e" "event_of e = tj_transactionId job"
  show "count_list (pd_events db') e + transfers_left e (pd_metadata db' (tj_transactionId job)) pc' \<le>
       count_list (pd_events db) e + transfers_left e (pd_metadata db (tj_transactionId job)) pc"
  proof (cases e)
    case (StellarPaid x)
    obtain s where "status_of (pd_txs db) (tj_transactionId job) = Some s" using assms(4) by (auto simp: busy_status_def)
    then show ?thesis using StellarPaid assms(2,3) e(2) unfolding res
      by (cases pc; cases c) (simp_all add: process_defs Let_def withRetry_def after_collecting_hash findTransactionById_def
          metadata_of_def split: if_splits job_type.splits)
  next
    case (Collected x)
    then show ?thesis using assms(2,3) e(2) unfolding res
      by (cases pc; cases c) (simp_all add: process_defs Let_def withRetry_def after_collecting_hash split: if_splits job_type.splits)
  next
    case (PaidOut x)
    then show ?thesis using assms(2,3) e(2) unfolding res
      by (cases pc; cases c) (simp_all add: process_defs Let_def withRetry_def after_collecting_hash split: if_splits job_type.splits)
  qed (use e(1) in simp_all)
qed

section \<open>All workers\<close>

fun orderly_work :: "work_act \<Rightarrow> workshop \<Rightarrow> bool" where
  "orderly_work (Work k c) w \<longleftrightarrow>
     (k < length (ws_workers w) \<longrightarrow> orderly_call (fst (ws_workers w ! k)) c (snd (ws_workers w ! k)) (ws_db w))"
| "orderly_work _ w \<longleftrightarrow> True"

fun orderly_works :: "nat \<Rightarrow> work_act list \<Rightarrow> workshop \<Rightarrow> bool" where
  "orderly_works M [] w \<longleftrightarrow> True"
| "orderly_works M (a # acts) w \<longleftrightarrow> orderly_work a w \<and> orderly_works M acts (work_step M a w)"

definition runs_on :: "workshop \<Rightarrow> id \<Rightarrow> nat \<Rightarrow> bool" where
  \<comment> \<open>the worker is past the guard with the transaction\<close>
  "runs_on w i k \<longleftrightarrow> k < length (ws_workers w) \<and> tj_transactionId (fst (ws_workers w ! k)) = i \<and> executing (snd (ws_workers w ! k))"

abbreviation (input) status :: "workshop \<Rightarrow> id \<Rightarrow> TransactionStatus option" where
  "status w i \<equiv> status_of (pd_txs (ws_db w)) i"

abbreviation (input) times :: "workshop \<Rightarrow> money_event \<Rightarrow> nat" where
  "times w e \<equiv> count_list (pd_events (ws_db w)) e"

definition waiting :: "TransactionStatus option \<Rightarrow> bool" where
  "waiting s \<longleftrightarrow> s \<in> {Some Pending, Some PendingReview}"

definition exclusive :: "id \<Rightarrow> workshop \<Rightarrow> bool" where
  "exclusive i w \<longleftrightarrow> distinct (map tx_id (pd_txs (ws_db w))) \<and>
     (\<forall>k. runs_on w i k \<longrightarrow> busy_status (status w i)) \<and> (\<forall>k k'. runs_on w i k \<longrightarrow> runs_on w i k' \<longrightarrow> k = k') \<and>
     (\<forall>e. moves_money e \<longrightarrow> event_of e = i \<longrightarrow> times w e \<le> 1 \<and> (waiting (status w i) \<longrightarrow> times w e = 0) \<and>
        (\<forall>k. runs_on w i k \<longrightarrow> times w e + transfers_left e (pd_metadata (ws_db w) i) (snd (ws_workers w ! k)) \<le> 1))"

lemma exclusiveD:
  assumes "exclusive i w"
  shows "distinct (map tx_id (pd_txs (ws_db w)))" "runs_on w i k \<Longrightarrow> busy_status (status w i)"
    "runs_on w i k \<Longrightarrow> runs_on w i k' \<Longrightarrow> k = k'"
    "moves_money e \<Longrightarrow> event_of e = i \<Longrightarrow> times w e \<le> 1"
    "moves_money e \<Longrightarrow> event_of e = i \<Longrightarrow> waiting (status w i) \<Longrightarrow> times w e = 0"
    "moves_money e \<Longrightarrow> event_of e = i \<Longrightarrow> runs_on w i k \<Longrightarrow>
       times w e + transfers_left e (pd_metadata (ws_db w) i) (snd (ws_workers w ! k)) \<le> 1"
  using assms unfolding exclusive_def by blast+

lemma exclusiveI:
  assumes "distinct (map tx_id (pd_txs (ws_db w)))" "\<And>k. runs_on w i k \<Longrightarrow> busy_status (status w i)"
    and "\<And>k k'. runs_on w i k \<Longrightarrow> runs_on w i k' \<Longrightarrow> k = k'"
    and "\<And>e. moves_money e \<Longrightarrow> event_of e = i \<Longrightarrow> times w e \<le> 1"
    and "\<And>e. moves_money e \<Longrightarrow> event_of e = i \<Longrightarrow> waiting (status w i) \<Longrightarrow> times w e = 0"
    and "\<And>e k. moves_money e \<Longrightarrow> event_of e = i \<Longrightarrow> runs_on w i k \<Longrightarrow>
       times w e + transfers_left e (pd_metadata (ws_db w) i) (snd (ws_workers w ! k)) \<le> 1"
  shows "exclusive i w"
  using assms unfolding exclusive_def by blast

lemma not_waiting_busy: "busy_status s \<Longrightarrow> \<not> waiting s"
  by (auto simp: busy_status_def waiting_def)

lemma outside_writes:
  shows "map tx_id (fst (snd (hold_for_review now j txs))) = map tx_id txs"
    "map tx_id (fst (snd (resolve_status now j d txs))) = map tx_id txs"
    "busy_status (status_of txs i) \<Longrightarrow> busy_status (status_of (fst (snd (hold_for_review now j txs))) i)"
    "busy_status (status_of txs i) \<Longrightarrow> busy_status (status_of (fst (snd (resolve_status now j d txs))) i)"
    "waiting (status_of (fst (snd (hold_for_review now j txs))) i) \<Longrightarrow> waiting (status_of txs i)"
    "waiting (status_of (fst (snd (resolve_status now j d txs))) i) \<Longrightarrow> waiting (status_of txs i)"
  by (cases d; auto simp: hold_for_review_def resolve_status_def updateStatus_ids status_after_write busy_status_def
      waiting_def validPreviousStatuses_def split: if_splits)+

lemma exclusive_outside:
  assumes "exclusive i w" "map tx_id (f (pd_txs (ws_db w))) = map tx_id (pd_txs (ws_db w))"
    and "busy_status (status w i) \<Longrightarrow> busy_status (status_of (f (pd_txs (ws_db w))) i)"
    and "waiting (status_of (f (pd_txs (ws_db w))) i) \<Longrightarrow> waiting (status w i)"
  shows "exclusive i (set_txs f w)"
proof -
  have same: "runs_on (set_txs f w) i k \<longleftrightarrow> runs_on w i k" for k by (simp add: runs_on_def set_txs_def)
  show ?thesis using assms unfolding exclusive_def same by (simp add: set_txs_def)
qed

lemma exclusive_deliver:
  assumes "exclusive i w"
  shows "exclusive i (w\<lparr>ws_workers := ws_workers w @ [(job, job_start job)]\<rparr>)"
proof -
  have same: "runs_on (w\<lparr>ws_workers := ws_workers w @ [(job, job_start job)]\<rparr>) i k \<longleftrightarrow> runs_on w i k" for k
    by (auto simp: runs_on_def nth_append less_Suc_eq job_start_def)
  have "(ws_workers w @ [(job, job_start job)]) ! k = ws_workers w ! k" if "runs_on w i k" for k
    using that by (simp add: runs_on_def nth_append)
  then show ?thesis using assms unfolding exclusive_def same by simp
qed

lemma exclusive_work:
  assumes "exclusive i w" "orderly_work (Work k c) w"
  shows "exclusive i (work_step M (Work k c) w)"
proof (cases "k < length (ws_workers w)")
  case k: True
  obtain job pc where wk: "ws_workers w ! k = (job, pc)" by fastforce
  obtain pc' db' where step: "processTransaction M (ws_now w) job c pc (ws_db w) = (pc', db')" by fastforce
  have oc: "orderly_call job c pc (ws_db w)" using assms(2) k wk by simp
  define z where "z = work_step M (Work k c) w"
  have z: "ws_db z = db'" "ws_workers z = (ws_workers w)[k := (job, pc')]"
    using k wk step by (simp_all add: z_def work_step_def)
  note x = exclusiveD [OF assms(1)]
  have ids: "distinct (map tx_id (pd_txs db'))" using step_ids [OF step] x(1) by simp
  have others: "runs_on z i n \<longleftrightarrow> runs_on w i n" "runs_on w i n \<Longrightarrow> ws_workers z ! n = ws_workers w ! n" if "n \<noteq> k" for n
    using that by (auto simp: runs_on_def z)
  have self: "runs_on z i k \<longleftrightarrow> tj_transactionId job = i \<and> executing pc'" "runs_on w i k \<longleftrightarrow> tj_transactionId job = i \<and> executing pc"
    "ws_workers z ! k = (job, pc')"
    using k wk by (auto simp: runs_on_def z)
  show ?thesis
  proof (cases "tj_transactionId job = i")
    case False
    note f = foreign_step [OF step False [symmetric]]
    have "runs_on z i n \<longleftrightarrow> runs_on w i n" for n using others self False by (cases "n = k") auto
    moreover have "ws_workers z ! n = ws_workers w ! n" if "runs_on w i n" for n
      using others(2) [OF _ that] self(2) that False by blast
    ultimately show ?thesis using assms(1) f ids unfolding z_def [symmetric] exclusive_def z by simp
  next
    case own: True
    show ?thesis
    proof (cases "executing pc")
      case True
      have busy: "busy_status (status w i)" using x(2) self(2) own True by blast
      note b = working_step [OF step True oc, unfolded own, OF busy]
      have only: "n = k" if "runs_on z i n" for n using others(1) x(3) self(2) own True that by blast
      have total: "times z e + transfers_left e (pd_metadata (ws_db z) i) pc' \<le> 1" if "moves_money e" "event_of e = i" for e
        using order_trans [OF b(2) [OF that] x(6) [OF that, of k, unfolded wk snd_conv]] self(2) own True z(1) by simp
      show ?thesis unfolding z_def [symmetric]
      proof (rule exclusiveI)
        show "distinct (map tx_id (pd_txs (ws_db z)))" "busy_status (status z i)" using ids b(1) z(1) by simp_all
        show "times z e \<le> 1" if "moves_money e" "event_of e = i" for e using total [OF that] by simp
        show "times z e = 0" if "waiting (status z i)" for e using that not_waiting_busy [OF b(1)] z(1) by simp
        show "n = n'" if "runs_on z i n" "runs_on z i n'" for n n' using only that by blast
        show "times z e + transfers_left e (pd_metadata (ws_db z) i) (snd (ws_workers z ! n)) \<le> 1"
          if "moves_money e" "event_of e = i" "runs_on z i n" for e n
          using total [OF that(1,2)] only [OF that(3)] self(3) by simp
      qed
    next
      case False
      note b = idle_step [OF step False oc x(1)]
      show ?thesis
      proof (cases "executing pc'")
        case True
        note new = b(3) [OF True, unfolded own]
        have none: "\<not> runs_on w i n" for n
          using x(2) [of n] new not_waiting_busy by (auto simp: waiting_def)
        then have only: "runs_on z i n \<longleftrightarrow> n = k" for n using others(1) self(1) own True by (cases "n = k") auto
        have "times z e = 0" if "moves_money e" "event_of e = i" for e
          using x(5) [OF that] new b(2) [OF that(1)] z(1) by (simp add: waiting_def)
        moreover have "transfers_left e m LoadingRow \<le> 1" for e m by (cases e) auto
        ultimately show ?thesis using ids new self(3) z
          unfolding z_def [symmetric] exclusive_def only by (auto simp: busy_status_def)
      next
        case idle: False
        have same: "runs_on z i n \<longleftrightarrow> runs_on w i n" for n using others(1) self own False idle by (cases "n = k") auto
        have "ws_workers z ! n = ws_workers w ! n" if "runs_on w i n" for n
          using others(2) [OF _ that] self(2) that False by blast
        moreover have "waiting (status_of (pd_txs db') i) \<Longrightarrow> waiting (status w i)"
          using b(4) [of i] by (auto simp: waiting_def)
        ultimately show ?thesis using assms(1) ids b(1,2) b(5) [of i] z
          unfolding z_def [symmetric] exclusive_def same by simp
      qed
    qed
  qed
qed (use assms in \<open>simp add: work_step_def\<close>)

lemma exclusive_step: "exclusive i w \<Longrightarrow> orderly_work a w \<Longrightarrow> exclusive i (work_step M a w)"
proof (cases a)
  case (Wait d)
  then show "exclusive i w \<Longrightarrow> exclusive i (work_step M a w)"
    by (simp add: work_step_def exclusive_def runs_on_def)
next
  case (Deliver job)
  then show "exclusive i w \<Longrightarrow> exclusive i (work_step M a w)"
    using exclusive_deliver by (simp add: work_step_def)
next
  case (HoldForReview j)
  then show "exclusive i w \<Longrightarrow> exclusive i (work_step M a w)"
    unfolding work_step_def by (auto intro: exclusive_outside outside_writes)
next
  case (ResolveHold j d)
  then show "exclusive i w \<Longrightarrow> exclusive i (work_step M a w)"
    unfolding work_step_def by (auto intro: exclusive_outside outside_writes)
qed (auto intro: exclusive_work)

lemma exclusive_run: "exclusive i w \<Longrightarrow> orderly_works M acts w \<Longrightarrow> exclusive i (work_run M acts w)"
  by (induction acts arbitrary: w) (auto simp: work_run_def exclusive_step)

lemma exclusive_opened: "distinct (map tx_id txs) \<Longrightarrow> exclusive i (opened txs)"
  by (simp add: exclusive_def opened_def runs_on_def)

section \<open>What was paid before\<close>

fun past_payment :: "worker_pc \<Rightarrow> bool" where
  \<comment> \<open>after the first Stellar payment\<close>
  "past_payment (ReadingMetadata _) = True"
| "past_payment (StoringHash _ _) = True"
| "past_payment Starting = True"
| "past_payment (Collecting _ _) = True"
| "past_payment (NotingCollected _) = True"
| "past_payment (PayingStill _) = True"
| "past_payment (ReadingStill _) = True"
| "past_payment (StoringStill _ _) = True"
| "past_payment (PayingOut _) = True"
| "past_payment Completing = True"
| "past_payment AnnouncingSuccess = True"
| "past_payment _ = False"

fun past_provider :: "worker_pc \<Rightarrow> bool" where
  \<comment> \<open>after the provider has done its part\<close>
  "past_provider (NotingCollected _) = True"
| "past_provider (PayingStill _) = True"
| "past_provider (ReadingStill _) = True"
| "past_provider (StoringStill _ _) = True"
| "past_provider Completing = True"
| "past_provider AnnouncingSuccess = True"
| "past_provider _ = False"

fun read_metadata :: "worker_pc \<Rightarrow> tx_metadata" where
  "read_metadata (StoringHash _ m) = m"
| "read_metadata (StoringStill _ m) = m"
| "read_metadata _ = no_metadata"

fun stellar_first :: "money_event list \<Rightarrow> bool" where
  \<comment> \<open>whatever the provider did, the Stellar payment was made before\<close>
  "stellar_first [] = True"
| "stellar_first (e # es) = (stellar_first es \<and>
     (case e of Collected i \<Rightarrow> StellarPaid i \<in> set es | PaidOut i \<Rightarrow> StellarPaid i \<in> set es | _ \<Rightarrow> True))"

definition provided :: "id \<Rightarrow> money_event list \<Rightarrow> bool" where
  "provided i es \<longleftrightarrow> Collected i \<in> set es \<or> PaidOut i \<in> set es"

fun truthful_call :: "TransactionJob \<Rightarrow> call \<Rightarrow> pay_db \<Rightarrow> bool" where
  \<comment> \<open>a replica shows a collection only if there was one\<close>
  "truthful_call job (ReadsReplica (Some (s, m))) db \<longleftrightarrow>
     (md_mobileMoney m \<longrightarrow> Collected (tj_transactionId job) \<in> set (pd_events db))"
| "truthful_call job _ db \<longleftrightarrow> True"

lemma events_grow:
  assumes "processTransaction M now job c pc db = (pc', db')"
  shows "set (pd_events db) \<subseteq> set (pd_events db')"
  using assms by (cases pc) (auto simp: process_defs Let_def split: prod.splits)

lemma paid_step:
  assumes "processTransaction M now job c pc db = (pc', db')" "stellar_first (pd_events db)"
    and "past_payment pc \<Longrightarrow> StellarPaid (tj_transactionId job) \<in> set (pd_events db)"
  shows "stellar_first (pd_events db')" "past_payment pc' \<Longrightarrow> StellarPaid (tj_transactionId job) \<in> set (pd_events db')"
proof -
  have res: "pc' = fst (processTransaction M now job c pc db)" "db' = snd (processTransaction M now job c pc db)"
    using assms(1) by simp_all
  show "stellar_first (pd_events db')" using assms(2,3) unfolding res
    by (cases pc) (simp_all add: process_defs Let_def split: prod.splits)
  show "past_payment pc' \<Longrightarrow> StellarPaid (tj_transactionId job) \<in> set (pd_events db')" using assms(3) unfolding res
    by (cases pc; cases c) (auto simp: process_defs Let_def withRetry_def after_collecting_hash
        split: prod.splits if_splits option.splits job_type.splits)
qed

lemma provided_step:
  assumes "processTransaction M now job c pc db = (pc', db')" "truthful_call job c db"
    and "past_provider pc \<Longrightarrow> provided (tj_transactionId job) (pd_events db)"
    and "\<And>i. md_mobileMoney (pd_metadata db i) \<Longrightarrow> Collected i \<in> set (pd_events db)"
    and "md_mobileMoney (read_metadata pc) \<Longrightarrow> Collected (tj_transactionId job) \<in> set (pd_events db)"
    and "\<And>m. pc = NotingCollected m \<Longrightarrow> Collected (tj_transactionId job) \<in> set (pd_events db)"
  shows "past_provider pc' \<Longrightarrow> provided (tj_transactionId job) (pd_events db')"
    "md_mobileMoney (pd_metadata db' i) \<Longrightarrow> Collected i \<in> set (pd_events db')"
    "md_mobileMoney (read_metadata pc') \<Longrightarrow> Collected (tj_transactionId job) \<in> set (pd_events db')"
    "pc' = NotingCollected m \<Longrightarrow> Collected (tj_transactionId job) \<in> set (pd_events db')"
    "status_of (pd_txs db') (tj_transactionId job) = Some Completed \<Longrightarrow>
       status_of (pd_txs db) (tj_transactionId job) = Some Completed \<or> pc = Completing"
proof -
  have res: "pc' = fst (processTransaction M now job c pc db)" "db' = snd (processTransaction M now job c pc db)"
    using assms(1) by simp_all
  have replica: "md_mobileMoney (metadata_of (findTransactionById c (tj_transactionId job) db)) \<Longrightarrow> Collected (tj_transactionId job) \<in> set (pd_events db)"
    using assms(2,4) by (cases "(job, c, db)" rule: truthful_call.cases)
      (auto simp: findTransactionById_def metadata_of_def no_metadata_def split: option.splits)
  show "past_provider pc' \<Longrightarrow> provided (tj_transactionId job) (pd_events db')" using assms(3,6) replica unfolding res
    by (cases pc; cases c) (auto simp: provided_def process_defs Let_def withRetry_def after_collecting_hash
        split: prod.splits if_splits option.splits job_type.splits)
  show "md_mobileMoney (pd_metadata db' i) \<Longrightarrow> Collected i \<in> set (pd_events db')" using assms(4-6) unfolding res
    by (cases pc) (auto simp: process_defs Let_def split: prod.splits if_splits)
  show "md_mobileMoney (read_metadata pc') \<Longrightarrow> Collected (tj_transactionId job) \<in> set (pd_events db')" using replica unfolding res
    by (cases pc; cases c) (auto simp: process_defs Let_def withRetry_def after_collecting_hash no_metadata_def
        split: prod.splits if_splits option.splits job_type.splits)
  show "pc' = NotingCollected m \<Longrightarrow> Collected (tj_transactionId job) \<in> set (pd_events db')" unfolding res
    by (cases pc; cases c) (auto simp: process_defs Let_def withRetry_def after_collecting_hash
        split: prod.splits if_splits option.splits job_type.splits)
  show "status_of (pd_txs db') (tj_transactionId job) = Some Completed \<Longrightarrow>
       status_of (pd_txs db) (tj_transactionId job) = Some Completed \<or> pc = Completing" unfolding res
    using status_after_claim [of now "tj_transactionId job" "pd_txs db" "tj_transactionId job"]
    by (cases pc) (auto simp: process_defs Let_def status_after_worker_write split: prod.splits if_splits)
qed

definition paid_ok :: "workshop \<Rightarrow> bool" where
  "paid_ok w \<longleftrightarrow> stellar_first (pd_events (ws_db w)) \<and>
     (\<forall>k<length (ws_workers w). past_payment (snd (ws_workers w ! k)) \<longrightarrow>
        StellarPaid (tj_transactionId (fst (ws_workers w ! k))) \<in> set (pd_events (ws_db w)))"

definition worker_true :: "money_event list \<Rightarrow> TransactionJob \<Rightarrow> worker_pc \<Rightarrow> bool" where
  "worker_true es job pc \<longleftrightarrow> (past_provider pc \<longrightarrow> provided (tj_transactionId job) es) \<and>
     (md_mobileMoney (read_metadata pc) \<longrightarrow> Collected (tj_transactionId job) \<in> set es) \<and>
     (\<forall>m. pc = NotingCollected m \<longrightarrow> Collected (tj_transactionId job) \<in> set es)"

definition provided_ok :: "workshop \<Rightarrow> bool" where
  "provided_ok w \<longleftrightarrow> (\<forall>i. md_mobileMoney (pd_metadata (ws_db w) i) \<longrightarrow> Collected i \<in> set (pd_events (ws_db w))) \<and>
     (\<forall>k<length (ws_workers w). worker_true (pd_events (ws_db w)) (fst (ws_workers w ! k)) (snd (ws_workers w ! k))) \<and>
     (\<forall>i. status w i = Some Completed \<longrightarrow> StellarPaid i \<in> set (pd_events (ws_db w)) \<and> provided i (pd_events (ws_db w)))"

fun truthful_act :: "work_act \<Rightarrow> workshop \<Rightarrow> bool" where
  "truthful_act (Work k c) w \<longleftrightarrow> (k < length (ws_workers w) \<longrightarrow> truthful_call (fst (ws_workers w ! k)) c (ws_db w))"
| "truthful_act _ w \<longleftrightarrow> True"

fun truthful :: "nat \<Rightarrow> work_act list \<Rightarrow> workshop \<Rightarrow> bool" where
  "truthful M [] w \<longleftrightarrow> True"
| "truthful M (a # acts) w \<longleftrightarrow> truthful_act a w \<and> truthful M acts (work_step M a w)"

lemma work_step_Work:
  assumes "k < length (ws_workers w)" "ws_workers w ! k = (job, pc)"
    and "processTransaction M (ws_now w) job c pc (ws_db w) = (pc', db')"
  shows "ws_db (work_step M (Work k c) w) = db'" "ws_workers (work_step M (Work k c) w) = (ws_workers w)[k := (job, pc')]"
  using assms by (simp_all add: work_step_def)

lemma worker_true_mono: "worker_true es job pc \<Longrightarrow> set es \<subseteq> set es' \<Longrightarrow> worker_true es' job pc"
  unfolding worker_true_def provided_def by blast

lemma paid_ok_step: "paid_ok w \<Longrightarrow> paid_ok (work_step M a w)"
proof (cases a)
  case (Work k c)
  assume ok: "paid_ok w"
  show ?thesis
  proof (cases "k < length (ws_workers w)")
    case k: True
    obtain job pc where wk: "ws_workers w ! k = (job, pc)" by fastforce
    obtain pc' db' where step: "processTransaction M (ws_now w) job c pc (ws_db w) = (pc', db')" by fastforce
    have "past_payment pc \<Longrightarrow> StellarPaid (tj_transactionId job) \<in> set (pd_events (ws_db w))" "stellar_first (pd_events (ws_db w))"
      using ok k wk by (auto simp: paid_ok_def dest!: spec [of _ k])
    from paid_step [OF step this(2) this(1)] show ?thesis
      using ok events_grow [OF step] k unfolding Work paid_ok_def work_step_Work [OF k wk step] by (auto simp: nth_list_update)
  qed (use ok Work in \<open>simp add: work_step_def\<close>)
qed (auto simp: work_step_def paid_ok_def set_txs_def nth_append job_start_def less_Suc_eq)

lemma outside_completed:
  "status_of (fst (snd (hold_for_review now j txs))) i = Some Completed \<Longrightarrow> status_of txs i = Some Completed"
  "status_of (fst (snd (resolve_status now j d txs))) i = Some Completed \<Longrightarrow> status_of txs i = Some Completed"
  by (cases d; auto simp: hold_for_review_def resolve_status_def status_after_write split: if_splits)+

lemma provided_ok_step:
  assumes "provided_ok w" "paid_ok w" "truthful_act a w"
  shows "provided_ok (work_step M a w)"
proof (cases a)
  case (Work k c)
  show ?thesis
  proof (cases "k < length (ws_workers w)")
    case k: True
    obtain job pc where wk: "ws_workers w ! k = (job, pc)" by fastforce
    obtain pc' db' where step: "processTransaction M (ws_now w) job c pc (ws_db w) = (pc', db')" by fastforce
    have tc: "truthful_call job c (ws_db w)" using assms(3) Work k wk by simp
    have true: "worker_true (pd_events (ws_db w)) job pc" using assms(1) k wk by (auto simp: provided_ok_def dest!: spec [of _ k])
    have paid: "past_payment pc \<Longrightarrow> StellarPaid (tj_transactionId job) \<in> set (pd_events (ws_db w))"
      using assms(2) k wk by (auto simp: paid_ok_def dest!: spec [of _ k])
    note p = provided_step [OF step tc]
    have true': "worker_true (pd_events db') job pc'" and meta: "md_mobileMoney (pd_metadata db' i) \<Longrightarrow> Collected i \<in> set (pd_events db')" for i
      using p assms(1) true unfolding worker_true_def provided_ok_def by blast+
    have "StellarPaid i \<in> set (pd_events db') \<and> provided i (pd_events db')" if i: "status_of (pd_txs db') i = Some Completed" for i
    proof -
      have "status w i = Some Completed \<or> i = tj_transactionId job \<and> pc = Completing"
        using i p(5) true assms(1) foreign_step(1) [OF step, of i] unfolding worker_true_def provided_ok_def by metis
      then show ?thesis using assms(1) true paid events_grow [OF step]
        unfolding provided_ok_def worker_true_def provided_def by auto
    qed
    then show ?thesis using assms(1) true' meta k events_grow [OF step] worker_true_mono
      unfolding Work provided_ok_def work_step_Work [OF k wk step] by (auto simp: nth_list_update)
  qed (use assms Work in \<open>simp add: work_step_def\<close>)
next
  case (Deliver job)
  then show ?thesis using assms(1)
    by (auto simp: work_step_def provided_ok_def nth_append job_start_def less_Suc_eq worker_true_def no_metadata_def)
qed (use assms(1) in \<open>auto simp: work_step_def provided_ok_def set_txs_def dest: outside_completed\<close>)

lemma paid_ok_run: "paid_ok w \<Longrightarrow> paid_ok (work_run M acts w)"
  by (induction acts arbitrary: w) (simp_all add: work_run_def paid_ok_step)

lemma provided_ok_run: "provided_ok w \<Longrightarrow> paid_ok w \<Longrightarrow> truthful M acts w \<Longrightarrow> provided_ok (work_run M acts w)"
  by (induction acts arbitrary: w) (simp_all add: work_run_def paid_ok_step provided_ok_step)

lemma paid_ok_opened: "paid_ok (opened txs)"
  by (simp add: paid_ok_def opened_def)

section \<open>Every job ends\<close>

fun calls_left :: "nat \<Rightarrow> worker_pc \<Rightarrow> nat" where
  "calls_left M (Returned _) = 0"
| "calls_left M Rejected = 0"
| "calls_left M AnnouncingFailure = 1"
| "calls_left M NotingFreeze = 1"
| "calls_left M NotifyingIp = 1"
| "calls_left M Failing = 2"
| "calls_left M Freezing = 2"
| "calls_left M RejectingIp = 2"
| "calls_left M AnnouncingSuccess = 3"
| "calls_left M Completing = 4"
| "calls_left M (StoringStill _ _) = 5"
| "calls_left M (ReadingStill _) = 6"
| "calls_left M (PayingStill n) = 7 + (M - n)"
| "calls_left M (NotingCollected _) = 7 + M"
| "calls_left M (Collecting _ n) = 8 + M + (M - n)"
| "calls_left M (PayingOut n) = 5 + (M - n)"
| "calls_left M Starting = 8 + 2 * M"
| "calls_left M (StoringHash _ _) = 9 + 2 * M"
| "calls_left M (ReadingMetadata _) = 10 + 2 * M"
| "calls_left M (Paying n) = 11 + 2 * M + (M - n)"
| "calls_left M Screening = 11 + 3 * M"
| "calls_left M LoadingRow = 12 + 3 * M"
| "calls_left M Rechecking = 13 + 3 * M"
| "calls_left M Claiming = 14 + 3 * M"
| "calls_left M CheckingIp = 15 + 3 * M"

lemma calls_left_step:
  assumes "processTransaction M now job c pc db = (pc', db')" "1 \<le> M"
  shows "calls_left M pc' \<le> calls_left M pc - 1"
proof -
  have "pc' = fst (processTransaction M now job c pc db)" using assms(1) by simp
  then show ?thesis using assms(2)
    by (cases pc; cases c) (auto simp: process_defs Let_def withRetry_def after_collecting_hash
        split: prod.splits option.splits job_type.splits)
qed

definition calls_of :: "nat \<Rightarrow> work_act list \<Rightarrow> nat" where
  "calls_of k acts = length (filter (\<lambda>a. case a of Work j _ \<Rightarrow> j = k | _ \<Rightarrow> False) acts)"

lemma workers_stay: "k < length (ws_workers w) \<Longrightarrow> k < length (ws_workers (work_step M a w))"
  by (cases a) (auto simp: work_step_def set_txs_def split: prod.splits)

lemma calls_left_work:
  assumes "k < length (ws_workers w)" "1 \<le> M"
  shows "calls_left M (snd (ws_workers (work_step M a w) ! k)) \<le>
    calls_left M (snd (ws_workers w ! k)) - calls_of k [a]"
proof (cases a)
  case (Work j c)
  show ?thesis
  proof (cases "j < length (ws_workers w)")
    case j: True
    obtain job pc where wj: "ws_workers w ! j = (job, pc)" by fastforce
    obtain pc' db' where step: "processTransaction M (ws_now w) job c pc (ws_db w) = (pc', db')" by fastforce
    show ?thesis using calls_left_step [OF step assms(2)] assms(1) wj
      unfolding Work work_step_Work [OF j wj step] by (auto simp: calls_of_def nth_list_update)
  qed (use Work assms(1) in \<open>auto simp: work_step_def calls_of_def\<close>)
qed (use assms(1) in \<open>auto simp: work_step_def set_txs_def calls_of_def nth_append\<close>)

lemma calls_left_run:
  "k < length (ws_workers w) \<Longrightarrow> 1 \<le> M \<Longrightarrow>
   calls_left M (snd (ws_workers (work_run M acts w) ! k)) \<le> calls_left M (snd (ws_workers w ! k)) - calls_of k acts"
proof (induction acts arbitrary: w)
  case (Cons a acts)
  have "calls_of k (a # acts) = calls_of k [a] + calls_of k acts" by (simp add: calls_of_def)
  then show ?case using Cons.IH [OF workers_stay [OF Cons.prems(1)], of M a] calls_left_work [OF Cons.prems, of a] Cons.prems(2)
    by (simp add: work_run_def)
qed (simp add: work_run_def calls_of_def)

lemma no_calls_left: "calls_left M pc = 0 \<longleftrightarrow> pc = Rejected \<or> (\<exists>b. pc = Returned b)"
  by (cases pc) auto

section \<open>Properties\<close>

definition demo_paid_table :: "transaction list" where
  "demo_paid_table = [\<lparr>tx_id = ''t'', tx_reference = [], tx_amount = ''5'', tx_phone = [], tx_provider = [],
     tx_status = Pending, tx_user = None, tx_created = 0, tx_updated = 0\<rparr>]"

abbreviation (input) fine :: call where "fine \<equiv> Returns False []"

definition demo_job :: "job_type \<Rightarrow> TransactionJob" where
  "demo_job ty = \<lparr>tj_transactionId = ''t'', tj_type = ty, tj_clientIp = False\<rparr>"

definition demo_work :: "work_act list" where
  \<comment> \<open>a job delivered twice, the first time while its transaction is held\<close>
  "demo_work = [HoldForReview ''t'', Deliver (demo_job Deposit), Work 0 fine, Work 0 fine, ResolveHold ''t'' Release,
     Deliver (demo_job Deposit), Work 1 fine, Work 1 fine, Work 1 (Throws False True), Work 1 (Returns False ''h''), Work 1 fine, Work 1 fine, Work 1 fine]"

lemma demo_orderly_work:
  "distinct (map tx_id demo_paid_table)" "orderly_works 3 demo_work (opened demo_paid_table)"
  "orderly_works 3 (demo_work @ [Work 1 fine]) (opened demo_paid_table)" "truthful 3 demo_work (opened demo_paid_table)"
  by code_simp+

text \<open>
  C3. Each transfer of a transaction happens at most once, however often its job is delivered, to however
  many workers, and however their calls, holds and releases interleave: the Stellar payment, the
  collection and the payout are each made at most once on orderly schedules: no job slips past a failed claim, payments
  that throw did not happen, the Stellar payment answers with a transaction hash that is not empty, and a claimed row is
  read afresh. (The hash is optional for the program; without it a deposit pays on Stellar a second time.)
\<close>

theorem worker_pays_once:
  assumes "distinct (map tx_id txs)" "orderly_works M acts (opened txs)" "moves_money e"
  shows "count_list (pd_events (ws_db (work_run M acts (opened txs)))) e \<le> 1"
  using exclusiveD(4) [OF exclusive_run [OF exclusive_opened [OF assms(1)] assms(2)] assms(3) refl] .

theorem worker_pays_once_witness:
  "count_list (pd_events (ws_db (work_run 3 demo_work (opened demo_paid_table)))) (StellarPaid ''t'') \<le> 1"
  by (rule worker_pays_once [OF demo_orderly_work(1,2)]) simp

text \<open>
  C4. No money moves for a transaction that is pending, held for review, rejected, expired or reversed:
  on orderly schedules as above, whenever a step makes a transfer, its transaction is being processed, or is
  already completed, failed or under sanctions review.
\<close>

theorem held_never_paid:
  assumes "distinct (map tx_id txs)" "orderly_works M (acts @ [a]) (opened txs)" "moves_money e"
    and "count_list (pd_events (ws_db (work_run M acts (opened txs)))) e <
      count_list (pd_events (ws_db (work_run M (acts @ [a]) (opened txs)))) e"
  shows "status_of (pd_txs (ws_db (work_run M acts (opened txs)))) (event_of e) \<in>
    {Some Processing, Some Completed, Some Failed, Some Review}"
proof -
  define w where "w = work_run M acts (opened txs)"
  have parts: "orderly_works M acts v \<and> orderly_work a (work_run M acts v)" if "orderly_works M (acts @ [a]) v" for v
    using that by (induction acts arbitrary: v) (auto simp: work_run_def)
  have x: "exclusive (event_of e) w" and oa: "orderly_work a w"
    using parts [OF assms(2)] exclusive_run [OF exclusive_opened [OF assms(1)]] by (auto simp: w_def)
  have less: "times w e < times (work_step M a w) e" using assms(4) by (simp add: w_def work_run_def)
  show ?thesis
  proof (cases a)
    case (Work k c)
    then have k: "k < length (ws_workers w)" using less by (cases "k < length (ws_workers w)") (auto simp: work_step_def)
    obtain job pc where wk: "ws_workers w ! k = (job, pc)" by fastforce
    obtain pc' db' where step: "processTransaction M (ws_now w) job c pc (ws_db w) = (pc', db')" by fastforce
    have less': "times w e < count_list (pd_events db') e" using less work_step_Work [OF k wk step] Work by simp
    then have "event_of e = tj_transactionId job" using foreign_step(3) [OF step] by force
    moreover have "executing pc"
      using idle_step(2) [OF step _ _ exclusiveD(1) [OF x] assms(3)] oa Work k wk less' by force
    ultimately have "runs_on w (event_of e) k" using k wk by (simp add: runs_on_def)
    from exclusiveD(2) [OF x this] show ?thesis by (simp add: busy_status_def w_def)
  qed (use less in \<open>auto simp: work_step_def set_txs_def\<close>)
qed

theorem held_never_paid_witness:
  "status_of (pd_txs (ws_db (work_run 3 demo_work (opened demo_paid_table)))) ''t'' \<in>
    {Some Processing, Some Completed, Some Failed, Some Review}"
proof -
  have "count_list (pd_events (ws_db (work_run 3 demo_work (opened demo_paid_table)))) (Collected ''t'') <
      count_list (pd_events (ws_db (work_run 3 (demo_work @ [Work 1 fine]) (opened demo_paid_table)))) (Collected ''t'')"
    by code_simp
  from held_never_paid [OF demo_orderly_work(1,3) _ this] show ?thesis by simp
qed

text \<open>
  C15. The customer's Stellar account is paid first: in every run, whatever the calls answer, each
  collection from a customer and each payout to one comes after a Stellar payment to that customer for
  the same transaction, for deposits, where the money is not collected yet, and for withdrawals, where
  the customer should be paid by the provider alone.
\<close>

theorem stellar_paid_first:
  "stellar_first (pd_events (ws_db (work_run M acts (opened txs))))"
  using paid_ok_run [OF paid_ok_opened] by (simp add: paid_ok_def)

text \<open>
  A transaction that a worker completes was paid on Stellar, and the provider has collected the
  amount or paid it out, as long as replicas show only collections that happened.
\<close>

theorem completed_was_paid:
  assumes "truthful M acts (opened txs)" "list_all (\<lambda>t. tx_status t \<noteq> Completed) txs"
    and "status_of (pd_txs (ws_db (work_run M acts (opened txs)))) i = Some Completed"
  shows "StellarPaid i \<in> set (pd_events (ws_db (work_run M acts (opened txs)))) \<and>
    provided i (pd_events (ws_db (work_run M acts (opened txs))))"
proof -
  have "provided_ok (opened txs)" using assms(2)
    by (auto simp: provided_ok_def opened_def no_metadata_def status_of_def list_all_iff dest: find_SomeD)
  from provided_ok_run [OF this paid_ok_opened assms(1)] assms(3) show ?thesis by (simp add: provided_ok_def)
qed

theorem completed_was_paid_witness:
  "StellarPaid ''t'' \<in> set (pd_events (ws_db (work_run 3 (demo_work @ [Work 1 fine, Work 1 fine, Work 1 fine]) (opened demo_paid_table)))) \<and>
    provided ''t'' (pd_events (ws_db (work_run 3 (demo_work @ [Work 1 fine, Work 1 fine, Work 1 fine]) (opened demo_paid_table))))"
  by (rule completed_was_paid; code_simp)

text \<open>
  C16. Every job ends: after fifteen steps of its own and three more per permitted attempt, a worker has
  returned from its job or thrown, whatever the calls answer and whatever the other workers do. A step is an awaited call
  or a fixed sequence of such calls without a loop: the lookups around the screening, the tags and notes of a
  sanctions hold, and the announcements after the final status are one step each, an attempt includes the wait before
  it, and the writes of progress and of the retry counter are not counted.
\<close>

theorem worker_returns:
  assumes "1 \<le> M" "k < length (ws_workers w)" "15 + 3 * M \<le> calls_of k acts"
  shows "snd (ws_workers (work_run M acts w) ! k) = Rejected \<or> (\<exists>b. snd (ws_workers (work_run M acts w) ! k) = Returned b)"
proof -
  have "calls_left M pc \<le> 15 + 3 * M" for pc by (cases pc) auto
  with calls_left_run [OF assms(2,1), of acts] assms(3)
  have "calls_left M (snd (ws_workers (work_run M acts w) ! k)) = 0" by (metis diff_is_0_eq' le_0_eq order_trans)
  then show ?thesis by (simp add: no_calls_left)
qed

theorem worker_returns_witness:
  "let w = work_step 1 (Deliver (demo_job Withdraw)) (opened demo_paid_table);
      w' = work_run 1 (replicate 18 (Work 0 (Throws True True))) w
    in snd (ws_workers w' ! 0) = Rejected \<or> (\<exists>b. snd (ws_workers w' ! 0) = Returned b)"
  unfolding Let_def by (rule worker_returns) (simp_all add: work_step_def opened_def calls_of_def eval_nat_numeral)

lemma claimed_row:
  assumes "distinct (map tx_id txs)" "status_of txs i = Some Pending"
  obtains txs' where "claimForProcessing now i txs = (True, txs')" "status_of txs' i = Some Processing" "distinct (map tx_id txs')"
  using claim_succeeds [OF assms(1), of now i] status_after_claim [of now i txs i] claim_ids [of now i txs] assms
  by (metis (mono_tags, lifting) option.map(2) prod.collapse)

text \<open>
  A deposit that the provider refuses has been paid all the same: of every pending deposit whose
  Stellar payment is answered and whose collection then fails for good, the transaction ends as failed and
  the customer is told so, while the Stellar account has the money and nothing was collected.
\<close>

theorem refused_deposit_was_paid:
  assumes "distinct (map tx_id txs)" "status_of txs i = Some Pending" "h \<noteq> []"
  defines "job \<equiv> \<lparr>tj_transactionId = i, tj_type = Deposit, tj_clientIp = False\<rparr>"
  shows "let w = work_run M [Deliver job, Work 0 fine, Work 0 fine, Work 0 (Returns False h), Work 0 fine, Work 0 fine, Work 0 fine,
      Work 0 (Throws False False), Work 0 fine, Work 0 fine] (opened txs)
    in ws_workers w = [(job, Returned False)] \<and> status_of (pd_txs (ws_db w)) i = Some Failed \<and>
       pd_events (ws_db w) = [AnnouncedFailed i, StellarPaid i]"
proof -
  obtain txs' where c: "claimForProcessing 0 i txs = (True, txs')" "status_of txs' i = Some Processing" "distinct (map tx_id txs')"
    using claimed_row [OF assms(1,2)] .
  have failed: "status_of (pd_txs (write_status (Returns b r) now i Failed db)) i = Some Failed" if "pd_txs db = txs'" for b r now db
    using c(2) that by (simp add: status_after_worker_write status_step_iff)
  show ?thesis using c assms(3) failed
    by (simp add: job_def work_run_def work_step_def opened_def job_start_def process_defs withRetry_def findTransactionById_def metadata_of_def
        no_metadata_def set_metadata_def happen_def Let_def)
qed

theorem refused_deposit_was_paid_witness:
  "let w = work_run 3 [Deliver (demo_job Deposit), Work 0 fine, Work 0 fine, Work 0 (Returns False ''h''), Work 0 fine, Work 0 fine,
      Work 0 fine, Work 0 (Throws False False), Work 0 fine, Work 0 fine] (opened demo_paid_table)
    in ws_workers w = [(demo_job Deposit, Returned False)] \<and> status_of (pd_txs (ws_db w)) ''t'' = Some Failed \<and>
       pd_events (ws_db w) = [AnnouncedFailed ''t'', StellarPaid ''t'']"
  unfolding demo_job_def by (rule refused_deposit_was_paid [OF demo_orderly_work(1)]) (simp_all add: demo_paid_table_def status_of_def)

text \<open>
  A withdrawal whose calls all succeed pays the customer on both sides: a Stellar payment to the
  customer's account and a payout by the provider.
\<close>

theorem withdrawal_pays_both:
  assumes "distinct (map tx_id txs)" "status_of txs i = Some Pending" "h \<noteq> []"
  defines "job \<equiv> \<lparr>tj_transactionId = i, tj_type = Withdraw, tj_clientIp = False\<rparr>"
  shows "let w = work_run M [Deliver job, Work 0 fine, Work 0 fine, Work 0 fine, Work 0 (Returns False h), Work 0 fine, Work 0 fine, Work 0 fine,
      Work 0 fine, Work 0 fine, Work 0 fine] (opened txs)
    in ws_workers w = [(job, Returned True)] \<and> status_of (pd_txs (ws_db w)) i = Some Completed \<and>
       pd_events (ws_db w) = [AnnouncedCompleted i, PaidOut i, StellarPaid i]"
proof -
  obtain txs' where c: "claimForProcessing 0 i txs = (True, txs')" "status_of txs' i = Some Processing" "distinct (map tx_id txs')"
    using claimed_row [OF assms(1,2)] .
  have completed: "status_of (pd_txs (write_status (Returns b r) now i Completed db)) i = Some Completed" if "pd_txs db = txs'" for b r now db
    using c(2) that by (simp add: status_after_worker_write status_step_iff)
  show ?thesis using c assms(3) completed
    by (simp add: job_def work_run_def work_step_def opened_def job_start_def process_defs withRetry_def findTransactionById_def metadata_of_def
        no_metadata_def set_metadata_def happen_def Let_def)
qed

theorem withdrawal_pays_both_witness:
  "let w = work_run 3 [Deliver (demo_job Withdraw), Work 0 fine, Work 0 fine, Work 0 fine, Work 0 (Returns False ''h''), Work 0 fine,
      Work 0 fine, Work 0 fine, Work 0 fine, Work 0 fine, Work 0 fine] (opened demo_paid_table)
    in pd_events (ws_db w) = [AnnouncedCompleted ''t'', PaidOut ''t'', StellarPaid ''t'']"
  using withdrawal_pays_both [OF demo_orderly_work(1), of "''t''" "''h''" 3]
  by (simp add: Let_def demo_job_def demo_paid_table_def status_of_def)

text \<open>
  The guard against duplicates trusts a replica: if a second delivery fails to claim the transaction
  and a replica that lags behind still shows it as pending, the second worker goes on without a claim,
  and the customer's Stellar account is paid twice, whatever the transaction.
\<close>

theorem stale_read_pays_twice:
  assumes "distinct (map tx_id txs)" "status_of txs i = Some Pending"
  defines "job \<equiv> \<lparr>tj_transactionId = i, tj_type = Deposit, tj_clientIp = False\<rparr>"
  shows "let w = work_run M [Deliver job, Deliver job, Work 0 fine, Work 1 fine, Work 1 (ReadsReplica (Some (Pending, no_metadata))),
      Work 0 fine, Work 1 fine, Work 0 (Returns False h), Work 1 (Returns False h')] (opened txs)
    in count_list (pd_events (ws_db w)) (StellarPaid i) = 2"
proof -
  obtain txs' where c: "claimForProcessing 0 i txs = (True, txs')" "status_of txs' i = Some Processing" "distinct (map tx_id txs')"
    using claimed_row [OF assms(1,2)] .
  obtain txs'' where "claimForProcessing 0 i txs' = (False, txs'')"
    using claim_succeeds [OF c(3), of 0 i] c(2) by (metis (mono_tags) TransactionStatus.distinct(1) option.inject prod.collapse)
  with c show ?thesis
    by (simp add: job_def work_run_def work_step_def opened_def job_start_def process_defs withRetry_def findTransactionById_def
        happen_def Let_def)
qed

theorem stale_read_pays_twice_witness:
  "let w = work_run 3 [Deliver (demo_job Deposit), Deliver (demo_job Deposit), Work 0 fine, Work 1 fine,
      Work 1 (ReadsReplica (Some (Pending, no_metadata))), Work 0 fine, Work 1 fine, Work 0 (Returns False ''h''),
      Work 1 (Returns False ''k'')] (opened demo_paid_table)
    in count_list (pd_events (ws_db w)) (StellarPaid ''t'') = 2"
  unfolding demo_job_def by (rule stale_read_pays_twice [OF demo_orderly_work(1)]) (simp add: demo_paid_table_def status_of_def)

end
