(* ===== verification/Sep24_Requests.thy ===== *)
theory Sep24_Requests
  imports Decimal "HOL-Library.List_Lexorder" "HOL-Library.Char_ord"
begin

text \<open>
  Requests of wallets to the SEP-24 anchor, up to the session they open: the validation of a deposit
  with its memo (\<^verbatim>\<open>src/validators/sep24.ts\<close>), the checks of amount and account
  (\<^verbatim>\<open>src/stellar/sep24.ts\<close>), and the signed address of the interactive page
  (\<^verbatim>\<open>src/utils/sep24Signature.ts\<close>). The keyed hash, the check of a public key and the text of a number are
  parameters; an address is the list of its query parameters.
\<close>

section \<open>Memos\<close>

datatype Sep24MemoType = MText | MId | MHash

definition utf8_length :: "string \<Rightarrow> nat" where
  "utf8_length s = sum_list (map (\<lambda>c. if (of_char c :: nat) < 128 then 1 else 2) s)"

definition hex_value :: "char \<Rightarrow> nat option" where
  "hex_value c = (let n = (of_char c :: nat) in
     if 48 \<le> n \<and> n \<le> 57 then Some (n - 48)
     else if 97 \<le> n \<and> n \<le> 102 then Some (n - 87)
     else if 65 \<le> n \<and> n \<le> 70 then Some (n - 55) else None)"

fun hex_bytes :: "string \<Rightarrow> nat list" where
  \<comment> \<open>\<^verbatim>\<open>Buffer.from(s, "hex")\<close>: decodes pairs up to the first that is none\<close>
  "hex_bytes (a # b # s) = (case (hex_value a, hex_value b) of
     (Some x, Some y) \<Rightarrow> (16 * x + y) # hex_bytes s | _ \<Rightarrow> [])"
| "hex_bytes _ = []"

definition hex_nibble :: "nat \<Rightarrow> char" where
  "hex_nibble n = char_of (if n < 10 then 48 + n else 87 + n)"

definition bytes_hex :: "nat list \<Rightarrow> string" where
  \<comment> \<open>\<^verbatim>\<open>bytes.toString("hex")\<close>\<close>
  "bytes_hex bs = concat (map (\<lambda>b. [hex_nibble (b div 16), hex_nibble (b mod 16)]) bs)"

definition b64_value :: "char \<Rightarrow> nat option" where
  "b64_value c = (let n = (of_char c :: nat) in
     if 65 \<le> n \<and> n \<le> 90 then Some (n - 65)
     else if 97 \<le> n \<and> n \<le> 122 then Some (n - 71)
     else if 48 \<le> n \<and> n \<le> 57 then Some (n + 4)
     else if n = 43 then Some 62 else if n = 47 then Some 63 else None)"

definition b64_char :: "nat \<Rightarrow> char" where
  "b64_char n = char_of (if n < 26 then 65 + n else if n < 52 then 71 + n else if n < 62 then n - 4
     else if n = 62 then 43 else 47)"

fun sextets_bytes :: "nat list \<Rightarrow> nat list" where
  "sextets_bytes (a # b # c # d # s) =
     (4 * a + b div 16) # (16 * (b mod 16) + c div 4) # (64 * (c mod 4) + d) # sextets_bytes s"
| "sextets_bytes [a, b, c] = [4 * a + b div 16, 16 * (b mod 16) + c div 4]"
| "sextets_bytes [a, b] = [4 * a + b div 16]"
| "sextets_bytes _ = []"

definition b64_bytes :: "string \<Rightarrow> nat list" where
  \<comment> \<open>\<^verbatim>\<open>Buffer.from(s, "base64")\<close> of characters of the alphabet, up to the padding\<close>
  "b64_bytes s = sextets_bytes (map (\<lambda>c. the (b64_value c)) (takeWhile (\<lambda>c. b64_value c \<noteq> None) s))"

fun b64_text :: "nat list \<Rightarrow> string" where
  \<comment> \<open>\<^verbatim>\<open>bytes.toString("base64")\<close>\<close>
  "b64_text (x # y # z # bs) = b64_char (x div 4) # b64_char (16 * (x mod 4) + y div 16) #
     b64_char (4 * (y mod 16) + z div 64) # b64_char (z mod 64) # b64_text bs"
| "b64_text [x, y] = [b64_char (x div 4), b64_char (16 * (x mod 4) + y div 16), b64_char (4 * (y mod 16)), CHR ''='']"
| "b64_text [x] = [b64_char (x div 4), b64_char (16 * (x mod 4)), CHR ''='', CHR ''='']"
| "b64_text [] = []"

definition b64_shape :: "string \<Rightarrow> bool" where
  \<comment> \<open>\<^verbatim>\<open>/^[A-Za-z0-9+/]+={0,2}$/\<close>\<close>
  "b64_shape s \<longleftrightarrow> (let t = dropWhile (\<lambda>c. b64_value c \<noteq> None) s in t \<noteq> s \<and> t \<in> {'''', ''='', ''==''})"

definition decodeHashMemo :: "string \<Rightarrow> nat list option" where
  "decodeHashMemo v =
     (if length v = 64 \<and> list_all (\<lambda>c. hex_value c \<noteq> None) v then Some (hex_bytes v)
      else if b64_shape v \<and> length (b64_bytes v) = 32 \<and> b64_text (b64_bytes v) = v then Some (b64_bytes v)
      else None)"

definition MAX_TEXT_MEMO_BYTES :: nat where "MAX_TEXT_MEMO_BYTES = 28"
definition MAX_ID_MEMO :: nat where "MAX_ID_MEMO = 18446744073709551615"

definition all_digits :: "string \<Rightarrow> bool" where
  "all_digits s \<longleftrightarrow> s \<noteq> [] \<and> list_all js_digit s"

definition validateMemo :: "string \<Rightarrow> Sep24MemoType \<Rightarrow> bool" where
  \<comment> \<open>whether the code answers \<^verbatim>\<open>null\<close>, no error\<close>
  "validateMemo memo t = (case t of
     MText \<Rightarrow> utf8_length memo \<le> MAX_TEXT_MEMO_BYTES
   | MId \<Rightarrow> all_digits memo \<and> dec_val memo \<le> MAX_ID_MEMO
   | MHash \<Rightarrow> decodeHashMemo memo \<noteq> None)"

datatype sdk_memo =
  \<comment> \<open>the constructor of the SDK that is called, with its argument\<close>
    SdkText string
  | SdkId string
  | SdkHash string

definition toStellarMemo :: "string \<Rightarrow> Sep24MemoType \<Rightarrow> sdk_memo option" where
  \<comment> \<open>None where the code throws\<close>
  "toStellarMemo memo t = (case t of
     MText \<Rightarrow> Some (SdkText memo)
   | MId \<Rightarrow> Some (SdkId memo)
   | MHash \<Rightarrow> map_option (\<lambda>bytes. SdkHash (bytes_hex bytes)) (decodeHashMemo memo))"

fun sdk_accepts :: "sdk_memo \<Rightarrow> bool" where
  \<comment> \<open>the documented arguments of the constructors\<close>
  "sdk_accepts (SdkText s) = (utf8_length s \<le> 28)"
| "sdk_accepts (SdkId s) = (all_digits s \<and> dec_val s < 2 ^ 64)"
| "sdk_accepts (SdkHash s) = (length s = 64 \<and> list_all (\<lambda>c. hex_value c \<noteq> None) s)"

section \<open>The request\<close>

record passthrough =
  pt_email :: "string option"
  pt_wallet_name :: "string option"
  pt_wallet_url :: "string option"
  pt_lang :: "string option"
  pt_callback :: "string option"
  pt_success_url :: "string option"
  pt_failure_url :: "string option"
  pt_token :: "string option"
  pt_session_token :: "string option"

record deposit_body =
  db_asset_code :: jsval
  db_amount :: jsval
  db_account :: jsval
  db_memo :: jsval
  db_memo_type :: jsval
  db_voucher_code :: jsval
  db_rest :: passthrough

record Sep24Request =
  rq_asset_code :: string
  rq_amount :: string
  rq_account :: string
  rq_memo :: "string option"
  rq_memo_type :: "Sep24MemoType option"
  rq_voucher_code :: "string option"
  rq_rest :: passthrough

datatype sep24_error =
    InvalidField string \<comment> \<open>the path of the first issue\<close>
  | AssetNotAvailable
  | BelowMinimum jsnum
  | AboveMaximum jsnum
  | InvalidAccount
  | TooManyActive
  | SigningSecretMissing
  | SessionNotFound
  | NotADeposit
  | AlreadySubmitting
  | DepositEnded
  | MissingAccountOrAmount
  | InvalidHashMemo

definition zod_string :: "string \<Rightarrow> jsval \<Rightarrow> sep24_error + string" where
  \<comment> \<open>\<^verbatim>\<open>z.string().min(1)\<close>\<close>
  "zod_string field v = (case v of JString s \<Rightarrow> if s = [] then Inl (InvalidField field) else Inr s | _ \<Rightarrow> Inl (InvalidField field))"

definition sep24_optional :: "(jsval \<Rightarrow> sep24_error + 'a) \<Rightarrow> jsval \<Rightarrow> sep24_error + 'a option" where
  "sep24_optional p v = (if v = JUndefined then Inr None else map_sum id Some (p v))"

definition zod_amount :: "(jsnum \<Rightarrow> string) \<Rightarrow> jsval \<Rightarrow> sep24_error + string" where
  \<comment> \<open>a string that is not empty, or a number\<close>
  "zod_amount text v = (case v of
     JNumber n \<Rightarrow> if js_isFinite n then Inr (text n) else Inl (InvalidField ''amount'')
   | _ \<Rightarrow> zod_string ''amount'' v)"

definition zod_memo_type :: "jsval \<Rightarrow> sep24_error + Sep24MemoType" where
  "zod_memo_type v =
     (if v = JString ''text'' then Inr MText else if v = JString ''id'' then Inr MId
      else if v = JString ''hash'' then Inr MHash else Inl (InvalidField ''memo_type''))"

definition refineMemo :: "string option \<Rightarrow> Sep24MemoType option \<Rightarrow> bool" where
  \<comment> \<open>whether no issue is added\<close>
  "refineMemo memo t = (case memo of
     None \<Rightarrow> t = None
   | Some m \<Rightarrow> validateMemo m (case t of Some t \<Rightarrow> t | None \<Rightarrow> MText))"

definition withDefaultMemoType :: "string option \<Rightarrow> Sep24MemoType option \<Rightarrow> Sep24MemoType option" where
  "withDefaultMemoType memo t = (if memo \<noteq> None \<and> t = None then Some MText else t)"

definition sep24DepositRequestSchema :: "(jsnum \<Rightarrow> string) \<Rightarrow> deposit_body \<Rightarrow> sep24_error + Sep24Request" where
  "sep24DepositRequestSchema text b =
     (case zod_string ''asset_code'' (db_asset_code b) of Inl e \<Rightarrow> Inl e | Inr code \<Rightarrow>
      case zod_amount text (db_amount b) of Inl e \<Rightarrow> Inl e | Inr amount \<Rightarrow>
      case zod_string ''account'' (db_account b) of Inl e \<Rightarrow> Inl e | Inr account \<Rightarrow>
      case sep24_optional (zod_string ''memo'') (db_memo b) of Inl e \<Rightarrow> Inl e | Inr memo \<Rightarrow>
      case sep24_optional zod_memo_type (db_memo_type b) of Inl e \<Rightarrow> Inl e | Inr mt \<Rightarrow>
      case sep24_optional (zod_string ''voucher_code'') (db_voucher_code b) of Inl e \<Rightarrow> Inl e | Inr voucher \<Rightarrow>
      if refineMemo memo mt
      then Inr \<lparr>rq_asset_code = code, rq_amount = amount, rq_account = account, rq_memo = memo,
             rq_memo_type = withDefaultMemoType memo mt, rq_voucher_code = voucher, rq_rest = db_rest b\<rparr>
      else Inl (InvalidField ''memo''))"

definition js_parseFloat :: "string \<Rightarrow> jsnum" where
  "js_parseFloat s =
     (let t = dropWhile js_space s;
          neg = (take 1 t = ''-'');
          u = (if take 1 t \<in> {''-'', ''+''} then drop 1 t else t);
          whole = takeWhile js_digit u;
          rest = dropWhile js_digit u;
          frac = (if take 1 rest = ''.'' then takeWhile js_digit (drop 1 rest) else []);
          after = (if take 1 rest = ''.'' then dropWhile js_digit (drop 1 rest) else rest)
      in if prefix ''Infinity'' u then (if neg then NInf else PInf)
         else if whole @ frac = [] then NaN
         else let v = of_nat (dec_val (whole @ frac)) * pow10 (exponent_of after - int (length frac))
              in num (if neg then - v else v))"

record Sep24Asset =
  sa_deposits_enabled :: bool
  sa_withdrawals_enabled :: bool
  sa_min_amount :: jsnum
  sa_max_amount :: jsnum

definition getSep24Config :: "string \<Rightarrow> Sep24Asset option" where
  \<comment> \<open>\<^verbatim>\<open>config.assets\<close>; none has a fee\<close>
  "getSep24Config code =
     (if code = ''XLM'' then Some \<lparr>sa_deposits_enabled = True, sa_withdrawals_enabled = True, sa_min_amount = Fin 1, sa_max_amount = Fin 1000000\<rparr>
      else if code \<in> {''USDC'', ''EURC''} then
        Some \<lparr>sa_deposits_enabled = True, sa_withdrawals_enabled = True, sa_min_amount = Fin 1, sa_max_amount = Fin 100000\<rparr>
      else None)"

definition getSep24Info :: "string list \<times> string list" where
  \<comment> \<open>the codes offered for deposits and withdrawals\<close>
  "getSep24Info =
     (let codes = [''XLM'', ''USDC'', ''EURC'']
      in (filter (\<lambda>c. case getSep24Config c of Some a \<Rightarrow> sa_deposits_enabled a | None \<Rightarrow> False) codes,
          filter (\<lambda>c. case getSep24Config c of Some a \<Rightarrow> sa_withdrawals_enabled a | None \<Rightarrow> False) codes))"

definition check_request :: "(Sep24Asset \<Rightarrow> bool) \<Rightarrow> (string \<Rightarrow> bool) \<Rightarrow> Sep24Request \<Rightarrow> sep24_error + Sep24Request" where
  \<comment> \<open>the checks that deposits and withdrawals share; \<^verbatim>\<open>isValidEd25519PublicKey\<close> is a parameter\<close>
  "check_request enabled isValidKey r = (case getSep24Config (rq_asset_code r) of
     None \<Rightarrow> Inl AssetNotAvailable
   | Some asset \<Rightarrow>
      let amount = js_parseFloat (rq_amount r) in
      if \<not> enabled asset then Inl AssetNotAvailable
      else if js_truthy (sa_min_amount asset) \<and> js_lt amount (sa_min_amount asset) then Inl (BelowMinimum (sa_min_amount asset))
      else if js_truthy (sa_max_amount asset) \<and> js_lt (sa_max_amount asset) amount then Inl (AboveMaximum (sa_max_amount asset))
      else if rq_account r = [] \<or> \<not> isValidKey (rq_account r) then Inl InvalidAccount
      else Inr r)"

definition initiateDeposit :: "(jsnum \<Rightarrow> string) \<Rightarrow> (string \<Rightarrow> bool) \<Rightarrow> deposit_body \<Rightarrow> sep24_error + Sep24Request" where
  \<comment> \<open>up to \<^verbatim>\<open>generateInteractiveUrl\<close>\<close>
  "initiateDeposit text isValidKey b = (case sep24DepositRequestSchema text b of
     Inl e \<Rightarrow> Inl e | Inr r \<Rightarrow> check_request sa_deposits_enabled isValidKey r)"

definition initiateWithdrawal :: "(string \<Rightarrow> bool) \<Rightarrow> Sep24Request \<Rightarrow> sep24_error + Sep24Request" where
  \<comment> \<open>the body is taken as it is\<close>
  "initiateWithdrawal isValidKey r = check_request sa_withdrawals_enabled isValidKey r"

definition sep24CalculateFee :: "string \<Rightarrow> string \<Rightarrow> sep24_error + jsnum" where
  "sep24CalculateFee assetCode amount = (case getSep24Config assetCode of
     None \<Rightarrow> Inl AssetNotAvailable
   | Some _ \<Rightarrow> Inr (js_toFixed 2 (js_add (Fin 0) (js_mul (js_parseFloat amount) (js_div (Fin 0) (Fin 100))))))"

section \<open>The signed address\<close>

type_synonym url_params = "(string \<times> string) list"

definition opt_param :: "string \<Rightarrow> string option \<Rightarrow> url_params" where
  "opt_param k v = (case v of Some s \<Rightarrow> if s = [] then [] else [(k, s)] | None \<Rightarrow> [])"

fun memo_type_text :: "Sep24MemoType \<Rightarrow> string" where
  "memo_type_text MText = ''text''"
| "memo_type_text MId = ''id''"
| "memo_type_text MHash = ''hash''"

definition session_memo_type :: "string option \<Rightarrow> Sep24MemoType option \<Rightarrow> Sep24MemoType option" where
  "session_memo_type memo t = (case memo of
     Some m \<Rightarrow> if m = [] then None else Some (case t of Some t \<Rightarrow> t | None \<Rightarrow> MText) | None \<Rightarrow> None)"

definition interactive_params :: "string \<Rightarrow> id \<Rightarrow> Sep24Request \<Rightarrow> url_params" where
  "interactive_params webAuthDomain i r = (let p = rq_rest r in
     [(''transaction_id'', i), (''asset_code'', rq_asset_code r), (''amount'', rq_amount r), (''account'', rq_account r),
      (''lang'', case pt_lang p of Some l \<Rightarrow> if l = [] then ''en'' else l | None \<Rightarrow> ''en'')] @
     opt_param ''token'' (pt_token p) @ opt_param ''session_token'' (pt_session_token p) @ opt_param ''memo'' (rq_memo r) @
     opt_param ''memo_type'' (map_option memo_type_text (session_memo_type (rq_memo r) (rq_memo_type r))) @
     opt_param ''email'' (pt_email p) @ opt_param ''wallet_name'' (pt_wallet_name p) @ opt_param ''wallet_url'' (pt_wallet_url p) @
     opt_param ''success_url'' (pt_success_url p) @ opt_param ''failure_url'' (pt_failure_url p) @
     opt_param ''voucher_code'' (rq_voucher_code r) @
     [(''callback'', webAuthDomain @ ''/sep24/callback/'' @ i)])"

definition canonicalString :: "url_params \<Rightarrow> string" where
  "canonicalString ps = js_join ''&'' (map (\<lambda>(k, v). k @ ''='' @ v) (sort_key fst ps))"

definition WEBVIEW_URL_EXPIRATION_SECONDS :: int where
  \<comment> \<open>unless the environment sets another lifetime\<close>
  "WEBVIEW_URL_EXPIRATION_SECONDS = 600"

definition generateSignedSep24Url ::
  "(string \<Rightarrow> string \<Rightarrow> string) \<Rightarrow> string option \<Rightarrow> millis \<Rightarrow> url_params \<Rightarrow> sep24_error + url_params" where
  "generateSignedSep24Url hmac secret now params = (case secret of
     None \<Rightarrow> Inl SigningSecretMissing
   | Some key \<Rightarrow>
       let allParams = params @ [(''exp'', nat_str (nat (now div 1000 + WEBVIEW_URL_EXPIRATION_SECONDS)))]
       in Inr (allParams @ [(''sig'', hmac key (canonicalString allParams))]))"

datatype query_value = QText string | QStructured \<comment> \<open>an array or an object\<close>

fun query_text :: "query_value option \<Rightarrow> string option" where
  "query_text (Some (QText s)) = (if s = [] then None else Some s)"
| "query_text _ = None"

definition js_parseInt :: "string \<Rightarrow> int option" where
  \<comment> \<open>\<^verbatim>\<open>parseInt(s, 10)\<close>, None for \<^verbatim>\<open>NaN\<close>\<close>
  "js_parseInt s =
     (let t = dropWhile js_space s;
          u = takeWhile js_digit (if take 1 t \<in> {''-'', ''+''} then drop 1 t else t)
      in if u = [] then None else Some (if take 1 t = ''-'' then - int (dec_val u) else int (dec_val u)))"

datatype verification = Passed | Refused nat \<comment> \<open>the status of the answer\<close>

definition text_params :: "(string \<times> query_value) list \<Rightarrow> url_params" where
  \<comment> \<open>the parameters that are strings, but for \<^verbatim>\<open>sig\<close>\<close>
  "text_params query = List.map_filter (\<lambda>(k, v). case v of QText s \<Rightarrow> if k = ''sig'' then None else Some (k, s) | QStructured \<Rightarrow> None) query"

definition verifySep24Signature ::
  "(string \<Rightarrow> string \<Rightarrow> string) \<Rightarrow> string option \<Rightarrow> millis \<Rightarrow> (string \<times> query_value) list \<Rightarrow> verification" where
  "verifySep24Signature hmac secret now query = (case secret of
     None \<Rightarrow> Refused 500
   | Some key \<Rightarrow>
      (case query_text (map_of query ''sig'') of None \<Rightarrow> Refused 400 | Some sig \<Rightarrow>
      (case query_text (map_of query ''exp'') of None \<Rightarrow> Refused 400 | Some until \<Rightarrow>
      (case js_parseInt until of None \<Rightarrow> Refused 400 | Some expiration \<Rightarrow>
        if expiration \<le> 0 then Refused 400
        else if expiration < now div 1000 then Refused 401
        else if hex_bytes (hmac key (canonicalString (text_params query))) = hex_bytes sig then Passed
        else Refused 401))))"

end
