(* ===== verification/Sep24.thy ===== *)
theory Sep24
  imports Sep24_Requests Transaction_Status
begin

text \<open>
  The sessions of the SEP-24 anchor (\<^verbatim>\<open>src/stellar/sep24.ts\<close>, with the popup callback of
  \<^verbatim>\<open>src/routes/sep24.ts\<close> and the sweep of \<^verbatim>\<open>src/jobs/sep24InteractiveExpirationJob.ts\<close>): opening,
  expiry, renewal, status writes, callbacks, and the payment of a deposit. The sessions and the
  counter of open ones are the memory of the process; what is written through to the database, queued
  for the wallet or sent to the network is a trace of effects, newest first. Code between two awaited calls
  is one step; a renewal and a payment are two. Statuses are not checked by the code, so any other text is a status too.
\<close>

datatype Sep24TransactionStatus =
    PendingUserTransferStart | PendingExternal | PendingAnchor | PendingTrust | PendingStellar
  | SepCompleted | SepFailed | SepExpired | Unlisted string

datatype sep24_kind = DepositSession | WithdrawalSession

datatype sep24_message = Said string | SessionExpired | SupersededBy id | SubmissionFailed

record Sep24Transaction =
  sx_id :: id
  sx_kind :: sep24_kind
  sx_status :: Sep24TransactionStatus
  sx_amount_in :: "string option"
  sx_amount_out :: "string option"
  sx_amount_fee :: "string option"
  sx_asset_in :: "string option"
  sx_asset_out :: "string option"
  sx_account :: string
  sx_memo :: "string option"
  sx_memo_type :: "Sep24MemoType option"
  sx_stellar_transaction_id :: "string option"
  sx_from :: "string option"
  sx_to :: "string option"
  sx_callback :: "string option"
  sx_message :: "sep24_message option"
  sx_created_at :: millis
  sx_completed_at :: "millis option"
  sx_updated_at :: "millis option"

datatype sep24_effect =
    Saved Sep24Transaction
  | WebhookJob id Sep24TransactionStatus string
  | CallbackJob id Sep24TransactionStatus string
  | PaymentSubmitted id string string "sdk_memo option" \<comment> \<open>account, amount and memo\<close>

record sep24 =
  se_now :: millis
  se_txs :: "Sep24Transaction list"
  se_active :: "string \<Rightarrow> nat" \<comment> \<open>\<^verbatim>\<open>activeTransactionsPerAccount\<close>\<close>
  se_effects :: "sep24_effect list"
  se_payers :: "id option list" \<comment> \<open>running calls of \<^verbatim>\<open>fulfillDeposit\<close>\<close>
  se_renewals :: "(id \<times> id) option list" \<comment> \<open>running renewals: the original and the new session\<close>
  se_ids :: "id list" \<comment> \<open>every id that \<^verbatim>\<open>uuidv4\<close> has drawn\<close>

record sep24_env =
  ev_hmac :: "string \<Rightarrow> string \<Rightarrow> string"
  ev_secret :: "string option"
  ev_domain :: string
  ev_text :: "jsnum \<Rightarrow> string"
  ev_isValidKey :: "string \<Rightarrow> bool"
  ev_minutes :: int \<comment> \<open>\<^verbatim>\<open>sep24.interactiveSessionExpiryMinutes\<close>\<close>

definition session :: "id \<Rightarrow> sep24 \<Rightarrow> Sep24Transaction option" where
  "session i w = find (\<lambda>t. sx_id t = i) (se_txs w)"

definition terminal :: "Sep24TransactionStatus \<Rightarrow> bool" where
  "terminal s \<longleftrightarrow> s \<in> {SepCompleted, SepFailed, SepExpired}"

definition decrementActiveTransactionCount :: "string \<Rightarrow> sep24 \<Rightarrow> sep24" where
  "decrementActiveTransactionCount account w =
     (let current = se_active w account
      in if 0 < current then w\<lparr>se_active := (se_active w)(account := current - 1)\<rparr> else w)"

section \<open>Status writes\<close>

definition notify_wallet :: "bool \<Rightarrow> Sep24Transaction \<Rightarrow> sep24_effect list" where
  \<comment> \<open>both queues deliver to the same address\<close>
  "notify_wallet statusChanged t = (case sx_callback t of
     Some url \<Rightarrow> if statusChanged \<and> url \<noteq> [] then [CallbackJob (sx_id t) (sx_status t) url, WebhookJob (sx_id t) (sx_status t) url] else []
   | None \<Rightarrow> [])"

definition write_session :: "bool \<Rightarrow> Sep24Transaction \<Rightarrow> sep24 \<Rightarrow> sep24" where
  \<comment> \<open>\<^verbatim>\<open>transactions.set\<close>, the write-through, the counter and the notifications\<close>
  "write_session statusChanged t w =
     (let w1 = w\<lparr>se_txs := sql_update (\<lambda>x. sx_id x = sx_id t) (\<lambda>_. t) (se_txs w)\<rparr>;
          w2 = (if terminal (sx_status t) then decrementActiveTransactionCount (sx_account t) w1 else w1)
      in w2\<lparr>se_effects := notify_wallet statusChanged t @ Saved t # se_effects w2\<rparr>)"

definition updateTransactionStatus ::
  "id \<Rightarrow> Sep24TransactionStatus \<Rightarrow> sep24_message option \<Rightarrow> sep24 \<Rightarrow> Sep24Transaction option \<times> sep24" where
  "updateTransactionStatus i s message w = (case session i w of
     None \<Rightarrow> (None, w)
   | Some t \<Rightarrow>
       let t' = t\<lparr>sx_status := s, sx_updated_at := Some (se_now w),
              sx_message := (if message \<in> {None, Some (Said [])} then sx_message t else message),
              sx_completed_at := (if s = SepCompleted then Some (se_now w) else sx_completed_at t)\<rparr>
       in (Some t', write_session (sx_status t \<noteq> s) t' w))"

record CallbackData =
  cb_transaction_id :: id
  cb_status :: Sep24TransactionStatus
  cb_message :: "string option"
  cb_amount_in :: "string option"
  cb_amount_out :: "string option"
  cb_amount_fee :: "string option"
  cb_asset_in :: "string option"
  cb_asset_out :: "string option"
  cb_from :: "string option"
  cb_to :: "string option"
  cb_memo :: "string option"

definition or_keep :: "string option \<Rightarrow> string option \<Rightarrow> string option" where
  \<comment> \<open>\<^verbatim>\<open>if (new) field = new\<close>\<close>
  "or_keep new old = (if new \<in> {None, Some []} then old else new)"

definition processCallback :: "CallbackData \<Rightarrow> sep24 \<Rightarrow> Sep24Transaction option \<times> sep24" where
  "processCallback d w = (case session (cb_transaction_id d) w of
     None \<Rightarrow> (None, w)
   | Some t \<Rightarrow>
       let s = cb_status d;
           t' = t\<lparr>sx_status := s, sx_updated_at := Some (se_now w), sx_message := map_option Said (cb_message d),
              sx_amount_in := or_keep (cb_amount_in d) (sx_amount_in t), sx_amount_out := or_keep (cb_amount_out d) (sx_amount_out t),
              sx_amount_fee := or_keep (cb_amount_fee d) (sx_amount_fee t), sx_asset_in := or_keep (cb_asset_in d) (sx_asset_in t),
              sx_asset_out := or_keep (cb_asset_out d) (sx_asset_out t), sx_from := or_keep (cb_from d) (sx_from t),
              sx_to := or_keep (cb_to d) (sx_to t), sx_memo := or_keep (cb_memo d) (sx_memo t),
              sx_completed_at := (if terminal s then Some (se_now w) else sx_completed_at t)\<rparr>
       in (Some t', write_session (sx_status t \<noteq> s) t' w))"

section \<open>Sessions\<close>

definition MAX_ACTIVE_TRANSACTIONS_PER_ACCOUNT :: nat where "MAX_ACTIVE_TRANSACTIONS_PER_ACCOUNT = 5"

definition new_session :: "id \<Rightarrow> sep24_kind \<Rightarrow> Sep24Request \<Rightarrow> millis \<Rightarrow> Sep24Transaction" where
  "new_session i kind r now = \<lparr>sx_id = i, sx_kind = kind, sx_status = PendingUserTransferStart, sx_amount_in = Some (rq_amount r),
     sx_amount_out = None, sx_amount_fee = None, sx_asset_in = Some (rq_asset_code r), sx_asset_out = None, sx_account = rq_account r,
     sx_memo = rq_memo r, sx_memo_type = session_memo_type (rq_memo r) (rq_memo_type r), sx_stellar_transaction_id = None,
     sx_from = None, sx_to = None, sx_callback = pt_callback (rq_rest r), sx_message = None, sx_created_at = now,
     sx_completed_at = None, sx_updated_at = None\<rparr>"

definition generateInteractiveUrl ::
  "sep24_env \<Rightarrow> id \<Rightarrow> sep24_kind \<Rightarrow> Sep24Request \<Rightarrow> sep24 \<Rightarrow> (sep24_error + url_params) \<times> sep24" where
  \<comment> \<open>\<^verbatim>\<open>i\<close> is the id that \<^verbatim>\<open>uuidv4\<close> draws\<close>
  "generateInteractiveUrl env i kind r w =
     (let currentCount = se_active w (rq_account r) in
      if MAX_ACTIVE_TRANSACTIONS_PER_ACCOUNT \<le> currentCount then (Inl TooManyActive, w)
      else let t = new_session i kind r (se_now w);
               w1 = w\<lparr>se_txs := se_txs w @ [t], se_active := (se_active w)(rq_account r := currentCount + 1)\<rparr>
           in case generateSignedSep24Url (ev_hmac env) (ev_secret env) (se_now w) (interactive_params (ev_domain env) i r) of
                Inl e \<Rightarrow> (Inl e, decrementActiveTransactionCount (rq_account r) (w1\<lparr>se_txs := filter (\<lambda>x. sx_id x \<noteq> i) (se_txs w1)\<rparr>))
              | Inr url \<Rightarrow> (Inr url, w1\<lparr>se_effects := Saved t # se_effects w1\<rparr>))"

definition EXPIRABLE_STATUSES :: "Sep24TransactionStatus list" where
  "EXPIRABLE_STATUSES = [PendingUserTransferStart]"

definition isInteractiveSessionExpired :: "sep24_env \<Rightarrow> millis \<Rightarrow> Sep24Transaction \<Rightarrow> bool" where
  "isInteractiveSessionExpired env now t \<longleftrightarrow>
     sx_status t \<in> set EXPIRABLE_STATUSES \<and> ev_minutes env * 60 * 1000 \<le> now - sx_created_at t"

definition getTransaction :: "sep24_env \<Rightarrow> id \<Rightarrow> sep24 \<Rightarrow> Sep24Transaction option \<times> sep24" where
  "getTransaction env i w = (case session i w of
     None \<Rightarrow> (None, w)
   | Some t \<Rightarrow>
       if isInteractiveSessionExpired env (se_now w) t then updateTransactionStatus i SepExpired (Some SessionExpired) w
       else (Some t, w))"

definition expireStaleInteractiveSessions :: "sep24_env \<Rightarrow> sep24 \<Rightarrow> sep24" where
  "expireStaleInteractiveSessions env w =
     fold (\<lambda>i w. case session i w of
         Some t \<Rightarrow> if isInteractiveSessionExpired env (se_now w) t
             then snd (updateTransactionStatus i SepExpired (Some SessionExpired) w) else w
       | None \<Rightarrow> w) (map sx_id (se_txs w)) w"

definition renewal_request :: "Sep24Transaction \<Rightarrow> Sep24Request" where
  "renewal_request t = \<lparr>rq_asset_code = (case sx_asset_in t of Some a \<Rightarrow> a | None \<Rightarrow> []),
     rq_amount = (case sx_amount_in t of Some a \<Rightarrow> if a = [] then ''0'' else a | None \<Rightarrow> ''0''),
     rq_account = sx_account t, rq_memo = sx_memo t, rq_memo_type = sx_memo_type t, rq_voucher_code = None,
     rq_rest = \<lparr>pt_email = None, pt_wallet_name = None, pt_wallet_url = None, pt_lang = None, pt_callback = sx_callback t,
       pt_success_url = None, pt_failure_url = None, pt_token = None, pt_session_token = None\<rparr>\<rparr>"

definition renewInteractiveSession :: "sep24_env \<Rightarrow> id \<Rightarrow> id \<Rightarrow> sep24 \<Rightarrow> (sep24_error + url_params) \<times> sep24" where
  \<comment> \<open>until the new session is saved\<close>
  "renewInteractiveSession env expired i w = (case session expired w of
     None \<Rightarrow> (Inl SessionNotFound, w)
   | Some original \<Rightarrow>
       (case generateInteractiveUrl env i (sx_kind original) (renewal_request original) w of
          (Inl e, w') \<Rightarrow> (Inl e, w')
        | (Inr url, w') \<Rightarrow> (Inr url, w'\<lparr>se_renewals := se_renewals w' @ [Some (expired, i)]\<rparr>)))"

definition supersede :: "id \<Rightarrow> id \<Rightarrow> sep24 \<Rightarrow> sep24" where
  \<comment> \<open>the rest of a renewal\<close>
  "supersede original i w = (case session original w of
     None \<Rightarrow> w
   | Some t \<Rightarrow> if sx_status t \<noteq> SepExpired then snd (updateTransactionStatus original SepExpired (Some (SupersededBy i)) w) else w)"

section \<open>The payment of a deposit\<close>

definition fulfillDeposit :: "id \<Rightarrow> sep24 \<Rightarrow> (sep24_error + Sep24Transaction) \<times> sep24" where
  \<comment> \<open>up to the answer of the network\<close>
  "fulfillDeposit i w = (case session i w of
     None \<Rightarrow> (Inl SessionNotFound, w)
   | Some t \<Rightarrow>
       if sx_kind t \<noteq> DepositSession then (Inl NotADeposit, w)
       else if sx_status t = SepCompleted then (Inr t, w)
       else if sx_status t = PendingStellar then (Inl AlreadySubmitting, w)
       else if sx_status t \<in> {SepFailed, SepExpired} then (Inl DepositEnded, w)
       else (case (case sx_amount_out t of Some a \<Rightarrow> Some a | None \<Rightarrow> sx_amount_in t) of
          None \<Rightarrow> (Inl MissingAccountOrAmount, w)
        | Some amount \<Rightarrow>
           if sx_account t = [] \<or> amount = [] then (Inl MissingAccountOrAmount, w)
           else let attach = (\<lambda>memo. let w' = snd (updateTransactionStatus i PendingStellar None w)
                    in (Inr t, w'\<lparr>se_effects := PaymentSubmitted i (sx_account t) amount memo # se_effects w',
                         se_payers := se_payers w' @ [Some i]\<rparr>))
                in case sx_memo t of
                     None \<Rightarrow> attach None
                   | Some m \<Rightarrow>
                       if m = [] then attach None
                       else (case toStellarMemo m (case sx_memo_type t of Some mt \<Rightarrow> mt | None \<Rightarrow> MText) of
                          None \<Rightarrow> (Inl InvalidHashMemo, w)
                        | Some memo \<Rightarrow> attach (Some memo))))"

definition amend_session :: "id \<Rightarrow> (Sep24Transaction \<Rightarrow> Sep24Transaction) \<Rightarrow> sep24 \<Rightarrow> sep24" where
  "amend_session i f w = w\<lparr>se_txs := sql_update (\<lambda>t. sx_id t = i) f (se_txs w)\<rparr>"

definition persistTransaction :: "id \<Rightarrow> sep24 \<Rightarrow> sep24" where
  "persistTransaction i w = (case session i w of Some t \<Rightarrow> w\<lparr>se_effects := Saved t # se_effects w\<rparr> | None \<Rightarrow> w)"

definition payment_answered :: "id \<Rightarrow> string option option \<Rightarrow> sep24 \<Rightarrow> sep24" where
  \<comment> \<open>the rest of \<^verbatim>\<open>fulfillDeposit\<close>: None where the submission throws, else the hash\<close>
  "payment_answered i answer w = persistTransaction i (case answer of
     None \<Rightarrow> amend_session i (\<lambda>t. t\<lparr>sx_message := Some SubmissionFailed\<rparr>) w
   | Some hash \<Rightarrow> snd (updateTransactionStatus i SepCompleted None (amend_session i (\<lambda>t. t\<lparr>sx_stellar_transaction_id := hash\<rparr>) w)))"

section \<open>Routes\<close>

fun status_text :: "Sep24TransactionStatus \<Rightarrow> string" where
  "status_text PendingUserTransferStart = ''pending_user_transfer_start''"
| "status_text PendingExternal = ''pending_external''"
| "status_text PendingAnchor = ''pending_anchor''"
| "status_text PendingTrust = ''pending_trust''"
| "status_text PendingStellar = ''pending_stellar''"
| "status_text SepCompleted = ''completed''"
| "status_text SepFailed = ''failed''"
| "status_text SepExpired = ''expired''"
| "status_text (Unlisted s) = s"

definition status_of_text :: "string \<Rightarrow> Sep24TransactionStatus" where
  "status_of_text s = (case find (\<lambda>x. status_text x = s) [PendingUserTransferStart, PendingExternal, PendingAnchor, PendingTrust,
       PendingStellar, SepCompleted, SepFailed, SepExpired] of Some x \<Rightarrow> x | None \<Rightarrow> Unlisted s)"

definition query_status :: "query_value option \<Rightarrow> Sep24TransactionStatus" where
  "query_status v = (case v of Some (QText s) \<Rightarrow> status_of_text s | _ \<Rightarrow> Unlisted [])"

definition get_callback ::
  "sep24_env \<Rightarrow> id \<Rightarrow> (string \<times> query_value) list \<Rightarrow> sep24 \<Rightarrow> (nat + Sep24Transaction) \<times> sep24" where
  \<comment> \<open>\<^verbatim>\<open>GET /callback/:id\<close>; a session that is not found is answered with 500, as the 404 is thrown inside the try\<close>
  "get_callback env i query w = (case verifySep24Signature (ev_hmac env) (ev_secret env) (se_now w) query of
     Refused n \<Rightarrow> (Inl n, w)
   | Passed \<Rightarrow>
       (case processCallback \<lparr>cb_transaction_id = i, cb_status = query_status (map_of query ''status''),
            cb_message = (case map_of query ''message'' of Some (QText m) \<Rightarrow> Some m | _ \<Rightarrow> None), cb_amount_in = None, cb_amount_out = None,
            cb_amount_fee = None, cb_asset_in = None, cb_asset_out = None, cb_from = None, cb_to = None, cb_memo = None\<rparr> w of
          (None, w') \<Rightarrow> (Inl 500, w') | (Some t, w') \<Rightarrow> (Inr t, w')))"

definition interactive_callback :: "sep24_env \<Rightarrow> id \<Rightarrow> string option \<Rightarrow> sep24 \<Rightarrow> sep24" where
  \<comment> \<open>\<^verbatim>\<open>GET /interactive/callback\<close>\<close>
  "interactive_callback env i requested w = (case getTransaction env i w of
     (None, w') \<Rightarrow> w'
   | (Some _, w') \<Rightarrow> snd (updateTransactionStatus i
       (case requested of Some s \<Rightarrow> if s = [] then PendingUserTransferStart else status_of_text s | None \<Rightarrow> PendingUserTransferStart) None w'))"

fun shown_status :: "TransactionStatus \<Rightarrow> Sep24TransactionStatus" where
  \<comment> \<open>\<^verbatim>\<open>GET /transaction\<close> of a transaction that is no session\<close>
  "shown_status Completed = SepCompleted"
| "shown_status Failed = SepFailed"
| "shown_status Cancelled = SepFailed"
| "shown_status Reversed = SepFailed"
| "shown_status ClawedBack = SepFailed"
| "shown_status _ = PendingExternal"

definition get_transaction :: "sep24_env \<Rightarrow> id \<Rightarrow> transaction list \<Rightarrow> sep24 \<Rightarrow> Sep24TransactionStatus option \<times> sep24" where
  "get_transaction env i txs w = (case getTransaction env i w of
     (Some t, w') \<Rightarrow> (Some (sx_status t), w')
   | (None, w') \<Rightarrow> (map_option (\<lambda>t. shown_status (tx_status t)) (find (\<lambda>t. tx_id t = i) txs), w'))"

section \<open>Runs\<close>

datatype sep24_act =
    Pass int \<comment> \<open>time\<close>
  | OpenDeposit id deposit_body
  | OpenWithdrawal id Sep24Request
  | Look id
  | Sweep
  | Renew id id
  | RenewRest nat
  | PutStatus id Sep24TransactionStatus "string option"
  | PostCallback CallbackData
  | Popup id "string option"
  | Fulfil id
  | PaymentAnswer nat "string option option"
  | Restart

definition open_session :: "sep24_env \<Rightarrow> id \<Rightarrow> sep24_kind \<Rightarrow> sep24_error + Sep24Request \<Rightarrow> sep24 \<Rightarrow> sep24" where
  "open_session env i kind request w = (case request of
     Inl _ \<Rightarrow> w
   | Inr r \<Rightarrow> if i \<in> set (se_ids w) then w else snd (generateInteractiveUrl env i kind r (w\<lparr>se_ids := i # se_ids w\<rparr>)))"

definition sep24_step :: "sep24_env \<Rightarrow> sep24_act \<Rightarrow> sep24 \<Rightarrow> sep24" where
  "sep24_step env act w = (case act of
     Pass d \<Rightarrow> w\<lparr>se_now := se_now w + max 0 d\<rparr>
   | OpenDeposit i b \<Rightarrow> open_session env i DepositSession (initiateDeposit (ev_text env) (ev_isValidKey env) b) w
   | OpenWithdrawal i r \<Rightarrow> open_session env i WithdrawalSession (initiateWithdrawal (ev_isValidKey env) r) w
   | Look i \<Rightarrow> snd (getTransaction env i w)
   | Sweep \<Rightarrow> expireStaleInteractiveSessions env w
   | Renew i j \<Rightarrow> if j \<in> set (se_ids w) then w else snd (renewInteractiveSession env i j (w\<lparr>se_ids := j # se_ids w\<rparr>))
   | RenewRest k \<Rightarrow>
       if k < length (se_renewals w) then
         (case se_renewals w ! k of
            Some (i, j) \<Rightarrow> supersede i j (w\<lparr>se_renewals := (se_renewals w)[k := None]\<rparr>) | None \<Rightarrow> w)
       else w
   | PutStatus i s m \<Rightarrow> snd (updateTransactionStatus i s (map_option Said m) w)
   | PostCallback d \<Rightarrow> snd (processCallback d w)
   | Popup i s \<Rightarrow> interactive_callback env i s w
   | Fulfil i \<Rightarrow> snd (fulfillDeposit i w)
   | PaymentAnswer k a \<Rightarrow>
       if k < length (se_payers w) then
         (case se_payers w ! k of
            Some i \<Rightarrow> payment_answered i a (w\<lparr>se_payers := (se_payers w)[k := None]\<rparr>) | None \<Rightarrow> w)
       else w
   | Restart \<Rightarrow> w\<lparr>se_txs := [], se_active := (\<lambda>_. 0), se_payers := [], se_renewals := []\<rparr>)"

definition sep24_run :: "sep24_env \<Rightarrow> sep24_act list \<Rightarrow> sep24 \<Rightarrow> sep24" where
  "sep24_run env acts w = fold (sep24_step env) acts w"

definition sep24_start :: sep24 where
  "sep24_start = \<lparr>se_now = 0, se_txs = [], se_active = (\<lambda>_. 0), se_effects = [], se_payers = [], se_renewals = [], se_ids = []\<rparr>"

end
