(* ===== verification/Sep24_Signing.thy ===== *)
theory Sep24_Signing
  imports Sep24_Requests
begin

text \<open>
  What the SEP-24 anchor can rely on when a wallet opens a session: an accepted memo can be attached
  to the payment, and the signed address of the interactive page passes its verification until it
  expires. The text that is signed is ambiguous, though: names and values are joined without
  quoting, so that a value of the wallet's choice is verified as a parameter of its own.
\<close>

section \<open>Memos\<close>

lemma hex_nibble_digit: "n < 16 \<Longrightarrow> hex_value (hex_nibble n) = Some n"
  by (auto simp: hex_value_def hex_nibble_def Let_def of_char_of)

lemma hex_value_small: "hex_value c = Some n \<Longrightarrow> n < 16"
  by (auto simp: hex_value_def Let_def split: if_splits)

lemma hex_bytes_size:
  "list_all (\<lambda>c. hex_value c \<noteq> None) s \<Longrightarrow> length (hex_bytes s) = length s div 2 \<and> list_all (\<lambda>b. b < 256) (hex_bytes s)"
proof (induction s rule: hex_bytes.induct)
  case (1 a b s)
  then obtain x y where xy: "hex_value a = Some x" "hex_value b = Some y" by auto
  then have "x < 16" "y < 16" by (simp_all add: hex_value_small)
  with xy 1 show ?case by simp
qed simp_all

lemma sextets_small:
  "list_all (\<lambda>n. n < 64) ns \<Longrightarrow> list_all (\<lambda>b. b < 256) (sextets_bytes ns)"
proof (induction ns rule: sextets_bytes.induct)
  case (1 a b c d s)
  then have "16 * (b mod 16) + c div 4 < 256" "64 * (c mod 4) + d < 256" by auto
  with 1 show ?case by auto
qed auto

lemma b64_value_small: "b64_value c = Some n \<Longrightarrow> n < 64"
  by (auto simp: b64_value_def Let_def split: if_splits)

lemma b64_bytes_small: "list_all (\<lambda>b. b < 256) (b64_bytes s)"
  unfolding b64_bytes_def
  by (rule sextets_small) (auto simp: list_all_iff dest!: set_takeWhileD intro: b64_value_small)

lemma decodeHashMemo_bytes: "decodeHashMemo v = Some bs \<Longrightarrow> length bs = 32 \<and> list_all (\<lambda>b. b < 256) bs"
  using hex_bytes_size [of v] b64_bytes_small [of v] by (auto simp: decodeHashMemo_def split: if_splits)

lemma bytes_hex_digits:
  "list_all (\<lambda>b. b < 256) bs \<Longrightarrow> length (bytes_hex bs) = 2 * length bs \<and> list_all (\<lambda>c. hex_value c \<noteq> None) (bytes_hex bs)"
  by (induction bs) (auto simp: bytes_hex_def hex_nibble_digit less_mult_imp_div_less)

lemma hash_roundtrip: "list_all (\<lambda>b. b < 256) bs \<Longrightarrow> hex_bytes (bytes_hex bs) = bs"
  by (induction bs) (auto simp: bytes_hex_def hex_nibble_digit less_mult_imp_div_less)

lemma valid_memo_accepted:
  assumes "validateMemo m t"
  obtains k where "toStellarMemo m t = Some k" "sdk_accepts k"
proof (cases t)
  case MHash
  with assms obtain bs where bs: "decodeHashMemo m = Some bs" by (auto simp: validateMemo_def)
  from bytes_hex_digits [of bs] decodeHashMemo_bytes [OF bs] that [of "SdkHash (bytes_hex bs)"] MHash bs
  show ?thesis by (simp add: toStellarMemo_def)
qed (use assms that in \<open>auto simp: validateMemo_def toStellarMemo_def MAX_TEXT_MEMO_BYTES_def MAX_ID_MEMO_def\<close>)

lemma schema_memo:
  assumes "sep24DepositRequestSchema text b = Inr r"
  shows "\<exists>mt. sep24_optional (zod_string ''memo'') (db_memo b) = Inr (rq_memo r) \<and> refineMemo (rq_memo r) mt \<and>
    rq_memo_type r = withDefaultMemoType (rq_memo r) mt"
  using assms unfolding sep24DepositRequestSchema_def by (auto split: sum.splits if_splits)

lemma zod_memo_nonempty: "sep24_optional (zod_string f) v = Inr (Some m) \<Longrightarrow> m \<noteq> []"
  by (cases v) (auto simp: sep24_optional_def zod_string_def split: if_splits)

lemma accepted_memo:
  assumes "sep24DepositRequestSchema text b = Inr r" "rq_memo r = Some m"
  obtains t where "m \<noteq> []" "rq_memo_type r = Some t" "validateMemo m t"
proof -
  obtain mt where mt: "sep24_optional (zod_string ''memo'') (db_memo b) = Inr (Some m)" "refineMemo (Some m) mt"
    "rq_memo_type r = withDefaultMemoType (Some m) mt" using schema_memo [OF assms(1)] assms(2) by auto
  then show ?thesis using that zod_memo_nonempty [OF mt(1)]
    by (cases mt) (auto simp: refineMemo_def withDefaultMemoType_def)
qed

text \<open>
  The memo of every deposit that is accepted can be attached to its payment: it is converted
  without an error, and the constructor of the SDK that is called is given an argument that the
  protocol allows.
\<close>

theorem valid_memo_attaches:
  assumes "initiateDeposit text isValidKey b = Inr r" "rq_memo r = Some m"
  shows "\<exists>t k. session_memo_type (rq_memo r) (rq_memo_type r) = Some t \<and> toStellarMemo m t = Some k \<and> sdk_accepts k"
proof -
  have "sep24DepositRequestSchema text b = Inr r" using assms(1)
    by (auto simp: initiateDeposit_def check_request_def Let_def split: sum.splits option.splits if_splits)
  from accepted_memo [OF this assms(2)] obtain t where t: "m \<noteq> []" "rq_memo_type r = Some t" "validateMemo m t" .
  from valid_memo_accepted [OF t(3)] obtain k where "toStellarMemo m t = Some k" "sdk_accepts k" .
  with t assms(2) show ?thesis by (simp add: session_memo_type_def)
qed

definition no_extras :: passthrough where
  "no_extras = \<lparr>pt_email = None, pt_wallet_name = None, pt_wallet_url = None, pt_lang = None, pt_callback = None,
     pt_success_url = None, pt_failure_url = None, pt_token = None, pt_session_token = None\<rparr>"

definition demo_body :: deposit_body where
  "demo_body = \<lparr>db_asset_code = JString ''USDC'', db_amount = JString ''25'', db_account = JString ''G'', db_memo = JString ''7'',
     db_memo_type = JString ''id'', db_voucher_code = JUndefined, db_rest = no_extras\<rparr>"

definition demo_request :: Sep24Request where
  "demo_request = \<lparr>rq_asset_code = ''USDC'', rq_amount = ''25'', rq_account = ''G'', rq_memo = Some ''7'', rq_memo_type = Some MId,
     rq_voucher_code = None, rq_rest = no_extras\<rparr>"

lemma parse_small: "js_parseFloat ''25'' = Fin 25"
  using num_int [of 25] by (simp add: js_parseFloat_def js_space_def js_digit_def digit_val_def exponent_of_def pow10_def)

lemma demo_accepted: "initiateDeposit (\<lambda>_. []) (\<lambda>_. True) demo_body = Inr demo_request"
  by (simp add: initiateDeposit_def sep24DepositRequestSchema_def demo_body_def demo_request_def zod_string_def zod_amount_def
      sep24_optional_def zod_memo_type_def refineMemo_def validateMemo_def all_digits_def js_digit_def digit_val_def MAX_ID_MEMO_def
      withDefaultMemoType_def check_request_def getSep24Config_def parse_small)

theorem valid_memo_attaches_witness:
  "\<exists>t k. session_memo_type (Some ''7'') (Some MId) = Some t \<and> toStellarMemo ''7'' t = Some k \<and> sdk_accepts k"
  using valid_memo_attaches [OF demo_accepted, of "''7''"] by (simp add: demo_request_def)

section \<open>The signed address\<close>

lemma js_parseInt_nat_str: "js_parseInt (nat_str n) = Some (int n)"
proof -
  obtain c u where cu: "nat_str n = c # u" using nat_str_digits [of n] by (cases "nat_str n") auto
  then have d: "js_digit c" "list_all js_digit u" using nat_str_digits [of n] by auto
  have digits: "takeWhile js_digit (c # u) = c # u" using d by (simp add: list_all_iff takeWhile_eq_all_conv)
  have "\<not> js_space c" "c \<noteq> CHR ''-''" "c \<noteq> CHR ''+''" using d(1) by (auto simp: js_digit_def js_space_def)
  then have "js_parseInt (c # u) = Some (int (dec_val (c # u)))"
    unfolding js_parseInt_def by (simp add: Let_def digits del: dec_val.simps takeWhile.simps)
  then show ?thesis unfolding cu [symmetric] dec_val_nat_str .
qed

lemma verify_split:
  assumes "query_text (map_of query ''sig'') = Some sg" "query_text (map_of query ''exp'') = Some (nat_str (nat e))" "0 < e"
  shows "verifySep24Signature hmac (Some key) now query =
    (if e < now div 1000 then Refused 401
     else if hex_bytes (hmac key (canonicalString (text_params query))) = hex_bytes sg then Passed else Refused 401)"
  using assms by (simp add: verifySep24Signature_def js_parseInt_nat_str)

lemma text_params_simps [simp]:
  "text_params [] = []"
  "text_params ((k, QText s) # q) = (if k = ''sig'' then text_params q else (k, s) # text_params q)"
  "text_params ((k, QStructured) # q) = text_params q"
  by (simp_all add: text_params_def map_filter_simps)

lemma text_params_append: "text_params (p @ q) = text_params p @ text_params q"
  by (simp add: text_params_def map_filter_def)

definition as_query :: "url_params \<Rightarrow> (string \<times> query_value) list" where
  \<comment> \<open>the query string as the server parses it\<close>
  "as_query ps = map (\<lambda>(k, v). (k, QText v)) ps"

lemma text_params_query: "''sig'' \<notin> fst ` set ps \<Longrightarrow> text_params (as_query ps) = ps"
  unfolding as_query_def by (induction ps) auto

lemma as_query_append: "as_query (p @ q) = as_query p @ as_query q"
  by (simp add: as_query_def)

lemma map_of_query: "map_of (as_query ps) k = map_option QText (map_of ps k)"
  unfolding as_query_def by (induction ps) auto

lemma map_of_fresh: "k \<notin> fst ` set ps \<Longrightarrow> map_of (ps @ qs) k = map_of qs k"
  by (induction ps) auto

text \<open>
  A signed address passes its verification until it expires, ten minutes after it was made, and is
  refused as expired from then on, whatever keyed hash is used.
\<close>

theorem signed_url_verifies:
  assumes "generateSignedSep24Url hmac (Some key) now params = Inr url" "0 \<le> now"
    and "''sig'' \<notin> fst ` set params" "''exp'' \<notin> fst ` set params" "\<And>s. hmac key s \<noteq> []"
  shows "verifySep24Signature hmac (Some key) later (as_query url) =
    (if later div 1000 \<le> now div 1000 + WEBVIEW_URL_EXPIRATION_SECONDS then Passed else Refused 401)"
proof -
  define e where "e = now div 1000 + WEBVIEW_URL_EXPIRATION_SECONDS"
  define al where "al = params @ [(''exp'', nat_str (nat e))]"
  have url: "url = al @ [(''sig'', hmac key (canonicalString al))]"
    using assms(1) by (simp add: generateSignedSep24Url_def e_def al_def Let_def)
  have e: "0 < e" using assms(2) by (simp add: e_def WEBVIEW_URL_EXPIRATION_SECONDS_def add_nonneg_pos)
  have keys: "''sig'' \<notin> fst ` set al" using assms(3) by (simp add: al_def)
  have "text_params (as_query url) = al"
    unfolding url as_query_append text_params_append text_params_query [OF keys] by (simp add: as_query_def)
  moreover have "query_text (map_of (as_query url) ''sig'') = Some (hmac key (canonicalString al))"
    unfolding map_of_query url map_of_fresh [OF keys] using assms(5) by simp
  moreover have "query_text (map_of (as_query url) ''exp'') = Some (nat_str (nat e))"
    unfolding map_of_query url al_def append_assoc map_of_fresh [OF assms(4)] using nat_str_digits [of "nat e"] by simp
  ultimately show ?thesis using verify_split [of "as_query url" _ e] e by (auto simp: e_def)
qed

theorem signed_url_verifies_witness:
  "verifySep24Signature (\<lambda>k s. k @ s) (Some ''a'') 601000 (as_query [(''memo'', ''7''), (''exp'', nat_str 601), (''sig'', ''aexp=601&memo=7'')]) = Passed"
proof -
  have canonical: "canonicalString [(''memo'', ''7''), (''exp'', nat_str 601)] = ''exp=601&memo=7''" by code_simp
  have "generateSignedSep24Url (\<lambda>k s. k @ s) (Some ''a'') 1000 [(''memo'', ''7'')] =
      Inr [(''memo'', ''7''), (''exp'', nat_str 601), (''sig'', ''aexp=601&memo=7'')]"
    using canonical by (simp add: generateSignedSep24Url_def WEBVIEW_URL_EXPIRATION_SECONDS_def)
  from signed_url_verifies [OF this, of 601000] show ?thesis by (simp add: WEBVIEW_URL_EXPIRATION_SECONDS_def)
qed

section \<open>The ambiguity of the signed text\<close>

definition param_names :: "string list" where
  \<comment> \<open>in the order in which they are appended\<close>
  "param_names = [''transaction_id'', ''asset_code'', ''amount'', ''account'', ''lang''] @ [''token''] @ [''session_token''] @ [''memo''] @
     [''memo_type''] @ [''email''] @ [''wallet_name''] @ [''wallet_url''] @ [''success_url''] @ [''failure_url''] @ [''voucher_code''] @ [''callback'']"

lemma subseq_opt_param: "subseq (map fst (opt_param k v)) [k]"
  by (auto simp: opt_param_def split: option.splits)

lemma interactive_names: "subseq (map fst (interactive_params domain i r)) param_names"
  unfolding interactive_params_def param_names_def Let_def map_append
  by (intro list_emb_append_mono subseq_opt_param) simp_all

lemma param_names_order:
  "distinct (param_names @ [''exp''])"
  "list_all (\<lambda>k. k = ''session_token'' \<or> k < ''session_token'' \<and> k < ''status'' \<or> ''session_token'' < k \<and> ''status'' < k) (param_names @ [''exp''])"
  "''sig'' \<notin> set (param_names @ [''exp''])" "''status'' \<notin> set (param_names @ [''exp''])"
  by code_simp+

definition split_token :: "string \<Rightarrow> string \<Rightarrow> url_params \<Rightarrow> url_params" where
  \<comment> \<open>the parameters with the token cut in two\<close>
  "split_token t st ps = concat (map (\<lambda>(k, v). if k = ''session_token'' then [(k, t), (''status'', st)] else [(k, v)]) ps)"

lemma split_token_simps [simp]:
  "split_token t st [] = []"
  "split_token t st ((k, v) # ps) = (if k = ''session_token'' then [(k, t), (''status'', st)] else [(k, v)]) @ split_token t st ps"
  by (simp_all add: split_token_def)

lemma split_token_append: "split_token t st (p @ q) = split_token t st p @ split_token t st q"
  by (simp add: split_token_def)

lemma split_token_set: "set ps = set qs \<Longrightarrow> set (split_token t st ps) = set (split_token t st qs)"
  by (simp add: split_token_def)

lemma split_token_keys:
  "k \<in> fst ` set (split_token t st ps) \<longleftrightarrow> k \<in> fst ` set ps \<or> k = ''status'' \<and> ''session_token'' \<in> fst ` set ps"
  by (induction ps) (auto split: if_splits)

lemma split_token_status: "(''session_token'', v) \<in> set ps \<Longrightarrow> (''status'', st) \<in> set (split_token t st ps)"
  by (induction ps) auto

lemma split_token_distinct:
  assumes "distinct (map fst ps)" "fst ` set ps \<subseteq> set (param_names @ [''exp''])"
  shows "distinct (map fst (split_token t st ps))"
  using assms
proof (induction ps)
  case (Cons p ps)
  obtain k v where p: "p = (k, v)" by fastforce
  have "''status'' \<notin> fst ` set (p # ps)" using Cons.prems(2) param_names_order(4) by blast
  with Cons split_token_keys [of _ t st ps] show ?case by (auto simp: p simp flip: set_map)
qed simp

lemma split_token_sorted:
  assumes "sorted_wrt (<) (map fst ps)" "fst ` set ps \<subseteq> set (param_names @ [''exp''])"
  shows "sorted_wrt (<) (map fst (split_token t st ps))"
  using assms
proof (induction ps)
  case (Cons p ps)
  obtain k v where p: "p = (k, v)" by fastforce
  have order: "k' = ''session_token'' \<or> k' < ''session_token'' \<and> k' < ''status'' \<or> ''session_token'' < k' \<and> ''status'' < k'"
    if "k' \<in> set (param_names @ [''exp''])" for k' using param_names_order(2) that unfolding list_all_iff by blast
  have above: "k < k'" if "k' \<in> fst ` set ps" for k' using Cons.prems(1) that by (auto simp: p)
  have names: "k' \<in> set (param_names @ [''exp''])" if "k' \<in> fst ` set (p # ps)" for k'
    using Cons.prems(2) that by blast
  have tail: "k < k'" if "k' \<in> fst ` set (split_token t st ps)" for k'
  proof (cases "k' \<in> fst ` set ps")
    case False
    with that have k': "k' = ''status''" "''session_token'' \<in> fst ` set ps" by (simp_all add: split_token_keys)
    with above have "k < ''session_token''" by blast
    then have "k < ''status''" using order [OF names [of k]] by (auto simp: p)
    with k' show ?thesis by simp
  qed (rule above)
  have "''status'' < k'" if st: "k = ''session_token''" and k': "k' \<in> fst ` set (split_token t st ps)" for k'
  proof -
    have "''session_token'' \<notin> fst ` set ps" using above st by blast
    then have in_ps: "k' \<in> fst ` set ps" using k' by (simp add: split_token_keys)
    then have "''session_token'' < k'" using above st by blast
    then show ?thesis using order [OF names [of k']] in_ps by auto
  qed
  moreover have "''session_token'' < ''status''" by code_simp
  moreover have "sorted_wrt (<) (map fst (split_token t st ps))" using Cons by simp
  ultimately show ?case using tail by (auto simp: p)
qed simp

lemma join_two: "js_join sep (xs @ (a @ sep @ b) # ys) = js_join sep (xs @ a # b # ys)"
proof (induction xs rule: induct_list012)
  case 1
  then show ?case by (cases ys) simp_all
next
  case (2 x)
  then show ?case by (cases ys) simp_all
qed (simp_all del: append_assoc)

lemma canonical_split:
  assumes "distinct (map fst ps)" "fst ` set ps \<subseteq> set (param_names @ [''exp''])"
    and "(''session_token'', t @ ''&status='' @ st) \<in> set ps"
  shows "canonicalString (split_token t st ps) = canonicalString ps"
proof -
  define S where "S = sort_key fst ps"
  have S: "set S = set ps" "sorted_wrt (<) (map fst S)"
    using assms(1) by (simp_all add: S_def strict_sorted_iff distinct_map)
  have keys: "fst ` set S \<subseteq> set (param_names @ [''exp''])" using assms(2) S by simp
  note strict = split_token_sorted [OF S(2) keys, of t st]
  have set_S: "set (split_token t st S) = set (split_token t st ps)" using S(1) by (rule split_token_set)
  have "distinct (map fst (split_token t st ps))" using assms(1,2) by (rule split_token_distinct)
  then have "sort_key fst (split_token t st ps) = split_token t st S"
    using strict set_S
    by (intro map_sorted_distinct_set_unique [where f = fst]) (auto simp: strict_sorted_iff distinct_map)
  moreover obtain xs ys where xy: "S = xs @ (''session_token'', t @ ''&status='' @ st) # ys"
    using assms(3) S(1) by (metis split_list)
  moreover have "split_token t st xs = xs" "split_token t st ys = ys"
  proof -
    have none: "''session_token'' \<notin> fst ` set qs \<Longrightarrow> split_token t st qs = qs" for qs by (induction qs) auto
    have "distinct (map fst S)" using S(2) by (simp add: strict_sorted_iff)
    then show "split_token t st xs = xs" "split_token t st ys = ys" using none by (simp_all add: xy)
  qed
  ultimately show ?thesis
    using join_two [of "''&''" "map (\<lambda>(k, v). k @ ''='' @ v) xs" "''session_token='' @ t" "''status='' @ st"]
    by (simp add: canonicalString_def split_token_append flip: S_def)
qed

lemma signed_params:
  assumes "generateSignedSep24Url hmac (Some key) now (interactive_params domain i r) = Inr url"
  defines "al \<equiv> interactive_params domain i r @ [(''exp'', nat_str (nat (now div 1000 + WEBVIEW_URL_EXPIRATION_SECONDS)))]"
  shows "url = al @ [(''sig'', hmac key (canonicalString al))]" "distinct (map fst al)" "fst ` set al \<subseteq> set (param_names @ [''exp''])"
proof -
  show "url = al @ [(''sig'', hmac key (canonicalString al))]"
    using assms(1) by (simp add: generateSignedSep24Url_def al_def Let_def)
  have "subseq (map fst al) (param_names @ [''exp''])" unfolding al_def map_append
    by (intro list_emb_append_mono interactive_names) simp
  then obtain N where N: "map fst al = nths (param_names @ [''exp'']) N" unfolding subseq_conv_nths ..
  show "distinct (map fst al)" unfolding N using param_names_order(1) by (rule distinct_nthsI)
  show "fst ` set al \<subseteq> set (param_names @ [''exp''])" unfolding set_map [symmetric] N by (rule set_nths_subset)
qed

text \<open>
  C21. The text that is signed is ambiguous: a wallet whose session token is any text followed by
  \<^verbatim>\<open>&status=\<close> and a status is given a signature that also verifies, until it expires, with the
  token cut and that status as a parameter of its own, whatever keyed hash is used.
\<close>

theorem status_injected:
  assumes "generateSignedSep24Url hmac (Some key) now (interactive_params domain i r) = Inr url"
    and "pt_session_token (rq_rest r) = Some (t @ ''&status='' @ st)"
    and "0 \<le> now" "later div 1000 \<le> now div 1000 + WEBVIEW_URL_EXPIRATION_SECONDS" "\<And>s. hmac key s \<noteq> []"
  shows "verifySep24Signature hmac (Some key) later (as_query (split_token t st url)) = Passed \<and>
    map_of (as_query (split_token t st url)) ''status'' = Some (QText st)"
proof -
  define e where "e = now div 1000 + WEBVIEW_URL_EXPIRATION_SECONDS"
  define al where "al = interactive_params domain i r @ [(''exp'', nat_str (nat e))]"
  note p = signed_params [OF assms(1), folded e_def, folded al_def]
  define q where "q = split_token t st al"
  have token: "(''session_token'', t @ ''&status='' @ st) \<in> set al"
    using assms(2) by (simp add: al_def interactive_params_def Let_def opt_param_def)
  have same: "canonicalString q = canonicalString al" unfolding q_def by (rule canonical_split [OF p(2,3) token])
  have forged: "split_token t st url = q @ [(''sig'', hmac key (canonicalString al))]"
    unfolding p(1) split_token_append by (simp add: q_def)
  have none: "''sig'' \<notin> fst ` set q" using p(3) param_names_order(3) unfolding q_def split_token_keys by blast
  have "distinct (map fst q)" unfolding q_def using p(2,3) by (rule split_token_distinct)
  moreover have "(''exp'', nat_str (nat e)) \<in> set q" unfolding q_def al_def split_token_append by simp
  moreover have "(''status'', st) \<in> set q" unfolding q_def using token by (rule split_token_status)
  ultimately have look: "map_of q ''exp'' = Some (nat_str (nat e))" "map_of q ''status'' = Some st" by simp_all
  have "0 < e" using assms(3) by (simp add: e_def WEBVIEW_URL_EXPIRATION_SECONDS_def add_nonneg_pos)
  moreover have "text_params (as_query (split_token t st url)) = q"
    unfolding forged as_query_append text_params_append text_params_query [OF none] by (simp add: as_query_def)
  moreover have "query_text (map_of (as_query (split_token t st url)) ''sig'') = Some (hmac key (canonicalString al))"
    unfolding map_of_query forged map_of_fresh [OF none] using assms(5) by simp
  moreover have "map_of (split_token t st url) ''exp'' = Some (nat_str (nat e))" "map_of (split_token t st url) ''status'' = Some st"
    unfolding forged map_of_append using look by (simp_all add: map_add_def)
  ultimately show ?thesis using verify_split [of "as_query (split_token t st url)" _ e] assms(4) same nat_str_digits [of "nat e"]
    by (auto simp: map_of_query e_def)
qed

definition token_request :: Sep24Request where
  "token_request = demo_request\<lparr>rq_rest := no_extras\<lparr>pt_session_token := Some (''x'' @ ''&status='' @ ''completed'')\<rparr>\<rparr>"

theorem status_injected_witness:
  "\<exists>url. generateSignedSep24Url (\<lambda>k s. k @ s) (Some ''a'') 0 (interactive_params ''d'' ''i'' token_request) = Inr url \<and>
    verifySep24Signature (\<lambda>k s. k @ s) (Some ''a'') 0 (as_query (split_token ''x'' ''completed'' url)) = Passed"
proof -
  obtain url where url: "generateSignedSep24Url (\<lambda>k s. k @ s) (Some ''a'') 0 (interactive_params ''d'' ''i'' token_request) = Inr url"
    by (simp add: generateSignedSep24Url_def)
  from status_injected [OF url, of "''x''" "''completed''" 0]
  have "verifySep24Signature (\<lambda>k s. k @ s) (Some ''a'') 0 (as_query (split_token ''x'' ''completed'' url)) = Passed"
    by (simp add: token_request_def WEBVIEW_URL_EXPIRATION_SECONDS_def)
  with url show ?thesis by blast
qed

end
