(* ===== verification/Sep24_Sessions.thy ===== *)
theory Sep24_Sessions
  imports Sep24 Sep24_Signing
begin

text \<open>
  What the sessions of the SEP-24 anchor promise. If no caller writes the status of a session
  that is being paid or has ended, each deposit is paid at most once, and the counter of an account is the
  number of its open sessions, at most five. The routes that write statuses check neither the caller
  nor the present status, and the theorems at the end show what follows: repeated writes wear the
  counter down without bound, and a reopened deposit is paid again.
\<close>

section \<open>Status writes\<close>

definition st :: "id \<Rightarrow> sep24 \<Rightarrow> Sep24TransactionStatus option" where
  "st i w = map_option sx_status (session i w)"

definition submissions :: "id \<Rightarrow> sep24 \<Rightarrow> nat" where
  "submissions i w = length (filter (\<lambda>e. case e of PaymentSubmitted j _ _ _ \<Rightarrow> j = i | _ \<Rightarrow> False) (se_effects w))"

lemma session_id: "session i w = Some t \<Longrightarrow> t \<in> set (se_txs w) \<and> sx_id t = i"
  by (auto simp: session_def dest: find_SomeD)

lemma decrement_fields [simp]:
  "se_txs (decrementActiveTransactionCount a w) = se_txs w" "se_effects (decrementActiveTransactionCount a w) = se_effects w"
  "se_ids (decrementActiveTransactionCount a w) = se_ids w" "se_now (decrementActiveTransactionCount a w) = se_now w"
  "se_payers (decrementActiveTransactionCount a w) = se_payers w" "se_renewals (decrementActiveTransactionCount a w) = se_renewals w"
  "se_active (decrementActiveTransactionCount a w) = (se_active w)(a := se_active w a - 1)"
  by (auto simp: decrementActiveTransactionCount_def Let_def)

lemma write_fields [simp]:
  "se_ids (write_session b t w) = se_ids w" "se_now (write_session b t w) = se_now w"
  "se_payers (write_session b t w) = se_payers w" "se_renewals (write_session b t w) = se_renewals w"
  "se_txs (write_session b t w) = sql_update (\<lambda>x. sx_id x = sx_id t) (\<lambda>_. t) (se_txs w)"
  "se_active (write_session b t w) = (if terminal (sx_status t) then (se_active w)(sx_account t := se_active w (sx_account t) - 1) else se_active w)"
  by (simp_all add: write_session_def Let_def)

lemma submissions_write [simp]: "submissions i (write_session b t w) = submissions i w"
  by (auto simp: submissions_def write_session_def notify_wallet_def Let_def split: option.splits)

lemma ids_write [simp]: "map sx_id (se_txs (write_session b t w)) = map sx_id (se_txs w)"
  by (simp add: map_sql_update)

lemma session_write:
  "session j (write_session b t w) = (if j = sx_id t then map_option (\<lambda>_. t) (session j w) else session j w)"
  unfolding session_def write_fields by (subst find_key_update) auto

text \<open>Every status write of the code keeps the id and the account of the session.\<close>

definition rewritten :: "id \<Rightarrow> sep24 \<Rightarrow> sep24 \<Rightarrow> Sep24TransactionStatus \<Rightarrow> bool" where
  "rewritten i w w' s \<longleftrightarrow> (case session i w of
     None \<Rightarrow> w' = w
   | Some t \<Rightarrow> \<exists>b t'. w' = write_session b t' w \<and> sx_id t' = i \<and> sx_account t' = sx_account t \<and> sx_status t' = s)"

lemma rewritten_update: "rewritten i w (snd (updateTransactionStatus i s m w)) s"
  by (auto simp: rewritten_def updateTransactionStatus_def Let_def split: option.splits dest: session_id intro!: exI)

lemma rewritten_callback: "rewritten (cb_transaction_id d) w (snd (processCallback d w)) (cb_status d)"
  by (auto simp: rewritten_def processCallback_def Let_def split: option.splits dest: session_id intro!: exI)

lemma rewritten_ids:
  assumes "rewritten i w w' s"
  shows "map sx_id (se_txs w') = map sx_id (se_txs w)" "se_ids w' = se_ids w" "submissions j w' = submissions j w"
    "se_now w' = se_now w"
  using assms by (auto simp: rewritten_def simp del: write_fields(5) split: option.splits)

lemma rewritten_st:
  assumes "rewritten i w w' s"
  shows "st j w' = (if j = i then map_option (\<lambda>_. s) (st j w) else st j w)"
  using assms by (auto simp: rewritten_def st_def session_write split: option.splits)

section \<open>One payment\<close>

definition blocking :: "Sep24TransactionStatus \<Rightarrow> bool" where
  \<comment> \<open>\<^verbatim>\<open>fulfillDeposit\<close> submits nothing from here\<close>
  "blocking s \<longleftrightarrow> s \<in> {PendingStellar, SepCompleted, SepFailed, SepExpired}"

definition once :: "id \<Rightarrow> sep24 \<Rightarrow> bool" where
  "once i w \<longleftrightarrow> set (map sx_id (se_txs w)) \<subseteq> set (se_ids w) \<and> submissions i w \<le> 1 \<and>
     (0 < submissions i w \<longrightarrow> i \<in> set (se_ids w) \<and> (\<forall>s. st i w = Some s \<longrightarrow> blocking s))"

definition stays_blocking :: "id \<Rightarrow> Sep24TransactionStatus \<Rightarrow> sep24 \<Rightarrow> bool" where
  "stays_blocking i s w \<longleftrightarrow> (\<forall>r. st i w = Some r \<longrightarrow> blocking r \<longrightarrow> blocking s)"

lemma once_rewritten:
  assumes "once j w" "rewritten i w w' s" "stays_blocking i s w"
  shows "once j w'"
  using assms(1,3) rewritten_ids [OF assms(2)] rewritten_st [OF assms(2), of j]
  by (auto simp: once_def stays_blocking_def split: if_splits)

lemma once_same [simp]:
  "once j (w\<lparr>se_now := x\<rparr>) = once j w" "once j (w\<lparr>se_active := y\<rparr>) = once j w"
  "once j (w\<lparr>se_payers := p\<rparr>) = once j w" "once j (w\<lparr>se_renewals := q\<rparr>) = once j w"
  by (simp_all add: once_def st_def session_def submissions_def)

lemma blocking_expired: "stays_blocking i SepExpired w" "stays_blocking i SepCompleted w"
  by (simp_all add: stays_blocking_def blocking_def)

lemma once_look: "once j w \<Longrightarrow> once j (snd (getTransaction env i w))"
  by (auto simp: getTransaction_def split: option.splits intro: once_rewritten [OF _ rewritten_update blocking_expired(1)])

lemma once_fold:
  assumes "\<And>i w. once j w \<Longrightarrow> once j (f i w)" "once j w"
  shows "once j (fold f is w)"
  using assms(2) by (induction "is" arbitrary: w) (simp_all add: assms(1))

lemma once_sweep: "once j w \<Longrightarrow> once j (expireStaleInteractiveSessions env w)"
  unfolding expireStaleInteractiveSessions_def
  by (rule once_fold) (auto split: option.splits intro: once_rewritten [OF _ rewritten_update blocking_expired(1)])

lemma generate_shape:
  assumes "i \<notin> set (map sx_id (se_txs w))"
  shows "snd (generateInteractiveUrl env i kind r w) = w \<or>
    (se_active w (rq_account r) < MAX_ACTIVE_TRANSACTIONS_PER_ACCOUNT \<and>
     snd (generateInteractiveUrl env i kind r w) = w\<lparr>se_txs := se_txs w @ [new_session i kind r (se_now w)],
       se_active := (se_active w)(rq_account r := se_active w (rq_account r) + 1), se_effects := Saved (new_session i kind r (se_now w)) # se_effects w\<rparr>)"
proof -
  define t where "t = new_session i kind r (se_now w)"
  define url where "url = generateSignedSep24Url (ev_hmac env) (ev_secret env) (se_now w) (interactive_params (ev_domain env) i r)"
  have t: "sx_id t = i" by (simp add: t_def new_session_def)
  have gone: "filter (\<lambda>x. sx_id x \<noteq> i) (se_txs w) = se_txs w" using assms by (simp add: filter_id_conv, metis image_eqI)
  show ?thesis unfolding generateInteractiveUrl_def Let_def url_def [symmetric] t_def [symmetric]
    by (cases url; cases "MAX_ACTIVE_TRANSACTIONS_PER_ACCOUNT \<le> se_active w (rq_account r)")
      (simp_all add: t gone decrementActiveTransactionCount_def)
qed

lemma once_generate:
  assumes "once j w" "i \<notin> set (map sx_id (se_txs w))" "i \<in> set (se_ids w)" "submissions i w = 0"
  shows "once j (snd (generateInteractiveUrl env i kind r w))"
proof -
  from generate_shape [OF assms(2), of env kind r] show ?thesis
  proof
    assume "snd (generateInteractiveUrl env i kind r w) = w"
    with assms(1) show ?thesis by simp
  next
    assume "se_active w (rq_account r) < MAX_ACTIVE_TRANSACTIONS_PER_ACCOUNT \<and>
     snd (generateInteractiveUrl env i kind r w) = w\<lparr>se_txs := se_txs w @ [new_session i kind r (se_now w)],
       se_active := (se_active w)(rq_account r := se_active w (rq_account r) + 1), se_effects := Saved (new_session i kind r (se_now w)) # se_effects w\<rparr>"
    then have new: "snd (generateInteractiveUrl env i kind r w) = w\<lparr>se_txs := se_txs w @ [new_session i kind r (se_now w)],
       se_active := (se_active w)(rq_account r := se_active w (rq_account r) + 1), se_effects := Saved (new_session i kind r (se_now w)) # se_effects w\<rparr>" ..
    have "sx_id (new_session i kind r (se_now w)) = i" by (simp add: new_session_def)
    then show ?thesis unfolding new using assms(1,3,4)
      by (cases "j = i") (auto simp: once_def st_def session_def find_snoc submissions_def split: option.splits)
  qed
qed

lemma fulfil_shape:
  "snd (fulfillDeposit i w) = w \<or>
   (\<exists>r account amount memo. st i w = Some r \<and> \<not> blocking r \<and> (let w' = snd (updateTransactionStatus i PendingStellar None w) in
      snd (fulfillDeposit i w) = w'\<lparr>se_effects := PaymentSubmitted i account amount memo # se_effects w', se_payers := se_payers w' @ [Some i]\<rparr>))"
proof (cases "session i w")
  case (Some t)
  define w' where "w' = snd (updateTransactionStatus i PendingStellar None w)"
  show ?thesis
  proof (cases "blocking (sx_status t)")
    case False
    have "snd (fulfillDeposit i w) = w \<or> (\<exists>account amount memo. snd (fulfillDeposit i w) =
        w'\<lparr>se_effects := PaymentSubmitted i account amount memo # se_effects w', se_payers := se_payers w' @ [Some i]\<rparr>)"
      unfolding fulfillDeposit_def Some option.case Let_def w'_def [symmetric] by (simp split: option.split) blast
    with False Some show ?thesis unfolding st_def w'_def Let_def by auto
  qed (auto simp: fulfillDeposit_def Some blocking_def)
qed (simp add: fulfillDeposit_def)

lemma once_fulfil:
  assumes "once j w"
  shows "once j (snd (fulfillDeposit i w))"
proof (cases "snd (fulfillDeposit i w) = w")
  case False
  define w' where "w' = snd (updateTransactionStatus i PendingStellar None w)"
  from False obtain r account amount memo where f: "st i w = Some r" "\<not> blocking r"
    "snd (fulfillDeposit i w) = w'\<lparr>se_effects := PaymentSubmitted i account amount memo # se_effects w', se_payers := se_payers w' @ [Some i]\<rparr>"
    using fulfil_shape [of i w] by (auto simp: Let_def w'_def)
  note rw = rewritten_update [of i w PendingStellar None, folded w'_def]
  have "i \<in> set (map sx_id (se_txs w))" using f(1) by (auto simp: st_def dest: session_id)
  moreover have "submissions i w = 0" if "j = i" using assms f(1,2) that by (auto simp: once_def)
  moreover have "once j w'" using once_rewritten [OF assms rw] by (simp add: stays_blocking_def blocking_def)
  ultimately show ?thesis unfolding f(3) using rewritten_ids [OF rw] rewritten_st [OF rw, of i] f(1) assms
    by (auto simp: once_def submissions_def st_def session_def blocking_def)
qed (simp add: assms)

lemma fresh_session:
  assumes "\<forall>j. once j w" "i \<notin> set (se_ids w)"
  shows "i \<notin> set (map sx_id (se_txs w))" "submissions i w = 0"
  using assms by (auto simp: once_def)

lemma once_open:
  assumes "\<forall>j. once j w"
  shows "\<forall>j. once j (open_session env i kind request w)"
proof (cases "\<exists>r. request = Inr r \<and> i \<notin> set (se_ids w)")
  case True
  then obtain r where r: "request = Inr r" "i \<notin> set (se_ids w)" by blast
  have "once j (w\<lparr>se_ids := i # se_ids w\<rparr>)" for j
    using assms by (auto simp: once_def st_def session_def submissions_def)
  then show ?thesis using r fresh_session [OF assms r(2)]
    by (auto simp: open_session_def submissions_def intro!: once_generate)
qed (use assms in \<open>auto simp: open_session_def split: sum.splits\<close>)

lemma once_renew:
  assumes "\<forall>j. once j w" "i \<notin> set (se_ids w)"
  shows "once j (snd (renewInteractiveSession env k i (w\<lparr>se_ids := i # se_ids w\<rparr>)))"
proof -
  define v where "v = w\<lparr>se_ids := i # se_ids w\<rparr>"
  have v: "once j v" for j using assms(1) by (auto simp: v_def once_def st_def session_def submissions_def)
  have "once j (snd (generateInteractiveUrl env i kind r v))" for kind r
    using v fresh_session [OF assms] by (intro once_generate) (auto simp: v_def submissions_def)
  then have "once j v'" if "generateInteractiveUrl env i kind r v = (u, v')" for kind r u v'
    using that by (metis snd_conv)
  then show ?thesis using v unfolding v_def [symmetric]
    by (auto simp: renewInteractiveSession_def split: option.splits prod.splits sum.splits)
qed

lemma once_supersede: "once j w \<Longrightarrow> once j (supersede i k w)"
  by (auto simp: supersede_def split: option.splits intro: once_rewritten [OF _ rewritten_update blocking_expired(1)])

lemma once_amend:
  assumes "once j w" "\<And>t. sx_id (f t) = sx_id t \<and> sx_status (f t) = sx_status t"
  shows "once j (amend_session i f w)"
proof -
  have "st k (amend_session i f w) = st k w" for k
    unfolding st_def session_def amend_session_def
    by (subst find_key_update | simp add: assms(2) option.map_comp comp_def)+
  moreover have "map sx_id (se_txs (amend_session i f w)) = map sx_id (se_txs w)"
    by (simp add: map_sql_update assms(2) amend_session_def)
  then have "set (map sx_id (se_txs (amend_session i f w))) = set (map sx_id (se_txs w))" by (rule arg_cong)
  ultimately show ?thesis using assms(1) by (simp add: once_def submissions_def amend_session_def del: set_map)
qed

lemma once_persist: "once j (persistTransaction i w) = once j w"
  by (auto simp: persistTransaction_def once_def st_def session_def submissions_def split: option.splits)

lemma once_answer: "once j w \<Longrightarrow> once j (payment_answered i a w)"
  unfolding payment_answered_def once_persist
  by (auto split: option.splits intro!: once_rewritten [OF _ rewritten_update blocking_expired(2)] once_amend)

text \<open>Schedules on which no caller moves a session out of the statuses that block a payment.\<close>

fun blocking_kept :: "sep24_env \<Rightarrow> sep24_act \<Rightarrow> sep24 \<Rightarrow> bool" where
  "blocking_kept env (PutStatus i s _) w = (case st i w of Some r \<Rightarrow> blocking r \<longrightarrow> blocking s | None \<Rightarrow> True)"
| "blocking_kept env (PostCallback d) w = (case st (cb_transaction_id d) w of Some r \<Rightarrow> blocking r \<longrightarrow> blocking (cb_status d) | None \<Rightarrow> True)"
| "blocking_kept env (Popup i _) w = (case st i (snd (getTransaction env i w)) of Some r \<Rightarrow> \<not> blocking r | None \<Rightarrow> True)"
| "blocking_kept env _ w = True"

fun blocking_keeping :: "sep24_env \<Rightarrow> sep24_act list \<Rightarrow> sep24 \<Rightarrow> bool" where
  "blocking_keeping env [] w = True"
| "blocking_keeping env (a # acts) w = (blocking_kept env a w \<and> blocking_keeping env acts (sep24_step env a w))"

lemma once_popup:
  assumes "once j w" "blocking_kept env (Popup i s) w"
  shows "once j (interactive_callback env i s w)"
proof -
  have v: "once j (snd (getTransaction env i w))" by (rule once_look [OF assms(1)])
  have "stays_blocking i x (snd (getTransaction env i w))" for x
    using assms(2) by (auto simp: stays_blocking_def split: option.splits)
  then have "once j (snd (updateTransactionStatus i x None (snd (getTransaction env i w))))" for x
    by (rule once_rewritten [OF v rewritten_update])
  then show ?thesis using v by (auto simp: interactive_callback_def split: prod.splits option.splits)
qed

lemma once_step:
  assumes "\<forall>j. once j w" "blocking_kept env a w"
  shows "\<forall>j. once j (sep24_step env a w)"
proof
  fix j
  note w = assms(1) [THEN spec, of j]
  show "once j (sep24_step env a w)"
  proof (cases a)
    case (OpenDeposit i b) then show ?thesis using once_open [OF assms(1)] by (simp add: sep24_step_def)
  next
    case (OpenWithdrawal i r) then show ?thesis using once_open [OF assms(1)] by (simp add: sep24_step_def)
  next
    case (Renew i k) then show ?thesis using once_renew [OF assms(1), of k] w by (simp add: sep24_step_def)
  next
    case (RenewRest k) then show ?thesis using w
      by (auto simp: sep24_step_def split: option.splits intro!: once_supersede)
  next
    case (PutStatus i s m)
    then show ?thesis using once_rewritten [OF w rewritten_update, of i s] assms(2)
      by (simp add: sep24_step_def stays_blocking_def split: option.splits)
  next
    case (PostCallback d)
    then show ?thesis using once_rewritten [OF w rewritten_callback, of d] assms(2)
      by (simp add: sep24_step_def stays_blocking_def split: option.splits)
  next
    case (Popup i s) then show ?thesis using once_popup [OF w] assms(2) by (simp add: sep24_step_def)
  next
    case (PaymentAnswer k x) then show ?thesis using w
      by (auto simp: sep24_step_def split: option.splits intro!: once_answer)
  next
    case Restart then show ?thesis using w
      by (auto simp: sep24_step_def once_def st_def session_def submissions_def)
  qed (use w in \<open>auto simp: sep24_step_def once_look once_sweep once_fulfil\<close>)
qed

lemma once_run: "\<forall>j. once j w \<Longrightarrow> blocking_keeping env acts w \<Longrightarrow> once j (sep24_run env acts w)"
proof (induction acts arbitrary: w)
  case (Cons a acts)
  have "\<forall>j. once j (sep24_step env a w)" using Cons.prems by (intro once_step) auto
  from Cons.IH [OF this] Cons.prems show ?case by (simp add: sep24_run_def)
qed (simp add: sep24_run_def)

lemma once_start: "\<forall>j. once j sep24_start"
  by (simp add: once_def sep24_start_def st_def session_def submissions_def)

text \<open>
  C19. Each deposit is sent to the network at most once, however often its fulfilment is started,
  however openings, sweeps, renewals, answers and restarts interleave, and whether payments succeed or
  throw, as long as no caller moves a session out of a status that blocks the payment.
\<close>

theorem deposit_paid_once:
  assumes "blocking_keeping env acts sep24_start"
  shows "submissions i (sep24_run env acts sep24_start) \<le> 1"
  using once_run [OF once_start assms, of i] by (simp add: once_def)

lemma open_deposit_step:
  assumes "initiateDeposit (ev_text env) (ev_isValidKey env) b = Inr r" "ev_secret env = Some key" "i \<notin> set (se_ids w)"
    and "se_active w (rq_account r) < MAX_ACTIVE_TRANSACTIONS_PER_ACCOUNT"
  shows "sep24_step env (OpenDeposit i b) w = w\<lparr>se_txs := se_txs w @ [new_session i DepositSession r (se_now w)],
    se_active := (se_active w)(rq_account r := se_active w (rq_account r) + 1),
    se_effects := Saved (new_session i DepositSession r (se_now w)) # se_effects w, se_ids := i # se_ids w\<rparr>"
  using assms by (simp add: sep24_step_def open_session_def generateInteractiveUrl_def generateSignedSep24Url_def Let_def)

definition demo_sep24 :: sep24_env where
  "demo_sep24 = \<lparr>ev_hmac = (\<lambda>k s. k @ s), ev_secret = Some ''a'', ev_domain = ''d'', ev_text = (\<lambda>_. []), ev_isValidKey = (\<lambda>_. True), ev_minutes = 15\<rparr>"

lemma demo_open:
  assumes "i \<notin> set (se_ids w)" "se_active w ''G'' < 5"
  shows "sep24_step demo_sep24 (OpenDeposit i demo_body) w = w\<lparr>se_txs := se_txs w @ [new_session i DepositSession demo_request (se_now w)],
    se_active := (se_active w)(''G'' := se_active w ''G'' + 1),
    se_effects := Saved (new_session i DepositSession demo_request (se_now w)) # se_effects w, se_ids := i # se_ids w\<rparr>"
  using open_deposit_step [of demo_sep24 demo_body demo_request "''a''" i w] demo_accepted assms
  by (simp add: demo_sep24_def demo_request_def MAX_ACTIVE_TRANSACTIONS_PER_ACCOUNT_def)

theorem deposit_paid_once_witness:
  "submissions ''i'' (sep24_run demo_sep24 [OpenDeposit ''i'' demo_body, PutStatus ''i'' PendingExternal None, Fulfil ''i'', Sweep, Fulfil ''i'',
     PaymentAnswer 0 (Some (Some ''h'')), Fulfil ''i''] sep24_start) \<le> 1"
  by (rule deposit_paid_once)
    (simp add: demo_open sep24_start_def st_def session_def new_session_def blocking_def)

section \<open>The limit of open sessions\<close>

definition open_count :: "string \<Rightarrow> sep24 \<Rightarrow> nat" where
  "open_count a w = length (filter (\<lambda>t. sx_account t = a \<and> \<not> terminal (sx_status t)) (se_txs w))"

definition balanced :: "sep24 \<Rightarrow> bool" where
  "balanced w \<longleftrightarrow> distinct (map sx_id (se_txs w)) \<and> set (map sx_id (se_txs w)) \<subseteq> set (se_ids w) \<and>
     (\<forall>a. se_active w a = open_count a w \<and> open_count a w \<le> MAX_ACTIVE_TRANSACTIONS_PER_ACCOUNT)"

definition ended :: "id \<Rightarrow> sep24 \<Rightarrow> bool" where
  "ended i w \<longleftrightarrow> (case st i w of Some s \<Rightarrow> terminal s | None \<Rightarrow> False)"

lemma open_count_sum: "int (open_count a w) = sum_list (map (\<lambda>t. if sx_account t = a \<and> \<not> terminal (sx_status t) then 1 else 0) (se_txs w))"
proof -
  have "int (length (filter P ts)) = sum_list (map (\<lambda>t. if P t then 1 else 0) ts)" for P and ts :: "Sep24Transaction list"
    by (induction ts) auto
  then show ?thesis unfolding open_count_def .
qed

lemma open_count_write:
  assumes "distinct (map sx_id (se_txs w))" "session (sx_id t) w = Some x" "sx_account t = sx_account x" "\<not> terminal (sx_status x)"
  shows "open_count a (write_session b t w) = (if a = sx_account t \<and> terminal (sx_status t) then open_count a w - 1 else open_count a w)"
    and "a = sx_account t \<Longrightarrow> 0 < open_count a w"
proof -
  have x: "x \<in> set (se_txs w)" "sx_id x = sx_id t" using session_id [OF assms(2)] by simp_all
  show pos: "0 < open_count a w" if "a = sx_account t" for a
    using x(1) assms(3,4) that by (auto simp: open_count_def filter_empty_conv)
  have "int (open_count a (write_session b t w)) = int (open_count a w) -
      (if sx_account x = a \<and> \<not> terminal (sx_status x) then 1 else 0) + (if sx_account t = a \<and> \<not> terminal (sx_status t) then 1 else 0)"
    unfolding open_count_sum write_fields x(2) [symmetric] by (rule sum_sql_update [OF assms(1) x(1)])
  then show "open_count a (write_session b t w) = (if a = sx_account t \<and> terminal (sx_status t) then open_count a w - 1 else open_count a w)"
    using assms(3,4) pos [of a] by (auto split: if_splits)
qed

lemma balanced_rewritten:
  assumes "balanced w" "rewritten i w w' s" "\<not> ended i w"
  shows "balanced w'"
proof (cases "session i w")
  case None
  with assms(1,2) show ?thesis by (simp add: rewritten_def)
next
  case (Some x)
  then obtain b t where t: "w' = write_session b t w" "sx_id t = i" "sx_account t = sx_account x"
    using assms(2) by (auto simp: rewritten_def)
  have "\<not> terminal (sx_status x)" using assms(3) Some by (simp add: ended_def st_def)
  note c = open_count_write [OF _ _ t(3) this]
  have d: "distinct (map sx_id (se_txs w))" "session (sx_id t) w = Some x" using assms(1) Some t(2) by (simp_all add: balanced_def)
  have "se_active w' a = open_count a w' \<and> open_count a w' \<le> MAX_ACTIVE_TRANSACTIONS_PER_ACCOUNT" for a
    using c(1) [OF d] c(2) [OF d] assms(1) unfolding t(1) balanced_def
    by (auto simp: le_diff_conv intro: le_SucI)
  then show ?thesis using assms(1) rewritten_ids(1,2) [OF assms(2)] unfolding balanced_def
    by (metis (no_types, lifting))
qed

lemma balanced_generate:
  assumes "balanced w" "i \<notin> set (map sx_id (se_txs w))" "i \<in> set (se_ids w)"
  shows "balanced (snd (generateInteractiveUrl env i kind r w))"
  using generate_shape [OF assms(2), of env kind r]
proof
  assume new: "se_active w (rq_account r) < MAX_ACTIVE_TRANSACTIONS_PER_ACCOUNT \<and>
     snd (generateInteractiveUrl env i kind r w) = w\<lparr>se_txs := se_txs w @ [new_session i kind r (se_now w)],
       se_active := (se_active w)(rq_account r := se_active w (rq_account r) + 1), se_effects := Saved (new_session i kind r (se_now w)) # se_effects w\<rparr>"
  have t: "sx_id (new_session i kind r now) = i" "sx_account (new_session i kind r now) = rq_account r"
    "sx_status (new_session i kind r now) = PendingUserTransferStart" for now by (simp_all add: new_session_def)
  show ?thesis unfolding new [THEN conjunct2] using assms new [THEN conjunct1]
    by (auto simp: balanced_def open_count_def t terminal_def)
qed (simp add: assms(1))

lemma balanced_same [simp]:
  "balanced (w\<lparr>se_now := x\<rparr>) = balanced w" "balanced (w\<lparr>se_payers := p\<rparr>) = balanced w" "balanced (w\<lparr>se_renewals := q\<rparr>) = balanced w"
  "balanced (w\<lparr>se_effects := e\<rparr>) = balanced w"
  by (simp_all add: balanced_def open_count_def)

lemma balanced_look: "balanced w \<Longrightarrow> balanced (snd (getTransaction env i w))"
  by (auto simp: getTransaction_def isInteractiveSessionExpired_def EXPIRABLE_STATUSES_def ended_def st_def terminal_def
      split: option.splits intro!: balanced_rewritten [OF _ rewritten_update])

lemma balanced_sweep: "balanced w \<Longrightarrow> balanced (expireStaleInteractiveSessions env w)"
proof -
  let ?f = "\<lambda>i w. case session i w of
         Some t \<Rightarrow> if isInteractiveSessionExpired env (se_now w) t
             then snd (updateTransactionStatus i SepExpired (Some SessionExpired) w) else w
       | None \<Rightarrow> w"
  have "balanced (?f i w)" if "balanced w" for i w
    using balanced_look [OF that, of env i] that by (auto simp: getTransaction_def split: option.splits)
  then have "balanced w \<Longrightarrow> balanced (fold ?f is w)" for "is" by (induction "is" arbitrary: w) simp_all
  then show "balanced w \<Longrightarrow> ?thesis" unfolding expireStaleInteractiveSessions_def .
qed

lemma balanced_ids: "balanced w \<Longrightarrow> balanced (w\<lparr>se_ids := i # se_ids w\<rparr>)"
  by (auto simp: balanced_def open_count_def)

lemma balanced_fresh:
  assumes "balanced w" "i \<notin> set (se_ids w)"
  shows "balanced (snd (generateInteractiveUrl env i kind r (w\<lparr>se_ids := i # se_ids w\<rparr>)))"
  by (rule balanced_generate [OF balanced_ids [OF assms(1)]]) (use assms in \<open>auto simp: balanced_def\<close>)

lemma balanced_open: "balanced w \<Longrightarrow> balanced (open_session env i kind request w)"
  by (auto simp: open_session_def balanced_fresh split: sum.splits)

lemma balanced_renew:
  assumes "balanced w" "i \<notin> set (se_ids w)"
  shows "balanced (snd (renewInteractiveSession env k i (w\<lparr>se_ids := i # se_ids w\<rparr>)))"
proof -
  have "balanced v'" if "generateInteractiveUrl env i kind r (w\<lparr>se_ids := i # se_ids w\<rparr>) = (u, v')" for kind r u v'
    using balanced_fresh [OF assms, of env kind r] that by simp
  then show ?thesis using balanced_ids [OF assms(1), of i]
    by (auto simp: renewInteractiveSession_def split: option.splits prod.splits sum.splits)
qed

lemma amend_same:
  assumes "\<And>t. sx_id (f t) = sx_id t \<and> sx_status (f t) = sx_status t \<and> sx_account (f t) = sx_account t"
  shows "balanced (amend_session i f w) = balanced w" "st j (amend_session i f w) = st j w"
proof -
  have "length (filter (\<lambda>t. sx_account t = a \<and> \<not> terminal (sx_status t)) (sql_update (\<lambda>t. sx_id t = i) f ts)) =
      length (filter (\<lambda>t. sx_account t = a \<and> \<not> terminal (sx_status t)) ts)" for a ts
    by (induction ts) (auto simp: sql_update_def assms)
  then have "open_count a (amend_session i f w) = open_count a w" for a by (simp add: open_count_def amend_session_def)
  moreover have "map sx_id (se_txs (amend_session i f w)) = map sx_id (se_txs w)"
    by (simp add: map_sql_update assms amend_session_def)
  moreover have "se_ids (amend_session i f w) = se_ids w" "se_active (amend_session i f w) = se_active w"
    by (simp_all add: amend_session_def)
  ultimately show "balanced (amend_session i f w) = balanced w" by (simp add: balanced_def del: set_map)
  show "st j (amend_session i f w) = st j w"
    unfolding st_def session_def amend_session_def
    by (subst find_key_update | simp add: assms option.map_comp comp_def)+
qed

lemma balanced_persist: "balanced (persistTransaction i w) = balanced w"
  by (simp add: persistTransaction_def split: option.splits)

text \<open>Schedules on which nobody writes the status of a session that has ended.\<close>

fun tidy :: "sep24_env \<Rightarrow> sep24_act \<Rightarrow> sep24 \<Rightarrow> bool" where
  "tidy env (PutStatus i _ _) w = (\<not> ended i w)"
| "tidy env (PostCallback d) w = (\<not> ended (cb_transaction_id d) w)"
| "tidy env (Popup i _) w = (\<not> ended i (snd (getTransaction env i w)))"
| "tidy env (RenewRest k) w = (if k < length (se_renewals w) then
     (case se_renewals w ! k of Some (i, _) \<Rightarrow> \<not> ended i w \<or> st i w = Some SepExpired | None \<Rightarrow> True) else True)"
| "tidy env (PaymentAnswer k _) w = (if k < length (se_payers w) then
     (case se_payers w ! k of Some i \<Rightarrow> \<not> ended i w | None \<Rightarrow> True) else True)"
| "tidy env _ w = True"

fun tidy_run :: "sep24_env \<Rightarrow> sep24_act list \<Rightarrow> sep24 \<Rightarrow> bool" where
  "tidy_run env [] w = True"
| "tidy_run env (a # acts) w = (tidy env a w \<and> tidy_run env acts (sep24_step env a w))"

lemma st_same [simp]: "st i (w\<lparr>se_renewals := q\<rparr>) = st i w" "st i (w\<lparr>se_payers := p\<rparr>) = st i w"
  by (simp_all add: st_def session_def)

lemma balanced_supersede:
  assumes "balanced w" "\<not> ended i w \<or> st i w = Some SepExpired"
  shows "balanced (supersede i k w)"
  using assms by (auto simp: supersede_def st_def split: option.splits intro: balanced_rewritten [OF _ rewritten_update])

lemma balanced_answer:
  assumes "balanced w" "\<not> ended i w"
  shows "balanced (payment_answered i a w)"
  unfolding payment_answered_def balanced_persist using assms
  by (auto simp: amend_same ended_def split: option.splits intro!: balanced_rewritten [OF _ rewritten_update])

lemma balanced_fulfil:
  assumes "balanced w"
  shows "balanced (snd (fulfillDeposit i w))"
proof (cases "snd (fulfillDeposit i w) = w")
  case False
  then obtain r account amount memo where f: "st i w = Some r" "\<not> blocking r"
    "snd (fulfillDeposit i w) = (let w' = snd (updateTransactionStatus i PendingStellar None w) in
       w'\<lparr>se_effects := PaymentSubmitted i account amount memo # se_effects w', se_payers := se_payers w' @ [Some i]\<rparr>)"
    using fulfil_shape [of i w] by (auto simp: Let_def)
  then have "\<not> ended i w" by (auto simp: ended_def terminal_def blocking_def)
  from balanced_rewritten [OF assms rewritten_update this] show ?thesis unfolding f(3) Let_def balanced_same .
qed (simp add: assms)

lemma balanced_popup:
  assumes "balanced w" "tidy env (Popup i s) w"
  shows "balanced (interactive_callback env i s w)"
proof -
  define v where "v = snd (getTransaction env i w)"
  have v: "balanced v" "\<not> ended i v" using balanced_look [OF assms(1)] assms(2) by (simp_all add: v_def)
  from balanced_rewritten [OF v(1) rewritten_update v(2)]
  have "balanced (snd (updateTransactionStatus i x None v))" for x .
  then show ?thesis using v(1) unfolding v_def by (auto simp: interactive_callback_def split: prod.splits option.splits)
qed

lemma balanced_step:
  assumes "balanced w" "tidy env a w"
  shows "balanced (sep24_step env a w)"
proof (cases a)
  case (RenewRest k)
  then show ?thesis using assms by (auto simp: sep24_step_def ended_def split: option.splits if_splits intro!: balanced_supersede)
next
  case (PaymentAnswer k x)
  then show ?thesis using assms by (auto simp: sep24_step_def ended_def split: option.splits if_splits intro!: balanced_answer)
next
  case (Popup i s)
  then show ?thesis using balanced_popup [OF assms(1)] assms(2) by (simp add: sep24_step_def)
next
  case Restart
  then show ?thesis by (simp add: sep24_step_def balanced_def open_count_def)
qed (use assms balanced_rewritten [OF assms(1) rewritten_update] balanced_rewritten [OF assms(1) rewritten_callback] in
  \<open>simp_all add: sep24_step_def balanced_open balanced_look balanced_sweep balanced_renew balanced_fulfil\<close>)

lemma balanced_run: "balanced w \<Longrightarrow> tidy_run env acts w \<Longrightarrow> balanced (sep24_run env acts w)"
proof (induction acts arbitrary: w)
  case (Cons a acts)
  have "balanced (sep24_step env a w)" using Cons.prems by (intro balanced_step) auto
  from Cons.IH [OF this] Cons.prems show ?case by (simp add: sep24_run_def)
qed (simp add: sep24_run_def)

lemma balanced_start: "balanced sep24_start"
  by (simp add: balanced_def sep24_start_def open_count_def)

text \<open>
  C20. The counter of each account is the number of its open sessions and never exceeds five, however
  openings, expiries, renewals, payments, callbacks and restarts interleave, as long as nobody writes
  the status of a session that has ended.
\<close>

theorem session_limit:
  assumes "tidy_run env acts sep24_start"
  shows "se_active (sep24_run env acts sep24_start) a = open_count a (sep24_run env acts sep24_start) \<and>
    open_count a (sep24_run env acts sep24_start) \<le> MAX_ACTIVE_TRANSACTIONS_PER_ACCOUNT"
  using balanced_run [OF balanced_start assms] by (simp add: balanced_def)

theorem session_limit_witness:
  "se_active (sep24_run demo_sep24 [OpenDeposit ''i'' demo_body, OpenDeposit ''j'' demo_body, PutStatus ''i'' SepFailed None, Sweep,
     Fulfil ''j'', Fulfil ''i''] sep24_start) ''G'' =
   open_count ''G'' (sep24_run demo_sep24 [OpenDeposit ''i'' demo_body, OpenDeposit ''j'' demo_body, PutStatus ''i'' SepFailed None, Sweep,
     Fulfil ''j'', Fulfil ''i''] sep24_start)"
  by (rule conjunct1 [OF session_limit])
    (simp add: demo_open sep24_start_def ended_def st_def session_def new_session_def terminal_def)

section \<open>What unchecked writes allow\<close>

definition evading :: "(nat \<Rightarrow> id) \<Rightarrow> deposit_body \<Rightarrow> nat \<Rightarrow> sep24_act list" where
  \<comment> \<open>one session is reported as failed after every opening\<close>
  "evading ids b n = OpenDeposit (ids 0) b # PutStatus (ids 0) SepFailed None #
     concat (map (\<lambda>k. [OpenDeposit (ids (Suc k)) b, PutStatus (ids 0) SepFailed None]) [0..<n])"

definition worn :: "(nat \<Rightarrow> id) \<Rightarrow> string \<Rightarrow> nat \<Rightarrow> sep24 \<Rightarrow> bool" where
  "worn ids a n w \<longleftrightarrow> open_count a w = n \<and> se_active w a = 0 \<and> set (se_ids w) = ids ` {0..n} \<and> se_txs w \<noteq> [] \<and>
     sx_id (hd (se_txs w)) = ids 0 \<and> sx_account (hd (se_txs w)) = a \<and> sx_status (hd (se_txs w)) = SepFailed \<and>
     ids 0 \<notin> sx_id ` set (tl (se_txs w))"

lemma put_first:
  assumes "se_txs w = t # ts" "sx_id t = i" "i \<notin> sx_id ` set ts"
  shows "\<exists>t'. se_txs (snd (updateTransactionStatus i s m w)) = t' # ts \<and> sx_id t' = i \<and> sx_account t' = sx_account t \<and> sx_status t' = s"
    and "terminal s \<Longrightarrow> se_active (snd (updateTransactionStatus i s m w)) = (se_active w)(sx_account t := se_active w (sx_account t) - 1)"
    and "se_ids (snd (updateTransactionStatus i s m w)) = se_ids w"
proof -
  have "sql_update (\<lambda>x. sx_id x = i) f ts = ts" for f using assms(3) by (intro sql_update_id) auto
  moreover have "session i w = Some t" using assms by (simp add: session_def)
  ultimately show "\<exists>t'. se_txs (snd (updateTransactionStatus i s m w)) = t' # ts \<and> sx_id t' = i \<and> sx_account t' = sx_account t \<and> sx_status t' = s"
    "terminal s \<Longrightarrow> se_active (snd (updateTransactionStatus i s m w)) = (se_active w)(sx_account t := se_active w (sx_account t) - 1)"
    "se_ids (snd (updateTransactionStatus i s m w)) = se_ids w"
    using assms(1,2) by (simp_all add: updateTransactionStatus_def Let_def sql_update_def)
qed

lemma worn_step:
  assumes "initiateDeposit (ev_text env) (ev_isValidKey env) b = Inr r" "ev_secret env = Some key" "inj ids" "worn ids (rq_account r) n w"
  shows "worn ids (rq_account r) (Suc n) (sep24_step env (PutStatus (ids 0) SepFailed None) (sep24_step env (OpenDeposit (ids (Suc n)) b) w))"
proof -
  obtain t ts where t: "se_txs w = t # ts" using assms(4) by (cases "se_txs w") (auto simp: worn_def)
  have fresh: "ids (Suc n) \<notin> set (se_ids w)" "ids (Suc n) \<noteq> ids 0"
    using assms(3,4) by (simp_all add: worn_def inj_image_mem_iff inj_eq)
  define t' where "t' = new_session (ids (Suc n)) DepositSession r (se_now w)"
  have t': "sx_id t' = ids (Suc n)" "sx_account t' = rq_account r" "sx_status t' = PendingUserTransferStart"
    by (simp_all add: t'_def new_session_def)
  have opened: "sep24_step env (OpenDeposit (ids (Suc n)) b) w = w\<lparr>se_txs := t # ts @ [t'], se_active := (se_active w)(rq_account r := 1),
      se_effects := Saved t' # se_effects w, se_ids := ids (Suc n) # se_ids w\<rparr>" (is "_ = ?v")
    using open_deposit_step [OF assms(1,2) fresh(1)] assms(4) by (simp add: worn_def MAX_ACTIVE_TRANSACTIONS_PER_ACCOUNT_def t t'_def)
  have first: "se_txs ?v = t # ts @ [t']" "sx_id t = ids 0" "ids 0 \<notin> sx_id ` set (ts @ [t'])"
    using assms(4) t t'(1) fresh(2) by (auto simp: worn_def)
  define v' where "v' = snd (updateTransactionStatus (ids 0) SepFailed None ?v)"
  obtain t0 where t0: "se_txs v' = t0 # ts @ [t']" "sx_id t0 = ids 0" "sx_account t0 = sx_account t" "sx_status t0 = SepFailed"
    using put_first(1) [OF first, of SepFailed None] unfolding v'_def by blast
  have "se_active v' = (se_active ?v)(sx_account t := se_active ?v (sx_account t) - 1)" "se_ids v' = se_ids ?v"
    using put_first(2,3) [OF first, of SepFailed None] unfolding v'_def by (simp_all add: terminal_def)
  moreover have "{0..Suc n} = insert (Suc n) {0..n}" by auto
  moreover have "sx_status t = SepFailed" "sx_account t = rq_account r" using assms(4) by (simp_all add: worn_def t)
  moreover have "open_count (rq_account r) w = n" using assms(4) by (simp add: worn_def)
  ultimately have "worn ids (rq_account r) (Suc n) v'"
    using assms(4) t0 t' first(3) by (simp add: worn_def open_count_def t terminal_def)
  then show ?thesis unfolding opened v'_def by (simp add: sep24_step_def)
qed

lemma sep24_run_append: "sep24_run env (acts @ acts') w = sep24_run env acts' (sep24_run env acts w)"
  by (simp add: sep24_run_def)

text \<open>
  The limit of five open sessions holds nobody back: whoever reports one session of an account as
  failed again after each opening has as many open sessions of the account as desired.
\<close>

theorem limit_evaded:
  assumes "initiateDeposit (ev_text env) (ev_isValidKey env) b = Inr r" "ev_secret env = Some key" "inj ids"
  shows "open_count (rq_account r) (sep24_run env (evading ids b n) sep24_start) = n"
proof -
  have "worn ids (rq_account r) n (sep24_run env (evading ids b n) sep24_start)"
  proof (induction n)
    case 0
    have "sep24_step env (OpenDeposit (ids 0) b) sep24_start = sep24_start\<lparr>se_txs := [new_session (ids 0) DepositSession r 0],
        se_active := (\<lambda>_. 0)(rq_account r := 1), se_effects := [Saved (new_session (ids 0) DepositSession r 0)], se_ids := [ids 0]\<rparr>"
      using open_deposit_step [OF assms(1,2), of "ids 0" sep24_start] by (simp add: sep24_start_def MAX_ACTIVE_TRANSACTIONS_PER_ACCOUNT_def)
    then show ?case by (simp add: evading_def sep24_run_def sep24_step_def updateTransactionStatus_def session_def new_session_def
        worn_def open_count_def sql_update_def terminal_def Let_def)
  next
    case (Suc n)
    from worn_step [OF assms Suc] show ?case by (simp add: evading_def sep24_run_def)
  qed
  then show ?thesis by (simp add: worn_def)
qed

theorem limit_evaded_witness:
  "open_count ''G'' (sep24_run demo_sep24 (evading (\<lambda>n. replicate n CHR ''x'') demo_body 40) sep24_start) = 40"
  using limit_evaded [of demo_sep24 demo_body demo_request "''a''" "\<lambda>n. replicate n CHR ''x''" 40] demo_accepted
  by (simp add: demo_sep24_def inj_def demo_request_def)

text \<open>
  A deposit that has been paid is paid again once a caller has written any status that does not block it.
\<close>

definition payable :: "id \<Rightarrow> sep24 \<Rightarrow> bool" where
  "payable i w \<longleftrightarrow> (\<exists>t amount. session i w = Some t \<and> sx_kind t = DepositSession \<and> sx_account t \<noteq> [] \<and> sx_amount_out t = Some amount \<and>
     amount \<noteq> [] \<and> sx_memo t = None)"

lemma payable_update: "payable i w \<Longrightarrow> payable i (snd (updateTransactionStatus j s m w))"
proof (cases "session j w")
  case (Some t)
  then have "sx_id t = j" by (simp add: session_id)
  with Some show "payable i w \<Longrightarrow> ?thesis"
    by (cases "i = j") (auto simp: payable_def updateTransactionStatus_def Let_def session_write)
qed (simp add: updateTransactionStatus_def)

lemma payable_same [simp]: "payable i (w\<lparr>se_effects := e, se_payers := p\<rparr>) = payable i w" "payable i (w\<lparr>se_payers := p\<rparr>) = payable i w"
  "payable i (w\<lparr>se_effects := e\<rparr>) = payable i w"
  by (simp_all add: payable_def session_def)

lemma fulfil_payable:
  assumes "payable i w" "st i w = Some r" "\<not> blocking r"
  shows "submissions i (snd (fulfillDeposit i w)) = Suc (submissions i w)" "payable i (snd (fulfillDeposit i w))"
    "se_payers (snd (fulfillDeposit i w)) = se_payers w @ [Some i]"
proof -
  define w' where "w' = snd (updateTransactionStatus i PendingStellar None w)"
  note rw = rewritten_update [of i w PendingStellar None, folded w'_def]
  have p: "se_payers w' = se_payers w" using rw by (auto simp: rewritten_def split: option.splits)
  obtain t amount where t: "session i w = Some t" "sx_kind t = DepositSession" "sx_account t \<noteq> []" "sx_amount_out t = Some amount"
    "amount \<noteq> []" "sx_memo t = None" using assms(1) by (auto simp: payable_def)
  have "sx_status t = r" using assms(2) t(1) by (simp add: st_def)
  with t assms(3) have f: "snd (fulfillDeposit i w) =
      w'\<lparr>se_effects := PaymentSubmitted i (sx_account t) amount None # se_effects w', se_payers := se_payers w' @ [Some i]\<rparr>"
    unfolding fulfillDeposit_def Let_def w'_def [symmetric] by (simp add: blocking_def)
  show "submissions i (snd (fulfillDeposit i w)) = Suc (submissions i w)"
    unfolding f using rewritten_ids(3) [OF rw, of i] by (simp add: submissions_def)
  show "payable i (snd (fulfillDeposit i w))" unfolding f payable_same w'_def by (rule payable_update [OF assms(1)])
  show "se_payers (snd (fulfillDeposit i w)) = se_payers w @ [Some i]" unfolding f by (simp add: p)
qed

lemma payable_amend:
  assumes "payable i w" "\<And>t. sx_id (f t) = sx_id t \<and> sx_kind (f t) = sx_kind t \<and> sx_account (f t) = sx_account t \<and>
    sx_amount_out (f t) = sx_amount_out t \<and> sx_memo (f t) = sx_memo t"
  shows "payable i (amend_session j f w)"
proof -
  have "session i (amend_session j f w) = (if i = j then map_option f (session j w) else session i w)"
    unfolding session_def amend_session_def by (simp add: find_key_update assms(2))
  then show ?thesis using assms by (auto simp: payable_def)
qed

lemma answer_submissions: "submissions i (payment_answered j a w) = submissions i w"
proof -
  have "submissions i (persistTransaction j w) = submissions i w" "submissions i (amend_session j f w) = submissions i w" for f w
    by (simp_all add: submissions_def persistTransaction_def amend_session_def split: option.splits)
  then show ?thesis using rewritten_ids(3) [OF rewritten_update] by (simp add: payment_answered_def split: option.splits)
qed

lemma answer_payable: "payable i w \<Longrightarrow> payable i (payment_answered j a w)"
proof -
  have "payable i (persistTransaction j w) = payable i w" for w by (simp add: persistTransaction_def split: option.splits)
  then show "payable i w \<Longrightarrow> ?thesis" by (auto simp: payment_answered_def split: option.splits intro!: payable_update payable_amend)
qed

theorem reopened_deposit_pays_twice:
  assumes "payable i w" "st i w = Some r" "\<not> blocking r"
  shows "submissions i (sep24_run env [Fulfil i, PaymentAnswer (length (se_payers w)) (Some hash), PutStatus i PendingExternal None, Fulfil i] w) =
    submissions i w + 2"
proof -
  define k where "k = length (se_payers w)"
  define u where "u = snd (fulfillDeposit i w)"
  note u = fulfil_payable [OF assms, folded u_def]
  define v where "v = payment_answered i (Some hash) (u\<lparr>se_payers := (se_payers u)[k := None]\<rparr>)"
  define x where "x = snd (updateTransactionStatus i PendingExternal None v)"
  note reopen = rewritten_update [of i v PendingExternal None, folded x_def]
  have "payable i v" unfolding v_def using u(2) by (intro answer_payable) simp
  then have x: "payable i x" "st i x = Some PendingExternal"
    using rewritten_st [OF reopen, of i] by (auto simp: x_def payable_update) (auto simp: payable_def st_def)
  have "submissions i x = Suc (submissions i w)"
    using rewritten_ids(3) [OF reopen, of i] answer_submissions [of i i "Some hash"] u(1)
    by (simp add: x_def v_def) (simp add: submissions_def)
  moreover have "sep24_run env [Fulfil i, PaymentAnswer k (Some hash), PutStatus i PendingExternal None, Fulfil i] w = snd (fulfillDeposit i x)"
    using u(3) by (simp add: sep24_run_def sep24_step_def k_def nth_append flip: u_def) (simp add: x_def v_def k_def)
  ultimately show ?thesis using fulfil_payable(1) [OF x] by (simp add: k_def blocking_def)
qed

theorem reopened_deposit_pays_twice_witness:
  "let w = sep24_start\<lparr>se_txs := [(new_session ''i'' DepositSession (demo_request\<lparr>rq_memo := None\<rparr>) 0)\<lparr>sx_amount_out := Some ''25''\<rparr>]\<rparr>
   in submissions ''i'' (sep24_run demo_sep24 [Fulfil ''i'', PaymentAnswer 0 (Some None), PutStatus ''i'' PendingExternal None, Fulfil ''i''] w) = 2"
  using reopened_deposit_pays_twice [of "''i''" "sep24_start\<lparr>se_txs := [(new_session ''i'' DepositSession (demo_request\<lparr>rq_memo := None\<rparr>) 0)\<lparr>sx_amount_out := Some ''25''\<rparr>]\<rparr>"
      PendingUserTransferStart demo_sep24 None]
  by (simp add: payable_def st_def session_def new_session_def demo_request_def sep24_start_def blocking_def submissions_def)

section \<open>Expiry\<close>

definition expired_now :: "sep24_env \<Rightarrow> millis \<Rightarrow> Sep24Transaction \<Rightarrow> Sep24Transaction" where
  "expired_now env now t = (if isInteractiveSessionExpired env now t
     then t\<lparr>sx_status := SepExpired, sx_updated_at := Some now, sx_message := Some SessionExpired\<rparr> else t)"

lemma expired_once: "expired_now env now (expired_now env now t) = expired_now env now t"
  "\<not> isInteractiveSessionExpired env now (expired_now env now t)"
  by (simp_all add: expired_now_def isInteractiveSessionExpired_def EXPIRABLE_STATUSES_def)

lemma expire_session:
  "session j (case session i w of Some t \<Rightarrow> if isInteractiveSessionExpired env (se_now w) t
      then snd (updateTransactionStatus i SepExpired (Some SessionExpired) w) else w | None \<Rightarrow> w) =
    (if j = i then map_option (expired_now env (se_now w)) (session j w) else session j w)"
  "se_now (case session i w of Some t \<Rightarrow> if isInteractiveSessionExpired env (se_now w) t
      then snd (updateTransactionStatus i SepExpired (Some SessionExpired) w) else w | None \<Rightarrow> w) = se_now w"
  by (auto simp: updateTransactionStatus_def Let_def session_write expired_now_def split: option.splits dest: session_id)

text \<open>
  A reader and the sweep agree: the session that a reader is shown is the one the sweep would
  leave, in every state, and no reader is shown a session that still waits for its user after its time.
\<close>

theorem lazy_expiry_is_sweep:
  "fst (getTransaction env i w) = session i (expireStaleInteractiveSessions env w) \<and>
   (case fst (getTransaction env i w) of Some t \<Rightarrow> \<not> isInteractiveSessionExpired env (se_now w) t | None \<Rightarrow> True)"
proof -
  let ?f = "\<lambda>i w. case session i w of Some t \<Rightarrow> if isInteractiveSessionExpired env (se_now w) t
      then snd (updateTransactionStatus i SepExpired (Some SessionExpired) w) else w | None \<Rightarrow> w"
  have "session i (fold ?f is v) = (if i \<in> set is then map_option (expired_now env (se_now v)) (session i v) else session i v)" for "is" v
    by (induction "is" arbitrary: v) (auto simp: expire_session option.map_comp comp_def expired_once)
  then have "session i (expireStaleInteractiveSessions env w) = (if i \<in> set (map sx_id (se_txs w))
      then map_option (expired_now env (se_now w)) (session i w) else session i w)"
    unfolding expireStaleInteractiveSessions_def .
  moreover have "session i w = None" if "i \<notin> set (map sx_id (se_txs w))"
    using that session_id [of i w] by (cases "session i w") auto
  ultimately have "session i (expireStaleInteractiveSessions env w) = map_option (expired_now env (se_now w)) (session i w)" by auto
  moreover have "fst (getTransaction env i w) = map_option (expired_now env (se_now w)) (session i w)"
    by (auto simp: getTransaction_def updateTransactionStatus_def Let_def expired_now_def split: option.splits)
  ultimately show ?thesis by (simp add: expired_once split: option.splits)
qed

end
