(* ===== verification/Spending_Limits.thy ===== *)
theory Spending_Limits
  imports Transaction_Status Decimal
begin

text \<open>
  The limits a request passes before a transaction is created: the daily limit of the customer's KYC
  level (\<^verbatim>\<open>src/services/transactionLimit/transactionLimitService.ts\<close>, \<^verbatim>\<open>src/middleware/kycCheck.ts\<close>,
  \<^verbatim>\<open>src/config/limits.ts\<close>), limits by provider and region with their cache
  (\<^verbatim>\<open>src/services/regionalProviderLimitService.ts\<close>), and the detector of amounts just below the reporting threshold
  (\<^verbatim>\<open>src/compliance/velocityChecker.ts\<close>, \<^verbatim>\<open>src/middleware/velocityCheck.ts\<close>). The node-cache package is
  modelled by entries with a lifetime, as documented.
\<close>

section \<open>The daily limit\<close>

datatype KYCLevel = Unverified | Basic | Full

record LimitConfig =
  lc_unverified :: jsnum
  lc_basic :: jsnum
  lc_full :: jsnum
  lc_min :: jsnum \<comment> \<open>\<^verbatim>\<open>MIN_TRANSACTION_AMOUNT\<close>\<close>
  lc_max :: jsnum

definition positive_finite :: "jsnum \<Rightarrow> bool" where
  "positive_finite v \<longleftrightarrow> \<not> js_le v (Fin 0) \<and> js_isFinite v"

definition validateLimits :: "LimitConfig \<Rightarrow> bool" where
  \<comment> \<open>whether the module loads\<close>
  "validateLimits c \<longleftrightarrow> positive_finite (lc_unverified c) \<and> positive_finite (lc_basic c) \<and> positive_finite (lc_full c) \<and>
     \<not> js_lt (lc_basic c) (lc_unverified c) \<and> \<not> js_lt (lc_full c) (lc_basic c)"

definition validateAmountLimits :: "LimitConfig \<Rightarrow> bool" where
  "validateAmountLimits c \<longleftrightarrow> positive_finite (lc_min c) \<and> positive_finite (lc_max c) \<and> \<not> js_lt (lc_max c) (lc_min c)"

fun TRANSACTION_LIMITS :: "LimitConfig \<Rightarrow> KYCLevel \<Rightarrow> jsnum" where
  "TRANSACTION_LIMITS c Unverified = lc_unverified c"
| "TRANSACTION_LIMITS c Basic = lc_basic c"
| "TRANSACTION_LIMITS c Full = lc_full c"

datatype limit_message = TooSmall | TooLarge | OverTransactionLimit | OverDailyLimit

record LimitCheckResult =
  lr_allowed :: bool
  lr_kycLevel :: KYCLevel
  lr_dailyLimit :: jsnum
  lr_currentDailyTotal :: jsnum
  lr_remainingLimit :: jsnum
  lr_message :: "limit_message option"
  lr_upgradeAvailable :: bool

definition refused_amount :: "limit_message \<Rightarrow> LimitCheckResult" where
  "refused_amount m = \<lparr>lr_allowed = False, lr_kycLevel = Unverified, lr_dailyLimit = Fin 0, lr_currentDailyTotal = Fin 0,
     lr_remainingLimit = Fin 0, lr_message = Some m, lr_upgradeAvailable = False\<rparr>"

definition DAY_MS :: millis where "DAY_MS = 24 * 60 * 60 * 1000"

definition findCompletedByUserSince :: "id \<Rightarrow> millis \<Rightarrow> transaction list \<Rightarrow> transaction list" where
  \<comment> \<open>of the rows that the server which answers holds: \<^verbatim>\<open>queryRead\<close> may ask a replica\<close>
  "findCompletedByUserSince userId since txs =
     filter (\<lambda>t. tx_user t = Some userId \<and> tx_status t = Completed \<and> since \<le> tx_created t) txs"

definition daily_total :: "transaction list \<Rightarrow> jsnum" where
  "daily_total ts = foldl (\<lambda>sum t. js_add sum (decimal_number (amount_units (tx_amount t)))) (Fin 0) ts"

definition within_daily_limit ::
  "KYCLevel \<Rightarrow> jsnum \<Rightarrow> jsnum \<Rightarrow> bool \<Rightarrow> jsnum \<Rightarrow> LimitCheckResult" where
  \<comment> \<open>the comparison with which both checks end\<close>
  "within_daily_limit level dailyLimit currentDailyTotal upgradeable amount =
     (let newTotal = js_add currentDailyTotal amount
      in if js_lt dailyLimit newTotal
         then \<lparr>lr_allowed = False, lr_kycLevel = level, lr_dailyLimit = dailyLimit, lr_currentDailyTotal = currentDailyTotal,
           lr_remainingLimit = js_sub dailyLimit currentDailyTotal, lr_message = Some OverDailyLimit,
           lr_upgradeAvailable = (upgradeable \<and> level \<noteq> Full)\<rparr>
         else \<lparr>lr_allowed = True, lr_kycLevel = level, lr_dailyLimit = dailyLimit, lr_currentDailyTotal = currentDailyTotal,
           lr_remainingLimit = js_sub dailyLimit newTotal, lr_message = None, lr_upgradeAvailable = False\<rparr>)"

definition checkTransactionLimit ::
  "LimitConfig \<Rightarrow> (id \<Rightarrow> KYCLevel option) \<Rightarrow> millis \<Rightarrow> id \<Rightarrow> jsnum \<Rightarrow> transaction list \<Rightarrow> LimitCheckResult option" where
  \<comment> \<open>None where the user is not found, which throws\<close>
  "checkTransactionLimit c users now userId amount txs =
     (if js_lt amount (lc_min c) then Some (refused_amount TooSmall)
      else if js_lt (lc_max c) amount then Some (refused_amount TooLarge)
      else case users userId of
        None \<Rightarrow> None
      | Some level \<Rightarrow> Some (within_daily_limit level (TRANSACTION_LIMITS c level)
          (daily_total (findCompletedByUserSince userId (now - DAY_MS) txs)) True amount))"

datatype kyc_outcome = Proceed id | Answer nat

definition enforceKycCheck ::
  "LimitConfig \<Rightarrow> (id \<Rightarrow> KYCLevel option) \<Rightarrow> millis \<Rightarrow> id option \<Rightarrow> id option \<Rightarrow> jsnum \<Rightarrow> transaction list \<Rightarrow> kyc_outcome option" where
  \<comment> \<open>the authenticated user, the user of the body (None where it is blank or no text) and \<^verbatim>\<open>Number(body.amount)\<close>;
    None where the error is passed on\<close>
  "enforceKycCheck c users now authenticated requested amount txs =
     (if authenticated \<noteq> None \<and> requested \<noteq> None \<and> authenticated \<noteq> requested then Some (Answer 403)
      else case (case authenticated of Some a \<Rightarrow> Some a | None \<Rightarrow> requested) of
        None \<Rightarrow> Some (Answer 401)
      | Some userId \<Rightarrow>
          if \<not> js_isFinite amount \<or> js_le amount (Fin 0) then Some (Answer 400)
          else map_option (\<lambda>r. if lr_allowed r then Proceed userId
              else Answer (if js_lt (Fin 0) (lr_dailyLimit r) then 403 else 400))
            (checkTransactionLimit c users now userId amount txs))"

section \<open>Limits of a provider in a region\<close>

record RegionalProviderLimit =
  rl_provider :: string
  rl_region :: string
  rl_country :: string
  rl_daily :: jsnum
  rl_perTransaction :: jsnum
  rl_currency :: string
  rl_active :: bool
  rl_effective :: millis
  rl_expiry :: "millis option"

datatype limit_key = CountryKey string string | RegionKey string string

record regional =
  rg_now :: millis
  rg_rows :: "RegionalProviderLimit list"
  rg_cache :: "limit_key \<Rightarrow> (RegionalProviderLimit \<times> millis) option"

definition CACHE_TTL :: millis where "CACHE_TTL = 300 * 1000"

definition in_force :: "millis \<Rightarrow> RegionalProviderLimit \<Rightarrow> bool" where
  "in_force now l \<longleftrightarrow> rl_active l \<and> (case rl_expiry l of None \<Rightarrow> True | Some e \<Rightarrow> now < e) \<and> rl_effective l \<le> now"

fun key_matches :: "limit_key \<Rightarrow> RegionalProviderLimit \<Rightarrow> bool" where
  "key_matches (CountryKey p c) l = (rl_provider l = p \<and> rl_country l = c)"
| "key_matches (RegionKey p r) l = (rl_provider l = p \<and> rl_region l = r)"

fun newest :: "RegionalProviderLimit list \<Rightarrow> RegionalProviderLimit option" where
  \<comment> \<open>\<^verbatim>\<open>ORDER BY effective_date DESC LIMIT 1\<close>\<close>
  "newest [] = None"
| "newest (l # ls) = (case newest ls of None \<Rightarrow> Some l | Some m \<Rightarrow> if rl_effective l < rl_effective m then Some m else Some l)"

definition query_limit :: "limit_key \<Rightarrow> millis \<Rightarrow> RegionalProviderLimit list \<Rightarrow> RegionalProviderLimit option" where
  "query_limit k now rows = newest (filter (\<lambda>l. key_matches k l \<and> in_force now l) rows)"

definition lookup_limit :: "limit_key \<Rightarrow> regional \<Rightarrow> RegionalProviderLimit option \<times> regional" where
  \<comment> \<open>\<^verbatim>\<open>getRegionalLimit\<close> and \<^verbatim>\<open>getRegionalLimitByRegion\<close>\<close>
  "lookup_limit k w = (case live (rg_now w) (rg_cache w k) of
     Some l \<Rightarrow> (Some l, w)
   | None \<Rightarrow> (case query_limit k (rg_now w) (rg_rows w) of
       Some l \<Rightarrow> (Some l, w\<lparr>rg_cache := (rg_cache w)(k := Some (l, rg_now w + CACHE_TTL))\<rparr>)
     | None \<Rightarrow> (None, w)))"

definition getRegionalLimit :: "string \<Rightarrow> string \<Rightarrow> regional \<Rightarrow> RegionalProviderLimit option \<times> regional" where
  "getRegionalLimit provider country = lookup_limit (CountryKey (map to_lower provider) (map to_upper country))"

definition getRegionalLimitByRegion :: "string \<Rightarrow> string \<Rightarrow> regional \<Rightarrow> RegionalProviderLimit option \<times> regional" where
  "getRegionalLimitByRegion provider region = lookup_limit (RegionKey (map to_lower provider) (map to_lower region))"

definition checkRegionalLimits ::
  "string \<Rightarrow> string option \<Rightarrow> string option \<Rightarrow> regional \<Rightarrow> RegionalProviderLimit option \<times> regional" where
  \<comment> \<open>None where there is no regional limit\<close>
  "checkRegionalLimits provider country region w =
     (let (l, w') = (case country of Some c \<Rightarrow> if c = [] then (None, w) else getRegionalLimit provider c w | None \<Rightarrow> (None, w))
      in case (l, region) of
           (None, Some r) \<Rightarrow> if r = [] then (None, w') else getRegionalLimitByRegion provider r w'
         | _ \<Rightarrow> (l, w'))"

definition upsertRegionalLimit :: "RegionalProviderLimit \<Rightarrow> regional \<Rightarrow> regional" where
  \<comment> \<open>the row with its keys in their case; a row that exists keeps \<^verbatim>\<open>is_active\<close>\<close>
  "upsertRegionalLimit l w =
     (let same = (\<lambda>x. rl_provider x = rl_provider l \<and> rl_region x = rl_region l \<and> rl_country x = rl_country l \<and> rl_effective x = rl_effective l)
      in w\<lparr>rg_rows := (if list_ex same (rg_rows w)
            then sql_update same (\<lambda>x. x\<lparr>rl_daily := rl_daily l, rl_perTransaction := rl_perTransaction l, rl_currency := rl_currency l, rl_expiry := rl_expiry l\<rparr>) (rg_rows w)
            else rg_rows w @ [l\<lparr>rl_active := True\<rparr>]),
          rg_cache := (rg_cache w)(CountryKey (rl_provider l) (rl_country l) := None, RegionKey (rl_provider l) (rl_region l) := None)\<rparr>)"

definition deactivateRegionalLimit :: "string \<Rightarrow> string \<Rightarrow> millis option \<Rightarrow> regional \<Rightarrow> regional" where
  "deactivateRegionalLimit provider country effective w =
     (let p = map to_lower provider; c = map to_upper country; e = (case effective of Some e \<Rightarrow> e | None \<Rightarrow> rg_now w)
      in w\<lparr>rg_rows := sql_update (\<lambda>x. rl_provider x = p \<and> rl_country x = c \<and> rl_effective x = e) (\<lambda>x. x\<lparr>rl_active := False\<rparr>) (rg_rows w),
          rg_cache := (rg_cache w)(CountryKey p c := None)\<rparr>)"

definition checkTransactionLimitWithRegional ::
  "LimitConfig \<Rightarrow> (id \<Rightarrow> KYCLevel option) \<Rightarrow> id \<Rightarrow> jsnum \<Rightarrow> string \<Rightarrow> string option \<Rightarrow> string option \<Rightarrow> transaction list \<Rightarrow>
   regional \<Rightarrow> LimitCheckResult option \<times> regional" where
  "checkTransactionLimitWithRegional c users userId amount provider country region txs w =
     (if js_lt amount (lc_min c) then (Some (refused_amount TooSmall), w)
      else if js_lt (lc_max c) amount then (Some (refused_amount TooLarge), w)
      else case checkRegionalLimits provider country region w of (l, w') \<Rightarrow>
        (case users userId of
           None \<Rightarrow> None
         | Some level \<Rightarrow>
             let dailyLimit = (case l of Some x \<Rightarrow> rl_daily x | None \<Rightarrow> TRANSACTION_LIMITS c level);
                 perTransaction = (case l of Some x \<Rightarrow> rl_perTransaction x | None \<Rightarrow> lc_max c)
             in if js_lt perTransaction amount
                then Some \<lparr>lr_allowed = False, lr_kycLevel = level, lr_dailyLimit = dailyLimit, lr_currentDailyTotal = Fin 0,
                  lr_remainingLimit = Fin 0, lr_message = Some OverTransactionLimit, lr_upgradeAvailable = (l = None \<and> level \<noteq> Full)\<rparr>
                else Some (within_daily_limit level dailyLimit
                  (daily_total (findCompletedByUserSince userId (rg_now w - DAY_MS) txs)) (l = None) amount), w'))"

section \<open>Amounts just below the reporting threshold\<close>

record TransactionRecord =
  tr_amount :: jsnum
  tr_timestamp :: millis

record VelocityChecker =
  vc_threshold :: jsnum
  vc_windowMs :: millis
  vc_triggerCount :: nat

definition velocityChecker :: VelocityChecker where
  "velocityChecker = \<lparr>vc_threshold = Fin 1000, vc_windowMs = DAY_MS, vc_triggerCount = 3\<rparr>"

definition isStructuringAmount :: "VelocityChecker \<Rightarrow> jsnum \<Rightarrow> bool" where
  "isStructuringAmount c amount \<longleftrightarrow> js_le (js_mul (vc_threshold c) (num (95 / 100))) amount \<and> js_lt amount (vc_threshold c)"

record VelocityCheckResult =
  vr_allowed :: bool
  vr_windowVolume :: jsnum
  vr_windowCount :: nat
  vr_structuringCount :: nat

definition velocity_result :: "VelocityChecker \<Rightarrow> jsnum \<Rightarrow> TransactionRecord list \<Rightarrow> VelocityCheckResult" where
  "velocity_result c amount history =
     (let count = length (filter (\<lambda>t. isStructuringAmount c (tr_amount t)) history) + (if isStructuringAmount c amount then 1 else 0)
      in \<lparr>vr_allowed = (\<not> vc_triggerCount c \<le> count),
          vr_windowVolume = js_add (foldl (\<lambda>sum t. js_add sum (tr_amount t)) (Fin 0) history) amount,
          vr_windowCount = length history + 1, vr_structuringCount = count\<rparr>)"

definition checkAndRecordTransaction ::
  "VelocityChecker \<Rightarrow> id \<Rightarrow> jsnum \<Rightarrow> millis \<Rightarrow> (id \<Rightarrow> TransactionRecord list) \<Rightarrow> VelocityCheckResult \<times> (id \<Rightarrow> TransactionRecord list)" where
  \<comment> \<open>an amount is recorded whether it is allowed or not\<close>
  "checkAndRecordTransaction c userId amount now store =
     (let history = filter (\<lambda>t. now - vc_windowMs c \<le> tr_timestamp t) (store userId)
      in (velocity_result c amount history, store(userId := history @ [\<lparr>tr_amount = amount, tr_timestamp = now\<rparr>])))"

definition velocityCheckMiddleware ::
  "VelocityChecker \<Rightarrow> id option \<Rightarrow> jsnum \<Rightarrow> millis \<Rightarrow> (id \<Rightarrow> TransactionRecord list) \<Rightarrow> bool \<times> (id \<Rightarrow> TransactionRecord list)" where
  \<comment> \<open>whether the request goes on\<close>
  "velocityCheckMiddleware c userId amount now store = (case userId of
     None \<Rightarrow> (True, store)
   | Some u \<Rightarrow>
       if u = [] \<or> js_isNaN amount then (True, store)
       else case checkAndRecordTransaction c u amount now store of (r, store') \<Rightarrow> (vr_allowed r, store'))"

end
