(* ===== verification/Spending_Limits_Safety.thy ===== *)
theory Spending_Limits_Safety
  imports Spending_Limits
begin

text \<open>
  What the limits before a transaction promise. When each transaction of a customer is settled before the next is
  checked, every period of 24 hours stays within the daily limit, despite rounding. Only
  completed transactions count, though, so that requests which overlap pass together. The detector of amounts below
  the threshold forgets nothing that lies in its window, although it prunes its store, and a cached
  limit of a region was in force at most five minutes ago.
\<close>

section \<open>Exact totals\<close>

definition xaf :: "transaction \<Rightarrow> int" where
  "xaf t = amount_units (tx_amount t) div 10 ^ 7"

lemma whole_xaf: "whole (tx_amount t) \<Longrightarrow> amount_units (tx_amount t) = 10 ^ 7 * xaf t \<and> 0 \<le> xaf t \<and> xaf t \<le> 2 ^ 53"
  by (auto simp: whole_def xaf_def)

lemma amount_number: "whole (tx_amount t) \<Longrightarrow> decimal_number (amount_units (tx_amount t)) = Fin (of_int (xaf t))"
  using whole_xaf [of t] num_int [of "xaf t"] decimal_number_whole [of "xaf t"] by simp

lemma total_exact_from:
  assumes "\<forall>t\<in>set ts. whole (tx_amount t)" "0 \<le> k" "k + sum_list (map xaf ts) \<le> 2 ^ 53"
  shows "foldl (\<lambda>sum t. js_add sum (decimal_number (amount_units (tx_amount t)))) (Fin (of_int k)) ts = Fin (of_int (k + sum_list (map xaf ts)))"
  using assms
proof (induction ts arbitrary: k)
  case (Cons t ts)
  have t: "0 \<le> xaf t" using whole_xaf [of t] Cons.prems(1) by simp
  have "0 \<le> sum_list (map xaf ts)" using Cons.prems(1) whole_xaf by (intro sum_list_nonneg) auto
  then have "\<bar>k + xaf t\<bar> \<le> 2 ^ 53" using Cons.prems t by simp
  from num_int [OF this] have "js_add (Fin (of_int k)) (Fin (of_int (xaf t))) = Fin (of_int (k + xaf t))" by simp
  moreover have "foldl (\<lambda>sum t. js_add sum (decimal_number (amount_units (tx_amount t)))) (Fin (of_int (k + xaf t))) ts =
      Fin (of_int (k + xaf t + sum_list (map xaf ts)))" using Cons.prems t by (intro Cons.IH) auto
  ultimately show ?case using amount_number [of t] Cons.prems(1) by (simp add: add.assoc)
qed simp

lemma total_exact:
  assumes "\<forall>t\<in>set ts. whole (tx_amount t)" "sum_list (map xaf ts) \<le> 2 ^ 53"
  shows "daily_total ts = Fin (of_int (sum_list (map xaf ts)))"
  using total_exact_from [OF assms(1), of 0] assms(2) by (simp add: daily_total_def)

lemma allowed_within:
  assumes "lr_allowed (within_daily_limit level (Fin (of_int m)) (Fin (of_int sofar)) up (Fin (of_int k)))" "m < 2 ^ 53" "0 \<le> m"
  shows "sofar + k \<le> m"
proof (rule ccontr)
  assume "\<not> ?thesis"
  then have "of_int (m + 1) \<le> (of_int sofar + of_int k :: rat)" by (metis int_one_le_iff_zero_less le_cases not_le of_int_add of_int_le_iff zless_imp_add1_zle)
  then have "js_le (num (of_int (m + 1))) (num (of_int sofar + of_int k))" by (rule num_mono)
  moreover have "num (of_int (m + 1)) = Fin (of_int (m + 1))" using assms(2,3) by (intro num_int) simp
  ultimately have "js_lt (Fin (of_int m)) (num (of_int sofar + of_int k))"
    by (cases "num (of_int sofar + of_int k)") auto
  then show False using assms(1) by (simp add: within_daily_limit_def Let_def)
qed

section \<open>The daily limit over a run\<close>

record limiter =
  lm_now :: millis
  lm_txs :: "transaction list"

datatype limit_act =
    Hours int \<comment> \<open>time, in milliseconds\<close>
  | Attempt id id string \<comment> \<open>id, customer and amount of a request\<close>
  | Settle id TransactionStatus

definition pending_row :: "millis \<Rightarrow> id \<Rightarrow> id \<Rightarrow> string \<Rightarrow> transaction" where
  "pending_row now i u a = \<lparr>tx_id = i, tx_reference = i, tx_amount = a, tx_phone = [], tx_provider = [], tx_status = Pending,
     tx_user = Some u, tx_created = now, tx_updated = now\<rparr>"

definition limit_step :: "LimitConfig \<Rightarrow> (id \<Rightarrow> KYCLevel option) \<Rightarrow> limit_act \<Rightarrow> limiter \<Rightarrow> limiter" where
  "limit_step c users act w = (case act of
     Hours d \<Rightarrow> w\<lparr>lm_now := lm_now w + max 0 d\<rparr>
   | Attempt i u a \<Rightarrow>
       if list_ex (\<lambda>t. tx_id t = i) (lm_txs w) then w
       else (case enforceKycCheck c users (lm_now w) (Some u) None (decimal_number (amount_units a)) (lm_txs w) of
           Some (Proceed _) \<Rightarrow> w\<lparr>lm_txs := lm_txs w @ [pending_row (lm_now w) i u a]\<rparr>
         | _ \<Rightarrow> w)
   | Settle i s \<Rightarrow> w\<lparr>lm_txs := fst (snd (updateStatus (lm_now w) i s None None (lm_txs w)))\<rparr>)"

definition limit_run :: "LimitConfig \<Rightarrow> (id \<Rightarrow> KYCLevel option) \<Rightarrow> limit_act list \<Rightarrow> limiter \<Rightarrow> limiter" where
  "limit_run c users acts w = fold (limit_step c users) acts w"

definition no_transactions :: limiter where "no_transactions = \<lparr>lm_now = 0, lm_txs = []\<rparr>"

definition dead :: "TransactionStatus \<Rightarrow> bool" where
  \<comment> \<open>never completed any more\<close>
  "dead s \<longleftrightarrow> s = Cancelled \<or> s = Failed"

definition moved :: "id \<Rightarrow> millis \<Rightarrow> transaction list \<Rightarrow> int" where
  \<comment> \<open>what a customer moves, or still may, in the 24 hours from a time on\<close>
  "moved u a ts = sum_list (map (\<lambda>t. if tx_user t = Some u \<and> \<not> dead (tx_status t) \<and> a \<le> tx_created t \<and> tx_created t \<le> a + DAY_MS then xaf t else 0) ts)"

text \<open>Schedules on which a customer's transactions are settled before the next is checked.\<close>

definition settled_first :: "id \<Rightarrow> limit_act \<Rightarrow> limiter \<Rightarrow> bool" where
  "settled_first u act w = (case act of
     Hours d \<Rightarrow> True
   | Attempt i v a \<Rightarrow> whole a \<and> (v = u \<longrightarrow> list_all (\<lambda>t. tx_user t = Some u \<longrightarrow> tx_status t = Completed \<or> dead (tx_status t)) (lm_txs w))
   | Settle i s \<Rightarrow> list_all (\<lambda>t. tx_id t = i \<longrightarrow> \<not> dead (tx_status t) \<and> (tx_status t = Completed \<longrightarrow> s = Completed)) (lm_txs w))"

fun one_by_one :: "LimitConfig \<Rightarrow> (id \<Rightarrow> KYCLevel option) \<Rightarrow> id \<Rightarrow> limit_act list \<Rightarrow> limiter \<Rightarrow> bool" where
  "one_by_one c users u [] w = True"
| "one_by_one c users u (a # acts) w = (settled_first u a w \<and> one_by_one c users u acts (limit_step c users a w))"

definition limited :: "id \<Rightarrow> int \<Rightarrow> limiter \<Rightarrow> bool" where
  "limited u m w \<longleftrightarrow> (\<forall>t\<in>set (lm_txs w). whole (tx_amount t) \<and> tx_created t \<le> lm_now w) \<and> (\<forall>a. moved u a (lm_txs w) \<le> m)"

lemma limited_hours:
  assumes "limited u m w"
  shows "limited u m (w\<lparr>lm_now := lm_now w + max 0 d\<rparr>)"
proof -
  have "tx_created t \<le> lm_now w + max 0 d" if "t \<in> set (lm_txs w)" for t
    using assms that unfolding limited_def by (meson add_increasing2 max.cobounded1 order_trans)
  then show ?thesis using assms by (simp add: limited_def)
qed

lemma limited_settle:
  assumes "limited u m w" "settled_first u (Settle i s) w"
  shows "limited u m (w\<lparr>lm_txs := fst (snd (updateStatus now i s None None (lm_txs w)))\<rparr>)"
proof -
  let ?f = "\<lambda>t. if status_where i s None None t then t\<lparr>tx_status := s, tx_updated := now\<rparr> else t"
  have rows: "fst (snd (updateStatus now i s None None (lm_txs w))) = map ?f (lm_txs w)"
    by (simp add: updateStatus_table sql_update_def)
  have "moved u a (map ?f ts) \<le> moved u a ts" if "\<forall>t\<in>set ts. whole (tx_amount t) \<and> (tx_id t = i \<longrightarrow> \<not> dead (tx_status t))" for a ts
    using that
  proof (induction ts)
    case (Cons t ts)
    have "0 \<le> xaf t" using Cons.prems whole_xaf [of t] by simp
    moreover have "\<not> dead (tx_status t)" if "status_where i s None None t" using Cons.prems that by (simp add: status_where_def)
    ultimately show ?case using Cons by (auto simp: moved_def xaf_def)
  qed (simp add: moved_def)
  moreover have "\<forall>t\<in>set (lm_txs w). whole (tx_amount t) \<and> (tx_id t = i \<longrightarrow> \<not> dead (tx_status t))"
    using assms by (auto simp: limited_def settled_first_def list_all_iff)
  ultimately have "moved u a (map ?f (lm_txs w)) \<le> m" for a
    using assms(1) unfolding limited_def by (meson order_trans)
  then show ?thesis using assms(1) unfolding rows by (auto simp: limited_def)
qed

lemma moved_recent:
  assumes "\<forall>t\<in>set ts. whole (tx_amount t)" "now \<le> a + DAY_MS"
    and "\<forall>t\<in>set ts. tx_user t = Some u \<longrightarrow> tx_status t = Completed \<or> dead (tx_status t)"
  shows "moved u a ts \<le> sum_list (map xaf (findCompletedByUserSince u (now - DAY_MS) ts))"
  using assms
proof (induction ts)
  case (Cons t ts)
  have "0 \<le> xaf t" using Cons.prems(1) whole_xaf [of t] by simp
  with Cons show ?case by (auto simp: moved_def findCompletedByUserSince_def dead_def)
qed (simp add: moved_def findCompletedByUserSince_def)

lemma completed_moved:
  assumes "\<forall>t\<in>set ts. whole (tx_amount t) \<and> tx_created t \<le> now"
  shows "sum_list (map xaf (findCompletedByUserSince u (now - DAY_MS) ts)) \<le> moved u (now - DAY_MS) ts"
  using assms
proof (induction ts)
  case (Cons t ts)
  have "0 \<le> xaf t" using Cons.prems(1) whole_xaf [of t] by simp
  with Cons show ?case by (auto simp: moved_def findCompletedByUserSince_def dead_def)
qed (simp add: moved_def findCompletedByUserSince_def)

lemma moved_append: "moved u a (ts @ ts') = moved u a ts + moved u a ts'"
  by (simp add: moved_def)

lemma limited_attempt:
  assumes "limited u m w" "settled_first u (Attempt i v x) w" "users u = Some level" "TRANSACTION_LIMITS c level = Fin (of_int m)"
    and "0 \<le> m" "m < 2 ^ 53"
  shows "limited u m (limit_step c users (Attempt i v x) w)"
proof (cases "limit_step c users (Attempt i v x) w = w")
  case False
  let ?row = "pending_row (lm_now w) i v x"
  have whole: "whole x" "\<forall>t\<in>set (lm_txs w). whole (tx_amount t) \<and> tx_created t \<le> lm_now w"
    using assms(1,2) by (auto simp: settled_first_def limited_def)
  have step: "limit_step c users (Attempt i v x) w = w\<lparr>lm_txs := lm_txs w @ [?row]\<rparr>"
    and passed: "\<exists>y. enforceKycCheck c users (lm_now w) (Some v) None (decimal_number (amount_units x)) (lm_txs w) = Some (Proceed y)"
    using False by (auto simp: limit_step_def split: if_splits option.splits kyc_outcome.splits)
  have row: "tx_amount ?row = x" "tx_user ?row = Some v" "tx_created ?row = lm_now w" "tx_status ?row = Pending"
    by (simp_all add: pending_row_def)
  have "moved u a (lm_txs w @ [?row]) \<le> m" for a
  proof (cases "v = u \<and> a \<le> lm_now w \<and> lm_now w \<le> a + DAY_MS")
    case True
    let ?recent = "findCompletedByUserSince u (lm_now w - DAY_MS) (lm_txs w)"
    have amount: "decimal_number (amount_units x) = Fin (of_int (xaf ?row))"
      using amount_number [of ?row] whole(1) by (simp add: row(1))
    have "\<forall>t\<in>set ?recent. whole (tx_amount t)" using whole(2) by (auto simp: findCompletedByUserSince_def)
    moreover have "sum_list (map xaf ?recent) \<le> m"
      using completed_moved [OF whole(2)] assms(1) unfolding limited_def by (meson order_trans)
    ultimately have total: "daily_total ?recent = Fin (of_int (sum_list (map xaf ?recent)))"
      using assms(6) by (intro total_exact) auto
    have "\<exists>r. checkTransactionLimit c users (lm_now w) u (Fin (of_int (xaf ?row))) (lm_txs w) = Some r \<and> lr_allowed r"
      using passed True unfolding enforceKycCheck_def amount by (auto split: if_splits)
    then have "lr_allowed (within_daily_limit level (Fin (of_int m)) (Fin (of_int (sum_list (map xaf ?recent)))) True (Fin (of_int (xaf ?row))))"
      unfolding checkTransactionLimit_def using assms(3,4) total by (auto simp: refused_amount_def split: if_splits)
    from allowed_within [OF this assms(6,5)] have "sum_list (map xaf ?recent) + xaf ?row \<le> m" .
    moreover have "moved u a (lm_txs w) \<le> sum_list (map xaf ?recent)"
      using True whole(2) assms(2) by (intro moved_recent) (auto simp: settled_first_def list_all_iff)
    moreover have "moved u a [?row] = xaf ?row" using True row by (simp add: moved_def dead_def)
    ultimately show ?thesis unfolding moved_append by linarith
  next
    case False
    then have "moved u a [?row] = 0" by (auto simp: moved_def row)
    then show ?thesis using assms(1) by (simp add: moved_append limited_def)
  qed
  then show ?thesis using whole by (auto simp: step limited_def row)
qed (simp add: assms(1))

lemma limited_run:
  assumes "limited u m w" "one_by_one c users u acts w" "users u = Some level" "TRANSACTION_LIMITS c level = Fin (of_int m)" "0 \<le> m" "m < 2 ^ 53"
  shows "limited u m (limit_run c users acts w)"
  using assms(1,2)
proof (induction acts arbitrary: w)
  case (Cons a acts)
  have "limited u m (limit_step c users a w)"
  proof (cases a)
    case (Hours d) then show ?thesis using limited_hours [OF Cons.prems(1)] by (simp add: limit_step_def)
  next
    case (Attempt i v x) then show ?thesis using limited_attempt [of u m w i v x users level c] Cons.prems assms(3-6) by simp
  next
    case (Settle i s) then show ?thesis using limited_settle [OF Cons.prems(1)] Cons.prems(2) by (simp add: limit_step_def)
  qed
  from Cons.IH [OF this] Cons.prems(2) show ?case by (simp add: limit_run_def)
qed (simp add: limit_run_def)

text \<open>
  C6. If each transaction of a customer is completed, cancelled or failed before the next is checked, nothing writes the
  status of a cancelled or failed transaction later, a completed one stays completed, and all amounts are whole, then, from
  an empty table, no 24 hours hold more than the daily limit of the customer's KYC level (a whole number below \<open>2\<^sup>53\<close>): what is
  pending or completed there sums to no more, despite the rounding of the sums. The check is taken to read the current table;
  a replica that lags may hide the last transactions from it.
\<close>

theorem daily_limit_holds:
  assumes "one_by_one c users u acts no_transactions" "users u = Some level" "TRANSACTION_LIMITS c level = Fin (of_int m)" "0 \<le> m" "m < 2 ^ 53"
  shows "moved u a (lm_txs (limit_run c users acts no_transactions)) \<le> m"
proof -
  have "limited u m no_transactions" using assms(4) by (simp add: limited_def no_transactions_def moved_def)
  from limited_run [OF this assms] show ?thesis by (simp add: limited_def)
qed

definition demo_limits :: LimitConfig where
  "demo_limits = \<lparr>lc_unverified = Fin 20, lc_basic = Fin 20, lc_full = Fin 20, lc_min = Fin 1, lc_max = Fin 20\<rparr>"

definition demo_attempts :: "limit_act list" where
  "demo_attempts = [Attempt ''a'' ''u'' ''15'', Settle ''a'' Completed, Hours 5, Attempt ''b'' ''u'' ''6'', Attempt ''c'' ''u'' ''5'']"

theorem daily_limit_holds_witness:
  "moved ''u'' 0 (lm_txs (limit_run demo_limits (\<lambda>_. Some Basic) demo_attempts no_transactions)) \<le> 20"
proof (rule daily_limit_holds [where level = Basic])
  show "one_by_one demo_limits (\<lambda>_. Some Basic) ''u'' demo_attempts no_transactions" by code_simp
qed (simp_all add: demo_limits_def)

text \<open>
  Requests that overlap pass together: whatever one request of a customer passes with, any number of
  further ones passes with while none of them is completed.
\<close>

definition rush :: "(nat \<Rightarrow> id) \<Rightarrow> id \<Rightarrow> string \<Rightarrow> nat \<Rightarrow> limit_act list" where
  "rush ids u a n = map (\<lambda>k. Attempt (ids k) u a) [0..<n]"

theorem overlapping_requests_pass:
  assumes "enforceKycCheck c users 0 (Some u) None (decimal_number (amount_units a)) [] = Some (Proceed u)" "inj ids"
  shows "lm_txs (limit_run c users (rush ids u a n) no_transactions) = map (\<lambda>k. pending_row 0 (ids k) u a) [0..<n]"
proof (induction n)
  case (Suc n)
  define w where "w = limit_run c users (rush ids u a n) no_transactions"
  have now: "lm_now w = 0" unfolding w_def rush_def limit_run_def
    by (induction n) (auto simp: no_transactions_def limit_step_def split: option.splits kyc_outcome.splits)
  have same: "findCompletedByUserSince u s (lm_txs w) = findCompletedByUserSince u s []" for s
    using Suc by (simp add: w_def findCompletedByUserSince_def pending_row_def filter_empty_conv)
  have "enforceKycCheck c users 0 (Some u) None x (lm_txs w) = enforceKycCheck c users 0 (Some u) None x []" for x
    unfolding enforceKycCheck_def checkTransactionLimit_def option.case same ..
  with assms(1) have "enforceKycCheck c users 0 (Some u) None (decimal_number (amount_units a)) (lm_txs w) = Some (Proceed u)" by simp
  moreover have "\<not> list_ex (\<lambda>t. tx_id t = ids n) (lm_txs w)"
    using Suc assms(2) by (auto simp: w_def list_ex_iff pending_row_def inj_eq)
  ultimately have "limit_step c users (Attempt (ids n) u a) w = w\<lparr>lm_txs := lm_txs w @ [pending_row 0 (ids n) u a]\<rparr>"
    by (simp add: limit_step_def now)
  then show ?case using Suc by (simp add: rush_def limit_run_def w_def)
qed (simp add: rush_def limit_run_def no_transactions_def)

theorem overlapping_requests_pass_witness:
  "length (lm_txs (limit_run demo_limits (\<lambda>_. Some Basic) (rush (\<lambda>n. replicate n CHR ''x'') ''u'' ''15'' 9) no_transactions)) = 9"
proof -
  have "enforceKycCheck demo_limits (\<lambda>_. Some Basic) 0 (Some ''u'') None (decimal_number (amount_units ''15'')) [] = Some (Proceed ''u'')"
    by code_simp
  from overlapping_requests_pass [OF this, of "\<lambda>n. replicate n CHR ''x''" 9] show ?thesis by (simp add: inj_def)
qed

section \<open>The detector\<close>

definition records_of :: "id \<Rightarrow> (id \<times> jsnum \<times> millis) list \<Rightarrow> TransactionRecord list" where
  \<comment> \<open>everything a customer ever tried\<close>
  "records_of u attempts = map (\<lambda>(_, a, t). \<lparr>tr_amount = a, tr_timestamp = t\<rparr>) (filter (\<lambda>(v, _, _). v = u) attempts)"

definition recorded :: "VelocityChecker \<Rightarrow> (id \<times> jsnum \<times> millis) list \<Rightarrow> id \<Rightarrow> TransactionRecord list" where
  \<comment> \<open>the store after these calls\<close>
  "recorded c attempts = fold (\<lambda>(u, a, t) store. snd (checkAndRecordTransaction c u a t store)) attempts (\<lambda>_. [])"

lemma records_of_snoc: "records_of u (xs @ [(v, a, t)]) = records_of u xs @ (if v = u then [\<lparr>tr_amount = a, tr_timestamp = t\<rparr>] else [])"
  by (simp add: records_of_def)

lemma pruned_store:
  assumes "sorted (map (\<lambda>(_, _, t). t) attempts)" "\<forall>x\<in>set attempts. snd (snd x) \<le> now"
  shows "filter (\<lambda>r. now - vc_windowMs c \<le> tr_timestamp r) (recorded c attempts u) =
    filter (\<lambda>r. now - vc_windowMs c \<le> tr_timestamp r) (records_of u attempts)"
  using assms
proof (induction attempts arbitrary: now rule: rev_induct)
  case (snoc x attempts)
  obtain v a t where x: "x = (v, a, t)" by (metis prod_cases3)
  have earlier: "\<forall>y\<in>set attempts. snd (snd y) \<le> t" "sorted (map (\<lambda>(_, _, t). t) attempts)" "t \<le> now"
    using snoc.prems by (auto simp: x sorted_append split: prod.splits)
  have "filter (\<lambda>r. now - vc_windowMs c \<le> tr_timestamp r) (filter (\<lambda>r. t - vc_windowMs c \<le> tr_timestamp r) rs) =
      filter (\<lambda>r. now - vc_windowMs c \<le> tr_timestamp r) rs" for rs
    using earlier(3) by (intro filter_drop_unseen) auto
  moreover have "\<forall>y\<in>set attempts. snd (snd y) \<le> now" using earlier by force
  ultimately show ?case
    using snoc.IH [OF earlier(2,1)] snoc.IH [OF earlier(2), of now]
    by (cases "v = u") (auto simp: x recorded_def checkAndRecordTransaction_def Let_def records_of_snoc)
qed (simp add: recorded_def records_of_def)

text \<open>
  Although the detector drops old records whenever it is called, its answer is that of a detector
  that keeps every attempt of the customer, refused ones included, as long as the clock does not go back.
\<close>

theorem detector_forgets_nothing:
  assumes "sorted (map (\<lambda>(_, _, t). t) (attempts @ [(u, a, now)]))"
  shows "fst (checkAndRecordTransaction c u a now (recorded c attempts)) =
    velocity_result c a (filter (\<lambda>r. now - vc_windowMs c \<le> tr_timestamp r) (records_of u attempts))"
proof -
  have "sorted (map (\<lambda>(_, _, t). t) attempts)" "\<forall>x\<in>set attempts. snd (snd x) \<le> now"
    using assms by (auto simp: sorted_append split: prod.splits)
  from pruned_store [OF this] show ?thesis by (simp add: checkAndRecordTransaction_def Let_def)
qed

theorem detector_forgets_nothing_witness:
  "fst (checkAndRecordTransaction velocityChecker ''u'' (Fin 960) 7 (recorded velocityChecker [(''u'', Fin 970, 1), (''v'', Fin 5, 2), (''u'', Fin 980, 3)])) =
    velocity_result velocityChecker (Fin 960) [\<lparr>tr_amount = Fin 970, tr_timestamp = 1\<rparr>, \<lparr>tr_amount = Fin 980, tr_timestamp = 3\<rparr>]"
  using detector_forgets_nothing [of "[(''u'', Fin 970, 1), (''v'', Fin 5, 2), (''u'', Fin 980, 3)]" "''u''" "Fin 960" 7 velocityChecker]
  by (simp add: records_of_def velocityChecker_def DAY_MS_def)

section \<open>Limits of a region\<close>

datatype regional_act =
    Tick int
  | Ask limit_key
  | Upsert RegionalProviderLimit
  | Deactivate string string "millis option"

definition regional_step :: "regional_act \<Rightarrow> regional \<Rightarrow> regional" where
  "regional_step act w = (case act of
     Tick d \<Rightarrow> w\<lparr>rg_now := rg_now w + max 0 d\<rparr>
   | Ask k \<Rightarrow> snd (lookup_limit k w)
   | Upsert l \<Rightarrow> upsertRegionalLimit l w
   | Deactivate p c e \<Rightarrow> deactivateRegionalLimit p c e w)"

definition regional_run :: "regional_act list \<Rightarrow> regional \<Rightarrow> regional" where
  "regional_run acts w = fold regional_step acts w"

definition cached_from :: "regional_act list \<Rightarrow> regional \<Rightarrow> limit_key \<Rightarrow> RegionalProviderLimit \<Rightarrow> millis \<Rightarrow> bool" where
  \<comment> \<open>the answer of the table at a moment of the run from which the entry has its lifetime\<close>
  "cached_from acts w0 k l e \<longleftrightarrow> (\<exists>pre. prefix pre acts \<and> query_limit k (rg_now (regional_run pre w0)) (rg_rows (regional_run pre w0)) = Some l \<and>
     e = rg_now (regional_run pre w0) + CACHE_TTL)"

lemma cached_from_snoc: "cached_from acts w0 k l e \<Longrightarrow> cached_from (acts @ [a]) w0 k l e"
  by (auto simp: cached_from_def intro: prefix_order.trans)

lemma regional_cache:
  assumes "rg_cache w0 = (\<lambda>_. None)" "rg_cache (regional_run acts w0) k = Some (l, e)"
  shows "cached_from acts w0 k l e"
  using assms(2)
proof (induction acts arbitrary: k l e rule: rev_induct)
  case Nil
  then show ?case using assms(1) by (simp add: regional_run_def)
next
  case (snoc a acts)
  define w where "w = regional_run acts w0"
  have run: "regional_run (acts @ [a]) w0 = regional_step a w" by (simp add: regional_run_def w_def)
  have "rg_cache w k = Some (l, e) \<or> (query_limit k (rg_now w) (rg_rows w) = Some l \<and> e = rg_now w + CACHE_TTL)"
    using snoc.prems unfolding run
    by (auto simp: regional_step_def lookup_limit_def upsertRegionalLimit_def deactivateRegionalLimit_def Let_def
        split: regional_act.splits option.splits if_splits)
  then show ?case
  proof
    assume "rg_cache w k = Some (l, e)"
    then show ?thesis using snoc.IH by (auto simp: w_def intro: cached_from_snoc)
  next
    assume "query_limit k (rg_now w) (rg_rows w) = Some l \<and> e = rg_now w + CACHE_TTL"
    then show ?thesis unfolding cached_from_def w_def by (intro exI [of _ acts]) auto
  qed
qed

text \<open>
  Every limit that is applied was in force, as the newest one of its provider and country or region, at
  most five minutes before, whatever was changed in the meantime.
\<close>

theorem regional_limit_fresh:
  assumes "rg_cache w0 = (\<lambda>_. None)" "fst (lookup_limit k (regional_run acts w0)) = Some l"
  shows "\<exists>pre. prefix pre acts \<and> rg_now (regional_run acts w0) \<le> rg_now (regional_run pre w0) + CACHE_TTL \<and>
    query_limit k (rg_now (regional_run pre w0)) (rg_rows (regional_run pre w0)) = Some l"
proof (cases "live (rg_now (regional_run acts w0)) (rg_cache (regional_run acts w0) k)")
  case None
  then have "query_limit k (rg_now (regional_run acts w0)) (rg_rows (regional_run acts w0)) = Some l"
    using assms(2) by (auto simp: lookup_limit_def split: option.splits)
  then show ?thesis by (intro exI [of _ acts]) (simp add: CACHE_TTL_def)
next
  case (Some x)
  then obtain e where e: "rg_cache (regional_run acts w0) k = Some (l, e)" "rg_now (regional_run acts w0) \<le> e"
    using assms(2) by (auto simp: lookup_limit_def live_def split: option.splits if_splits)
  from regional_cache [OF assms(1) e(1)] e(2) show ?thesis by (auto simp: cached_from_def)
qed

definition demo_limit :: RegionalProviderLimit where
  "demo_limit = \<lparr>rl_provider = ''mtn'', rl_region = ''r'', rl_country = ''CM'', rl_daily = Fin 9, rl_perTransaction = Fin 5,
     rl_currency = ''XAF'', rl_active = True, rl_effective = 0, rl_expiry = None\<rparr>"

definition demo_regional :: regional where
  "demo_regional = \<lparr>rg_now = 0, rg_rows = [demo_limit], rg_cache = (\<lambda>_. None)\<rparr>"

definition demo_region_acts :: "regional_act list" where
  \<comment> \<open>the limit is read by its region, then deactivated, and still applied\<close>
  "demo_region_acts = [Ask (RegionKey ''mtn'' ''r''), Deactivate ''mtn'' ''CM'' (Some 0), Tick 200000]"

theorem regional_limit_fresh_witness:
  "\<exists>pre. prefix pre demo_region_acts \<and> rg_now (regional_run demo_region_acts demo_regional) \<le> rg_now (regional_run pre demo_regional) + CACHE_TTL \<and>
    query_limit (RegionKey ''mtn'' ''r'') (rg_now (regional_run pre demo_regional)) (rg_rows (regional_run pre demo_regional)) = Some demo_limit"
proof (rule regional_limit_fresh)
  show "fst (lookup_limit (RegionKey ''mtn'' ''r'') (regional_run demo_region_acts demo_regional)) = Some demo_limit" by code_simp
qed (simp add: demo_regional_def)

end
