(* ===== verification/Sanctions.thy ===== *)
theory Sanctions
  imports Prelude
begin

text \<open>
  Screening against the lists of sanctions (\<^verbatim>\<open>src/services/sanctionService.ts\<close>,
  \<^verbatim>\<open>src/jobs/sanctionSyncJob.ts\<close>, \<^verbatim>\<open>src/compliance/feedSync.ts\<close>): the two measures of how similar names are,
  the searches of the cached and of the stored list, the screening of the parties of a payment, and
  the updates of the list. The clock of a search tells after which entries its time is used up;
  the searches of one screening are taken to happen at one time. What
  the feeds contain, once parsed, and the base address of a muxed account are parameters; an upsert obeys
  the unique indexes of the table, as PostgreSQL documents.
\<close>

section \<open>The distance of two names\<close>

fun row_cells :: "char \<Rightarrow> string \<Rightarrow> nat list \<Rightarrow> nat \<Rightarrow> nat list" where
  \<comment> \<open>the cells of the current row after the one on the left, from the diagonal on in the previous row\<close>
  "row_cells c (d # ds) (diagonal # over # previous) left =
     (let cost = (if c = d then 0 else 1); cell = min (over + 1) (min (left + 1) (diagonal + cost))
      in cell # row_cells c ds (over # previous) cell)"
| "row_cells c _ _ left = []"

definition next_row :: "string \<Rightarrow> nat \<times> nat list \<Rightarrow> char \<Rightarrow> nat \<times> nat list" where
  "next_row s2 row c = (case row of (i, previous) \<Rightarrow> (i + 1, i # row_cells c s2 previous i))"

definition levenshteinDistance :: "string \<Rightarrow> string \<Rightarrow> nat" where
  "levenshteinDistance s1 s2 =
     (if s1 = [] then length s2 else if s2 = [] then length s1 else if s1 = s2 then 0
      else snd (foldl (next_row s2) (1, [0..<length s2 + 1]) s1) ! length s2)"

definition js_nat :: "nat \<Rightarrow> jsnum" where
  "js_nat n = js_int (int n)"

definition levenshteinSimilarity :: "string \<Rightarrow> string \<Rightarrow> jsnum" where
  "levenshteinSimilarity s1 s2 =
     (let maxLen = max (length s1) (length s2)
      in if maxLen = 0 then Fin 1
         else js_sub (Fin 1) (js_div (js_nat (levenshteinDistance s1 s2)) (js_nat maxLen)))"

section \<open>Names and tokens\<close>

definition js_lower :: "char \<Rightarrow> char" where
  \<comment> \<open>\<^verbatim>\<open>toLowerCase\<close> below 256\<close>
  "js_lower c = (let n = (of_char c :: nat) in
     if 65 \<le> n \<and> n \<le> 90 \<or> 192 \<le> n \<and> n \<le> 222 \<and> n \<noteq> 215 then char_of (n + 32) else c)"

fun split_spaces :: "string \<Rightarrow> string list" where
  "split_spaces [] = [[]]"
| "split_spaces (c # s) =
     (if js_space c then [] # split_spaces s
      else case split_spaces s of [] \<Rightarrow> [[c]] | w # ws \<Rightarrow> (c # w) # ws)"

definition tokenize :: "string \<Rightarrow> string list" where
  \<comment> \<open>a set: without duplicates\<close>
  "tokenize name = remdups (filter (\<lambda>w. w \<noteq> [])
     (split_spaces (filter (\<lambda>c. word_char c \<or> js_space c) (map js_lower name))))"

definition normalizeName :: "string \<Rightarrow> string" where
  "normalizeName name = js_trim (map js_lower name)"

record SanctionEntity =
  se_name :: string
  se_country :: "string option"
  se_source :: string
  se_category :: "string option"
  se_external_id :: "string option"

record CachedSanctionEntry =
  ce_entity :: SanctionEntity
  ce_normalizedName :: string
  ce_tokens :: "string list"

definition best_similarity :: "string list \<Rightarrow> string list \<Rightarrow> jsnum" where
  "best_similarity xs ys = foldl (\<lambda>best (x, y). if js_lt best (levenshteinSimilarity x y) then levenshteinSimilarity x y else best)
     (Fin 0) (List.product xs ys)"

definition jaccard :: "string list \<Rightarrow> string list \<Rightarrow> jsnum" where
  "jaccard xs ys =
     (let inter = length (filter (\<lambda>x. x \<in> set ys) xs); union = length (remdups (xs @ ys))
      in if 0 < union then js_div (js_nat inter) (js_nat union) else Fin 0)"

definition calculateMatchScore :: "string \<Rightarrow> CachedSanctionEntry \<Rightarrow> jsnum" where
  "calculateMatchScore targetName cached =
     (let lev = levenshteinSimilarity (normalizeName targetName) (ce_normalizedName cached);
          jac = jaccard (tokenize targetName) (ce_tokens cached);
          best = best_similarity (tokenize targetName) (ce_tokens cached)
      in js_min (Fin 1) (js_add (js_add (js_mul lev (num (6 / 10))) (js_mul jac (Fin (1 / 4)))) (js_mul best (num (15 / 100)))))"

section \<open>Jaro and Winkler\<close>

definition find_match :: "int \<Rightarrow> string \<Rightarrow> nat \<Rightarrow> char \<Rightarrow> bool list \<Rightarrow> nat option" where
  \<comment> \<open>the first free position of \<open>s2\<close> in the range that holds the character at position \<open>i\<close>\<close>
  "find_match maxDist s2 i c match2 = find (\<lambda>j. \<not> match2 ! j \<and> s2 ! j = c)
     [nat (max 0 (int i - maxDist))..<nat (min (int i + maxDist + 1) (int (length s2)))]"

definition match_step :: "int \<Rightarrow> string \<Rightarrow> bool list \<times> bool list \<Rightarrow> nat \<times> char \<Rightarrow> bool list \<times> bool list" where
  "match_step maxDist s2 ms ic = (case (ms, ic) of ((match1, match2), (i, c)) \<Rightarrow>
     case find_match maxDist s2 i c match2 of
       None \<Rightarrow> (match1 @ [False], match2)
     | Some j \<Rightarrow> (match1 @ [True], match2[j := True]))"

definition jaro_matches :: "string \<Rightarrow> string \<Rightarrow> bool list \<times> bool list" where
  "jaro_matches s1 s2 = foldl (match_step (int (max (length s1) (length s2) div 2) - 1) s2)
     ([], replicate (length s2) False) (enumerate 0 s1)"

definition selected :: "string \<Rightarrow> bool list \<Rightarrow> string" where
  "selected s ms = map fst (filter snd (zip s ms))"

definition jaroWinkler :: "string \<Rightarrow> string \<Rightarrow> jsnum" where
  "jaroWinkler s1 s2 =
     (if s1 = s2 then Fin 1
      else if s1 = [] \<or> s2 = [] then Fin 0
      else case jaro_matches s1 s2 of (match1, match2) \<Rightarrow>
        let matches = length (filter (\<lambda>b. b) match1)
        in if matches = 0 then Fin 0
           else let transpositions = length (filter (\<lambda>(a, b). a \<noteq> b) (zip (selected s1 match1) (selected s2 match2)));
             m = js_nat matches;
             jaro = js_div (js_add (js_add (js_div m (js_nat (length s1))) (js_div m (js_nat (length s2))))
               (js_div (js_sub m (js_div (js_nat transpositions) (Fin 2))) m)) (Fin 3);
             prefix = length (takeWhile (\<lambda>(a, b). a = b) (zip (take 4 s1) (take 4 s2)))
           in js_add jaro (js_mul (js_mul (js_nat prefix) (num (1 / 10))) (js_sub (Fin 1) jaro)))"

section \<open>Searches\<close>

record sanction_match =
  mt_entity :: SanctionEntity
  mt_score :: jsnum

fun score_rank :: "jsnum \<Rightarrow> rat" where
  \<comment> \<open>scores are finite\<close>
  "score_rank (Fin q) = - q"
| "score_rank _ = 0"

definition by_score :: "sanction_match list \<Rightarrow> sanction_match list" where
  "by_score = sort_key (\<lambda>m. score_rank (mt_score m))"

definition DEFAULT_THRESHOLD :: jsnum where
  "DEFAULT_THRESHOLD = num (85 / 100)"

definition searchSanctions :: "SanctionEntity list \<Rightarrow> string \<Rightarrow> jsnum \<Rightarrow> sanction_match list" where
  "searchSanctions rows name threshold =
     by_score (filter (\<lambda>m. js_le threshold (mt_score m))
       (map (\<lambda>e. \<lparr>mt_entity = e, mt_score = jaroWinkler (normalizeName name) (normalizeName (se_name e))\<rparr>) rows))"

record sanction_service =
  sc_cache :: "CachedSanctionEntry list"
  sc_initialized :: bool
  sc_lastUpdate :: millis

definition CACHE_EXPIRY_MS :: millis where
  "CACHE_EXPIRY_MS = 3600000"

definition cached_entry :: "SanctionEntity \<Rightarrow> CachedSanctionEntry" where
  "cached_entry e = \<lparr>ce_entity = e, ce_normalizedName = normalizeName (se_name e), ce_tokens = tokenize (se_name e)\<rparr>"

definition ensureCacheInitialized :: "millis \<Rightarrow> SanctionEntity list option \<Rightarrow> sanction_service \<Rightarrow> sanction_service option" where
  \<comment> \<open>the rows of the table, None where the query throws\<close>
  "ensureCacheInitialized now rows s =
     (if sc_initialized s \<and> now - sc_lastUpdate s < CACHE_EXPIRY_MS then Some s
      else case rows of None \<Rightarrow> None
      | Some es \<Rightarrow> Some \<lparr>sc_cache = map cached_entry es, sc_initialized = True, sc_lastUpdate = now\<rparr>)"

fun search_entries :: "string \<Rightarrow> jsnum \<Rightarrow> (nat \<Rightarrow> bool) \<Rightarrow> nat \<Rightarrow> CachedSanctionEntry list \<Rightarrow> sanction_match list" where
  \<comment> \<open>the loop, which breaks off once more than 15 ms have passed\<close>
  "search_entries name threshold late k [] = []"
| "search_entries name threshold late k (e # es) =
     (let score = calculateMatchScore name e;
          found = (if js_le threshold score then [\<lparr>mt_entity = ce_entity e, mt_score = score\<rparr>] else [])
      in found @ (if late k then [] else search_entries name threshold late (k + 1) es))"

definition searchSanctionsWithLevenshtein ::
  "millis \<Rightarrow> SanctionEntity list option \<Rightarrow> (nat \<Rightarrow> bool) \<Rightarrow> string \<Rightarrow> jsnum \<Rightarrow> sanction_service \<Rightarrow>
   sanction_match list option \<times> sanction_service" where
  "searchSanctionsWithLevenshtein now rows late name threshold s =
     (case ensureCacheInitialized now rows s of
        None \<Rightarrow> (None, s)
      | Some s1 \<Rightarrow> (Some (by_score (search_entries name threshold late 0 (sc_cache s1))), s1))"

section \<open>Screening the parties of a payment\<close>

datatype party = Sender | Receiver

datatype screening_error =
    SanctionScreeningError party string string jsnum string
  | SearchFailed
  | InvalidSenderAddress
  | InvalidReceiverAddress

fun screen ::
  "millis \<Rightarrow> SanctionEntity list option \<Rightarrow> (party \<Rightarrow> nat \<Rightarrow> bool) \<Rightarrow> (string \<times> party) list \<Rightarrow> sanction_service \<Rightarrow>
   (screening_error + unit) \<times> sanction_service" where
  "screen now rows late [] s = (Inr (), s)"
| "screen now rows late ((name, role) # parties) s =
     (case searchSanctionsWithLevenshtein now rows (late role) name DEFAULT_THRESHOLD s of
        (None, s1) \<Rightarrow> (Inl SearchFailed, s1)
      | (Some [], s1) \<Rightarrow> screen now rows late parties s1
      | (Some (m # _), s1) \<Rightarrow>
          (Inl (SanctionScreeningError role name (se_name (mt_entity m)) (mt_score m) (se_source (mt_entity m))), s1))"

definition checkParties ::
  "millis \<Rightarrow> SanctionEntity list option \<Rightarrow> (party \<Rightarrow> nat \<Rightarrow> bool) \<Rightarrow> string \<Rightarrow> string \<Rightarrow> sanction_service \<Rightarrow>
   (screening_error + unit) \<times> sanction_service" where
  "checkParties now rows late senderName receiverName s =
     screen now rows late [(senderName, Sender), (receiverName, Receiver)] s"

definition checkPartiesByAddress ::
  "(string \<Rightarrow> string option) \<Rightarrow> millis \<Rightarrow> SanctionEntity list option \<Rightarrow> (party \<Rightarrow> nat \<Rightarrow> bool) \<Rightarrow> string \<Rightarrow> string \<Rightarrow> string option \<Rightarrow>
   string option \<Rightarrow> sanction_service \<Rightarrow> (screening_error + unit) \<times> sanction_service" where
  "checkPartiesByAddress resolve now rows late senderAddress receiverAddress senderName receiverName s =
     (case resolve senderAddress of
        None \<Rightarrow> (Inl InvalidSenderAddress, s)
      | Some from_base \<Rightarrow>
          (case resolve receiverAddress of
             None \<Rightarrow> (Inl InvalidReceiverAddress, s)
           | Some to_base \<Rightarrow>
               let name = (\<lambda>n base. case n of Some x \<Rightarrow> if x \<noteq> [] then x else base | None \<Rightarrow> base)
               in screen now rows late [(name senderName from_base, Sender), (name receiverName to_base, Receiver)] s))"

section \<open>Updates of the list\<close>

datatype column = IdColumn | NameColumn | SourceColumn | ExternalIdColumn

definition sanction_list_uniques :: "column list list" where
  \<comment> \<open>the unique indexes of the table: its primary key only\<close>
  "sanction_list_uniques = [[IdColumn]]"

definition upsert :: "column list list \<Rightarrow> SanctionEntity \<Rightarrow> SanctionEntity list \<Rightarrow> SanctionEntity list option" where
  \<comment> \<open>\<^verbatim>\<open>INSERT ... ON CONFLICT (external_id, source) DO UPDATE\<close>, which needs a unique index on these columns;
      rows without an external id never conflict\<close>
  "upsert uniques e rows =
     (if \<not> list_ex (\<lambda>u. set u = {ExternalIdColumn, SourceColumn}) uniques then None
      else if se_external_id e \<noteq> None \<and> list_ex (\<lambda>r. se_external_id r = se_external_id e \<and> se_source r = se_source e) rows
      then Some (map (\<lambda>r. if se_external_id r = se_external_id e \<and> se_source r = se_source e then e else r) rows)
      else Some (rows @ [e]))"

fun upsert_all :: "column list list \<Rightarrow> SanctionEntity list \<Rightarrow> SanctionEntity list \<Rightarrow> SanctionEntity list option" where
  "upsert_all uniques [] rows = Some rows"
| "upsert_all uniques (e # es) rows = Option.bind (upsert uniques e rows) (upsert_all uniques es)"

definition updateSanctionList ::
  "column list list \<Rightarrow> SanctionEntity list \<Rightarrow> SanctionEntity list \<Rightarrow> sanction_service \<Rightarrow> bool \<times> SanctionEntity list \<times> sanction_service" where
  \<comment> \<open>whether it returns; a transaction that throws is rolled back\<close>
  "updateSanctionList uniques es rows s =
     (case upsert_all uniques es rows of
        None \<Rightarrow> (False, rows, s)
      | Some rows1 \<Rightarrow> (True, rows1, s\<lparr>sc_initialized := False, sc_cache := []\<rparr>))"

definition updateSanctionListBatch :: "column list list \<Rightarrow> SanctionEntity list \<Rightarrow> SanctionEntity list \<Rightarrow> bool \<times> SanctionEntity list" where
  "updateSanctionListBatch uniques es rows =
     (case upsert_all uniques es rows of None \<Rightarrow> (False, rows) | Some rows1 \<Rightarrow> (True, rows1))"

definition SEED_SANCTIONS :: "SanctionEntity list" where
  "SEED_SANCTIONS =
     [\<lparr>se_name = ''John Doe'', se_country = Some ''Country A'', se_source = ''UN'', se_category = Some ''Individual'', se_external_id = Some ''UN-123''\<rparr>,
      \<lparr>se_name = ''Global Arms Ltd'', se_country = Some ''Country B'', se_source = ''OFAC'', se_category = Some ''Entity'', se_external_id = Some ''OFAC-456''\<rparr>,
      \<lparr>se_name = ''Jane Smith'', se_country = Some ''Country C'', se_source = ''EU'', se_category = Some ''Individual'', se_external_id = Some ''EU-789''\<rparr>,
      \<lparr>se_name = ''Osama bin Laden'', se_country = Some ''Saudi Arabia'', se_source = ''UN'', se_category = Some ''Individual'', se_external_id = Some ''UN-001''\<rparr>]"

definition merge_seeds :: "SanctionEntity list \<Rightarrow> SanctionEntity list" where
  \<comment> \<open>the end of \<^verbatim>\<open>fetchSanctionUpdates\<close>\<close>
  "merge_seeds fetched = foldl (\<lambda>merged seed.
     if list_ex (\<lambda>e. se_external_id e = se_external_id seed \<and> se_source e = se_source seed) merged then merged
     else merged @ [seed]) fetched SEED_SANCTIONS"

record user_profile =
  up_id :: id
  up_displayName :: string
  up_firstName :: string
  up_lastName :: string

definition namesToScreen :: "user_profile \<Rightarrow> string list" where
  "namesToScreen u = filter (\<lambda>n. js_trim n \<noteq> [])
     ((if up_displayName u \<noteq> [] then [up_displayName u] else []) @
      (if up_firstName u \<noteq> [] \<and> up_lastName u \<noteq> [] then [up_firstName u @ '' '' @ up_lastName u]
       else if up_firstName u \<noteq> [] then [up_firstName u] else if up_lastName u \<noteq> [] then [up_lastName u] else []))"

fun any_match ::
  "millis \<Rightarrow> SanctionEntity list option \<Rightarrow> (string \<Rightarrow> nat \<Rightarrow> bool) \<Rightarrow> string list \<Rightarrow> sanction_service \<Rightarrow> bool option \<times> sanction_service" where
  "any_match now rows late [] s = (Some False, s)"
| "any_match now rows late (n # ns) s =
     (case searchSanctionsWithLevenshtein now rows (late n) n DEFAULT_THRESHOLD s of
        (None, s1) \<Rightarrow> (None, s1)
      | (Some [], s1) \<Rightarrow> any_match now rows late ns s1
      | (Some (_ # _), s1) \<Rightarrow> (Some True, s1))"

fun screen_users ::
  "millis \<Rightarrow> SanctionEntity list option \<Rightarrow> (id \<Rightarrow> string \<Rightarrow> nat \<Rightarrow> bool) \<Rightarrow> user_profile list \<Rightarrow> sanction_service \<Rightarrow> id list \<times> bool \<times> sanction_service" where
  \<comment> \<open>the users suspended, and whether the screening came to its end\<close>
  "screen_users now rows late [] s = ([], True, s)"
| "screen_users now rows late (u # us) s =
     (case any_match now rows (late (up_id u)) (namesToScreen u) s of
        (None, s1) \<Rightarrow> ([], False, s1)
      | (Some found, s1) \<Rightarrow>
          (case screen_users now rows late us s1 of
             (ids, done, s2) \<Rightarrow> ((if found then up_id u # ids else ids), done, s2)))"

definition runSanctionSyncJob ::
  "column list list \<Rightarrow> millis \<Rightarrow> (id \<Rightarrow> string \<Rightarrow> nat \<Rightarrow> bool) \<Rightarrow> SanctionEntity list \<Rightarrow> user_profile list \<Rightarrow> SanctionEntity list \<Rightarrow> sanction_service \<Rightarrow>
   id list \<times> bool \<times> SanctionEntity list \<times> sanction_service" where
  \<comment> \<open>the users suspended, whether the job returns, the table and the cache\<close>
  "runSanctionSyncJob uniques now late fetched users rows s =
     (case updateSanctionList uniques (merge_seeds fetched) rows s of
        (False, rows1, s1) \<Rightarrow> ([], False, rows1, s1)
      | (True, rows1, s1) \<Rightarrow>
          (case screen_users now (Some rows1) late users s1 of (ids, done, s2) \<Rightarrow> (ids, done, rows1, s2)))"

definition atomicSanctionsSwap :: "bool \<Rightarrow> SanctionEntity list \<Rightarrow> string \<Rightarrow> SanctionEntity list \<Rightarrow> bool \<times> SanctionEntity list" where
  \<comment> \<open>\<open>committed\<close>: whether every statement and the commit succeed\<close>
  "atomicSanctionsSwap committed entries feedSource rows =
     (if committed then (True, filter (\<lambda>r. se_source r \<noteq> feedSource) rows @ entries) else (False, rows))"

end
