(* ===== verification/Aml_Rules.thy ===== *)
theory Aml_Rules
  imports Currency Decimal Transaction_Status Sanctions
begin

text \<open>
  The rules against money laundering (\<^verbatim>\<open>src/services/aml.ts\<close>, with its callers in
  \<^verbatim>\<open>src/controllers/transactionController.ts\<close>, \<^verbatim>\<open>src/queue/syncWorker.ts\<close> and \<^verbatim>\<open>src/routes/reports.ts\<close>, and the
  snapshot of \<^verbatim>\<open>src/services/cachedTransactionService.ts\<close>): rules on amounts and their frequency, the score of a
  customer's profile, and the alerts. Alerts and the lists in them are objects that several variables
  share, so they live in a store and are referred to by their address. The distance of two places,
  the average of the database and the rates are parameters; a call that throws
  answers None.
\<close>

section \<open>Numbers and dates\<close>

definition radix_digit :: "char \<Rightarrow> nat" where
  \<comment> \<open>36 where the character is no digit\<close>
  "radix_digit c = (let n = (of_char c :: nat) in
     if 48 \<le> n \<and> n \<le> 57 then n - 48 else if 97 \<le> n \<and> n \<le> 102 then n - 87
     else if 65 \<le> n \<and> n \<le> 70 then n - 55 else 36)"

definition radix_number :: "nat \<Rightarrow> string \<Rightarrow> jsnum" where
  "radix_number b s =
     (if s \<noteq> [] \<and> list_all (\<lambda>c. radix_digit c < b) s then num (of_nat (foldl (\<lambda>n c. b * n + radix_digit c) 0 s)) else NaN)"

definition exponent_part :: "string \<Rightarrow> bool" where
  "exponent_part s \<longleftrightarrow> s = [] \<or> (take 1 s \<in> {''e'', ''E''} \<and>
     (let u = drop 1 s; v = (if take 1 u \<in> {''-'', ''+''} then drop 1 u else u) in v \<noteq> [] \<and> list_all js_digit v))"

definition js_Number :: "string \<Rightarrow> jsnum" where
  \<comment> \<open>\<^verbatim>\<open>Number(s)\<close> of a string\<close>
  "js_Number s =
     (let t = js_trim s;
          neg = (take 1 t = ''-'');
          u = (if take 1 t \<in> {''-'', ''+''} then drop 1 t else t);
          w = takeWhile js_digit u;
          rest = dropWhile js_digit u;
          frac = (if take 1 rest = ''.'' then takeWhile js_digit (drop 1 rest) else []);
          after = (if take 1 rest = ''.'' then dropWhile js_digit (drop 1 rest) else rest)
      in if t = [] then Fin 0
         else if take 2 t \<in> {''0x'', ''0X''} then radix_number 16 (drop 2 t)
         else if take 2 t \<in> {''0o'', ''0O''} then radix_number 8 (drop 2 t)
         else if take 2 t \<in> {''0b'', ''0B''} then radix_number 2 (drop 2 t)
         else if u = ''Infinity'' then (if neg then NInf else PInf)
         else if w @ frac = [] \<or> \<not> exponent_part after then NaN
         else let v = of_nat (dec_val (w @ frac)) * pow10 (exponent_of after - int (length frac))
              in num (if neg then - v else v))"

fun js_date :: "jsnum \<Rightarrow> millis option" where
  \<comment> \<open>\<^verbatim>\<open>new Date(x)\<close>, None where it is invalid\<close>
  "js_date (Fin x) = (if \<bar>x\<bar> \<le> 8640000000000000 then Some (if 0 \<le> x then \<lfloor>x\<rfloor> else \<lceil>x\<rceil>) else None)"
| "js_date _ = None"

definition since :: "millis option \<Rightarrow> millis \<Rightarrow> bool" where
  \<comment> \<open>\<^verbatim>\<open>t >= start\<close>\<close>
  "since start t = (case start of Some s \<Rightarrow> s \<le> t | None \<Rightarrow> False)"

fun toFiniteNumber :: "jsval \<Rightarrow> jsnum option" where
  "toFiniteNumber (JNumber n) = (if js_isFinite n then Some n else None)"
| "toFiniteNumber (JString s) = (if js_isFinite (js_Number s) then Some (js_Number s) else None)"
| "toFiniteNumber _ = None"

section \<open>Records\<close>

datatype AMLTransactionType = Deposit | Withdraw
datatype AMLAlertSeverity = Medium | High
datatype AMLAlertStatus = Pending_review | Reviewed | Dismissed
datatype AMLRecommendedAction = Allow | Review

datatype AMLRule = Single_transaction_threshold | Daily_total_threshold | Rapid_structuring | Sanction_match
  | Dynamic_profile_score | Threshold_structuring | Velocity_threshold

record location_metadata =
  \<comment> \<open>the members that are read\<close>
  lo_status :: jsval
  lo_lat :: jsval
  lo_lng :: jsval
  lo_lon :: jsval

record AMLTransactionRecord =
  at_id :: id
  at_userId :: "id option" \<comment> \<open>None where the row has none\<close>
  at_type :: AMLTransactionType
  at_amount :: jsnum
  at_createdAt :: millis
  at_currency :: "string option"
  at_originalAmount :: "jsnum option"
  at_convertedAmount :: "jsnum option"
  at_location :: "location_metadata option"

datatype AMLMessage =
    AmountExceeds jsnum jsnum
  | UsdExceeds jsnum jsnum \<comment> \<open>the amount to two decimals\<close>
  | TotalExceeds jsnum jsnum
  | RapidPattern nat jsnum \<comment> \<open>the transactions and the minutes\<close>
  | Structuring nat jsnum
  | SanctionMatch string jsnum string
  | ScoreExceeds jsnum jsnum
  | AmountAnomaly jsnum jsnum jsnum
  | HourlyVelocity jsnum jsnum
  | DailyVelocity jsnum jsnum
  | FrequencySpike jsnum
  | GeographicHop jsnum jsnum
  | OtherMessage string \<comment> \<open>of another engine\<close>

record AMLRuleHit =
  hit_rule :: AMLRule
  hit_message :: AMLMessage
  hit_observed :: jsnum
  hit_threshold :: jsnum

record AMLConfig =
  singleTransactionThresholdXaf :: jsnum
  dailyTotalThresholdXaf :: jsnum
  rollingWindowHours :: jsnum
  rapidWindowMinutes :: jsnum
  rapidTransactionCount :: jsnum
  structuringFloorXaf :: jsnum
  structuringThresholdRatio :: jsnum
  structuringFrequencyLimit :: jsnum
  alertBufferSize :: jsnum
  profileScoreThreshold :: jsnum
  velocityHourlyCap :: jsnum
  velocityDailyCap :: jsnum
  movingAverageWindowDays :: jsnum
  amountMultiplierLimit :: jsnum
  frequencySpikeMultiplier :: jsnum
  geoHopMaxKm :: jsnum
  geoHopMaxHours :: jsnum
  highValueReportThresholdUsd :: jsnum

definition env_number :: "(string \<Rightarrow> string option) \<Rightarrow> string \<Rightarrow> rat \<Rightarrow> jsnum" where
  \<comment> \<open>\<^verbatim>\<open>Number(process.env[name] || d)\<close>\<close>
  "env_number env name d = (case env name of Some s \<Rightarrow> if s \<noteq> [] then js_Number s else num d | None \<Rightarrow> num d)"

definition defaultConfig :: "(string \<Rightarrow> string option) \<Rightarrow> AMLConfig" where
  "defaultConfig env = \<lparr>
     singleTransactionThresholdXaf = env_number env ''AML_SINGLE_TRANSACTION_THRESHOLD_XAF'' 1000000,
     dailyTotalThresholdXaf = env_number env ''AML_DAILY_TOTAL_THRESHOLD_XAF'' 5000000,
     rollingWindowHours = env_number env ''AML_ROLLING_WINDOW_HOURS'' 24,
     rapidWindowMinutes = env_number env ''AML_RAPID_WINDOW_MINUTES'' 15,
     rapidTransactionCount = env_number env ''AML_RAPID_TRANSACTION_COUNT'' 3,
     structuringFloorXaf = env_number env ''AML_STRUCTURING_FLOOR_XAF'' 100000,
     structuringThresholdRatio = env_number env ''AML_STRUCTURING_THRESHOLD_RATIO'' (8 / 10),
     structuringFrequencyLimit = env_number env ''AML_STRUCTURING_FREQUENCY_LIMIT'' 3,
     alertBufferSize = env_number env ''AML_ALERT_BUFFER_SIZE'' 5000,
     profileScoreThreshold = env_number env ''AML_PROFILE_SCORE_THRESHOLD'' 50,
     velocityHourlyCap = env_number env ''AML_VELOCITY_HOURLY_CAP'' 5,
     velocityDailyCap = env_number env ''AML_VELOCITY_DAILY_CAP'' 15,
     movingAverageWindowDays = env_number env ''AML_MOVING_AVERAGE_WINDOW_DAYS'' 30,
     amountMultiplierLimit = env_number env ''AML_AMOUNT_MULTIPLIER_LIMIT'' 3,
     frequencySpikeMultiplier = env_number env ''AML_FREQUENCY_SPIKE_MULTIPLIER'' 3,
     geoHopMaxKm = env_number env ''AML_GEO_HOP_MAX_KM'' 250,
     geoHopMaxHours = env_number env ''AML_GEO_HOP_MAX_HOURS'' 6,
     highValueReportThresholdUsd = env_number env ''AML_HIGH_VALUE_REPORT_THRESHOLD_USD'' 10000\<rparr>"

section \<open>High values\<close>

definition normalizeSupportedCurrency :: "string option \<Rightarrow> string" where
  "normalizeSupportedCurrency c = (case c of
     Some v \<Rightarrow> if v \<noteq> [] \<and> isSupportedCurrency (map to_upper v) then map to_upper v else ''USD''
   | None \<Rightarrow> ''USD'')"

record AMLHighValueAssessment =
  hv_qualifies :: bool
  hv_thresholdUsd :: jsnum
  hv_usdEquivalent :: jsnum
  hv_originalCurrency :: string
  hv_sourceAmount :: jsnum

definition finite_or_none :: "jsnum option \<Rightarrow> jsnum option" where
  "finite_or_none v = (case v of Some n \<Rightarrow> toFiniteNumber (JNumber n) | None \<Rightarrow> None)"

definition assessHighValueTransaction ::
  "AMLConfig \<Rightarrow> exchange_rates \<Rightarrow> AMLTransactionRecord \<Rightarrow> currency_error + AMLHighValueAssessment" where
  "assessHighValueTransaction cfg rates t =
     (let currency = normalizeSupportedCurrency (at_currency t);
          source = (case finite_or_none (at_originalAmount t) of Some n \<Rightarrow> n | None \<Rightarrow> at_amount t);
          result = (\<lambda>usd. \<lparr>hv_qualifies = js_lt (highValueReportThresholdUsd cfg) usd,
            hv_thresholdUsd = highValueReportThresholdUsd cfg, hv_usdEquivalent = usd,
            hv_originalCurrency = currency, hv_sourceAmount = source\<rparr>);
          stored = finite_or_none (at_convertedAmount t)
      in if stored \<noteq> None \<and> js_le (Fin 0) (the stored)
         then Inr (result (if currency = ''USD'' then source else the stored))
         else if currency \<noteq> ''USD''
         then (case convertToBase rates source currency of Inl e \<Rightarrow> Inl e | Inr r \<Rightarrow> Inr (result (convertedAmount r)))
         else Inr (result source))"

section \<open>The rules\<close>

definition getLookbackWindowStart :: "AMLConfig \<Rightarrow> millis \<Rightarrow> millis option" where
  "getLookbackWindowStart cfg now =
     js_date (js_sub (js_int now) (js_mul (js_mul (js_mul (rollingWindowHours cfg) (Fin 60)) (Fin 60)) (Fin 1000)))"

definition getRapidWindowStart :: "AMLConfig \<Rightarrow> millis \<Rightarrow> millis option" where
  "getRapidWindowStart cfg now =
     js_date (js_sub (js_int now) (js_mul (js_mul (rapidWindowMinutes cfg) (Fin 60)) (Fin 1000)))"

definition single_hits :: "AMLConfig \<Rightarrow> AMLHighValueAssessment \<Rightarrow> AMLTransactionRecord \<Rightarrow> AMLRuleHit list" where
  "single_hits cfg hv t =
     (if js_lt (singleTransactionThresholdXaf cfg) (at_amount t)
      then [\<lparr>hit_rule = Single_transaction_threshold, hit_message = AmountExceeds (at_amount t) (singleTransactionThresholdXaf cfg),
        hit_observed = at_amount t, hit_threshold = singleTransactionThresholdXaf cfg\<rparr>]
      else if hv_qualifies hv
      then [\<lparr>hit_rule = Single_transaction_threshold,
        hit_message = UsdExceeds (js_toFixed 2 (hv_usdEquivalent hv)) (hv_thresholdUsd hv),
        hit_observed = hv_usdEquivalent hv, hit_threshold = hv_thresholdUsd hv\<rparr>]
      else [])"

definition rolling_total :: "AMLTransactionRecord \<Rightarrow> AMLTransactionRecord list \<Rightarrow> jsnum" where
  "rolling_total t txs = js_add (foldl (\<lambda>sum x. js_add sum (at_amount x)) (Fin 0) txs) (at_amount t)"

definition total_hits :: "AMLConfig \<Rightarrow> AMLTransactionRecord \<Rightarrow> AMLTransactionRecord list \<Rightarrow> AMLRuleHit list" where
  "total_hits cfg t windowTxs =
     (let total = rolling_total t windowTxs in
      if js_lt (dailyTotalThresholdXaf cfg) total
      then [\<lparr>hit_rule = Daily_total_threshold, hit_message = TotalExceeds total (dailyTotalThresholdXaf cfg),
        hit_observed = total, hit_threshold = dailyTotalThresholdXaf cfg\<rparr>]
      else [])"

definition at_least :: "nat \<Rightarrow> jsnum \<Rightarrow> bool" where
  "at_least n threshold = js_le threshold (js_int (int n))"

definition rapid_hits :: "AMLConfig \<Rightarrow> AMLTransactionRecord \<Rightarrow> AMLTransactionRecord list \<Rightarrow> AMLRuleHit list" where
  "rapid_hits cfg t windowTxs =
     (let start = getRapidWindowStart cfg (at_createdAt t);
          rapidSet = filter (\<lambda>x. since start (at_createdAt x)) windowTxs @ [t];
          structuring = filter (\<lambda>x. js_le (structuringFloorXaf cfg) (at_amount x) \<and>
            js_lt (at_amount x) (singleTransactionThresholdXaf cfg)) rapidSet
      in if at_least (length rapidSet) (rapidTransactionCount cfg) \<and>
            list_ex (\<lambda>x. at_type x = Deposit) rapidSet \<and> list_ex (\<lambda>x. at_type x = Withdraw) rapidSet \<and>
            at_least (length structuring) (rapidTransactionCount cfg)
         then [\<lparr>hit_rule = Rapid_structuring, hit_message = RapidPattern (length rapidSet) (rapidWindowMinutes cfg),
           hit_observed = js_int (int (length rapidSet)), hit_threshold = rapidTransactionCount cfg\<rparr>]
         else [])"

definition just_below :: "AMLConfig \<Rightarrow> AMLTransactionRecord \<Rightarrow> bool" where
  "just_below cfg x \<longleftrightarrow>
     js_le (js_mul (singleTransactionThresholdXaf cfg) (structuringThresholdRatio cfg)) (at_amount x) \<and>
     js_lt (at_amount x) (singleTransactionThresholdXaf cfg)"

definition structuring_hits :: "AMLConfig \<Rightarrow> AMLTransactionRecord \<Rightarrow> AMLTransactionRecord list \<Rightarrow> AMLRuleHit list" where
  "structuring_hits cfg t windowTxs =
     (let n = length (filter (just_below cfg) windowTxs) + (if just_below cfg t then 1 else 0) in
      if at_least n (structuringFrequencyLimit cfg)
      then [\<lparr>hit_rule = Threshold_structuring, hit_message = Structuring n (singleTransactionThresholdXaf cfg),
        hit_observed = js_int (int n), hit_threshold = structuringFrequencyLimit cfg\<rparr>]
      else [])"

definition rule_hits ::
  "AMLConfig \<Rightarrow> exchange_rates \<Rightarrow> AMLTransactionRecord \<Rightarrow> AMLTransactionRecord list \<Rightarrow> currency_error + AMLRuleHit list" where
  \<comment> \<open>\<^verbatim>\<open>evaluateTransaction\<close>, up to the alert\<close>
  "rule_hits cfg rates t recent =
     (let windowTxs = filter (\<lambda>x. since (getLookbackWindowStart cfg (at_createdAt t)) (at_createdAt x)) recent in
      case assessHighValueTransaction cfg rates t of
        Inl e \<Rightarrow> Inl e
      | Inr hv \<Rightarrow> Inr (single_hits cfg hv t @ total_hits cfg t windowTxs @ rapid_hits cfg t windowTxs @
          structuring_hits cfg t windowTxs))"

definition hits_severity :: "AMLRuleHit list \<Rightarrow> AMLAlertSeverity" where
  "hits_severity hits =
     (if list_ex (\<lambda>h. hit_rule h \<in> {Single_transaction_threshold, Daily_total_threshold, Threshold_structuring}) hits
      then High else Medium)"

section \<open>The profile of a customer\<close>

record transaction_row =
  \<comment> \<open>the columns that are read; amounts are decimals\<close>
  tr_id :: id
  tr_userId :: "id option"
  tr_type :: AMLTransactionType
  tr_amount :: rat
  tr_currency :: "string option"
  tr_originalAmount :: "rat option"
  tr_convertedAmount :: "rat option"
  tr_location :: "location_metadata option"
  tr_createdAt :: millis

record CachedAmlProfileSnapshot =
  sn_historicalCount :: nat
  sn_countLastHour :: nat
  sn_countLast24Hours :: nat
  sn_countLast7Days :: nat
  sn_movingAverageAmount :: jsnum
  sn_lastLocationAt :: "millis option"
  sn_lastLocationMetadata :: "location_metadata option"

definition scoped :: "id \<Rightarrow> millis \<Rightarrow> id option \<Rightarrow> transaction_row list \<Rightarrow> transaction_row list" where
  "scoped userId asOf exclude txs = filter (\<lambda>r. tr_userId r = Some userId \<and> tr_createdAt r \<le> asOf \<and>
     (case exclude of Some i \<Rightarrow> tr_id r \<noteq> i | None \<Rightarrow> True)) txs"

definition last_located :: "transaction_row list \<Rightarrow> transaction_row option" where
  "last_located txs = (case sort_key (\<lambda>r. - tr_createdAt r) (filter (\<lambda>r. tr_location r \<noteq> None) txs) of
     [] \<Rightarrow> None | r # _ \<Rightarrow> Some r)"

definition getAmlProfileSnapshot ::
  "(rat list \<Rightarrow> jsnum) \<Rightarrow> jsnum \<Rightarrow> id \<Rightarrow> millis \<Rightarrow> id option \<Rightarrow> transaction_row list \<Rightarrow> CachedAmlProfileSnapshot option" where
  \<comment> \<open>the query; \<open>avg\<close> is \<^verbatim>\<open>AVG(amount)::float8\<close> of a list that is not empty\<close>
  "getAmlProfileSnapshot avg days userId asOf exclude txs =
     (let rows = scoped userId asOf exclude txs;
          from_time = (\<lambda>t. filter (\<lambda>r. t \<le> tr_createdAt r) rows);
          located = last_located rows
      in case js_date (js_sub (js_int asOf) (js_mul (js_mul (js_mul (js_mul (js_max (Fin 1) days) (Fin 24)) (Fin 60)) (Fin 60)) (Fin 1000))) of
           None \<Rightarrow> None
         | Some start \<Rightarrow> Some \<lparr>
             sn_historicalCount = length rows,
             sn_countLastHour = length (from_time (asOf - 60 * 60 * 1000)),
             sn_countLast24Hours = length (from_time (asOf - 24 * 60 * 60 * 1000)),
             sn_countLast7Days = length (from_time (asOf - 7 * 24 * 60 * 60 * 1000)),
             sn_movingAverageAmount = (if from_time start = [] then Fin 0 else avg (map tr_amount (from_time start))),
             sn_lastLocationAt = map_option tr_createdAt located,
             sn_lastLocationMetadata = Option.bind located tr_location\<rparr>)"

definition normalizeLocationMetadata :: "location_metadata option \<Rightarrow> (jsnum \<times> jsnum) option" where
  "normalizeLocationMetadata v = (case v of
     None \<Rightarrow> None
   | Some l \<Rightarrow>
       if (case lo_status l of JString st \<Rightarrow> st \<noteq> [] \<and> st \<noteq> ''resolved'' | _ \<Rightarrow> False) then None
       else (case (toFiniteNumber (lo_lat l),
                   toFiniteNumber (if lo_lng l \<in> {JUndefined, JNull} then lo_lon l else lo_lng l)) of
           (Some lat, Some lng) \<Rightarrow> Some (lat, lng)
         | _ \<Rightarrow> None))"

record AMLRiskProfile =
  rp_historicalCount :: nat
  rp_countLastHour :: nat
  rp_countLast24Hours :: nat
  rp_countLast7Days :: nat
  rp_movingAverageAmount :: jsnum
  rp_amountVsAverageRatio :: jsnum
  rp_hourlyVelocityRatio :: jsnum
  rp_dailyVelocityRatio :: jsnum
  rp_averageDailyCount :: jsnum
  rp_frequencySpikeRatio :: jsnum
  rp_geographicHop :: "(jsnum \<times> jsnum) option" \<comment> \<open>kilometres and hours\<close>

record profile_result =
  pr_flagged :: bool
  pr_ruleHits :: "AMLRuleHit list"
  pr_riskScore :: jsnum
  pr_scoreThreshold :: jsnum
  pr_recommendedAction :: AMLRecommendedAction
  pr_reasons :: "AMLMessage list"
  pr_profile :: AMLRiskProfile

type_synonym distance = "jsnum \<times> jsnum \<Rightarrow> jsnum \<times> jsnum \<Rightarrow> jsnum"

definition risk_profile ::
  "AMLConfig \<Rightarrow> distance \<Rightarrow> AMLTransactionRecord \<Rightarrow> CachedAmlProfileSnapshot \<Rightarrow> AMLRiskProfile" where
  "risk_profile cfg distanceKm t sn =
     (let average = (if js_lt (Fin 0) (sn_movingAverageAmount sn) then sn_movingAverageAmount sn else at_amount t);
          hourly = sn_countLastHour sn + 1;
          daily = sn_countLast24Hours sn + 1;
          averageDaily = js_div (js_int (int (sn_countLast7Days sn))) (Fin 7)
      in \<lparr>rp_historicalCount = sn_historicalCount sn, rp_countLastHour = hourly, rp_countLast24Hours = daily,
          rp_countLast7Days = sn_countLast7Days sn, rp_movingAverageAmount = average,
          rp_amountVsAverageRatio = (if js_lt (Fin 0) average then js_div (at_amount t) average else Fin 1),
          rp_hourlyVelocityRatio = (if js_lt (Fin 0) (velocityHourlyCap cfg)
            then js_div (js_int (int hourly)) (velocityHourlyCap cfg) else Fin 0),
          rp_dailyVelocityRatio = (if js_lt (Fin 0) (velocityDailyCap cfg)
            then js_div (js_int (int daily)) (velocityDailyCap cfg) else Fin 0),
          rp_averageDailyCount = averageDaily,
          rp_frequencySpikeRatio = (if js_lt (Fin 0) averageDaily then js_div (js_int (int daily)) averageDaily else Fin 0),
          rp_geographicHop = (case (normalizeLocationMetadata (at_location t),
              normalizeLocationMetadata (sn_lastLocationMetadata sn), sn_lastLocationAt sn) of
            (Some here, Some before, Some seen) \<Rightarrow>
              Some (distanceKm before here, js_div (js_int (at_createdAt t - seen)) (Fin 3600000))
          | _ \<Rightarrow> None)\<rparr>)"

definition amount_anomaly :: "AMLConfig \<Rightarrow> AMLRiskProfile \<Rightarrow> bool" where
  "amount_anomaly cfg p \<longleftrightarrow> 3 \<le> rp_historicalCount p \<and> js_le (amountMultiplierLimit cfg) (rp_amountVsAverageRatio p)"

definition hourly_velocity :: "AMLConfig \<Rightarrow> AMLRiskProfile \<Rightarrow> bool" where
  "hourly_velocity cfg p \<longleftrightarrow> js_lt (Fin 0) (velocityHourlyCap cfg) \<and>
     js_lt (velocityHourlyCap cfg) (js_int (int (rp_countLastHour p)))"

definition daily_velocity :: "AMLConfig \<Rightarrow> AMLRiskProfile \<Rightarrow> bool" where
  "daily_velocity cfg p \<longleftrightarrow> js_lt (Fin 0) (velocityDailyCap cfg) \<and>
     js_lt (velocityDailyCap cfg) (js_int (int (rp_countLast24Hours p)))"

definition frequency_spike :: "AMLConfig \<Rightarrow> AMLRiskProfile \<Rightarrow> bool" where
  "frequency_spike cfg p \<longleftrightarrow> 5 \<le> rp_historicalCount p \<and> js_le (Fin 1) (rp_averageDailyCount p) \<and>
     js_le (frequencySpikeMultiplier cfg) (rp_frequencySpikeRatio p)"

definition geographic_hop :: "AMLConfig \<Rightarrow> AMLRiskProfile \<Rightarrow> bool" where
  "geographic_hop cfg p \<longleftrightarrow> (case rp_geographicHop p of
     Some (km, hours) \<Rightarrow> js_lt (geoHopMaxKm cfg) km \<and> js_le hours (geoHopMaxHours cfg)
   | None \<Rightarrow> False)"

definition PROFILE_SCORE_WEIGHTS :: "rat list" where
  \<comment> \<open>amount anomaly, hourly velocity, daily velocity, frequency spike, geographic hop\<close>
  "PROFILE_SCORE_WEIGHTS = [30, 25, 25, 20, 25]"

definition anomalies :: "AMLConfig \<Rightarrow> AMLRiskProfile \<Rightarrow> bool list" where
  \<comment> \<open>the tests in their order\<close>
  "anomalies cfg p = [amount_anomaly cfg p, hourly_velocity cfg p, daily_velocity cfg p, frequency_spike cfg p, geographic_hop cfg p]"

definition anomaly_reasons :: "AMLConfig \<Rightarrow> AMLTransactionRecord \<Rightarrow> AMLRiskProfile \<Rightarrow> AMLMessage list" where
  "anomaly_reasons cfg t p =
     [AmountAnomaly (at_amount t) (js_toFixed 1 (rp_amountVsAverageRatio p)) (js_toFixed 0 (rp_movingAverageAmount p)),
      HourlyVelocity (js_int (int (rp_countLastHour p))) (velocityHourlyCap cfg),
      DailyVelocity (js_int (int (rp_countLast24Hours p))) (velocityDailyCap cfg),
      FrequencySpike (js_toFixed 1 (rp_frequencySpikeRatio p)),
      (case rp_geographicHop p of
         Some (km, hours) \<Rightarrow> GeographicHop (js_toFixed 0 km) (js_toFixed 1 hours)
       | None \<Rightarrow> GeographicHop NaN NaN)]"

definition risk_score :: "bool list \<Rightarrow> jsnum" where
  "risk_score as = foldl (\<lambda>score (a, w). if a then js_add score (Fin w) else score) (Fin 0) (zip as PROFILE_SCORE_WEIGHTS)"

definition buildDynamicProfileResult ::
  "AMLConfig \<Rightarrow> distance \<Rightarrow> AMLTransactionRecord \<Rightarrow> CachedAmlProfileSnapshot \<Rightarrow> profile_result" where
  "buildDynamicProfileResult cfg distanceKm t sn =
     (let p = risk_profile cfg distanceKm t sn;
          score = risk_score (anomalies cfg p);
          reasons = map snd (filter fst (zip (anomalies cfg p) (anomaly_reasons cfg t p)));
          flagged = js_le (profileScoreThreshold cfg) score;
          message = ScoreExceeds score (profileScoreThreshold cfg)
      in \<lparr>pr_flagged = flagged,
          pr_ruleHits = (if flagged then [\<lparr>hit_rule = Dynamic_profile_score, hit_message = message, hit_observed = score,
            hit_threshold = profileScoreThreshold cfg\<rparr>] else []),
          pr_riskScore = score, pr_scoreThreshold = profileScoreThreshold cfg,
          pr_recommendedAction = (if flagged then Review else Allow),
          pr_reasons = (if flagged then message # reasons else reasons), pr_profile = p\<rparr>)"

section \<open>Alerts\<close>

type_synonym addr = nat

record AMLAlert =
  al_id :: id
  al_transactionId :: id
  al_userId :: "id option"
  al_severity :: AMLAlertSeverity
  al_status :: AMLAlertStatus
  al_ruleHits :: addr
  al_reasons :: addr
  al_createdAt :: millis
  al_updatedAt :: millis
  al_reviewedAt :: "millis option"
  al_reviewedBy :: "string option"
  al_reviewNotes :: "string option"

record AMLAlertRow =
  aw_id :: id
  aw_transactionId :: id
  aw_userId :: "id option"
  aw_severity :: AMLAlertSeverity
  aw_status :: AMLAlertStatus
  aw_ruleHits :: "AMLRuleHit list"
  aw_reasons :: "AMLMessage list"
  aw_createdAt :: millis

datatype aml_effect =
    NotifyAdministrators AMLAlertSeverity "id option" id "AMLMessage list"
  | PrepareSAR "id option" id
  | LogAlert id id AMLAlertSeverity "AMLRule list"

record aml_state =
  hit_lists :: "AMLRuleHit list list" \<comment> \<open>the arrays, by their address\<close>
  reason_lists :: "AMLMessage list list"
  objects :: "AMLAlert list"
  alerts :: "addr list" \<comment> \<open>\<^verbatim>\<open>this.alerts\<close>\<close>
  stored :: "AMLAlertRow list" \<comment> \<open>the table \<^verbatim>\<open>aml_alerts\<close>\<close>
  effects :: "aml_effect list"

definition hits_of :: "aml_state \<Rightarrow> AMLAlert \<Rightarrow> AMLRuleHit list" where
  "hits_of s a = hit_lists s ! al_ruleHits a"

definition new_lists :: "AMLRuleHit list \<Rightarrow> AMLMessage list \<Rightarrow> aml_state \<Rightarrow> addr \<times> addr \<times> aml_state" where
  "new_lists hits reasons s = (length (hit_lists s), length (reason_lists s),
     s\<lparr>hit_lists := hit_lists s @ [hits], reason_lists := reason_lists s @ [reasons]\<rparr>)"

definition new_alert ::
  "id \<Rightarrow> millis \<Rightarrow> AMLTransactionRecord \<Rightarrow> AMLAlertSeverity \<Rightarrow> addr \<Rightarrow> addr \<Rightarrow> aml_state \<Rightarrow> addr \<times> aml_state" where
  "new_alert newId now t severity h r s = (length (objects s),
     s\<lparr>objects := objects s @ [\<lparr>al_id = newId, al_transactionId = at_id t, al_userId = at_userId t,
       al_severity = severity, al_status = Pending_review, al_ruleHits = h, al_reasons = r, al_createdAt = now,
       al_updatedAt = now, al_reviewedAt = None, al_reviewedBy = None, al_reviewNotes = None\<rparr>]\<rparr>)"

definition push_hit :: "addr \<Rightarrow> AMLRuleHit \<Rightarrow> aml_state \<Rightarrow> aml_state" where
  "push_hit h x s = s\<lparr>hit_lists := (hit_lists s)[h := hit_lists s ! h @ [x]]\<rparr>"

definition push_reason :: "addr \<Rightarrow> AMLMessage \<Rightarrow> aml_state \<Rightarrow> aml_state" where
  "push_reason r x s = s\<lparr>reason_lists := (reason_lists s)[r := reason_lists s ! r @ [x]]\<rparr>"

definition insert_alert :: "AMLAlert \<Rightarrow> aml_state \<Rightarrow> aml_state" where
  \<comment> \<open>the insert copies what the lists hold\<close>
  "insert_alert a s = s\<lparr>stored := stored s @ [\<lparr>aw_id = al_id a, aw_transactionId = al_transactionId a, aw_userId = al_userId a,
     aw_severity = al_severity a, aw_status = al_status a, aw_ruleHits = hits_of s a,
     aw_reasons = reason_lists s ! al_reasons a, aw_createdAt = al_createdAt a\<rparr>]\<rparr>"

definition slice_to :: "jsnum \<Rightarrow> 'a list \<Rightarrow> 'a list" where
  \<comment> \<open>\<^verbatim>\<open>xs.slice(0, n)\<close> for a number that is not NaN\<close>
  "slice_to n xs = (case js_trunc n of
     Fin k \<Rightarrow> if 0 \<le> k then take (nat \<lfloor>k\<rfloor>) xs else take (nat (int (length xs) + \<lfloor>k\<rfloor>)) xs
   | NInf \<Rightarrow> []
   | _ \<Rightarrow> xs)"

definition recordAlert :: "AMLConfig \<Rightarrow> bool \<Rightarrow> addr \<Rightarrow> aml_state \<Rightarrow> aml_state" where
  \<comment> \<open>\<open>inserted\<close>: whether the insert succeeds; failures to notify and to prepare are only logged\<close>
  "recordAlert cfg inserted a s =
     (let x = objects s ! a in
      if inserted
      then (insert_alert x s)\<lparr>effects := effects s @
             [NotifyAdministrators (al_severity x) (al_userId x) (al_id x) (reason_lists s ! al_reasons x)] @
             (if al_severity x = High then [PrepareSAR (al_userId x) (al_id x)] else [])\<rparr>
      else let xs = a # alerts s in
           s\<lparr>alerts := (if js_lt (alertBufferSize cfg) (js_int (int (length xs))) then slice_to (alertBufferSize cfg) xs else xs)\<rparr>)"

definition logAlert :: "addr \<Rightarrow> aml_state \<Rightarrow> aml_state" where
  "logAlert a s = (let x = objects s ! a in
     s\<lparr>effects := effects s @ [LogAlert (al_id x) (al_transactionId x) (al_severity x) (map hit_rule (hits_of s x))]\<rparr>)"

record AMLMonitoringResult =
  mr_flagged :: bool
  mr_alert :: "addr option"
  mr_ruleHits :: addr
  mr_riskScore :: jsnum
  mr_recommendedAction :: AMLRecommendedAction
  mr_reasons :: addr

definition evaluateTransaction ::
  "AMLConfig \<Rightarrow> exchange_rates \<Rightarrow> id \<Rightarrow> millis \<Rightarrow> bool \<Rightarrow> AMLTransactionRecord \<Rightarrow> AMLTransactionRecord list \<Rightarrow> aml_state \<Rightarrow>
   AMLMonitoringResult option \<times> aml_state" where
  "evaluateTransaction cfg rates newId now inserted t recent s =
     (case rule_hits cfg rates t recent of
        Inl _ \<Rightarrow> (None, s)
      | Inr hits \<Rightarrow>
          (case new_lists hits (map hit_message hits) s of (h, r, s1) \<Rightarrow>
             if hits = []
             then (Some \<lparr>mr_flagged = False, mr_alert = None, mr_ruleHits = h, mr_riskScore = Fin 0,
               mr_recommendedAction = Allow, mr_reasons = r\<rparr>, s1)
             else (case new_alert newId now t (hits_severity hits) h r s1 of (a, s2) \<Rightarrow>
               (Some \<lparr>mr_flagged = True, mr_alert = Some a, mr_ruleHits = h, mr_riskScore = profileScoreThreshold cfg,
                 mr_recommendedAction = Review, mr_reasons = r\<rparr>, logAlert a (recordAlert cfg inserted a s2)))))"

definition raiseAlert ::
  "AMLConfig \<Rightarrow> id \<Rightarrow> millis \<Rightarrow> bool \<Rightarrow> AMLTransactionRecord \<Rightarrow> AMLRuleHit list \<Rightarrow> AMLAlertSeverity \<Rightarrow> aml_state \<Rightarrow> addr \<times> aml_state" where
  "raiseAlert cfg newId now inserted t hits severity s =
     (case new_lists hits (map hit_message hits) s of (h, r, s1) \<Rightarrow>
        case new_alert newId now t severity h r s1 of (a, s2) \<Rightarrow> (a, logAlert a (recordAlert cfg inserted a s2)))"

definition recent_record :: "transaction_row \<Rightarrow> AMLTransactionRecord" where
  "recent_record r = \<lparr>at_id = tr_id r, at_userId = tr_userId r, at_type = tr_type r, at_amount = num (tr_amount r),
     at_createdAt = tr_createdAt r, at_currency = tr_currency r,
     at_originalAmount = finite_or_none (map_option num (tr_originalAmount r)),
     at_convertedAmount = finite_or_none (map_option num (tr_convertedAmount r)), at_location = tr_location r\<rparr>"

definition fetchRecentTransactions :: "id \<Rightarrow> millis option \<Rightarrow> id option \<Rightarrow> transaction_row list \<Rightarrow> AMLTransactionRecord list" where
  "fetchRecentTransactions userId start exclude txs =
     filter (\<lambda>x. js_isFinite (at_amount x) \<and> js_le (Fin 0) (at_amount x)) (map recent_record
       (sort_key (\<lambda>r. - tr_createdAt r) (filter (\<lambda>r. tr_userId r = Some userId \<and> since start (tr_createdAt r) \<and>
          (case exclude of Some i \<Rightarrow> tr_id r \<noteq> i | None \<Rightarrow> True)) txs)))"

definition fetchUserName :: "(string \<times> string) list option \<Rightarrow> string option" where
  \<comment> \<open>given what the query answers: the rows of first and last name, None where it throws\<close>
  "fetchUserName rows = (case rows of Some ((given, family) # _) \<Rightarrow> Some (js_trim (given @ '' '' @ family)) | _ \<Rightarrow> None)"

record monitor_input =
  \<comment> \<open>what the calls of \<^verbatim>\<open>monitorTransaction\<close> answer; None where they throw\<close>
  mi_now :: millis
  mi_rates :: exchange_rates
  mi_id :: id \<comment> \<open>of the alert\<close>
  mi_inserted :: bool
  mi_recent :: "AMLTransactionRecord list option"
  mi_name :: "(string \<times> string) list option"
  mi_listed :: "SanctionEntity list option" \<comment> \<open>the list of sanctions\<close>

definition sanction_hit :: "sanction_match \<Rightarrow> AMLRuleHit" where
  "sanction_hit m = \<lparr>hit_rule = Sanction_match, hit_message = SanctionMatch (se_name (mt_entity m)) (js_toFixed 2 (mt_score m)) (se_source (mt_entity m)),
     hit_observed = mt_score m, hit_threshold = num (85 / 100)\<rparr>"

definition add_sanction ::
  "AMLConfig \<Rightarrow> monitor_input \<Rightarrow> AMLTransactionRecord \<Rightarrow> AMLRuleHit \<Rightarrow> AMLMonitoringResult \<Rightarrow> aml_state \<Rightarrow> AMLMonitoringResult \<times> aml_state" where
  "add_sanction cfg i t hit res s =
     (let s1 = push_reason (mr_reasons res) (hit_message hit) (push_hit (mr_ruleHits res) hit s);
          res1 = res\<lparr>mr_flagged := True, mr_recommendedAction := Review\<rparr>
      in case mr_alert res of
           None \<Rightarrow> (case new_lists [hit] [hit_message hit] s1 of (h, r, s2) \<Rightarrow>
             case new_alert (mi_id i) (mi_now i) t High h r s2 of (a, s3) \<Rightarrow>
               (res1\<lparr>mr_alert := Some a\<rparr>, recordAlert cfg (mi_inserted i) a s3))
         | Some a \<Rightarrow>
             let x = objects s1 ! a
             in (res1, push_reason (al_reasons x) (hit_message hit) (push_hit (al_ruleHits x) hit
                  (s1\<lparr>objects := (objects s1)[a := x\<lparr>al_severity := High\<rparr>]\<rparr>))))"

definition with_matches ::
  "AMLConfig \<Rightarrow> monitor_input \<Rightarrow> AMLTransactionRecord \<Rightarrow> sanction_match list \<Rightarrow> AMLMonitoringResult \<Rightarrow> aml_state \<Rightarrow>
   AMLMonitoringResult \<times> aml_state" where
  \<comment> \<open>the end of \<^verbatim>\<open>monitorTransaction\<close>\<close>
  "with_matches cfg i t matches res s =
     (case (case matches of [] \<Rightarrow> (res, s) | m # _ \<Rightarrow> add_sanction cfg i t (sanction_hit m) res s) of
        (res1, s1) \<Rightarrow> (res1, if mr_flagged res1 \<and> mr_alert res1 \<noteq> None then logAlert (the (mr_alert res1)) s1 else s1))"

definition monitorTransaction ::
  "AMLConfig \<Rightarrow> monitor_input \<Rightarrow> AMLTransactionRecord \<Rightarrow> aml_state \<Rightarrow> AMLMonitoringResult option \<times> aml_state" where
  "monitorTransaction cfg i t s =
     (case mi_recent i of
        None \<Rightarrow> (None, s)
      | Some recent \<Rightarrow>
          (case evaluateTransaction cfg (mi_rates i) (mi_id i) (mi_now i) (mi_inserted i) t recent s of
             (None, s1) \<Rightarrow> (None, s1)
           | (Some res, s1) \<Rightarrow>
               (case (case fetchUserName (mi_name i) of
                        Some name \<Rightarrow> if name \<noteq> [] then map_option (\<lambda>rows. searchSanctions rows name DEFAULT_THRESHOLD) (mi_listed i) else Some []
                      | None \<Rightarrow> Some []) of
                  None \<Rightarrow> (None, s1)
                | Some matches \<Rightarrow> (case with_matches cfg i t matches res s1 of (res1, s2) \<Rightarrow> (Some res1, s2)))))"

definition isHighValueAlert ::
  "AMLConfig \<Rightarrow> exchange_rates \<Rightarrow> AMLTransactionRecord \<Rightarrow> AMLRuleHit list \<Rightarrow> currency_error + AMLHighValueAssessment option" where
  \<comment> \<open>given the hits of the alert\<close>
  "isHighValueAlert cfg rates t hits =
     (if \<not> list_ex (\<lambda>h. hit_rule h = Single_transaction_threshold) hits then Inr None
      else case assessHighValueTransaction cfg rates t of
        Inl e \<Rightarrow> Inl e
      | Inr hv \<Rightarrow> Inr (if hv_qualifies hv then Some hv else None))"

section \<open>Listing, review and report\<close>

record AMLAlertFilter =
  af_status :: "AMLAlertStatus option"
  af_userId :: string \<comment> \<open>empty where it is not given\<close>
  af_startDate :: "millis option"
  af_endDate :: "millis option"

definition getAlerts :: "AMLAlertFilter \<Rightarrow> aml_state \<Rightarrow> addr list" where
  "getAlerts f s = sort_key (\<lambda>a. - al_createdAt (objects s ! a)) (filter (\<lambda>a. let x = objects s ! a in
     (case af_status f of Some st \<Rightarrow> al_status x = st | None \<Rightarrow> True) \<and>
     (af_userId f = [] \<or> al_userId x = Some (af_userId f)) \<and>
     (case af_startDate f of Some d \<Rightarrow> d \<le> al_createdAt x | None \<Rightarrow> True) \<and>
     (case af_endDate f of Some d \<Rightarrow> al_createdAt x \<le> d | None \<Rightarrow> True)) (alerts s))"

definition getPendingReviewAlerts :: "aml_state \<Rightarrow> addr list" where
  "getPendingReviewAlerts s = getAlerts \<lparr>af_status = Some Pending_review, af_userId = [], af_startDate = None, af_endDate = None\<rparr> s"

definition reviewAlert ::
  "millis \<Rightarrow> id \<Rightarrow> AMLAlertStatus \<Rightarrow> string \<Rightarrow> string option \<Rightarrow> aml_state \<Rightarrow> addr option \<times> aml_state" where
  \<comment> \<open>a new object takes the place of the alert, with the same lists\<close>
  "reviewAlert now alertId status reviewedBy notes s =
     (case find (\<lambda>k. al_id (objects s ! (alerts s ! k)) = alertId) [0..<length (alerts s)] of
        None \<Rightarrow> (None, s)
      | Some k \<Rightarrow>
          let x = objects s ! (alerts s ! k);
              a = length (objects s)
          in (Some a, s\<lparr>objects := objects s @ [x\<lparr>al_status := status, al_reviewedBy := Some reviewedBy,
                 al_reviewNotes := notes, al_reviewedAt := Some now, al_updatedAt := now\<rparr>],
               alerts := (alerts s)[k := a]\<rparr>))"

record AMLReport =
  re_total :: nat
  re_pendingReview :: nat
  re_reviewed :: nat
  re_dismissed :: nat
  re_high :: nat
  re_medium :: nat
  re_byRule :: "AMLRule \<Rightarrow> nat"
  re_daily :: "(int \<times> nat) list" \<comment> \<open>by the day since 1970\<close>

definition toISODate :: "millis \<Rightarrow> int" where
  "toISODate t = t div 86400000"

definition generateReport :: "millis \<Rightarrow> millis \<Rightarrow> aml_state \<Rightarrow> AMLReport" where
  "generateReport startDate endDate s =
     (let as = map (\<lambda>a. objects s ! a)
            (getAlerts \<lparr>af_status = None, af_userId = [], af_startDate = Some startDate, af_endDate = Some endDate\<rparr> s);
          count = (\<lambda>p. length (filter p as));
          days = map (\<lambda>x. toISODate (al_createdAt x)) as
      in \<lparr>re_total = length as, re_pendingReview = count (\<lambda>x. al_status x = Pending_review),
          re_reviewed = count (\<lambda>x. al_status x = Reviewed), re_dismissed = count (\<lambda>x. al_status x = Dismissed),
          re_high = count (\<lambda>x. al_severity x = High), re_medium = count (\<lambda>x. al_severity x = Medium),
          re_byRule = (\<lambda>r. length (filter (\<lambda>h. hit_rule h = r) (concat (map (hits_of s) as)))),
          re_daily = map (\<lambda>d. (d, length (filter (\<lambda>e. e = d) days))) (sort (remdups days))\<rparr>)"

definition clearAlerts :: "aml_state \<Rightarrow> aml_state" where
  "clearAlerts s = s\<lparr>alerts := []\<rparr>"

section \<open>Callers\<close>

datatype aml_error = InternalError | InvalidInput | AlertNotFound

definition caught :: "aml_error + 'a \<Rightarrow> aml_error + 'a" where
  \<comment> \<open>the handlers of alerts throw within the block whose \<^verbatim>\<open>catch\<close> throws an internal error\<close>
  "caught r = (case r of Inl _ \<Rightarrow> Inl InternalError | Inr x \<Rightarrow> Inr x)"

definition known_status :: "string option \<Rightarrow> AMLAlertStatus option" where
  "known_status v = (case v of Some st \<Rightarrow>
       if st = ''pending_review'' then Some Pending_review else if st = ''reviewed'' then Some Reviewed
       else if st = ''dismissed'' then Some Dismissed else None
     | None \<Rightarrow> None)"

definition listAmlAlertsHandler ::
  "string option \<Rightarrow> string option \<Rightarrow> millis option option \<Rightarrow> millis option option \<Rightarrow> aml_state \<Rightarrow> aml_error + addr list \<times> nat \<times> nat" where
  \<comment> \<open>dates are None where they are not given, \<open>Some None\<close> where they are invalid; the answer is the
      alerts, their number and how many are pending\<close>
  "listAmlAlertsHandler status userId startDate endDate s =
     caught (if startDate = Some None \<or> endDate = Some None then Inl InvalidInput
       else let as = getAlerts \<lparr>af_status = known_status status, af_userId = (case userId of Some u \<Rightarrow> u | None \<Rightarrow> []),
                  af_startDate = Option.bind startDate id, af_endDate = Option.bind endDate id\<rparr> s
            in Inr (as, length as, length (filter (\<lambda>a. al_status (objects s ! a) = Pending_review) as)))"

definition reviewAmlAlertHandler ::
  "millis \<Rightarrow> id \<Rightarrow> jsval \<Rightarrow> jsval \<Rightarrow> jsval \<Rightarrow> aml_state \<Rightarrow> (aml_error + addr) \<times> aml_state" where
  "reviewAmlAlertHandler now alertId status reviewedBy notes s =
     (if status \<notin> {JString ''reviewed'', JString ''dismissed''} then (caught (Inl InvalidInput), s)
      else case reviewedBy of
        JString by \<Rightarrow>
          if by = [] \<or> (case notes of JString _ \<Rightarrow> False | JUndefined \<Rightarrow> False | _ \<Rightarrow> True) then (caught (Inl InvalidInput), s)
          else (case reviewAlert now alertId (if status = JString ''reviewed'' then Reviewed else Dismissed) by
              (case notes of JString n \<Rightarrow> Some n | _ \<Rightarrow> None) s of
              (None, s1) \<Rightarrow> (caught (Inl AlertNotFound), s1)
            | (Some a, s1) \<Rightarrow> (caught (Inr a), s1))
      | _ \<Rightarrow> (caught (Inl InvalidInput), s))"

definition sync_record :: "id \<Rightarrow> id option \<Rightarrow> AMLTransactionType \<Rightarrow> jsnum \<Rightarrow> millis \<Rightarrow> AMLTransactionRecord" where
  \<comment> \<open>what \<^verbatim>\<open>checkSyncTransactionCompliance\<close> monitors: a record without currency\<close>
  "sync_record i userId ty amount createdAt = \<lparr>at_id = i, at_userId = userId, at_type = ty, at_amount = amount,
     at_createdAt = createdAt, at_currency = None, at_originalAmount = None, at_convertedAmount = None, at_location = None\<rparr>"

definition checkSyncTransactionCompliance ::
  "AMLConfig \<Rightarrow> monitor_input \<Rightarrow> id \<Rightarrow> string option \<Rightarrow> transaction_row list \<Rightarrow> aml_state \<Rightarrow> aml_state" where
  "checkSyncTransactionCompliance cfg i transactionId amount txs s =
     (case find (\<lambda>r. tr_id r = transactionId) txs of
        None \<Rightarrow> s
      | Some r \<Rightarrow> snd (monitorTransaction cfg i (sync_record transactionId (tr_userId r) (tr_type r)
          (case amount of Some v \<Rightarrow> js_Number v | None \<Rightarrow> num (tr_amount r)) (tr_createdAt r)) s))"

datatype report_kind = HighValueReport AMLHighValueAssessment | FlaggedReport

datatype transaction_call =
  \<comment> \<open>calls for a transaction: tags, metadata, notes for administrators and reports\<close>
    AddTags id "string list"
  | PatchProfile id jsnum jsnum AMLRecommendedAction "AMLMessage list" AMLRiskProfile millis
  | NoteProfile id jsnum jsnum "AMLMessage list"
  | PatchAml id id AMLAlertStatus AMLAlertSeverity "AMLMessage list" millis
  | NoteAlert id id "AMLMessage list"
  | GenerateReport id report_kind
  | PatchReport id report_kind

definition controller_record :: "transaction_row \<Rightarrow> AMLTransactionRecord" where
  "controller_record r = \<lparr>at_id = tr_id r, at_userId = tr_userId r, at_type = tr_type r, at_amount = num (tr_amount r),
     at_createdAt = tr_createdAt r, at_currency = tr_currency r,
     at_originalAmount = Some (num (case tr_originalAmount r of Some x \<Rightarrow> x | None \<Rightarrow> tr_amount r)),
     at_convertedAmount = map_option num (tr_convertedAmount r), at_location = tr_location r\<rparr>"

definition monitored :: "transaction_row \<Rightarrow> bool" where
  "monitored r \<longleftrightarrow> tr_userId r \<notin> {None, Some []} \<and> js_isFinite (num (tr_amount r)) \<and> \<not> js_lt (num (tr_amount r)) (Fin 0)"

definition applyPreDispatchAMLProfile ::
  "AMLConfig \<Rightarrow> distance \<Rightarrow> CachedAmlProfileSnapshot option \<Rightarrow> millis \<Rightarrow> transaction_row \<Rightarrow> transaction_call list" where
  \<comment> \<open>the snapshot is None where reading it throws\<close>
  "applyPreDispatchAMLProfile cfg distanceKm snapshot now r =
     (if \<not> monitored r then []
      else case snapshot of
        None \<Rightarrow> []
      | Some sn \<Rightarrow>
          let res = buildDynamicProfileResult cfg distanceKm (controller_record r) sn in
          if \<not> pr_flagged res then []
          else [AddTags (tr_id r) [''aml-flagged'', ''aml-review''],
                PatchProfile (tr_id r) (pr_riskScore res) (pr_scoreThreshold res) (pr_recommendedAction res) (pr_reasons res)
                  (pr_profile res) now,
                NoteProfile (tr_id r) (pr_riskScore res) (pr_scoreThreshold res) (pr_reasons res)])"

definition monitorTransactionForAML ::
  "AMLConfig \<Rightarrow> monitor_input \<Rightarrow> bool \<Rightarrow> bool \<Rightarrow> transaction_row \<Rightarrow> aml_state \<Rightarrow> transaction_call list \<times> aml_state" where
  \<comment> \<open>the flags: whether the three writes succeed, and the report is generated\<close>
  "monitorTransactionForAML cfg i written reported r s =
     (if \<not> monitored r then ([], s)
      else case monitorTransaction cfg i (controller_record r) s of
        (None, s1) \<Rightarrow> ([], s1)
      | (Some res, s1) \<Rightarrow>
          (case (if mr_flagged res then mr_alert res else None) of
             None \<Rightarrow> ([], s1)
           | Some a \<Rightarrow>
               let x = objects s1 ! a;
                   reasons = reason_lists s1 ! al_reasons x;
                   writes = [AddTags (tr_id r) [''aml-flagged'', ''aml-review''],
                     PatchAml (tr_id r) (al_id x) (al_status x) (al_severity x) reasons (al_createdAt x),
                     NoteAlert (tr_id r) (al_id x) reasons];
                   report = (case isHighValueAlert cfg (mi_rates i) (controller_record r) (hits_of s1 x) of
                       Inl _ \<Rightarrow> []
                     | Inr hv \<Rightarrow>
                         let kind = (case hv of Some v \<Rightarrow> HighValueReport v | None \<Rightarrow> FlaggedReport)
                         in GenerateReport (tr_id r) kind # (if reported then [PatchReport (tr_id r) kind] else []))
               in (writes @ (if written then report else []), s1)))"

end
