(* ===== verification/Aml_Rules_Safety.thy ===== *)
theory Aml_Rules_Safety
  imports Aml_Rules "HOL-Library.Multiset"
begin

text \<open>
  What the rules against money laundering decide and what becomes of their alerts. On whole amounts the
  total of a window is exact, and the score of a profile flags certain pairs of anomalies. An alert
  that the rules have stored never learns of a match with the list of sanctions, while the result that
  shares its lists counts it twice; the listing, review and report of alerts see only those
  that could not be stored.
\<close>

section \<open>The score of a profile\<close>

lemma num_numeral: "(numeral w :: int) \<le> 2 ^ 53 \<Longrightarrow> num (numeral w) = Fin (numeral w)"
  using num_int [of "numeral w"] by simp

lemma num_one: "num 1 = Fin 1"
  using num_int [of 1] by simp

lemma risk_score_value:
  "risk_score [a, b, c, d, e] = Fin (30 * of_bool a + 25 * of_bool b + 25 * of_bool c + 20 * of_bool d + 25 * of_bool e)"
  by (cases a; cases b; cases c; cases d; cases e) (simp_all add: risk_score_def PROFILE_SCORE_WEIGHTS_def num_numeral)

text \<open>
  With the default threshold of 50 a profile is flagged when three of the five anomalies are
  present, or two, unless these are the frequency spike and one other than the anomalous amount.
\<close>

theorem profile_flagged_by_pairs:
  assumes "profileScoreThreshold cfg = Fin 50"
  shows "pr_flagged (buildDynamicProfileResult cfg d t sn) \<longleftrightarrow>
    (let p = risk_profile cfg d t sn; n = length (filter id (anomalies cfg p)) in
     3 \<le> n \<or> (n = 2 \<and> (frequency_spike cfg p \<longrightarrow> amount_anomaly cfg p)))"
proof -
  define p where "p = risk_profile cfg d t sn"
  show ?thesis unfolding buildDynamicProfileResult_def Let_def p_def [symmetric]
    using assms
    by (cases "amount_anomaly cfg p"; cases "hourly_velocity cfg p"; cases "daily_velocity cfg p";
        cases "frequency_spike cfg p"; cases "geographic_hop cfg p")
      (simp_all add: anomalies_def risk_score_value)
qed

definition aml_config :: AMLConfig where
  "aml_config = \<lparr>singleTransactionThresholdXaf = Fin 50, dailyTotalThresholdXaf = Fin 200, rollingWindowHours = Fin 24,
     rapidWindowMinutes = Fin 15, rapidTransactionCount = Fin 3, structuringFloorXaf = Fin 5,
     structuringThresholdRatio = Fin (1 / 2), structuringFrequencyLimit = Fin 3, alertBufferSize = Fin 2,
     profileScoreThreshold = Fin 50, velocityHourlyCap = Fin 5, velocityDailyCap = Fin 15, movingAverageWindowDays = Fin 30,
     amountMultiplierLimit = Fin 3, frequencySpikeMultiplier = Fin 3, geoHopMaxKm = Fin 250, geoHopMaxHours = Fin 6,
     highValueReportThresholdUsd = Fin 40\<rparr>"

definition demo_transaction :: "string \<Rightarrow> rat \<Rightarrow> AMLTransactionRecord" where
  "demo_transaction currency x = \<lparr>at_id = ''t'', at_userId = Some ''u'', at_type = Deposit, at_amount = Fin x, at_createdAt = 0,
     at_currency = Some currency, at_originalAmount = None, at_convertedAmount = Some (Fin 1), at_location = None\<rparr>"

definition demo_snapshot :: CachedAmlProfileSnapshot where
  "demo_snapshot = \<lparr>sn_historicalCount = 4, sn_countLastHour = 6, sn_countLast24Hours = 6, sn_countLast7Days = 7,
     sn_movingAverageAmount = Fin 2, sn_lastLocationAt = None, sn_lastLocationMetadata = None\<rparr>"

theorem profile_flagged_by_pairs_witness:
  "pr_flagged (buildDynamicProfileResult aml_config (\<lambda>_ _. Fin 0) (demo_transaction ''XAF'' 8) demo_snapshot)"
proof -
  have "profileScoreThreshold aml_config = Fin 50" by (simp add: aml_config_def)
  from profile_flagged_by_pairs [OF this] show ?thesis
    by (simp add: Let_def anomalies_def amount_anomaly_def hourly_velocity_def daily_velocity_def frequency_spike_def
      geographic_hop_def risk_profile_def aml_config_def demo_transaction_def demo_snapshot_def normalizeLocationMetadata_def
      js_int_def num_numeral)
qed

section \<open>Totals of whole amounts\<close>

lemma sum_exact:
  assumes "\<forall>x\<in>set xs. at_amount x = Fin (of_int (f x)) \<and> 0 \<le> f x" "0 \<le> k" "k + sum_list (map f xs) \<le> 2 ^ 53"
  shows "foldl (\<lambda>sum x. js_add sum (at_amount x)) (Fin (of_int k)) xs = Fin (of_int (k + sum_list (map f xs)))"
  using assms
proof (induction xs arbitrary: k)
  case (Cons x xs)
  have x: "at_amount x = Fin (of_int (f x))" "0 \<le> f x" using Cons.prems(1) by auto
  have "0 \<le> sum_list (map f xs)" using Cons.prems(1) by (intro sum_list_nonneg) auto
  then have "\<bar>k + f x\<bar> \<le> 2 ^ 53" using Cons.prems x(2) by simp
  from num_int [OF this] have "js_add (Fin (of_int k)) (at_amount x) = Fin (of_int (k + f x))" using x(1) by simp
  moreover have "foldl (\<lambda>sum x. js_add sum (at_amount x)) (Fin (of_int (k + f x))) xs = Fin (of_int (k + f x + sum_list (map f xs)))"
    using Cons.prems x(2) by (intro Cons.IH) auto
  ultimately show ?case by (simp add: add.assoc)
qed simp

definition in_window :: "AMLConfig \<Rightarrow> AMLTransactionRecord \<Rightarrow> transaction_row list \<Rightarrow> transaction_row list" where
  \<comment> \<open>the other transactions of the customer in the window before a transaction\<close>
  "in_window cfg t txs = filter (\<lambda>r. tr_userId r = at_userId t \<and> since (getLookbackWindowStart cfg (at_createdAt t)) (tr_createdAt r) \<and>
     tr_id r \<noteq> at_id t) txs"

lemma sum_list_sort_key: "sum_list (map f (sort_key g xs)) = (sum_list (map f xs) :: int)"
proof -
  have "sum_mset (image_mset f (mset (sort_key g xs))) = sum_mset (image_mset f (mset xs))" by simp
  then show ?thesis by (metis mset_map sum_mset_sum_list)
qed

lemma recent_in_window:
  assumes "at_userId t = Some u" "\<forall>r\<in>set (in_window cfg t txs). tr_amount r = of_int (f r) \<and> 0 \<le> f r \<and> f r \<le> 2 ^ 53"
  shows "filter (\<lambda>x. since (getLookbackWindowStart cfg (at_createdAt t)) (at_createdAt x))
      (fetchRecentTransactions u (getLookbackWindowStart cfg (at_createdAt t)) (Some (at_id t)) txs) =
    map recent_record (sort_key (\<lambda>r. - tr_createdAt r) (in_window cfg t txs))"
proof -
  have "js_isFinite (num (tr_amount r)) \<and> js_le (Fin 0) (num (tr_amount r))" if "r \<in> set (in_window cfg t txs)" for r
    using assms(2) that num_int [of "f r"] by auto
  moreover have "since (getLookbackWindowStart cfg (at_createdAt t)) (tr_createdAt r)" if "r \<in> set (in_window cfg t txs)" for r
    using that by (simp add: in_window_def)
  moreover have "filter (\<lambda>r. tr_userId r = Some u \<and> since (getLookbackWindowStart cfg (at_createdAt t)) (tr_createdAt r) \<and> tr_id r \<noteq> at_id t) txs =
      in_window cfg t txs" using assms(1) by (simp add: in_window_def)
  ultimately show ?thesis
    by (auto simp: fetchRecentTransactions_def filter_map recent_record_def o_def filter_id_conv intro!: filter_True)
qed

lemma total_hits_iff: "total_hits cfg t xs \<noteq> [] \<longleftrightarrow> js_lt (dailyTotalThresholdXaf cfg) (rolling_total t xs)"
  by (simp add: total_hits_def Let_def)

lemma rules_of_hits:
  "h \<in> set (single_hits cfg hv t) \<Longrightarrow> hit_rule h = Single_transaction_threshold"
  "h \<in> set (total_hits cfg t xs) \<Longrightarrow> hit_rule h = Daily_total_threshold"
  "h \<in> set (rapid_hits cfg t xs) \<Longrightarrow> hit_rule h = Rapid_structuring"
  "h \<in> set (structuring_hits cfg t xs) \<Longrightarrow> hit_rule h = Threshold_structuring"
  by (auto simp: single_hits_def total_hits_def rapid_hits_def structuring_hits_def Let_def split: if_splits)

lemma daily_hit_iff:
  assumes "rule_hits cfg rates t recent = Inr hits"
  shows "(\<exists>h\<in>set hits. hit_rule h = Daily_total_threshold) \<longleftrightarrow> js_lt (dailyTotalThresholdXaf cfg)
    (rolling_total t (filter (\<lambda>x. since (getLookbackWindowStart cfg (at_createdAt t)) (at_createdAt x)) recent))" (is "_ \<longleftrightarrow> js_lt _ (rolling_total t ?w)")
proof -
  obtain hv where "hits = single_hits cfg hv t @ total_hits cfg t ?w @ rapid_hits cfg t ?w @ structuring_hits cfg t ?w"
    using assms by (auto simp: rule_hits_def Let_def split: sum.splits)
  then have "(\<exists>h\<in>set hits. hit_rule h = Daily_total_threshold) \<longleftrightarrow> (\<exists>h. h \<in> set (total_hits cfg t ?w))"
    using rules_of_hits(2) [of _ cfg t ?w] by (fastforce dest: rules_of_hits(1,3,4))
  then have "(\<exists>h\<in>set hits. hit_rule h = Daily_total_threshold) \<longleftrightarrow> total_hits cfg t ?w \<noteq> []"
    by (cases "total_hits cfg t ?w") auto
  then show ?thesis by (simp add: total_hits_iff)
qed

text \<open>
  On whole amounts the total that the rules compare is the exact sum, in whatever order the
  database returns the transactions: the rule fires exactly when the sum exceeds the threshold.
\<close>

theorem rolling_total_exact:
  assumes user: "at_userId t = Some u"
    and amounts: "\<forall>r\<in>set (in_window cfg t txs). tr_amount r = of_int (f r) \<and> 0 \<le> f r" "at_amount t = Fin (of_int k)" "0 \<le> k"
    and bound: "k + sum_list (map f (in_window cfg t txs)) < 2 ^ 53"
    and cfg: "dailyTotalThresholdXaf cfg = Fin (of_int m)"
    and rules: "rule_hits cfg rates t (fetchRecentTransactions u (getLookbackWindowStart cfg (at_createdAt t)) (Some (at_id t)) txs) = Inr hits"
  shows "(\<exists>h\<in>set hits. hit_rule h = Daily_total_threshold) \<longleftrightarrow> m < k + sum_list (map f (in_window cfg t txs))"
proof -
  let ?w = "in_window cfg t txs"
  have nonneg: "0 \<le> f r" if "r \<in> set ?w" for r using amounts(1) that by simp
  have "f r \<le> sum_list (map f ?w)" if "r \<in> set ?w" for r
    using that nonneg by (intro member_le_sum_list) auto
  then have small: "\<forall>r\<in>set ?w. tr_amount r = of_int (f r) \<and> 0 \<le> f r \<and> f r \<le> 2 ^ 53"
    using amounts bound by fastforce
  let ?s = "sort_key (\<lambda>r. - tr_createdAt r) ?w"
  define v where "v = (\<lambda>x :: AMLTransactionRecord. case at_amount x of Fin q \<Rightarrow> \<lfloor>q\<rfloor> | _ \<Rightarrow> 0)"
  have rec: "at_amount (recent_record r) = Fin (of_int (f r)) \<and> v (recent_record r) = f r" if "r \<in> set ?w" for r
    using small that num_int [of "f r"] by (simp add: recent_record_def v_def)
  have sum: "sum_list (map v (map recent_record ?s)) = sum_list (map f ?w)"
  proof -
    have "map v (map recent_record ?s) = map f ?s" using rec by simp
    then show ?thesis by (simp only: sum_list_sort_key)
  qed
  have "foldl (\<lambda>sum x. js_add sum (at_amount x)) (Fin (of_int 0)) (map recent_record ?s) = Fin (of_int (0 + sum_list (map v (map recent_record ?s))))"
    using rec nonneg bound amounts(3) sum by (intro sum_exact) auto
  then have "rolling_total t (map recent_record ?s) = js_add (Fin (of_int (sum_list (map f ?w)))) (Fin (of_int k))"
    using sum amounts(2) by (simp add: rolling_total_def)
  moreover have "0 \<le> sum_list (map f ?w)" using nonneg by (intro sum_list_nonneg) auto
  ultimately have "rolling_total t (map recent_record ?s) = Fin (of_int (k + sum_list (map f ?w)))"
    using num_int [of "k + sum_list (map f ?w)"] bound amounts(3) by (simp add: add.commute)
  then show ?thesis
    unfolding daily_hit_iff [OF rules] recent_in_window [OF user small] using cfg by (simp del: of_int_add)
qed

definition demo_row :: "id \<Rightarrow> rat \<Rightarrow> transaction_row" where
  "demo_row i x = \<lparr>tr_id = i, tr_userId = Some ''u'', tr_type = Withdraw, tr_amount = x, tr_currency = Some ''XAF'',
     tr_originalAmount = None, tr_convertedAmount = None, tr_location = None, tr_createdAt = -5\<rparr>"

lemma demo_window: "getLookbackWindowStart aml_config 0 = Some (-86400000)"
  using num_int [of "- 86400000"] by (simp add: getLookbackWindowStart_def aml_config_def js_int_def num_numeral js_sub_def)

theorem rolling_total_exact_witness:
  "\<exists>h\<in>set (projr (rule_hits aml_config [] (demo_transaction ''XAF'' 40)
       (fetchRecentTransactions ''u'' (getLookbackWindowStart aml_config 0) (Some ''t'') [demo_row ''a'' 90, demo_row ''t'' 7, demo_row ''b'' 80]))).
     hit_rule h = Daily_total_threshold"
proof -
  let ?t = "demo_transaction ''XAF'' 40"
  let ?txs = "[demo_row ''a'' 90, demo_row ''t'' 7, demo_row ''b'' 80]"
  let ?f = "\<lambda>r. \<lfloor>tr_amount r\<rfloor>"
  have at: "at_createdAt ?t = 0" "at_id ?t = ''t''" "at_userId ?t = Some ''u''" "at_amount ?t = Fin (of_int 40)"
    by (simp_all add: demo_transaction_def)
  have w: "in_window aml_config ?t ?txs = [demo_row ''a'' 90, demo_row ''b'' 80]"
    by (simp add: in_window_def at demo_window since_def demo_row_def)
  have "\<exists>hits. rule_hits aml_config [] ?t (fetchRecentTransactions ''u'' (getLookbackWindowStart aml_config 0) (Some ''t'') ?txs) = Inr hits"
    by (simp add: rule_hits_def Let_def assessHighValueTransaction_def demo_transaction_def finite_or_none_def)
  then obtain hits where hits: "rule_hits aml_config [] ?t
      (fetchRecentTransactions ''u'' (getLookbackWindowStart aml_config (at_createdAt ?t)) (Some (at_id ?t)) ?txs) = Inr hits"
    unfolding at by blast
  have "\<forall>r\<in>set (in_window aml_config ?t ?txs). tr_amount r = of_int (?f r) \<and> 0 \<le> ?f r"
    "40 + sum_list (map ?f (in_window aml_config ?t ?txs)) < 2 ^ 53" "dailyTotalThresholdXaf aml_config = Fin (of_int 200)"
    unfolding w by (simp_all add: demo_row_def) (simp add: aml_config_def)
  from rolling_total_exact [OF at(3) this(1) at(4) _ this(2,3) hits]
  show ?thesis using hits unfolding w at by (simp add: demo_row_def)
qed

section \<open>Amounts without a currency\<close>

text \<open>
  A transaction whose currency is not known is taken for dollars, as are those that the intake of
  payments and the synchronisation create: an amount above the reporting threshold for dollars
  raises a severe alert, whatever its currency was.
\<close>

theorem unnamed_currency_is_dollars:
  assumes "normalizeSupportedCurrency (at_currency t) = ''USD''" "at_originalAmount t \<in> {None, Some (at_amount t)}" "at_amount t = Fin x"
    and "highValueReportThresholdUsd cfg = Fin y" "y < x"
  shows "\<exists>hits. rule_hits cfg rates t recent = Inr hits \<and> hits \<noteq> [] \<and> hits_severity hits = High"
proof -
  have "(case finite_or_none (at_originalAmount t) of Some n \<Rightarrow> n | None \<Rightarrow> at_amount t) = Fin x"
    using assms(2,3) by (auto simp: finite_or_none_def)
  with assms(1,4,5) have "\<exists>hv. assessHighValueTransaction cfg rates t = Inr hv \<and> hv_qualifies hv"
    unfolding assessHighValueTransaction_def Let_def by (cases "finite_or_none (at_convertedAmount t) \<noteq> None \<and> js_le (Fin 0) (the (finite_or_none (at_convertedAmount t)))") simp_all
  then obtain hv where hv: "assessHighValueTransaction cfg rates t = Inr hv" "hv_qualifies hv" by blast
  from hv(2) have "single_hits cfg hv t \<noteq> []" by (simp add: single_hits_def)
  then obtain h hs where h: "single_hits cfg hv t = h # hs" by (cases "single_hits cfg hv t") auto
  then have "hit_rule h = Single_transaction_threshold" using rules_of_hits(1) [of h cfg hv t] by simp
  then show ?thesis using hv h by (simp add: rule_hits_def Let_def hits_severity_def)
qed

theorem unnamed_currency_is_dollars_witness:
  "\<exists>hits. rule_hits aml_config [] (sync_record ''t'' None Deposit (Fin 45) 0) [] = Inr hits \<and> hits \<noteq> [] \<and> hits_severity hits = High"
  by (rule unnamed_currency_is_dollars [of _ 45 _ 40])
    (simp_all add: sync_record_def normalizeSupportedCurrency_def aml_config_def)

text \<open>
  The rules test amounts above the threshold and amounts below it, so amounts of exactly the threshold
  raise nothing until their total exceeds the limit of the window.
\<close>

theorem threshold_amount_escapes:
  assumes "singleTransactionThresholdXaf cfg = Fin a" "\<forall>x\<in>insert t (set recent). at_amount x = Fin a"
    and "assessHighValueTransaction cfg rates t = Inr hv" "\<not> hv_qualifies hv"
    and "js_lt (Fin 0) (rapidTransactionCount cfg)" "js_lt (Fin 0) (structuringFrequencyLimit cfg)"
    and "\<not> js_lt (dailyTotalThresholdXaf cfg)
      (rolling_total t (filter (\<lambda>x. since (getLookbackWindowStart cfg (at_createdAt t)) (at_createdAt x)) recent))"
  shows "rule_hits cfg rates t recent = Inr []"
proof -
  let ?w = "filter (\<lambda>x. since (getLookbackWindowStart cfg (at_createdAt t)) (at_createdAt x)) recent"
  have below: "\<not> js_lt (at_amount x) (singleTransactionThresholdXaf cfg)" if "x \<in> insert t (set ?w)" for x
    using assms(1,2) that by auto
  have never: "\<not> at_least 0 c" if "js_lt (Fin 0) c" for c
    using that by (cases c) (simp_all add: at_least_def js_int_def)
  have "single_hits cfg hv t = []" using assms(1,2,4) by (simp add: single_hits_def)
  moreover have "total_hits cfg t ?w = []" using assms(7) total_hits_iff by blast
  moreover have "rapid_hits cfg t ?w = []"
  proof -
    have "filter (\<lambda>x. js_le (structuringFloorXaf cfg) (at_amount x) \<and> js_lt (at_amount x) (singleTransactionThresholdXaf cfg))
        (filter (\<lambda>x. since (getRapidWindowStart cfg (at_createdAt t)) (at_createdAt x)) ?w @ [t]) = []"
      using below by (auto simp: filter_empty_conv)
    then show ?thesis using never [OF assms(5)] unfolding rapid_hits_def Let_def by simp
  qed
  moreover have "structuring_hits cfg t ?w = []"
  proof -
    have "filter (just_below cfg) ?w = []" "\<not> just_below cfg t" using below by (auto simp: filter_empty_conv just_below_def)
    then show ?thesis using never [OF assms(6)] by (simp add: structuring_hits_def del: filter_filter)
  qed
  ultimately show ?thesis using assms(3) by (simp add: rule_hits_def Let_def)
qed

section \<open>A match with the list of sanctions\<close>

lemma nth_fresh [simp]: "(xs @ [x]) ! length xs = x" "(xs @ [x])[length xs := y] = xs @ [y]"
  by (simp_all add: nth_append list_update_append)

lemmas monitor_defs = monitorTransaction_def with_matches_def evaluateTransaction_def new_lists_def new_alert_def recordAlert_def logAlert_def
  add_sanction_def push_hit_def push_reason_def insert_alert_def hits_of_def

text \<open>
  C11. When a customer matches the list of sanctions and a rule has fired as well, the stored alert lacks the
  match and keeps the severity of the rules, while the result, whose list the alert
  shares, shows the match twice. Only if no rule has fired is the match stored.
\<close>

theorem sanction_match_not_stored:
  assumes calls: "mi_recent i = Some recent" "fetchUserName (mi_name i) = Some n" "n \<noteq> []" "mi_listed i = Some listed" "mi_inserted i"
    and found: "searchSanctions listed n DEFAULT_THRESHOLD = m # ms"
    and rules: "rule_hits cfg (mi_rates i) t recent = Inr hits"
  shows "\<exists>res s' a row. monitorTransaction cfg i t s = (Some res, s') \<and> mr_flagged res \<and> mr_alert res = Some a \<and>
    al_severity (objects s' ! a) = High \<and> stored s' = stored s @ [row] \<and>
    (if hits = []
     then aw_ruleHits row = [sanction_hit m] \<and> aw_severity row = High \<and> hit_lists s' ! mr_ruleHits res = [sanction_hit m]
     else aw_ruleHits row = hits \<and> aw_severity row = hits_severity hits \<and>
       hit_lists s' ! mr_ruleHits res = hits @ [sanction_hit m, sanction_hit m])"
proof (cases "hits = []")
  case True
  with assms show ?thesis by (simp add: monitor_defs Let_def)
next
  case False
  with assms show ?thesis by (simp add: monitor_defs Let_def)
qed

definition demo_match :: sanction_match where
  "demo_match = \<lparr>mt_entity = \<lparr>se_name = ''A b'', se_country = None, se_source = ''UN'', se_category = None, se_external_id = None\<rparr>,
     mt_score = Fin 1\<rparr>"

definition demo_input :: monitor_input where
  "demo_input = \<lparr>mi_now = 7, mi_rates = [], mi_id = ''alert'', mi_inserted = True, mi_recent = Some [],
     mi_name = Some [(''A'', ''B'')], mi_listed = Some [mt_entity demo_match]\<rparr>"

definition no_alerts :: aml_state where
  "no_alerts = \<lparr>hit_lists = [], reason_lists = [], objects = [], alerts = [], stored = [], effects = []\<rparr>"

theorem sanction_match_not_stored_witness:
  "\<exists>res s' a row hit. monitorTransaction aml_config demo_input (sync_record ''t'' None Deposit (Fin 45) 0) no_alerts = (Some res, s') \<and>
    mr_alert res = Some a \<and> al_severity (objects s' ! a) = High \<and> stored s' = [row] \<and> aw_ruleHits row = [hit] \<and>
    hit_lists s' ! mr_ruleHits res = [hit, sanction_hit demo_match, sanction_hit demo_match]"
proof -
  let ?t = "sync_record ''t'' None Deposit (Fin 45) 0"
  define hit where "hit = \<lparr>hit_rule = Single_transaction_threshold, hit_message = UsdExceeds (js_toFixed 2 (Fin 45)) (Fin 40),
    hit_observed = Fin 45, hit_threshold = Fin 40\<rparr>"
  have "\<not> js_le (Fin 3) (Fin 0)" "js_mul (Fin 50) (Fin (1 / 2)) = Fin 25" "rapid_hits aml_config ?t [] = []"
    by (simp_all add: num_numeral num_one rapid_hits_def Let_def at_least_def aml_config_def js_int_def)
  then have rules: "rule_hits aml_config [] ?t [] = Inr [hit]"
    by (simp add: rule_hits_def Let_def assessHighValueTransaction_def finite_or_none_def normalizeSupportedCurrency_def single_hits_def
      total_hits_def rolling_total_def structuring_hits_def just_below_def at_least_def js_int_def num_numeral num_one hit_def
      sync_record_def aml_config_def)
  have "mi_recent demo_input = Some []" "fetchUserName (mi_name demo_input) = Some ''A B''" "''A B'' \<noteq> []"
    "mi_listed demo_input = Some [mt_entity demo_match]" "mi_inserted demo_input"
    "searchSanctions [mt_entity demo_match] ''A B'' DEFAULT_THRESHOLD = demo_match # []" "rule_hits aml_config (mi_rates demo_input) ?t [] = Inr [hit]"
    using rules by (simp_all add: demo_input_def fetchUserName_def js_trim_def js_space_def) code_simp
  from sanction_match_not_stored [OF this, of no_alerts] show ?thesis
    by (auto simp: no_alerts_def)
qed

section \<open>What the listing sees\<close>

datatype aml_op =
    Monitor monitor_input AMLTransactionRecord
  | Raise id millis bool AMLTransactionRecord "AMLRuleHit list" AMLAlertSeverity
  | ReviewOf millis id AMLAlertStatus string "string option"
  | Clear

fun aml_op_step :: "AMLConfig \<Rightarrow> aml_op \<Rightarrow> aml_state \<Rightarrow> aml_state" where
  "aml_op_step cfg (Monitor i t) s = snd (monitorTransaction cfg i t s)"
| "aml_op_step cfg (Raise newId now inserted t hits severity) s = snd (raiseAlert cfg newId now inserted t hits severity s)"
| "aml_op_step cfg (ReviewOf now alertId status by_whom notes) s = snd (reviewAlert now alertId status by_whom notes s)"
| "aml_op_step cfg Clear s = clearAlerts s"

definition aml_run :: "AMLConfig \<Rightarrow> aml_op list \<Rightarrow> aml_state" where
  "aml_run cfg ops = fold (aml_op_step cfg) ops no_alerts"

fun op_alert :: "aml_op \<Rightarrow> (id \<times> bool) list" where
  \<comment> \<open>the id that an operation draws for its alert, and whether the insert succeeds\<close>
  "op_alert (Monitor i t) = [(mi_id i, mi_inserted i)]"
| "op_alert (Raise newId now inserted t hits severity) = [(newId, inserted)]"
| "op_alert _ = []"

definition listed :: "aml_state \<Rightarrow> id set" where
  "listed s = (\<lambda>a. al_id (objects s ! a)) ` set (alerts s)"

definition stored_ids :: "aml_state \<Rightarrow> id set" where
  "stored_ids s = aw_id ` set (stored s)"

definition addressed :: "aml_state \<Rightarrow> bool" where
  "addressed s \<longleftrightarrow> (\<forall>a\<in>set (alerts s). a < length (objects s))"

definition adds :: "(id \<times> bool) set \<Rightarrow> aml_state \<Rightarrow> aml_state \<Rightarrow> bool" where
  \<comment> \<open>from one state to another only alerts drawn are added, to the table or to the list\<close>
  "adds D s s' \<longleftrightarrow> (addressed s \<longrightarrow> addressed s' \<and> length (objects s) \<le> length (objects s') \<and>
     listed s' \<subseteq> listed s \<union> {i. (i, False) \<in> D} \<and> stored_ids s' \<subseteq> stored_ids s \<union> {i. (i, True) \<in> D})"

named_theorems adds_intro \<open>steps that add only what they draw\<close>

lemmas adds_defs = adds_def addressed_def listed_def stored_ids_def

lemma adds_refl [simp, adds_intro]: "adds D s s"
  by (simp add: adds_defs)

lemma adds_trans: "adds D s s' \<Longrightarrow> adds D s' s'' \<Longrightarrow> adds D s s''"
  unfolding adds_def by (elim impCE) (simp_all, blast)

lemma adds_lists [adds_intro]:
  "adds D s (s\<lparr>hit_lists := x, reason_lists := y\<rparr>)" "adds D s (push_hit h z s)" "adds D s (push_reason r w s)" "adds D s (logAlert a s)"
  by (simp_all add: adds_defs push_hit_def push_reason_def logAlert_def Let_def)

lemma adds_new_object [adds_intro]: "adds D s (s\<lparr>objects := objects s @ [x]\<rparr>)"
  by (auto simp: adds_defs nth_append)

lemma adds_severity [adds_intro]: "adds D s (s\<lparr>objects := (objects s)[a := (objects s ! a)\<lparr>al_severity := High\<rparr>]\<rparr>)"
  by (cases "a < length (objects s)") (auto simp: adds_defs nth_list_update)

lemma set_slice_to: "set (slice_to n xs) \<subseteq> set xs"
  by (auto simp: slice_to_def split: jsnum.splits if_splits dest: in_set_takeD)

lemma adds_record [adds_intro]:
  assumes "a < length (objects s)" "(al_id (objects s ! a), inserted) \<in> D"
  shows "adds D s (recordAlert cfg inserted a s)"
  using assms set_slice_to [of "alertBufferSize cfg" "a # alerts s"]
  by (cases inserted) (auto simp: adds_defs recordAlert_def insert_alert_def Let_def)

lemma adds_new_lists [adds_intro]: "new_lists hits reasons s = (h, r, s') \<Longrightarrow> adds D s s'"
  using adds_lists(1) by (auto simp: new_lists_def)

lemma adds_new_alert [adds_intro]:
  assumes "new_alert newId now t severity h r s = (a, s')" "(newId, inserted) \<in> D"
  shows "adds D s (recordAlert cfg inserted a s')"
proof -
  have "adds D s s'" using assms(1) adds_new_object by (auto simp: new_alert_def)
  moreover have "adds D s' (recordAlert cfg inserted a s')"
    using assms by (intro adds_record) (auto simp: new_alert_def)
  ultimately show ?thesis by (rule adds_trans)
qed

lemma adds_evaluate:
  assumes "evaluateTransaction cfg rates newId now inserted t recent s = (res, s')"
  shows "adds {(newId, inserted)} s s'"
proof (cases "rule_hits cfg rates t recent")
  case (Inr hits)
  obtain h r s1 where lists: "new_lists hits (map hit_message hits) s = (h, r, s1)" by (cases "new_lists hits (map hit_message hits) s")
  obtain a s2 where alert: "new_alert newId now t (hits_severity hits) h r s1 = (a, s2)" by (cases "new_alert newId now t (hits_severity hits) h r s1")
  have "adds {(newId, inserted)} s s1" using lists by (rule adds_new_lists)
  moreover have "adds {(newId, inserted)} s1 (logAlert a (recordAlert cfg inserted a s2))"
    using adds_new_alert [OF alert] adds_lists(4) by (rule adds_trans) simp
  moreover have "s' = (if hits = [] then s1 else logAlert a (recordAlert cfg inserted a s2))"
    using assms Inr lists alert by (simp add: evaluateTransaction_def split: if_splits)
  ultimately show ?thesis by (auto intro: adds_trans)
qed (use assms in \<open>simp add: evaluateTransaction_def\<close>)

lemma adds_sanction:
  assumes "add_sanction cfg i t hit res s = (res', s')"
  shows "adds {(mi_id i, mi_inserted i)} s s'"
proof -
  let ?D = "{(mi_id i, mi_inserted i)}"
  define s1 where "s1 = push_reason (mr_reasons res) (hit_message hit) (push_hit (mr_ruleHits res) hit s)"
  have s1: "adds ?D s s1" unfolding s1_def by (intro adds_trans [OF adds_lists(2) adds_lists(3)])
  show ?thesis
  proof (cases "mr_alert res")
    case None
    obtain h r s2 where lists: "new_lists [hit] [hit_message hit] s1 = (h, r, s2)" by (cases "new_lists [hit] [hit_message hit] s1")
    obtain a s3 where alert: "new_alert (mi_id i) (mi_now i) t High h r s2 = (a, s3)" by (cases "new_alert (mi_id i) (mi_now i) t High h r s2")
    have "s' = recordAlert cfg (mi_inserted i) a s3"
      using assms None lists alert by (simp add: add_sanction_def Let_def s1_def)
    then show ?thesis using adds_trans [OF s1 adds_new_lists [OF lists]] adds_new_alert [OF alert] by (auto intro: adds_trans)
  next
    case (Some a)
    let ?s2 = "s1\<lparr>objects := (objects s1)[a := (objects s1 ! a)\<lparr>al_severity := High\<rparr>]\<rparr>"
    have "s' = push_reason (al_reasons (objects s1 ! a)) (hit_message hit) (push_hit (al_ruleHits (objects s1 ! a)) hit ?s2)"
      using assms Some by (simp add: add_sanction_def Let_def s1_def)
    then show ?thesis
      using adds_trans [OF s1 adds_severity] adds_trans [OF adds_lists(2) adds_lists(3)] by (blast intro: adds_trans)
  qed
qed

lemma adds_with_matches: "adds {(mi_id i, mi_inserted i)} s (snd (with_matches cfg i t matches res s))"
proof -
  have log: "adds {(mi_id i, mi_inserted i)} s (if p then logAlert a s1 else s1)" if "adds {(mi_id i, mi_inserted i)} s s1" for p a s1
    using adds_trans [OF that adds_lists(4)] that by simp
  obtain res1 s1 where end_of: "(case matches of [] \<Rightarrow> (res, s) | m # _ \<Rightarrow> add_sanction cfg i t (sanction_hit m) res s) = (res1, s1)"
    by (meson surj_pair)
  have "adds {(mi_id i, mi_inserted i)} s s1"
    using end_of by (cases matches) (auto intro: adds_sanction)
  from log [OF this] show ?thesis by (simp only: with_matches_def end_of prod.case snd_conv)
qed

lemma adds_monitor: "adds {(mi_id i, mi_inserted i)} s (snd (monitorTransaction cfg i t s))"
proof (cases "mi_recent i")
  case (Some recent)
  obtain res s1 where eval: "evaluateTransaction cfg (mi_rates i) (mi_id i) (mi_now i) (mi_inserted i) t recent s = (res, s1)" by (meson surj_pair)
  have s1: "adds {(mi_id i, mi_inserted i)} s s1" by (rule adds_evaluate [OF eval])
  have "adds {(mi_id i, mi_inserted i)} s (snd (case with_matches cfg i t matches r s1 of (r', s') \<Rightarrow> (Some r', s')))" for matches r
    using adds_trans [OF s1 adds_with_matches [of i s1 cfg t matches r]] by (simp add: case_prod_beta)
  then show ?thesis using s1 by (simp add: monitorTransaction_def Some eval split: option.split)
qed (simp add: monitorTransaction_def)

lemma adds_raise: "adds {(newId, inserted)} s (snd (raiseAlert cfg newId now inserted t hits severity s))"
  by (auto simp: raiseAlert_def split: prod.splits
    intro: adds_trans [OF adds_new_lists] adds_trans [OF adds_new_alert adds_lists(4)])

lemma adds_review: "adds D s (snd (reviewAlert now alertId status by_whom notes s))"
proof (cases "find (\<lambda>k. al_id (objects s ! (alerts s ! k)) = alertId) [0..<length (alerts s)]")
  case (Some k)
  then have k: "k < length (alerts s)" by (auto dest: find_SomeD)
  define x where "x = (objects s ! (alerts s ! k))\<lparr>al_status := status, al_reviewedBy := Some by_whom, al_reviewNotes := notes,
    al_reviewedAt := Some now, al_updatedAt := now\<rparr>"
  define s' where "s' = s\<lparr>objects := objects s @ [x], alerts := (alerts s)[k := length (objects s)]\<rparr>"
  have entries: "set (alerts s') \<subseteq> insert (length (objects s)) (set (alerts s))" by (simp add: s'_def set_update_subset_insert)
  have id: "al_id x = al_id (objects s ! (alerts s ! k))" by (simp add: x_def)
  have "addressed s'" "listed s' \<subseteq> listed s" if "addressed s"
  proof -
    show "addressed s'" using that entries by (force simp: addressed_def s'_def)
    have "al_id (objects s' ! a) \<in> listed s" if "a \<in> set (alerts s')" for a
    proof (cases "a = length (objects s)")
      case True
      then have "al_id (objects s' ! a) = al_id (objects s ! (alerts s ! k))" using id by (simp add: s'_def)
      then show ?thesis using k by (auto simp: listed_def)
    next
      case False
      then have "a \<in> set (alerts s)" using that entries by auto
      then show ?thesis using \<open>addressed s\<close> by (auto simp: s'_def listed_def addressed_def nth_append)
    qed
    then show "listed s' \<subseteq> listed s" by (auto simp: listed_def)
  qed
  then have "adds D s s'" by (auto simp: adds_def stored_ids_def s'_def)
  then show ?thesis by (simp add: reviewAlert_def Some Let_def s'_def x_def)
qed (simp add: reviewAlert_def)

lemma adds_step: "adds (set (op_alert x)) s (aml_op_step cfg x s)"
proof (cases x)
  case Clear
  then show ?thesis by (simp add: clearAlerts_def adds_defs)
qed (simp_all add: adds_monitor adds_raise adds_review)

lemma adds_mono: "adds D s s' \<Longrightarrow> D \<subseteq> E \<Longrightarrow> adds E s s'"
  unfolding adds_def by blast

lemma adds_run: "adds (set (concat (map op_alert ops))) no_alerts (aml_run cfg ops)"
proof (induction ops rule: rev_induct)
  case (snoc x ops)
  have "adds (set (concat (map op_alert (ops @ [x])))) no_alerts (aml_run cfg ops)" by (rule adds_mono [OF snoc]) auto
  moreover have "adds (set (concat (map op_alert (ops @ [x])))) (aml_run cfg ops) (aml_op_step cfg x (aml_run cfg ops))"
    by (rule adds_mono [OF adds_step]) auto
  ultimately show ?case by (simp add: aml_run_def) (rule adds_trans)
qed (simp add: aml_run_def)

lemma run_alerts:
  "listed (aml_run cfg ops) \<subseteq> {i. (i, False) \<in> set (concat (map op_alert ops))}"
  "stored_ids (aml_run cfg ops) \<subseteq> {i. (i, True) \<in> set (concat (map op_alert ops))}"
  using adds_run [of ops cfg] by (auto simp: adds_def no_alerts_def addressed_def listed_def stored_ids_def)

lemma getAlerts_listed: "a \<in> set (getAlerts f s) \<Longrightarrow> al_id (objects s ! a) \<in> listed s"
  by (auto simp: getAlerts_def Let_def listed_def)

text \<open>
  Where ids are unique, the alerts that the service lists, reviews and reports are never those of the table:
  whatever was monitored, raised, reviewed and cleared, they are alerts whose insert failed.
\<close>

theorem listed_alerts_not_stored:
  assumes "distinct (map fst (concat (map op_alert ops)))" "a \<in> set (getAlerts f (aml_run cfg ops))"
  shows "al_id (objects (aml_run cfg ops) ! a) \<notin> stored_ids (aml_run cfg ops) \<and>
    (al_id (objects (aml_run cfg ops) ! a), False) \<in> set (concat (map op_alert ops))"
proof -
  have failed: "(al_id (objects (aml_run cfg ops) ! a), False) \<in> set (concat (map op_alert ops))"
    using run_alerts(1) [of cfg ops] getAlerts_listed [OF assms(2)] by blast
  moreover have "(al_id (objects (aml_run cfg ops) ! a), True) \<notin> set (concat (map op_alert ops))"
    using eq_key_imp_eq_value [OF assms(1) failed] by blast
  ultimately show ?thesis using run_alerts(2) [of cfg ops] by blast
qed

lemma nothing_listed:
  assumes "\<forall>d\<in>set (concat (map op_alert ops)). snd d"
  shows "alerts (aml_run cfg ops) = []"
proof -
  define drawn where "drawn = set (concat (map op_alert ops))"
  have "listed (aml_run cfg ops) \<subseteq> {i. (i, False) \<in> drawn}" unfolding drawn_def by (rule run_alerts)
  moreover have "(i, False) \<notin> drawn" for i using assms unfolding drawn_def [symmetric] by auto
  ultimately show ?thesis by (auto simp: listed_def)
qed

text \<open>
  C12. While the database works, the AML service itself shows none of its alerts: its listing is empty, its
  report counts none and its review, of the transaction controller, is refused as an internal error, however many alerts have
  been stored; all three read the buffer of alerts whose insert failed. (The audit controller has a listing and a review of
  its own, on the table.)
\<close>

theorem stored_alerts_unseen:
  assumes "\<forall>d\<in>set (concat (map op_alert ops)). snd d"
  shows "getAlerts f (aml_run cfg ops) = [] \<and> re_total (generateReport from to (aml_run cfg ops)) = 0 \<and>
    fst (reviewAmlAlertHandler now i status reviewer notes (aml_run cfg ops)) = Inl InternalError"
proof -
  have none: "alerts (aml_run cfg ops) = []" by (rule nothing_listed [OF assms])
  then have "getAlerts g (aml_run cfg ops) = []" for g by (simp add: getAlerts_def)
  moreover have "reviewAlert now i st by_whom n (aml_run cfg ops) = (None, aml_run cfg ops)" for st by_whom n
    using none by (simp add: reviewAlert_def)
  ultimately show ?thesis
    by (auto simp: generateReport_def Let_def reviewAmlAlertHandler_def caught_def split: jsval.splits)
qed

definition demo_ops :: "aml_op list" where
  "demo_ops = map (\<lambda>i. Raise i 8 True (sync_record ''t'' None Deposit (Fin 45) 0) [sanction_hit demo_match] High) [''a'', ''b'']"

theorem stored_alerts_unseen_witness:
  "length (stored (aml_run aml_config demo_ops)) = 2 \<and>
   fst (reviewAmlAlertHandler 9 ''a'' (JString ''reviewed'') (JString ''officer'') JUndefined (aml_run aml_config demo_ops)) = Inl InternalError"
proof -
  have "\<forall>d\<in>set (concat (map op_alert demo_ops)). snd d" by (simp add: demo_ops_def)
  moreover have "length (stored (aml_run aml_config demo_ops)) = 2"
    by (simp add: demo_ops_def aml_run_def raiseAlert_def new_lists_def new_alert_def recordAlert_def logAlert_def insert_alert_def no_alerts_def Let_def)
  ultimately show ?thesis using stored_alerts_unseen by blast
qed

end
