(* ===== verification/Sanctions_Safety.thy ===== *)
theory Sanctions_Safety
  imports Sanctions
begin

text \<open>
  What screening against the lists of sanctions decides. The distance computed row by row is the least number of
  edits; a party whose name is listed is blocked, up to case, as long as the name has a
  letter or digit of ASCII and the search is not cut short. Without such a character it never is, and
  the daily update of the list fails on the table the migrations create.
\<close>

section \<open>Edits\<close>

inductive edit :: "string \<Rightarrow> string \<Rightarrow> bool" where
  insert_char: "edit (u @ v) (u @ c # v)"
| delete_char: "edit (u @ c # v) (u @ v)"
| replace_char: "edit (u @ c # v) (u @ d # v)"

inductive align :: "string \<Rightarrow> string \<Rightarrow> nat \<Rightarrow> bool" where
  empty: "align [] [] 0"
| keep: "align s t n \<Longrightarrow> align (c # s) (c # t) n"
| substitute: "align s t n \<Longrightarrow> align (c # s) (d # t) (Suc n)"
| delete: "align s t n \<Longrightarrow> align (c # s) t (Suc n)"
| insert: "align s t n \<Longrightarrow> align s (d # t) (Suc n)"

inductive_cases align_ConsE: "align s (d # t) n"

fun ld :: "string \<Rightarrow> string \<Rightarrow> nat" where
  "ld [] t = length t"
| "ld (c # s) [] = Suc (length s)"
| "ld (c # s) (d # t) = min (ld s (d # t) + 1) (min (ld (c # s) t + 1) (ld s t + (if c = d then 0 else 1)))"

lemma ld_Nil2 [simp]: "ld s [] = length s"
  by (cases s) simp_all

lemma align_inserts: "align [] t (length t)"
  by (induction t) (auto intro: align.intros)

lemma align_deletes: "align s [] (length s)"
  by (induction s) (auto intro: align.intros)

lemma align_ld: "align s t (ld s t)"
proof (induction s t rule: ld.induct)
  case (3 c s d t)
  then show ?case by (auto simp: min_def intro: align.intros)
qed (use align_inserts align_deletes in \<open>auto intro: align.intros\<close>)

lemma ld_delete: "ld (c # s) t \<le> Suc (ld s t)"
  by (cases t) simp_all

lemma ld_insert: "ld s (d # t) \<le> Suc (ld s t)"
  by (cases s) simp_all

lemma ld_least: "align s t n \<Longrightarrow> ld s t \<le> n"
proof (induction rule: align.induct)
  case (delete s t n c)
  then show ?case using ld_delete [of c s t] by simp
next
  case (insert s t n d)
  then show ?case using ld_insert [of s d t] by simp
qed auto

text \<open>Alignments of parts compose, and an alignment splits where its target does.\<close>

lemma align_append: "align s t n \<Longrightarrow> align s' t' n' \<Longrightarrow> align (s @ s') (t @ t') (n + n')"
  by (induction rule: align.induct) (auto intro: align.intros)

lemma align_parts:
  "s = s1 @ s2 \<Longrightarrow> n = n1 + n2 \<Longrightarrow> align s1 p n1 \<Longrightarrow> align s2 q n2 \<Longrightarrow>
   \<exists>s1 s2 n1 n2. s = s1 @ s2 \<and> n = n1 + n2 \<and> align s1 p n1 \<and> align s2 q n2"
  by blast

lemma align_split: "align s w n \<Longrightarrow> w = p @ q \<Longrightarrow> \<exists>s1 s2 n1 n2. s = s1 @ s2 \<and> n = n1 + n2 \<and> align s1 p n1 \<and> align s2 q n2"
proof (induction arbitrary: p rule: align.induct)
  case empty
  then show ?case by (auto intro: align.intros)
next
  case (keep s t n c)
  show ?case
  proof (cases p)
    case Nil
    then show ?thesis using align.keep [OF keep.hyps, of c] keep.prems align.empty by (intro align_parts [of _ "[]" "c # s" _ 0 n]) simp_all
  next
    case (Cons e p')
    then obtain s1 s2 n1 n2 where "s = s1 @ s2" "n = n1 + n2" "align s1 p' n1" "align s2 q n2" using keep.IH [of p'] keep.prems by auto
    then show ?thesis using Cons keep.prems by (intro align_parts [of _ "c # s1" s2 _ n1 n2]) (auto intro: align.keep)
  qed
next
  case (substitute s t n c d)
  show ?case
  proof (cases p)
    case Nil
    then show ?thesis using align.substitute [OF substitute.hyps, of c d] substitute.prems align.empty
      by (intro align_parts [of _ "[]" "c # s" _ 0 "Suc n"]) simp_all
  next
    case (Cons e p')
    then obtain s1 s2 n1 n2 where "s = s1 @ s2" "n = n1 + n2" "align s1 p' n1" "align s2 q n2"
      using substitute.IH [of p'] substitute.prems by auto
    then show ?thesis using Cons substitute.prems by (intro align_parts [of _ "c # s1" s2 _ "Suc n1" n2]) (auto intro: align.substitute)
  qed
next
  case (delete s t n c)
  then obtain s1 s2 n1 n2 where "s = s1 @ s2" "n = n1 + n2" "align s1 p n1" "align s2 q n2" by blast
  then show ?case by (intro align_parts [of _ "c # s1" s2 _ "Suc n1" n2]) (auto intro: align.delete)
next
  case (insert s t n d)
  show ?case
  proof (cases p)
    case Nil
    then show ?thesis using align.insert [OF insert.hyps, of d] insert.prems align.empty
      by (intro align_parts [of _ "[]" s _ 0 "Suc n"]) simp_all
  next
    case (Cons e p')
    then obtain s1 s2 n1 n2 where "s = s1 @ s2" "n = n1 + n2" "align s1 p' n1" "align s2 q n2"
      using insert.IH [of p'] insert.prems by auto
    then show ?thesis using Cons insert.prems by (intro align_parts [of _ s1 s2 _ "Suc n1" n2]) (auto intro: align.insert)
  qed
qed

lemma align_head:
  "align s w n \<Longrightarrow> w = c # q \<Longrightarrow> (\<exists>m\<le>Suc n. align s q m) \<and> (\<exists>m\<le>Suc n. align s (d # q) m)"
proof (induction rule: align.induct)
  case (keep s t n e)
  then have "align s q n" by simp
  then show ?case using align.delete [of s q n e] align.substitute [of s q n e d] by blast
next
  case (substitute s t n e f)
  then have "align s q n" by simp
  then show ?case using align.delete [of s q n e] align.substitute [of s q n e d] le_SucI [OF le_refl [of "Suc n"]] by blast
next
  case (delete s t n e)
  then obtain m m' where "m \<le> Suc n" "align s q m" "m' \<le> Suc n" "align s (d # q) m'" by blast
  then show ?case using align.delete [of s q m e] align.delete [of s "d # q" m' e] Suc_le_mono by blast
next
  case (insert s t n f)
  then have "align s q n" by simp
  then show ?case using align.insert [of s q n d] le_SucI [OF le_refl [of "Suc n"]] le_SucI [OF le_SucI [OF le_refl [of n]]] by blast
qed simp

lemma align_edit:
  assumes "align s t n" "edit t u"
  shows "\<exists>m\<le>Suc n. align s u m"
proof -
  obtain p q q' where split: "t = p @ q" "u = p @ q'" and q: "\<And>s' n'. align s' q n' \<Longrightarrow> \<exists>m\<le>Suc n'. align s' q' m"
  proof (use assms(2) in \<open>cases rule: edit.cases\<close>)
    case (insert_char p q c)
    then show ?thesis using that [of p q "c # q"] align.insert by blast
  next
    case (delete_char p c q)
    then show ?thesis using that [of p "c # q" q] align_head by blast
  next
    case (replace_char p c q d)
    then show ?thesis using that [of p "c # q" "d # q"] align_head by blast
  qed
  obtain s1 s2 n1 n2 where parts: "s = s1 @ s2" "n = n1 + n2" "align s1 p n1" "align s2 q n2"
    using align_split [OF assms(1) split(1)] by blast
  obtain m where "m \<le> Suc n2" "align s2 q' m" using q [OF parts(4)] by blast
  then show ?thesis using align_append [OF parts(3), of s2 q' m] parts split by (intro exI [of _ "n1 + m"]) simp
qed

lemma align_refl: "align s s 0"
  by (induction s) (auto intro: align.intros)

lemma edits_align: "(edit ^^ n) s t \<Longrightarrow> \<exists>m\<le>n. align s t m"
proof (induction n arbitrary: t)
  case 0
  then show ?case using align_refl by auto
next
  case (Suc n)
  then obtain u where "(edit ^^ n) s u" "edit u t" by auto
  then obtain m where "m \<le> n" "align s u m" using Suc.IH by blast
  then show ?case using align_edit [OF _ \<open>edit u t\<close>] by (meson Suc_le_mono order_trans)
qed

lemma edit_Cons: "edit s t \<Longrightarrow> edit (c # s) (c # t)"
  by (erule edit.cases) (metis append_Cons edit.intros)+

lemma edits_Cons: "(edit ^^ n) s t \<Longrightarrow> (edit ^^ n) (c # s) (c # t)"
  by (induction n arbitrary: t) (auto intro: edit_Cons)

lemma align_edits: "align s t n \<Longrightarrow> (edit ^^ n) s t"
proof (induction rule: align.induct)
  case (substitute s t n c d)
  have "edit (c # t) (d # t)" using replace_char [of "[]"] by simp
  then show ?case using edits_Cons [OF substitute.IH] by auto
next
  case (delete s t n c)
  have "edit (c # t) t" using delete_char [of "[]"] by simp
  then show ?case using edits_Cons [OF delete.IH] by auto
next
  case (insert s t n d)
  have "edit t (d # t)" using insert_char [of "[]"] by simp
  then show ?case using insert.IH by auto
qed (auto intro: edits_Cons)

lemma ld_edits: "(edit ^^ ld s t) s t" "(edit ^^ n) s t \<Longrightarrow> ld s t \<le> n"
  using align_edits [OF align_ld] edits_align ld_least by (blast, meson order_trans)

section \<open>The computation by rows\<close>

lemma edit_rev: "edit s t \<Longrightarrow> edit (rev s) (rev t)"
  by (erule edit.cases) (simp_all, (metis append.assoc append_Cons append_Nil edit.intros)+)

lemma edits_rev: "(edit ^^ n) s t \<Longrightarrow> (edit ^^ n) (rev s) (rev t)"
  by (induction n arbitrary: t) (auto intro: edit_rev)

definition pd :: "string \<Rightarrow> string \<Rightarrow> nat" where
  \<comment> \<open>the distance by last characters, as the rows have it\<close>
  "pd s t = ld (rev s) (rev t)"

lemma pd_simps [simp]:
  "pd [] t = length t" "pd s [] = length s"
  "pd (s @ [c]) (t @ [d]) = min (pd s (t @ [d]) + 1) (min (pd (s @ [c]) t + 1) (pd s t + (if c = d then 0 else 1)))"
  by (simp_all add: pd_def)

fun prefs :: "string \<Rightarrow> string \<Rightarrow> string list" where
  "prefs q [] = [q]"
| "prefs q (d # ds) = q # prefs (q @ [d]) ds"

lemma prefs_Cons: "prefs q ds = q # tl (prefs q ds)"
  by (cases ds) simp_all

lemma row_cells_prefs: "row_cells c ds (map (pd p) (prefs q ds)) (pd (p @ [c]) q) = map (pd (p @ [c])) (tl (prefs q ds))"
proof (induction ds arbitrary: q)
  case (Cons d ds)
  obtain rest where rest: "prefs (q @ [d]) ds = (q @ [d]) # rest" using prefs_Cons by blast
  have "row_cells c (d # ds) (map (pd p) (prefs q (d # ds))) (pd (p @ [c]) q) =
      pd (p @ [c]) (q @ [d]) # row_cells c ds (map (pd p) (prefs (q @ [d]) ds)) (pd (p @ [c]) (q @ [d]))"
    by (simp add: rest Let_def)
  then show ?case using Cons.IH [of "q @ [d]"] rest by simp
qed simp

lemma rows_prefs: "foldl (next_row s2) (length p + 1, map (pd p) (prefs [] s2)) s1 =
    (length p + length s1 + 1, map (pd (p @ s1)) (prefs [] s2))"
proof (induction s1 arbitrary: p)
  case (Cons c s1)
  have "next_row s2 (length p + 1, map (pd p) (prefs [] s2)) c = (length (p @ [c]) + 1, map (pd (p @ [c])) (prefs [] s2))"
    using row_cells_prefs [of c s2 p "[]"] prefs_Cons [of "[]" s2]
    by (simp add: next_row_def) (metis list.simps(9) length_append_singleton pd_simps(2))
  then show ?case using Cons.IH [of "p @ [c]"] by simp
qed simp

lemma prefs_last: "prefs q ds ! length ds = q @ ds" "length (prefs q ds) = length ds + 1"
  by (induction ds arbitrary: q) simp_all

lemma prefs_length: "map length (prefs q ds) = [length q..<length q + length ds + 1]"
proof (induction ds arbitrary: q)
  case (Cons d ds)
  then show ?case using Cons.IH [of "q @ [d]"] by (simp add: upt_conv_Cons del: upt_Suc)
qed simp

lemma levenshtein_pd: "levenshteinDistance s t = pd s t"
proof (cases "s = [] \<or> t = [] \<or> s = t")
  case True
  have "pd s s = 0" using ld_least [OF align_refl] by (simp add: pd_def)
  then show ?thesis using True by (auto simp: levenshteinDistance_def)
next
  case False
  have "map (pd []) (prefs [] t) = map length (prefs [] t)" by simp
  then have "map (pd []) (prefs [] t) = [0..<length t + 1]" using prefs_length [of "[]" t] by (simp del: upt_Suc)
  then have "snd (foldl (next_row t) (1, [0..<length t + 1]) s) = map (pd s) (prefs [] t)" using rows_prefs [of t "[]" s] by simp
  then show ?thesis using False prefs_last [of "[]" t] by (simp add: levenshteinDistance_def)
qed

text \<open>
  C10. The distance that is computed by rows is the edit distance: so many insertions, deletions and
  replacements of single characters turn the one name into the other, and no fewer do.
\<close>

theorem levenshtein_is_edit_distance:
  "(edit ^^ levenshteinDistance s t) s t \<and> levenshteinDistance s t = (LEAST n. (edit ^^ n) s t)"
proof -
  have "(edit ^^ pd s t) s t" using edits_rev [OF ld_edits(1) [of "rev s" "rev t"]] by (simp add: pd_def)
  moreover have "pd s t \<le> n" if "(edit ^^ n) s t" for n using ld_edits(2) [OF edits_rev [OF that]] by (simp add: pd_def)
  ultimately have "(LEAST n. (edit ^^ n) s t) = pd s t" by (rule Least_equality)
  then show ?thesis using \<open>(edit ^^ pd s t) s t\<close> by (simp add: levenshtein_pd)
qed

section \<open>Scores of names\<close>

lemma js_nat_small: "n \<le> 2 ^ 53 \<Longrightarrow> js_nat n = Fin (of_nat n)"
  using num_int [of "int n"] by (simp add: js_nat_def js_int_def)

lemma similarity_same: "length s \<le> 2 ^ 53 \<Longrightarrow> levenshteinSimilarity s s = Fin 1"
  using num_int [of 1] by (cases s) (simp_all add: levenshteinSimilarity_def Let_def levenshteinDistance_def js_nat_small js_sub_def)

lemma similarity_le_one:
  assumes "length s \<le> 2 ^ 53" "length t \<le> 2 ^ 53"
  shows "\<not> js_lt (Fin 1) (levenshteinSimilarity s t)"
proof (cases "max (length s) (length t) = 0")
  case False
  have "js_nat (max (length s) (length t)) = Fin (of_nat (max (length s) (length t)))" using assms by (intro js_nat_small) simp
  moreover have "js_le (Fin 0) (js_nat n)" for n unfolding js_nat_def js_int_def by (rule num_nonneg) simp
  moreover have "(0 :: rat) < of_nat (max (length s) (length t))" using False by (intro of_nat_0_less_iff [THEN iffD2]) linarith
  ultimately have nonneg: "js_le (Fin 0) (js_div (js_nat (levenshteinDistance s t)) (js_nat (max (length s) (length t))))" (is "js_le _ ?x")
    by (metis js_div_nonneg)
  have "js_le (js_sub (Fin 1) ?x) (Fin 1)"
  proof (cases ?x)
    case (Fin b)
    then have "js_le (num (1 - b)) (num 1)" using nonneg by (intro num_mono) simp
    then show ?thesis using Fin num_int [of 1] by (simp add: js_sub_def)
  qed (use nonneg in \<open>simp_all add: js_sub_def\<close>)
  then have "\<not> js_lt (Fin 1) (js_sub (Fin 1) ?x)" using js_not_lt js_le_not_NaN by blast
  then show ?thesis using False by (simp add: levenshteinSimilarity_def Let_def)
qed (simp add: levenshteinSimilarity_def)

lemma best_kept:
  assumes "\<forall>(x, y)\<in>set xs. \<not> js_lt (Fin 1) (f x y)" "q \<le> 1" "q = 1 \<or> (\<exists>(x, y)\<in>set xs. f x y = Fin 1)"
  shows "foldl (\<lambda>best (x, y). if js_lt best (f x y) then f x y else best) (Fin q) xs = Fin 1"
  using assms
proof (induction xs arbitrary: q)
  case (Cons p xs)
  obtain x y where p: "p = (x, y)" by (cases p)
  show ?case
  proof (cases "js_lt (Fin q) (f x y)")
    case True
    then obtain r where r: "f x y = Fin r" "r \<le> 1" using Cons.prems(1) p by (cases "f x y") auto
    have "r = 1 \<or> (\<exists>(x, y)\<in>set xs. f x y = Fin 1)" using Cons.prems r p True by (auto simp: not_less)
    then show ?thesis using Cons.IH [of r] Cons.prems(1) r p True by simp
  next
    case False
    have "q = 1 \<or> (\<exists>(x, y)\<in>set xs. f x y = Fin 1)" using Cons.prems(2,3) False p by auto
    then show ?thesis using Cons.IH [of q] Cons.prems(1,2) p False by simp
  qed
qed auto

lemma split_spaces_bounds: "length (split_spaces s) \<le> length s + 1" "w \<in> set (split_spaces s) \<Longrightarrow> length w \<le> length s"
  by (induction s arbitrary: w) (fastforce split: list.splits if_splits)+

lemma tokenize_bounds: "distinct (tokenize n)" "length (tokenize n) \<le> length n + 1" "w \<in> set (tokenize n) \<Longrightarrow> length w \<le> length n"
proof -
  define f where "f = filter (\<lambda>c. word_char c \<or> js_space c) (map js_lower n)"
  have tokens: "tokenize n = remdups (filter (\<lambda>w. w \<noteq> []) (split_spaces f))" by (simp add: tokenize_def f_def)
  have f: "length f \<le> length n" unfolding f_def using length_filter_le [of _ "map js_lower n"] by simp
  show "distinct (tokenize n)" by (simp add: tokens)
  show "length (tokenize n) \<le> length n + 1"
    unfolding tokens using f split_spaces_bounds(1) [of f] length_remdups_leq [of "filter (\<lambda>w. w \<noteq> []) (split_spaces f)"]
      length_filter_le [of "\<lambda>w. w \<noteq> []" "split_spaces f"] by linarith
  show "length w \<le> length n" if "w \<in> set (tokenize n)"
    using that f split_spaces_bounds(2) [of w f] by (simp add: tokens)
qed

lemma full_score: "js_le DEFAULT_THRESHOLD (js_min (Fin 1) (js_add (js_add (js_mul (Fin 1) (num (6 / 10))) (js_mul (Fin 1) (Fin (1 / 4)))) (js_mul (Fin 1) (num (15 / 100)))))"
  by code_simp

lemma low_score: "js_lt (num (6 / 10)) DEFAULT_THRESHOLD"
  by code_simp

lemma jaccard_same:
  assumes "distinct xs" "xs \<noteq> []" "length xs \<le> 2 ^ 53"
  shows "jaccard xs xs = Fin 1"
proof -
  have "length (remdups (xs @ xs)) = length xs" using assms(1) by (simp add: length_remdups_card_conv distinct_card)
  moreover have "length (filter (\<lambda>x. x \<in> set xs) xs) = length xs" by simp
  ultimately show ?thesis using assms num_int [of 1] by (simp add: jaccard_def Let_def js_nat_small)
qed

lemma score_listed:
  assumes "map js_lower n = map js_lower (se_name e)" "tokenize n \<noteq> []" "length n < 2 ^ 53"
  shows "js_le DEFAULT_THRESHOLD (calculateMatchScore n (cached_entry e))"
proof -
  have same: "normalizeName (se_name e) = normalizeName n" "tokenize (se_name e) = tokenize n"
    using assms(1) by (simp_all add: normalizeName_def tokenize_def)
  have "levenshteinSimilarity (normalizeName n) (normalizeName n) = Fin 1"
    using length_js_trim [of "map js_lower n"] assms(3) by (intro similarity_same) (simp add: normalizeName_def)
  moreover have "jaccard (tokenize n) (tokenize n) = Fin 1"
    using tokenize_bounds(1,2) [of n] assms(2,3) by (intro jaccard_same) simp_all
  moreover have "best_similarity (tokenize n) (tokenize n) = Fin 1"
  proof -
    have short: "length w \<le> 2 ^ 53" if "w \<in> set (tokenize n)" for w using tokenize_bounds(3) [OF that] assms(3) by simp
    obtain w where w: "w \<in> set (tokenize n)" using assms(2) by (cases "tokenize n") auto
    then have "(w, w) \<in> set (List.product (tokenize n) (tokenize n))" "levenshteinSimilarity w w = Fin 1"
      using similarity_same short by auto
    then show ?thesis unfolding best_similarity_def
      by (intro best_kept) (use similarity_le_one short in auto)
  qed
  ultimately show ?thesis using full_score by (simp add: calculateMatchScore_def cached_entry_def same Let_def)
qed

lemma add_zero: "wf_num x \<Longrightarrow> js_add x (Fin 0) = x"
  by (cases x) (simp_all add: num_wf)

lemma jaccard_Nil: "jaccard [] ys = Fin 0"
proof -
  have "js_div (Fin 0) (js_nat m) = Fin 0" if "0 < m" for m
  proof -
    have "js_le (num 1) (js_nat m)" unfolding js_nat_def js_int_def using that by (intro num_mono) simp
    then show ?thesis using num_int [of 1] by (cases "js_nat m") auto
  qed
  then show ?thesis by (simp add: jaccard_def Let_def js_nat_small)
qed

lemma zero_score [simp]: "js_mul (Fin 0) (num (3 / 20)) = Fin 0"
  by code_simp

lemma score_wordless:
  assumes "tokenize n = []" "length n \<le> 2 ^ 53" "length (ce_normalizedName c) \<le> 2 ^ 53"
  shows "\<not> js_le DEFAULT_THRESHOLD (calculateMatchScore n c)"
proof -
  let ?l = "levenshteinSimilarity (normalizeName n) (ce_normalizedName c)"
  let ?a = "js_mul ?l (num (6 / 10))"
  have "case num (6 / 10) of Fin r \<Rightarrow> 0 < r | _ \<Rightarrow> False" by code_simp
  then obtain r where r: "num (6 / 10) = Fin r" "0 < r" by (cases "num (6 / 10)") simp_all
  have "\<not> js_lt (Fin 1) ?l"
    using length_js_trim [of "map js_lower n"] assms(2,3) by (intro similarity_le_one) (simp_all add: normalizeName_def)
  then have "?a = NaN \<or> js_le ?a (num (6 / 10))"
  proof (cases ?l)
    case (Fin q)
    then have "js_le (num (q * r)) (num r)" using \<open>\<not> js_lt (Fin 1) ?l\<close> r(2) by (intro num_mono) simp
    then show ?thesis using Fin r num_wf by (metis js_mul.simps(1) wf_num_num)
  qed (use r in \<open>auto simp: signed_inf_def\<close>)
  then have "?a = NaN \<or> js_lt ?a DEFAULT_THRESHOLD" using js_le_lt_trans low_score by blast
  moreover have "calculateMatchScore n c = js_min (Fin 1) ?a"
    using assms(1) by (simp add: calculateMatchScore_def Let_def jaccard_Nil best_similarity_def add_zero)
  ultimately show ?thesis
    by (cases ?a) (auto simp: js_min_def DEFAULT_THRESHOLD_def js_not_lt dest: js_lt_le_trans js_le_not_NaN)
qed

section \<open>Screening\<close>

lemma ensure_again: "ensureCacheInitialized now rows s = Some s1 \<Longrightarrow> ensureCacheInitialized now rows s1 = Some s1"
  by (auto simp: ensureCacheInitialized_def CACHE_EXPIRY_MS_def split: if_splits option.splits)

lemma by_score_Nil [simp]: "by_score ms = [] \<longleftrightarrow> ms = []"
  by (metis by_score_def length_0_conv length_sort)

lemma by_score_empty [simp]: "by_score [] = []"
  by simp

lemma search_finds:
  assumes "k < length es" "js_le threshold (calculateMatchScore name (es ! k))" "\<forall>j. i \<le> j \<and> j < i + k \<longrightarrow> \<not> late j"
  shows "search_entries name threshold late i es \<noteq> []"
  using assms
proof (induction es arbitrary: i k)
  case (Cons e es)
  show ?case
  proof (cases k)
    case (Suc k')
    then have "\<not> late i" using Cons.prems(3) by simp
    moreover have "search_entries name threshold late (i + 1) es \<noteq> []" using Cons.prems Suc by (intro Cons.IH [of k']) auto
    ultimately show ?thesis by (simp add: Let_def)
  qed (use Cons.prems in simp)
qed simp

lemma search_misses:
  "\<forall>e\<in>set es. \<not> js_le threshold (calculateMatchScore name e) \<Longrightarrow> search_entries name threshold late i es = []"
  by (induction es arbitrary: i) (simp_all add: Let_def)

lemma screen_step:
  assumes "ensureCacheInitialized now rows s = Some s1"
  shows "screen now rows late ((name, role) # parties) s =
    (case by_score (search_entries name DEFAULT_THRESHOLD (late role) 0 (sc_cache s1)) of
       [] \<Rightarrow> screen now rows late parties s1
     | m # _ \<Rightarrow> (Inl (SanctionScreeningError role name (se_name (mt_entity m)) (mt_score m) (se_source (mt_entity m))), s1))"
  by (simp add: searchSanctionsWithLevenshtein_def assms split: list.split)

text \<open>
  C9. A payment is blocked whenever one of its parties has a name on the list, up to case, that contains a
  letter, digit or underscore of ASCII, as long as the searches reach its entry in time.
\<close>

theorem listed_party_blocked:
  assumes cache: "ensureCacheInitialized now rows s = Some s1" "k < length (sc_cache s1)" "sc_cache s1 ! k = cached_entry e"
    and name: "n \<in> {sender, receiver}" "map js_lower n = map js_lower (se_name e)" "tokenize n \<noteq> []" "length n < 2 ^ 53"
    and time: "\<forall>role. \<forall>j<k. \<not> late role j"
  shows "\<exists>role x matched score source.
    fst (checkParties now rows late sender receiver s) = Inl (SanctionScreeningError role x matched score source)"
proof -
  have found: "by_score (search_entries n DEFAULT_THRESHOLD (late role) 0 (sc_cache s1)) \<noteq> []" for role
    using search_finds [OF cache(2)] score_listed [OF name(2-4)] cache(3) time by simp
  show ?thesis
  proof (cases "by_score (search_entries sender DEFAULT_THRESHOLD (late Sender) 0 (sc_cache s1))")
    case Nil
    then have "n = receiver" using found [of Sender] name(1) by auto
    then obtain m ms where "by_score (search_entries receiver DEFAULT_THRESHOLD (late Receiver) 0 (sc_cache s1)) = m # ms"
      using found [of Receiver] by (cases "by_score (search_entries receiver DEFAULT_THRESHOLD (late Receiver) 0 (sc_cache s1))") auto
    then show ?thesis
      unfolding checkParties_def screen_step [OF cache(1)] Nil list.case screen_step [OF ensure_again [OF cache(1)]] by auto
  next
    case (Cons m ms)
    then show ?thesis unfolding checkParties_def screen_step [OF cache(1)] by auto
  qed
qed

text \<open>
  A party whose name has no such character, as in most scripts but the Latin, is never found,
  even if its very name is listed: the full similarity of the names counts 0.6, below the threshold.
\<close>

theorem wordless_party_passes:
  assumes "ensureCacheInitialized now rows s = Some s1" "\<forall>c\<in>set (sc_cache s1). length (ce_normalizedName c) \<le> 2 ^ 53"
    and "tokenize sender = []" "tokenize receiver = []" "length sender \<le> 2 ^ 53" "length receiver \<le> 2 ^ 53"
  shows "checkParties now rows late sender receiver s = (Inr (), s1)"
proof -
  have "search_entries n DEFAULT_THRESHOLD (late role) 0 (sc_cache s1) = []" if "n \<in> {sender, receiver}" for n role
    using that assms by (intro search_misses) (auto simp: score_wordless)
  then show ?thesis
    by (simp add: checkParties_def screen_step [OF assms(1)] screen_step [OF ensure_again [OF assms(1)]] del: screen.simps(2))
qed

definition demo_entity :: "string \<Rightarrow> SanctionEntity" where
  "demo_entity n = \<lparr>se_name = n, se_country = None, se_source = ''UN'', se_category = None, se_external_id = Some n\<rparr>"

definition demo_service :: "string \<Rightarrow> sanction_service" where
  "demo_service n = \<lparr>sc_cache = [cached_entry (demo_entity n)], sc_initialized = True, sc_lastUpdate = 0\<rparr>"

theorem listed_party_blocked_witness:
  "\<exists>role x matched score source. fst (checkParties 1 None (\<lambda>_ _. True) ''ann'' ''Al B'' (demo_service ''AL b'')) =
     Inl (SanctionScreeningError role x matched score source)"
proof -
  have "ensureCacheInitialized 1 None (demo_service ''AL b'') = Some (demo_service ''AL b'')" "0 < length (sc_cache (demo_service ''AL b''))"
    "sc_cache (demo_service ''AL b'') ! 0 = cached_entry (demo_entity ''AL b'')"
    by (simp_all add: ensureCacheInitialized_def demo_service_def CACHE_EXPIRY_MS_def)
  moreover have "map js_lower ''Al B'' = map js_lower (se_name (demo_entity ''AL b''))" "tokenize ''Al B'' \<noteq> []"
    by (simp_all add: demo_entity_def) code_simp+
  ultimately show ?thesis
    using listed_party_blocked [of 1 None "demo_service ''AL b''" "demo_service ''AL b''" 0 "demo_entity ''AL b''" "''Al B''" "''ann''" "''Al B''"]
    by simp
qed

theorem wordless_party_passes_witness:
  "fst (checkParties 1 None (\<lambda>_ _. False) [CHR 0xC9] [CHR 0xC9] (demo_service [CHR 0xC9])) = Inr ()"
proof -
  have "ensureCacheInitialized 1 None (demo_service [CHR 0xC9]) = Some (demo_service [CHR 0xC9])"
    by (simp add: ensureCacheInitialized_def demo_service_def CACHE_EXPIRY_MS_def)
  moreover have "\<forall>c\<in>set (sc_cache (demo_service [CHR 0xC9])). length (ce_normalizedName c) \<le> 2 ^ 53"
    using length_js_trim [of "map js_lower [CHR 0xC9]"]
    by (simp add: demo_service_def cached_entry_def normalizeName_def demo_entity_def)
  moreover have "tokenize [CHR 0xC9] = []" by code_simp
  ultimately show ?thesis using wordless_party_passes [of 1 None "demo_service [CHR 0xC9]" _ "[CHR 0xC9]" "[CHR 0xC9]"] by simp
qed

section \<open>The search of the stored list\<close>

lemma count_set: "j < length xs \<Longrightarrow> \<not> xs ! j \<Longrightarrow> length (filter (\<lambda>b. b) (xs[j := True])) = Suc (length (filter (\<lambda>b. b) xs))"
  by (induction xs arbitrary: j) (auto simp: less_Suc_eq_0_disj)

lemma find_match_free:
  assumes "find_match d s2 i c ms = Some j" "length ms = length s2"
  shows "j < length ms \<and> \<not> ms ! j"
  using find_SomeD [OF assms(1) [unfolded find_match_def]] assms(2) by auto

lemma match_step_pair: "match_step d s2 (m1, m2) (i, c) = (case find_match d s2 i c m2 of
    None \<Rightarrow> (m1 @ [False], m2) | Some j \<Rightarrow> (m1 @ [True], m2[j := True]))"
  by (simp add: match_step_def)

text \<open>
  Both names have the same number of matched characters, so the walk along those of the second never
  leaves the name.
\<close>

theorem matched_alike:
  assumes "jaro_matches s1 s2 = (m1, m2)"
  shows "length m1 = length s1 \<and> length m2 = length s2 \<and> length (filter (\<lambda>b. b) m1) = length (filter (\<lambda>b. b) m2)"
proof -
  have "case foldl (match_step d s2) ([], replicate (length s2) False) xs of (m1, m2) \<Rightarrow>
      length m1 = length xs \<and> length m2 = length s2 \<and> length (filter (\<lambda>b. b) m1) = length (filter (\<lambda>b. b) m2)" for d xs
  proof (induction xs rule: rev_induct)
    case (snoc x xs)
    obtain m1 m2 where ms: "foldl (match_step d s2) ([], replicate (length s2) False) xs = (m1, m2)" by (meson surj_pair)
    obtain i c where x: "x = (i, c)" by (cases x)
    show ?case
    proof (cases "find_match d s2 i c m2")
      case None
      then show ?thesis using snoc ms x by (simp add: match_step_pair)
    next
      case (Some j)
      then have "length (filter (\<lambda>b. b) (m2[j := True])) = Suc (length (filter (\<lambda>b. b) m2))"
        using find_match_free [OF Some] snoc ms by (intro count_set) auto
      then show ?thesis using snoc ms Some x by (simp add: match_step_pair)
    qed
  qed simp
  from this [where d = "int (max (length s1) (length s2) div 2) - 1" and xs = "enumerate 0 s1"] show ?thesis
    using assms by (simp add: jaro_matches_def)
qed

theorem stored_search_finds:
  assumes "e \<in> set rows" "normalizeName name = normalizeName (se_name e)" "js_le threshold (Fin 1)"
  shows "\<lparr>mt_entity = e, mt_score = Fin 1\<rparr> \<in> set (searchSanctions rows name threshold)"
  using assms by (auto simp: searchSanctions_def by_score_def jaroWinkler_def intro!: image_eqI [of _ _ e])

section \<open>Updates\<close>

text \<open>
  The statement that stores the list names columns without a unique index, so that PostgreSQL refuses
  it: no update changes the table, and the daily job ends before it screens the customers.
\<close>

lemma merge_seeds_nonempty: "merge_seeds fetched \<noteq> []"
proof -
  have "foldl (\<lambda>merged seed. if p seed merged then merged else merged @ [seed]) xs seeds \<noteq> []"
    if "xs \<noteq> []" for xs and seeds :: "SanctionEntity list" and p using that by (induction seeds arbitrary: xs) auto
  then show ?thesis by (cases fetched) (simp_all add: merge_seeds_def SEED_SANCTIONS_def)
qed

theorem list_never_updated:
  "es \<noteq> [] \<Longrightarrow> updateSanctionList sanction_list_uniques es rows s = (False, rows, s)"
  "runSanctionSyncJob sanction_list_uniques now late fetched users rows s = ([], False, rows, s)"
proof -
  have refused: "upsert_all sanction_list_uniques es rows = None" if "es \<noteq> []" for es rows
    using that by (cases es) (simp_all add: upsert_def sanction_list_uniques_def doubleton_eq_iff)
  show "es \<noteq> [] \<Longrightarrow> updateSanctionList sanction_list_uniques es rows s = (False, rows, s)"
    by (simp add: updateSanctionList_def refused)
  show "runSanctionSyncJob sanction_list_uniques now late fetched users rows s = ([], False, rows, s)"
    by (simp add: runSanctionSyncJob_def updateSanctionList_def refused merge_seeds_nonempty)
qed

end
