(* ===== verification/Database_Routing.thy ===== *)
theory Database_Routing
  imports Prelude
begin

text \<open>
  The way of a statement to a database (\<^verbatim>\<open>src/config/database.ts\<close>, \<^verbatim>\<open>src/utils/readOnlyDetector.ts\<close>,
  \<^verbatim>\<open>src/middleware/readReplicaRouting.ts\<close>, \<^verbatim>\<open>src/config/databaseErrors.ts\<close>): which statements count as
  reads, which replica serves them, the fall back to the primary, and the retries there. What the
  servers answer is an input; the log tells which server executed which statement, also where the answer
  was lost.
\<close>

section \<open>Reads\<close>

fun js_includes :: "string \<Rightarrow> string \<Rightarrow> bool" where
  "js_includes p [] = (p = [])"
| "js_includes p (c # s) = (prefix p (c # s) \<or> js_includes p s)"

definition WRITE_WORDS :: "string list" where
  "WRITE_WORDS = [''INSERT'', ''UPDATE'', ''DELETE'', ''CREATE'', ''DROP'', ''ALTER'', ''TRUNCATE'']"

definition starts_transaction :: "string \<Rightarrow> bool" where
  \<comment> \<open>\<^verbatim>\<open>(BEGIN|COMMIT|ROLLBACK|START\s+TRANSACTION)\b\<close> at the beginning of text in capitals\<close>
  "starts_transaction s \<longleftrightarrow>
     (let ends = (\<lambda>rest. rest = [] \<or> \<not> word_char (hd rest)) in
      list_ex (\<lambda>w. prefix w s \<and> ends (drop (length w) s)) [''BEGIN'', ''COMMIT'', ''ROLLBACK''] \<or>
      (prefix ''START'' s \<and> takeWhile js_space (drop 5 s) \<noteq> [] \<and>
       (let rest = dropWhile js_space (drop 5 s) in prefix ''TRANSACTION'' rest \<and> ends (drop 11 rest))))"

fun transaction_control :: "char option \<Rightarrow> string \<Rightarrow> bool" where
  \<comment> \<open>given the character before, if any\<close>
  "transaction_control before [] = False"
| "transaction_control before (c # s) =
     ((case before of Some b \<Rightarrow> \<not> word_char b | None \<Rightarrow> True) \<and> starts_transaction (c # s) \<or> transaction_control (Some c) s)"

definition isReadOnlyQuery :: "string \<Rightarrow> bool" where
  "isReadOnlyQuery query =
     (let upper = map to_upper query; normalized = js_trim upper
      in query \<noteq> [] \<and> (prefix ''SELECT'' normalized \<or> prefix ''WITH'' normalized) \<and>
         \<not> list_ex (\<lambda>w. js_includes w upper) WRITE_WORDS \<and> \<not> transaction_control None upper)"

definition isReadOperation :: "string \<Rightarrow> bool" where
  "isReadOperation httpMethod \<longleftrightarrow> map to_upper httpMethod \<in> {''GET'', ''HEAD'', ''OPTIONS''}"

record DatabaseRoutingContext =
  rc_useReplicaPool :: bool
  rc_method :: string
  rc_path :: string

definition readReplicaRoutingMiddleware :: "string \<Rightarrow> string \<Rightarrow> DatabaseRoutingContext" where
  "readReplicaRoutingMiddleware httpMethod path =
     \<lparr>rc_useReplicaPool = isReadOperation httpMethod, rc_method = httpMethod, rc_path = path\<rparr>"

section \<open>Errors\<close>

record db_error =
  er_code :: string \<comment> \<open>empty where there is none\<close>
  er_message :: string

definition isTransientDatabaseConnectionError :: "db_error \<Rightarrow> bool" where
  \<comment> \<open>of an error already unwrapped\<close>
  "isTransientDatabaseConnectionError e \<longleftrightarrow>
     map to_upper (er_code e) \<in> {''ECONNRESET'', ''ECONNREFUSED'', ''ETIMEDOUT'', ''57P01'', ''08006''} \<or>
     list_ex (\<lambda>w. js_includes w (map to_lower (er_message e)))
       [''connection terminated'', ''terminated unexpectedly'', ''connection lost'', ''disconnect'', ''connection timeout'',
        ''timeout exceeded'', ''socket'']"

section \<open>Replicas\<close>

record ReplicaStatus =
  rs_enabled :: bool
  rs_healthy :: bool
  rs_lagSeconds :: "jsnum option"

record router =
  ro_statuses :: "ReplicaStatus list"
  ro_index :: nat \<comment> \<open>\<^verbatim>\<open>replicaIndex\<close>\<close>

definition getActiveReplicaIndices :: "router \<Rightarrow> nat list" where
  "getActiveReplicaIndices r =
     filter (\<lambda>i. rs_enabled (ro_statuses r ! i) \<and> rs_healthy (ro_statuses r ! i)) [0..<length (ro_statuses r)]"

definition getNextReplicaIndex :: "router \<Rightarrow> nat option \<times> router" where
  "getNextReplicaIndex r =
     (let active = getActiveReplicaIndices r
      in if active = [] then (None, r)
         else (Some (active ! (ro_index r mod length active)), r\<lparr>ro_index := ro_index r + 1\<rparr>))"

definition markReplicaUnavailable :: "nat \<Rightarrow> router \<Rightarrow> router" where
  "markReplicaUnavailable i r =
     (if i < length (ro_statuses r)
      then r\<lparr>ro_statuses := (ro_statuses r)[i := (ro_statuses r ! i)\<lparr>rs_healthy := False, rs_enabled := False\<rparr>]\<rparr> else r)"

definition refreshReplicaStatus :: "jsnum \<Rightarrow> nat \<Rightarrow> jsnum option option \<Rightarrow> router \<Rightarrow> router" where
  \<comment> \<open>the lag that the replica reports, if any; None where it does not answer\<close>
  "refreshReplicaStatus threshold i answer r =
     (let lag = Option.bind answer id
      in r\<lparr>ro_statuses := (ro_statuses r)[i := \<lparr>
             rs_enabled = (answer \<noteq> None \<and> (case lag of Some l \<Rightarrow> js_le l threshold | None \<Rightarrow> False)),
             rs_healthy = (answer \<noteq> None), rs_lagSeconds = lag\<rparr>]\<rparr>)"

datatype server = Replica nat | Primary

type_synonym db_log = "(server \<times> string) list"

datatype 'r replica_answer =
    Served 'r
  | NoConnection
  | QueryError db_error bool \<comment> \<open>whether the statement was executed all the same\<close>

definition queryReplica :: "string \<Rightarrow> (nat \<Rightarrow> 'r replica_answer) \<Rightarrow> router \<Rightarrow> 'r option \<times> router \<times> db_log" where
  "queryReplica sql answers r =
     (case getNextReplicaIndex r of
        (None, r1) \<Rightarrow> (None, r1, [])
      | (Some i, r1) \<Rightarrow>
          (case answers i of
             Served x \<Rightarrow> (Some x, r1, [(Replica i, sql)])
           | NoConnection \<Rightarrow> (None, markReplicaUnavailable i r1, [])
           | QueryError e executed \<Rightarrow>
               (None, if isTransientDatabaseConnectionError e then markReplicaUnavailable i r1 else r1,
                if executed then [(Replica i, sql)] else [])))"

section \<open>The primary\<close>

record 'r attempt =
  \<comment> \<open>what happens in one turn of the loop\<close>
  tr_probe :: "db_error option option" \<comment> \<open>while the pool reconnects: the health check before the operation, with its error\<close>
  tr_executed :: bool
  tr_answer :: "db_error + 'r"
  tr_verified :: "db_error option" \<comment> \<open>the health check after a transient error\<close>

fun executeWithRetry :: "string \<Rightarrow> nat \<Rightarrow> 'r attempt list \<Rightarrow> (db_error + 'r) option \<times> db_log" where
  \<comment> \<open>the attempts left, and what happens in them; None where no attempt is allowed\<close>
  "executeWithRetry sql 0 turns = (None, [])"
| "executeWithRetry sql (Suc n) [] = (None, [])"
| "executeWithRetry sql (Suc n) (t # turns) =
     (let probed = (case tr_probe t of Some (Some e) \<Rightarrow> Some e | _ \<Rightarrow> None);
          answer = (case probed of Some e \<Rightarrow> Inl e | None \<Rightarrow> tr_answer t);
          lg = (if probed = None \<and> tr_executed t then [(Primary, sql)] else [])
      in case answer of
           Inr x \<Rightarrow> (Some (Inr x), lg)
         | Inl e \<Rightarrow>
             if \<not> isTransientDatabaseConnectionError e \<or> n = 0 then (Some (Inl e), lg)
             else (case tr_verified t of
                 Some e' \<Rightarrow> (Some (Inl e'), lg)
               | None \<Rightarrow> (case executeWithRetry sql n turns of (res, lg') \<Rightarrow> (res, lg @ lg'))))"

record config =
  cf_routeGet :: bool
  cf_maxRetries :: nat

definition shouldRouteToReplica :: "config \<Rightarrow> DatabaseRoutingContext option \<Rightarrow> bool \<Rightarrow> string \<Rightarrow> router \<Rightarrow> bool" where
  \<comment> \<open>whether the last argument is a callback, and the statement\<close>
  "shouldRouteToReplica cfg ctx callback sql r \<longleftrightarrow>
     cf_routeGet cfg \<and> ro_statuses r \<noteq> [] \<and> \<not> callback \<and>
     (case ctx of Some c \<Rightarrow> rc_useReplicaPool c | None \<Rightarrow> False) \<and> isReadOnlyQuery sql"

definition runQuery ::
  "config \<Rightarrow> DatabaseRoutingContext option \<Rightarrow> bool \<Rightarrow> bool \<Rightarrow> string \<Rightarrow> (nat \<Rightarrow> 'r replica_answer) \<Rightarrow> 'r attempt list \<Rightarrow> router \<Rightarrow>
   (db_error + 'r) option \<times> router \<times> db_log" where
  "runQuery cfg ctx callback allowReplica sql answers turns r =
     (case (if allowReplica \<and> shouldRouteToReplica cfg ctx callback sql r then queryReplica sql answers r else (None, r, [])) of
           (Some x, r1, lg) \<Rightarrow> (Some (Inr x), r1, lg)
         | (None, r1, lg) \<Rightarrow>
             (case executeWithRetry sql (cf_maxRetries cfg) turns of (res, lg') \<Rightarrow> (res, r1, lg @ lg')))"

definition queryRead ::
  "config \<Rightarrow> string \<Rightarrow> (nat \<Rightarrow> 'r replica_answer) \<Rightarrow> 'r attempt list \<Rightarrow> router \<Rightarrow> (db_error + 'r) option \<times> router \<times> db_log" where
  "queryRead cfg sql answers turns r =
     (case queryReplica sql answers r of
        (Some x, r1, lg) \<Rightarrow> (Some (Inr x), r1, lg)
      | (None, r1, lg) \<Rightarrow> (case runQuery cfg None False False sql answers turns r1 of (res, r2, lg') \<Rightarrow> (res, r2, lg @ lg')))"

definition queryWrite ::
  "config \<Rightarrow> string \<Rightarrow> (nat \<Rightarrow> 'r replica_answer) \<Rightarrow> 'r attempt list \<Rightarrow> router \<Rightarrow> (db_error + 'r) option \<times> router \<times> db_log" where
  "queryWrite cfg sql answers turns r = runQuery cfg None False False sql answers turns r"

definition querySmart ::
  "config \<Rightarrow> string \<Rightarrow> (nat \<Rightarrow> 'r replica_answer) \<Rightarrow> 'r attempt list \<Rightarrow> router \<Rightarrow> (db_error + 'r) option \<times> router \<times> db_log" where
  "querySmart cfg sql answers turns r =
     (if isReadOnlyQuery sql then queryRead cfg sql answers turns r else queryWrite cfg sql answers turns r)"

definition queryTransactionLogRead ::
  "config \<Rightarrow> string \<Rightarrow> (nat \<Rightarrow> 'r replica_answer) \<Rightarrow> 'r attempt list \<Rightarrow> router \<Rightarrow> (db_error + 'r) option \<times> router \<times> db_log" where
  "queryTransactionLogRead cfg sql answers turns r =
     (if \<not> prefix ''SELECT'' (map to_upper (js_trim sql)) then queryWrite cfg sql answers turns r
      else queryRead cfg sql answers turns r)"

definition queryWithContext ::
  "config \<Rightarrow> DatabaseRoutingContext option \<Rightarrow> string \<Rightarrow> (nat \<Rightarrow> 'r replica_answer) \<Rightarrow> 'r attempt list \<Rightarrow> router \<Rightarrow>
   (db_error + 'r) option \<times> router \<times> db_log" where
  "queryWithContext cfg ctx sql answers turns r =
     (case ctx of
        Some c \<Rightarrow> if rc_useReplicaPool c \<and> isReadOnlyQuery sql then queryRead cfg sql answers turns r
          else queryWrite cfg sql answers turns r
      | None \<Rightarrow> querySmart cfg sql answers turns r)"

section \<open>Transactions\<close>

datatype step_answer = Done | Error db_error

fun run_statements :: "(string \<times> step_answer) list \<Rightarrow> bool \<times> string list" where
  \<comment> \<open>statements of a transaction with their answers: whether all succeed, and those sent\<close>
  "run_statements [] = (True, [])"
| "run_statements ((q, Done) # qs) = (case run_statements qs of (ok, sent) \<Rightarrow> (ok, q # sent))"
| "run_statements ((q, Error e) # qs) = (False, [q])"

definition executeTransaction ::
  "bool \<Rightarrow> step_answer \<Rightarrow> (string \<times> step_answer) list \<Rightarrow> step_answer \<Rightarrow> bool \<times> string list \<times> nat" where
  \<comment> \<open>whether a client is obtained, the answers of begin, the statements and commit; the result is
      whether the call returns, the statements sent and the clients released\<close>
  "executeTransaction obtained begin_answer queries commit_answer =
     (if \<not> obtained then (False, [], 0)
      else case run_statements ((''BEGIN'', begin_answer) # queries @ [(''COMMIT'', commit_answer)]) of
        (True, sent) \<Rightarrow> (True, sent, 1)
      | (False, sent) \<Rightarrow> (False, sent @ [''ROLLBACK''], 1))"

end
