(* ===== verification/Database_Routing_Safety.thy ===== *)
theory Database_Routing_Safety
  imports Database_Routing "HOL-Library.Multiset"
begin

text \<open>
  Where statements run. Of the functions that choose the server by the statement, all but one give replicas only statements
  without a word that writes, which excludes every read that names a creation or update time; the reader of
  transaction logs looks at the first word alone. Reads take turns among the replicas in use. A
  statement is executed once if it succeeds and not at all if it fails, as long as no answer of a server is lost; a
  lost answer makes the retry execute it again.
\<close>

section \<open>Reads on replicas\<close>

datatype entry =
    PoolQuery "DatabaseRoutingContext option" bool \<comment> \<open>\<^verbatim>\<open>pool.query\<close>, and whether with a callback\<close>
  | Smart
  | WithContext "DatabaseRoutingContext option"
  | LogRead \<comment> \<open>\<^verbatim>\<open>queryTransactionLogRead\<close>\<close>
  | Write
  \<comment> \<open>the functions that choose the server by the statement\<close>

fun issue ::
  "config \<Rightarrow> entry \<Rightarrow> string \<Rightarrow> (nat \<Rightarrow> 'r replica_answer) \<Rightarrow> 'r attempt list \<Rightarrow> router \<Rightarrow> (db_error + 'r) option \<times> router \<times> db_log" where
  "issue cfg (PoolQuery ctx callback) sql answers turns r = runQuery cfg ctx callback True sql answers turns r"
| "issue cfg Smart sql answers turns r = querySmart cfg sql answers turns r"
| "issue cfg (WithContext ctx) sql answers turns r = queryWithContext cfg ctx sql answers turns r"
| "issue cfg LogRead sql answers turns r = queryTransactionLogRead cfg sql answers turns r"
| "issue cfg Write sql answers turns r = queryWrite cfg sql answers turns r"

lemmas query_defs = runQuery_def queryRead_def queryWrite_def querySmart_def queryWithContext_def

lemma retry_log: "x \<in> set (snd (executeWithRetry sql n turns)) \<Longrightarrow> x = (Primary, sql)"
  by (induction sql n turns rule: executeWithRetry.induct) (auto simp: Let_def split: sum.splits option.splits prod.splits if_splits)

lemma retry_logD: "executeWithRetry sql n turns = (res, lg) \<Longrightarrow> x \<in> set lg \<Longrightarrow> x = (Primary, sql)"
  using retry_log [of x sql n turns] by simp

lemma next_active: "getNextReplicaIndex r = (Some i, r1) \<Longrightarrow> i \<in> set (getActiveReplicaIndices r)"
  by (auto simp: getNextReplicaIndex_def Let_def split: if_splits)

lemma replica_log: "x \<in> set (snd (snd (queryReplica sql answers r))) \<Longrightarrow> \<exists>i. x = (Replica i, sql) \<and> i \<in> set (getActiveReplicaIndices r)"
  by (auto simp: queryReplica_def dest: next_active split: prod.splits option.splits replica_answer.splits)

lemma run_primary_log: "x \<in> set (snd (snd (runQuery cfg ctx callback False sql answers turns r))) \<Longrightarrow> x = (Primary, sql)"
  by (auto simp: runQuery_def Let_def split: prod.splits dest: retry_logD)

lemma run_log:
  assumes "x \<in> set (snd (snd (runQuery cfg ctx callback allow sql answers turns r)))"
  shows "x = (Primary, sql) \<or> (isReadOnlyQuery sql \<and> (\<exists>i. x = (Replica i, sql) \<and> i \<in> set (getActiveReplicaIndices r)))"
proof (cases "allow \<and> shouldRouteToReplica cfg ctx callback sql r")
  case True
  obtain res r1 lg where q: "queryReplica sql answers r = (res, r1, lg)" by (meson prod_cases3)
  have "x \<in> set lg \<or> x = (Primary, sql)"
    using assms True unfolding runQuery_def q by (auto split: option.splits prod.splits dest: retry_logD)
  then show ?thesis using True replica_log [of x sql answers r] q by (auto simp: shouldRouteToReplica_def)
next
  case False
  then show ?thesis using assms unfolding runQuery_def by (auto split: prod.splits dest: retry_logD)
qed

lemma read_log:
  assumes "x \<in> set (snd (snd (queryRead cfg sql answers turns r)))"
  shows "x = (Primary, sql) \<or> (\<exists>i. x = (Replica i, sql) \<and> i \<in> set (getActiveReplicaIndices r))"
proof -
  obtain res r1 lg where q: "queryReplica sql answers r = (res, r1, lg)" by (meson prod_cases3)
  have "x \<in> set lg \<or> x = (Primary, sql)"
    using assms run_primary_log [of x cfg None False sql answers turns r1] unfolding queryRead_def q by (auto split: option.splits prod.splits)
  then show ?thesis using replica_log [of x sql answers r] q by auto
qed

text \<open>
  C8. Whichever of \<^verbatim>\<open>pool.query\<close>, \<^verbatim>\<open>querySmart\<close>, \<^verbatim>\<open>queryWithContext\<close>, \<^verbatim>\<open>queryWrite\<close> and
  \<^verbatim>\<open>queryTransactionLogRead\<close> chooses the server, a replica executes only the statement that was given, only while it is in
  use, and only if the statement contains none of the words that write; except that the last of them asks only for
  \<^verbatim>\<open>SELECT\<close> at the beginning. (\<^verbatim>\<open>queryRead\<close> leaves the choice to its caller.)
\<close>

theorem replicas_only_read:
  assumes "(Replica i, q) \<in> set (snd (snd (issue cfg e sql answers turns r)))"
  shows "q = sql \<and> rs_enabled (ro_statuses r ! i) \<and> rs_healthy (ro_statuses r ! i) \<and>
    (if e = LogRead then prefix ''SELECT'' (map to_upper (js_trim sql))
     else \<forall>w\<in>set WRITE_WORDS. \<not> js_includes w (map to_upper sql))"
proof -
  have "q = sql \<and> i \<in> set (getActiveReplicaIndices r) \<and>
      (if e = LogRead then prefix ''SELECT'' (map to_upper (js_trim sql)) else isReadOnlyQuery sql)"
  proof (cases e)
    case (PoolQuery ctx callback)
    then show ?thesis using assms by (auto dest!: run_log)
  next
    case Smart
    then show ?thesis using assms
      by (auto simp: querySmart_def queryWrite_def split: if_splits dest!: read_log run_primary_log)
  next
    case (WithContext ctx)
    then show ?thesis using assms
      by (auto simp: queryWithContext_def querySmart_def queryWrite_def split: if_splits option.splits dest!: read_log run_primary_log)
  next
    case LogRead
    then show ?thesis using assms
      by (auto simp: queryTransactionLogRead_def queryWrite_def split: if_splits dest!: read_log run_primary_log)
  next
    case Write
    then show ?thesis using assms by (auto simp: queryWrite_def dest!: run_primary_log)
  qed
  then show ?thesis by (auto simp: getActiveReplicaIndices_def isReadOnlyQuery_def Let_def list_ex_iff split: if_splits)
qed

definition demo_router :: router where
  "demo_router = \<lparr>ro_statuses = [\<lparr>rs_enabled = False, rs_healthy = True, rs_lagSeconds = None\<rparr>,
     \<lparr>rs_enabled = True, rs_healthy = True, rs_lagSeconds = Some (Fin 0)\<rparr>], ro_index = 5\<rparr>"

theorem replicas_only_read_witness:
  "(Replica 1, ''select 1'') \<in> set (snd (snd (issue \<lparr>cf_routeGet = True, cf_maxRetries = 3\<rparr> Smart ''select 1'' (\<lambda>_. Served ()) [] demo_router))) \<and>
   rs_enabled (ro_statuses demo_router ! 1)"
proof -
  have "(Replica 1, ''select 1'') \<in> set (snd (snd (issue \<lparr>cf_routeGet = True, cf_maxRetries = 3\<rparr> Smart ''select 1'' (\<lambda>_. Served ()) [] demo_router)))"
    by code_simp
  then show ?thesis using replicas_only_read by blast
qed

lemma js_includes_prefix: "js_includes p s \<Longrightarrow> prefix q p \<Longrightarrow> js_includes q s"
  by (induction s) (auto intro: prefix_order.trans)

text \<open>
  Every read that names a column such as \<^verbatim>\<open>created_at\<close> or \<^verbatim>\<open>updated_at\<close> counts as a statement that writes, and goes
  to the primary.
\<close>

theorem timestamps_stay_on_primary:
  assumes "js_includes ''CREATED_AT'' (map to_upper sql) \<or> js_includes ''UPDATED_AT'' (map to_upper sql)"
  shows "\<not> isReadOnlyQuery sql"
proof -
  have "js_includes ''CREATE'' (map to_upper sql) \<or> js_includes ''UPDATE'' (map to_upper sql)"
    using assms js_includes_prefix [of "''CREATED_AT''" _ "''CREATE''"] js_includes_prefix [of "''UPDATED_AT''" _ "''UPDATE''"] by auto
  then show ?thesis by (auto simp: isReadOnlyQuery_def Let_def WRITE_WORDS_def)
qed

section \<open>Turns\<close>

fun next_n :: "nat \<Rightarrow> router \<Rightarrow> nat option list \<times> router" where
  "next_n 0 r = ([], r)"
| "next_n (Suc n) r = (case getNextReplicaIndex r of (i, r1) \<Rightarrow> case next_n n r1 of (is, r2) \<Rightarrow> (i # is, r2))"

lemma next_n_selections:
  assumes "getActiveReplicaIndices r = active" "active \<noteq> []"
  shows "fst (next_n n r) = map (\<lambda>j. Some (active ! ((ro_index r + j) mod length active))) [0..<n]"
  using assms(1)
proof (induction n arbitrary: r)
  case (Suc n)
  let ?r = "r\<lparr>ro_index := ro_index r + 1\<rparr>"
  have "getActiveReplicaIndices ?r = active" using Suc.prems by (simp add: getActiveReplicaIndices_def)
  from Suc.IH [OF this] show ?case
    using Suc.prems assms(2) by (simp add: getNextReplicaIndex_def Let_def case_prod_beta map_upt_Suc del: upt_Suc)
qed simp

lemma one_round: "map (\<lambda>j. xs ! ((k + j) mod length xs)) [0..<length xs] = rotate k xs"
  by (intro nth_equalityI) (simp_all add: nth_rotate)

lemma mset_rotate1: "mset (rotate1 xs) = mset xs"
  by (cases xs) simp_all

lemma mset_rotations: "mset (rotate k xs) = mset xs"
  by (induction k) (simp_all add: mset_rotate1)

lemma image_repeat: "image_mset f (repeat_mset m A) = repeat_mset m (image_mset f A)"
  by (induction m) simp_all

lemma rounds:
  assumes "xs \<noteq> []"
  shows "mset (map (\<lambda>j. xs ! ((k + j) mod length xs)) [0..<m * length xs]) = repeat_mset m (mset xs)"
proof (induction m)
  case (Suc m)
  have "map (\<lambda>j. xs ! ((k + j) mod length xs)) [m * length xs..<m * length xs + length xs] =
      map (\<lambda>j. xs ! ((k + j) mod length xs)) [0..<length xs]"
    by (intro nth_equalityI) (simp_all add: add.left_commute [of k])
  then have "mset (map (\<lambda>j. xs ! ((k + j) mod length xs)) [m * length xs..<m * length xs + length xs]) = mset xs"
    by (simp add: one_round mset_rotations)
  then show ?case using Suc upt_add_eq_append [of 0 "m * length xs" "length xs"] by (simp add: add.commute)
qed simp

text \<open>
  As long as the same replicas are in use, consecutive reads take turns: of a number of reads that is a multiple of theirs
  each replica gets the same share, wherever the counter stands.
\<close>

theorem replicas_take_turns:
  assumes "getActiveReplicaIndices r \<noteq> []"
  shows "mset (fst (next_n (m * length (getActiveReplicaIndices r)) r)) = repeat_mset m (mset (map Some (getActiveReplicaIndices r)))"
proof -
  let ?a = "getActiveReplicaIndices r"
  have "fst (next_n (m * length ?a) r) = map Some (map (\<lambda>j. ?a ! ((ro_index r + j) mod length ?a)) [0..<m * length ?a])"
    using next_n_selections [OF refl assms] by simp
  then have "mset (fst (next_n (m * length ?a) r)) = image_mset Some (mset (map (\<lambda>j. ?a ! ((ro_index r + j) mod length ?a)) [0..<m * length ?a]))"
    by (simp only: mset_map)
  also have "\<dots> = image_mset Some (repeat_mset m (mset ?a))" by (simp only: rounds [OF assms])
  finally show ?thesis by (simp add: image_repeat)
qed

section \<open>Executions\<close>

definition replies :: "(nat \<Rightarrow> 'r replica_answer) \<Rightarrow> bool" where
  \<comment> \<open>a replica that fails did not execute the statement\<close>
  "replies answers \<longleftrightarrow> (\<forall>i e. answers i \<noteq> QueryError e True)"

definition answered :: "'r attempt \<Rightarrow> bool" where
  \<comment> \<open>the primary executes the statement exactly if it says so\<close>
  "answered t \<longleftrightarrow> (tr_executed t \<longleftrightarrow> (\<exists>x. tr_answer t = Inr x))"

fun succeeded :: "(db_error + 'r) option \<Rightarrow> bool" where
  "succeeded (Some (Inr _)) = True"
| "succeeded _ = False"

lemma retry_once:
  "\<forall>t\<in>set turns. answered t \<Longrightarrow> length (snd (executeWithRetry sql n turns)) = (if succeeded (fst (executeWithRetry sql n turns)) then 1 else 0)"
  by (induction sql n turns rule: executeWithRetry.induct)
    (auto simp: Let_def answered_def split: sum.splits option.splits prod.splits if_splits)

definition once :: "(db_error + 'r) option \<times> router \<times> db_log \<Rightarrow> bool" where
  "once x \<longleftrightarrow> length (snd (snd x)) = (if succeeded (fst x) then 1 else 0)"

lemma replica_once:
  "replies answers \<Longrightarrow> queryReplica sql answers r = (res, r1, lg) \<Longrightarrow> length lg = (if res = None then 0 else 1)"
  by (auto simp: queryReplica_def replies_def split: prod.splits option.splits replica_answer.splits if_splits)

lemma run_once:
  assumes "\<forall>t\<in>set turns. answered t" "replies answers"
  shows "once (runQuery cfg ctx callback allow sql answers turns r)"
  using retry_once [OF assms(1), of sql "cf_maxRetries cfg"] replica_once [OF assms(2), of sql r]
  by (auto simp: runQuery_def once_def split: option.splits prod.splits)

lemma read_once:
  assumes "\<forall>t\<in>set turns. answered t" "replies answers"
  shows "once (queryRead cfg sql answers turns r)"
proof -
  obtain res r1 lg where q: "queryReplica sql answers r = (res, r1, lg)" by (meson prod_cases3)
  show ?thesis using replica_once [OF assms(2) q] run_once [OF assms, of cfg None False False sql r1]
    unfolding queryRead_def q by (cases res) (auto simp: once_def split: prod.splits)
qed

text \<open>
  C7. As long as every server, replica or primary, executes a statement exactly if it answers with a result, and no abort
  signal ends the wait, every statement is executed once if the call succeeds and not at all if it fails, whichever function that chooses the server by
  the statement is called, on whichever server and whatever fails before.
\<close>

theorem statement_executed_once:
  assumes "\<forall>t\<in>set turns. answered t" "replies answers"
  shows "length (snd (snd (issue cfg e sql answers turns r))) = (if succeeded (fst (issue cfg e sql answers turns r)) then 1 else 0)"
proof -
  have "once (issue cfg e sql answers turns r)"
    using run_once [OF assms] read_once [OF assms]
    by (cases e) (simp_all add: querySmart_def queryWrite_def queryWithContext_def queryTransactionLogRead_def split: option.split)
  then show ?thesis by (simp add: once_def)
qed

definition demo_turns :: "unit attempt list" where
  "demo_turns = [\<lparr>tr_probe = None, tr_executed = False, tr_answer = Inl \<lparr>er_code = ''ECONNRESET'', er_message = []\<rparr>, tr_verified = None\<rparr>,
     \<lparr>tr_probe = Some None, tr_executed = True, tr_answer = Inr (), tr_verified = None\<rparr>]"

theorem statement_executed_once_witness:
  "length (snd (snd (issue \<lparr>cf_routeGet = True, cf_maxRetries = 3\<rparr> Write ''INSERT'' (\<lambda>_. NoConnection) demo_turns demo_router))) = 1"
proof -
  have "\<forall>t\<in>set demo_turns. answered t" by (simp add: demo_turns_def answered_def)
  moreover have "succeeded (fst (issue \<lparr>cf_routeGet = True, cf_maxRetries = 3\<rparr> Write ''INSERT'' (\<lambda>_. NoConnection) demo_turns demo_router))"
    by code_simp
  moreover have "replies (\<lambda>_. NoConnection :: unit replica_answer)" by (simp add: replies_def)
  ultimately show ?thesis using statement_executed_once by metis
qed

text \<open>Otherwise it may be executed as often as is retried, and no more often.\<close>

theorem retries_bounded: "length (snd (executeWithRetry sql n turns)) \<le> n"
proof (induction n arbitrary: turns)
  case (Suc n)
  show ?case
  proof (cases turns)
    case (Cons t turns')
    have "length (snd (executeWithRetry sql n turns')) \<le> n" by (rule Suc.IH)
    then show ?thesis by (auto simp: Cons Let_def split: sum.splits option.splits prod.splits)
  qed simp
qed simp

text \<open>A lost answer makes every statement, an insert included, run again.\<close>

theorem lost_answer_executes_again:
  assumes "tr_probe t = None" "tr_executed t" "tr_answer t = Inl e" "isTransientDatabaseConnectionError e" "tr_verified t = None"
    and "tr_probe t' = None" "tr_executed t'" "tr_answer t' = Inr x" "2 \<le> cf_maxRetries cfg"
  shows "queryWrite cfg sql answers (t # t' # turns) r = (Some (Inr x), r, [(Primary, sql), (Primary, sql)])"
proof -
  obtain n where "cf_maxRetries cfg = Suc (Suc n)" using assms(9) by (metis Suc_le_D numeral_2_eq_2 Suc_le_mono)
  then show ?thesis using assms by (simp add: queryWrite_def runQuery_def Let_def)
qed

end
