(* ===== verification/Spec2Isabelle.thy ===== *)
theory Spec2Isabelle
  imports Dispute_Workflow Vault_Books Lockout Two_Factor_Safety Idempotency_Safety Outbox_Delivery
    Queue_Control_Safety Orange_Qr_Codes Ssrf Ledger_Postings Ledger_Pages Wallet Fee_Engine Event_Stream Multisig
    Channel_Pool_Safety Channel_Submit_Safety Provider_Health_Safety Aml_Velocity_Safety Transaction_Worker_Safety
    Sep24_Sessions Spending_Limits_Safety Aml_Rules_Safety Sanctions_Safety Database_Routing_Safety
begin

text \<open>
  A verification development of the mobile money to Stellar bridge: a TypeScript server
  (\<^verbatim>\<open>src/src\<close>) that moves money between mobile money providers and the Stellar network. Requests
  arrive over HTTP, are priced by the fee components, change the status of a transaction, are posted
  to a double-entry ledger and to customer wallets in PostgreSQL, are announced to clients over an
  event stream, may be disputed, and, for custodial accounts, need the signatures of several
  administrators. The development models the components that hold this core logic.

  \<^bold>\<open>How the program is modelled.\<close> A table is the list of its rows, a statement a function on it; a
  handler is a function on the tables it touches, with every guard, early return and thrown error of
  the source, errors being values of a sum. Where handlers of concurrent requests can interleave
  between statements (wallets, custody, backup codes, idempotency, queues), a handler is a machine that performs one statement per
  step; runs are the reflexive transitive closure of an inductive step relation, or follow an arbitrary
  schedule of steps. Numbers are
  IEEE-754 binary64 values with their rounding, because the code computes money with them; amounts
  in the database are integers of units of the seventh decimal. Code that is not in the repository
  (the telecom API, the Stellar network, Redis and its lock library, BullMQ, encryption, signature
  verification, the screening the queue worker calls and approval servers, the DNS resolver, the URL parser, rate sources, alarms) appears as a parameter.

  \<^bold>\<open>The theories.\<close>

  \<^item> \<^verbatim>\<open>Js_Number\<close>: binary64 numbers, rounding to nearest even, the operators and \<^verbatim>\<open>Math\<close> functions the
    code uses, \<^verbatim>\<open>toFixed\<close>; monotonicity and exactness lemmas, shared through the locale \<open>rounding\<close>.
    \<^verbatim>\<open>Prelude\<close>: strings, dynamic values, entries with a lifetime, SQL updates. \<^verbatim>\<open>Decimal\<close>: the shortest decimal text of a
    number and the rounding of \<^verbatim>\<open>DECIMAL(20,7)\<close>, with error bounds.

  \<^item> \<^verbatim>\<open>Transaction_Status\<close> (\<^verbatim>\<open>models/transaction.ts\<close>): the statuses, the transition table and the guarded
    write \<open>updateStatus\<close>. Without a list of previous statuses it never makes a forbidden transition, and settled transactions
    stay so.

  \<^item> \<^verbatim>\<open>Spending_Limits\<close>, \<^verbatim>\<open>Spending_Limits_Safety\<close> (\<^verbatim>\<open>services/transactionLimit\<close>, \<^verbatim>\<open>middleware/kycCheck.ts\<close>,
    \<^verbatim>\<open>services/regionalProviderLimitService.ts\<close>, \<^verbatim>\<open>compliance/velocityChecker.ts\<close>): what a request passes
    first. The daily limit holds for transactions one after the other and not for requests that
    overlap; the structuring detector forgets nothing in its window; cached regional limits are five minutes old
    at most.

  \<^item> \<^verbatim>\<open>Aml_Velocity\<close>, \<^verbatim>\<open>Aml_Velocity_Safety\<close> (\<^verbatim>\<open>services/amlVelocityService.ts\<close>, the end of
    \<^verbatim>\<open>processTransactionRequest\<close> in \<^verbatim>\<open>controllers/transactionController.ts\<close>, \<^verbatim>\<open>controllers/amlAuditController.ts\<close>): from
    the new row to the job. Each customer's volume in three rolling windows, the hold of a
    transaction that exceeds a threshold, and officers who resolve it, interleaved. What passes stays within the
    thresholds while calls succeed; a failing note queues a held transaction, and dismissing an alert
    queues one that was never held.

  \<^item> \<^verbatim>\<open>Database_Routing\<close>, \<^verbatim>\<open>Database_Routing_Safety\<close> (\<^verbatim>\<open>config/database.ts\<close>,
    \<^verbatim>\<open>utils/readOnlyDetector.ts\<close>, \<^verbatim>\<open>middleware/readReplicaRouting.ts\<close>): the way of a statement to the primary or a
    replica. Replicas only read and take turns (the reader of transaction logs trusts the first word of a statement), and a
    statement is executed once while no answer is lost; a lost answer runs it again.

  \<^item> \<^verbatim>\<open>Sanctions\<close>, \<^verbatim>\<open>Sanctions_Safety\<close> (\<^verbatim>\<open>services/sanctionService.ts\<close>, \<^verbatim>\<open>jobs/sanctionSyncJob.ts\<close>,
    \<^verbatim>\<open>compliance/feedSync.ts\<close>): the lists of sanctions. The distance computed by rows is the edit distance, and a
    party whose name is listed is blocked while searches are not cut short; but names without
    an ASCII letter or digit never match, and the update of the list fails on the migrated table.

  \<^item> \<^verbatim>\<open>Aml_Rules\<close>, \<^verbatim>\<open>Aml_Rules_Safety\<close> (\<^verbatim>\<open>services/aml.ts\<close> with its callers and the snapshot of
    \<^verbatim>\<open>services/cachedTransactionService.ts\<close>): rules, scores and alerts. Alerts and their lists live in a
    store, as several variables share them. Totals of whole amounts are exact, and pairs of anomalies
    flag a profile; a match with the sanctions is lost when a rule has fired too, and the service itself never lists, reviews
    or reports the alerts it has stored.

  \<^item> \<^verbatim>\<open>Transaction_Worker\<close>, \<^verbatim>\<open>Transaction_Worker_Safety\<close> (\<^verbatim>\<open>queue/worker.ts\<close>, \<^verbatim>\<open>services/retry.ts\<close>): from the
    job to the final status, any number of workers and deliveries beside velocity holds and their resolution. With
    fresh reads and payments that answer with their hash each transfer happens at most once and never for a held
    transaction, completed transactions were paid, and every job ends; but Stellar is always
    paid first, refused deposits stay paid, withdrawals are paid on both sides, and a lagging replica
    lets a duplicate pay again.

  \<^item> \<^verbatim>\<open>Dispute\<close>, \<^verbatim>\<open>Dispute_Workflow\<close> (\<^verbatim>\<open>services/dispute.ts\<close>, \<^verbatim>\<open>services/disputeStateMachine.ts\<close>,
    \<^verbatim>\<open>models/dispute.ts\<close>): the state machine, the service and the SLA engine with its automatic
    payouts. The two encodings of the state machine agree; an invariant of the table; closed disputes
    are final; the engine closes exactly the overdue disputes and pays each at most once; a failed
    transaction, however, can be disputed and paid again.

  \<^item> \<^verbatim>\<open>Currency\<close>, \<^verbatim>\<open>Ledger\<close>, \<^verbatim>\<open>Ledger_Postings\<close>, \<^verbatim>\<open>Ledger_Pages\<close> (\<^verbatim>\<open>services/currency.ts\<close>,
    \<^verbatim>\<open>services/ledgerService.ts\<close> and the SQL function \<^verbatim>\<open>post_transaction\<close>): conversion, the postings,
    balance checks and paging. The locale \<open>posting_service\<close> states what a posting operation promises;
    every operation of the service is an instance, so the ledger balances after every history. For
    dollar amounts the posted units are exact. Converted deposits can be refused by the rounding of
    their parts, and paging can skip entries with microsecond times.

  \<^item> \<^verbatim>\<open>Wallet\<close> (\<^verbatim>\<open>services/ledgerService.ts\<close>): optimistic updates of customer wallets under arbitrary
    interleaving. The locale \<open>versioned_table\<close> holds the compare-and-set argument; no update is lost,
    a reported conflict had as many successful rivals as attempts, and every call returns within the
    steps its retry limit allows.

  \<^item> \<^verbatim>\<open>Vault\<close>, \<^verbatim>\<open>Vault_Books\<close> (\<^verbatim>\<open>models/vault.ts\<close>, \<^verbatim>\<open>controllers/vaultController.ts\<close>): savings vaults, from
    the validation of a request to the rows it writes. Below a hundred million a transfer implements
    its specification on integers, the books of the vaults balance after every run and users are
    isolated; but transfers leave the main balance unchanged, their reference numbers do not fit the
    column, and the handlers' errors reach the client as status 500.

  \<^item> \<^verbatim>\<open>Redis_Client\<close>, \<^verbatim>\<open>Attempt_Limiter\<close>, \<^verbatim>\<open>Lockout\<close> (\<^verbatim>\<open>auth/lockout.ts\<close>): the Redis commands as a record
    of operations with their documented laws in the locale \<open>redis_client\<close>, which an in-memory store
    satisfies, and the counting of failures in the locale \<open>attempt_limiter\<close>. The attempts of a window
    are bounded, a lock holds and ends; in its last half second it is not seen.

  \<^item> \<^verbatim>\<open>Two_Factor\<close>, \<^verbatim>\<open>Two_Factor_Safety\<close> (\<^verbatim>\<open>services/twoFactorRateLimiter.ts\<close>,
    \<^verbatim>\<open>services/twoFactorWithdrawalService.ts\<close>, \<^verbatim>\<open>middleware/twoFactor.ts\<close>, \<^verbatim>\<open>findById\<close> of
    \<^verbatim>\<open>models/users.ts\<close>): wrong codes are limited, and a backup code is spent at most once under every interleaving; but the
    middleware does not spend it, and the guard of withdrawals never gets to a code, because the user it is given never
    counts as enrolled; a failing query lets a withdrawal pass.

  \<^item> \<^verbatim>\<open>Idempotency\<close>, \<^verbatim>\<open>Idempotency_Safety\<close> (\<^verbatim>\<open>middleware/idempotency.ts\<close>): requests with an idempotency
    key, interleaved between their awaited calls, over a response cache and a lock service whose laws
    are the locale \<open>idem_store\<close>. On orderly schedules two executions of a key are more than a day apart,
    replays are genuine on all schedules; a client that disconnects is executed twice, failures are
    replayed, and the older middleware over PostgreSQL loses pool clients.

  \<^item> \<^verbatim>\<open>Queue_Backpressure\<close>, \<^verbatim>\<open>Outbox\<close>, \<^verbatim>\<open>Outbox_Delivery\<close> (\<^verbatim>\<open>queue/priority.ts\<close>,
    \<^verbatim>\<open>queue/redisBackpressure.ts\<close>, \<^verbatim>\<open>queue/transactionOutbox.ts\<close>, \<^verbatim>\<open>queue/transactionQueue.ts\<close>,
    \<^verbatim>\<open>queue/providerRateLimitedQueues.ts\<close>): jobs on their way to the shared queue, the hold queue of a paused provider or
    the queue of a provider. Over the locale \<open>job_queue\<close>, no accepted transaction is lost without trace
    whatever fails or crashes, and one drain after an outage, if its batch holds the table, hands all of them to a queue; the
    flag of backpressure has hysteresis, but its refusals make the outbox give up.

  \<^item> \<^verbatim>\<open>Queue_Control\<close>, \<^verbatim>\<open>Queue_Control_Safety\<close> (\<^verbatim>\<open>queue/providerQueueControl.ts\<close>): pausing a provider. Over the
    locale \<open>control_services\<close>, no held job is stranded when all interleaved calls have returned; a
    release whose moves keep failing never returns.

  \<^item> \<^verbatim>\<open>Orange_Qr\<close>, \<^verbatim>\<open>Orange_Qr_Codes\<close> (\<^verbatim>\<open>providers/orange/qrCode.ts\<close>): EMVCo payloads can be read back
    and their checksum notices every single misread character; the confirmation webhook believes its
    caller.

  \<^item> \<^verbatim>\<open>Fees\<close>, \<^verbatim>\<open>Fee_Engine\<close> (\<^verbatim>\<open>utils/fees.ts\<close>, \<^verbatim>\<open>services/feeService.ts\<close>, \<^verbatim>\<open>services/feeCalculator.ts\<close>,
    \<^verbatim>\<open>services/feeDistributionEngine.ts\<close>, \<^verbatim>\<open>services/feeStrategyEngine.ts\<close>): tiers, bounds, monotonicity
    in binary64 arithmetic, itemized and distributed fees, and the strategy engine, whose cached
    resolution equals that of the table while Redis answers and operations do not overlap. Three defects of the arithmetic and of the column
    types are stated as theorems.

  \<^item> \<^verbatim>\<open>Ssrf\<close> (\<^verbatim>\<open>security/ssrf.ts\<close>): the guard of webhook destinations. The octet and group tests are
    equivalent to lists of CIDR blocks, and an accepted URL has no blocked name and only leads to addresses that pass; one
    class of link-local IPv6 addresses is accepted wrongly.

  \<^item> \<^verbatim>\<open>Event_Stream\<close> (\<^verbatim>\<open>services/transactionEventStream.ts\<close>): the replay buffer and its connections. The
    buffer implements the log of all events: an open connection has received exactly the visible
    events from its position on, or a notice of the gap; the bookkeeping of listeners and timers.

  \<^item> \<^verbatim>\<open>Channel_Lease\<close>, \<^verbatim>\<open>Channel_Pool\<close>, \<^verbatim>\<open>Channel_Pool_Safety\<close> (\<^verbatim>\<open>stellar/channelPool.ts\<close>): the pool of channel
    accounts that submit to Stellar in parallel. Its stores of leases are interpretations of the locale
    \<open>lease_store\<close>; acquire and release are machines of one awaited call per step, in several server
    processes. Channels are conserved, a lease has one owner, and every acquire answers; a waiter can
    sleep beside an idle channel.

  \<^item> \<^verbatim>\<open>Channel_Accounts\<close>, \<^verbatim>\<open>Channel_Accounts_Safety\<close> (\<^verbatim>\<open>models/channelAccount.ts\<close>, \<^verbatim>\<open>stellar/pool.ts\<close>): the
    older pool over a table. Rows stay well formed, an account is held by one caller at a time while
    nobody returns late, and maintenance recovers what was left locked.

  \<^item> \<^verbatim>\<open>Channel_Submit\<close>, \<^verbatim>\<open>Channel_Submit_Safety\<close> (the same sources): submission with retries over the locale
    \<open>ledger\<close>, the network's account of sequence numbers. A payment is made once and cached sequence
    numbers are true while answers arrive; a lost answer pays twice.

  \<^item> \<^verbatim>\<open>Sep24_Requests\<close>, \<^verbatim>\<open>Sep24_Signing\<close>, \<^verbatim>\<open>Sep24\<close>, \<^verbatim>\<open>Sep24_Sessions\<close> (\<^verbatim>\<open>stellar/sep24.ts\<close>,
    \<^verbatim>\<open>validators/sep24.ts\<close>, \<^verbatim>\<open>utils/sep24Signature.ts\<close>, \<^verbatim>\<open>routes/sep24.ts\<close>): wallets that deposit and
    withdraw through the anchor. Accepted memos can be attached, signed addresses verify until they
    expire, lazy expiry agrees with the sweep, deposits are paid once and open sessions are limited while nobody
    writes the status of ended sessions; but the signed text is ambiguous, and the routes that
    write statuses lift the limit and reopen paid deposits.

  \<^item> \<^verbatim>\<open>Provider_Health\<close>, \<^verbatim>\<open>Provider_Health_Safety\<close> (\<^verbatim>\<open>services/mobilemoney/healthCheck.ts\<close>,
    \<^verbatim>\<open>services/networkOutageFallbackService.ts\<close>, \<^verbatim>\<open>jobs/providerHealthCheck.ts\<close>): the health of telecom
    providers and the choice of a fallback. The choice avoids every known outage; failures never
    expire, and a cached check can end an outage.

  \<^item> \<^verbatim>\<open>Multisig\<close> (\<^verbatim>\<open>services/multisigCustodyLedgerService.ts\<close>, \<^verbatim>\<open>routes/adminWithdrawals.ts\<close>,
    \<^verbatim>\<open>routes/multisigCallbacks.ts\<close>): requests, signatures and payouts under arbitrary interleaving. No
    request moves without its quorum; a race, a replay and an evasion of the daily cap are runs of
    the model.

  \<^bold>\<open>Bounds.\<close> Loops of the source are structural recursions or folds; the wallet machine needs
  at most \<open>2 * (WALLET_UPDATE_MAX_RETRIES + 1) + 1\<close> steps, a queue worker at most
  \<open>15 + 3 * maxAttempts\<close> steps of the model, some of which stand for a fixed sequence of awaited calls, which is proved. The search for the shortest decimal of a
  number tries seventeen digits, enough for every binary64 number.

  \<^bold>\<open>Not modelled.\<close> HTTP routing, sessions and tokens, validation middleware and GraphQL; clients of
  telecom and accounting services; the Stellar SDK integration but for the channel accounts and SEP-24; schedulers, so that a
  health check and a recovery check are one step each and the replenisher is called, not timed;
  reports, exports, notifications and the retries of subscriptions; database connections and configuration; user interfaces and the
  code in other languages. Time zones other than UTC, strings beyond Latin-1 and the sign of zero are
  outside the model, and read-only reporting queries of the modelled components are left out.
\<close>

end
